(* ===== verification/VS_Prelude.thy ===== *)
theory VS_Prelude
  imports Main "HOL-Library.Word"
begin

text \<open>
  The prelude of the development: the machine types of the C++ sources, the operations of
  \<open>std::string\<close>, \<open><cctype>\<close> and \<open>printf\<close> that the modelled components share, and the two
  generic contracts every component instantiates (an invariant kept by a step function, a
  partial decoder that inverts an encoder).

  \<open>std::string\<close> is a list of 8-bit characters, so HOL's \<^typ>\<open>string\<close> has exactly its values.
  Character classification is that of the C locale, which is the one both programs run in.
\<close>

unbundle bit_operations_syntax

section \<open>Machine types\<close>

type_synonym u8 = "8 word"
type_synonym u16 = "16 word"
type_synonym u32 = "32 word"
type_synonym u64 = "64 word"

named_theorems vs_defs "unfolding equations of the model's one-step definitions"
named_theorems vs_strings "simplification rules for the string primitives"

section \<open>Strings\<close>

text \<open>A character array read as a C string stops at the first NUL.\<close>

definition c_str :: "string \<Rightarrow> string" where
  "c_str s = takeWhile (\<lambda>c. c \<noteq> CHR 0x00) s"

definition CR :: char where "CR = CHR 0x0D"
definition LF :: char where "LF = CHR 0x0A"
definition TAB :: char where "TAB = CHR 0x09"

text \<open>The white-space set \<open>" \t\r\n"\<close> that every \<open>find_first_not_of\<close> call of the sources uses.\<close>

definition ws4 :: "char \<Rightarrow> bool" where
  "ws4 c \<longleftrightarrow> c = CHR '' '' \<or> c = TAB \<or> c = CR \<or> c = LF"

text \<open>Trimming on both ends by a character class (find first not of, find last not of).\<close>

definition trim_by :: "(char \<Rightarrow> bool) \<Rightarrow> string \<Rightarrow> string" where
  "trim_by p s = rev (dropWhile p (rev (dropWhile p s)))"

text \<open>\<open>s.rfind(p, 0) == 0\<close>: the string starts with \<open>p\<close>.\<close>

definition starts_with :: "string \<Rightarrow> string \<Rightarrow> bool" where
  "starts_with p s \<longleftrightarrow> take (length p) s = p"

text \<open>\<open>s.find(c, pos)\<close>: the first position of \<open>c\<close> at or after \<open>pos\<close>; \<open>None\<close> is \<open>npos\<close>.\<close>

definition find_from :: "char \<Rightarrow> string \<Rightarrow> nat \<Rightarrow> nat option" where
  "find_from c s pos =
     (let r = takeWhile (\<lambda>x. x \<noteq> c) (drop pos s)
      in if pos + length r < length s then Some (pos + length r) else None)"

text \<open>\<open>s.substr(pos, n)\<close> for \<open>pos \<le> s.size()\<close>.\<close>

definition substr :: "string \<Rightarrow> nat \<Rightarrow> nat \<Rightarrow> string" where
  "substr s pos n = take n (drop pos s)"

definition to_upper :: "char \<Rightarrow> char" where
  "to_upper c = (if 97 \<le> (of_char c :: nat) \<and> (of_char c :: nat) \<le> 122
                 then char_of ((of_char c :: nat) - 32) else c)"

definition is_digit :: "char \<Rightarrow> bool" where
  "is_digit c \<longleftrightarrow> 48 \<le> (of_char c :: nat) \<and> (of_char c :: nat) \<le> 57"

definition digit_val :: "char \<Rightarrow> nat" where
  "digit_val c = of_char c - 48"

text \<open>Substring search, \<open>s.find(p) != npos\<close>.\<close>

fun contains :: "string \<Rightarrow> string \<Rightarrow> bool" where
  "contains p [] \<longleftrightarrow> p = []"
| "contains p (c # s) \<longleftrightarrow> starts_with p (c # s) \<or> contains p s"

section \<open>Numbers as text\<close>

definition digit_char :: "nat \<Rightarrow> char" where
  "digit_char d = ''0123456789ABCDEF'' ! d"

text \<open>The digits of a number in base \<open>b\<close>, most significant first: \<open>%X\<close> for 16, \<open>%u\<close> for 10.\<close>

fun digits_in :: "nat \<Rightarrow> nat \<Rightarrow> string" where
  "digits_in b n =
     (if b < 2 \<or> n < b then [digit_char n] else digits_in b (n div b) @ [digit_char (n mod b)])"

declare digits_in.simps [simp del]

text \<open>\<open>%0wX\<close>: at least \<open>w\<close> digits, zero padded on the left.\<close>

definition pad_left :: "nat \<Rightarrow> string \<Rightarrow> string" where
  "pad_left w s = replicate (w - length s) (CHR ''0'') @ s"

definition hex_pad :: "nat \<Rightarrow> nat \<Rightarrow> string" where
  "hex_pad w n = pad_left w (digits_in 16 n)"

definition dec_str :: "nat \<Rightarrow> string" where
  "dec_str n = digits_in 10 n"

definition int_str :: "int \<Rightarrow> string" where
  "int_str i = (if i < 0 then CHR ''-'' # dec_str (nat (- i)) else dec_str (nat i))"

section \<open>Library lemmas\<close>

lemma trim_by_Nil [simp]: "trim_by p [] = []"
  by (simp add: trim_by_def)

lemma trim_by_all: "(\<forall>c \<in> set s. p c) \<Longrightarrow> trim_by p s = []"
  by (simp add: trim_by_def dropWhile_eq_Nil_conv[THEN iffD2])

text \<open>A string with no trimmable character at either end is left alone.\<close>

lemma dropWhile_id: "s = [] \<or> \<not> p (hd s) \<Longrightarrow> dropWhile p s = s"
  by (cases s) auto

lemma trim_by_id:
  "s = [] \<or> (\<not> p (hd s) \<and> \<not> p (last s)) \<Longrightarrow> trim_by p s = s"
  by (auto simp: trim_by_def dropWhile_id hd_rev)

lemma hd_dropWhile_not: "dropWhile p s \<noteq> [] \<Longrightarrow> \<not> p (hd (dropWhile p s))"
  by (rule hd_dropWhile)

lemma trim_by_hd: "trim_by p s \<noteq> [] \<Longrightarrow> \<not> p (hd (trim_by p s))"
proof -
  assume ne: "trim_by p s \<noteq> []"
  let ?d = "dropWhile p s"
  have d: "?d \<noteq> []" using ne unfolding trim_by_def by (metis dropWhile.simps(1) rev.simps(1))
  have np: "\<not> p (hd ?d)" using d by (rule hd_dropWhile)
  obtain a t where at: "?d = a # t" using d by (cases ?d) auto
  have "\<not> p a" using np at by simp
  then have "rev (dropWhile p (rev (a # t))) = a # rev (dropWhile p (rev t))"
    by (cases "\<forall>x \<in> set t. p x") (auto simp: dropWhile_append dropWhile_eq_Nil_conv)
  then have "trim_by p s = a # rev (dropWhile p (rev t))"
    unfolding trim_by_def at .
  then show ?thesis using \<open>\<not> p a\<close> by simp
qed

lemma trim_by_last: "trim_by p s \<noteq> [] \<Longrightarrow> \<not> p (last (trim_by p s))"
  by (simp add: trim_by_def last_rev hd_dropWhile)

lemma trim_by_idem [simp]: "trim_by p (trim_by p s) = trim_by p s"
  by (rule trim_by_id) (metis trim_by_hd trim_by_last)

lemma length_trim_by: "length (trim_by p s) \<le> length s"
  by (simp add: trim_by_def) (metis length_dropWhile_le length_rev le_trans)

lemma starts_with_append [simp]: "starts_with p (p @ s)"
  by (simp add: starts_with_def)

lemma starts_with_length: "starts_with p s \<Longrightarrow> length p \<le> length s"
  by (metis starts_with_def length_take min.cobounded1)

lemma starts_with_split: "starts_with p s \<Longrightarrow> s = p @ drop (length p) s"
  by (metis starts_with_def append_take_drop_id)

lemma find_from_append:
  assumes "c \<notin> set u" "pos = length t"
  shows "find_from c (t @ u @ c # v) pos = Some (length t + length u)"
proof -
  have "takeWhile (\<lambda>x. x \<noteq> c) (u @ c # v) = u"
    using assms(1) by (simp add: takeWhile_append)
  then show ?thesis using assms(2) by (simp add: find_from_def)
qed

lemma find_from_None: "c \<notin> set (drop pos s) \<Longrightarrow> find_from c s pos = None"
proof -
  assume "c \<notin> set (drop pos s)"
  then have e: "takeWhile (\<lambda>x. x \<noteq> c) (drop pos s) = drop pos s"
    by (intro takeWhile_eq_all_conv[THEN iffD2]) auto
  show ?thesis by (simp add: find_from_def Let_def e)
qed

lemma find_from_lt: "find_from c s pos = Some i \<Longrightarrow> pos \<le> i \<and> i < length s"
  by (auto simp: find_from_def Let_def split: if_splits)

lemma find_from_nth: "find_from c s pos = Some i \<Longrightarrow> s ! i = c"
proof -
  let ?P = "\<lambda>x. x \<noteq> c" and ?d = "drop pos s"
  assume a: "find_from c s pos = Some i"
  then have i: "i = pos + length (takeWhile ?P ?d)" and l: "i < length s"
    by (auto simp: find_from_def Let_def split: if_splits)
  then have "length (takeWhile ?P ?d) < length ?d" by simp
  then have "\<not> ?P (?d ! length (takeWhile ?P ?d))" by (rule nth_length_takeWhile)
  then show ?thesis using i l by simp
qed

lemma digits_in_small: "n < b \<Longrightarrow> digits_in b n = [digit_char n]"
  by (subst digits_in.simps) simp

lemma digits_in_nonempty [simp]: "digits_in b n \<noteq> []"
  by (subst digits_in.simps) simp

lemma u8_lt: "unat (w :: u8) < 256"
  using unsigned_less[of w] by simp

lemma u16_lt: "unat (w :: u16) < 65536"
  using unsigned_less[of w] by simp

lemma u32_lt: "unat (w :: u32) < 2 ^ 32"
  using unsigned_less[of w] by simp

section \<open>Two generic contracts\<close>

text \<open>
  A component that keeps an invariant over every operation keeps it over every sequence of
  operations. Each stateful component interprets this contract with its own step function.
\<close>

locale step_invariant =
  fixes step :: "'s \<Rightarrow> 'e \<Rightarrow> 's"
    and inv :: "'s \<Rightarrow> bool"
  assumes step_inv: "inv s \<Longrightarrow> inv (step s e)"
begin

lemma run_inv: "inv s \<Longrightarrow> inv (foldl step s es)"
  by (induction es arbitrary: s) (auto intro: step_inv)

lemma run_prefix_inv: "inv s \<Longrightarrow> es = us @ vs \<Longrightarrow> inv (foldl step s us)"
  by (simp add: run_inv)

end

text \<open>
  A decoder contract: on the values the encoder accepts, decoding inverts encoding. Two
  encoder/decoder pairs that meet on a common text are the firmware and the host of this
  system, which is why the contract is stated once and interpreted for each wire format.
\<close>

locale codec =
  fixes enc :: "'a \<Rightarrow> 'b"
    and dec :: "'b \<Rightarrow> 'a option"
    and valid :: "'a \<Rightarrow> bool"
  assumes dec_enc: "valid x \<Longrightarrow> dec (enc x) = Some x"
begin

lemma enc_inj: "valid x \<Longrightarrow> valid y \<Longrightarrow> enc x = enc y \<Longrightarrow> x = y"
  by (metis dec_enc option.inject)

lemma dec_enc_list: "\<forall>x \<in> set xs. valid x \<Longrightarrow> map (dec \<circ> enc) xs = map Some xs"
  by (induction xs) (auto simp: dec_enc)

end

end
