(* ===== verification/FW_Prefs.thy ===== *)
theory FW_Prefs
  imports VS_Prelude
begin

text \<open>
  The key/value store behind the firmware's persistence, \<open>IPreferences\<close> of
  \<open>firmware/vanilla/WiFiManager.h\<close>: the operations its clients call are a record of functions,
  the laws they rely on are the locale \<open>prefs_laws\<close>. There are two providers. On the device it is
  the wrapper \<open>firmware/can-bridge/ArduinoPreferences.h\<close> over the Arduino \<open>Preferences\<close> library;
  the library is not part of the repository, so it is a record of functions whose documented
  behaviour is the locale \<open>nvs_laws\<close>, and the wrapper is proved to keep the laws of the interface
  over every such library. In the tests it is \<open>firmware/mocks/PreferencesMock.h\<close>, for which both
  sets of laws are proved.

  \<open>TokenStore\<close> (\<open>firmware/vanilla/TokenStore.cpp\<close>), the smaller of the two clients, is modelled
  here as well.
\<close>

section \<open>C strings\<close>

text \<open>The text has no NUL, so that reading it as a C string changes nothing.\<close>

definition nul_free :: "string \<Rightarrow> bool" where
  "nul_free s \<longleftrightarrow> CHR 0x00 \<notin> set s"

lemma c_str_id: "CHR 0x00 \<notin> set s \<Longrightarrow> c_str s = s"
  unfolding c_str_def by (rule takeWhile_eq_all_conv[THEN iffD2]) auto

lemma c_str_free: "nul_free s \<Longrightarrow> c_str s = s"
  by (simp add: nul_free_def c_str_id)

lemma c_str_nul_free [simp]: "nul_free (c_str s)"
  by (auto simp: nul_free_def c_str_def dest: set_takeWhileD)

lemma c_str_cut: "nul_free a \<Longrightarrow> c_str (a @ CHR 0x00 # b) = a"
  by (auto simp: nul_free_def c_str_def takeWhile_append)

section \<open>The interface\<close>

record 'p prefs_if =
  pf_begin :: "'p \<Rightarrow> string \<Rightarrow> bool \<Rightarrow> 'p"
  pf_end :: "'p \<Rightarrow> 'p"
  pf_len :: "'p \<Rightarrow> string \<Rightarrow> nat"
  pf_get :: "'p \<Rightarrow> string \<Rightarrow> string \<Rightarrow> string"
  pf_put :: "'p \<Rightarrow> string \<Rightarrow> string \<Rightarrow> nat \<times> 'p"
  pf_clear :: "'p \<Rightarrow> 'p"

text \<open>
  \<open>view p (ns, k)\<close> is the stored text (empty when absent), \<open>ns_of p\<close> the namespace \<open>begin\<close>
  opened, \<open>writable p\<close> whether a put can reach the store at all. A put may store less than it was
  given only for a text with a NUL in it.
\<close>

locale prefs_laws =
  fixes pf :: "'p prefs_if"
    and view :: "'p \<Rightarrow> string \<times> string \<Rightarrow> string"
    and ns_of :: "'p \<Rightarrow> string"
    and writable :: "'p \<Rightarrow> bool"
  assumes view_begin: "view (pf_begin pf p n ro) = view p"
    and ns_begin: "ns_of (pf_begin pf p n ro) = n"
    and view_end: "view (pf_end pf p) = view p"
    and writable_begin: "n \<noteq> [] \<Longrightarrow> writable (pf_begin pf p n False)"
    and len_view: "ns_of p \<noteq> [] \<Longrightarrow> pf_len pf p k = length (view p (ns_of p, k))"
    and get_view: "ns_of p \<noteq> [] \<Longrightarrow> pf_get pf p k [] = view p (ns_of p, k)"
    and put_ok: "pf_put pf p k v = (m, q) \<Longrightarrow> 0 < m \<Longrightarrow>
      (\<exists>u. view q = (view p)((ns_of p, k) := u) \<and> (nul_free v \<longrightarrow> u = v)) \<and>
      ns_of q = ns_of p \<and> writable q = writable p"
    and put_fail: "pf_put pf p k v = (0, q) \<Longrightarrow>
      (view q = view p \<or> view q = (view p)((ns_of p, k) := [])) \<and> ns_of q = ns_of p"
    and clear_view: "writable p \<Longrightarrow>
      view (pf_clear pf p) = (\<lambda>(n, k). if n = ns_of p then [] else view p (n, k))"
begin

lemma read_session:
  assumes "n \<noteq> []"
  shows "pf_len pf (pf_begin pf p n True) k = length (view p (n, k))"
    and "pf_get pf (pf_begin pf p n True) k [] = view p (n, k)"
  using assms by (simp_all add: len_view get_view ns_begin view_begin)

lemma put_text:
  assumes "pf_put pf p k v = (m, q)" and "0 < m" and "nul_free v"
  shows "view q = (view p)((ns_of p, k) := v)" and "ns_of q = ns_of p"
  using put_ok[OF assms(1,2)] assms(3) by auto

lemma put_session:
  assumes "pf_put pf (pf_begin pf p n False) k v = (m, q)" and "0 < m" and "nul_free v"
  shows "view (pf_end pf q) = (view p)((n, k) := v)"
  using put_text[OF assms] by (simp add: view_end view_begin ns_begin)

lemma clear_session:
  assumes "n \<noteq> []"
  shows "view (pf_end pf (pf_clear pf (pf_begin pf p n False))) =
    (\<lambda>(m, k). if m = n then [] else view p (m, k))"
  using assms by (simp add: view_end clear_view writable_begin view_begin ns_begin fun_eq_iff)

end

text \<open>
  A store that never runs out of space: a put of a non-empty text through a writable handle
  succeeds. The in-memory provider is one; a flash partition need not be.
\<close>

locale reliable_prefs = prefs_laws +
  assumes put_writable: "writable p \<Longrightarrow> v \<noteq> [] \<Longrightarrow> nul_free v \<Longrightarrow> 0 < fst (pf_put pf p k v)"

section \<open>The provider: PreferencesMock\<close>

text \<open>
  \<open>storage_\<close> is a map from namespace and key to text; the nested \<open>std::map\<close> is flattened to one
  map on pairs (an empty inner map and a missing one are not distinguished by any operation).
\<close>

record mock_prefs =
  storage :: "string \<times> string \<Rightarrow> string option"
  currentNamespace :: string
  readOnly :: bool

definition mock_begin :: "mock_prefs \<Rightarrow> string \<Rightarrow> bool \<Rightarrow> mock_prefs" where
  "mock_begin p n ro = p\<lparr>currentNamespace := n, readOnly := ro\<rparr>"

definition mock_end :: "mock_prefs \<Rightarrow> mock_prefs" where
  "mock_end p = p\<lparr>currentNamespace := [], readOnly := False\<rparr>"

definition mock_getBytesLength :: "mock_prefs \<Rightarrow> string \<Rightarrow> nat" where
  "mock_getBytesLength p k =
     (if currentNamespace p = [] then 0
      else case storage p (currentNamespace p, k) of None \<Rightarrow> 0 | Some v \<Rightarrow> length v)"

definition mock_getString :: "mock_prefs \<Rightarrow> string \<Rightarrow> string \<Rightarrow> string" where
  "mock_getString p k d =
     (if currentNamespace p = [] then d
      else case storage p (currentNamespace p, k) of None \<Rightarrow> d | Some v \<Rightarrow> v)"

definition mock_putString :: "mock_prefs \<Rightarrow> string \<Rightarrow> string \<Rightarrow> nat \<times> mock_prefs" where
  "mock_putString p k v =
     (if currentNamespace p = [] \<or> readOnly p then (0, p)
      else (length v, p\<lparr>storage := (storage p)((currentNamespace p, k) \<mapsto> v)\<rparr>))"

definition mock_clear :: "mock_prefs \<Rightarrow> mock_prefs" where
  "mock_clear p =
     (if currentNamespace p = [] \<or> readOnly p then p
      else p\<lparr>storage := (\<lambda>(n, k). if n = currentNamespace p then None else storage p (n, k))\<rparr>)"

definition mock_if :: "mock_prefs prefs_if" where
  "mock_if = \<lparr>pf_begin = mock_begin, pf_end = mock_end, pf_len = mock_getBytesLength,
     pf_get = mock_getString, pf_put = mock_putString, pf_clear = mock_clear\<rparr>"

definition mock_view :: "mock_prefs \<Rightarrow> string \<times> string \<Rightarrow> string" where
  "mock_view p nk = (case storage p nk of None \<Rightarrow> [] | Some v \<Rightarrow> v)"

definition mock_writable :: "mock_prefs \<Rightarrow> bool" where
  "mock_writable p \<longleftrightarrow> currentNamespace p \<noteq> [] \<and> \<not> readOnly p"

lemmas mock_ops = mock_if_def mock_begin_def mock_end_def mock_getBytesLength_def
  mock_getString_def mock_putString_def mock_clear_def mock_view_def mock_writable_def

interpretation mock: reliable_prefs mock_if mock_view currentNamespace mock_writable
  by unfold_locales
    (auto simp: mock_ops fun_eq_iff intro!: exI split: option.splits if_splits)

definition mock_empty :: mock_prefs where
  "mock_empty = \<lparr>storage = (\<lambda>_. None), currentNamespace = [], readOnly = False\<rparr>"

section \<open>The provider on the device: ArduinoPreferences\<close>

text \<open>
  The calls the wrapper makes of the Arduino library: \<open>getBytesLength\<close> (for blobs),
  \<open>getString\<close> with an empty default, and the rest.
\<close>

record 'p nvs_lib =
  nv_begin :: "'p \<Rightarrow> string \<Rightarrow> bool \<Rightarrow> 'p"
  nv_end :: "'p \<Rightarrow> 'p"
  nv_blobLen :: "'p \<Rightarrow> string \<Rightarrow> nat"
  nv_getString :: "'p \<Rightarrow> string \<Rightarrow> string"
  nv_putString :: "'p \<Rightarrow> string \<Rightarrow> string \<Rightarrow> nat \<times> 'p"
  nv_clear :: "'p \<Rightarrow> 'p"

definition arduino_getBytesLength :: "'p nvs_lib \<Rightarrow> 'p \<Rightarrow> string \<Rightarrow> nat" where
  "arduino_getBytesLength lib p k =
     (let blobLen = nv_blobLen lib p k
      in if 0 < blobLen then blobLen else length (nv_getString lib p k))"

definition arduino_getString :: "'p nvs_lib \<Rightarrow> 'p \<Rightarrow> string \<Rightarrow> string \<Rightarrow> string" where
  "arduino_getString lib p k defaultValue =
     (let result = nv_getString lib p k
      in if result = [] then defaultValue else c_str result)"

text \<open>The value is handed over as a C string, so it ends at its first NUL.\<close>

definition arduino_putString :: "'p nvs_lib \<Rightarrow> 'p \<Rightarrow> string \<Rightarrow> string \<Rightarrow> nat \<times> 'p" where
  "arduino_putString lib p k v = nv_putString lib p k (c_str v)"

definition arduino_if :: "'p nvs_lib \<Rightarrow> 'p prefs_if" where
  "arduino_if lib = \<lparr>pf_begin = nv_begin lib, pf_end = nv_end lib,
     pf_len = arduino_getBytesLength lib, pf_get = arduino_getString lib,
     pf_put = arduino_putString lib, pf_clear = nv_clear lib\<rparr>"

lemmas arduino_ops = arduino_if_def arduino_getBytesLength_def arduino_getString_def
  arduino_putString_def

text \<open>
  What the library documents: it holds C strings, a string put answers the length written or 0,
  a string entry has no blob length, and clearing empties the open namespace.
\<close>

locale nvs_laws =
  fixes lib :: "'p nvs_lib"
    and view :: "'p \<Rightarrow> string \<times> string \<Rightarrow> string"
    and ns_of :: "'p \<Rightarrow> string"
    and writable :: "'p \<Rightarrow> bool"
  assumes nv_text: "nul_free (nv_getString lib p k)"
    and nv_view_begin: "view (nv_begin lib p n ro) = view p"
    and nv_ns_begin: "ns_of (nv_begin lib p n ro) = n"
    and nv_view_end: "view (nv_end lib p) = view p"
    and nv_writable_begin: "n \<noteq> [] \<Longrightarrow> writable (nv_begin lib p n False)"
    and nv_no_blob: "nv_blobLen lib p k = 0"
    and nv_get_view: "ns_of p \<noteq> [] \<Longrightarrow> nv_getString lib p k = view p (ns_of p, k)"
    and nv_put_ok: "nv_putString lib p k v = (m, q) \<Longrightarrow> 0 < m \<Longrightarrow> nul_free v \<Longrightarrow>
      view q = (view p)((ns_of p, k) := v) \<and> ns_of q = ns_of p \<and> writable q = writable p"
    and nv_put_fail: "nv_putString lib p k v = (0, q) \<Longrightarrow> nul_free v \<Longrightarrow>
      (view q = view p \<or> view q = (view p)((ns_of p, k) := [])) \<and> ns_of q = ns_of p"
    and nv_clear_view: "writable p \<Longrightarrow>
      view (nv_clear lib p) = (\<lambda>(n, k). if n = ns_of p then [] else view p (n, k))"
begin

lemma put_arduino:
  assumes "pf_put (arduino_if lib) p k v = (m, q)" and "0 < m"
  shows "view q = (view p)((ns_of p, k) := c_str v)"
  using assms nv_put_ok[of p k "c_str v"] by (auto simp: arduino_ops)

lemma get_arduino:
  "ns_of p \<noteq> [] \<Longrightarrow> pf_get (arduino_if lib) p k d =
    (if view p (ns_of p, k) = [] then d else view p (ns_of p, k))"
  using nv_text[of p k] by (simp add: arduino_ops nv_get_view c_str_free)

end

sublocale nvs_laws \<subseteq> arduino: prefs_laws "arduino_if lib" view ns_of writable
proof unfold_locales
  fix p n ro k v m q
  show "view (pf_begin (arduino_if lib) p n ro) = view p" "ns_of (pf_begin (arduino_if lib) p n ro) = n"
    "view (pf_end (arduino_if lib) p) = view p"
    by (simp_all add: arduino_ops nv_view_begin nv_ns_begin nv_view_end)
  show "n \<noteq> [] \<Longrightarrow> writable (pf_begin (arduino_if lib) p n False)"
    by (simp add: arduino_ops nv_writable_begin)
  show "ns_of p \<noteq> [] \<Longrightarrow> pf_len (arduino_if lib) p k = length (view p (ns_of p, k))"
    by (simp add: arduino_ops nv_no_blob nv_get_view)
  show "ns_of p \<noteq> [] \<Longrightarrow> pf_get (arduino_if lib) p k [] = view p (ns_of p, k)"
    by (simp add: get_arduino)
  show "pf_put (arduino_if lib) p k v = (m, q) \<Longrightarrow> 0 < m \<Longrightarrow>
      (\<exists>u. view q = (view p)((ns_of p, k) := u) \<and> (nul_free v \<longrightarrow> u = v)) \<and>
      ns_of q = ns_of p \<and> writable q = writable p"
    using nv_put_ok[of p k "c_str v" m q] by (auto simp: arduino_ops c_str_free intro!: exI)
  show "pf_put (arduino_if lib) p k v = (0, q) \<Longrightarrow>
      (view q = view p \<or> view q = (view p)((ns_of p, k) := [])) \<and> ns_of q = ns_of p"
    using nv_put_fail[of p k "c_str v" q] by (simp add: arduino_ops)
  show "writable p \<Longrightarrow> view (pf_clear (arduino_if lib) p) =
      (\<lambda>(n, k). if n = ns_of p then [] else view p (n, k))"
    by (simp add: arduino_ops nv_clear_view)
qed

locale reliable_nvs = nvs_laws +
  assumes nv_put_writable: "writable p \<Longrightarrow> v \<noteq> [] \<Longrightarrow> nul_free v \<Longrightarrow> 0 < fst (nv_putString lib p k v)"

sublocale reliable_nvs \<subseteq> arduino: reliable_prefs "arduino_if lib" view ns_of writable
  by unfold_locales (simp add: arduino_ops c_str_free nv_put_writable)

context reliable_nvs begin

lemma arduino_reliable: "reliable_prefs (arduino_if lib) view ns_of writable"
  by (rule arduino.reliable_prefs_axioms)

lemma arduino_reads_back:
  assumes "pf_put (arduino_if lib) (pf_begin (arduino_if lib) p n False) k v = (m, q)" "0 < m" "n \<noteq> []"
  shows "pf_get (arduino_if lib) (pf_begin (arduino_if lib) (pf_end (arduino_if lib) q) n True) k [] = c_str v"
  using put_arduino[OF assms(1,2)] arduino.read_session(2)[OF assms(3)]
  by (simp add: arduino.view_end arduino.ns_begin)

lemma arduino_probe:
  "n \<noteq> [] \<Longrightarrow> pf_len (arduino_if lib) (pf_begin (arduino_if lib) p n True) k =
    length (pf_get (arduino_if lib) (pf_begin (arduino_if lib) p n True) k [])"
  by (simp add: arduino.read_session)

end

text \<open>\<open>PreferencesMock\<close> in the place of the library, behind the wrapper.\<close>

definition mock_lib :: "mock_prefs nvs_lib" where
  "mock_lib = \<lparr>nv_begin = mock_begin, nv_end = mock_end, nv_blobLen = (\<lambda>_ _. 0),
     nv_getString = (\<lambda>p k. c_str (mock_getString p k [])), nv_putString = mock_putString,
     nv_clear = mock_clear\<rparr>"

definition mock_text :: "mock_prefs \<Rightarrow> string \<times> string \<Rightarrow> string" where
  "mock_text p nk = c_str (mock_view p nk)"

interpretation mock_nvs: reliable_nvs mock_lib mock_text currentNamespace mock_writable
  by unfold_locales
    (auto simp: mock_lib_def mock_text_def mock_ops fun_eq_iff c_str_free c_str_def[of "[]"]
      split: option.splits if_splits)

text \<open>
  Over every preferences library that behaves as documented, the
  device's wrapper keeps the laws of the interface, so that every theorem on credentials and
  tokens holds on the device; in particular a probe for a key answers the length of the text that
  a read returns, and a put of any text, up to its first NUL, is what the next read returns.
\<close>

theorem the_device_store_keeps_the_laws:
  assumes "reliable_nvs lib view ns_of writable" and "n \<noteq> []"
  shows "reliable_prefs (arduino_if lib) view ns_of writable \<and>
    pf_len (arduino_if lib) (pf_begin (arduino_if lib) p n True) k =
      length (pf_get (arduino_if lib) (pf_begin (arduino_if lib) p n True) k []) \<and>
    (\<forall>m q. pf_put (arduino_if lib) (pf_begin (arduino_if lib) p n False) k v = (m, q) \<and> 0 < m \<longrightarrow>
       pf_get (arduino_if lib) (pf_begin (arduino_if lib) (pf_end (arduino_if lib) q) n True) k [] = c_str v)"
  using reliable_nvs.arduino_reliable[OF assms(1)] reliable_nvs.arduino_probe[OF assms]
    reliable_nvs.arduino_reads_back[OF assms(1) _ _ assms(2)] by blast

theorem the_device_store_keeps_the_laws_witness:
  "reliable_prefs (arduino_if mock_lib) mock_text currentNamespace mock_writable"
  by (rule the_device_store_keeps_the_laws[OF mock_nvs.reliable_nvs_axioms, of "''wifi''", THEN conjunct1])
    simp

section \<open>TokenStore\<close>

definition NVS_TOKEN_NAMESPACE :: string where "NVS_TOKEN_NAMESPACE = ''auth''"
definition NVS_TOKEN_KEY :: string where "NVS_TOKEN_KEY = ''token''"

record 'p token_store =
  prefsStore :: 'p
  token :: string
  bakedDefault :: string
  lastLoadedPresent :: bool
  loadedValue :: string

definition token_store_new :: "'p \<Rightarrow> string \<Rightarrow> 'p token_store" where
  "token_store_new p baked =
     \<lparr>prefsStore = p, token = baked, bakedDefault = baked, lastLoadedPresent = False, loadedValue = []\<rparr>"

text \<open>\<open>load\<close> returns a pointer to the member \<open>loadedValue_\<close>, or a null pointer.\<close>

definition token_load :: "'p prefs_if \<Rightarrow> 'p token_store \<Rightarrow> string option \<times> 'p token_store" where
  "token_load pf t =
     (let p1 = pf_begin pf (prefsStore t) NVS_TOKEN_NAMESPACE True;
          v = pf_get pf p1 NVS_TOKEN_KEY [];
          t1 = t\<lparr>prefsStore := pf_end pf p1\<rparr>
      in if v = [] then (None, t1\<lparr>lastLoadedPresent := False\<rparr>)
         else (Some v, t1\<lparr>loadedValue := v, lastLoadedPresent := True\<rparr>))"

definition token_storeToken :: "'p prefs_if \<Rightarrow> 'p token_store \<Rightarrow> string \<Rightarrow> bool \<times> 'p token_store" where
  "token_storeToken pf t tok =
     (let p1 = pf_begin pf (prefsStore t) NVS_TOKEN_NAMESPACE False;
          (n, p2) = pf_put pf p1 NVS_TOKEN_KEY tok;
          t1 = t\<lparr>prefsStore := pf_end pf p2\<rparr>
      in if 0 < n then (True, t1\<lparr>token := tok, lastLoadedPresent := True\<rparr>) else (False, t1))"

definition token_loadOrDefault :: "'p prefs_if \<Rightarrow> 'p token_store \<Rightarrow> string \<times> 'p token_store" where
  "token_loadOrDefault pf t =
     (let (r, t1) = token_load pf t;
          tk = (case r of Some v \<Rightarrow> v | None \<Rightarrow> bakedDefault t1)
      in (tk, t1\<lparr>token := tk\<rparr>))"

definition token_isEmpty :: "'p token_store \<Rightarrow> bool" where
  "token_isEmpty t \<longleftrightarrow> \<not> lastLoadedPresent t"

context prefs_laws begin

lemma token_roundtrip:
  assumes "token_storeToken pf t tok = (True, t')" and "tok \<noteq> []" and "nul_free tok"
  shows "token t' = tok \<and> fst (token_load pf t') = Some tok"
proof -
  have ns: "NVS_TOKEN_NAMESPACE \<noteq> []" by (simp add: NVS_TOKEN_NAMESPACE_def)
  obtain m q where q: "pf_put pf (pf_begin pf (prefsStore t) NVS_TOKEN_NAMESPACE False)
      NVS_TOKEN_KEY tok = (m, q)" by fastforce
  have m: "0 < m" and t': "prefsStore t' = pf_end pf q" "token t' = tok"
    using assms(1) q by (auto simp: token_storeToken_def Let_def split: if_splits)
  have "pf_get pf (pf_begin pf (pf_end pf q) NVS_TOKEN_NAMESPACE True) NVS_TOKEN_KEY [] = tok"
    using read_session(2)[OF ns, of "pf_end pf q" NVS_TOKEN_KEY] put_session[OF q m assms(3)] by simp
  then show ?thesis
    using t' assms(2) by (simp add: token_load_def)
qed

lemma token_default:
  assumes "view (prefsStore t) (NVS_TOKEN_NAMESPACE, NVS_TOKEN_KEY) = []"
  shows "fst (token_loadOrDefault pf t) = bakedDefault t"
  using assms read_session(2)[of NVS_TOKEN_NAMESPACE "prefsStore t" NVS_TOKEN_KEY]
  by (simp add: token_loadOrDefault_def token_load_def NVS_TOKEN_NAMESPACE_def Let_def)

end

context reliable_prefs begin

lemma token_store_succeeds: "tok \<noteq> [] \<Longrightarrow> nul_free tok \<Longrightarrow> fst (token_storeToken pf t tok)"
  using put_writable[OF writable_begin, of NVS_TOKEN_NAMESPACE tok "prefsStore t" NVS_TOKEN_KEY]
  by (simp add: token_storeToken_def split_beta NVS_TOKEN_NAMESPACE_def)

end

text \<open>
  A token that \<open>storeToken\<close> accepted is the token the device authenticates with,
  now and after a reload from any store that keeps the preference laws, whatever token was
  baked in; and a store that does not run out of space accepts every non-empty token without a NUL.
\<close>

theorem token_persists:
  assumes "reliable_prefs pf view ns_of writable" and "tok \<noteq> []" and "nul_free tok"
  shows "\<exists>t'. token_storeToken pf t tok = (True, t') \<and> token t' = tok \<and>
    fst (token_loadOrDefault pf t') = tok \<and>
    fst (token_loadOrDefault pf (token_store_new (prefsStore t') baked)) = tok"
proof -
  note laws = reliable_prefs.axioms(1)[OF assms(1)]
  obtain t' where t': "token_storeToken pf t tok = (True, t')"
    using reliable_prefs.token_store_succeeds[OF assms] by (metis eq_fst_iff)
  note rt = prefs_laws.token_roundtrip[OF laws t' assms(2,3)]
  have "fst (token_load pf (token_store_new (prefsStore t') baked)) = fst (token_load pf t')"
    by (simp add: token_load_def token_store_new_def Let_def)
  then have "fst (token_loadOrDefault pf (token_store_new (prefsStore t') baked)) = tok"
    "fst (token_loadOrDefault pf t') = tok"
    using rt by (simp_all add: token_loadOrDefault_def split_beta)
  then show ?thesis using t' rt by blast
qed

theorem token_persists_witness:
  "\<exists>t'. token_storeToken mock_if (token_store_new mock_empty ''baked'') ''s3cret'' = (True, t') \<and>
     token t' = ''s3cret'' \<and> fst (token_loadOrDefault mock_if t') = ''s3cret'' \<and>
     fst (token_loadOrDefault mock_if (token_store_new (prefsStore t') ''other'')) = ''s3cret''"
  by (rule token_persists[OF mock.reliable_prefs_axioms]) (simp_all add: nul_free_def)

end
