(* ===== verification/FW_WiFi.thy ===== *)
theory FW_WiFi
  imports FW_Prefs
begin

text \<open>
  The WiFi life-cycle state machine, \<open>firmware/vanilla/WiFiManager.{h,cpp}\<close>: the connection
  context, the four state handlers, the authentication campaign, the disconnect event, the
  credential store and the single place that applies a transition.

  A tick takes the radio's view of the world (\<open>radio\<close>: the values \<open>status()\<close> and \<open>localIP()\<close>
  return during that tick) and the clock, and returns the new context together with the calls
  made on the hardware and on the registered callbacks, in order (\<open>wifi_eff\<close>). Times are 32-bit
  words: \<open>now - x\<close> wraps exactly as the \<open>uint32_t\<close> arithmetic of the code does. The \<open>int\<close>
  members (reason codes and campaign counters) are HOL integers. A read of the preferences opens
  and closes a namespace on the handle; the reopened handle carries no information and is not
  threaded, while a write is.
\<close>

section \<open>Constants\<close>

definition WIFI_CONNECT_RETRY_INTERVAL_MS :: u32 where "WIFI_CONNECT_RETRY_INTERVAL_MS = 5000"
definition WIFI_CONNECT_FIRST_RETRIES_MS :: u32 where "WIFI_CONNECT_FIRST_RETRIES_MS = 0"
definition WIFI_CONNECT_FIRST_RETRIES_COUNT :: u32 where "WIFI_CONNECT_FIRST_RETRIES_COUNT = 5"
definition WIFI_CONNECT_TIMEOUT_MS :: u32 where "WIFI_CONNECT_TIMEOUT_MS = 30000"
definition WIFI_INITIAL_CONNECT_MAX_RETRIES :: u32 where "WIFI_INITIAL_CONNECT_MAX_RETRIES = 60"
definition WIFI_AP_MODE_STA_RETRY_INTERVAL_MS :: u32 where
  "WIFI_AP_MODE_STA_RETRY_INTERVAL_MS = 300000"
definition WIFI_AUTH_STRATEGY_COUNT :: int where "WIFI_AUTH_STRATEGY_COUNT = 3"
definition WIFI_AUTH_STRATEGY_LOOP_COUNT :: int where "WIFI_AUTH_STRATEGY_LOOP_COUNT = 3"
definition LONG_OUTAGE_MS :: u32 where "LONG_OUTAGE_MS = 30000"
definition AP_SSID :: string where "AP_SSID = ''ESP32-CAN''"
definition AP_PASS :: string where "AP_PASS = ''cancan12''"
definition WIFI_HOSTNAME :: string where "WIFI_HOSTNAME = ''esp32-can''"
definition NVS_WIFI_NAMESPACE :: string where "NVS_WIFI_NAMESPACE = ''wifi''"
definition NVS_WIFI_CRED_COUNT :: string where "NVS_WIFI_CRED_COUNT = ''cred_count''"
definition NVS_WIFI_SSID :: string where "NVS_WIFI_SSID = ''ssid_0''"
definition NVS_WIFI_PASS :: string where "NVS_WIFI_PASS = ''pass_0''"

lemmas wifi_consts = WIFI_CONNECT_RETRY_INTERVAL_MS_def WIFI_CONNECT_FIRST_RETRIES_MS_def
  WIFI_CONNECT_FIRST_RETRIES_COUNT_def WIFI_CONNECT_TIMEOUT_MS_def
  WIFI_INITIAL_CONNECT_MAX_RETRIES_def WIFI_AP_MODE_STA_RETRY_INTERVAL_MS_def
  WIFI_AUTH_STRATEGY_COUNT_def WIFI_AUTH_STRATEGY_LOOP_COUNT_def LONG_OUTAGE_MS_def

lemmas nvs_keys = NVS_WIFI_NAMESPACE_def NVS_WIFI_CRED_COUNT_def NVS_WIFI_SSID_def NVS_WIFI_PASS_def

section \<open>States, context and transitions\<close>

datatype WiFiState =
    WIFI_DISCONNECTED | WIFI_CONNECTING | WIFI_CONNECTED
  | WIFI_AP_MODE_DEFAULT | WIFI_AP_MODE_AUTH_FAIL | WIFI_AP_MODE_NO_AP

text \<open>The enumerators' ordinals, which \<open>selectLedPattern\<close> is given.\<close>

fun state_ordinal :: "WiFiState \<Rightarrow> int" where
  "state_ordinal WIFI_DISCONNECTED = 0"
| "state_ordinal WIFI_CONNECTING = 1"
| "state_ordinal WIFI_CONNECTED = 2"
| "state_ordinal WIFI_AP_MODE_DEFAULT = 3"
| "state_ordinal WIFI_AP_MODE_AUTH_FAIL = 4"
| "state_ordinal WIFI_AP_MODE_NO_AP = 5"

definition isApModeState :: "WiFiState \<Rightarrow> bool" where
  "isApModeState s \<longleftrightarrow> s = WIFI_AP_MODE_DEFAULT \<or> s = WIFI_AP_MODE_AUTH_FAIL \<or>
     s = WIFI_AP_MODE_NO_AP"

record wifi_ctx =
  state :: WiFiState
  lastRetryMs :: u32
  connectStartTime :: u32
  lastDisconnectReason :: int
  tcpServerNeedsRestart :: bool
  escalatedToApReason :: int
  lastConnectedIp :: string
  reconnectPending :: bool
  disconnectStartMs :: u32
  reconnectAttempts :: u32
  pendingAuthFail :: bool
  authFailStrategyIndex :: int
  authFailStrategyLoop :: int
  apModeStaRetryMs :: u32

definition ctx_init :: wifi_ctx where
  "ctx_init = \<lparr>state = WIFI_DISCONNECTED, lastRetryMs = 0, connectStartTime = 0,
     lastDisconnectReason = 0, tcpServerNeedsRestart = False, escalatedToApReason = 0,
     lastConnectedIp = [], reconnectPending = False, disconnectStartMs = 0,
     reconnectAttempts = 0, pendingAuthFail = False, authFailStrategyIndex = 0,
     authFailStrategyLoop = 0, apModeStaRetryMs = 0\<rparr>"

datatype CredentialSource = NONE | STORED_NVS | BAKED_IN

record StateTransition =
  nextState :: WiFiState
  setTcpServerRestartFlag :: bool
  initNtp :: bool

definition stay :: "WiFiState \<Rightarrow> StateTransition" where
  "stay s = \<lparr>nextState = s, setTcpServerRestartFlag = False, initNtp = False\<rparr>"

text \<open>
  What the environment answers during one tick, what the manager was constructed with (the
  baked-in credentials are possibly null C strings; each callback may be unset), and the calls
  it makes.
\<close>

record radio =
  status :: int
  localIP :: string

record 'p wifi_cfg =
  w_pf :: "'p prefs_if"
  bakedSsid :: "string option"
  bakedPass :: "string option"
  ntpInitCallback :: bool
  tcpServerRestartCallback :: bool
  discoveryResetCallback :: bool

datatype wifi_eff =
    SetMode int
  | SetHostname string
  | Begin string string
  | Disconnect bool bool
  | SoftAP string string
  | DiscoveryReset
  | TcpRestart
  | NtpInit
  | TraceTransition WiFiState WiFiState
  | TraceReconnecting WiFiState int
  | TraceAuthFail WiFiState int int int
  | TraceAuthExhausted WiFiState int

text \<open>The calls that reach the radio hardware.\<close>

fun is_radio_eff :: "wifi_eff \<Rightarrow> bool" where
  "is_radio_eff (SetMode _) = True"
| "is_radio_eff (SetHostname _) = True"
| "is_radio_eff (Begin _ _) = True"
| "is_radio_eff (Disconnect _ _) = True"
| "is_radio_eff (SoftAP _ _) = True"
| "is_radio_eff _ = False"

section \<open>Disconnect reasons\<close>

definition WIFI_REASON_AUTH_EXPIRE :: int where "WIFI_REASON_AUTH_EXPIRE = 2"
definition WIFI_REASON_AUTH_LEAVE :: int where "WIFI_REASON_AUTH_LEAVE = 3"
definition WIFI_REASON_ASSOC_EXPIRE :: int where "WIFI_REASON_ASSOC_EXPIRE = 4"
definition WIFI_REASON_4WAY_HANDSHAKE_TIMEOUT :: int where "WIFI_REASON_4WAY_HANDSHAKE_TIMEOUT = 15"
definition WIFI_REASON_802_1X_AUTH_FAILED :: int where "WIFI_REASON_802_1X_AUTH_FAILED = 23"
definition WIFI_REASON_CIPHER_SUITE_REJECTED :: int where "WIFI_REASON_CIPHER_SUITE_REJECTED = 24"
definition WIFI_REASON_BEACON_TIMEOUT :: int where "WIFI_REASON_BEACON_TIMEOUT = 200"
definition WIFI_REASON_NO_AP_FOUND :: int where "WIFI_REASON_NO_AP_FOUND = 201"
definition WIFI_REASON_AUTH_FAIL :: int where "WIFI_REASON_AUTH_FAIL = 202"
definition WIFI_REASON_HANDSHAKE_TIMEOUT :: int where "WIFI_REASON_HANDSHAKE_TIMEOUT = 204"

lemmas wifi_reasons = WIFI_REASON_AUTH_EXPIRE_def WIFI_REASON_AUTH_LEAVE_def
  WIFI_REASON_ASSOC_EXPIRE_def WIFI_REASON_4WAY_HANDSHAKE_TIMEOUT_def
  WIFI_REASON_802_1X_AUTH_FAILED_def WIFI_REASON_CIPHER_SUITE_REJECTED_def
  WIFI_REASON_BEACON_TIMEOUT_def WIFI_REASON_NO_AP_FOUND_def WIFI_REASON_AUTH_FAIL_def
  WIFI_REASON_HANDSHAKE_TIMEOUT_def

definition isAuthMechanismFailure :: "int \<Rightarrow> bool" where
  "isAuthMechanismFailure reason \<longleftrightarrow> reason = WIFI_REASON_4WAY_HANDSHAKE_TIMEOUT \<or>
     reason = WIFI_REASON_802_1X_AUTH_FAILED \<or> reason = WIFI_REASON_AUTH_FAIL"

definition isLinkLevelDrop :: "int \<Rightarrow> bool" where
  "isLinkLevelDrop reason \<longleftrightarrow> reason = 0 \<or> reason = WIFI_REASON_AUTH_EXPIRE \<or>
     reason = WIFI_REASON_AUTH_LEAVE \<or> reason = WIFI_REASON_ASSOC_EXPIRE \<or>
     reason = WIFI_REASON_CIPHER_SUITE_REJECTED \<or> reason = WIFI_REASON_BEACON_TIMEOUT \<or>
     reason = WIFI_REASON_NO_AP_FOUND \<or> reason = WIFI_REASON_HANDSHAKE_TIMEOUT"

definition isApScanMiss :: "int \<Rightarrow> bool" where
  "isApScanMiss reason \<longleftrightarrow> reason = WIFI_REASON_NO_AP_FOUND"

text \<open>The declarative reason table; its first matching row names and classifies a code.\<close>

definition kReasonTable :: "(int \<times> string \<times> string) list" where
  "kReasonTable = [
    (1, ''WIFI_REASON_UNSPECIFIED'', ''unknown''),
    (2, ''WIFI_REASON_AUTH_EXPIRE'', ''auth''),
    (3, ''WIFI_REASON_AUTH_LEAVE'', ''auth''),
    (4, ''WIFI_REASON_ASSOC_EXPIRE'', ''assoc''),
    (5, ''WIFI_REASON_ASSOC_TOOMANY'', ''assoc''),
    (6, ''WIFI_REASON_NOT_AUTHED'', ''auth''),
    (7, ''WIFI_REASON_NOT_ASSOCED'', ''auth''),
    (8, ''WIFI_REASON_ASSOC_LEAVE'', ''assoc''),
    (9, ''WIFI_REASON_ASSOC_NOT_AUTHED'', ''assoc''),
    (10, ''WIFI_REASON_DISASSOC_PWRCAP_BAD'', ''link''),
    (11, ''WIFI_REASON_DISASSOC_SUPCHAN_BAD'', ''link''),
    (12, ''WIFI_REASON_BSS_TRANSITION_DISASSOC'', ''assoc''),
    (13, ''WIFI_REASON_IE_INVALID'', ''unknown''),
    (14, ''WIFI_REASON_MIC_FAILURE'', ''auth''),
    (15, ''WIFI_REASON_4WAY_HANDSHAKE_TIMEOUT'', ''handshake''),
    (16, ''WIFI_REASON_GROUP_KEY_UPDATE_TIMEOUT'', ''handshake''),
    (17, ''WIFI_REASON_IE_IN_4WAY_DIFFERS'', ''auth''),
    (18, ''WIFI_REASON_GROUP_CIPHER_INVALID'', ''auth''),
    (19, ''WIFI_REASON_PAIRWISE_CIPHER_INVALID'', ''auth''),
    (20, ''WIFI_REASON_AKMP_INVALID'', ''auth''),
    (21, ''WIFI_REASON_UNSUPP_RSN_IE_VERSION'', ''auth''),
    (22, ''WIFI_REASON_INVALID_RSN_IE_CAP'', ''auth''),
    (23, ''WIFI_REASON_802_1X_AUTH_FAILED'', ''auth''),
    (24, ''WIFI_REASON_CIPHER_SUITE_REJECTED'', ''auth''),
    (200, ''WIFI_REASON_BEACON_TIMEOUT'', ''link''),
    (201, ''WIFI_REASON_NO_AP_FOUND'', ''link''),
    (202, ''WIFI_REASON_AUTH_FAIL'', ''auth''),
    (203, ''WIFI_REASON_ASSOC_FAIL'', ''assoc''),
    (204, ''WIFI_REASON_HANDSHAKE_TIMEOUT'', ''handshake''),
    (39, ''WIFI_REASON_MESH_STEER_REJECT'', ''assoc'')]"

definition wifiReasonName :: "int \<Rightarrow> string" where
  "wifiReasonName r = (case map_of kReasonTable r of Some (n, _) \<Rightarrow> n | None \<Rightarrow> ''UNKNOWN'')"

definition wifiReasonPhase :: "int \<Rightarrow> string" where
  "wifiReasonPhase r = (case map_of kReasonTable r of Some (_, ph) \<Rightarrow> ph | None \<Rightarrow> ''unknown'')"

section \<open>Pure decision functions\<close>

definition nonempty_cstr :: "string option \<Rightarrow> bool" where
  "nonempty_cstr s = (case s of None \<Rightarrow> False | Some v \<Rightarrow> v \<noteq> [])"

definition determineCredentialSource :: "'p wifi_cfg \<Rightarrow> 'p \<Rightarrow> CredentialSource" where
  "determineCredentialSource w p =
     (if 0 < pf_len (w_pf w) (pf_begin (w_pf w) p NVS_WIFI_NAMESPACE True) NVS_WIFI_CRED_COUNT
      then STORED_NVS
      else if nonempty_cstr (bakedSsid w) \<and> nonempty_cstr (bakedPass w) then BAKED_IN
      else NONE)"

definition loadCredentialsImpl :: "'p wifi_cfg \<Rightarrow> 'p \<Rightarrow> (string \<times> string) option" where
  "loadCredentialsImpl w p =
     (let q = pf_begin (w_pf w) p NVS_WIFI_NAMESPACE True
      in if 0 < pf_len (w_pf w) q NVS_WIFI_SSID \<and> 0 < pf_len (w_pf w) q NVS_WIFI_PASS
         then Some (pf_get (w_pf w) q NVS_WIFI_SSID [], pf_get (w_pf w) q NVS_WIFI_PASS [])
         else None)"

definition shouldFallbackToApMode :: "CredentialSource \<Rightarrow> u32 \<Rightarrow> bool" where
  "shouldFallbackToApMode source dur \<longleftrightarrow> source = STORED_NVS \<and> WIFI_CONNECT_TIMEOUT_MS < dur"

definition isInitialConnectTimeout :: "u32 \<Rightarrow> bool" where
  "isInitialConnectTimeout dur \<longleftrightarrow>
     WIFI_INITIAL_CONNECT_MAX_RETRIES * WIFI_CONNECT_RETRY_INTERVAL_MS < dur"

definition shouldRetryWiFi :: "WiFiState \<Rightarrow> u32 \<Rightarrow> u32 \<Rightarrow> u32 \<Rightarrow> bool" where
  "shouldRetryWiFi st now lastRetry attempts =
     (if st \<noteq> WIFI_DISCONNECTED \<and> st \<noteq> WIFI_CONNECTING then False
      else (if attempts < WIFI_CONNECT_FIRST_RETRIES_COUNT
            then WIFI_CONNECT_FIRST_RETRIES_MS else WIFI_CONNECT_RETRY_INTERVAL_MS)
           \<le> now - lastRetry)"

definition shouldRestartTcpServerForReconnect :: "string \<Rightarrow> string \<Rightarrow> u32 \<Rightarrow> bool" where
  "shouldRestartTcpServerForReconnect newIp lastIp outageMs \<longleftrightarrow>
     lastIp = [] \<or> newIp \<noteq> lastIp \<or> LONG_OUTAGE_MS < outageMs"

definition isAuthCampaignExhausted :: "int \<Rightarrow> int \<Rightarrow> bool" where
  "isAuthCampaignExhausted strategyIndex loopIndex \<longleftrightarrow> WIFI_AUTH_STRATEGY_LOOP_COUNT \<le> loopIndex"

text \<open>Re-association with the credentials at hand: stored if they load, else baked in.\<close>

definition begin_known_creds :: "'p wifi_cfg \<Rightarrow> 'p \<Rightarrow> wifi_eff list" where
  "begin_known_creds w p =
     (case (if determineCredentialSource w p = STORED_NVS then loadCredentialsImpl w p else None) of
        Some (ssid, pass) \<Rightarrow> [Begin (c_str ssid) (c_str pass)]
      | None \<Rightarrow> (case (bakedSsid w, bakedPass w) of
                  (Some ssid, Some pass) \<Rightarrow> [Begin ssid pass]
                | _ \<Rightarrow> []))"

definition ap_mode_calls :: "wifi_eff list" where
  "ap_mode_calls = [SetMode 2, SoftAP AP_SSID AP_PASS]"

section \<open>The state handlers\<close>

text \<open>
  A handler returns the transition it asks for, the context it has updated and its calls, in
  order. \<open>DisconnectedStateHandler\<close>:
\<close>

definition disconnected_execute ::
    "'p wifi_cfg \<Rightarrow> 'p \<Rightarrow> u32 \<Rightarrow> wifi_ctx \<Rightarrow> StateTransition \<times> wifi_ctx \<times> wifi_eff list" where
  "disconnected_execute w p now ctx =
     (case determineCredentialSource w p of
        STORED_NVS \<Rightarrow>
          (case loadCredentialsImpl w p of
             Some (ssid, pass) \<Rightarrow>
               (stay WIFI_CONNECTING,
                ctx\<lparr>connectStartTime := now, lastRetryMs := now\<rparr>,
                [SetMode 1, SetHostname WIFI_HOSTNAME, Begin (c_str ssid) (c_str pass)])
           | None \<Rightarrow> (stay (state ctx), ctx, []))
      | BAKED_IN \<Rightarrow>
          (case (bakedSsid w, bakedPass w) of
             (Some ssid, Some pass) \<Rightarrow>
               (stay WIFI_CONNECTING,
                ctx\<lparr>connectStartTime := now, lastRetryMs := now\<rparr>,
                [SetMode 1, SetHostname WIFI_HOSTNAME, Begin ssid pass])
           | _ \<Rightarrow> (stay (state ctx), ctx, []))
      | NONE \<Rightarrow> (stay WIFI_AP_MODE_DEFAULT, ctx, ap_mode_calls))"

definition outage_ms :: "u32 \<Rightarrow> wifi_ctx \<Rightarrow> u32" where
  "outage_ms now ctx = (if 0 < disconnectStartMs ctx then now - disconnectStartMs ctx else 0)"

text \<open>\<open>ConnectingStateHandler\<close>: the success path and the three failure paths.\<close>

definition handleConnected ::
    "'p wifi_cfg \<Rightarrow> radio \<Rightarrow> u32 \<Rightarrow> wifi_ctx \<Rightarrow> StateTransition \<times> wifi_ctx \<times> wifi_eff list" where
  "handleConnected w r now ctx =
     (\<lparr>nextState = WIFI_CONNECTED,
       setTcpServerRestartFlag =
         shouldRestartTcpServerForReconnect (localIP r) (lastConnectedIp ctx) (outage_ms now ctx),
       initNtp = True\<rparr>,
      ctx\<lparr>pendingAuthFail := False, authFailStrategyIndex := 0, authFailStrategyLoop := 0,
          reconnectPending := False, reconnectAttempts := 0\<rparr>,
      if discoveryResetCallback w then [DiscoveryReset] else [])"

definition handleConnectFailed ::
    "'p wifi_cfg \<Rightarrow> 'p \<Rightarrow> u32 \<Rightarrow> u32 \<Rightarrow> wifi_ctx \<Rightarrow> StateTransition \<times> wifi_ctx \<times> wifi_eff list" where
  "handleConnectFailed w p now dur ctx =
     (if shouldFallbackToApMode (determineCredentialSource w p) dur then
        (stay (if isApScanMiss (lastDisconnectReason ctx)
               then WIFI_AP_MODE_NO_AP else WIFI_AP_MODE_AUTH_FAIL),
         ctx\<lparr>escalatedToApReason := lastDisconnectReason ctx\<rparr>,
         ap_mode_calls)
      else if shouldRetryWiFi WIFI_CONNECTING now (lastRetryMs ctx) (reconnectAttempts ctx) then
        (stay (state ctx),
         ctx\<lparr>lastRetryMs := now, reconnectAttempts := reconnectAttempts ctx + 1\<rparr>,
         Disconnect False True # begin_known_creds w p)
      else (stay (state ctx), ctx, []))"

definition handleIdleStatus ::
    "'p wifi_cfg \<Rightarrow> 'p \<Rightarrow> u32 \<Rightarrow> wifi_ctx \<Rightarrow> StateTransition \<times> wifi_ctx \<times> wifi_eff list" where
  "handleIdleStatus w p now ctx =
     (if shouldRetryWiFi WIFI_CONNECTING now (lastRetryMs ctx) (reconnectAttempts ctx) then
        (stay (state ctx),
         ctx\<lparr>lastRetryMs := now, reconnectAttempts := reconnectAttempts ctx + 1\<rparr>,
         begin_known_creds w p)
      else (stay (state ctx), ctx, []))"

definition handleInitialConnectTimeout ::
    "'p wifi_cfg \<Rightarrow> 'p \<Rightarrow> wifi_ctx \<Rightarrow> StateTransition \<times> wifi_ctx \<times> wifi_eff list" where
  "handleInitialConnectTimeout w p ctx =
     (let source = determineCredentialSource w p
      in if source = STORED_NVS \<and> isAuthMechanismFailure (lastDisconnectReason ctx) then
           (stay WIFI_AP_MODE_AUTH_FAIL,
            ctx\<lparr>escalatedToApReason := lastDisconnectReason ctx\<rparr>, ap_mode_calls)
         else if source = NONE then (stay WIFI_AP_MODE_DEFAULT, ctx, ap_mode_calls)
         else (stay WIFI_CONNECTING, ctx, []))"

definition consume_rejoin_budget :: "u32 \<Rightarrow> wifi_ctx \<Rightarrow> wifi_ctx" where
  "consume_rejoin_budget now ctx =
     (if reconnectPending ctx then ctx\<lparr>connectStartTime := now, reconnectPending := False\<rparr>
      else ctx)"

definition connecting_execute ::
    "'p wifi_cfg \<Rightarrow> 'p \<Rightarrow> radio \<Rightarrow> u32 \<Rightarrow> wifi_ctx \<Rightarrow> StateTransition \<times> wifi_ctx \<times> wifi_eff list" where
  "connecting_execute w p r now ctx0 =
     (let ctx = consume_rejoin_budget now ctx0;
          dur = now - connectStartTime ctx
      in if status r = 3 then handleConnected w r now ctx
         else if status r = 4 \<or> status r = 1 then handleConnectFailed w p now dur ctx
         else if status r = 0 \<and> \<not> isInitialConnectTimeout dur then handleIdleStatus w p now ctx
         else if isInitialConnectTimeout dur then handleInitialConnectTimeout w p ctx
         else (stay (state ctx), ctx, []))"

text \<open>\<open>ConnectedStaStateHandler\<close>: a lost link, or a link without an address, is a drop.\<close>

definition connected_sta_execute ::
    "radio \<Rightarrow> u32 \<Rightarrow> wifi_ctx \<Rightarrow> StateTransition \<times> wifi_ctx \<times> wifi_eff list" where
  "connected_sta_execute r now ctx =
     (if status r \<noteq> 3 \<or> localIP r = ''0.0.0.0'' then
        (stay WIFI_CONNECTING, ctx\<lparr>reconnectPending := True, disconnectStartMs := now\<rparr>, [])
      else (stay (state ctx), ctx, []))"

text \<open>\<open>ConnectedApStateHandler\<close>: the fallback access point periodically retries the station.\<close>

definition attemptApModeStaRecovery ::
    "'p wifi_cfg \<Rightarrow> 'p \<Rightarrow> u32 \<Rightarrow> wifi_ctx \<Rightarrow> StateTransition \<times> wifi_ctx \<times> wifi_eff list" where
  "attemptApModeStaRecovery w p now ctx =
     (if apModeStaRetryMs ctx = 0 then
        (stay (state ctx), ctx\<lparr>apModeStaRetryMs := now\<rparr>, [])
      else if now - apModeStaRetryMs ctx < WIFI_AP_MODE_STA_RETRY_INTERVAL_MS then
        (stay (state ctx), ctx, [])
      else
        (stay WIFI_CONNECTING,
         ctx\<lparr>apModeStaRetryMs := now, connectStartTime := now, lastRetryMs := now\<rparr>,
         SetMode 1 # begin_known_creds w p))"

definition connected_ap_execute ::
    "'p wifi_cfg \<Rightarrow> 'p \<Rightarrow> u32 \<Rightarrow> wifi_ctx \<Rightarrow> StateTransition \<times> wifi_ctx \<times> wifi_eff list" where
  "connected_ap_execute w p now ctx =
     (if state ctx = WIFI_AP_MODE_DEFAULT then (stay (state ctx), ctx, [])
      else attemptApModeStaRecovery w p now ctx)"

section \<open>The authentication campaign\<close>

definition applyAuthStrategy ::
    "'p wifi_cfg \<Rightarrow> CredentialSource \<Rightarrow> string \<Rightarrow> string \<Rightarrow> int \<Rightarrow> wifi_eff list" where
  "applyAuthStrategy w source storedSsid storedPass index =
     (let creds = (if source = STORED_NVS \<and> storedSsid \<noteq> []
                   then Some (c_str storedSsid, c_str storedPass)
                   else case (bakedSsid w, bakedPass w) of
                          (Some s, Some q) \<Rightarrow> if s \<noteq> [] \<and> q \<noteq> [] then Some (s, q) else None
                        | _ \<Rightarrow> None);
          begin = (case creds of Some (s, q) \<Rightarrow> [Begin s q] | None \<Rightarrow> []);
          i = (if index < 0 then 0
               else if WIFI_AUTH_STRATEGY_COUNT \<le> index then WIFI_AUTH_STRATEGY_COUNT - 1
               else index)
      in if i = 0 then begin
         else if i = 1 then [Disconnect False True, SetMode 1] @ begin
         else [SetMode 0, SetMode 1] @ begin)"

definition checkCampaignSuccess ::
    "'p wifi_cfg \<Rightarrow> radio \<Rightarrow> u32 \<Rightarrow> wifi_ctx \<Rightarrow> (StateTransition \<times> wifi_ctx \<times> wifi_eff list) option" where
  "checkCampaignSuccess w r now ctx =
     (if status r \<noteq> 3 then None
      else Some
        (\<lparr>nextState = WIFI_CONNECTED,
          setTcpServerRestartFlag =
            shouldRestartTcpServerForReconnect (localIP r) (lastConnectedIp ctx) (outage_ms now ctx),
          initNtp = True\<rparr>,
         ctx\<lparr>pendingAuthFail := False, authFailStrategyIndex := 0, authFailStrategyLoop := 0,
             reconnectPending := False, reconnectAttempts := 0\<rparr>,
         if discoveryResetCallback w then [DiscoveryReset] else []))"

definition applyCurrentStrategy :: "'p wifi_cfg \<Rightarrow> 'p \<Rightarrow> wifi_ctx \<Rightarrow> wifi_eff list" where
  "applyCurrentStrategy w p ctx =
     (let (ssid, pass) = (case loadCredentialsImpl w p of Some c \<Rightarrow> c | None \<Rightarrow> ([], []))
      in applyAuthStrategy w (determineCredentialSource w p) ssid pass (authFailStrategyIndex ctx)
         @ [TraceAuthFail (state ctx) (lastDisconnectReason ctx)
              (authFailStrategyIndex ctx) (authFailStrategyLoop ctx)])"

definition advanceRotation :: "u32 \<Rightarrow> wifi_ctx \<Rightarrow> wifi_ctx" where
  "advanceRotation now ctx =
     (let wrap = WIFI_AUTH_STRATEGY_COUNT \<le> authFailStrategyIndex ctx + 1
      in ctx\<lparr>authFailStrategyIndex := (if wrap then 0 else authFailStrategyIndex ctx + 1),
             authFailStrategyLoop := (if wrap then authFailStrategyLoop ctx + 1
                                      else authFailStrategyLoop ctx),
             lastRetryMs := now,
             reconnectAttempts := reconnectAttempts ctx + 1\<rparr>)"

definition checkExhaustion ::
    "wifi_ctx \<Rightarrow> (StateTransition \<times> wifi_ctx \<times> wifi_eff list) option" where
  "checkExhaustion ctx =
     (if \<not> isAuthCampaignExhausted (authFailStrategyIndex ctx) (authFailStrategyLoop ctx) then None
      else Some
        (stay WIFI_AP_MODE_AUTH_FAIL,
         ctx\<lparr>pendingAuthFail := False, escalatedToApReason := lastDisconnectReason ctx\<rparr>,
         ap_mode_calls @ [TraceAuthExhausted (state ctx) (lastDisconnectReason ctx)]))"

definition campaign_tick ::
    "'p wifi_cfg \<Rightarrow> 'p \<Rightarrow> radio \<Rightarrow> u32 \<Rightarrow> wifi_ctx \<Rightarrow> StateTransition \<times> wifi_ctx \<times> wifi_eff list" where
  "campaign_tick w p r now ctx =
     (case checkCampaignSuccess w r now ctx of
        Some res \<Rightarrow> res
      | None \<Rightarrow>
          if \<not> shouldRetryWiFi WIFI_CONNECTING now (lastRetryMs ctx) (reconnectAttempts ctx)
          then (stay (state ctx), ctx, [])
          else
            let es = applyCurrentStrategy w p ctx;
                ctx1 = advanceRotation now ctx
            in case checkExhaustion ctx1 of
                 Some (t, ctx2, es2) \<Rightarrow> (t, ctx2, es @ es2)
               | None \<Rightarrow> (stay (state ctx1), ctx1, es))"

section \<open>The manager\<close>

definition applyStateTransition ::
    "'p wifi_cfg \<Rightarrow> radio \<Rightarrow> StateTransition \<Rightarrow> wifi_ctx \<Rightarrow> wifi_ctx \<times> wifi_eff list" where
  "applyStateTransition w r t ctx =
     (if nextState t = state ctx then (ctx, [])
      else
        let ctx1 = (if nextState t = WIFI_CONNECTED \<and> state ctx \<noteq> WIFI_CONNECTED
                    then ctx\<lparr>lastConnectedIp := localIP r\<rparr> else ctx);
            ctx2 = ctx1\<lparr>state := nextState t\<rparr>;
            ctx3 = (if isApModeState (nextState t) \<and> \<not> isApModeState (state ctx)
                    then ctx2\<lparr>apModeStaRetryMs := 0\<rparr> else ctx2);
            ctx4 = (if setTcpServerRestartFlag t then ctx3\<lparr>tcpServerNeedsRestart := True\<rparr> else ctx3)
        in (ctx4,
            [TraceTransition (state ctx) (nextState t)]
            @ (if setTcpServerRestartFlag t \<and> tcpServerRestartCallback w then [TcpRestart] else [])
            @ (if initNtp t \<and> ntpInitCallback w then [NtpInit] else [])))"

definition handler_execute ::
    "'p wifi_cfg \<Rightarrow> 'p \<Rightarrow> radio \<Rightarrow> u32 \<Rightarrow> wifi_ctx \<Rightarrow> StateTransition \<times> wifi_ctx \<times> wifi_eff list" where
  "handler_execute w p r now ctx =
     (case state ctx of
        WIFI_DISCONNECTED \<Rightarrow> disconnected_execute w p now ctx
      | WIFI_CONNECTING \<Rightarrow> connecting_execute w p r now ctx
      | WIFI_CONNECTED \<Rightarrow> connected_sta_execute r now ctx
      | WIFI_AP_MODE_DEFAULT \<Rightarrow> connected_ap_execute w p now ctx
      | WIFI_AP_MODE_AUTH_FAIL \<Rightarrow> connected_ap_execute w p now ctx
      | WIFI_AP_MODE_NO_AP \<Rightarrow> connected_ap_execute w p now ctx)"

definition wifi_update ::
    "'p wifi_cfg \<Rightarrow> 'p \<Rightarrow> radio \<Rightarrow> u32 \<Rightarrow> wifi_ctx \<Rightarrow> wifi_ctx \<times> wifi_eff list" where
  "wifi_update w p r now ctx =
     (let (t, ctx1, es) = (if pendingAuthFail ctx then campaign_tick w p r now ctx
                           else handler_execute w p r now ctx);
          (ctx2, es2) = applyStateTransition w r t ctx1
      in (ctx2, es @ es2))"

definition wifi_init :: "'p wifi_cfg \<Rightarrow> 'p \<Rightarrow> radio \<Rightarrow> wifi_ctx \<Rightarrow> wifi_ctx \<times> wifi_eff list" where
  "wifi_init w p r ctx = wifi_update w p r 0 (ctx\<lparr>state := WIFI_DISCONNECTED\<rparr>)"

definition onDisconnected :: "int \<Rightarrow> wifi_ctx \<Rightarrow> wifi_ctx \<times> wifi_eff list" where
  "onDisconnected reason ctx0 =
     (let from = state ctx0;
          ctx = ctx0\<lparr>lastDisconnectReason := reason\<rparr>
      in if isAuthMechanismFailure reason then
           let c1 = ctx\<lparr>pendingAuthFail := True, tcpServerNeedsRestart := False\<rparr>;
               c2 = (if authFailStrategyLoop c1 = 0 then c1\<lparr>authFailStrategyIndex := 0\<rparr> else c1);
               c3 = (if state c2 = WIFI_CONNECTED
                     then c2\<lparr>state := WIFI_CONNECTING, reconnectAttempts := 0,
                             reconnectPending := True\<rparr> else c2);
               c4 = c3\<lparr>lastRetryMs := 0\<rparr>
           in (c4, [TraceAuthFail from reason (authFailStrategyIndex c4) (authFailStrategyLoop c4)])
         else if state ctx = WIFI_CONNECTED then
           (ctx\<lparr>state := WIFI_CONNECTING, tcpServerNeedsRestart := True, lastRetryMs := 0,
                reconnectAttempts := 0, reconnectPending := True\<rparr>,
            [TraceReconnecting from reason])
         else (ctx, []))"

section \<open>Credentials and reporting\<close>

definition storeCredentials :: "'p prefs_if \<Rightarrow> 'p \<Rightarrow> string \<Rightarrow> string \<Rightarrow> bool \<times> 'p" where
  "storeCredentials pf p ssid pass =
     (let p1 = pf_begin pf p NVS_WIFI_NAMESPACE False;
          (n1, p2) = pf_put pf p1 NVS_WIFI_CRED_COUNT ''1'';
          ok1 = (0 < n1);
          (n2, p3) = (if ok1 then pf_put pf p2 NVS_WIFI_SSID ssid else (0, p2));
          ok2 = (ok1 \<and> 0 < n2);
          (n3, p4) = (if ok2 then pf_put pf p3 NVS_WIFI_PASS pass else (0, p3))
      in (ok2 \<and> 0 < n3, pf_end pf p4))"

definition hasStoredCredentials :: "'p prefs_if \<Rightarrow> 'p \<Rightarrow> bool" where
  "hasStoredCredentials pf p \<longleftrightarrow>
     0 < pf_len pf (pf_begin pf p NVS_WIFI_NAMESPACE True) NVS_WIFI_CRED_COUNT"

definition clearCredentials :: "'p prefs_if \<Rightarrow> 'p \<Rightarrow> bool \<times> 'p" where
  "clearCredentials pf p =
     (True, pf_end pf (pf_clear pf (pf_begin pf p NVS_WIFI_NAMESPACE False)))"

definition factoryReset :: "'p prefs_if \<Rightarrow> 'p \<Rightarrow> bool \<times> 'p" where
  "factoryReset pf p = clearCredentials pf p"

fun stateName :: "WiFiState \<Rightarrow> string" where
  "stateName WIFI_DISCONNECTED = ''WIFI_DISCONNECTED''"
| "stateName WIFI_CONNECTING = ''WIFI_CONNECTING''"
| "stateName WIFI_CONNECTED = ''WIFI_CONNECTED''"
| "stateName WIFI_AP_MODE_DEFAULT = ''WIFI_AP_MODE_DEFAULT''"
| "stateName WIFI_AP_MODE_AUTH_FAIL = ''WIFI_AP_MODE_AUTH_FAIL''"
| "stateName WIFI_AP_MODE_NO_AP = ''WIFI_AP_MODE_NO_AP''"

definition resolveTargetSsid :: "'p wifi_cfg \<Rightarrow> 'p \<Rightarrow> string" where
  "resolveTargetSsid w p =
     (case loadCredentialsImpl w p of
        Some (ssid, _) \<Rightarrow>
          if ssid \<noteq> [] then ssid
          else (case bakedSsid w of Some s \<Rightarrow> s | None \<Rightarrow> [])
      | None \<Rightarrow> (case bakedSsid w of Some s \<Rightarrow> s | None \<Rightarrow> []))"

text \<open>The buffer of 128 bytes is longer than any text the format produces.\<close>

definition getAuthCampaignDetail :: "wifi_ctx \<Rightarrow> string" where
  "getAuthCampaignDetail ctx =
     (if \<not> pendingAuthFail ctx then []
      else ''auth fail reason='' @ int_str (lastDisconnectReason ctx)
         @ '' strategy='' @ int_str (authFailStrategyIndex ctx)
         @ ''/'' @ int_str WIFI_AUTH_STRATEGY_COUNT
         @ '' loop='' @ int_str (authFailStrategyLoop ctx)
         @ ''/'' @ int_str WIFI_AUTH_STRATEGY_LOOP_COUNT)"

text \<open>One event of the manager's life: a tick, or a disconnect event from the driver.\<close>

datatype wifi_event = Tick radio u32 | Dropped int | ClearTcpFlag

fun wifi_step :: "'p wifi_cfg \<Rightarrow> 'p \<Rightarrow> wifi_ctx \<Rightarrow> wifi_event \<Rightarrow> wifi_ctx" where
  "wifi_step w p ctx (Tick r now) = fst (wifi_update w p r now ctx)"
| "wifi_step w p ctx (Dropped reason) = fst (onDisconnected reason ctx)"
| "wifi_step w p ctx ClearTcpFlag = ctx\<lparr>tcpServerNeedsRestart := False\<rparr>"

fun wifi_step_eff :: "'p wifi_cfg \<Rightarrow> 'p \<Rightarrow> wifi_ctx \<Rightarrow> wifi_event \<Rightarrow> wifi_eff list" where
  "wifi_step_eff w p ctx (Tick r now) = snd (wifi_update w p r now ctx)"
| "wifi_step_eff w p ctx (Dropped reason) = snd (onDisconnected reason ctx)"
| "wifi_step_eff w p ctx ClearTcpFlag = []"

fun wifi_run :: "'p wifi_cfg \<Rightarrow> 'p \<Rightarrow> wifi_ctx \<Rightarrow> wifi_event list \<Rightarrow> wifi_ctx \<times> wifi_eff list" where
  "wifi_run w p ctx [] = (ctx, [])"
| "wifi_run w p ctx (e # es) =
     (let (c, fx) = wifi_run w p (wifi_step w p ctx e) es in (c, wifi_step_eff w p ctx e @ fx))"

end
