(* ===== verification/FW_AtCommands.thy ===== *)
theory FW_AtCommands
  imports FW_WiFi
begin

text \<open>
  The AT command core: the line framer of the USB console
  (\<open>firmware/vanilla/SerialCommandFramer.cpp\<close>), the fourteen command handlers and the dispatcher
  (\<open>AtCommandDispatcher.{h,cpp}\<close>), the credential writer of the command path
  (\<open>NvsWifiCredentialStore.cpp\<close>) and the adapters that bind the dispatcher to the device's
  stores (\<open>can-bridge/ArduinoAtAdapters.h\<close>, \<open>can-bridge.ino\<close>).

  What the dispatcher calls outside itself is the record \<open>at_host\<close> of state-passing operations;
  what it emits is a list of outputs, in order. The build's version string is generated by the
  build and is an argument.
\<close>

section \<open>The serial line framer\<close>

record framer =
  maxLen :: nat
  buffer :: string

definition handleByte :: "char \<Rightarrow> framer \<Rightarrow> framer \<times> string list" where
  "handleByte c f =
     (if c = CR \<or> c = LF then
        if buffer f \<noteq> [] then (f\<lparr>buffer := []\<rparr>, [buffer f]) else (f, [])
      else
        let b = buffer f @ [c]
        in (f\<lparr>buffer := (if maxLen f < length b then [] else b)\<rparr>, []))"

text \<open>\<open>drain\<close> over the bytes available now; the lines are those handed to the handler, in order.\<close>

fun drain :: "framer \<Rightarrow> string \<Rightarrow> framer \<times> string list" where
  "drain f [] = (f, [])"
| "drain f (c # cs) =
     (let (f1, out1) = handleByte c f; (f2, out2) = drain f1 cs in (f2, out1 @ out2))"

section \<open>Results, outputs and the host\<close>

record AtCommandResult =
  response :: string
  shouldReboot :: bool
  shouldFlushClient :: bool

text \<open>The constructor takes a C string.\<close>

definition at_result :: "string \<Rightarrow> bool \<Rightarrow> bool \<Rightarrow> AtCommandResult" where
  "at_result r reboot flush =
     \<lparr>response = c_str r, shouldReboot = reboot, shouldFlushClient = flush\<rparr>"

datatype at_out =
    TcpPrint string
  | TcpFlush
  | SerialPrintln string
  | SerialFlush
  | EspRestart

record 'h at_host =
  h_storeWifi :: "'h \<Rightarrow> string \<Rightarrow> string \<Rightarrow> bool \<times> 'h"
  h_loadWifi :: "'h \<Rightarrow> (string \<times> string) option"
  h_storeToken :: "'h \<Rightarrow> string \<Rightarrow> bool \<times> 'h"
  h_clearWifi :: "'h \<Rightarrow> bool \<times> 'h"
  h_setMonitor :: "'h \<Rightarrow> bool \<Rightarrow> 'h"

record SetWifiParams =
  sw_ssid :: string
  sw_password :: string
  sw_valid :: bool

section \<open>Pure helpers\<close>

definition normalizeAtCommand :: "string \<Rightarrow> string" where
  "normalizeAtCommand cmd = map to_upper (trim_by ws4 cmd)"

definition parseSetWifiParams :: "string \<Rightarrow> SetWifiParams" where
  "parseSetWifiParams params =
     (case find_from (CHR '','') params 0 of
        None \<Rightarrow> \<lparr>sw_ssid = [], sw_password = [], sw_valid = False\<rparr>
      | Some i \<Rightarrow>
          if i = 0 then \<lparr>sw_ssid = [], sw_password = [], sw_valid = False\<rparr>
          else \<lparr>sw_ssid = substr params 0 i, sw_password = drop (i + 1) params, sw_valid = True\<rparr>)"

definition isValidAuthToken :: "string \<Rightarrow> string \<Rightarrow> bool" where
  "isValidAuthToken received expectedToken \<longleftrightarrow> received = ''AUTH '' @ expectedToken"

text \<open>
  The hello reply is assembled in a buffer of 128 bytes. \<open>snprintf\<close> returns the length it
  wanted, so a prefix longer than the buffer would put the next write outside it: \<open>None\<close>.
\<close>

fun helo_hex :: "u8 list \<Rightarrow> string \<Rightarrow> string" where
  "helo_hex [] txt = txt"
| "helo_hex (b # bs) txt =
     (if length txt < 128 - 3 then helo_hex bs (txt @ hex_pad 2 (unat b)) else txt)"

definition helo_prefix :: "string \<Rightarrow> string \<Rightarrow> string" where
  "helo_prefix deviceName firmwareVersion =
     ''ACK DEVICE='' @ deviceName @ '' FIRMWARE='' @ firmwareVersion @ '' DEVICEID=''"

definition buildHeloResponse :: "u8 list \<Rightarrow> string \<Rightarrow> string \<Rightarrow> string option" where
  "buildHeloResponse deviceId deviceName firmwareVersion =
     (let pre = helo_prefix deviceName firmwareVersion
      in if 128 < length pre then None
         else if 127 \<le> length pre then Some (take 127 pre)
         else Some (helo_hex deviceId pre @ [CR]))"

section \<open>The command handlers\<close>

text \<open>One constructor per handler class, in the order in which they are registered.\<close>

datatype at_handler =
    AtzCommandHandler | AteCommandHandler | AtspCommandHandler | AthCommandHandler
  | AtcsmCommandHandler | AtmaCommandHandler | AtpcCommandHandler | AtheloCommandHandler
  | AtsetwifiCommandHandler | AtdumpwifiCommandHandler | AtsettokenCommandHandler
  | AtclearwifiCommandHandler | AtiCommandHandler | AtrebootCommandHandler

fun at_matches :: "at_handler \<Rightarrow> string \<Rightarrow> bool" where
  "at_matches AtzCommandHandler n \<longleftrightarrow> n = ''ATZ''"
| "at_matches AteCommandHandler n \<longleftrightarrow> n = ''ATE0'' \<or> n = ''ATE1''"
| "at_matches AtspCommandHandler n \<longleftrightarrow> starts_with ''ATSP'' n"
| "at_matches AthCommandHandler n \<longleftrightarrow> n = ''ATH0'' \<or> n = ''ATH1''"
| "at_matches AtcsmCommandHandler n \<longleftrightarrow> n = ''ATCSM0'' \<or> n = ''ATCSM1''"
| "at_matches AtmaCommandHandler n \<longleftrightarrow> n = ''ATMA''"
| "at_matches AtpcCommandHandler n \<longleftrightarrow> n = ''ATPC''"
| "at_matches AtheloCommandHandler n \<longleftrightarrow> n = ''ATHELO'' \<or> n = ''HELLO''"
| "at_matches AtsetwifiCommandHandler n \<longleftrightarrow> starts_with ''ATSETWIFI'' n"
| "at_matches AtdumpwifiCommandHandler n \<longleftrightarrow> n = ''ATDUMPWIFI''"
| "at_matches AtsettokenCommandHandler n \<longleftrightarrow> starts_with ''ATSETTOKEN'' n"
| "at_matches AtclearwifiCommandHandler n \<longleftrightarrow> n = ''ATCLEARWIFI''"
| "at_matches AtiCommandHandler n \<longleftrightarrow> n = ''ATI''"
| "at_matches AtrebootCommandHandler n \<longleftrightarrow> n = ''ATREBOOT''"

definition firmware_handlers :: "at_handler list" where
  "firmware_handlers =
     [AtzCommandHandler, AteCommandHandler, AtspCommandHandler, AthCommandHandler,
      AtcsmCommandHandler, AtmaCommandHandler, AtpcCommandHandler, AtheloCommandHandler,
      AtsetwifiCommandHandler, AtdumpwifiCommandHandler, AtsettokenCommandHandler,
      AtclearwifiCommandHandler, AtiCommandHandler, AtrebootCommandHandler]"

text \<open>\<open>execute\<close> of the two handlers that take parameters out of the original command.\<close>

definition setwifi_execute :: "'h at_host \<Rightarrow> string \<Rightarrow> 'h \<Rightarrow> AtCommandResult \<times> 'h" where
  "setwifi_execute H originalCmd h =
     (let rest = drop 9 originalCmd;
          params = (if list_all ws4 rest then rest else trim_by ws4 rest);
          wp = parseSetWifiParams params
      in if \<not> sw_valid wp then
           (at_result ''ERROR Invalid format. Use: ATSETWIFI<ssid>,<pass>'' False False, h)
         else if sw_ssid wp = [] \<or> 32 < length (sw_ssid wp) then
           (at_result ''ERROR Invalid SSID length (1-32 chars)'' False False, h)
         else if sw_password wp = [] \<or> 64 < length (sw_password wp) then
           (at_result ''ERROR Invalid password length (1-64 chars)'' False False, h)
         else
           let (ok, h1) = h_storeWifi H h (sw_ssid wp) (sw_password wp)
           in (if ok
               then at_result ''OK WiFi credentials stored. Rebooting to connect...'' True True
               else at_result ''ERROR Failed to store credentials'' False False, h1))"

definition settoken_execute :: "'h at_host \<Rightarrow> string \<Rightarrow> 'h \<Rightarrow> AtCommandResult \<times> 'h" where
  "settoken_execute H originalCmd h =
     (let rest = drop 10 originalCmd;
          params = (if list_all ws4 rest then [] else trim_by ws4 rest)
      in if params = [] then (at_result ''ERROR Token cannot be empty'' False False, h)
         else if 64 < length params then
           (at_result ''ERROR Token too long (max 64 chars)'' False False, h)
         else
           let (ok, h1) = h_storeToken H h params
           in (if ok then at_result ''OK Token stored. Rebooting...'' True True
               else at_result ''ERROR Failed to store token'' False False, h1))"

text \<open>
  \<open>execute\<close> of every handler. The hello reply's buffer is long enough for every version string
  of at most 80 characters; beyond that the code's behaviour is undefined and the model answers
  with an empty text.
\<close>

fun at_execute ::
    "'h at_host \<Rightarrow> u8 list \<Rightarrow> string \<Rightarrow> at_handler \<Rightarrow> string \<Rightarrow> 'h \<Rightarrow> AtCommandResult \<times> 'h" where
  "at_execute H dev ver AtzCommandHandler cmd h =
     (at_result ''ELM327 v2.3'' False False, h_setMonitor H h False)"
| "at_execute H dev ver AteCommandHandler cmd h = (at_result ''OK'' False False, h)"
| "at_execute H dev ver AtspCommandHandler cmd h = (at_result ''OK'' False False, h)"
| "at_execute H dev ver AthCommandHandler cmd h = (at_result ''OK'' False False, h)"
| "at_execute H dev ver AtcsmCommandHandler cmd h = (at_result ''OK'' False False, h)"
| "at_execute H dev ver AtmaCommandHandler cmd h =
     (at_result ''OK'' False False, h_setMonitor H h True)"
| "at_execute H dev ver AtpcCommandHandler cmd h =
     (at_result ''OK'' False False, h_setMonitor H h False)"
| "at_execute H dev ver AtheloCommandHandler cmd h =
     (at_result (case buildHeloResponse dev ''ESP32-CAN-Bridge'' ver of Some r \<Rightarrow> r | None \<Rightarrow> [])
        False False, h)"
| "at_execute H dev ver AtsetwifiCommandHandler cmd h = setwifi_execute H cmd h"
| "at_execute H dev ver AtdumpwifiCommandHandler cmd h =
     (case h_loadWifi H h of
        Some (s, p) \<Rightarrow>
          (at_result (''OK stored ssid='' @ s @ '' pass_len='' @ dec_str (length p)) False False, h)
      | None \<Rightarrow> (at_result ''OK no stored credentials'' False False, h))"
| "at_execute H dev ver AtsettokenCommandHandler cmd h = settoken_execute H cmd h"
| "at_execute H dev ver AtclearwifiCommandHandler cmd h =
     (let (ok, h1) = h_clearWifi H h
      in (if ok then at_result ''OK WiFi credentials cleared. Rebooting...'' True True
          else at_result ''ERROR Failed to clear credentials'' False False, h1))"
| "at_execute H dev ver AtiCommandHandler cmd h =
     (at_result (''ESP32 CAN Bridge v'' @ ver) False False, h)"
| "at_execute H dev ver AtrebootCommandHandler cmd h = (at_result ''REBOOT'' True False, h)"

section \<open>The dispatcher\<close>

definition sendTcpPrompt :: "string \<Rightarrow> at_out list" where
  "sendTcpPrompt r = [TcpPrint (r @ [CR, CR, CHR ''>'']), TcpFlush]"

definition sendSerialPrompt :: "string \<Rightarrow> at_out list" where
  "sendSerialPrompt r = [SerialPrintln r]"

definition find_handler :: "string \<Rightarrow> at_handler option" where
  "find_handler n = List.find (\<lambda>k. at_matches k n) firmware_handlers"

definition handleCommand ::
    "'h at_host \<Rightarrow> u8 list \<Rightarrow> string \<Rightarrow> (string \<Rightarrow> at_out list) \<Rightarrow> string \<Rightarrow> 'h \<Rightarrow> at_out list \<times> 'h" where
  "handleCommand H dev ver sendPrompt cmd h =
     (case find_handler (normalizeAtCommand cmd) of
        Some k \<Rightarrow>
          let (res, h1) = at_execute H dev ver k cmd h
          in (sendPrompt (response res)
              @ (if shouldFlushClient res
                 then [TcpFlush, SerialPrintln ''REBOOT'', SerialFlush] else [])
              @ (if shouldReboot res then [EspRestart] else []), h1)
      | None \<Rightarrow> (sendPrompt ''?'', h))"

definition handleTcpCommand ::
    "'h at_host \<Rightarrow> u8 list \<Rightarrow> string \<Rightarrow> string \<Rightarrow> 'h \<Rightarrow> at_out list \<times> 'h" where
  "handleTcpCommand H dev ver = handleCommand H dev ver sendTcpPrompt"

definition handleSerialCommand ::
    "'h at_host \<Rightarrow> u8 list \<Rightarrow> string \<Rightarrow> string \<Rightarrow> 'h \<Rightarrow> at_out list \<times> 'h" where
  "handleSerialCommand H dev ver = handleCommand H dev ver sendSerialPrompt"

section \<open>The device the dispatcher is bound to\<close>

text \<open>
  \<open>storeWifiCredentials\<close> opens its own handle; \<open>put\<close> is the device's adapter, which passes the
  value as a C string.
\<close>

definition storeWifiCredentials :: "'p prefs_if \<Rightarrow> 'p \<Rightarrow> string \<Rightarrow> string \<Rightarrow> bool \<times> 'p" where
  "storeWifiCredentials pf p ssid pass =
     (let p1 = pf_begin pf p ''wifi'' False;
          (n1, p2) = pf_put pf p1 ''cred_count'' ''1'';
          ok1 = (0 < n1);
          (n2, p3) = (if ok1 then pf_put pf p2 ''ssid_0'' ssid else (0, p2));
          ok2 = (ok1 \<and> 0 < n2);
          (n3, p4) = (if ok2 then pf_put pf p3 ''pass_0'' pass else (0, p3))
      in (ok2 \<and> 0 < n3, pf_end pf p4))"

record 'p device =
  d_prefs :: 'p
  d_tokens :: "'p token_store"
  d_monitor :: bool

definition device_host :: "'p wifi_cfg \<Rightarrow> 'p device at_host" where
  "device_host w =
     \<lparr>h_storeWifi = (\<lambda>d s p. let (ok, q) = storeWifiCredentials (w_pf w) (d_prefs d) s p
                             in (ok, d\<lparr>d_prefs := q\<rparr>)),
      h_loadWifi = (\<lambda>d. loadCredentialsImpl w (d_prefs d)),
      h_storeToken = (\<lambda>d t. let (ok, ts) = token_storeToken (w_pf w)
                                  ((d_tokens d)\<lparr>prefsStore := d_prefs d\<rparr>) t
                            in (ok, d\<lparr>d_tokens := ts, d_prefs := prefsStore ts\<rparr>)),
      h_clearWifi = (\<lambda>d. (True, d\<lparr>d_prefs := snd (clearCredentials (w_pf w) (d_prefs d))\<rparr>)),
      h_setMonitor = (\<lambda>d b. d\<lparr>d_monitor := b\<rparr>)\<rparr>"

end
