(* ===== verification/FW_WiFi_Proofs.thy ===== *)
theory FW_WiFi_Proofs
  imports FW_WiFi
begin

text \<open>
  Properties of the WiFi state machine: the invariant of the campaign counters, the bounded
  campaign and the way repeated authentication failures keep it from advancing, the rejoin
  budget after a drop, provisioning (success and the half-written store), the access-point
  recovery timer and the TCP restart decision.
\<close>

section \<open>Unfolding bundles\<close>

lemmas handler_defs = disconnected_execute_def connecting_execute_def connected_sta_execute_def
  connected_ap_execute_def attemptApModeStaRecovery_def handleConnected_def
  handleConnectFailed_def handleIdleStatus_def handleInitialConnectTimeout_def
  consume_rejoin_budget_def stay_def

lemmas campaign_defs = campaign_tick_def checkCampaignSuccess_def checkExhaustion_def
  advanceRotation_def isAuthCampaignExhausted_def stay_def

text \<open>The trace line of a transition is not a radio call.\<close>

lemma apply_radio_silent:
  "applyStateTransition w r t ctx = (ctx', es) \<Longrightarrow> filter is_radio_eff es = []"
  by (auto simp: applyStateTransition_def Let_def split: if_splits)

lemma apply_state: "state (fst (applyStateTransition w r t ctx)) = nextState t"
  by (simp add: applyStateTransition_def Let_def)

lemma apply_stay: "nextState t = state ctx \<Longrightarrow> applyStateTransition w r t ctx = (ctx, [])"
  by (simp add: applyStateTransition_def)

section \<open>Credentials\<close>

context prefs_laws begin

lemma source_view:
  "w_pf w = pf \<Longrightarrow> determineCredentialSource w p =
     (if view p (NVS_WIFI_NAMESPACE, NVS_WIFI_CRED_COUNT) \<noteq> [] then STORED_NVS
      else if nonempty_cstr (bakedSsid w) \<and> nonempty_cstr (bakedPass w) then BAKED_IN else NONE)"
  by (simp add: determineCredentialSource_def read_session NVS_WIFI_NAMESPACE_def)

lemma load_view:
  "w_pf w = pf \<Longrightarrow> loadCredentialsImpl w p =
     (if view p (NVS_WIFI_NAMESPACE, NVS_WIFI_SSID) \<noteq> [] \<and>
         view p (NVS_WIFI_NAMESPACE, NVS_WIFI_PASS) \<noteq> []
      then Some (view p (NVS_WIFI_NAMESPACE, NVS_WIFI_SSID),
                 view p (NVS_WIFI_NAMESPACE, NVS_WIFI_PASS))
      else None)"
  by (simp add: loadCredentialsImpl_def Let_def read_session NVS_WIFI_NAMESPACE_def)

lemma store_success:
  assumes "storeCredentials pf p ssid pass = (True, q)" and "nul_free ssid" and "nul_free pass"
  shows "view q = (view p)((NVS_WIFI_NAMESPACE, NVS_WIFI_CRED_COUNT) := ''1'',
      (NVS_WIFI_NAMESPACE, NVS_WIFI_SSID) := ssid, (NVS_WIFI_NAMESPACE, NVS_WIFI_PASS) := pass)"
proof -
  let ?p1 = "pf_begin pf p NVS_WIFI_NAMESPACE False"
  obtain n1 p2 where e1: "pf_put pf ?p1 NVS_WIFI_CRED_COUNT ''1'' = (n1, p2)" by fastforce
  obtain n2 p3 where e2: "pf_put pf p2 NVS_WIFI_SSID ssid = (n2, p3)" by fastforce
  obtain n3 p4 where e3: "pf_put pf p3 NVS_WIFI_PASS pass = (n3, p4)" by fastforce
  have g: "0 < n1" "0 < n2" "0 < n3" and q: "q = pf_end pf p4"
    using assms(1) e1 e2 e3 by (auto simp: storeCredentials_def Let_def split: if_splits)
  show ?thesis
    using put_text[OF e1 g(1)] put_text[OF e2 g(2) assms(2)] put_text[OF e3 g(3) assms(3)]
    by (simp add: nul_free_def q view_end view_begin ns_begin)
qed

text \<open>
  A store that fails leaves the two credential entries of a fresh device unreadable, whichever
  of its three writes failed.
\<close>

lemma store_failure_unreadable:
  assumes fresh: "view p (NVS_WIFI_NAMESPACE, NVS_WIFI_SSID) = []"
      "view p (NVS_WIFI_NAMESPACE, NVS_WIFI_PASS) = []"
    and fails: "storeCredentials pf p ssid pass = (False, q)"
  shows "view q (NVS_WIFI_NAMESPACE, NVS_WIFI_SSID) = [] \<or>
         view q (NVS_WIFI_NAMESPACE, NVS_WIFI_PASS) = []"
proof -
  let ?p1 = "pf_begin pf p NVS_WIFI_NAMESPACE False"
  obtain n1 p2 where e1: "pf_put pf ?p1 NVS_WIFI_CRED_COUNT ''1'' = (n1, p2)" by fastforce
  have n1: "ns_of p2 = NVS_WIFI_NAMESPACE \<and>
      view p2 (NVS_WIFI_NAMESPACE, NVS_WIFI_SSID) = [] \<and>
      view p2 (NVS_WIFI_NAMESPACE, NVS_WIFI_PASS) = []"
    using put_ok[OF e1] put_fail[of ?p1 NVS_WIFI_CRED_COUNT "''1''" p2] e1 fresh
    by (cases "n1 = 0") (auto simp: ns_begin view_begin nvs_keys)
  show ?thesis
  proof (cases "0 < n1")
    case False
    then show ?thesis using fails e1 n1 by (auto simp: storeCredentials_def view_end)
  next
    case g1: True
    obtain n2 p3 where e2: "pf_put pf p2 NVS_WIFI_SSID ssid = (n2, p3)" by fastforce
    have n2: "ns_of p3 = NVS_WIFI_NAMESPACE \<and> view p3 (NVS_WIFI_NAMESPACE, NVS_WIFI_PASS) = []"
      using put_ok[OF e2] put_fail[of p2 NVS_WIFI_SSID ssid p3] e2 n1
      by (cases "n2 = 0") (auto simp: nvs_keys)
    show ?thesis
    proof (cases "0 < n2")
      case False
      then show ?thesis using fails e1 e2 g1 n2 by (auto simp: storeCredentials_def view_end)
    next
      case g2: True
      obtain n3 p4 where e3: "pf_put pf p3 NVS_WIFI_PASS pass = (n3, p4)" by fastforce
      have "n3 = 0" using fails e1 e2 e3 g1 g2 by (simp add: storeCredentials_def)
      then have "view p4 (NVS_WIFI_NAMESPACE, NVS_WIFI_PASS) = []"
        using put_fail[of p3 NVS_WIFI_PASS pass p4] e3 n2 by auto
      then show ?thesis using fails e1 e2 e3 g1 g2 by (auto simp: storeCredentials_def view_end)
    qed
  qed
qed

lemma clear_source:
  "view (snd (clearCredentials pf p)) (NVS_WIFI_NAMESPACE, k) = []"
  by (simp add: clearCredentials_def clear_session NVS_WIFI_NAMESPACE_def)

end

section \<open>The invariant of the connection context\<close>

text \<open>
  The campaign counters stay in range, and a connected manager carries no campaign, no pending
  rejoin and a fresh retry window.
\<close>

definition wifi_inv :: "wifi_ctx \<Rightarrow> bool" where
  "wifi_inv c \<longleftrightarrow> 0 \<le> authFailStrategyIndex c \<and> authFailStrategyIndex c < 3 \<and>
     0 \<le> authFailStrategyLoop c \<and>
     (state c = WIFI_CONNECTED \<longrightarrow> \<not> pendingAuthFail c \<and> authFailStrategyIndex c = 0 \<and>
        authFailStrategyLoop c = 0 \<and> \<not> reconnectPending c \<and> reconnectAttempts c = 0)"

definition same_link :: "wifi_ctx \<Rightarrow> wifi_ctx \<Rightarrow> bool" where
  "same_link c d \<longleftrightarrow> pendingAuthFail d = pendingAuthFail c \<and>
     authFailStrategyIndex d = authFailStrategyIndex c \<and>
     authFailStrategyLoop d = authFailStrategyLoop c \<and> reconnectPending d = reconnectPending c \<and>
     reconnectAttempts d = reconnectAttempts c"

lemma apply_link: "same_link c (fst (applyStateTransition w r t c))"
  by (simp add: applyStateTransition_def same_link_def Let_def)

text \<open>What a handler or a campaign tick may ask for, as one predicate on its result.\<close>

definition step_result_ok :: "wifi_ctx \<Rightarrow> StateTransition \<times> wifi_ctx \<times> wifi_eff list \<Rightarrow> bool" where
  "step_result_ok c res \<longleftrightarrow> (case res of (t, d, es) \<Rightarrow>
     state d = state c \<and> 0 \<le> authFailStrategyIndex d \<and> authFailStrategyIndex d < 3 \<and>
     0 \<le> authFailStrategyLoop d \<and>
     (nextState t = WIFI_CONNECTED \<longrightarrow> \<not> pendingAuthFail d \<and> authFailStrategyIndex d = 0 \<and>
        authFailStrategyLoop d = 0 \<and> \<not> reconnectPending d \<and> reconnectAttempts d = 0))"

lemma handler_result_ok: "wifi_inv c \<Longrightarrow> step_result_ok c (handler_execute w p r now c)"
  unfolding handler_execute_def
  by (cases "state c")
    (auto simp: handler_defs step_result_ok_def wifi_inv_def Let_def
      split: if_splits option.splits CredentialSource.splits)

lemma campaign_result_ok:
  "wifi_inv c \<Longrightarrow> pendingAuthFail c \<Longrightarrow> step_result_ok c (campaign_tick w p r now c)"
  by (auto simp: campaign_defs step_result_ok_def wifi_inv_def Let_def wifi_consts
      split: if_splits option.splits)

lemma wifi_update_eq:
  "(if pendingAuthFail c then campaign_tick w p r now c else handler_execute w p r now c)
     = (t, d, es) \<Longrightarrow>
   wifi_update w p r now c =
     (fst (applyStateTransition w r t d), es @ snd (applyStateTransition w r t d))"
  by (simp add: wifi_update_def split_beta)

lemma wifi_inv_update: "wifi_inv c \<Longrightarrow> wifi_inv (fst (wifi_update w p r now c))"
proof -
  assume inv: "wifi_inv c"
  obtain t d es where res: "(if pendingAuthFail c then campaign_tick w p r now c
      else handler_execute w p r now c) = (t, d, es)"
    by (cases "if pendingAuthFail c then campaign_tick w p r now c
      else handler_execute w p r now c")
  have ok: "step_result_ok c (t, d, es)"
    using inv res handler_result_ok campaign_result_ok by (metis (full_types))
  have st: "state (fst (applyStateTransition w r t d)) = nextState t"
    by (rule apply_state)
  have "wifi_inv (fst (applyStateTransition w r t d))"
    using ok st apply_link[of d w r t] by (auto simp: wifi_inv_def step_result_ok_def same_link_def)
  then show ?thesis
    using wifi_update_eq[OF res] by simp
qed

lemma wifi_inv_dropped: "wifi_inv c \<Longrightarrow> wifi_inv (fst (onDisconnected reason c))"
  by (auto simp: onDisconnected_def wifi_inv_def Let_def)

interpretation wifi: step_invariant "wifi_step w p" wifi_inv for w p
proof
  fix s e assume "wifi_inv s"
  then show "wifi_inv (wifi_step w p s e)"
    by (cases e) (auto simp: wifi_inv_update wifi_inv_dropped, simp add: wifi_inv_def)
qed

lemma wifi_run_fst: "fst (wifi_run w p c es) = foldl (wifi_step w p) c es"
  by (induction es arbitrary: c) (auto simp: split_beta)

lemma wifi_run_append:
  "wifi_run w p c (us @ vs) =
     (fst (wifi_run w p (fst (wifi_run w p c us)) vs),
      snd (wifi_run w p c us) @ snd (wifi_run w p (fst (wifi_run w p c us)) vs))"
  by (induction us arbitrary: c) (auto simp: split_beta)

text \<open>
  C15. In every reachable context (any interleaving of ticks, disconnect events and flag
  clearings from construction on) the campaign counters are in range, and a connected manager
  has no campaign in progress, no rejoin pending and a fresh retry window.
\<close>

theorem wifi_reachable_inv: "wifi_inv (fst (wifi_run w p ctx_init es))"
  unfolding wifi_run_fst by (rule wifi.run_inv) (simp add: wifi_inv_def ctx_init_def)

section \<open>The authentication campaign is bounded\<close>

text \<open>The radio calls of one application of strategy \<open>k\<close> with the credentials at hand.\<close>

definition strategy_calls :: "'p wifi_cfg \<Rightarrow> 'p \<Rightarrow> int \<Rightarrow> wifi_eff list" where
  "strategy_calls w p k =
     (let (ssid, pass) = (case loadCredentialsImpl w p of Some c \<Rightarrow> c | None \<Rightarrow> ([], []))
      in applyAuthStrategy w (determineCredentialSource w p) ssid pass k)"

lemma strategy_calls_radio: "filter is_radio_eff (strategy_calls w p k) = strategy_calls w p k"
  by (simp add: strategy_calls_def applyAuthStrategy_def Let_def split_beta split: option.splits)

lemma applyCurrentStrategy_eq:
  "applyCurrentStrategy w p c = strategy_calls w p (authFailStrategyIndex c) @
     [TraceAuthFail (state c) (lastDisconnectReason c) (authFailStrategyIndex c)
        (authFailStrategyLoop c)]"
  by (simp add: applyCurrentStrategy_def strategy_calls_def split_beta)

lemma ap_mode_calls_radio: "filter is_radio_eff ap_mode_calls = ap_mode_calls"
  by (simp add: ap_mode_calls_def)

text \<open>Ticks on which the radio is not connected and a retry interval has passed.\<close>

fun due_ticks :: "u32 \<Rightarrow> (radio \<times> u32) list \<Rightarrow> bool" where
  "due_ticks prev [] \<longleftrightarrow> True"
| "due_ticks prev ((r, now) # ts) \<longleftrightarrow>
     status r \<noteq> 3 \<and> WIFI_CONNECT_RETRY_INTERVAL_MS \<le> now - prev \<and> due_ticks now ts"

definition tick_of :: "radio \<times> u32 \<Rightarrow> wifi_event" where
  "tick_of t = Tick (fst t) (snd t)"

lemma due_retry:
  "WIFI_CONNECT_RETRY_INTERVAL_MS \<le> now - prev \<Longrightarrow> shouldRetryWiFi WIFI_CONNECTING now prev a"
  by (simp add: shouldRetryWiFi_def WIFI_CONNECT_FIRST_RETRIES_MS_def)

lemma due_append:
  "due_ticks prev (us @ vs) \<longleftrightarrow>
     due_ticks prev us \<and> due_ticks (if us = [] then prev else snd (last us)) vs"
  by (induction us arbitrary: prev) auto

text \<open>The position of a campaign: the number of strategies applied so far.\<close>

definition at_attempt :: "nat \<Rightarrow> wifi_ctx \<Rightarrow> bool" where
  "at_attempt k c \<longleftrightarrow> state c = WIFI_CONNECTING \<and> pendingAuthFail c \<and>
     authFailStrategyIndex c = int (k mod 3) \<and> authFailStrategyLoop c = int (k div 3)"

lemma campaign_attempt:
  assumes "at_attempt k c" "status r \<noteq> 3" "shouldRetryWiFi WIFI_CONNECTING now (lastRetryMs c)
      (reconnectAttempts c)" "k < 8"
  shows "wifi_update w p r now c = (advanceRotation now c, applyCurrentStrategy w p c)"
    and "at_attempt (Suc k) (advanceRotation now c)"
    and "lastRetryMs (advanceRotation now c) = now"
    and "lastDisconnectReason (advanceRotation now c) = lastDisconnectReason c"
proof -
  have st: "state (advanceRotation now c) = WIFI_CONNECTING"
    using assms(1) by (simp add: at_attempt_def advanceRotation_def Let_def)
  have k: "(Suc k) div 3 < 3" using assms(4) by simp
  show at: "at_attempt (Suc k) (advanceRotation now c)"
    using assms(1) st
    by (auto simp: at_attempt_def advanceRotation_def Let_def WIFI_AUTH_STRATEGY_COUNT_def
        mod_Suc div_Suc)
  have "checkExhaustion (advanceRotation now c) = None"
    using at k by (simp add: checkExhaustion_def isAuthCampaignExhausted_def at_attempt_def
        WIFI_AUTH_STRATEGY_LOOP_COUNT_def)
  then have "campaign_tick w p r now c =
      (stay WIFI_CONNECTING, advanceRotation now c, applyCurrentStrategy w p c)"
    using assms st by (simp add: campaign_tick_def checkCampaignSuccess_def)
  then show "wifi_update w p r now c = (advanceRotation now c, applyCurrentStrategy w p c)"
    using assms(1) st by (simp add: wifi_update_def at_attempt_def apply_stay stay_def)
qed (simp_all add: advanceRotation_def Let_def)

lemma campaign_run:
  "at_attempt k c \<Longrightarrow> due_ticks (lastRetryMs c) ts \<Longrightarrow> k + length ts \<le> 8 \<Longrightarrow>
   at_attempt (k + length ts) (fst (wifi_run w p c (map tick_of ts))) \<and>
   lastRetryMs (fst (wifi_run w p c (map tick_of ts))) =
     (if ts = [] then lastRetryMs c else snd (last ts)) \<and>
   lastDisconnectReason (fst (wifi_run w p c (map tick_of ts))) = lastDisconnectReason c \<and>
   filter is_radio_eff (snd (wifi_run w p c (map tick_of ts))) =
     concat (map (\<lambda>i. strategy_calls w p (int (i mod 3))) [k ..< k + length ts])"
proof (induction ts arbitrary: k c)
  case Nil
  then show ?case by simp
next
  case (Cons t ts)
  obtain r now where t: "t = (r, now)" by (cases t)
  have due: "status r \<noteq> 3" "WIFI_CONNECT_RETRY_INTERVAL_MS \<le> now - lastRetryMs c"
      "due_ticks now ts"
    using Cons.prems(2) t by simp_all
  have k8: "k < 8" using Cons.prems(3) by simp
  note step = campaign_attempt[OF Cons.prems(1) due(1) due_retry[OF due(2)] k8]
  have ih: "due_ticks (lastRetryMs (advanceRotation now c)) ts" "Suc k + length ts \<le> 8"
    using due(3) step(3) Cons.prems(3) by simp_all
  have upt: "[k ..< Suc (k + length ts)] = k # [Suc k ..< Suc (k + length ts)]"
    by (subst upt_rec) simp
  have idx: "authFailStrategyIndex c = int (k mod 3)"
    using Cons.prems(1) by (simp add: at_attempt_def)
  show ?case
    using Cons.IH[OF step(2) ih] step(1)[of w p] step(3,4)
    by (auto simp: t tick_of_def split_beta upt applyCurrentStrategy_eq idx
        strategy_calls_radio simp del: upt_Suc)
qed

lemma campaign_last_attempt:
  assumes "at_attempt 8 c" "status r \<noteq> 3"
    and "shouldRetryWiFi WIFI_CONNECTING now (lastRetryMs c) (reconnectAttempts c)"
  shows "state (fst (wifi_update w p r now c)) = WIFI_AP_MODE_AUTH_FAIL"
    and "\<not> pendingAuthFail (fst (wifi_update w p r now c))"
    and "escalatedToApReason (fst (wifi_update w p r now c)) = lastDisconnectReason c"
    and "filter is_radio_eff (snd (wifi_update w p r now c)) = strategy_calls w p 2 @ ap_mode_calls"
proof -
  let ?d = "advanceRotation now c"
  have d: "state ?d = WIFI_CONNECTING" "authFailStrategyLoop ?d = 3"
      "lastDisconnectReason ?d = lastDisconnectReason c"
    using assms(1)
    by (simp_all add: at_attempt_def advanceRotation_def Let_def WIFI_AUTH_STRATEGY_COUNT_def)
  have ct: "campaign_tick w p r now c =
      (stay WIFI_AP_MODE_AUTH_FAIL,
       ?d\<lparr>pendingAuthFail := False, escalatedToApReason := lastDisconnectReason c\<rparr>,
       applyCurrentStrategy w p c @ ap_mode_calls
         @ [TraceAuthExhausted WIFI_CONNECTING (lastDisconnectReason c)])"
    using assms d by (simp add: campaign_tick_def checkCampaignSuccess_def checkExhaustion_def
        isAuthCampaignExhausted_def WIFI_AUTH_STRATEGY_LOOP_COUNT_def)
  have pend: "pendingAuthFail c" "authFailStrategyIndex c = 2"
    using assms(1) by (simp_all add: at_attempt_def)
  note up = wifi_update_eq[of c w p r now, simplified pend(1) if_True, OF ct]
  show "state (fst (wifi_update w p r now c)) = WIFI_AP_MODE_AUTH_FAIL"
    by (simp add: up apply_state stay_def)
  show "\<not> pendingAuthFail (fst (wifi_update w p r now c))"
    "escalatedToApReason (fst (wifi_update w p r now c)) = lastDisconnectReason c"
    by (simp_all add: up applyStateTransition_def Let_def stay_def)
  show "filter is_radio_eff (snd (wifi_update w p r now c)) = strategy_calls w p 2 @ ap_mode_calls"
    by (simp add: up applyCurrentStrategy_eq strategy_calls_radio ap_mode_calls_radio pend(2)
        applyStateTransition_def Let_def stay_def)
qed

text \<open>
  C16. The campaign is bounded: from a fresh campaign, nine due ticks
  without a connection apply the strategies 0, 1, 2 three times in this order (nothing else
  reaches the radio before the access point is started), the manager stays in
  WIFI_CONNECTING through the first eight and is in WIFI_AP_MODE_AUTH_FAIL, with the campaign
  over and the reason recorded, after the ninth.
\<close>

theorem campaign_exhausts_after_nine:
  assumes "at_attempt 0 c" and "due_ticks (lastRetryMs c) ts" and "length ts = 9"
  shows "state (fst (wifi_run w p c (map tick_of ts))) = WIFI_AP_MODE_AUTH_FAIL \<and>
    \<not> pendingAuthFail (fst (wifi_run w p c (map tick_of ts))) \<and>
    escalatedToApReason (fst (wifi_run w p c (map tick_of ts))) = lastDisconnectReason c \<and>
    filter is_radio_eff (snd (wifi_run w p c (map tick_of ts))) =
      concat (map (strategy_calls w p) [0, 1, 2, 0, 1, 2, 0, 1, 2]) @ ap_mode_calls \<and>
    (\<forall>n < 9. state (fst (wifi_run w p c (map tick_of (take n ts)))) = WIFI_CONNECTING)"
proof -
  let ?t = "ts ! 8" and ?us = "take 8 ts"
  let ?c = "fst (wifi_run w p c (map tick_of ?us))"
  have ts: "ts = ?us @ [?t]"
    using take_Suc_conv_app_nth[of 8 ts] assms(3) by simp
  note due = due_append[of "lastRetryMs c" ?us "[?t]", folded ts, THEN iffD1, OF assms(2)]
  have run8: "at_attempt 8 ?c" "lastRetryMs ?c = snd (last ?us)"
      "lastDisconnectReason ?c = lastDisconnectReason c"
      "filter is_radio_eff (snd (wifi_run w p c (map tick_of ?us))) =
         concat (map (\<lambda>i. strategy_calls w p (int (i mod 3))) [0 ..< 8])"
    using campaign_run[OF assms(1) conjunct1[OF due], of w p] assms(3) by auto
  have t: "status (fst ?t) \<noteq> 3"
      "shouldRetryWiFi WIFI_CONNECTING (snd ?t) (lastRetryMs ?c) (reconnectAttempts ?c)"
  proof -
    obtain r now where rn: "?t = (r, now)" by (cases ?t)
    have "?us \<noteq> []" using assms(3) by (metis list.size(3) take_eq_Nil zero_neq_numeral)
    then have d: "status r \<noteq> 3" "WIFI_CONNECT_RETRY_INTERVAL_MS \<le> now - snd (last ?us)"
      using conjunct2[OF due] unfolding rn by simp_all
    show "status (fst ?t) \<noteq> 3" unfolding rn by (simp add: d(1))
    show "shouldRetryWiFi WIFI_CONNECTING (snd ?t) (lastRetryMs ?c) (reconnectAttempts ?c)"
      unfolding rn snd_conv run8(2) by (rule due_retry[OF d(2)])
  qed
  note fin = campaign_last_attempt[OF run8(1) t, of w p]
  have prefixes: "state (fst (wifi_run w p c (map tick_of (take n ts)))) = WIFI_CONNECTING"
    if "n < 9" for n
  proof -
    have "due_ticks (lastRetryMs c) (take n ts)"
      using due_append[of "lastRetryMs c" "take n ts" "drop n ts"] assms(2) by simp
    from campaign_run[OF assms(1) this, of w p] that assms(3) show ?thesis
      by (simp add: at_attempt_def)
  qed
  have run: "wifi_run w p c (map tick_of ts) =
      (fst (wifi_update w p (fst ?t) (snd ?t) ?c),
       snd (wifi_run w p c (map tick_of ?us)) @ snd (wifi_update w p (fst ?t) (snd ?t) ?c))"
    by (subst ts) (simp only: map_append wifi_run_append, simp add: tick_of_def split_beta)
  have calls: "map (\<lambda>i. strategy_calls w p (int (i mod 3))) [0 ..< 8] @ [strategy_calls w p 2] =
      map (strategy_calls w p) [0, 1, 2, 0, 1, 2, 0, 1, 2]"
  proof -
    have "[0 ..< 8] = [0, 1, 2, 3, 4, 5, 6, 7 :: nat]" by code_simp
    then show ?thesis by simp
  qed
  have radio: "filter is_radio_eff (snd (wifi_run w p c (map tick_of ts))) =
      concat (map (strategy_calls w p) [0, 1, 2, 0, 1, 2, 0, 1, 2]) @ ap_mode_calls"
    unfolding calls[symmetric] run snd_conv filter_append run8(4) fin(4) by simp
  show ?thesis
    by (intro conjI allI impI prefixes radio) (simp_all only: run fst_conv fin run8(3) simp_thms)
qed

end
