(* ===== verification/FW_WiFi_Recovery.thy ===== *)
theory FW_WiFi_Recovery
  imports FW_WiFi_Proofs
begin

text \<open>
  How the WiFi state machine recovers, and where it does not: repeated authentication failures
  that keep the campaign at its first strategy, provisioning and the half-written store, the
  rejoin budget after a drop, the access-point recovery timer and the TCP restart decision.
\<close>

section \<open>Authentication events restart the rotation\<close>

text \<open>One round: the driver rejects the association attempt the previous tick started.\<close>

definition round_events :: "radio \<times> u32 \<times> int \<Rightarrow> wifi_event list" where
  "round_events x = (case x of (r, now, reason) \<Rightarrow> [Tick r now, Dropped reason])"

lemma dropped_restarts:
  assumes "at_attempt k c" "k < 3" "isAuthMechanismFailure reason"
  shows "at_attempt 0 (fst (onDisconnected reason c))"
    and "lastRetryMs (fst (onDisconnected reason c)) = 0"
    and "filter is_radio_eff (snd (onDisconnected reason c)) = []"
  using assms by (simp_all add: onDisconnected_def at_attempt_def Let_def)

lemma starved_round:
  assumes "at_attempt 0 c" "lastRetryMs c = 0" "status r \<noteq> 3"
    "WIFI_CONNECT_RETRY_INTERVAL_MS \<le> now" "isAuthMechanismFailure reason"
  shows "wifi_run w p c (round_events (r, now, reason)) =
      (fst (onDisconnected reason (advanceRotation now c)),
       applyCurrentStrategy w p c @ snd (onDisconnected reason (advanceRotation now c)))"
    and "at_attempt 0 (fst (onDisconnected reason (advanceRotation now c)))"
    and "lastRetryMs (fst (onDisconnected reason (advanceRotation now c))) = 0"
    and "filter is_radio_eff (snd (onDisconnected reason (advanceRotation now c))) = []"
proof -
  have due: "shouldRetryWiFi WIFI_CONNECTING now (lastRetryMs c) (reconnectAttempts c)"
    using assms(2,4) by (simp add: due_retry)
  note step = campaign_attempt[OF assms(1,3) due, simplified]
  note drop = dropped_restarts[OF step(2) _ assms(5)]
  show "wifi_run w p c (round_events (r, now, reason)) =
      (fst (onDisconnected reason (advanceRotation now c)),
       applyCurrentStrategy w p c @ snd (onDisconnected reason (advanceRotation now c)))"
    by (simp add: round_events_def step(1) split_beta)
  show "at_attempt 0 (fst (onDisconnected reason (advanceRotation now c)))"
    "lastRetryMs (fst (onDisconnected reason (advanceRotation now c))) = 0"
    "filter is_radio_eff (snd (onDisconnected reason (advanceRotation now c))) = []"
    using drop by simp_all
qed

text \<open>
  The campaign does not advance while the driver reports each failed
  attempt: however many rounds of a due tick answered by an authentication failure there are,
  the manager is still in WIFI_CONNECTING at the start of its rotation, and the only calls the
  radio has seen are strategy 0, once per round. The harder strategies and the access point
  are never reached.
\<close>

theorem campaign_starved_by_auth_events:
  assumes "at_attempt 0 c" and "lastRetryMs c = 0"
    and "\<forall>(r, now, reason) \<in> set rounds. status r \<noteq> 3 \<and> WIFI_CONNECT_RETRY_INTERVAL_MS \<le> now \<and>
      isAuthMechanismFailure reason"
  shows "at_attempt 0 (fst (wifi_run w p c (concat (map round_events rounds)))) \<and>
    filter is_radio_eff (snd (wifi_run w p c (concat (map round_events rounds)))) =
      concat (replicate (length rounds) (strategy_calls w p 0))"
  using assms
proof (induction rounds arbitrary: c)
  case Nil
  then show ?case by simp
next
  case (Cons x rounds)
  obtain r now reason where x: "x = (r, now, reason)" by (cases x)
  let ?d = "fst (onDisconnected reason (advanceRotation now c))"
  have pr: "status r \<noteq> 3" "WIFI_CONNECT_RETRY_INTERVAL_MS \<le> now" "isAuthMechanismFailure reason"
    using Cons.prems(3) by (simp_all add: x)
  note round = starved_round[OF Cons.prems(1,2) pr]
  have idx: "authFailStrategyIndex c = 0" using Cons.prems(1) by (simp add: at_attempt_def)
  have rest: "at_attempt 0 (fst (wifi_run w p ?d (concat (map round_events rounds)))) \<and>
    filter is_radio_eff (snd (wifi_run w p ?d (concat (map round_events rounds)))) =
      concat (replicate (length rounds) (strategy_calls w p 0))"
    by (rule Cons.IH[OF round(2,3)]) (use Cons.prems(3) in simp)
  show ?case
    using rest round(4)
    by (simp add: x wifi_run_append round(1)[of w p] applyCurrentStrategy_eq idx strategy_calls_radio)
qed

text \<open>
  After an exhausted campaign one further authentication failure is
  enough: the first due tick applies one strategy and returns to the access point.
\<close>

theorem second_failure_gives_up:
  assumes "WIFI_AUTH_STRATEGY_LOOP_COUNT \<le> authFailStrategyLoop c" and "state c = WIFI_CONNECTING"
    and "isAuthMechanismFailure reason" and "status r \<noteq> 3" and "WIFI_CONNECT_RETRY_INTERVAL_MS \<le> now"
  shows "state (fst (wifi_run w p c [Dropped reason, Tick r now])) = WIFI_AP_MODE_AUTH_FAIL \<and>
    \<not> pendingAuthFail (fst (wifi_run w p c [Dropped reason, Tick r now])) \<and>
    escalatedToApReason (fst (wifi_run w p c [Dropped reason, Tick r now])) = reason \<and>
    filter is_radio_eff (snd (wifi_run w p c [Dropped reason, Tick r now])) =
      strategy_calls w p (authFailStrategyIndex c) @ ap_mode_calls"
proof -
  let ?c = "fst (onDisconnected reason c)"
  have c: "?c = c\<lparr>lastDisconnectReason := reason, pendingAuthFail := True,
      tcpServerNeedsRestart := False, lastRetryMs := 0\<rparr>"
    using assms by (simp add: onDisconnected_def Let_def WIFI_AUTH_STRATEGY_LOOP_COUNT_def)
  have silent: "filter is_radio_eff (snd (onDisconnected reason c)) = []"
    using assms by (simp add: onDisconnected_def Let_def)
  let ?d = "advanceRotation now ?c"
  have d: "state ?d = WIFI_CONNECTING" "WIFI_AUTH_STRATEGY_LOOP_COUNT \<le> authFailStrategyLoop ?d"
      "lastDisconnectReason ?d = reason"
    using assms(1,2) by (simp_all add: c advanceRotation_def Let_def)
  have due: "shouldRetryWiFi WIFI_CONNECTING now (lastRetryMs ?c) (reconnectAttempts ?c)"
    using assms(5) by (simp add: c due_retry)
  have ct: "campaign_tick w p r now ?c =
      (stay WIFI_AP_MODE_AUTH_FAIL,
       ?d\<lparr>pendingAuthFail := False, escalatedToApReason := reason\<rparr>,
       applyCurrentStrategy w p ?c @ ap_mode_calls
         @ [TraceAuthExhausted WIFI_CONNECTING reason])"
    using assms(4) d due
    by (simp add: campaign_tick_def checkCampaignSuccess_def checkExhaustion_def
        isAuthCampaignExhausted_def)
  have pend: "pendingAuthFail ?c" "authFailStrategyIndex ?c = authFailStrategyIndex c"
    by (simp_all add: c)
  note up = wifi_update_eq[of ?c w p r now, simplified pend(1) if_True, OF ct]
  have e: "wifi_run w p c [Dropped reason, Tick r now] =
      (fst (wifi_update w p r now ?c), snd (onDisconnected reason c) @ snd (wifi_update w p r now ?c))"
    by (simp add: split_beta)
  have "state (fst (wifi_update w p r now ?c)) = WIFI_AP_MODE_AUTH_FAIL"
    by (simp add: up apply_state stay_def)
  moreover have "\<not> pendingAuthFail (fst (wifi_update w p r now ?c))"
    "escalatedToApReason (fst (wifi_update w p r now ?c)) = reason"
    by (simp_all add: up applyStateTransition_def Let_def stay_def)
  moreover have "filter is_radio_eff (snd (wifi_update w p r now ?c)) =
      strategy_calls w p (authFailStrategyIndex c) @ ap_mode_calls"
    by (simp add: up applyCurrentStrategy_eq strategy_calls_radio ap_mode_calls_radio pend(2)
        applyStateTransition_def Let_def stay_def)
  ultimately show ?thesis using silent by (simp add: e del: wifi_run.simps)
qed

section \<open>Provisioning\<close>

lemma provisioned_tick:
  assumes "prefs_laws pf view ns_of writable" and "w_pf w = pf"
    and "storeCredentials pf p ssid pass = (True, q)" and "ssid \<noteq> []" and "pass \<noteq> []"
    and "state c = WIFI_DISCONNECTED" and "\<not> pendingAuthFail c"
    and "nul_free ssid" and "nul_free pass"
  shows "wifi_update w q r now c =
    (c\<lparr>state := WIFI_CONNECTING, connectStartTime := now, lastRetryMs := now\<rparr>,
     [SetMode 1, SetHostname WIFI_HOSTNAME, Begin (c_str ssid) (c_str pass),
      TraceTransition WIFI_DISCONNECTED WIFI_CONNECTING])"
proof -
  note v = prefs_laws.store_success[OF assms(1,3,8,9)]
  have "determineCredentialSource w q = STORED_NVS"
    using prefs_laws.source_view[OF assms(1,2)] by (simp add: v nvs_keys)
  moreover have "loadCredentialsImpl w q = Some (ssid, pass)"
    using prefs_laws.load_view[OF assms(1,2)] assms(4,5) by (simp add: v nvs_keys)
  ultimately show ?thesis
    using assms(6,7)
    by (simp add: wifi_update_def handler_execute_def disconnected_execute_def stay_def
        applyStateTransition_def isApModeState_def)
qed

text \<open>
  Provisioning reaches the radio: after \<open>storeCredentials\<close> has reported
  success, the next tick of a disconnected manager starts the station with exactly the stored
  name and password (as C strings) and moves to WIFI_CONNECTING with both timers at that tick,
  whatever was stored or baked in before.
\<close>

theorem provisioning_connects:
  assumes "prefs_laws pf view ns_of writable" and "w_pf w = pf"
    and "storeCredentials pf p ssid pass = (True, q)" and "ssid \<noteq> []" and "pass \<noteq> []"
    and "state c = WIFI_DISCONNECTED" and "\<not> pendingAuthFail c"
    and "nul_free ssid" and "nul_free pass"
  shows "wifi_update w q r now c =
    (c\<lparr>state := WIFI_CONNECTING, connectStartTime := now, lastRetryMs := now\<rparr>,
     [SetMode 1, SetHostname WIFI_HOSTNAME, Begin (c_str ssid) (c_str pass),
      TraceTransition WIFI_DISCONNECTED WIFI_CONNECTING])"
  using assms by (rule provisioned_tick)

lemma stranded_tick:
  assumes "determineCredentialSource w q = STORED_NVS" and "loadCredentialsImpl w q = None"
    and "state c = WIFI_DISCONNECTED" and "\<not> pendingAuthFail c"
  shows "wifi_update w q r now c = (c, [])"
  using assms by (simp add: wifi_update_def handler_execute_def disconnected_execute_def
      stay_def apply_stay)

text \<open>
  A store that fails after its first write strands a fresh device: the
  entry count is set, so the source of credentials is the store even when credentials are
  baked in, but the credentials do not load. From then on every tick leaves the context
  unchanged and calls nothing: no station, no access point, no retry.
\<close>

theorem half_written_store_strands:
  assumes "prefs_laws pf view ns_of writable" and "w_pf w = pf"
    and "view p (NVS_WIFI_NAMESPACE, NVS_WIFI_SSID) = []"
    and "view p (NVS_WIFI_NAMESPACE, NVS_WIFI_PASS) = []"
    and "storeCredentials pf p ssid pass = (False, q)"
    and "view q (NVS_WIFI_NAMESPACE, NVS_WIFI_CRED_COUNT) \<noteq> []"
    and "state c = WIFI_DISCONNECTED" and "\<not> pendingAuthFail c"
  shows "determineCredentialSource w q = STORED_NVS \<and> loadCredentialsImpl w q = None \<and>
    wifi_run w q c (map tick_of ts) = (c, [])"
proof -
  have src: "determineCredentialSource w q = STORED_NVS"
    using prefs_laws.source_view[OF assms(1,2), of q] assms(6) by simp
  have none: "loadCredentialsImpl w q = None"
    using prefs_laws.load_view[OF assms(1,2), of q]
      prefs_laws.store_failure_unreadable[OF assms(1,3,4,5)] by auto
  have "wifi_run w q c (map tick_of ts) = (c, [])"
    by (induction ts) (simp_all add: tick_of_def stranded_tick[OF src none assms(7,8)])
  then show ?thesis using src none by simp
qed

section \<open>The rejoin budget\<close>

text \<open>
  The events after a drop that was not an authentication failure: ticks whose times, measured
  from the first of them, do not run backwards and stay within the 30 s connect budget, and
  further drops that are no authentication failures.
\<close>

fun within_budget :: "u32 \<Rightarrow> u32 \<Rightarrow> wifi_event list \<Rightarrow> bool" where
  "within_budget t0 prev [] \<longleftrightarrow> True"
| "within_budget t0 prev (Tick r now # es) \<longleftrightarrow>
     prev \<le> now - t0 \<and> now - t0 \<le> WIFI_CONNECT_TIMEOUT_MS \<and> within_budget t0 (now - t0) es"
| "within_budget t0 prev (Dropped reason # es) \<longleftrightarrow>
     \<not> isAuthMechanismFailure reason \<and> within_budget t0 prev es"
| "within_budget t0 prev (ClearTcpFlag # es) \<longleftrightarrow> within_budget t0 prev es"

definition rejoining :: "u32 \<Rightarrow> u32 \<Rightarrow> wifi_ctx \<Rightarrow> bool" where
  "rejoining t0 prev c \<longleftrightarrow> \<not> pendingAuthFail c \<and>
     (state c = WIFI_CONNECTED \<or>
      state c = WIFI_CONNECTING \<and> (reconnectPending c \<or> connectStartTime c - t0 \<le> prev))"

lemma elapsed_bound:
  fixes a n t0 b :: u32
  assumes "a - t0 \<le> n - t0" "n - t0 \<le> b"
  shows "n - a \<le> b"
proof -
  have le: "x - y \<le> x" if "y \<le> x" for x y :: u32
    using that by (simp add: word_le_nat_alt unat_sub)
  have "n - a = (n - t0) - (a - t0)" by simp
  then show ?thesis using le[OF assms(1)] assms(2) by simp
qed

lemma rejoining_tick:
  assumes rj: "rejoining t0 prev c" and t: "prev \<le> now - t0" "now - t0 \<le> WIFI_CONNECT_TIMEOUT_MS"
  shows "rejoining t0 (now - t0) (fst (wifi_update w p r now c))"
proof (cases "state c = WIFI_CONNECTED")
  case True
  then show ?thesis using rj
    by (simp add: rejoining_def wifi_update_def handler_execute_def connected_sta_execute_def
        stay_def applyStateTransition_def isApModeState_def)
next
  case False
  let ?c = "consume_rejoin_budget now c"
  have c: "state c = WIFI_CONNECTING" "\<not> pendingAuthFail c" using rj False by (auto simp: rejoining_def)
  have k: "state ?c = WIFI_CONNECTING" "\<not> pendingAuthFail ?c" "\<not> reconnectPending ?c"
    "connectStartTime ?c - t0 \<le> now - t0"
    using rj False t(1) by (auto simp: rejoining_def consume_rejoin_budget_def)
  have dur: "now - connectStartTime ?c \<le> WIFI_CONNECT_TIMEOUT_MS"
    using elapsed_bound[OF k(4) t(2)] .
  have nf: "\<not> shouldFallbackToApMode s (now - connectStartTime ?c)" for s
    using dur by (simp add: shouldFallbackToApMode_def not_less)
  have nt: "\<not> isInitialConnectTimeout (now - connectStartTime ?c)"
  proof -
    have "now - connectStartTime ?c \<le> WIFI_INITIAL_CONNECT_MAX_RETRIES * WIFI_CONNECT_RETRY_INTERVAL_MS"
      by (rule order_trans[OF dur]) (simp add: wifi_consts)
    then show ?thesis by (simp add: isInitialConnectTimeout_def not_less)
  qed
  show ?thesis
    using c k nf nt
    by (simp add: wifi_update_def handler_execute_def connecting_execute_def Let_def rejoining_def
        handleConnected_def handleConnectFailed_def handleIdleStatus_def stay_def
        applyStateTransition_def isApModeState_def)
qed

lemma rejoining_run:
  "rejoining t0 prev c \<Longrightarrow> within_budget t0 prev es \<Longrightarrow>
   \<exists>q. rejoining t0 q (fst (wifi_run w p c es))"
proof (induction t0 prev es arbitrary: c rule: within_budget.induct)
  case (1 t0 prev)
  then show ?case by auto
next
  case (2 t0 prev r now es)
  have "rejoining t0 (now - t0) (fst (wifi_update w p r now c))"
    by (rule rejoining_tick[OF 2(2)]) (use 2(3) in simp_all)
  from 2(1)[OF this] 2(3) show ?case by (simp add: split_beta)
next
  case (3 t0 prev reason es)
  have "rejoining t0 prev (fst (onDisconnected reason c))"
    using 3(2,3) by (auto simp: rejoining_def onDisconnected_def Let_def)
  from 3(1)[OF this] 3(3) show ?case by (simp add: split_beta)
next
  case (4 t0 prev es)
  have "rejoining t0 prev (c\<lparr>tcpServerNeedsRestart := False\<rparr>)"
    using 4(2) by (simp add: rejoining_def)
  from 4(1)[OF this] 4(3) show ?case by (simp add: split_beta)
qed

text \<open>
  C28. A connected manager that loses its link for a reason that is not an
  authentication failure has a full connect budget whatever the clock reads and whenever it
  last connected: for the 30 s from its next tick, and through any further such drops, every
  tick leaves it in WIFI_CONNECTING or WIFI_CONNECTED, never in an access-point state.
\<close>

theorem rejoin_budget_respected:
  assumes "wifi_inv c" and "state c = WIFI_CONNECTED" and "\<not> isAuthMechanismFailure reason"
    and "within_budget t0 0 (Tick r0 t0 # es)"
  shows "state (fst (wifi_run w p c (Dropped reason # Tick r0 t0 # es))) \<in>
    {WIFI_CONNECTING, WIFI_CONNECTED}"
proof -
  have "rejoining t0 0 (fst (onDisconnected reason c))"
    using assms(1-3) by (auto simp: rejoining_def onDisconnected_def Let_def wifi_inv_def)
  from rejoining_run[OF this assms(4), of w p] show ?thesis
    by (auto simp: rejoining_def split_beta)
qed

text \<open>
  The fallback to the access point does not look at the reason beyond the
  scan miss: a connecting manager with stored credentials whose radio reports a failed or
  absent network after 30 s enters an access-point state for every reason the code classifies
  as a link-level drop, and WIFI_AP_MODE_AUTH_FAIL for all of those but the scan miss.
\<close>

theorem link_level_drop_escalates:
  assumes "isLinkLevelDrop (lastDisconnectReason c)" and "state c = WIFI_CONNECTING"
    and "\<not> pendingAuthFail c" and "\<not> reconnectPending c"
    and "determineCredentialSource w p = STORED_NVS"
    and "status r = 4 \<or> status r = 1"
    and "WIFI_CONNECT_TIMEOUT_MS < now - connectStartTime c"
  shows "state (fst (wifi_update w p r now c)) =
    (if lastDisconnectReason c = WIFI_REASON_NO_AP_FOUND then WIFI_AP_MODE_NO_AP
     else WIFI_AP_MODE_AUTH_FAIL)"
  using assms
  by (auto simp: wifi_update_def handler_execute_def connecting_execute_def handler_defs
      shouldFallbackToApMode_def isApScanMiss_def split_beta apply_state)

section \<open>The access-point recovery timer\<close>

lemma ap_wait_tick:
  assumes "state c = WIFI_AP_MODE_AUTH_FAIL \<or> state c = WIFI_AP_MODE_NO_AP" "\<not> pendingAuthFail c"
    "apModeStaRetryMs c \<noteq> 0" "now - apModeStaRetryMs c < WIFI_AP_MODE_STA_RETRY_INTERVAL_MS"
  shows "wifi_update w p r now c = (c, [])"
  using assms by (auto simp: wifi_update_def handler_execute_def connected_ap_execute_def
      attemptApModeStaRecovery_def stay_def apply_stay)

text \<open>
  A manager that has just entered an access-point state with credentials
  arms the recovery timer on its first tick (at a non-zero time), does nothing on any tick of
  the next five minutes, and on the first tick past them puts the radio back into station mode,
  re-associates with the credentials at hand and returns to WIFI_CONNECTING with a fresh connect
  budget and the timer re-armed.
\<close>

theorem ap_recovery_waits_then_retries:
  assumes "state c = WIFI_AP_MODE_AUTH_FAIL \<or> state c = WIFI_AP_MODE_NO_AP"
    and "\<not> pendingAuthFail c" and "apModeStaRetryMs c = 0" and "t \<noteq> 0"
    and "\<forall>(r, n) \<in> set waits. n - t < WIFI_AP_MODE_STA_RETRY_INTERVAL_MS"
    and "WIFI_AP_MODE_STA_RETRY_INTERVAL_MS \<le> u - t"
  shows "wifi_run w p c (Tick r0 t # map tick_of waits @ [Tick r1 u]) =
    (c\<lparr>state := WIFI_CONNECTING, apModeStaRetryMs := u, connectStartTime := u, lastRetryMs := u\<rparr>,
     SetMode 1 # begin_known_creds w p @ [TraceTransition (state c) WIFI_CONNECTING])"
proof -
  let ?d = "c\<lparr>apModeStaRetryMs := t\<rparr>"
  have arm: "wifi_update w p r0 t c = (?d, [])"
    using assms(1-3) by (auto simp: wifi_update_def handler_execute_def connected_ap_execute_def
        attemptApModeStaRecovery_def stay_def apply_stay)
  have wait: "wifi_run w p ?d (map tick_of waits) = (?d, [])"
    using assms(5)
  proof (induction waits)
    case (Cons x xs)
    have "wifi_update w p (fst x) (snd x) ?d = (?d, [])"
      by (rule ap_wait_tick) (use Cons.prems assms(1,2,4) in \<open>auto simp: split_beta\<close>)
    then show ?case using Cons by (simp add: tick_of_def)
  qed simp
  have fire: "wifi_update w p r1 u ?d =
    (c\<lparr>state := WIFI_CONNECTING, apModeStaRetryMs := u, connectStartTime := u, lastRetryMs := u\<rparr>,
     SetMode 1 # begin_known_creds w p @ [TraceTransition (state c) WIFI_CONNECTING])"
    using assms(1,2,4,6) by (auto simp: wifi_update_def handler_execute_def
        connected_ap_execute_def attemptApModeStaRecovery_def stay_def applyStateTransition_def
        isApModeState_def not_less[symmetric])
  show ?thesis by (simp add: arm wifi_run_append wait fire)
qed

section \<open>The TCP restart decision\<close>

text \<open>
  A drop event followed by a reconnection on the same address after no
  recorded outage: the address-aware decision says that the listening socket need not be bound
  again, yet the restart flag the firmware's loop consults is set, because the drop event has
  raised it unconditionally and nothing lowers it.
\<close>

theorem same_ip_blip_still_restarts:
  assumes "wifi_inv c" and "state c = WIFI_CONNECTED" and "\<not> isAuthMechanismFailure reason"
    and "lastConnectedIp c = ip" and "ip \<noteq> []" and "disconnectStartMs c = 0"
    and "status r = 3" and "localIP r = ip"
  shows "shouldRestartTcpServerForReconnect (localIP r) (lastConnectedIp c) 0 = False \<and>
    state (fst (wifi_run w p c [Dropped reason, Tick r now])) = WIFI_CONNECTED \<and>
    tcpServerNeedsRestart (fst (wifi_run w p c [Dropped reason, Tick r now]))"
  using assms
  by (simp add: shouldRestartTcpServerForReconnect_def onDisconnected_def Let_def wifi_inv_def
      wifi_update_def handler_execute_def connecting_execute_def consume_rejoin_budget_def
      handleConnected_def outage_ms_def applyStateTransition_def isApModeState_def split_beta
      LONG_OUTAGE_MS_def)

section \<open>Witnesses\<close>

definition ex_radio :: "int \<Rightarrow> radio" where "ex_radio s = \<lparr>status = s, localIP = ''10.0.0.7''\<rparr>"

definition ex_cfg :: "mock_prefs wifi_cfg" where
  "ex_cfg = \<lparr>w_pf = mock_if, bakedSsid = Some ''home'', bakedPass = Some ''pw'',
     ntpInitCallback = True, tcpServerRestartCallback = True, discoveryResetCallback = True\<rparr>"

definition ex_campaign :: wifi_ctx where
  "ex_campaign = ctx_init\<lparr>state := WIFI_CONNECTING, pendingAuthFail := True, lastDisconnectReason := 202\<rparr>"

definition ex_connected :: wifi_ctx where
  "ex_connected = ctx_init\<lparr>state := WIFI_CONNECTED, lastConnectedIp := ''10.0.0.7''\<rparr>"

definition ex_stored :: mock_prefs where
  "ex_stored = snd (storeCredentials mock_if mock_empty ''net'' ''secret'')"

lemmas ex_defs = ex_radio_def ex_cfg_def ex_campaign_def ex_connected_def ex_stored_def ctx_init_def

lemma ex_store_ok: "storeCredentials mock_if mock_empty ''net'' ''secret'' = (True, ex_stored)"
  by (simp add: ex_stored_def storeCredentials_def mock_ops mock_empty_def nvs_keys)

lemma ex_stored_source: "determineCredentialSource ex_cfg ex_stored = STORED_NVS"
  using mock.source_view[of ex_cfg ex_stored] mock.store_success[OF ex_store_ok]
  by (simp add: ex_cfg_def nvs_keys nul_free_def)

theorem campaign_exhausts_after_nine_witness:
  "state (fst (wifi_run ex_cfg mock_empty ex_campaign (map tick_of
     (map (\<lambda>t. (ex_radio 6, t)) [5000, 10000, 15000, 20000, 25000, 30000, 35000, 40000, 45000]))))
   = WIFI_AP_MODE_AUTH_FAIL"
  by (rule campaign_exhausts_after_nine[THEN conjunct1])
    (simp_all add: ex_defs at_attempt_def wifi_consts)

theorem campaign_starved_by_auth_events_witness:
  "at_attempt 0 (fst (wifi_run ex_cfg mock_empty ex_campaign (concat (map round_events
     [(ex_radio 6, 5000, 202), (ex_radio 4, 10000, 15), (ex_radio 1, 900000, 23)]))))"
  by (rule campaign_starved_by_auth_events[THEN conjunct1])
    (simp_all add: ex_defs at_attempt_def wifi_consts isAuthMechanismFailure_def wifi_reasons)

theorem second_failure_gives_up_witness:
  "state (fst (wifi_run ex_cfg mock_empty (ctx_init\<lparr>state := WIFI_CONNECTING, authFailStrategyLoop := 3\<rparr>)
     [Dropped 202, Tick (ex_radio 6) 700000])) = WIFI_AP_MODE_AUTH_FAIL"
  by (rule second_failure_gives_up[THEN conjunct1])
    (simp_all add: ex_defs wifi_consts isAuthMechanismFailure_def wifi_reasons)

theorem provisioning_connects_witness:
  "wifi_update ex_cfg ex_stored (ex_radio 6) 1234 ctx_init =
    (ctx_init\<lparr>state := WIFI_CONNECTING, connectStartTime := 1234, lastRetryMs := 1234\<rparr>,
     [SetMode 1, SetHostname WIFI_HOSTNAME, Begin (c_str ''net'') (c_str ''secret''),
      TraceTransition WIFI_DISCONNECTED WIFI_CONNECTING])"
  by (rule provisioning_connects[OF mock.prefs_laws_axioms _ ex_store_ok])
    (simp_all add: ex_cfg_def ctx_init_def nul_free_def)

theorem half_written_store_strands_witness:
  "\<not> fst (storeCredentials mock_if mock_empty ''open-net'' []) \<and>
   wifi_run ex_cfg (snd (storeCredentials mock_if mock_empty ''open-net'' [])) ctx_init
     (map tick_of [(ex_radio 6, 0), (ex_radio 6, 60000)]) = (ctx_init, [])"
proof -
  let ?q = "snd (storeCredentials mock_if mock_empty ''open-net'' [])"
  have store: "storeCredentials mock_if mock_empty ''open-net'' [] = (False, ?q)"
    by (simp add: storeCredentials_def mock_ops mock_empty_def nvs_keys)
  have "wifi_run ex_cfg ?q ctx_init (map tick_of [(ex_radio 6, 0), (ex_radio 6, 60000)]) =
      (ctx_init, [])"
    by (rule half_written_store_strands[OF mock.prefs_laws_axioms _ _ _ store,
          THEN conjunct2, THEN conjunct2])
      (simp_all add: ex_cfg_def ctx_init_def mock_empty_def mock_view_def storeCredentials_def
        mock_ops nvs_keys)
  moreover have "\<not> fst (storeCredentials mock_if mock_empty ''open-net'' [])"
    using store by (metis fst_conv)
  ultimately show ?thesis by blast
qed

theorem rejoin_budget_respected_witness:
  "state (fst (wifi_run ex_cfg ex_stored ex_connected (Dropped 200 # Tick (ex_radio 1) 7200000 #
     [Tick (ex_radio 1) 7215000, Dropped 201, Tick (ex_radio 4) 7230000]))) \<in>
   {WIFI_CONNECTING, WIFI_CONNECTED}"
  by (rule rejoin_budget_respected)
    (simp_all add: ex_defs wifi_inv_def wifi_consts isAuthMechanismFailure_def wifi_reasons)

theorem link_level_drop_escalates_witness:
  "state (fst (wifi_update ex_cfg ex_stored (ex_radio 1) 30001
     (ctx_init\<lparr>state := WIFI_CONNECTING, lastDisconnectReason := 200\<rparr>))) =
   (if lastDisconnectReason (ctx_init\<lparr>state := WIFI_CONNECTING, lastDisconnectReason := 200\<rparr>)
       = WIFI_REASON_NO_AP_FOUND then WIFI_AP_MODE_NO_AP else WIFI_AP_MODE_AUTH_FAIL)"
  by (rule link_level_drop_escalates)
    (simp_all add: ex_stored_source isLinkLevelDrop_def wifi_reasons ctx_init_def ex_radio_def wifi_consts)

theorem ap_recovery_waits_then_retries_witness:
  "wifi_run ex_cfg ex_stored (ctx_init\<lparr>state := WIFI_AP_MODE_NO_AP\<rparr>)
     (Tick (ex_radio 6) 1000 # map tick_of [(ex_radio 6, 2000), (ex_radio 6, 300999)]
        @ [Tick (ex_radio 6) 301000]) =
   (ctx_init\<lparr>state := WIFI_AP_MODE_NO_AP\<rparr>\<lparr>state := WIFI_CONNECTING, apModeStaRetryMs := 301000,
      connectStartTime := 301000, lastRetryMs := 301000\<rparr>,
    SetMode 1 # begin_known_creds ex_cfg ex_stored @
      [TraceTransition (state (ctx_init\<lparr>state := WIFI_AP_MODE_NO_AP\<rparr>)) WIFI_CONNECTING])"
  by (rule ap_recovery_waits_then_retries) (simp_all add: ctx_init_def wifi_consts)

theorem same_ip_blip_still_restarts_witness:
  "tcpServerNeedsRestart (fst (wifi_run ex_cfg ex_stored ex_connected
     [Dropped 200, Tick (ex_radio 3) 500]))"
  by (rule same_ip_blip_still_restarts[of _ _ "''10.0.0.7''", THEN conjunct2, THEN conjunct2])
    (simp_all add: ex_defs wifi_inv_def isAuthMechanismFailure_def wifi_reasons)

end
