(* ===== verification/FW_AtCommands_Proofs.thy ===== *)
theory FW_AtCommands_Proofs
  imports FW_AtCommands FW_WiFi_Recovery
begin

text \<open>
  Properties of the command core: what the framer hands over for any split of the input, what
  the dispatcher guarantees for every command (order of reply, flush and restart; a reply to
  unknown commands without effect; insensitivity to case and padding), and what the two
  provisioning commands write.
\<close>

section \<open>The framer\<close>

lemma drain_append:
  "drain f (xs @ ys) =
     (fst (drain (fst (drain f xs)) ys), snd (drain f xs) @ snd (drain (fst (drain f xs)) ys))"
  by (induction xs arbitrary: f) (simp_all add: split_beta)

lemma drain_maxLen [simp]: "maxLen (fst (drain f cs)) = maxLen f"
  by (induction cs arbitrary: f) (simp_all add: split_beta handleByte_def Let_def)

definition framer_inv :: "framer \<Rightarrow> bool" where
  "framer_inv f \<longleftrightarrow> length (buffer f) \<le> maxLen f \<and> CR \<notin> set (buffer f) \<and> LF \<notin> set (buffer f)"

lemma handleByte_inv: "framer_inv f \<Longrightarrow> framer_inv (fst (handleByte c f))"
  by (auto simp: framer_inv_def handleByte_def Let_def)

interpretation framer: step_invariant "\<lambda>f c. fst (handleByte c f)" framer_inv
  by unfold_locales (rule handleByte_inv)

lemma drain_fst: "fst (drain f cs) = foldl (\<lambda>f c. fst (handleByte c f)) f cs"
  by (induction cs arbitrary: f) (simp_all add: split_beta)

lemma handleByte_lines:
  "framer_inv f \<Longrightarrow> l \<in> set (snd (handleByte c f)) \<Longrightarrow>
   l \<noteq> [] \<and> length l \<le> maxLen f \<and> CR \<notin> set l \<and> LF \<notin> set l"
  by (auto simp: handleByte_def framer_inv_def Let_def split: if_splits)

lemma drain_line_bounds:
  "framer_inv f \<Longrightarrow> l \<in> set (snd (drain f cs)) \<Longrightarrow>
   l \<noteq> [] \<and> length l \<le> maxLen f \<and> CR \<notin> set l \<and> LF \<notin> set l"
proof (induction cs arbitrary: f)
  case (Cons c cs)
  have m: "maxLen (fst (handleByte c f)) = maxLen f"
    by (simp add: handleByte_def Let_def)
  show ?case
    using Cons.prems Cons.IH[OF handleByte_inv[OF Cons.prems(1)], of c] handleByte_lines[OF Cons.prems(1)]
    by (auto simp: split_beta m)
qed simp

text \<open>
  Whatever the chunks in which the console's bytes arrive, the lines
  dispatched and the pending buffer are those of the whole input; every dispatched line is
  non-empty, free of terminators and within the byte budget, and the buffer never exceeds the
  budget.
\<close>

theorem framer_chunking_and_bounds:
  "drain \<lparr>maxLen = m, buffer = []\<rparr> (xs @ ys) =
     (let (f, out1) = drain \<lparr>maxLen = m, buffer = []\<rparr> xs; (g, out2) = drain f ys
      in (g, out1 @ out2)) \<and>
   list_all (\<lambda>l. l \<noteq> [] \<and> length l \<le> m \<and> CR \<notin> set l \<and> LF \<notin> set l)
     (snd (drain \<lparr>maxLen = m, buffer = []\<rparr> xs)) \<and>
   length (buffer (fst (drain \<lparr>maxLen = m, buffer = []\<rparr> xs))) \<le> m"
proof -
  let ?f = "\<lparr>maxLen = m, buffer = []\<rparr>"
  have inv: "framer_inv ?f" by (simp add: framer_inv_def)
  have "framer_inv (fst (drain ?f xs))"
    unfolding drain_fst by (rule framer.run_inv[OF inv])
  then have "length (buffer (fst (drain ?f xs))) \<le> m"
    by (simp add: framer_inv_def)
  moreover have "list_all (\<lambda>l. l \<noteq> [] \<and> length l \<le> m \<and> CR \<notin> set l \<and> LF \<notin> set l) (snd (drain ?f xs))"
    using drain_line_bounds[OF inv, of _ xs] by (simp add: list_all_iff)
  ultimately show ?thesis by (simp add: drain_append split_beta Let_def)
qed

lemma drain_plain:
  "CR \<notin> set l \<Longrightarrow> LF \<notin> set l \<Longrightarrow> length (buffer f) + length l \<le> maxLen f \<Longrightarrow>
   drain f l = (f\<lparr>buffer := buffer f @ l\<rparr>, [])"
proof (induction l arbitrary: f)
  case (Cons c l)
  have "handleByte c f = (f\<lparr>buffer := buffer f @ [c]\<rparr>, [])"
    using Cons.prems by (auto simp: handleByte_def Let_def)
  moreover have "drain (f\<lparr>buffer := buffer f @ [c]\<rparr>) l = (f\<lparr>buffer := buffer f @ c # l\<rparr>, [])"
    using Cons.IH[of "f\<lparr>buffer := buffer f @ [c]\<rparr>"] Cons.prems by simp
  ultimately show ?case by simp
qed simp

lemma drain_line:
  assumes "CR \<notin> set l" "LF \<notin> set l" "l \<noteq> []" "buffer f = []" "length l \<le> maxLen f"
    "t = CR \<or> t = LF"
  shows "drain f (l @ [t]) = (f, [l])"
proof -
  have "drain f l = (f\<lparr>buffer := l\<rparr>, [])"
    using drain_plain[of l f] assms by simp
  then show ?thesis using assms by (simp add: drain_append handleByte_def)
qed

text \<open>
  Lines within the budget are dispatched exactly as sent, whether they end
  in carriage return or line feed.
\<close>

theorem framer_dispatches_each_line:
  assumes "\<forall>(l, t) \<in> set ls. l \<noteq> [] \<and> length l \<le> m \<and> CR \<notin> set l \<and> LF \<notin> set l \<and> (t = CR \<or> t = LF)"
  shows "drain \<lparr>maxLen = m, buffer = []\<rparr> (concat (map (\<lambda>(l, t). l @ [t]) ls)) =
    (\<lparr>maxLen = m, buffer = []\<rparr>, map fst ls)"
  using assms
proof (induction ls)
  case (Cons x ls)
  have "drain \<lparr>maxLen = m, buffer = []\<rparr> (fst x @ [snd x]) = (\<lparr>maxLen = m, buffer = []\<rparr>, [fst x])"
    by (rule drain_line) (use Cons.prems in \<open>auto simp: split_beta\<close>)
  then have "drain \<lparr>maxLen = m, buffer = []\<rparr> ((fst x @ [snd x]) @ concat (map (\<lambda>(l, t). l @ [t]) ls)) =
      (\<lparr>maxLen = m, buffer = []\<rparr>, fst x # map fst ls)"
    unfolding drain_append using Cons by simp
  then show ?case by (cases x) (simp del: drain.simps)
qed simp

theorem framer_dispatches_each_line_witness:
  "drain \<lparr>maxLen = 8, buffer = []\<rparr> (concat (map (\<lambda>(l, t). l @ [t]) [(''ATI'', CR), (''ATZ'', LF)])) =
    (\<lparr>maxLen = 8, buffer = []\<rparr>, map fst [(''ATI'', CR), (''ATZ'', LF)])"
  by (rule framer_dispatches_each_line) (simp add: CR_def LF_def)

text \<open>
  An over-long line is not discarded in full: only the part up to the
  byte that overflows the budget is, and what follows on the same line is dispatched as a
  command of its own.
\<close>

theorem overlong_line_tail_is_dispatched:
  assumes "length l = Suc m" and "rst \<noteq> []" and "length rst \<le> m"
    and "CR \<notin> set (l @ rst)" and "LF \<notin> set (l @ rst)"
  shows "snd (drain \<lparr>maxLen = m, buffer = []\<rparr> (l @ rst @ [CR])) = [rst]"
proof -
  obtain u c where l: "l = u @ [c]" using assms(1) by (metis length_Suc_conv_rev)
  have "drain \<lparr>maxLen = m, buffer = []\<rparr> u = (\<lparr>maxLen = m, buffer = u\<rparr>, [])"
    using drain_plain[of u "\<lparr>maxLen = m, buffer = []\<rparr>"] assms l by simp
  then have "drain \<lparr>maxLen = m, buffer = []\<rparr> l = (\<lparr>maxLen = m, buffer = []\<rparr>, [])"
    using assms l by (auto simp: drain_append handleByte_def Let_def)
  moreover have "drain \<lparr>maxLen = m, buffer = []\<rparr> (rst @ [CR]) = (\<lparr>maxLen = m, buffer = []\<rparr>, [rst])"
    by (rule drain_line) (use assms in auto)
  ultimately show ?thesis by (simp add: drain_append[of _ l] del: drain.simps)
qed

theorem overlong_line_tail_is_dispatched_witness:
  "snd (drain \<lparr>maxLen = 9, buffer = []\<rparr> (''0123456789'' @ ''ATREBOOT'' @ [CR])) = [''ATREBOOT'']"
  by (rule overlong_line_tail_is_dispatched) (simp_all add: CR_def LF_def)

section \<open>The dispatcher\<close>

lemma find_handler_matches: "find_handler n = Some k \<Longrightarrow> at_matches k n"
  by (auto simp: find_handler_def find_Some_iff)

text \<open>The two commands that read parameters out of the original text; all others do not.\<close>

lemma at_execute_cmd_irrelevant:
  "k \<noteq> AtsetwifiCommandHandler \<Longrightarrow> k \<noteq> AtsettokenCommandHandler \<Longrightarrow>
   at_execute H dev ver k cmd h = at_execute H dev ver k cmd' h"
  by (cases k) simp_all

text \<open>
  Case and padding do not matter: two commands with the same
  normal form have the same outputs and the same effect on the device, unless they are one of
  the two that carry parameters.
\<close>

theorem at_case_and_padding_insensitive:
  assumes "normalizeAtCommand a = normalizeAtCommand b"
    and "\<not> starts_with ''ATSETWIFI'' (normalizeAtCommand a)"
    and "\<not> starts_with ''ATSETTOKEN'' (normalizeAtCommand a)"
  shows "handleCommand H dev ver prompt a h = handleCommand H dev ver prompt b h"
proof (cases "find_handler (normalizeAtCommand a)")
  case None
  then show ?thesis using assms(1) by (simp add: handleCommand_def)
next
  case (Some k)
  have "k \<noteq> AtsetwifiCommandHandler" "k \<noteq> AtsettokenCommandHandler"
    using find_handler_matches[OF Some] assms(2,3) by auto
  from at_execute_cmd_irrelevant[OF this, of H dev ver a h b] show ?thesis
    using Some assms(1) by (simp add: handleCommand_def)
qed

text \<open>
  A command no handler matches is answered with a question mark, once, and
  changes nothing.
\<close>

theorem unknown_command_has_no_effect:
  assumes "list_all (\<lambda>k. \<not> at_matches k (normalizeAtCommand cmd)) firmware_handlers"
  shows "handleTcpCommand H dev ver cmd h = ([TcpPrint (''?'' @ [CR, CR, CHR ''>'']), TcpFlush], h) \<and>
    handleSerialCommand H dev ver cmd h = ([SerialPrintln ''?''], h)"
proof -
  have "find_handler (normalizeAtCommand cmd) = None"
    using assms by (simp add: find_handler_def find_None_iff list_all_iff)
  then show ?thesis
    by (simp add: handleTcpCommand_def handleSerialCommand_def handleCommand_def
        sendTcpPrompt_def sendSerialPrompt_def)
qed

theorem unknown_command_has_no_effect_witness:
  "handleTcpCommand H dev ver ''0100'' h = ([TcpPrint (''?'' @ [CR, CR, CHR ''>'']), TcpFlush], h) \<and>
   handleSerialCommand H dev ver ''0100'' h = ([SerialPrintln ''?''], h)"
proof -
  have "list_all (\<lambda>k. \<not> at_matches k (normalizeAtCommand ''0100'')) firmware_handlers" by code_simp
  then show ?thesis by (rule unknown_command_has_no_effect)
qed

lemma reboot_needs_handler:
  "shouldReboot (fst (at_execute H dev ver k cmd h)) \<Longrightarrow>
   k = AtsetwifiCommandHandler \<or> k = AtsettokenCommandHandler \<or> k = AtclearwifiCommandHandler \<or>
   k = AtrebootCommandHandler"
  by (cases k) (auto simp: at_result_def split: option.splits prod.splits)

text \<open>
  Every command over TCP is answered by exactly one framed prompt, which is
  flushed before anything else happens; the chip is restarted at most once, as the very last
  output, and only by the four commands that mean to.
\<close>

theorem restart_is_last:
  "\<exists>r rest tail. fst (handleTcpCommand H dev ver cmd h) =
     TcpPrint (r @ [CR, CR, CHR ''>'']) # TcpFlush # rest @ tail \<and>
   (rest = [] \<or> rest = [TcpFlush, SerialPrintln ''REBOOT'', SerialFlush]) \<and>
   (tail = [] \<or>
    tail = [EspRestart] \<and>
    (starts_with ''ATSETWIFI'' (normalizeAtCommand cmd) \<or>
     starts_with ''ATSETTOKEN'' (normalizeAtCommand cmd) \<or>
     normalizeAtCommand cmd = ''ATCLEARWIFI'' \<or> normalizeAtCommand cmd = ''ATREBOOT''))"
proof (cases "find_handler (normalizeAtCommand cmd)")
  case None
  then show ?thesis by (simp add: handleTcpCommand_def handleCommand_def sendTcpPrompt_def)
next
  case (Some k)
  let ?res = "fst (at_execute H dev ver k cmd h)"
  have out: "fst (handleTcpCommand H dev ver cmd h) =
      TcpPrint (response ?res @ [CR, CR, CHR ''>'']) # TcpFlush #
      (if shouldFlushClient ?res then [TcpFlush, SerialPrintln ''REBOOT'', SerialFlush] else []) @
      (if shouldReboot ?res then [EspRestart] else [])"
    using Some by (simp add: handleTcpCommand_def handleCommand_def sendTcpPrompt_def split_beta)
  have "shouldReboot ?res \<Longrightarrow> starts_with ''ATSETWIFI'' (normalizeAtCommand cmd) \<or>
     starts_with ''ATSETTOKEN'' (normalizeAtCommand cmd) \<or>
     normalizeAtCommand cmd = ''ATCLEARWIFI'' \<or> normalizeAtCommand cmd = ''ATREBOOT''"
    using reboot_needs_handler[of H dev ver k cmd h] find_handler_matches[OF Some] by auto
  then show ?thesis unfolding out
    by (intro exI[of _ "response ?res"] exI[of _ "if shouldFlushClient ?res
          then [TcpFlush, SerialPrintln ''REBOOT'', SerialFlush] else []"]
        exI[of _ "if shouldReboot ?res then [EspRestart] else []"]) auto
qed

section \<open>Provisioning commands\<close>

definition ex_device :: "mock_prefs device" where
  "ex_device = \<lparr>d_prefs = mock_empty, d_tokens = token_store_new mock_empty [], d_monitor = False\<rparr>"

lemma to_upper_id: "\<not> (97 \<le> (of_char c :: nat) \<and> (of_char c :: nat) \<le> 122) \<Longrightarrow> to_upper c = c"
  by (simp only: to_upper_def if_False)

lemma trim_keep_head:
  assumes "\<not> ws4 c"
  shows "trim_by ws4 (c # s) = c # rev (dropWhile ws4 (rev s))"
  using assms
  by (cases "\<forall>x \<in> set s. ws4 x") (auto simp: trim_by_def dropWhile_append dropWhile_eq_Nil_conv)

lemma find_setwifi:
  "starts_with ''ATSETWIFI'' n \<Longrightarrow> find_handler n = Some AtsetwifiCommandHandler"
  by (drule starts_with_split, erule ssubst)
    (simp add: find_handler_def firmware_handlers_def starts_with_def)

lemma find_settoken:
  "starts_with ''ATSETTOKEN'' n \<Longrightarrow> find_handler n = Some AtsettokenCommandHandler"
  by (drule starts_with_split, erule ssubst)
    (simp add: find_handler_def firmware_handlers_def starts_with_def)

lemma parse_setwifi:
  assumes "s \<noteq> []" "CHR '','' \<notin> set s"
  shows "parseSetWifiParams (s @ CHR '','' # p) = \<lparr>sw_ssid = s, sw_password = p, sw_valid = True\<rparr>"
proof -
  have "find_from (CHR '','') (s @ CHR '','' # p) 0 = Some (length s)"
    using find_from_append[of "CHR '',''" s 0 "[]" p] assms(2) by simp
  then show ?thesis using assms(1) by (simp add: parseSetWifiParams_def substr_def)
qed

text \<open>A network name and a password the command's syntax can carry.\<close>

definition wifi_args_ok :: "string \<Rightarrow> string \<Rightarrow> bool" where
  "wifi_args_ok s p \<longleftrightarrow> s \<noteq> [] \<and> length s \<le> 32 \<and> CHR '','' \<notin> set s \<and> \<not> ws4 (hd s) \<and>
     p \<noteq> [] \<and> length p \<le> 64 \<and> \<not> ws4 (last p) \<and> CHR 0x00 \<notin> set s \<and> CHR 0x00 \<notin> set p"

definition setwifi_reply :: "bool \<Rightarrow> AtCommandResult" where
  "setwifi_reply ok =
     (if ok then at_result ''OK WiFi credentials stored. Rebooting to connect...'' True True
      else at_result ''ERROR Failed to store credentials'' False False)"

lemma setwifi_exec:
  assumes "length pre = 9" and "wifi_args_ok s p"
  shows "setwifi_execute H (pre @ s @ CHR '','' # p) h =
    (setwifi_reply (fst (h_storeWifi H h s p)), snd (h_storeWifi H h s p))"
proof -
  let ?r = "s @ CHR '','' # p"
  note a = assms(2)[unfolded wifi_args_ok_def]
  have ends: "\<not> ws4 (hd ?r)" "\<not> ws4 (last ?r)" using a by (simp_all add: hd_append)
  then have "\<not> list_all ws4 ?r" using a by (cases s) auto
  moreover have "trim_by ws4 ?r = ?r" using ends by (intro trim_by_id) simp
  ultimately show ?thesis
    using assms(1) a parse_setwifi[of s p]
    by (simp add: setwifi_execute_def Let_def split_beta setwifi_reply_def)
qed

lemma to_upper_ws: "ws4 c \<Longrightarrow> to_upper c = c"
  by (auto simp: ws4_def TAB_def CR_def LF_def to_upper_def)

lemma normal_prefix:
  assumes "map to_upper kw = c # cs" and "\<not> ws4 c" and "r \<noteq> []" and "\<not> ws4 (last r)"
  shows "normalizeAtCommand (kw @ r) = (c # cs) @ map to_upper r"
proof -
  obtain k ks where kw: "kw = k # ks" "to_upper k = c" using assms(1) by (cases kw) auto
  have "\<not> ws4 k" using kw assms(2) to_upper_ws by fastforce
  then have "trim_by ws4 (kw @ r) = kw @ r"
    using assms(3,4) kw by (intro trim_by_id) simp
  then show ?thesis using assms(1) by (simp add: normalizeAtCommand_def)
qed

lemma normal_blank: "normalizeAtCommand (CHR '' '' # s) = normalizeAtCommand s"
  by (simp add: normalizeAtCommand_def trim_by_def ws4_def)

lemma setwifi_run:
  assumes "map to_upper kw = ''ATSETWIFI''" and "wifi_args_ok s p"
  shows "handleSerialCommand H dev ver (kw @ s @ CHR '','' # p) h =
    (SerialPrintln (response (setwifi_reply (fst (h_storeWifi H h s p)))) #
       (if fst (h_storeWifi H h s p)
        then [TcpFlush, SerialPrintln ''REBOOT'', SerialFlush, EspRestart] else []),
     snd (h_storeWifi H h s p))"
proof -
  let ?cmd = "kw @ s @ CHR '','' # p"
  have "length (map to_upper kw) = length ''ATSETWIFI''" by (simp only: assms(1))
  then have len: "length kw = 9" by simp
  have "\<not> ws4 (last (s @ CHR '','' # p))" using assms(2) by (simp add: wifi_args_ok_def)
  then have "normalizeAtCommand ?cmd = ''ATSETWIFI'' @ map to_upper (s @ CHR '','' # p)"
    by (intro normal_prefix[OF assms(1)]) (simp_all add: ws4_def TAB_def CR_def LF_def)
  then have "find_handler (normalizeAtCommand ?cmd) = Some AtsetwifiCommandHandler"
    by (metis find_setwifi starts_with_append)
  then show ?thesis
    using setwifi_exec[OF len assms(2), of H h]
    by (simp add: handleSerialCommand_def handleCommand_def sendSerialPrompt_def setwifi_reply_def
        at_result_def)
qed

text \<open>
  The provisioning command, in any letter case, hands exactly the name
  and the password of the command line to the store, and restarts the chip if and only if the
  store reports success.
\<close>

theorem setwifi_stores_what_was_sent:
  assumes "map to_upper kw = ''ATSETWIFI''" and "wifi_args_ok s p"
  shows "handleSerialCommand H dev ver (kw @ s @ CHR '','' # p) h =
    (SerialPrintln (response (setwifi_reply (fst (h_storeWifi H h s p)))) #
       (if fst (h_storeWifi H h s p)
        then [TcpFlush, SerialPrintln ''REBOOT'', SerialFlush, EspRestart] else []),
     snd (h_storeWifi H h s p))"
  using assms by (rule setwifi_run)

theorem at_case_and_padding_insensitive_witness:
  "handleCommand (device_host ex_cfg) [] ''v'' sendTcpPrompt '' atma'' ex_device =
    handleCommand (device_host ex_cfg) [] ''v'' sendTcpPrompt ''ATMA'' ex_device"
proof -
  have "normalizeAtCommand '' atma'' = normalizeAtCommand ''ATMA''"
    "\<not> starts_with ''ATSETWIFI'' (normalizeAtCommand '' atma'')"
    "\<not> starts_with ''ATSETTOKEN'' (normalizeAtCommand '' atma'')" by code_simp+
  then show ?thesis by (rule at_case_and_padding_insensitive)
qed

theorem setwifi_stores_what_was_sent_witness:
  "snd (handleSerialCommand (device_host ex_cfg) [] ''v'' (''atSetWifi'' @ ''net'' @ CHR '','' # ''pa,ss'')
     ex_device) =
   snd (h_storeWifi (device_host ex_cfg)
     ex_device ''net'' ''pa,ss'')"
proof -
  have "map to_upper ''atSetWifi'' = ''ATSETWIFI''" "wifi_args_ok ''net'' ''pa,ss''" by code_simp+
  then show ?thesis by (subst setwifi_stores_what_was_sent) (rule refl | assumption | simp)+
qed

text \<open>
  The handler is selected on the trimmed command but cuts its
  parameters out of the untrimmed one: one blank before the command makes the stored network
  name start with the letter I of the keyword.
\<close>

theorem blank_before_setwifi_corrupts_ssid:
  assumes "wifi_args_ok s p" and "length s < 32"
  shows "snd (handleSerialCommand H dev ver ('' ATSETWIFI'' @ s @ CHR '','' # p) h) =
    snd (h_storeWifi H h (CHR ''I'' # s) p)"
proof -
  let ?cmd = "'' ATSETWIFI'' @ s @ CHR '','' # p"
  have "\<not> ws4 (last (s @ CHR '','' # p))" using assms(1) by (simp add: wifi_args_ok_def)
  then have "normalizeAtCommand (''ATSETWIFI'' @ s @ CHR '','' # p) =
      ''ATSETWIFI'' @ map to_upper (s @ CHR '','' # p)"
    by (intro normal_prefix) (simp_all add: ws4_def TAB_def CR_def LF_def to_upper_def)
  then have "normalizeAtCommand ?cmd = ''ATSETWIFI'' @ map to_upper (s @ CHR '','' # p)"
    by (simp add: normal_blank)
  then have k: "find_handler (normalizeAtCommand ?cmd) = Some AtsetwifiCommandHandler"
    by (metis find_setwifi starts_with_append)
  have "wifi_args_ok (CHR ''I'' # s) p"
    using assms by (simp add: wifi_args_ok_def ws4_def TAB_def CR_def LF_def)
  from setwifi_exec[OF _ this, of "'' ATSETWIF''" H h]
  have "setwifi_execute H ?cmd h = (setwifi_reply (fst (h_storeWifi H h (CHR ''I'' # s) p)),
      snd (h_storeWifi H h (CHR ''I'' # s) p))" by simp
  then show ?thesis using k by (simp add: handleSerialCommand_def handleCommand_def)
qed

theorem blank_before_setwifi_corrupts_ssid_witness:
  "snd (handleSerialCommand (device_host ex_cfg) [] ''v'' ('' ATSETWIFI'' @ ''net'' @ CHR '','' # ''pass'')
     ex_device) =
   snd (h_storeWifi (device_host ex_cfg)
     ex_device
     (CHR ''I'' # ''net'') ''pass'')"
  by (rule blank_before_setwifi_corrupts_ssid)
    (simp_all add: wifi_args_ok_def ws4_def TAB_def CR_def LF_def)

text \<open>The command path's writer is the manager's.\<close>

lemma storeWifiCredentials_eq: "storeWifiCredentials = storeCredentials"
  unfolding fun_eq_iff storeWifiCredentials_def storeCredentials_def nvs_keys by simp

lemma provisioned_boot:
  assumes "prefs_laws (w_pf w) view ns_of writable"
    and "map to_upper kw = ''ATSETWIFI''" and "wifi_args_ok s p"
    and "handleSerialCommand (device_host w) dev ver (kw @ s @ CHR '','' # p) d = (outs, d')"
    and "EspRestart \<in> set outs"
  shows "wifi_init w (d_prefs d') r ctx_init =
    (ctx_init\<lparr>state := WIFI_CONNECTING\<rparr>,
     [SetMode 1, SetHostname WIFI_HOSTNAME, Begin (c_str s) (c_str p),
      TraceTransition WIFI_DISCONNECTED WIFI_CONNECTING])"
proof -
  obtain ok q where store: "storeCredentials (w_pf w) (d_prefs d) s p = (ok, q)"
    by (cases "storeCredentials (w_pf w) (d_prefs d) s p")
  then have h: "h_storeWifi (device_host w) d s p = (ok, d\<lparr>d_prefs := q\<rparr>)"
    by (simp add: device_host_def storeWifiCredentials_eq)
  note run = assms(4)[unfolded setwifi_run[OF assms(2,3)] h fst_conv snd_conv]
  have ok: "ok" using run assms(5) by (auto split: if_splits)
  have d': "d_prefs d' = q" using run by auto
  have "wifi_update w q r 0 (ctx_init\<lparr>state := WIFI_DISCONNECTED\<rparr>) =
    (ctx_init\<lparr>state := WIFI_DISCONNECTED\<rparr>\<lparr>state := WIFI_CONNECTING, connectStartTime := 0, lastRetryMs := 0\<rparr>,
     [SetMode 1, SetHostname WIFI_HOSTNAME, Begin (c_str s) (c_str p),
      TraceTransition WIFI_DISCONNECTED WIFI_CONNECTING])"
    by (rule provisioned_tick[OF assms(1) refl store[unfolded eqTrueI[OF ok]]])
      (use assms(3) in \<open>simp_all add: wifi_args_ok_def ctx_init_def nul_free_def\<close>)
  then show ?thesis by (simp add: wifi_init_def d' ctx_init_def)
qed

text \<open>
  C33. From the console to the radio: if the provisioning command made
  the device restart, the first tick after the boot starts the station with the name and
  password of the command, and the device is connecting.
\<close>

theorem provisioned_device_boots_into_station:
  assumes "prefs_laws (w_pf w) view ns_of writable"
    and "map to_upper kw = ''ATSETWIFI''" and "wifi_args_ok s p"
    and "handleSerialCommand (device_host w) dev ver (kw @ s @ CHR '','' # p) d = (outs, d')"
    and "EspRestart \<in> set outs"
  shows "wifi_init w (d_prefs d') r ctx_init =
    (ctx_init\<lparr>state := WIFI_CONNECTING\<rparr>,
     [SetMode 1, SetHostname WIFI_HOSTNAME, Begin (c_str s) (c_str p),
      TraceTransition WIFI_DISCONNECTED WIFI_CONNECTING])"
  using assms by (rule provisioned_boot)

lemma ex_device_setwifi:
  "handleSerialCommand (device_host ex_cfg) [] ''v'' (''ATSETWIFI'' @ ''net'' @ CHR '','' # ''secret'') ex_device =
   ([SerialPrintln ''OK WiFi credentials stored. Rebooting to connect...'', TcpFlush,
     SerialPrintln ''REBOOT'', SerialFlush, EspRestart], ex_device\<lparr>d_prefs := ex_stored\<rparr>)"
  by (subst setwifi_run)
    (simp_all add: to_upper_def wifi_args_ok_def ws4_def TAB_def CR_def LF_def device_host_def
      storeWifiCredentials_eq ex_store_ok ex_device_def ex_cfg_def setwifi_reply_def at_result_def c_str_def)

theorem provisioned_device_boots_into_station_witness:
  "wifi_init ex_cfg (d_prefs (ex_device\<lparr>d_prefs := ex_stored\<rparr>)) (ex_radio 6) ctx_init =
    (ctx_init\<lparr>state := WIFI_CONNECTING\<rparr>,
     [SetMode 1, SetHostname WIFI_HOSTNAME, Begin (c_str ''net'') (c_str ''secret''),
      TraceTransition WIFI_DISCONNECTED WIFI_CONNECTING])"
proof (rule provisioned_device_boots_into_station[OF _ _ _ ex_device_setwifi])
  show "prefs_laws (w_pf ex_cfg) mock_view currentNamespace mock_writable"
    using mock.prefs_laws_axioms by (simp add: ex_cfg_def)
qed (simp_all add: to_upper_def wifi_args_ok_def ws4_def TAB_def CR_def LF_def)

end
