(* ===== verification/FW_Tcp.thy ===== *)
theory FW_Tcp
  imports FW_AtCommands
begin

text \<open>
  The single-client TCP server, \<open>firmware/vanilla/TcpServerManager.{h,cpp}\<close>: accept,
  authenticate, reassemble command lines from non-blocking reads, answer keepalives, hand
  commands to the dispatcher, and clean up after a dropped client. One tick of \<open>cycle\<close> takes
  what the sockets answer during it (\<open>tcp_tick\<close>) and returns the new state and the calls made on
  the client and on the host, in order.
\<close>

section \<open>State and environment\<close>

text \<open>\<open>current_\<close> is the adopted client or a null pointer; only whether it is set matters here.\<close>

record tcp_mgr =
  hasClient :: bool
  clientIp :: string
  partialLine :: string

record tcp_tick =
  tk_accept :: "(string \<times> string) option"  \<comment>\<open>remote address and the line \<open>readLine\<close> returns\<close>
  tk_token :: string
  tk_connected :: bool
  tk_incoming :: string

datatype tcp_out =
    ClientStop
  | ClientSetNoDelay bool
  | ClientSetTimeout nat
  | ClientPrintln string
  | ClientFlush
  | MonitorActive bool
  | OnClientConnected string
  | OnAuthFailed string
  | OnClientDisconnected string int
  | ResetDiscoveryBackoff
  | HandleTcpAtCommand string

definition TCP_AUTH_TIMEOUT_MS :: nat where "TCP_AUTH_TIMEOUT_MS = 5000"
definition TCP_COMMAND_TIMEOUT_MS :: nat where "TCP_COMMAND_TIMEOUT_MS = 100"

definition tcp_init :: tcp_mgr where
  "tcp_init = \<lparr>hasClient = False, clientIp = [], partialLine = []\<rparr>"

section \<open>Operations\<close>

text \<open>\<open>trim\<close>: the white space of \<open>String::trim\<close>, with form feed and vertical tab.\<close>

definition ws6 :: "char \<Rightarrow> bool" where
  "ws6 c \<longleftrightarrow> ws4 c \<or> c = CHR 0x0C \<or> c = CHR 0x0B"

definition tcp_trim :: "string \<Rightarrow> string" where
  "tcp_trim s = trim_by ws6 s"

definition tcp_isValidAuthToken :: "string \<Rightarrow> string \<Rightarrow> bool" where
  "tcp_isValidAuthToken received authToken \<longleftrightarrow> received = ''AUTH '' @ authToken"

text \<open>What one complete command line causes.\<close>

definition tcp_line :: "string \<Rightarrow> tcp_out list" where
  "tcp_line l =
     (let cmd = tcp_trim l
      in if cmd = [] then []
         else if starts_with ''PING '' cmd
              then [ClientPrintln (''PONG '' @ drop 5 cmd), ClientFlush]
              else [HandleTcpAtCommand cmd])"

text \<open>The inner loop: dispatch up to every delimiter; the rest stays in the buffer.\<close>

function drain_lines :: "string \<Rightarrow> tcp_out list \<times> string" where
  "drain_lines buf =
     (case find_from CR buf 0 of
        None \<Rightarrow> ([], buf)
      | Some pos \<Rightarrow>
          let (out, rest) = drain_lines (drop (pos + 1) buf)
          in (tcp_line (take pos buf) @ out, rest))"
  by pat_completeness auto
termination
  by (relation "measure length") (auto dest: find_from_lt)

declare drain_lines.simps [simp del]

definition tcp_accept :: "tcp_mgr \<Rightarrow> string \<Rightarrow> string \<Rightarrow> string \<Rightarrow> tcp_mgr \<times> tcp_out list" where
  "tcp_accept s ip raw tok =
     (let adopt = (if hasClient s then [ClientStop] else []) @
            [ClientSetNoDelay True, MonitorActive False, ClientSetTimeout TCP_AUTH_TIMEOUT_MS,
             ClientSetTimeout TCP_COMMAND_TIMEOUT_MS];
          firstLine = tcp_trim raw
      in if tcp_isValidAuthToken firstLine tok then
           (\<lparr>hasClient = True, clientIp = ip, partialLine = []\<rparr>,
            adopt @ [ClientPrintln ''OK'', ClientFlush, MonitorActive True, OnClientConnected ip])
         else
           (\<lparr>hasClient = False, clientIp = [], partialLine = []\<rparr>,
            adopt @ [ClientPrintln ''ERROR unauthorized'', ClientFlush, ClientStop, OnAuthFailed ip]))"

definition tcp_read :: "tcp_mgr \<Rightarrow> string \<Rightarrow> tcp_mgr \<times> tcp_out list" where
  "tcp_read s incoming =
     (if incoming = [] then (s, [])
      else let (out, rest) = drain_lines (partialLine s @ incoming)
           in (s\<lparr>partialLine := rest\<rparr>, out))"

definition tcp_cleanup :: "tcp_mgr \<Rightarrow> tcp_mgr \<times> tcp_out list" where
  "tcp_cleanup s =
     (if hasClient s then
        (\<lparr>hasClient = False, clientIp = [], partialLine = []\<rparr>,
         [MonitorActive False, ResetDiscoveryBackoff, OnClientDisconnected (clientIp s) 0])
      else (s, []))"

definition cycle :: "tcp_mgr \<Rightarrow> tcp_tick \<Rightarrow> tcp_mgr \<times> tcp_out list" where
  "cycle s t =
     (case tk_accept t of
        Some (ip, raw) \<Rightarrow> tcp_accept s ip raw (tk_token t)
      | None \<Rightarrow>
          if hasClient s \<and> tk_connected t then tcp_read s (tk_incoming t) else tcp_cleanup s)"

definition writeLineToClient :: "tcp_mgr \<Rightarrow> bool \<Rightarrow> string \<Rightarrow> tcp_out list" where
  "writeLineToClient s connected line =
     (if hasClient s \<and> connected then [ClientPrintln line] else [])"

definition tcp_stop :: "tcp_mgr \<Rightarrow> tcp_mgr \<times> tcp_out list" where
  "tcp_stop s = (if hasClient s then (s\<lparr>hasClient := False\<rparr>, [ClientStop]) else (s, []))"

fun tcp_run :: "tcp_mgr \<Rightarrow> tcp_tick list \<Rightarrow> tcp_mgr \<times> tcp_out list" where
  "tcp_run s [] = (s, [])"
| "tcp_run s (t # ts) =
     (let (s1, o1) = cycle s t; (s2, o2) = tcp_run s1 ts in (s2, o1 @ o2))"

section \<open>Reassembly\<close>

lemma drain_none: "CR \<notin> set buf \<Longrightarrow> drain_lines buf = ([], buf)"
  by (subst drain_lines.simps) (simp add: find_from_None)

lemma drain_one: "CR \<notin> set l \<Longrightarrow> drain_lines (l @ CR # r) =
    (tcp_line l @ fst (drain_lines r), snd (drain_lines r))"
  by (subst drain_lines.simps)
    (simp add: find_from_append[of CR l 0 "[]", simplified] split_beta)

lemma drain_append_rest:
  "drain_lines (a @ b) =
     (fst (drain_lines a) @ fst (drain_lines (snd (drain_lines a) @ b)),
      snd (drain_lines (snd (drain_lines a) @ b)))"
proof (induction a rule: length_induct)
  case (1 a)
  show ?case
  proof (cases "CR \<in> set a")
    case False
    then show ?thesis by (simp add: drain_none)
  next
    case True
    then obtain l r where a: "a = l @ CR # r" "CR \<notin> set l"
      by (meson split_list_first)
    then show ?thesis
      using 1[rule_format, of r] by (simp add: drain_one)
  qed
qed

lemma drain_lines_all:
  "\<forall>l \<in> set ls. CR \<notin> set l \<Longrightarrow> CR \<notin> set rest \<Longrightarrow>
   drain_lines (concat (map (\<lambda>l. l @ [CR]) ls) @ rest) = (concat (map tcp_line ls), rest)"
  by (induction ls) (simp_all add: drain_none drain_one)

lemma drain_rest_plain: "CR \<notin> set (snd (drain_lines buf))"
proof (induction buf rule: length_induct)
  case (1 buf)
  show ?case
  proof (cases "CR \<in> set buf")
    case False
    then show ?thesis by (simp add: drain_none)
  next
    case True
    then obtain l r where a: "buf = l @ CR # r" "CR \<notin> set l"
      by (meson split_list_first)
    then show ?thesis using 1[rule_format, of r] by (simp add: drain_one)
  qed
qed

text \<open>A tick on which the adopted client stays and delivers \<open>x\<close>.\<close>

definition reads :: "string \<Rightarrow> tcp_tick \<Rightarrow> bool" where
  "reads x t \<longleftrightarrow> tk_accept t = None \<and> tk_connected t \<and> tk_incoming t = x"

lemma run_reads:
  assumes "list_all2 reads xs ts" and "hasClient s" and "CR \<notin> set (partialLine s)"
  shows "tcp_run s ts =
    (s\<lparr>partialLine := snd (drain_lines (partialLine s @ concat xs))\<rparr>,
     fst (drain_lines (partialLine s @ concat xs)))"
  using assms
proof (induction xs ts arbitrary: s rule: list_all2_induct)
  case Nil
  then show ?case by (simp add: drain_none)
next
  case (Cons x xs t ts)
  let ?b = "partialLine s @ x" and ?s = "s\<lparr>partialLine := snd (drain_lines (partialLine s @ x))\<rparr>"
  have c: "cycle s t = (?s, fst (drain_lines ?b))"
    using Cons.hyps(1) Cons.prems by (simp add: cycle_def reads_def tcp_read_def split_beta drain_none)
  have r: "tcp_run ?s ts =
    (?s\<lparr>partialLine := snd (drain_lines (snd (drain_lines ?b) @ concat xs))\<rparr>,
     fst (drain_lines (snd (drain_lines ?b) @ concat xs)))"
    using Cons.IH[of ?s] Cons.prems by (simp add: drain_rest_plain)
  show ?case
    using drain_append_rest[of ?b "concat xs"] by (simp add: c r)
qed

text \<open>
  However the network cuts the bytes of a connected client into reads, the
  command lines are handled one by one in the order sent, a keepalive is answered with its
  own sequence text, every other line reaches the dispatcher trimmed, and an unfinished line
  waits in the buffer.
\<close>

theorem tcp_commands_survive_chunking:
  assumes "list_all2 reads xs ts" and "hasClient s" and "partialLine s = []"
    and "concat xs = concat (map (\<lambda>l. l @ [CR]) ls) @ rest"
    and "\<forall>l \<in> set ls. CR \<notin> set l" and "CR \<notin> set rest"
  shows "tcp_run s ts = (s\<lparr>partialLine := rest\<rparr>, concat (map tcp_line ls))"
proof -
  have "CR \<notin> set (partialLine s)" using assms(3) by simp
  from run_reads[OF assms(1,2) this] show ?thesis
    using drain_lines_all[OF assms(5,6)] assms(3,4) by simp
qed

theorem tcp_commands_survive_chunking_witness:
  "tcp_run \<lparr>hasClient = True, clientIp = ''10.0.0.9'', partialLine = []\<rparr>
     [\<lparr>tk_accept = None, tk_token = [], tk_connected = True, tk_incoming = ''AT''\<rparr>,
      \<lparr>tk_accept = None, tk_token = [], tk_connected = True, tk_incoming = ''I'' @ [CR] @ ''PI''\<rparr>]
   = (\<lparr>hasClient = True, clientIp = ''10.0.0.9'', partialLine = []\<rparr>\<lparr>partialLine := ''PI''\<rparr>,
      concat (map tcp_line [''ATI'']))"
  by (rule tcp_commands_survive_chunking[where xs = "[''AT'', ''I'' @ [CR] @ ''PI'']"])
    (simp_all add: reads_def CR_def)

section \<open>Authentication\<close>

text \<open>Whether the last connection that was accepted presented the token of its time.\<close>

fun last_accept_valid :: "tcp_tick list \<Rightarrow> bool \<Rightarrow> bool" where
  "last_accept_valid [] b = b"
| "last_accept_valid (t # ts) b =
     last_accept_valid ts
       (case tk_accept t of None \<Rightarrow> b
        | Some (_, raw) \<Rightarrow> tcp_isValidAuthToken (tcp_trim raw) (tk_token t))"

lemma cycle_auth:
  "(hasClient s \<longrightarrow> b) \<Longrightarrow>
   hasClient (fst (cycle s t)) \<longrightarrow>
     (case tk_accept t of None \<Rightarrow> b
      | Some (_, raw) \<Rightarrow> tcp_isValidAuthToken (tcp_trim raw) (tk_token t))"
  by (auto simp: cycle_def tcp_accept_def tcp_read_def tcp_cleanup_def Let_def split_beta
      split: option.splits)

lemma cycle_command_auth:
  "(hasClient s \<longrightarrow> b) \<Longrightarrow> HandleTcpAtCommand cmd \<in> set (snd (cycle s t)) \<Longrightarrow> b \<and> tk_accept t = None"
  by (auto simp: cycle_def tcp_accept_def tcp_cleanup_def Let_def split: option.splits if_splits)

lemma run_auth: "(hasClient s \<longrightarrow> b) \<Longrightarrow> hasClient (fst (tcp_run s ts)) \<longrightarrow> last_accept_valid ts b"
proof (induction ts arbitrary: s b)
  case (Cons t ts)
  from Cons.IH[OF cycle_auth[OF Cons.prems]] show ?case by (simp add: split_beta)
qed simp

text \<open>
  C7. Over every history of ticks from the start, a command reaches the
  dispatcher on a tick only if the last connection accepted before it presented exactly the
  token valid at that moment, and no connection is accepted on that tick.
\<close>

theorem tcp_commands_need_auth:
  assumes "HandleTcpAtCommand cmd \<in> set (snd (cycle (fst (tcp_run tcp_init ts)) t))"
  shows "last_accept_valid ts False \<and> tk_accept t = None"
proof -
  have "hasClient (fst (tcp_run tcp_init ts)) \<longrightarrow> last_accept_valid ts False"
    by (rule run_auth) (simp add: tcp_init_def)
  from cycle_command_auth[OF this assms] show ?thesis .
qed

theorem tcp_commands_need_auth_witness:
  "last_accept_valid [\<lparr>tk_accept = Some (''10.0.0.9'', ''AUTH tok ''), tk_token = ''tok'',
     tk_connected = False, tk_incoming = []\<rparr>] False \<and> tk_accept
     \<lparr>tk_accept = None, tk_token = ''tok'', tk_connected = True, tk_incoming = ''ATI'' @ [CR]\<rparr> = None"
proof (rule tcp_commands_need_auth[where cmd = "''ATI''"])
  have d: "drain_lines (''ATI'' @ CR # []) = ([HandleTcpAtCommand ''ATI''], [])"
    by (subst drain_one) (simp_all add: drain_none tcp_line_def tcp_trim_def trim_by_def ws6_def
        ws4_def starts_with_def CR_def LF_def TAB_def)
  show "HandleTcpAtCommand ''ATI'' \<in> set (snd (cycle (fst (tcp_run tcp_init
      [\<lparr>tk_accept = Some (''10.0.0.9'', ''AUTH tok ''), tk_token = ''tok'', tk_connected = False,
        tk_incoming = []\<rparr>])) \<lparr>tk_accept = None, tk_token = ''tok'', tk_connected = True,
        tk_incoming = ''ATI'' @ [CR]\<rparr>))"
    using d by (simp add: cycle_def tcp_accept_def tcp_read_def tcp_init_def tcp_trim_def
        trim_by_def ws6_def ws4_def tcp_isValidAuthToken_def CR_def LF_def TAB_def)
qed

section \<open>The monitor flag\<close>

text \<open>The flag after a list of outputs; a dispatched command may set it as it likes (\<open>f\<close>).\<close>

fun monitor_after :: "(string \<Rightarrow> bool \<Rightarrow> bool) \<Rightarrow> bool \<Rightarrow> tcp_out list \<Rightarrow> bool" where
  "monitor_after f m [] = m"
| "monitor_after f m (x # xs) =
     monitor_after f (case x of MonitorActive b \<Rightarrow> b | HandleTcpAtCommand c \<Rightarrow> f c m | _ \<Rightarrow> m) xs"

lemma monitor_append: "monitor_after f m (xs @ ys) = monitor_after f (monitor_after f m xs) ys"
  by (induction xs arbitrary: m) auto

lemma monitor_cycle:
  assumes "\<not> hasClient s \<longrightarrow> \<not> m"
  shows "\<not> hasClient (fst (cycle s t)) \<longrightarrow> \<not> monitor_after f m (snd (cycle s t))"
  using assms
  by (auto simp: cycle_def tcp_accept_def tcp_read_def tcp_cleanup_def Let_def split_beta
      monitor_append split: option.splits)

text \<open>
  Whatever the dispatched commands do to the monitor flag, after every tick
  of every history the CAN stream is on only while a client is adopted; and a client that has
  just authenticated has it on.
\<close>

theorem monitor_only_with_client:
  "monitor_after f False (snd (tcp_run tcp_init ts)) \<le> hasClient (fst (tcp_run tcp_init ts)) \<and>
   (hasClient (fst (tcp_accept s ip raw tok)) =
    monitor_after f m (snd (tcp_accept s ip raw tok)))"
proof -
  have run: "(\<not> hasClient s \<longrightarrow> \<not> m) \<Longrightarrow>
    \<not> hasClient (fst (tcp_run s ts)) \<longrightarrow> \<not> monitor_after f m (snd (tcp_run s ts))" for s m
  proof (induction ts arbitrary: s m)
    case (Cons t ts)
    from Cons.IH[OF monitor_cycle[OF Cons.prems, of t f]] show ?case
      by (simp add: split_beta monitor_append)
  qed simp
  have "monitor_after f False (snd (tcp_run tcp_init ts)) \<le> hasClient (fst (tcp_run tcp_init ts))"
    using run[of tcp_init False] by auto
  moreover have "hasClient (fst (tcp_accept s ip raw tok)) =
      monitor_after f m (snd (tcp_accept s ip raw tok))"
    by (simp add: tcp_accept_def Let_def)
  ultimately show ?thesis ..
qed

end
