(* ===== verification/FW_StatusLed.thy ===== *)
theory FW_StatusLed
  imports FW_WiFi
begin

text \<open>
  The status LED: the pattern tables, the non-blocking pattern player and the pure selector of
  \<open>firmware/vanilla/StatusLED.{h,cpp}\<close>, and the policy of \<open>LedPatternPolicy.cpp\<close> that is its only
  driver. A pattern travels as the integer value of its enumerator, as the \<open>IStatusLED\<close>
  interface has it.
\<close>

section \<open>Patterns\<close>

datatype LEDState = LED_ON | LED_OFF | LED_SEPARATOR

type_synonym LEDStep = "LEDState \<times> u32"

definition TINY_FLASH_MS :: u32 where "TINY_FLASH_MS = 100"
definition SHORT_FLASH_MS :: u32 where "SHORT_FLASH_MS = 200"
definition MED_FLASH_MS :: u32 where "MED_FLASH_MS = 500"
definition LONG_FLASH_MS :: u32 where "LONG_FLASH_MS = 800"
definition TINY_GAP_MS :: u32 where "TINY_GAP_MS = 100"
definition SHORT_GAP_MS :: u32 where "SHORT_GAP_MS = 200"
definition MED_GAP_MS :: u32 where "MED_GAP_MS = 500"
definition SEPARATOR_MS :: u32 where "SEPARATOR_MS = 2000"
definition SEARCHING_GAP_MS :: u32 where "SEARCHING_GAP_MS = 900"

lemmas led_durations = TINY_FLASH_MS_def SHORT_FLASH_MS_def MED_FLASH_MS_def LONG_FLASH_MS_def
  TINY_GAP_MS_def SHORT_GAP_MS_def MED_GAP_MS_def SEPARATOR_MS_def SEARCHING_GAP_MS_def

datatype led_pattern =
    P_OFF | P_BOOT | P_WIFI_SEARCHING | P_WIFI_CONNECTED | P_CLIENT_CONNECTED | P_AP_MODE
  | P_OTA_IN_PROGRESS | P_ERROR_AUTH_FAILURE | P_ERROR_RECOVERABLE | P_ERROR_NO_NTP_SERVICE
  | P_FATAL_UNRECOVERABLE_SOS

fun pattern_ord :: "led_pattern \<Rightarrow> int" where
  "pattern_ord P_OFF = 0"
| "pattern_ord P_BOOT = 1"
| "pattern_ord P_WIFI_SEARCHING = 2"
| "pattern_ord P_WIFI_CONNECTED = 3"
| "pattern_ord P_CLIENT_CONNECTED = 4"
| "pattern_ord P_AP_MODE = 5"
| "pattern_ord P_OTA_IN_PROGRESS = 6"
| "pattern_ord P_ERROR_AUTH_FAILURE = 7"
| "pattern_ord P_ERROR_RECOVERABLE = 8"
| "pattern_ord P_ERROR_NO_NTP_SERVICE = 9"
| "pattern_ord P_FATAL_UNRECOVERABLE_SOS = 10"

definition PATTERN_BOOT :: "LEDStep list" where
  "PATTERN_BOOT = [(LED_ON, MED_FLASH_MS), (LED_OFF, MED_GAP_MS)]"

definition PATTERN_WIFI_SEARCHING :: "LEDStep list" where
  "PATTERN_WIFI_SEARCHING = [(LED_ON, TINY_FLASH_MS), (LED_OFF, SEARCHING_GAP_MS)]"

definition PATTERN_WIFI_CONNECTED :: "LEDStep list" where
  "PATTERN_WIFI_CONNECTED = [(LED_ON, LONG_FLASH_MS), (LED_OFF, SHORT_GAP_MS)]"

definition PATTERN_CLIENT_CONNECTED :: "LEDStep list" where
  "PATTERN_CLIENT_CONNECTED = [(LED_ON, SEPARATOR_MS)]"

definition PATTERN_AP_MODE :: "LEDStep list" where
  "PATTERN_AP_MODE =
     [(LED_ON, LONG_FLASH_MS), (LED_OFF, SHORT_GAP_MS), (LED_ON, TINY_FLASH_MS),
      (LED_OFF, TINY_GAP_MS), (LED_ON, TINY_FLASH_MS), (LED_OFF, SEPARATOR_MS)]"

definition PATTERN_OTA_IN_PROGRESS :: "LEDStep list" where
  "PATTERN_OTA_IN_PROGRESS = [(LED_ON, SHORT_FLASH_MS), (LED_OFF, SHORT_GAP_MS)]"

definition PATTERN_AUTH_FAILURE :: "LEDStep list" where
  "PATTERN_AUTH_FAILURE =
     [(LED_ON, SHORT_FLASH_MS), (LED_OFF, SHORT_GAP_MS), (LED_ON, SHORT_FLASH_MS),
      (LED_OFF, SHORT_GAP_MS), (LED_ON, SHORT_FLASH_MS), (LED_OFF, SHORT_GAP_MS),
      (LED_ON, TINY_FLASH_MS), (LED_OFF, TINY_GAP_MS), (LED_ON, TINY_FLASH_MS),
      (LED_OFF, TINY_GAP_MS), (LED_ON, TINY_FLASH_MS), (LED_OFF, TINY_GAP_MS),
      (LED_OFF, SEPARATOR_MS)]"

definition PATTERN_ERROR_RECOVERABLE :: "LEDStep list" where
  "PATTERN_ERROR_RECOVERABLE =
     [(LED_ON, SHORT_FLASH_MS), (LED_OFF, SHORT_GAP_MS), (LED_ON, SHORT_FLASH_MS),
      (LED_OFF, SHORT_GAP_MS), (LED_ON, SHORT_FLASH_MS), (LED_OFF, SHORT_GAP_MS),
      (LED_ON, TINY_FLASH_MS), (LED_OFF, TINY_GAP_MS), (LED_ON, TINY_FLASH_MS),
      (LED_OFF, TINY_GAP_MS), (LED_OFF, SEPARATOR_MS)]"

definition PATTERN_ERROR_NO_NTP_SERVICE :: "LEDStep list" where
  "PATTERN_ERROR_NO_NTP_SERVICE =
     [(LED_ON, SHORT_FLASH_MS), (LED_OFF, SHORT_GAP_MS), (LED_ON, SHORT_FLASH_MS),
      (LED_OFF, SHORT_GAP_MS), (LED_ON, SHORT_FLASH_MS), (LED_OFF, SHORT_GAP_MS),
      (LED_ON, TINY_FLASH_MS), (LED_OFF, TINY_GAP_MS), (LED_OFF, SEPARATOR_MS)]"

definition PATTERN_FATAL_UNRECOVERABLE :: "LEDStep list" where
  "PATTERN_FATAL_UNRECOVERABLE =
     [(LED_ON, SHORT_FLASH_MS), (LED_OFF, SHORT_GAP_MS), (LED_ON, SHORT_FLASH_MS),
      (LED_OFF, SHORT_GAP_MS), (LED_ON, SHORT_FLASH_MS), (LED_OFF, SHORT_GAP_MS),
      (LED_ON, LONG_FLASH_MS), (LED_OFF, SHORT_GAP_MS), (LED_ON, LONG_FLASH_MS),
      (LED_OFF, SHORT_GAP_MS), (LED_ON, LONG_FLASH_MS), (LED_OFF, SHORT_GAP_MS),
      (LED_ON, SHORT_FLASH_MS), (LED_OFF, SHORT_GAP_MS), (LED_ON, SHORT_FLASH_MS),
      (LED_OFF, SHORT_GAP_MS), (LED_ON, SHORT_FLASH_MS), (LED_OFF, SHORT_GAP_MS),
      (LED_OFF, SEPARATOR_MS)]"

definition PATTERN_OFF :: "LEDStep list" where
  "PATTERN_OFF = [(LED_OFF, SEPARATOR_MS)]"

lemmas led_tables = PATTERN_BOOT_def PATTERN_WIFI_SEARCHING_def PATTERN_WIFI_CONNECTED_def
  PATTERN_CLIENT_CONNECTED_def PATTERN_AP_MODE_def PATTERN_OTA_IN_PROGRESS_def
  PATTERN_AUTH_FAILURE_def PATTERN_ERROR_RECOVERABLE_def PATTERN_ERROR_NO_NTP_SERVICE_def
  PATTERN_FATAL_UNRECOVERABLE_def PATTERN_OFF_def

definition getPatternSteps :: "int \<Rightarrow> LEDStep list" where
  "getPatternSteps p =
     (if p = pattern_ord P_BOOT then PATTERN_BOOT
      else if p = pattern_ord P_WIFI_SEARCHING then PATTERN_WIFI_SEARCHING
      else if p = pattern_ord P_WIFI_CONNECTED then PATTERN_WIFI_CONNECTED
      else if p = pattern_ord P_CLIENT_CONNECTED then PATTERN_CLIENT_CONNECTED
      else if p = pattern_ord P_AP_MODE then PATTERN_AP_MODE
      else if p = pattern_ord P_OTA_IN_PROGRESS then PATTERN_OTA_IN_PROGRESS
      else if p = pattern_ord P_ERROR_AUTH_FAILURE then PATTERN_AUTH_FAILURE
      else if p = pattern_ord P_ERROR_RECOVERABLE then PATTERN_ERROR_RECOVERABLE
      else if p = pattern_ord P_ERROR_NO_NTP_SERVICE then PATTERN_ERROR_NO_NTP_SERVICE
      else if p = pattern_ord P_FATAL_UNRECOVERABLE_SOS then PATTERN_FATAL_UNRECOVERABLE
      else PATTERN_OFF)"

fun getPatternName :: "led_pattern \<Rightarrow> string" where
  "getPatternName P_OFF = ''OFF''"
| "getPatternName P_BOOT = ''BOOT''"
| "getPatternName P_WIFI_SEARCHING = ''WIFI_SEARCHING''"
| "getPatternName P_WIFI_CONNECTED = ''WIFI_CONNECTED''"
| "getPatternName P_CLIENT_CONNECTED = ''CLIENT_CONNECTED''"
| "getPatternName P_AP_MODE = ''AP_MODE''"
| "getPatternName P_OTA_IN_PROGRESS = ''OTA_IN_PROGRESS''"
| "getPatternName P_ERROR_AUTH_FAILURE = ''ERROR_AUTH_FAILURE''"
| "getPatternName P_ERROR_RECOVERABLE = ''ERROR_RECOVERABLE''"
| "getPatternName P_ERROR_NO_NTP_SERVICE = ''ERROR_NO_NTP_SERVICE''"
| "getPatternName P_FATAL_UNRECOVERABLE_SOS = ''FATAL_UNRECOVERABLE_SOS''"

definition selectLedPattern :: "int \<Rightarrow> bool \<Rightarrow> led_pattern" where
  "selectLedPattern wifiState clientConnected =
     (if clientConnected then P_CLIENT_CONNECTED
      else if wifiState = 0 \<or> wifiState = 1 then P_WIFI_SEARCHING
      else if wifiState = 2 then P_WIFI_CONNECTED
      else if wifiState = 3 then P_AP_MODE
      else if wifiState = 4 then P_ERROR_AUTH_FAILURE
      else P_WIFI_SEARCHING)"

section \<open>The player\<close>

record status_led =
  hasOutput :: bool
  currentPattern :: int
  lastPattern :: int
  lastUpdateTime :: u32
  phaseStartTime :: u32
  stepIndex :: nat
  ledOn :: bool

datatype led_out = OutInit | OutSetOn bool | RestartTcpServer

definition led_new :: "bool \<Rightarrow> status_led" where
  "led_new out = \<lparr>hasOutput = out, currentPattern = pattern_ord P_OFF,
     lastPattern = pattern_ord P_OFF, lastUpdateTime = 0, phaseStartTime = 0, stepIndex = 0,
     ledOn = False\<rparr>"

definition setLedOn :: "bool \<Rightarrow> status_led \<Rightarrow> status_led \<times> led_out list" where
  "setLedOn on l =
     (if ledOn l \<noteq> on then (l\<lparr>ledOn := on\<rparr>, if hasOutput l then [OutSetOn on] else []) else (l, []))"

definition setPattern :: "int \<Rightarrow> status_led \<Rightarrow> status_led" where
  "setPattern p l = (if p = currentPattern l then l else l\<lparr>currentPattern := p\<rparr>)"

definition resetPattern :: "u32 \<Rightarrow> status_led \<Rightarrow> status_led \<times> led_out list" where
  "resetPattern t l =
     (let l1 = l\<lparr>stepIndex := 0, phaseStartTime := t\<rparr>;
          steps = getPatternSteps (currentPattern l)
      in if 0 < length steps then setLedOn (fst (steps ! 0) = LED_ON) l1 else (l1, []))"

definition led_update :: "u32 \<Rightarrow> status_led \<Rightarrow> status_led \<times> led_out list" where
  "led_update t l0 =
     (let (l1, o1) = (if currentPattern l0 \<noteq> lastPattern l0
                      then let (r, e) = resetPattern t l0
                           in (r\<lparr>lastPattern := currentPattern r\<rparr>, e)
                      else (l0, []));
          l2 = l1\<lparr>lastUpdateTime := t\<rparr>;
          steps = getPatternSteps (currentPattern l2)
      in if length steps = 0 then (l2, o1)
         else
           let (st, dur) = steps ! stepIndex l2
           in if dur \<le> t - phaseStartTime l2 then
                let i = (if length steps \<le> stepIndex l2 + 1 then 0 else stepIndex l2 + 1);
                    (l3, o2) = setLedOn (fst (steps ! i) = LED_ON)
                                 (l2\<lparr>stepIndex := i, phaseStartTime := t\<rparr>)
                in (l3, o1 @ o2)
              else
                let (l3, o2) = setLedOn (st = LED_ON) l2 in (l3, o1 @ o2))"

definition led_init :: "status_led \<Rightarrow> status_led \<times> led_out list" where
  "led_init l =
     (let (l1, o1) = setLedOn False l
      in (setPattern (pattern_ord P_BOOT) l1, (if hasOutput l then [OutInit] else []) @ o1))"

section \<open>The policy\<close>

definition led_policy_update ::
    "bool \<Rightarrow> wifi_ctx \<Rightarrow> bool \<Rightarrow> u32 \<Rightarrow> status_led \<Rightarrow> status_led \<times> led_out list" where
  "led_policy_update restartCallback ctx clientConnected now l =
     (let p = pattern_ord (selectLedPattern (state_ordinal (state ctx)) clientConnected);
          (l1, o1) = led_update now (setPattern p l)
      in (l1, o1 @ (if tcpServerNeedsRestart ctx \<and> restartCallback then [RestartTcpServer] else [])))"

datatype led_event = SetPattern int | LedUpdate u32 | LedInit

fun led_step :: "status_led \<Rightarrow> led_event \<Rightarrow> status_led" where
  "led_step l (SetPattern p) = setPattern p l"
| "led_step l (LedUpdate t) = fst (led_update t l)"
| "led_step l LedInit = fst (led_init l)"

section \<open>Properties\<close>

lemma steps_nonempty [simp]: "getPatternSteps p \<noteq> []" "0 < length (getPatternSteps p)"
  by (simp_all add: getPatternSteps_def led_tables)

text \<open>The player's position is inside the pattern it last started.\<close>

definition led_inv :: "status_led \<Rightarrow> bool" where
  "led_inv l \<longleftrightarrow> stepIndex l < length (getPatternSteps (lastPattern l))"

lemma setLedOn_fields [simp]:
  "ledOn (fst (setLedOn b l)) = b"
  "stepIndex (fst (setLedOn b l)) = stepIndex l"
  "currentPattern (fst (setLedOn b l)) = currentPattern l"
  "lastPattern (fst (setLedOn b l)) = lastPattern l"
  "phaseStartTime (fst (setLedOn b l)) = phaseStartTime l"
  "hasOutput (fst (setLedOn b l)) = hasOutput l"
  by (simp_all add: setLedOn_def)

text \<open>Where the player stands when an update looks at its step: at the start of a new pattern.\<close>

definition led_from :: "u32 \<Rightarrow> status_led \<Rightarrow> nat \<times> u32" where
  "led_from t l = (if currentPattern l \<noteq> lastPattern l then (0, t) else (stepIndex l, phaseStartTime l))"

lemma led_update_fields:
  "(let steps = getPatternSteps (currentPattern l);
        (i, p) = led_from t l;
        go = (snd (steps ! i) \<le> t - p);
        j = (if go then if length steps \<le> i + 1 then 0 else i + 1 else i)
    in stepIndex (fst (led_update t l)) = j \<and>
       phaseStartTime (fst (led_update t l)) = (if go then t else p) \<and>
       ledOn (fst (led_update t l)) = (fst (steps ! j) = LED_ON) \<and>
       currentPattern (fst (led_update t l)) = currentPattern l \<and>
       lastPattern (fst (led_update t l)) = currentPattern l)"
  by (simp add: led_update_def led_from_def resetPattern_def Let_def split_beta)

lemma led_inv_step: "led_inv l \<Longrightarrow> led_inv (led_step l e)"
proof (cases e)
  case (LedUpdate t)
  assume inv: "led_inv l"
  have "fst (led_from t l) < length (getPatternSteps (currentPattern l))"
    using inv by (auto simp: led_from_def led_inv_def)
  then show ?thesis
    using led_update_fields[of l t] LedUpdate
    by (auto simp: led_inv_def Let_def split_beta split: if_splits)
qed (auto simp: led_inv_def setPattern_def led_init_def split_beta)

interpretation led: step_invariant led_step led_inv
  by unfold_locales (rule led_inv_step)

text \<open>
  After any history of pattern changes and updates, an update leaves the player
  at a step of the current pattern and the LED as that step says; it moves by at most one step,
  exactly when the step's time is over, wraps to the first step after the last, and starts a
  new pattern at its first step.
\<close>

theorem led_plays_the_pattern:
  "(let l = foldl led_step (led_new out) es;
        l' = fst (led_update t l);
        steps = getPatternSteps (currentPattern l);
        (i, p) = led_from t l
    in i < length steps \<and> stepIndex l' < length steps \<and>
       ledOn l' = (fst (steps ! stepIndex l') = LED_ON) \<and>
       stepIndex l' = (if snd (steps ! i) \<le> t - p then (i + 1) mod length steps else i))"
proof -
  let ?l = "foldl led_step (led_new out) es"
  have inv: "led_inv ?l"
    by (rule led.run_inv) (simp add: led_inv_def led_new_def)
  then have i: "fst (led_from t ?l) < length (getPatternSteps (currentPattern ?l))"
    by (auto simp: led_from_def led_inv_def)
  then have "(if length (getPatternSteps (currentPattern ?l)) \<le> fst (led_from t ?l) + 1 then 0
      else fst (led_from t ?l) + 1) = (fst (led_from t ?l) + 1) mod length (getPatternSteps (currentPattern ?l))"
    by (cases "fst (led_from t ?l) + 1 = length (getPatternSteps (currentPattern ?l))") auto
  then show ?thesis
    using led_update_fields[of ?l t] i by (auto simp: Let_def split_beta)
qed

text \<open>
  The LED tells the truth about the WiFi state: after the policy's tick the
  pattern on display is the connected-client one exactly when a client is connected, and the
  authentication-error one exactly when there is no client and the manager is in the
  access-point state for failed credentials; a network that was not found is never shown as an
  authentication error.
\<close>

theorem led_reports_the_state:
  "let p = currentPattern (fst (led_policy_update cb ctx client now l))
   in (p = pattern_ord P_CLIENT_CONNECTED) = client \<and>
      (p = pattern_ord P_ERROR_AUTH_FAILURE) = (\<not> client \<and> state ctx = WIFI_AP_MODE_AUTH_FAIL) \<and>
      (p = pattern_ord P_WIFI_CONNECTED) = (\<not> client \<and> state ctx = WIFI_CONNECTED) \<and>
      (p = pattern_ord P_AP_MODE) = (\<not> client \<and> state ctx = WIFI_AP_MODE_DEFAULT)"
proof -
  have "currentPattern (fst (led_policy_update cb ctx client now l)) =
      pattern_ord (selectLedPattern (state_ordinal (state ctx)) client)"
    using led_update_fields[of "setPattern (pattern_ord (selectLedPattern (state_ordinal (state ctx)) client)) l" now]
    by (auto simp: led_policy_update_def split_beta Let_def setPattern_def)
  then show ?thesis by (cases "state ctx"; cases client) (simp_all add: selectLedPattern_def)
qed

end
