(* ===== verification/FW_Discovery.thy ===== *)
theory FW_Discovery
  imports VS_Prelude
begin

text \<open>
  Auto-discovery: the beacon the firmware broadcasts
  (\<open>firmware/vanilla/DiscoveryManager.{h,cpp}\<close>, \<open>DiscoveryPolicy.cpp\<close>) and the packet format
  of the host that listens for it (\<open>src/discovery/DiscoveryPacket.cpp\<close>).

  The clock, the radio mode and the results of the UDP calls of one tick are an argument
  (\<open>disc_env\<close>); the calls made are returned in order. The signer behind \<open>IDiscoverySigner\<close> is
  a function on the packet. \<open>std::memcpy\<close> of the 32-bit nonce is little-endian on the device.
\<close>

section \<open>Constants and state\<close>

definition DISCOVERY_PORT :: u16 where "DISCOVERY_PORT = 3335"
definition DISCOVERY_PACKET_SIZE :: nat where "DISCOVERY_PACKET_SIZE = 106"
definition TCP_PORT :: u32 where "TCP_PORT = 3333"
definition OTA_HTTP_PORT :: u16 where "OTA_HTTP_PORT = 80"
definition DISCOVERY_INTERVAL_FAST_MS :: u32 where "DISCOVERY_INTERVAL_FAST_MS = 500"
definition DISCOVERY_INTERVAL_2_5_MIN_MS :: u32 where "DISCOVERY_INTERVAL_2_5_MIN_MS = 10000"
definition DISCOVERY_INTERVAL_5_10_MIN_MS :: u32 where "DISCOVERY_INTERVAL_5_10_MIN_MS = 30000"
definition DISCOVERY_INTERVAL_SLOW_MS :: u32 where "DISCOVERY_INTERVAL_SLOW_MS = 10000"
definition DISCOVERY_AGE_2_MIN_MS :: u32 where "DISCOVERY_AGE_2_MIN_MS = 120000"
definition DISCOVERY_AGE_5_MIN_MS :: u32 where "DISCOVERY_AGE_5_MIN_MS = 300000"
definition DISCOVERY_AGE_10_MIN_MS :: u32 where "DISCOVERY_AGE_10_MIN_MS = 600000"

lemmas disc_consts = DISCOVERY_INTERVAL_FAST_MS_def DISCOVERY_INTERVAL_2_5_MIN_MS_def
  DISCOVERY_INTERVAL_5_10_MIN_MS_def DISCOVERY_INTERVAL_SLOW_MS_def DISCOVERY_AGE_2_MIN_MS_def
  DISCOVERY_AGE_5_MIN_MS_def DISCOVERY_AGE_10_MIN_MS_def

record disc_mgr =
  connectTimeMs :: u32
  lastBroadcastMs :: u32
  backoffActive :: bool
  broadcastCount :: u32
  resetCount :: u32

record disc_env =
  e_mode :: int
  e_broadcastIP :: string
  e_timestamp :: u64
  e_millis :: u32
  e_beginPacket :: int
  e_write :: nat
  e_endPacket :: int

datatype disc_out =
    UdpBegin u16
  | UdpBeginPacket string u16
  | UdpWrite "u8 list"
  | UdpEndPacket
  | BroadcastCallback "u8 list"

section \<open>The firmware side\<close>

definition discoveryIntervalMs :: "u32 \<Rightarrow> u32" where
  "discoveryIntervalMs ageMs =
     (if ageMs < DISCOVERY_AGE_2_MIN_MS then DISCOVERY_INTERVAL_FAST_MS
      else if ageMs < DISCOVERY_AGE_5_MIN_MS then DISCOVERY_INTERVAL_2_5_MIN_MS
      else if ageMs < DISCOVERY_AGE_10_MIN_MS then DISCOVERY_INTERVAL_5_10_MIN_MS
      else DISCOVERY_INTERVAL_SLOW_MS)"

definition le32 :: "u32 \<Rightarrow> u8 list" where
  "le32 w = map (\<lambda>i. ucast (drop_bit (8 * i) w)) [0 ..< 4]"

text \<open>The loop from the last byte to the first: the most significant byte comes first.\<close>

definition be64 :: "u64 \<Rightarrow> u8 list" where
  "be64 w = map (\<lambda>i. ucast (drop_bit (8 * (7 - i)) w)) [0 ..< 8]"

definition be16 :: "u16 \<Rightarrow> u8 list" where
  "be16 w = [ucast (drop_bit 8 w), ucast w]"

definition buildDiscoveryPacket :: "u8 list \<Rightarrow> u32 \<Rightarrow> u16 \<Rightarrow> u64 \<Rightarrow> u32 \<Rightarrow> u8 list" where
  "buildDiscoveryPacket deviceId tcpPort otaPort timestamp nonce =
     [0x56, 0x53, 0x49, 0x4D] @ [1] @ [1] @ deviceId @ le32 nonce @ replicate 4 0 @
     be64 timestamp @ [ucast (drop_bit 8 tcpPort), ucast tcpPort] @
     [ucast (drop_bit 8 otaPort), ucast otaPort] @ replicate 64 0"

definition shouldBroadcast :: "disc_env \<Rightarrow> bool \<Rightarrow> bool" where
  "shouldBroadcast e haveClient \<longleftrightarrow> e_mode e = 2 \<or> e_mode e = 1"

definition disc_broadcast ::
    "u8 list \<Rightarrow> (u8 list \<Rightarrow> u8 list) \<Rightarrow> bool \<Rightarrow> disc_env \<Rightarrow> disc_mgr \<Rightarrow> bool \<times> disc_mgr \<times> disc_out list" where
  "disc_broadcast deviceId sign callback e d =
     (let packet = sign (buildDiscoveryPacket deviceId TCP_PORT OTA_HTTP_PORT (e_timestamp e) (e_millis e));
          o1 = [UdpBeginPacket (e_broadcastIP e) DISCOVERY_PORT]
      in if e_beginPacket e \<le> 0 then (False, d, o1)
         else if e_write e \<noteq> DISCOVERY_PACKET_SIZE then (False, d, o1 @ [UdpWrite packet])
         else if e_endPacket e \<le> 0 then (False, d, o1 @ [UdpWrite packet, UdpEndPacket])
         else (True, d\<lparr>broadcastCount := broadcastCount d + 1\<rparr>,
               o1 @ [UdpWrite packet, UdpEndPacket] @
               (if callback then [BroadcastCallback packet] else [])))"

definition resetBackoff :: "disc_env \<Rightarrow> disc_mgr \<Rightarrow> disc_mgr" where
  "resetBackoff e d =
     d\<lparr>resetCount := resetCount d + 1, connectTimeMs := e_millis e, lastBroadcastMs := 0,
       backoffActive := True\<rparr>"

definition disc_init :: "disc_env \<Rightarrow> disc_mgr \<Rightarrow> disc_mgr \<times> disc_out list" where
  "disc_init e d = (resetBackoff e d, [UdpBegin DISCOVERY_PORT])"

definition disc_update ::
    "u8 list \<Rightarrow> (u8 list \<Rightarrow> u8 list) \<Rightarrow> bool \<Rightarrow> disc_env \<Rightarrow> u32 \<Rightarrow> bool \<Rightarrow> disc_mgr \<Rightarrow>
     disc_mgr \<times> disc_out list" where
  "disc_update deviceId sign callback e now haveClient d =
     (if \<not> shouldBroadcast e haveClient then (d, [])
      else if discoveryIntervalMs (now - connectTimeMs d) \<le> now - lastBroadcastMs d then
        let (ok, d1, out) = disc_broadcast deviceId sign callback e (d\<lparr>lastBroadcastMs := now\<rparr>)
        in (d1, out)
      else (d, []))"

text \<open>The policy that owns the manager.\<close>

record disc_policy =
  p_mgr :: disc_mgr
  p_started :: bool
  p_enabled :: bool

definition startIfNeeded :: "disc_env \<Rightarrow> disc_policy \<Rightarrow> disc_policy \<times> disc_out list" where
  "startIfNeeded e p =
     (if \<not> p_started p \<and> p_enabled p then
        let (d, out) = disc_init e (p_mgr p) in (p\<lparr>p_mgr := d, p_started := True\<rparr>, out)
      else (p, []))"

definition policy_update ::
    "u8 list \<Rightarrow> (u8 list \<Rightarrow> u8 list) \<Rightarrow> disc_env \<Rightarrow> u32 \<Rightarrow> bool \<Rightarrow> disc_policy \<Rightarrow> disc_policy \<times> disc_out list" where
  "policy_update deviceId sign e now clientConnected p =
     (if p_enabled p then
        let (d, out) = disc_update deviceId sign True e now clientConnected (p_mgr p)
        in (p\<lparr>p_mgr := d\<rparr>, out)
      else (p, []))"

definition policy_resetBackoff :: "disc_env \<Rightarrow> disc_policy \<Rightarrow> disc_policy" where
  "policy_resetBackoff e p = p\<lparr>p_mgr := resetBackoff e (p_mgr p)\<rparr>"

definition cadenceString :: "u32 \<Rightarrow> disc_policy \<Rightarrow> string" where
  "cadenceString nowMs p =
     (if \<not> p_enabled p \<or> \<not> p_started p then ''none''
      else
        let ageMs = (if connectTimeMs (p_mgr p) < nowMs then nowMs - connectTimeMs (p_mgr p) else 0);
            intervalMs = discoveryIntervalMs ageMs
        in if 1000 \<le> intervalMs then dec_str (unat (intervalMs div 1000)) @ ''s''
           else dec_str (unat intervalMs) @ ''ms'')"

section \<open>The host side\<close>

definition MAGIC :: "u8 list" where "MAGIC = [0x56, 0x53, 0x49, 0x4D]"
definition VERSION :: u8 where "VERSION = 1"
definition PACKET_TYPE_DISCOVERY :: u8 where "PACKET_TYPE_DISCOVERY = 1"
definition HEADER_LEN :: nat where "HEADER_LEN = 42"
definition PACKET_LEN :: nat where "PACKET_LEN = HEADER_LEN + 64"

record DiscoveryPacket =
  deviceId :: "u8 list"
  nonce :: "u8 list"
  timestamp :: u64
  canPort :: u16
  otaPort :: u16
  signature :: "u8 list"

definition signedPayload :: "DiscoveryPacket \<Rightarrow> u8 list" where
  "signedPayload p =
     MAGIC @ [VERSION] @ [PACKET_TYPE_DISCOVERY] @ deviceId p @ nonce p @ be64 (timestamp p) @
     be16 (canPort p) @ be16 (otaPort p)"

definition toBytes :: "DiscoveryPacket \<Rightarrow> u8 list" where
  "toBytes p = signedPayload p @ signature p"

definition readBigEndian16 :: "u8 list \<Rightarrow> u16" where
  "readBigEndian16 s = push_bit 8 (ucast (s ! 0)) OR ucast (s ! 1)"

definition readBigEndian64 :: "u8 list \<Rightarrow> u64" where
  "readBigEndian64 s = foldl (\<lambda>v b. push_bit 8 v OR ucast b) 0 (take 8 s)"

definition parse_packet :: "u8 list \<Rightarrow> DiscoveryPacket option" where
  "parse_packet data =
     (if length data < PACKET_LEN then None
      else if take 4 data \<noteq> MAGIC then None
      else if data ! 4 \<noteq> VERSION then None
      else if data ! 5 \<noteq> PACKET_TYPE_DISCOVERY then None
      else
        let can = readBigEndian16 (drop 38 data)
        in if can = 0 then None
           else Some \<lparr>deviceId = take 16 (drop 6 data), nonce = take 8 (drop 22 data),
                      timestamp = readBigEndian64 (drop 30 data), canPort = can,
                      otaPort = readBigEndian16 (drop 40 data),
                      signature = take 64 (drop HEADER_LEN data)\<rparr>)"

end
