(* ===== verification/FW_Discovery_Proofs.thy ===== *)
theory FW_Discovery_Proofs
  imports FW_Discovery
begin

text \<open>
  Properties of the beacon: the host's parser inverts the host's serialiser, the firmware's
  packet is one of the host's packets, the parser accepts nothing else, what counts as a
  broadcast, and the cadence.
\<close>

section \<open>Big-endian numbers\<close>

lemma length_be64 [simp]: "length (be64 w) = 8"
  by (simp add: be64_def)

lemma be64_eq: "be64 w = [ucast (drop_bit 56 w), ucast (drop_bit 48 w), ucast (drop_bit 40 w),
    ucast (drop_bit 32 w), ucast (drop_bit 24 w), ucast (drop_bit 16 w), ucast (drop_bit 8 w), ucast w]"
proof -
  have "[0 ..< 8] = [0, 1, 2, 3, 4, 5, 6, 7 :: nat]" by code_simp
  then show ?thesis by (simp add: be64_def)
qed

lemma u8_bit: "bit (b :: u8) n \<Longrightarrow> n < 8"
  using bit_imp_le_length by fastforce

text \<open>One round of the reader's loop undoes one round of the writer's.\<close>

lemma be_round:
  "push_bit 8 (drop_bit (k + 8) w) OR ucast (ucast (drop_bit k w) :: u8) = drop_bit k (w :: u64)"
proof (rule bit_word_eqI)
  fix n assume n: "n < LENGTH(64)"
  show "bit (push_bit 8 (drop_bit (k + 8) w) OR ucast (ucast (drop_bit k w) :: u8)) n =
      bit (drop_bit k w) n"
    using n by (cases "n < 8") (auto simp: bit_simps add.commute add.left_commute dest: bit_imp_le_length)
qed

lemma read_be64: "readBigEndian64 (be64 w @ r) = w"
proof -
  have top: "drop_bit 64 w = 0" by (rule bit_word_eqI) (auto simp: bit_simps dest: bit_imp_le_length)
  note rounds = be_round[of 56 w] be_round[of 48 w] be_round[of 40 w] be_round[of 32 w]
    be_round[of 24 w] be_round[of 16 w] be_round[of 8 w] be_round[of 0 w]
  show ?thesis using rounds by (simp add: readBigEndian64_def be64_eq top)
qed

definition be_push :: "u64 \<Rightarrow> u8 \<Rightarrow> u64" where "be_push v b = push_bit 8 v OR ucast b"

lemma read64_push: "readBigEndian64 s = foldl be_push 0 (take 8 s)"
  by (simp add: readBigEndian64_def be_push_def[abs_def])

lemma be_push_bit:
  "bit (be_push v b) n \<longleftrightarrow> n < 64 \<and> (if n < 8 then bit b n else bit v (n - 8))"
  by (auto simp: be_push_def bit_simps dest: u8_bit)

lemma be64_read: "length s = 8 \<Longrightarrow> be64 (readBigEndian64 (s @ r)) = s"
proof -
  assume "length s = 8"
  then obtain a b c d e f g h where s: "s = [a, b, c, d, e, f, g, h]"
    by (auto simp: numeral_eq_Suc length_Suc_conv)
  have byte: "ucast (drop_bit k v :: u64) = (x :: u8)"
    if "\<And>n. n < 8 \<Longrightarrow> bit v (k + n) = bit x n" for k v x
    by (rule bit_word_eqI) (use that in \<open>auto simp: bit_simps add.commute\<close>)
  show ?thesis
    unfolding s be64_eq list.inject
    by (intro conjI TrueI refl byte byte[where k = 0, simplified])
      (simp_all add: read64_push be_push_bit)
qed

lemma read_be16: "readBigEndian16 (be16 w @ r) = w"
  by (rule bit_word_eqI) (auto simp: readBigEndian16_def be16_def bit_simps)

lemma be16_read: "be16 (readBigEndian16 (a # b # r)) = [a, b]"
  unfolding be16_def list.inject
  by (intro conjI TrueI refl; rule bit_word_eqI)
    (auto simp: readBigEndian16_def bit_simps dest: u8_bit)

section \<open>The wire format\<close>

definition packet_ok :: "DiscoveryPacket \<Rightarrow> bool" where
  "packet_ok p \<longleftrightarrow> length (deviceId p) = 16 \<and> length (nonce p) = 8 \<and> length (signature p) = 64 \<and>
     canPort p \<noteq> 0"

lemma be16_eq: "be16 w = [ucast (drop_bit 8 w), ucast w]"
  by (simp add: be16_def)

lemma parse_toBytes:
  assumes "packet_ok p"
  shows "parse_packet (toBytes p @ extra) = Some p"
proof -
  let ?r = "be16 (canPort p) @ be16 (otaPort p) @ signature p @ extra"
  have d: "toBytes p @ extra = MAGIC @ [VERSION, PACKET_TYPE_DISCOVERY] @ deviceId p @ nonce p @
      be64 (timestamp p) @ ?r"
    by (simp add: toBytes_def signedPayload_def)
  have l: "length (deviceId p) = 16" "length (nonce p) = 8" "length (signature p) = 64" "canPort p \<noteq> 0"
    using assms by (simp_all add: packet_ok_def)
  have parts: "length (toBytes p @ extra) \<ge> PACKET_LEN" "take 4 (toBytes p @ extra) = MAGIC"
    "(toBytes p @ extra) ! 4 = VERSION" "(toBytes p @ extra) ! 5 = PACKET_TYPE_DISCOVERY"
    "take 16 (drop 6 (toBytes p @ extra)) = deviceId p"
    "take 8 (drop 22 (toBytes p @ extra)) = nonce p"
    "drop 30 (toBytes p @ extra) = be64 (timestamp p) @ ?r"
    "drop 38 (toBytes p @ extra) = ?r"
    "drop 40 (toBytes p @ extra) = be16 (otaPort p) @ signature p @ extra"
    "take 64 (drop HEADER_LEN (toBytes p @ extra)) = signature p"
    unfolding d using l
    by (simp_all add: MAGIC_def PACKET_LEN_def HEADER_LEN_def be16_eq nth_append)
  show ?thesis
    unfolding parse_packet_def Let_def parts(2-) read_be64 read_be16
    using parts(1) l(4) by simp
qed

interpretation packet: codec toBytes parse_packet packet_ok
  by unfold_locales (use parse_toBytes[where extra = "[]"] in simp)

text \<open>The firmware's packet as a value of the host's type.\<close>

definition beacon :: "u8 list \<Rightarrow> u32 \<Rightarrow> u16 \<Rightarrow> u64 \<Rightarrow> u32 \<Rightarrow> DiscoveryPacket" where
  "beacon dev tcp ota ts n =
     \<lparr>deviceId = dev, nonce = le32 n @ replicate 4 0, timestamp = ts, canPort = ucast tcp,
      otaPort = ota, signature = replicate 64 0\<rparr>"

lemma firmware_packet: "buildDiscoveryPacket dev tcp ota ts n = toBytes (beacon dev tcp ota ts n)"
proof -
  have "(ucast (drop_bit 8 tcp) :: u8) = ucast (drop_bit 8 (ucast tcp :: u16))"
    "(ucast tcp :: u8) = ucast (ucast tcp :: u16)"
    by (rule bit_word_eqI; auto simp: bit_simps)+
  then show ?thesis
    by (simp add: buildDiscoveryPacket_def toBytes_def signedPayload_def beacon_def MAGIC_def
        VERSION_def PACKET_TYPE_DISCOVERY_def be16_eq)
qed

text \<open>
  C27. The host's parser reads back from the firmware's beacon, followed by
  anything, the device id, the nonce, the time, both ports and the empty signature the
  firmware put in, as long as the TCP port is not a multiple of 65536.
\<close>

theorem discovery_beacon_is_understood:
  assumes "length dev = 16" and "(ucast tcp :: u16) \<noteq> 0"
  shows "parse_packet (buildDiscoveryPacket dev tcp ota ts n @ extra) =
    Some \<lparr>deviceId = dev, nonce = le32 n @ [0, 0, 0, 0], timestamp = ts, canPort = ucast tcp,
          otaPort = ota, signature = replicate 64 0\<rparr>"
proof -
  have "packet_ok (beacon dev tcp ota ts n)"
    using assms by (simp add: packet_ok_def beacon_def le32_def)
  from parse_toBytes[OF this] show ?thesis
    by (simp add: firmware_packet beacon_def numeral_eq_Suc)
qed

theorem discovery_beacon_is_understood_witness:
  "parse_packet (buildDiscoveryPacket (replicate 16 7) TCP_PORT OTA_HTTP_PORT 1700000000 4711 @ [1, 2]) =
    Some \<lparr>deviceId = replicate 16 7, nonce = le32 4711 @ [0, 0, 0, 0], timestamp = 1700000000,
          canPort = ucast TCP_PORT, otaPort = OTA_HTTP_PORT, signature = replicate 64 0\<rparr>"
  by (rule discovery_beacon_is_understood) (simp_all add: TCP_PORT_def)

text \<open>
  The parser accepts only what the serialiser writes: an accepted datagram
  is the serialised packet, with nothing altered or ignored in its first 106 bytes, so two
  datagrams with the same fields are the same; and every packet with a non-zero port is
  accepted back.
\<close>

theorem discovery_parse_is_exact:
  assumes "parse_packet data = Some p"
  shows "toBytes p = take PACKET_LEN data \<and> packet_ok p \<and> parse_packet (toBytes p) = Some p"
proof -
  have c: "PACKET_LEN \<le> length data" "take 4 data = MAGIC" "data ! 4 = VERSION"
    "data ! 5 = PACKET_TYPE_DISCOVERY" "readBigEndian16 (drop 38 data) \<noteq> 0"
    "p = \<lparr>deviceId = take 16 (drop 6 data), nonce = take 8 (drop 22 data),
          timestamp = readBigEndian64 (drop 30 data), canPort = readBigEndian16 (drop 38 data),
          otaPort = readBigEndian16 (drop 40 data), signature = take 64 (drop HEADER_LEN data)\<rparr>"
    using assms by (auto simp: parse_packet_def Let_def split: if_splits)
  have len: "106 \<le> length data" using c(1) by (simp add: PACKET_LEN_def HEADER_LEN_def)
  have ts: "be64 (readBigEndian64 (drop 30 data)) = take 8 (drop 30 data)"
    using be64_read[of "take 8 (drop 30 data)" "drop 8 (drop 30 data)"] len
    by (simp only: append_take_drop_id) simp
  have be16_at: "be16 (readBigEndian16 (drop k data)) = take 2 (drop k data)" if "k + 2 \<le> 106" for k
  proof -
    have "drop k data = data ! k # data ! Suc k # drop (Suc (Suc k)) data"
      using len that by (simp add: Cons_nth_drop_Suc)
    then show ?thesis by (simp add: be16_read)
  qed
  have hd2: "[data ! 4, data ! 5] = take 2 (drop 4 data)"
    using len by (simp add: Cons_nth_drop_Suc[symmetric] numeral_eq_Suc)
  have chunks: "take 4 data @ take 2 (drop 4 data) @ take 16 (drop 6 data) @ take 8 (drop 22 data) @
      take 8 (drop 30 data) @ take 2 (drop 38 data) @ take 2 (drop 40 data) @ take 64 (drop 42 data) =
      take 106 data"
    using take_add[of 4 2 data] take_add[of 6 16 data] take_add[of 22 8 data] take_add[of 30 8 data]
      take_add[of 38 2 data] take_add[of 40 2 data] take_add[of 42 64 data] by simp
  have "toBytes p = take 106 data"
    unfolding chunks[symmetric] c(6) toBytes_def signedPayload_def
    using hd2 be16_at[of 38] be16_at[of 40] by (simp add: c(2-4) ts HEADER_LEN_def)
  moreover have ok: "packet_ok p" using len c(5) by (simp add: packet_ok_def c(6) HEADER_LEN_def)
  ultimately show ?thesis
    using packet.dec_enc[OF ok] by (simp add: PACKET_LEN_def HEADER_LEN_def)
qed

theorem discovery_parse_is_exact_witness:
  "\<exists>p. toBytes p = take PACKET_LEN (buildDiscoveryPacket (replicate 16 7) TCP_PORT OTA_HTTP_PORT 5 9 @ [1])"
proof -
  have "packet_ok (beacon (replicate 16 7) TCP_PORT OTA_HTTP_PORT 5 9)"
    by (simp add: packet_ok_def beacon_def le32_def TCP_PORT_def)
  from parse_toBytes[OF this, of "[1]"]
  have "parse_packet (buildDiscoveryPacket (replicate 16 7) TCP_PORT OTA_HTTP_PORT 5 9 @ [1]) =
      Some (beacon (replicate 16 7) TCP_PORT OTA_HTTP_PORT 5 9)"
    by (simp add: firmware_packet)
  from discovery_parse_is_exact[OF this] show ?thesis by blast
qed

section \<open>Broadcasting\<close>

text \<open>
  A due tick in station or access-point mode makes one attempt, and the
  attempt is counted and announced exactly when all three UDP calls succeeded; a tick that is
  not due, or in another radio mode, calls nothing and changes nothing.
\<close>

theorem discovery_counts_only_sent_packets:
  "(let due = ((e_mode e = 1 \<or> e_mode e = 2) \<and>
         discoveryIntervalMs (now - connectTimeMs d) \<le> now - lastBroadcastMs d);
       sent = (due \<and> 0 < e_beginPacket e \<and> e_write e = DISCOVERY_PACKET_SIZE \<and> 0 < e_endPacket e);
       packet = sign (buildDiscoveryPacket dev TCP_PORT OTA_HTTP_PORT (e_timestamp e) (e_millis e));
       (d', out) = disc_update dev sign True e now haveClient d
   in broadcastCount d' = (if sent then broadcastCount d + 1 else broadcastCount d) \<and>
      (BroadcastCallback packet \<in> set out) = sent \<and>
      lastBroadcastMs d' = (if due then now else lastBroadcastMs d) \<and>
      (out = []) = (\<not> due))"
proof (cases "discoveryIntervalMs (now - connectTimeMs d) \<le> now - lastBroadcastMs d")
  case False
  then show ?thesis by (simp add: disc_update_def)
next
  case True
  then show ?thesis
    by (auto simp: disc_update_def shouldBroadcast_def disc_broadcast_def Let_def)
qed

text \<open>
  Between five and ten minutes after a reset of the backoff the beacon
  stays silent for the 30 s that follow a broadcast, whatever the radio and the client do: a
  listener that waits twelve seconds can miss it.
\<close>

theorem discovery_silent_for_thirty_seconds:
  assumes "DISCOVERY_AGE_5_MIN_MS \<le> now - connectTimeMs d" and "now - connectTimeMs d < DISCOVERY_AGE_10_MIN_MS"
    and "now - lastBroadcastMs d < 30000"
  shows "disc_update dev sign cb e now haveClient d = (d, [])"
proof -
  have "\<not> now - connectTimeMs d < DISCOVERY_AGE_2_MIN_MS"
    using assms(1) by (simp add: disc_consts not_less) (erule order_trans[rotated], simp)
  then show ?thesis
    using assms by (simp add: disc_update_def discoveryIntervalMs_def not_less[symmetric]
        DISCOVERY_INTERVAL_5_10_MIN_MS_def)
qed

theorem discovery_silent_for_thirty_seconds_witness:
  "disc_update [] id True \<lparr>e_mode = 1, e_broadcastIP = [], e_timestamp = 0, e_millis = 0,
     e_beginPacket = 1, e_write = 106, e_endPacket = 1\<rparr> 420000 False
     \<lparr>connectTimeMs = 0, lastBroadcastMs = 400000, backoffActive = True, broadcastCount = 3, resetCount = 1\<rparr> =
   (\<lparr>connectTimeMs = 0, lastBroadcastMs = 400000, backoffActive = True, broadcastCount = 3, resetCount = 1\<rparr>, [])"
  by (rule discovery_silent_for_thirty_seconds) (simp_all add: disc_consts)

end
