(* ===== verification/Host_Frames.thy ===== *)
theory Host_Frames
  imports VS_Prelude
begin

text \<open>
  The host's three readers of CAN frames: the ELM327 monitor dialect
  (\<open>src/pipeline/Elm327Normaliser.cpp\<close>), the raw live path (\<open>LiveTwaiSource.cpp\<close>) and the capture
  files (\<open>BinaryFileSource.cpp\<close>), all of which produce the 10-byte frame of \<open>IFrameSource.h\<close>.

  The wall clock of the live path is an argument. \<open>std::from_chars\<close> in base 16 reads the
  longest run of hexadecimal digits at the front, fails on an empty one, and fails when the
  value does not fit its type.
\<close>

section \<open>Frames\<close>

record TwaiFrame =
  timestampMs :: u64
  bytes :: "u8 list"
  rawLine :: string

definition twai_bytes :: "u32 \<Rightarrow> u8 list \<Rightarrow> u8 list" where
  "twai_bytes canId data =
     [ucast canId, ucast (drop_bit 8 canId)] @ data @ replicate (8 - length data) 0"

section \<open>Hexadecimal text\<close>

definition is_hex :: "char \<Rightarrow> bool" where
  "is_hex c = (let u = (of_char c :: nat)
     in (48 \<le> u \<and> u \<le> 57) \<or> (97 \<le> u \<and> u \<le> 102) \<or> (65 \<le> u \<and> u \<le> 70))"

definition hex_val :: "char \<Rightarrow> nat" where
  "hex_val c = (let u = (of_char c :: nat)
     in if u \<le> 57 then u - 48 else if u \<le> 70 then u - 55 else u - 87)"

definition hex_num :: "string \<Rightarrow> nat" where
  "hex_num s = foldl (\<lambda>a c. a * 16 + hex_val c) 0 s"

definition from_chars_hex :: "string \<Rightarrow> nat option" where
  "from_chars_hex s =
     (let d = takeWhile is_hex s
      in if d = [] \<or> 2 ^ 32 \<le> hex_num d then None else Some (hex_num d))"

lemma tokens_shrink:
  assumes "dropWhile sep s \<noteq> []"
  shows "length (dropWhile (\<lambda>c. \<not> sep c) (dropWhile sep s)) < length s"
proof -
  let ?x = "dropWhile sep s"
  have "\<not> sep (hd ?x)" using assms by (rule hd_dropWhile)
  then have "length (dropWhile (\<lambda>c. \<not> sep c) ?x) < length ?x"
    using assms by (cases ?x) (simp_all add: le_imp_less_Suc length_dropWhile_le)
  then show ?thesis using length_dropWhile_le[of sep s] by linarith
qed

text \<open>The tokens of a line: its maximal runs of characters that are no separators.\<close>

function tokens_by :: "(char \<Rightarrow> bool) \<Rightarrow> string \<Rightarrow> string list" where
  "tokens_by sep s =
     (let r = dropWhile sep s
      in if r = [] then []
         else takeWhile (\<lambda>c. \<not> sep c) r # tokens_by sep (dropWhile (\<lambda>c. \<not> sep c) r))"
  by pat_completeness auto
termination
  by (relation "measure (\<lambda>(sep, s). length s)") (simp_all add: tokens_shrink)

declare tokens_by.simps [simp del]

definition sep_space :: "char \<Rightarrow> bool" where "sep_space c \<longleftrightarrow> c = CHR '' '' \<or> c = TAB"

definition rtrim :: "string \<Rightarrow> string" where
  "rtrim s = rev (dropWhile ws4 (rev s))"

section \<open>The ELM327 monitor dialect\<close>

datatype NormaliserResult = Frame TwaiFrame | Skip | Malformed

definition CAN_PAYLOAD_BYTES :: nat where "CAN_PAYLOAD_BYTES = 8"
definition CAN_11BIT_MAX :: nat where "CAN_11BIT_MAX = 0x7FF"

definition isHex :: "string \<Rightarrow> bool" where "isHex s \<longleftrightarrow> s \<noteq> [] \<and> list_all is_hex s"

definition kKnown :: "string list" where
  "kKnown = [''OK'', ''NO DATA'', ''DATA ERROR'', ''STOPPED'', ''?'', ''SEARCHING...'',
     ''SEARCHING'', ''ELM327'', ''UNABLE TO CONNECT'', ''BUS ERROR'',
     ''BUFFER FULL'', ''CAN ERROR'', ''BUS INIT'', ''ERROR'']"

definition isAdapterChatter :: "string \<Rightarrow> bool" where
  "isAdapterChatter trimmed \<longleftrightarrow> trimmed = ''>'' \<or> map to_upper trimmed \<in> set kKnown"

definition elm_byte :: "string \<Rightarrow> u8 option" where
  "elm_byte tok =
     (case from_chars_hex tok of
        None \<Rightarrow> None
      | Some b \<Rightarrow> if 0xFF < b then None else Some (of_nat b))"

definition parseMonitorLine :: "string \<Rightarrow> NormaliserResult" where
  "parseMonitorLine line =
     (let trimmed = rtrim line
      in if list_all ws4 trimmed then Skip
         else if isAdapterChatter trimmed then Skip
         else
           case tokens_by sep_space trimmed of
             [] \<Rightarrow> Skip
           | idTok # dataToks \<Rightarrow>
               if \<not> isHex idTok then Skip
               else if 3 < length idTok then Malformed
               else if CAN_PAYLOAD_BYTES < length dataToks then Malformed
               else if \<not> list_all isHex dataToks then Malformed
               else
                 (case from_chars_hex idTok of
                    None \<Rightarrow> Malformed
                  | Some canId \<Rightarrow>
                      if CAN_11BIT_MAX < canId then Malformed
                      else
                        (case those (map elm_byte dataToks) of
                           None \<Rightarrow> Malformed
                         | Some data \<Rightarrow>
                             Frame \<lparr>timestampMs = 0, bytes = twai_bytes (of_nat canId) data,
                                    rawLine = []\<rparr>)))"

section \<open>The raw live path\<close>

definition live_canId :: "string \<Rightarrow> nat option" where
  "live_canId tok =
     (case from_chars_hex tok of
        None \<Rightarrow> None
      | Some v \<Rightarrow> if 3 < length tok \<or> 0x7FF < v then None else Some v)"

definition live_byte :: "string \<Rightarrow> u8 option" where
  "live_byte tok =
     (case from_chars_hex tok of
        None \<Rightarrow> None
      | Some v \<Rightarrow> if length tok \<noteq> 2 \<or> 0xFF < v then None else Some (of_nat v))"

definition tokenizeTwaiLine :: "string \<Rightarrow> (nat \<times> u8 list) option" where
  "tokenizeTwaiLine line =
     (case tokens_by sep_space line of
        [] \<Rightarrow> None
      | idTok # dataToks \<Rightarrow>
          (case live_canId idTok of
             None \<Rightarrow> None
           | Some canId \<Rightarrow>
               if 8 < length dataToks then None
               else (case those (map live_byte dataToks) of
                       None \<Rightarrow> None
                     | Some data \<Rightarrow> Some (canId, data))))"

text \<open>One line of the transport; \<open>elm\<close> says whether the normaliser is installed.\<close>

definition live_line :: "bool \<Rightarrow> u64 \<Rightarrow> string \<Rightarrow> TwaiFrame option" where
  "live_line elm clock line =
     (let trimmed = rtrim line
      in if trimmed = [] then None
         else if elm then
           (case parseMonitorLine trimmed of
              Frame f \<Rightarrow> Some (f\<lparr>timestampMs := clock, rawLine := line\<rparr>)
            | _ \<Rightarrow> None)
         else
           (case tokenizeTwaiLine trimmed of
              None \<Rightarrow> None
            | Some (canId, data) \<Rightarrow>
                Some \<lparr>timestampMs = clock, bytes = twai_bytes (of_nat canId) data, rawLine = line\<rparr>))"

fun live_nextFrame :: "bool \<Rightarrow> u64 \<Rightarrow> string list \<Rightarrow> (TwaiFrame option) \<times> string list" where
  "live_nextFrame elm clock [] = (None, [])"
| "live_nextFrame elm clock (l # ls) =
     (case live_line elm clock l of Some f \<Rightarrow> (Some f, ls) | None \<Rightarrow> live_nextFrame elm clock ls)"

section \<open>Capture files\<close>

definition isTokenSeparator :: "char \<Rightarrow> bool" where
  "isTokenSeparator c \<longleftrightarrow> c = CHR '' '' \<or> c = TAB \<or> c = CHR '','' \<or> c = CR \<or> c = LF"

definition looksLikeAsciiLine :: "string \<Rightarrow> bool" where
  "looksLikeAsciiLine payload \<longleftrightarrow> payload \<noteq> [] \<and>
     list_all (\<lambda>c. 0x20 \<le> (of_char c :: nat) \<and> (of_char c :: nat) \<le> 0x7E \<and>
       (is_hex c \<or> c = CHR '' '' \<or> c = TAB \<or> c = CHR '','' \<or> c = CR \<or> c = LF \<or>
        c = CHR ''x'' \<or> c = CHR ''X'')) payload"

text \<open>The timestamp: a leading run of decimal digits that fits 64 bits.\<close>

definition from_chars_dec64 :: "string \<Rightarrow> nat option" where
  "from_chars_dec64 s =
     (let d = takeWhile is_digit s; v = foldl (\<lambda>a c. a * 10 + digit_val c) 0 d
      in if d = [] \<or> 2 ^ 64 \<le> v then None else Some v)"

definition parseAscii :: "u64 \<Rightarrow> string \<Rightarrow> TwaiFrame option" where
  "parseAscii tsMs payload =
     (case tokens_by isTokenSeparator payload of
        [] \<Rightarrow> None
      | idTok # dataToks \<Rightarrow>
          (case live_canId idTok of
             None \<Rightarrow> None
           | Some canId \<Rightarrow>
               if 8 < length dataToks then None
               else (case those (map live_byte dataToks) of
                       None \<Rightarrow> None
                     | Some data \<Rightarrow>
                         Some \<lparr>timestampMs = tsMs, bytes = twai_bytes (of_nat canId) data,
                               rawLine = []\<rparr>)))"

definition parseBinary :: "u64 \<Rightarrow> string \<Rightarrow> TwaiFrame option" where
  "parseBinary tsMs payload =
     (if length payload \<noteq> 10 then None
      else Some \<lparr>timestampMs = tsMs, bytes = map of_char payload, rawLine = []\<rparr>)"

text \<open>One row that \<open>readNext\<close> returns: the timestamp field and the payload after the comma.\<close>

definition capture_row :: "string \<Rightarrow> (string \<times> string) option" where
  "capture_row raw =
     (let line = (if raw \<noteq> [] \<and> last raw = CR then butlast raw else raw)
      in if line = [] then None
         else case find_from (CHR '','') line 0 of
                None \<Rightarrow> None
              | Some comma \<Rightarrow>
                  if comma = 0 then None
                  else if from_chars_dec64 (take comma line) = None then None
                  else Some (take comma line, drop (comma + 1) line))"

definition capture_frame :: "string \<Rightarrow> TwaiFrame option" where
  "capture_frame raw =
     (case capture_row raw of
        None \<Rightarrow> None
      | Some (ts, payload) \<Rightarrow>
          let tsMs = (case from_chars_dec64 ts of Some v \<Rightarrow> of_nat v | None \<Rightarrow> 0)
          in if looksLikeAsciiLine payload then parseAscii tsMs payload
             else parseBinary tsMs payload)"

text \<open>\<open>std::getline\<close> over the rest of the file: the lines, the last one only if not empty.\<close>

function getlines :: "string \<Rightarrow> string list" where
  "getlines s =
     (if s = [] then []
      else case find_from LF s 0 of
             None \<Rightarrow> [s]
           | Some i \<Rightarrow> take i s # getlines (drop (i + 1) s))"
  by pat_completeness auto
termination
  by (relation "measure length") (auto dest: find_from_lt)

declare getlines.simps [simp del]

definition capture_frames :: "string \<Rightarrow> TwaiFrame list" where
  "capture_frames file = List.map_filter capture_frame (getlines file)"

section \<open>Lines of a text\<close>

lemma getlines_one: "LF \<notin> set l \<Longrightarrow> getlines (l @ LF # r) = l # getlines r"
  by (subst getlines.simps) (simp add: find_from_append[of LF l 0 "[]", simplified])

lemma getlines_nil [simp]: "getlines [] = []"
  by (subst getlines.simps) simp

end
