(* ===== verification/Frames_Proofs.thy ===== *)
theory Frames_Proofs
  imports FW_CanBridge Host_Frames
begin

text \<open>
  The text line between the firmware's CAN bridge and the host's readers: what the bridge
  prints for every frame, that the three readers recover it, where they differ, and what the
  capture files keep and lose.
\<close>

section \<open>Hexadecimal text\<close>

lemma digit_char_facts:
  "d < 16 \<Longrightarrow> is_hex (digit_char d) \<and> hex_val (digit_char d) = d \<and> \<not> ws4 (digit_char d) \<and>
     \<not> isTokenSeparator (digit_char d) \<and> to_upper (digit_char d) = digit_char d"
proof -
  have "list_all (\<lambda>d. is_hex (digit_char d) \<and> hex_val (digit_char d) = d \<and> \<not> ws4 (digit_char d) \<and>
     \<not> isTokenSeparator (digit_char d) \<and> to_upper (digit_char d) = digit_char d) [0 ..< 16]"
    by code_simp
  then show "d < 16 \<Longrightarrow> ?thesis" by (simp add: list_all_iff)
qed

lemma hex_num_snoc [simp]: "hex_num (s @ [c]) = hex_num s * 16 + hex_val c"
  by (simp add: hex_num_def)

lemma digits_in_16:
  "set (digits_in 16 n) \<subseteq> digit_char ` {..<16} \<and> hex_num (digits_in 16 n) = n"
proof (induction n rule: less_induct)
  case (less n)
  show ?case
  proof (cases "n < 16")
    case True
    then show ?thesis using digit_char_facts[of n] by (auto simp: digits_in_small hex_num_def)
  next
    case False
    then have ih: "set (digits_in 16 (n div 16)) \<subseteq> digit_char ` {..<16}"
      "hex_num (digits_in 16 (n div 16)) = n div 16"
      using less[of "n div 16"] by auto
    have d: "digits_in 16 n = digits_in 16 (n div 16) @ [digit_char (n mod 16)]"
      using False by (subst digits_in.simps) simp
    show ?thesis using ih digit_char_facts[of "n mod 16"] by (auto simp: d)
  qed
qed

lemma hex_num_zeros: "hex_num (replicate k (CHR ''0'') @ s) = hex_num s"
proof -
  have "foldl (\<lambda>a c. a * 16 + hex_val c) 0 (replicate k (CHR ''0'')) = 0"
    by (induction k) (simp_all add: hex_val_def)
  then show ?thesis by (simp add: hex_num_def)
qed

lemma hex_pad_facts:
  "set (hex_pad w n) \<subseteq> digit_char ` {..<16}" "hex_num (hex_pad w n) = n" "hex_pad w n \<noteq> []"
proof -
  have "CHR ''0'' = digit_char 0" by (simp add: digit_char_def)
  then show "set (hex_pad w n) \<subseteq> digit_char ` {..<16}"
    using digits_in_16[of n] by (auto simp: hex_pad_def pad_left_def)
  show "hex_num (hex_pad w n) = n" using digits_in_16[of n]
    by (simp add: hex_pad_def pad_left_def hex_num_zeros)
qed (simp add: hex_pad_def pad_left_def)

lemma length_digits: "n < 16 ^ k \<Longrightarrow> 0 < k \<Longrightarrow> length (digits_in 16 n) \<le> k"
proof (induction k arbitrary: n)
  case (Suc k)
  show ?case
  proof (cases "n < 16")
    case True
    then show ?thesis by (simp add: digits_in_small)
  next
    case False
    then have "0 < k" using Suc.prems by (cases k) auto
    moreover have "n div 16 < 16 ^ k" using Suc.prems by (simp add: less_mult_imp_div_less mult.commute)
    ultimately have "length (digits_in 16 (n div 16)) \<le> k" by (rule Suc.IH[rotated])
    then show ?thesis using False by (subst digits_in.simps) simp
  qed
qed simp

lemma length_hex_pad: "n < 16 ^ w \<Longrightarrow> 0 < w \<Longrightarrow> length (hex_pad w n) = w"
  using length_digits[of n w] by (simp add: hex_pad_def pad_left_def)

lemma hex_pad_chars:
  assumes "c \<in> set (hex_pad w n)"
  shows "is_hex c" "\<not> ws4 c" "\<not> isTokenSeparator c" "\<not> sep_space c" "to_upper c = c"
proof -
  obtain d where d: "d < 16" "c = digit_char d" using hex_pad_facts(1)[of w n] assms by auto
  note f = digit_char_facts[OF d(1)]
  show "is_hex c" "\<not> ws4 c" "\<not> isTokenSeparator c" "to_upper c = c" using f d(2) by simp_all
  show "\<not> sep_space c" using f d(2) by (auto simp: sep_space_def ws4_def)
qed

lemma from_chars_pad: "n < 2 ^ 32 \<Longrightarrow> from_chars_hex (hex_pad w n) = Some n"
proof -
  assume n: "n < 2 ^ 32"
  have tw: "takeWhile is_hex (hex_pad w n) = hex_pad w n"
    using hex_pad_chars by (intro takeWhile_eq_all_conv[THEN iffD2]) blast
  show ?thesis
    unfolding from_chars_hex_def Let_def tw using n hex_pad_facts(2,3)[of w n] by auto
qed

section \<open>What the bridge prints\<close>

text \<open>The line of a frame, without a buffer.\<close>

definition byte_texts :: "u8 list \<Rightarrow> string" where
  "byte_texts ds = concat (map (\<lambda>d. CHR '' '' # hex_pad 2 (unat d)) ds)"

definition sent_data :: "CanFrame \<Rightarrow> u8 list" where
  "sent_data msg = take (unat (min (data_length_code msg) MAX_DATA_LENGTH)) (can_data msg)"

definition frame_line :: "CanFrame \<Rightarrow> string" where
  "frame_line msg = hex_pad 3 (unat (can_id msg)) @ byte_texts (sent_data msg) @ [CR]"

lemma snprintf_cut:
  assumes "length full \<le> B"
  shows "snprintf_at B (take (B - 1) full, length full) t =
    Some (take (B - 1) (full @ t), length full + length t)"
  using assms by (cases "length full = B") (auto simp: snprintf_at_def)

lemma frame_bytes_cut:
  "length full + 3 * length ds \<le> B \<Longrightarrow>
   frame_bytes_at B (take (B - 1) full, length full) ds =
     Some (take (B - 1) (full @ byte_texts ds), length (full @ byte_texts ds))"
proof (induction ds arbitrary: full)
  case (Cons d ds)
  let ?t = "CHR '' '' # hex_pad 2 (unat d)"
  have "unat d < 16 ^ 2" using u8_lt[of d] by simp
  then have l: "length ?t = 3" by (simp add: length_hex_pad)
  have "snprintf_at B (take (B - 1) full, length full) ?t =
      Some (take (B - 1) (full @ ?t), length (full @ ?t))"
    using snprintf_cut[of full B ?t] Cons.prems by simp
  moreover have "frame_bytes_at B (take (B - 1) (full @ ?t), length (full @ ?t)) ds =
      Some (take (B - 1) ((full @ ?t) @ byte_texts ds), length ((full @ ?t) @ byte_texts ds))"
    by (rule Cons.IH) (use Cons.prems l in simp)
  ultimately show ?case by (simp add: byte_texts_def)
qed (simp add: byte_texts_def)

lemma length_byte_texts: "length (byte_texts ds) = 3 * length ds"
proof (induction ds)
  case (Cons d ds)
  have "unat d < 16 ^ 2" using u8_lt[of d] by simp
  then show ?case using Cons by (simp add: byte_texts_def length_hex_pad)
qed (simp add: byte_texts_def)

lemma sent_data_le: "length (sent_data msg) \<le> 8"
proof -
  have "unat (min (data_length_code msg) MAX_DATA_LENGTH) \<le> unat MAX_DATA_LENGTH"
    by (simp add: word_le_nat_alt[symmetric])
  then show ?thesis by (simp add: sent_data_def MAX_DATA_LENGTH_def)
qed

lemma id_digits: "length (hex_pad 3 (unat (can_id msg))) \<le> 8"
proof -
  have "unat (can_id msg) < 16 ^ 8" using u32_lt[of "can_id msg"] by simp
  from length_digits[OF this] show ?thesis by (simp add: hex_pad_def pad_left_def)
qed

lemma build_cut: "buildFrameString msg CAN_FRAME_BUFFER_SIZE = Some (take 31 (frame_line msg))"
proof -
  let ?h = "hex_pad 3 (unat (can_id msg))" and ?d = "sent_data msg"
  have h: "snprintf_at 32 ([], 0) ?h = Some (take 31 ?h, length ?h)"
    using snprintf_cut[of "[]" 32 ?h] by simp
  have b: "frame_bytes_at 32 (take 31 ?h, length ?h) ?d =
      Some (take 31 (?h @ byte_texts ?d), length (?h @ byte_texts ?d))"
    using frame_bytes_cut[of ?h ?d 32] id_digits[of msg] sent_data_le[of msg] by simp
  have c: "snprintf_at 32 (take 31 (?h @ byte_texts ?d), length (?h @ byte_texts ?d)) [CR] =
      Some (take 31 (frame_line msg), length (?h @ byte_texts ?d) + 1)"
    using snprintf_cut[of "?h @ byte_texts ?d" 32 "[CR]"] id_digits[of msg] sent_data_le[of msg]
    by (simp add: frame_line_def length_byte_texts)
  show ?thesis
    using h b c by (simp add: buildFrameString_def CAN_FRAME_BUFFER_SIZE_def sent_data_def[symmetric])
qed

text \<open>
  For every identifier of 32 bits, length code and payload the
  frame's text stays inside its 32-byte buffer, and is the frame's line cut after 31
  characters.
\<close>

theorem frame_text_fits_its_buffer:
  "buildFrameString msg CAN_FRAME_BUFFER_SIZE = Some (take 31 (frame_line msg))"
  by (rule build_cut)

lemma frame_text_cut: "frame_text msg = take 31 (frame_line msg)"
  by (simp add: frame_text_def build_cut)

lemma frame_text_standard:
  assumes "can_id msg \<le> 0x7FF"
  shows "frame_text msg = frame_line msg"
proof -
  have "unat (can_id msg) < 16 ^ 3" using assms by (simp add: word_le_nat_alt)
  then have "length (frame_line msg) \<le> 31"
    using sent_data_le[of msg] by (simp add: frame_line_def length_hex_pad length_byte_texts)
  then show ?thesis by (simp add: frame_text_cut)
qed

text \<open>
  A frame with an extended identifier of seven or eight hexadecimal
  digits and a full payload is printed without its carriage return, so the reader joins it to
  the next line; with eight digits the last digit of the payload is lost as well.
\<close>

theorem extended_frame_loses_its_terminator:
  assumes "0x1000000 \<le> can_id msg" and "8 \<le> data_length_code msg" and "length (can_data msg) = 8"
  shows "length (frame_text msg) = 31 \<and> CR \<notin> set (frame_text msg) \<and>
    (0x10000000 \<le> can_id msg \<longrightarrow>
       frame_text msg = butlast (hex_pad 3 (unat (can_id msg)) @ byte_texts (can_data msg)))"
proof -
  let ?h = "hex_pad 3 (unat (can_id msg))"
  have len: "unat (min (data_length_code msg) MAX_DATA_LENGTH) = 8"
    using assms(2) by (simp add: min_absorb2 MAX_DATA_LENGTH_def)
  have sd: "sent_data msg = can_data msg" by (simp add: sent_data_def len assms(3))
  have grow: "k \<le> length (digits_in 16 n)" if "16 ^ (k - 1) \<le> n" "0 < k" for k n
    using that
  proof (induction k arbitrary: n)
    case (Suc k)
    show ?case
    proof (cases "k = 0")
      case True
      then show ?thesis by (metis One_nat_def Suc_leI digits_in_nonempty length_greater_0_conv)
    next
      case False
      then have "(16::nat) * 16 ^ (k - 1) \<le> n" using Suc.prems by (simp add: power_eq_if)
      then have "16 ^ (k - 1) \<le> n div 16" "\<not> n < 16"
        by (simp_all add: less_eq_div_iff_mult_less_eq mult.commute)
          (metis dual_order.trans mult.right_neutral mult_le_mono2 not_less one_le_numeral one_le_power)
      with Suc.IH[of "n div 16"] False show ?thesis by (subst digits_in.simps) simp
    qed
  qed simp
  have pad: "length (digits_in 16 n) \<le> length (hex_pad 3 n)" for n
    by (simp add: hex_pad_def pad_left_def)
  have h7: "7 \<le> length ?h"
    using grow[of 7 "unat (can_id msg)"] pad[of "unat (can_id msg)"] assms(1)
    by (simp add: word_le_nat_alt)
  have body: "length (?h @ byte_texts (can_data msg)) = length ?h + 24"
    by (simp add: length_byte_texts assms(3))
  have cut: "frame_text msg = take 31 (?h @ byte_texts (can_data msg))"
    using h7 by (simp add: frame_text_cut frame_line_def sd length_byte_texts assms(3))
  have nocr: "CR \<notin> set (?h @ byte_texts (can_data msg))"
    using hex_pad_chars(2) by (auto simp: byte_texts_def ws4_def CR_def)
  have h8: "0x10000000 \<le> can_id msg \<Longrightarrow> length ?h = 8"
    using grow[of 8 "unat (can_id msg)"] pad[of "unat (can_id msg)"] id_digits[of msg]
    by (simp add: word_le_nat_alt)
  have "length (frame_text msg) = 31" using h7 body by (simp add: cut)
  moreover have "CR \<notin> set (frame_text msg)" unfolding cut using nocr in_set_takeD by metis
  moreover have "frame_text msg = butlast (?h @ byte_texts (can_data msg))"
    if "0x10000000 \<le> can_id msg"
    unfolding cut butlast_conv_take using h8[OF that] body by simp
  ultimately show ?thesis by blast
qed

theorem extended_frame_loses_its_terminator_witness:
  "CR \<notin> set (frame_text \<lparr>can_id = 0x18DAF110, data_length_code = 8, can_data = replicate 8 0xAB\<rparr>)"
  by (rule extended_frame_loses_its_terminator[THEN conjunct2, THEN conjunct1]) simp_all

section \<open>What the readers recover\<close>

lemma tokens_word:
  assumes "w \<noteq> []" "\<forall>c \<in> set w. \<not> sep c" "s = [] \<or> sep (hd s)"
  shows "tokens_by sep (w @ s) = w # tokens_by sep s"
proof -
  have d: "dropWhile sep (w @ s) = w @ s" using assms(1,2) by (cases w) auto
  have t: "takeWhile (\<lambda>c. \<not> sep c) (w @ s) = w" "dropWhile (\<lambda>c. \<not> sep c) (w @ s) = s"
    using assms(2,3) by (cases s; auto simp: takeWhile_append dropWhile_append)+
  show ?thesis using assms(1) by (subst tokens_by.simps) (simp add: d t)
qed

lemma tokens_sep: "sep c \<Longrightarrow> tokens_by sep (c # s) = tokens_by sep s"
  by (subst (1 2) tokens_by.simps) simp

lemma tokens_nil [simp]: "tokens_by sep [] = []"
  by (subst tokens_by.simps) simp

lemma tokens_bytes:
  assumes "sep (CHR '' '')" "\<And>w n c. c \<in> set (hex_pad w n) \<Longrightarrow> \<not> sep c"
  shows "tokens_by sep (byte_texts ds) = map (\<lambda>d. hex_pad 2 (unat d)) ds"
proof (induction ds)
  case (Cons d ds)
  have "byte_texts ds = [] \<or> sep (hd (byte_texts ds))"
    using assms(1) by (cases ds) (simp_all add: byte_texts_def)
  then have "tokens_by sep (hex_pad 2 (unat d) @ byte_texts ds) =
      hex_pad 2 (unat d) # tokens_by sep (byte_texts ds)"
    using assms(2) hex_pad_facts(3) by (intro tokens_word) auto
  then show ?case using Cons assms(1) by (simp add: byte_texts_def tokens_sep)
qed (simp add: byte_texts_def)

lemma tokens_frame:
  assumes "sep (CHR '' '')" "\<And>w n c. c \<in> set (hex_pad w n) \<Longrightarrow> \<not> sep c"
  shows "tokens_by sep (hex_pad 3 i @ byte_texts ds) = hex_pad 3 i # map (\<lambda>d. hex_pad 2 (unat d)) ds"
proof -
  have "byte_texts ds = [] \<or> sep (hd (byte_texts ds))"
    using assms(1) by (cases ds) (simp_all add: byte_texts_def)
  then show ?thesis
    using tokens_word[of "hex_pad 3 i" sep "byte_texts ds"] tokens_bytes[of sep ds, OF assms] assms(2)
      hex_pad_facts(3) by auto
qed

lemma those_map: "(\<And>x. x \<in> set xs \<Longrightarrow> f x = Some (g x)) \<Longrightarrow> those (map f xs) = Some (map g xs)"
  by (induction xs) auto

lemma pad2: "length (hex_pad 2 (unat (d :: u8))) = 2" "from_chars_hex (hex_pad 2 (unat d)) = Some (unat d)"
  using length_hex_pad[of "unat d" 2] from_chars_pad[of "unat d" 2] u8_lt[of d] by simp_all

lemma live_bytes: "those (map live_byte (map (\<lambda>d. hex_pad 2 (unat d)) ds)) = Some ds"
proof -
  have "live_byte (hex_pad 2 (unat d)) = Some d" for d
    using u8_lt[of d] by (simp add: live_byte_def pad2)
  then show ?thesis using those_map[of ds "live_byte \<circ> (\<lambda>d. hex_pad 2 (unat d))" "\<lambda>d. d"] by simp
qed

lemma elm_bytes: "those (map elm_byte (map (\<lambda>d. hex_pad 2 (unat d)) ds)) = Some ds"
proof -
  have "elm_byte (hex_pad 2 (unat d)) = Some d" for d
    using u8_lt[of d] by (simp add: elm_byte_def pad2)
  then show ?thesis using those_map[of ds "elm_byte \<circ> (\<lambda>d. hex_pad 2 (unat d))" "\<lambda>d. d"] by simp
qed

text \<open>The visible part of a frame's line.\<close>

definition frame_body :: "u32 \<Rightarrow> u8 list \<Rightarrow> string" where
  "frame_body i ds = hex_pad 3 (unat i) @ byte_texts ds"

lemma body_chars: "c \<in> set (frame_body i ds) \<Longrightarrow> c = CHR '' '' \<or> (is_hex c \<and> to_upper c = c \<and> \<not> ws4 c)"
  using hex_pad_chars by (auto simp: frame_body_def byte_texts_def split: if_splits)

lemma body_ends: "frame_body i ds \<noteq> []" "\<not> ws4 (hd (frame_body i ds))" "\<not> ws4 (last (frame_body i ds))"
proof -
  have ne: "hex_pad w n \<noteq> []" for w n by (rule hex_pad_facts(3))
  show "frame_body i ds \<noteq> []" "\<not> ws4 (hd (frame_body i ds))"
    using ne hex_pad_chars(2)[OF hd_in_set[OF ne]] by (simp_all add: frame_body_def)
  show "\<not> ws4 (last (frame_body i ds))"
    using ne hex_pad_chars(2)[OF last_in_set[OF ne]]
    by (cases ds rule: rev_cases) (simp_all add: frame_body_def byte_texts_def)
qed

lemma rtrim_body: "rtrim (frame_body i ds @ t) = frame_body i ds" if "list_all ws4 t"
proof -
  have "dropWhile ws4 (rev t @ rev (frame_body i ds)) = rev (frame_body i ds)"
    using that body_ends[of i ds]
    by (subst dropWhile_append2) (auto simp: list_all_iff dropWhile_id hd_rev)
  then show ?thesis by (simp add: rtrim_def)
qed

lemma body_no_chatter: "\<not> isAdapterChatter (frame_body i ds)"
proof -
  have up: "map to_upper (frame_body i ds) = frame_body i ds"
  proof (rule map_idI)
    fix c assume "c \<in> set (frame_body i ds)"
    from body_chars[OF this] show "to_upper c = c" by (auto simp: to_upper_def)
  qed
  have known: "list_all (\<lambda>k. \<not> list_all (\<lambda>c. c = CHR '' '' \<or> is_hex c) k) (''>'' # kKnown)"
    by code_simp
  have "list_all (\<lambda>c. c = CHR '' '' \<or> is_hex c) (frame_body i ds)"
    using body_chars by (auto simp: list_all_iff)
  then have "frame_body i ds \<notin> set (''>'' # kKnown)"
    using known unfolding list_all_iff by blast
  then show ?thesis by (simp add: isAdapterChatter_def up)
qed

lemma sep_space_pads: "sep_space (CHR '' '')" "\<And>w n c. c \<in> set (hex_pad w n) \<Longrightarrow> \<not> sep_space c"
  using hex_pad_chars(4) by (auto simp: sep_space_def)

lemma sep_token_pads:
  "isTokenSeparator (CHR '' '')" "\<And>w n c. c \<in> set (hex_pad w n) \<Longrightarrow> \<not> isTokenSeparator c"
  using hex_pad_chars(3) by (auto simp: isTokenSeparator_def)

lemma id_token:
  assumes "i \<le> (0x7FF :: u32)"
  shows "from_chars_hex (hex_pad 3 (unat i)) = Some (unat i)" "length (hex_pad 3 (unat i)) = 3"
    "unat i \<le> 0x7FF"
proof -
  have i: "unat i \<le> 0x7FF" using assms by (simp add: word_le_nat_alt)
  then show "unat i \<le> 0x7FF" "from_chars_hex (hex_pad 3 (unat i)) = Some (unat i)"
    "length (hex_pad 3 (unat i)) = 3" by (simp_all add: from_chars_pad length_hex_pad)
qed

lemma isHex_pad: "isHex (hex_pad w n)"
  using hex_pad_facts(3) hex_pad_chars(1) by (auto simp: isHex_def list_all_iff)

lemma elm_reads_body:
  assumes "i \<le> 0x7FF" "length ds \<le> 8" "list_all ws4 t"
  shows "parseMonitorLine (frame_body i ds @ t) =
    Frame \<lparr>timestampMs = 0, bytes = twai_bytes i ds, rawLine = []\<rparr>"
proof -
  have nb: "\<not> list_all ws4 (frame_body i ds)"
    using body_ends[of i ds] by (cases "frame_body i ds") auto
  have tk: "tokens_by sep_space (frame_body i ds) =
      hex_pad 3 (unat i) # map (\<lambda>d. hex_pad 2 (unat d)) ds"
    unfolding frame_body_def by (rule tokens_frame[of sep_space, OF sep_space_pads])
  have hx: "list_all isHex (map (\<lambda>d. hex_pad 2 (unat d)) ds)"
    using isHex_pad by (simp add: list_all_iff)
  show ?thesis
    using id_token[OF assms(1)] assms(2) elm_bytes[of ds]
    by (simp add: parseMonitorLine_def rtrim_body[OF assms(3)] Let_def nb body_no_chatter tk
        isHex_pad hx CAN_PAYLOAD_BYTES_def CAN_11BIT_MAX_def)
qed

lemma raw_reads_body:
  assumes "i \<le> 0x7FF" "length ds \<le> 8"
  shows "tokenizeTwaiLine (frame_body i ds) = Some (unat i, ds)"
proof -
  have tk: "tokens_by sep_space (frame_body i ds) =
      hex_pad 3 (unat i) # map (\<lambda>d. hex_pad 2 (unat d)) ds"
    unfolding frame_body_def by (rule tokens_frame[of sep_space, OF sep_space_pads])
  show ?thesis
    using id_token[OF assms(1)] assms(2) live_bytes[of ds]
    by (simp add: tokenizeTwaiLine_def tk live_canId_def)
qed

lemma ascii_reads_body:
  assumes "i \<le> 0x7FF" "length ds \<le> 8"
  shows "looksLikeAsciiLine (frame_body i ds)"
    and "parseAscii ts (frame_body i ds) = Some \<lparr>timestampMs = ts, bytes = twai_bytes i ds, rawLine = []\<rparr>"
proof -
  have tk: "tokens_by isTokenSeparator (frame_body i ds) =
      hex_pad 3 (unat i) # map (\<lambda>d. hex_pad 2 (unat d)) ds"
    unfolding frame_body_def by (rule tokens_frame[of isTokenSeparator, OF sep_token_pads])
  show "parseAscii ts (frame_body i ds) = Some \<lparr>timestampMs = ts, bytes = twai_bytes i ds, rawLine = []\<rparr>"
    using id_token[OF assms(1)] assms(2) live_bytes[of ds]
    by (simp add: parseAscii_def tk live_canId_def)
  have "0x20 \<le> (of_char c :: nat) \<and> (of_char c :: nat) \<le> 0x7E" if "is_hex c \<or> c = CHR '' ''" for c
    using that by (auto simp: is_hex_def Let_def)
  then show "looksLikeAsciiLine (frame_body i ds)"
    using body_chars[of _ i ds] body_ends(1)[of i ds]
    by (auto simp: looksLikeAsciiLine_def list_all_iff)
qed

lemma live_reads_device_line:
  assumes "can_id msg \<le> 0x7FF"
  shows "live_line elm clock (frame_text msg) =
    Some \<lparr>timestampMs = clock, bytes = twai_bytes (can_id msg) (sent_data msg), rawLine = frame_text msg\<rparr>"
proof -
  let ?b = "frame_body (can_id msg) (sent_data msg)"
  have line: "frame_text msg = ?b @ [CR]"
    by (simp add: frame_text_standard[OF assms] frame_line_def frame_body_def)
  have cr: "list_all ws4 [CR]" by (simp add: ws4_def)
  note tr = rtrim_body[OF cr, of "can_id msg" "sent_data msg"]
  have elm: "parseMonitorLine ?b = Frame \<lparr>timestampMs = 0, bytes = twai_bytes (can_id msg) (sent_data msg), rawLine = []\<rparr>"
    using elm_reads_body[OF assms sent_data_le, of "[]"] by simp
  show ?thesis
    using body_ends(1)[of "can_id msg" "sent_data msg"] raw_reads_body[OF assms sent_data_le[of msg]] elm
    by (simp add: live_line_def line tr Let_def)
qed

text \<open>
  C23. From the bus to the decoder: the line the device prints for a frame
  with a standard identifier is read back to that identifier and exactly the bytes sent (the
  payload padded with zeros to eight) by the ELM327 path, by the raw live path and, behind a
  timestamp, by the capture reader.
\<close>

theorem readers_recover_every_standard_frame:
  assumes "can_id msg \<le> 0x7FF"
    and "from_chars_dec64 ts = Some v" and "CHR '','' \<notin> set ts"
  shows "live_line elm clock (frame_text msg) =
      Some \<lparr>timestampMs = clock, bytes = twai_bytes (can_id msg) (sent_data msg), rawLine = frame_text msg\<rparr> \<and>
    capture_frame (ts @ CHR '','' # frame_text msg) =
      Some \<lparr>timestampMs = of_nat v, bytes = twai_bytes (can_id msg) (sent_data msg), rawLine = []\<rparr>"
proof -
  let ?b = "frame_body (can_id msg) (sent_data msg)"
  have line: "frame_text msg = ?b @ [CR]"
    by (simp add: frame_text_standard[OF assms(1)] frame_line_def frame_body_def)
  have cr: "list_all ws4 [CR]" by (simp add: ws4_def)
  note tr = rtrim_body[OF cr, of "can_id msg" "sent_data msg"]
  note tr0 = rtrim_body[of "[]" "can_id msg" "sent_data msg", simplified]
  have ne: "ts \<noteq> []" using assms(2) by (auto simp: from_chars_dec64_def)
  have "find_from (CHR '','') (ts @ CHR '','' # ?b) 0 = Some (length ts)"
    using find_from_append[of "CHR '',''" ts 0 "[]" ?b] assms(3) by simp
  then have "capture_row (ts @ CHR '','' # frame_text msg) = Some (ts, ?b)"
    using ne assms(2) by (simp add: capture_row_def line butlast_append Let_def)
  then have "capture_frame (ts @ CHR '','' # frame_text msg) =
      Some \<lparr>timestampMs = of_nat v, bytes = twai_bytes (can_id msg) (sent_data msg), rawLine = []\<rparr>"
    using ascii_reads_body[OF assms(1) sent_data_le[of msg]] assms(2)
    by (simp add: capture_frame_def)
  then show ?thesis using live_reads_device_line[OF assms(1)] by simp
qed

definition ex_frame :: CanFrame where
  "ex_frame = \<lparr>can_id = 0x118, data_length_code = 3, can_data = [1, 2, 0xFF, 0, 0, 0, 0, 0]\<rparr>"

theorem readers_recover_every_standard_frame_witness:
  "live_line True 99 (frame_text ex_frame) =
     Some \<lparr>timestampMs = 99, bytes = twai_bytes (can_id ex_frame) (sent_data ex_frame),
       rawLine = frame_text ex_frame\<rparr>"
proof -
  have ts: "from_chars_dec64 ''1700'' = Some 1700"
    by (simp add: from_chars_dec64_def is_digit_def digit_val_def)
  have id: "can_id ex_frame \<le> 0x7FF" by (simp add: ex_frame_def)
  show ?thesis
    by (rule readers_recover_every_standard_frame[OF id ts, THEN conjunct1]) simp
qed

section \<open>Where the readers differ\<close>

lemma hex_prefix_number:
  assumes "is_hex c" "s \<noteq> []" "\<not> is_hex (hd s)"
  shows "from_chars_hex (c # s) = Some (hex_val c)"
proof -
  have "takeWhile is_hex (c # s) = [c]" using assms by (cases s) auto
  moreover have "hex_val c < 16" using assms(1) by (auto simp: is_hex_def hex_val_def Let_def)
  ultimately show ?thesis by (simp add: from_chars_hex_def hex_num_def)
qed

text \<open>
  The raw live reader takes a number from the front of a token and ignores
  the rest, so a line of two or three characters that starts with one hexadecimal digit and
  goes on with letters that are none (the echo of a command, for instance) becomes a frame
  without data whose identifier is that digit; the ELM327 reader never does this.
\<close>

theorem raw_reader_invents_frames:
  assumes "is_hex c" and "s \<noteq> []" and "length s \<le> 2" and "list_all (\<lambda>x. \<not> is_hex x \<and> \<not> ws4 x) s"
  shows "live_line False clock (c # s) =
      Some \<lparr>timestampMs = clock, bytes = twai_bytes (of_nat (hex_val c)) [], rawLine = c # s\<rparr> \<and>
    live_line True clock (c # s) = None"
proof -
  have c: "\<not> ws4 c" using assms(1) by (auto simp: is_hex_def ws4_def TAB_def CR_def LF_def Let_def)
  have s: "\<forall>x \<in> set s. \<not> is_hex x \<and> \<not> ws4 x" using assms(4) by (simp add: list_all_iff)
  have lst: "\<not> ws4 (last (c # s))" using s assms(2) by simp
  have rt: "rtrim (c # s) = c # s"
  proof -
    have "dropWhile ws4 (rev (c # s)) = rev (c # s)"
      by (rule dropWhile_id) (use lst in \<open>simp only: hd_rev simp_thms\<close>)
    then show ?thesis by (simp only: rtrim_def rev_rev_ident)
  qed
  have sep: "\<forall>x \<in> set (c # s). \<not> sep_space x" using c s by (auto simp: sep_space_def ws4_def)
  have tk: "tokens_by sep_space (c # s) = [c # s]"
    using tokens_word[of "c # s" sep_space "[]"] sep by simp
  have nh: "\<not> is_hex (hd s)" using s assms(2) by (cases s) auto
  have num: "from_chars_hex (c # s) = Some (hex_val c)"
    by (rule hex_prefix_number[OF assms(1,2) nh])
  have v: "hex_val c < 16" using assms(1) by (auto simp: is_hex_def hex_val_def Let_def)
  have raw: "tokenizeTwaiLine (c # s) = Some (hex_val c, [])"
    using assms(3) v by (simp add: tokenizeTwaiLine_def tk live_canId_def num)
  have nx: "\<not> isHex (c # s)" using s assms(2) by (cases s) (auto simp: isHex_def)
  have elm: "parseMonitorLine (c # s) = Skip"
    by (simp add: parseMonitorLine_def Let_def rt tk nx)
  show ?thesis by (simp add: live_line_def rt raw elm)
qed

theorem raw_reader_invents_frames_witness:
  "live_line False 5 ''ATZ'' =
      Some \<lparr>timestampMs = 5, bytes = twai_bytes (of_nat (hex_val (CHR ''A''))) [], rawLine = ''ATZ''\<rparr> \<and>
    live_line True 5 ''ATZ'' = None"
  by (rule raw_reader_invents_frames) (simp_all add: is_hex_def ws4_def TAB_def CR_def LF_def)

section \<open>Binary captures\<close>

lemma capture_row_binary:
  assumes "from_chars_dec64 ts = Some v" "CHR '','' \<notin> set ts" "p \<noteq> []" "last p \<noteq> CR"
  shows "capture_row (ts @ CHR '','' # p) = Some (ts, p)"
proof -
  have ne: "ts \<noteq> []" using assms(1) by (auto simp: from_chars_dec64_def)
  have "find_from (CHR '','') (ts @ CHR '','' # p) 0 = Some (length ts)"
    using find_from_append[of "CHR '',''" ts 0 "[]" p] assms(2) by simp
  then show ?thesis using ne assms by (simp add: capture_row_def Let_def)
qed

text \<open>
  A capture row with ten raw bytes gives exactly the frame of these
  bytes, provided none is a line feed, the last is no carriage return and they do not all look
  like text; the same row with a line feed inside is lost whenever its first part does not
  look like text and its second has no comma: the reader splits the file at line feeds before
  it looks at the bytes.
\<close>

theorem binary_captures_keep_and_lose:
  assumes "from_chars_dec64 ts = Some v" and "CHR '','' \<notin> set ts" and "LF \<notin> set ts"
    and "length (a @ b) = 9" and "LF \<notin> set a" and "LF \<notin> set b" and "\<not> looksLikeAsciiLine a"
    and "CHR '','' \<notin> set b" and "a \<noteq> []" and "last a \<noteq> CR" and "b = [] \<or> last b \<noteq> CR"
    and "x \<noteq> LF" and "x \<noteq> CR" and "\<not> looksLikeAsciiLine (a @ [x] @ b)"
  shows "capture_frames (ts @ CHR '','' # (a @ [x] @ b) @ [LF]) =
      [\<lparr>timestampMs = of_nat v, bytes = map of_char (a @ [x] @ b), rawLine = []\<rparr>] \<and>
    capture_frames (ts @ CHR '','' # (a @ [LF] @ b) @ [LF]) = []"
proof -
  let ?p = "a @ [x] @ b"
  have row: "capture_row (ts @ CHR '','' # ?p) = Some (ts, ?p)"
    by (rule capture_row_binary[OF assms(1,2)]) (use assms(11,13) in auto)
  have ok: "capture_frame (ts @ CHR '','' # ?p) =
      Some \<lparr>timestampMs = of_nat v, bytes = map of_char ?p, rawLine = []\<rparr>"
    using row assms(1,4,14) by (simp add: capture_frame_def parseBinary_def)
  have "getlines ((ts @ CHR '','' # ?p) @ LF # []) = [ts @ CHR '','' # ?p]"
    by (subst getlines_one) (use assms(3,5,6,12) in \<open>simp_all add: LF_def\<close>)
  then have keep: "capture_frames (ts @ CHR '','' # ?p @ [LF]) =
      [\<lparr>timestampMs = of_nat v, bytes = map of_char ?p, rawLine = []\<rparr>]"
    using ok by (simp add: capture_frames_def List.map_filter_simps)
  have rowa: "capture_row (ts @ CHR '','' # a) = Some (ts, a)"
    by (rule capture_row_binary[OF assms(1,2,9,10)])
  have la: "capture_frame (ts @ CHR '','' # a) = None"
    using rowa assms(4,7) by (simp add: capture_frame_def parseBinary_def)
  have lb: "capture_frame b = None"
  proof -
    have "find_from (CHR '','') b 0 = None" "find_from (CHR '','') (butlast b) 0 = None"
      using assms(8) in_set_butlastD[of "CHR '',''" b] by (auto intro!: find_from_None)
    then show ?thesis by (simp add: capture_frame_def capture_row_def Let_def)
  qed
  have "getlines ((ts @ CHR '','' # a) @ LF # b @ LF # []) = [ts @ CHR '','' # a, b]"
    by (subst getlines_one, use assms(3,5) in \<open>simp add: LF_def\<close>)
      (subst getlines_one, use assms(6) in simp_all)
  then have lose: "capture_frames (ts @ CHR '','' # (a @ [LF] @ b) @ [LF]) = []"
    using la lb by (simp add: capture_frames_def List.map_filter_simps)
  from keep lose show ?thesis by simp
qed

theorem binary_captures_keep_and_lose_witness:
  "capture_frames (''17'' @ CHR '','' # ([CHR 0x18, CHR 0x01, CHR 0xFF] @ [LF] @ replicate 6 (CHR 0x00)) @ [LF]) = []"
proof -
  have ts: "from_chars_dec64 ''17'' = Some 17"
    by (simp add: from_chars_dec64_def is_digit_def digit_val_def)
  have "\<not> looksLikeAsciiLine [CHR 0x18, CHR 0x01, CHR 0xFF]"
    "\<not> looksLikeAsciiLine ([CHR 0x18, CHR 0x01, CHR 0xFF] @ [CHR 0x02] @ replicate 6 (CHR 0x00))"
    by code_simp+
  then show ?thesis
    by (intro binary_captures_keep_and_lose[OF ts, where x = "CHR 0x02", THEN conjunct2])
      (simp_all add: LF_def CR_def numeral_eq_Suc)
qed

section \<open>The quiet window\<close>

text \<open>
  The deadline of the serial quiet window is compared without regard to the
  wrap of the 32-bit clock: at a time \<open>k\<close> milliseconds after the deadline that lies beyond the
  wrap, no frame reaches the console, although the window has been over for \<open>k\<close> milliseconds
  (almost fifty days, for a deadline shortly before the wrap).
\<close>

theorem quiet_deadline_wraps:
  assumes "initialized b" and "serialQuietUntilMs b = d" and "2 ^ 32 \<le> unat d + unat k"
  shows "\<forall>t. CanSerialPrint t \<notin> set (snd (processFrames b m (d + k) client queue))"
proof -
  have "unat (d + k) = unat d + unat k - 2 ^ 32"
    using assms(3) u32_lt[of d] u32_lt[of k]
    by (simp add: unat_word_ariths mod_if)
  then have "d + k < d" using assms(3) u32_lt[of k] by (simp add: word_less_nat_alt)
  then show ?thesis using assms(1,2) by (auto simp: processFrames_def frame_outputs_def Let_def)
qed

theorem quiet_deadline_wraps_witness:
  "\<forall>t. CanSerialPrint t \<notin> set (snd (processFrames
     \<lparr>monitorActive = False, initialized = True, serialQuietUntilMs = 0xFFFFFF00\<rparr> True
     (0xFFFFFF00 + 86400000) False [ex_frame]))"
  by (rule quiet_deadline_wraps) simp_all

end
