(* ===== verification/FW_Ota.thy ===== *)
theory FW_Ota
  imports Host_Frames
begin

text \<open>
  Over-the-air update, \<open>firmware/vanilla/OtaUpdateServer.{h,cpp}\<close>: the upload state machine, the
  verification of the written partition, the HTTP reply and the helpers. The flash updater, the
  partition table, the crypto library and the clock are outside the repository; what they
  answer during one call is an argument (\<open>ota_env\<close>), and the calls that change them are
  returned in order. The crypto library keeps its own state between calls, so its answers
  depend on all the chunks fed since \<open>init\<close>.
\<close>

section \<open>Constants, errors and messages\<close>

definition UPLOAD_TIMEOUT_MS :: u32 where "UPLOAD_TIMEOUT_MS = 300000"
definition VERIFY_CHUNK_SIZE :: u32 where "VERIFY_CHUNK_SIZE = 512"
definition REBOOT_FLUSH_COUNT :: nat where "REBOOT_FLUSH_COUNT = 10"
definition FLASH_MAX_SIZE :: nat where "FLASH_MAX_SIZE = 1024 * 1024"
definition CMD_FLASH :: int where "CMD_FLASH = 0"
definition HTTP_OK :: int where "HTTP_OK = 200"
definition HTTP_UNAUTHORIZED :: int where "HTTP_UNAUTHORIZED = 401"
definition HTTP_FORBIDDEN :: int where "HTTP_FORBIDDEN = 403"
definition HTTP_BAD_REQUEST :: int where "HTTP_BAD_REQUEST = 400"

datatype OtaError =
    OTA_NONE | SODIUM_NOT_READY | BAD_SIGNATURE_HEADER | NO_SIGNATURE | UPDATE_BEGIN_FAILED
  | UPDATE_WRITE_FAILED | UPDATE_END_FAILED | UPDATE_ERROR | NO_OTA_PARTITION
  | SIGNATURE_VERIFY_FAILED | SET_BOOT_PARTITION_FAILED | UPLOAD_ABORTED | UPLOAD_TIMEOUT

fun errorMessage :: "OtaError \<Rightarrow> string" where
  "errorMessage SODIUM_NOT_READY = ''sodium library not ready''"
| "errorMessage BAD_SIGNATURE_HEADER = ''invalid signature header format''"
| "errorMessage NO_SIGNATURE = ''missing signature header''"
| "errorMessage UPDATE_BEGIN_FAILED = ''failed to begin update''"
| "errorMessage UPDATE_WRITE_FAILED = ''firmware write failed''"
| "errorMessage UPDATE_END_FAILED = ''failed to end update''"
| "errorMessage UPDATE_ERROR = ''update error''"
| "errorMessage NO_OTA_PARTITION = ''no OTA partition available''"
| "errorMessage SIGNATURE_VERIFY_FAILED = ''signature verification failed''"
| "errorMessage SET_BOOT_PARTITION_FAILED = ''failed to set boot partition''"
| "errorMessage UPLOAD_ABORTED = ''upload aborted''"
| "errorMessage UPLOAD_TIMEOUT = ''upload timeout''"
| "errorMessage OTA_NONE = ''unknown error''"

fun httpCode :: "OtaError \<Rightarrow> int" where
  "httpCode OTA_NONE = HTTP_OK"
| "httpCode SIGNATURE_VERIFY_FAILED = HTTP_FORBIDDEN"
| "httpCode BAD_SIGNATURE_HEADER = HTTP_FORBIDDEN"
| "httpCode SODIUM_NOT_READY = HTTP_FORBIDDEN"
| "httpCode UPLOAD_TIMEOUT = HTTP_BAD_REQUEST"
| "httpCode NO_SIGNATURE = HTTP_UNAUTHORIZED"
| "httpCode _ = HTTP_BAD_REQUEST"

section \<open>The signature header\<close>

definition hexToByte :: "char \<Rightarrow> u8 option" where
  "hexToByte c = (if is_hex c then Some (of_nat (hex_val c)) else None)"

text \<open>The bytes written before the first bad digit, and whether there was none.\<close>

fun hex_pairs :: "string \<Rightarrow> u8 list \<times> bool" where
  "hex_pairs (a # b # s) =
     (case (hexToByte a, hexToByte b) of
        (Some hi, Some lo) \<Rightarrow>
          (let (bs, ok) = hex_pairs s in ((push_bit 4 hi OR lo) # bs, ok))
      | _ \<Rightarrow> ([], False))"
| "hex_pairs _ = ([], True)"

definition parseHexSig :: "string \<Rightarrow> u8 list \<Rightarrow> bool \<times> u8 list" where
  "parseHexSig hex out =
     (if length hex \<noteq> 128 then (False, out)
      else let (bs, ok) = hex_pairs hex in (ok, bs @ drop (length bs) out))"

section \<open>State and environment\<close>

record ota_server =
  sodiumReady :: bool
  uploadStartTime :: u32
  otaSig :: "u8 list"
  otaHasSig :: bool
  otaErr :: string

record ota_env =
  o_millis :: u32
  o_header :: string
  o_begin :: bool
  o_write :: nat
  o_end :: bool
  o_hasError :: bool
  o_target :: "nat option"
  o_partSize :: u32
  o_read :: "u32 \<Rightarrow> nat \<Rightarrow> u8 list option"
  o_edInit :: bool
  o_edUpdate :: "u8 list list \<Rightarrow> bool"
  o_edFinal :: "u8 list list \<Rightarrow> u8 list \<Rightarrow> bool"
  o_setBoot :: int

datatype upload_status = UPLOAD_FILE_START | UPLOAD_FILE_WRITE | UPLOAD_FILE_END | UPLOAD_FILE_ABORTED

record http_upload =
  up_status :: upload_status
  up_buf :: "u8 list"
  up_total :: u32

datatype ota_out =
    UpdBegin nat int
  | UpdWrite "u8 list"
  | UpdEnd
  | UpdAbort
  | SetBootPartition nat
  | ErrorCallback OtaError string
  | HttpSend int string
  | HttpNoDelay
  | HttpFlush
  | HttpStop
  | SuccessCallback

definition ota_new :: "u8 list \<Rightarrow> ota_server" where
  "ota_new sig = \<lparr>sodiumReady = False, uploadStartTime = 0, otaSig = sig, otaHasSig = False, otaErr = []\<rparr>"

definition ota_setup :: "int \<Rightarrow> ota_server \<Rightarrow> ota_server" where
  "ota_setup sodiumInit s = (if 0 \<le> sodiumInit then s\<lparr>sodiumReady := True\<rparr> else s)"

definition reportError :: "OtaError \<Rightarrow> ota_server \<Rightarrow> ota_server \<times> ota_out list" where
  "reportError err s = (s\<lparr>otaErr := errorMessage err\<rparr>, [ErrorCallback err (errorMessage err)])"

section \<open>Verification\<close>

lemma chunk_decreases:
  fixes off sz :: u32
  assumes "off < sz"
  shows "unat (sz - (off + (if sz - off < VERIFY_CHUNK_SIZE then sz - off else VERIFY_CHUNK_SIZE)))
    < unat (sz - off)"
proof -
  have le: "off \<le> sz" using assms by simp
  have pos: "0 < unat (sz - off)" using assms by (simp add: unat_sub[OF le] word_less_nat_alt)
  show ?thesis
  proof (cases "sz - off < VERIFY_CHUNK_SIZE")
    case True
    then show ?thesis using pos by simp
  next
    case False
    then have "VERIFY_CHUNK_SIZE \<le> sz - off" by simp
    then have "unat (sz - off - VERIFY_CHUNK_SIZE) = unat (sz - off) - unat VERIFY_CHUNK_SIZE"
      by (rule unat_sub)
    moreover have eq: "sz - (off + VERIFY_CHUNK_SIZE) = sz - off - VERIFY_CHUNK_SIZE" by simp
    moreover have "0 < unat VERIFY_CHUNK_SIZE" by (simp add: VERIFY_CHUNK_SIZE_def)
    ultimately show ?thesis using pos unfolding if_not_P[OF False] eq by linarith
  qed
qed

text \<open>The chunk loop: the chunks fed to the verifier, or \<open>None\<close> when a read or an update failed.\<close>

function verify_loop :: "ota_env \<Rightarrow> u32 \<Rightarrow> u32 \<Rightarrow> u8 list list \<Rightarrow> u8 list list option" where
  "verify_loop e sz off fed =
     (if off < sz then
        let n = (if sz - off < VERIFY_CHUNK_SIZE then sz - off else VERIFY_CHUNK_SIZE)
        in case o_read e off (unat n) of
             None \<Rightarrow> None
           | Some chunk \<Rightarrow>
               if \<not> o_edUpdate e (fed @ [chunk]) then None
               else verify_loop e sz (off + n) (fed @ [chunk])
      else Some fed)"
  by pat_completeness auto
termination
  by (relation "measure (\<lambda>(e, sz, off, fed). unat (sz - off))")
    (simp_all only: wf_measure in_measure prod.case chunk_decreases)

declare verify_loop.simps [simp del]

definition verifyPartition :: "ota_env \<Rightarrow> u32 \<Rightarrow> u8 list \<Rightarrow> bool" where
  "verifyPartition e sz sig =
     (if o_partSize e < sz then False
      else if \<not> o_edInit e then False
      else case verify_loop e sz 0 [] of
             None \<Rightarrow> False
           | Some fed \<Rightarrow> o_edFinal e fed sig)"

section \<open>The upload state machine\<close>

definition upload_start :: "ota_env \<Rightarrow> ota_server \<Rightarrow> ota_server \<times> ota_out list" where
  "upload_start e s0 =
     (let s = s0\<lparr>otaErr := [], otaHasSig := False, uploadStartTime := o_millis e\<rparr>
      in if \<not> sodiumReady s then reportError SODIUM_NOT_READY s
         else
           let (ok, sig) = parseHexSig (o_header e) (otaSig s);
               s1 = s\<lparr>otaSig := sig\<rparr>
           in if \<not> ok then reportError BAD_SIGNATURE_HEADER s1
              else
                let s2 = s1\<lparr>otaHasSig := True\<rparr>;
                    (s3, out) = (if \<not> o_begin e then reportError UPDATE_BEGIN_FAILED s2 else (s2, []))
                in (s3, UpdBegin FLASH_MAX_SIZE CMD_FLASH # out))"

definition upload_write :: "ota_env \<Rightarrow> u8 list \<Rightarrow> ota_server \<Rightarrow> ota_server \<times> ota_out list" where
  "upload_write e buf s =
     (if UPLOAD_TIMEOUT_MS < o_millis e - uploadStartTime s then
        let (s1, out) = reportError UPLOAD_TIMEOUT s in (s1, UpdAbort # out)
      else if o_write e \<noteq> length buf then
        let (s1, out) = reportError UPDATE_WRITE_FAILED s in (s1, UpdWrite buf # out)
      else (s, [UpdWrite buf]))"

definition upload_end :: "ota_env \<Rightarrow> u32 \<Rightarrow> ota_server \<Rightarrow> ota_server \<times> ota_out list" where
  "upload_end e tot s =
     (let (s1, out) =
        (if \<not> o_end e then reportError UPDATE_END_FAILED s
         else if o_hasError e then reportError UPDATE_ERROR s
         else case o_target e of
                None \<Rightarrow> reportError NO_OTA_PARTITION s
              | Some target \<Rightarrow>
                  if \<not> verifyPartition e tot (otaSig s) then
                    let (s1, out) = reportError SIGNATURE_VERIFY_FAILED s in (s1, UpdAbort # out)
                  else
                    let (s1, out) = (if o_setBoot e \<noteq> 0
                                     then reportError SET_BOOT_PARTITION_FAILED s else (s, []))
                    in (s1, SetBootPartition target # out))
      in (s1, UpdEnd # out))"

definition handleUpload :: "ota_env \<Rightarrow> http_upload \<Rightarrow> ota_server \<Rightarrow> ota_server \<times> ota_out list" where
  "handleUpload e u s =
     (if up_status u = UPLOAD_FILE_START then upload_start e s
      else if up_status u = UPLOAD_FILE_WRITE \<and> otaErr s = [] then upload_write e (up_buf u) s
      else if up_status u = UPLOAD_FILE_END \<and> otaErr s = [] then upload_end e (up_total u) s
      else if up_status u = UPLOAD_FILE_ABORTED then
        let (s1, out) = reportError UPLOAD_ABORTED s in (s1, UpdAbort # out)
      else (s, []))"

section \<open>The reply and the boot check\<close>

definition to_lower :: "char \<Rightarrow> char" where
  "to_lower c = (if 65 \<le> (of_char c :: nat) \<and> (of_char c :: nat) \<le> 90
                 then char_of ((of_char c :: nat) + 32) else c)"

definition classify_error :: "string \<Rightarrow> OtaError" where
  "classify_error msg =
     (let l = map to_lower msg
      in if contains ''signature'' l then SIGNATURE_VERIFY_FAILED
         else if contains ''sodium'' l then SODIUM_NOT_READY else UPDATE_ERROR)"

definition handlePost :: "bool \<Rightarrow> ota_server \<Rightarrow> ota_out list" where
  "handlePost hasError s =
     (if otaErr s \<noteq> [] then
        [HttpSend (httpCode (classify_error (otaErr s))) (''OTA error: '' @ otaErr s),
         ErrorCallback (classify_error (otaErr s)) (otaErr s)]
      else if hasError then
        [HttpSend HTTP_BAD_REQUEST ''OTA error: update failed'', ErrorCallback UPDATE_ERROR ''update failed'']
      else
        [HttpNoDelay, HttpSend HTTP_OK ''Update Success! Rebooting...'']
        @ replicate REBOOT_FLUSH_COUNT HttpFlush @ [HttpStop, SuccessCallback])"

text \<open>
  \<open>running\<close> is the running partition or a null pointer, \<open>st\<close> what \<open>getStatePartition\<close> returns
  (its status and the state it stores); the result says whether the image is marked valid.
\<close>

definition markValidOnBoot :: "nat option \<Rightarrow> int \<times> int \<Rightarrow> bool" where
  "markValidOnBoot running st = (running \<noteq> None \<and> fst st = 0 \<and> snd st = 1)"

end
