(* ===== verification/FW_Ota_Proofs.thy ===== *)
theory FW_Ota_Proofs
  imports FW_Ota
begin

text \<open>
  What the update server guarantees: a partition is selected for booting only after a complete
  upload whose signature header parsed and whose written image the verifier accepted; the
  verification covers exactly the image; and what the HTTP reply says.
\<close>

lemma reportError_err [simp]: "otaErr (fst (reportError err s)) \<noteq> []"
  by (cases err) (simp_all add: reportError_def)

lemma reportError_no_boot [simp]: "SetBootPartition p \<notin> set (snd (reportError err s))"
  by (simp add: reportError_def)

lemma reportError_fields [simp]:
  "otaSig (fst (reportError err s)) = otaSig s"
  "uploadStartTime (fst (reportError err s)) = uploadStartTime s"
  "sodiumReady (fst (reportError err s)) = sodiumReady s"
  by (simp_all add: reportError_def)

section \<open>Verification\<close>

text \<open>A partition whose bytes are \<open>img\<close> from its start.\<close>

definition reads_image :: "ota_env \<Rightarrow> u8 list \<Rightarrow> bool" where
  "reads_image e img \<longleftrightarrow> (\<forall>off n. unat off + n \<le> length img \<longrightarrow>
     o_read e off n = Some (take n (drop (unat off) img)))"

lemma verify_loop_image:
  assumes "reads_image e img" "\<And>fs. o_edUpdate e fs" "unat sz \<le> length img"
  shows "off \<le> sz \<Longrightarrow> concat fed = take (unat off) img \<Longrightarrow>
    \<exists>fs. verify_loop e sz off fed = Some fs \<and> concat fs = take (unat sz) img"
proof (induction "unat (sz - off)" arbitrary: off fed rule: less_induct)
  case less
  show ?case
  proof (cases "off < sz")
    case False
    then have "off = sz" using less.prems(1) by simp
    then show ?thesis using less.prems(2) by (subst verify_loop.simps) simp
  next
    case True
    let ?n = "if sz - off < VERIFY_CHUNK_SIZE then sz - off else VERIFY_CHUNK_SIZE"
    let ?chunk = "take (unat ?n) (drop (unat off) img)"
    have n: "unat ?n \<le> unat sz - unat off"
      using unat_sub[OF less.prems(1)] by (simp add: not_less word_le_nat_alt)
    have le: "unat off \<le> unat sz" using less.prems(1) by (simp add: word_le_nat_alt)
    have off: "unat (off + ?n) = unat off + unat ?n"
      using n le u32_lt[of sz] by (subst unat_word_ariths) (simp add: mod_less)
    have rd: "o_read e off (unat ?n) = Some ?chunk"
      using assms(1,3) n le unfolding reads_image_def by simp
    have step: "verify_loop e sz off fed = verify_loop e sz (off + ?n) (fed @ [?chunk])"
      using True rd assms(2) by (subst verify_loop.simps) (simp add: Let_def)
    have "\<exists>fs. verify_loop e sz (off + ?n) (fed @ [?chunk]) = Some fs \<and> concat fs = take (unat sz) img"
    proof (rule less.hyps[OF chunk_decreases[OF True]])
      show "off + ?n \<le> sz" using n le off by (simp add: word_le_nat_alt)
      show "concat (fed @ [?chunk]) = take (unat (off + ?n)) img"
        unfolding off using less.prems(2) by (simp add: take_add)
    qed
    then show ?thesis unfolding step .
  qed
qed

text \<open>
  The chunked verification is the verification of the image: when the
  partition reads back its bytes and the hash can be fed, the answer is that the declared size
  fits the partition and that the signature is good for the first bytes of the partition up to
  that size, whatever the size is relative to the chunk.
\<close>

theorem ota_verifies_exactly_the_image:
  assumes "reads_image e img" and "\<And>fs. o_edUpdate e fs" and "unat sz \<le> length img"
    and "o_edInit e" and "\<And>fs sg. o_edFinal e fs sg = good (concat fs) sg"
  shows "verifyPartition e sz sig = (sz \<le> o_partSize e \<and> good (take (unat sz) img) sig)"
proof -
  obtain fs where "verify_loop e sz 0 [] = Some fs" "concat fs = take (unat sz) img"
    using verify_loop_image[OF assms(1,2,3), of 0 "[]"] by auto
  then show ?thesis using assms(4,5) by (auto simp: verifyPartition_def not_less)
qed

section \<open>The upload\<close>

fun ota_run :: "ota_server \<Rightarrow> (ota_env \<times> http_upload) list \<Rightarrow> ota_server \<times> ota_out list" where
  "ota_run s [] = (s, [])"
| "ota_run s ((e, u) # es) =
     (let (s1, o1) = handleUpload e u s; (s2, o2) = ota_run s1 es in (s2, o1 @ o2))"

definition writes_ok :: "u32 \<Rightarrow> (ota_env \<times> http_upload) list \<Rightarrow> bool" where
  "writes_ok t0 ws \<longleftrightarrow> list_all (\<lambda>(e, u). o_millis e - t0 \<le> UPLOAD_TIMEOUT_MS \<and>
     o_write e = length (up_buf u)) ws"

lemma write_keeps:
  assumes "up_status u = UPLOAD_FILE_WRITE" "otaErr (fst (handleUpload e u s)) = []"
  shows "otaErr s = [] \<and> fst (handleUpload e u s) = s \<and>
    o_millis e - uploadStartTime s \<le> UPLOAD_TIMEOUT_MS \<and> o_write e = length (up_buf u)"
  using assms
  by (cases "otaErr s = []") (auto simp: handleUpload_def upload_write_def split_beta split: if_splits)

lemma writes_keep:
  "list_all (\<lambda>(e, u). up_status u = UPLOAD_FILE_WRITE) ws \<Longrightarrow> otaErr (fst (ota_run s ws)) = [] \<Longrightarrow>
   fst (ota_run s ws) = s \<and> otaErr s = [] \<and> writes_ok (uploadStartTime s) ws"
proof (induction ws arbitrary: s)
  case Nil
  then show ?case by (simp add: writes_ok_def)
next
  case (Cons x ws)
  obtain e u where x: "x = (e, u)" by (cases x)
  let ?s1 = "fst (handleUpload e u s)"
  have run: "fst (ota_run s (x # ws)) = fst (ota_run ?s1 ws)" by (simp add: x split_beta)
  have ih: "fst (ota_run ?s1 ws) = ?s1 \<and> otaErr ?s1 = [] \<and> writes_ok (uploadStartTime ?s1) ws"
    by (rule Cons.IH) (use Cons.prems run in simp_all)
  have "up_status u = UPLOAD_FILE_WRITE" using Cons.prems(1) by (simp add: x)
  from write_keeps[OF this conjunct1[OF conjunct2[OF ih]]] ih run show ?case
    by (simp add: writes_ok_def x)
qed

lemma start_keeps:
  assumes "up_status u = UPLOAD_FILE_START" "otaErr (fst (handleUpload e u s)) = []"
  shows "sodiumReady s \<and> o_begin e \<and> fst (parseHexSig (o_header e) (otaSig s)) \<and>
    otaSig (fst (handleUpload e u s)) = snd (parseHexSig (o_header e) (otaSig s)) \<and>
    uploadStartTime (fst (handleUpload e u s)) = o_millis e"
  using assms
  by (auto simp: handleUpload_def upload_start_def Let_def split_beta split: if_splits)

lemma end_boots:
  assumes "up_status u = UPLOAD_FILE_END" "SetBootPartition p \<in> set (snd (handleUpload e u s))"
  shows "otaErr s = [] \<and> o_end e \<and> \<not> o_hasError e \<and> o_target e = Some p \<and>
    verifyPartition e (up_total u) (otaSig s)"
  using assms
  by (auto simp: handleUpload_def upload_end_def split_beta split: if_splits option.splits)

lemma other_never_boots:
  "up_status u \<noteq> UPLOAD_FILE_END \<Longrightarrow> SetBootPartition p \<notin> set (snd (handleUpload e u s))"
  by (auto simp: handleUpload_def upload_start_def upload_write_def Let_def split_beta
      split: if_splits)

text \<open>
  C2. A partition is selected for booting only by the last event of an
  upload, and only if everything before it went well: the crypto library was ready, the
  signature header of this very upload parsed, the update began, every chunk arrived within
  the time limit and was written completely, the update ended without error, and the verifier
  accepted the written partition under the signature of that header.
\<close>

theorem ota_boots_only_verified_images:
  assumes "up_status us = UPLOAD_FILE_START"
    and "list_all (\<lambda>(e, u). up_status u = UPLOAD_FILE_WRITE) ws"
    and "SetBootPartition p \<in> set (snd (ota_run s ((e0, us) # ws @ [(e1, u1)])))"
  shows "up_status u1 = UPLOAD_FILE_END \<and> sodiumReady s \<and> o_begin e0 \<and>
    (\<exists>sig. parseHexSig (o_header e0) (otaSig s) = (True, sig) \<and>
       verifyPartition e1 (up_total u1) sig) \<and>
    writes_ok (o_millis e0) ws \<and> o_end e1 \<and> \<not> o_hasError e1 \<and> o_target e1 = Some p"
proof -
  let ?s0 = "fst (handleUpload e0 us s)"
  let ?s1 = "fst (ota_run ?s0 ws)"
  have append: "snd (ota_run t (xs @ ys)) = snd (ota_run t xs) @ snd (ota_run (fst (ota_run t xs)) ys)" for t xs ys
    by (induction xs arbitrary: t) (auto simp: split_beta)
  have quiet: "SetBootPartition p \<notin> set (snd (ota_run t ws))" for t
    using assms(2) by (induction ws arbitrary: t) (auto simp: split_beta other_never_boots)
  have st: "SetBootPartition p \<notin> set (snd (handleUpload e0 us s))"
    using assms(1) by (simp add: other_never_boots)
  have boot: "SetBootPartition p \<in> set (snd (handleUpload e1 u1 ?s1))"
    using assms(3) st quiet[of ?s0] by (simp add: split_beta append)
  have fin: "up_status u1 = UPLOAD_FILE_END" using boot other_never_boots by blast
  note fin_ok = end_boots[OF fin boot]
  have ok1: "otaErr ?s1 = []" using fin_ok by simp
  note ws = writes_keep[OF assms(2) ok1]
  note start = start_keeps[OF assms(1) conjunct1[OF conjunct2[OF ws]]]
  have "\<exists>sig. parseHexSig (o_header e0) (otaSig s) = (True, sig) \<and> verifyPartition e1 (up_total u1) sig"
    using start fin_ok ws by (intro exI[of _ "otaSig ?s0"]) (auto simp: prod_eq_iff)
  then show ?thesis using fin fin_ok ws start by simp
qed

section \<open>The reply\<close>

text \<open>
  The reply's status is the status of the error that was reported, for every error the server
  reports.
\<close>

lemma post_reports_the_error:
  assumes "err \<noteq> NO_SIGNATURE" "err \<noteq> OTA_NONE"
  shows "httpCode (classify_error (errorMessage err)) = httpCode err"
proof -
  have "list_all (\<lambda>e. httpCode (classify_error (errorMessage e)) = httpCode e)
    [SODIUM_NOT_READY, BAD_SIGNATURE_HEADER, UPDATE_BEGIN_FAILED, UPDATE_WRITE_FAILED,
     UPDATE_END_FAILED, UPDATE_ERROR, NO_OTA_PARTITION, SIGNATURE_VERIFY_FAILED,
     SET_BOOT_PARTITION_FAILED, UPLOAD_ABORTED, UPLOAD_TIMEOUT]" by code_simp
  then show ?thesis using assms by (cases err) simp_all
qed

text \<open>
  A POST to the update route that carries no file is answered as a
  successful update and runs the success callback, which restarts the device: the reply only
  looks for an error, not for an upload.
\<close>

theorem post_without_upload_reboots:
  "SuccessCallback \<in> set (handlePost False (ota_setup i (ota_new sig))) \<and>
   HttpSend HTTP_OK ''Update Success! Rebooting...'' \<in> set (handlePost False (ota_setup i (ota_new sig)))"
  by (simp add: handlePost_def ota_setup_def ota_new_def)

section \<open>Witnesses\<close>

definition ex_ota_env :: ota_env where
  "ex_ota_env = \<lparr>o_millis = 1000, o_header = replicate 128 (CHR ''a''), o_begin = True, o_write = 3,
     o_end = True, o_hasError = False, o_target = Some 1, o_partSize = 4096,
     o_read = (\<lambda>off n. Some (take n (drop (unat off) (replicate 600 7)))), o_edInit = True,
     o_edUpdate = (\<lambda>_. True), o_edFinal = (\<lambda>fs sg. length (concat fs) = 3), o_setBoot = 0\<rparr>"

theorem ota_verifies_exactly_the_image_witness:
  "verifyPartition ex_ota_env 600 [] =
     (600 \<le> o_partSize ex_ota_env \<and> length (take (unat (600 :: u32)) (replicate 600 (7 :: u8))) = 3)"
  by (rule ota_verifies_exactly_the_image[where good = "\<lambda>b sg. length b = 3"])
    (simp_all add: ex_ota_env_def reads_image_def)

definition ex_upload :: "upload_status \<Rightarrow> http_upload" where
  "ex_upload st = \<lparr>up_status = st, up_buf = [1, 2, 3], up_total = 3\<rparr>"

lemma ex_ota_verifies: "verifyPartition ex_ota_env 3 sig"
proof -
  have "verifyPartition ex_ota_env 3 sig =
      (3 \<le> o_partSize ex_ota_env \<and> length (take (unat (3 :: u32)) (replicate 600 (7 :: u8))) = 3)"
    by (subst verifyPartition_def, subst verify_loop.simps, subst verify_loop.simps)
      (simp add: ex_ota_env_def VERIFY_CHUNK_SIZE_def Let_def)
  then show ?thesis by (simp add: ex_ota_env_def)
qed

lemma ex_sig: "fst (parseHexSig (replicate 128 (CHR ''a'')) out)"
proof -
  have "snd (hex_pairs (replicate (2 * n) (CHR ''a'')))" for n
    by (induction n) (simp_all add: hexToByte_def is_hex_def split_beta)
  from this[of 64] show ?thesis by (simp add: parseHexSig_def split_beta)
qed

theorem ota_boots_only_verified_images_witness:
  "\<exists>sig. parseHexSig (o_header ex_ota_env) (otaSig (ota_setup 0 (ota_new (replicate 64 0)))) = (True, sig) \<and>
     verifyPartition ex_ota_env (up_total (ex_upload UPLOAD_FILE_END)) sig"
proof -
  let ?s = "ota_setup 0 (ota_new (replicate 64 0))"
  let ?run = "ota_run ?s ((ex_ota_env, ex_upload UPLOAD_FILE_START) #
      [(ex_ota_env, ex_upload UPLOAD_FILE_WRITE)] @ [(ex_ota_env, ex_upload UPLOAD_FILE_END)])"
  have h: "o_header ex_ota_env = replicate 128 (CHR ''a'')" by (simp only: ex_ota_env_def ota_env.simps)
  have sg: "fst (parseHexSig (o_header ex_ota_env) out)" for out unfolding h by (rule ex_sig)
  have v: "verifyPartition ex_ota_env 3 sig" for sig by (rule ex_ota_verifies)
  have e: "o_begin ex_ota_env" "o_write ex_ota_env = 3" "o_end ex_ota_env" "\<not> o_hasError ex_ota_env"
    "o_target ex_ota_env = Some 1" "o_setBoot ex_ota_env = 0"
    by (simp_all only: ex_ota_env_def ota_env.simps simp_thms)
  have boot: "SetBootPartition 1 \<in> set (snd ?run)"
    using sg v e
    by (simp add: handleUpload_def upload_start_def upload_write_def upload_end_def ex_upload_def
        ota_setup_def ota_new_def Let_def split_beta)
  have st: "up_status (ex_upload UPLOAD_FILE_START) = UPLOAD_FILE_START" by (simp add: ex_upload_def)
  have ws: "list_all (\<lambda>(e, u). up_status u = UPLOAD_FILE_WRITE) [(ex_ota_env, ex_upload UPLOAD_FILE_WRITE)]"
    by (simp add: ex_upload_def)
  from ota_boots_only_verified_images[OF st ws boot] show ?thesis by blast
qed

end
