(* ===== verification/Host_Dbc.thy ===== *)
theory Host_Dbc
  imports VS_Prelude
begin

text \<open>
  Decoding of CAN signals on the host: \<open>include/vehicle-sim/domain/DBCSignalDefinition.h\<close>,
  \<open>Gear.h\<close>, \<open>src/domain/DBCSignalMapper.cpp\<close> and \<open>src/domain/CANDecoder.cpp\<close>.

  \<open>std::size_t\<close> has 64 bits. Floating point is a parameter (\<open>fp_ops\<close>): the model says which
  operation is applied to what, and no statement about it depends on rounding. A shift by a
  count that C++ leaves undefined, and a read outside a vector, is an outer \<open>None\<close>; a returned
  \<open>std::nullopt\<close> is an inner \<open>None\<close>.
\<close>

section \<open>Definitions of signals\<close>

record 'd fp_ops =
  fp_of_int :: "int \<Rightarrow> 'd"
  fp_mul :: "'d \<Rightarrow> 'd \<Rightarrow> 'd"
  fp_add :: "'d \<Rightarrow> 'd \<Rightarrow> 'd"
  fp_sub :: "'d \<Rightarrow> 'd \<Rightarrow> 'd"
  fp_div :: "'d \<Rightarrow> 'd \<Rightarrow> 'd"
  fp_less :: "'d \<Rightarrow> 'd \<Rightarrow> bool"
  fp_eq :: "'d \<Rightarrow> 'd \<Rightarrow> bool"

datatype DBCByteOrder = Motorola | Intel

type_synonym value_entry = "int \<times> string"

record 'd dbc_signal =
  sg_canId :: u16
  sg_name :: string
  sg_startBit :: u64
  sg_bitLength :: u64
  sg_byteOrder :: DBCByteOrder
  sg_scale :: 'd
  sg_offset :: 'd
  sg_isSigned :: bool
  sg_unit :: string
  sg_min :: 'd
  sg_max :: 'd
  sg_valueTable :: "value_entry list"

text \<open>
  \<open>signalsByCanId\<close>: the entries of the unordered map in the order it is iterated in, which the
  language leaves open.
\<close>

type_synonym 'd dbc_db = "(u16 \<times> 'd dbc_signal list) list"

definition getSignalsForCanId :: "'d dbc_db \<Rightarrow> u16 \<Rightarrow> 'd dbc_signal list option" where
  "getSignalsForCanId db canId = map_of db canId"

definition totalSignalCount :: "'d dbc_db \<Rightarrow> nat" where
  "totalSignalCount db = sum_list (map (length \<circ> snd) db)"

section \<open>Gears\<close>

definition PARK :: int where "PARK = -2"
definition REVERSE :: int where "REVERSE = -1"
definition NEUTRAL :: int where "NEUTRAL = 0"
definition AUTO_BIT :: int where "AUTO_BIT = 0x1000"
definition AUTO_1 :: int where "AUTO_1 = AUTO_BIT OR 1"

definition gear_label :: "int \<Rightarrow> string option" where
  "gear_label g =
     (if g = PARK then Some ''P'' else if g = REVERSE then Some ''R''
      else if g = NEUTRAL then Some ''N'' else if g = 1 then Some ''1'' else if g = 2 then Some ''2''
      else if g = 3 then Some ''3'' else if g = 4 then Some ''4'' else if g = 5 then Some ''5''
      else if g = 6 then Some ''6'' else if g = AUTO_1 then Some ''D''
      else if g = (AUTO_BIT OR 2) then Some ''D2'' else if g = (AUTO_BIT OR 3) then Some ''D3''
      else if g = (AUTO_BIT OR 4) then Some ''D4'' else if g = (AUTO_BIT OR 5) then Some ''D5''
      else if g = (AUTO_BIT OR 6) then Some ''D6'' else None)"

definition labelOr :: "int \<Rightarrow> string \<Rightarrow> string" where
  "labelOr g fallback = (case gear_label g of Some l \<Rightarrow> l | None \<Rightarrow> fallback)"

section \<open>Raw bits\<close>

definition frame_bit :: "u8 list \<Rightarrow> u64 \<Rightarrow> bool" where
  "frame_bit frame p \<longleftrightarrow> unat (p div 8) < length frame \<and>
     bit (frame ! unat (p div 8)) (unat (p mod 8))"

definition or_bit :: "bool \<Rightarrow> nat \<Rightarrow> u64 \<Rightarrow> u64" where
  "or_bit b i r = (if b then r OR push_bit i 1 else r)"

definition intel_loop :: "u8 list \<Rightarrow> u64 \<Rightarrow> nat \<Rightarrow> u64" where
  "intel_loop frame start n =
     foldl (\<lambda>r i. or_bit (frame_bit frame (start + of_nat i)) i r) 0 [0 ..< n]"

definition next_dbc_bit :: "u64 \<Rightarrow> u64" where
  "next_dbc_bit p = (if p mod 8 = 0 then p + 15 else p - 1)"

fun motorola_loop :: "u8 list \<Rightarrow> nat \<Rightarrow> nat list \<Rightarrow> u64 \<Rightarrow> u64 \<Rightarrow> u64" where
  "motorola_loop frame n [] dbcBit r = r"
| "motorola_loop frame n (i # is) dbcBit r =
     motorola_loop frame n is (next_dbc_bit dbcBit)
       (or_bit (frame_bit frame dbcBit) (n - 1 - i) r)"

definition extractRawBits :: "u8 list \<Rightarrow> 'd dbc_signal \<Rightarrow> u64" where
  "extractRawBits frame sg =
     (if sg_bitLength sg = 0 \<or> 64 < sg_bitLength sg then 0
      else case sg_byteOrder sg of
             Intel \<Rightarrow> intel_loop frame (sg_startBit sg) (unat (sg_bitLength sg))
           | Motorola \<Rightarrow> motorola_loop frame (unat (sg_bitLength sg))
                          [0 ..< unat (sg_bitLength sg)] (sg_startBit sg) 0)"

section \<open>Signed and physical values\<close>

text \<open>\<open>None\<close> for the shift by more than 63 bits that a length of 0 leads to.\<close>

definition toSigned :: "u64 \<Rightarrow> u64 \<Rightarrow> int option" where
  "toSigned raw n =
     (if 64 \<le> n then Some (sint raw)
      else if n = 0 then None
      else if raw AND push_bit (unat (n - 1)) 1 \<noteq> 0
           then Some (sint (raw OR NOT (push_bit (unat n) 1 - 1)))
      else Some (sint raw))"

definition clamp :: "'d fp_ops \<Rightarrow> 'd \<Rightarrow> 'd \<Rightarrow> 'd \<Rightarrow> 'd" where
  "clamp d v lo hi = (if fp_less d v lo then lo else if fp_less d hi v then hi else v)"

definition applyScaleOffsetClamp :: "'d fp_ops \<Rightarrow> u64 \<Rightarrow> 'd dbc_signal \<Rightarrow> 'd option" where
  "applyScaleOffsetClamp d raw sg =
     (case (if sg_isSigned sg then toSigned raw (sg_bitLength sg) else Some (uint raw)) of
        None \<Rightarrow> None
      | Some n \<Rightarrow>
          Some (clamp d (fp_add d (fp_mul d (fp_of_int d n) (sg_scale sg)) (sg_offset sg))
                  (sg_min sg) (sg_max sg)))"

definition mapSignal :: "'d fp_ops \<Rightarrow> u8 list \<Rightarrow> 'd dbc_signal \<Rightarrow> 'd option option" where
  "mapSignal d frame sg =
     (let lastBit = sg_startBit sg + sg_bitLength sg - 1
      in if of_nat (length frame) * 8 \<le> lastBit then Some None
         else map_option Some (applyScaleOffsetClamp d (extractRawBits frame sg) sg))"

definition find_signal :: "'d dbc_signal list \<Rightarrow> string \<Rightarrow> 'd dbc_signal option" where
  "find_signal defs name = find (\<lambda>sg. sg_name sg = name) defs"

definition mapSignal_named ::
    "'d fp_ops \<Rightarrow> u8 list \<Rightarrow> u16 \<Rightarrow> string \<Rightarrow> 'd dbc_db \<Rightarrow> 'd option option" where
  "mapSignal_named d frame canId name db =
     (case map_of db canId of
        None \<Rightarrow> Some None
      | Some defs \<Rightarrow>
          (case find_signal defs name of
             None \<Rightarrow> Some None
           | Some sg \<Rightarrow> mapSignal d frame sg))"

fun mapValueTableToGear :: "int \<Rightarrow> value_entry list \<Rightarrow> int option" where
  "mapValueTableToGear raw [] = None"
| "mapValueTableToGear raw ((v, descr) # es) =
     (if v = raw then
        if descr = ''DI_GEAR_P'' then Some PARK
        else if descr = ''DI_GEAR_R'' then Some REVERSE
        else if descr = ''DI_GEAR_N'' then Some NEUTRAL
        else if descr = ''DI_GEAR_D'' then Some AUTO_1
        else mapValueTableToGear raw es
      else mapValueTableToGear raw es)"

definition mapGearSignal :: "u8 list \<Rightarrow> u16 \<Rightarrow> string \<Rightarrow> 'd dbc_db \<Rightarrow> int option" where
  "mapGearSignal frame canId name db =
     (case map_of db canId of
        None \<Rightarrow> None
      | Some defs \<Rightarrow>
          (case find_signal defs name of
             None \<Rightarrow> None
           | Some sg \<Rightarrow>
               let rawBits = extractRawBits frame sg;
                   rawValue = sint rawBits
               in if rawValue = 0 \<or> rawValue = 7 then None
                  else if sg_valueTable sg = [] then Some (sint (ucast rawBits :: 32 word))
                  else mapValueTableToGear rawValue (sg_valueTable sg)))"

section \<open>The stand-alone decoder\<close>

text \<open>\<open>CANDecoder\<close>: no byte order, no clamping, and no guard on the single reads.\<close>

fun can_bits :: "u8 list \<Rightarrow> u64 \<Rightarrow> nat list \<Rightarrow> u64 \<Rightarrow> u64 option" where
  "can_bits frame start [] r = Some r"
| "can_bits frame start (i # is) r =
     (let bitPos = start + of_nat i
      in if length frame \<le> unat (bitPos div 8) then None
         else can_bits frame start is
                (or_bit (bit (frame ! unat (bitPos div 8)) (unat (bitPos mod 8))) i r))"

definition extractSignal ::
    "'d fp_ops \<Rightarrow> u8 list \<Rightarrow> u64 \<Rightarrow> u64 \<Rightarrow> 'd \<Rightarrow> 'd \<Rightarrow> bool \<Rightarrow> 'd option option" where
  "extractSignal d frame startBit bitLength scale off isSigned =
     (if bitLength = 0 \<or> 64 < bitLength then Some None
      else if of_nat (length frame) * 8 \<le> startBit + bitLength - 1 then Some None
      else
        case can_bits frame startBit [0 ..< unat bitLength] 0 of
          None \<Rightarrow> None
        | Some raw \<Rightarrow>
            (case (if isSigned then toSigned raw bitLength else Some (uint raw)) of
               None \<Rightarrow> None
             | Some n \<Rightarrow> Some (Some (fp_add d (fp_mul d (fp_of_int d n) scale) off))))"

end
