(* ===== verification/Host_DbcParser.thy ===== *)
theory Host_DbcParser
  imports Host_Dbc Host_Frames
begin

text \<open>
  The text parser of signal databases, \<open>src/domain/DBCFileParser.cpp\<close>.

  The cursor \<open>pos\<close> into the line is kept as in the source. \<open>std::stod\<close> belongs to the language's
  library and yields a floating-point number, which is a parameter of the model: \<open>stod s\<close> is
  \<open>None\<close> where it throws. An exception leaves the parser through its outermost handler, so
  every function that may throw returns \<open>None\<close> for the exception, \<open>Some None\<close> for \<open>false\<close>.
  The order in which the hash table lists its keys is left open; here it is first insertion.
\<close>

section \<open>Lexing\<close>

definition dbc_trim :: "string \<Rightarrow> string" where "dbc_trim = trim_by ws4"

definition blank :: "char \<Rightarrow> bool" where "blank c \<longleftrightarrow> c = CHR '' '' \<or> c = TAB"

text \<open>\<open>while (pos < s.size() && p(s[pos])) ++pos\<close>.\<close>

definition skip_while :: "(char \<Rightarrow> bool) \<Rightarrow> string \<Rightarrow> nat \<Rightarrow> nat" where
  "skip_while p s pos = pos + length (takeWhile p (drop pos s))"

definition skipWs :: "string \<Rightarrow> nat \<Rightarrow> nat" where "skipWs = skip_while blank"

definition consumeChar :: "string \<Rightarrow> nat \<Rightarrow> char \<Rightarrow> nat option" where
  "consumeChar s pos expected =
     (if pos < length s \<and> s ! pos = expected then Some (pos + 1) else None)"

text \<open>
  \<open>std::from_chars\<close> in base 10: the longest run of digits at the front, a failure when there is
  none or the value does not fit. The signed one accepts a minus sign.
\<close>

definition dec_num :: "string \<Rightarrow> nat" where
  "dec_num s = foldl (\<lambda>a c. a * 10 + digit_val c) 0 s"

definition from_chars_dec :: "nat \<Rightarrow> string \<Rightarrow> nat option" where
  "from_chars_dec bits s =
     (let d = takeWhile is_digit s
      in if d = [] \<or> 2 ^ bits \<le> dec_num d then None else Some (dec_num d))"

definition from_chars_int64 :: "string \<Rightarrow> int option" where
  "from_chars_int64 s =
     (case s of
        [] \<Rightarrow> None
      | c # cs \<Rightarrow>
          if c = CHR ''-'' then
            (let d = takeWhile is_digit cs
             in if d = [] \<or> 2 ^ 63 < dec_num d then None else Some (- int (dec_num d)))
          else
            (let d = takeWhile is_digit s
             in if d = [] \<or> 2 ^ 63 \<le> dec_num d then None else Some (int (dec_num d))))"

section \<open>Signal lines\<close>

text \<open>\<open>ParsedSignal\<close> is the record of the definition itself; its fields start at zero.\<close>

definition empty_signal :: "'d \<Rightarrow> 'd dbc_signal" where
  "empty_signal z =
     \<lparr>sg_canId = 0, sg_name = [], sg_startBit = 0, sg_bitLength = 0, sg_byteOrder = Intel,
      sg_scale = z, sg_offset = z, sg_isSigned = False, sg_unit = [], sg_min = z, sg_max = z,
      sg_valueTable = []\<rparr>"

definition parseNameAndMultiplexor ::
    "string \<Rightarrow> nat \<Rightarrow> 'd dbc_signal \<Rightarrow> nat \<times> 'd dbc_signal" where
  "parseNameAndMultiplexor line pos sg =
     (let nameEnd = skip_while (\<lambda>c. c \<noteq> CHR '' '' \<and> c \<noteq> CHR '':'') line pos;
          sg1 = sg\<lparr>sg_name := substr line pos (nameEnd - pos)\<rparr>;
          p1 = skipWs line nameEnd
      in if p1 < length line \<and> (line ! p1 = CHR ''M'' \<or> line ! p1 = CHR ''m'') then
           let p2 = (if line ! p1 = CHR ''m'' then skip_while is_digit line (p1 + 1) else p1 + 1)
           in (skipWs line p2, sg1)
         else (p1, sg1))"

definition parseStartBitAndLength ::
    "string \<Rightarrow> nat \<Rightarrow> 'd dbc_signal \<Rightarrow> (nat \<times> 'd dbc_signal) option" where
  "parseStartBitAndLength line pos sg =
     (case consumeChar line pos (CHR '':'') of
        None \<Rightarrow> None
      | Some p0 \<Rightarrow>
          let p1 = skipWs line p0
          in case find_from (CHR ''|'') line p1 of
               None \<Rightarrow> None
             | Some pipePos \<Rightarrow>
                 (case from_chars_dec 64 (substr line p1 (pipePos - p1)) of
                    None \<Rightarrow> None
                  | Some startBit \<Rightarrow>
                      (case find_from (CHR ''@'') line (pipePos + 1) of
                         None \<Rightarrow> None
                       | Some atPos \<Rightarrow>
                           (case from_chars_dec 64
                                   (substr line (pipePos + 1) (atPos - (pipePos + 1))) of
                              None \<Rightarrow> None
                            | Some bitLength \<Rightarrow>
                                if length line \<le> atPos + 1 then None
                                else if length line \<le> atPos + 2 then None
                                else Some (atPos + 3,
                                  sg\<lparr>sg_startBit := of_nat startBit,
                                     sg_bitLength := of_nat bitLength,
                                     sg_byteOrder := (if line ! (atPos + 1) = CHR ''0''
                                                      then Motorola else Intel),
                                     sg_isSigned := (line ! (atPos + 2) = CHR ''-'')\<rparr>)))))"

text \<open>The two number pairs, \<open>(scale,offset)\<close> and \<open>[min|max]\<close>, share their shape.\<close>

definition parse_pair ::
    "(string \<Rightarrow> 'd option) \<Rightarrow> char \<Rightarrow> char \<Rightarrow> char \<Rightarrow> string \<Rightarrow> nat \<Rightarrow>
     ((nat \<times> 'd \<times> 'd) option) option" where
  "parse_pair stod open sep close line pos =
     (case consumeChar line (skipWs line pos) open of
        None \<Rightarrow> Some None
      | Some p1 \<Rightarrow>
          (case find_from sep line p1 of
             None \<Rightarrow> Some None
           | Some sepPos \<Rightarrow>
               (case stod (dbc_trim (substr line p1 (sepPos - p1))) of
                  None \<Rightarrow> None
                | Some a \<Rightarrow>
                    (case find_from close line (sepPos + 1) of
                       None \<Rightarrow> Some None
                     | Some closePos \<Rightarrow>
                         (case stod (dbc_trim (substr line (sepPos + 1) (closePos - (sepPos + 1)))) of
                            None \<Rightarrow> None
                          | Some b \<Rightarrow> Some (Some (closePos + 1, a, b)))))))"

definition parseScaleOffset ::
    "(string \<Rightarrow> 'd option) \<Rightarrow> string \<Rightarrow> nat \<Rightarrow> 'd dbc_signal \<Rightarrow>
     ((nat \<times> 'd dbc_signal) option) option" where
  "parseScaleOffset stod line pos sg =
     map_option (map_option (\<lambda>(p, a, b). (p, sg\<lparr>sg_scale := a, sg_offset := b\<rparr>)))
       (parse_pair stod (CHR ''('') (CHR '','') (CHR '')'') line pos)"

definition parseMinMax ::
    "(string \<Rightarrow> 'd option) \<Rightarrow> string \<Rightarrow> nat \<Rightarrow> 'd dbc_signal \<Rightarrow>
     ((nat \<times> 'd dbc_signal) option) option" where
  "parseMinMax stod line pos sg =
     map_option (map_option (\<lambda>(p, a, b). (p, sg\<lparr>sg_min := a, sg_max := b\<rparr>)))
       (parse_pair stod (CHR ''['') (CHR ''|'') (CHR '']'') line pos)"

definition parseUnit :: "string \<Rightarrow> nat \<Rightarrow> 'd dbc_signal \<Rightarrow> nat \<times> 'd dbc_signal" where
  "parseUnit line pos sg =
     (let p0 = skipWs line pos
      in case consumeChar line p0 (CHR 0x22) of
           None \<Rightarrow> (p0, sg)
         | Some p1 \<Rightarrow>
             (case find_from (CHR 0x22) line p1 of
                None \<Rightarrow> (p1, sg)
              | Some q \<Rightarrow> (q + 1, sg\<lparr>sg_unit := substr line p1 (q - p1)\<rparr>)))"

text \<open>\<open>line.find("SG_")\<close>.\<close>

fun find_sub :: "string \<Rightarrow> string \<Rightarrow> nat \<Rightarrow> nat option" where
  "find_sub p [] i = (if p = [] then Some i else None)"
| "find_sub p (c # s) i = (if starts_with p (c # s) then Some i else find_sub p s (i + 1))"

definition parseSignalDefinition ::
    "(string \<Rightarrow> 'd option) \<Rightarrow> 'd \<Rightarrow> string \<Rightarrow> u16 \<Rightarrow> ('d dbc_signal option) option" where
  "parseSignalDefinition stod z line currentCanId =
     (case find_sub ''SG_'' line 0 of
        None \<Rightarrow> Some None
      | Some i \<Rightarrow>
          let (p1, s1) = parseNameAndMultiplexor line (skipWs line (i + 3)) (empty_signal z)
          in case parseStartBitAndLength line p1 s1 of
               None \<Rightarrow> Some None
             | Some (p2, s2) \<Rightarrow>
                 (case parseScaleOffset stod line p2 s2 of
                    None \<Rightarrow> None
                  | Some None \<Rightarrow> Some None
                  | Some (Some (p3, s3)) \<Rightarrow>
                      (case parseMinMax stod line p3 s3 of
                         None \<Rightarrow> None
                       | Some None \<Rightarrow> Some None
                       | Some (Some (p4, s4)) \<Rightarrow>
                           let (p5, s5) = parseUnit line p4 s4
                           in Some (Some (s5\<lparr>sg_canId := currentCanId\<rparr>)))))"

section \<open>Value tables\<close>

definition parseOneValueEntry :: "string \<Rightarrow> nat \<Rightarrow> (value_entry \<times> nat) option" where
  "parseOneValueEntry rest pos =
     (let p0 = skip_while (\<lambda>c. blank c \<or> c = CHR '';'') rest pos
      in if length rest \<le> p0 then None
         else
           let p1 = skip_while (\<lambda>c. \<not> blank c) rest p0
           in if p1 = p0 then None
              else case from_chars_int64 (substr rest p0 (p1 - p0)) of
                     None \<Rightarrow> None
                   | Some numVal \<Rightarrow>
                       let p2 = skip_while blank rest p1
                       in if length rest \<le> p2 \<or> rest ! p2 \<noteq> CHR 0x22 then None
                          else case find_from (CHR 0x22) rest (p2 + 1) of
                                 None \<Rightarrow> None
                               | Some q \<Rightarrow> Some ((numVal, substr rest (p2 + 1) (q - (p2 + 1))), q + 1))"

lemma skip_while_ge: "pos \<le> skip_while p s pos"
  by (simp add: skip_while_def)

lemma value_entry_advances:
  "parseOneValueEntry rest pos = Some (e, p) \<Longrightarrow> pos < p \<and> p \<le> length rest"
  using skip_while_ge[of pos "\<lambda>c. blank c \<or> c = CHR '';''" rest]
    skip_while_ge[of "skip_while (\<lambda>c. blank c \<or> c = CHR '';'') rest pos" "\<lambda>c. \<not> blank c" rest]
    skip_while_ge[of "skip_while (\<lambda>c. \<not> blank c) rest
      (skip_while (\<lambda>c. blank c \<or> c = CHR '';'') rest pos)" blank rest]
  by (auto simp: parseOneValueEntry_def Let_def split: if_splits option.splits dest!: find_from_lt)

function value_entries_from :: "string \<Rightarrow> nat \<Rightarrow> value_entry list" where
  "value_entries_from rest pos =
     (if pos < length rest then
        (case parseOneValueEntry rest pos of
           None \<Rightarrow> []
         | Some (e, p) \<Rightarrow> e # value_entries_from rest p)
      else [])"
  by pat_completeness auto
termination
  by (relation "measure (\<lambda>(rest, pos). length rest - pos)") (auto dest: value_entry_advances)

declare value_entries_from.simps [simp del]

definition parseValueEntries :: "string \<Rightarrow> value_entry list" where
  "parseValueEntries rest = value_entries_from rest 0"

section \<open>Message lines and value lines\<close>

text \<open>The number and the cursor behind its token; \<open>None\<close> when the number is no 16-bit one.\<close>

definition parseTrailingUint16 :: "string \<Rightarrow> nat \<Rightarrow> u16 option \<times> nat" where
  "parseTrailingUint16 s pos =
     (let p0 = skip_while blank s pos;
          endOfId = skip_while (\<lambda>c. \<not> blank c) s p0
      in (map_option of_nat (from_chars_dec 16 (substr s p0 (endOfId - p0))), endOfId))"

definition parseBoLine :: "string \<Rightarrow> u16 option" where
  "parseBoLine trimmed =
     (case find_from (CHR '' '') trimmed 3 of
        None \<Rightarrow> None
      | Some pos \<Rightarrow> fst (parseTrailingUint16 trimmed (pos + 1)))"

type_synonym value_line = "u16 \<times> string \<times> value_entry list"

definition parseValLine :: "string \<Rightarrow> value_line option" where
  "parseValLine trimmed =
     (case find_from (CHR '' '') trimmed 4 of
        None \<Rightarrow> None
      | Some pos \<Rightarrow>
          let (canId, p1) = parseTrailingUint16 trimmed (pos + 1)
          in case canId of
               None \<Rightarrow> None
             | Some i \<Rightarrow>
                 let p2 = skip_while blank trimmed p1;
                     endOfName = skip_while (\<lambda>c. \<not> blank c) trimmed p2;
                     p3 = skip_while blank trimmed endOfName;
                     entries = parseValueEntries (drop p3 trimmed)
                 in if entries = [] then None
                    else Some (i, substr trimmed p2 (endOfName - p2), entries))"

section \<open>Assembling the result\<close>

text \<open>A value line goes to the first signal of that name in that message.\<close>

fun apply_value_line :: "value_line \<Rightarrow> 'd dbc_signal list \<Rightarrow> 'd dbc_signal list" where
  "apply_value_line (i, name, es) [] = []"
| "apply_value_line (i, name, es) (sg # sgs) =
     (if sg_canId sg = i \<and> sg_name sg = name then sg\<lparr>sg_valueTable := es\<rparr> # sgs
      else sg # apply_value_line (i, name, es) sgs)"

fun add_signal :: "'d dbc_signal \<Rightarrow> 'd dbc_db \<Rightarrow> 'd dbc_db" where
  "add_signal sg [] = [(sg_canId sg, [sg])]"
| "add_signal sg ((i, sgs) # db) =
     (if i = sg_canId sg then (i, sgs @ [sg]) # db else (i, sgs) # add_signal sg db)"

definition buildResult :: "'d dbc_signal list \<Rightarrow> value_line list \<Rightarrow> 'd dbc_db" where
  "buildResult sgs vts =
     foldl (\<lambda>db sg. add_signal sg db) [] (foldl (\<lambda>s v. apply_value_line v s) sgs vts)"

section \<open>The file\<close>

record 'd parse_state =
  ps_signals :: "'d dbc_signal list"
  ps_values :: "value_line list"
  ps_canId :: u16

text \<open>
  One line; \<open>None\<close> is the exception. The first branch of the source is taken only when a message
  line fails, which leaves everything as it was; a message line that succeeds falls through the
  other two tests, which it does not meet.
\<close>

definition parse_line ::
    "(string \<Rightarrow> 'd option) \<Rightarrow> 'd \<Rightarrow> string \<Rightarrow> 'd parse_state \<Rightarrow> 'd parse_state option" where
  "parse_line stod z line st =
     (let trimmed = dbc_trim line
      in if trimmed = [] then Some st
         else if starts_with ''BO_'' trimmed then
           (case parseBoLine trimmed of
              None \<Rightarrow> Some st
            | Some i \<Rightarrow> Some (st\<lparr>ps_canId := i\<rparr>))
         else if starts_with '' SG_'' trimmed \<or> starts_with ''SG_'' trimmed then
           (if ps_canId st = 0 then Some st
            else case parseSignalDefinition stod z trimmed (ps_canId st) of
                   None \<Rightarrow> None
                 | Some None \<Rightarrow> Some st
                 | Some (Some sg) \<Rightarrow> Some (st\<lparr>ps_signals := ps_signals st @ [sg]\<rparr>))
         else if starts_with ''VAL_'' trimmed then
           (case parseValLine trimmed of
              None \<Rightarrow> Some st
            | Some v \<Rightarrow> Some (st\<lparr>ps_values := ps_values st @ [v]\<rparr>))
         else Some st)"

fun parse_lines ::
    "(string \<Rightarrow> 'd option) \<Rightarrow> 'd \<Rightarrow> string list \<Rightarrow> 'd parse_state \<Rightarrow> 'd parse_state option" where
  "parse_lines stod z [] st = Some st"
| "parse_lines stod z (l # ls) st =
     (case parse_line stod z l st of
        None \<Rightarrow> None
      | Some st1 \<Rightarrow> parse_lines stod z ls st1)"

definition parse_start :: "'d parse_state" where
  "parse_start = \<lparr>ps_signals = [], ps_values = [], ps_canId = 0\<rparr>"

definition parseString :: "(string \<Rightarrow> 'd option) \<Rightarrow> 'd \<Rightarrow> string \<Rightarrow> 'd dbc_db" where
  "parseString stod z dbcContent =
     (case parse_lines stod z (getlines dbcContent) parse_start of
        None \<Rightarrow> []
      | Some st \<Rightarrow> buildResult (ps_signals st) (ps_values st))"

text \<open>The content of the file under a path, or \<open>None\<close> where it cannot be opened.\<close>

definition parseFile ::
    "(string \<Rightarrow> 'd option) \<Rightarrow> 'd \<Rightarrow> (string \<Rightarrow> string option) \<Rightarrow> (string \<Rightarrow> string) \<Rightarrow> string \<Rightarrow> 'd dbc_db" where
  "parseFile stod z files resolveResource path =
     (case files (resolveResource path) of
        None \<Rightarrow> []
      | Some content \<Rightarrow> parseString stod z content)"

definition canParse :: "(string \<Rightarrow> string option) \<Rightarrow> string \<Rightarrow> bool" where
  "canParse files path =
     (case files path of
        None \<Rightarrow> False
      | Some content \<Rightarrow>
          (case getlines content of [] \<Rightarrow> False | firstLine # _ \<Rightarrow> firstLine \<noteq> []))"

end
