(* ===== verification/Host_Translation.thy ===== *)
theory Host_Translation
  imports Host_DbcParser
begin

text \<open>
  From frames to vehicle signals: \<open>VehicleConfig.cpp\<close>, \<open>DefaultVehicleConfigs.cpp\<close>,
  \<open>VehicleSignalFactory.cpp\<close>, \<open>DBCSignalTranslator.cpp\<close>, \<open>OBD2SignalTranslator{,Base}.cpp\<close>,
  \<open>OBD2Math.h\<close> and \<open>DBCTranslationService.cpp\<close>, all under \<open>src/src/domain\<close> and its headers.

  The definitions a translator points to live in the service's parse result. Replacing that
  result destroys them, so a translator carries the generation it was built from, and using its
  pointers in another generation is the outer \<open>None\<close> (undefined). Locks are not modelled: every
  operation holds the mutex for its whole duration.
\<close>

section \<open>Vehicle configurations\<close>

record VehicleConfig =
  dbcFilePath :: string
  dbcBundleFileName :: string
  vehicleName :: string
  signalMappings :: "(string \<times> string) list"
  canBus :: string
  isCANProtocol :: bool

definition hasMapping :: "VehicleConfig \<Rightarrow> string \<Rightarrow> bool" where
  "hasMapping c signalName \<longleftrightarrow> map_of (signalMappings c) signalName \<noteq> None"

definition getFieldForSignal :: "VehicleConfig \<Rightarrow> string \<Rightarrow> string" where
  "getFieldForSignal c signalName =
     (case map_of (signalMappings c) signalName of Some f \<Rightarrow> f | None \<Rightarrow> [])"

type_synonym registry = "string \<Rightarrow> VehicleConfig option"

definition registerVehicle :: "string \<Rightarrow> VehicleConfig \<Rightarrow> registry \<Rightarrow> registry" where
  "registerVehicle vehicleId c r = r(vehicleId \<mapsto> c)"

definition getDbcBundleFileName :: "registry \<Rightarrow> string \<Rightarrow> string" where
  "getDbcBundleFileName r vehicleId =
     (case r vehicleId of Some c \<Rightarrow> dbcBundleFileName c | None \<Rightarrow> [])"

definition teslaModel3 :: VehicleConfig where
  "teslaModel3 = \<lparr>dbcFilePath = ''resources/dbc/Model3CAN.dbc'',
     dbcBundleFileName = ''Model3CAN.dbc'', vehicleName = ''Tesla Model 3'',
     signalMappings =
       [(''DI_accelPedalPos'', ''throttlePercent''),
        (''DI_torqueActual'', ''motorTorqueNm''),
        (''DI_vehicleSpeed'', ''speedKmh''),
        (''DI_gear'', ''gearSelector''),
        (''SCCM_steeringAngle'', ''steeringAngleDeg''),
        (''VCLEFT_brakeLightStatus'', ''brakeLight''),
        (''DIR_axleSpeed'', ''motorRpm''),
        (''RearHighVoltage126'', ''motorHvVoltage''),
        (''RearMotorCurrent126'', ''motorHvCurrent'')],
     canBus = [], isCANProtocol = True\<rparr>"

definition audiMLBEvo :: VehicleConfig where
  "audiMLBEvo = \<lparr>dbcFilePath = ''resources/dbc/vw_mlb.dbc'', dbcBundleFileName = ''vw_mlb.dbc'',
     vehicleName = ''Audi MLB Evo'',
     signalMappings =
       [(''ESP_v_Signal'', ''speedKmh''),
        (''ESP_Laengsbeschl'', ''accelerationG''),
        (''ESP_Bremsdruck'', ''brakePercent'')],
     canBus = [], isCANProtocol = True\<rparr>"

definition generic :: VehicleConfig where
  "generic = \<lparr>dbcFilePath = [], dbcBundleFileName = [], vehicleName = ''Generic OBD2'',
     signalMappings = [], canBus = [], isCANProtocol = False\<rparr>"

definition registerAll :: "registry \<Rightarrow> registry" where
  "registerAll r = registerVehicle ''audi_mlb_evo'' audiMLBEvo
     (registerVehicle ''tesla'' teslaModel3 (registerVehicle ''generic'' generic r))"

section \<open>The signal factory\<close>

definition IDX_GEAR :: nat where "IDX_GEAR = 9"

datatype DecodeKind = NumericField nat | GearField | BrakeLightField | IgnoredField

definition targetFor :: "string \<Rightarrow> DecodeKind" where
  "targetFor f =
     (if f = ''throttlePercent'' then NumericField 0
      else if f = ''speedKmh'' then NumericField 1
      else if f = ''accelerationG'' then NumericField 2
      else if f = ''brakePercent'' then NumericField 3
      else if f = ''steeringAngleDeg'' then NumericField 4
      else if f = ''motorRpm'' then NumericField 5
      else if f = ''motorHvVoltage'' then NumericField 6
      else if f = ''motorHvCurrent'' then NumericField 7
      else if f = ''motorTorqueNm'' then NumericField 8
      else if f = ''gearSelector'' then GearField
      else if f = ''brakeLight'' then BrakeLightField
      else IgnoredField)"

record 'd resolved_field =
  rf_kind :: DecodeKind
  rf_canId :: u16
  rf_def :: "'d dbc_signal option"

fun locateSignal :: "'d dbc_db \<Rightarrow> string \<Rightarrow> (u16 \<times> 'd dbc_signal) option" where
  "locateSignal [] name = None"
| "locateSignal ((canId, defs) # db) name =
     (case find_signal defs name of
        Some sg \<Rightarrow> Some (canId, sg)
      | None \<Rightarrow> locateSignal db name)"

definition resolve_one :: "'d dbc_db \<Rightarrow> string \<times> string \<Rightarrow> 'd resolved_field" where
  "resolve_one db mp =
     (case targetFor (snd mp) of
        IgnoredField \<Rightarrow> \<lparr>rf_kind = IgnoredField, rf_canId = 0, rf_def = None\<rparr>
      | kind \<Rightarrow>
          (case locateSignal db (fst mp) of
             None \<Rightarrow> \<lparr>rf_kind = IgnoredField, rf_canId = 0, rf_def = None\<rparr>
           | Some (canId, sg) \<Rightarrow> \<lparr>rf_kind = kind, rf_canId = canId, rf_def = Some sg\<rparr>))"

definition resolveMappings :: "VehicleConfig \<Rightarrow> 'd dbc_db \<Rightarrow> 'd resolved_field list" where
  "resolveMappings c db = map (resolve_one db) (signalMappings c)"

record 'd VehicleSignal =
  timestampUtcMs :: u64
  throttlePercent :: "'d option"
  speedKmh :: "'d option"
  accelerationG :: "'d option"
  brakePercent :: "'d option"
  brakeLight :: "bool option"
  steeringAngleDeg :: "'d option"
  motorRpm :: "'d option"
  motorHvVoltage :: "'d option"
  motorHvCurrent :: "'d option"
  motorTorqueNm :: "'d option"
  gearSelector :: "int option"

record 'd slots =
  sl_numeric :: "'d option list"
  sl_gear :: "int option"
  sl_brakeLight :: "bool option"

type_synonym frame_map = "u16 \<Rightarrow> u8 list option"

definition build_field ::
    "'d fp_ops \<Rightarrow> bool \<Rightarrow> 'd dbc_db \<Rightarrow> frame_map \<Rightarrow> 'd resolved_field \<Rightarrow> 'd slots \<Rightarrow> 'd slots option" where
  "build_field d alive db frames field sl =
     (case rf_def field of
        None \<Rightarrow> Some sl
      | Some sg \<Rightarrow>
          if rf_kind field = IgnoredField then Some sl
          else case frames (rf_canId field) of
                 None \<Rightarrow> Some sl
               | Some frame \<Rightarrow>
                   if \<not> alive then None
                   else
                     (case rf_kind field of
                        IgnoredField \<Rightarrow> Some sl
                      | GearField \<Rightarrow>
                          Some (case mapGearSignal frame (rf_canId field) (sg_name sg) db of
                                  None \<Rightarrow> sl
                                | Some g \<Rightarrow> sl\<lparr>sl_gear := Some g\<rparr>)
                      | BrakeLightField \<Rightarrow>
                          map_option (\<lambda>v. case v of
                              None \<Rightarrow> sl
                            | Some x \<Rightarrow> sl\<lparr>sl_brakeLight := Some (fp_eq d x (fp_of_int d 1))\<rparr>)
                            (mapSignal d frame sg)
                      | NumericField i \<Rightarrow>
                          map_option (\<lambda>v. case v of
                              None \<Rightarrow> sl
                            | Some x \<Rightarrow> sl\<lparr>sl_numeric := (sl_numeric sl)[i := Some x]\<rparr>)
                            (mapSignal d frame sg)))"

fun build_fields ::
    "'d fp_ops \<Rightarrow> bool \<Rightarrow> 'd dbc_db \<Rightarrow> frame_map \<Rightarrow> 'd resolved_field list \<Rightarrow> 'd slots \<Rightarrow> 'd slots option" where
  "build_fields d alive db frames [] sl = Some sl"
| "build_fields d alive db frames (f # fs) sl =
     (case build_field d alive db frames f sl of
        None \<Rightarrow> None
      | Some sl1 \<Rightarrow> build_fields d alive db frames fs sl1)"

definition signal_of :: "u64 \<Rightarrow> 'd slots \<Rightarrow> 'd VehicleSignal" where
  "signal_of ts sl =
     \<lparr>timestampUtcMs = ts, throttlePercent = sl_numeric sl ! 0, speedKmh = sl_numeric sl ! 1,
      accelerationG = sl_numeric sl ! 2, brakePercent = sl_numeric sl ! 3,
      brakeLight = sl_brakeLight sl, steeringAngleDeg = sl_numeric sl ! 4,
      motorRpm = sl_numeric sl ! 5, motorHvVoltage = sl_numeric sl ! 6,
      motorHvCurrent = sl_numeric sl ! 7, motorTorqueNm = sl_numeric sl ! 8,
      gearSelector = sl_gear sl\<rparr>"

definition build ::
    "'d fp_ops \<Rightarrow> bool \<Rightarrow> 'd dbc_db \<Rightarrow> 'd resolved_field list \<Rightarrow> frame_map \<Rightarrow> u64 \<Rightarrow> 'd VehicleSignal option" where
  "build d alive db resolved frames ts =
     map_option (signal_of ts)
       (build_fields d alive db frames resolved
          \<lparr>sl_numeric = replicate IDX_GEAR None, sl_gear = None, sl_brakeLight = None\<rparr>)"

section \<open>The translator\<close>

definition CAN_DATA_OFFSET :: nat where "CAN_DATA_OFFSET = 2"
definition CAN_FRAME_SIZE :: nat where "CAN_FRAME_SIZE = 10"

record 'd dbc_translator =
  tr_resolved :: "'d resolved_field list"
  accumulatedFrames :: frame_map

definition dbc_translator_new :: "VehicleConfig \<Rightarrow> 'd dbc_db \<Rightarrow> 'd dbc_translator" where
  "dbc_translator_new c db = \<lparr>tr_resolved = resolveMappings c db, accumulatedFrames = (\<lambda>_. None)\<rparr>"

definition extractCANId :: "u8 list \<Rightarrow> u16" where
  "extractCANId frame =
     (if length frame < 2 then 0 else ucast (frame ! 0) OR push_bit 8 (ucast (frame ! 1)))"

definition isValidPacket :: "u8 list \<Rightarrow> bool" where
  "isValidPacket rawData \<longleftrightarrow> CAN_FRAME_SIZE \<le> length rawData"

definition dbc_translate ::
    "'d fp_ops \<Rightarrow> bool \<Rightarrow> 'd dbc_db \<Rightarrow> u64 \<Rightarrow> u8 list \<Rightarrow> u64 option \<Rightarrow> 'd dbc_translator \<Rightarrow>
     'd VehicleSignal option option \<times> 'd dbc_translator" where
  "dbc_translate d alive db clock rawData timestamp tr =
     (if \<not> isValidPacket rawData then (Some None, tr)
      else
        let payload = take (CAN_FRAME_SIZE - CAN_DATA_OFFSET) (drop CAN_DATA_OFFSET rawData);
            frames = (accumulatedFrames tr)(extractCANId rawData \<mapsto> payload);
            ts = (case timestamp of Some t \<Rightarrow> t | None \<Rightarrow> clock)
        in (map_option Some (build d alive db (tr_resolved tr) frames ts),
            tr\<lparr>accumulatedFrames := frames\<rparr>))"

definition dbc_reset :: "'d dbc_translator \<Rightarrow> 'd dbc_translator" where
  "dbc_reset tr = tr\<lparr>accumulatedFrames := (\<lambda>_. None)\<rparr>"

definition getSupportedCANIds :: "'d dbc_db \<Rightarrow> u16 list" where
  "getSupportedCANIds db = map fst db"

section \<open>OBD-II responses\<close>

definition obd2BytePercent :: "'d fp_ops \<Rightarrow> u8 \<Rightarrow> 'd" where
  "obd2BytePercent d b =
     fp_mul d (fp_div d (fp_of_int d (uint b)) (fp_of_int d 255)) (fp_of_int d 100)"

definition obd2WordRPM :: "'d fp_ops \<Rightarrow> u8 \<Rightarrow> u8 \<Rightarrow> 'd" where
  "obd2WordRPM d msb lsb =
     fp_div d (fp_add d (fp_mul d (fp_of_int d (uint msb)) (fp_of_int d 256)) (fp_of_int d (uint lsb)))
       (fp_of_int d 4)"

definition obd2TempCelsius :: "'d fp_ops \<Rightarrow> u8 \<Rightarrow> 'd" where
  "obd2TempCelsius d b = fp_sub d (fp_of_int d (uint b)) (fp_of_int d 40)"

definition obd2RawValue :: "'d fp_ops \<Rightarrow> u8 \<Rightarrow> 'd" where
  "obd2RawValue d b = fp_of_int d (uint b)"

definition extractPIDValue :: "'d fp_ops \<Rightarrow> u8 \<Rightarrow> u8 list \<Rightarrow> 'd" where
  "extractPIDValue d pid data =
     (case data of
        [] \<Rightarrow> fp_of_int d 0
      | a # rest \<Rightarrow>
          if pid = 0x0D then obd2RawValue d a
          else if pid = 0x11 then obd2BytePercent d a
          else if pid = 0x04 then obd2BytePercent d a
          else if pid = 0x0C then
            (case rest of b # _ \<Rightarrow> obd2WordRPM d a b | [] \<Rightarrow> obd2RawValue d a)
          else if pid = 0x05 then obd2TempCelsius d a
          else if pid = 0x2F then obd2BytePercent d a
          else if pid = 0x5A then obd2BytePercent d a
          else obd2RawValue d a)"

record 'd obd2_translator =
  lastThrottle :: 'd
  lastSpeed :: 'd
  lastAcceleration :: 'd
  lastBrake :: 'd
  lastTimestamp :: u64

definition obd2_new :: "'d fp_ops \<Rightarrow> 'd obd2_translator" where
  "obd2_new d = \<lparr>lastThrottle = fp_of_int d 0, lastSpeed = fp_of_int d 0,
     lastAcceleration = fp_of_int d 0, lastBrake = fp_of_int d 0, lastTimestamp = 0\<rparr>"

definition obd2_valid :: "u8 list \<Rightarrow> bool" where
  "obd2_valid rawData \<longleftrightarrow> 3 \<le> length rawData \<and> \<not> (rawData ! 0 < 0x40 \<or> 0x4F < rawData ! 0)"

definition applyUpdateAndSnapshot ::
    "'d fp_ops \<Rightarrow> u8 \<Rightarrow> 'd \<Rightarrow> u64 \<Rightarrow> 'd obd2_translator \<Rightarrow> 'd VehicleSignal \<times> 'd obd2_translator" where
  "applyUpdateAndSnapshot d pid v ts o0 =
     (let o1 =
        (if pid = 0x11 \<or> pid = 0x5A \<or> pid = 0x5C then o0\<lparr>lastThrottle := v\<rparr>
         else if pid = 0x0D then o0\<lparr>lastSpeed := v\<rparr>
         else if pid = 0x04 then
           o0\<lparr>lastAcceleration :=
             fp_sub d (fp_mul d (fp_div d v (fp_of_int d 100)) (fp_of_int d 2)) (fp_of_int d 1)\<rparr>
         else if pid = 0xA4 then o0\<lparr>lastBrake := v\<rparr>
         else o0)\<lparr>lastTimestamp := ts\<rparr>
      in (\<lparr>timestampUtcMs = lastTimestamp o1, throttlePercent = Some (lastThrottle o1),
           speedKmh = Some (lastSpeed o1), accelerationG = Some (lastAcceleration o1),
           brakePercent = Some (lastBrake o1), brakeLight = None, steeringAngleDeg = None,
           motorRpm = None, motorHvVoltage = None, motorHvCurrent = None, motorTorqueNm = None,
           gearSelector = None\<rparr>, o1))"

definition obd2_translate ::
    "'d fp_ops \<Rightarrow> u64 \<Rightarrow> u8 list \<Rightarrow> u64 option \<Rightarrow> 'd obd2_translator \<Rightarrow>
     'd VehicleSignal option \<times> 'd obd2_translator" where
  "obd2_translate d clock rawData timestamp o0 =
     (if \<not> obd2_valid rawData then (None, o0)
      else
        let pid = rawData ! 1;
            v = extractPIDValue d pid (drop 2 rawData);
            (sg, o1) = applyUpdateAndSnapshot d pid v
                         (case timestamp of Some t \<Rightarrow> t | None \<Rightarrow> clock) o0
        in (Some sg, o1))"

end
