(* ===== verification/Host_Service.thy ===== *)
theory Host_Service
  imports Host_Translation
begin

text \<open>
  The translation service, \<open>src/src/domain/DBCTranslationService.cpp\<close>: which translator is
  installed for a vehicle, and what a failed load leaves behind.

  Files and the resolution of resource paths are outside the model (a map from paths to contents
  and a function). \<open>sv_gen\<close> counts the assignments to the parse result.
\<close>

datatype VehicleProtocol = CAN | OBD2 | Simulation

datatype load_stage = NoFailure | UnknownVehicle | OpenFailed | ZeroSignals

definition stageLabel :: "load_stage \<Rightarrow> string" where
  "stageLabel st =
     (case st of NoFailure \<Rightarrow> ''none'' | UnknownVehicle \<Rightarrow> ''unknown-vehicle''
      | OpenFailed \<Rightarrow> ''open'' | ZeroSignals \<Rightarrow> ''zero-signals'')"

record load_failure =
  lf_stage :: load_stage
  lf_vehicleId :: string
  lf_resourcePath :: string
  lf_resolvedPath :: string
  lf_candidatesTried :: "string list"

datatype 'd installed =
    NoTranslator
  | DbcTranslator nat "'d dbc_translator"
  | Obd2Translator "'d obd2_translator"

record 'd service =
  sv_registry :: registry
  sv_db :: "'d dbc_db"
  sv_gen :: nat
  sv_translator :: "'d installed"
  sv_protocol :: VehicleProtocol
  sv_vehicleId :: string
  sv_loaded :: bool
  sv_failure :: load_failure

definition no_failure :: load_failure where
  "no_failure = \<lparr>lf_stage = NoFailure, lf_vehicleId = [], lf_resourcePath = [],
     lf_resolvedPath = [], lf_candidatesTried = []\<rparr>"

definition service_new :: "registry \<Rightarrow> 'd service" where
  "service_new r = \<lparr>sv_registry = r, sv_db = [], sv_gen = 0, sv_translator = NoTranslator,
     sv_protocol = Simulation, sv_vehicleId = [], sv_loaded = False, sv_failure = no_failure\<rparr>"

definition resetFailure :: "string \<Rightarrow> 'd service \<Rightarrow> 'd service" where
  "resetFailure vehicleId s = s\<lparr>sv_failure := no_failure\<lparr>lf_vehicleId := vehicleId\<rparr>\<rparr>"

definition recordFailure ::
    "load_stage \<Rightarrow> string \<Rightarrow> string \<Rightarrow> string \<Rightarrow> string list \<Rightarrow> 'd service \<Rightarrow> 'd service" where
  "recordFailure stage vehicleId resource resolvedPath tried s =
     s\<lparr>sv_failure := \<lparr>lf_stage = stage, lf_vehicleId = vehicleId, lf_resourcePath = resource,
        lf_resolvedPath = resolvedPath, lf_candidatesTried = tried\<rparr>\<rparr>"

definition useCAN :: "VehicleProtocol \<Rightarrow> VehicleConfig option \<Rightarrow> bool" where
  "useCAN protocol config \<longleftrightarrow> protocol = CAN \<or>
     (case config of Some c \<Rightarrow> isCANProtocol c \<and> protocol \<noteq> OBD2 | None \<Rightarrow> False)"

text \<open>
  The part the three loaders share, word for word: \<open>parsed\<close> is the new parse result and \<open>fail\<close>
  records why it is empty.
\<close>

definition load_core ::
    "'d fp_ops \<Rightarrow> string \<Rightarrow> VehicleProtocol \<Rightarrow> (VehicleConfig \<Rightarrow> 'd dbc_db) \<Rightarrow>
     (VehicleConfig \<Rightarrow> 'd service \<Rightarrow> 'd service) \<Rightarrow> 'd service \<Rightarrow> bool \<times> 'd service" where
  "load_core d vehicleId protocol parsed fail s0 =
     (let config = sv_registry s0 vehicleId;
          s = resetFailure vehicleId s0;
          finish = (\<lambda>s. (True, s\<lparr>sv_loaded := True, sv_vehicleId := vehicleId\<rparr>))
      in if useCAN protocol config then
           (case config of
              None \<Rightarrow> (False, recordFailure UnknownVehicle vehicleId [] [] [] s)
            | Some c \<Rightarrow>
                let db = parsed c;
                    s1 = s\<lparr>sv_db := db, sv_gen := sv_gen s + 1\<rparr>
                in if db = [] then (False, fail c s1)
                   else finish (s1\<lparr>sv_translator :=
                          DbcTranslator (sv_gen s1) (dbc_translator_new c db), sv_protocol := CAN\<rparr>))
         else if protocol = OBD2 \<or> (case config of None \<Rightarrow> True | Some c \<Rightarrow> \<not> isCANProtocol c) then
           finish (s\<lparr>sv_translator := Obd2Translator (obd2_new d), sv_protocol := OBD2\<rparr>)
         else finish (s\<lparr>sv_translator := NoTranslator, sv_protocol := protocol\<rparr>))"

record 'd host_env =
  he_fp :: "'d fp_ops"
  he_stod :: "string \<Rightarrow> 'd option"
  he_files :: "string \<Rightarrow> string option"
  he_resolve :: "string \<Rightarrow> string"
  he_candidates :: "string \<Rightarrow> string list"

definition file_stage :: "'d host_env \<Rightarrow> string \<Rightarrow> load_stage" where
  "file_stage h path = (if he_files h path \<noteq> None then ZeroSignals else OpenFailed)"

definition loadVehicle ::
    "'d host_env \<Rightarrow> string \<Rightarrow> VehicleProtocol \<Rightarrow> 'd service \<Rightarrow> bool \<times> 'd service" where
  "loadVehicle h vehicleId protocol =
     load_core (he_fp h) vehicleId protocol
       (\<lambda>c. parseFile (he_stod h) (fp_of_int (he_fp h) 0) (he_files h) (he_resolve h)
              (he_resolve h (dbcFilePath c)))
       (\<lambda>c. let path = he_resolve h (dbcFilePath c)
            in recordFailure (file_stage h path) vehicleId (dbcFilePath c) path
                 (he_candidates h (dbcFilePath c)))"

definition loadVehicleWithContent ::
    "'d host_env \<Rightarrow> string \<Rightarrow> VehicleProtocol \<Rightarrow> string \<Rightarrow> 'd service \<Rightarrow> bool \<times> 'd service" where
  "loadVehicleWithContent h vehicleId protocol content =
     load_core (he_fp h) vehicleId protocol
       (\<lambda>c. parseString (he_stod h) (fp_of_int (he_fp h) 0) content)
       (\<lambda>c. recordFailure ZeroSignals vehicleId ''<inline DBC content>'' [] [])"

definition loadVehicleFromPath ::
    "'d host_env \<Rightarrow> string \<Rightarrow> VehicleProtocol \<Rightarrow> string \<Rightarrow> 'd service \<Rightarrow> bool \<times> 'd service" where
  "loadVehicleFromPath h vehicleId protocol dbcAbsolutePath =
     load_core (he_fp h) vehicleId protocol
       (\<lambda>c. parseFile (he_stod h) (fp_of_int (he_fp h) 0) (he_files h) (he_resolve h)
              (he_resolve h dbcAbsolutePath))
       (\<lambda>c. let path = he_resolve h dbcAbsolutePath
            in recordFailure (file_stage h path) vehicleId dbcAbsolutePath path
                 (he_candidates h dbcAbsolutePath))"

definition processFrame ::
    "'d host_env \<Rightarrow> u64 \<Rightarrow> u8 list \<Rightarrow> u64 option \<Rightarrow> 'd service \<Rightarrow>
     'd VehicleSignal option option \<times> 'd service" where
  "processFrame h clock rawData timestamp s =
     (if \<not> sv_loaded s then (Some None, s)
      else case sv_translator s of
             NoTranslator \<Rightarrow> (Some None, s)
           | DbcTranslator gen tr \<Rightarrow>
               let (r, tr1) = dbc_translate (he_fp h) (gen = sv_gen s) (sv_db s) clock rawData timestamp tr
               in (r, s\<lparr>sv_translator := DbcTranslator gen tr1\<rparr>)
           | Obd2Translator o0 \<Rightarrow>
               let (r, o1) = obd2_translate (he_fp h) clock rawData timestamp o0
               in (Some r, s\<lparr>sv_translator := Obd2Translator o1\<rparr>))"

end
