(* ===== verification/Dbc_Proofs.thy ===== *)
theory Dbc_Proofs
  imports Host_Dbc
begin

text \<open>
  Signal decoding against its specification: a frame is a number (its bytes least or most
  significant first), a signal is a field of bits of that number.
\<close>

section \<open>Frames as numbers\<close>

fun le_value :: "u8 list \<Rightarrow> nat" where
  "le_value [] = 0"
| "le_value (b # bs) = unat b + 256 * le_value bs"

definition be_value :: "u8 list \<Rightarrow> nat" where
  "be_value frame = le_value (rev frame)"

lemma bit_le_value:
  "bit (le_value bs) p \<longleftrightarrow> p div 8 < length bs \<and> bit (bs ! (p div 8)) (p mod 8)"
proof (induction bs arbitrary: p)
  case Nil
  then show ?case by simp
next
  case (Cons b bs)
  let ?x = "unat b + 256 * le_value bs"
  have lo: "take_bit 8 ?x = unat b" using u8_lt[of b] by (simp add: take_bit_eq_mod)
  have hi: "drop_bit 8 ?x = le_value bs" using u8_lt[of b] by (simp add: drop_bit_eq_div)
  show ?case
  proof (cases "p < 8")
    case True
    then have "bit ?x p \<longleftrightarrow> bit (take_bit 8 ?x) p" by (simp add: bit_take_bit_iff)
    also have "\<dots> \<longleftrightarrow> bit b p" unfolding lo by (simp add: bit_unsigned_iff)
    finally show ?thesis using True by simp
  next
    case False
    then obtain q where q: "p = 8 + q" by (metis le_add_diff_inverse not_less)
    have "bit ?x p \<longleftrightarrow> bit (drop_bit 8 ?x) q" by (simp add: q bit_drop_bit_eq add.commute)
    moreover have "p div 8 = Suc (q div 8)" "p mod 8 = q mod 8" by (simp_all add: q)
    ultimately show ?thesis by (simp add: hi Cons.IH)
  qed
qed

section \<open>The loops bit by bit\<close>

lemma bit_or_bit: "i < 64 \<Longrightarrow> bit (or_bit b i r) j \<longleftrightarrow> bit r j \<or> (b \<and> j = i)"
  by (auto simp: or_bit_def bit_simps)

lemma intel_loop_bit:
  "n \<le> 64 \<Longrightarrow> bit (intel_loop frame start n) j \<longleftrightarrow> j < n \<and> frame_bit frame (start + of_nat j)"
proof (induction n)
  case 0
  then show ?case by (simp add: intel_loop_def)
next
  case (Suc n)
  have "intel_loop frame start (Suc n) =
      or_bit (frame_bit frame (start + of_nat n)) n (intel_loop frame start n)"
    by (simp add: intel_loop_def)
  then show ?case using Suc by (auto simp: bit_or_bit less_Suc_eq)
qed

lemma motorola_loop_bit:
  "n \<le> 64 \<Longrightarrow> k \<le> n \<Longrightarrow>
   bit (motorola_loop frame n [k ..< n] p r) j \<longleftrightarrow>
     bit r j \<or> (j < n - k \<and> frame_bit frame ((next_dbc_bit ^^ (n - k - 1 - j)) p))"
proof (induction "n - k" arbitrary: k p r)
  case 0
  then show ?case by simp
next
  case (Suc m)
  then have kn: "k < n" and m: "m = n - Suc k" by auto
  have step: "motorola_loop frame n [k ..< n] p r =
      motorola_loop frame n [Suc k ..< n] (next_dbc_bit p) (or_bit (frame_bit frame p) (n - 1 - k) r)"
    using kn by (simp add: upt_conv_Cons)
  have ih: "bit (motorola_loop frame n [k ..< n] p r) j \<longleftrightarrow>
      bit (or_bit (frame_bit frame p) (n - 1 - k) r) j \<or>
      (j < n - Suc k \<and> frame_bit frame ((next_dbc_bit ^^ (n - Suc k - 1 - j)) (next_dbc_bit p)))"
    unfolding step by (rule Suc.hyps(1)[OF m Suc.prems(1)]) (use kn in simp)
  have pow: "j < n - Suc k \<Longrightarrow>
      (next_dbc_bit ^^ (n - Suc k - 1 - j)) (next_dbc_bit p) = (next_dbc_bit ^^ (n - k - 1 - j)) p"
  proof -
    assume "j < n - Suc k"
    then have "n - k - 1 - j = Suc (n - Suc k - 1 - j)" by simp
    then show ?thesis by (simp add: funpow_swap1)
  qed
  have last: "n - k - 1 - (n - 1 - k) = 0" by simp
  have or: "bit (or_bit (frame_bit frame p) (n - 1 - k) r) j \<longleftrightarrow>
      bit r j \<or> (frame_bit frame p \<and> j = n - 1 - k)"
    using Suc.prems(1) kn by (intro bit_or_bit) simp
  show ?case
  proof (cases "j = n - 1 - k")
    case True
    then show ?thesis unfolding ih or using kn by (simp add: True diff_less_mono2)
  next
    case False
    then have "j < n - k \<longleftrightarrow> j < n - Suc k" using kn by linarith
    then show ?thesis unfolding ih or using False pow by auto
  qed
qed

text \<open>
  The sawtooth walk in a numbering in which it is a straight line: position 0 is the most
  significant bit of the first byte.
\<close>

definition linear :: "nat \<Rightarrow> nat" where "linear p = 8 * (p div 8) + (7 - p mod 8)"

lemma linear_eq: "r < 8 \<Longrightarrow> linear (8 * q + r) = 8 * q + (7 - r)"
  by (simp add: linear_def)

lemma split8: obtains q r where "p = 8 * q + r" "r < (8 :: nat)"
  by (metis div_mult_mod_eq mod_less_divisor mult.commute zero_less_numeral)

lemma linear_linear [simp]: "linear (linear p) = p"
proof -
  obtain q r where p: "p = 8 * q + r" "r < 8" by (rule split8)
  then have "linear p = 8 * q + (7 - r)" by (simp add: linear_eq)
  also have "linear \<dots> = 8 * q + (7 - (7 - r))" by (intro linear_eq) simp
  finally show ?thesis using p by simp
qed

lemma next_dbc_bit_linear:
  assumes "unat p + 15 < 2 ^ 64"
  shows "unat (next_dbc_bit p) = linear (linear (unat p) + 1)"
proof -
  have m: "unat (p mod 8) = unat p mod 8" by (simp add: unat_mod_distrib)
  then have z: "p mod 8 = 0 \<longleftrightarrow> unat p mod 8 = 0" by (metis unat_eq_zero)
  obtain q r where p: "unat p = 8 * q + r" and r: "r < 8" by (rule split8)
  show ?thesis
  proof (cases "r = 0")
    case True
    have "unat (p + 15) = 8 * (q + 1) + 7" using assms p True by (subst unat_word_ariths) simp
    moreover have "linear (linear (unat p) + 1) = linear (8 * (q + 1) + 0)"
      using p True by (simp add: linear_def)
    moreover have "linear (8 * (q + 1) + 0) = 8 * (q + 1) + 7" by (subst linear_eq) simp_all
    ultimately show ?thesis using z p True by (simp add: next_dbc_bit_def)
  next
    case False
    then have "1 \<le> p" using p by (simp add: word_le_nat_alt)
    then have "unat (p - 1) = 8 * q + (r - 1)" using p False by (simp add: unat_sub)
    moreover have "linear (unat p) + 1 = 8 * q + (8 - r)" using p r by (simp add: linear_eq)
    moreover have "linear (8 * q + (8 - r)) = 8 * q + (r - 1)"
      using r False by (subst linear_eq) auto
    ultimately show ?thesis using z p r False by (simp add: next_dbc_bit_def)
  qed
qed

lemma linear_le: "linear x \<le> x + 7"
proof -
  obtain q r where "x = 8 * q + r" "r < 8" by (rule split8)
  then show ?thesis by (simp add: linear_eq)
qed

lemma walk_linear:
  assumes "linear (unat p) + k < 2 ^ 63"
  shows "unat ((next_dbc_bit ^^ k) p) = linear (linear (unat p) + k)"
  using assms
proof (induction k)
  case 0
  then show ?case by simp
next
  case (Suc k)
  then have ih: "unat ((next_dbc_bit ^^ k) p) = linear (linear (unat p) + k)" by simp
  have "linear (linear (unat p) + k) + 15 < 2 ^ 64"
    using linear_le[of "linear (unat p) + k"] Suc.prems by simp
  then have "unat (next_dbc_bit ((next_dbc_bit ^^ k) p)) =
      linear (linear (unat ((next_dbc_bit ^^ k) p)) + 1)"
    by (intro next_dbc_bit_linear) (simp only: ih)
  then show ?case using ih by (simp add: ac_simps)
qed

section \<open>Fields\<close>

text \<open>The field of \<open>n\<close> bits above bit \<open>s\<close> of a number, and its two's complement reading.\<close>

definition field :: "nat \<Rightarrow> nat \<Rightarrow> nat \<Rightarrow> nat" where
  "field v s n = (v div 2 ^ s) mod 2 ^ n"

definition signed_field :: "nat \<Rightarrow> nat \<Rightarrow> int" where
  "signed_field n x = (if x < 2 ^ (n - 1) then int x else int x - 2 ^ n)"

lemma field_eqI:
  fixes w :: u64
  assumes "\<And>j. bit w j \<longleftrightarrow> j < n \<and> bit v (s + j)"
  shows "unat w = field v s n"
proof -
  have "unat w = take_bit n (drop_bit s v)"
    by (rule bit_eqI)
      (auto simp: assms bit_unsigned_iff bit_take_bit_iff bit_drop_bit_eq
        dest: bit_imp_le_length[of w] intro: bit_imp_possible_bit)
  then show ?thesis by (simp add: field_def take_bit_eq_mod drop_bit_eq_div)
qed

lemma u64_div8: "unat ((p :: u64) div 8) = unat p div 8"
  by (simp add: unat_div_distrib)

lemma u64_mod8: "unat ((p :: u64) mod 8) = unat p mod 8"
  by (simp add: unat_mod_distrib)

lemma frame_bit_le: "frame_bit frame p \<longleftrightarrow> bit (le_value frame) (unat p)"
  by (simp add: frame_bit_def bit_le_value u64_div8 u64_mod8)

lemma intel_field:
  assumes "n \<le> 64" and "unat start + n \<le> 2 ^ 64"
  shows "unat (intel_loop frame start n) = field (le_value frame) (unat start) n"
proof (rule field_eqI)
  fix j
  have "j < n \<Longrightarrow> unat (start + of_nat j) = unat start + j"
    using assms by (subst unat_word_ariths) (simp add: unat_of_nat)
  then show "bit (intel_loop frame start n) j \<longleftrightarrow> j < n \<and> bit (le_value frame) (unat start + j)"
    by (auto simp: intel_loop_bit[OF assms(1)] frame_bit_le)
qed

lemma be_bit:
  assumes "x < 8 * length frame"
  shows "bit (be_value frame) (8 * length frame - 1 - x) \<longleftrightarrow> bit (frame ! (x div 8)) (7 - x mod 8)"
proof -
  obtain q r where x: "x = 8 * q + r" "r < 8" by (rule split8)
  have q: "q < length frame" using assms x by simp
  define t where "t = 7 - r"
  have t: "t < 8" "7 - r = t" by (simp_all add: t_def)
  have e: "8 * length frame - 1 - x = 8 * (length frame - 1 - q) + t"
    using q x by (simp add: t_def algebra_simps)
  have "(8 * length frame - 1 - x) div 8 = length frame - 1 - q"
    "(8 * length frame - 1 - x) mod 8 = t" unfolding e using t(1) by simp_all
  moreover have "x div 8 = q" "x mod 8 = r" using x by simp_all
  moreover have "length frame - Suc q < length frame" using q by linarith
  ultimately show ?thesis using q t by (simp add: be_value_def bit_le_value rev_nth)
qed

lemma motorola_field:
  assumes "n \<le> 64" and "linear (unat start) + n \<le> 8 * length frame" and "8 * length frame < 2 ^ 63"
  shows "unat (motorola_loop frame n [0 ..< n] start 0) =
    field (be_value frame) (8 * length frame - linear (unat start) - n) n"
proof (rule field_eqI)
  fix j
  let ?q = "linear (unat start)"
  have "j < n \<Longrightarrow> frame_bit frame ((next_dbc_bit ^^ (n - 1 - j)) start) \<longleftrightarrow>
      bit (be_value frame) (8 * length frame - ?q - n + j)"
  proof -
    assume j: "j < n"
    let ?x = "?q + (n - 1 - j)"
    have x: "?x < 8 * length frame" using assms(2) j by linarith
    obtain a b where ab: "?x = 8 * a + b" "b < 8" by (rule split8)
    have "unat ((next_dbc_bit ^^ (n - 1 - j)) start) = linear ?x"
      using x assms(3) by (intro walk_linear) linarith
    then have "unat ((next_dbc_bit ^^ (n - 1 - j)) start) = 8 * a + (7 - b)"
      by (simp only: ab(1) linear_eq[OF ab(2)])
    then have "frame_bit frame ((next_dbc_bit ^^ (n - 1 - j)) start) \<longleftrightarrow>
        a < length frame \<and> bit (frame ! a) (7 - b)"
      by (simp add: frame_bit_def u64_div8 u64_mod8)
    also have "\<dots> \<longleftrightarrow> bit (frame ! (?x div 8)) (7 - ?x mod 8)" using x ab by simp
    also have "\<dots> \<longleftrightarrow> bit (be_value frame) (8 * length frame - 1 - ?x)" using be_bit[OF x] by simp
    also have "8 * length frame - 1 - ?x = 8 * length frame - ?q - n + j"
      using assms(2) j by linarith
    finally show ?thesis .
  qed
  then show "bit (motorola_loop frame n [0 ..< n] start 0) j \<longleftrightarrow>
      j < n \<and> bit (be_value frame) (8 * length frame - ?q - n + j)"
    using motorola_loop_bit[OF assms(1), of 0 frame start 0 j] by auto
qed

lemma field_less: "field v s n < 2 ^ n"
  by (simp add: field_def)

lemma top_bit: "x < 2 ^ Suc m \<Longrightarrow> bit x m \<longleftrightarrow> 2 ^ m \<le> (x :: nat)"
proof -
  assume "x < 2 ^ Suc m"
  then have "x div 2 ^ m < 2" by (simp add: less_mult_imp_div_less)
  then have "odd (x div 2 ^ m) \<longleftrightarrow> 0 < x div 2 ^ m" by (cases "x div 2 ^ m") auto
  then show ?thesis by (simp add: bit_iff_odd div_greater_zero_iff)
qed

lemma sint_of_int64: "- (2 ^ 63) \<le> i \<Longrightarrow> i < 2 ^ 63 \<Longrightarrow> sint (word_of_int i :: u64) = i"
  by (simp add: signed_of_int signed_take_bit_int_eq_self)

lemma sint_small64: "unat (w :: u64) < 2 ^ 63 \<Longrightarrow> sint w = int (unat w)"
proof -
  assume a: "unat w < 2 ^ 63"
  then have "int (unat w) < int (2 ^ 63)" by (simp only: of_nat_less_iff)
  then have "int (unat w) < 2 ^ 63" by (simp only: of_nat_power of_nat_numeral)
  then have "sint (word_of_int (int (unat w)) :: u64) = int (unat w)"
    by (intro sint_of_int64) (rule order_trans[OF _ of_nat_0_le_iff], simp, assumption)
  then show ?thesis by simp
qed

lemma toSigned_field:
  assumes "0 < n" "n \<le> 64" "unat len = n" "unat (raw :: u64) < 2 ^ n"
  shows "toSigned raw len = Some (signed_field n (unat raw))"
proof -
  obtain m where m: "n = Suc m" using assms(1) by (cases n) auto
  have len0: "len \<noteq> 0" using assms(1,3) by auto
  have dec: "unat (len - 1) = m"
    using assms(3) m len0 by (simp add: unat_sub word_le_nat_alt)
  have test: "raw AND push_bit (unat (len - 1)) 1 \<noteq> 0 \<longleftrightarrow> 2 ^ m \<le> unat raw"
  proof -
    have "raw AND push_bit m 1 \<noteq> 0 \<longleftrightarrow> bit raw m"
      by (simp add: push_bit_of_1 and_exp_eq_0_iff_not_bit)
    also have "\<dots> \<longleftrightarrow> bit (unat raw) m" using assms(2) m by (simp add: bit_unsigned_iff)
    also have "\<dots> \<longleftrightarrow> 2 ^ m \<le> unat raw" using assms(4) m by (intro top_bit) simp
    finally show ?thesis unfolding dec .
  qed
  have long: "64 \<le> len \<longleftrightarrow> n = 64" using assms(2,3) by (simp add: word_le_nat_alt)
  have small: "unat raw < 2 ^ m \<Longrightarrow> sint raw = int (unat raw)"
  proof (rule sint_small64)
    assume "unat raw < 2 ^ m"
    also have "(2 :: nat) ^ m \<le> 2 ^ 63" using assms(2) m by (intro power_increasing) simp_all
    finally show "unat raw < 2 ^ 63" .
  qed
  have bigv: "2 ^ m \<le> unat raw \<Longrightarrow> n < 64 \<Longrightarrow>
      sint (raw OR NOT (push_bit n 1 - 1)) = int (unat raw) - 2 ^ n"
  proof -
    assume big: "2 ^ m \<le> unat raw" and n: "n < 64"
    have low: "bit raw k \<Longrightarrow> k < n" for k
    proof -
      assume b: "bit raw k"
      then have "bit (unat raw) k" by (simp add: bit_unsigned_iff bit_imp_possible_bit)
      then have "bit (take_bit n (unat raw)) k" using assms(4) by (simp add: take_bit_nat_eq_self)
      then show "k < n" by (simp add: bit_take_bit_iff)
    qed
    have disj: "raw AND NOT (mask n) = 0"
      by (rule bit_eqI) (auto simp: bit_simps dest: low)
    have "raw OR NOT (push_bit n 1 - 1) = raw OR NOT (mask n)"
      by (simp add: mask_eq_exp_minus_1 push_bit_eq_mult)
    also have "\<dots> = raw + NOT (mask n)" by (rule disjunctive_add_eq_or[symmetric]) (rule disj)
    also have "\<dots> = raw - 2 ^ n" by (simp add: not_eq_complement mask_eq_exp_minus_1)
    also have "\<dots> = word_of_int (int (unat raw) - 2 ^ n)" by simp
    finally have e: "raw OR NOT (push_bit n 1 - 1) = word_of_int (int (unat raw) - 2 ^ n)" .
    have "int (unat raw) < 2 ^ n" using assms(4) by (metis of_nat_less_iff of_nat_numeral of_nat_power)
    moreover have "(2 :: int) ^ n \<le> 2 ^ 63" using n by (intro power_increasing) simp_all
    ultimately show ?thesis unfolding e by (intro sint_of_int64) linarith+
  qed
  show ?thesis
  proof (cases "n = 64")
    case True
    have "sint raw = signed_field 64 (unat raw)"
    proof (cases "unat raw < 2 ^ 63")
      case True
      then show ?thesis using sint_small64[OF True] by (simp add: signed_field_def)
    next
      case False
      have "int (unat raw) < int (2 ^ n)" using assms(4) by (simp only: of_nat_less_iff)
      then have lt: "int (unat raw) < 2 ^ 64" by (simp only: of_nat_power of_nat_numeral \<open>n = 64\<close>)
      have "int (2 ^ 63) \<le> int (unat raw)" using False by (simp only: of_nat_le_iff not_less)
      then have ge: "2 ^ 63 \<le> int (unat raw)" by (simp only: of_nat_power of_nat_numeral)
      have "(word_of_int (int (unat raw) - 2 ^ 64) :: u64) = raw" by simp
      moreover have "sint (word_of_int (int (unat raw) - 2 ^ 64) :: u64) = int (unat raw) - 2 ^ 64"
        by (rule sint_of_int64) (use lt ge in simp_all)
      ultimately have "sint raw = int (unat raw) - 2 ^ 64" by (simp only:)
      then show ?thesis using False by (simp add: signed_field_def)
    qed
    then show ?thesis using long True by (simp add: toSigned_def)
  next
    case False
    then have "n < 64" using assms(2) by simp
    then show ?thesis
      using long test small bigv len0 m assms(3) False by (auto simp: toSigned_def signed_field_def)
  qed
qed

section \<open>What a signal reads\<close>

definition physical :: "'d fp_ops \<Rightarrow> 'd dbc_signal \<Rightarrow> nat \<Rightarrow> 'd" where
  "physical d sg x =
     clamp d (fp_add d (fp_mul d (fp_of_int d
         (if sg_isSigned sg then signed_field (unat (sg_bitLength sg)) x else int x))
       (sg_scale sg)) (sg_offset sg)) (sg_min sg) (sg_max sg)"

lemma physical_of_raw:
  assumes "0 < unat (sg_bitLength sg)" "unat (sg_bitLength sg) \<le> 64"
    "unat raw < 2 ^ unat (sg_bitLength sg)"
  shows "applyScaleOffsetClamp d raw sg = Some (physical d sg (unat raw))"
  using toSigned_field[OF assms(1,2) refl assms(3)]
  by (simp add: applyScaleOffsetClamp_def physical_def)

lemma in_range:
  assumes "0 < unat n" "unat start + unat n \<le> 8 * length frame" "length frame < 2 ^ 60"
  shows "\<not> of_nat (length frame) * 8 \<le> start + n - (1 :: u64)"
    "unat start + unat n \<le> 2 ^ 64"
proof -
  have "unat (start + n) = unat start + unat n"
    using assms by (subst unat_word_ariths) simp
  moreover have "1 \<le> start + n" using calculation assms(1) by (simp add: word_le_nat_alt)
  ultimately have a: "unat (start + n - 1) = unat start + unat n - 1" by (simp add: unat_sub)
  have "unat (of_nat (length frame) * 8 :: u64) = 8 * length frame"
    using assms(3) by (simp add: unat_word_ariths unat_of_nat take_bit_nat_eq_self mult.commute)
  then show "\<not> of_nat (length frame) * 8 \<le> start + n - (1 :: u64)"
    using a assms(1,2) by (simp add: word_le_nat_alt)
  show "unat start + unat n \<le> 2 ^ 64" using assms(2,3) by simp
qed

lemma raw_intel:
  assumes "sg_byteOrder sg = Intel" "0 < unat (sg_bitLength sg)" "unat (sg_bitLength sg) \<le> 64"
    "unat (sg_startBit sg) + unat (sg_bitLength sg) \<le> 2 ^ 64"
  shows "unat (extractRawBits frame sg) =
    field (le_value frame) (unat (sg_startBit sg)) (unat (sg_bitLength sg))"
proof -
  have "\<not> (sg_bitLength sg = 0 \<or> 64 < sg_bitLength sg)"
    using assms(2,3) by (auto simp: word_less_nat_alt)
  then show ?thesis using assms by (simp add: extractRawBits_def intel_field)
qed

lemma raw_motorola:
  assumes "sg_byteOrder sg = Motorola" "0 < unat (sg_bitLength sg)" "unat (sg_bitLength sg) \<le> 64"
    "linear (unat (sg_startBit sg)) + unat (sg_bitLength sg) \<le> 8 * length frame"
    "length frame < 2 ^ 60"
  shows "unat (extractRawBits frame sg) = field (be_value frame)
    (8 * length frame - linear (unat (sg_startBit sg)) - unat (sg_bitLength sg))
    (unat (sg_bitLength sg))"
proof -
  have "\<not> (sg_bitLength sg = 0 \<or> 64 < sg_bitLength sg)"
    using assms(2,3) by (auto simp: word_less_nat_alt)
  then show ?thesis using assms by (simp add: extractRawBits_def motorola_field)
qed

text \<open>
  C12. A little-endian signal that lies in the frame reads the field of
  \<open>bitLength\<close> bits above bit \<open>startBit\<close> of the frame taken as a number, its least significant
  byte first; the value is that field, in two's complement when the signal is signed, scaled,
  offset and clamped.
\<close>

theorem intel_signals_read_their_field:
  assumes "sg_byteOrder sg = Intel" and "0 < unat (sg_bitLength sg)" and "unat (sg_bitLength sg) \<le> 64"
    and "unat (sg_startBit sg) + unat (sg_bitLength sg) \<le> 8 * length frame"
    and "length frame < 2 ^ 60"
  shows "mapSignal d frame sg = Some (Some (physical d sg
    (field (le_value frame) (unat (sg_startBit sg)) (unat (sg_bitLength sg)))))"
proof -
  note r = in_range[OF assms(2,4,5)]
  have raw: "unat (extractRawBits frame sg) =
      field (le_value frame) (unat (sg_startBit sg)) (unat (sg_bitLength sg))"
    by (rule raw_intel) (use assms r in simp_all)
  then have "applyScaleOffsetClamp d (extractRawBits frame sg) sg =
      Some (physical d sg (unat (extractRawBits frame sg)))"
    by (intro physical_of_raw assms) (simp add: field_less)
  then show ?thesis using r(1) raw by (simp add: mapSignal_def)
qed

text \<open>
  A big-endian signal that lies in the frame and that the range
  check lets through reads the field of the frame taken as a number, its most significant byte
  first, that starts at the bit the definition calls \<open>startBit\<close> and goes downwards.
\<close>

theorem motorola_signals_read_their_field:
  assumes "sg_byteOrder sg = Motorola" and "0 < unat (sg_bitLength sg)" and "unat (sg_bitLength sg) \<le> 64"
    and "linear (unat (sg_startBit sg)) + unat (sg_bitLength sg) \<le> 8 * length frame"
    and "unat (sg_startBit sg) + unat (sg_bitLength sg) \<le> 8 * length frame"
    and "length frame < 2 ^ 60"
  shows "mapSignal d frame sg = Some (Some (physical d sg (field (be_value frame)
    (8 * length frame - linear (unat (sg_startBit sg)) - unat (sg_bitLength sg))
    (unat (sg_bitLength sg)))))"
proof -
  note r = in_range[OF assms(2,5,6)]
  note raw = raw_motorola[OF assms(1,2,3,4,6)]
  then have "applyScaleOffsetClamp d (extractRawBits frame sg) sg =
      Some (physical d sg (unat (extractRawBits frame sg)))"
    by (intro physical_of_raw assms) (simp add: field_less)
  then show ?thesis using r(1) raw by (simp add: mapSignal_def)
qed

text \<open>
  The range check adds the length to the start bit for both
  byte orders, but a big-endian signal runs downwards from its start bit: a signal that starts
  at the top of the last byte lies in the frame and its bits are extracted correctly, yet the
  mapper reports no value for it.
\<close>

theorem motorola_signal_in_last_byte_is_lost:
  assumes "sg_byteOrder sg = Motorola" and "frame \<noteq> []" and "length frame < 2 ^ 60"
    and "unat (sg_startBit sg) = 8 * length frame - 1"
    and "1 < unat (sg_bitLength sg)" and "unat (sg_bitLength sg) \<le> 8"
  shows "mapSignal d frame sg = Some None \<and>
    unat (extractRawBits frame sg) =
      field (unat (last frame)) (8 - unat (sg_bitLength sg)) (unat (sg_bitLength sg))"
proof
  let ?n = "unat (sg_bitLength sg)" and ?L = "length frame"
  have L: "0 < ?L" using assms(2) by simp
  have sum: "unat (sg_startBit sg + sg_bitLength sg) = 8 * ?L - 1 + ?n"
    using assms(3,4,6) by (subst unat_word_ariths) simp
  have "1 \<le> sg_startBit sg + sg_bitLength sg" using sum assms(5) by (simp add: word_le_nat_alt)
  then have "unat (sg_startBit sg + sg_bitLength sg - 1) = 8 * ?L - 1 + ?n - 1"
    using sum by (simp add: unat_sub)
  moreover have "unat (of_nat ?L * 8 :: u64) = 8 * ?L"
    using assms(3) by (simp add: unat_word_ariths unat_of_nat take_bit_nat_eq_self mult.commute)
  ultimately show "mapSignal d frame sg = Some None"
    using assms(5) L by (simp add: mapSignal_def word_le_nat_alt)
  have lin: "linear (8 * ?L - 1) = 8 * (?L - 1)"
  proof -
    have "8 * ?L - 1 = 8 * (?L - 1) + 7" using L by linarith
    also have "linear \<dots> = 8 * (?L - 1) + (7 - 7)" by (rule linear_eq) simp
    finally show ?thesis by simp
  qed
  have sub: "8 * ?L - 8 * (?L - 1) - ?n = 8 - ?n" using L by arith
  have fits: "8 * (?L - 1) + ?n \<le> 8 * ?L" using L assms(6) by arith
  have "unat (extractRawBits frame sg) = field (be_value frame) (8 - ?n) ?n"
    using raw_motorola[OF assms(1), of frame] assms(3,4,5,6) lin sub fits by simp
  also have "be_value frame = unat (last frame) + 256 * le_value (tl (rev frame))"
    using assms(2) by (cases frame rule: rev_cases) (simp_all add: be_value_def)
  also have "field (unat (last frame) + 256 * le_value (tl (rev frame))) (8 - ?n) ?n =
      field (unat (last frame)) (8 - ?n) ?n"
  proof -
    let ?a = "unat (last frame)" and ?v = "le_value (tl (rev frame))"
    have "(256 :: nat) = 2 ^ (8 - ?n) * 2 ^ ?n" using assms(6) by (simp flip: power_add)
    then have e: "?a + 256 * ?v = ?a + 2 ^ (8 - ?n) * (2 ^ ?n * ?v)" by (simp only: mult.assoc)
    have "(?a + 2 ^ (8 - ?n) * (2 ^ ?n * ?v)) div 2 ^ (8 - ?n) =
        2 ^ ?n * ?v + ?a div 2 ^ (8 - ?n)" by (rule div_mult_self2) simp
    then show ?thesis unfolding field_def e by (simp only: mod_mult_self4)
  qed
  finally show "unat (extractRawBits frame sg) = field (unat (last frame)) (8 - ?n) ?n" .
qed

section \<open>The two decoders\<close>

lemma can_bits_ok:
  assumes "\<forall>i \<in> set is. unat start + i < 8 * length frame" "8 * length frame < 2 ^ 63"
  shows "can_bits frame start is r =
    Some (foldl (\<lambda>r i. or_bit (frame_bit frame (start + of_nat i)) i r) r is)"
  using assms
proof (induction "is" arbitrary: r)
  case Nil
  then show ?case by simp
next
  case (Cons i "is")
  have "unat (start + of_nat i) = unat start + i"
    using Cons.prems by (subst unat_word_ariths) (simp add: unat_of_nat take_bit_nat_eq_self)
  moreover have "(unat start + i) div 8 < length frame" using Cons.prems(1) by auto
  ultimately show ?case using Cons by (simp add: frame_bit_def u64_div8)
qed

text \<open>
  On a little-endian signal in the frame the stand-alone decoder and the
  mapper read the same value, the mapper's clamped to the declared range.
\<close>

theorem the_two_decoders_agree:
  assumes "sg_byteOrder sg = Intel" and "0 < unat (sg_bitLength sg)" and "unat (sg_bitLength sg) \<le> 64"
    and "unat (sg_startBit sg) + unat (sg_bitLength sg) \<le> 8 * length frame"
    and "length frame < 2 ^ 60"
  shows "\<exists>x. extractSignal d frame (sg_startBit sg) (sg_bitLength sg) (sg_scale sg) (sg_offset sg)
      (sg_isSigned sg) = Some (Some x) \<and>
    mapSignal d frame sg = Some (Some (clamp d x (sg_min sg) (sg_max sg)))"
proof -
  note r = in_range[OF assms(2,4,5)]
  let ?raw = "extractRawBits frame sg"
  have len: "\<not> (sg_bitLength sg = 0 \<or> 64 < sg_bitLength sg)"
    using assms(2,3) by (auto simp: word_less_nat_alt)
  have bits: "can_bits frame (sg_startBit sg) [0 ..< unat (sg_bitLength sg)] 0 = Some ?raw"
    using len assms(1,4,5)
    by (subst can_bits_ok) (auto simp: extractRawBits_def intel_loop_def)
  have "unat ?raw < 2 ^ unat (sg_bitLength sg)"
    using raw_intel[OF assms(1,2,3) r(2), of frame] by (simp add: field_less)
  then have "toSigned ?raw (sg_bitLength sg) \<noteq> None"
    using toSigned_field[OF assms(2,3) refl] by simp
  then show ?thesis
    using r(1) len bits
    by (auto simp: extractSignal_def mapSignal_def applyScaleOffsetClamp_def)
qed

section \<open>Witnesses\<close>

definition ex_fp :: "int fp_ops" where
  "ex_fp = \<lparr>fp_of_int = id, fp_mul = (*), fp_add = (+), fp_sub = (-), fp_div = (div), fp_less = (<), fp_eq = (=)\<rparr>"

definition ex_signal :: "DBCByteOrder \<Rightarrow> u64 \<Rightarrow> u64 \<Rightarrow> bool \<Rightarrow> int dbc_signal" where
  "ex_signal order start n sgnd =
     \<lparr>sg_canId = 264, sg_name = ''s'', sg_startBit = start, sg_bitLength = n, sg_byteOrder = order,
      sg_scale = 2, sg_offset = 1, sg_isSigned = sgnd, sg_unit = [], sg_min = -100, sg_max = 100,
      sg_valueTable = []\<rparr>"

definition ex_can_data :: "u8 list" where
  "ex_can_data = [0x12, 0x34, 0x56, 0x78, 0x9A, 0xBC, 0xDE, 0xF0]"

theorem intel_signals_read_their_field_witness:
  "mapSignal ex_fp ex_can_data (ex_signal Intel 4 5 True) = Some (Some 3)"
proof -
  have "physical ex_fp (ex_signal Intel 4 5 True)
     (field (le_value ex_can_data) (unat (sg_startBit (ex_signal Intel 4 5 True)))
       (unat (sg_bitLength (ex_signal Intel 4 5 True)))) = 3"
    by (simp add: physical_def ex_fp_def ex_signal_def ex_can_data_def field_def signed_field_def clamp_def)
  then show ?thesis
    by (subst intel_signals_read_their_field) (simp_all add: ex_signal_def ex_can_data_def)
qed

theorem motorola_signals_read_their_field_witness:
  "mapSignal ex_fp ex_can_data (ex_signal Motorola 3 6 True) = Some (Some 17)"
proof -
  have "physical ex_fp (ex_signal Motorola 3 6 True)
     (field (be_value ex_can_data)
       (8 * length ex_can_data - linear (unat (sg_startBit (ex_signal Motorola 3 6 True)))
         - unat (sg_bitLength (ex_signal Motorola 3 6 True)))
       (unat (sg_bitLength (ex_signal Motorola 3 6 True)))) = 17"
    by (simp add: physical_def ex_fp_def ex_signal_def ex_can_data_def field_def signed_field_def
        clamp_def linear_def be_value_def)
  then show ?thesis
    by (subst motorola_signals_read_their_field)
      (simp_all add: ex_signal_def ex_can_data_def linear_def)
qed

theorem motorola_signal_in_last_byte_is_lost_witness:
  "mapSignal ex_fp ex_can_data (ex_signal Motorola 63 8 False) = Some None \<and>
   unat (extractRawBits ex_can_data (ex_signal Motorola 63 8 False)) =
     field (unat (last ex_can_data)) (8 - unat (sg_bitLength (ex_signal Motorola 63 8 False)))
       (unat (sg_bitLength (ex_signal Motorola 63 8 False)))"
  by (rule motorola_signal_in_last_byte_is_lost) (simp_all add: ex_signal_def ex_can_data_def)

theorem the_two_decoders_agree_witness:
  "\<exists>x. extractSignal ex_fp ex_can_data (sg_startBit (ex_signal Intel 4 5 True))
      (sg_bitLength (ex_signal Intel 4 5 True)) (sg_scale (ex_signal Intel 4 5 True))
      (sg_offset (ex_signal Intel 4 5 True)) (sg_isSigned (ex_signal Intel 4 5 True)) = Some (Some x) \<and>
    mapSignal ex_fp ex_can_data (ex_signal Intel 4 5 True) =
      Some (Some (clamp ex_fp x (sg_min (ex_signal Intel 4 5 True)) (sg_max (ex_signal Intel 4 5 True))))"
  by (rule the_two_decoders_agree) (simp_all add: ex_signal_def ex_can_data_def)

end
