(* ===== verification/DbcParser_Proofs.thy ===== *)
theory DbcParser_Proofs
  imports Host_DbcParser Dbc_Proofs
begin

text \<open>
  The database parser against the text format: the lines a database is written as are read back
  to it, and what lines that are not understood do to the lines around them.
\<close>

section \<open>Cursors\<close>

lemma skip_while_append:
  "pos = length a \<Longrightarrow> skip_while p (a @ s) pos = length a + length (takeWhile p s)"
  by (simp add: skip_while_def)

lemma skip_none:
  "pos = length a \<Longrightarrow> s = [] \<or> \<not> p (hd s) \<Longrightarrow> skip_while p (a @ s) pos = length a"
  by (cases s) (auto simp: skip_while_def)

lemma skip_run:
  assumes "list_all p u" "s = [] \<or> \<not> p (hd s)" "pos = length a"
  shows "skip_while p (a @ u @ s) pos = length a + length u"
proof -
  have "takeWhile p (u @ s) = u"
    using assms(1,2) by (cases s) (auto simp: takeWhile_append list_all_iff)
  then show ?thesis using assms(3) by (simp add: skip_while_append)
qed

lemma consume_here: "pos = length a \<Longrightarrow> consumeChar (a @ c # s) pos c = Some (length a + 1)"
  by (simp add: consumeChar_def)

lemma substr_here: "pos = length a \<Longrightarrow> n = length u \<Longrightarrow> substr (a @ u @ s) pos n = u"
  by (simp add: substr_def)

lemma drop_prefix: "drop (length p) (p @ s) = s"
  by simp

lemma find_here: "c \<notin> set u \<Longrightarrow> pos = length a \<Longrightarrow> find_from c (a @ u @ c # s) pos = Some (length a + length u)"
  by (rule find_from_append)

section \<open>Decimal numbers\<close>

lemma dec_digit: "d < 10 \<Longrightarrow> is_digit (digit_char d) \<and> digit_val (digit_char d) = d"
proof -
  have "list_all (\<lambda>d. is_digit (digit_char d) \<and> digit_val (digit_char d) = d) [0 ..< 10]"
    by code_simp
  then show "d < 10 \<Longrightarrow> is_digit (digit_char d) \<and> digit_val (digit_char d) = d"
    by (simp add: list_all_iff)
qed

lemma dec_num_snoc [simp]: "dec_num (s @ [c]) = dec_num s * 10 + digit_val c"
  by (simp add: dec_num_def)

lemma dec_str_read: "list_all is_digit (dec_str n) \<and> dec_num (dec_str n) = n"
proof (induction n rule: less_induct)
  case (less n)
  show ?case
  proof (cases "n < 10")
    case True
    then show ?thesis using dec_digit[OF True] by (simp add: dec_str_def digits_in_small dec_num_def)
  next
    case False
    then have "dec_str n = dec_str (n div 10) @ [digit_char (n mod 10)]"
      by (simp add: dec_str_def digits_in.simps[of 10 n])
    then show ?thesis using less[of "n div 10"] False dec_digit[of "n mod 10"] by simp
  qed
qed

lemma dec_str_ne [simp]: "dec_str n \<noteq> []"
  by (simp add: dec_str_def)

lemma dec_str_take: "takeWhile is_digit (dec_str n) = dec_str n"
  using dec_str_read[of n] by (simp add: takeWhile_eq_all_conv list_all_iff)

lemma from_chars_dec_str: "n < 2 ^ k \<Longrightarrow> from_chars_dec k (dec_str n) = Some n"
  using dec_str_read[of n] by (simp add: from_chars_dec_def dec_str_take Let_def)

lemma from_chars_dec_big: "2 ^ k \<le> n \<Longrightarrow> from_chars_dec k (dec_str n) = None"
  using dec_str_read[of n] by (simp add: from_chars_dec_def dec_str_take Let_def)

lemma not_in_dec: "\<not> is_digit c \<Longrightarrow> c \<notin> set (dec_str n)"
  using dec_str_read[of n] by (auto simp: list_all_iff)

lemma u64_lt: "unat (w :: u64) < 2 ^ 64"
  using unsigned_less[of w] by simp

section \<open>Signal lines\<close>

text \<open>
  A way to write numbers that the library's reader inverts, without the punctuation the parser
  cuts at.
\<close>

definition number_chars :: "('d \<Rightarrow> string) \<Rightarrow> bool" where
  "number_chars num \<longleftrightarrow>
     (\<forall>x. \<forall>c \<in> set (num x). \<not> ws4 c \<and> c \<notin> {CHR '','', CHR '')'', CHR ''|'', CHR '']''})"

definition number_text :: "('d \<Rightarrow> string) \<Rightarrow> (string \<Rightarrow> 'd option) \<Rightarrow> bool" where
  "number_text num stod \<longleftrightarrow> number_chars num \<and> (\<forall>x. stod (num x) = Some x)"

definition name_ok :: "string \<Rightarrow> bool" where
  "name_ok s \<longleftrightarrow> s \<noteq> [] \<and> (\<forall>c \<in> set s. \<not> ws4 c \<and> c \<noteq> CHR '':'')"

definition unit_ok :: "string \<Rightarrow> bool" where
  "unit_ok s \<longleftrightarrow> CHR 0x22 \<notin> set s \<and> LF \<notin> set s"

lemma pair_parse:
  assumes "sep \<notin> set u" "close \<notin> set v" "pos = length a" "list_all (\<lambda>c. \<not> ws4 c) u"
    "list_all (\<lambda>c. \<not> ws4 c) v" "\<not> blank open"
  shows "parse_pair stod open sep close (a @ CHR '' '' # open # u @ sep # v @ close # s) pos =
    (case stod u of None \<Rightarrow> None | Some x \<Rightarrow>
      (case stod v of None \<Rightarrow> None | Some y \<Rightarrow>
        Some (Some (length a + length u + length v + 4, x, y))))"
proof -
  let ?line = "a @ CHR '' '' # open # u @ sep # v @ close # s"
  have trim: "list_all (\<lambda>c. \<not> ws4 c) w \<Longrightarrow> dbc_trim w = w" for w
    unfolding dbc_trim_def by (rule trim_by_id) (auto simp: list_all_iff)
  have 1: "skipWs ?line pos = length a + 1"
    using skip_run[of blank "'' ''" "open # u @ sep # v @ close # s" pos a] assms(3,6)
    by (simp add: skipWs_def blank_def)
  have 2: "consumeChar ?line (length a + 1) open = Some (length a + 2)"
    using consume_here[of "length a + 1" "a @ '' ''" "open" "u @ sep # v @ close # s"] by simp
  have 3: "find_from sep ?line (length a + 2) = Some (length a + 2 + length u)"
    using find_here[OF assms(1), of "length a + 2" "a @ CHR '' '' # [open]" "v @ close # s"] by simp
  have 4: "substr ?line (length a + 2) (length u) = u"
    using substr_here[of "length a + 2" "a @ CHR '' '' # [open]" "length u" u "sep # v @ close # s"]
    by simp
  have 5: "find_from close ?line (length a + 2 + length u + 1) =
      Some (length a + 2 + length u + 1 + length v)"
    using find_here[OF assms(2), of "length a + 2 + length u + 1"
      "a @ CHR '' '' # open # u @ [sep]" s] by simp
  have 6: "substr ?line (length a + 2 + length u + 1) (length v) = v"
    using substr_here[of "length a + 2 + length u + 1" "a @ CHR '' '' # open # u @ [sep]"
      "length v" v "close # s"] by simp
  show ?thesis
    unfolding parse_pair_def 1 2 option.case 3 5
    by (simp add: 4[simplified] 6[simplified] trim assms(4,5) split: option.splits)
qed

lemma name_parse:
  assumes "name_ok nm" "pos = length a"
  shows "parseNameAndMultiplexor (a @ nm @ '' : '' @ s) pos sg =
    (length a + length nm + 1, sg\<lparr>sg_name := nm\<rparr>)"
proof -
  let ?line = "a @ nm @ '' : '' @ s"
  have 1: "skip_while (\<lambda>c. c \<noteq> CHR '' '' \<and> c \<noteq> CHR '':'') ?line pos = length a + length nm"
    using assms by (intro skip_run) (auto simp: name_ok_def list_all_iff ws4_def)
  have 2: "substr ?line pos (length a + length nm - pos) = nm"
    using assms(2) by (intro substr_here) simp_all
  have 3: "skipWs ?line (length a + length nm) = length a + length nm + 1"
    using skip_run[of blank "'' ''" "CHR '':'' # CHR '' '' # s" "length a + length nm" "a @ nm"]
    by (simp add: skipWs_def blank_def TAB_def)
  have 4: "?line ! (length a + length nm + 1) = CHR '':''" by (simp add: nth_append)
  show ?thesis
    unfolding parseNameAndMultiplexor_def Let_def 1 2 3 4 by simp
qed

lemma bits_parse:
  assumes "n < 2 ^ 64" "k < 2 ^ 64" "pos = length a"
  shows "parseStartBitAndLength
      (a @ '': '' @ dec_str n @ ''|'' @ dec_str k @ ''@'' @ b # g # s) pos sg =
    Some (length a + length (dec_str n) + length (dec_str k) + 6,
      sg\<lparr>sg_startBit := of_nat n, sg_bitLength := of_nat k,
         sg_byteOrder := (if b = CHR ''0'' then Motorola else Intel),
         sg_isSigned := (g = CHR ''-'')\<rparr>)"
proof -
  let ?line = "a @ '': '' @ dec_str n @ ''|'' @ dec_str k @ ''@'' @ b # g # s"
  let ?t = "''@'' @ b # g # s"
  have d: "\<not> blank (hd (dec_str n))"
    using dec_str_read[of n] by (cases "dec_str n") (auto simp: blank_def TAB_def is_digit_def)
  have 1: "consumeChar ?line pos (CHR '':'') = Some (length a + 1)"
    using consume_here[OF assms(3)] by simp
  have 2: "skipWs ?line (length a + 1) = length a + 2"
    using skip_run[of blank "'' ''" "dec_str n @ ''|'' @ dec_str k @ ?t" "length a + 1" "a @ '':''"] d
    by (simp add: skipWs_def blank_def)
  have 3: "find_from (CHR ''|'') ?line (length a + 2) = Some (length a + 2 + length (dec_str n))"
    using find_here[OF not_in_dec, of "CHR ''|''" "length a + 2" "a @ '': ''" n "dec_str k @ ?t"]
    by (simp add: is_digit_def)
  have 4: "substr ?line (length a + 2) (length (dec_str n)) = dec_str n"
    using substr_here[of "length a + 2" "a @ '': ''" _ "dec_str n" "''|'' @ dec_str k @ ?t"] by simp
  let ?p = "length a + 2 + length (dec_str n) + 1"
  have 5: "find_from (CHR ''@'') ?line ?p = Some (?p + length (dec_str k))"
    using find_here[OF not_in_dec, of "CHR ''@''" ?p "a @ '': '' @ dec_str n @ ''|''" k "b # g # s"]
    by (simp add: is_digit_def)
  have 6: "substr ?line ?p (length (dec_str k)) = dec_str k"
    using substr_here[of ?p "a @ '': '' @ dec_str n @ ''|''" _ "dec_str k" ?t] by simp
  have 7: "?line ! (?p + length (dec_str k) + 1) = b" "?line ! (?p + length (dec_str k) + 2) = g"
    by (simp_all add: nth_append)
  have 8: "\<not> length ?line \<le> ?p + length (dec_str k) + 1" "\<not> length ?line \<le> ?p + length (dec_str k) + 2"
    by simp_all
  show ?thesis
    unfolding parseStartBitAndLength_def 1 option.case Let_def 2 3 5
      add_diff_cancel_left' 4 6 from_chars_dec_str[OF assms(1)] from_chars_dec_str[OF assms(2)]
      if_not_P[OF 8(1)] if_not_P[OF 8(2)] 7
    by simp
qed

lemma unit_parse:
  assumes "CHR 0x22 \<notin> set u" "pos = length a"
  shows "parseUnit (a @ CHR '' '' # CHR 0x22 # u @ CHR 0x22 # s) pos sg =
    (length a + length u + 3, sg\<lparr>sg_unit := u\<rparr>)"
proof -
  let ?line = "a @ CHR '' '' # CHR 0x22 # u @ CHR 0x22 # s"
  have 1: "skipWs ?line pos = length a + 1"
    using skip_run[of blank "'' ''" "CHR 0x22 # u @ CHR 0x22 # s" pos a] assms(2)
    by (simp add: skipWs_def blank_def TAB_def)
  have 2: "consumeChar ?line (length a + 1) (CHR 0x22) = Some (length a + 2)"
    using consume_here[of "length a + 1" "a @ '' ''"] by simp
  have 3: "find_from (CHR 0x22) ?line (length a + 2) = Some (length a + 2 + length u)"
    using find_here[OF assms(1), of "length a + 2" "a @ CHR '' '' # [CHR 0x22]" s] by simp
  have 4: "substr ?line (length a + 2) (length u) = u"
    using substr_here[of "length a + 2" "a @ CHR '' '' # [CHR 0x22]" _ u "CHR 0x22 # s"] by simp
  show ?thesis
    unfolding parseUnit_def Let_def 1 2 option.case 3 add_diff_cancel_left' 4 by simp
qed

lemma signal_parse:
  assumes "name_ok (sg_name sg)" "unit_ok (sg_unit sg)"
    "list_all (list_all (\<lambda>c. \<not> ws4 c)) [sc, off, mn, mx]"
    "CHR '','' \<notin> set sc" "CHR '')'' \<notin> set off" "CHR ''|'' \<notin> set mn" "CHR '']'' \<notin> set mx"
  shows "parseSignalDefinition stod z
     (''SG_ '' @ sg_name sg @ '' : '' @ dec_str (unat (sg_startBit sg)) @ ''|'' @
     dec_str (unat (sg_bitLength sg)) @ ''@'' @ b # g #
     '' ('' @ sc @ '','' @ off @ '') ['' @ mn @ ''|'' @
     mx @ ''] '' @ [CHR 0x22] @ sg_unit sg @ [CHR 0x22] @ receivers) i =
   (case stod sc of None \<Rightarrow> None | Some x1 \<Rightarrow> (case stod off of None \<Rightarrow> None | Some x2 \<Rightarrow>
    (case stod mn of None \<Rightarrow> None | Some x3 \<Rightarrow> (case stod mx of None \<Rightarrow> None | Some x4 \<Rightarrow>
      Some (Some \<lparr>sg_canId = i, sg_name = sg_name sg, sg_startBit = sg_startBit sg,
        sg_bitLength = sg_bitLength sg, sg_byteOrder = (if b = CHR ''0'' then Motorola else Intel),
        sg_scale = x1, sg_offset = x2, sg_isSigned = (g = CHR ''-''), sg_unit = sg_unit sg,
        sg_min = x3, sg_max = x4, sg_valueTable = []\<rparr>)))))"
proof -
  define u2 where "u2 = '' ['' @ mn @ ''|'' @ mx @ ''] '' @ [CHR 0x22] @ sg_unit sg @ [CHR 0x22] @ receivers"
  define line where "line = ''SG_ '' @ sg_name sg @ '' : '' @ dec_str (unat (sg_startBit sg)) @ ''|'' @
     dec_str (unat (sg_bitLength sg)) @ ''@'' @ b # g # '' ('' @ sc @ '','' @ off @ '')'' @ u2"
  define a2 where "a2 = ''SG_ '' @ sg_name sg @ '' ''"
  define a3 where "a3 = a2 @ '': '' @ dec_str (unat (sg_startBit sg)) @ ''|'' @
     dec_str (unat (sg_bitLength sg)) @ ''@'' @ [b, g]"
  define a4 where "a4 = a3 @ '' ('' @ sc @ '','' @ off @ '')''"
  define a5 where "a5 = a4 @ '' ['' @ mn @ ''|'' @ mx @ '']''"
  have l1: "line = ''SG_ '' @ sg_name sg @ '' : '' @ (dec_str (unat (sg_startBit sg)) @ ''|'' @
     dec_str (unat (sg_bitLength sg)) @ ''@'' @ b # g # '' ('' @ sc @ '','' @ off @ '')'' @ u2)"
    by (simp add: line_def)
  have l2: "line = a2 @ '': '' @ dec_str (unat (sg_startBit sg)) @ ''|'' @
     dec_str (unat (sg_bitLength sg)) @ ''@'' @ b # g # ('' ('' @ sc @ '','' @ off @ '')'' @ u2)"
    by (simp add: line_def a2_def)
  have l3: "line = a3 @ CHR '' '' # CHR ''('' # sc @ CHR '','' # off @ CHR '')'' # u2"
    by (simp add: l2 a3_def)
  have l4: "line = a4 @ CHR '' '' # CHR ''['' # mn @ CHR ''|'' # mx @ CHR '']'' #
      '' '' @ [CHR 0x22] @ sg_unit sg @ [CHR 0x22] @ receivers"
    by (simp add: l3 a4_def u2_def)
  have l5: "line = a5 @ CHR '' '' # CHR 0x22 # sg_unit sg @ CHR 0x22 # receivers"
    by (simp add: l4 a5_def)
  have sg: "find_sub ''SG_'' line 0 = Some 0" by (simp add: line_def starts_with_def)
  have nh: "\<not> blank (hd (sg_name sg))" "sg_name sg \<noteq> []"
    using assms(1) by (auto simp: name_ok_def blank_def ws4_def)
  have sk: "skipWs line (0 + 3) = 4"
    using skip_run[of blank "'' ''" "sg_name sg @ '' : '' @ dec_str (unat (sg_startBit sg)) @ ''|'' @
     dec_str (unat (sg_bitLength sg)) @ ''@'' @ b # g # '' ('' @ sc @ '','' @ off @ '')'' @ u2" 3 "''SG_''"] nh
    by (simp add: skipWs_def blank_def line_def hd_append)
  have nm: "parseNameAndMultiplexor line 4 sg0 = (length a2, sg0\<lparr>sg_name := sg_name sg\<rparr>)" for sg0
    unfolding l1 using name_parse[OF assms(1), of 4 "''SG_ ''"] by (simp add: a2_def)
  have bt: "parseStartBitAndLength line (length a2) sg0 = Some (length a3,
      sg0\<lparr>sg_startBit := sg_startBit sg, sg_bitLength := sg_bitLength sg,
         sg_byteOrder := (if b = CHR ''0'' then Motorola else Intel),
         sg_isSigned := (g = CHR ''-'')\<rparr>)" for sg0
    unfolding l2 by (subst bits_parse) (simp_all add: a3_def u64_lt[simplified])
  have ch: "list_all (\<lambda>c. \<not> ws4 c) sc" "list_all (\<lambda>c. \<not> ws4 c) off"
    "list_all (\<lambda>c. \<not> ws4 c) mn" "list_all (\<lambda>c. \<not> ws4 c) mx" using assms(3) by simp_all
  have len: "length a4 = length a3 + length sc + length off + 4"
    "length a5 = length a4 + length mn + length mx + 4" by (simp_all add: a4_def a5_def)
  have p1: "parse_pair stod (CHR ''('') (CHR '','') (CHR '')'') line (length a3) =
    (case stod sc of None \<Rightarrow> None | Some x \<Rightarrow> (case stod off of None \<Rightarrow> None | Some y \<Rightarrow>
        Some (Some (length a4, x, y))))"
    unfolding l3 by (subst pair_parse[OF assms(4,5) refl ch(1,2)])
      (simp_all add: blank_def TAB_def len cong: option.case_cong)
  have p2: "parse_pair stod (CHR ''['') (CHR ''|'') (CHR '']'') line (length a4) =
    (case stod mn of None \<Rightarrow> None | Some x \<Rightarrow> (case stod mx of None \<Rightarrow> None | Some y \<Rightarrow>
        Some (Some (length a5, x, y))))"
    unfolding l4 by (subst pair_parse[OF assms(6,7) refl ch(3,4)])
      (simp_all add: blank_def TAB_def len cong: option.case_cong)
  have un: "\<exists>q. parseUnit line (length a5) sg0 = (q, sg0\<lparr>sg_unit := sg_unit sg\<rparr>)" for sg0
    unfolding l5 using assms(2) by (subst unit_parse) (auto simp: unit_ok_def)
  have res: "parseSignalDefinition stod z line i =
   (case stod sc of None \<Rightarrow> None | Some x1 \<Rightarrow> (case stod off of None \<Rightarrow> None | Some x2 \<Rightarrow>
    (case stod mn of None \<Rightarrow> None | Some x3 \<Rightarrow> (case stod mx of None \<Rightarrow> None | Some x4 \<Rightarrow>
      Some (Some \<lparr>sg_canId = i, sg_name = sg_name sg, sg_startBit = sg_startBit sg,
        sg_bitLength = sg_bitLength sg, sg_byteOrder = (if b = CHR ''0'' then Motorola else Intel),
        sg_scale = x1, sg_offset = x2, sg_isSigned = (g = CHR ''-''), sg_unit = sg_unit sg,
        sg_min = x3, sg_max = x4, sg_valueTable = []\<rparr>)))))"
  proof -
    have un': "snd (parseUnit line (length a5) sg0) = sg0\<lparr>sg_unit := sg_unit sg\<rparr>" for sg0
      using un[of sg0] by auto
    show ?thesis
      unfolding parseSignalDefinition_def sg option.case sk nm Let_def split bt
        parseScaleOffset_def p1 parseMinMax_def
      by (auto simp: p2 un' split_beta empty_signal_def split: option.splits)
  qed
  then show ?thesis unfolding line_def u2_def by simp
qed

section \<open>Lines\<close>

definition print_signal :: "('d \<Rightarrow> string) \<Rightarrow> string \<Rightarrow> 'd dbc_signal \<Rightarrow> string" where
  "print_signal num receivers sg =
     ''SG_ '' @ sg_name sg @ '' : '' @ dec_str (unat (sg_startBit sg)) @ ''|'' @
     dec_str (unat (sg_bitLength sg)) @ ''@'' @
     (case sg_byteOrder sg of Motorola \<Rightarrow> ''0'' | Intel \<Rightarrow> ''1'') @
     (if sg_isSigned sg then ''-'' else ''+'') @
     '' ('' @ num (sg_scale sg) @ '','' @ num (sg_offset sg) @ '') ['' @ num (sg_min sg) @ ''|'' @
     num (sg_max sg) @ ''] '' @ [CHR 0x22] @ sg_unit sg @ [CHR 0x22] @ receivers"

definition print_bo :: "nat \<Rightarrow> string \<Rightarrow> string" where
  "print_bo n msg = ''BO_ '' @ dec_str n @ '' '' @ msg"

definition tail_ok :: "string \<Rightarrow> bool" where
  "tail_ok s \<longleftrightarrow> s \<noteq> [] \<and> \<not> ws4 (last s) \<and> LF \<notin> set s"

lemma trim_line: "s \<noteq> [] \<Longrightarrow> \<not> ws4 (hd s) \<Longrightarrow> \<not> ws4 (last s) \<Longrightarrow> dbc_trim s = s"
  by (simp add: dbc_trim_def trim_by_id)

lemma trim_indented:
  "s \<noteq> [] \<Longrightarrow> \<not> ws4 (hd s) \<Longrightarrow> \<not> ws4 (last s) \<Longrightarrow> dbc_trim ('' '' @ s) = s"
proof -
  assume a: "s \<noteq> []" "\<not> ws4 (hd s)" "\<not> ws4 (last s)"
  have "dropWhile ws4 ('' '' @ s) = s" using a by (cases s) (auto simp: ws4_def)
  moreover have "dropWhile ws4 s = s" using a by (cases s) auto
  ultimately have "dbc_trim ('' '' @ s) = dbc_trim s" by (simp add: dbc_trim_def trim_by_def)
  then show ?thesis using trim_line[OF a] by simp
qed

lemma bo_id:
  assumes "msg \<noteq> []"
  shows "parseBoLine (print_bo n msg) = map_option of_nat (from_chars_dec 16 (dec_str n))"
proof -
  have d2: "list_all (\<lambda>c. \<not> blank c) (dec_str n)"
    using dec_str_read[of n] by (auto simp: list_all_iff blank_def TAB_def is_digit_def)
  then have d: "\<not> blank (hd (dec_str n))" "list_all (\<lambda>c. \<not> blank c) (dec_str n)"
    by (simp_all add: list_all_iff)
  have 1: "find_from (CHR '' '') (print_bo n msg) 3 = Some 3"
    using find_here[of "CHR '' ''" "[]" 3 "''BO_''" "dec_str n @ '' '' @ msg"]
    by (simp add: print_bo_def)
  have 2: "skip_while blank (print_bo n msg) 4 = 4"
    using skip_none[of 4 "''BO_ ''" "dec_str n @ '' '' @ msg" blank] d
    by (simp add: print_bo_def hd_append)
  have 3: "skip_while (\<lambda>c. \<not> blank c) (print_bo n msg) 4 = 4 + length (dec_str n)"
    using skip_run[OF d(2), of "'' '' @ msg" 4 "''BO_ ''"] by (simp add: print_bo_def blank_def)
  have 4: "substr (print_bo n msg) 4 (length (dec_str n)) = dec_str n"
    using substr_here[of 4 "''BO_ ''" _ "dec_str n" "'' '' @ msg"] by (simp add: print_bo_def)
  show ?thesis by (simp add: parseBoLine_def 1 parseTrailingUint16_def 2 3 4 Let_def)
qed

lemma bo_line:
  assumes "tail_ok msg"
  shows "parse_line stod z (print_bo n msg) st =
    (if n < 2 ^ 16 then Some (st\<lparr>ps_canId := of_nat n\<rparr>) else Some st)"
proof -
  have "dbc_trim (print_bo n msg) = print_bo n msg"
    using assms by (intro trim_line) (auto simp: print_bo_def tail_ok_def ws4_def TAB_def CR_def LF_def)
  moreover have "print_bo n msg \<noteq> []" "starts_with ''BO_'' (print_bo n msg)"
    by (simp_all add: print_bo_def starts_with_def)
  moreover have "msg \<noteq> []" using assms by (simp add: tail_ok_def)
  ultimately show ?thesis
    by (auto simp: parse_line_def bo_id from_chars_dec_str from_chars_dec_big)
qed

definition signal_ok :: "'d dbc_signal \<Rightarrow> bool" where
  "signal_ok sg \<longleftrightarrow> name_ok (sg_name sg) \<and> unit_ok (sg_unit sg)"

lemma signal_line_trim:
  assumes "tail_ok receivers"
  shows "dbc_trim ('' '' @ print_signal num receivers sg) = print_signal num receivers sg"
  using assms
  by (intro trim_indented) (auto simp: print_signal_def tail_ok_def ws4_def TAB_def CR_def LF_def)

lemma signal_line_start: "starts_with ''SG_'' (print_signal num receivers sg)"
  "\<not> starts_with ''BO_'' (print_signal num receivers sg)" "print_signal num receivers sg \<noteq> []"
  by (simp_all add: print_signal_def starts_with_def)

lemma print_signal_parse:
  assumes "number_chars num" "signal_ok sg"
  shows "parseSignalDefinition stod z (print_signal num receivers sg) i =
   (case stod (num (sg_scale sg)) of None \<Rightarrow> None | Some x1 \<Rightarrow>
    (case stod (num (sg_offset sg)) of None \<Rightarrow> None | Some x2 \<Rightarrow>
    (case stod (num (sg_min sg)) of None \<Rightarrow> None | Some x3 \<Rightarrow>
    (case stod (num (sg_max sg)) of None \<Rightarrow> None | Some x4 \<Rightarrow>
      Some (Some (sg\<lparr>sg_canId := i, sg_scale := x1, sg_offset := x2, sg_min := x3, sg_max := x4,
        sg_valueTable := []\<rparr>))))))"
proof -
  have n: "list_all (\<lambda>c. \<not> ws4 c) (num x)" "CHR '','' \<notin> set (num x)"
    "CHR '')'' \<notin> set (num x)" "CHR ''|'' \<notin> set (num x)" "CHR '']'' \<notin> set (num x)" for x
    using assms(1) by (auto simp: number_chars_def list_all_iff)
  define b where "b = (case sg_byteOrder sg of Motorola \<Rightarrow> CHR ''0'' | Intel \<Rightarrow> CHR ''1'')"
  define g where "g = (if sg_isSigned sg then CHR ''-'' else CHR ''+'')"
  have "(case sg_byteOrder sg of Motorola \<Rightarrow> ''0'' | Intel \<Rightarrow> ''1'') = [b]"
    "(if sg_isSigned sg then ''-'' else ''+'') = [g]"
    by (simp_all add: b_def g_def split: DBCByteOrder.split)
  then have l: "print_signal num receivers sg = ''SG_ '' @ sg_name sg @ '' : '' @
     dec_str (unat (sg_startBit sg)) @ ''|'' @ dec_str (unat (sg_bitLength sg)) @ ''@'' @ b # g #
     '' ('' @ num (sg_scale sg) @ '','' @ num (sg_offset sg) @ '') ['' @ num (sg_min sg) @ ''|'' @
     num (sg_max sg) @ ''] '' @ [CHR 0x22] @ sg_unit sg @ [CHR 0x22] @ receivers"
    by (simp add: print_signal_def)
  have e: "(if b = CHR ''0'' then Motorola else Intel) = sg_byteOrder sg"
    "(g = CHR ''-'') = sg_isSigned sg"
    by (simp_all add: b_def g_def split: DBCByteOrder.split)
  have ok: "name_ok (sg_name sg)" "unit_ok (sg_unit sg)" using assms(2) by (simp_all add: signal_ok_def)
  have ch: "list_all (list_all (\<lambda>c. \<not> ws4 c))
      [num (sg_scale sg), num (sg_offset sg), num (sg_min sg), num (sg_max sg)]" using n(1) by simp
  show ?thesis unfolding l signal_parse[OF ok ch n(2,3,4,5)] e by (simp split: option.split)
qed

lemma signal_line_any:
  assumes "ps_canId st \<noteq> 0" "tail_ok receivers"
  shows "parse_line stod z ('' '' @ print_signal num receivers sg) st =
    (case parseSignalDefinition stod z (print_signal num receivers sg) (ps_canId st) of
       None \<Rightarrow> None | Some None \<Rightarrow> Some st
     | Some (Some sg) \<Rightarrow> Some (st\<lparr>ps_signals := ps_signals st @ [sg]\<rparr>))"
  using assms(1) signal_line_start[of num receivers sg]
  by (simp add: parse_line_def Let_def signal_line_trim[OF assms(2), simplified])

lemma signal_line:
  assumes "number_text num stod" "signal_ok sg" "tail_ok receivers" "ps_canId st \<noteq> 0"
  shows "parse_line stod z ('' '' @ print_signal num receivers sg) st =
    Some (st\<lparr>ps_signals := ps_signals st @ [sg\<lparr>sg_canId := ps_canId st, sg_valueTable := []\<rparr>]\<rparr>)"
proof -
  have n: "number_chars num" "stod (num x) = Some x" for x
    using assms(1) by (auto simp: number_text_def)
  show ?thesis unfolding signal_line_any[OF assms(4,3)] print_signal_parse[OF n(1) assms(2)] n(2)
    by simp
qed

section \<open>Value lines\<close>

definition print_entry :: "value_entry \<Rightarrow> string" where
  "print_entry e = int_str (fst e) @ '' '' @ [CHR 0x22] @ snd e @ [CHR 0x22]"

definition print_entries :: "value_entry list \<Rightarrow> string" where
  "print_entries es = concat (map (\<lambda>e. print_entry e @ '' '') es) @ '';''"

definition gap :: "string \<Rightarrow> bool" where
  "gap u \<longleftrightarrow> list_all (\<lambda>c. blank c \<or> c = CHR '';'') u"

definition entry_ok :: "value_entry \<Rightarrow> bool" where
  "entry_ok e \<longleftrightarrow> - (2 ^ 63) \<le> fst e \<and> fst e < 2 ^ 63 \<and> CHR 0x22 \<notin> set (snd e) \<and> LF \<notin> set (snd e)"

lemma int_str_chars: "list_all (\<lambda>c. is_digit c \<or> c = CHR ''-'') (int_str v)" "int_str v \<noteq> []"
  using dec_str_read by (auto simp: int_str_def list_all_iff)

lemma from_chars_int_str:
  assumes "- (2 ^ 63) \<le> v" "v < 2 ^ 63"
  shows "from_chars_int64 (int_str v) = Some v"
proof (cases "v < 0")
  case True
  have "nat (- v) \<le> 2 ^ 63" using assms(1) by (simp add: nat_le_iff)
  then show ?thesis using True dec_str_read[of "nat (- v)"]
    by (simp add: int_str_def from_chars_int64_def dec_str_take Let_def not_less)
next
  case False
  obtain c cs where c: "dec_str (nat v) = c # cs" by (cases "dec_str (nat v)") auto
  have "is_digit c" using dec_str_read[of "nat v"] by (simp add: c)
  then have "c \<noteq> CHR ''-''" by (auto simp: is_digit_def)
  moreover have "nat v < 2 ^ 63" using assms(2) by (simp add: nat_less_iff False not_less[symmetric])
  moreover have "takeWhile is_digit cs = cs"
    using dec_str_read[of "nat v"] by (auto simp: c takeWhile_eq_all_conv list_all_iff)
  ultimately show ?thesis using False dec_str_read[of "nat v"]
    by (simp add: int_str_def from_chars_int64_def c Let_def not_le del: takeWhile_eq_all_conv)
qed

lemma one_entry:
  assumes "entry_ok e" "gap u" "pos = length a0"
  shows "parseOneValueEntry (a0 @ u @ print_entry e @ s) pos =
    Some (e, length (a0 @ u @ print_entry e))"
proof -
  define a where "a = a0 @ u"
  define t where "t = snd e @ [CHR 0x22] @ s"
  let ?rest = "a0 @ u @ print_entry e @ s" and ?n = "length (int_str (fst e))"
  have r: "?rest = a @ int_str (fst e) @ '' '' @ CHR 0x22 # t"
    by (simp add: print_entry_def t_def a_def)
  have ch: "list_all (\<lambda>c. \<not> blank c) (int_str (fst e))"
    "\<not> (blank (hd (int_str (fst e))) \<or> hd (int_str (fst e)) = CHR '';'')"
  proof -
    have c: "c \<in> set (int_str (fst e)) \<Longrightarrow> \<not> blank c \<and> c \<noteq> CHR '';''" for c
      using int_str_chars(1)[of "fst e"] by (auto simp: list_all_iff blank_def TAB_def is_digit_def)
    then show "list_all (\<lambda>c. \<not> blank c) (int_str (fst e))" by (simp add: list_all_iff)
    show "\<not> (blank (hd (int_str (fst e))) \<or> hd (int_str (fst e)) = CHR '';'')"
      using c[OF hd_in_set[OF int_str_chars(2)]] by simp
  qed
  have 1: "skip_while (\<lambda>c. blank c \<or> c = CHR '';'') ?rest pos = length a"
    using skip_run[of "\<lambda>c. blank c \<or> c = CHR '';''" u "print_entry e @ s" pos a0] assms(2,3) ch(2)
      int_str_chars(2)[of "fst e"]
    by (simp add: a_def gap_def print_entry_def hd_append)
  have 2: "skip_while (\<lambda>c. \<not> blank c) ?rest (length a) = length a + ?n"
    unfolding r using ch by (intro skip_run) (simp_all add: blank_def)
  have 3: "substr ?rest (length a) ?n = int_str (fst e)"
    unfolding r by (rule substr_here) simp_all
  have 4: "from_chars_int64 (int_str (fst e)) = Some (fst e)"
    using assms(1) by (intro from_chars_int_str) (simp_all add: entry_ok_def)
  have 5: "skip_while blank ?rest (length a + ?n) = length a + ?n + 1"
    unfolding r using skip_run[of blank "'' ''" "CHR 0x22 # t" "length a + ?n" "a @ int_str (fst e)"]
    by (simp add: blank_def TAB_def)
  have 6: "?rest ! (length a + ?n + 1) = CHR 0x22" unfolding r by (simp add: nth_append)
  let ?p = "length a + ?n + 1 + 1"
  have 7: "find_from (CHR 0x22) ?rest ?p = Some (?p + length (snd e))"
    unfolding r t_def using assms(1) find_here[of "CHR 0x22" "snd e" ?p
      "a @ int_str (fst e) @ '' '' @ [CHR 0x22]" s] by (simp add: entry_ok_def)
  have 8: "substr ?rest ?p (length (snd e)) = snd e"
    unfolding r t_def using substr_here[of ?p "a @ int_str (fst e) @ '' '' @ [CHR 0x22]" _ "snd e"
      "[CHR 0x22] @ s"] by simp
  have 9: "\<not> length ?rest \<le> length a" "length a + ?n \<noteq> length a"
    using int_str_chars(2)[of "fst e"] by (simp_all add: r)
  have "length a + ?n + 1 < length ?rest" unfolding r by simp
  then have 10: "\<not> (length ?rest \<le> length a + ?n + 1 \<or> ?rest ! (length a + ?n + 1) \<noteq> CHR 0x22)"
    using 6 by simp
  have len: "length (a0 @ u @ print_entry e) = ?p + length (snd e) + 1"
    by (simp add: print_entry_def a_def)
  show ?thesis
    unfolding parseOneValueEntry_def Let_def 1 if_not_P[OF 9(1)] 2 if_not_P[OF 9(2)]
      add_diff_cancel_left' 3 4 option.case 5 if_not_P[OF 10] 7 8 len
    by simp
qed

lemma entries_loop:
  "list_all entry_ok es \<Longrightarrow> gap u \<Longrightarrow>
   value_entries_from (a @ u @ print_entries es) (length a) = es"
proof (induction es arbitrary: a u)
  case Nil
  have "skip_while (\<lambda>c. blank c \<or> c = CHR '';'') (a @ (u @ '';'') @ []) (length a) =
      length a + length (u @ '';'')"
    using Nil by (intro skip_run) (simp_all add: gap_def)
  then have "parseOneValueEntry (a @ u @ print_entries []) (length a) = None"
    by (simp add: parseOneValueEntry_def print_entries_def)
  then show ?case by (subst value_entries_from.simps) simp
next
  case (Cons e es)
  have e: "print_entries (e # es) = print_entry e @ '' '' @ print_entries es"
    by (simp add: print_entries_def)
  have "parseOneValueEntry (a @ u @ print_entries (e # es)) (length a) =
      Some (e, length (a @ u @ print_entry e))"
    unfolding e by (rule one_entry) (use Cons.prems in simp_all)
  moreover have "length a < length (a @ u @ print_entries (e # es))"
    by (simp add: e)
  moreover have "value_entries_from (a @ u @ print_entries (e # es)) (length (a @ u @ print_entry e)) = es"
    using Cons.IH[of "'' ''" "a @ u @ print_entry e"] Cons.prems
    by (simp add: e gap_def blank_def)
  ultimately show ?case by (subst value_entries_from.simps) simp
qed

definition print_val :: "u16 \<Rightarrow> string \<Rightarrow> value_entry list \<Rightarrow> string" where
  "print_val i nm es = ''VAL_ '' @ dec_str (unat i) @ '' '' @ nm @ '' '' @ print_entries es"

lemma val_parse:
  assumes "name_ok nm" "list_all entry_ok es" "es \<noteq> []"
  shows "parseValLine (print_val i nm es) = Some (i, nm, es)"
proof -
  let ?l = "print_val i nm es" and ?d = "dec_str (unat i)"
  have dd: "list_all (\<lambda>c. \<not> blank c) ?d"
    using dec_str_read[of "unat i"] by (auto simp: list_all_iff blank_def TAB_def is_digit_def)
  then have dh: "\<not> blank (hd ?d)" by (simp add: list_all_iff)
  have nn: "list_all (\<lambda>c. \<not> blank c) nm" "nm \<noteq> []"
    using assms(1) by (auto simp: name_ok_def list_all_iff blank_def ws4_def)
  then have nh: "\<not> blank (hd nm)" by (simp add: list_all_iff)
  have eh: "\<not> blank (hd (print_entries es))" "print_entries es \<noteq> []"
  proof -
    obtain e es' where e: "es = e # es'" using assms(3) by (cases es) auto
    have "hd (print_entries es) = hd (int_str (fst e))"
      using int_str_chars(2)[of "fst e"] by (simp add: e print_entries_def print_entry_def hd_append)
    moreover have "hd (int_str (fst e)) \<in> set (int_str (fst e))" by (rule hd_in_set[OF int_str_chars(2)])
    ultimately show "\<not> blank (hd (print_entries es))"
      using int_str_chars(1)[of "fst e"] by (auto simp: list_all_iff blank_def TAB_def is_digit_def)
    show "print_entries es \<noteq> []" by (simp add: print_entries_def)
  qed
  have 1: "find_from (CHR '' '') ?l 4 = Some 4"
    using find_here[of "CHR '' ''" "[]" 4 "''VAL_''" "?d @ '' '' @ nm @ '' '' @ print_entries es"]
    by (simp add: print_val_def)
  have 2: "skip_while blank ?l 5 = 5"
    using skip_none[of 5 "''VAL_ ''" "?d @ '' '' @ nm @ '' '' @ print_entries es" blank] dh
    by (simp add: print_val_def hd_append)
  have 3: "skip_while (\<lambda>c. \<not> blank c) ?l 5 = 5 + length ?d"
    using skip_run[OF dd, of "'' '' @ nm @ '' '' @ print_entries es" 5 "''VAL_ ''"]
    by (simp add: print_val_def blank_def)
  have 4: "substr ?l 5 (length ?d) = ?d"
    using substr_here[of 5 "''VAL_ ''" _ ?d "'' '' @ nm @ '' '' @ print_entries es"]
    by (simp add: print_val_def)
  have 5: "skip_while blank ?l (5 + length ?d) = 5 + length ?d + 1"
    using skip_run[of blank "'' ''" "nm @ '' '' @ print_entries es" "5 + length ?d" "''VAL_ '' @ ?d"] nh nn
    by (simp add: print_val_def blank_def hd_append)
  have 6: "skip_while (\<lambda>c. \<not> blank c) ?l (5 + length ?d + 1) = 5 + length ?d + 1 + length nm"
    using skip_run[OF nn(1), of "'' '' @ print_entries es" "5 + length ?d + 1" "''VAL_ '' @ ?d @ '' ''"]
    by (simp add: print_val_def blank_def)
  have 7: "substr ?l (5 + length ?d + 1) (length nm) = nm"
    using substr_here[of "5 + length ?d + 1" "''VAL_ '' @ ?d @ '' ''" _ nm "'' '' @ print_entries es"]
    by (simp add: print_val_def)
  have 8: "skip_while blank ?l (5 + length ?d + 1 + length nm) = 5 + length ?d + 1 + length nm + 1"
    using skip_run[of blank "'' ''" "print_entries es" "5 + length ?d + 1 + length nm"
      "''VAL_ '' @ ?d @ '' '' @ nm"] eh by (simp add: print_val_def blank_def)
  have pl: "5 + length ?d + 1 + length nm + 1 = length (''VAL_ '' @ ?d @ '' '' @ nm @ '' '')"
    "?l = (''VAL_ '' @ ?d @ '' '' @ nm @ '' '') @ print_entries es" by (simp_all add: print_val_def)
  have 9: "drop (5 + length ?d + 1 + length nm + 1) ?l = print_entries es"
    unfolding pl by (rule drop_prefix)
  have 10: "parseValueEntries (print_entries es) = es"
    using entries_loop[OF assms(2), of "[]" "[]"] by (simp add: parseValueEntries_def gap_def)
  have n: "from_chars_dec 16 ?d = Some (unat i)"
    by (rule from_chars_dec_str) (use unsigned_less[of i] in simp)
  have 11: "parseTrailingUint16 ?l 5 = (Some i, 5 + length ?d)"
    by (simp add: parseTrailingUint16_def Let_def 2 3 4 n)
  have p: "(4 :: nat) + 1 = 5" by simp
  show ?thesis
    unfolding parseValLine_def 1 option.case p 11 Let_def prod.case 5 6 add_diff_cancel_left' 7 8 9 10
    using assms(3) by simp
qed

lemma val_line:
  assumes "name_ok nm" "list_all entry_ok es" "es \<noteq> []"
  shows "parse_line stod z (print_val i nm es) st = Some (st\<lparr>ps_values := ps_values st @ [(i, nm, es)]\<rparr>)"
proof -
  have "last (print_val i nm es) = CHR '';''" by (simp add: print_val_def print_entries_def)
  then have "dbc_trim (print_val i nm es) = print_val i nm es"
    by (intro trim_line) (simp_all add: print_val_def ws4_def TAB_def CR_def LF_def)
  moreover have "print_val i nm es \<noteq> []" "\<not> starts_with ''BO_'' (print_val i nm es)"
    "\<not> starts_with '' SG_'' (print_val i nm es)" "\<not> starts_with ''SG_'' (print_val i nm es)"
    "starts_with ''VAL_'' (print_val i nm es)"
    by (simp_all add: print_val_def starts_with_def)
  ultimately show ?thesis by (simp add: parse_line_def Let_def val_parse[OF assms])
qed

section \<open>Whole files\<close>

definition text_of :: "string list \<Rightarrow> string" where
  "text_of ls = concat (map (\<lambda>l. l @ [LF]) ls)"

lemma getlines_text: "list_all (\<lambda>l. LF \<notin> set l) ls \<Longrightarrow> getlines (text_of ls) = ls"
  by (induction ls) (simp_all add: text_of_def getlines_one)

lemma parse_lines_append:
  "parse_lines stod z (ls1 @ ls2) st =
     (case parse_lines stod z ls1 st of None \<Rightarrow> None | Some st1 \<Rightarrow> parse_lines stod z ls2 st1)"
  by (induction ls1 arbitrary: st) (simp_all split: option.split)

lemma no_lf:
  "tail_ok msg \<Longrightarrow> LF \<notin> set (print_bo n msg)"
  "number_chars num \<Longrightarrow> signal_ok sg \<Longrightarrow> tail_ok rc \<Longrightarrow> LF \<notin> set ('' '' @ print_signal num rc sg)"
  "name_ok nm \<Longrightarrow> list_all entry_ok es \<Longrightarrow> LF \<notin> set (print_val i nm es)"
proof -
  have l: "LF \<notin> set (dec_str k)" for k by (rule not_in_dec) (simp add: LF_def is_digit_def)
  have li: "LF \<notin> set (int_str v)" for v using l by (simp add: int_str_def) (simp add: LF_def)
  have nm: "name_ok s \<Longrightarrow> LF \<notin> set s" for s by (auto simp: name_ok_def ws4_def)
  show "tail_ok msg \<Longrightarrow> LF \<notin> set (print_bo n msg)"
    using l by (simp add: print_bo_def tail_ok_def) (simp add: LF_def)
  have nu: "number_chars num \<Longrightarrow> LF \<notin> set (num x)" for x by (auto simp: number_chars_def ws4_def)
  show "number_chars num \<Longrightarrow> signal_ok sg \<Longrightarrow> tail_ok rc \<Longrightarrow> LF \<notin> set ('' '' @ print_signal num rc sg)"
    using l nu nm by (auto simp: print_signal_def signal_ok_def unit_ok_def tail_ok_def LF_def
      split: DBCByteOrder.splits)
  have "list_all entry_ok es \<Longrightarrow> LF \<notin> set (print_entries es)"
    using li by (induction es) (auto simp: print_entries_def print_entry_def entry_ok_def LF_def)
  then show "name_ok nm \<Longrightarrow> list_all entry_ok es \<Longrightarrow> LF \<notin> set (print_val i nm es)"
    using l nm by (simp add: print_val_def) (simp add: LF_def)
qed

section \<open>Assembling\<close>

definition key :: "'d dbc_signal \<Rightarrow> u16 \<times> string" where "key sg = (sg_canId sg, sg_name sg)"

definition clear_table :: "'d dbc_signal \<Rightarrow> 'd dbc_signal" where
  "clear_table sg = sg\<lparr>sg_valueTable := []\<rparr>"

lemma key_upd [simp]: "key (sg\<lparr>sg_valueTable := es\<rparr>) = key sg" "key (clear_table sg) = key sg"
  by (simp_all add: key_def clear_table_def)

lemma apply_value_line_map:
  "distinct (map key S) \<Longrightarrow> apply_value_line (i, nm, es) S =
     map (\<lambda>sg. if key sg = (i, nm) then sg\<lparr>sg_valueTable := es\<rparr> else sg) S"
proof (induction S)
  case Nil
  then show ?case by simp
next
  case (Cons sg S)
  show ?case
  proof (cases "key sg = (i, nm)")
    case True
    then have "(i, nm) \<notin> key ` set S" using Cons.prems by auto
    then have "\<forall>x \<in> set S. key x \<noteq> (i, nm)" by (metis imageI)
    then have "map (\<lambda>sg. if key sg = (i, nm) then sg\<lparr>sg_valueTable := es\<rparr> else sg) S = S"
      by (intro map_idI) simp
    then show ?thesis using True by (simp add: key_def)
  next
    case False
    then have "\<not> (sg_canId sg = i \<and> sg_name sg = nm)" by (simp add: key_def)
    then show ?thesis using Cons.IH Cons.prems False by auto
  qed
qed

definition value_lines :: "'d dbc_signal list \<Rightarrow> value_line list" where
  "value_lines S = map (\<lambda>sg. (sg_canId sg, sg_name sg, sg_valueTable sg))
     (filter (\<lambda>sg. sg_valueTable sg \<noteq> []) S)"

lemma apply_all_aux:
  assumes "distinct (map key S)" "set T \<subseteq> set S"
  shows "foldl (\<lambda>s v. apply_value_line v s) (map clear_table S) (value_lines T) =
    map (\<lambda>sg. if sg \<in> set T then sg else clear_table sg) S"
  using assms(2)
proof (induction T rule: rev_induct)
  case Nil
  then show ?case by (simp add: value_lines_def)
next
  case (snoc t T)
  let ?f = "\<lambda>T sg. if sg \<in> set T then sg else clear_table sg"
  have ih: "foldl (\<lambda>s v. apply_value_line v s) (map clear_table S) (value_lines T) = map (?f T) S"
    using snoc by simp
  have keys: "map key (map (?f T) S) = map key S" by (induction S) auto
  have inj: "sg \<in> set S \<Longrightarrow> key sg = key t \<Longrightarrow> sg = t" for sg
    using assms(1) snoc.prems by (auto simp: distinct_map inj_on_def)
  show ?case
  proof (cases "sg_valueTable t = []")
    case True
    then have "clear_table t = t" by (simp add: clear_table_def)
    then have "map (?f T) S = map (?f (T @ [t])) S" by auto
    then show ?thesis using ih True by (simp add: value_lines_def)
  next
    case False
    have v: "value_lines (T @ [t]) = value_lines T @ [(sg_canId t, sg_name t, sg_valueTable t)]"
      using False by (simp add: value_lines_def)
    have bk: "(clear_table t)\<lparr>sg_valueTable := sg_valueTable t\<rparr> = t"
      "t\<lparr>sg_valueTable := sg_valueTable t\<rparr> = t" by (simp_all add: clear_table_def)
    have "apply_value_line (sg_canId t, sg_name t, sg_valueTable t) (map (?f T) S) =
        map (\<lambda>sg. if key sg = key t then sg\<lparr>sg_valueTable := sg_valueTable t\<rparr> else sg) (map (?f T) S)"
      unfolding key_def[of t] by (rule apply_value_line_map) (simp only: keys assms(1))
    also have "\<dots> = map (?f (T @ [t])) S"
      unfolding map_map
    proof (rule map_cong[OF refl])
      fix sg
      assume "sg \<in> set S"
      then have "sg = t \<or> key sg \<noteq> key t \<and> sg \<noteq> t" using inj by blast
      then show "((\<lambda>sg. if key sg = key t then sg\<lparr>sg_valueTable := sg_valueTable t\<rparr> else sg) \<circ> ?f T) sg =
          ?f (T @ [t]) sg"
        using bk by (elim disjE) simp_all
    qed
    finally show ?thesis using ih by (simp add: v)
  qed
qed

lemma apply_all:
  assumes "distinct (map key S)"
  shows "foldl (\<lambda>s v. apply_value_line v s) (map clear_table S) (value_lines S) = S"
  unfolding apply_all_aux[OF assms subset_refl] by (rule map_idI) simp

lemma add_signal_new: "sg_canId sg \<notin> fst ` set db \<Longrightarrow> add_signal sg db = db @ [(sg_canId sg, [sg])]"
  by (induction sg db rule: add_signal.induct) auto

lemma add_signal_last:
  "i \<notin> fst ` set db \<Longrightarrow> sg_canId sg = i \<Longrightarrow> add_signal sg (db @ [(i, sgs)]) = db @ [(i, sgs @ [sg])]"
  by (induction db) auto

lemma add_group:
  assumes "i \<notin> fst ` set db" "list_all (\<lambda>sg. sg_canId sg = i) sgs"
  shows "foldl (\<lambda>db sg. add_signal sg db) (db @ [(i, pre)]) sgs = db @ [(i, pre @ sgs)]"
  using assms(2)
proof (induction sgs arbitrary: pre)
  case (Cons sg sgs)
  then show ?case using add_signal_last[OF assms(1), of sg pre] by simp
qed simp

lemma add_message:
  assumes "i \<notin> fst ` set db" "list_all (\<lambda>sg. sg_canId sg = i) sgs" "sgs \<noteq> []"
  shows "foldl (\<lambda>db sg. add_signal sg db) db sgs = db @ [(i, sgs)]"
proof -
  obtain sg r where s: "sgs = sg # r" using assms(3) by (cases sgs) auto
  have "add_signal sg db = db @ [(i, [sg])]" using add_signal_new[of sg db] assms(1,2) by (simp add: s)
  then show ?thesis using add_group[OF assms(1), of r "[sg]"] assms(2) by (simp add: s)
qed

lemma add_messages:
  assumes "distinct (map fst db)" "list_all (\<lambda>(i, sgs). sgs \<noteq> [] \<and> list_all (\<lambda>sg. sg_canId sg = i) sgs) db"
  shows "foldl (\<lambda>db sg. add_signal sg db) [] (concat (map snd db)) = db"
  using assms
proof (induction db rule: rev_induct)
  case Nil
  then show ?case by simp
next
  case (snoc m db)
  obtain i sgs where m: "m = (i, sgs)" by (cases m)
  have "foldl (\<lambda>db sg. add_signal sg db) db sgs = db @ [(i, sgs)]"
    by (rule add_message) (use snoc.prems in \<open>auto simp: m\<close>)
  then show ?case using snoc by (simp add: m)
qed

definition signal_lines :: "('d \<Rightarrow> string) \<Rightarrow> string \<Rightarrow> 'd dbc_db \<Rightarrow> string list" where
  "signal_lines num rc db =
     concat (map (\<lambda>(i, sgs). print_bo (unat i) rc # map (\<lambda>sg. '' '' @ print_signal num rc sg) sgs) db)"

definition db_lines :: "('d \<Rightarrow> string) \<Rightarrow> string \<Rightarrow> 'd dbc_db \<Rightarrow> string list" where
  "db_lines num rc db = signal_lines num rc db @
     map (\<lambda>(i, nm, es). print_val i nm es) (value_lines (concat (map snd db)))"

definition db_ok :: "'d dbc_db \<Rightarrow> bool" where
  "db_ok db \<longleftrightarrow> distinct (map fst db) \<and>
     list_all (\<lambda>(i, sgs). i \<noteq> 0 \<and> sgs \<noteq> [] \<and> list_all (\<lambda>sg. sg_canId sg = i) sgs) db \<and>
     distinct (map key (concat (map snd db))) \<and>
     list_all (\<lambda>sg. signal_ok sg \<and> list_all entry_ok (sg_valueTable sg)) (concat (map snd db))"

lemma message_signals:
  assumes "number_text num stod" "tail_ok rc" "ps_canId st = i" "i \<noteq> 0"
    "list_all (\<lambda>sg. sg_canId sg = i \<and> signal_ok sg) sgs"
  shows "parse_lines stod z (map (\<lambda>sg. '' '' @ print_signal num rc sg) sgs) st =
    Some (st\<lparr>ps_signals := ps_signals st @ map clear_table sgs\<rparr>)"
  using assms(3,5)
proof (induction sgs arbitrary: st)
  case Nil
  then show ?case by simp
next
  case (Cons sg sgs)
  let ?st = "st\<lparr>ps_signals := ps_signals st @ [clear_table sg]\<rparr>"
  have "parse_line stod z ('' '' @ print_signal num rc sg) st =
      Some (st\<lparr>ps_signals := ps_signals st @ [sg\<lparr>sg_canId := ps_canId st, sg_valueTable := []\<rparr>]\<rparr>)"
    by (rule signal_line[OF assms(1) _ assms(2)]) (use Cons.prems assms(4) in simp_all)
  also have "sg\<lparr>sg_canId := ps_canId st, sg_valueTable := []\<rparr> = clear_table sg"
    using Cons.prems by (simp add: clear_table_def)
  finally have step: "parse_line stod z ('' '' @ print_signal num rc sg) st = Some ?st" .
  have "parse_lines stod z (map (\<lambda>sg. '' '' @ print_signal num rc sg) sgs) ?st =
      Some (?st\<lparr>ps_signals := ps_signals ?st @ map clear_table sgs\<rparr>)"
    by (rule Cons.IH) (use Cons.prems in simp_all)
  then show ?case using step by simp
qed

lemma messages_parse:
  assumes "number_text num stod" "tail_ok rc"
    "list_all (\<lambda>(i, sgs). i \<noteq> 0 \<and> list_all (\<lambda>sg. sg_canId sg = i \<and> signal_ok sg) sgs) db"
  shows "\<exists>i. parse_lines stod z (signal_lines num rc db) st =
    Some (st\<lparr>ps_signals := ps_signals st @ map clear_table (concat (map snd db)), ps_canId := i\<rparr>)"
  using assms(3)
proof (induction db arbitrary: st)
  case Nil
  then show ?case by (intro exI[of _ "ps_canId st"]) (simp add: signal_lines_def)
next
  case (Cons m db)
  obtain i sgs where m: "m = (i, sgs)" by (cases m)
  let ?st1 = "st\<lparr>ps_canId := i\<rparr>"
  let ?st2 = "?st1\<lparr>ps_signals := ps_signals st @ map clear_table sgs\<rparr>"
  have "parse_line stod z (print_bo (unat i) rc) st = Some ?st1"
    using bo_line[OF assms(2), of stod z "unat i" st] u16_lt[of i] by simp
  moreover have "parse_lines stod z (map (\<lambda>sg. '' '' @ print_signal num rc sg) sgs) ?st1 = Some ?st2"
    using message_signals[OF assms(1,2), of ?st1 i sgs] Cons.prems by (simp add: m)
  moreover have "signal_lines num rc (m # db) =
      (print_bo (unat i) rc # map (\<lambda>sg. '' '' @ print_signal num rc sg) sgs) @ signal_lines num rc db"
    by (simp add: signal_lines_def m)
  ultimately have "parse_lines stod z (signal_lines num rc (m # db)) st =
      parse_lines stod z (signal_lines num rc db) ?st2"
    by (simp add: parse_lines_append)
  moreover obtain k where "parse_lines stod z (signal_lines num rc db) ?st2 =
      Some (?st2\<lparr>ps_signals := ps_signals ?st2 @ map clear_table (concat (map snd db)), ps_canId := k\<rparr>)"
    using Cons.IH[of ?st2] Cons.prems by auto
  ultimately show ?case by (auto simp: m)
qed

lemma values_parse:
  "list_all (\<lambda>(i, nm, es). name_ok nm \<and> list_all entry_ok es \<and> es \<noteq> []) vs \<Longrightarrow>
   parse_lines stod z (map (\<lambda>(i, nm, es). print_val i nm es) vs) st =
     Some (st\<lparr>ps_values := ps_values st @ vs\<rparr>)"
proof (induction vs arbitrary: st)
  case (Cons v vs)
  then show ?case by (cases v) (simp add: val_line)
qed simp

lemma db_lines_no_lf:
  assumes "number_chars num" "tail_ok rc" "db_ok db"
  shows "list_all (\<lambda>l. LF \<notin> set l) (db_lines num rc db)"
proof -
  have sg: "(i, sgs) \<in> set db \<Longrightarrow> sg \<in> set sgs \<Longrightarrow> signal_ok sg \<and> list_all entry_ok (sg_valueTable sg)"
    for i sgs sg using assms(3) by (auto simp: db_ok_def list_all_iff)
  have "LF \<notin> set l" if a: "l \<in> set (signal_lines num rc db)" for l
  proof -
    obtain i sgs where d: "(i, sgs) \<in> set db"
      "l = print_bo (unat i) rc \<or> (\<exists>sg \<in> set sgs. l = '' '' @ print_signal num rc sg)"
      using a by (fastforce simp: signal_lines_def)
    from d(2) show ?thesis
    proof
      assume "l = print_bo (unat i) rc"
      then show ?thesis using no_lf(1)[OF assms(2)] by simp
    next
      assume "\<exists>sg \<in> set sgs. l = '' '' @ print_signal num rc sg"
      then obtain s where "s \<in> set sgs" "l = '' '' @ print_signal num rc s" by blast
      then show ?thesis using no_lf(2)[OF assms(1) conjunct1[OF sg[OF d(1)]] assms(2)] by metis
    qed
  qed
  moreover have "LF \<notin> set l"
    if a: "l \<in> set (map (\<lambda>(i, nm, es). print_val i nm es) (value_lines (concat (map snd db))))" for l
  proof -
    obtain i sgs s where d: "(i, sgs) \<in> set db" "s \<in> set sgs"
      "l = print_val (sg_canId s) (sg_name s) (sg_valueTable s)"
      using a by (auto simp: value_lines_def)
    then show ?thesis using sg[OF d(1,2)] no_lf(3) by (auto simp: signal_ok_def)
  qed
  ultimately show ?thesis unfolding list_all_iff db_lines_def set_append by blast
qed

text \<open>
  C10. A database written in the text format (a message line, its indented signal
  lines, then the value lines) is parsed back to itself: every signal with its position, order,
  sign, numbers, unit and value table, under the identifier of its message. The numbers are
  read by the library; all that is asked of it is that it inverts the way they were written.
\<close>

theorem database_text_roundtrip:
  assumes "number_text num stod" and "tail_ok rc" and "db_ok db"
  shows "parseString stod z (text_of (db_lines num rc db)) = db"
proof -
  let ?S = "concat (map snd db)"
  have ok: "distinct (map fst db)" "distinct (map key ?S)"
    "list_all (\<lambda>(i, sgs). i \<noteq> 0 \<and> sgs \<noteq> [] \<and> list_all (\<lambda>sg. sg_canId sg = i) sgs) db"
    "list_all (\<lambda>sg. signal_ok sg \<and> list_all entry_ok (sg_valueTable sg)) ?S"
    using assms(3) by (simp_all add: db_ok_def)
  have "number_chars num" using assms(1) by (simp add: number_text_def)
  then have g: "getlines (text_of (db_lines num rc db)) = db_lines num rc db"
    by (intro getlines_text db_lines_no_lf assms)
  have "list_all (\<lambda>(i, sgs). i \<noteq> 0 \<and> list_all (\<lambda>sg. sg_canId sg = i \<and> signal_ok sg) sgs) db"
    using ok(3,4) by (fastforce simp: list_all_iff)
  then obtain k where "parse_lines stod z (signal_lines num rc db) parse_start =
      Some (parse_start\<lparr>ps_signals := map clear_table ?S, ps_canId := k\<rparr>)"
    using messages_parse[OF assms(1,2), of db z parse_start] by (auto simp: parse_start_def)
  moreover have "list_all (\<lambda>(i, nm, es). name_ok nm \<and> list_all entry_ok es \<and> es \<noteq> []) (value_lines ?S)"
    using ok(4) by (auto simp: list_all_iff value_lines_def signal_ok_def)
  ultimately have "parse_lines stod z (db_lines num rc db) parse_start =
      Some (parse_start\<lparr>ps_signals := map clear_table ?S, ps_canId := k, ps_values := value_lines ?S\<rparr>)"
    by (simp add: db_lines_def parse_lines_append values_parse parse_start_def)
  moreover have "list_all (\<lambda>(i, sgs). sgs \<noteq> [] \<and> list_all (\<lambda>sg. sg_canId sg = i) sgs) db"
    using ok(3) by (auto simp: list_all_iff)
  ultimately show ?thesis
    by (simp add: parseString_def g buildResult_def apply_all[OF ok(2)] add_messages[OF ok(1)])
qed

text \<open>
  The identifier of a message with an extended frame format does not
  fit the 16 bits the parser reads it into. The line is then skipped, but not the signals under
  it: they are entered into the message before it, and will be decoded from that message's
  frames.
\<close>

theorem extended_message_feeds_the_one_before:
  assumes "number_text num stod" and "signal_ok sg" and "tail_ok rc"
    and "i \<noteq> 0" and "2 ^ 16 \<le> n"
  shows "parseString stod z (text_of
      [print_bo (unat i) rc, print_bo n rc, '' '' @ print_signal num rc sg]) =
    [(i, [sg\<lparr>sg_canId := i, sg_valueTable := []\<rparr>])]"
proof -
  have "number_chars num" using assms(1) by (simp add: number_text_def)
  then have g: "getlines (text_of [print_bo (unat i) rc, print_bo n rc, '' '' @ print_signal num rc sg]) =
      [print_bo (unat i) rc, print_bo n rc, '' '' @ print_signal num rc sg]"
    using no_lf(1)[OF assms(3)] no_lf(2)[OF _ assms(2,3)] by (intro getlines_text) (simp only: list.pred_inject simp_thms)
  have "parse_line stod z ('' '' @ print_signal num rc sg) (parse_start\<lparr>ps_canId := i\<rparr>) =
      Some (parse_start\<lparr>ps_canId := i, ps_signals := [sg\<lparr>sg_canId := i, sg_valueTable := []\<rparr>]\<rparr>)"
    using signal_line[OF assms(1,2,3), of "parse_start\<lparr>ps_canId := i\<rparr>" z] assms(4)
    by (simp add: parse_start_def)
  then show ?thesis
    unfolding parseString_def g
    using bo_line[OF assms(3), of stod z "unat i"] bo_line[OF assms(3), of stod z n] assms(5) u16_lt[of i]
    by (simp add: buildResult_def parse_start_def)
qed

text \<open>
  One number the library cannot read, in any signal of any
  message, empties the whole database: its exception leaves the loop over the lines, and the
  parser answers with no signals at all.
\<close>

theorem one_bad_number_empties_the_database:
  fixes num :: "'d \<Rightarrow> string" and stod :: "string \<Rightarrow> 'd option"
  assumes "number_chars num" and "signal_ok sg" and "tail_ok rc"
    and "0 < i" and "i < 2 ^ 16" and "stod (num (sg_scale sg)) = None"
    and "list_all (\<lambda>l. LF \<notin> set l) (before @ after)"
  shows "parseString stod z (text_of
      (before @ [print_bo i rc, '' '' @ print_signal num rc sg] @ after)) = []"
proof -
  let ?ls = "before @ [print_bo i rc, '' '' @ print_signal num rc sg] @ after"
  have g: "getlines (text_of ?ls) = ?ls"
    using assms(7) no_lf(1)[OF assms(3)] no_lf(2)[OF assms(1,2,3)]
    by (intro getlines_text) (simp only: list_all_append list.pred_inject simp_thms)
  have nz: "(of_nat i :: u16) \<noteq> 0"
  proof
    assume "(of_nat i :: u16) = 0"
    then have "unat (of_nat i :: u16) = 0" by simp
    then show False using assms(4,5) by (simp add: unat_of_nat take_bit_nat_eq_self)
  qed
  have "parse_lines stod z ?ls parse_start = None"
  proof (cases "parse_lines stod z before parse_start")
    case None
    then show ?thesis by (simp add: parse_lines_append)
  next
    case (Some st)
    let ?st = "st\<lparr>ps_canId := of_nat i\<rparr>"
    have "parse_line stod z (print_bo i rc) st = Some ?st"
      using bo_line[OF assms(3), of stod z i st] assms(5) by simp
    moreover have "parse_line stod z ('' '' @ print_signal num rc sg) ?st = None"
      using signal_line_any[OF _ assms(3), of ?st stod z num sg] nz
        print_signal_parse[OF assms(1,2), of stod z rc "of_nat i"] assms(6) by simp
    ultimately show ?thesis using Some by (simp add: parse_lines_append)
  qed
  then show ?thesis unfolding parseString_def g by simp
qed

section \<open>Witnesses\<close>

text \<open>Numbers written as decimal naturals, read by the library's decimal reader.\<close>

definition ex_num :: "nat \<Rightarrow> string" where "ex_num = dec_str"
definition ex_stod :: "string \<Rightarrow> nat option" where
  "ex_stod s = (if s \<noteq> [] \<and> list_all is_digit s then Some (dec_num s) else None)"

lemma ex_number_text: "number_text ex_num ex_stod"
proof -
  have "\<not> ws4 c \<and> c \<notin> {CHR '','', CHR '')'', CHR ''|'', CHR '']''}" if "c \<in> set (dec_str x)" for c x
    using dec_str_read[of x] that
    by (auto simp: list_all_iff ws4_def is_digit_def TAB_def CR_def LF_def)
  then show ?thesis
    by (simp add: number_text_def number_chars_def ex_num_def ex_stod_def dec_str_read)
qed

definition ex_gear :: "nat dbc_signal" where
  "ex_gear = \<lparr>sg_canId = 280, sg_name = ''DI_gear'', sg_startBit = 21, sg_bitLength = 3,
     sg_byteOrder = Intel, sg_scale = 1, sg_offset = 0, sg_isSigned = False, sg_unit = [],
     sg_min = 0, sg_max = 7,
     sg_valueTable = [(4, ''DI_GEAR_D''), (0, ''DI_GEAR_INVALID''), (-3, ''DI_GEAR_N'')]\<rparr>"

definition ex_pedal :: "nat dbc_signal" where
  "ex_pedal = \<lparr>sg_canId = 281, sg_name = ''pedal'', sg_startBit = 7, sg_bitLength = 16,
     sg_byteOrder = Motorola, sg_scale = 4, sg_offset = 0, sg_isSigned = True, sg_unit = ''%'',
     sg_min = 0, sg_max = 100, sg_valueTable = []\<rparr>"

lemma ex_signals_ok: "signal_ok ex_gear" "signal_ok ex_pedal" "tail_ok ''X''"
  "list_all entry_ok (sg_valueTable ex_gear)"
  by (simp_all add: signal_ok_def ex_gear_def ex_pedal_def name_ok_def unit_ok_def tail_ok_def
      entry_ok_def ws4_def TAB_def CR_def LF_def)

theorem database_text_roundtrip_witness:
  "parseString ex_stod 0 (text_of (db_lines ex_num ''X'' [(280, [ex_gear]), (281, [ex_pedal])])) =
     [(280, [ex_gear]), (281, [ex_pedal])]"
proof (rule database_text_roundtrip[OF ex_number_text ex_signals_ok(3)])
  have "sg_canId ex_gear = 280" "sg_canId ex_pedal = 281" "sg_valueTable ex_pedal = []"
    by (simp_all add: ex_gear_def ex_pedal_def)
  then show "db_ok [(280, [ex_gear]), (281, [ex_pedal])]"
    using ex_signals_ok by (simp add: db_ok_def key_def)
qed

theorem extended_message_feeds_the_one_before_witness:
  "parseString ex_stod 0 (text_of
      [print_bo (unat (264 :: u16)) ''X'', print_bo 2616986624 ''X'', '' '' @ print_signal ex_num ''X'' ex_pedal]) =
    [(264, [ex_pedal\<lparr>sg_canId := 264, sg_valueTable := []\<rparr>])]"
  by (rule extended_message_feeds_the_one_before[OF ex_number_text ex_signals_ok(2,3)]) simp_all

theorem one_bad_number_empties_the_database_witness:
  "parseString ex_stod 0 (text_of
      ([print_bo 264 ''X'', '' '' @ print_signal ex_num ''X'' ex_pedal] @
       [print_bo 280 ''X'', '' '' @ print_signal (\<lambda>_. ''abc'') ''X'' ex_gear] @ [])) = []"
proof (rule one_bad_number_empties_the_database[OF _ ex_signals_ok(1,3)])
  show "number_chars (\<lambda>_ :: nat. ''abc'')"
    by (simp add: number_chars_def ws4_def TAB_def CR_def LF_def)
  show "ex_stod ''abc'' = None" by (simp add: ex_stod_def is_digit_def)
  have "number_chars ex_num" using ex_number_text by (simp add: number_text_def)
  from no_lf(1)[OF ex_signals_ok(3)] no_lf(2)[OF this ex_signals_ok(2,3)]
  show "list_all (\<lambda>l. LF \<notin> set l)
      ([print_bo 264 ''X'', '' '' @ print_signal ex_num ''X'' ex_pedal] @ [])"
    by (simp only: list_all_append list.pred_inject simp_thms)
qed simp_all

end
