(* ===== verification/Model3_Database.thy ===== *)
theory Model3_Database
  imports DbcParser_Proofs Host_Translation
begin

text \<open>
  The signal database the program ships, \<open>src/resources/dbc/Model3CAN.dbc\<close>, line by line, and what
  \<open>DBCFileParser\<close> makes of it. The dash of the file's banner is kept as the bytes of its encoding.
\<close>

section \<open>The file\<close>

abbreviation DQ :: char where "DQ \<equiv> CHR 0x22"

text \<open>Lines 1 to 49: the version, the list of section names and the banner.\<close>

definition model3_header :: "string list" where
  "model3_header =
     [''VERSION '' @ [DQ, DQ],
      [],
      ''NS_ :'',
      [TAB] @ ''NS_DESC_'',
      [TAB] @ ''CM_'',
      [TAB] @ ''BA_DEF_'',
      [TAB] @ ''BA_'',
      [TAB] @ ''VAL_'',
      [TAB] @ ''CAT_DEF_'',
      [TAB] @ ''CAT_'',
      [TAB] @ ''FILTER'',
      [TAB] @ ''BA_DEF_DEF_'',
      [TAB] @ ''EV_DATA_'',
      [TAB] @ ''ENVVAR_DATA_'',
      [TAB] @ ''SGTYPE_'',
      [TAB] @ ''SGTYPE_VAL_'',
      [TAB] @ ''BA_DEF_SGTYPE_'',
      [TAB] @ ''BA_SGTYPE_'',
      [TAB] @ ''SIG_TYPE_REF_'',
      [TAB] @ ''VAL_TABLE_'',
      [TAB] @ ''SIG_GROUP_'',
      [TAB] @ ''SIG_VALTYPE_'',
      [TAB] @ ''SIGTYPE_VALTYPE_'',
      [TAB] @ ''BO_TX_BU_'',
      [TAB] @ ''BA_DEF_REL_'',
      [TAB] @ ''BA_REL_'',
      [TAB] @ ''BA_DEF_DEF_REL_'',
      [TAB] @ ''BU_EV_REL_'',
      [TAB] @ ''BU_BO_REL_'',
      [],
      ''BS_:'',
      [],
      ''BU_: '',
      [],
      ''// ============================================================================'',
      ''// AGGREGATE DBC '' @ [CHR 0xE2, CHR 0x80, CHR 0x94] @ '' GENERATED FILE. Do not edit by hand.'',
      ''// Regenerate with: make aggregate-dbc'',
      ''//'',
      ''// Source: external/model3dbc (joshwardell/model3dbc)'',
      ''//   pinned commit : c56c113c353d09b1a5dd57677461f02fe8b7c6ca'',
      ''//   upstream file : external/model3dbc/Model3CAN.dbc (159 msgs, 2752 sigs)'',
      ''//   allowlist     : dbc/allowlist.toml (contract hash 6b062cd66bf4)'',
      ''//   alias map     : dbc/aliases.toml   (contract hash baa6efaabf07)'',
      ''// Policy: keep only allowlisted signals; rename upstream->consumer'',
      ''//         via aliases.toml; HARD-ERROR on missing/drifting source.'',
      ''// The 0x3E2 VCLEFT_brakeLightStatus message is provided upstream by'',
      ''// joshwardell (no separate manual overlay needed).'',
      ''// ============================================================================'',
      []]"

text \<open>Lines 50 to 77: the messages and their signals.\<close>

definition model3_messages :: "string list" where
  "model3_messages =
     [''BO_ 264 ID108DIR_torque: 8 VehicleBus'',
      '' SG_ DI_torqueActual : 27|13@1- (2,0) [-7500|7500] '' @ [DQ] @ ''Nm'' @ [DQ] @ '' VehicleBus'',
      [],
      ''BO_ 280 ID118DriveSystemStatus: 8 VehicleBus'',
      '' SG_ DI_accelPedalPos : 32|8@1+ (0.4,0) [0|100] '' @ [DQ] @ ''%'' @ [DQ] @ '' VehicleBus'',
      '' SG_ DI_gear : 21|3@1+ (1,0) [0|7] '' @ [DQ, DQ] @ '' VehicleBus'',
      [],
      ''BO_ 297 ID129SteeringAngle: 8 VehicleBus'',
      '' SG_ SCCM_steeringAngle : 16|14@1+ (0.1,-819.2) [-819.2|819.1] '' @ [DQ] @ ''Deg'' @ [DQ] @
        '' VehicleBus'',
      [],
      ''BO_ 341 ID155WheelAngles: 8 ChassisBus'',
      '' SG_ ESP_wheelPulseCountReR : 24|8@1+ (1.40625,0) [0|358.594] '' @ [DQ] @ ''deg'' @ [DQ] @
        '' ChassisBus'',
      '' SG_ ESP_wheelPulseCountReL : 16|8@1+ (1.40625,0) [0|358.594] '' @ [DQ] @ ''deg'' @ [DQ] @
        '' ChassisBus'',
      '' SG_ ESP_wheelPulseCountFrR : 8|8@1+ (1.40625,0) [0|358.594] '' @ [DQ] @ ''deg'' @ [DQ] @
        '' ChassisBus'',
      '' SG_ ESP_wheelPulseCountFrL : 0|8@1+ (1.40625,0) [0|358.594] '' @ [DQ] @ ''deg'' @ [DQ] @
        '' ChassisBus'',
      [],
      ''BO_ 373 ID175WheelSpeed: 8 ChassisBus'',
      '' SG_ ESP_wheelSpeedReR : 39|13@1+ (0.04,0) [0|327.64] '' @ [DQ] @ ''KPH'' @ [DQ] @ '' ChassisBus'',
      '' SG_ ESP_wheelSpeedReL : 26|13@1+ (0.04,0) [0|327.64] '' @ [DQ] @ ''KPH'' @ [DQ] @ '' ChassisBus'',
      '' SG_ ESP_wheelSpeedFrR : 13|13@1+ (0.04,0) [0|327.64] '' @ [DQ] @ ''KPH'' @ [DQ] @ '' ChassisBus'',
      '' SG_ ESP_wheelSpeedFrL : 0|13@1+ (0.04,0) [0|327.64] '' @ [DQ] @ ''KPH'' @ [DQ] @ '' ChassisBus'',
      [],
      ''BO_ 599 ID257DIspeed: 8 VehicleBus'',
      '' SG_ DI_vehicleSpeed : 12|12@1+ (0.08,-40) [-40|285] '' @ [DQ] @ ''kph'' @ [DQ] @ '' VehicleBus'',
      [],
      ''BO_ 994 ID3E2VCLEFT_lightStatus: 7 VehicleBus'',
      '' SG_ VCLEFT_brakeLightStatus : 0|2@1+ (1,0) [0|3] '' @ [DQ, DQ] @ '' VehicleBus'',
      []]"

text \<open>Lines 78 to 87: the value tables.\<close>

definition model3_values :: "string list" where
  "model3_values =
     [''VAL_ 994 VCLEFT_brakeLightStatus 2 '' @ [DQ] @ ''LIGHT_FAULT'' @ [DQ] @ '' 0 '' @ [DQ] @
        ''LIGHT_OFF'' @ [DQ] @ '' 1 '' @ [DQ] @ ''LIGHT_ON'' @ [DQ] @ '' 3 '' @ [DQ] @ ''LIGHT_SNA'' @
        [DQ] @ '' ;'',
      ''VAL_ 373 ESP_wheelSpeedReR 8191 '' @ [DQ] @ ''SNA'' @ [DQ] @ '' ;'',
      ''VAL_ 373 ESP_wheelSpeedReL 8191 '' @ [DQ] @ ''SNA'' @ [DQ] @ '' ;'',
      ''VAL_ 373 ESP_wheelSpeedFrR 8191 '' @ [DQ] @ ''SNA'' @ [DQ] @ '' ;'',
      ''VAL_ 373 ESP_wheelSpeedFrL 8191 '' @ [DQ] @ ''SNA'' @ [DQ] @ '' ;'',
      ''VAL_ 280 DI_accelPedalPos 255 '' @ [DQ] @ ''SNA'' @ [DQ] @ '' ;'',
      ''VAL_ 280 DI_gear 4 '' @ [DQ] @ ''DI_GEAR_D'' @ [DQ] @ '' 0 '' @ [DQ] @ ''DI_GEAR_INVALID'' @
        [DQ] @ '' 3 '' @ [DQ] @ ''DI_GEAR_N'' @ [DQ] @ '' 1 '' @ [DQ] @ ''DI_GEAR_P'' @ [DQ] @ '' 2 '' @
        [DQ] @ ''DI_GEAR_R'' @ [DQ] @ '' 7 '' @ [DQ] @ ''DI_GEAR_SNA'' @ [DQ] @ '' ;'',
      ''VAL_ 599 DI_vehicleSpeed 4095 '' @ [DQ] @ ''SNA'' @ [DQ] @ '' ;'',
      ''VAL_ 264 DI_torqueActual 4096 '' @ [DQ] @ ''SNA'' @ [DQ] @ '' ;'',
      []]"

definition model3_dbc :: "string list" where
  "model3_dbc = model3_header @ model3_messages @ model3_values"

section \<open>Numbers\<close>

text \<open>
  The decimal numerals the file holds, and what is asked of \<open>std::stod\<close>: that it reads every decimal
  numeral of at most twenty characters (it throws only where no number can be formed or the
  value leaves the range of a \<open>double\<close>).
\<close>

definition decimal :: "string \<Rightarrow> bool" where
  "decimal t \<longleftrightarrow> length t \<le> 20 \<and>
     (let u = (if starts_with ''-'' t then tl t else t);
          r = dropWhile is_digit u
      in takeWhile is_digit u \<noteq> [] \<and>
         (r = [] \<or> (hd r = CHR ''.'' \<and> tl r \<noteq> [] \<and> list_all is_digit (tl r))))"

definition reads_decimals :: "(string \<Rightarrow> 'd option) \<Rightarrow> bool" where
  "reads_decimals stod \<longleftrightarrow> (\<forall>t. decimal t \<longrightarrow> stod t \<noteq> None)"

lemma decimal_read: "reads_decimals stod \<Longrightarrow> decimal t \<Longrightarrow> stod t = Some (the (stod t))"
  by (auto simp: reads_decimals_def)

section \<open>The lines without effect\<close>

definition idle_line :: "string \<Rightarrow> bool" where
  "idle_line l \<longleftrightarrow>
     (let t = dbc_trim l
      in t = [] \<or> (if starts_with ''BO_'' t then parseBoLine t = None
         else \<not> starts_with '' SG_'' t \<and> \<not> starts_with ''SG_'' t \<and>
              (starts_with ''VAL_'' t \<longrightarrow> parseValLine t = None)))"

lemma idle_parse: "idle_line l \<Longrightarrow> parse_line stod z l st = Some st"
  by (auto simp: idle_line_def parse_line_def Let_def split: if_splits)

lemma empty_line: "parse_line stod z [] st = Some st"
  by (simp add: parse_line_def dbc_trim_def trim_by_def)

lemma idle_lines: "list_all idle_line ls \<Longrightarrow> parse_lines stod z ls st = Some st"
  by (induction ls) (simp_all add: idle_parse)

lemma header_idle: "list_all idle_line model3_header"
  by (simp add: model3_header_def idle_line_def dbc_trim_def trim_by_def ws4_def TAB_def CR_def LF_def
      starts_with_def parseBoLine_def parseValLine_def find_from_def)

section \<open>The lines with effect\<close>

definition sg_line ::
    "string \<Rightarrow> nat \<Rightarrow> nat \<Rightarrow> char \<Rightarrow> char \<Rightarrow> string \<Rightarrow> string \<Rightarrow> string \<Rightarrow> string \<Rightarrow> string \<Rightarrow> string \<Rightarrow> string" where
  "sg_line nm n k b g sc off mn mx u receivers =
     '' SG_ '' @ nm @ '' : '' @ dec_str n @ ''|'' @ dec_str k @ ''@'' @ [b, g] @
     '' ('' @ sc @ '','' @ off @ '') ['' @ mn @ ''|'' @ mx @ ''] '' @ [DQ] @ u @ [DQ] @ receivers"

definition sg_of ::
    "(string \<Rightarrow> 'd) \<Rightarrow> u16 \<Rightarrow> string \<Rightarrow> u64 \<Rightarrow> u64 \<Rightarrow> bool \<Rightarrow> string \<Rightarrow> string \<Rightarrow> string \<Rightarrow> string \<Rightarrow> string \<Rightarrow>
     value_entry list \<Rightarrow> 'd dbc_signal" where
  "sg_of num i nm n k neg sc off mn mx u es =
     \<lparr>sg_canId = i, sg_name = nm, sg_startBit = n, sg_bitLength = k, sg_byteOrder = Intel,
      sg_scale = num sc, sg_offset = num off, sg_isSigned = neg, sg_unit = u,
      sg_min = num mn, sg_max = num mx, sg_valueTable = es\<rparr>"

definition plain_text :: "string \<Rightarrow> bool" where
  "plain_text t \<longleftrightarrow> list_all (\<lambda>c. \<not> ws4 c \<and> c \<notin> {CHR '','', CHR '')'', CHR ''|'', CHR '']''}) t"

lemma plain_text_chars:
  "plain_text t \<Longrightarrow> list_all (\<lambda>c. \<not> ws4 c) t \<and> CHR '','' \<notin> set t \<and> CHR '')'' \<notin> set t \<and>
    CHR ''|'' \<notin> set t \<and> CHR '']'' \<notin> set t"
  unfolding plain_text_def by (induction t) (simp_all, metis)

lemma sg_line_parse:
  assumes "ps_canId st \<noteq> 0" "name_ok nm" "unit_ok u" "tail_ok receivers" "n < 2 ^ 64" "k < 2 ^ 64"
    and "list_all plain_text [sc, off, mn, mx]" "list_all decimal [sc, off, mn, mx]" "reads_decimals stod"
  shows "parse_line stod z (sg_line nm n k (CHR ''1'') g sc off mn mx u receivers) st =
    Some (st\<lparr>ps_signals := ps_signals st @ [sg_of (the \<circ> stod) (ps_canId st) nm (of_nat n) (of_nat k)
      (g = CHR ''-'') sc off mn mx u []]\<rparr>)"
proof -
  let ?l = "''SG_ '' @ nm @ '' : '' @ dec_str n @ ''|'' @ dec_str k @ ''@'' @ CHR ''1'' # g #
     '' ('' @ sc @ '','' @ off @ '') ['' @ mn @ ''|'' @ mx @ ''] '' @ [DQ] @ u @ [DQ] @ receivers"
  let ?sg = "sg_of (the \<circ> stod) 0 nm (of_nat n) (of_nat k) False sc off mn mx u []"
  have u: "unat (of_nat n :: u64) = n" "unat (of_nat k :: u64) = k"
    using assms(5,6) by (simp_all add: unat_of_nat take_bit_nat_eq_self)
  have s: "stod sc \<noteq> None" "stod off \<noteq> None" "stod mn \<noteq> None" "stod mx \<noteq> None"
    using assms(8,9) by (simp_all add: reads_decimals_def)
  have f: "sg_name ?sg = nm" "sg_unit ?sg = u" "unat (sg_startBit ?sg) = n" "unat (sg_bitLength ?sg) = k"
    "sg_startBit ?sg = of_nat n" "sg_bitLength ?sg = of_nat k"
    by (simp_all only: sg_of_def dbc_signal.select_convs u)
  have c: "list_all (list_all (\<lambda>c. \<not> ws4 c)) [sc, off, mn, mx]" "CHR '','' \<notin> set sc" "CHR '')'' \<notin> set off"
    "CHR ''|'' \<notin> set mn" "CHR '']'' \<notin> set mx"
    using assms(7) by (simp_all add: plain_text_chars)
  obtain x1 x2 x3 x4 where x: "stod sc = Some x1" "stod off = Some x2" "stod mn = Some x3" "stod mx = Some x4"
    using s by blast
  have "parseSignalDefinition stod z ?l (ps_canId st) = Some (Some (sg_of (the \<circ> stod) (ps_canId st) nm
      (of_nat n) (of_nat k) (g = CHR ''-'') sc off mn mx u []))"
    using signal_parse[where sg = ?sg and b = "CHR ''1''" and g = g and receivers = receivers and stod = stod and z = z
      and i = "ps_canId st", unfolded f u, OF assms(2,3) c]
    by (simp add: x sg_of_def)
  moreover have "dbc_trim (sg_line nm n k (CHR ''1'') g sc off mn mx u receivers) = ?l"
    using trim_indented[of ?l] assms(4)
    by (simp add: sg_line_def tail_ok_def ws4_def TAB_def CR_def LF_def)
  moreover have "starts_with ''SG_'' ?l" "\<not> starts_with ''BO_'' ?l" "?l \<noteq> []" by (simp_all add: starts_with_def)
  ultimately show ?thesis using assms(1) by (simp add: parse_line_def Let_def)
qed

lemmas numerals = dec_str_def int_str_def digits_in.simps digit_char_def
lemmas text_checks = name_ok_def unit_ok_def tail_ok_def plain_text_def decimal_def entry_ok_def starts_with_def
  is_digit_def ws4_def TAB_def CR_def LF_def

lemma messages_lines:
  "model3_messages =
    [print_bo 264 ''ID108DIR_torque: 8 VehicleBus'',
     sg_line ''DI_torqueActual'' 27 13 (CHR ''1'') (CHR ''-'') ''2'' ''0'' ''-7500'' ''7500'' ''Nm'' '' VehicleBus'',
     [],
     print_bo 280 ''ID118DriveSystemStatus: 8 VehicleBus'',
     sg_line ''DI_accelPedalPos'' 32 8 (CHR ''1'') (CHR ''+'') ''0.4'' ''0'' ''0'' ''100'' ''%'' '' VehicleBus'',
     sg_line ''DI_gear'' 21 3 (CHR ''1'') (CHR ''+'') ''1'' ''0'' ''0'' ''7'' [] '' VehicleBus'',
     [],
     print_bo 297 ''ID129SteeringAngle: 8 VehicleBus'',
     sg_line ''SCCM_steeringAngle'' 16 14 (CHR ''1'') (CHR ''+'') ''0.1'' ''-819.2'' ''-819.2'' ''819.1'' ''Deg'' '' VehicleBus'',
     [],
     print_bo 341 ''ID155WheelAngles: 8 ChassisBus'',
     sg_line ''ESP_wheelPulseCountReR'' 24 8 (CHR ''1'') (CHR ''+'') ''1.40625'' ''0'' ''0'' ''358.594'' ''deg'' '' ChassisBus'',
     sg_line ''ESP_wheelPulseCountReL'' 16 8 (CHR ''1'') (CHR ''+'') ''1.40625'' ''0'' ''0'' ''358.594'' ''deg'' '' ChassisBus'',
     sg_line ''ESP_wheelPulseCountFrR'' 8 8 (CHR ''1'') (CHR ''+'') ''1.40625'' ''0'' ''0'' ''358.594'' ''deg'' '' ChassisBus'',
     sg_line ''ESP_wheelPulseCountFrL'' 0 8 (CHR ''1'') (CHR ''+'') ''1.40625'' ''0'' ''0'' ''358.594'' ''deg'' '' ChassisBus'',
     [],
     print_bo 373 ''ID175WheelSpeed: 8 ChassisBus'',
     sg_line ''ESP_wheelSpeedReR'' 39 13 (CHR ''1'') (CHR ''+'') ''0.04'' ''0'' ''0'' ''327.64'' ''KPH'' '' ChassisBus'',
     sg_line ''ESP_wheelSpeedReL'' 26 13 (CHR ''1'') (CHR ''+'') ''0.04'' ''0'' ''0'' ''327.64'' ''KPH'' '' ChassisBus'',
     sg_line ''ESP_wheelSpeedFrR'' 13 13 (CHR ''1'') (CHR ''+'') ''0.04'' ''0'' ''0'' ''327.64'' ''KPH'' '' ChassisBus'',
     sg_line ''ESP_wheelSpeedFrL'' 0 13 (CHR ''1'') (CHR ''+'') ''0.04'' ''0'' ''0'' ''327.64'' ''KPH'' '' ChassisBus'',
     [],
     print_bo 599 ''ID257DIspeed: 8 VehicleBus'',
     sg_line ''DI_vehicleSpeed'' 12 12 (CHR ''1'') (CHR ''+'') ''0.08'' ''-40'' ''-40'' ''285'' ''kph'' '' VehicleBus'',
     [],
     print_bo 994 ''ID3E2VCLEFT_lightStatus: 7 VehicleBus'',
     sg_line ''VCLEFT_brakeLightStatus'' 0 2 (CHR ''1'') (CHR ''+'') ''1'' ''0'' ''0'' ''3'' [] '' VehicleBus'',
     []]"
  by (simp add: model3_messages_def sg_line_def print_bo_def numerals)

lemma values_lines:
  "model3_values =
    [print_val 994 ''VCLEFT_brakeLightStatus'' [(2, ''LIGHT_FAULT''), (0, ''LIGHT_OFF''), (1, ''LIGHT_ON''), (3, ''LIGHT_SNA'')],
     print_val 373 ''ESP_wheelSpeedReR'' [(8191, ''SNA'')],
     print_val 373 ''ESP_wheelSpeedReL'' [(8191, ''SNA'')],
     print_val 373 ''ESP_wheelSpeedFrR'' [(8191, ''SNA'')],
     print_val 373 ''ESP_wheelSpeedFrL'' [(8191, ''SNA'')],
     print_val 280 ''DI_accelPedalPos'' [(255, ''SNA'')],
     print_val 280 ''DI_gear'' [(4, ''DI_GEAR_D''), (0, ''DI_GEAR_INVALID''), (3, ''DI_GEAR_N''),
       (1, ''DI_GEAR_P''), (2, ''DI_GEAR_R''), (7, ''DI_GEAR_SNA'')],
     print_val 599 ''DI_vehicleSpeed'' [(4095, ''SNA'')],
     print_val 264 ''DI_torqueActual'' [(4096, ''SNA'')],
     []]"
  by (simp add: model3_values_def print_val_def print_entries_def print_entry_def numerals)

text \<open>The database: the messages in their order, each signal with its value table.\<close>

definition model3_db :: "(string \<Rightarrow> 'd) \<Rightarrow> 'd dbc_db" where
  "model3_db num =
     [(264,
       [sg_of num 264 ''DI_torqueActual'' 27 13 True ''2'' ''0'' ''-7500'' ''7500'' ''Nm''
          [(4096, ''SNA'')]]),
      (280,
       [sg_of num 280 ''DI_accelPedalPos'' 32 8 False ''0.4'' ''0'' ''0'' ''100'' ''%''
          [(255, ''SNA'')],
        sg_of num 280 ''DI_gear'' 21 3 False ''1'' ''0'' ''0'' ''7'' []
          [(4, ''DI_GEAR_D''), (0, ''DI_GEAR_INVALID''), (3, ''DI_GEAR_N''),
           (1, ''DI_GEAR_P''), (2, ''DI_GEAR_R''), (7, ''DI_GEAR_SNA'')]]),
      (297,
       [sg_of num 297 ''SCCM_steeringAngle'' 16 14 False ''0.1'' ''-819.2'' ''-819.2'' ''819.1'' ''Deg''  []]),
      (341,
       [sg_of num 341 ''ESP_wheelPulseCountReR'' 24 8 False ''1.40625'' ''0'' ''0'' ''358.594'' ''deg''  [],
        sg_of num 341 ''ESP_wheelPulseCountReL'' 16 8 False ''1.40625'' ''0'' ''0'' ''358.594'' ''deg''  [],
        sg_of num 341 ''ESP_wheelPulseCountFrR'' 8 8 False ''1.40625'' ''0'' ''0'' ''358.594'' ''deg''  [],
        sg_of num 341 ''ESP_wheelPulseCountFrL'' 0 8 False ''1.40625'' ''0'' ''0'' ''358.594'' ''deg''  []]),
      (373,
       [sg_of num 373 ''ESP_wheelSpeedReR'' 39 13 False ''0.04'' ''0'' ''0'' ''327.64'' ''KPH''
          [(8191, ''SNA'')],
        sg_of num 373 ''ESP_wheelSpeedReL'' 26 13 False ''0.04'' ''0'' ''0'' ''327.64'' ''KPH''
          [(8191, ''SNA'')],
        sg_of num 373 ''ESP_wheelSpeedFrR'' 13 13 False ''0.04'' ''0'' ''0'' ''327.64'' ''KPH''
          [(8191, ''SNA'')],
        sg_of num 373 ''ESP_wheelSpeedFrL'' 0 13 False ''0.04'' ''0'' ''0'' ''327.64'' ''KPH''
          [(8191, ''SNA'')]]),
      (599,
       [sg_of num 599 ''DI_vehicleSpeed'' 12 12 False ''0.08'' ''-40'' ''-40'' ''285'' ''kph''
          [(4095, ''SNA'')]]),
      (994,
       [sg_of num 994 ''VCLEFT_brakeLightStatus'' 0 2 False ''1'' ''0'' ''0'' ''3'' []
          [(2, ''LIGHT_FAULT''), (0, ''LIGHT_OFF''), (1, ''LIGHT_ON''), (3, ''LIGHT_SNA'')]])]"

lemma messages_read:
  assumes "reads_decimals stod"
  shows "parse_lines stod z model3_messages \<lparr>ps_signals = [], ps_values = [], ps_canId = 0\<rparr> =
    Some \<lparr>ps_signals = map (\<lambda>sg. sg\<lparr>sg_valueTable := []\<rparr>) (concat (map snd (model3_db (the \<circ> stod)))),
      ps_values = [], ps_canId = 994\<rparr>"
  unfolding messages_lines
  by (simp add: bo_line sg_line_parse[OF _ _ _ _ _ _ _ _ assms] empty_line text_checks model3_db_def sg_of_def)

lemma values_read:
  "parse_lines stod z model3_values st = Some (st\<lparr>ps_values := ps_values st @
     [(994, ''VCLEFT_brakeLightStatus'', [(2, ''LIGHT_FAULT''), (0, ''LIGHT_OFF''), (1, ''LIGHT_ON''), (3, ''LIGHT_SNA'')]),
      (373, ''ESP_wheelSpeedReR'', [(8191, ''SNA'')]), (373, ''ESP_wheelSpeedReL'', [(8191, ''SNA'')]),
      (373, ''ESP_wheelSpeedFrR'', [(8191, ''SNA'')]), (373, ''ESP_wheelSpeedFrL'', [(8191, ''SNA'')]),
      (280, ''DI_accelPedalPos'', [(255, ''SNA'')]),
      (280, ''DI_gear'', [(4, ''DI_GEAR_D''), (0, ''DI_GEAR_INVALID''), (3, ''DI_GEAR_N''), (1, ''DI_GEAR_P''),
         (2, ''DI_GEAR_R''), (7, ''DI_GEAR_SNA'')]),
      (599, ''DI_vehicleSpeed'', [(4095, ''SNA'')]), (264, ''DI_torqueActual'', [(4096, ''SNA'')])]\<rparr>)"
  unfolding values_lines by (simp add: val_line empty_line text_checks)

lemma model3_no_lf: "list_all (\<lambda>l. LF \<notin> set l) model3_dbc"
  by (simp add: model3_dbc_def model3_header_def model3_messages_def model3_values_def LF_def TAB_def)

text \<open>What the parser makes of the shipped file, whatever floating-point numbers its numerals are read as.\<close>

lemma model3_parse:
  assumes "reads_decimals stod"
  shows "parseString stod z (text_of model3_dbc) = model3_db (the \<circ> stod)"
proof -
  note m = messages_read[OF assms, of z]
  have "parse_lines stod z model3_dbc parse_start = parse_lines stod z model3_values
      \<lparr>ps_signals = map (\<lambda>sg. sg\<lparr>sg_valueTable := []\<rparr>) (concat (map snd (model3_db (the \<circ> stod)))),
       ps_values = [], ps_canId = 994\<rparr>"
    by (simp add: model3_dbc_def parse_lines_append idle_lines[OF header_idle] m parse_start_def)
  then show ?thesis
    unfolding parseString_def getlines_text[OF model3_no_lf] values_read
    by (simp add: buildResult_def model3_db_def sg_of_def)
qed

section \<open>The fields of the shipped configuration\<close>

lemma sg_of_name [simp]: "sg_name (sg_of num i nm n k neg sc off mn mx u es) = nm"
  by (simp add: sg_of_def)

definition gear_values :: "value_entry list" where
  "gear_values = [(4, ''DI_GEAR_D''), (0, ''DI_GEAR_INVALID''), (3, ''DI_GEAR_N''),
     (1, ''DI_GEAR_P''), (2, ''DI_GEAR_R''), (7, ''DI_GEAR_SNA'')]"

definition gear_signal :: "(string \<Rightarrow> 'd) \<Rightarrow> 'd dbc_signal" where
  "gear_signal num = sg_of num 280 ''DI_gear'' 21 3 False ''1'' ''0'' ''0'' ''7'' [] gear_values"

text \<open>
  Six of the nine mappings of the configuration find their signal; the database holds none for the
  motor's speed, voltage and current.
\<close>

lemma model3_fields:
  "resolveMappings teslaModel3 (model3_db num) =
     [\<lparr>rf_kind = NumericField 0, rf_canId = 280, rf_def = Some (sg_of num 280 ''DI_accelPedalPos'' 32 8 False
         ''0.4'' ''0'' ''0'' ''100'' ''%'' [(255, ''SNA'')])\<rparr>,
      \<lparr>rf_kind = NumericField 8, rf_canId = 264, rf_def = Some (sg_of num 264 ''DI_torqueActual'' 27 13 True
         ''2'' ''0'' ''-7500'' ''7500'' ''Nm'' [(4096, ''SNA'')])\<rparr>,
      \<lparr>rf_kind = NumericField 1, rf_canId = 599, rf_def = Some (sg_of num 599 ''DI_vehicleSpeed'' 12 12 False
         ''0.08'' ''-40'' ''-40'' ''285'' ''kph'' [(4095, ''SNA'')])\<rparr>,
      \<lparr>rf_kind = GearField, rf_canId = 280, rf_def = Some (gear_signal num)\<rparr>,
      \<lparr>rf_kind = NumericField 4, rf_canId = 297, rf_def = Some (sg_of num 297 ''SCCM_steeringAngle'' 16 14 False
         ''0.1'' ''-819.2'' ''-819.2'' ''819.1'' ''Deg'' [])\<rparr>,
      \<lparr>rf_kind = BrakeLightField, rf_canId = 994, rf_def = Some (sg_of num 994 ''VCLEFT_brakeLightStatus'' 0 2 False
         ''1'' ''0'' ''0'' ''3'' [] [(2, ''LIGHT_FAULT''), (0, ''LIGHT_OFF''), (1, ''LIGHT_ON''), (3, ''LIGHT_SNA'')])\<rparr>]
     @ replicate 3 \<lparr>rf_kind = IgnoredField, rf_canId = 0, rf_def = None\<rparr>"
  unfolding resolveMappings_def model3_db_def
  by (simp add: teslaModel3_def resolve_one_def targetFor_def find_signal_def gear_signal_def gear_values_def
      numeral_3_eq_3)

end
