(* ===== verification/Translation_Proofs.thy ===== *)
theory Translation_Proofs
  imports Host_Service Model3_Database Dbc_Proofs
begin

text \<open>
  What the translation service reports: the latest frame of every message, decoded; which
  histories of loads keep its translator valid; and the gear of the shipped database.
\<close>

section \<open>The latest frames\<close>

definition payload :: "u8 list \<Rightarrow> u8 list" where
  "payload raw = take 8 (drop 2 raw)"

fun translate_run ::
    "'d fp_ops \<Rightarrow> 'd dbc_db \<Rightarrow> (u64 \<times> u8 list \<times> u64 option) list \<Rightarrow> 'd dbc_translator \<Rightarrow> 'd dbc_translator" where
  "translate_run d db [] tr = tr"
| "translate_run d db ((clock, raw, ts) # es) tr =
     translate_run d db es (snd (dbc_translate d True db clock raw ts tr))"

text \<open>The last payload of each message among the frames that are long enough.\<close>

definition latest :: "(u64 \<times> u8 list \<times> u64 option) list \<Rightarrow> frame_map" where
  "latest es i = map_option payload
     (find (\<lambda>raw. isValidPacket raw \<and> extractCANId raw = i) (rev (map (\<lambda>(_, raw, _). raw) es)))"

lemma translate_fields:
  "accumulatedFrames (snd (dbc_translate d alive db clock raw ts tr)) =
     (if isValidPacket raw then (accumulatedFrames tr)(extractCANId raw \<mapsto> payload raw)
      else accumulatedFrames tr)"
  "tr_resolved (snd (dbc_translate d alive db clock raw ts tr)) = tr_resolved tr"
  by (simp_all add: dbc_translate_def payload_def Let_def CAN_FRAME_SIZE_def CAN_DATA_OFFSET_def)

lemma run_resolved: "tr_resolved (translate_run d db es tr) = tr_resolved tr"
  by (induction es arbitrary: tr) (auto simp: translate_fields)

lemma run_append:
  "translate_run d db (es1 @ es2) tr = translate_run d db es2 (translate_run d db es1 tr)"
  by (induction es1 arbitrary: tr) auto

lemma run_latest:
  "accumulatedFrames tr = (\<lambda>_. None) \<Longrightarrow> accumulatedFrames (translate_run d db es tr) = latest es"
proof (induction es rule: rev_induct)
  case Nil
  then show ?case by (simp add: latest_def fun_eq_iff)
next
  case (snoc e es)
  obtain clock raw ts where e: "e = (clock, raw, ts)" by (cases e)
  show ?case using snoc by (auto simp: run_append e translate_fields latest_def fun_eq_iff)
qed

text \<open>
  C26. The signal a translator emits for a frame depends only on the
  last payload of every message it was given since it was made, this frame included: how the
  messages were interleaved, older frames and frames that are too short do not matter.
\<close>

theorem signals_report_the_latest_frames:
  assumes "isValidPacket raw"
  shows "fst (dbc_translate d True db clock raw ts (translate_run d db es (dbc_translator_new c db))) =
    map_option Some (build d True db (resolveMappings c db) (latest (es @ [(clock, raw, ts)]))
      (case ts of Some t \<Rightarrow> t | None \<Rightarrow> clock))"
proof -
  let ?tr = "translate_run d db es (dbc_translator_new c db)"
  have l: "accumulatedFrames ?tr = latest es"
    by (rule run_latest) (simp add: dbc_translator_new_def)
  have r: "tr_resolved ?tr = resolveMappings c db"
    by (simp add: run_resolved dbc_translator_new_def)
  have "(latest es)(extractCANId raw \<mapsto> payload raw) = latest (es @ [(clock, raw, ts)])"
    using assms by (auto simp: latest_def fun_eq_iff)
  then show ?thesis
    using assms l r by (simp add: dbc_translate_def payload_def Let_def CAN_FRAME_SIZE_def CAN_DATA_OFFSET_def)
qed

section \<open>The translator interface\<close>

text \<open>
  \<open>ISignalTranslator\<close> has two implementations. Both promise that a packet they call invalid
  changes nothing and yields no signal, that a valid one yields a signal, and that the signal
  carries the capture time, or the clock where there is none.
\<close>

definition stamp :: "u64 \<times> u8 list \<times> u64 option \<Rightarrow> u64" where
  "stamp e = (case e of (clock, raw, ts) \<Rightarrow> (case ts of Some t \<Rightarrow> t | None \<Rightarrow> clock))"

fun translate_all ::
    "(u64 \<Rightarrow> u8 list \<Rightarrow> u64 option \<Rightarrow> 's \<Rightarrow> 'd VehicleSignal option option \<times> 's) \<Rightarrow>
     (u64 \<times> u8 list \<times> u64 option) list \<Rightarrow> 's \<Rightarrow> 'd VehicleSignal list option" where
  "translate_all tr [] s = Some []"
| "translate_all tr ((clock, raw, ts) # es) s =
     (case tr clock raw ts s of
        (None, _) \<Rightarrow> None
      | (Some None, s1) \<Rightarrow> translate_all tr es s1
      | (Some (Some sig), s1) \<Rightarrow> map_option ((#) sig) (translate_all tr es s1))"

locale signal_translator =
  fixes translate :: "u64 \<Rightarrow> u8 list \<Rightarrow> u64 option \<Rightarrow> 's \<Rightarrow> 'd VehicleSignal option option \<times> 's"
    and valid :: "u8 list \<Rightarrow> bool"
  assumes invalid_ignored: "\<not> valid raw \<Longrightarrow> translate clock raw ts s = (Some None, s)"
    and valid_reported: "valid raw \<Longrightarrow> fst (translate clock raw ts s) \<noteq> Some None"
    and stamped: "fst (translate clock raw ts s) = Some (Some sig) \<Longrightarrow>
      timestampUtcMs sig = stamp (clock, raw, ts)"
begin

lemma one_signal_per_valid_frame:
  "translate_all translate es s = Some sigs \<Longrightarrow>
   map timestampUtcMs sigs = map stamp (filter (\<lambda>(_, raw, _). valid raw) es)"
proof (induction es arbitrary: s sigs)
  case Nil
  then show ?case by simp
next
  case (Cons e es)
  obtain clock raw ts where e: "e = (clock, raw, ts)" by (cases e)
  obtain r s1 where t: "translate clock raw ts s = (r, s1)" by fastforce
  show ?case
  proof (cases "valid raw")
    case False
    then show ?thesis using Cons invalid_ignored[of raw clock ts s] by (simp add: e)
  next
    case True
    then have "r \<noteq> Some None" using valid_reported[of raw clock ts s] t by simp
    then obtain sig rest where "r = Some (Some sig)" "translate_all translate es s1 = Some rest"
      "sigs = sig # rest"
      using Cons.prems t by (auto simp: e split: option.splits)
    then show ?thesis using Cons.IH[of s1 rest] stamped[of clock raw ts s sig] t True by (simp add: e)
  qed
qed

lemma only_invalid_frames_nothing:
  "list_all (\<lambda>(_, raw, _). \<not> valid raw) es \<Longrightarrow> translate_all translate es s = Some []"
  by (induction es arbitrary: s) (auto simp: invalid_ignored)

end

definition obd2_run ::
    "'d fp_ops \<Rightarrow> u64 \<Rightarrow> u8 list \<Rightarrow> u64 option \<Rightarrow> 'd obd2_translator \<Rightarrow>
     'd VehicleSignal option option \<times> 'd obd2_translator" where
  "obd2_run d clock raw ts o0 = (let (r, o1) = obd2_translate d clock raw ts o0 in (Some r, o1))"

interpretation dbc: signal_translator "dbc_translate d alive db" isValidPacket for d alive db
  by unfold_locales
    (auto simp: dbc_translate_def build_def signal_of_def stamp_def Let_def split: if_splits)

interpretation obd2: signal_translator "obd2_run d" obd2_valid for d
  by unfold_locales
    (auto simp: obd2_run_def obd2_translate_def applyUpdateAndSnapshot_def stamp_def Let_def
      split: if_splits prod.splits option.splits)

section \<open>Loads and pointers\<close>

datatype 'd service_op =
    Load string VehicleProtocol
  | LoadContent string VehicleProtocol string
  | LoadPath string VehicleProtocol string
  | Frame_in u64 "u8 list" "u64 option"

text \<open>One operation and whether it was a failed load.\<close>

definition service_step :: "'d host_env \<Rightarrow> 'd service \<Rightarrow> 'd service_op \<Rightarrow> 'd service \<times> bool" where
  "service_step h s ev =
     (case ev of
        Load v p \<Rightarrow> let (ok, s1) = loadVehicle h v p s in (s1, \<not> ok)
      | LoadContent v p t \<Rightarrow> let (ok, s1) = loadVehicleWithContent h v p t s in (s1, \<not> ok)
      | LoadPath v p f \<Rightarrow> let (ok, s1) = loadVehicleFromPath h v p f s in (s1, \<not> ok)
      | Frame_in c raw ts \<Rightarrow> (snd (processFrame h c raw ts s), False))"

fun service_run :: "'d host_env \<Rightarrow> 'd service \<Rightarrow> 'd service_op list \<Rightarrow> 'd service \<times> bool" where
  "service_run h s [] = (s, False)"
| "service_run h s (ev # es) =
     (let (s1, f1) = service_step h s ev; (s2, f2) = service_run h s1 es in (s2, f1 \<or> f2))"

definition pointers_valid :: "'d service \<Rightarrow> bool" where
  "pointers_valid s \<longleftrightarrow> (case sv_translator s of DbcTranslator gen tr \<Rightarrow> gen = sv_gen s | _ \<Rightarrow> True)"

lemma load_core_valid:
  assumes "load_core d v p parsed fail s = (True, s')" "\<And>c t. sv_gen (fail c t) = sv_gen t"
    "pointers_valid s"
  shows "pointers_valid s'"
  using assms
  by (auto simp: load_core_def Let_def pointers_valid_def resetFailure_def recordFailure_def
      split: if_splits option.splits)

lemma frame_valid: "pointers_valid s \<Longrightarrow> pointers_valid (snd (processFrame h c raw ts s))"
  by (auto simp: processFrame_def pointers_valid_def split_beta split: installed.splits)

lemma step_valid:
  assumes "pointers_valid s" "service_step h s ev = (s', False)"
  shows "pointers_valid s'"
proof (cases ev)
  case (Load v p)
  then have "loadVehicle h v p s = (True, s')" using assms(2)
    by (auto simp: service_step_def split: prod.splits)
  then show ?thesis unfolding loadVehicle_def
    by (rule load_core_valid) (simp_all add: assms(1) recordFailure_def Let_def)
next
  case (LoadContent v p t)
  then have "loadVehicleWithContent h v p t s = (True, s')" using assms(2)
    by (auto simp: service_step_def split: prod.splits)
  then show ?thesis unfolding loadVehicleWithContent_def
    by (rule load_core_valid) (simp_all add: assms(1) recordFailure_def)
next
  case (LoadPath v p f)
  then have "loadVehicleFromPath h v p f s = (True, s')" using assms(2)
    by (auto simp: service_step_def split: prod.splits)
  then show ?thesis unfolding loadVehicleFromPath_def
    by (rule load_core_valid) (simp_all add: assms(1) recordFailure_def Let_def)
next
  case (Frame_in c raw ts)
  then show ?thesis using assms frame_valid by (auto simp: service_step_def)
qed

text \<open>
  As long as no load has failed, the translator's pointers into
  the parse result are valid, whatever vehicles were loaded and whatever frames came between.
\<close>

theorem successful_loads_keep_pointers_valid:
  assumes "service_run h (service_new r) es = (s, False)"
  shows "pointers_valid s"
proof -
  have "pointers_valid s0 \<Longrightarrow> service_run h s0 es = (s, False) \<Longrightarrow> pointers_valid s" for s0
  proof (induction es arbitrary: s0)
    case Nil
    then show ?case by simp
  next
    case (Cons ev es)
    obtain s1 f1 where st: "service_step h s0 ev = (s1, f1)" by fastforce
    then have "f1 = False" "service_run h s1 es = (s, False)"
      using Cons.prems(2) by (auto split: prod.splits)
    then show ?case using Cons step_valid[of s0 h ev s1] st by blast
  qed
  moreover have "pointers_valid (service_new r)" by (simp add: service_new_def pointers_valid_def)
  ultimately show ?thesis using assms by blast
qed

text \<open>
  Loading the same vehicle again from a text without a
  signal fails and says so, but it has already replaced the parse result. The service stays
  loaded with its old translator, whose pointers now lead nowhere: the next frame that feeds a
  mapped signal is decoded through them.
\<close>

theorem failed_reload_leaves_dangling_translator:
  assumes "sv_loaded s" and "sv_translator s = DbcTranslator gen tr" and "gen \<le> sv_gen s"
    and "sv_registry s v = Some c" and "isCANProtocol c" and "p \<noteq> OBD2"
    and "parseString (he_stod h) (fp_of_int (he_fp h) 0) content = []"
    and "\<lparr>rf_kind = kind, rf_canId = extractCANId raw, rf_def = Some sg\<rparr> \<in> set (tr_resolved tr)"
    and "kind \<noteq> IgnoredField" and "isValidPacket raw"
  shows "\<exists>s1. loadVehicleWithContent h v p content s = (False, s1) \<and> sv_loaded s1 \<and>
    \<not> pointers_valid s1 \<and> fst (processFrame h clock raw ts s1) = None"
proof -
  let ?s1 = "snd (loadVehicleWithContent h v p content s)"
  have load: "fst (loadVehicleWithContent h v p content s) = False"
    "sv_loaded ?s1" "sv_translator ?s1 = DbcTranslator gen tr" "sv_gen ?s1 = sv_gen s + 1"
    using assms(1-7)
    by (simp_all add: loadVehicleWithContent_def load_core_def useCAN_def Let_def resetFailure_def
        recordFailure_def)
  have stale: "gen \<noteq> sv_gen ?s1" using assms(3) load(4) by simp
  define frames where "frames = (accumulatedFrames tr)(extractCANId raw \<mapsto> payload raw)"
  define F where "F = \<lparr>rf_kind = kind, rf_canId = extractCANId raw, rf_def = Some sg\<rparr>"
  have dead: "build_field d False db frames f sl = None \<or> build_field d False db frames f sl = Some sl"
    for d :: "'a fp_ops" and db f sl
    by (auto simp: build_field_def split: option.splits)
  have hit: "build_field d False db frames F sl = None" for d :: "'a fp_ops" and db sl
    using assms(9) by (simp add: build_field_def F_def frames_def)
  have none: "F \<in> set fs \<Longrightarrow> build_fields d False db frames fs sl = None"
    for d :: "'a fp_ops" and db fs sl
  proof (induction fs arbitrary: sl)
    case Nil
    then show ?case by simp
  next
    case (Cons f fs)
    show ?case using dead[of d db f sl] hit[of d db sl] Cons by (auto split: option.splits)
  qed
  have mem: "F \<in> set (tr_resolved tr)" using assms(8) by (simp add: F_def)
  have "fst (processFrame h clock raw ts ?s1) = None"
    using load stale assms(10) none[OF mem, unfolded frames_def]
    by (simp add: processFrame_def split_beta dbc_translate_def Let_def build_def payload_def
        CAN_FRAME_SIZE_def CAN_DATA_OFFSET_def)
  moreover have "\<not> pointers_valid ?s1" using load(3) stale by (simp add: pointers_valid_def)
  ultimately show ?thesis using load(1,2) by (intro exI[of _ ?s1]) (simp add: prod_eq_iff)
qed

section \<open>The shipped database\<close>

text \<open>A signal of the shipped database in a payload of eight bytes.\<close>

lemma sg_of_value:
  assumes "length fr = 8" "0 < unat k" "unat n + unat k \<le> 64"
  shows "mapSignal d fr (sg_of num i nm n k neg sc off mn mx u es) =
    Some (Some (clamp d (fp_add d (fp_mul d (fp_of_int d
        (if neg then signed_field (unat k) (field (le_value fr) (unat n) (unat k))
         else int (field (le_value fr) (unat n) (unat k)))) (num sc)) (num off)) (num mn) (num mx)))"
proof -
  let ?sg = "sg_of num i nm n k neg sc off mn mx u es"
  have f: "unat (extractRawBits fr ?sg) = field (le_value fr) (unat n) (unat k)"
    using raw_intel[of ?sg fr] assms by (simp add: sg_of_def)
  have r: "sg_startBit ?sg = n" "sg_bitLength ?sg = k" by (simp_all add: sg_of_def)
  have "applyScaleOffsetClamp d (extractRawBits fr ?sg) ?sg = Some (physical d ?sg (unat (extractRawBits fr ?sg)))"
    using assms by (intro physical_of_raw) (simp_all add: r f field_less)
  moreover have "\<not> of_nat (length fr) * 8 \<le> n + k - 1"
    by (rule in_range(1)) (use assms in simp_all)
  ultimately show ?thesis
    by (simp add: mapSignal_def f[unfolded sg_of_def] r physical_def sg_of_def)
qed

lemma shipped_gear_bits:
  "mapGearSignal frame 280 ''DI_gear'' (model3_db num) =
     (let v = field (le_value frame) 21 3
      in if v = 1 then Some PARK else if v = 2 then Some REVERSE else if v = 3 then Some NEUTRAL
         else if v = 4 then Some AUTO_1 else None)"
proof -
  let ?sg = "gear_signal num"
  let ?raw = "extractRawBits frame ?sg" and ?v = "field (le_value frame) 21 3"
  have raw: "unat ?raw = ?v"
    using raw_intel[of ?sg frame] by (simp add: gear_signal_def sg_of_def)
  have v: "?v < 8" using field_less[of "le_value frame" 21 3] by simp
  have s: "sint ?raw = int ?v" unfolding raw[symmetric] by (rule sint_small64) (use v raw in simp)
  have "?v = 0 \<or> ?v = 1 \<or> ?v = 2 \<or> ?v = 3 \<or> ?v = 4 \<or> ?v = 5 \<or> ?v = 6 \<or> ?v = 7" using v by linarith
  then have tab: "(if int ?v = 0 \<or> int ?v = 7 then None else mapValueTableToGear (int ?v) gear_values) =
      (if ?v = 1 then Some PARK else if ?v = 2 then Some REVERSE else if ?v = 3 then Some NEUTRAL
         else if ?v = 4 then Some AUTO_1 else None)"
    by (elim disjE) (simp_all add: gear_values_def)
  have "\<exists>sgs. map_of (model3_db num) 280 = Some sgs \<and> find_signal sgs ''DI_gear'' = Some ?sg"
    by (simp add: model3_db_def find_signal_def gear_signal_def gear_values_def)
  then have "mapGearSignal frame 280 ''DI_gear'' (model3_db num) =
      (if int ?v = 0 \<or> int ?v = 7 then None else mapValueTableToGear (int ?v) gear_values)"
    unfolding s[symmetric] by (elim exE conjE) (simp add: mapGearSignal_def Let_def gear_signal_def sg_of_def gear_values_def)
  then show ?thesis unfolding Let_def tab .
qed

definition gear_of_code :: "nat \<Rightarrow> int option" where
  "gear_of_code v = (if v = 1 then Some PARK else if v = 2 then Some REVERSE
     else if v = 3 then Some NEUTRAL else if v = 4 then Some AUTO_1 else None)"

text \<open>
  The signal the shipped configuration and database describe, from the payloads of the messages: each
  field from its bits, with the numerals of the file read by \<open>num\<close>.
\<close>

definition bits_value :: "'d fp_ops \<Rightarrow> (string \<Rightarrow> 'd) \<Rightarrow> int \<Rightarrow> string \<Rightarrow> string \<Rightarrow> string \<Rightarrow> string \<Rightarrow> 'd" where
  "bits_value d num v sc off mn mx =
     clamp d (fp_add d (fp_mul d (fp_of_int d v) (num sc)) (num off)) (num mn) (num mx)"

definition model3_signal :: "'d fp_ops \<Rightarrow> (string \<Rightarrow> 'd) \<Rightarrow> frame_map \<Rightarrow> u64 \<Rightarrow> 'd VehicleSignal" where
  "model3_signal d num frames ts =
     (let bits = (\<lambda>i n k. map_option (\<lambda>fr. field (le_value fr) n k) (frames i));
          value = (\<lambda>i n k. \<lambda>sc off mn mx. map_option (\<lambda>v. bits_value d num (int v) sc off mn mx) (bits i n k))
      in \<lparr>timestampUtcMs = ts,
          throttlePercent = value 280 32 8 ''0.4'' ''0'' ''0'' ''100'',
          speedKmh = value 599 12 12 ''0.08'' ''-40'' ''-40'' ''285'',
          accelerationG = None, brakePercent = None,
          brakeLight = map_option (\<lambda>v. fp_eq d v (fp_of_int d 1)) (value 994 0 2 ''1'' ''0'' ''0'' ''3''),
          steeringAngleDeg = value 297 16 14 ''0.1'' ''-819.2'' ''-819.2'' ''819.1'',
          motorRpm = None, motorHvVoltage = None, motorHvCurrent = None,
          motorTorqueNm = map_option (\<lambda>v. bits_value d num (signed_field 13 v) ''2'' ''0'' ''-7500'' ''7500'') (bits 264 27 13),
          gearSelector = Option.bind (bits 280 21 3) gear_of_code\<rparr>)"

lemma model3_nonempty: "model3_db num \<noteq> []"
  by (simp add: model3_db_def)

lemma numeric_field:
  assumes "\<forall>fr. frames i = Some fr \<longrightarrow> mapSignal d fr sg = Some (Some (F fr))"
    and "length (sl_numeric sl) = 9" "j < 9" "sl_numeric sl ! j = None"
  shows "build_field d True db frames \<lparr>rf_kind = NumericField j, rf_canId = i, rf_def = Some sg\<rparr> sl =
    Some (sl\<lparr>sl_numeric := (sl_numeric sl)[j := map_option F (frames i)]\<rparr>)"
  using assms by (cases "frames i") (simp_all add: build_field_def, metis list_update_id slots.surjective slots.update_convs(1))

lemma ignored_field: "build_field d alive db frames \<lparr>rf_kind = k, rf_canId = i, rf_def = None\<rparr> sl = Some sl"
  by (simp add: build_field_def)

lemma brake_field:
  assumes "\<forall>fr. frames i = Some fr \<longrightarrow> mapSignal d fr sg = Some (Some (F fr))" "sl_brakeLight sl = None"
  shows "build_field d True db frames \<lparr>rf_kind = BrakeLightField, rf_canId = i, rf_def = Some sg\<rparr> sl =
    Some (sl\<lparr>sl_brakeLight := map_option (\<lambda>fr. fp_eq d (F fr) (fp_of_int d 1)) (frames i)\<rparr>)"
  using assms by (cases "frames i") (simp_all add: build_field_def)

lemma gear_field:
  assumes "sl_gear sl = None"
  shows "build_field d True (model3_db num) frames \<lparr>rf_kind = GearField, rf_canId = 280, rf_def = Some (gear_signal num)\<rparr> sl =
    Some (sl\<lparr>sl_gear := Option.bind (frames 280) (\<lambda>fr. gear_of_code (field (le_value fr) 21 3))\<rparr>)"
proof -
  have "mapGearSignal fr 280 ''DI_gear'' (model3_db num) = gear_of_code (field (le_value fr) 21 3)" for fr
    using shipped_gear_bits[of fr num] by (simp add: gear_of_code_def Let_def)
  moreover have "sg_name (gear_signal num) = ''DI_gear''" by (simp add: gear_signal_def)
  ultimately show ?thesis using assms by (cases "frames 280") (simp_all add: build_field_def split: option.split)
qed

lemma sg_of_frame:
  assumes "\<forall>i fr. frames i = Some fr \<longrightarrow> length fr = 8" "0 < unat k" "unat n + unat k \<le> 64"
  shows "\<forall>fr. frames i = Some fr \<longrightarrow> mapSignal d fr (sg_of num i nm n k neg sc off mn mx u es) = Some (Some
      (bits_value d num (if neg then signed_field (unat k) (field (le_value fr) (unat n) (unat k))
         else int (field (le_value fr) (unat n) (unat k))) sc off mn mx))"
  using assms by (simp add: sg_of_value bits_value_def)

lemma sg_of_field:
  assumes "\<forall>i fr. frames i = Some fr \<longrightarrow> length fr = 8" "0 < unat k" "unat n + unat k \<le> 64"
    and "F = (\<lambda>fr. bits_value d num (if neg then signed_field (unat k) (field (le_value fr) (unat n) (unat k))
         else int (field (le_value fr) (unat n) (unat k))) sc off mn mx)"
  shows "length (sl_numeric sl) = 9 \<Longrightarrow> j < 9 \<Longrightarrow> sl_numeric sl ! j = None \<Longrightarrow>
      build_field d True db frames \<lparr>rf_kind = NumericField j, rf_canId = i,
        rf_def = Some (sg_of num i nm n k neg sc off mn mx u es)\<rparr> sl =
      Some (sl\<lparr>sl_numeric := (sl_numeric sl)[j := map_option F (frames i)]\<rparr>)"
    and "sl_brakeLight sl = None \<Longrightarrow>
      build_field d True db frames \<lparr>rf_kind = BrakeLightField, rf_canId = i,
        rf_def = Some (sg_of num i nm n k neg sc off mn mx u es)\<rparr> sl =
      Some (sl\<lparr>sl_brakeLight := map_option (\<lambda>fr. fp_eq d (F fr) (fp_of_int d 1)) (frames i)\<rparr>)"
  unfolding assms(4)
  by (rule numeric_field brake_field; (rule sg_of_frame)?; use assms in simp)+

lemma model3_builds:
  assumes "\<forall>i fr. frames i = Some fr \<longrightarrow> length fr = 8"
  shows "build d True (model3_db num) (resolveMappings teslaModel3 (model3_db num)) frames ts =
    Some (model3_signal d num frames ts)"
proof -
  have r: "replicate 3 x = [x, x, x]" for x :: "'a resolved_field" by (simp add: numeral_3_eq_3)
  show ?thesis
    unfolding build_def model3_fields r
    by (simp add: sg_of_field[OF assms _ _ refl] gear_field ignored_field signal_of_def model3_signal_def
        IDX_GEAR_def Let_def option.map_comp comp_def bind_map_option)
qed

lemma latest_length: "latest es i = Some fr \<Longrightarrow> length fr = 8"
  by (auto simp: latest_def payload_def isValidPacket_def CAN_FRAME_SIZE_def find_Some_iff)

text \<open>
  C35. The whole shipped file, read by the parser, and the shipped
  configuration: after any frames, a frame that is long enough yields exactly the signal whose
  fields are the bits the file names in the latest payload of each message, scaled, offset and
  clamped by the file's numerals. The configuration also maps the motor's speed, voltage and
  current, which the file does not hold: they are never reported.
\<close>

theorem the_shipped_database_decodes:
  assumes "reads_decimals stod" and "isValidPacket raw"
  shows "fst (dbc_translate d True (parseString stod z (text_of model3_dbc)) clock raw ts
      (translate_run d (parseString stod z (text_of model3_dbc)) es
        (dbc_translator_new teslaModel3 (parseString stod z (text_of model3_dbc))))) =
    Some (Some (model3_signal d (the \<circ> stod) (latest (es @ [(clock, raw, ts)]))
      (case ts of Some t \<Rightarrow> t | None \<Rightarrow> clock)))"
proof -
  let ?db = "model3_db (the \<circ> stod)" and ?c = teslaModel3
  let ?tr = "translate_run d ?db es (dbc_translator_new ?c ?db)"
  have l: "accumulatedFrames ?tr = latest es"
    by (rule run_latest) (simp add: dbc_translator_new_def)
  have r: "tr_resolved ?tr = resolveMappings ?c ?db"
    by (simp add: run_resolved dbc_translator_new_def)
  have n: "(latest es)(extractCANId raw \<mapsto> payload raw) = latest (es @ [(clock, raw, ts)])"
    using assms by (auto simp: latest_def fun_eq_iff)
  have b: "build d True ?db (resolveMappings ?c ?db) (latest (es @ [(clock, raw, ts)])) t =
      Some (model3_signal d (the \<circ> stod) (latest (es @ [(clock, raw, ts)])) t)" for t
    by (rule model3_builds) (simp add: latest_length)
  show ?thesis
    unfolding model3_parse[OF assms(1)] using assms(2) l r n b
    by (simp add: dbc_translate_def payload_def Let_def CAN_FRAME_SIZE_def CAN_DATA_OFFSET_def)
qed

text \<open>
  With the shipped database the gear of any payload is decided by its bits
  21 to 23, in the codes of the value table: 1, 2, 3 and 4 are park, reverse, neutral and drive,
  shown as P, R, N and D, and every other code, those for invalid and not available included,
  reports no gear.
\<close>

theorem shipped_gear_is_decoded:
  "mapGearSignal frame 280 ''DI_gear'' (model3_db num) =
     (let v = field (le_value frame) 21 3
      in if v = 1 then Some PARK else if v = 2 then Some REVERSE else if v = 3 then Some NEUTRAL
         else if v = 4 then Some AUTO_1 else None) \<and>
   map gear_label [PARK, REVERSE, NEUTRAL, AUTO_1] = [Some ''P'', Some ''R'', Some ''N'', Some ''D'']"
  by (intro conjI shipped_gear_bits)
    (simp add: gear_label_def PARK_def REVERSE_def NEUTRAL_def AUTO_1_def AUTO_BIT_def)

section \<open>Witnesses\<close>

definition ex_payload :: "u8 list" where
  "ex_payload = [0x18, 0x01, 0, 0, 0x20, 0, 0, 0, 0, 0]"

definition ex_strfp :: "string fp_ops" where
  "ex_strfp = \<lparr>fp_of_int = (\<lambda>_. []), fp_mul = (@), fp_add = (@), fp_sub = (@), fp_div = (@),
     fp_less = (\<lambda>_ _. False), fp_eq = (=)\<rparr>"

theorem signals_report_the_latest_frames_witness:
  "fst (dbc_translate ex_strfp True [(280, [gear_signal id])] 5 ex_payload None
      (translate_run ex_strfp [(280, [gear_signal id])] [] (dbc_translator_new teslaModel3 [(280, [gear_signal id])]))) =
    map_option Some (build ex_strfp True [(280, [gear_signal id])]
      (resolveMappings teslaModel3 [(280, [gear_signal id])])
      (latest ([] @ [(5, ex_payload, None)])) (case None of Some t \<Rightarrow> t | None \<Rightarrow> 5))"
  by (rule signals_report_the_latest_frames) (simp add: isValidPacket_def ex_payload_def CAN_FRAME_SIZE_def)

theorem the_shipped_database_decodes_witness:
  "fst (dbc_translate ex_strfp True (parseString Some [] (text_of model3_dbc)) 5 ex_payload None
      (translate_run ex_strfp (parseString Some [] (text_of model3_dbc)) [(4, [0x08, 0x01, 0, 0, 0, 8, 0, 0, 0, 0], None)]
        (dbc_translator_new teslaModel3 (parseString Some [] (text_of model3_dbc))))) =
    Some (Some (model3_signal ex_strfp (the \<circ> Some)
      (latest ([(4, [0x08, 0x01, 0, 0, 0, 8, 0, 0, 0, 0], None)] @ [(5, ex_payload, None)]))
      (case None of Some t \<Rightarrow> t | None \<Rightarrow> 5)))"
  by (rule the_shipped_database_decodes)
    (simp_all add: reads_decimals_def isValidPacket_def ex_payload_def CAN_FRAME_SIZE_def)

definition ex_env :: "string host_env" where
  "ex_env = \<lparr>he_fp = ex_strfp, he_stod = Some, he_files = (\<lambda>_. None), he_resolve = id,
     he_candidates = (\<lambda>_. [])\<rparr>"

definition ex_loads :: "string service_op list" where
  "ex_loads = [LoadContent ''tesla'' CAN (text_of model3_dbc), Frame_in 1 ex_payload None]"

lemma ex_model3: "parseString Some z (text_of model3_dbc) = model3_db id"
  using model3_parse[of Some z] by (simp add: reads_decimals_def comp_def id_def)

lemma isCANProtocol_model3: "isCANProtocol teslaModel3"
  by (simp add: teslaModel3_def)

lemma ex_load_ok:
  "loadVehicleWithContent ex_env ''tesla'' CAN (text_of model3_dbc)
     (service_new (registerAll (\<lambda>_. None))) =
   (True, (service_new (registerAll (\<lambda>_. None)))\<lparr>sv_failure := no_failure\<lparr>lf_vehicleId := ''tesla''\<rparr>,
      sv_db := model3_db id, sv_gen := 1,
      sv_translator := DbcTranslator 1
        (dbc_translator_new teslaModel3 (model3_db id)),
      sv_protocol := CAN, sv_loaded := True, sv_vehicleId := ''tesla''\<rparr>)"
  by (simp add: loadVehicleWithContent_def load_core_def useCAN_def Let_def resetFailure_def
      service_new_def registerAll_def registerVehicle_def ex_model3 model3_nonempty isCANProtocol_model3 ex_env_def ex_strfp_def)

theorem successful_loads_keep_pointers_valid_witness:
  "pointers_valid (fst (service_run ex_env (service_new (registerAll (\<lambda>_. None))) ex_loads))"
proof -
  have "snd (service_run ex_env (service_new (registerAll (\<lambda>_. None))) ex_loads) = False"
    by (simp add: ex_loads_def service_step_def split_beta ex_load_ok)
  then have "service_run ex_env (service_new (registerAll (\<lambda>_. None))) ex_loads =
      (fst (service_run ex_env (service_new (registerAll (\<lambda>_. None))) ex_loads), False)"
    by (simp add: prod_eq_iff)
  then show ?thesis by (rule successful_loads_keep_pointers_valid)
qed

theorem failed_reload_leaves_dangling_translator_witness:
  "\<exists>s1. loadVehicleWithContent ex_env ''tesla'' CAN [] (snd (loadVehicleWithContent ex_env ''tesla'' CAN
      (text_of model3_dbc) (service_new (registerAll (\<lambda>_. None))))) = (False, s1) \<and> sv_loaded s1 \<and>
    \<not> pointers_valid s1 \<and> fst (processFrame ex_env 1 ex_payload None s1) = None"
proof -
  let ?g = "gear_signal id"
  let ?s = "snd (loadVehicleWithContent ex_env ''tesla'' CAN (text_of model3_dbc)
    (service_new (registerAll (\<lambda>_. None))))"
  let ?tr = "dbc_translator_new teslaModel3 (model3_db id)"
  have s: "sv_loaded ?s" "sv_translator ?s = DbcTranslator 1 ?tr" "1 \<le> sv_gen ?s"
    "sv_registry ?s ''tesla'' = Some teslaModel3"
    unfolding ex_load_ok by (simp_all add: service_new_def registerAll_def registerVehicle_def)
  have c: "isCANProtocol teslaModel3" "CAN \<noteq> OBD2" by (simp_all add: teslaModel3_def)
  have e: "parseString (he_stod ex_env) (fp_of_int (he_fp ex_env) 0) [] = []"
    by (simp add: parseString_def parse_start_def buildResult_def)
  have m: "\<lparr>rf_kind = GearField, rf_canId = extractCANId ex_payload, rf_def = Some ?g\<rparr> \<in> set (tr_resolved ?tr)"
    by (simp add: dbc_translator_new_def model3_fields extractCANId_def ex_payload_def)
  have v: "isValidPacket ex_payload" by (simp add: isValidPacket_def ex_payload_def CAN_FRAME_SIZE_def)
  show ?thesis
    by (rule failed_reload_leaves_dangling_translator[OF s c e m _ v]) simp
qed

end
