(* ===== verification/Host_Cli.thy ===== *)
theory Host_Cli
  imports Host_Service
begin

text \<open>
  The command line of the host, under \<open>src/src/cli\<close> and its headers: the options and their
  folding (\<open>CliOptions.{h,cpp}\<close>), the time parser (\<open>TimeParser.h\<close>), the sanitiser of log output
  (\<open>LogSanitizer.cpp\<close>), the examples document, the validation of the options, and the grammar of
  a TCP target (\<open>PipelineFactory.cpp\<close>).

  The parser library CLI11 is not part of the sources: it is the record \<open>cli11\<close>, whose operations
  take the table of options the code registers. \<open>std::stod\<close> is a parameter, as in
  \<open>Host_DbcParser\<close>; the text of the examples is generated by the build and is an argument.
\<close>

section \<open>Sanitising what goes to a log\<close>

definition is_control :: "char \<Rightarrow> bool" where
  "is_control c \<longleftrightarrow> (of_char c :: nat) < 32 \<or> (of_char c :: nat) = 127"

definition forLog :: "string \<Rightarrow> string" where
  "forLog value = map (\<lambda>c. if is_control c then CHR ''?'' else c) value"

definition forLogKeepNewlines :: "string \<Rightarrow> string" where
  "forLogKeepNewlines value =
     map (\<lambda>c. if c = LF \<or> c = TAB \<or> \<not> is_control c then c else CHR ''?'') value"

section \<open>Options\<close>

record ModeFlags =
  scan_mode :: bool
  list_signals :: bool
  discover_mode :: bool
  help_requested :: bool
  led_help :: bool
  examples_requested :: bool
  help_focus :: "string list"
  help_text :: string
  examples_text :: string

record WifiProvisioningOptions =
  set_wifi_ssid :: string
  set_wifi_pass :: string
  clear_wifi_creds :: bool
  reboot_esp32 :: bool
  status_requested :: bool
  wifi_transport :: string

definition wifi_active :: "WifiProvisioningOptions \<Rightarrow> bool" where
  "wifi_active w \<longleftrightarrow>
     set_wifi_ssid w \<noteq> [] \<or> clear_wifi_creds w \<or> reboot_esp32 w \<or> status_requested w"

record 'd TelemetryOptions =
  connect_target :: string
  connect_file :: string
  connect_usb :: string
  connect_tcp :: string
  connect_ble :: bool
  connect_auto :: bool
  telemetry_format :: string
  vehicle_type :: string
  update_interval_ms :: int
  update_interval_explicit :: bool
  start_from_s :: 'd
  interactive_mode :: bool
  stdout_csv :: bool

record LoggingOptions =
  log_base :: string
  adapter_protocol :: string

record 'd CliOptions =
  o_mode :: ModeFlags
  o_wifi :: WifiProvisioningOptions
  o_telemetry :: "'d TelemetryOptions"
  o_logging :: LoggingOptions
  error_message :: string

definition default_options :: "'d fp_ops \<Rightarrow> 'd CliOptions" where
  "default_options d =
     \<lparr>o_mode = \<lparr>scan_mode = False, list_signals = False, discover_mode = False,
        help_requested = False, led_help = False, examples_requested = False, help_focus = [],
        help_text = [], examples_text = []\<rparr>,
      o_wifi = \<lparr>set_wifi_ssid = [], set_wifi_pass = [], clear_wifi_creds = False,
        reboot_esp32 = False, status_requested = False, wifi_transport = []\<rparr>,
      o_telemetry = \<lparr>connect_target = [], connect_file = [], connect_usb = [], connect_tcp = [],
        connect_ble = False, connect_auto = False, telemetry_format = ''plain'',
        vehicle_type = [], update_interval_ms = 500, update_interval_explicit = False,
        start_from_s = fp_of_int d (- 1), interactive_mode = False, stdout_csv = False\<rparr>,
      o_logging = \<lparr>log_base = [], adapter_protocol = ''raw''\<rparr>,
      error_message = []\<rparr>"

definition opt_isDemo :: "'d CliOptions \<Rightarrow> bool" where
  "opt_isDemo opts \<longleftrightarrow> connect_target (o_telemetry opts) = ''demo''"

definition opt_isFile :: "'d CliOptions \<Rightarrow> bool" where
  "opt_isFile opts \<longleftrightarrow> starts_with ''file:'' (connect_target (o_telemetry opts))"

definition opt_isTcp :: "'d CliOptions \<Rightarrow> bool" where
  "opt_isTcp opts \<longleftrightarrow> starts_with ''tcp:'' (connect_target (o_telemetry opts))"

definition opt_isUsb :: "'d CliOptions \<Rightarrow> bool" where
  "opt_isUsb opts \<longleftrightarrow> starts_with ''usb:'' (connect_target (o_telemetry opts))"

definition opt_isAuto :: "'d CliOptions \<Rightarrow> bool" where
  "opt_isAuto opts \<longleftrightarrow> connect_target (o_telemetry opts) = ''auto''"

definition opt_isBLE :: "'d CliOptions \<Rightarrow> bool" where
  "opt_isBLE opts \<longleftrightarrow> connect_target (o_telemetry opts) \<noteq> [] \<and> \<not> opt_isDemo opts \<and> \<not> opt_isFile opts
     \<and> \<not> opt_isTcp opts \<and> \<not> opt_isUsb opts \<and> \<not> opt_isAuto opts"

definition isProvisioning :: "'d CliOptions \<Rightarrow> bool" where
  "isProvisioning opts \<longleftrightarrow> wifi_active (o_wifi opts)"

section \<open>The registered options and the parser library\<close>

text \<open>Each option with its names and the number of values it takes.\<close>

definition registered_options :: "(string \<times> nat) list" where
  "registered_options =
     [(''-s,--scan'', 0), (''-l,--list'', 0), (''--discover'', 0), (''--led-help'', 0),
      (''--examples'', 0), (''-c,--connect'', 1), (''--connect-usb'', 1), (''--connect-ble'', 0),
      (''--connect-tcp'', 1), (''--connect-auto'', 0), (''--connect-file'', 1),
      (''-v,--vehicle'', 1), (''-f,--format'', 1), (''-i,--interval'', 1), (''--log'', 1),
      (''--adapter-protocol'', 1), (''--stdout-csv'', 0), (''--start-from'', 1),
      (''-k,--interactive'', 0), (''--set-wifi-creds'', 2), (''--clear-wifi-creds'', 0),
      (''--reboot'', 0), (''--status'', 0)]"

datatype parse_error = ExtrasError string | OtherParseError string

text \<open>
  What \<open>app.parse\<close> does with the arguments: the error it throws, the options it has filled in by
  then, the two values of \<open>--set-wifi-creds\<close>, and the text of \<open>--start-from\<close>. \<open>opt_names\<close> is
  \<open>get_name()\<close> of every option of the application, \<open>app_help\<close> is \<open>app.help()\<close>.
\<close>

record 'd cli11 =
  app_parse :: "(string \<times> nat) list \<Rightarrow> string list \<Rightarrow> 'd CliOptions \<Rightarrow>
    parse_error option \<times> 'd CliOptions \<times> string list \<times> string"
  app_help :: "(string \<times> nat) list \<Rightarrow> string"
  opt_names :: "(string \<times> nat) list \<Rightarrow> string list"

section \<open>Helpers of \<open>parseArgs\<close>\<close>

definition argvContainsAny :: "string list \<Rightarrow> string list \<Rightarrow> bool" where
  "argvContainsAny argv keys \<longleftrightarrow> list_ex (\<lambda>a. a \<in> set keys) (tl argv)"

definition stripLeadingDashes :: "string \<Rightarrow> string" where
  "stripLeadingDashes token = dropWhile (\<lambda>c. c = CHR ''-'') token"

definition takesValue :: "string \<Rightarrow> bool" where
  "takesValue token \<longleftrightarrow> token \<noteq> [] \<and> hd token \<noteq> CHR ''-''"

definition help_flags :: "string list" where
  "help_flags = [''--help'', ''-h'', ''--examples'']"

text \<open>The arguments after the program's name.\<close>

fun computeHelpFocus :: "string list \<Rightarrow> string list" where
  "computeHelpFocus [] = []"
| "computeHelpFocus (a # as) =
     (if a \<in> set help_flags then computeHelpFocus as
      else if stripLeadingDashes a = [] then computeHelpFocus as
      else stripLeadingDashes a #
        (case as of
           [] \<Rightarrow> []
         | b # bs \<Rightarrow> if takesValue b then computeHelpFocus bs else computeHelpFocus as))"

definition blank_or_tab :: "char \<Rightarrow> bool" where
  "blank_or_tab c \<longleftrightarrow> c = CHR '' '' \<or> c = TAB"

definition trimmed :: "string \<Rightarrow> string" where
  "trimmed sv = trim_by blank_or_tab sv"

text \<open>The pieces of a text between the occurrences of a separator.\<close>

function split_on :: "char \<Rightarrow> string \<Rightarrow> string list" where
  "split_on c s =
     (case find_from c s 0 of
        None \<Rightarrow> [s]
      | Some i \<Rightarrow> take i s # split_on c (drop (i + 1) s))"
  by pat_completeness auto
termination
  by (relation "measure (\<lambda>(c, s). length s)") (auto dest: find_from_lt)

declare split_on.simps [simp del]

definition splitCommaSeparated :: "string \<Rightarrow> string list" where
  "splitCommaSeparated raw = split_on (CHR '','') raw"

definition trimmed_names :: "string \<Rightarrow> string list" where
  "trimmed_names raw = filter (\<lambda>n. n \<noteq> []) (map trimmed (splitCommaSeparated raw))"

definition registeredOptionNames :: "'d cli11 \<Rightarrow> string list" where
  "registeredOptionNames app = concat (map trimmed_names (opt_names app registered_options))"

definition isRegisteredOption :: "'d cli11 \<Rightarrow> string \<Rightarrow> bool" where
  "isRegisteredOption app token \<longleftrightarrow> token \<in> set (registeredOptionNames app)"

text \<open>
  The arguments handed to the parser, and the error about an unknown option; the arguments are
  not used when there is an error.
\<close>

fun clean_tokens :: "(string \<Rightarrow> bool) \<Rightarrow> bool \<Rightarrow> string list \<Rightarrow> string list \<times> string" where
  "clean_tokens registered shortCircuit [] = ([], [])"
| "clean_tokens registered shortCircuit (tok # ts) =
     (if tok \<in> set help_flags \<or> \<not> shortCircuit \<or> stripLeadingDashes tok = [] then
        (let (r, e) = clean_tokens registered shortCircuit ts in (tok # r, e))
      else if 2 \<le> length tok \<and> take 2 tok = ''--'' \<and> \<not> registered tok then
        ([], ''Unknown option: '' @ tok)
      else clean_tokens registered shortCircuit ts)"

definition buildCleanArgv :: "'d cli11 \<Rightarrow> string list \<Rightarrow> bool \<Rightarrow> string list \<times> string" where
  "buildCleanArgv app argv shortCircuit =
     (let (r, e) = clean_tokens (isRegisteredOption app) shortCircuit (tl argv)
      in (hd argv # r, e))"

definition captureEarlyExitTexts ::
    "'d cli11 \<Rightarrow> string \<Rightarrow> bool \<Rightarrow> bool \<Rightarrow> 'd CliOptions \<Rightarrow> 'd CliOptions" where
  "captureEarlyExitTexts app content wantsHelp wantsExamples o0 =
     (let o1 = (if wantsExamples then
                  o0\<lparr>o_mode := (o_mode o0)\<lparr>examples_text := forLogKeepNewlines content,
                       help_requested := True\<rparr>\<rparr>
                else o0)
      in if wantsHelp then
           o1\<lparr>o_mode := (o_mode o1)\<lparr>help_text := app_help app registered_options,
                help_requested := True\<rparr>\<rparr>
         else o1)"

section \<open>Folding the options\<close>

definition foldConnectAliases :: "'d CliOptions \<Rightarrow> 'd CliOptions" where
  "foldConnectAliases o0 =
     (let t = o_telemetry o0
      in if connect_target t \<noteq> [] then o0
         else if connect_usb t \<noteq> [] then
           o0\<lparr>o_telemetry := t\<lparr>connect_target := ''usb:'' @ connect_usb t\<rparr>\<rparr>
         else if connect_auto t then o0\<lparr>o_telemetry := t\<lparr>connect_target := ''auto''\<rparr>\<rparr>
         else if connect_tcp t \<noteq> [] then
           o0\<lparr>o_telemetry := t\<lparr>connect_target := ''tcp:'' @ connect_tcp t\<rparr>\<rparr>
         else if connect_file t \<noteq> [] then
           o0\<lparr>o_telemetry := t\<lparr>connect_target := ''file:'' @ connect_file t\<rparr>\<rparr>
         else o0)"

definition foldSetWifiCreds :: "string list \<Rightarrow> 'd CliOptions \<Rightarrow> 'd CliOptions" where
  "foldSetWifiCreds setWifiArgs o0 =
     (if length setWifiArgs = 2 then
        o0\<lparr>o_wifi := (o_wifi o0)\<lparr>set_wifi_ssid := setWifiArgs ! 0,
             set_wifi_pass := setWifiArgs ! 1\<rparr>\<rparr>
      else o0)"

definition foldProvisioningTransport :: "'d CliOptions \<Rightarrow> 'd CliOptions" where
  "foldProvisioningTransport o0 =
     (if \<not> wifi_active (o_wifi o0) then o0
      else if connect_target (o_telemetry o0) = [] then
        o0\<lparr>o_wifi := (o_wifi o0)\<lparr>wifi_transport := []\<rparr>\<rparr>
      else
        o0\<lparr>o_wifi := (o_wifi o0)\<lparr>wifi_transport := connect_target (o_telemetry o0)\<rparr>,
           o_telemetry := (o_telemetry o0)\<lparr>connect_target := []\<rparr>\<rparr>)"

text \<open>
  \<open>std::getline\<close> with a colon as the end of the line gives the pieces between the colons: the
  text is not empty and does not end in one.
\<close>

definition stod_sum ::
    "'d fp_ops \<Rightarrow> (string \<Rightarrow> 'd option) \<Rightarrow> (string \<times> int) list \<Rightarrow> 'd option" where
  "stod_sum d stod parts =
     (case map (\<lambda>(t, k). map_option (\<lambda>v. if k = 1 then v else fp_mul d v (fp_of_int d k)) (stod t))
             parts of
        [Some a] \<Rightarrow> Some a
      | [Some a, Some b] \<Rightarrow> Some (fp_add d a b)
      | [Some a, Some b, Some c] \<Rightarrow> Some (fp_add d (fp_add d a b) c)
      | _ \<Rightarrow> None)"

definition parseTimecodeToSeconds :: "'d fp_ops \<Rightarrow> (string \<Rightarrow> 'd option) \<Rightarrow> string \<Rightarrow> 'd" where
  "parseTimecodeToSeconds d stod s =
     (let invalid = fp_of_int d (- 1)
      in if s = [] \<or> hd s = CHR '':'' \<or> last s = CHR '':'' then invalid
         else
           (case stod_sum d stod
                   (case split_on (CHR '':'') s of
                      [a] \<Rightarrow> [(a, 1)]
                    | [a, b] \<Rightarrow> [(a, 60), (b, 1)]
                    | [a, b, c] \<Rightarrow> [(a, 3600), (b, 60), (c, 1)]
                    | _ \<Rightarrow> []) of
              Some v \<Rightarrow> v
            | None \<Rightarrow> invalid))"

definition foldStartFrom ::
    "'d fp_ops \<Rightarrow> (string \<Rightarrow> 'd option) \<Rightarrow> string \<Rightarrow> 'd CliOptions \<Rightarrow> 'd CliOptions" where
  "foldStartFrom d stod startFromRaw o0 =
     (if startFromRaw = [] then o0
      else
        let v = parseTimecodeToSeconds d stod startFromRaw;
            o1 = o0\<lparr>o_telemetry := (o_telemetry o0)\<lparr>start_from_s := v\<rparr>\<rparr>
        in if fp_less d v (fp_of_int d 0) then
             o1\<lparr>error_message := ''Invalid --start-from time: '' @ startFromRaw
                  @ '' (expected seconds, mm:ss, or hh:mm:ss)''\<rparr>
           else o1)"

definition foldAll ::
    "'d fp_ops \<Rightarrow> (string \<Rightarrow> 'd option) \<Rightarrow> string list \<Rightarrow> string \<Rightarrow> 'd CliOptions \<Rightarrow> 'd CliOptions" where
  "foldAll d stod setWifiArgs startFromRaw o0 =
     foldStartFrom d stod startFromRaw
       (foldProvisioningTransport (foldSetWifiCreds setWifiArgs (foldConnectAliases o0)))"

definition parseArgs ::
    "'d fp_ops \<Rightarrow> (string \<Rightarrow> 'd option) \<Rightarrow> 'd cli11 \<Rightarrow> string \<Rightarrow> string list \<Rightarrow> 'd CliOptions" where
  "parseArgs d stod app content argv =
     (let wantsHelp = argvContainsAny argv [''--help'', ''-h''];
          wantsExamples = argvContainsAny argv [''--examples''];
          shortCircuit = (wantsHelp \<or> wantsExamples);
          (clean, unknown) = buildCleanArgv app argv shortCircuit
      in if unknown \<noteq> [] then (default_options d)\<lparr>error_message := unknown\<rparr>
         else
           let (err, o1, setWifiArgs, startFromRaw) =
                 app_parse app registered_options clean (default_options d);
               o2 = (case err of
                       None \<Rightarrow> o1
                     | Some (ExtrasError what) \<Rightarrow> o1\<lparr>error_message := what\<rparr>
                     | Some (OtherParseError what) \<Rightarrow>
                         if shortCircuit then o1 else o1\<lparr>error_message := what\<rparr>);
               o3 = captureEarlyExitTexts app content wantsHelp wantsExamples o2;
               o4 = (if help_requested (o_mode o3) \<or> examples_requested (o_mode o3) then
                       o3\<lparr>o_mode := (o_mode o3)\<lparr>help_focus :=
                            help_focus (o_mode o3) @ computeHelpFocus (tl argv)\<rparr>\<rparr>
                     else o3)
           in foldAll d stod setWifiArgs startFromRaw o4)"

section \<open>The examples document\<close>

record ExampleBlock =
  ex_topics :: "string list"
  ex_lines :: "string list"

record ExampleSection =
  section_name :: string
  section_blocks :: "ExampleBlock list"

definition topicMatchesFocus :: "string \<Rightarrow> string \<Rightarrow> bool" where
  "topicMatchesFocus topic focus \<longleftrightarrow>
     topic = focus \<or> starts_with (focus @ ''-'') topic \<or> starts_with (topic @ ''-'') focus"

text \<open>
  The parser's state: the sections so far, and whether a block of the last one is open.
\<close>

type_synonym examples_state = "ExampleSection list \<times> bool"

definition add_line :: "string \<Rightarrow> ExampleSection list \<Rightarrow> ExampleSection list" where
  "add_line line ss =
     (let s = last ss; b = last (section_blocks s)
      in butlast ss @
           [s\<lparr>section_blocks := butlast (section_blocks s) @ [b\<lparr>ex_lines := ex_lines b @ [line]\<rparr>]\<rparr>])"

definition examples_line :: "string \<Rightarrow> examples_state \<Rightarrow> examples_state" where
  "examples_line line st =
     (let (ss, open_block) = st; tag = dropWhile blank_or_tab line
      in if tag = [] then (if open_block then add_line line ss else ss, open_block)
         else if starts_with ''# section:'' tag then
           (ss @ [\<lparr>section_name = trimmed (drop 10 tag), section_blocks = []\<rparr>], False)
         else if starts_with ''# topic:'' tag then
           (butlast ss @ [(last ss)\<lparr>section_blocks := section_blocks (last ss) @
              [\<lparr>ex_topics = trimmed_names (drop 8 tag), ex_lines = []\<rparr>]\<rparr>], True)
         else if open_block then (add_line line ss, open_block)
         else st)"

definition parseExamplesDocument :: "string \<Rightarrow> ExampleSection list" where
  "parseExamplesDocument text =
     fst (foldl (\<lambda>st line. examples_line line st)
            ([\<lparr>section_name = [], section_blocks = []\<rparr>], False) (getlines text))"

definition block_matches :: "string list \<Rightarrow> ExampleBlock \<Rightarrow> bool" where
  "block_matches focus b \<longleftrightarrow>
     focus = [] \<or> list_ex (\<lambda>t. list_ex (\<lambda>f. topicMatchesFocus t f) focus) (ex_topics b)"

definition render_lines :: "ExampleBlock \<Rightarrow> string" where
  "render_lines b = concat (map (\<lambda>l. forLogKeepNewlines l @ [LF]) (ex_lines b))"

fun render_blocks :: "bool \<Rightarrow> ExampleBlock list \<Rightarrow> string" where
  "render_blocks firstBlock [] = []"
| "render_blocks firstBlock (b # bs) =
     (if firstBlock then [] else [LF]) @ render_lines b @ render_blocks False bs"

fun render_sections :: "string list \<Rightarrow> bool \<Rightarrow> ExampleSection list \<Rightarrow> string" where
  "render_sections focus firstSection [] = []"
| "render_sections focus firstSection (s # ss) =
     (let kept = filter (block_matches focus) (section_blocks s)
      in if kept = [] then render_sections focus firstSection ss
         else (if firstSection then [] else [LF])
           @ (if section_name s = [] then [] else forLogKeepNewlines (section_name s) @ '':'' @ [LF])
           @ render_blocks True kept @ render_sections focus False ss)"

definition renderExamples :: "ExampleSection list \<Rightarrow> string list \<Rightarrow> string" where
  "renderExamples ss focus = render_sections focus True ss @ [LF]"

definition printExamples :: "string \<Rightarrow> string list \<Rightarrow> string" where
  "printExamples content focus =
     ''EXAMPLES:'' @ [LF] @ renderExamples (parseExamplesDocument content) focus"

text \<open>The registered vehicles with their configurations, in the order the map is iterated in.\<close>

definition signal_rows :: "VehicleConfig \<Rightarrow> string" where
  "signal_rows cfg =
     concat (map (\<lambda>(s, f). ''  '' @ s @ '' -> '' @ f @ [LF]) (signalMappings cfg))"

definition printSupportedSignals :: "(string \<times> VehicleConfig) list \<Rightarrow> string" where
  "printSupportedSignals vehicles =
     concat (map (\<lambda>(vid, cfg). [LF] @ vehicleName cfg @ '' ('' @ vid @ ''):'' @ [LF]
       @ signal_rows cfg
       @ ''  Protocol: '' @ (if isCANProtocol cfg then ''CAN (DBC)'' else ''OBD2 (SAE J1979)'')
       @ [LF]) vehicles) @ [LF]"

section \<open>TCP targets\<close>

text \<open>The last colon, \<open>rfind\<close>.\<close>

definition rfind_char :: "char \<Rightarrow> string \<Rightarrow> nat option" where
  "rfind_char c s =
     (if c \<in> set s then Some (length s - 1 - length (takeWhile (\<lambda>x. x \<noteq> c) (rev s))) else None)"

text \<open>
  A port that does not fit an \<open>int\<close> makes \<open>std::stoi\<close> throw, which is caught and rejected like
  one out of range.
\<close>

definition parseTcpTarget :: "string \<Rightarrow> (string \<times> nat) option" where
  "parseTcpTarget target =
     (if \<not> starts_with ''tcp:'' target then None
      else
        let body = drop 4 target
        in if body = [] then None
           else
             (case rfind_char (CHR '':'') body of
                Some i \<Rightarrow>
                  let hostPart = take i body; portPart = drop (i + 1) body
                  in if portPart \<noteq> [] \<and> list_all is_digit portPart then
                       (if dec_num portPart < 1 \<or> 65535 < dec_num portPart then None
                        else if hostPart = [] then None
                        else Some (hostPart, dec_num portPart))
                     else Some (body, 3333)
              | None \<Rightarrow> Some (body, 3333)))"

definition toLower :: "char \<Rightarrow> char" where
  "toLower c = (if 65 \<le> (of_char c :: nat) \<and> (of_char c :: nat) \<le> 90
                 then char_of ((of_char c :: nat) + 32) else c)"

definition resolveAdapterProtocol :: "string \<Rightarrow> string \<Rightarrow> string" where
  "resolveAdapterProtocol connectTarget adapterProtocol =
     (let lowered = map toLower adapterProtocol
      in if lowered = ''raw'' \<or> lowered = ''elm327'' then lowered
         else if connectTarget = ''demo'' \<or> starts_with ''file:'' connectTarget
                 \<or> starts_with ''tcp:'' connectTarget \<or> starts_with ''usb:'' connectTarget
         then ''raw'' else ''elm327'')"

datatype source_kind = DemoSource | TcpSource string nat string | UsbSource string | NoSource

definition buildPipelineSource :: "string \<Rightarrow> string \<Rightarrow> source_kind" where
  "buildPipelineSource connectTarget adapterProtocol =
     (if connectTarget = ''demo'' then DemoSource
      else if starts_with ''tcp:'' connectTarget then
        (case parseTcpTarget connectTarget of
           None \<Rightarrow> NoSource
         | Some (host, port) \<Rightarrow> TcpSource host port adapterProtocol)
      else if starts_with ''usb:'' connectTarget then UsbSource (drop 4 connectTarget)
      else NoSource)"

section \<open>Validation\<close>

text \<open>Every check answers with an error, or with an empty text.\<close>

definition invalidVehicleLabelMsg :: "string \<Rightarrow> string \<Rightarrow> string" where
  "invalidVehicleLabelMsg reason label =
     ''Invalid --vehicle '' @ [CHR 0x27] @ forLog label @ [CHR 0x27] @ '': '' @ reason"

definition validateVehicleLabel :: "string \<Rightarrow> string" where
  "validateVehicleLabel label =
     (if 64 < length label then
        invalidVehicleLabelMsg (''label exceeds '' @ dec_str 64 @ '' characters'') label
      else if list_ex is_control label then
        invalidVehicleLabelMsg ''control characters are not allowed'' label
      else [])"

definition isInfoMode :: "'d CliOptions \<Rightarrow> bool" where
  "isInfoMode opts \<longleftrightarrow> scan_mode (o_mode opts) \<or> list_signals (o_mode opts) \<or> help_requested (o_mode opts)
     \<or> discover_mode (o_mode opts) \<or> led_help (o_mode opts) \<or> examples_requested (o_mode opts)"

definition quoted :: "string \<Rightarrow> string" where
  "quoted s = [CHR 0x27] @ s @ [CHR 0x27]"

definition validateProvisioningTransport :: "'d CliOptions \<Rightarrow> string" where
  "validateProvisioningTransport opts =
     (let t = wifi_transport (o_wifi opts)
      in if \<not> isProvisioning opts then []
         else if t = [] \<or> t = ''auto'' \<or> starts_with ''usb:'' t then []
         else if starts_with ''tcp:'' t then
           (if parseTcpTarget t \<noteq> None then []
            else ''Invalid TCP provisioning target '' @ quoted (forLog t)
              @ ''. Use --connect tcp:<host>[:<port>] with a non-empty host and a port in ''
              @ ''[1, 65535] (e.g. tcp:192.168.68.91:3333; the port defaults to 3333)'')
         else ''Provisioning transport '' @ quoted (forLog t)
           @ '' is not supported. Use --connect auto, --connect usb:<path> ''
           @ ''(e.g. usb:/dev/cu.usbserial-110), or --connect ''
           @ ''tcp:<host>[:<port>] (e.g. tcp:192.168.68.91:3333)'')"

definition validateAdapterProtocol :: "'d CliOptions \<Rightarrow> string" where
  "validateAdapterProtocol opts =
     (let p = adapter_protocol (o_logging opts)
      in if p = [] \<or> p = ''raw'' \<or> p = ''elm327'' \<or> p = ''default'' then []
         else ''Unknown --adapter-protocol '' @ quoted (forLog p) @ ''. Supported: raw, elm327'')"

definition validateConnectRequired :: "'d CliOptions \<Rightarrow> string" where
  "validateConnectRequired opts =
     (if connect_target (o_telemetry opts) \<noteq> [] \<or> interactive_mode (o_telemetry opts) \<or> isProvisioning opts
      then []
      else ''--connect is required. Use --connect demo, --connect auto, or --connect <address>'')"

definition validateInteractiveVehicleLabel :: "'d CliOptions \<Rightarrow> string" where
  "validateInteractiveVehicleLabel opts =
     (if \<not> interactive_mode (o_telemetry opts) then []
      else validateVehicleLabel (vehicle_type (o_telemetry opts)))"

text \<open>
  \<open>isDecodedTelemetryCsv\<close>: \<open>files p\<close> is the content of the file, \<open>None\<close> one that does not open.
  A file with no line at all gives no header.
\<close>

definition isDecodedTelemetryCsv :: "(string \<Rightarrow> string option) \<Rightarrow> string \<Rightarrow> bool" where
  "isDecodedTelemetryCsv files path =
     (case files path of
        None \<Rightarrow> False
      | Some content \<Rightarrow>
          (case getlines content of
             [] \<Rightarrow> False
           | header # _ \<Rightarrow> contains ''timestamp_ms'' header))"

definition validateDecodedCsvReplayLabel :: "(string \<Rightarrow> string option) \<Rightarrow> 'd CliOptions \<Rightarrow> string" where
  "validateDecodedCsvReplayLabel files opts =
     (if \<not> opt_isFile opts then []
      else if \<not> isDecodedTelemetryCsv files (drop 5 (connect_target (o_telemetry opts))) then []
      else validateVehicleLabel (vehicle_type (o_telemetry opts)))"

definition list_vehicles :: "string list \<Rightarrow> string" where
  "list_vehicles ids = concat (map (\<lambda>i. i @ '' '') ids)"

definition validateVehicle :: "registry \<Rightarrow> string list \<Rightarrow> 'd CliOptions \<Rightarrow> string" where
  "validateVehicle reg ids opts =
     (let v = vehicle_type (o_telemetry opts)
      in if v = [] then ''--vehicle is required. Available: '' @ list_vehicles ids
         else if v = ''auto'' then
           (if opt_isBLE opts then []
            else ''--vehicle auto requires a BLE connection. ''
              @ ''Use --connect <address> --vehicle auto'')
         else if reg v = None then
           ''Unsupported vehicle type '' @ quoted (forLog v) @ ''. Available: '' @ list_vehicles ids
         else [])"

definition validateOptions ::
    "(string \<Rightarrow> string option) \<Rightarrow> registry \<Rightarrow> string list \<Rightarrow> 'd CliOptions \<Rightarrow> string" where
  "validateOptions files reg ids opts =
     (if validateProvisioningTransport opts \<noteq> [] then validateProvisioningTransport opts
      else if isInfoMode opts \<or> isProvisioning opts then []
      else if validateAdapterProtocol opts \<noteq> [] then validateAdapterProtocol opts
      else if validateConnectRequired opts \<noteq> [] then validateConnectRequired opts
      else if validateInteractiveVehicleLabel opts \<noteq> [] then validateInteractiveVehicleLabel opts
      else if validateDecodedCsvReplayLabel files opts \<noteq> [] then validateDecodedCsvReplayLabel files opts
      else validateVehicle reg ids opts)"

end
