(* ===== verification/Host_Provision.thy ===== *)
theory Host_Provision
  imports Host_Cli
begin

text \<open>
  The provisioning dialogue of the host, \<open>src/src/cli/ProvisioningRunner.cpp\<close>: the serial and the
  TCP console, the transport resolver, one poll step, the two matchers, and the commands and the
  status read built on them.

  What the operating system and the peer answer is an argument: the results of the calls that
  open a port, and for the read loop the list of polls that start before the deadline, in order.
  An empty rest of that list is the deadline. Text written to the two output streams is returned.
\<close>

section \<open>The serial console\<close>

text \<open>\<open>open\<close>: the descriptor, and whether each of the calls that configure it succeeds.\<close>

record serial_open =
  so_fd :: int
  so_getattr :: bool
  so_speed :: bool
  so_setattr :: bool

text \<open>Whether the port is open, and the descriptor the object holds.\<close>

definition posix_open :: "serial_open \<Rightarrow> bool \<times> int" where
  "posix_open e =
     (if so_fd e < 0 then (False, so_fd e)
      else if \<not> so_getattr e then (False, - 1)
      else if \<not> so_speed e then (False, - 1)
      else if \<not> so_setattr e then (False, - 1)
      else (True, so_fd e))"

text \<open>\<open>writeAll\<close>: \<open>written\<close> is the result of the one \<open>write\<close>.\<close>

definition posix_writeAll :: "int \<Rightarrow> int \<Rightarrow> string \<Rightarrow> bool" where
  "posix_writeAll fd written data \<longleftrightarrow> 0 \<le> fd \<and> 0 \<le> written \<and> written = int (length data)"

section \<open>The TCP console\<close>

definition AUTH_RECV_TIMEOUT_MS :: nat where "AUTH_RECV_TIMEOUT_MS = 4000"
definition AUTH_ACK_MAX_LEN :: nat where "AUTH_ACK_MAX_LEN = 64"
definition PROVISION_TIMEOUT_S :: nat where "PROVISION_TIMEOUT_S = 120"
definition PROVISION_STATUS_TIMEOUT_S :: nat where "PROVISION_STATUS_TIMEOUT_S = 8"
definition STATUS_RECV_TIMEOUT_MS :: nat where
  "STATUS_RECV_TIMEOUT_MS = PROVISION_STATUS_TIMEOUT_S * 1000"

datatype sock_call =
    SockConnect string nat
  | SockRecvTimeout nat
  | SockNoDelay bool
  | SockSend string
  | SockClose

text \<open>
  What the socket answers while the console opens. \<open>ca_stream\<close> are the bytes the peer delivers
  before a read fails, times out or finds the connection closed.
\<close>

record console_answers =
  ca_connect :: int
  ca_timeout1 :: bool
  ca_nodelay :: bool
  ca_send :: bool
  ca_stream :: string
  ca_timeout2 :: bool

text \<open>The acknowledgement, one byte at a time: what was read and what is left in the stream.\<close>

fun read_ack :: "string \<Rightarrow> string \<Rightarrow> string \<times> string" where
  "read_ack ack [] = (ack, [])"
| "read_ack ack (c # cs) =
     (if AUTH_ACK_MAX_LEN \<le> length ack then (ack, c # cs)
      else if c = CR \<or> c = LF then (ack @ [c], cs)
      else read_ack (ack @ [c]) cs)"

text \<open>The result, whether the console is authenticated, the calls, and the unread bytes.\<close>

definition console_open ::
    "string \<Rightarrow> string \<Rightarrow> nat \<Rightarrow> console_answers \<Rightarrow> bool \<times> sock_call list \<times> string" where
  "console_open authToken host port a =
     (let c0 = [SockConnect host port]; c1 = c0 @ [SockRecvTimeout AUTH_RECV_TIMEOUT_MS];
          c2 = c1 @ [SockNoDelay True]; c3 = c2 @ [SockSend (''AUTH '' @ authToken @ [CR])];
          (ack, rest) = read_ack [] (ca_stream a);
          c4 = c3 @ [SockRecvTimeout STATUS_RECV_TIMEOUT_MS]
      in if ca_connect a < 0 then (False, c0, ca_stream a)
         else if \<not> ca_timeout1 a then (False, c1 @ [SockClose], ca_stream a)
         else if \<not> ca_nodelay a then (False, c2 @ [SockClose], ca_stream a)
         else if \<not> ca_send a then (False, c3 @ [SockClose], ca_stream a)
         else if \<not> contains ''OK'' ack then (False, c3 @ [SockClose], rest)
         else if \<not> ca_timeout2 a then (False, c4 @ [SockClose], rest)
         else (True, c4, rest))"

section \<open>One poll step\<close>

datatype PollStep = KeepPolling | Matched | Stop

datatype StopReason = NoReason | SelectError | ReadError | PeerClosed

text \<open>What one wait and read find; a read returns at most 256 bytes and at least one.\<close>

datatype poll_event = SelectFails | NothingYet | ReadFails | EndOfStream | Received string

definition SERIAL_READ_CHUNK :: nat where "SERIAL_READ_CHUNK = 256"

definition is_eol :: "char \<Rightarrow> bool" where
  "is_eol c \<longleftrightarrow> c = CR \<or> c = LF"

text \<open>The rest of a text after its first line terminator, \<open>\r\n\<close> counting as one.\<close>

definition after_eol :: "string \<Rightarrow> string" where
  "after_eol s = (if take 2 s = [CR, LF] then drop 2 s else drop 1 s)"

definition eol_of :: "string \<Rightarrow> string" where
  "eol_of s = (if take 2 s = [CR, LF] then [CR, LF] else take 1 s)"

function stripStateLines :: "string \<Rightarrow> string" where
  "stripStateLines s =
     (let line = takeWhile (\<lambda>c. \<not> is_eol c) s; r = dropWhile (\<lambda>c. \<not> is_eol c) s
      in if r = [] then s
         else (if starts_with ''[STATE]'' s then [] else line @ eol_of r)
              @ stripStateLines (after_eol r))"
  by pat_completeness auto
termination
proof (relation "measure length")
  fix s line r :: string
  assume "r = dropWhile (\<lambda>c. \<not> is_eol c) s" "r \<noteq> []"
  then have "length r \<le> length s" "length (after_eol r) < length r"
    by (simp_all add: length_dropWhile_le after_eol_def)
  then show "(after_eol r, s) \<in> measure length" by simp
qed simp

declare stripStateLines.simps [simp del]

definition makeSubstringMatcher :: "string \<Rightarrow> string \<Rightarrow> PollStep" where
  "makeSubstringMatcher expect reply =
     (if expect = [] then Matched
      else if contains expect (stripStateLines reply) then Matched else KeepPolling)"

definition PROVISION_OK_STORED :: string where "PROVISION_OK_STORED = ''stored''"
definition PROVISION_OK_CLEARED :: string where "PROVISION_OK_CLEARED = ''cleared''"
definition PROVISION_OK_REBOOT :: string where "PROVISION_OK_REBOOT = ''REBOOT''"
definition PROVISION_OK_STATUS :: string where "PROVISION_OK_STATUS = ''[STATE]''"

text \<open>The text from the marker on, if it is there.\<close>

fun from_marker :: "string \<Rightarrow> string \<Rightarrow> string option" where
  "from_marker p [] = (if p = [] then Some [] else None)"
| "from_marker p (c # s) = (if starts_with p (c # s) then Some (c # s) else from_marker p s)"

definition makeStateLineMatcher :: "string \<Rightarrow> PollStep" where
  "makeStateLineMatcher reply =
     (case from_marker PROVISION_OK_STATUS reply of
        None \<Rightarrow> KeepPolling
      | Some r \<Rightarrow> if list_ex is_eol r then Matched else KeepPolling)"

definition pollOnce ::
    "(string \<Rightarrow> PollStep) \<Rightarrow> poll_event \<Rightarrow> string \<Rightarrow> PollStep \<times> string \<times> string \<times> StopReason" where
  "pollOnce match e reply =
     (case e of
        SelectFails \<Rightarrow>
          (Stop, reply, ''[provision] Select failed on serial port'' @ [LF], SelectError)
      | NothingYet \<Rightarrow> (match reply, reply, [], NoReason)
      | ReadFails \<Rightarrow> (Stop, reply, ''[provision] Read failed on serial port'' @ [LF], ReadError)
      | EndOfStream \<Rightarrow> (Stop, reply, [], PeerClosed)
      | Received b \<Rightarrow> (match (reply @ b), reply @ b, ''[provision] <- '' @ b, NoReason))"

fun poll_loop ::
    "(string \<Rightarrow> PollStep) \<Rightarrow> poll_event list \<Rightarrow> string \<Rightarrow> PollStep \<times> string \<times> string \<times> StopReason" where
  "poll_loop match [] reply = (KeepPolling, reply, [], NoReason)"
| "poll_loop match (e # es) reply =
     (let (st, r, l, why) = pollOnce match e reply
      in if st = KeepPolling then
           (let (st2, r2, l2, why2) = poll_loop match es r in (st2, r2, l @ l2, why2))
         else (st, r, l, why))"

section \<open>Resolving the transport\<close>

definition kUsbGlobPatterns :: "string list" where
  "kUsbGlobPatterns =
     [''/dev/cu.usbserial*'', ''/dev/cu.SLAB_USBtoUART'', ''/dev/cu.wchusbserial*'']"

definition ESP32_DEFAULT_USB_PORT :: string where
  "ESP32_DEFAULT_USB_PORT = ''/dev/cu.usbserial-210''"

text \<open>\<open>glob p\<close>: the paths that match a pattern, in the order of the library call.\<close>

fun autoDetectSerialPort :: "(string \<Rightarrow> string list) \<Rightarrow> string list \<Rightarrow> string" where
  "autoDetectSerialPort glob [] = []"
| "autoDetectSerialPort glob (p # ps) =
     (case glob p of [] \<Rightarrow> autoDetectSerialPort glob ps | first # _ \<Rightarrow> first)"

definition resolveSerialPort :: "(string \<Rightarrow> string list) \<Rightarrow> string \<Rightarrow> string" where
  "resolveSerialPort glob transport =
     (if transport = [] \<or> transport = ''auto'' then
        (let detected = autoDetectSerialPort glob kUsbGlobPatterns
         in if detected \<noteq> [] then detected else ESP32_DEFAULT_USB_PORT)
      else if starts_with ''usb:'' transport then drop 4 transport
      else [])"

datatype console = SerialConsole string | TcpConsole string nat

datatype port_scheme = UsbScheme | TcpScheme

definition buildUsbPort :: "string \<Rightarrow> console option" where
  "buildUsbPort target = (if drop 4 target = [] then None else Some (SerialConsole (drop 4 target)))"

definition buildTcpPort :: "string \<Rightarrow> console option" where
  "buildTcpPort target = map_option (\<lambda>(h, p). TcpConsole h p) (parseTcpTarget target)"

definition tcpEndpoint :: "string \<Rightarrow> string" where
  "tcpEndpoint target =
     (case parseTcpTarget target of
        None \<Rightarrow> target
      | Some (h, p) \<Rightarrow> h @ '':'' @ dec_str p)"

fun scheme_label :: "port_scheme \<Rightarrow> string" where
  "scheme_label UsbScheme = ''USB serial''"
| "scheme_label TcpScheme = ''TCP console''"

fun scheme_build :: "port_scheme \<Rightarrow> string \<Rightarrow> console option" where
  "scheme_build UsbScheme t = buildUsbPort t"
| "scheme_build TcpScheme t = buildTcpPort t"

fun scheme_endpoint :: "port_scheme \<Rightarrow> string \<Rightarrow> string" where
  "scheme_endpoint UsbScheme t = drop 4 t"
| "scheme_endpoint TcpScheme t = tcpEndpoint t"

fun scheme_hint :: "port_scheme \<Rightarrow> string" where
  "scheme_hint UsbScheme = ''device detached or wrong path''"
| "scheme_hint TcpScheme =
     ''connect or AUTH failed; the device may be mid-reboot or the auth token may differ''"

definition matchScheme :: "string \<Rightarrow> port_scheme option" where
  "matchScheme target =
     (if starts_with ''usb:'' target then Some UsbScheme
      else if starts_with ''tcp:'' target then Some TcpScheme else None)"

definition normalizeTransport :: "(string \<Rightarrow> string list) \<Rightarrow> string \<Rightarrow> string" where
  "normalizeTransport glob transport =
     (if transport = [] \<or> transport = ''auto'' then ''usb:'' @ resolveSerialPort glob transport
      else transport)"

definition provisioningConsoleLabel :: "(string \<Rightarrow> string list) \<Rightarrow> string \<Rightarrow> string" where
  "provisioningConsoleLabel glob transport =
     (case matchScheme (normalizeTransport glob transport) of
        Some sch \<Rightarrow> scheme_label sch
      | None \<Rightarrow> ''device console'')"

definition createProvisioningPort :: "(string \<Rightarrow> string list) \<Rightarrow> string \<Rightarrow> console option" where
  "createProvisioningPort glob transport =
     (let target = normalizeTransport glob transport
      in case matchScheme target of
           Some sch \<Rightarrow> scheme_build sch target
         | None \<Rightarrow> None)"

definition describeProvisioningOpenFailure :: "(string \<Rightarrow> string list) \<Rightarrow> string \<Rightarrow> string" where
  "describeProvisioningOpenFailure glob transport =
     (let target = normalizeTransport glob transport
      in case matchScheme target of
           None \<Rightarrow> transport
         | Some sch \<Rightarrow>
             scheme_label sch @ '' '' @ scheme_endpoint sch target @ '' ('' @ scheme_hint sch @ '')'')"

section \<open>The commands\<close>

text \<open>
  How the port behaves during a run: whether it opens, whether the write succeeds, and the polls
  before the deadline. The result has the exit code, the two streams, and what was written.
\<close>

record port_script =
  ps_opens :: bool
  ps_writes :: bool
  ps_polls :: "poll_event list"

record prov_result =
  pr_rc :: nat
  pr_out :: string
  pr_err :: string
  pr_sent :: "string list"

definition runProvisioningCommand ::
    "port_script \<Rightarrow> string \<Rightarrow> string \<Rightarrow> nat \<Rightarrow> nat \<times> string \<times> string list" where
  "runProvisioningCommand port command expect timeoutS =
     (let frame = command @ [CR]
      in if \<not> ps_writes port then
           (1, ''[provision] Failed to write to serial port'' @ [LF], [frame])
         else
           let l0 = ''[provision] -> '' @ forLog command @ ''  (sent '' @ dec_str (length frame)
                 @ '' bytes)'' @ [LF];
               (outcome, reply, l1, why) =
                 poll_loop (makeSubstringMatcher expect) (ps_polls port) []
           in if outcome = Matched then
                (0, l0 @ l1 @ ''[provision] OK (matched '' @ quoted expect @ '')'' @ [LF], [frame])
              else
                (1, l0 @ l1 @ ''[provision] TIMEOUT: expected substring '' @ quoted expect
                   @ '' not seen within '' @ dec_str timeoutS @ ''s'' @ [LF], [frame]))"

text \<open>The exit code, what goes to the output, what goes to the errors.\<close>

definition runStatus :: "port_script \<Rightarrow> nat \<Rightarrow> nat \<times> string \<times> string" where
  "runStatus port timeoutS =
     (let (outcome, reply, l, why) = poll_loop makeStateLineMatcher (ps_polls port) []
      in if outcome = Matched then
           (case from_marker PROVISION_OK_STATUS reply of
              Some r \<Rightarrow> (0, takeWhile (\<lambda>c. \<not> is_eol c) r @ [LF], [])
            | None \<Rightarrow> (0, [], []))
         else if why = PeerClosed then
           (1, [], ''[provision] TIMEOUT: no [STATE] line received within '' @ dec_str timeoutS
              @ ''s (peer closed; '' @ dec_str (length reply) @ '' bytes received)'' @ [LF])
         else
           (1, [], ''[provision] TIMEOUT: no [STATE] line received within '' @ dec_str timeoutS
              @ ''s ('' @ dec_str (length reply) @ '' bytes received)'' @ [LF]))"

definition run_command ::
    "port_script \<Rightarrow> string \<Rightarrow> string \<Rightarrow> string \<Rightarrow> prov_result" where
  "run_command port banner command expect =
     (let (rc, log, sent) = runProvisioningCommand port command expect PROVISION_TIMEOUT_S
      in \<lparr>pr_rc = rc, pr_out = banner @ log, pr_err = [], pr_sent = sent\<rparr>)"

definition setwifi_command :: "WifiProvisioningOptions \<Rightarrow> string" where
  "setwifi_command opts = ''ATSETWIFI'' @ set_wifi_ssid opts @ '','' @ set_wifi_pass opts"

definition runProvisioning_on ::
    "(string \<Rightarrow> string list) \<Rightarrow> WifiProvisioningOptions \<Rightarrow> port_script \<Rightarrow> prov_result" where
  "runProvisioning_on glob opts port =
     (let console = provisioningConsoleLabel glob (wifi_transport opts)
      in if \<not> ps_opens port then
           \<lparr>pr_rc = 1, pr_out = [], pr_err = ''[provision] Failed to open ''
              @ forLog (describeProvisioningOpenFailure glob (wifi_transport opts)) @ [LF],
            pr_sent = []\<rparr>
         else if status_requested opts then
           (let (rc, out, err) = runStatus port PROVISION_STATUS_TIMEOUT_S
            in \<lparr>pr_rc = rc, pr_out = ''[provision] Reading [STATE] snapshot from device'' @ [LF] @ out,
                pr_err = err, pr_sent = []\<rparr>)
         else if clear_wifi_creds opts then
           run_command port (''[provision] Clearing WiFi credentials over '' @ console @ [LF])
             ''ATCLEARWIFI'' PROVISION_OK_CLEARED
         else if reboot_esp32 opts then
           run_command port (''[provision] Rebooting ESP32 over '' @ console @ [LF])
             ''ATREBOOT'' PROVISION_OK_REBOOT
         else if set_wifi_ssid opts \<noteq> [] then
           run_command port
             (''[provision] Setting WiFi credentials (SSID='' @ forLog (set_wifi_ssid opts)
                @ '') over '' @ console @ [LF])
             (setwifi_command opts) PROVISION_OK_STORED
         else
           \<lparr>pr_rc = 1, pr_out = [], pr_err = ''[provision] No provisioning operation requested.'' @ [LF],
            pr_sent = []\<rparr>)"

text \<open>\<open>behave\<close> is how the console that was built behaves.\<close>

definition runProvisioning ::
    "(string \<Rightarrow> string list) \<Rightarrow> (console \<Rightarrow> port_script) \<Rightarrow> WifiProvisioningOptions \<Rightarrow> prov_result" where
  "runProvisioning glob behave opts =
     (case createProvisioningPort glob (wifi_transport opts) of
        None \<Rightarrow> \<lparr>pr_rc = 1, pr_out = [],
                  pr_err = ''[provision] Could not resolve provisioning transport ''
                    @ quoted (forLog (wifi_transport opts)) @ [LF], pr_sent = []\<rparr>
      | Some c \<Rightarrow> runProvisioning_on glob opts (behave c))"

end
