(* ===== verification/Host_Discovery.thy ===== *)
theory Host_Discovery
  imports FW_Discovery Host_Provision
begin

text \<open>
  The discovery listener of the host, \<open>src/src/discovery/UDPDiscovery.cpp\<close> and the check of a
  signed packet, \<open>DiscoveryVerifier.cpp\<close>. The socket is the queue of datagrams that wait in it;
  the polling loop takes what happens in each window. Log output is left out.
\<close>

section \<open>Devices\<close>

definition ipv4DottedQuad :: "u32 \<Rightarrow> string" where
  "ipv4DottedQuad a =
     dec_str (unat (drop_bit 24 a AND 0xFF)) @ ''.'' @ dec_str (unat (drop_bit 16 a AND 0xFF)) @ ''.''
     @ dec_str (unat (drop_bit 8 a AND 0xFF)) @ ''.'' @ dec_str (unat (a AND 0xFF))"

record DiscoveredDevice =
  dd_deviceId :: "u8 list"
  dd_address :: string
  dd_canPort :: u16
  dd_otaPort :: u16
  dd_timestamp :: u64

definition tcpConnectionString :: "DiscoveredDevice \<Rightarrow> string" where
  "tcpConnectionString v = ''tcp:'' @ dd_address v @ '':'' @ dec_str (unat (dd_canPort v))"

section \<open>Receiving\<close>

type_synonym datagram = "u8 list \<times> u32"

text \<open>The buffer holds twice the length of a packet; a longer datagram is cut.\<close>

definition tryReceive :: "datagram \<Rightarrow> DiscoveredDevice option" where
  "tryReceive g =
     (case parse_packet (take (PACKET_LEN * 2) (fst g)) of
        None \<Rightarrow> None
      | Some p \<Rightarrow> Some \<lparr>dd_deviceId = deviceId p, dd_address = ipv4DottedQuad (snd g),
                       dd_canPort = canPort p, dd_otaPort = otaPort p,
                       dd_timestamp = timestamp p\<rparr>)"

text \<open>\<open>while (tryReceive())\<close>: a datagram that is no packet is consumed and ends the loop.\<close>

fun drain_datagrams :: "datagram list \<Rightarrow> DiscoveredDevice list \<times> datagram list" where
  "drain_datagrams [] = ([], [])"
| "drain_datagrams (g # gs) =
     (case tryReceive g of
        None \<Rightarrow> ([], gs)
      | Some v \<Rightarrow> (let (vs, rest) = drain_datagrams gs in (v # vs, rest)))"

section \<open>Polling\<close>

record udp_discovery =
  ud_listening :: bool
  ud_pending :: "DiscoveredDevice list"
  ud_queue :: "datagram list"

definition udp_start :: "bool \<Rightarrow> udp_discovery \<Rightarrow> bool \<times> udp_discovery" where
  "udp_start bound u =
     (if ud_listening u then (True, u)
      else if \<not> bound then (False, u)
      else (True, u\<lparr>ud_listening := True\<rparr>))"

definition udp_stop :: "udp_discovery \<Rightarrow> udp_discovery" where
  "udp_stop u = u\<lparr>ud_listening := False\<rparr>"

text \<open>One window: the stop token, a failing \<open>poll\<close> (interrupted or not), or what arrives in it.\<close>

datatype disc_window = WindowStop | WindowPollError bool | WindowArrivals "datagram list"

fun pollStepShouldContinue :: "disc_window \<Rightarrow> udp_discovery \<Rightarrow> bool \<times> udp_discovery" where
  "pollStepShouldContinue WindowStop u = (False, u)"
| "pollStepShouldContinue (WindowPollError eintr) u = (\<not> eintr, u)"
| "pollStepShouldContinue (WindowArrivals gs) u =
     (let (vs, rest) = drain_datagrams (ud_queue u @ gs);
          u1 = u\<lparr>ud_pending := ud_pending u @ vs, ud_queue := rest\<rparr>
      in (ud_pending u1 = [], u1))"

fun dedup_by_address :: "string list \<Rightarrow> DiscoveredDevice list \<Rightarrow> DiscoveredDevice list" where
  "dedup_by_address seen [] = []"
| "dedup_by_address seen (v # vs) =
     (if dd_address v \<in> set seen then dedup_by_address seen vs
      else v # dedup_by_address (seen @ [dd_address v]) vs)"

definition drainPendingDeduplicated :: "udp_discovery \<Rightarrow> DiscoveredDevice list \<times> udp_discovery" where
  "drainPendingDeduplicated u = (dedup_by_address [] (ud_pending u), u\<lparr>ud_pending := []\<rparr>)"

text \<open>The windows that start while the time budget lasts.\<close>

fun poll_windows :: "disc_window list \<Rightarrow> udp_discovery \<Rightarrow> udp_discovery" where
  "poll_windows [] u = u"
| "poll_windows (w # ws) u =
     (let (keepGoing, u1) = pollStepShouldContinue w u
      in if keepGoing then poll_windows ws u1 else u1)"

definition udp_poll :: "disc_window list \<Rightarrow> udp_discovery \<Rightarrow> DiscoveredDevice list \<times> udp_discovery" where
  "udp_poll ws u = drainPendingDeduplicated (poll_windows ws u)"

section \<open>Signed packets\<close>

definition isTimestampFresh :: "u64 \<Rightarrow> u64 \<Rightarrow> u64 \<Rightarrow> bool" where
  "isTimestampFresh packetTimestamp nowEpoch maxClockSkew =
     (if nowEpoch < packetTimestamp then packetTimestamp - nowEpoch \<le> maxClockSkew
      else nowEpoch - packetTimestamp \<le> maxClockSkew)"

text \<open>\<open>ed25519 sig payload key\<close>: the detached verification of the crypto library.\<close>

definition verifySignature ::
    "(u8 list \<Rightarrow> u8 list \<Rightarrow> u8 list \<Rightarrow> bool) \<Rightarrow> DiscoveryPacket \<Rightarrow> u8 list \<Rightarrow> bool" where
  "verifySignature ed25519 packet publicKey = ed25519 (signature packet) (signedPayload packet) publicKey"

definition verify_packet ::
    "(u8 list \<Rightarrow> u8 list \<Rightarrow> u8 list \<Rightarrow> bool) \<Rightarrow> DiscoveryPacket \<Rightarrow> u8 list \<Rightarrow> u64 \<Rightarrow> u64 \<Rightarrow> bool" where
  "verify_packet ed25519 packet publicKey nowEpoch maxClockSkew \<longleftrightarrow>
     isTimestampFresh (timestamp packet) nowEpoch maxClockSkew \<and>
     verifySignature ed25519 packet publicKey"

text \<open>A key file has at least 32 bytes; the first 32 are the key.\<close>

definition loadPublicKey :: "u8 list option \<Rightarrow> u8 list option" where
  "loadPublicKey file =
     (case file of
        None \<Rightarrow> None
      | Some bs \<Rightarrow> if length bs < 32 then None else Some (take 32 bs))"

end
