(* ===== verification/Host_Main.thy ===== *)
theory Host_Main
  imports Host_Discovery
begin

text \<open>
  The program's entry: \<open>src/src/main.cpp\<close> and \<open>src/src/cli/Orchestration.cpp\<close>. \<open>main_action\<close> is
  what one invocation does, with every decision the code takes from the options; the modes it
  ends in are constructors. Discovery and the file system are arguments; the banner and the
  buffering of the standard output are left out.
\<close>

section \<open>Early exits\<close>

text \<open>What is printed to the standard output before the program ends, or \<open>None\<close> to go on.\<close>

definition handleEarlyExit ::
    "string \<Rightarrow> (string \<times> VehicleConfig) list \<Rightarrow> 'd CliOptions \<Rightarrow> string option" where
  "handleEarlyExit ledTable vehicles opts =
     (let m = o_mode opts
      in if error_message opts \<noteq> [] then Some []
         else if examples_requested m then Some (printExamples (examples_text m) (help_focus m))
         else if help_requested m then
           Some (forLogKeepNewlines (help_text m)
             @ (if help_focus m \<noteq> [] \<and> examples_text m \<noteq> []
                then printExamples (examples_text m) (help_focus m) else []))
         else if list_signals m then Some (printSupportedSignals vehicles)
         else if led_help m then Some ledTable
         else None)"

section \<open>Finding the device\<close>

text \<open>\<open>net\<close>: whether the listener starts, and the devices the poll returns.\<close>

record discovery_world =
  dw_glob :: "string \<Rightarrow> string list"
  dw_starts :: bool
  dw_devices :: "DiscoveredDevice list"

definition autoDiscoverESP32 :: "discovery_world \<Rightarrow> string" where
  "autoDiscoverESP32 net =
     (let usbPath = autoDetectSerialPort (dw_glob net) kUsbGlobPatterns
      in if usbPath \<noteq> [] then ''usb:'' @ usbPath
         else if \<not> dw_starts net then []
         else (case dw_devices net of [] \<Rightarrow> [] | v # _ \<Rightarrow> tcpConnectionString v))"

definition resolveStatusTarget :: "discovery_world \<Rightarrow> 'd CliOptions \<Rightarrow> string" where
  "resolveStatusTarget net opts =
     (let t = wifi_transport (o_wifi opts);
          detected = autoDetectSerialPort (dw_glob net) kUsbGlobPatterns
      in if t \<noteq> [] \<and> t \<noteq> ''auto'' then t
         else if detected \<noteq> [] then ''usb:'' @ detected
         else autoDiscoverESP32 net)"

text \<open>The exit code and the two streams of \<open>--status\<close>.\<close>

definition runStatusFlow ::
    "discovery_world \<Rightarrow> (console \<Rightarrow> port_script) \<Rightarrow> 'd CliOptions \<Rightarrow> nat \<times> string \<times> string" where
  "runStatusFlow net behave opts =
     (let target = resolveStatusTarget net opts
      in if target = [] then
           (1, [], ''[provision] No ESP32 found on USB serial or the network. ''
              @ ''Connect the device over USB for [STATE] reads, or use ''
              @ ''--discover to scan the network manually.'' @ [LF])
         else
           (case createProvisioningPort (dw_glob net) target of
              None \<Rightarrow> (1, [], ''[provision] Could not resolve provisioning transport ''
                        @ quoted (forLog target) @ [LF])
            | Some c \<Rightarrow>
                if \<not> ps_opens (behave c) then
                  (1, [], ''[provision] Failed to open ''
                     @ forLog (describeProvisioningOpenFailure (dw_glob net) target) @ [LF])
                else runStatus (behave c) PROVISION_STATUS_TIMEOUT_S))"

section \<open>The entry\<close>

datatype 'd run_mode =
    ExitWithError string
  | ExitPrinting string
  | RunScan
  | RunDiscovery
  | RunStatusFlow
  | RunProvisioning WifiProvisioningOptions
  | RunInteractive string int bool
  | NoDeviceFound
  | RunCsvReplay string string int bool
  | RunRawReplay string string string bool 'd
  | RunLive string string string string bool
  | RunBle string string

definition runFileReplay :: "(string \<Rightarrow> string option) \<Rightarrow> 'd CliOptions \<Rightarrow> 'd run_mode" where
  "runFileReplay files opts =
     (let t = o_telemetry opts; path = drop 5 (connect_target t)
      in if isDecodedTelemetryCsv files path then
           RunCsvReplay path (vehicle_type t)
             (if update_interval_explicit t then update_interval_ms t else 0) (stdout_csv t)
         else RunRawReplay path (vehicle_type t) (log_base (o_logging opts)) (stdout_csv t)
                (start_from_s t))"

definition runTransport :: "'d CliOptions \<Rightarrow> 'd run_mode" where
  "runTransport opts =
     (let t = o_telemetry opts
      in if opt_isTcp opts \<or> opt_isDemo opts \<or> opt_isUsb opts then
           RunLive (connect_target t) (vehicle_type t)
             (resolveAdapterProtocol (connect_target t) (adapter_protocol (o_logging opts)))
             (log_base (o_logging opts)) (stdout_csv t)
         else if opt_isBLE opts then RunBle (connect_target t) (vehicle_type t)
         else ExitWithError (''No telemetry source for connect target: ''
                @ forLog (connect_target t) @ [LF]))"

definition autoDiscoverAndAssign :: "discovery_world \<Rightarrow> 'd CliOptions \<Rightarrow> 'd CliOptions option" where
  "autoDiscoverAndAssign net opts =
     (let target = autoDiscoverESP32 net
      in if target = [] then None
         else Some (opts\<lparr>o_telemetry := (o_telemetry opts)\<lparr>connect_target := target\<rparr>\<rparr>))"

definition main_dispatch ::
    "discovery_world \<Rightarrow> (string \<Rightarrow> string option) \<Rightarrow> 'd CliOptions \<Rightarrow> 'd run_mode" where
  "main_dispatch net files opts =
     (if scan_mode (o_mode opts) then RunScan
      else if discover_mode (o_mode opts) then RunDiscovery
      else if status_requested (o_wifi opts) then RunStatusFlow
      else if isProvisioning opts then RunProvisioning (o_wifi opts)
      else if interactive_mode (o_telemetry opts) then
        RunInteractive
          (if vehicle_type (o_telemetry opts) = [] then ''tesla'' else vehicle_type (o_telemetry opts))
          (update_interval_ms (o_telemetry opts)) (stdout_csv (o_telemetry opts))
      else
        (case (if opt_isAuto opts then autoDiscoverAndAssign net opts else Some opts) of
           None \<Rightarrow> NoDeviceFound
         | Some o1 \<Rightarrow> if opt_isFile o1 then runFileReplay files o1 else runTransport o1))"

definition main_action ::
    "discovery_world \<Rightarrow> (string \<Rightarrow> string option) \<Rightarrow> registry \<Rightarrow> string list \<Rightarrow> string \<Rightarrow>
     (string \<times> VehicleConfig) list \<Rightarrow> 'd CliOptions \<Rightarrow> 'd run_mode" where
  "main_action net files reg ids ledTable vehicles opts =
     (if error_message opts \<noteq> [] then ExitWithError (error_message opts @ [LF])
      else if validateOptions files reg ids opts \<noteq> [] then
        ExitWithError (validateOptions files reg ids opts @ [LF])
      else
        (case handleEarlyExit ledTable vehicles opts of
           Some out \<Rightarrow> ExitPrinting out
         | None \<Rightarrow> main_dispatch net files opts))"

section \<open>Vehicle context\<close>

text \<open>
  \<open>VehicleConfigResolver::resolve\<close>: an exception is the message it carries; otherwise the
  configuration with its protocol, and the service after the load.
\<close>

definition not_found_message :: "string \<Rightarrow> string list \<Rightarrow> string" where
  "not_found_message vehicleType available =
     ''Vehicle config not found: '' @ forLog vehicleType @ [LF] @ ''Available vehicles: ''
     @ list_vehicles available"

definition or_none :: "string \<Rightarrow> string" where
  "or_none s = (if s = [] then ''(none)'' else s)"

definition load_message :: "string \<Rightarrow> load_failure \<Rightarrow> string" where
  "load_message vehicleType f =
     ''Failed to load DBC for vehicle: '' @ forLog vehicleType @ [LF]
     @ ''Failed stage: '' @ stageLabel (lf_stage f) @ [LF]
     @ ''DBC resource: '' @ or_none (lf_resourcePath f) @ [LF]
     @ ''Resolved DBC path: '' @ or_none (lf_resolvedPath f) @ [LF]
     @ (if lf_candidatesTried f = [] then ''Paths tried: (none)'' @ [LF]
        else ''Paths tried:'' @ [LF]
          @ concat (map (\<lambda>p. ''  - '' @ p @ [LF]) (lf_candidatesTried f)))"

definition resolveVehicle ::
    "'d host_env \<Rightarrow> string list \<Rightarrow> string \<Rightarrow> 'd service \<Rightarrow>
     (string + VehicleConfig \<times> VehicleProtocol) \<times> 'd service" where
  "resolveVehicle h ids vehicleType s =
     (case sv_registry s vehicleType of
        None \<Rightarrow> (Inl (not_found_message vehicleType ids), s)
      | Some c \<Rightarrow>
          let protocol = (if isCANProtocol c then CAN else OBD2);
              (ok, s1) = loadVehicle h vehicleType protocol s
          in if ok then (Inr (c, protocol), s1)
             else (Inl (load_message vehicleType (sv_failure s1)), s1))"

end
