(* ===== verification/Provision_Proofs.thy ===== *)
theory Provision_Proofs
  imports FW_AtCommands_Proofs FW_Tcp FW_CanBridge Host_Provision
begin

text \<open>
  The provisioning dialogue of the host against the device: the reply filter and the matchers,
  the poll loop under every chunking of the device's output, the console's authentication
  against the firmware's server, and the command from the command line to the radio.
\<close>

section \<open>Substrings\<close>

lemma starts_with_iff: "starts_with p s \<longleftrightarrow> (\<exists>v. s = p @ v)"
  by (metis starts_with_append starts_with_split)

lemma contains_iff: "contains p s \<longleftrightarrow> (\<exists>u v. s = u @ p @ v)"
proof (induction s)
  case (Cons c s)
  have "(\<exists>u v. c # s = u @ p @ v) \<longleftrightarrow> (\<exists>v. c # s = p @ v) \<or> (\<exists>u v. s = u @ p @ v)" (is "?l \<longleftrightarrow> ?r")
  proof
    assume ?l
    then obtain u v where "c # s = u @ p @ v" by blast
    then show ?r by (cases u) auto
  next
    show "?r \<Longrightarrow> ?l" by (metis append_Cons append_Nil)
  qed
  then show ?case using Cons by (simp add: starts_with_iff)
qed auto

lemma contains_mid [simp]: "contains p (u @ p @ v)"
  by (auto simp: contains_iff)

lemma contains_Nil [simp]: "contains [] s"
  by (cases s) (simp_all add: starts_with_def)

lemma contains_appendI1: "contains p s \<Longrightarrow> contains p (s @ t)"
  unfolding contains_iff by (metis append.assoc)

lemma contains_appendI2: "contains p t \<Longrightarrow> contains p (s @ t)"
  unfolding contains_iff by (metis append.assoc)

text \<open>A word without line terminators does not reach over one.\<close>

definition eol_free :: "string \<Rightarrow> bool" where
  "eol_free s \<longleftrightarrow> list_all (\<lambda>c. \<not> is_eol c) s"

lemma contains_over_eol:
  assumes "contains p (s @ e # t)" "is_eol e" "eol_free p"
  shows "contains p s \<or> contains p t"
proof -
  obtain u v where uv: "s @ e # t = u @ p @ v" using assms(1) by (auto simp: contains_iff)
  have e: "e \<notin> set p" using assms(2,3) by (auto simp: eol_free_def list_all_iff)
  from uv consider a where "s = u @ a" "a @ e # t = p @ v" | a where "u = s @ a" "e # t = a @ p @ v"
    by (auto simp: append_eq_append_conv2)
  then show ?thesis
  proof cases
    case 1
    then obtain b where "a = p @ b \<or> (a @ b = p \<and> e # t = b @ v)"
      by (auto simp: append_eq_append_conv2)
    then show ?thesis
    proof
      assume "a = p @ b"
      then show ?thesis using 1(1) by simp
    next
      assume b: "a @ b = p \<and> e # t = b @ v"
      then have "b = []" using e by (cases b) auto
      then show ?thesis using b 1(1) contains_mid[of p u "[]"] by simp
    qed
  next
    case 2
    then show ?thesis
      using e by (cases a; cases p) (auto simp: contains_iff)
  qed
qed

section \<open>The filter of state lines\<close>

definition device_text :: "string list \<Rightarrow> string" where
  "device_text ls = concat (map (\<lambda>l. l @ [CR, LF]) ls)"

lemma device_text_simps [simp]:
  "device_text [] = []" "device_text (l # ls) = l @ CR # LF # device_text ls"
  "device_text (as @ bs) = device_text as @ device_text bs"
  by (simp_all add: device_text_def)

lemma eol_simps [simp]: "is_eol CR" "is_eol LF" "CR \<noteq> LF" "LF \<noteq> CR"
  by (simp_all add: is_eol_def CR_def LF_def)

lemma span_line:
  assumes "eol_free l" "is_eol e"
  shows "takeWhile (\<lambda>c. \<not> is_eol c) (l @ e # r) = l" "dropWhile (\<lambda>c. \<not> is_eol c) (l @ e # r) = e # r"
  using assms by (auto simp: eol_free_def list_all_iff takeWhile_append dropWhile_append)

lemma state_prefix: "eol_free l \<Longrightarrow> starts_with ''[STATE]'' (l @ CR # r) \<longleftrightarrow> starts_with ''[STATE]'' l"
proof
  assume "starts_with ''[STATE]'' (l @ CR # r)"
  then obtain v where v: "l @ CR # r = ''[STATE]'' @ v" by (auto simp: starts_with_iff)
  then obtain a where "l = ''[STATE]'' @ a \<or> (l @ a = ''[STATE]'' \<and> CR # r = a @ v)"
    by (auto simp only: append_eq_append_conv2)
  moreover have "\<not> (l @ a = ''[STATE]'' \<and> CR # r = a @ v \<and> a \<noteq> [])"
  proof
    assume a: "l @ a = ''[STATE]'' \<and> CR # r = a @ v \<and> a \<noteq> []"
    then have "CR \<in> set a" by (cases a) auto
    then have "CR \<in> set (l @ a)" by simp
    then show False using a by (simp add: CR_def)
  qed
  ultimately show "starts_with ''[STATE]'' l" by (cases "a = []") (auto simp: starts_with_iff)
next
  assume "starts_with ''[STATE]'' l"
  then show "starts_with ''[STATE]'' (l @ CR # r)" by (auto simp: starts_with_iff)
qed

lemma strip_line:
  assumes "eol_free l"
  shows "stripStateLines (l @ CR # LF # r) =
    (if starts_with ''[STATE]'' l then [] else l @ [CR, LF]) @ stripStateLines r"
  using assms state_prefix[OF assms, of "LF # r"]
  by (subst stripStateLines.simps) (simp add: span_line after_eol_def eol_of_def Let_def)

lemma strip_line_end:
  assumes "eol_free l"
  shows "stripStateLines (l @ [CR]) = (if starts_with ''[STATE]'' l then [] else l @ [CR])"
  using assms state_prefix[OF assms, of "[]"]
  by (subst stripStateLines.simps) (simp add: span_line after_eol_def eol_of_def Let_def stripStateLines.simps[of "[]"])

lemma strip_partial: "eol_free l \<Longrightarrow> stripStateLines l = l"
  by (subst stripStateLines.simps) (simp add: eol_free_def list_all_iff dropWhile_eq_Nil_conv)

lemma strip_device_text:
  "list_all eol_free ls \<Longrightarrow> stripStateLines (device_text ls @ r) =
     device_text (filter (\<lambda>l. \<not> starts_with ''[STATE]'' l) ls) @ stripStateLines r"
  by (induction ls) (simp_all add: strip_line)

section \<open>The poll loop\<close>

text \<open>What the polls bring when the port works: bytes, or nothing yet.\<close>

fun received :: "poll_event list \<Rightarrow> string" where
  "received [] = []"
| "received (Received b # es) = b @ received es"
| "received (_ # es) = received es"

definition port_works :: "poll_event list \<Rightarrow> bool" where
  "port_works es \<longleftrightarrow> list_all (\<lambda>e. e = NothingYet \<or> (\<exists>b. e = Received b)) es"

lemma received_append [simp]: "received (es @ fs) = received es @ received fs"
  by (induction es rule: received.induct) auto

lemma port_works_simps [simp]:
  "port_works []" "port_works (e # es) \<longleftrightarrow> (e = NothingYet \<or> (\<exists>b. e = Received b)) \<and> port_works es"
  by (simp_all add: port_works_def)

text \<open>
  The loop stops in success if and only if the matcher accepts what has been received after some
  poll, and the reply is then exactly that.
\<close>

lemma pollOnce_works:
  "e = NothingYet \<or> (\<exists>b. e = Received b) \<Longrightarrow>
   pollOnce m e reply = (m (reply @ received [e]), reply @ received [e],
     case e of Received b \<Rightarrow> ''[provision] <- '' @ b | _ \<Rightarrow> [], NoReason)"
  by (auto simp: pollOnce_def)

lemma poll_loop_Matched:
  assumes "poll_loop m es reply = (Matched, r, l, why)"
  shows "\<exists>us vs. es = us @ vs \<and> us \<noteq> [] \<and> r = reply @ received us \<and> m r = Matched"
  using assms
proof (induction es arbitrary: reply l)
  case (Cons e es)
  obtain st r1 l1 w1 where e: "pollOnce m e reply = (st, r1, l1, w1)" by (cases "pollOnce m e reply")
  have r1: "st \<noteq> Stop \<Longrightarrow> r1 = reply @ received [e] \<and> st = m r1"
    using e by (auto simp: pollOnce_def split: poll_event.splits)
  show ?case
  proof (cases "st = KeepPolling")
    case True
    then obtain l2 where "poll_loop m es r1 = (Matched, r, l2, why)"
      using Cons.prems e by (auto split: prod.splits)
    from Cons.IH[OF this] obtain us vs where "es = us @ vs" "r = r1 @ received us" "m r = Matched"
      by blast
    then show ?thesis using r1 True
      by (intro exI[of _ "e # us"] exI[of _ vs]) (simp flip: received_append)
  next
    case False
    then show ?thesis using Cons.prems e r1
      by (intro exI[of _ "[e]"] exI[of _ es]) auto
  qed
qed simp

lemma poll_loop_finds:
  assumes "port_works (us @ vs)" "us \<noteq> []" "m (reply @ received us) = Matched" "\<forall>r. m r \<noteq> Stop"
  shows "fst (poll_loop m (us @ vs) reply) = Matched"
  using assms(1-3)
proof (induction us arbitrary: reply)
  case (Cons e us)
  have e: "pollOnce m e reply = (m (reply @ received [e]), reply @ received [e],
     case e of Received b \<Rightarrow> ''[provision] <- '' @ b | _ \<Rightarrow> [], NoReason)"
    by (rule pollOnce_works) (use Cons.prems in simp)
  have split: "received (e # us) = received [e] @ received us" by (simp flip: received_append)
  show ?case
  proof (cases "m (reply @ received [e]) = KeepPolling")
    case True
    then have "us \<noteq> []" using Cons.prems(3) split by auto
    then have "fst (poll_loop m (us @ vs) (reply @ received [e])) = Matched"
      using Cons.IH[of "reply @ received [e]"] Cons.prems split by simp
    then show ?thesis using True e by (simp add: split_beta)
  next
    case False
    then have "m (reply @ received [e]) = Matched" using assms(4) by (metis PollStep.exhaust)
    then show ?thesis using e by simp
  qed
qed simp

lemma substring_never_stops: "\<forall>r. makeSubstringMatcher e r \<noteq> Stop"
  by (simp add: makeSubstringMatcher_def)

lemma state_never_stops: "\<forall>r. makeStateLineMatcher r \<noteq> Stop"
  by (simp add: makeStateLineMatcher_def split: option.split)

section \<open>One command\<close>

lemma command_rc:
  "fst (runProvisioningCommand port cmd e t) = (if ps_writes port \<and>
     fst (poll_loop (makeSubstringMatcher e) (ps_polls port) []) = Matched then 0 else 1)"
  by (simp add: runProvisioningCommand_def Let_def split: prod.split)

lemma command_sent: "snd (snd (runProvisioningCommand port cmd e t)) = [cmd @ [CR]]"
  by (simp add: runProvisioningCommand_def Let_def split: prod.split)

text \<open>
  The device's answer is found in every chunking of its output and behind every number of state
  lines; without the word nothing is found.
\<close>

lemma command_acked:
  assumes "port_works (ps_polls port)" "ps_writes port" "e \<noteq> []"
    and "received (ps_polls port) = device_text (as @ l # bs)"
    and "list_all eol_free as" "eol_free l" "\<not> starts_with ''[STATE]'' l" "contains e l"
  shows "fst (runProvisioningCommand port cmd e t) = 0"
proof -
  have "stripStateLines (received (ps_polls port)) =
      device_text (filter (\<lambda>l. \<not> starts_with ''[STATE]'' l) as) @ l @ CR # LF #
        stripStateLines (device_text bs)"
    using assms(4-7) strip_device_text[of as "l @ CR # LF # device_text bs"] by (simp add: strip_line)
  then have "contains e (stripStateLines (received (ps_polls port)))"
    using contains_appendI2[OF contains_appendI1[OF assms(8)]] by simp
  then have m: "makeSubstringMatcher e ([] @ received (ps_polls port)) = Matched"
    by (simp add: makeSubstringMatcher_def)
  have "ps_polls port \<noteq> []"
    using assms(4) by auto
  from poll_loop_finds[of "ps_polls port" "[]", OF _ this m substring_never_stops] assms(1,2)
  show ?thesis by (simp add: command_rc)
qed

lemma contains_text_end:
  assumes "eol_free e" "e \<noteq> []" "list_all (\<lambda>l. \<not> contains e l) ls" "\<not> contains e x"
  shows "\<not> contains e (device_text ls @ x)"
  using assms(3)
proof (induction ls)
  case Nil
  then show ?case using assms(4) by simp
next
  case (Cons l ls)
  show ?case
  proof
    assume "contains e (device_text (l # ls) @ x)"
    then have "contains e (LF # device_text ls @ x)"
      using contains_over_eol[of e l CR "LF # device_text ls @ x"] assms(1) Cons.prems
      by (simp del: contains.simps)
    then have "contains e [] \<or> contains e (device_text ls @ x)"
      using contains_over_eol[of e "[]" LF "device_text ls @ x", unfolded append_Nil] assms(1)
      by (simp del: contains.simps)
    then show False using Cons assms(2) by simp
  qed
qed

text \<open>
  What has arrived so far ends with a line that is not finished yet. The filter keeps that one even
  if it is a state line, so a state line with the awaited word in it must not be cut after the word.
\<close>

definition unfinished :: "string \<Rightarrow> string" where
  "unfinished s = rev (takeWhile (\<lambda>c. \<not> is_eol c) (rev s))"

definition cut_after :: "string \<Rightarrow> string \<Rightarrow> bool" where
  "cut_after e s \<longleftrightarrow> starts_with ''[STATE]'' (unfinished s) \<and> contains e (unfinished s)"

definition never_cut_after :: "string \<Rightarrow> poll_event list \<Rightarrow> bool" where
  "never_cut_after e es \<longleftrightarrow> list_all (\<lambda>k. \<not> cut_after e (received (take k es))) [0..<Suc (length es)]"

lemma never_cut: "never_cut_after e (us @ vs) \<Longrightarrow> \<not> cut_after e (received us)"
  by (auto simp: never_cut_after_def list_all_iff dest!: bspec[of _ _ "length us"])

lemma eol_free_tail: "eol_free f \<Longrightarrow> takeWhile (\<lambda>c. \<not> is_eol c) (rev f @ r) = rev f @ takeWhile (\<lambda>c. \<not> is_eol c) r"
  by (rule takeWhile_append2) (auto simp: eol_free_def list_all_iff)

lemma eol_free_all: "eol_free f \<Longrightarrow> takeWhile (\<lambda>c. \<not> is_eol c) (rev f) = rev f"
  using eol_free_tail[of f "[]"] by simp

lemma unfinished_text: "eol_free f \<Longrightarrow> unfinished (device_text ls @ f) = f"
  by (cases ls rule: rev_cases) (simp_all add: unfinished_def eol_free_tail eol_free_all)

lemma text_prefix:
  "P @ Q = device_text ls \<Longrightarrow>
   \<exists>as f. P = device_text as @ f \<and> (ls = as \<and> f = [] \<or> (\<exists>l bs g. ls = as @ l # bs \<and> l @ [CR] = f @ g))"
proof (induction ls arbitrary: P)
  case (Cons l ls)
  show ?case
  proof (cases "length P \<le> Suc (length l)")
    case True
    have "P = take (length P) (P @ Q)" by simp
    also have "\<dots> = take (length P) (l @ [CR])" using True by (cases "length P - length l") (simp_all add: Cons.prems)
    finally have "l @ [CR] = P @ drop (length P) (l @ [CR])" by (metis append_take_drop_id)
    then show ?thesis by (intro exI[of _ "[]"] exI[of _ P]) auto
  next
    case False
    then obtain us where us: "P = l @ us" "us @ Q = CR # LF # device_text ls" "1 < length us"
      using Cons.prems by (auto simp: append_eq_append_conv2)
    then obtain P' where "us = CR # LF # P'" by (cases us; cases "tl us") auto
    then have P: "P = (l @ [CR, LF]) @ P'" "P' @ Q = device_text ls" using us by simp_all
    from Cons.IH[OF P(2)] obtain as f where "P' = device_text as @ f"
      "ls = as \<and> f = [] \<or> (\<exists>l bs g. ls = as @ l # bs \<and> l @ [CR] = f @ g)" by blast
    then show ?thesis using P(1) by (intro exI[of _ "l # as"] exI[of _ f]) auto
  qed
qed simp

lemma state_word_part:
  assumes "starts_with ''[STATE]'' (f @ g)" "contains e f" "\<not> contains e ''[STATE]''"
  shows "starts_with ''[STATE]'' f"
proof -
  from assms(1) obtain v where "f @ g = ''[STATE]'' @ v" by (auto simp: starts_with_iff)
  then obtain a where "f = ''[STATE]'' @ a \<or> f @ a = ''[STATE]''"
    by (auto simp only: append_eq_append_conv2)
  then show ?thesis using assms(2,3) contains_appendI1[of e f a] by (auto simp: starts_with_iff)
qed

lemma strip_quiet:
  assumes "P @ Q = device_text ls" "list_all (\<lambda>l. eol_free l \<and> (contains e l \<longrightarrow> starts_with ''[STATE]'' l)) ls"
    and e: "eol_free e" "e \<noteq> []" "\<not> contains e ''[STATE]''" and "\<not> cut_after e P"
  shows "\<not> contains e (stripStateLines P)"
proof -
  let ?shown = "\<lambda>as. device_text (filter (\<lambda>l. \<not> starts_with ''[STATE]'' l) as)"
  from text_prefix[OF assms(1)] obtain as f where P: "P = device_text as @ f"
    and f: "ls = as \<and> f = [] \<or> (\<exists>l bs g. ls = as @ l # bs \<and> l @ [CR] = f @ g)" by blast
  have as: "list_all (\<lambda>l. eol_free l \<and> (contains e l \<longrightarrow> starts_with ''[STATE]'' l)) as"
    using f assms(2) by auto
  then have free: "list_all eol_free as" by (auto simp: list_all_iff)
  have strip: "stripStateLines P = ?shown as @ stripStateLines f"
    unfolding P by (rule strip_device_text[OF free])
  have "\<not> contains e (stripStateLines f)"
  proof (cases "eol_free f")
    case True
    have "\<not> contains e f"
    proof
      assume c: "contains e f"
      then obtain l bs g where l: "ls = as @ l # bs" "l @ [CR] = f @ g" using f e(2) by auto
      have "g \<noteq> []" using l(2) True by (auto simp: eol_free_def dest: arg_cong[of _ _ last])
      then obtain g' where g: "l = f @ g'" using l(2) by (cases g rule: rev_cases) auto
      then have "starts_with ''[STATE]'' l" using assms(2) l(1) contains_appendI1[OF c, of g'] by simp
      then have "starts_with ''[STATE]'' f" using state_word_part[OF _ c e(3)] g by simp
      then show False using assms(6) c True by (simp add: cut_after_def P unfinished_text)
    qed
    then show ?thesis using True by (simp add: strip_partial)
  next
    case False
    then have "f \<noteq> []" by (auto simp: eol_free_def)
    then obtain l bs g where l: "ls = as @ l # bs" "l @ [CR] = f @ g" using f by auto
    then have "eol_free l" "contains e l \<longrightarrow> starts_with ''[STATE]'' l" using assms(2) by auto
    moreover have "g = []"
      using l(2) False \<open>eol_free l\<close> by (cases g rule: rev_cases) (auto simp: eol_free_def)
    moreover have "\<not> contains e []" using e(2) by simp
    ultimately show ?thesis
      using l(2)[symmetric] strip_line_end[of l] contains_over_eol[of e l CR "[]"] e(1,2)
      by (auto simp del: contains.simps)
  qed
  then show ?thesis unfolding strip
    by (intro contains_text_end[OF e(1,2)]) (use as in \<open>auto simp: list_all_iff\<close>)
qed

lemma command_not_fooled:
  assumes "received (ps_polls port) = device_text ls"
    and "list_all (\<lambda>l. eol_free l \<and> (contains e l \<longrightarrow> starts_with ''[STATE]'' l)) ls"
    and "eol_free e" "e \<noteq> []" "\<not> contains e ''[STATE]''" and "never_cut_after e (ps_polls port)"
  shows "fst (runProvisioningCommand port cmd e t) = 1"
proof -
  have "fst (poll_loop (makeSubstringMatcher e) (ps_polls port) []) \<noteq> Matched"
  proof
    assume "fst (poll_loop (makeSubstringMatcher e) (ps_polls port) []) = Matched"
    then obtain us vs where us: "ps_polls port = us @ vs" "makeSubstringMatcher e (received us) = Matched"
      using poll_loop_Matched[of "makeSubstringMatcher e" "ps_polls port" "[]"]
      by (metis append_Nil prod.collapse)
    have "\<not> contains e (stripStateLines (received us))"
      by (rule strip_quiet[of _ "received vs" ls]) (use assms us(1) never_cut in auto)
    then show False using us(2) assms(4) by (simp add: makeSubstringMatcher_def)
  qed
  then show ?thesis by (simp add: command_rc)
qed

section \<open>The device's console\<close>

text \<open>
  The serial console of the device: the bytes go through the line framer, every line to the
  dispatcher. What the computer at the other end reads are the printed lines.
\<close>

fun console_lines ::
    "'h at_host \<Rightarrow> u8 list \<Rightarrow> string \<Rightarrow> string list \<Rightarrow> 'h \<Rightarrow> at_out list \<times> 'h" where
  "console_lines H dev ver [] h = ([], h)"
| "console_lines H dev ver (l # ls) h =
     (let (o1, h1) = handleSerialCommand H dev ver l h; (o2, h2) = console_lines H dev ver ls h1
      in (o1 @ o2, h2))"

definition console_bytes ::
    "'h at_host \<Rightarrow> u8 list \<Rightarrow> string \<Rightarrow> nat \<Rightarrow> string \<Rightarrow> 'h \<Rightarrow> at_out list \<times> 'h" where
  "console_bytes H dev ver m bs h =
     console_lines H dev ver (snd (drain \<lparr>maxLen = m, buffer = []\<rparr> bs)) h"

definition printed_lines :: "at_out list \<Rightarrow> string list" where
  "printed_lines outs = List.map_filter (\<lambda>x. case x of SerialPrintln l \<Rightarrow> Some l | _ \<Rightarrow> None) outs"

lemma console_one:
  assumes "eol_free cmd" "cmd \<noteq> []" "length cmd \<le> m"
  shows "console_bytes H dev ver m (cmd @ [CR]) h = handleSerialCommand H dev ver cmd h"
proof -
  have "CR \<notin> set cmd" "LF \<notin> set cmd"
    using assms(1) by (auto simp: eol_free_def list_all_iff)
  then have "drain \<lparr>maxLen = m, buffer = []\<rparr> (cmd @ [CR]) = (\<lparr>maxLen = m, buffer = []\<rparr>, [cmd])"
    by (intro drain_line) (use assms in auto)
  then show ?thesis by (simp add: console_bytes_def split_beta)
qed

lemma prov_sent:
  assumes "ps_opens port" "\<not> status_requested opts" "\<not> clear_wifi_creds opts" "\<not> reboot_esp32 opts"
    "set_wifi_ssid opts \<noteq> []"
  shows "pr_sent (runProvisioning_on glob opts port) = [setwifi_command opts @ [CR]] \<and>
    pr_rc (runProvisioning_on glob opts port) =
      fst (runProvisioningCommand port (setwifi_command opts) PROVISION_OK_STORED PROVISION_TIMEOUT_S)"
  using assms command_sent[of port "setwifi_command opts"]
  by (simp add: runProvisioning_on_def run_command_def split_beta)

lemma eol_free_append [simp]: "eol_free (a @ b) \<longleftrightarrow> eol_free a \<and> eol_free b"
  by (simp add: eol_free_def)

lemma eol_free_Cons [simp]: "eol_free (c # b) \<longleftrightarrow> \<not> is_eol c \<and> eol_free b"
  by (simp add: eol_free_def)

lemma eol_free_Nil [simp]: "eol_free []"
  by (simp add: eol_free_def)

text \<open>
  The one lemma behind the next three properties: a \<open>--set-wifi-creds\<close> run whose command reads,
  for the device, as the name \<open>s\<close> and the password \<open>p\<close>.
\<close>

definition creds_request :: "WifiProvisioningOptions \<Rightarrow> bool" where
  "creds_request opts \<longleftrightarrow> \<not> status_requested opts \<and> \<not> clear_wifi_creds opts \<and> \<not> reboot_esp32 opts \<and>
     set_wifi_ssid opts \<noteq> []"

text \<open>
  A dialogue: the port works, and up to the deadline it delivers the console's chatter, then
  everything the device printed in answer to the bytes it got. Of the chatter only state lines
  have the awaited word, and no read ends inside one of them after the word.
\<close>

definition dialogue ::
    "(string \<Rightarrow> string list) \<Rightarrow> WifiProvisioningOptions \<Rightarrow> port_script \<Rightarrow> 'h at_host \<Rightarrow> u8 list \<Rightarrow> string \<Rightarrow>
     nat \<Rightarrow> string list \<Rightarrow> 'h \<Rightarrow> bool" where
  "dialogue glob opts port H dev ver m chatter h \<longleftrightarrow>
     ps_opens port \<and> ps_writes port \<and> port_works (ps_polls port) \<and>
     list_all (\<lambda>l. eol_free l \<and> (contains ''stored'' l \<longrightarrow> starts_with ''[STATE]'' l)) chatter \<and>
     never_cut_after ''stored'' (ps_polls port) \<and>
     received (ps_polls port) = device_text (chatter @ printed_lines (fst
       (console_bytes H dev ver m (concat (pr_sent (runProvisioning_on glob opts port))) h)))"

lemma stored_word: "eol_free PROVISION_OK_STORED" "PROVISION_OK_STORED \<noteq> []"
  "\<not> contains PROVISION_OK_STORED ''[STATE]''"
  by code_simp+

text \<open>The replies of the command: the one with the word is the one that restarts the chip.\<close>

lemma reply_words:
  "contains PROVISION_OK_STORED (response r) \<longleftrightarrow> shouldReboot r"
  "\<not> starts_with ''[STATE]'' (response r)" "eol_free (response r)" "shouldFlushClient r = shouldReboot r"
  if "(r, h') = setwifi_execute H cmd h"
proof -
  have "r \<in> {at_result ''ERROR Invalid format. Use: ATSETWIFI<ssid>,<pass>'' False False,
      at_result ''ERROR Invalid SSID length (1-32 chars)'' False False,
      at_result ''ERROR Invalid password length (1-64 chars)'' False False,
      at_result ''OK WiFi credentials stored. Rebooting to connect...'' True True,
      at_result ''ERROR Failed to store credentials'' False False}"
    using that by (simp add: setwifi_execute_def Let_def split_beta split: if_splits)
  moreover have "list_all (\<lambda>r. (contains PROVISION_OK_STORED (response r) \<longleftrightarrow> shouldReboot r) \<and>
      \<not> starts_with ''[STATE]'' (response r) \<and> eol_free (response r) \<and> shouldFlushClient r = shouldReboot r)
     [at_result ''ERROR Invalid format. Use: ATSETWIFI<ssid>,<pass>'' False False,
      at_result ''ERROR Invalid SSID length (1-32 chars)'' False False,
      at_result ''ERROR Invalid password length (1-64 chars)'' False False,
      at_result ''OK WiFi credentials stored. Rebooting to connect...'' True True,
      at_result ''ERROR Failed to store credentials'' False False]"
    by code_simp
  ultimately show "contains PROVISION_OK_STORED (response r) \<longleftrightarrow> shouldReboot r"
    "\<not> starts_with ''[STATE]'' (response r)" "eol_free (response r)" "shouldFlushClient r = shouldReboot r"
    by (auto simp only: list.pred_inject insert_iff empty_iff)
qed

lemma normal_setwifi: "starts_with ''ATSETWIFI'' (normalizeAtCommand (''ATSETWIFI'' @ x))"
proof -
  have "trim_by ws4 (''ATSETWIFI'' @ x) = ''ATSETWIFI'' @ rev (dropWhile ws4 (rev x))"
    by (simp add: trim_by_def ws4_def TAB_def CR_def LF_def dropWhile_append)
  then show ?thesis by (simp add: normalizeAtCommand_def to_upper_def starts_with_def)
qed

text \<open>What the device does with the command, whatever follows its name.\<close>

lemma setwifi_any:
  assumes "setwifi_execute H (''ATSETWIFI'' @ x) h = (r, h')"
  shows "handleSerialCommand H dev ver (''ATSETWIFI'' @ x) h =
    (SerialPrintln (response r) # (if shouldReboot r
       then [TcpFlush, SerialPrintln ''REBOOT'', SerialFlush, EspRestart] else []), h')"
  using assms reply_words(4)[OF assms[symmetric]] find_setwifi[OF normal_setwifi[of x]]
  by (simp add: handleSerialCommand_def handleCommand_def sendSerialPrompt_def)

lemma setwifi_dialogue:
  assumes req: "creds_request opts" "setwifi_command opts = ''ATSETWIFI'' @ x"
    and ok: "eol_free x" "length x + 9 \<le> m"
    and dlg: "dialogue glob opts port H dev ver m chatter h"
  shows "concat (pr_sent (runProvisioning_on glob opts port)) = ''ATSETWIFI'' @ x @ [CR]"
    and "console_bytes H dev ver m (concat (pr_sent (runProvisioning_on glob opts port))) h =
      handleSerialCommand H dev ver (''ATSETWIFI'' @ x) h"
    and "pr_rc (runProvisioning_on glob opts port) =
      (if EspRestart \<in> set (fst (handleSerialCommand H dev ver (''ATSETWIFI'' @ x) h)) then 0 else 1)"
proof -
  let ?cmd = "''ATSETWIFI'' @ x"
  let ?res = "runProvisioning_on glob opts port"
  note d = dlg[unfolded dialogue_def]
  have sent: "pr_sent ?res = [?cmd @ [CR]]"
    "pr_rc ?res = fst (runProvisioningCommand port ?cmd PROVISION_OK_STORED PROVISION_TIMEOUT_S)"
    using prov_sent[of port opts glob] d req(1) unfolding req(2)[symmetric] creds_request_def by auto
  then show sentb: "concat (pr_sent ?res) = ''ATSETWIFI'' @ x @ [CR]" by simp
  have "console_bytes H dev ver m (?cmd @ [CR]) h = handleSerialCommand H dev ver ?cmd h"
    by (rule console_one) (use ok in \<open>simp_all add: is_eol_def CR_def LF_def\<close>)
  then show con: "console_bytes H dev ver m (concat (pr_sent ?res)) h =
      handleSerialCommand H dev ver ?cmd h" by (simp add: sentb)
  obtain r h' where x: "setwifi_execute H ?cmd h = (r, h')" by fastforce
  note run = setwifi_any[OF x, of dev ver] and words = reply_words[OF x[symmetric]]
  have heard: "received (ps_polls port) =
      device_text (chatter @ printed_lines (fst (handleSerialCommand H dev ver ?cmd h)))"
    using d con by simp
  show "pr_rc ?res = (if EspRestart \<in> set (fst (handleSerialCommand H dev ver ?cmd h)) then 0 else 1)"
  proof (cases "shouldReboot r")
    case True
    have pl: "printed_lines (fst (handleSerialCommand H dev ver ?cmd h)) = response r # [''REBOOT'']"
      unfolding run by (simp add: True printed_lines_def map_filter_def)
    have "fst (runProvisioningCommand port ?cmd PROVISION_OK_STORED PROVISION_TIMEOUT_S) = 0"
      by (rule command_acked[OF _ _ _ heard[unfolded pl]])
        (use d words stored_word True in \<open>auto simp: list_all_iff\<close>)
    then show ?thesis using sent(2) run True by simp
  next
    case False
    have pl: "printed_lines (fst (handleSerialCommand H dev ver ?cmd h)) = [response r]"
      unfolding run by (simp add: False printed_lines_def map_filter_def)
    have "fst (runProvisioningCommand port ?cmd PROVISION_OK_STORED PROVISION_TIMEOUT_S) = 1"
      by (rule command_not_fooled[OF heard[unfolded pl] _ stored_word])
        (use d words False in \<open>auto simp: list_all_iff PROVISION_OK_STORED_def\<close>)
    then show ?thesis using sent(2) run False by simp
  qed
qed

lemma setwifi_dialogue_boot:
  assumes "prefs_laws (w_pf w) view ns_of writable"
    and req: "creds_request opts" "setwifi_command opts = ''ATSETWIFI'' @ s @ CHR '','' # p"
    and ok: "wifi_args_ok s p" "eol_free s" "eol_free p" "length s + length p + 10 \<le> m"
    and dlg: "dialogue glob opts port (device_host w) dev ver m chatter d"
    and con: "console_bytes (device_host w) dev ver m
      (concat (pr_sent (runProvisioning_on glob opts port))) d = (outs, d')"
    and rc: "pr_rc (runProvisioning_on glob opts port) = 0"
  shows "wifi_init w (d_prefs d') r ctx_init =
    (ctx_init\<lparr>state := WIFI_CONNECTING\<rparr>,
     [SetMode 1, SetHostname WIFI_HOSTNAME, Begin (c_str s) (c_str p),
      TraceTransition WIFI_DISCONNECTED WIFI_CONNECTING])"
proof -
  have x: "eol_free (s @ CHR '','' # p)" "length (s @ CHR '','' # p) + 9 \<le> m"
    using ok by (simp_all add: is_eol_def CR_def LF_def)
  note sd = setwifi_dialogue[OF req x dlg]
  have kw: "map to_upper ''ATSETWIFI'' = ''ATSETWIFI''" by code_simp
  have h: "handleSerialCommand (device_host w) dev ver (''ATSETWIFI'' @ s @ CHR '','' # p) d = (outs, d')"
    using con sd(2) by simp
  have "EspRestart \<in> set outs" using rc sd(3) h by (simp split: if_splits)
  then show ?thesis
    by (rule provisioned_boot[OF assms(1) kw ok(1) h])
qed

section \<open>From the command line to the radio\<close>


text \<open>
  The command separates the name from the password by a comma and
  does not quote: for a network name with a comma the tool still reports success, and the device
  boots into the network named by the part before the comma, with the rest in its password.
\<close>

theorem comma_in_network_name_goes_unnoticed:
  assumes "prefs_laws (w_pf w) view ns_of writable"
    and "creds_request opts" and "set_wifi_ssid opts = a @ CHR '','' # b"
    and "wifi_args_ok a (b @ CHR '','' # set_wifi_pass opts)"
    and "eol_free (set_wifi_ssid opts)" and "eol_free (set_wifi_pass opts)"
    and "length (set_wifi_ssid opts) + length (set_wifi_pass opts) + 10 \<le> m"
    and "dialogue glob opts port (device_host w) dev ver m chatter d"
    and "console_bytes (device_host w) dev ver m
      (concat (pr_sent (runProvisioning_on glob opts port))) d = (outs, d')"
    and "pr_rc (runProvisioning_on glob opts port) = 0"
  shows "wifi_init w (d_prefs d') r ctx_init =
      (ctx_init\<lparr>state := WIFI_CONNECTING\<rparr>,
       [SetMode 1, SetHostname WIFI_HOSTNAME,
        Begin (c_str a) (c_str (b @ CHR '','' # set_wifi_pass opts)),
        TraceTransition WIFI_DISCONNECTED WIFI_CONNECTING])"
proof (rule setwifi_dialogue_boot[OF assms(1,2) _ assms(4) _ _ _ assms(8,9,10)])
  show "setwifi_command opts = ''ATSETWIFI'' @ a @ CHR '','' # b @ CHR '','' # set_wifi_pass opts"
    by (simp add: setwifi_command_def assms(3))
qed (use assms(3,5-7) in \<open>simp_all add: is_eol_def CR_def LF_def\<close>)

text \<open>A run on the example device: the store of the model works, and a state line with the word arrives in pieces.\<close>

definition ex_opts :: "string \<Rightarrow> string \<Rightarrow> WifiProvisioningOptions" where
  "ex_opts s p = \<lparr>set_wifi_ssid = s, set_wifi_pass = p, clear_wifi_creds = False,
     reboot_esp32 = False, status_requested = False, wifi_transport = []\<rparr>"

definition ex_port :: port_script where
  "ex_port = \<lparr>ps_opens = True, ps_writes = True,
     ps_polls = [NothingYet, Received ''[STATE] ssid=sto'', Received (''red'' @ [CR]), Received [LF],
       Received (''OK WiFi credentials sto''),
       Received (''red. Rebooting to connect...'' @ [CR, LF] @ ''REBOOT'' @ [CR, LF])]\<rparr>"

lemma ex_console:
  assumes "wifi_args_ok s p" "eol_free s" "eol_free p" "length s + length p + 10 \<le> 128"
    "cmd = ''ATSETWIFI'' @ s @ CHR '','' # p"
    "fst (h_storeWifi (device_host ex_cfg) ex_device s p)"
  shows "console_bytes (device_host ex_cfg) [] ''v'' 128 (cmd @ [CR]) ex_device =
    ([SerialPrintln ''OK WiFi credentials stored. Rebooting to connect...'', TcpFlush,
      SerialPrintln ''REBOOT'', SerialFlush, EspRestart],
     snd (h_storeWifi (device_host ex_cfg) ex_device s p))"
proof -
  have kw: "map to_upper ''ATSETWIFI'' = ''ATSETWIFI''" by code_simp
  have rep: "response (setwifi_reply True) = ''OK WiFi credentials stored. Rebooting to connect...''"
    by code_simp
  have "console_bytes (device_host ex_cfg) [] ''v'' 128 (cmd @ [CR]) ex_device =
      handleSerialCommand (device_host ex_cfg) [] ''v'' cmd ex_device"
    by (rule console_one) (use assms in \<open>simp_all add: is_eol_def CR_def LF_def\<close>)
  then show ?thesis
    using setwifi_run[OF kw assms(1), of "device_host ex_cfg" "[]" "''v''" ex_device] assms(5,6) rep
    by simp
qed

lemma ex_dialogue:
  assumes "wifi_args_ok s p" "eol_free s" "eol_free p" "length s + length p + 10 \<le> 128"
    "creds_request opts" "setwifi_command opts = ''ATSETWIFI'' @ s @ CHR '','' # p"
    "fst (h_storeWifi (device_host ex_cfg) ex_device s p)"
  shows "dialogue glob opts ex_port (device_host ex_cfg) [] ''v'' 128 [''[STATE] ssid=stored''] ex_device"
proof -
  have "concat (pr_sent (runProvisioning_on glob opts ex_port)) = setwifi_command opts @ [CR]"
    using prov_sent[of ex_port opts glob] assms(5) by (simp add: creds_request_def ex_port_def)
  moreover have "list_all (\<lambda>l. eol_free l \<and> (contains ''stored'' l \<longrightarrow> starts_with ''[STATE]'' l)) [''[STATE] ssid=stored'']"
    "never_cut_after ''stored'' (ps_polls ex_port)" by code_simp+
  ultimately show ?thesis
    using ex_console[OF assms(1-4) assms(6) assms(7)]
    by (simp add: dialogue_def ex_port_def printed_lines_def map_filter_def)
qed

lemma ex_store_any:
  "fst (h_storeWifi (device_host ex_cfg) ex_device s p) \<longleftrightarrow>
    fst (storeCredentials mock_if mock_empty s p)"
  by (simp add: device_host_def storeWifiCredentials_eq ex_cfg_def ex_device_def split_beta)

lemma ex_run:
  assumes "wifi_args_ok s p" "eol_free s" "eol_free p" "length s + length p + 10 \<le> 128"
    "creds_request opts" "setwifi_command opts = ''ATSETWIFI'' @ s @ CHR '','' # p"
    "fst (h_storeWifi (device_host ex_cfg) ex_device s p)"
  shows "console_bytes (device_host ex_cfg) [] ''v'' 128
      (concat (pr_sent (runProvisioning_on glob opts ex_port))) ex_device =
    ([SerialPrintln ''OK WiFi credentials stored. Rebooting to connect...'', TcpFlush,
      SerialPrintln ''REBOOT'', SerialFlush, EspRestart],
     snd (h_storeWifi (device_host ex_cfg) ex_device s p))"
proof -
  have "concat (pr_sent (runProvisioning_on glob opts ex_port)) = setwifi_command opts @ [CR]"
    using prov_sent[of ex_port opts glob] assms(5) by (simp add: creds_request_def ex_port_def)
  then show ?thesis using ex_console[OF assms(1-4) assms(6) assms(7)] by simp
qed

lemma ex_laws: "prefs_laws (w_pf ex_cfg) mock_view currentNamespace mock_writable"
  using mock.prefs_laws_axioms by (simp add: ex_cfg_def)

lemma ex_requests:
  "creds_request (ex_opts ''net'' ''secret'')"
  "setwifi_command (ex_opts ''net'' ''secret'') = ''ATSETWIFI'' @ ''net'' @ CHR '','' # ''secret''"
  "creds_request (ex_opts ''my,net'' ''secret'')"
  "setwifi_command (ex_opts ''my,net'' ''secret'') = ''ATSETWIFI'' @ ''my'' @ CHR '','' # ''net,secret''"
  by code_simp+

lemma ex_stores:
  "fst (h_storeWifi (device_host ex_cfg) ex_device ''net'' ''secret'')"
  "fst (h_storeWifi (device_host ex_cfg) ex_device ''my'' ''net,secret'')"
  by (simp_all add: ex_store_any storeCredentials_def mock_ops mock_empty_def nvs_keys)

lemma ex_args:
  "wifi_args_ok ''net'' ''secret''" "wifi_args_ok ''my'' ''net,secret''"
  "eol_free ''net''" "eol_free ''secret''" "eol_free ''my''" "eol_free ''net,secret''" "eol_free ''my,net''"
  "length ''net'' + length ''secret'' + 10 \<le> 128" "length ''my'' + length ''net,secret'' + 10 \<le> 128"
  by code_simp+


theorem comma_in_network_name_goes_unnoticed_witness:
  "wifi_init ex_cfg (d_prefs (snd (h_storeWifi (device_host ex_cfg) ex_device ''my'' ''net,secret'')))
      (ex_radio 6) ctx_init =
     (ctx_init\<lparr>state := WIFI_CONNECTING\<rparr>,
      [SetMode 1, SetHostname WIFI_HOSTNAME, Begin (c_str ''my'') (c_str (''net'' @ CHR '','' # ''secret'')),
       TraceTransition WIFI_DISCONNECTED WIFI_CONNECTING])"
proof -
  let ?o = "ex_opts ''my,net'' ''secret''"
  have f: "set_wifi_ssid ?o = ''my'' @ CHR '','' # ''net''" "set_wifi_pass ?o = ''secret''"
    by (simp_all add: ex_opts_def)
  note D = ex_dialogue[OF ex_args(2,5,6,9) ex_requests(3,4) ex_stores(2), of "\<lambda>_. []"]
  note R = ex_run[OF ex_args(2,5,6,9) ex_requests(3,4) ex_stores(2), of "\<lambda>_. []"]
  have x: "eol_free (''my'' @ CHR '','' # ''net,secret'')" "length (''my'' @ CHR '','' # ''net,secret'') + 9 \<le> 128"
    by code_simp+
  have rc: "pr_rc (runProvisioning_on (\<lambda>_. []) ?o ex_port) = 0"
    using setwifi_dialogue(3)[OF ex_requests(3,4) x D]
    unfolding setwifi_dialogue(2)[OF ex_requests(3,4) x D, unfolded R, symmetric] by simp
  have "wifi_args_ok ''my'' (''net'' @ CHR '','' # set_wifi_pass ?o)"
    "eol_free (set_wifi_ssid ?o)" "eol_free (set_wifi_pass ?o)"
    "length (set_wifi_ssid ?o) + length (set_wifi_pass ?o) + 10 \<le> 128"
    using ex_args unfolding f by simp_all
  from comma_in_network_name_goes_unnoticed[OF ex_laws ex_requests(3) f(1) this D R rc]
  show ?thesis by (simp add: f(2))
qed

section \<open>False confirmations\<close>

text \<open>
  The filter keeps a state line that is not complete yet. When
  the first read ends inside a heartbeat after a network name with the word \<open>cleared\<close>, the tool
  reports that the credentials were cleared, whatever the device answers later.
\<close>

theorem half_received_heartbeat_confirms_clearing:
  assumes "ps_opens port" and "ps_writes port" and "clear_wifi_creds opts" and "\<not> status_requested opts"
    and "heartbeat_tick ver now st mon client cad led ssid ip auth h = (True, h')"
    and "ps_polls port = Received (take k (snapshot h')) # later"
    and "eol_free (take k (snapshot h'))" and "contains ''cleared'' (take k (snapshot h'))"
  shows "pr_rc (runProvisioning_on glob opts port) = 0"
proof -
  let ?part = "take k (snapshot h')"
  have "makeSubstringMatcher PROVISION_OK_CLEARED ?part = Matched"
    using assms(7,8) by (simp add: makeSubstringMatcher_def strip_partial PROVISION_OK_CLEARED_def)
  then have "fst (poll_loop (makeSubstringMatcher PROVISION_OK_CLEARED) (ps_polls port) []) = Matched"
    by (simp add: assms(6) pollOnce_def)
  then have "fst (runProvisioningCommand port ''ATCLEARWIFI'' PROVISION_OK_CLEARED PROVISION_TIMEOUT_S) = 0"
    using assms(2) by (simp add: command_rc)
  then show ?thesis
    using assms(1,3,4) by (simp add: runProvisioning_on_def run_command_def split_beta)
qed

definition ex_beat :: "string \<Rightarrow> heartbeat" where
  "ex_beat ssid = snd (heartbeat_tick ''1.0'' 5000 WIFI_CONNECTED False [] ''fast'' 3 ssid ''10.0.0.7'' []
     \<lparr>intervalMs = 5000, lastTickMs = 0, snapshot = []\<rparr>)"

lemma ex_beat_tick:
  "heartbeat_tick ''1.0'' 5000 WIFI_CONNECTED False [] ''fast'' 3 ssid ''10.0.0.7'' []
     \<lparr>intervalMs = 5000, lastTickMs = 0, snapshot = []\<rparr> = (True, ex_beat ssid)"
  by (simp add: ex_beat_def heartbeat_tick_def)

lemma ex_beat_text:
  "snapshot (ex_beat ssid) = take 383 (''[STATE] uptime=5000ms wifi=WIFI_CONNECTED ssid='' @ none_if_empty ssid
     @ '' ip=10.0.0.7 client=none disc=fast led=3 monitor=idle fw=1.0'' @ [CR, LF])"
proof -
  have n: "dec_str 5000 = ''5000''" "int_str 3 = ''3''"
    by (simp_all add: int_str_def dec_str_def digits_in.simps digit_char_def)
  have w: "unat (5000 :: u32) = 5000" by simp
  show ?thesis
    by (simp add: ex_beat_def heartbeat_tick_def heartbeat_line_def n w none_if_empty_def c_str_def)
qed

theorem half_received_heartbeat_confirms_clearing_witness:
  "pr_rc (runProvisioning_on (\<lambda>_. []) ((ex_opts [] [])\<lparr>clear_wifi_creds := True\<rparr>)
     \<lparr>ps_opens = True, ps_writes = True,
      ps_polls = [Received (take 60 (snapshot (ex_beat ''cleared''))), EndOfStream]\<rparr>) = 0"
proof (rule half_received_heartbeat_confirms_clearing[OF _ _ _ _ ex_beat_tick])
  show "eol_free (take 60 (snapshot (ex_beat ''cleared'')))"
    "contains ''cleared'' (take 60 (snapshot (ex_beat ''cleared'')))"
    unfolding ex_beat_text none_if_empty_def c_str_def
    by (simp_all add: eol_free_def is_eol_def CR_def LF_def starts_with_def)
qed (simp_all add: ex_opts_def)

section \<open>The status read\<close>

lemma from_marker_here: "starts_with p s \<Longrightarrow> from_marker p s = Some s"
  by (cases s) (auto simp: starts_with_def)

lemma from_marker_skip:
  assumes "\<not> contains (x # q) junk" "x \<notin> set q"
  shows "from_marker (x # q) (junk @ (x # q) @ r) = Some ((x # q) @ r)"
  using assms(1)
proof (induction junk)
  case Nil
  then show ?case by (simp add: starts_with_def)
next
  case (Cons c junk)
  have "\<not> starts_with (x # q) (c # junk @ (x # q) @ r)"
  proof
    assume "starts_with (x # q) (c # junk @ (x # q) @ r)"
    then obtain v where "(c # junk) @ (x # q @ r) = (x # q) @ v" by (auto simp: starts_with_iff)
    then obtain a where "(c # junk = (x # q) @ a) \<or>
        ((c # junk) @ a = x # q \<and> x # q @ r = a @ v)"
      by (auto simp only: append_eq_append_conv2)
    moreover have "c # junk \<noteq> (x # q) @ a" using Cons.prems by (metis starts_with_append contains.simps(2))
    ultimately have a: "(c # junk) @ a = x # q" "x # q @ r = a @ v" by auto
    show False
    proof (cases a)
      case Nil
      then show False using a(1) Cons.prems by (metis append_Nil2 contains_mid append_Nil)
    next
      case (Cons y ys)
      then have "y = x" "y \<in> set q" using a by auto
      then show False using assms(2) by simp
    qed
  qed
  then show ?case using Cons by simp
qed

lemma from_marker_length: "from_marker p s = Some r \<Longrightarrow> length p \<le> length s"
  by (induction s) (auto split: if_splits dest: starts_with_length)

lemma from_marker_mono: "from_marker p s = Some r \<Longrightarrow> p \<noteq> [] \<Longrightarrow> from_marker p (s @ x) = Some (r @ x)"
proof (induction s)
  case (Cons c s)
  show ?case
  proof (cases "starts_with p (c # s)")
    case True
    then have "starts_with p (c # s @ x)"
      unfolding starts_with_iff by (metis append.assoc append_Cons)
    then show ?thesis using Cons.prems True by auto
  next
    case False
    then have f: "from_marker p s = Some r" using Cons.prems by simp
    have "take (length p) (c # s @ x) = take (length p) (c # s)"
      using from_marker_length[OF f] by (cases p) simp_all
    then have "\<not> starts_with p (c # s @ x)" using False by (simp add: starts_with_def)
    then show ?thesis using Cons.IH[OF f Cons.prems(2)] by simp
  qed
qed simp

lemma takeWhile_stops: "list_ex is_eol r \<Longrightarrow> takeWhile (\<lambda>c. \<not> is_eol c) (r @ x) = takeWhile (\<lambda>c. \<not> is_eol c) r"
  by (induction r) auto

lemma state_marker: "PROVISION_OK_STATUS = CHR ''['' # ''STATE]''" "CHR ''['' \<notin> set ''STATE]''"
  by (simp_all add: PROVISION_OK_STATUS_def)

lemma status_reads_line:
  assumes "port_works (ps_polls port)"
    and "received (ps_polls port) = junk @ (PROVISION_OK_STATUS @ l) @ CR # rest"
    and "eol_free l" and "\<not> contains PROVISION_OK_STATUS junk"
  shows "runStatus port t = (0, PROVISION_OK_STATUS @ l @ [LF], [])"
proof -
  let ?m = makeStateLineMatcher and ?k = PROVISION_OK_STATUS
  have whole: "from_marker ?k (received (ps_polls port)) = Some (?k @ l @ CR # rest)"
    using from_marker_skip[OF _ state_marker(2), folded state_marker(1), of junk "l @ CR # rest"] assms(2,4)
    by simp
  have "?m ([] @ received (ps_polls port)) = Matched"
    by (simp add: makeStateLineMatcher_def whole)
  moreover have "ps_polls port \<noteq> []" using assms(2) by (auto simp: PROVISION_OK_STATUS_def)
  ultimately have "fst (poll_loop ?m (ps_polls port) []) = Matched"
    using poll_loop_finds[of "ps_polls port" "[]" ?m "[]"] assms(1) state_never_stops by simp
  then obtain r lg why where loop: "poll_loop ?m (ps_polls port) [] = (Matched, r, lg, why)"
    by (metis prod.collapse)
  from poll_loop_Matched[OF loop] obtain us vs where
    us: "ps_polls port = us @ vs" "r = received us" "?m r = Matched" by auto
  then obtain r' where r': "from_marker ?k r = Some r'" "list_ex is_eol r'"
    by (auto simp: makeStateLineMatcher_def split: option.splits if_splits)
  have "from_marker ?k (received (ps_polls port)) = Some (r' @ received vs)"
    using from_marker_mono[OF r'(1), of "received vs"] us(1,2) by (simp add: PROVISION_OK_STATUS_def)
  then have e: "r' @ received vs = (?k @ l) @ CR # rest" using whole by simp
  have "takeWhile (\<lambda>c. \<not> is_eol c) r' = takeWhile (\<lambda>c. \<not> is_eol c) ((?k @ l) @ CR # rest)"
    using takeWhile_stops[OF r'(2), of "received vs"] e by simp
  also have "\<dots> = ?k @ l"
    by (rule span_line(1)) (use assms(3) in \<open>simp_all add: PROVISION_OK_STATUS_def is_eol_def CR_def LF_def\<close>)
  finally show ?thesis by (simp add: runStatus_def loop r'(1))
qed

lemma snapshot_shape:
  assumes "heartbeat_tick ver now st mon client cad led ssid ip auth h = (True, h')"
    and "length (snapshot h') < 383"
  obtains l where "snapshot h' = (PROVISION_OK_STATUS @ l) @ [CR, LF]"
proof -
  have "\<exists>l. heartbeat_line ver now st mon client cad led ssid ip auth = (PROVISION_OK_STATUS @ l) @ [CR, LF]"
    by (simp add: heartbeat_line_def PROVISION_OK_STATUS_def)
  then obtain l where "heartbeat_line ver now st mon client cad led ssid ip auth =
      (PROVISION_OK_STATUS @ l) @ [CR, LF]" by blast
  then have l: "snapshot h' = take 383 ((PROVISION_OK_STATUS @ l) @ [CR, LF])"
    using assms(1) by (auto simp: heartbeat_tick_def split: if_splits)
  then have "take 383 ((PROVISION_OK_STATUS @ l) @ [CR, LF]) = (PROVISION_OK_STATUS @ l) @ [CR, LF]"
    using assms(2) by (intro take_all) (simp add: min_def split: if_splits)
  then show ?thesis using that[of l] l by (simp only:)
qed

text \<open>
  The status read attaches to a running stream at any point and gets it in
  any chunks. If the device's next heartbeat is among what arrives before the deadline, the tool
  prints exactly that line, once, and succeeds.
\<close>

theorem status_prints_the_heartbeat:
  assumes "heartbeat_tick ver now st mon client cad led ssid ip auth h = (True, h')"
    and "length (snapshot h') < 383" and "eol_free (butlast (butlast (snapshot h')))"
    and "port_works (ps_polls port)" and "received (ps_polls port) = junk @ snapshot h' @ rest"
    and "\<not> contains PROVISION_OK_STATUS junk"
  shows "runStatus port t = (0, butlast (butlast (snapshot h')) @ [LF], [])"
proof -
  obtain l where l: "snapshot h' = (PROVISION_OK_STATUS @ l) @ [CR, LF]"
    using snapshot_shape[OF assms(1,2)] by blast
  then have line: "butlast (butlast (snapshot h')) = PROVISION_OK_STATUS @ l"
    by (simp add: butlast_append)
  have "runStatus port t = (0, PROVISION_OK_STATUS @ l @ [LF], [])"
    by (rule status_reads_line[OF assms(4) _ _ assms(6)]) (use assms(3,5) l line in simp_all)
  then show ?thesis by (simp add: line)
qed

theorem status_prints_the_heartbeat_witness:
  "runStatus \<lparr>ps_opens = True, ps_writes = True,
     ps_polls = [NothingYet, Received (''e] old tail'' @ [CR, LF] @ take 3 (snapshot (ex_beat ''home''))),
       Received (drop 3 (snapshot (ex_beat ''home'')) @ ''[STATE] next'')]\<rparr> 8 =
   (0, butlast (butlast (snapshot (ex_beat ''home''))) @ [LF], [])"
proof (rule status_prints_the_heartbeat[OF ex_beat_tick, where junk = "''e] old tail'' @ [CR, LF]"
      and rest = "''[STATE] next''"])
  show "length (snapshot (ex_beat ''home'')) < 383"
    "eol_free (butlast (butlast (snapshot (ex_beat ''home''))))"
    "\<not> contains PROVISION_OK_STATUS (''e] old tail'' @ [CR, LF])"
    unfolding ex_beat_text none_if_empty_def c_str_def
    by (simp_all add: eol_free_def is_eol_def CR_def LF_def starts_with_def PROVISION_OK_STATUS_def)
qed simp_all

section \<open>The console over TCP\<close>

definition client_text :: "tcp_out list \<Rightarrow> string" where
  "client_text outs =
     device_text (List.map_filter (\<lambda>x. case x of ClientPrintln l \<Rightarrow> Some l | _ \<Rightarrow> None) outs)"

definition socket_works :: "console_answers \<Rightarrow> bool" where
  "socket_works a \<longleftrightarrow> 0 \<le> ca_connect a \<and> ca_timeout1 a \<and> ca_nodelay a \<and> ca_send a \<and> ca_timeout2 a"

lemma read_ack_line:
  "eol_free l \<Longrightarrow> length ack + length l < AUTH_ACK_MAX_LEN \<Longrightarrow> read_ack ack (l @ CR # r) = (ack @ l @ [CR], r)"
  by (induction l arbitrary: ack) (auto simp: is_eol_def AUTH_ACK_MAX_LEN_def)

lemma frame_trim:
  assumes "tok \<noteq> []" "\<not> ws6 (last tok)"
  shows "tcp_trim (''AUTH '' @ tok @ [CR]) = ''AUTH '' @ tok"
proof -
  have h: "\<not> ws6 (CHR ''A'')" by code_simp
  have "tcp_trim (''AUTH '' @ tok @ [CR]) = rev (dropWhile ws6 (rev (''AUTH '' @ tok @ [CR])))"
    using h by (simp add: tcp_trim_def trim_by_def)
  also have "\<dots> = rev (dropWhile ws6 (rev (''AUTH '' @ tok)))"
    by (simp add: ws6_def ws4_def CR_def)
  also have "\<dots> = ''AUTH '' @ tok"
    using assms by (cases tok rule: rev_cases) simp_all
  finally show ?thesis .
qed

text \<open>
  The console over TCP against the firmware's server: the line the tool
  sends is accepted, the answer is understood and the tool goes on if and only if the token it was
  built with is the device's. What the device sends after the answer stays in the stream, behind
  the line feed of the answer.
\<close>

theorem console_opens_iff_tokens_match:
  assumes "tok \<noteq> []" and "\<not> ws6 (last tok)" and "socket_works a"
    and "tcp_accept srv ip (''AUTH '' @ tok @ [CR]) devTok = (srv', outs)"
    and "ca_stream a = client_text outs @ later"
  shows "SockSend (''AUTH '' @ tok @ [CR]) \<in> set (fst (snd (console_open tok host port a))) \<and>
    (fst (console_open tok host port a) \<longleftrightarrow> tok = devTok) \<and> (hasClient srv' \<longleftrightarrow> tok = devTok) \<and>
    snd (snd (console_open tok host port a)) = LF # later"
proof -
  have trim: "tcp_trim (''AUTH '' @ tok @ [CR]) = ''AUTH '' @ tok" by (rule frame_trim[OF assms(1,2)])
  note acc = assms(4)[unfolded tcp_accept_def trim tcp_isValidAuthToken_def Let_def]
  have words: "contains ''OK'' (''OK'' @ [CR])" "\<not> contains ''OK'' (''ERROR unauthorized'' @ [CR])"
    by code_simp+
  show ?thesis
  proof (cases "tok = devTok")
    case True
    then have "ca_stream a = ''OK'' @ CR # LF # later" "hasClient srv'"
      using acc assms(5) by (auto simp: client_text_def map_filter_def split: if_splits)
    moreover have "read_ack [] (''OK'' @ CR # LF # later) = (''OK'' @ [CR], LF # later)"
      using read_ack_line[of "''OK''" "[]"] by (simp add: AUTH_ACK_MAX_LEN_def is_eol_def CR_def LF_def)
    ultimately show ?thesis
      using assms(3) words(1) True by (simp add: console_open_def socket_works_def)
  next
    case False
    then have "ca_stream a = ''ERROR unauthorized'' @ CR # LF # later" "\<not> hasClient srv'"
      using acc assms(5) by (auto simp: client_text_def map_filter_def split: if_splits)
    moreover have "read_ack [] (''ERROR unauthorized'' @ CR # LF # later) =
        (''ERROR unauthorized'' @ [CR], LF # later)"
      using read_ack_line[of "''ERROR unauthorized''" "[]"]
      by (simp add: AUTH_ACK_MAX_LEN_def is_eol_def CR_def LF_def)
    ultimately show ?thesis
      using assms(3) words(2) False by (simp add: console_open_def socket_works_def)
  qed
qed

definition ex_answers :: "string \<Rightarrow> console_answers" where
  "ex_answers s = \<lparr>ca_connect = 5, ca_timeout1 = True, ca_nodelay = True, ca_send = True,
     ca_stream = s, ca_timeout2 = True\<rparr>"

theorem console_opens_iff_tokens_match_witness:
  "fst (console_open ''t0ken'' ''10.0.0.7'' 3333 (ex_answers (''OK'' @ [CR, LF] @ ''[STATE]''))) \<and>
   \<not> fst (console_open ''t0ken'' ''10.0.0.7'' 3333 (ex_answers (''ERROR unauthorized'' @ [CR, LF])))"
proof -
  obtain s1 o1 where a1: "tcp_accept tcp_init [] (''AUTH '' @ ''t0ken'' @ [CR]) ''t0ken'' = (s1, o1)"
    by fastforce
  obtain s2 o2 where a2: "tcp_accept tcp_init [] (''AUTH '' @ ''t0ken'' @ [CR]) ''other'' = (s2, o2)"
    by fastforce
  have tok: "''t0ken'' \<noteq> []" "\<not> ws6 (last ''t0ken'')" by code_simp+
  have trim: "tcp_trim (''AUTH '' @ ''t0ken'' @ [CR]) = ''AUTH '' @ ''t0ken''" by code_simp
  have "client_text o1 = ''OK'' @ [CR, LF]" "client_text o2 = ''ERROR unauthorized'' @ [CR, LF]"
    using a1 a2 unfolding tcp_accept_def trim tcp_isValidAuthToken_def
    by (auto simp: client_text_def map_filter_def tcp_init_def)
  then have "ca_stream (ex_answers (''OK'' @ [CR, LF] @ ''[STATE]'')) = client_text o1 @ ''[STATE]''"
    "ca_stream (ex_answers (''ERROR unauthorized'' @ [CR, LF])) = client_text o2 @ []"
    by (simp_all add: ex_answers_def)
  moreover have "socket_works (ex_answers t)" for t by (simp add: ex_answers_def socket_works_def)
  ultimately show ?thesis
    using console_opens_iff_tokens_match[OF tok _ a1] console_opens_iff_tokens_match[OF tok _ a2] by simp
qed

section \<open>Transports\<close>

text \<open>
  Every provisioning transport the validation lets through resolves to a
  console, with one exception: \<open>usb:\<close> without a path is accepted by the validation and has none.
\<close>

theorem validated_transport_resolves:
  assumes "isProvisioning opts" and "validateProvisioningTransport opts = []"
  shows "createProvisioningPort glob (wifi_transport (o_wifi opts)) = None \<longleftrightarrow>
    wifi_transport (o_wifi opts) = ''usb:''"
proof -
  let ?t = "wifi_transport (o_wifi opts)"
  have usb: "starts_with ''usb:'' (''usb:'' @ x)" for x by (rule starts_with_append)
  have port: "resolveSerialPort glob u \<noteq> []" if "u = [] \<or> u = ''auto''" for u
    using that by (auto simp: resolveSerialPort_def Let_def ESP32_DEFAULT_USB_PORT_def)
  consider "?t = [] \<or> ?t = ''auto''" | "starts_with ''usb:'' ?t"
    | "starts_with ''tcp:'' ?t" "parseTcpTarget ?t \<noteq> None"
    using assms by (auto simp: validateProvisioningTransport_def Let_def quoted_def split: if_splits)
  then show ?thesis
  proof cases
    case 1
    then show ?thesis
      using port[OF 1] usb[of "resolveSerialPort glob ?t"]
      by (auto simp: createProvisioningPort_def normalizeTransport_def matchScheme_def buildUsbPort_def)
  next
    case 2
    then obtain x where "?t = ''usb:'' @ x" by (auto simp: starts_with_iff)
    then show ?thesis
      using usb[of x]
      by (auto simp: createProvisioningPort_def normalizeTransport_def matchScheme_def buildUsbPort_def)
  next
    case 3
    then obtain x where x: "?t = ''tcp:'' @ x" by (auto simp: starts_with_iff)
    have "\<not> starts_with ''usb:'' ?t" "?t \<noteq> ''auto''" by (simp_all add: x starts_with_def)
    then show ?thesis
      using 3 x
      by (auto simp: createProvisioningPort_def normalizeTransport_def matchScheme_def buildTcpPort_def)
  qed
qed

theorem validated_transport_resolves_witness:
  "createProvisioningPort (\<lambda>_. []) ''usb:'' = None \<and>
   createProvisioningPort (\<lambda>_. []) ''tcp:10.0.0.7'' \<noteq> None"
proof -
  let ?d = "\<lparr>fp_of_int = id, fp_mul = (*), fp_add = (+), fp_sub = (-), fp_div = (div),
     fp_less = (<), fp_eq = (=)\<rparr> :: int fp_ops"
  let ?o = "\<lambda>t. (default_options ?d)\<lparr>o_wifi := (ex_opts [] [])\<lparr>reboot_esp32 := True, wifi_transport := t\<rparr>\<rparr>"
  have h: "isProvisioning (?o t)" for t
    by (simp add: isProvisioning_def wifi_active_def default_options_def)
  have v: "validateProvisioningTransport (?o ''usb:'') = []"
    "validateProvisioningTransport (?o ''tcp:10.0.0.7'') = []" by code_simp+
  show ?thesis
    using validated_transport_resolves[OF h v(1), of "\<lambda>_. []"]
      validated_transport_resolves[OF h v(2), of "\<lambda>_. []"] by simp
qed

end
