(* ===== verification/Cli_Proofs.thy ===== *)
theory Cli_Proofs
  imports Host_Main FW_Discovery_Proofs DbcParser_Proofs Provision_Proofs
begin

text \<open>
  The command line: what survives the validation, how a target's text is read back, the examples
  document, the text that goes to logs, and the discovery that ends in a connection.
\<close>

section \<open>Targets\<close>

lemma dec_str_digits: "list_all is_digit (dec_str n)" "dec_num (dec_str n) = n" "dec_str n \<noteq> []"
  using dec_str_read[of n] by (simp_all add: dec_str_def)

lemma colon_no_digit: "list_all is_digit p \<Longrightarrow> CHR '':'' \<notin> set p"
  by (auto simp: list_all_iff is_digit_def)

lemma rfind_last:
  assumes "c \<notin> set p"
  shows "rfind_char c (h @ c # p) = Some (length h)"
proof -
  have "takeWhile (\<lambda>x. x \<noteq> c) (rev p @ c # rev h) = rev p"
    using assms by (simp add: takeWhile_append)
  then show ?thesis by (simp add: rfind_char_def)
qed

lemma parseTcpTarget_port:
  assumes "h \<noteq> []" "1 \<le> n" "n \<le> 65535"
  shows "parseTcpTarget (''tcp:'' @ h @ '':'' @ dec_str n) = Some (h, n)"
proof -
  have body: "drop 4 (''tcp:'' @ h @ '':'' @ dec_str n) = h @ CHR '':'' # dec_str n" by simp
  have st: "starts_with ''tcp:'' (''tcp:'' @ h @ '':'' @ dec_str n)" by (rule starts_with_append)
  have r: "rfind_char (CHR '':'') (h @ CHR '':'' # dec_str n) = Some (length h)"
    by (rule rfind_last[OF colon_no_digit[OF dec_str_digits(1)]])
  show ?thesis
    using assms dec_str_digits[of n] st r unfolding parseTcpTarget_def body Let_def by simp
qed

text \<open>
  From the device's beacon to the socket: a beacon of the firmware that
  reaches the listener, with no other datagram before it, ends the discovery at once; the target
  made of the first device names, for the parser of targets, the address the beacon came from and
  the port in it, so that \<open>--connect auto\<close> builds a TCP source to exactly that place.
\<close>

theorem discovered_device_is_reachable:
  assumes "length dev = 16" and "(ucast tcp :: u16) \<noteq> 0"
    and "ud_pending u = []" and "ud_queue u = []"
    and "autoDetectSerialPort (dw_glob net) kUsbGlobPatterns = []" and "dw_starts net"
    and "dw_devices net = fst (udp_poll
      (WindowArrivals ((buildDiscoveryPacket dev tcp ota ts n, from) # gs) # ws) u)"
  shows "buildPipelineSource (autoDiscoverESP32 net) proto =
    TcpSource (ipv4DottedQuad from) (unat (ucast tcp :: u16)) proto"
proof -
  let ?g = "(buildDiscoveryPacket dev tcp ota ts n, from)"
  let ?v = "\<lparr>dd_deviceId = dev, dd_address = ipv4DottedQuad from, dd_canPort = ucast tcp,
     dd_otaPort = ota, dd_timestamp = ts\<rparr>"
  have len: "length (buildDiscoveryPacket dev tcp ota ts n) \<le> PACKET_LEN * 2"
    using assms(1) by (simp add: firmware_packet toBytes_def signedPayload_def beacon_def MAGIC_def
        be64_def be16_eq le32_def PACKET_LEN_def HEADER_LEN_def)
  have rx: "tryReceive ?g = Some ?v"
    using discovery_beacon_is_understood[OF assms(1,2), of ota ts n "[]"] len
    by (simp add: tryReceive_def)
  obtain vs rest where "drain_datagrams gs = (vs, rest)" by fastforce
  then have d: "drain_datagrams (?g # gs) = (?v # vs, rest)" by (simp add: rx)
  then have "hd (fst (udp_poll (WindowArrivals (?g # gs) # ws) u)) = ?v \<and>
      fst (udp_poll (WindowArrivals (?g # gs) # ws) u) \<noteq> []"
    using assms(3,4) by (simp add: udp_poll_def drainPendingDeduplicated_def)
  then obtain vs' where "dw_devices net = ?v # vs'"
    unfolding assms(7) by (metis list.collapse)
  then have target: "autoDiscoverESP32 net =
      ''tcp:'' @ ipv4DottedQuad from @ '':'' @ dec_str (unat (ucast tcp :: u16))"
    using assms(5,6) by (simp add: autoDiscoverESP32_def tcpConnectionString_def)
  have port: "1 \<le> unat (ucast tcp :: u16)" "unat (ucast tcp :: u16) \<le> 65535"
    using assms(2) u16_lt[of "ucast tcp"] unat_gt_0[of "ucast tcp :: u16"] by simp_all
  have "ipv4DottedQuad from \<noteq> []" by (simp add: ipv4DottedQuad_def dec_str_digits)
  from parseTcpTarget_port[OF this port] show ?thesis
    unfolding target by (simp add: buildPipelineSource_def starts_with_def)
qed

theorem discovered_device_is_reachable_witness:
  "buildPipelineSource (autoDiscoverESP32 \<lparr>dw_glob = (\<lambda>_. []), dw_starts = True,
     dw_devices = fst (udp_poll [WindowArrivals [(buildDiscoveryPacket (replicate 16 7) TCP_PORT
       OTA_HTTP_PORT 1700000000 4711, 0x0A000007)]]
       \<lparr>ud_listening = True, ud_pending = [], ud_queue = []\<rparr>)\<rparr>) ''raw'' =
   TcpSource (ipv4DottedQuad 0x0A000007) (unat (ucast TCP_PORT :: u16)) ''raw''"
  by (rule discovered_device_is_reachable[where gs = "[]"]) (simp_all add: TCP_PORT_def kUsbGlobPatterns_def)

text \<open>A datagram that is no packet ends the draining of its window but is gone in the next.\<close>

lemma junk_windows:
  assumes "list_all (\<lambda>g. tryReceive g = None) junk" "ud_pending u = []" "ud_queue u = junk @ g # gs"
    and "tryReceive g = Some v"
  shows "\<exists>vs. ud_pending (poll_windows (replicate (length junk + 1) (WindowArrivals [])) u) = v # vs"
  using assms
proof (induction junk arbitrary: u)
  case Nil
  obtain vs rest where "drain_datagrams gs = (vs, rest)" by fastforce
  then show ?case using Nil by simp
next
  case (Cons j junk)
  have "drain_datagrams (j # junk @ g # gs) = ([], junk @ g # gs)" using Cons.prems by simp
  then have step: "pollStepShouldContinue (WindowArrivals []) u =
      (True, u\<lparr>ud_queue := junk @ g # gs\<rparr>)"
    using Cons.prems by simp
  from Cons.IH[of "u\<lparr>ud_queue := junk @ g # gs\<rparr>"] Cons.prems
  show ?case by (simp add: step del: pollStepShouldContinue.simps)
qed

text \<open>
  Datagrams that are no packets cannot hide a device: with \<open>n\<close> of them in
  front of a beacon in the queue, the poll finds the device in its window \<open>n + 1\<close>.
\<close>

theorem junk_only_delays_discovery:
  assumes "list_all (\<lambda>g. tryReceive g = None) junk" and "ud_pending u = []"
    and "ud_queue u = junk @ g # gs" and "tryReceive g = Some v"
  shows "hd (fst (udp_poll (replicate (length junk + 1) (WindowArrivals [])) u)) = v"
proof -
  obtain vs where "ud_pending (poll_windows (replicate (length junk + 1) (WindowArrivals [])) u) = v # vs"
    using junk_windows[OF assms] by blast
  then show ?thesis by (simp add: udp_poll_def drainPendingDeduplicated_def del: replicate_Suc)
qed

section \<open>Validation\<close>

text \<open>
  What the validation accepts for a run with telemetry names a registered
  vehicle, or asks for detection over Bluetooth. So the free-form label that interactive mode and
  the replay of decoded rows check for, and the default of interactive mode when no vehicle is
  given, never reach the run.
\<close>

theorem free_form_labels_are_rejected:
  assumes "validateOptions files reg ids opts = []" and "\<not> isInfoMode opts" and "\<not> isProvisioning opts"
  shows "vehicle_type (o_telemetry opts) \<noteq> [] \<and>
    (reg (vehicle_type (o_telemetry opts)) \<noteq> None \<or>
     vehicle_type (o_telemetry opts) = ''auto'' \<and> opt_isBLE opts)"
  using assms
  by (auto simp: validateOptions_def validateVehicle_def Let_def quoted_def split: if_splits)

definition ints :: "int fp_ops" where
  "ints = \<lparr>fp_of_int = id, fp_mul = (*), fp_add = (+), fp_sub = (-), fp_div = (div),
     fp_less = (<), fp_eq = (=)\<rparr>"

definition ex_telemetry :: "string \<Rightarrow> string \<Rightarrow> int CliOptions" where
  "ex_telemetry target vehicle = (default_options ints)\<lparr>o_telemetry :=
     (o_telemetry (default_options ints))\<lparr>connect_target := target, vehicle_type := vehicle\<rparr>\<rparr>"

lemmas ex_cli_defs = ex_telemetry_def ints_def default_options_def

lemma free_form_valid:
  "validateOptions (\<lambda>_. None) (registerAll Map.empty) [''tesla''] (ex_telemetry ''demo'' ''tesla'') = []"
  by (simp add: validateOptions_def validateProvisioningTransport_def isProvisioning_def wifi_active_def
      isInfoMode_def validateAdapterProtocol_def validateConnectRequired_def
      validateInteractiveVehicleLabel_def validateDecodedCsvReplayLabel_def opt_isFile_def starts_with_def
      validateVehicle_def registerAll_def registerVehicle_def ex_cli_defs)

theorem free_form_labels_are_rejected_witness:
  "registerAll Map.empty ''tesla'' \<noteq> None \<and>
   validateOptions (\<lambda>_. None) (registerAll Map.empty) [''tesla''] (ex_telemetry ''demo'' ''tesla'') = []"
proof -
  note v = free_form_valid
  have n: "\<not> isInfoMode (ex_telemetry ''demo'' ''tesla'')" "\<not> isProvisioning (ex_telemetry ''demo'' ''tesla'')"
    by (simp_all add: isInfoMode_def isProvisioning_def wifi_active_def ex_cli_defs)
  show ?thesis
    using free_form_labels_are_rejected[OF v n] v by (simp add: ex_cli_defs)
qed

text \<open>
  The sanitiser is the identity on printable text, leaves no control character, keeps the length
  and changes nothing when it is applied again.
\<close>

lemma forLog_clean: "list_all (\<lambda>c. \<not> is_control c) (forLog s)"
  by (auto simp: forLog_def list_all_iff is_control_def)

lemma forLog_id: "list_all (\<lambda>c. \<not> is_control c) s \<Longrightarrow> forLog s = s"
  by (auto simp: forLog_def list_all_iff map_idI)

lemma quoted_clean: "list_all (\<lambda>c. \<not> is_control c) (quoted (forLog s))"
  using forLog_clean[of s] by (simp add: quoted_def is_control_def)

lemma dec_str_clean: "list_all (\<lambda>c. \<not> is_control c) (dec_str n)"
  using dec_str_digits(1)[of n] by (auto simp: list_all_iff is_digit_def is_control_def)

lemma clean_vehicles:
  "list_all (list_all (\<lambda>c. \<not> is_control c)) ids \<Longrightarrow> list_all (\<lambda>c. \<not> is_control c) (list_vehicles ids)"
  by (induction ids) (simp_all add: list_vehicles_def is_control_def)

text \<open>
  No option's value can forge a line of the log: whatever bytes the
  options hold, a validation error is one line of printable characters, if the registered
  identifiers are.
\<close>

theorem validation_errors_are_one_line:
  assumes "list_all (list_all (\<lambda>c. \<not> is_control c)) ids"
  shows "list_all (\<lambda>c. \<not> is_control c) (validateOptions files reg ids opts)"
proof -
  let ?clean = "list_all (\<lambda>c. \<not> is_control c)"
  have "?clean (validateProvisioningTransport opts)"
    using quoted_clean[of "wifi_transport (o_wifi opts)"]
    by (simp add: validateProvisioningTransport_def Let_def is_control_def)
  moreover have "?clean (validateAdapterProtocol opts)"
    using quoted_clean[of "adapter_protocol (o_logging opts)"]
    by (simp add: validateAdapterProtocol_def Let_def is_control_def)
  moreover have "?clean (validateConnectRequired opts)"
    by (simp add: validateConnectRequired_def is_control_def)
  moreover have label: "?clean (validateVehicleLabel l)" for l
    using forLog_clean[of l] dec_str_clean[of 64]
    by (simp add: validateVehicleLabel_def invalidVehicleLabelMsg_def is_control_def)
  moreover have "?clean (validateVehicle reg ids opts)"
    using quoted_clean[of "vehicle_type (o_telemetry opts)"] clean_vehicles[OF assms]
    by (simp add: validateVehicle_def Let_def is_control_def)
  ultimately show ?thesis
    by (simp add: validateOptions_def validateInteractiveVehicleLabel_def
        validateDecodedCsvReplayLabel_def)
qed

theorem validation_errors_are_one_line_witness:
  "list_all (\<lambda>c. \<not> is_control c) (validateOptions (\<lambda>_. None) Map.empty [''tesla'']
     (ex_telemetry ''demo'' (''x'' @ [LF] @ ''[provision] OK'')))"
  by (rule validation_errors_are_one_line) code_simp

section \<open>Dispatch\<close>

lemma target_kinds:
  "connect_target (o_telemetry opts) \<noteq> [] \<Longrightarrow> \<not> opt_isAuto opts \<Longrightarrow> \<not> opt_isFile opts \<Longrightarrow>
   opt_isTcp opts \<or> opt_isDemo opts \<or> opt_isUsb opts \<or> opt_isBLE opts"
  by (auto simp: opt_isBLE_def)

lemma discovered_target:
  "autoDiscoverESP32 net \<noteq> [] \<Longrightarrow>
   starts_with ''usb:'' (autoDiscoverESP32 net) \<or> starts_with ''tcp:'' (autoDiscoverESP32 net)"
  by (auto simp: autoDiscoverESP32_def Let_def tcpConnectionString_def starts_with_def
      split: list.splits if_splits)

lemma discovered_assign:
  assumes "autoDiscoverAndAssign net opts = Some o1"
  shows "opt_isUsb o1 \<or> opt_isTcp o1" "\<not> opt_isFile o1"
proof -
  let ?t = "autoDiscoverESP32 net"
  have t: "?t \<noteq> []" "connect_target (o_telemetry o1) = ?t"
    using assms by (auto simp: autoDiscoverAndAssign_def Let_def split: if_splits)
  have d: "starts_with ''usb:'' ?t \<or> starts_with ''tcp:'' ?t" by (rule discovered_target[OF t(1)])
  then show "opt_isUsb o1 \<or> opt_isTcp o1" by (simp add: opt_isUsb_def opt_isTcp_def t)
  show "\<not> opt_isFile o1"
    using d by (auto simp: opt_isFile_def t starts_with_iff)
qed

lemma transport_source: "opt_isTcp opts \<or> opt_isDemo opts \<or> opt_isUsb opts \<or> opt_isBLE opts \<Longrightarrow>
    runTransport opts \<noteq> ExitWithError m"
  by (auto simp: runTransport_def Let_def)

text \<open>
  A command line that passes the validation and is not answered early ends
  in one of the modes: the error branch behind the dispatch is never taken, not even for a target
  the discovery has put in.
\<close>

theorem validated_runs_have_a_source:
  assumes "error_message opts = []" and "validateOptions files reg ids opts = []"
    and "handleEarlyExit ledTable vehicles opts = None"
  shows "main_action net files reg ids ledTable vehicles opts = main_dispatch net files opts \<and>
    main_dispatch net files opts \<noteq> ExitWithError m"
proof
  show "main_action net files reg ids ledTable vehicles opts = main_dispatch net files opts"
    using assms by (simp add: main_action_def)
  show "main_dispatch net files opts \<noteq> ExitWithError m"
  proof (cases "scan_mode (o_mode opts) \<or> discover_mode (o_mode opts) \<or> status_requested (o_wifi opts)
      \<or> isProvisioning opts \<or> interactive_mode (o_telemetry opts)")
    case True
    then show ?thesis by (auto simp: main_dispatch_def)
  next
    case False
    then have "\<not> isInfoMode opts"
      using assms(3) by (auto simp: isInfoMode_def handleEarlyExit_def Let_def split: if_splits)
    then have tgt: "connect_target (o_telemetry opts) \<noteq> []"
      using assms(2) False
      by (auto simp: validateOptions_def validateConnectRequired_def split: if_splits)
    show ?thesis
    proof (cases "opt_isAuto opts")
      case True
      show ?thesis
      proof (cases "autoDiscoverAndAssign net opts")
        case None
        then show ?thesis using False True by (simp add: main_dispatch_def)
      next
        case (Some o1)
        then show ?thesis
          using False True discovered_assign[OF Some] transport_source[of o1 m]
          by (auto simp: main_dispatch_def)
      qed
    next
      case F: False
      show ?thesis
      proof (cases "opt_isFile opts")
        case True
        then show ?thesis using False F by (auto simp: main_dispatch_def runFileReplay_def Let_def)
      next
        case N: False
        then show ?thesis
          using False F target_kinds[OF tgt F N] transport_source[of opts m] by (auto simp: main_dispatch_def)
      qed
    qed
  qed
qed

theorem validated_runs_have_a_source_witness:
  "main_action \<lparr>dw_glob = (\<lambda>_. []), dw_starts = True, dw_devices = []\<rparr> (\<lambda>_. None) (registerAll Map.empty)
     [''tesla''] [] [] (ex_telemetry ''demo'' ''tesla'') \<noteq> ExitWithError ''x''"
proof -
  note v = free_form_valid
  have n: "error_message (ex_telemetry ''demo'' ''tesla'') = []"
    "handleEarlyExit [] [] (ex_telemetry ''demo'' ''tesla'') = None"
    by (simp_all add: handleEarlyExit_def ex_cli_defs)
  show ?thesis using validated_runs_have_a_source[OF n(1) v n(2)] by metis
qed

text \<open>
  The universal target belongs to one of the two tracks: once the options are
  folded, a request to provision has taken over the target that was given or composed from an
  alias, none is left for the telemetry, and the run ends in a report, a scan or the dialogue with
  the device, never in a stream or a replay.
\<close>

lemma foldStartFrom_parts [simp]:
  "o_wifi (foldStartFrom d stod raw o0) = o_wifi o0"
  "o_mode (foldStartFrom d stod raw o0) = o_mode o0"
  "connect_target (o_telemetry (foldStartFrom d stod raw o0)) = connect_target (o_telemetry o0)"
  by (simp_all add: foldStartFrom_def Let_def)

lemma foldConnectAliases_parts [simp]: "o_wifi (foldConnectAliases o0) = o_wifi o0"
  by (simp add: foldConnectAliases_def Let_def)

lemma foldSetWifiCreds_parts [simp]: "o_telemetry (foldSetWifiCreds a o0) = o_telemetry o0"
  by (simp add: foldSetWifiCreds_def)

theorem provisioning_never_streams:
  assumes "opts = foldAll d stod setWifiArgs startFromRaw o0" and "isProvisioning opts"
  shows "connect_target (o_telemetry opts) = [] \<and>
    wifi_transport (o_wifi opts) = connect_target (o_telemetry (foldConnectAliases o0)) \<and>
    main_action net files reg ids ledTable vehicles opts \<in>
      {RunScan, RunDiscovery, RunStatusFlow, RunProvisioning (o_wifi opts)} \<union>
      range ExitWithError \<union> range ExitPrinting"
proof -
  let ?o = "foldSetWifiCreds setWifiArgs (foldConnectAliases o0)"
  have act: "wifi_active (o_wifi ?o)"
    using assms by (auto simp: foldAll_def isProvisioning_def foldProvisioningTransport_def
        wifi_active_def split: if_splits)
  then have "connect_target (o_telemetry opts) = [] \<and>
      wifi_transport (o_wifi opts) = connect_target (o_telemetry (foldConnectAliases o0))"
    unfolding assms(1) by (simp add: foldAll_def foldProvisioningTransport_def)
  moreover have "main_action net files reg ids ledTable vehicles opts \<in>
      {RunScan, RunDiscovery, RunStatusFlow, RunProvisioning (o_wifi opts)} \<union>
      range ExitWithError \<union> range ExitPrinting"
    using assms(2) by (auto simp: main_action_def main_dispatch_def split: option.splits)
  ultimately show ?thesis by blast
qed

theorem provisioning_never_streams_witness:
  "wifi_transport (o_wifi (foldAll ints (\<lambda>_. None) [''net'', ''pw''] []
     ((default_options ints)\<lparr>o_telemetry := (o_telemetry (default_options ints))\<lparr>connect_tcp := ''10.0.0.7''\<rparr>\<rparr>)))
   = ''tcp:10.0.0.7''"
proof -
  let ?o = "(default_options ints)\<lparr>o_telemetry := (o_telemetry (default_options ints))\<lparr>connect_tcp := ''10.0.0.7''\<rparr>\<rparr>"
  have "isProvisioning (foldAll ints (\<lambda>_. None) [''net'', ''pw''] [] ?o)" by code_simp
  from provisioning_never_streams[OF refl this] show ?thesis
    by (simp add: foldConnectAliases_def default_options_def)
qed

section \<open>The examples document\<close>

text \<open>The text of a document: the lines of its sections, each with its topics and its body.\<close>

definition topics_text :: "string list \<Rightarrow> string" where
  "topics_text ts = concat (map (\<lambda>t. CHR '' '' # t @ '','') ts)"

definition block_lines :: "ExampleBlock \<Rightarrow> string list" where
  "block_lines b = (''# topic:'' @ topics_text (ex_topics b)) # ex_lines b"

definition section_lines :: "ExampleSection \<Rightarrow> string list" where
  "section_lines s = (''# section: '' @ section_name s) # concat (map block_lines (section_blocks s))"

definition document_text :: "ExampleSection list \<Rightarrow> string" where
  "document_text ss = concat (map (\<lambda>l. l @ [LF]) (concat (map section_lines ss)))"

definition name_ok :: "string \<Rightarrow> bool" where
  "name_ok n \<longleftrightarrow> LF \<notin> set n \<and> trimmed n = n"

definition topic_ok :: "string \<Rightarrow> bool" where
  "topic_ok t \<longleftrightarrow> name_ok t \<and> t \<noteq> [] \<and> CHR '','' \<notin> set t"

definition body_ok :: "string \<Rightarrow> bool" where
  "body_ok l \<longleftrightarrow> LF \<notin> set l \<and> \<not> starts_with ''# section:'' (dropWhile blank_or_tab l) \<and>
     \<not> starts_with ''# topic:'' (dropWhile blank_or_tab l)"

definition document_ok :: "ExampleSection list \<Rightarrow> bool" where
  "document_ok ss \<longleftrightarrow> list_all (\<lambda>s. name_ok (section_name s) \<and> list_all (\<lambda>b.
     list_all topic_ok (ex_topics b) \<and> list_all body_ok (ex_lines b)) (section_blocks s)) ss"

lemma getlines_lines:
  "list_all (\<lambda>l. LF \<notin> set l) ls \<Longrightarrow> getlines (concat (map (\<lambda>l. l @ [LF]) ls)) = ls"
  by (induction ls) (simp_all add: getlines_one)

lemma trimmed_blank: "trimmed (CHR '' '' # s) = trimmed s"
  by (simp add: trimmed_def trim_by_def blank_or_tab_def)

lemma split_on_cons:
  "c \<notin> set a \<Longrightarrow> split_on c (a @ c # r) = a # split_on c r"
  by (subst split_on.simps) (simp add: find_from_append[of c a 0 "[]", simplified])

lemma names_of_topics: "list_all topic_ok ts \<Longrightarrow> trimmed_names (topics_text ts) = ts"
proof (induction ts)
  case Nil
  show ?case
    by (simp add: topics_text_def trimmed_names_def splitCommaSeparated_def split_on.simps find_from_def
        trimmed_def)
next
  case (Cons t ts)
  have t: "CHR '','' \<notin> set (CHR '' '' # t)" "trimmed (CHR '' '' # t) = t" "t \<noteq> []"
    using Cons.prems by (simp_all add: topic_ok_def name_ok_def trimmed_blank)
  have "splitCommaSeparated (topics_text (t # ts)) =
      (CHR '' '' # t) # splitCommaSeparated (topics_text ts)"
    using split_on_cons[OF t(1), of "topics_text ts"]
    by (simp add: topics_text_def splitCommaSeparated_def)
  then show ?case using Cons t by (simp add: trimmed_names_def)
qed

lemma examples_body:
  assumes "list_all body_ok ls"
  shows "foldl (\<lambda>st l. examples_line l st) (ss @ [s\<lparr>section_blocks := bs @ [b]\<rparr>], True) ls =
    (ss @ [s\<lparr>section_blocks := bs @ [b\<lparr>ex_lines := ex_lines b @ ls\<rparr>]\<rparr>], True)"
  using assms
proof (induction ls arbitrary: b)
  case (Cons l ls)
  have "examples_line l (ss @ [s\<lparr>section_blocks := bs @ [b]\<rparr>], True) =
      (ss @ [s\<lparr>section_blocks := bs @ [b\<lparr>ex_lines := ex_lines b @ [l]\<rparr>]\<rparr>], True)"
    using Cons.prems by (simp add: examples_line_def add_line_def body_ok_def Let_def)
  then show ?case using Cons.IH[of "b\<lparr>ex_lines := ex_lines b @ [l]\<rparr>"] Cons.prems by simp
qed simp

lemma tag_topic:
  "dropWhile blank_or_tab (''# topic:'' @ r) = ''# topic:'' @ r"
  "dropWhile blank_or_tab (''# section: '' @ r) = ''# section: '' @ r"
  by (simp_all add: blank_or_tab_def TAB_def)

lemma examples_block:
  assumes "list_all topic_ok (ex_topics b)" "list_all body_ok (ex_lines b)"
  shows "foldl (\<lambda>st l. examples_line l st) (ss @ [s], op) (block_lines b) =
    (ss @ [s\<lparr>section_blocks := section_blocks s @ [b]\<rparr>], True)"
proof -
  have "examples_line (''# topic:'' @ topics_text (ex_topics b)) (ss @ [s], op) =
      (ss @ [s\<lparr>section_blocks := section_blocks s @ [\<lparr>ex_topics = ex_topics b, ex_lines = []\<rparr>]\<rparr>], True)"
    using names_of_topics[OF assms(1)]
    unfolding examples_line_def Let_def tag_topic by (simp add: starts_with_def)
  then show ?thesis
    using examples_body[OF assms(2), where bs = "section_blocks s" and s = s and ss = ss
        and b = "\<lparr>ex_topics = ex_topics b, ex_lines = []\<rparr>"]
    by (simp add: block_lines_def)
qed

lemma examples_blocks:
  assumes "list_all (\<lambda>b. list_all topic_ok (ex_topics b) \<and> list_all body_ok (ex_lines b)) bs"
  shows "\<exists>op'. foldl (\<lambda>st l. examples_line l st) (ss @ [s], op) (concat (map block_lines bs)) =
    (ss @ [s\<lparr>section_blocks := section_blocks s @ bs\<rparr>], op')"
  using assms
proof (induction bs arbitrary: s op)
  case (Cons b bs)
  obtain op' where "foldl (\<lambda>st l. examples_line l st)
      (ss @ [s\<lparr>section_blocks := section_blocks s @ [b]\<rparr>], True) (concat (map block_lines bs)) =
    (ss @ [s\<lparr>section_blocks := section_blocks s @ [b] @ bs\<rparr>], op')"
    using Cons.IH[of "s\<lparr>section_blocks := section_blocks s @ [b]\<rparr>" True] Cons.prems by auto
  then show ?case using examples_block[of b ss s op] Cons.prems by simp
qed auto

lemma examples_sections:
  assumes "document_ok docs" "ss \<noteq> []"
  shows "fst (foldl (\<lambda>st l. examples_line l st) (ss, op) (concat (map section_lines docs))) = ss @ docs"
  using assms
proof (induction docs arbitrary: ss op)
  case (Cons s docs)
  have nm: "trimmed (drop 10 (''# section: '' @ section_name s)) = section_name s"
    using Cons.prems(1) trimmed_blank[of "section_name s"] by (simp add: document_ok_def name_ok_def)
  have "examples_line (''# section: '' @ section_name s) (ss, op) =
      (ss @ [\<lparr>section_name = section_name s, section_blocks = []\<rparr>], False)"
    unfolding examples_line_def Let_def tag_topic case_prod_conv nm by (simp add: starts_with_def)
  moreover obtain op' where "foldl (\<lambda>st l. examples_line l st)
      (ss @ [\<lparr>section_name = section_name s, section_blocks = []\<rparr>], False)
      (concat (map block_lines (section_blocks s))) = (ss @ [s], op')"
    using examples_blocks[of "section_blocks s" ss "\<lparr>section_name = section_name s, section_blocks = []\<rparr>" False]
      Cons.prems(1) by (auto simp: document_ok_def)
  ultimately have "foldl (\<lambda>st l. examples_line l st) (ss, op) (section_lines s) = (ss @ [s], op')"
    by (simp add: section_lines_def)
  then show ?case using Cons.IH[of "ss @ [s]" op'] Cons.prems by (simp add: document_ok_def)
qed simp

lemma document_lines:
  assumes "document_ok docs"
  shows "list_all (\<lambda>l. LF \<notin> set l) (concat (map section_lines docs))"
proof -
  have "LF \<notin> set (topics_text ts)" if "list_all topic_ok ts" for ts
    using that by (induction ts) (auto simp: topics_text_def topic_ok_def name_ok_def LF_def)
  then show ?thesis
    using assms
    by (auto simp: document_ok_def list_all_iff section_lines_def block_lines_def name_ok_def body_ok_def
        LF_def)
qed

lemma examples_parsed:
  assumes "document_ok docs"
  shows "parseExamplesDocument (document_text docs) = \<lparr>section_name = [], section_blocks = []\<rparr> # docs"
  using examples_sections[OF assms, of "[\<lparr>section_name = [], section_blocks = []\<rparr>]" False]
  by (simp add: parseExamplesDocument_def document_text_def getlines_lines[OF document_lines[OF assms]])

lemma examples_rendered:
  assumes "document_ok docs"
  shows "printExamples (document_text docs) focus =
    ''EXAMPLES:'' @ [LF] @ render_sections focus True docs @ [LF]"
  using examples_parsed[OF assms] by (simp add: printExamples_def renderExamples_def)

text \<open>
  The examples document is read back as written: the sections in order with
  their headings, their topic blocks and every line of the bodies, behind the unnamed section the
  reader opens first; what is printed for a focus is the rendering of exactly that.
\<close>

theorem examples_document_roundtrip:
  assumes "document_ok docs"
  shows "parseExamplesDocument (document_text docs) =
      \<lparr>section_name = [], section_blocks = []\<rparr> # docs \<and>
    printExamples (document_text docs) focus =
      ''EXAMPLES:'' @ [LF] @ render_sections focus True docs @ [LF]"
  using examples_parsed[OF assms] examples_rendered[OF assms] by simp

text \<open>
  A comment inside a topic block is not stripped and does not end the block: it is
  a line of the body like any other, and it is printed.
\<close>

theorem comments_are_printed:
  assumes "document_ok [\<lparr>section_name = name, section_blocks = [\<lparr>ex_topics = ts, ex_lines = a @ b\<rparr>]\<rparr>]"
    and "body_ok (CHR ''#'' # comment)" and "TAB \<notin> set comment"
    and "list_all (\<lambda>c. \<not> is_control c) comment"
  shows "contains (CHR ''#'' # comment @ [LF]) (printExamples (document_text
    [\<lparr>section_name = name, section_blocks = [\<lparr>ex_topics = ts, ex_lines = a @ (CHR ''#'' # comment) # b\<rparr>]\<rparr>]) [])"
proof -
  let ?doc = "[\<lparr>section_name = name, section_blocks = [\<lparr>ex_topics = ts, ex_lines = a @ (CHR ''#'' # comment) # b\<rparr>]\<rparr>]"
  have "document_ok ?doc" using assms(1,2) by (simp add: document_ok_def)
  note rt = examples_rendered[OF this, of "[]"]
  have "forLogKeepNewlines (CHR ''#'' # comment) = CHR ''#'' # comment"
    using assms(4) by (auto simp: forLogKeepNewlines_def list_all_iff is_control_def intro!: map_idI)
  then have "contains ((CHR ''#'' # comment) @ [LF]) (render_lines \<lparr>ex_topics = ts, ex_lines = a @ (CHR ''#'' # comment) # b\<rparr>)"
    using contains_appendI2[OF contains_appendI1[OF contains_mid[of "(CHR ''#'' # comment) @ [LF]" "[]" "[]"]]]
    by (simp add: render_lines_def del: contains.simps)
  moreover have "printExamples (document_text ?doc) [] = (''EXAMPLES:'' @ [LF] @
      (if name = [] then [] else forLogKeepNewlines name @ '':'' @ [LF])) @
      render_lines \<lparr>ex_topics = ts, ex_lines = a @ (CHR ''#'' # comment) # b\<rparr> @ [LF]"
    unfolding rt by (simp add: block_matches_def)
  ultimately show ?thesis
    using contains_appendI2 contains_appendI1 by (metis append_Cons)
qed

theorem examples_document_roundtrip_witness:
  "parseExamplesDocument (document_text [\<lparr>section_name = ''CONNECTIONS'', section_blocks =
     [\<lparr>ex_topics = [''connect'', ''connect-usb''], ex_lines = [''  vehicle-sim --connect demo'', []]\<rparr>]\<rparr>]) =
   [\<lparr>section_name = [], section_blocks = []\<rparr>, \<lparr>section_name = ''CONNECTIONS'', section_blocks =
     [\<lparr>ex_topics = [''connect'', ''connect-usb''], ex_lines = [''  vehicle-sim --connect demo'', []]\<rparr>]\<rparr>]"
  by (rule examples_document_roundtrip[THEN conjunct1]) code_simp

theorem comments_are_printed_witness:
  "contains (CHR ''#'' # '' note'' @ [LF]) (printExamples (document_text
    [\<lparr>section_name = ''LOG'', section_blocks = [\<lparr>ex_topics = [''log''], ex_lines = [''a''] @ (CHR ''#'' # '' note'') # [''b'']\<rparr>]\<rparr>]) [])"
  by (rule comments_are_printed) code_simp+

end
