(* ===== verification/Host_Sockets.thy ===== *)
theory Host_Sockets
  imports VS_Prelude
begin

text \<open>
  The sockets of the host: \<open>src/src/pipeline/PosixSocket.cpp\<close>. The system calls are not part of
  the sources; what they return is an argument, one entry per call, and the descriptors that are
  opened and closed are recorded in order.
\<close>

section \<open>Waiting for a connection\<close>

datatype ConnectWaitResult = ConnConnected | ConnFailed | ConnCancelled

text \<open>
  One turn of the waiting loop: the stop token is set, \<open>poll\<close> fails (interrupted or not), the
  slice elapses, or the socket is writable and its error is read. The list ends at the deadline.
\<close>

datatype wait_turn = StopSeen | PollFailed bool | SliceElapsed | Writable bool

fun waitForConnect :: "wait_turn list \<Rightarrow> ConnectWaitResult" where
  "waitForConnect [] = ConnFailed"
| "waitForConnect (StopSeen # ts) = ConnCancelled"
| "waitForConnect (PollFailed eintr # ts) = (if eintr then waitForConnect ts else ConnFailed)"
| "waitForConnect (SliceElapsed # ts) = waitForConnect ts"
| "waitForConnect (Writable ok # ts) = (if ok then ConnConnected else ConnFailed)"

section \<open>Connecting\<close>

datatype connect_rc = ImmediateSuccess | InProgress | ImmediateFailure

record conn_attempt =
  at_fd :: int
  at_nonblocking :: bool
  at_connect :: connect_rc
  at_turns :: "wait_turn list"

datatype fd_call = OpenFd int | CloseFd int

text \<open>The addresses the name resolves to, tried in order.\<close>

fun try_addresses :: "conn_attempt list \<Rightarrow> int \<times> fd_call list" where
  "try_addresses [] = (- 1, [])"
| "try_addresses (a # as) =
     (let fd = at_fd a; next = (let (r, cs) = try_addresses as in (r, OpenFd fd # CloseFd fd # cs))
      in if fd < 0 then try_addresses as
         else if \<not> at_nonblocking a then next
         else if at_connect a = ImmediateFailure then next
         else
           (case (if at_connect a = InProgress then waitForConnect (at_turns a) else ConnConnected) of
              ConnCancelled \<Rightarrow> (- 1, [OpenFd fd, CloseFd fd])
            | ConnConnected \<Rightarrow> (fd, [OpenFd fd])
            | ConnFailed \<Rightarrow> next))"

text \<open>\<open>None\<close>: the name does not resolve.\<close>

definition connectToHost :: "conn_attempt list option \<Rightarrow> int \<times> fd_call list" where
  "connectToHost addrs =
     (case addrs of None \<Rightarrow> (- 1, []) | Some as \<Rightarrow> (if as = [] then (- 1, []) else try_addresses as))"

section \<open>The socket\<close>

text \<open>
  \<open>sendAll\<close>: \<open>ns\<close> are the results of the calls of \<open>send\<close>, which never take more than they are
  given; \<open>None\<close> is a call that has not returned. With the result come the bytes taken.
\<close>

fun send_loop :: "int list \<Rightarrow> string \<Rightarrow> (bool \<times> string) option" where
  "send_loop ns [] = Some (True, [])"
| "send_loop [] data = None"
| "send_loop (n # ns) data =
     (if n \<le> 0 then Some (False, [])
      else map_option (\<lambda>(ok, s). (ok, take (nat n) data @ s)) (send_loop ns (drop (nat n) data)))"

definition sock_sendAll :: "int \<Rightarrow> int list \<Rightarrow> string \<Rightarrow> (bool \<times> string) option" where
  "sock_sendAll fd ns data = (if fd < 0 then Some (False, []) else send_loop ns data)"

definition sock_close :: "int \<Rightarrow> int \<times> fd_call list" where
  "sock_close fd = (if 0 \<le> fd then (- 1, [CloseFd fd]) else (fd, []))"

text \<open>\<open>setRecvTimeout\<close>: the seconds and microseconds handed on; the result of the call is ignored.\<close>

definition sock_setRecvTimeout :: "int \<Rightarrow> nat \<Rightarrow> bool \<times> (nat \<times> nat) option" where
  "sock_setRecvTimeout fd ms =
     (if fd < 0 then (False, None) else (True, Some (ms div 1000, (ms mod 1000) * 1000)))"

definition sock_setNoDelay :: "int \<Rightarrow> bool \<Rightarrow> bool" where
  "sock_setNoDelay fd accepted \<longleftrightarrow> 0 \<le> fd \<and> accepted"

section \<open>Properties\<close>

definition opened :: "fd_call list \<Rightarrow> int list" where
  "opened cs = List.map_filter (\<lambda>c. case c of OpenFd f \<Rightarrow> Some f | _ \<Rightarrow> None) cs"

definition closed_fds :: "fd_call list \<Rightarrow> int list" where
  "closed_fds cs = List.map_filter (\<lambda>c. case c of CloseFd f \<Rightarrow> Some f | _ \<Rightarrow> None) cs"

lemma fd_simps [simp]:
  "opened [] = []" "opened (OpenFd f # cs) = f # opened cs" "opened (CloseFd f # cs) = opened cs"
  "closed_fds [] = []" "closed_fds (OpenFd f # cs) = closed_fds cs"
  "closed_fds (CloseFd f # cs) = f # closed_fds cs"
  by (simp_all add: opened_def closed_fds_def map_filter_def)

lemma try_addresses_balance:
  "try_addresses as = (fd, cs) \<Longrightarrow>
   opened cs = closed_fds cs @ (if 0 \<le> fd then [fd] else [])"
proof (induction as arbitrary: fd cs)
  case (Cons a as)
  obtain r cs' where r: "try_addresses as = (r, cs')" by fastforce
  show ?case
    using Cons.prems Cons.IH[OF r] r
    by (auto simp: Let_def split: if_splits ConnectWaitResult.splits)
qed simp

text \<open>
  Whatever the system calls answer, connecting closes every descriptor it
  opened, in the order it opened them, except the one it returns; after a cancellation or when
  every address fails it returns none.
\<close>

theorem connecting_leaks_no_descriptor:
  "opened (snd (connectToHost addrs)) = closed_fds (snd (connectToHost addrs)) @
     (if 0 \<le> fst (connectToHost addrs) then [fst (connectToHost addrs)] else [])"
proof (cases addrs)
  case (Some as)
  obtain fd cs where "try_addresses as = (fd, cs)" by fastforce
  then show ?thesis using try_addresses_balance[of as fd cs] Some by (simp add: connectToHost_def)
qed (simp add: connectToHost_def)

lemma send_loop_prefix:
  "send_loop ns data = Some (ok, s) \<Longrightarrow> (\<exists>t. data = s @ t) \<and> (ok \<longrightarrow> s = data)"
proof (induction ns data arbitrary: s rule: send_loop.induct)
  case (3 n ns c cs)
  show ?case
  proof (cases "n \<le> 0")
    case False
    then obtain s' where s': "send_loop ns (drop (nat n) (c # cs)) = Some (ok, s')"
        "s = take (nat n) (c # cs) @ s'"
      using "3.prems" by auto
    from "3.IH"[OF False s'(1)] s'(2) show ?thesis
      by (metis append.assoc append_take_drop_id)
  qed (use 3 in auto)
qed auto

text \<open>
  A send that reports success has handed over exactly the data; one that fails has
  handed over a beginning of it, never bytes out of order or twice.
\<close>

theorem send_all_or_a_prefix:
  assumes "sock_sendAll fd ns data = Some (ok, s)"
  shows "(ok \<longrightarrow> s = data) \<and> (\<exists>t. data = s @ t)"
  using assms send_loop_prefix[of ns data ok s] by (auto simp: sock_sendAll_def split: if_splits)

theorem send_all_or_a_prefix_witness:
  "(True \<longrightarrow> ''ab'' @ ''c'' = ''abc'') \<and> (\<exists>t. ''abc'' = (''ab'' @ ''c'') @ t)"
  by (rule send_all_or_a_prefix[of 3 "[2, 1]"]) (simp add: sock_sendAll_def)

end
