(* ===== verification/Host_Detector.thy ===== *)
theory Host_Detector
  imports VS_Prelude
begin

text \<open>
  Recognising the vehicle: \<open>src/src/domain/VehicleDetector.cpp\<close>. Counts of observed identifiers
  and of adapter responses, the identification number collected from responses, and the result
  computed from them. The mutex is held for whole operations and not modelled. The entries of an
  unordered map stand in the order it is iterated in; a new key is put last. Times are numbers.
\<close>

section \<open>Types and tables\<close>

datatype VehicleMake =
    UnknownMake | Tesla | Audi | Volkswagen | BMW | MercedesBenz | GenericMake

datatype DetectionConfidence = NoConfidence | LowConfidence | MediumConfidence | HighConfidence

record VehicleFingerprint =
  fp_make :: VehicleMake
  fp_configId :: string
  fp_evidenceTag :: string

record VehicleEvidence =
  ev_totalFrameCount :: nat
  ev_uniqueIdCount :: nat

record VehicleSuggestion =
  su_configId :: string
  su_make :: VehicleMake
  su_evidenceTag :: string
  su_totalFrameCount :: nat
  su_uniqueIdCount :: nat
  su_conflicting :: bool

record VehicleDetectionResult =
  dr_make :: VehicleMake
  dr_vin :: string
  dr_wmi :: string
  dr_suggestedVehicleId :: string
  dr_isElectric :: bool
  dr_observedCanIds :: "u16 list"
  dr_frameCount :: nat
  dr_confidence :: DetectionConfidence
  dr_evidenceSummary :: string

definition tesla_print :: VehicleFingerprint where
  "tesla_print = \<lparr>fp_make = Tesla, fp_configId = ''tesla'', fp_evidenceTag = ''Tesla signals''\<rparr>"

definition audi_print :: VehicleFingerprint where
  "audi_print = \<lparr>fp_make = Audi, fp_configId = ''audi_mlb_evo'', fp_evidenceTag = ''Audi MLB signals''\<rparr>"

definition canIdRegistry :: "(u16 \<times> VehicleFingerprint) list" where
  "canIdRegistry = [(0x108, tesla_print), (0x118, tesla_print), (0x129, tesla_print), (0x100, audi_print)]"

definition MAX_FRAME_HISTORY :: nat where "MAX_FRAME_HISTORY = 50"

record detector =
  canIdCounts :: "(u16 \<times> nat) list"
  obd2ResponseCount :: nat
  vin :: string
  isElectric :: "bool option"
  frameHistory :: "(nat \<times> u8 list) list"

definition detector_new :: detector where
  "detector_new = \<lparr>canIdCounts = [], obd2ResponseCount = 0, vin = [], isElectric = None,
     frameHistory = []\<rparr>"

definition detector_reset :: "detector \<Rightarrow> detector" where
  "detector_reset s = detector_new"

section \<open>Observation\<close>

definition addFrame :: "nat \<Rightarrow> u8 list \<Rightarrow> detector \<Rightarrow> detector" where
  "addFrame now data s =
     (let h = frameHistory s @ [(now, data)]
      in s\<lparr>frameHistory := (if MAX_FRAME_HISTORY < length h then tl h else h)\<rparr>)"

fun count_id :: "u16 \<Rightarrow> (u16 \<times> nat) list \<Rightarrow> (u16 \<times> nat) list" where
  "count_id i [] = [(i, 1)]"
| "count_id i ((j, n) # cs) = (if i = j then (j, n + 1) # cs else (j, n) # count_id i cs)"

definition feedCANFrame :: "u16 \<Rightarrow> detector \<Rightarrow> detector" where
  "feedCANFrame canId s = s\<lparr>canIdCounts := count_id canId (canIdCounts s)\<rparr>"

text \<open>The characters of the identification number in a response, without zero bytes.\<close>

definition vin_text :: "u8 list \<Rightarrow> string" where
  "vin_text bs = map (\<lambda>b. char_of (unat b)) (filter (\<lambda>b. b \<noteq> 0) bs)"

definition cut_vin :: "string \<Rightarrow> string" where
  "cut_vin v = (if 17 \<le> length v then take 17 v else v)"

definition feedOBD2Frame :: "u8 list \<Rightarrow> detector \<Rightarrow> detector" where
  "feedOBD2Frame data s =
     (let s1 = s\<lparr>obd2ResponseCount := obd2ResponseCount s + 1\<rparr>;
          s2 = (if 8 \<le> length data \<and> data ! 0 = 0x49 \<and> data ! 1 = 0x02
                then s1\<lparr>vin := cut_vin (vin s1 @ vin_text (dropWhile (\<lambda>b. b = 0) (drop 3 data)))\<rparr>
                else s1)
      in if 3 \<le> length data \<and> data ! 0 = 0x41 \<and> data ! 1 = 0x51
         then s2\<lparr>isElectric := Some (data ! 2 = 0x08)\<rparr> else s2)"

definition frame_id :: "u8 list \<Rightarrow> u16" where
  "frame_id frame = ucast (frame ! 0) OR push_bit 8 (ucast (frame ! 1))"

definition observeFrame :: "nat \<Rightarrow> u8 list \<Rightarrow> detector \<Rightarrow> detector" where
  "observeFrame now frame s =
     (let s1 = addFrame now frame s
      in if length frame = 10 then feedCANFrame (frame_id frame) s1
         else if 2 \<le> length frame \<and> length frame \<le> 10 then feedOBD2Frame frame s1
         else s1)"

definition feedVINResponse :: "nat \<Rightarrow> u8 list \<Rightarrow> detector \<Rightarrow> bool \<times> detector" where
  "feedVINResponse now response s =
     (let s1 = addFrame now response s
      in if 8 \<le> length response \<and> response ! 0 = 0x49 \<and> response ! 1 = 0x02 then
           (True, s1\<lparr>vin := cut_vin (vin s1 @ vin_text (dropWhile (\<lambda>b. b = 0) (drop 3 response)))\<rparr>)
         else if 1 \<le> length response then
           (True, s1\<lparr>vin := cut_vin (vin s1 @ vin_text response)\<rparr>)
         else (False, s1))"

definition feedFuelTypeResponse :: "nat \<Rightarrow> u8 list \<Rightarrow> detector \<Rightarrow> bool \<times> detector" where
  "feedFuelTypeResponse now response s =
     (let s1 = addFrame now response s
      in if length response < 3 then (False, s1)
         else if (response ! 0 \<noteq> 0x41 \<and> response ! 0 \<noteq> 0x49) \<or> response ! 1 \<noteq> 0x51 then (False, s1)
         else (True, s1\<lparr>isElectric := Some (response ! 2 = 0x08)\<rparr>))"

section \<open>Evidence and result\<close>

fun add_evidence ::
    "VehicleMake \<Rightarrow> nat \<Rightarrow> (VehicleMake \<times> VehicleEvidence) list \<Rightarrow> (VehicleMake \<times> VehicleEvidence) list" where
  "add_evidence mk n [] = [(mk, \<lparr>ev_totalFrameCount = n, ev_uniqueIdCount = 1\<rparr>)]"
| "add_evidence mk n ((m2, e) # es) =
     (if mk = m2 then (m2, e\<lparr>ev_totalFrameCount := ev_totalFrameCount e + n,
                             ev_uniqueIdCount := ev_uniqueIdCount e + 1\<rparr>) # es
      else (m2, e) # add_evidence mk n es)"

fun gatherEvidence :: "(u16 \<times> nat) list \<Rightarrow> (VehicleMake \<times> VehicleEvidence) list \<Rightarrow>
    (VehicleMake \<times> VehicleEvidence) list" where
  "gatherEvidence [] es = es"
| "gatherEvidence ((i, n) # cs) es =
     (case map_of canIdRegistry i of
        None \<Rightarrow> gatherEvidence cs es
      | Some fp \<Rightarrow> gatherEvidence cs (add_evidence (fp_make fp) n es))"

definition no_suggestion :: VehicleSuggestion where
  "no_suggestion = \<lparr>su_configId = [], su_make = UnknownMake, su_evidenceTag = [],
     su_totalFrameCount = 0, su_uniqueIdCount = 0, su_conflicting = False\<rparr>"

definition fingerprint_of :: "VehicleMake \<Rightarrow> VehicleFingerprint option" where
  "fingerprint_of mk = map_option snd (List.find (\<lambda>(i, fp). fp_make fp = mk) canIdRegistry)"

definition determineSuggestion ::
    "nat \<Rightarrow> (VehicleMake \<times> VehicleEvidence) list \<Rightarrow> VehicleSuggestion" where
  "determineSuggestion responses es =
     (case es of
        [] \<Rightarrow> if 0 < responses then
               \<lparr>su_configId = ''generic'', su_make = GenericMake, su_evidenceTag = ''OBD2 responses'',
                su_totalFrameCount = responses, su_uniqueIdCount = 0, su_conflicting = False\<rparr>
             else no_suggestion
      | [(mk, ev)] \<Rightarrow>
          \<lparr>su_configId = (case fingerprint_of mk of Some fp \<Rightarrow> fp_configId fp | None \<Rightarrow> []),
           su_make = mk,
           su_evidenceTag = (case fingerprint_of mk of Some fp \<Rightarrow> fp_evidenceTag fp | None \<Rightarrow> []),
           su_totalFrameCount = ev_totalFrameCount ev, su_uniqueIdCount = ev_uniqueIdCount ev,
           su_conflicting = False\<rparr>
      | _ \<Rightarrow> no_suggestion\<lparr>su_conflicting := True\<rparr>)"

definition calculateConfidence :: "VehicleMake \<Rightarrow> nat \<Rightarrow> nat \<Rightarrow> DetectionConfidence" where
  "calculateConfidence mk uniqueIdCount totalFrameCount =
     (case mk of
        Tesla \<Rightarrow> if 3 \<le> uniqueIdCount then HighConfidence
                else if 2 \<le> uniqueIdCount then MediumConfidence else LowConfidence
      | Audi \<Rightarrow> if 5 \<le> totalFrameCount then HighConfidence
               else if 2 \<le> totalFrameCount then MediumConfidence else LowConfidence
      | GenericMake \<Rightarrow> if 3 \<le> totalFrameCount then MediumConfidence else LowConfidence
      | _ \<Rightarrow> NoConfidence)"

text \<open>\<open>std::hex\<close> prints lower case.\<close>

definition lower_hex :: "nat \<Rightarrow> string" where
  "lower_hex n = map (\<lambda>c. if 65 \<le> (of_char c :: nat) then char_of ((of_char c :: nat) + 32) else c)
     (digits_in 16 n)"

definition buildEvidenceSummary :: "nat \<Rightarrow> u16 list \<Rightarrow> string \<Rightarrow> VehicleSuggestion \<Rightarrow> string" where
  "buildEvidenceSummary totalFrames seenIds v su =
     ''Frames: '' @ dec_str totalFrames
     @ (if seenIds = [] then []
        else '' | CAN IDs:'' @ concat (map (\<lambda>i. '' 0x'' @ lower_hex (unat i)) seenIds))
     @ (if v \<noteq> [] then '' | VIN: '' @ v
        else if su_conflicting su then '' | Conflicting evidence''
        else if su_evidenceTag su \<noteq> [] then '' | '' @ su_evidenceTag su
        else [])"

definition is_alnum :: "char \<Rightarrow> bool" where
  "is_alnum c \<longleftrightarrow> is_digit c \<or> (65 \<le> (of_char c :: nat) \<and> (of_char c :: nat) \<le> 90)
     \<or> (97 \<le> (of_char c :: nat) \<and> (of_char c :: nat) \<le> 122)"

definition known_region :: "char \<Rightarrow> bool" where
  "known_region c \<longleftrightarrow> (let n = (of_char c :: nat)
     in (49 \<le> n \<and> n \<le> 53) \<or> (65 \<le> n \<and> n \<le> 72) \<or> (74 \<le> n \<and> n \<le> 82) \<or> (83 \<le> n \<and> n \<le> 90))"

definition decodeWMI :: "string \<Rightarrow> VehicleMake" where
  "decodeWMI wmi =
     (if length wmi < 3 then UnknownMake
      else
        let u = map to_upper (take 3 wmi)
        in if u \<in> {''5YJ'', ''7SA''} then Tesla
           else if u \<in> {''WAU'', ''WUA'', ''WA1'', ''TRU''} then Audi
           else if u \<in> {''WVW'', ''WV1'', ''WV2'', ''WV0''} then Volkswagen
           else if u \<in> {''WBA'', ''WBS'', ''WBX''} then BMW
           else if u \<in> {''WDB'', ''WDC''} then MercedesBenz
           else if list_all is_alnum u \<and> known_region (hd u) then GenericMake
           else UnknownMake)"

definition makeToConfigId :: "VehicleMake \<Rightarrow> bool \<Rightarrow> string" where
  "makeToConfigId mk electric =
     (case mk of
        Tesla \<Rightarrow> ''tesla''
      | Audi \<Rightarrow> if electric then ''audi_mlb_evo'' else ''generic''
      | Volkswagen \<Rightarrow> if electric then ''audi_mlb_evo'' else ''generic''
      | _ \<Rightarrow> ''generic'')"

definition extractVINFromResponse :: "u8 list \<Rightarrow> string" where
  "extractVINFromResponse response =
     (if length response < 8 \<or> response ! 0 \<noteq> 0x49 \<or> response ! 1 \<noteq> 0x02 then []
      else vin_text (drop 3 response))"

definition getResult :: "detector \<Rightarrow> VehicleDetectionResult" where
  "getResult s =
     (let ids = map fst (canIdCounts s);
          total = sum_list (map snd (canIdCounts s)) + obd2ResponseCount s;
          su = determineSuggestion (obd2ResponseCount s) (gatherEvidence (canIdCounts s) []);
          electric = (case isElectric s of Some b \<Rightarrow> b | None \<Rightarrow> False);
          r = \<lparr>dr_make = UnknownMake, dr_vin = vin s,
               dr_wmi = (if 3 \<le> length (vin s) then take 3 (vin s) else []),
               dr_suggestedVehicleId = [], dr_isElectric = electric, dr_observedCanIds = ids,
               dr_frameCount = total, dr_confidence = NoConfidence,
               dr_evidenceSummary = buildEvidenceSummary total ids (vin s) su\<rparr>
      in if 3 \<le> length (vin s) then
           (let mk = decodeWMI (take 3 (vin s))
            in r\<lparr>dr_make := mk, dr_suggestedVehicleId := makeToConfigId mk electric\<rparr>)
         else if su_configId su \<noteq> [] then
           r\<lparr>dr_suggestedVehicleId := su_configId su, dr_make := su_make su,
             dr_confidence := calculateConfidence (su_make su) (su_uniqueIdCount su)
               (su_totalFrameCount su)\<rparr>
         else r)"

definition getRecentFrames :: "nat \<Rightarrow> detector \<Rightarrow> (nat \<times> u8 list) list" where
  "getRecentFrames maxCount s =
     (if length (frameHistory s) \<le> maxCount then frameHistory s
      else drop (length (frameHistory s) - maxCount) (frameHistory s))"

definition isReceivingData :: "nat \<Rightarrow> detector \<Rightarrow> bool" where
  "isReceivingData now s \<longleftrightarrow>
     frameHistory s \<noteq> [] \<and> now - fst (last (frameHistory s)) < 1000"

end
