(* ===== verification/Host_Elm327.thy ===== *)
theory Host_Elm327
  imports Host_Detector Host_Frames
begin

text \<open>
  The adapter dialect and its session: \<open>src/src/boundary/ELM327Transport.cpp\<close> and
  \<open>OBD2Protocol.cpp\<close>, \<open>src/src/ble/Elm327Session.cpp\<close> and \<open>OBD2Transport.cpp\<close>, and the raw
  activity record of \<open>RawActivity.h\<close>.

  Threads: the session's queries run on one thread and the notifications on another. The data
  path is a function of the session; the race between a query and its prompt is the step relation
  \<open>query_step\<close>. The results of waits are arguments of the sequences of commands.
\<close>

section \<open>Text of the dialect\<close>

definition ERROR_MESSAGES :: "string list" where
  "ERROR_MESSAGES = [''NO DATA'', ''ERROR'', ''STOPPED'', ''UNABLE TO CONNECT'', ''BUS ERROR'',
     ''BUFFER FULL'', ''CAN ERROR'']"

definition INFO_MESSAGES :: "string list" where
  "INFO_MESSAGES = [''SEARCHING'', ''BUSINIT'', ''OK'']"

definition isErrorMessage :: "string \<Rightarrow> bool" where
  "isErrorMessage str \<longleftrightarrow> list_ex (\<lambda>e. contains e (map to_upper str)) ERROR_MESSAGES"

definition hexCharToByte :: "char \<Rightarrow> u8" where
  "hexCharToByte c = (if is_hex c then of_nat (hex_val c) else 0xFF)"

definition parseHexByte :: "string \<Rightarrow> u8 option" where
  "parseHexByte hex =
     (if length hex \<noteq> 2 then None
      else
        let high = hexCharToByte (hex ! 0); low = hexCharToByte (hex ! 1)
        in if high = 0xFF \<or> low = 0xFF then None else Some (push_bit 4 high OR low))"

definition is_space :: "char \<Rightarrow> bool" where
  "is_space c \<longleftrightarrow> c \<in> {CHR '' '', TAB, LF, CHR 0x0B, CHR 0x0C, CR}"

fun find_pos :: "string \<Rightarrow> string \<Rightarrow> nat \<Rightarrow> nat option" where
  "find_pos p [] i = (if p = [] then Some i else None)"
| "find_pos p (c # s) i = (if starts_with p (c # s) then Some i else find_pos p s (i + 1))"

text \<open>The banners in the order the set is iterated in; they do not overlap.\<close>

fun info_start :: "string \<Rightarrow> string list \<Rightarrow> nat option \<Rightarrow> nat option" where
  "info_start cleaned [] start = start"
| "info_start cleaned (p # ps) start =
     (case find_pos p cleaned 0 of
        None \<Rightarrow> info_start cleaned ps start
      | Some pos \<Rightarrow>
          if start = None \<or> pos < the start then
            (let d = pos + length p
             in info_start cleaned ps (Some (d + length (takeWhile
                  (\<lambda>c. c = CHR ''.'' \<or> c = CHR '':'' \<or> is_space c) (drop d cleaned)))))
          else info_start cleaned ps start)"

definition stripInfoPrefixes :: "string \<Rightarrow> string" where
  "stripInfoPrefixes cleaned =
     (case info_start cleaned INFO_MESSAGES None of
        None \<Rightarrow> cleaned
      | Some d \<Rightarrow> drop d cleaned)"

text \<open>Complete pairs become bytes; a lone digit stays.\<close>

fun flushHexAccumulator :: "string \<Rightarrow> u8 list \<times> string" where
  "flushHexAccumulator (a # b # r) =
     (let (bs, rest) = flushHexAccumulator r
      in (of_nat (hex_val a * 16 + hex_val b) # bs, rest))"
| "flushHexAccumulator r = ([], r)"

definition extractPrompt :: "string \<Rightarrow> string" where
  "extractPrompt response = takeWhile (\<lambda>c. c \<noteq> CHR ''>'') response"

fun obd2_scan :: "string \<Rightarrow> string \<Rightarrow> u8 list \<Rightarrow> string \<times> u8 list" where
  "obd2_scan [] hexStr result = (hexStr, result)"
| "obd2_scan (c # cs) hexStr result =
     (if is_hex c then obd2_scan cs (hexStr @ [to_upper c]) result
      else if c = CHR '':'' then obd2_scan cs [] result
      else
        let (bs, rest) = flushHexAccumulator hexStr
        in obd2_scan cs rest (result @ bs))"

definition parseOBD2Response :: "string \<Rightarrow> u8 list option" where
  "parseOBD2Response response =
     (let cleaned = stripInfoPrefixes (extractPrompt response)
      in if response = [] \<or> extractPrompt response = [] then None
         else if cleaned = [] \<or> isErrorMessage cleaned then None
         else
           let (hexStr, result) = obd2_scan cleaned [] [];
               (bs, rest) = flushHexAccumulator hexStr
           in if rest \<noteq> [] \<or> result @ bs = [] then None else Some (result @ bs))"

section \<open>Commands\<close>

definition buildOBD2Query :: "u8 \<Rightarrow> u8 \<Rightarrow> string" where
  "buildOBD2Query md pid = hex_pad 2 (unat md) @ '' '' @ hex_pad 2 (unat pid) @ [CR]"

definition buildATCommand :: "string \<Rightarrow> string" where
  "buildATCommand command = ''AT'' @ command @ [CR]"

definition parseATResponse :: "string \<Rightarrow> bool" where
  "parseATResponse response \<longleftrightarrow>
     response \<noteq> [] \<and> \<not> contains ''ERROR'' (extractPrompt response) \<and>
     \<not> contains ''?'' (extractPrompt response) \<and> contains ''OK'' (extractPrompt response)"

definition buildInitSequence :: "(string \<times> nat) list" where
  "buildInitSequence =
     [(''ATZ'' @ [CR], 500), (''ATE0'' @ [CR], 50), (''ATH0'' @ [CR], 50), (''ATL0'' @ [CR], 50),
      (''ATSP0'' @ [CR], 50), (''ATS0'' @ [CR], 50), (''ATSTFF'' @ [CR], 50)]"

definition buildVINQueryInitSequence :: "(string \<times> nat) list" where
  "buildVINQueryInitSequence =
     [(''ATZ'' @ [CR], 3000), (''ATE0'' @ [CR], 100), (''ATH0'' @ [CR], 100),
      (''ATL0'' @ [CR], 100), (''ATSP6'' @ [CR], 100), (''ATS0'' @ [CR], 100),
      (''ATSTFF'' @ [CR], 100)]"

definition buildCANMonitorInitSequence :: "(string \<times> nat) list" where
  "buildCANMonitorInitSequence =
     [(''ATZ'' @ [CR], 500), (''ATE0'' @ [CR], 50), (''ATSP6'' @ [CR], 50), (''ATH1'' @ [CR], 50),
      (''ATMA'' @ [CR], 50)]"

definition buildCANFilter :: "u16 \<Rightarrow> string" where
  "buildCANFilter canId = ''ATCRA'' @ digits_in 16 (unat canId) @ [CR]"

section \<open>Frames in monitor mode\<close>

definition STATUSES :: "string list" where
  "STATUSES = [''OK'', ''NO DATA'', ''ERROR'', ''STOPPED'', ''UNABLE TO CONNECT'', ''BUS ERROR'',
     ''BUFFER FULL'', ''CAN ERROR'', ''BUS INIT'', ''SEARCHING'']"

definition isStatusMessage :: "string \<Rightarrow> bool" where
  "isStatusMessage upper \<longleftrightarrow> upper \<in> set STATUSES"

definition tokenizeHex :: "string \<Rightarrow> string list" where
  "tokenizeHex cleaned = map (map to_upper) (tokens_by (\<lambda>c. \<not> is_hex c) cleaned)"

text \<open>
  \<open>sscanf("%X")\<close> of a token of hexadecimal digits; what it gives for a number that does not fit
  is left open by the language and is the argument \<open>big\<close>.
\<close>

definition scan_hex :: "(string \<Rightarrow> nat) \<Rightarrow> string \<Rightarrow> nat" where
  "scan_hex big t = (if hex_num t < 2 ^ 32 then hex_num t else big t)"

definition classifyTypePrefix :: "(string \<Rightarrow> nat) \<Rightarrow> string list \<Rightarrow> nat option" where
  "classifyTypePrefix big tokens =
     (if length tokens \<noteq> 10 then Some 0
      else if 0x600 \<le> scan_hex big (tokens ! 0) \<and> scan_hex big (tokens ! 0) \<le> 0x6FF then Some 1
      else None)"

definition parse_data :: "string list \<Rightarrow> u8 list option" where
  "parse_data ts = those (map parseHexByte ts)"

definition parseCANFrame :: "(string \<Rightarrow> nat) \<Rightarrow> string \<Rightarrow> (u16 \<times> u8 list) option" where
  "parseCANFrame big line =
     (let cleaned = rev (dropWhile (\<lambda>c. c = CR \<or> c = LF) (rev line));
          tokens = tokenizeHex cleaned
      in if line = [] \<or> cleaned = ''>'' \<or> isStatusMessage (map to_upper cleaned) then None
         else if CHR '':'' \<in> set cleaned then None
         else if length tokens < 9 \<or> 10 < length tokens then None
         else
           (case classifyTypePrefix big tokens of
              None \<Rightarrow> None
            | Some d \<Rightarrow>
                if length tokens - d - 1 \<noteq> 8 then None
                else map_option (\<lambda>bs. (of_nat (scan_hex big (tokens ! d)), bs))
                       (parse_data (drop (d + 1) tokens))))"

section \<open>The protocol handler\<close>

text \<open>\<open>OBD2Protocol\<close>: a detector of its own and a way to send.\<close>

definition processIncomingData :: "nat \<Rightarrow> string \<Rightarrow> detector \<Rightarrow> detector" where
  "processIncomingData now asciiData s =
     (case parseOBD2Response asciiData of
        None \<Rightarrow> s
      | Some bs \<Rightarrow>
          let (taken, s1) = feedVINResponse now bs s
          in if taken then s1 else snd (feedFuelTypeResponse now bs s1))"

definition detectVehicle :: "bool \<Rightarrow> detector \<Rightarrow> VehicleDetectionResult \<times> detector \<times> string list" where
  "detectVehicle canSend s =
     (getResult (detector_reset s), detector_reset s,
      if canSend then [buildOBD2Query 0x09 0x02] else [])"

section \<open>The session\<close>

definition PROMPT_BUFFER_MAX :: nat where "PROMPT_BUFFER_MAX = 256"

record elm_session =
  es_canMode :: bool
  es_polling :: bool
  es_promptReady :: bool
  es_promptBuffer :: string
  es_detector :: detector
  es_protocol :: detector

definition session_new :: elm_session where
  "session_new = \<lparr>es_canMode = False, es_polling = False, es_promptReady = False,
     es_promptBuffer = [], es_detector = detector_new, es_protocol = detector_new\<rparr>"

text \<open>The buffer after a notification, and whether a prompt was seen.\<close>

definition scan_prompt :: "string \<Rightarrow> string \<times> bool" where
  "scan_prompt buf =
     (let (b, seen) = (case find_from (CHR ''>'') buf 0 of
                         None \<Rightarrow> (buf, False)
                       | Some pos \<Rightarrow> (drop (pos + 1) buf, True))
      in (if PROMPT_BUFFER_MAX < length b then drop (length b - PROMPT_BUFFER_MAX) b else b, seen))"

definition data_string :: "u8 list \<Rightarrow> string" where
  "data_string data = map (\<lambda>b. char_of (unat b)) data"

definition parseASCIIResponseToBinary :: "u8 list \<Rightarrow> u8 list" where
  "parseASCIIResponseToBinary data =
     (case parseOBD2Response (data_string data) of Some bs \<Rightarrow> bs | None \<Rightarrow> [])"

definition monitor_packet :: "(string \<Rightarrow> nat) \<Rightarrow> u8 list \<Rightarrow> u8 list" where
  "monitor_packet big data =
     (case parseCANFrame big (data_string data) of
        Some (canId, bs) \<Rightarrow>
          if length bs = 8 then ucast canId # ucast (drop_bit 8 canId) # bs else []
      | None \<Rightarrow> [])"

text \<open>The session after a notification, and what is delivered to the consumer.\<close>

definition handleIncomingData ::
    "(string \<Rightarrow> nat) \<Rightarrow> nat \<Rightarrow> u8 list \<Rightarrow> elm_session \<Rightarrow> elm_session \<times> u8 list list" where
  "handleIncomingData big now data s =
     (let s1 = (if es_canMode s then s
                else let (b, seen) = scan_prompt (es_promptBuffer s @ data_string data)
                     in s\<lparr>es_promptBuffer := b, es_promptReady := (seen \<or> es_promptReady s)\<rparr>);
          binaryData = (if es_canMode s1 then monitor_packet big data
                        else parseASCIIResponseToBinary data)
      in if binaryData \<noteq> [] then
           (s1\<lparr>es_detector := observeFrame now binaryData (es_detector s1)\<rparr>, [binaryData])
         else (s1, []))"

text \<open>
  Sequences of commands. Every command is sent once; a wait without a prompt is only reported.
  \<open>waitForPrompt\<close> clears the flag first, so after a wait it says whether the prompt came.
\<close>

definition after_wait :: "bool \<Rightarrow> elm_session \<Rightarrow> elm_session" where
  "after_wait got s = s\<lparr>es_promptReady := got\<rparr>"

fun send_sequence :: "string list \<Rightarrow> bool list \<Rightarrow> elm_session \<Rightarrow> elm_session \<times> string list" where
  "send_sequence [] gs s = (s, [])"
| "send_sequence (c # cs) gs s =
     (let (got, rest) = (case gs of [] \<Rightarrow> (False, []) | g # r \<Rightarrow> (g, r));
          (s1, out) = send_sequence cs rest (after_wait got s)
      in (s1, c # out))"

definition initializeELM327 :: "bool list \<Rightarrow> elm_session \<Rightarrow> bool \<times> elm_session \<times> string list" where
  "initializeELM327 gs s =
     (let (s1, out) = send_sequence (map fst buildInitSequence) gs s in (True, s1, out))"

definition initializeOBD2WithDetection ::
    "bool list \<Rightarrow> elm_session \<Rightarrow> VehicleDetectionResult \<times> elm_session \<times> string list" where
  "initializeOBD2WithDetection gs s =
     (let (ok, s1, out) = initializeELM327 gs s;
          (r, p, q) = detectVehicle True (es_protocol s1)
      in (r, s1\<lparr>es_protocol := p\<rparr>, out @ q))"

definition initializeForVINQuery :: "bool list \<Rightarrow> elm_session \<Rightarrow> bool \<times> elm_session \<times> string list" where
  "initializeForVINQuery gs s =
     (let s0 = s\<lparr>es_canMode := False, es_detector := detector_reset (es_detector s)\<rparr>;
          (s1, out) = send_sequence (map fst buildVINQueryInitSequence) gs s0
      in (True, s1, out))"

definition initializeCANMonitor :: "elm_session \<Rightarrow> bool \<times> elm_session \<times> string list" where
  "initializeCANMonitor s =
     (True, s\<lparr>es_canMode := True\<rparr>, map fst buildCANMonitorInitSequence)"

definition startCANMonitor :: "elm_session \<Rightarrow> elm_session" where
  "startCANMonitor s = s\<lparr>es_canMode := True\<rparr>"

definition stopCANMonitor :: "elm_session \<Rightarrow> elm_session \<times> string list" where
  "stopCANMonitor s = (s\<lparr>es_canMode := False\<rparr>, [''ATMA'' @ [CR]])"

text \<open>
  \<open>queryVIN\<close>: the notifications that arrive while it waits, and whether the wait ended with the
  prompt.
\<close>

fun notifications :: "(string \<Rightarrow> nat) \<Rightarrow> nat \<Rightarrow> u8 list list \<Rightarrow> elm_session \<Rightarrow> elm_session \<times> u8 list list" where
  "notifications big now [] s = (s, [])"
| "notifications big now (d # ds) s =
     (let (s1, o1) = handleIncomingData big now d s; (s2, o2) = notifications big now ds s1
      in (s2, o1 @ o2))"

definition queryVIN ::
    "(string \<Rightarrow> nat) \<Rightarrow> nat \<Rightarrow> u8 list list \<Rightarrow> elm_session \<Rightarrow> string option \<times> elm_session \<times> string list" where
  "queryVIN big now ds s =
     (let s0 = s\<lparr>es_canMode := False, es_promptReady := False\<rparr>;
          (s1, out) = notifications big now ds s0;
          v = dr_vin (getResult (es_detector s1))
      in (if \<not> es_promptReady s1 then None else if v \<noteq> [] then Some v else None, s1,
          [buildOBD2Query 0x09 0x02]))"

text \<open>
  The polling thread: one entry per query says whether polling is still active and the device
  connected before it, \<open>None\<close> ends the thread. Timeouts skip to the next identifier.
\<close>

definition poll_pids :: "u8 list" where
  "poll_pids = [0x42, 0x04, 0x05, 0x11, 0x0D, 0x0C]"

fun polling_cycle :: "u8 list \<Rightarrow> bool list \<Rightarrow> string list \<times> bool list" where
  "polling_cycle [] gs = ([], gs)"
| "polling_cycle (p # ps) [] = ([], [])"
| "polling_cycle (p # ps) (g # gs) =
     (if \<not> g then ([], gs)
      else let (out, rest) = polling_cycle ps gs in (buildOBD2Query 0x01 p # out, rest))"

section \<open>A query and its prompt\<close>

text \<open>
  One query as interleaved steps: the session sends, then arms the wait by clearing the flag,
  then waits; the adapter answers once, at any time after the command was sent.
\<close>

datatype query_phase = ToSend | ToArm | Waiting | Ended bool

record query_state =
  q_phase :: query_phase
  q_ready :: bool
  q_answered :: bool

definition query_start :: query_state where
  "query_start = \<lparr>q_phase = ToSend, q_ready = False, q_answered = False\<rparr>"

inductive query_step :: "query_state \<Rightarrow> query_state \<Rightarrow> bool" where
  send: "q_phase s = ToSend \<Longrightarrow> query_step s (s\<lparr>q_phase := ToArm\<rparr>)"
| arm: "q_phase s = ToArm \<Longrightarrow> query_step s (s\<lparr>q_phase := Waiting, q_ready := False\<rparr>)"
| answer: "q_phase s \<noteq> ToSend \<Longrightarrow> \<not> q_answered s \<Longrightarrow>
    query_step s (s\<lparr>q_ready := True, q_answered := True\<rparr>)"
| wake: "q_phase s = Waiting \<Longrightarrow> q_ready s \<Longrightarrow> query_step s (s\<lparr>q_phase := Ended True\<rparr>)"
| expire: "q_phase s = Waiting \<Longrightarrow> \<not> q_ready s \<Longrightarrow> query_step s (s\<lparr>q_phase := Ended False\<rparr>)"

section \<open>The transport over Bluetooth\<close>

text \<open>
  \<open>OBD2Transport\<close>: the buffer, whether a callback is set, and whether the device is connected.
  \<open>std::mutex\<close> is not recursive: taking the buffer's mutex while holding it never returns, which
  is \<open>None\<close>.
\<close>

record obd2_link =
  ol_connected :: bool
  ol_buffer :: "u8 list"
  ol_subscribed :: bool

definition link_connect :: "bool \<Rightarrow> obd2_link \<Rightarrow> bool \<times> obd2_link" where
  "link_connect accepted l =
     (if ol_connected l then (True, l) else (accepted, l\<lparr>ol_connected := accepted\<rparr>))"

definition link_disconnect :: "obd2_link \<Rightarrow> obd2_link" where
  "link_disconnect l =
     (if \<not> ol_connected l then l
      else l\<lparr>ol_connected := False, ol_buffer := [], ol_subscribed := False\<rparr>)"

function split_prompts :: "u8 list \<Rightarrow> u8 list list \<times> u8 list" where
  "split_prompts buf =
     (if 0x3E \<notin> set buf then ([], buf)
      else
        let response = rev (dropWhile (\<lambda>b. b = 0x0D) (rev (takeWhile (\<lambda>b. b \<noteq> 0x3E) buf)));
            (rs, rest) = split_prompts (tl (dropWhile (\<lambda>b. b \<noteq> 0x3E) buf))
        in (if response = [] then rs else response # rs, rest))"
  by pat_completeness auto
termination
proof (relation "measure length")
  fix buf :: "u8 list"
  assume "\<not> 0x3E \<notin> set buf"
  then have "dropWhile (\<lambda>b. b \<noteq> 0x3E) buf \<noteq> []" by (auto simp: dropWhile_eq_Nil_conv)
  then have "length (tl (dropWhile (\<lambda>b. b \<noteq> 0x3E) buf)) < length buf"
    using length_dropWhile_le[of "\<lambda>b. b \<noteq> 0x3E" buf]
    by (cases "dropWhile (\<lambda>b. b \<noteq> 0x3E) buf") auto
  then show "(tl (dropWhile (\<lambda>b. b \<noteq> 0x3E) buf), buf) \<in> measure length" by simp
qed simp

declare split_prompts.simps [simp del]

definition extractCleanResponses :: "bool \<Rightarrow> obd2_link \<Rightarrow> (obd2_link \<times> u8 list list) option" where
  "extractCleanResponses bufferLocked l =
     (if bufferLocked then None
      else
        let (rs, rest) = split_prompts (ol_buffer l)
        in Some (l\<lparr>ol_buffer := rest\<rparr>, if ol_subscribed l then rs else []))"

definition link_processIncomingData :: "u8 list \<Rightarrow> obd2_link \<Rightarrow> (obd2_link \<times> u8 list list) option" where
  "link_processIncomingData data l =
     extractCleanResponses False (l\<lparr>ol_buffer := ol_buffer l @ data\<rparr>)"

definition link_readData :: "obd2_link \<Rightarrow> (u8 list option \<times> obd2_link) option" where
  "link_readData l =
     (if ol_buffer l = [] then Some (None, l)
      else
        (case extractCleanResponses True l of
           None \<Rightarrow> None
         | Some (l1, rs) \<Rightarrow>
             if ol_buffer l1 = [] then Some (None, l1)
             else Some (Some (ol_buffer l1), l1\<lparr>ol_buffer := []\<rparr>)))"

section \<open>Raw activity\<close>

definition lastRawHex :: "u8 list \<Rightarrow> string" where
  "lastRawHex data =
     concat (map (\<lambda>b. map (\<lambda>c. if 65 \<le> (of_char c :: nat) then char_of ((of_char c :: nat) + 32) else c)
        (hex_pad 2 (unat b)) @ '' '') (take 16 data))
     @ (if 16 < length data then ''...'' else [])"

end
