(* ===== verification/Host_Tcp.thy ===== *)
theory Host_Tcp
  imports Host_Discovery Host_Elm327
begin

text \<open>
  The connection to the device: \<open>src/src/pipeline/TCPTransport.cpp\<close> and its line reader
  \<open>TcpReader.cpp\<close>.

  The outside world is a list of connections that the socket will make, each with the answers of
  its calls in order, and the answers of the stop flag; a list that is used up answers with a
  failure (a stop, for the flag). What the transport does is a log of events. The discovery thread
  of a hunt is a function of what it polled, its messages left out; the shared flag says when the main
  thread saw its result. It reads the host and the device's name as they were when the hunt began.
\<close>

section \<open>The socket\<close>

datatype sel_answer = SelReady | SelQuiet | SelInterrupted | SelError

record connection =
  cn_up :: bool
  cn_timeoutOk :: bool
  cn_noDelayOk :: bool
  cn_sends :: "bool list"
  cn_selects :: "sel_answer list"
  cn_recvs :: "string list"

definition dead_conn :: connection where
  "dead_conn = \<lparr>cn_up = False, cn_timeoutOk = False, cn_noDelayOk = False, cn_sends = [],
     cn_selects = [], cn_recvs = []\<rparr>"

definition next_send :: "connection \<Rightarrow> bool \<times> connection" where
  "next_send c = (case cn_sends c of [] \<Rightarrow> (False, c) | b # bs \<Rightarrow> (b, c\<lparr>cn_sends := bs\<rparr>))"

definition next_select :: "connection \<Rightarrow> sel_answer \<times> connection" where
  "next_select c = (case cn_selects c of [] \<Rightarrow> (SelError, c) | a # as \<Rightarrow> (a, c\<lparr>cn_selects := as\<rparr>))"

text \<open>At most \<open>k\<close> bytes of what came; the rest waits. An empty answer is a close or an error.\<close>

definition recv_bytes :: "nat \<Rightarrow> connection \<Rightarrow> string \<times> connection" where
  "recv_bytes k c =
     (case cn_recvs c of
        [] \<Rightarrow> ([], c)
      | r # rs \<Rightarrow> if length r \<le> k then (r, c\<lparr>cn_recvs := rs\<rparr>)
                 else (take k r, c\<lparr>cn_recvs := drop k r # rs\<rparr>))"

section \<open>The line reader\<close>

definition MAX_PENDING_LEN :: nat where "MAX_PENDING_LEN = 4096"

definition takeBufferedLine :: "string \<Rightarrow> (string \<times> string) option" where
  "takeBufferedLine p =
     (let r = dropWhile (\<lambda>c. \<not> is_eol c) p
      in if r = [] then None else Some (takeWhile (\<lambda>c. \<not> is_eol c) p, tl r))"

definition readSocketIntoPending :: "connection \<Rightarrow> string \<Rightarrow> bool \<times> connection \<times> string" where
  "readSocketIntoPending c p =
     (let (d, c1) = recv_bytes 256 c
      in if d = [] then (False, c1, p)
         else (True, c1, if MAX_PENDING_LEN < length (p @ d) then [] else p @ d))"

definition stripLeading :: "(char \<Rightarrow> bool) \<Rightarrow> string \<Rightarrow> string" where
  "stripLeading cs p = dropWhile cs p"

definition prompt_char :: "char \<Rightarrow> bool" where
  "prompt_char c \<longleftrightarrow> c \<in> {CHR ''>'', CR, LF, CHR '' '', TAB}"

section \<open>Lines of the handshake\<close>

fun hex_groups :: "string \<Rightarrow> bool" where
  "hex_groups [] \<longleftrightarrow> True"
| "hex_groups (s # a # b # r) \<longleftrightarrow> s = CHR '' '' \<and> is_hex a \<and> is_hex b \<and> hex_groups r"
| "hex_groups _ \<longleftrightarrow> False"

definition isCanFrameLine :: "string \<Rightarrow> bool" where
  "isCanFrameLine l \<longleftrightarrow> 3 < length l \<and> list_all is_hex (take 3 l) \<and> hex_groups (drop 3 l)"

definition clean_line :: "string \<Rightarrow> string" where
  "clean_line l =
     trim_by is_space (if list_all prompt_char l then l else dropWhile prompt_char l)"

definition recv_size :: "connection \<Rightarrow> nat" where
  "recv_size c = sum_list (map (\<lambda>r. length r + 1) (cn_recvs c))"

lemma recv_shrinks: "fst (recv_bytes 256 c) \<noteq> [] \<Longrightarrow> recv_size (snd (recv_bytes 256 c)) < recv_size c"
  by (auto simp: recv_bytes_def recv_size_def split: list.splits)

lemma read_shrinks:
  "readSocketIntoPending c p = (True, c1, p1) \<Longrightarrow> recv_size c1 < recv_size c"
  using recv_shrinks[of c] by (auto simp: readSocketIntoPending_def split_beta Let_def split: if_splits)

lemma take_line_shrinks: "takeBufferedLine p = Some (l, r) \<Longrightarrow> length r < length p"
proof -
  assume "takeBufferedLine p = Some (l, r)"
  then have "dropWhile (\<lambda>c. \<not> is_eol c) p \<noteq> []" "r = tl (dropWhile (\<lambda>c. \<not> is_eol c) p)"
    by (auto simp: takeBufferedLine_def Let_def split: if_splits)
  then show ?thesis using length_dropWhile_le[of "\<lambda>c. \<not> is_eol c" p]
    by (cases "dropWhile (\<lambda>c. \<not> is_eol c) p") auto
qed

function readLineSkippingFrames :: "connection \<Rightarrow> string \<Rightarrow> string option \<times> connection \<times> string" where
  "readLineSkippingFrames c p =
     (case takeBufferedLine p of
        Some (line, rest) \<Rightarrow>
          if clean_line line = [] \<or> isCanFrameLine (clean_line line) then readLineSkippingFrames c rest
          else (Some (clean_line line), c, rest)
      | None \<Rightarrow>
          (let (ok, c1, p1) = readSocketIntoPending c p
           in if ok then readLineSkippingFrames c1 p1 else (None, c1, p1)))"
  by pat_completeness auto
termination
  by (relation "inv_image (less_than <*lex*> less_than) (\<lambda>(c, p). (recv_size c, length p))")
    (auto dest: read_shrinks[OF sym] take_line_shrinks)

declare readLineSkippingFrames.simps [simp del]

lemma skipping_shrinks:
  "readLineSkippingFrames c p = (Some l, c1, p1) \<Longrightarrow>
     recv_size c1 < recv_size c \<or> (recv_size c1 = recv_size c \<and> length p1 < length p)"
proof (induction c p rule: readLineSkippingFrames.induct)
  case (1 c p)
  note step = readLineSkippingFrames.simps[of c p]
  show ?case
  proof (cases "takeBufferedLine p")
    case None
    obtain ok c2 p2 where r: "readSocketIntoPending c p = (ok, c2, p2)" by (metis prod_cases3)
    have ok: "ok" and e: "readLineSkippingFrames c2 p2 = (Some l, c1, p1)"
      using "1.prems" None r unfolding step by (auto split: if_splits)
    show ?thesis using "1.IH"(1)[OF None refl r[symmetric] refl ok e] r ok read_shrinks[of c p c2 p2] by auto
  next
    case (Some lr)
    obtain line rest where lr: "lr = (line, rest)" by force
    note sh = take_line_shrinks[OF Some[unfolded lr]]
    show ?thesis
    proof (cases "clean_line line = [] \<or> isCanFrameLine (clean_line line)")
      case True
      then have e: "readLineSkippingFrames c rest = (Some l, c1, p1)"
        using "1.prems" Some lr unfolding step by simp
      show ?thesis using "1.IH"(2)[OF Some lr[symmetric] True e] sh by auto
    next
      case False
      then have "c1 = c" "p1 = rest" using "1.prems" Some lr unfolding step by simp_all
      then show ?thesis using sh by simp
    qed
  qed
qed

function find_ack :: "connection \<Rightarrow> string \<Rightarrow> string option \<times> connection \<times> string" where
  "find_ack c p =
     (case readLineSkippingFrames c p of
        (None, c1, p1) \<Rightarrow> (None, c1, p1)
      | (Some l, c1, p1) \<Rightarrow> if contains ''ACK DEVICE='' l then (Some l, c1, p1) else find_ack c1 p1)"
  by pat_completeness auto
termination
  by (relation "inv_image (less_than <*lex*> less_than) (\<lambda>(c, p). (recv_size c, length p))")
    (auto dest: skipping_shrinks[OF sym])

declare find_ack.simps [simp del]

fun hexid_bytes :: "string \<Rightarrow> u8 list option" where
  "hexid_bytes [] = Some []"
| "hexid_bytes [a] = None"
| "hexid_bytes (a # b # r) =
     (if is_hex a \<and> is_hex b
      then map_option (Cons (of_nat (hex_val a * 16 + hex_val b))) (hexid_bytes r) else None)"

definition parseHeloAck :: "string \<Rightarrow> u8 list option" where
  "parseHeloAck ack =
     (if \<not> contains ''ACK DEVICE='' ack then None
      else
        (case find_pos ''DEVICEID='' ack 0 of
           None \<Rightarrow> None
         | Some i \<Rightarrow>
             let h = rev (dropWhile (\<lambda>c. c \<in> {CR, LF, CHR '' '', CHR ''>''}) (rev (drop (i + 9) ack)))
             in if length h \<noteq> 32 then None else hexid_bytes h))"

definition deviceIdToHex :: "u8 list \<Rightarrow> string" where
  "deviceIdToHex ds = concat (map (\<lambda>d. hex_pad 2 (unat d)) ds)"

section \<open>The transport\<close>

text \<open>The history of the transport; \<open>Got\<close> is what one \<open>recv\<close> for an answer returned.\<close>

datatype tcp_event = Connect string int | Sent string | Got string | Closed | Slept nat | Say string | Complain string

record tcp =
  t_host :: string
  t_port :: int
  t_protocol :: string
  t_initDelay :: int
  t_conn :: connection
  t_future :: "connection list"
  t_stops :: "bool list"
  t_seen :: "bool list"
  t_pending :: string
  t_connected :: bool
  t_opened :: bool
  t_exhausted :: bool
  t_retryCount :: nat
  t_deviceIdHex :: string
  t_log :: "tcp_event list"

definition tcp_new :: "string \<Rightarrow> int \<Rightarrow> string \<Rightarrow> int \<Rightarrow> connection list \<Rightarrow> bool list \<Rightarrow> tcp" where
  "tcp_new host port protocol delay future stops =
     \<lparr>t_host = host, t_port = port, t_protocol = protocol, t_initDelay = delay, t_conn = dead_conn,
      t_future = future, t_stops = stops, t_seen = [], t_pending = [], t_connected = False,
      t_opened = False, t_exhausted = False, t_retryCount = 0, t_deviceIdHex = [], t_log = []\<rparr>"

definition logged :: "tcp_event \<Rightarrow> tcp \<Rightarrow> tcp" where
  "logged e t = t\<lparr>t_log := t_log t @ [e]\<rparr>"

definition place :: "tcp \<Rightarrow> string" where
  "place t = t_host t @ '':'' @ int_str (t_port t)"

definition kClientTag :: string where "kClientTag = '' [CLIENT]''"

definition short_tag :: "tcp \<Rightarrow> string" where
  "short_tag t = '' [ESP32:'' @ take 8 (t_deviceIdHex t) @ '']''"

text \<open>The dash in three messages, in UTF-8.\<close>

definition DASH :: string where "DASH = [CHR 0xE2, CHR 0x80, CHR 0x94]"

definition stop_requested :: "tcp \<Rightarrow> bool \<times> tcp" where
  "stop_requested t = (case t_stops t of [] \<Rightarrow> (True, t) | b # bs \<Rightarrow> (b, t\<lparr>t_stops := bs\<rparr>))"

definition tcp_sendAll :: "string \<Rightarrow> tcp \<Rightarrow> bool \<times> tcp" where
  "tcp_sendAll s t = (let (ok, c) = next_send (t_conn t) in (ok, logged (Sent s) (t\<lparr>t_conn := c\<rparr>)))"

definition tcp_recv :: "nat \<Rightarrow> tcp \<Rightarrow> string \<times> tcp" where
  "tcp_recv k t = (let (d, c) = recv_bytes k (t_conn t) in (d, logged (Got d) (t\<lparr>t_conn := c\<rparr>)))"

definition tcp_select :: "tcp \<Rightarrow> sel_answer \<times> tcp" where
  "tcp_select t = (let (a, c) = next_select (t_conn t) in (a, t\<lparr>t_conn := c\<rparr>))"

definition closeConnection :: "tcp \<Rightarrow> tcp" where
  "closeConnection t = logged Closed (t\<lparr>t_connected := False\<rparr>)"

definition give_up :: "string \<Rightarrow> tcp \<Rightarrow> bool \<times> tcp" where
  "give_up msg t = (False, closeConnection (logged (Complain msg) t))"

text \<open>The pause after a command: the override, or the command's own delay, or 50 ms.\<close>

definition perCommandDelayMs :: "tcp \<Rightarrow> nat \<Rightarrow> nat" where
  "perCommandDelayMs t d =
     (if 0 \<le> t_initDelay t then nat (t_initDelay t) else if 0 < d then d else 50)"

fun init_commands :: "(string \<times> nat) list \<Rightarrow> tcp \<Rightarrow> bool \<times> tcp" where
  "init_commands [] t = (True, t)"
| "init_commands ((cmd, d) # cs) t =
     (let (ok, t1) = tcp_sendAll cmd t
      in if \<not> ok then (False, logged (Complain (''[tcp] Failed to send AT command: '' @ cmd)) t1)
         else
           let (a, t2) = tcp_select t1;
               (r, t3) = (if a = SelReady then tcp_recv 255 t2 else ([CHR ''?''], t2))
           in if r = [] then
                (False, logged (Complain
                   ''[tcp] ELM327 init: no response to AT command (peer closed or error)'') t3)
              else init_commands cs (logged (Slept (perCommandDelayMs t3 d)) t3))"

definition sendElm327Init :: "tcp \<Rightarrow> bool \<times> tcp" where
  "sendElm327Init t = init_commands buildCANMonitorInitSequence t"

definition tcp_readLine :: "tcp \<Rightarrow> string option \<times> tcp" where
  "tcp_readLine t =
     (let (l, c, p) = readLineSkippingFrames (t_conn t) (t_pending t)
      in (l, t\<lparr>t_conn := c, t_pending := p\<rparr>))"

definition tcp_findAck :: "tcp \<Rightarrow> string option \<times> tcp" where
  "tcp_findAck t =
     (let (l, c, p) = find_ack (t_conn t) (t_pending t)
      in (l, t\<lparr>t_conn := c, t_pending := p\<rparr>))"

text \<open>\<open>sendHeloAndParseAck\<close> on a connection that is up.\<close>

definition helo_exchange :: "tcp \<Rightarrow> u8 list option \<times> tcp" where
  "helo_exchange t =
     (let (ok, t1) = tcp_sendAll (''ATI'' @ [CR]) t
      in if \<not> ok then (None, snd (give_up ''[tcp] HELO pre-flight: failed to send ATI'' t1))
         else
           let (ati, t2) = tcp_readLine t1
           in if ati = None then (None, snd (give_up ''[tcp] HELO pre-flight: no response to ATI'' t2))
              else
                let (ok2, t3) = tcp_sendAll (''ATHELO'' @ [CR]) (logged (Slept 50) t2)
                in if \<not> ok2 then
                     (None, snd (give_up ''[tcp] HELO pre-flight: failed to send ATHELO'' t3))
                   else
                     (case tcp_findAck t3 of
                        (None, t4) \<Rightarrow>
                          (None, snd (give_up ''[tcp] HELO pre-flight: no response to ATHELO'' t4))
                      | (Some ack, t4) \<Rightarrow>
                          (case parseHeloAck ack of
                             None \<Rightarrow> (None, closeConnection t4)
                           | Some ds \<Rightarrow>
                               (Some ds, logged (Say ''[tcp] HELO pre-flight: device acknowledged'') t4))))"

definition performHeloHandshake :: "tcp \<Rightarrow> bool \<times> tcp" where
  "performHeloHandshake t =
     (case helo_exchange t of
        (None, t1) \<Rightarrow> (False, t1)
      | (Some ds, t1) \<Rightarrow>
          (True, t1\<lparr>t_deviceIdHex := deviceIdToHex ds,
                    t_pending := stripLeading prompt_char (t_pending t1)\<rparr>))"

definition take_connection :: "tcp \<Rightarrow> tcp" where
  "take_connection t =
     (case t_future t of
        [] \<Rightarrow> t\<lparr>t_conn := dead_conn\<rparr>
      | c # cs \<Rightarrow> t\<lparr>t_conn := c, t_future := cs\<rparr>)"

definition authenticate :: "string \<Rightarrow> tcp \<Rightarrow> bool \<times> tcp" where
  "authenticate token t =
     (let (ok, t1) = tcp_sendAll (''AUTH '' @ token @ [CR]) t
      in if \<not> ok then give_up (''[tcp] AUTH send failed to '' @ place t1) t1
         else
           let (r, t2) = tcp_recv 63 t1
           in if r = [] then
                give_up (''[tcp] AUTH recv failed (peer closed / timeout) from '' @ place t2) t2
              else if \<not> contains ''OK'' r then
                give_up (''[tcp] AUTH rejected by '' @ place t2 @ '' (reply: '' @ r @ '')'') t2
              else (True, t2))"

definition connectAndAuth :: "string \<Rightarrow> tcp \<Rightarrow> bool \<times> tcp" where
  "connectAndAuth token t =
     (let t1 = logged (Connect (t_host t) (t_port t))
                 (take_connection ((closeConnection t)\<lparr>t_pending := []\<rparr>))
      in if \<not> cn_up (t_conn t1) then (False, logged (Complain (''[tcp] connect failed to '' @ place t1)) t1)
         else
           let t2 = t1\<lparr>t_connected := True\<rparr>
           in if \<not> cn_timeoutOk (t_conn t2) then
                give_up (''[tcp] failed to set socket recv timeout on '' @ place t2) t2
              else if \<not> cn_noDelayOk (t_conn t2) then
                give_up (''[tcp] failed to set TCP_NODELAY on '' @ place t2) t2
              else
                let (auth, t3) = authenticate token t2
                in if \<not> auth then (False, t3)
                   else
                     let (ready, t4) = (if t_protocol t3 = ''elm327'' then sendElm327Init t3 else (True, t3))
                     in if \<not> ready then give_up (''[tcp] ELM327 init failed on '' @ place t4) t4
                        else
                          let (helo, t5) = performHeloHandshake t4
                          in if \<not> helo then give_up (''[tcp] HELO handshake failed on '' @ place t5) t5
                             else (True, t5))"

definition sendHeloAndParseAck :: "string \<Rightarrow> tcp \<Rightarrow> u8 list option \<times> tcp" where
  "sendHeloAndParseAck token t =
     (let (up, t1) = (if t_connected t then (True, t) else connectAndAuth token t)
      in if \<not> up then (None, logged (Complain ''[tcp] HELO pre-flight: connection failed'') t1)
         else helo_exchange t1)"

section \<open>The first connection\<close>

definition CONNECT_FIRST_RETRY_MS :: nat where "CONNECT_FIRST_RETRY_MS = 250"
definition CONNECT_MAX_RETRY_MS :: nat where "CONNECT_MAX_RETRY_MS = 5000"
definition CONNECT_FIRST_BUDGET_MS :: nat where "CONNECT_FIRST_BUDGET_MS = 30000"

text \<open>The times read after each failed attempt; when they are used up the budget is spent.\<close>

fun connectUntilUp :: "string \<Rightarrow> nat list \<Rightarrow> nat \<Rightarrow> nat \<Rightarrow> tcp \<Rightarrow> bool \<times> tcp" where
  "connectUntilUp token es attempt backoff t =
     (let (stop, t1) = stop_requested t
      in if stop then (False, t1)
         else
           let (up, t2) = connectAndAuth token t1
           in if up then (True, t2)
              else
                (case es of
                   [] \<Rightarrow> (False, t2)
                 | e # es2 \<Rightarrow>
                     if CONNECT_FIRST_BUDGET_MS \<le> e then (False, t2)
                     else
                       let ms = min (min backoff (CONNECT_FIRST_BUDGET_MS - e)) 100
                       in connectUntilUp token es2 (attempt + 1) (min (backoff * 2) CONNECT_MAX_RETRY_MS)
                            (logged (Slept ms)
                              (logged (Complain (''[tcp] connect not up yet (attempt '' @ dec_str (attempt + 1)
                                  @ ''), retrying in '' @ dec_str ms @ ''ms'' @ kClientTag)) t2))))"

declare connectUntilUp.simps [simp del]

definition tcp_open :: "string \<Rightarrow> nat list \<Rightarrow> tcp \<Rightarrow> bool \<times> tcp" where
  "tcp_open token es t =
     (if t_opened t then (\<not> t_exhausted t, t)
      else
        let (up, t1) = connectUntilUp token es 0 CONNECT_FIRST_RETRY_MS
              (t\<lparr>t_opened := True, t_retryCount := 0\<rparr>)
        in if \<not> up then
             (False, logged (Complain (''[tcp] Failed to connect to '' @ place t1
                @ '' within the first-connect budget'')) t1)
           else
             (True, logged (Say (''[tcp] Monitoring '' @ place t1 @ kClientTag
                @ (if t_deviceIdHex t1 = [] then [] else '' [ESP32:'' @ t_deviceIdHex t1 @ '']''))) t1))"

definition tcp_isOpen :: "tcp \<Rightarrow> bool" where
  "tcp_isOpen t \<longleftrightarrow> t_opened t \<and> t_connected t \<and> \<not> t_exhausted t"

section \<open>The hunt\<close>

definition BASE_RETRY_DELAY_MS :: nat where "BASE_RETRY_DELAY_MS = 1000"
definition MAX_RETRY_DELAY_MS :: nat where "MAX_RETRY_DELAY_MS = 10000"
definition MAX_RETRIES :: nat where "MAX_RETRIES = 60"
definition RAPID_RETRIES :: nat where "RAPID_RETRIES = 5"
definition RAPID_RETRY_DELAY_MS :: nat where "RAPID_RETRY_DELAY_MS = 50"

definition calculateRetryDelayMs :: "nat \<Rightarrow> nat" where
  "calculateRetryDelayMs n = min (BASE_RETRY_DELAY_MS * 2 ^ min n 12) MAX_RETRY_DELAY_MS"

definition isTargetDevice :: "string \<Rightarrow> string \<Rightarrow> DiscoveredDevice \<Rightarrow> bool" where
  "isTargetDevice host known d \<longleftrightarrow>
     (let h = deviceIdToHex (dd_deviceId d)
      in (known = [] \<or> h = known \<or> take 8 h = take 8 known) \<and> dd_address d \<noteq> host)"

text \<open>What a hunt's discovery meets: whether it starts, and the polls before it is told to stop.\<close>

record hunt_env =
  he_starts :: bool
  he_polls :: "DiscoveredDevice list list"
  he_seen :: "bool list"

definition runDiscovery :: "string \<Rightarrow> string \<Rightarrow> hunt_env \<Rightarrow> string option" where
  "runDiscovery host known h =
     (if he_starts h
      then map_option dd_address (List.find (isTargetDevice host known) (concat (he_polls h)))
      else None)"

text \<open>The shared flag: true only when the thread has found something; at last it tells the truth.\<close>

definition flag_seen :: "string option \<Rightarrow> tcp \<Rightarrow> bool \<times> tcp" where
  "flag_seen ip t =
     (case t_seen t of
        [] \<Rightarrow> (ip \<noteq> None, t)
      | b # bs \<Rightarrow> (b \<and> ip \<noteq> None, t\<lparr>t_seen := bs\<rparr>))"

definition found_or_stop :: "string option \<Rightarrow> tcp \<Rightarrow> bool \<times> tcp" where
  "found_or_stop ip t = (let (f, t1) = flag_seen ip t in if f then (True, t1) else stop_requested t1)"

fun rapid_attempts :: "string \<Rightarrow> string option \<Rightarrow> nat \<Rightarrow> nat \<Rightarrow> tcp \<Rightarrow> bool \<times> tcp" where
  "rapid_attempts token ip attempt 0 t = (False, t)"
| "rapid_attempts token ip attempt (Suc k) t =
     (let (halt, t1) = found_or_stop ip t
      in if halt then (False, t1)
         else
           let (halt2, t2) = (if 0 < attempt
                              then found_or_stop ip (logged (Slept RAPID_RETRY_DELAY_MS) t1)
                              else (False, t1))
           in if halt2 then (False, t2)
              else
                let (up, t3) = connectAndAuth token
                      (logged (Complain (''[tcp] reconnecting: rapid retry '' @ dec_str (attempt + 1) @ ''/''
                         @ dec_str RAPID_RETRIES @ '' to last-known '' @ place t2 @ kClientTag @ ''...'')) t2)
                in if up then
                     (True, (logged (Say (''[tcp] hunting: reconnected to old IP '' @ place t3 @ kClientTag)) t3)
                        \<lparr>t_retryCount := 0\<rparr>)
                   else rapid_attempts token ip (attempt + 1) k t3)"

definition rapidReconnect :: "string \<Rightarrow> string option \<Rightarrow> tcp \<Rightarrow> bool \<times> tcp" where
  "rapidReconnect token ip t = rapid_attempts token ip 0 RAPID_RETRIES t"

text \<open>The pause in slices of 100 ms; true when it was cut short.\<close>

function backoff_pause :: "string option \<Rightarrow> nat \<Rightarrow> tcp \<Rightarrow> bool \<times> tcp" where
  "backoff_pause ip left t =
     (if left = 0 then (False, t)
      else
        let (halt, t1) = found_or_stop ip t
        in if halt then (True, t1)
           else backoff_pause ip (left - 100) (logged (Slept (min 100 left)) t1))"
  by pat_completeness auto
termination
  by (relation "measure (\<lambda>(ip, left, t). left)") auto

declare backoff_pause.simps [simp del]

text \<open>Whether the loop is done, and whether the old address answered.\<close>

definition backoffThenAttemptReconnect :: "string \<Rightarrow> string option \<Rightarrow> nat \<Rightarrow> tcp \<Rightarrow> bool \<times> bool \<times> tcp" where
  "backoffThenAttemptReconnect token ip delayMs t =
     (let (halt, t1) = backoff_pause ip delayMs t
      in if halt then (True, False, t1)
         else
           let (f, t2) = flag_seen ip t1
           in if f then
                (True, False, logged (Say ''[tcp] hunting: discovery found new IP first, switching...'') t2)
              else
                let (up, t3) = connectAndAuth token t2
                in if up then
                     (True, True, logged (Say (''[tcp] hunting: reconnected to old IP '' @ place t3 @ short_tag t3
                        @ kClientTag)) t3)
                   else (False, False, t3))"

text \<open>The retry loop; the count goes up before and after each attempt.\<close>

function hunt_loop :: "string \<Rightarrow> string option \<Rightarrow> nat \<Rightarrow> tcp \<Rightarrow> bool \<times> tcp" where
  "hunt_loop token ip n t =
     (if MAX_RETRIES \<le> n then (False, t\<lparr>t_retryCount := n\<rparr>)
      else
        let (halt, t1) = found_or_stop ip t
        in if halt then (False, t1\<lparr>t_retryCount := n\<rparr>)
           else
             let delayMs = calculateRetryDelayMs n;
                 t2 = logged (Complain (''[tcp] hunting: retrying old IP '' @ place t1 @ '' (attempt ''
                        @ dec_str (n + 1) @ ''/'' @ dec_str MAX_RETRIES @ '' in '' @ dec_str delayMs @ ''ms)''
                        @ kClientTag @ ''...'')) (t1\<lparr>t_retryCount := n + 1\<rparr>);
                 (loopDone, reconnected, t3) = backoffThenAttemptReconnect token ip delayMs t2
             in if loopDone then (reconnected, t3\<lparr>t_retryCount := n + 2\<rparr>)
                else hunt_loop token ip (n + 2) t3)"
  by pat_completeness auto
termination
  by (relation "measure (\<lambda>(token, ip, n, t). MAX_RETRIES - n)") auto

declare hunt_loop.simps [simp del]

definition finalizeHunt :: "string \<Rightarrow> string option \<Rightarrow> bool \<Rightarrow> tcp \<Rightarrow> bool \<times> tcp" where
  "finalizeHunt token ip reconnected t =
     (if reconnected then (True, t\<lparr>t_retryCount := 0\<rparr>)
      else
        (case ip of
           None \<Rightarrow> (False, logged (Complain (''[tcp] hunting: neither old IP nor discovery succeeded '' @ DASH
                     @ '' giving up'')) t)
         | Some a \<Rightarrow>
             if a = [] then
               (False, logged (Complain (''[tcp] hunting: neither old IP nor discovery succeeded '' @ DASH
                  @ '' giving up'')) t)
             else
               let t1 = logged (Say (''[tcp] hunting: switching to discovered IP '' @ a @ '' (was '' @ t_host t
                          @ '')'' @ kClientTag)) (t\<lparr>t_host := a\<rparr>);
                   (up, t2) = connectAndAuth token t1
               in if up then
                    (True, (logged (Say (''[tcp] hunting: connected to new IP '' @ place t2 @ short_tag t2
                       @ kClientTag)) t2)\<lparr>t_retryCount := 0\<rparr>)
                  else
                    (False, logged (Complain (''[tcp] hunting: failed to connect to new IP '' @ t_host t2
                       @ '' '' @ DASH @ '' giving up'')) t2)))"

definition enterHuntingState :: "string \<Rightarrow> hunt_env \<Rightarrow> tcp \<Rightarrow> bool \<times> tcp" where
  "enterHuntingState token h t =
     (let ip = runDiscovery (t_host t) (t_deviceIdHex t) h;
          t1 = t\<lparr>t_seen := he_seen h, t_retryCount := 0\<rparr>;
          (rapid, t2) = rapidReconnect token ip t1
      in if rapid then finalizeHunt token ip True t2
         else
           let (reconnected, t3) = hunt_loop token ip (t_retryCount t2) t2
           in finalizeHunt token ip reconnected t3)"

section \<open>Reading\<close>

definition formatDisconnectMessage :: "tcp \<Rightarrow> string" where
  "formatDisconnectMessage t =
     ''[tcp] disconnected from '' @ place t
     @ (if t_deviceIdHex t = [] then [] else '' [ESP32:'' @ t_deviceIdHex t @ '']'')
     @ '' '' @ DASH @ '' reconnecting'' @ kClientTag @ ''...''"

text \<open>Whether reading resumes.\<close>

definition handleReadFailure :: "string \<Rightarrow> hunt_env \<Rightarrow> tcp \<Rightarrow> bool \<times> tcp" where
  "handleReadFailure token h t =
     (let (stop, t1) = stop_requested t
      in if stop then (False, t1\<lparr>t_exhausted := True\<rparr>)
         else
           let t2 = closeConnection (logged (Complain (formatDisconnectMessage t1)) t1);
               (ok, t3) = enterHuntingState token h t2
           in if ok then (True, t3)
              else (False, (logged (Complain (''[tcp] hunting state failed '' @ DASH @ '' giving up'')) t3)
                             \<lparr>t_exhausted := True\<rparr>))"

definition no_hunt :: hunt_env where
  "no_hunt = \<lparr>he_starts = False, he_polls = [], he_seen = []\<rparr>"

text \<open>
  The read loop between two hunts: a line, the end, or a failed read. Every turn takes an answer
  of the selection call.
\<close>

datatype read_end = GotLine string | StreamEnded | ReadFailed

fun read_turns :: "sel_answer list \<Rightarrow> tcp \<Rightarrow> read_end \<times> tcp" where
  "read_turns [] t = (StreamEnded, (t\<lparr>t_exhausted := True, t_conn := (t_conn t)\<lparr>cn_selects := []\<rparr>\<rparr>))"
| "read_turns (SelInterrupted # as) t = read_turns as t"
| "read_turns (SelError # as) t = (StreamEnded, (t\<lparr>t_exhausted := True, t_conn := (t_conn t)\<lparr>cn_selects := as\<rparr>\<rparr>))"
| "read_turns (SelQuiet # as) t =
     (let (stop, t1) = stop_requested t
      in if stop then (StreamEnded, (t1\<lparr>t_exhausted := True, t_conn := (t_conn t1)\<lparr>cn_selects := as\<rparr>\<rparr>))
         else read_turns as t1)"
| "read_turns (SelReady # as) t =
     (let (ok, c, p) = readSocketIntoPending (t_conn t) (t_pending t)
      in if \<not> ok then (ReadFailed, t\<lparr>t_conn := c\<lparr>cn_selects := as\<rparr>, t_pending := p\<rparr>)
         else
           (case takeBufferedLine p of
              Some (line, rest) \<Rightarrow> (GotLine line, t\<lparr>t_conn := c\<lparr>cn_selects := as\<rparr>, t_pending := rest\<rparr>)
            | None \<Rightarrow> read_turns as (t\<lparr>t_conn := c, t_pending := p\<rparr>)))"

fun read_hunts :: "string \<Rightarrow> hunt_env list \<Rightarrow> tcp \<Rightarrow> string option \<times> tcp" where
  "read_hunts token hs t =
     (case read_turns (cn_selects (t_conn t)) t of
        (GotLine l, t1) \<Rightarrow> (Some l, t1)
      | (StreamEnded, t1) \<Rightarrow> (None, t1)
      | (ReadFailed, t1) \<Rightarrow>
          (case hs of
             [] \<Rightarrow> (None, snd (handleReadFailure token no_hunt (t1\<lparr>t_stops := []\<rparr>)))
           | h # hs2 \<Rightarrow>
               let (resume, t2) = handleReadFailure token h t1
               in if resume then read_hunts token hs2 t2 else (None, t2)))"

declare read_hunts.simps [simp del]

definition tcp_nextLine :: "string \<Rightarrow> hunt_env list \<Rightarrow> tcp \<Rightarrow> string option \<times> tcp" where
  "tcp_nextLine token hs t =
     (if \<not> (t_opened t \<and> t_connected t \<and> \<not> t_exhausted t) then (None, t)
      else
        (case takeBufferedLine (t_pending t) of
           Some (line, rest) \<Rightarrow> (Some line, t\<lparr>t_pending := rest\<rparr>)
         | None \<Rightarrow> read_hunts token hs t))"

section \<open>The keepalive\<close>

text \<open>The lines that came, up to the answer; those before it are dropped.\<close>

function pong_rest :: "string \<Rightarrow> string \<Rightarrow> bool \<times> string" where
  "pong_rest want p =
     (case takeBufferedLine p of
        None \<Rightarrow> (False, p)
      | Some (line, rest) \<Rightarrow> if take (length want) line = want then (True, rest) else pong_rest want rest)"
  by pat_completeness auto
termination
  by (relation "measure (\<lambda>(want, p). length p)") (auto dest: take_line_shrinks)

declare pong_rest.simps [simp del]

text \<open>The clock's readings since the ping; when they are used up the time is over.\<close>

fun ping_loop :: "string \<Rightarrow> nat \<Rightarrow> nat list \<Rightarrow> tcp \<Rightarrow> int \<times> tcp" where
  "ping_loop want timeoutMs [] t = (- 1, t)"
| "ping_loop want timeoutMs (e # es) t =
     (if timeoutMs \<le> e then (- 1, t)
      else
        let (a, t1) = tcp_select t
        in (case a of
              SelQuiet \<Rightarrow> ping_loop want timeoutMs es t1
            | SelReady \<Rightarrow>
                let (ok, c, p) = readSocketIntoPending (t_conn t1) (t_pending t1);
                    t2 = t1\<lparr>t_conn := c, t_pending := p\<rparr>
                in if \<not> ok then (- 1, t2)
                   else
                     let (hit, rest) = pong_rest want p;
                         t3 = t2\<lparr>t_pending := rest\<rparr>
                     in if hit then (case es of [] \<Rightarrow> (int e, t3) | e2 # _ \<Rightarrow> (int e2, t3))
                        else ping_loop want timeoutMs es t3
            | _ \<Rightarrow> (- 1, t1)))"

definition performPing :: "int \<Rightarrow> nat \<Rightarrow> nat list \<Rightarrow> tcp \<Rightarrow> int \<times> tcp" where
  "performPing seq timeoutMs es t =
     (if \<not> t_connected t then (- 1, t)
      else
        let (ok, t1) = tcp_sendAll (''PING '' @ int_str seq @ [CR]) t
        in if \<not> ok then (- 1, t1) else ping_loop (''PONG '' @ int_str seq) timeoutMs es t1)"

end
