(* ===== verification/Detector_Proofs.thy ===== *)
theory Detector_Proofs
  imports Host_Detector
begin

text \<open>
  What the vehicle detector promises: its state stays bounded under every sequence of operations,
  every frame is counted once, and the vehicle is suggested from the identifiers seen.
\<close>

section \<open>Counting identifiers\<close>

definition id_count :: "u16 \<Rightarrow> (u16 \<times> nat) list \<Rightarrow> nat" where
  "id_count i cs = (case map_of cs i of None \<Rightarrow> 0 | Some n \<Rightarrow> n)"

lemma count_id_keys: "set (map fst (count_id i cs)) = insert i (set (map fst cs))"
  by (induction i cs rule: count_id.induct) auto

lemma count_id_distinct: "distinct (map fst cs) \<Longrightarrow> distinct (map fst (count_id i cs))"
proof (induction i cs rule: count_id.induct)
  case (2 i j n cs)
  then show ?case using count_id_keys[of i cs] by auto
qed simp

lemma count_id_total: "sum_list (map snd (count_id i cs)) = sum_list (map snd cs) + 1"
  by (induction i cs rule: count_id.induct) auto

lemma count_id_count: "id_count j (count_id i cs) = id_count j cs + (if j = i then 1 else 0)"
  by (induction i cs rule: count_id.induct) (auto simp: id_count_def)

section \<open>The state stays bounded\<close>

datatype detector_op =
    Observe nat "u8 list" | FeedVin nat "u8 list" | FeedFuel nat "u8 list" | Reset

fun detector_step :: "detector \<Rightarrow> detector_op \<Rightarrow> detector" where
  "detector_step s (Observe t f) = observeFrame t f s"
| "detector_step s (FeedVin t f) = snd (feedVINResponse t f s)"
| "detector_step s (FeedFuel t f) = snd (feedFuelTypeResponse t f s)"
| "detector_step s Reset = detector_reset s"

definition detector_ok :: "detector \<Rightarrow> bool" where
  "detector_ok s \<longleftrightarrow> length (vin s) \<le> 17 \<and> CHR 0x00 \<notin> set (vin s)
     \<and> length (frameHistory s) \<le> 50 \<and> distinct (map fst (canIdCounts s))"

lemma cut_vin_le: "length (cut_vin v) \<le> 17" and cut_vin_sub: "set (cut_vin v) \<subseteq> set v"
  by (auto simp: cut_vin_def dest: in_set_takeD)

lemma vin_text_nonzero: "CHR 0x00 \<notin> set (vin_text bs)"
proof
  assume "CHR 0x00 \<in> set (vin_text bs)"
  then obtain b :: u8 where b: "b \<noteq> 0" "CHR 0x00 = char_of (unat b)"
    unfolding vin_text_def set_map set_filter by blast
  from b(2) have "(of_char (char_of (unat b) :: char) :: nat) = of_char (CHR 0x00)" by (rule arg_cong[OF sym])
  then have "unat b = 0" using u8_lt[of b] by (simp add: of_char_of take_bit_eq_mod)
  then show False using b(1) by (simp add: unat_eq_0)
qed

lemma vin_grows: "CHR 0x00 \<notin> set v \<Longrightarrow> CHR 0x00 \<notin> set (cut_vin (v @ vin_text bs))"
  using cut_vin_sub[of "v @ vin_text bs"] vin_text_nonzero[of bs] by auto

lemma addFrame_facts [simp]:
  "vin (addFrame t f s) = vin s" "canIdCounts (addFrame t f s) = canIdCounts s"
  "obd2ResponseCount (addFrame t f s) = obd2ResponseCount s"
  "isElectric (addFrame t f s) = isElectric s"
  by (simp_all add: addFrame_def Let_def)

lemma addFrame_history:
  "length (frameHistory s) \<le> 50 \<Longrightarrow> length (frameHistory (addFrame t f s)) \<le> 50"
  by (simp add: addFrame_def Let_def MAX_FRAME_HISTORY_def)

lemma addFrame_ok: "detector_ok s \<Longrightarrow> detector_ok (addFrame t f s)"
  by (simp add: detector_ok_def addFrame_history)

lemma feedOBD2_ok: "detector_ok s \<Longrightarrow> detector_ok (feedOBD2Frame f s)"
  by (simp add: detector_ok_def feedOBD2Frame_def Let_def cut_vin_le vin_grows)

lemma feedCAN_ok: "detector_ok s \<Longrightarrow> detector_ok (feedCANFrame i s)"
  by (simp add: detector_ok_def feedCANFrame_def count_id_distinct)

lemma observe_ok: "detector_ok s \<Longrightarrow> detector_ok (observeFrame t f s)"
  by (simp add: observeFrame_def Let_def addFrame_ok feedOBD2_ok feedCAN_ok)

lemma feedVIN_ok: "detector_ok s \<Longrightarrow> detector_ok (snd (feedVINResponse t f s))"
  using addFrame_ok[of s t f]
  by (simp add: feedVINResponse_def Let_def detector_ok_def cut_vin_le vin_grows)

lemma feedFuel_ok: "detector_ok s \<Longrightarrow> detector_ok (snd (feedFuelTypeResponse t f s))"
  using addFrame_ok[of s t f] by (simp add: feedFuelTypeResponse_def Let_def detector_ok_def)

lemma new_ok: "detector_ok detector_new"
  by (simp add: detector_ok_def detector_new_def)

lemma detector_step_ok: "detector_ok s \<Longrightarrow> detector_ok (detector_step s e)"
  by (cases e) (simp_all add: observe_ok feedVIN_ok feedFuel_ok detector_reset_def new_ok)

interpretation det: step_invariant detector_step detector_ok
  by unfold_locales (rule detector_step_ok)

text \<open>
  After any sequence of observations, responses and resets the
  identification number has at most 17 characters and no zero byte, at most 50 frames are
  remembered, and every observed identifier has one counter.
\<close>

theorem detector_stays_bounded: "detector_ok (foldl detector_step detector_new ops)"
  by (rule det.run_inv) (rule new_ok)

section \<open>Every frame is counted\<close>

definition observe_all :: "(nat \<times> u8 list) list \<Rightarrow> detector \<Rightarrow> detector" where
  "observe_all fs s = foldl (\<lambda>s (t, f). observeFrame t f s) s fs"

definition can_ids :: "(nat \<times> u8 list) list \<Rightarrow> u16 list" where
  "can_ids fs = map (\<lambda>(t, f). frame_id f) (filter (\<lambda>(t, f). length f = 10) fs)"

lemma observe_all_Nil [simp]: "observe_all [] s = s"
  by (simp add: observe_all_def)

lemma observe_all_Cons [simp]: "observe_all ((t, f) # fs) s = observe_all fs (observeFrame t f s)"
  by (simp add: observe_all_def)

lemma can_ids_simps [simp]:
  "can_ids [] = []"
  "can_ids ((t, f) # fs) = (if length f = 10 then [frame_id f] else []) @ can_ids fs"
  by (simp_all add: can_ids_def)

lemma feedOBD2_frame [simp]:
  "canIdCounts (feedOBD2Frame f s) = canIdCounts s"
  "obd2ResponseCount (feedOBD2Frame f s) = obd2ResponseCount s + 1"
  by (simp_all add: feedOBD2Frame_def Let_def)

lemma observe_counts:
  "canIdCounts (observeFrame t f s) =
     (if length f = 10 then count_id (frame_id f) (canIdCounts s) else canIdCounts s)"
  "obd2ResponseCount (observeFrame t f s) =
     obd2ResponseCount s + (if 2 \<le> length f \<and> length f \<le> 9 then 1 else 0)"
  by (auto simp: observeFrame_def Let_def feedCANFrame_def)

lemma observe_all_count:
  "id_count i (canIdCounts (observe_all fs s)) = id_count i (canIdCounts s) + count_list (can_ids fs) i"
  by (induction fs arbitrary: s) (auto simp: observe_counts count_id_count)

lemma observe_all_keys:
  "set (map fst (canIdCounts (observe_all fs s))) = set (map fst (canIdCounts s)) \<union> set (can_ids fs)"
proof (induction fs arbitrary: s)
  case (Cons x fs)
  obtain t f where x: "x = (t, f)" by force
  show ?case by (cases "length f = 10") (auto simp: x Cons.IH observe_counts count_id_keys simp del: set_map)
qed simp

lemma observe_all_distinct:
  "distinct (map fst (canIdCounts s)) \<Longrightarrow> distinct (map fst (canIdCounts (observe_all fs s)))"
  by (induction fs arbitrary: s) (auto simp: observe_counts count_id_distinct)

lemma observe_all_total:
  "sum_list (map snd (canIdCounts (observe_all fs s))) + obd2ResponseCount (observe_all fs s)
     = sum_list (map snd (canIdCounts s)) + obd2ResponseCount s
       + length (filter (\<lambda>(t, f). 2 \<le> length f \<and> length f \<le> 10) fs)"
proof (induction fs arbitrary: s)
  case (Cons x fs)
  obtain t f where x: "x = (t, f)" by force
  consider "length f < 2" | "2 \<le> length f" "length f \<le> 9" | "length f = 10" | "10 < length f" by linarith
  then show ?case by cases (simp_all add: x Cons.IH observe_counts count_id_total)
qed simp

lemma result_frames:
  "dr_frameCount (getResult s) = sum_list (map snd (canIdCounts s)) + obd2ResponseCount s"
  "dr_observedCanIds (getResult s) = map fst (canIdCounts s)"
  by (simp_all add: getResult_def Let_def)

text \<open>
  After any frames, the result counts exactly those of two to
  ten bytes, lists every identifier of the ten-byte ones once, and the counter of an identifier
  is the number of its frames.
\<close>

theorem every_observed_frame_is_counted:
  fixes fs :: "(nat \<times> u8 list) list" and i :: u16
  defines "s \<equiv> observe_all fs detector_new"
  shows "dr_frameCount (getResult s) = length (filter (\<lambda>(t, f). 2 \<le> length f \<and> length f \<le> 10) fs)
    \<and> set (dr_observedCanIds (getResult s)) = set (can_ids fs)
    \<and> distinct (dr_observedCanIds (getResult s))
    \<and> id_count i (canIdCounts s) = count_list (can_ids fs) i"
  using observe_all_total[of fs detector_new] observe_all_keys[of fs detector_new]
    observe_all_count[of i fs detector_new] observe_all_distinct[of detector_new fs]
  by (simp add: s_def result_frames detector_new_def id_count_def)

section \<open>The suggestion\<close>

definition make_of :: "u16 \<Rightarrow> VehicleMake option" where
  "make_of i = map_option fp_make (map_of canIdRegistry i)"

lemma make_of_cases:
  "make_of i = (if i \<in> {0x108, 0x118, 0x129} then Some Tesla else if i = 0x100 then Some Audi else None)"
  by (simp add: make_of_def canIdRegistry_def tesla_print_def audi_print_def)

definition ids_of :: "VehicleMake \<Rightarrow> (u16 \<times> nat) list \<Rightarrow> (u16 \<times> nat) list" where
  "ids_of mk cs = filter (\<lambda>(i, n). make_of i = Some mk) cs"

lemma ids_of_simps [simp]:
  "ids_of mk [] = []"
  "ids_of mk ((i, n) # cs) = (if make_of i = Some mk then [(i, n)] else []) @ ids_of mk cs"
  by (simp_all add: ids_of_def)

definition ev_pair :: "(VehicleMake \<times> VehicleEvidence) list \<Rightarrow> VehicleMake \<Rightarrow> nat \<times> nat" where
  "ev_pair es mk =
     (case map_of es mk of None \<Rightarrow> (0, 0) | Some e \<Rightarrow> (ev_uniqueIdCount e, ev_totalFrameCount e))"

lemma add_evidence_pair:
  "ev_pair (add_evidence mk n es) m2 =
     (if m2 = mk then (fst (ev_pair es mk) + 1, snd (ev_pair es mk) + n) else ev_pair es m2)"
  by (induction mk n es rule: add_evidence.induct) (auto simp: ev_pair_def)

lemma add_evidence_keys: "set (map fst (add_evidence mk n es)) = insert mk (set (map fst es))"
  by (induction mk n es rule: add_evidence.induct) auto

lemma add_evidence_distinct:
  "distinct (map fst es) \<Longrightarrow> distinct (map fst (add_evidence mk n es))"
proof (induction mk n es rule: add_evidence.induct)
  case (2 mk n m2 e es)
  then show ?case using add_evidence_keys[of mk n es] by auto
qed simp

lemma gather_step:
  "gatherEvidence ((i, n) # cs) es =
     (case make_of i of None \<Rightarrow> gatherEvidence cs es
      | Some mk \<Rightarrow> gatherEvidence cs (add_evidence mk n es))"
  by (cases "map_of canIdRegistry i") (auto simp: make_of_def)

lemma gather_pair:
  "ev_pair (gatherEvidence cs es) mk =
     (fst (ev_pair es mk) + length (ids_of mk cs),
      snd (ev_pair es mk) + sum_list (map snd (ids_of mk cs)))"
proof (induction cs arbitrary: es)
  case (Cons c cs)
  obtain i n where c: "c = (i, n)" by force
  show ?case
    by (cases "make_of i") (auto simp: c gather_step Cons.IH add_evidence_pair simp del: gatherEvidence.simps)
qed simp

lemma gather_keys:
  "set (map fst (gatherEvidence cs es)) = set (map fst es) \<union> {mk. ids_of mk cs \<noteq> []}"
proof (induction cs arbitrary: es)
  case (Cons c cs)
  obtain i n where c: "c = (i, n)" by force
  show ?case
    by (cases "make_of i")
      (auto simp: c gather_step Cons.IH add_evidence_keys simp del: gatherEvidence.simps set_map)
qed simp

lemma gather_distinct:
  "distinct (map fst es) \<Longrightarrow> distinct (map fst (gatherEvidence cs es))"
proof (induction cs arbitrary: es)
  case (Cons c cs)
  obtain i n where c: "c = (i, n)" by force
  show ?case using Cons
    by (cases "make_of i") (auto simp: c gather_step add_evidence_distinct simp del: gatherEvidence.simps)
qed simp

lemma keys_single:
  assumes "distinct (map fst es)" "set (map fst es) = {mk}"
  shows "\<exists>e. es = [(mk, e)]"
proof -
  have "length es = card (set (map fst es))" using distinct_card[OF assms(1)] by simp
  then have "length es = 1" using assms(2) by simp
  then obtain x where "es = [x]" by (auto simp: length_Suc_conv)
  then show ?thesis using assms(2) by (cases x) auto
qed

lemma fingerprints:
  "fingerprint_of Tesla = Some tesla_print" "fingerprint_of Audi = Some audi_print"
  by (simp_all add: fingerprint_of_def canIdRegistry_def tesla_print_def audi_print_def)

lemma ids_of_other: "mk \<noteq> Tesla \<Longrightarrow> mk \<noteq> Audi \<Longrightarrow> ids_of mk cs = []"
  by (auto simp: ids_of_def make_of_cases filter_empty_conv split: if_splits)

text \<open>The suggestion as a function of the counters, without the intermediate evidence.\<close>

definition suggestion_for :: "nat \<Rightarrow> (u16 \<times> nat) list \<Rightarrow> VehicleSuggestion" where
  "suggestion_for responses cs =
     (let t = ids_of Tesla cs; a = ids_of Audi cs
      in if t = [] \<and> a = [] then determineSuggestion responses []
         else if t \<noteq> [] \<and> a \<noteq> [] then no_suggestion\<lparr>su_conflicting := True\<rparr>
         else if t \<noteq> [] then
           \<lparr>su_configId = ''tesla'', su_make = Tesla, su_evidenceTag = ''Tesla signals'',
            su_totalFrameCount = sum_list (map snd t), su_uniqueIdCount = length t,
            su_conflicting = False\<rparr>
         else
           \<lparr>su_configId = ''audi_mlb_evo'', su_make = Audi, su_evidenceTag = ''Audi MLB signals'',
            su_totalFrameCount = sum_list (map snd a), su_uniqueIdCount = length a,
            su_conflicting = False\<rparr>)"

lemma one_make:
  assumes k: "ids_of mk cs \<noteq> []" and o: "\<And>m. m \<noteq> mk \<Longrightarrow> ids_of m cs = []"
  shows "\<exists>e. gatherEvidence cs [] = [(mk, e)] \<and> ev_uniqueIdCount e = length (ids_of mk cs)
    \<and> ev_totalFrameCount e = sum_list (map snd (ids_of mk cs))"
proof -
  have "set (map fst (gatherEvidence cs [])) = {mk}" using gather_keys[of cs "[]"] k o by auto
  then obtain e where e: "gatherEvidence cs [] = [(mk, e)]"
    using keys_single gather_distinct[of "[]" cs] by fastforce
  have "ev_pair (gatherEvidence cs []) mk = (ev_uniqueIdCount e, ev_totalFrameCount e)"
    by (simp add: e ev_pair_def)
  then show ?thesis using e gather_pair[of cs "[]" mk] by (simp add: ev_pair_def)
qed

lemma two_makes:
  assumes "mk \<noteq> m2" "mk \<in> set (map fst es)" "m2 \<in> set (map fst es)"
  shows "\<exists>x y r. es = x # y # r"
  using assms by (cases es; cases "tl es") auto

text \<open>
  The suggestion computed from the counters is the one
  the identifiers of one make determine, none when both makes were seen, and the generic one
  when only responses were.
\<close>

lemma the_suggestion_follows_the_identifiers:
  "determineSuggestion responses (gatherEvidence cs []) = suggestion_for responses cs"
proof -
  let ?g = "gatherEvidence cs []"
  have k: "set (map fst ?g) = {mk. ids_of mk cs \<noteq> []}" using gather_keys[of cs "[]"] by simp
  show ?thesis
  proof (cases "ids_of Tesla cs = []"; cases "ids_of Audi cs = []")
    assume a: "ids_of Tesla cs = []" "ids_of Audi cs = []"
    have "ids_of mk cs = []" for mk
      by (cases "mk = Tesla"; cases "mk = Audi") (simp_all add: a ids_of_other)
    then have "set (map fst ?g) = {}" unfolding k by simp
    then have "?g = []" by simp
    with a show ?thesis by (simp add: suggestion_for_def)
  next
    assume a: "ids_of Tesla cs \<noteq> []" "ids_of Audi cs = []"
    have "ids_of m cs = []" if "m \<noteq> Tesla" for m
      using that a ids_of_other[of m cs] by (cases "m = Audi") simp_all
    from one_make[OF a(1) this] obtain e where e: "?g = [(Tesla, e)]"
        "ev_uniqueIdCount e = length (ids_of Tesla cs)"
        "ev_totalFrameCount e = sum_list (map snd (ids_of Tesla cs))" by auto
    show ?thesis using a
      by (simp add: e suggestion_for_def Let_def determineSuggestion_def fingerprints tesla_print_def)
  next
    assume a: "ids_of Tesla cs = []" "ids_of Audi cs \<noteq> []"
    have "ids_of m cs = []" if "m \<noteq> Audi" for m
      using that a ids_of_other[of m cs] by (cases "m = Tesla") simp_all
    from one_make[OF a(2) this] obtain e where e: "?g = [(Audi, e)]"
        "ev_uniqueIdCount e = length (ids_of Audi cs)"
        "ev_totalFrameCount e = sum_list (map snd (ids_of Audi cs))" by auto
    show ?thesis using a
      by (simp add: e suggestion_for_def Let_def determineSuggestion_def fingerprints audi_print_def)
  next
    assume a: "ids_of Tesla cs \<noteq> []" "ids_of Audi cs \<noteq> []"
    then have "Tesla \<in> set (map fst ?g)" "Audi \<in> set (map fst ?g)" using k by auto
    then obtain x y r where "?g = x # y # r" using two_makes[of Tesla Audi ?g] by auto
    then show ?thesis using a by (cases x) (simp add: suggestion_for_def Let_def determineSuggestion_def)
  qed
qed

lemma ids_of_card:
  assumes "distinct (map fst cs)"
  shows "length (ids_of mk cs) = card {i \<in> set (map fst cs). make_of i = Some mk}"
proof -
  have d: "distinct (map fst (ids_of mk cs))" using assms
    by (auto simp: ids_of_def distinct_map inj_on_def)
  have "set (map fst (ids_of mk cs)) = {i \<in> set (map fst cs). make_of i = Some mk}"
    by (force simp: ids_of_def)
  then show ?thesis using distinct_card[OF d] by simp
qed

text \<open>
  When no identification number is known, any traffic with a
  Tesla identifier and without the Audi one is recognised as Tesla, with a confidence that grows
  with the number of distinct identifiers; adding the Audi identifier makes the result unknown.
\<close>

theorem tesla_traffic_is_recognised:
  fixes fs :: "(nat \<times> u8 list) list"
  defines "r \<equiv> getResult (observe_all fs detector_new)"
    and "seen \<equiv> set (can_ids fs) \<inter> {0x108, 0x118, 0x129}"
  assumes t: "seen \<noteq> {}" and v: "length (vin (observe_all fs detector_new)) < 3"
  shows "if 0x100 \<in> set (can_ids fs) then dr_make r = UnknownMake \<and> dr_suggestedVehicleId r = []
     else dr_make r = Tesla \<and> dr_suggestedVehicleId r = ''tesla''
       \<and> dr_confidence r = (if card seen = 1 then LowConfidence
                            else if card seen = 2 then MediumConfidence else HighConfidence)"
proof -
  let ?s = "observe_all fs detector_new" let ?cs = "canIdCounts ?s"
  have keys: "set (map fst ?cs) = set (can_ids fs)"
    using observe_all_keys[of fs detector_new] by (simp add: detector_new_def)
  have dist: "distinct (map fst ?cs)" by (rule observe_all_distinct) (simp add: detector_new_def)
  have tesla: "{i \<in> set (map fst ?cs). make_of i = Some Tesla} = seen"
    unfolding keys by (auto simp: make_of_cases seen_def split: if_splits)
  have audi: "{i \<in> set (map fst ?cs). make_of i = Some Audi} = set (can_ids fs) \<inter> {0x100}"
    unfolding keys by (auto simp: make_of_cases split: if_splits)
  have lt: "length (ids_of Tesla ?cs) = card seen" using ids_of_card[OF dist] tesla by simp
  have la: "length (ids_of Audi ?cs) = card (set (can_ids fs) \<inter> {0x100})"
    using ids_of_card[OF dist] audi by simp
  have fin: "finite seen" by (simp add: seen_def)
  have tn: "ids_of Tesla ?cs \<noteq> []" using lt t fin by (metis card_0_eq list.size(3))
  show ?thesis
  proof (cases "0x100 \<in> set (can_ids fs)")
    case True
    then have "ids_of Audi ?cs \<noteq> []" using la by auto
    then show ?thesis using True tn v
      by (simp add: r_def getResult_def Let_def the_suggestion_follows_the_identifiers
          suggestion_for_def no_suggestion_def)
  next
    case False
    then have "ids_of Audi ?cs = []" using la by simp
    moreover have "card seen \<noteq> 0" using t fin by (simp add: card_eq_0_iff)
    then have "card seen = 1 \<or> card seen = 2 \<or> 3 \<le> card seen" by linarith
    ultimately show ?thesis using False tn v lt
      by (auto simp: r_def getResult_def Let_def the_suggestion_follows_the_identifiers
          suggestion_for_def calculateConfidence_def)
  qed
qed

definition ex_tesla :: "(nat \<times> u8 list) list" where
  "ex_tesla = [(0, [0x08, 1, 0, 0, 0, 0, 0, 0, 0, 0]), (1, [0x18, 1, 0, 0, 0, 0, 0, 0, 0, 0])]"

lemma ex_tesla_ids: "can_ids ex_tesla = [0x108, 0x118]"
  by (simp add: ex_tesla_def frame_id_def)

lemma ex_tesla_vin: "vin (observe_all ex_tesla detector_new) = []"
  by (simp add: ex_tesla_def observeFrame_def detector_new_def feedCANFrame_def Let_def)

theorem tesla_traffic_is_recognised_witness:
  "dr_make (getResult (observe_all ex_tesla detector_new)) = Tesla
   \<and> dr_confidence (getResult (observe_all ex_tesla detector_new)) = MediumConfidence"
  using tesla_traffic_is_recognised[of ex_tesla] by (simp add: ex_tesla_ids ex_tesla_vin)

end
