(* ===== verification/Elm327_Proofs.thy ===== *)
theory Elm327_Proofs
  imports Host_Elm327 Frames_Proofs Detector_Proofs
begin

text \<open>
  What the adapter session promises: the two text formats are read back, notifications may be cut
  anywhere on the Bluetooth transport, a prompt is reported only when it came; and where it
  fails: a prompt that comes before the wait, two prompts at once, the standard answer to the
  query of the identification number, and the fuel type.
\<close>

section \<open>Splitting at prompts\<close>

lemma split_prompts_none: "0x3E \<notin> set buf \<Longrightarrow> split_prompts buf = ([], buf)"
  by (subst split_prompts.simps) simp

definition strip_cr :: "u8 list \<Rightarrow> u8 list" where
  "strip_cr r = rev (dropWhile (\<lambda>b. b = 0x0D) (rev r))"

lemma split_prompts_one:
  assumes "0x3E \<notin> set r"
  shows "split_prompts (r @ 0x3E # s) =
    ((if strip_cr r = [] then [] else [strip_cr r]) @ fst (split_prompts s), snd (split_prompts s))"
proof -
  have t: "takeWhile (\<lambda>b. b \<noteq> 0x3E) (r @ 0x3E # s) = r" "tl (dropWhile (\<lambda>b. b \<noteq> 0x3E) (r @ 0x3E # s)) = s"
    using assms by (auto simp: takeWhile_append dropWhile_append)
  show ?thesis
    by (subst split_prompts.simps) (simp add: t strip_cr_def Let_def split_beta del: takeWhile_append2)
qed

lemma split_prompts_append:
  "split_prompts (a @ b) =
     (fst (split_prompts a) @ fst (split_prompts (snd (split_prompts a) @ b)),
      snd (split_prompts (snd (split_prompts a) @ b)))"
proof (induction a rule: length_induct)
  case (1 a)
  show ?case
  proof (cases "0x3E \<in> set a")
    case False
    then show ?thesis by (simp add: split_prompts_none)
  next
    case True
    then obtain r s where a: "a = r @ 0x3E # s" "0x3E \<notin> set r" by (meson split_list_first)
    then have "length s < length a" by simp
    note ih = 1[rule_format, OF this]
    show ?thesis by (simp add: a split_prompts_one ih)
  qed
qed

lemma split_prompts_rest: "0x3E \<notin> set (snd (split_prompts a))"
proof (induction a rule: length_induct)
  case (1 a)
  show ?case
  proof (cases "0x3E \<in> set a")
    case True
    then obtain r s where a: "a = r @ 0x3E # s" "0x3E \<notin> set r" by (meson split_list_first)
    then show ?thesis using 1[rule_format, of s] by (simp add: split_prompts_one)
  qed (simp add: split_prompts_none)
qed

text \<open>The transport over several notifications.\<close>

fun link_run :: "u8 list list \<Rightarrow> obd2_link \<Rightarrow> (obd2_link \<times> u8 list list) option" where
  "link_run [] l = Some (l, [])"
| "link_run (c # cs) l =
     (case link_processIncomingData c l of
        None \<Rightarrow> None
      | Some (l1, rs) \<Rightarrow> map_option (\<lambda>(l2, qs). (l2, rs @ qs)) (link_run cs l1))"

lemma link_one:
  "link_processIncomingData c l =
     Some (l\<lparr>ol_buffer := snd (split_prompts (ol_buffer l @ c))\<rparr>,
           if ol_subscribed l then fst (split_prompts (ol_buffer l @ c)) else [])"
  by (simp add: link_processIncomingData_def extractCleanResponses_def Let_def split_beta)

text \<open>
  However the bytes of the adapter are cut into
  notifications, the Bluetooth transport forwards the same responses in the same order and keeps
  the same rest, which holds no prompt; handling a notification always returns.
\<close>

theorem notification_boundaries_do_not_matter:
  "link_run (c # cs) l = link_processIncomingData (concat (c # cs)) l
   \<and> (\<exists>l2 rs. link_run (c # cs) l = Some (l2, rs) \<and> 0x3E \<notin> set (ol_buffer l2))"
proof -
  have e: "link_run (c # cs) l = link_processIncomingData (concat (c # cs)) l"
  proof (induction cs arbitrary: c l)
    case (Cons d ds)
    have "link_run (c # d # ds) l =
        map_option (\<lambda>(l2, qs). (l2, (if ol_subscribed l then fst (split_prompts (ol_buffer l @ c)) else []) @ qs))
          (link_processIncomingData (concat (d # ds))
             (l\<lparr>ol_buffer := snd (split_prompts (ol_buffer l @ c))\<rparr>))"
      using Cons.IH[of d "l\<lparr>ol_buffer := snd (split_prompts (ol_buffer l @ c))\<rparr>"]
      by (subst link_run.simps) (simp only: link_one option.case prod.case)
    also have "\<dots> = link_processIncomingData (concat (c # d # ds)) l"
      using split_prompts_append[of "ol_buffer l @ c" "d @ concat ds"] by (simp add: link_one)
    finally show ?case .
  qed (simp add: link_one)
  have "\<exists>l2 rs. link_processIncomingData (concat (c # cs)) l = Some (l2, rs) \<and> 0x3E \<notin> set (ol_buffer l2)"
    using split_prompts_rest by (simp add: link_one)
  then show ?thesis unfolding e by simp
qed

lemma reading_a_filled_buffer_never_returns: "link_readData l = None \<longleftrightarrow> ol_buffer l \<noteq> []"
  by (simp add: link_readData_def extractCleanResponses_def)

section \<open>Text of responses\<close>

definition text_bytes :: "string \<Rightarrow> u8 list" where
  "text_bytes s = map (\<lambda>c. of_nat (of_char c)) s"

lemma data_text [simp]: "data_string (text_bytes s) = s"
proof -
  have "unat (of_nat (of_char c) :: u8) = of_char c" for c :: char
    by (simp add: unat_of_nat)
  then show ?thesis by (simp add: data_string_def text_bytes_def comp_def)
qed

lemma text_bytes_append [simp]: "text_bytes (s @ t) = text_bytes s @ text_bytes t"
  by (simp add: text_bytes_def)

definition hex_text :: "u8 list \<Rightarrow> string" where
  "hex_text bs = concat (map (\<lambda>b. hex_pad 2 (unat b)) bs)"

lemma hex_text_simps [simp]:
  "hex_text [] = []" "hex_text (b # bs) = hex_pad 2 (unat b) @ hex_text bs"
  "hex_text (bs @ cs) = hex_text bs @ hex_text cs"
  by (simp_all add: hex_text_def)

lemma hex_text_chars: "c \<in> set (hex_text bs) \<Longrightarrow> is_hex c \<and> to_upper c = c"
  using hex_pad_chars by (fastforce simp: hex_text_def)

lemma hex_run:
  "(\<And>c. c \<in> set h \<Longrightarrow> is_hex c \<and> to_upper c = c) \<Longrightarrow> obd2_scan (h @ r) acc res = obd2_scan r (acc @ h) res"
  by (induction h arbitrary: acc) simp_all

lemma scan_text: "obd2_scan (hex_text bs @ r) acc res = obd2_scan r (acc @ hex_text bs) res"
  by (rule hex_run) (rule hex_text_chars)

lemma two_digits: "\<exists>a b. hex_pad 2 (unat (d :: u8)) = [a, b] \<and> of_nat (hex_val a * 16 + hex_val b) = d"
proof -
  obtain a b where ab: "hex_pad 2 (unat d) = [a, b]"
    using pad2(1)[of d] by (auto simp: numeral_2_eq_2 length_Suc_conv)
  have "hex_num [a, b] = unat d" using hex_pad_facts(2)[of 2 "unat d"] ab by simp
  then have "hex_val a * 16 + hex_val b = unat d" by (simp add: hex_num_def)
  then have "of_nat (hex_val a * 16 + hex_val b) = d" by (simp del: of_nat_add of_nat_mult)
  then show ?thesis using ab by blast
qed

lemma flush_text: "flushHexAccumulator (hex_text bs @ t) =
    (bs @ fst (flushHexAccumulator t), snd (flushHexAccumulator t))"
proof (induction bs)
  case (Cons d bs)
  obtain a b where ab: "hex_pad 2 (unat d) = [a, b]" "of_nat (hex_val a * 16 + hex_val b) = d"
    using two_digits by blast
  show ?case by (simp add: ab(1) Cons split_beta ab(2)[simplified])
qed simp

lemma flush_text0 [simp]: "flushHexAccumulator (hex_text bs) = (bs, [])"
  using flush_text[of bs "[]"] by simp

lemma hex_not_sep: "\<not> is_hex CR" "\<not> is_hex (CHR '':'')" "\<not> is_hex (CHR ''>'')" "\<not> is_hex (CHR '' '')"
  "is_hex (CHR ''0'')" "is_hex (CHR ''1'')" "is_hex (CHR ''2'')" "is_hex (CHR ''4'')"
  by (simp_all add: is_hex_def CR_def)

lemma cr_colon: "CR \<noteq> CHR '':''"
  by (simp add: CR_def)

lemma contains_set: "contains p s \<Longrightarrow> set p \<subseteq> set s"
proof (induction s)
  case (Cons c s)
  show ?case
  proof (cases "starts_with p (c # s)")
    case True
    then have "c # s = p @ drop (length p) (c # s)" by (rule starts_with_split)
    then have "set (c # s) = set p \<union> set (drop (length p) (c # s))" by (metis set_append)
    then show ?thesis by blast
  next
    case False
    then show ?thesis using Cons by auto
  qed
qed simp

text \<open>Text without the letters of a message holds none.\<close>

definition letter :: "char \<Rightarrow> bool" where
  "letter c \<longleftrightarrow> c \<in> {CHR ''O'', CHR ''R'', CHR ''S'', CHR ''N'', CHR ''U''}"

definition plain :: "string \<Rightarrow> bool" where
  "plain s \<longleftrightarrow> (\<forall>c \<in> set s. to_upper c = c \<and> \<not> letter c)"

lemma hex_plain: "is_hex c \<Longrightarrow> \<not> letter c"
  by (auto simp: is_hex_def letter_def)

lemma messages_have_letters:
  "p \<in> set (ERROR_MESSAGES @ INFO_MESSAGES) \<Longrightarrow> \<exists>c \<in> set p. letter c"
proof -
  have "list_all (\<lambda>p. list_ex letter p) (ERROR_MESSAGES @ INFO_MESSAGES)" by code_simp
  then show "p \<in> set (ERROR_MESSAGES @ INFO_MESSAGES) \<Longrightarrow> ?thesis" by (simp add: list_all_iff list_ex_iff)
qed

lemma plain_no_message:
  "plain s \<Longrightarrow> p \<in> set (ERROR_MESSAGES @ INFO_MESSAGES) \<Longrightarrow> \<not> contains p s"
  using messages_have_letters[of p] contains_set[of p s] unfolding plain_def by blast

lemma plain_no_error: "plain s \<Longrightarrow> \<not> isErrorMessage s"
proof -
  assume p: "plain s"
  then have "map to_upper s = s" by (simp add: plain_def map_idI)
  then show ?thesis using plain_no_message[OF p] by (simp add: isErrorMessage_def list_ex_iff)
qed

lemma find_pos_contains: "find_pos p s i \<noteq> None \<Longrightarrow> contains p s"
  by (induction p s i rule: find_pos.induct) (auto split: if_splits)

lemma plain_no_info: "plain s \<Longrightarrow> stripInfoPrefixes s = s"
proof -
  assume p: "plain s"
  have "find_pos q s 0 = None" if "q \<in> set INFO_MESSAGES" for q
    using find_pos_contains[of q s 0] plain_no_message[OF p, of q] that by (cases "find_pos q s 0") auto
  then show ?thesis by (simp add: stripInfoPrefixes_def INFO_MESSAGES_def)
qed

lemma parse_plain:
  assumes "plain s" "CHR ''>'' \<notin> set s" "s \<noteq> []"
  shows "parseOBD2Response (s @ CHR ''>'' # r) =
     (let (h, res) = obd2_scan s [] []; (bs, rest) = flushHexAccumulator h
      in if rest \<noteq> [] \<or> res @ bs = [] then None else Some (res @ bs))"
proof -
  have "extractPrompt (s @ CHR ''>'' # r) = s"
    using assms(2) by (simp add: extractPrompt_def takeWhile_append)
  then show ?thesis using assms(3)
    by (simp add: parseOBD2Response_def plain_no_info[OF assms(1)] plain_no_error[OF assms(1)])
qed

lemma hex_text_plain: "plain (hex_text bs)" "CHR ''>'' \<notin> set (hex_text bs)" "bs \<noteq> [] \<Longrightarrow> hex_text bs \<noteq> []"
  using hex_text_chars[of _ bs] hex_plain hex_not_sep(3) hex_pad_facts(3)
  by (auto simp: plain_def hex_text_def)

lemma plain_append: "plain (s @ t) \<longleftrightarrow> plain s \<and> plain t"
  by (auto simp: plain_def)

lemma plain_cr: "plain [CR]" "plain [CHR '':'']" "plain ''0''" "plain ''1''" "plain ''2''" "plain ''014''"
  by (simp_all add: plain_def CR_def to_upper_def letter_def)

lemma parse_response:
  assumes "bs \<noteq> []"
  shows "parseOBD2Response (hex_text bs @ [CR, CR, CHR ''>'']) = Some bs"
proof -
  let ?s = "hex_text bs @ [CR] @ [CR]"
  have "plain ?s" unfolding plain_append using hex_text_plain(1) plain_cr(1) by blast
  moreover have "CHR ''>'' \<notin> set ?s" using hex_text_plain(2)[of bs] by (simp add: CR_def)
  ultimately have "parseOBD2Response (?s @ CHR ''>'' # []) =
     (let (h, res) = obd2_scan ?s [] []; (xs, rest) = flushHexAccumulator h
      in if rest \<noteq> [] \<or> res @ xs = [] then None else Some (res @ xs))"
    by (rule parse_plain) simp
  then show ?thesis using assms by (simp add: scan_text hex_not_sep cr_colon)
qed

section \<open>The session reads both formats\<close>

lemma obd2_observe_silent:
  "\<not> es_canMode s \<Longrightarrow> es_canMode (fst (handleIncomingData big now d s)) = False"
  by (simp add: handleIncomingData_def Let_def split_beta)

lemma handle_delivers:
  "snd (handleIncomingData big now d s) =
     (let bd = if es_canMode s then monitor_packet big d else parseASCIIResponseToBinary d
      in if bd = [] then [] else [bd])"
  by (simp add: handleIncomingData_def Let_def split_beta)

lemma handle_mode [simp]: "es_canMode (fst (handleIncomingData big now d s)) = es_canMode s"
  by (simp add: handleIncomingData_def Let_def split_beta)

lemma notifications_deliver:
  "snd (notifications big now ds s) =
     concat (map (\<lambda>d. let bd = if es_canMode s then monitor_packet big d
                               else parseASCIIResponseToBinary d
                      in if bd = [] then [] else [bd]) ds)"
proof (induction ds arbitrary: s)
  case (Cons d ds)
  show ?case by (simp add: split_beta Cons.IH handle_delivers)
qed simp

lemma hex_num_pad: "hex_num (hex_pad w n) = n"
  by (rule hex_pad_facts(2))

lemma hex_pad_two:
  assumes "n < 256"
  shows "hex_pad 2 n = [digit_char (n div 16), digit_char (n mod 16)]"
proof (cases "n < 16")
  case True
  then show ?thesis
    by (simp add: hex_pad_def pad_left_def digits_in_small) (simp add: digit_char_def)
next
  case False
  then have "digits_in 16 n = [digit_char (n div 16), digit_char (n mod 16)]"
    using assms by (subst digits_in.simps) (simp add: digits_in_small)
  then show ?thesis by (simp add: hex_pad_def pad_left_def)
qed

lemma nibble_or:
  fixes i j :: nat
  assumes "j < 16"
  shows "push_bit 4 i OR j = i * 16 + j"
proof -
  have "j = take_bit 4 j" using assms by (simp add: take_bit_eq_mod)
  then have "push_bit 4 i AND j = 0"
    by (metis bit_eqI bit_and_iff bit_push_bit_iff bit_take_bit_iff bit_0_eq bot_apply
        bot_bool_def linorder_not_less)
  then have "push_bit 4 i OR j = push_bit 4 i + j" by (simp add: disjunctive_add_eq_or)
  then show ?thesis by (simp add: push_bit_eq_mult)
qed

lemma hex_digit_byte: "i < 16 \<Longrightarrow> hexCharToByte (digit_char i) = of_nat i \<and> (of_nat i :: u8) \<noteq> 0xFF"
proof -
  have "list_all (\<lambda>i. hexCharToByte (digit_char i) = of_nat i \<and> (of_nat i :: u8) \<noteq> 0xFF) [0 ..< 16]"
    by code_simp
  then show "i < 16 \<Longrightarrow> ?thesis" by (simp add: list_all_iff)
qed

lemma parse_digits:
  assumes "i < 16" "j < 16"
  shows "parseHexByte [digit_char i, digit_char j] = Some (of_nat (i * 16 + j))"
proof -
  have "push_bit 4 (of_nat i) OR of_nat j = (of_nat (push_bit 4 i OR j) :: u8)"
    by (simp add: of_nat_or_eq of_nat_push_bit)
  then show ?thesis
    using hex_digit_byte[OF assms(1)] hex_digit_byte[OF assms(2)] nibble_or[OF assms(2)]
    by (simp add: parseHexByte_def)
qed

lemma parse_hex_pad: "parseHexByte (hex_pad 2 (unat (d :: u8))) = Some d"
proof -
  have "unat d div 16 < 16" using u8_lt[of d] by simp
  then have "parseHexByte (hex_pad 2 (unat d)) = Some (of_nat (unat d div 16 * 16 + unat d mod 16))"
    unfolding hex_pad_two[OF u8_lt] by (rule parse_digits) simp
  also have "unat d div 16 * 16 + unat d mod 16 = unat d" by (rule div_mult_mod_eq)
  finally show ?thesis by simp
qed

lemma parse_data_pads: "parse_data (map (\<lambda>d. hex_pad 2 (unat d)) ds) = Some ds"
  using those_map[of ds "parseHexByte \<circ> (\<lambda>d. hex_pad 2 (unat d))" "\<lambda>d. d"]
  by (simp add: parse_data_def parse_hex_pad)

definition monitor_line :: "u16 \<Rightarrow> u8 list \<Rightarrow> string" where
  "monitor_line i bs = hex_pad 3 (unat i) @ byte_texts bs @ [CR]"

lemma monitor_body:
  fixes i :: u16
  assumes "length bs = 8"
  defines "b \<equiv> hex_pad 3 (unat i) @ byte_texts bs"
  shows "rev (dropWhile (\<lambda>c. c = CR \<or> c = LF) (rev b)) = b"
    and "CHR '':'' \<notin> set b" and "\<not> isStatusMessage (map to_upper b)"
    and "tokenizeHex b = hex_pad 3 (unat i) # map (\<lambda>d. hex_pad 2 (unat d)) bs"
    and "b \<noteq> ''>''"
proof -
  have ch: "is_hex c \<or> c = CHR '' ''" if "c \<in> set b" for c
    using that by (auto simp: b_def byte_texts_def dest: hex_pad_chars(1) split: if_splits)
  have len: "27 \<le> length b" using assms(1) length_byte_texts[of bs] hex_pad_facts(3)[of 3 "unat i"]
    by (simp add: b_def hex_pad_def pad_left_def)
  have "b \<noteq> []" using len by auto
  then have "last b \<noteq> CR \<and> last b \<noteq> LF" using ch[of "last b"] by (auto simp: is_hex_def CR_def LF_def)
  then show "rev (dropWhile (\<lambda>c. c = CR \<or> c = LF) (rev b)) = b"
    using \<open>b \<noteq> []\<close> by (simp add: dropWhile_id hd_rev)
  show "CHR '':'' \<notin> set b" using ch[of "CHR '':''"] hex_not_sep(2) by auto
  have "list_all (\<lambda>p. length p < 27) STATUSES" by code_simp
  then show "\<not> isStatusMessage (map to_upper b)" using len
    by (auto simp: isStatusMessage_def list_all_iff)
  have up: "map to_upper (hex_pad w n) = hex_pad w n" for w n
    by (rule map_idI) (rule hex_pad_chars(5))
  have "tokens_by (\<lambda>c. \<not> is_hex c) b = hex_pad 3 (unat i) # map (\<lambda>d. hex_pad 2 (unat d)) bs"
    unfolding b_def by (rule tokens_frame) (use hex_not_sep(4) hex_pad_chars(1) in auto)
  then show "tokenizeHex b = hex_pad 3 (unat i) # map (\<lambda>d. hex_pad 2 (unat d)) bs"
    by (simp add: tokenizeHex_def up)
  show "b \<noteq> ''>''" using len by auto
qed

lemma monitor_line_parsed:
  assumes "length bs = 8"
  shows "parseCANFrame big (monitor_line i bs) = Some (i, bs)"
proof -
  define b where "b = hex_pad 3 (unat i) @ byte_texts bs"
  note f = monitor_body[OF assms, of i, folded b_def]
  have ml: "monitor_line i bs = b @ [CR]" by (simp add: monitor_line_def b_def)
  have lt: "unat i < 2 ^ 32" using u16_lt[of i] by simp
  have "scan_hex big (hex_pad 3 (unat i)) = unat i" using lt by (simp add: scan_hex_def hex_num_pad)
  then show ?thesis
    using assms parse_data_pads[of bs] f(2,3,5)
    by (simp add: parseCANFrame_def ml f(1,4) Let_def classifyTypePrefix_def)
qed

lemma monitor_line_packet:
  assumes "length bs = 8"
  shows "monitor_packet big (text_bytes (monitor_line i bs)) = ucast i # ucast (drop_bit 8 i) # bs"
  by (simp add: monitor_packet_def monitor_line_parsed[OF assms] assms)

lemma response_packet:
  "bs \<noteq> [] \<Longrightarrow> parseASCIIResponseToBinary (text_bytes (hex_text bs @ [CR, CR, CHR ''>''])) = bs"
  by (simp add: parseASCIIResponseToBinary_def parse_response del: text_bytes_append)

text \<open>
  In monitor mode a line with an identifier and eight bytes is
  delivered as the ten bytes the translation layer expects, identifier first and low byte
  first; in query mode the text of a response is delivered as its bytes. Notifications are
  delivered one by one in the order they came.
\<close>

theorem the_session_reads_both_formats:
  assumes "\<forall>(i, bs) \<in> set frames. length bs = 8" "\<forall>bs \<in> set responses. bs \<noteq> []"
    and "es_canMode m" "\<not> es_canMode q"
  shows "snd (notifications big now (map (\<lambda>(i, bs). text_bytes (monitor_line i bs)) frames) m)
      = map (\<lambda>(i, bs). ucast i # ucast (drop_bit 8 i) # bs) frames
    \<and> snd (notifications big now (map (\<lambda>bs. text_bytes (hex_text bs @ [CR, CR, CHR ''>''])) responses) q)
      = responses"
proof
  show "snd (notifications big now (map (\<lambda>(i, bs). text_bytes (monitor_line i bs)) frames) m)
      = map (\<lambda>(i, bs). ucast i # ucast (drop_bit 8 i) # bs) frames"
    using assms(1) by (induction frames)
      (auto simp: notifications_deliver assms(3) monitor_line_packet simp del: notifications.simps)
  show "snd (notifications big now (map (\<lambda>bs. text_bytes (hex_text bs @ [CR, CR, CHR ''>''])) responses) q)
      = responses"
    using assms(2) by (induction responses)
      (simp_all add: notifications_deliver assms(4) response_packet del: text_bytes_append notifications.simps)
qed

theorem the_session_reads_both_formats_witness:
  "snd (notifications (\<lambda>t. 0) 0 [text_bytes (monitor_line 0x108 [1, 2, 3, 4, 5, 6, 7, 8])]
      (startCANMonitor session_new)) = [[8, 1, 1, 2, 3, 4, 5, 6, 7, 8]]"
  using the_session_reads_both_formats[of "[(0x108, [1, 2, 3, 4, 5, 6, 7, 8])]" "[]"
      "startCANMonitor session_new" session_new "\<lambda>t. 0" 0]
  by (simp add: startCANMonitor_def session_new_def)

section \<open>The identification number\<close>

text \<open>
  The adapter's answer to the query of the identification number on a CAN vehicle, spaces off: the
  length, then numbered lines with six and seven bytes.
\<close>

definition vin_answer :: "u8 list \<Rightarrow> string" where
  "vin_answer v = ''014'' @ [CR] @ ''0:'' @ hex_text ([0x49, 0x02, 0x01] @ take 3 v) @ [CR]
     @ ''1:'' @ hex_text (take 7 (drop 3 v)) @ [CR] @ ''2:'' @ hex_text (take 7 (drop 10 v))
     @ [CR, CR, CHR ''>'']"

lemma up_digits: "to_upper (CHR ''0'') = CHR ''0''" "to_upper (CHR ''1'') = CHR ''1''"
  "to_upper (CHR ''2'') = CHR ''2''" "to_upper (CHR ''4'') = CHR ''4''"
  by (simp_all add: to_upper_def)

lemma vin_answer_scan:
  "obd2_scan (''014'' @ [CR] @ ''0:'' @ hex_text a @ [CR] @ ''1:'' @ hex_text b @ [CR]
       @ ''2:'' @ hex_text c @ [CR, CR]) [] [] = ([], 0x01 # a @ b @ c)"
proof -
  have f: "flushHexAccumulator ''014'' = ([0x01], ''4'')" by (simp add: hex_val_def)
  show ?thesis by (simp add: scan_text hex_not_sep cr_colon up_digits f del: flushHexAccumulator.simps(1))
qed

lemma vin_answer_parsed:
  "parseOBD2Response (''014'' @ [CR] @ ''0:'' @ hex_text a @ [CR] @ ''1:'' @ hex_text b @ [CR]
       @ ''2:'' @ hex_text c @ [CR, CR, CHR ''>'']) = Some (0x01 # a @ b @ c)"
proof -
  let ?s = "''014'' @ [CR] @ ''0:'' @ hex_text a @ [CR] @ ''1:'' @ hex_text b @ [CR]
       @ ''2:'' @ hex_text c @ [CR, CR]"
  have "plain [CR, CR]" "plain ''0:''" "plain ''1:''" "plain ''2:''"
    by (simp_all add: plain_def CR_def to_upper_def letter_def)
  then have p: "plain ?s" unfolding plain_append using hex_text_plain(1) plain_cr by blast
  have q: "CHR ''>'' \<notin> set ?s" using hex_text_plain(2) by (simp add: CR_def)
  have "parseOBD2Response (?s @ CHR ''>'' # []) = Some (0x01 # a @ b @ c)"
    by (subst parse_plain[OF p q]) (simp, simp only: vin_answer_scan Let_def prod.case, simp)
  then show ?thesis by simp
qed

lemma find_from_Some: "c \<in> set s \<Longrightarrow> \<exists>i. find_from c s 0 = Some i"
proof -
  assume "c \<in> set s"
  then obtain u v where "s = u @ c # v" "c \<notin> set u" by (meson split_list_first)
  then show ?thesis using find_from_append[of c u 0 "[]" v] by simp
qed

lemma handle_ready:
  "\<not> es_canMode s \<Longrightarrow> es_promptReady (fst (handleIncomingData big now d s)) \<longleftrightarrow>
     es_promptReady s \<or> CHR ''>'' \<in> set (es_promptBuffer s @ data_string d)"
proof -
  let ?b = "es_promptBuffer s @ data_string d"
  assume m: "\<not> es_canMode s"
  show ?thesis
  proof (cases "CHR ''>'' \<in> set ?b")
    case True
    then obtain i where "find_from (CHR ''>'') ?b 0 = Some i" using find_from_Some by blast
    then show ?thesis using m True
      by (simp add: handleIncomingData_def scan_prompt_def Let_def split_beta)
  next
    case False
    then have "find_from (CHR ''>'') ?b 0 = None" by (simp add: find_from_None)
    then show ?thesis using m False
      by (simp add: handleIncomingData_def scan_prompt_def Let_def split_beta)
  qed
qed

lemma handle_detector:
  "es_detector (fst (handleIncomingData big now d s)) =
     (let bd = if es_canMode s then monitor_packet big d else parseASCIIResponseToBinary d
      in if bd = [] then es_detector s else observeFrame now bd (es_detector s))"
  by (simp add: handleIncomingData_def Let_def split_beta)

lemma notifications_mode [simp]:
  "es_canMode (fst (notifications big now ds s)) = es_canMode s"
  by (induction ds arbitrary: s) (simp_all add: split_beta)

lemma notifications_detector:
  "es_detector (fst (notifications big now ds s)) =
     foldl (\<lambda>det d. let bd = if es_canMode s then monitor_packet big d else parseASCIIResponseToBinary d
                    in if bd = [] then det else observeFrame now bd det) (es_detector s) ds"
  by (induction ds arbitrary: s) (simp_all add: split_beta handle_detector)

lemma notifications_ready:
  assumes "\<not> es_canMode s" "es_promptReady s \<or> (\<exists>d \<in> set ds. CHR ''>'' \<in> set (data_string d))"
  shows "es_promptReady (fst (notifications big now ds s))"
  using assms
proof (induction ds arbitrary: s)
  case (Cons d ds)
  let ?t = "fst (handleIncomingData big now d s)"
  have "es_promptReady ?t \<or> (\<exists>d \<in> set ds. CHR ''>'' \<in> set (data_string d))"
    using Cons.prems by (auto simp: handle_ready)
  then show ?case using Cons.IH[of ?t] Cons.prems(1) by (simp add: split_beta)
qed simp

lemma send_sequence_facts:
  "snd (send_sequence cs gs s) = cs"
  "es_canMode (fst (send_sequence cs gs s)) = es_canMode s"
  "es_detector (fst (send_sequence cs gs s)) = es_detector s"
  by (induction cs gs s rule: send_sequence.induct)
    (simp_all add: split_beta after_wait_def split: list.splits)

lemma vin_query_start:
  assumes "s1 = fst (snd (initializeForVINQuery gs s))"
  shows "\<not> es_canMode s1" "es_detector s1 = detector_new"
  using assms by (simp_all add: initializeForVINQuery_def split_beta send_sequence_facts detector_reset_def)

lemma vin_answer_bytes:
  assumes "length v = 17"
  shows "parseASCIIResponseToBinary (text_bytes (vin_answer v)) = 0x01 # 0x49 # 0x02 # 0x01 # v"
proof -
  have "take 3 v @ take 7 (drop 3 v) @ take 7 (drop 10 v) = v"
    using assms append_take_drop_id[of 3 v] append_take_drop_id[of 7 "drop 3 v"] by simp
  then show ?thesis unfolding parseASCIIResponseToBinary_def data_text vin_answer_def vin_answer_parsed
    by simp
qed

lemma vin_answer_prompt: "CHR ''>'' \<in> set (vin_answer v)"
  by (simp add: vin_answer_def)

text \<open>
  Whatever happened before, after the initialisation for the
  query of the identification number, the adapter's standard answer reaches the session with
  its prompt and all 17 characters are delivered to the consumer, but the query returns nothing.
\<close>

theorem the_standard_vin_answer_is_lost:
  fixes s :: elm_session and v :: "u8 list" and gs :: "bool list"
  defines "s1 \<equiv> fst (snd (initializeForVINQuery gs s))"
    and "answer \<equiv> text_bytes (vin_answer v)"
  assumes len: "length v = 17"
  shows "fst (queryVIN big now [answer] s1) = None
    \<and> es_promptReady (fst (snd (queryVIN big now [answer] s1)))
    \<and> snd (handleIncomingData big now answer s1) = [0x01 # 0x49 # 0x02 # 0x01 # v]"
proof -
  let ?s = "s1\<lparr>es_canMode := False, es_promptReady := False\<rparr>"
  note st = vin_query_start[OF s1_def[THEN meta_eq_to_obj_eq]]
  have b: "parseASCIIResponseToBinary answer = 0x01 # 0x49 # 0x02 # 0x01 # v"
    unfolding answer_def using len by (rule vin_answer_bytes)
  have r: "es_promptReady (fst (handleIncomingData big now answer ?s))"
    by (simp add: handle_ready answer_def vin_answer_prompt)
  have d: "vin (es_detector (fst (handleIncomingData big now answer ?s))) = []"
    using len by (simp add: handle_detector b st observeFrame_def Let_def) (simp add: detector_new_def)
  show ?thesis
    using r d st(1) by (simp add: queryVIN_def split_beta getResult_def Let_def handle_delivers b)
qed

theorem the_standard_vin_answer_is_lost_witness:
  "fst (queryVIN (\<lambda>t. 0) 0 [text_bytes (vin_answer (replicate 17 0x31))]
     (fst (snd (initializeForVINQuery [] session_new)))) = None"
  using the_standard_vin_answer_is_lost[of "replicate 17 0x31" "\<lambda>t. 0" 0 "[]" session_new] by simp

text \<open>
  When the number arrives in responses of eight or nine bytes,
  each with the header of the query, the query returns its first 17 characters in order.
\<close>

definition short_response :: "u8 list \<Rightarrow> u8 list" where
  "short_response p = text_bytes (hex_text (0x49 # 0x02 # 0x01 # p) @ [CR, CR, CHR ''>''])"

lemma cut_is_take: "cut_vin v = take 17 v"
  by (simp add: cut_vin_def)

lemma short_observed:
  assumes "5 \<le> length p" "length p \<le> 6" "0 \<notin> set p"
  shows "vin (observeFrame now (0x49 # 0x02 # 0x01 # p) s) = take 17 (vin s @ data_string p)"
proof -
  have "dropWhile (\<lambda>b. b = 0) p = p" "filter (\<lambda>b. b \<noteq> 0) p = p"
    using assms(3) by (cases p; auto simp: filter_id_conv)+
  then show ?thesis using assms(1,2)
    by (simp add: observeFrame_def Let_def feedOBD2Frame_def cut_is_take vin_text_def data_string_def)
qed

lemma take_take_append: "take n (take n b @ c) = take n (b @ c)"
  by (cases "length b \<le> n") (simp_all add: min_def)

lemma data_string_append: "data_string (a @ b) = data_string a @ data_string b"
  by (simp add: data_string_def)

lemma short_responses_observed:
  assumes "\<forall>p \<in> set ps. 5 \<le> length p \<and> length p \<le> 6 \<and> 0 \<notin> set p" "length (vin s) \<le> 17"
  shows "vin (foldl (\<lambda>det p. observeFrame now (0x49 # 0x02 # 0x01 # p) det) s ps)
    = take 17 (vin s @ data_string (concat ps))"
  using assms
proof (induction ps arbitrary: s)
  case (Cons p ps)
  have v: "vin (observeFrame now (0x49 # 0x02 # 0x01 # p) s) = take 17 (vin s @ data_string p)"
    using Cons.prems by (simp add: short_observed)
  have "vin (foldl (\<lambda>det p. observeFrame now (0x49 # 0x02 # 0x01 # p) det) s (p # ps))
      = take 17 (take 17 (vin s @ data_string p) @ data_string (concat ps))"
    using Cons.IH[of "observeFrame now (0x49 # 0x02 # 0x01 # p) s"] Cons.prems(1) by (simp add: v)
  also have "\<dots> = take 17 (vin s @ data_string (concat (p # ps)))"
    unfolding take_take_append by (simp add: data_string_append)
  finally show ?case .
qed (simp add: data_string_def)

theorem short_responses_give_the_vin:
  fixes s :: elm_session and gs :: "bool list"
  defines "s1 \<equiv> fst (snd (initializeForVINQuery gs s))"
  assumes p: "\<forall>p \<in> set ps. 5 \<le> length p \<and> length p \<le> 6 \<and> 0 \<notin> set p" and ne: "ps \<noteq> []"
  shows "fst (queryVIN big now (map short_response ps) s1) = Some (take 17 (data_string (concat ps)))"
proof -
  let ?s = "s1\<lparr>es_canMode := False, es_promptReady := False\<rparr>"
  note st = vin_query_start[OF s1_def[THEN meta_eq_to_obj_eq]]
  have b: "parseASCIIResponseToBinary (short_response p) = 0x49 # 0x02 # 0x01 # p" for p
    unfolding short_response_def by (rule response_packet) simp
  have f: "foldl (\<lambda>det d. let bd = parseASCIIResponseToBinary d in
      if bd = [] then det else observeFrame now bd det) s0 (map short_response ps)
    = foldl (\<lambda>det p. observeFrame now (0x49 # 0x02 # 0x01 # p) det) s0 ps" for s0
    by (induction ps arbitrary: s0) (simp_all add: b)
  have v: "vin (es_detector (fst (notifications big now (map short_response ps) ?s)))
      = take 17 (data_string (concat ps))"
    unfolding notifications_detector using f short_responses_observed[OF p, of detector_new now] st(2)
    by (simp add: detector_new_def)
  have r: "es_promptReady (fst (notifications big now (map short_response ps) ?s))"
  proof (rule notifications_ready)
    have "CHR ''>'' \<in> set (data_string (short_response (hd ps)))"
      by (simp add: short_response_def del: text_bytes_append)
    then show "es_promptReady ?s \<or> (\<exists>d \<in> set (map short_response ps). CHR ''>'' \<in> set (data_string d))"
      using ne by force
  qed simp
  have "concat ps \<noteq> []" using p ne by (cases ps) auto
  then have "take 17 (data_string (concat ps)) \<noteq> []" by (simp add: data_string_def)
  then show ?thesis using v r by (simp add: queryVIN_def split_beta getResult_def Let_def)
qed

theorem short_responses_give_the_vin_witness:
  "fst (queryVIN (\<lambda>t. 0) 0 (map short_response [[0x35, 0x59, 0x4A, 0x33, 0x45], [0x31, 0x45, 0x41, 0x31, 0x4C]])
     (fst (snd (initializeForVINQuery [] session_new)))) = Some ''5YJ3E1EA1L''"
  using short_responses_give_the_vin[of "[[0x35, 0x59, 0x4A, 0x33, 0x45], [0x31, 0x45, 0x41, 0x31, 0x4C]]"
      "\<lambda>t. 0" 0 "[]" session_new]
  by (simp add: data_string_def char_of_def bit_iff_odd)

section \<open>The fuel type\<close>

lemma responses_are_never_empty: "parseOBD2Response a \<noteq> Some []"
  by (auto simp: parseOBD2Response_def Let_def split: prod.splits if_splits)

lemma process_step: "isElectric (processIncomingData now a s) = isElectric s
    \<and> (\<forall>bs. parseOBD2Response a = Some bs \<and> (length bs < 8 \<or> bs ! 0 \<noteq> 0x49 \<or> bs ! 1 \<noteq> 0x02) \<longrightarrow>
         vin (processIncomingData now a s) = take 17 (vin s @ vin_text bs))"
proof (cases "parseOBD2Response a")
  case (Some bs)
  then have "bs \<noteq> []" using responses_are_never_empty by auto
  then have "1 \<le> length bs" by (cases bs) auto
  then show ?thesis by (auto simp: processIncomingData_def Some feedVINResponse_def Let_def cut_is_take)
qed (simp add: processIncomingData_def)

text \<open>
  Whatever answers the protocol handler gets, it never learns
  the fuel type: every answer that parses is taken as part of the identification number, also
  the answer to the fuel type query, whose bytes are appended to it.
\<close>

theorem the_fuel_type_is_never_learned:
  "isElectric (foldl (\<lambda>s (t, a). processIncomingData t a s) detector_new answers) = None
   \<and> vin (processIncomingData now (hex_text [0x41, 0x51, 0x08] @ [CR, CR, CHR ''>'']) s)
      = take 17 (vin s @ ''AQ'' @ [CHR 0x08])"
proof
  have "isElectric (foldl (\<lambda>s (t, a). processIncomingData t a s) s0 answers) = isElectric s0" for s0
    by (induction answers arbitrary: s0) (auto simp: process_step)
  then show "isElectric (foldl (\<lambda>s (t, a). processIncomingData t a s) detector_new answers) = None"
    by (simp add: detector_new_def)
  have "parseOBD2Response (hex_text [0x41, 0x51, 0x08] @ [CR, CR, CHR ''>'']) = Some [0x41, 0x51, 0x08]"
    by (rule parse_response) simp
  then have "vin (processIncomingData now (hex_text [0x41, 0x51, 0x08] @ [CR, CR, CHR ''>'']) s)
      = take 17 (vin s @ vin_text [0x41, 0x51, 0x08])" using process_step by simp
  then show "vin (processIncomingData now (hex_text [0x41, 0x51, 0x08] @ [CR, CR, CHR ''>'']) s)
      = take 17 (vin s @ ''AQ'' @ [CHR 0x08])" by (simp add: vin_text_def char_of_def bit_iff_odd)
qed

section \<open>Prompts in the buffer\<close>

lemma scan_prompt_bound: "length (fst (scan_prompt b)) \<le> 256"
  by (simp add: scan_prompt_def split_beta Let_def PROMPT_BUFFER_MAX_def)

lemma handle_buffer:
  "es_promptBuffer (fst (handleIncomingData big now d s)) =
     (if es_canMode s then es_promptBuffer s else fst (scan_prompt (es_promptBuffer s @ data_string d)))"
  by (simp add: handleIncomingData_def Let_def split_beta)

lemma scan_prompt_first:
  assumes "CHR ''>'' \<notin> set u"
  shows "fst (scan_prompt (u @ CHR ''>'' # v)) = drop (length v - 256) v"
proof -
  have "find_from (CHR ''>'') (u @ CHR ''>'' # v) 0 = Some (length u)"
    using find_from_append[of "CHR ''>''" u 0 "[]" v] assms by simp
  then show ?thesis by (simp add: scan_prompt_def PROMPT_BUFFER_MAX_def)
qed

text \<open>
  The prompt buffer never exceeds 256 characters over any
  notifications. A notification with two prompts leaves the second in the buffer, so the very
  next notification, whatever it holds, signals a prompt although the adapter sent none.
\<close>

theorem a_second_prompt_answers_a_later_query:
  assumes q: "\<not> es_canMode s" and b: "CHR ''>'' \<notin> set (es_promptBuffer s)"
    and d: "data_string d = u @ CHR ''>'' # v @ CHR ''>'' # w"
    and f: "CHR ''>'' \<notin> set u" "length w < 256"
  shows "let s1 = fst (handleIncomingData big now d s)
     in es_promptReady (fst (handleIncomingData big later e (s1\<lparr>es_promptReady := False\<rparr>)))
        \<and> length (es_promptBuffer (fst (notifications big later ds s1))) \<le> 256"
proof -
  let ?s1 = "fst (handleIncomingData big now d s)"
  let ?r = "v @ CHR ''>'' # w"
  have "es_promptBuffer ?s1 = fst (scan_prompt ((es_promptBuffer s @ u) @ CHR ''>'' # ?r))"
    using q d by (simp add: handle_buffer)
  also have "\<dots> = drop (length ?r - 256) ?r" using b f(1) by (intro scan_prompt_first) simp
  finally have buf: "es_promptBuffer ?s1 = drop (length ?r - 256) ?r" .
  have "drop (length ?r - 256) ?r = drop (length ?r - 256) v @ CHR ''>'' # w" using f(2) by simp
  then have p: "CHR ''>'' \<in> set (es_promptBuffer ?s1)" unfolding buf by simp
  have bound: "length (es_promptBuffer (fst (notifications big later ds t))) \<le> 256"
    if "length (es_promptBuffer t) \<le> 256" for t
    using that by (induction ds arbitrary: t) (simp_all add: split_beta handle_buffer scan_prompt_bound)
  from p have "es_promptReady (fst (handleIncomingData big later e (?s1\<lparr>es_promptReady := False\<rparr>)))"
    using q by (subst handle_ready) auto
  moreover have "length (es_promptBuffer ?s1) \<le> 256"
    using q by (simp add: handle_buffer scan_prompt_bound)
  then have "length (es_promptBuffer (fst (notifications big later ds ?s1))) \<le> 256" by (rule bound)
  ultimately show ?thesis by (simp add: Let_def)
qed

theorem a_second_prompt_answers_a_later_query_witness:
  "es_promptReady (fst (handleIncomingData (\<lambda>t. 0) 2 (text_bytes ''SEARCHING'')
     ((fst (handleIncomingData (\<lambda>t. 0) 1 (text_bytes ''NO DATA>>'') session_new))\<lparr>es_promptReady := False\<rparr>)))"
  using a_second_prompt_answers_a_later_query[of session_new "text_bytes ''NO DATA>>''" "''NO DATA''" "[]" "[]"
      "\<lambda>t. 0" 1 2 "text_bytes ''SEARCHING''" "[]"]
  by (simp add: session_new_def Let_def)

section \<open>A prompt and its wait\<close>

definition query_inv :: "query_state \<Rightarrow> bool" where
  "query_inv s \<longleftrightarrow> (q_phase s = ToSend \<longrightarrow> \<not> q_answered s \<and> \<not> q_ready s)
     \<and> (q_ready s \<longrightarrow> q_answered s) \<and> (q_phase s = Ended True \<longrightarrow> q_answered s)"

lemma query_inv_step: "query_step s t \<Longrightarrow> query_inv s \<Longrightarrow> query_inv t"
  by (induction rule: query_step.induct) (auto simp: query_inv_def)

lemma query_inv_reach: "query_step\<^sup>*\<^sup>* query_start s \<Longrightarrow> query_inv s"
  by (induction rule: rtranclp_induct) (auto simp: query_inv_def query_start_def dest: query_inv_step[unfolded query_inv_def])

text \<open>A wait whose prompt came too early: nothing can signal it any more.\<close>

definition missed :: "query_state \<Rightarrow> bool" where
  "missed s \<longleftrightarrow> q_answered s \<and> ((q_phase s = Waiting \<and> \<not> q_ready s) \<or> q_phase s = Ended False)"

lemma missed_step: "query_step s t \<Longrightarrow> missed s \<Longrightarrow> missed t"
  by (induction rule: query_step.induct) (auto simp: missed_def)

lemma missed_reach: "query_step\<^sup>*\<^sup>* s t \<Longrightarrow> missed s \<Longrightarrow> missed t"
  by (induction rule: rtranclp_induct) (auto dest: missed_step)

definition q_early :: query_state where
  "q_early = \<lparr>q_phase = Waiting, q_ready = False, q_answered = True\<rparr>"

lemma early_reachable: "query_step\<^sup>*\<^sup>* query_start q_early"
proof -
  let ?a = "query_start\<lparr>q_phase := ToArm\<rparr>" let ?b = "?a\<lparr>q_ready := True, q_answered := True\<rparr>"
  have "query_step query_start ?a" by (rule send) (simp add: query_start_def)
  moreover have "query_step ?a ?b" by (rule answer) (simp_all add: query_start_def)
  moreover have "query_step ?b (?b\<lparr>q_phase := Waiting, q_ready := False\<rparr>)" by (rule arm) simp
  moreover have "?b\<lparr>q_phase := Waiting, q_ready := False\<rparr> = q_early"
    by (simp add: q_early_def query_start_def)
  ultimately show ?thesis by (metis converse_rtranclp_into_rtranclp rtranclp.rtrancl_refl)
qed

text \<open>
  A wait reports a prompt only when the adapter answered. A wait that is
  armed after the answer came is reachable, and from it every run ends in a timeout: the prompt
  of a fast adapter is lost because the flag is cleared after the command is sent.
\<close>

theorem an_early_prompt_is_lost:
  "(\<forall>s. \<not> (query_step\<^sup>*\<^sup>* query_start s \<and> q_phase s = Ended True \<and> \<not> q_answered s))
   \<and> query_step\<^sup>*\<^sup>* query_start q_early
   \<and> (\<forall>t. \<not> (query_step\<^sup>*\<^sup>* q_early t \<and> q_phase t \<noteq> Waiting \<and> q_phase t \<noteq> Ended False))
   \<and> query_step q_early (q_early\<lparr>q_phase := Ended False\<rparr>)"
proof (intro conjI allI)
  show "\<not> (query_step\<^sup>*\<^sup>* query_start s \<and> q_phase s = Ended True \<and> \<not> q_answered s)" for s
    using query_inv_reach[of s] by (auto simp: query_inv_def)
  show "\<not> (query_step\<^sup>*\<^sup>* q_early t \<and> q_phase t \<noteq> Waiting \<and> q_phase t \<noteq> Ended False)" for t
    using missed_reach[of q_early t] by (auto simp: missed_def q_early_def)
  show "query_step q_early (q_early\<lparr>q_phase := Ended False\<rparr>)"
    by (rule expire) (simp_all add: q_early_def)
qed (rule early_reachable)

section \<open>Sequences of commands\<close>

lemma polling_prefix: "\<exists>n. fst (polling_cycle ps gs) = map (buildOBD2Query 0x01) (take n ps)"
proof (induction ps gs rule: polling_cycle.induct)
  case (3 p ps g gs)
  show ?case
  proof (cases g)
    case True
    then obtain n where "fst (polling_cycle ps gs) = map (buildOBD2Query 0x01) (take n ps)" using 3 by auto
    then have "fst (polling_cycle (p # ps) (g # gs)) = map (buildOBD2Query 0x01) (take (Suc n) (p # ps))"
      using True by (simp add: split_beta)
    then show ?thesis by blast
  qed (auto intro: exI[of _ 0])
qed (auto intro: exI[of _ 0])

text \<open>
  Whatever prompts time out, the initialisations send each command of
  their sequence once and in order, and report success; a polling cycle sends a prefix of the
  identifiers, battery voltage first.
\<close>

theorem every_command_is_sent_once:
  "snd (snd (initializeELM327 gs s)) = map fst buildInitSequence
   \<and> fst (initializeELM327 gs s)
   \<and> snd (snd (initializeForVINQuery gs s)) = map fst buildVINQueryInitSequence
   \<and> snd (snd (initializeOBD2WithDetection gs s)) = map fst buildInitSequence @ [buildOBD2Query 0x09 0x02]
   \<and> fst (initializeOBD2WithDetection gs s) = getResult detector_new
   \<and> (\<exists>n. fst (polling_cycle poll_pids gs) = map (buildOBD2Query 0x01) (take n [0x42, 0x04, 0x05, 0x11, 0x0D, 0x0C]))"
  using polling_prefix[of poll_pids gs]
  by (simp add: initializeELM327_def initializeForVINQuery_def initializeOBD2WithDetection_def split_beta
      send_sequence_facts detectVehicle_def detector_reset_def poll_pids_def)

end
