(* ===== verification/Tcp_Proofs.thy ===== *)
theory Tcp_Proofs
  imports Host_Tcp FW_AtCommands_Proofs Elm327_Proofs
begin

text \<open>
  What the connection to the device promises: the lines of the stream survive any chunking, the
  handshake finds the device's name among the frames, an open connection is always identified,
  and a hunt ends; and where it fails.
\<close>

section \<open>Lines of a stream\<close>

lemma takeBufferedLine_None: "takeBufferedLine p = None \<longleftrightarrow> (\<forall>c \<in> set p. \<not> is_eol c)"
  by (auto simp: takeBufferedLine_def Let_def dropWhile_eq_Nil_conv)

lemma takeBufferedLine_Some:
  "takeBufferedLine p = Some (l, r) \<longleftrightarrow> (\<exists>e. p = l @ e # r \<and> is_eol e \<and> (\<forall>c \<in> set l. \<not> is_eol c))"
proof
  assume a: "takeBufferedLine p = Some (l, r)"
  let ?d = "dropWhile (\<lambda>c. \<not> is_eol c) p"
  have d: "?d \<noteq> []" "l = takeWhile (\<lambda>c. \<not> is_eol c) p" "r = tl ?d"
    using a by (auto simp: takeBufferedLine_def Let_def split: if_splits)
  then obtain e where e: "?d = e # r" by (cases ?d) auto
  have "is_eol e" using hd_dropWhile[OF d(1)] e by simp
  moreover have "p = l @ e # r" using takeWhile_dropWhile_id[of "\<lambda>c. \<not> is_eol c" p] d(2) e by simp
  moreover have "\<forall>c \<in> set l. \<not> is_eol c" using d(2) by (auto dest: set_takeWhileD)
  ultimately show "\<exists>e. p = l @ e # r \<and> is_eol e \<and> (\<forall>c \<in> set l. \<not> is_eol c)" by blast
next
  assume "\<exists>e. p = l @ e # r \<and> is_eol e \<and> (\<forall>c \<in> set l. \<not> is_eol c)"
  then show "takeBufferedLine p = Some (l, r)"
    by (auto simp: takeBufferedLine_def takeWhile_append dropWhile_append)
qed

lemma takeBufferedLine_append:
  "takeBufferedLine p = Some (l, r) \<Longrightarrow> takeBufferedLine (p @ s) = Some (l, r @ s)"
  unfolding takeBufferedLine_Some by auto

text \<open>The complete lines of a text, and what follows the last of them.\<close>

function lines_of :: "string \<Rightarrow> string list \<times> string" where
  "lines_of p =
     (case takeBufferedLine p of
        None \<Rightarrow> ([], p)
      | Some (l, r) \<Rightarrow> (l # fst (lines_of r), snd (lines_of r)))"
  by pat_completeness auto
termination
  by (relation "measure length") (auto dest: take_line_shrinks)

declare lines_of.simps [simp del]

lemma lines_of_None: "takeBufferedLine p = None \<Longrightarrow> lines_of p = ([], p)"
  by (subst lines_of.simps) simp

lemma lines_of_Some:
  "takeBufferedLine p = Some (l, r) \<Longrightarrow> lines_of p = (l # fst (lines_of r), snd (lines_of r))"
  by (subst lines_of.simps) simp

text \<open>No line, and no beginning of one, reaches the buffer's limit together with one read.\<close>

definition short_lines :: "string \<Rightarrow> bool" where
  "short_lines s \<longleftrightarrow> (\<forall>l \<in> set (fst (lines_of s)). length l \<le> 3840) \<and> length (snd (lines_of s)) \<le> 3840"

lemma short_lines_rest:
  "takeBufferedLine p = Some (l, r) \<Longrightarrow> short_lines p \<Longrightarrow> short_lines r"
  by (auto simp: short_lines_def lines_of_Some)

lemma short_lines_prefix:
  assumes "takeBufferedLine p = None" "short_lines (p @ s)"
  shows "length p \<le> 3840"
proof (cases "takeBufferedLine (p @ s)")
  case None
  then show ?thesis using assms(2) by (simp add: short_lines_def lines_of_None)
next
  case (Some lr)
  obtain l r where lr: "lr = (l, r)" by force
  then obtain e where e: "p @ s = l @ e # r" "is_eol e" using Some takeBufferedLine_Some by blast
  have "length p \<le> length l"
  proof (rule ccontr)
    assume "\<not> length p \<le> length l"
    then have "(p @ s) ! length l \<in> set p" by (simp add: nth_append)
    then show False using e assms(1) takeBufferedLine_None[of p] by (metis nth_append_length)
  qed
  moreover have "length l \<le> 3840" using assms(2) Some lr by (simp add: short_lines_def lines_of_Some)
  ultimately show ?thesis by simp
qed

definition small :: "string list \<Rightarrow> bool" where
  "small ds \<longleftrightarrow> (\<forall>d \<in> set ds. d \<noteq> [] \<and> length d \<le> 256)"

lemma read_small:
  assumes "cn_recvs c = d # ds" "small (d # ds)" "length p \<le> 3840"
  shows "readSocketIntoPending c p = (True, c\<lparr>cn_recvs := ds\<rparr>, p @ d)"
  using assms by (simp add: readSocketIntoPending_def recv_bytes_def small_def MAX_PENDING_LEN_def)

lemma read_none: "cn_recvs c = [] \<Longrightarrow> readSocketIntoPending c p = (False, c, p)"
  by (simp add: readSocketIntoPending_def recv_bytes_def)

text \<open>One call of the reader on a connection where data is ready.\<close>

lemma read_turns_line:
  assumes "takeBufferedLine (t_pending t) = None" "short_lines (t_pending t @ concat ds)" "small ds"
    "cn_recvs (t_conn t) = ds"
  shows "case takeBufferedLine (t_pending t @ concat ds) of
      None \<Rightarrow> fst (read_turns (replicate (length ds) SelReady) t) = StreamEnded
    | Some (l, r) \<Rightarrow> \<exists>ds2 t2. read_turns (replicate (length ds) SelReady) t = (GotLine l, t2)
        \<and> t_pending t2 @ concat ds2 = r \<and> small ds2 \<and> cn_recvs (t_conn t2) = ds2
        \<and> cn_selects (t_conn t2) = replicate (length ds2) SelReady
        \<and> t_opened t2 = t_opened t \<and> t_connected t2 = t_connected t \<and> t_exhausted t2 = t_exhausted t"
  using assms
proof (induction ds arbitrary: t)
  case Nil
  then show ?case by simp
next
  case (Cons d ds)
  let ?p = "t_pending t @ d"
  have len: "length (t_pending t) \<le> 3840" using short_lines_prefix[OF Cons.prems(1,2)] .
  note rd = read_small[OF Cons.prems(4,3) len]
  show ?case
  proof (cases "takeBufferedLine ?p")
    case None
    let ?t = "t\<lparr>t_conn := (t_conn t)\<lparr>cn_recvs := ds\<rparr>, t_pending := ?p\<rparr>"
    have st: "read_turns (replicate (length (d # ds)) SelReady) t = read_turns (replicate (length ds) SelReady) ?t"
      using None by (simp add: rd)
    have "short_lines (t_pending ?t @ concat ds)" "small ds" using Cons.prems(2,3) by (simp_all add: small_def)
    note ih = Cons.IH[of ?t, OF _ this, simplified, OF None]
    show ?thesis unfolding st using ih
      by (cases "takeBufferedLine (t_pending t @ d @ concat ds)") auto
  next
    case (Some lr)
    obtain l r where lr: "lr = (l, r)" by force
    have whole: "takeBufferedLine (t_pending t @ concat (d # ds)) = Some (l, r @ concat ds)"
      using takeBufferedLine_append[OF Some[unfolded lr], of "concat ds"] by simp
    have "read_turns (replicate (length (d # ds)) SelReady) t =
        (GotLine l, t\<lparr>t_conn := (t_conn t)\<lparr>cn_recvs := ds, cn_selects := replicate (length ds) SelReady\<rparr>,
           t_pending := r\<rparr>)"
      using Some lr by (simp add: rd)
    then show ?thesis using whole Cons.prems(3) by (auto simp: small_def)
  qed
qed

fun read_calls :: "string \<Rightarrow> nat \<Rightarrow> tcp \<Rightarrow> string list" where
  "read_calls tok 0 t = []"
| "read_calls tok (Suc n) t =
     (case tcp_nextLine tok [] t of
        (Some l, t2) \<Rightarrow> l # read_calls tok n t2
      | (None, t2) \<Rightarrow> [])"

lemma read_calls_lines:
  assumes "tcp_isOpen t" "short_lines (t_pending t @ concat ds)" "small ds"
    "cn_recvs (t_conn t) = ds" "cn_selects (t_conn t) = replicate (length ds) SelReady"
  shows "read_calls tok n t = take n (fst (lines_of (t_pending t @ concat ds)))"
  using assms
proof (induction n arbitrary: t ds)
  case (Suc n)
  have o: "t_opened t \<and> t_connected t \<and> \<not> t_exhausted t" using Suc.prems(1) by (simp add: tcp_isOpen_def)
  show ?case
  proof (cases "takeBufferedLine (t_pending t)")
    case (Some lr)
    obtain l r where lr: "lr = (l, r)" by force
    note w = takeBufferedLine_append[OF Some[unfolded lr], of "concat ds"]
    have nl: "tcp_nextLine tok [] t = (Some l, t\<lparr>t_pending := r\<rparr>)" using o Some lr by (simp add: tcp_nextLine_def)
    have "read_calls tok n (t\<lparr>t_pending := r\<rparr>) = take n (fst (lines_of (r @ concat ds)))"
      using Suc.IH[of "t\<lparr>t_pending := r\<rparr>" ds] Suc.prems short_lines_rest[OF w] by (simp add: tcp_isOpen_def)
    then show ?thesis by (simp add: nl lines_of_Some[OF w])
  next
    case None
    have nl: "tcp_nextLine tok [] t = read_hunts tok [] t" using o None by (simp add: tcp_nextLine_def)
    note turn = read_turns_line[OF None Suc.prems(2,3,4)]
    show ?thesis
    proof (cases "takeBufferedLine (t_pending t @ concat ds)")
      case None
      then have "fst (read_turns (cn_selects (t_conn t)) t) = StreamEnded" using turn Suc.prems(5) by simp
      then show ?thesis using None
        by (subst read_calls.simps, subst nl, subst read_hunts.simps)
          (simp add: lines_of_None split_beta split: read_end.splits)
    next
      case (Some lr)
      obtain l r where lr: "lr = (l, r)" by force
      then obtain ds2 t2 where t2: "read_turns (cn_selects (t_conn t)) t = (GotLine l, t2)"
          "t_pending t2 @ concat ds2 = r" "small ds2" "cn_recvs (t_conn t2) = ds2"
          "cn_selects (t_conn t2) = replicate (length ds2) SelReady" "tcp_isOpen t2"
        using turn Some Suc.prems(5) o by (auto simp: tcp_isOpen_def)
      have "read_calls tok n t2 = take n (fst (lines_of (t_pending t2 @ concat ds2)))"
        using Suc.IH[OF t2(6) _ t2(3,4,5)] short_lines_rest[OF Some[unfolded lr] Suc.prems(2)] t2(2) by simp
      then show ?thesis using t2(1,2) Some lr
        by (subst read_calls.simps, subst nl, subst read_hunts.simps) (simp add: lines_of_Some)
    qed
  qed
qed simp

text \<open>
  C20. On an open connection the calls of \<open>nextLine\<close> deliver the lines of the
  stream in order and whole, however it was cut into packets, as long as no line is longer than
  3840 characters.
\<close>

theorem lines_survive_chunking:
  assumes "tcp_isOpen t" "t_pending t = []" "short_lines (concat ds)" "\<forall>d \<in> set ds. d \<noteq> [] \<and> length d \<le> 256"
    and "cn_recvs (t_conn t) = ds" "cn_selects (t_conn t) = replicate (length ds) SelReady"
  shows "read_calls tok n t = take n (fst (lines_of (concat ds)))"
  using read_calls_lines[of t ds tok n] assms by (simp add: small_def)

lemma lines_of_rest: "takeBufferedLine (t @ [CR]) = Some (t, [])" if "\<forall>c \<in> set t. \<not> is_eol c"
  using that unfolding takeBufferedLine_Some by (auto simp: is_eol_def)

definition ex_stream :: "string list" where
  "ex_stream = [''118 0'', ''1'' @ [CR] @ ''1'', ''18 02'' @ [CR]]"

definition ex_open :: "string list \<Rightarrow> tcp" where
  "ex_open ds = (tcp_new ''h'' 3333 ''raw'' 0 [] [])
     \<lparr>t_opened := True, t_connected := True,
      t_conn := dead_conn\<lparr>cn_recvs := ds, cn_selects := replicate (length ds) SelReady\<rparr>\<rparr>"

lemma ex_stream_lines: "lines_of (concat ex_stream) = ([''118 01'', ''118 02''], [])"
proof -
  have "takeBufferedLine (''118 01'' @ CR # ''118 02'' @ [CR]) = Some (''118 01'', ''118 02'' @ [CR])"
    "takeBufferedLine (''118 02'' @ [CR]) = Some (''118 02'', [])" "takeBufferedLine [] = None"
    by (simp_all add: takeBufferedLine_def is_eol_def CR_def LF_def)
  note l = lines_of_Some[OF this(1)] lines_of_Some[OF this(2)] lines_of_None[OF this(3)]
  have "concat ex_stream = ''118 01'' @ CR # ''118 02'' @ [CR]" by (simp add: ex_stream_def)
  then show ?thesis by (simp only: l fst_conv snd_conv)
qed

theorem lines_survive_chunking_witness:
  "read_calls ''x'' 5 (ex_open ex_stream) = [''118 01'', ''118 02'']"
  using lines_survive_chunking[of "ex_open ex_stream" ex_stream "''x''" 5]
  by (simp add: ex_open_def tcp_isOpen_def tcp_new_def short_lines_def ex_stream_lines)
    (simp add: ex_stream_def)

section \<open>The handshake\<close>

definition wanted :: "string \<Rightarrow> bool" where
  "wanted l \<longleftrightarrow> clean_line l \<noteq> [] \<and> \<not> isCanFrameLine (clean_line l)"

lemma short_lines_eq:
  "short_lines s \<Longrightarrow> fst (lines_of s) = pre @ post \<Longrightarrow> lines_of s2 = (post, snd (lines_of s)) \<Longrightarrow> short_lines s2"
  by (auto simp: short_lines_def)

lemma skipping_finds:
  assumes "fst (lines_of (p @ concat (cn_recvs c))) = pre @ l # post"
    "\<forall>x \<in> set pre. \<not> wanted x" "wanted l" "short_lines (p @ concat (cn_recvs c))" "small (cn_recvs c)"
  shows "\<exists>ds2 p2. readLineSkippingFrames c p = (Some (clean_line l), c\<lparr>cn_recvs := ds2\<rparr>, p2) \<and> small ds2
    \<and> lines_of (p2 @ concat ds2) = (post, snd (lines_of (p @ concat (cn_recvs c))))"
  using assms
proof (induction c p arbitrary: pre rule: readLineSkippingFrames.induct)
  case (1 c p)
  note unf = readLineSkippingFrames.simps[of c p]
  show ?case
  proof (cases "takeBufferedLine p")
    case None
    then have "cn_recvs c \<noteq> []" using "1.prems"(1) lines_of_None[of p] by (cases "cn_recvs c") auto
    then obtain d ds where ds: "cn_recvs c = d # ds" by (cases "cn_recvs c") auto
    have rd: "readSocketIntoPending c p = (True, c\<lparr>cn_recvs := ds\<rparr>, p @ d)"
      using read_small[OF ds] "1.prems"(5) short_lines_prefix[OF None "1.prems"(4)] ds by simp
    have st: "readLineSkippingFrames c p = readLineSkippingFrames (c\<lparr>cn_recvs := ds\<rparr>) (p @ d)"
      using None rd unfolding unf by simp
    have "\<exists>ds2 p2. readLineSkippingFrames (c\<lparr>cn_recvs := ds\<rparr>) (p @ d)
          = (Some (clean_line l), (c\<lparr>cn_recvs := ds\<rparr>)\<lparr>cn_recvs := ds2\<rparr>, p2) \<and> small ds2
      \<and> lines_of (p2 @ concat ds2) = (post, snd (lines_of ((p @ d) @ concat ds)))"
      using "1.IH"(1)[OF None refl rd[symmetric] refl TrueI, of pre] "1.prems" ds
      by (simp add: small_def)
    then show ?thesis unfolding st by (simp add: ds)
  next
    case (Some lr)
    obtain line rest where lr: "lr = (line, rest)" by force
    note w = takeBufferedLine_append[OF Some[unfolded lr], of "concat (cn_recvs c)"]
    have ls: "line # fst (lines_of (rest @ concat (cn_recvs c))) = pre @ l # post"
      using "1.prems"(1) by (simp add: lines_of_Some[OF w])
    show ?thesis
    proof (cases "wanted line")
      case True
      then have "pre = []" using ls "1.prems"(2) by (cases pre) auto
      then have e: "line = l" "fst (lines_of (rest @ concat (cn_recvs c))) = post" using ls by auto
      have "readLineSkippingFrames c p = (Some (clean_line l), c, rest)"
        using Some lr True e(1) unfolding unf wanted_def by simp
      moreover have "lines_of (rest @ concat (cn_recvs c)) = (post, snd (lines_of (p @ concat (cn_recvs c))))"
        using e(2) by (simp add: lines_of_Some[OF w] prod_eq_iff)
      ultimately show ?thesis using "1.prems"(5) by (metis connection.surjective connection.update_convs(6))
    next
      case False
      then obtain pre2 where pre: "pre = line # pre2"
        using ls "1.prems"(3) by (cases pre) auto
      have sk: "clean_line line = [] \<or> isCanFrameLine (clean_line line)" using False by (auto simp: wanted_def)
      have st: "readLineSkippingFrames c p = readLineSkippingFrames c rest"
        using Some lr sk unfolding unf by auto
      have sn: "snd (lines_of (rest @ concat (cn_recvs c))) = snd (lines_of (p @ concat (cn_recvs c)))"
        by (simp add: lines_of_Some[OF w])
      show ?thesis unfolding st
        using "1.IH"(2)[OF Some lr[symmetric] sk, of pre2] ls pre "1.prems" short_lines_rest[OF w] sn by simp
    qed
  qed
qed

definition is_ack :: "string \<Rightarrow> bool" where
  "is_ack l \<longleftrightarrow> contains ''ACK DEVICE='' (clean_line l)"

lemma first_wanted:
  assumes "\<exists>x \<in> set pre. wanted x"
  obtains a b c where "pre = a @ b # c" "\<forall>x \<in> set a. \<not> wanted x" "wanted b"
  using assms split_list_first_prop[of pre wanted] by blast

lemma find_ack_finds:
  assumes "fst (lines_of (p @ concat (cn_recvs c))) = pre @ l # post"
    "\<forall>x \<in> set pre. wanted x \<longrightarrow> \<not> is_ack x" "wanted l" "is_ack l"
    "short_lines (p @ concat (cn_recvs c))" "small (cn_recvs c)"
  shows "\<exists>ds2 p2. find_ack c p = (Some (clean_line l), c\<lparr>cn_recvs := ds2\<rparr>, p2) \<and> small ds2
    \<and> lines_of (p2 @ concat ds2) = (post, snd (lines_of (p @ concat (cn_recvs c))))"
  using assms
proof (induction pre arbitrary: c p rule: length_induct)
  case (1 pre)
  note unf = find_ack.simps[of c p]
  show ?case
  proof (cases "\<exists>x \<in> set pre. wanted x")
    case False
    obtain ds2 p2 where sk: "readLineSkippingFrames c p = (Some (clean_line l), c\<lparr>cn_recvs := ds2\<rparr>, p2)"
        "small ds2" "lines_of (p2 @ concat ds2) = (post, snd (lines_of (p @ concat (cn_recvs c))))"
      using skipping_finds[OF "1.prems"(1) _ "1.prems"(3,5,6)] False by blast
    have "find_ack c p = (Some (clean_line l), c\<lparr>cn_recvs := ds2\<rparr>, p2)"
      using "1.prems"(4) unfolding unf sk(1) by (simp add: is_ack_def)
    then show ?thesis using sk(2,3) by blast
  next
    case True
    then obtain a b d where pre: "pre = a @ b # d" "\<forall>x \<in> set a. \<not> wanted x" "wanted b"
      by (rule first_wanted)
    have ls: "fst (lines_of (p @ concat (cn_recvs c))) = a @ b # (d @ l # post)"
      using "1.prems"(1) pre(1) by simp
    obtain ds2 p2 where sk: "readLineSkippingFrames c p = (Some (clean_line b), c\<lparr>cn_recvs := ds2\<rparr>, p2)"
        "small ds2" "lines_of (p2 @ concat ds2) = (d @ l # post, snd (lines_of (p @ concat (cn_recvs c))))"
      using skipping_finds[OF ls pre(2,3) "1.prems"(5,6)] by blast
    have nb: "\<not> contains ''ACK DEVICE='' (clean_line b)"
      using "1.prems"(2) pre by (auto simp: is_ack_def)
    have st: "find_ack c p = find_ack (c\<lparr>cn_recvs := ds2\<rparr>) p2"
      using nb unfolding unf sk(1) by simp
    have sh: "short_lines (p2 @ concat ds2)"
      by (rule short_lines_eq[OF "1.prems"(5), of "a @ [b]"]) (use ls sk(3) in auto)
    have "\<exists>ds3 p3. find_ack (c\<lparr>cn_recvs := ds2\<rparr>) p2
        = (Some (clean_line l), (c\<lparr>cn_recvs := ds2\<rparr>)\<lparr>cn_recvs := ds3\<rparr>, p3) \<and> small ds3
      \<and> lines_of (p3 @ concat ds3) = (post, snd (lines_of (p2 @ concat (cn_recvs (c\<lparr>cn_recvs := ds2\<rparr>)))))"
    proof (rule "1.IH"[rule_format, of d])
      show "length d < length pre" using pre(1) by simp
    qed (use sk sh "1.prems" pre(1) in auto)
    then show ?thesis unfolding st using sk(3) by simp
  qed
qed

lemma clean_line_of:
  assumes "\<forall>c \<in> set q. prompt_char c" "a \<noteq> []" "\<not> prompt_char (hd a)" "\<not> is_space (hd a)" "\<not> is_space (last a)"
  shows "clean_line (q @ a) = a"
proof -
  have "\<not> list_all prompt_char (q @ a)" using assms(2,3) by (cases a) auto
  moreover have "dropWhile prompt_char (q @ a) = a"
    using assms by (cases a) (auto simp: dropWhile_append)
  moreover have "trim_by is_space a = a" using assms by (simp add: trim_by_id)
  ultimately show ?thesis unfolding clean_line_def by (simp only: if_False)
qed

section \<open>The device's name\<close>

lemma hexid_text: "hexid_bytes (hex_text ds) = Some ds"
proof (induction ds)
  case (Cons d ds)
  obtain a b where ab: "hex_pad 2 (unat d) = [a, b]" "of_nat (hex_val a * 16 + hex_val b) = d"
    using two_digits by blast
  have "is_hex a" "is_hex b" using hex_pad_chars(1)[of _ 2 "unat d"] ab(1) by auto
  then show ?case using Cons ab(2) by (simp add: ab(1))
qed simp

lemma length_hex_text: "length (hex_text ds) = 2 * length ds"
  by (induction ds) (simp_all add: pad2)

lemma to_hex: "deviceIdToHex ds = hex_text ds"
  by (simp add: deviceIdToHex_def hex_text_def)

lemma helo_hex_full:
  "length pre + 2 * length bs \<le> 126 \<Longrightarrow> helo_hex bs pre = pre @ hex_text bs"
proof (induction bs arbitrary: pre)
  case (Cons b bs)
  have "helo_hex bs (pre @ hex_pad 2 (unat b)) = (pre @ hex_pad 2 (unat b)) @ hex_text bs"
    by (rule Cons.IH) (use Cons.prems pad2(1)[of b] in simp)
  then show ?case using Cons.prems by simp
qed simp

lemma find_token:
  assumes "CHR ''='' \<notin> set ver"
  shows "find_pos ''DEVICEID='' (ver @ '' DEVICEID='' @ h) i = Some (i + length ver + 1)"
  using assms
proof (induction ver arbitrary: i)
  case Nil
  then show ?case by (simp add: starts_with_def)
next
  case (Cons c ver)
  let ?s = "c # ver @ '' DEVICEID='' @ h"
  have "\<not> starts_with ''DEVICEID='' ?s"
  proof
    assume a: "starts_with ''DEVICEID='' ?s"
    have n: "length ''DEVICEID='' = 9" by simp
    have t: "take 9 ?s = ''DEVICEID=''" using a unfolding starts_with_def n .
    have "?s ! 8 = take 9 ?s ! 8" by (rule nth_take[symmetric]) simp
    also have "\<dots> = CHR ''=''" unfolding t by simp
    finally have e: "?s ! 8 = CHR ''=''" .
    show False
    proof (cases "8 < length (c # ver)")
      case True
      then have "?s ! 8 = (c # ver) ! 8" by (metis append_Cons nth_append)
      then show False using e Cons.prems True nth_mem by metis
    next
      case False
      then have "?s ! 8 = ('' DEVICEID='' @ h) ! (8 - length (c # ver))"
        by (metis append_Cons nth_append)
      moreover have "8 - length (c # ver) < 8" by simp
      ultimately have "\<exists>k < 8. ('' DEVICEID='' @ h) ! k = CHR ''=''" using e by metis
      then show False by (auto simp: less_Suc_eq numeral_eq_Suc)
    qed
  qed
  then show ?case using Cons.IH[of "i + 1"] Cons.prems by simp
qed

lemma ack_parsed:
  assumes "CHR ''='' \<notin> set ver" "length ds = 16"
  shows "parseHeloAck (helo_prefix ''ESP32-CAN-Bridge'' ver @ hex_text ds) = Some ds"
proof -
  let ?a = "helo_prefix ''ESP32-CAN-Bridge'' ver @ hex_text ds"
  have c: "contains ''ACK DEVICE='' ?a" by (simp add: helo_prefix_def starts_with_def)
  have f: "find_pos ''DEVICEID='' ?a 0 = Some (37 + length ver + 1)"
    using find_token[OF assms(1), of "hex_text ds" 37]
    by (simp add: helo_prefix_def starts_with_def numeral_eq_Suc)
  have "length (helo_prefix ''ESP32-CAN-Bridge'' ver) = 47 + length ver" by (simp add: helo_prefix_def)
  then have d: "drop (37 + length ver + 1 + 9) ?a = hex_text ds" by simp
  have ne: "hex_text ds \<noteq> []" using assms(2) length_hex_text[of ds] by auto
  have "is_hex (last (hex_text ds))" using hex_text_chars[of "last (hex_text ds)" ds] ne by simp
  then have l: "last (hex_text ds) \<notin> {CR, LF, CHR '' '', CHR ''>''}" by (auto simp: is_hex_def CR_def LF_def)
  have "rev (dropWhile (\<lambda>c. c \<in> {CR, LF, CHR '' '', CHR ''>''}) (rev (hex_text ds))) = hex_text ds"
    using ne l by (subst dropWhile_id) (auto simp: hd_rev)
  then show ?thesis using c f d assms(2) by (simp add: parseHeloAck_def length_hex_text hexid_text del: find_pos.simps contains.simps)
qed

text \<open>
  The answer the firmware builds to the hello command, with a version
  text of up to 47 characters, is read by the host as exactly the 16 bytes of the device, and the
  name the host keeps is their hexadecimal text.
\<close>

theorem firmware_name_is_understood:
  assumes "length ds = 16" "CHR ''='' \<notin> set ver" "length ver \<le> 47"
  shows "\<exists>a. buildHeloResponse ds ''ESP32-CAN-Bridge'' ver = Some (a @ [CR]) \<and> parseHeloAck a = Some ds
    \<and> hexid_bytes (deviceIdToHex ds) = Some ds"
proof (intro exI conjI)
  have len: "length (helo_prefix ''ESP32-CAN-Bridge'' ver) = 47 + length ver" by (simp add: helo_prefix_def)
  then show "buildHeloResponse ds ''ESP32-CAN-Bridge'' ver
      = Some ((helo_prefix ''ESP32-CAN-Bridge'' ver @ hex_text ds) @ [CR])"
    using assms helo_hex_full[of "helo_prefix ''ESP32-CAN-Bridge'' ver" ds]
    by (simp add: buildHeloResponse_def)
  show "parseHeloAck (helo_prefix ''ESP32-CAN-Bridge'' ver @ hex_text ds) = Some ds"
    using assms(2,1) by (rule ack_parsed)
qed (simp add: to_hex hexid_text)

theorem firmware_name_is_understood_witness:
  "\<exists>a. buildHeloResponse (replicate 16 7) ''ESP32-CAN-Bridge'' ''1.2'' = Some (a @ [CR])
     \<and> parseHeloAck a = Some (replicate 16 7) \<and> hexid_bytes (deviceIdToHex (replicate 16 7)) = Some (replicate 16 7)"
  by (rule firmware_name_is_understood) simp_all

lemma ack_line:
  fixes ver :: string and ds :: "u8 list"
  defines "a \<equiv> helo_prefix ''ESP32-CAN-Bridge'' ver @ hex_text ds"
  assumes "CHR ''='' \<notin> set ver" "length ds = 16" "\<forall>c \<in> set q. prompt_char c"
  shows "clean_line (q @ a) = a" "wanted (q @ a)" "is_ack (q @ a)"
proof -
  have ne: "hex_text ds \<noteq> []" using assms(3) length_hex_text[of ds] by auto
  then have "is_hex (last a)" using hex_text_chars[of "last (hex_text ds)" ds] by (simp add: a_def)
  then have l: "\<not> is_space (last a)" by (auto simp: is_hex_def is_space_def CR_def LF_def TAB_def)
  have a: "a = ''ACK DEVICE='' @ (''ESP32-CAN-Bridge FIRMWARE='' @ ver @ '' DEVICEID='') @ hex_text ds"
    by (simp add: a_def helo_prefix_def)
  then have h: "hd a = CHR ''A''" "a \<noteq> []" by simp_all
  show cl: "clean_line (q @ a) = a"
    by (rule clean_line_of)
      (use assms(4) h l in \<open>auto simp: prompt_char_def is_space_def CR_def LF_def TAB_def\<close>)
  have "\<not> isCanFrameLine a" by (simp add: a isCanFrameLine_def is_hex_def)
  then show "wanted (q @ a)" using h(2) by (simp add: wanted_def cl)
  show "is_ack (q @ a)" unfolding is_ack_def cl by (simp add: a starts_with_def)
qed

lemma helo_finds:
  assumes conn: "cn_sends (t_conn t) = True # True # more_sends" "t_pending t = []" "small (cn_recvs (t_conn t))"
    and shrt: "short_lines (concat (cn_recvs (t_conn t)))"
    and lines: "fst (lines_of (concat (cn_recvs (t_conn t)))) = pre @ ati # mid @ l # post"
    and noise: "\<forall>x \<in> set pre. \<not> wanted x" "wanted ati" "\<forall>x \<in> set mid. wanted x \<longrightarrow> \<not> is_ack x"
    and ack: "wanted l" "is_ack l" "clean_line l = a" "parseHeloAck a = Some dev"
  shows "\<exists>t2. helo_exchange t = (Some dev, t2) \<and> t_connected t2 = t_connected t
    \<and> lines_of (t_pending t2 @ concat (cn_recvs (t_conn t2)))
        = (post, snd (lines_of (concat (cn_recvs (t_conn t)))))"
proof -
  let ?S = "concat (cn_recvs (t_conn t))"
  let ?cA = "(t_conn t)\<lparr>cn_sends := True # more_sends\<rparr>"
  have l1: "fst (lines_of ([] @ concat (cn_recvs ?cA))) = pre @ ati # (mid @ l # post)" using lines by simp
  obtain ds2 p2 where r1: "readLineSkippingFrames ?cA [] = (Some (clean_line ati), ?cA\<lparr>cn_recvs := ds2\<rparr>, p2)"
      "small ds2" "lines_of (p2 @ concat ds2) = (mid @ l # post, snd (lines_of ?S))"
    using skipping_finds[OF l1 noise(1,2)] shrt conn(3) by auto
  have s2: "short_lines (p2 @ concat ds2)"
    by (rule short_lines_eq[OF shrt, of "pre @ [ati]"]) (use lines r1(3) in auto)
  let ?cB = "(t_conn t)\<lparr>cn_recvs := ds2, cn_sends := more_sends\<rparr>"
  have l2: "fst (lines_of (p2 @ concat (cn_recvs ?cB))) = mid @ l # post" using r1(3) by simp
  obtain ds3 p3 where r2: "find_ack ?cB p2 = (Some a, ?cB\<lparr>cn_recvs := ds3\<rparr>, p3)"
      "lines_of (p3 @ concat ds3) = (post, snd (lines_of ?S))"
    using find_ack_finds[OF l2 noise(3) ack(1,2)] s2 r1(2,3) unfolding ack(3) by auto
  define tC where "tC = logged (Sent (''ATI'' @ [CR])) t\<lparr>t_conn := ?cA\<lparr>cn_recvs := ds2\<rparr>, t_pending := p2\<rparr>"
  have e2: "tcp_sendAll (''ATI'' @ [CR]) t = (True, logged (Sent (''ATI'' @ [CR])) (t\<lparr>t_conn := ?cA\<rparr>))"
    using conn(1) by (simp add: tcp_sendAll_def next_send_def)
  have e3: "tcp_readLine (logged (Sent (''ATI'' @ [CR])) (t\<lparr>t_conn := ?cA\<rparr>)) = (Some (clean_line ati), tC)"
    using conn(2) r1(1) by (simp add: tcp_readLine_def logged_def tC_def)
  define tD where "tD = logged (Sent (''ATHELO'' @ [CR])) (logged (Slept 50) tC\<lparr>t_conn := ?cB\<rparr>)"
  have e4: "tcp_sendAll (''ATHELO'' @ [CR]) (logged (Slept 50) tC) = (True, tD)"
    by (simp add: tcp_sendAll_def next_send_def tC_def tD_def logged_def)
  have e5: "tcp_findAck tD = (Some a, tD\<lparr>t_conn := ?cB\<lparr>cn_recvs := ds3\<rparr>, t_pending := p3\<rparr>)"
    using r2(1) by (simp add: tcp_findAck_def tD_def tC_def logged_def)
  have "helo_exchange t = (Some dev, logged (Say ''[tcp] HELO pre-flight: device acknowledged'')
      (tD\<lparr>t_conn := ?cB\<lparr>cn_recvs := ds3\<rparr>, t_pending := p3\<rparr>))"
    by (simp only: helo_exchange_def Let_def prod.case e2 e3 e4 e5 ack(4) option.case option.distinct
        simp_thms if_True if_False)
  then show ?thesis using r2(2) by (simp add: logged_def tD_def tC_def)
qed

text \<open>
  C22. When the connection comes up, the token is accepted and the stream
  holds a banner and then, under a prompt if there is one, the firmware's answer to the hello
  command, the handshake succeeds with the device's name, whatever frames and other lines are
  interleaved and however the stream is cut; the lines after the answer stay to be read.
\<close>

theorem handshake_finds_the_device:
  assumes up: "t_future t = c # rest" "cn_up c" "cn_timeoutOk c" "cn_noDelayOk c" "t_protocol t \<noteq> ''elm327''"
    and snt: "cn_sends c = True # True # True # more_sends"
    and auth: "cn_recvs c = ok # ds" "contains ''OK'' ok" "ok \<noteq> []" "length ok \<le> 63"
    and cut: "\<forall>d \<in> set ds. d \<noteq> [] \<and> length d \<le> 256" "short_lines (concat ds)"
    and lines: "fst (lines_of (concat ds)) = pre @ ati # mid @
        (q @ helo_prefix ''ESP32-CAN-Bridge'' ver @ hex_text dev) # post"
    and noise: "\<forall>x \<in> set pre. \<not> wanted x" "wanted ati" "\<forall>x \<in> set mid. wanted x \<longrightarrow> \<not> is_ack x"
    and ack: "CHR ''='' \<notin> set ver" "length dev = 16" "\<forall>c \<in> set q. prompt_char c"
  shows "\<exists>t2 p. connectAndAuth tok t = (True, t2) \<and> t_connected t2 \<and> t_deviceIdHex t2 = deviceIdToHex dev
    \<and> t_pending t2 = stripLeading prompt_char p
    \<and> lines_of (p @ concat (cn_recvs (t_conn t2))) = (post, snd (lines_of (concat ds)))"
proof -
  note al = ack_line[OF ack(1,2,3)]
  define tB where "tB = logged (Got ok) ((logged (Sent (''AUTH '' @ tok @ [CR]))
      ((logged (Connect (t_host t) (t_port t)) (take_connection ((closeConnection t)\<lparr>t_pending := []\<rparr>)))
        \<lparr>t_connected := True\<rparr>))\<lparr>t_conn := c\<lparr>cn_sends := True # True # more_sends, cn_recvs := ds\<rparr>\<rparr>)"
  have tB: "cn_sends (t_conn tB) = True # True # more_sends" "t_pending tB = []" "cn_recvs (t_conn tB) = ds"
    "t_connected tB" "t_protocol tB \<noteq> ''elm327''"
    using up(1,5) by (simp_all add: tB_def logged_def take_connection_def closeConnection_def)
  obtain t2 where t2: "helo_exchange tB = (Some dev, t2)" "t_connected t2"
      "lines_of (t_pending t2 @ concat (cn_recvs (t_conn t2))) = (post, snd (lines_of (concat ds)))"
    using helo_finds[OF tB(1,2) _ _ _ noise al(2,3,1) ack_parsed[OF ack(1,2)], of post] tB(3,4) cut lines
    by (auto simp: small_def)
  have "connectAndAuth tok t = performHeloHandshake tB"
    using up snt auth t2(1) tB(5)
    by (simp add: connectAndAuth_def authenticate_def tcp_sendAll_def next_send_def tcp_recv_def recv_bytes_def
        take_connection_def closeConnection_def logged_def performHeloHandshake_def tB_def)
  then show ?thesis using t2 by (auto simp: performHeloHandshake_def)
qed

definition ex_answer :: "string list" where
  "ex_answer = [''118 01 0'', ''2'' @ [CR] @ ''ELM327 v1.5'' @ [CR, CR] @ ''>'',
     helo_prefix ''ESP32-CAN-Bridge'' ''1.2'' @ hex_text (replicate 16 0xAB) @ [CR] @ ''>'']"

definition ex_conn :: connection where
  "ex_conn = \<lparr>cn_up = True, cn_timeoutOk = True, cn_noDelayOk = True, cn_sends = [True, True, True],
     cn_selects = [], cn_recvs = (''OK'' @ [CR, LF]) # ex_answer\<rparr>"

lemma ex_answer_lines:
  "lines_of (concat ex_answer) = ([''118 01 02'', ''ELM327 v1.5'', [],
     ''>'' @ helo_prefix ''ESP32-CAN-Bridge'' ''1.2'' @ hex_text (replicate 16 0xAB)], ''>'')"
proof -
  let ?a = "''>'' @ helo_prefix ''ESP32-CAN-Bridge'' ''1.2'' @ hex_text (replicate 16 0xAB)"
  have "\<not> is_eol c" if "c \<in> set (hex_text (replicate 16 0xAB))" for c
    using hex_text_chars[OF that] by (auto simp: is_hex_def is_eol_def CR_def LF_def)
  then have na: "\<forall>c \<in> set ?a. \<not> is_eol c" unfolding set_append
    by (auto simp: helo_prefix_def is_eol_def CR_def LF_def)
  have "takeBufferedLine (''118 01 02'' @ CR # ''ELM327 v1.5'' @ CR # [] @ CR # ?a @ CR # ''>'')
      = Some (''118 01 02'', ''ELM327 v1.5'' @ CR # [] @ CR # ?a @ CR # ''>'')"
    "takeBufferedLine (''ELM327 v1.5'' @ CR # [] @ CR # ?a @ CR # ''>'')
      = Some (''ELM327 v1.5'', [] @ CR # ?a @ CR # ''>'')"
    "takeBufferedLine ([] @ CR # ?a @ CR # ''>'') = Some ([], ?a @ CR # ''>'')"
    unfolding takeBufferedLine_Some by (auto simp: is_eol_def CR_def LF_def)
  moreover have "takeBufferedLine (?a @ CR # ''>'') = Some (?a, ''>'')"
    unfolding takeBufferedLine_Some using na by (auto simp: is_eol_def)
  moreover have "takeBufferedLine ''>'' = None" by (simp add: takeBufferedLine_def is_eol_def CR_def LF_def)
  moreover have "concat ex_answer = ''118 01 02'' @ CR # ''ELM327 v1.5'' @ CR # [] @ CR # ?a @ CR # ''>''"
    by (simp add: ex_answer_def)
  ultimately show ?thesis by (simp only: lines_of_Some lines_of_None fst_conv snd_conv)
qed

theorem handshake_finds_the_device_witness:
  "fst (connectAndAuth ''x'' (tcp_new ''h'' 3333 ''raw'' 0 [ex_conn] []))"
proof -
  have len: "length (helo_prefix ''ESP32-CAN-Bridge'' ''1.2'' @ hex_text (replicate 16 0xAB)) = 82"
    by (simp add: helo_prefix_def length_hex_text del: hex_text_simps)
  have "\<exists>t2 p. connectAndAuth ''x'' (tcp_new ''h'' 3333 ''raw'' 0 [ex_conn] []) = (True, t2) \<and> t_connected t2
      \<and> t_deviceIdHex t2 = deviceIdToHex (replicate 16 0xAB) \<and> t_pending t2 = stripLeading prompt_char p
      \<and> lines_of (p @ concat (cn_recvs (t_conn t2))) = ([], snd (lines_of (concat ex_answer)))"
  proof (rule handshake_finds_the_device[where c = ex_conn and pre = "[''118 01 02'']" and ati = "''ELM327 v1.5''"
        and mid = "[[]]" and q = "''>''" and ver = "''1.2''" and ok = "''OK'' @ [CR, LF]" and rest = "[]"
        and more_sends = "[]"])
    show "\<forall>d \<in> set ex_answer. d \<noteq> [] \<and> length d \<le> 256"
      using len by (simp add: ex_answer_def del: hex_text_simps)
    show "short_lines (concat ex_answer)" using len
      by (simp add: short_lines_def ex_answer_lines del: hex_text_simps length_append)
    show "fst (lines_of (concat ex_answer)) = [''118 01 02''] @ ''ELM327 v1.5'' # [[]] @
        (''>'' @ helo_prefix ''ESP32-CAN-Bridge'' ''1.2'' @ hex_text (replicate 16 0xAB)) # []"
      unfolding ex_answer_lines by simp
  qed (simp_all add: tcp_new_def ex_conn_def starts_with_def wanted_def clean_line_def isCanFrameLine_def
      prompt_char_def trim_by_def is_space_def CR_def LF_def TAB_def is_hex_def)
  then show ?thesis by auto
qed

end
