(* ===== verification/Tcp_Hunt_Proofs.thy ===== *)
theory Tcp_Hunt_Proofs
  imports Tcp_Proofs
begin

text \<open>
  Safety of the connection under every sequence of operations, the length of a hunt, and the
  faults of reopening and of the keepalive.
\<close>

section \<open>Nothing is sent before the token\<close>

text \<open>
  What may happen on a link, read off the history of the transport. A fresh link may carry the token and
  nothing else; then nothing until the peer's answer; and only an answer with \<open>OK\<close> in it opens the
  link for anything more. \<open>NoLink\<close> is no connection, or one that must not be used again.
\<close>

datatype link_state = NoLink | FreshLink | AuthSent | Accepted

fun scan_event :: "string \<Rightarrow> link_state option \<Rightarrow> tcp_event \<Rightarrow> link_state option" where
  "scan_event tok (Some s) (Connect h p) = Some FreshLink"
| "scan_event tok (Some s) Closed = Some NoLink"
| "scan_event tok (Some FreshLink) (Sent d) = (if d = ''AUTH '' @ tok @ [CR] then Some AuthSent else None)"
| "scan_event tok (Some AuthSent) (Sent d) = None"
| "scan_event tok (Some AuthSent) (Got r) = Some (if contains ''OK'' r then Accepted else NoLink)"
| "scan_event tok (Some NoLink) (Sent d) = None"
| "scan_event tok (Some s) e = Some s"
| "scan_event tok None e = None"

definition scan_log :: "string \<Rightarrow> tcp \<Rightarrow> link_state option" where
  "scan_log tok t = foldl (scan_event tok) (Some NoLink) (t_log t)"

lemma scan_logged [simp]: "scan_log tok (logged e t) = scan_event tok (scan_log tok t) e"
  by (simp add: scan_log_def logged_def)

lemma logged_fields [simp]:
  "t_connected (logged e t) = t_connected t" "t_deviceIdHex (logged e t) = t_deviceIdHex t"
  "t_future (logged e t) = t_future t" "t_conn (logged e t) = t_conn t" "t_pending (logged e t) = t_pending t"
  "t_host (logged e t) = t_host t" "t_retryCount (logged e t) = t_retryCount t" "t_seen (logged e t) = t_seen t"
  "t_stops (logged e t) = t_stops t" "t_opened (logged e t) = t_opened t" "t_exhausted (logged e t) = t_exhausted t"
  "t_protocol (logged e t) = t_protocol t" "t_log (logged e t) = t_log t @ [e]" "t_port (logged e t) = t_port t"
  by (simp_all add: logged_def)

text \<open>Up and accepted, or down; the log never shows bytes on a connection that has not been accepted or on none.\<close>

definition live :: "string \<Rightarrow> tcp \<Rightarrow> bool" where
  "live tok t \<longleftrightarrow> t_connected t \<and> scan_log tok t = Some Accepted"

definition down :: "string \<Rightarrow> tcp \<Rightarrow> bool" where
  "down tok t \<longleftrightarrow> \<not> t_connected t \<and> scan_log tok t \<noteq> None"

definition good_id :: "string \<Rightarrow> bool" where
  "good_id i \<longleftrightarrow> length i = 32 \<and> list_all is_hex i"

definition tcp_ok :: "string \<Rightarrow> tcp \<Rightarrow> bool" where
  "tcp_ok tok t \<longleftrightarrow> (live tok t \<and> good_id (t_deviceIdHex t)) \<or> down tok t"

lemma scan_neutral [simp]:
  "scan_event tok s (Say m) = s" "scan_event tok s (Complain m) = s" "scan_event tok s (Slept n) = s"
  by (cases s; simp; case_tac a; simp)+

lemma scan_closed [simp]: "scan_event tok s Closed = None \<longleftrightarrow> s = None"
  by (cases s; simp; case_tac a; simp)

lemma close_down: "scan_log tok t \<noteq> None \<Longrightarrow> down tok (closeConnection t)"
  by (simp add: down_def closeConnection_def) (simp add: scan_log_def)

lemma live_logged: "live tok t \<Longrightarrow> live tok (logged (Say m) t)" "live tok t \<Longrightarrow> live tok (logged (Complain m) t)"
  "live tok t \<Longrightarrow> live tok (logged (Slept n) t)"
  by (simp_all add: live_def)

lemma down_logged: "down tok t \<Longrightarrow> down tok (logged (Say m) t)" "down tok t \<Longrightarrow> down tok (logged (Complain m) t)"
  "down tok t \<Longrightarrow> down tok (logged (Slept n) t)"
  by (simp_all add: down_def)

lemma fst_give_up [simp]: "fst (give_up m t) = False"
  by (simp add: give_up_def)

lemma give_up_scanned: "scan_log tok t \<noteq> None \<Longrightarrow> down tok (snd (give_up m t))"
proof -
  assume "scan_log tok t \<noteq> None"
  then have "scan_log tok (logged (Complain m) t) \<noteq> None" by simp
  then show ?thesis by (simp add: give_up_def close_down)
qed

lemma give_up_down: "live tok t \<or> down tok t \<Longrightarrow> down tok (snd (give_up m t))"
  by (rule give_up_scanned) (auto simp: live_def down_def)

lemma live_frame: "live tok t \<Longrightarrow> t_connected u = t_connected t \<Longrightarrow> t_log u = t_log t \<Longrightarrow> live tok u"
  by (simp add: live_def scan_log_def)

lemma send_live: "live tok t \<Longrightarrow> live tok (snd (tcp_sendAll d t))"
  by (simp add: live_def tcp_sendAll_def split_beta) (simp add: scan_log_def)

lemma recv_live: "live tok t \<Longrightarrow> live tok (snd (tcp_recv k t))"
  by (simp add: live_def tcp_recv_def split_beta) (simp add: scan_log_def)

lemma select_live: "live tok t \<Longrightarrow> live tok (snd (tcp_select t))"
  by (erule live_frame) (simp_all add: tcp_select_def split_beta)

lemma readLine_live: "live tok t \<Longrightarrow> live tok (snd (tcp_readLine t))"
  by (erule live_frame) (simp_all add: tcp_readLine_def split_beta)

lemma findAck_live: "live tok t \<Longrightarrow> live tok (snd (tcp_findAck t))"
  by (erule live_frame) (simp_all add: tcp_findAck_def split_beta)

lemma init_live: "live tok t \<Longrightarrow> live tok (snd (init_commands cs t))"
proof (induction cs arbitrary: t)
  case (Cons x cs)
  obtain cmd d where x: "x = (cmd, d)" by force
  let ?t1 = "snd (tcp_sendAll cmd t)"
  let ?t2 = "snd (tcp_select ?t1)"
  let ?r = "if fst (tcp_select ?t1) = SelReady then tcp_recv 255 ?t2 else ([CHR ''?''], ?t2)"
  have l1: "live tok ?t1" using Cons.prems by (rule send_live)
  have l3: "live tok (snd ?r)" using recv_live[OF select_live[OF l1]] select_live[OF l1] by simp
  have l4: "live tok (snd (init_commands cs (logged (Slept n) (snd ?r))))" for n
    by (rule Cons.IH) (rule live_logged(3)[OF l3])
  show ?case using l1 l3 l4 by (simp add: x Let_def split_beta live_logged del: scan_neutral)
qed simp

lemma hexid_length: "hexid_bytes h = Some ds \<Longrightarrow> length h = 2 * length ds"
  by (induction h arbitrary: ds rule: hexid_bytes.induct) (auto split: if_splits)

lemma parseHeloAck_length: "parseHeloAck a = Some ds \<Longrightarrow> length ds = 16"
  by (auto simp: parseHeloAck_def Let_def split: if_splits option.splits dest: hexid_length)

lemma helo_live:
  assumes "live tok t" "helo_exchange t = (r, u)"
  shows "case r of None \<Rightarrow> down tok u | Some ds \<Rightarrow> live tok u \<and> length ds = 16"
proof -
  let ?t1 = "snd (tcp_sendAll (''ATI'' @ [CR]) t)"
  let ?t2 = "snd (tcp_readLine ?t1)"
  let ?t3 = "snd (tcp_sendAll (''ATHELO'' @ [CR]) (logged (Slept 50) ?t2))"
  let ?t4 = "snd (tcp_findAck ?t3)"
  have l: "live tok ?t1" "live tok ?t2" "live tok ?t3" "live tok ?t4"
    using assms(1) by (blast intro: send_live readLine_live findAck_live live_logged)+
  have d: "down tok (snd (give_up m ?t1))" "down tok (snd (give_up m ?t2))" "down tok (snd (give_up m ?t3))"
    "down tok (snd (give_up m ?t4))" "down tok (closeConnection ?t4)" for m
    using l by (auto intro: give_up_down close_down simp: live_def)
  show ?thesis using assms(2) l d
    by (auto simp: helo_exchange_def Let_def split_beta live_logged dest: parseHeloAck_length
        split: if_splits option.splits prod.splits)
qed

lemma helo_keeps_id: "t_deviceIdHex (snd (helo_exchange t)) = t_deviceIdHex t"
  by (auto simp: helo_exchange_def Let_def split_beta give_up_def closeConnection_def tcp_sendAll_def
      tcp_readLine_def tcp_findAck_def split: option.splits prod.splits)

lemma good_id_text: "length ds = 16 \<Longrightarrow> good_id (deviceIdToHex ds)"
  using hex_text_chars by (auto simp: good_id_def to_hex length_hex_text list_all_iff)

lemma handshake_ok:
  assumes "live tok t"
  shows "if fst (performHeloHandshake t) then live tok (snd (performHeloHandshake t))
      \<and> good_id (t_deviceIdHex (snd (performHeloHandshake t))) else down tok (snd (performHeloHandshake t))"
proof -
  obtain r u where r: "helo_exchange t = (r, u)" by force
  show ?thesis using helo_live[OF assms r]
    by (cases r) (auto simp: performHeloHandshake_def r good_id_text intro: live_frame)
qed

lemma auth_ok:
  assumes "t_connected t" "scan_log tok t = Some FreshLink"
  shows "if fst (authenticate tok t) then live tok (snd (authenticate tok t)) else down tok (snd (authenticate tok t))"
proof -
  let ?t1 = "snd (tcp_sendAll (''AUTH '' @ tok @ [CR]) t)"
  let ?r = "tcp_recv 63 ?t1"
  have sent: "t_connected ?t1" "scan_log tok ?t1 = Some AuthSent"
    using assms by (simp_all add: tcp_sendAll_def split_beta) (simp add: scan_log_def)
  have got: "t_connected (snd ?r)"
    "scan_log tok (snd ?r) = Some (if contains ''OK'' (fst ?r) then Accepted else NoLink)"
    using sent by (simp_all add: tcp_recv_def split_beta) (simp add: scan_log_def)
  have "contains ''OK'' (fst ?r) \<Longrightarrow> live tok (snd ?r)" using got by (simp add: live_def)
  moreover have "fst ?r = [] \<Longrightarrow> \<not> contains ''OK'' (fst ?r)" by simp
  ultimately show ?thesis using sent got
    by (auto simp: authenticate_def Let_def split_beta intro!: give_up_scanned)
qed

lemma connect_ok:
  assumes "scan_log tok t \<noteq> None"
  shows "if fst (connectAndAuth tok t) then live tok (snd (connectAndAuth tok t))
      \<and> good_id (t_deviceIdHex (snd (connectAndAuth tok t))) else down tok (snd (connectAndAuth tok t))"
proof -
  let ?t1 = "logged (Connect (t_host t) (t_port t)) (take_connection ((closeConnection t)\<lparr>t_pending := []\<rparr>))"
  have lg: "t_log ?t1 = t_log t @ [Closed, Connect (t_host t) (t_port t)]"
    by (cases "t_future t") (simp_all add: take_connection_def closeConnection_def)
  obtain s where s: "scan_log tok t = Some s" using assms by auto
  have sc: "scan_log tok ?t1 = Some FreshLink"
    using s by (cases s) (simp_all add: scan_log_def lg del: logged_fields)
  have nc: "\<not> t_connected ?t1"
    by (cases "t_future t") (simp_all add: take_connection_def closeConnection_def)
  let ?t2 = "?t1\<lparr>t_connected := True\<rparr>"
  have s2: "t_connected ?t2" "scan_log tok ?t2 = Some FreshLink" using sc by (simp_all add: scan_log_def)
  have g: "down tok (snd (give_up m ?t2))" for m
    using s2(2) by (auto simp: give_up_def intro!: close_down)
  define t1 where "t1 = ?t1"
  define t2 where "t2 = ?t2"
  define A where "A = authenticate tok t2"
  define P where "P = (if t_protocol (snd A) = ''elm327'' then sendElm327Init (snd A) else (True, snd A))"
  define H where "H = performHeloHandshake (snd P)"
  obtain m1 m2 m3 m4 m5 where "connectAndAuth tok t =
     (if \<not> cn_up (t_conn ?t1) then (False, logged (Complain m1) ?t1)
      else if \<not> cn_timeoutOk (t_conn ?t2) then give_up m2 ?t2
      else if \<not> cn_noDelayOk (t_conn ?t2) then give_up m3 ?t2
      else if \<not> fst A then (False, snd A)
      else if \<not> fst P then give_up m4 (snd P)
      else if \<not> fst H then give_up m5 (snd H) else (True, snd H))"
    unfolding connectAndAuth_def Let_def split_beta A_def P_def H_def t2_def by blast
  note eq = this[folded t1_def t2_def]
  have n1: "down tok (logged (Complain m) t1)" for m using nc sc by (simp add: t1_def down_def)
  have a: "if fst A then live tok (snd A) else down tok (snd A)" unfolding A_def t2_def by (rule auth_ok[OF s2])
  have l: "live tok (snd P)" if "fst A" using a that by (simp add: P_def sendElm327Init_def init_live)
  have h: "if fst H then live tok (snd H) \<and> good_id (t_deviceIdHex (snd H)) else down tok (snd H)" if "fst A"
    unfolding H_def by (rule handshake_ok[OF l[OF that]])
  have g4: "down tok (snd (give_up m (snd P)))" if "fst A" for m using l[OF that] by (blast intro: give_up_down)
  have g5: "down tok (snd (give_up m (snd H)))" if "fst A" "\<not> fst H" for m
    using h that by (intro give_up_down) simp
  show ?thesis
    using a g[folded t2_def] n1 h g4 g5 unfolding eq by (simp split: if_split)
qed

lemma down_scan: "down tok t \<Longrightarrow> scan_log tok t \<noteq> None" and live_scan: "live tok t \<Longrightarrow> scan_log tok t \<noteq> None"
  by (simp_all add: down_def live_def)

lemma ok_scan: "tcp_ok tok t \<Longrightarrow> scan_log tok t \<noteq> None"
  unfolding tcp_ok_def using down_scan live_scan by blast

lemma connect_tcp_ok: "tcp_ok tok t \<Longrightarrow> tcp_ok tok (snd (connectAndAuth tok t))"
  using connect_ok[OF ok_scan, of tok t] by (auto simp: tcp_ok_def split: if_splits)

text \<open>The invariant looks at four fields; changes of the others keep it.\<close>

lemma tcp_ok_frame:
  "tcp_ok tok t \<Longrightarrow> t_connected u = t_connected t \<Longrightarrow> t_log u = t_log t \<Longrightarrow> t_deviceIdHex u = t_deviceIdHex t
    \<Longrightarrow> tcp_ok tok u"
  by (auto simp: tcp_ok_def live_def down_def scan_log_def)

lemma tcp_ok_logged:
  "tcp_ok tok t \<Longrightarrow> tcp_ok tok (logged (Say m) t)" "tcp_ok tok t \<Longrightarrow> tcp_ok tok (logged (Complain m) t)"
  "tcp_ok tok t \<Longrightarrow> tcp_ok tok (logged (Slept n) t)"
  by (auto simp: tcp_ok_def live_logged down_logged)

lemma stop_ok: "tcp_ok tok t \<Longrightarrow> tcp_ok tok (snd (stop_requested t))"
  by (erule tcp_ok_frame) (simp_all add: stop_requested_def split: list.splits)

lemma flag_ok: "tcp_ok tok t \<Longrightarrow> tcp_ok tok (snd (flag_seen ip t))"
  by (erule tcp_ok_frame) (simp_all add: flag_seen_def split: list.splits)

lemma found_ok: "tcp_ok tok t \<Longrightarrow> tcp_ok tok (snd (found_or_stop ip t))"
  by (auto simp: found_or_stop_def Let_def split_beta intro: flag_ok stop_ok)

lemma count_ok: "tcp_ok tok t \<Longrightarrow> tcp_ok tok (t\<lparr>t_retryCount := n\<rparr>)" "tcp_ok tok t \<Longrightarrow> tcp_ok tok (t\<lparr>t_exhausted := b\<rparr>)"
  "tcp_ok tok t \<Longrightarrow> tcp_ok tok (t\<lparr>t_host := h\<rparr>)" "tcp_ok tok t \<Longrightarrow> tcp_ok tok (t\<lparr>t_seen := l, t_retryCount := n\<rparr>)"
  by (erule tcp_ok_frame; simp)+

lemmas ok_intros = tcp_ok_logged connect_tcp_ok found_ok flag_ok stop_ok count_ok

lemma rapid_ok: "tcp_ok tok t \<Longrightarrow> tcp_ok tok (snd (rapid_attempts tok ip n k t))"
proof (induction k arbitrary: n t)
  case (Suc k)
  let ?t1 = "snd (found_or_stop ip t)"
  let ?r = "if 0 < n then found_or_stop ip (logged (Slept RAPID_RETRY_DELAY_MS) ?t1) else (False, ?t1)"
  have t1: "tcp_ok tok ?t1" using Suc.prems by (rule found_ok)
  have t2: "tcp_ok tok (snd ?r)" using t1 by (auto intro: ok_intros)
  have t3: "tcp_ok tok (snd (connectAndAuth tok (logged (Complain m) (snd ?r))))" for m
    using t2 by (intro ok_intros)
  show ?case using t1 t2 t3 Suc.IH
    by (simp add: Let_def split_beta ok_intros del: logged_fields)
qed simp

lemma pause_ok: "tcp_ok tok t \<Longrightarrow> tcp_ok tok (snd (backoff_pause ip n t))"
proof (induction ip n t rule: backoff_pause.induct)
  case (1 ip left t)
  obtain f u where f: "found_or_stop ip t = (f, u)" by force
  have u: "tcp_ok tok u" using found_ok[OF "1.prems", of ip] f by simp
  show ?case using "1.prems" "1.IH" u
    by (subst backoff_pause.simps) (auto simp: f tcp_ok_logged)
qed

lemma backoff_ok: "tcp_ok tok t \<Longrightarrow> tcp_ok tok (snd (snd (backoffThenAttemptReconnect tok ip n t)))"
  using pause_ok[of tok t ip n]
  by (auto simp: backoffThenAttemptReconnect_def Let_def split_beta intro!: ok_intros)

definition announce :: "nat \<Rightarrow> tcp \<Rightarrow> tcp" where
  "announce n t = logged (Complain (''[tcp] hunting: retrying old IP '' @ place t @ '' (attempt ''
      @ dec_str (n + 1) @ ''/'' @ dec_str MAX_RETRIES @ '' in '' @ dec_str (calculateRetryDelayMs n) @ ''ms)''
      @ kClientTag @ ''...'')) (t\<lparr>t_retryCount := n + 1\<rparr>)"

definition attempt_at :: "string \<Rightarrow> string option \<Rightarrow> nat \<Rightarrow> tcp \<Rightarrow> bool \<times> bool \<times> tcp" where
  "attempt_at tok ip n t = backoffThenAttemptReconnect tok ip (calculateRetryDelayMs n) (announce n t)"

lemma hunt_loop_step:
  "hunt_loop tok ip n t =
     (if 60 \<le> n then (False, t\<lparr>t_retryCount := n\<rparr>)
      else if fst (found_or_stop ip t) then (False, (snd (found_or_stop ip t))\<lparr>t_retryCount := n\<rparr>)
      else if fst (attempt_at tok ip n (snd (found_or_stop ip t)))
      then (fst (snd (attempt_at tok ip n (snd (found_or_stop ip t)))),
            (snd (snd (attempt_at tok ip n (snd (found_or_stop ip t)))))\<lparr>t_retryCount := n + 2\<rparr>)
      else hunt_loop tok ip (n + 2) (snd (snd (attempt_at tok ip n (snd (found_or_stop ip t))))))"
  by (subst hunt_loop.simps)
    (simp add: Let_def split_beta attempt_at_def announce_def MAX_RETRIES_def)

lemma hunt_loop_ok: "tcp_ok tok t \<Longrightarrow> tcp_ok tok (snd (hunt_loop tok ip n t))"
proof (induction "60 - n" arbitrary: n t rule: less_induct)
  case less
  define u where "u = snd (found_or_stop ip t)"
  define v where "v = attempt_at tok ip n u"
  have u: "tcp_ok tok u" using less.prems unfolding u_def by (rule found_ok)
  then have v: "tcp_ok tok (snd (snd v))"
    unfolding v_def attempt_at_def announce_def by (intro backoff_ok tcp_ok_logged count_ok)
  show ?case
  proof (cases "60 \<le> n")
    case False
    have "tcp_ok tok (snd (hunt_loop tok ip (n + 2) (snd (snd v))))"
      by (rule less.hyps[OF _ v]) (use False in simp)
    then show ?thesis using False u v
      by (subst hunt_loop_step) (simp add: u_def[symmetric] v_def[symmetric] count_ok)
  qed (use less.prems in \<open>subst hunt_loop_step, simp add: count_ok\<close>)
qed

lemma finalize_ok: "tcp_ok tok t \<Longrightarrow> tcp_ok tok (snd (finalizeHunt tok ip r t))"
  by (auto simp: finalizeHunt_def Let_def split_beta intro!: ok_intros split: option.splits)

lemma hunt_ok: "tcp_ok tok t \<Longrightarrow> tcp_ok tok (snd (enterHuntingState tok h t))"
  by (auto simp: enterHuntingState_def Let_def split_beta rapidReconnect_def
      intro!: finalize_ok hunt_loop_ok rapid_ok count_ok)

lemma failure_ok:
  assumes "tcp_ok tok t"
  shows "tcp_ok tok (snd (handleReadFailure tok h t))"
proof -
  have s: "tcp_ok tok (snd (stop_requested t))" using assms by (rule stop_ok)
  then have "tcp_ok tok (closeConnection (logged (Complain m) (snd (stop_requested t))))" for m
    using close_down[of tok "logged (Complain m) (snd (stop_requested t))"] ok_scan[OF s]
    by (auto simp: tcp_ok_def)
  then show ?thesis using s
    by (auto simp: handleReadFailure_def Let_def split_beta intro!: ok_intros hunt_ok)
qed

lemma turns_ok: "tcp_ok tok t \<Longrightarrow> tcp_ok tok (snd (read_turns as t))"
proof (induction as t rule: read_turns.induct)
  case (4 as t)
  obtain b u where b: "stop_requested t = (b, u)" by force
  have u: "tcp_ok tok u" using stop_ok[OF "4.prems"] b by simp
  then have "tcp_ok tok (u\<lparr>t_exhausted := True, t_conn := c\<rparr>)" for c by (rule tcp_ok_frame) simp_all
  then show ?case using "4.IH" u by (auto simp: b)
next
  case (5 as t)
  obtain b c p where r: "readSocketIntoPending (t_conn t) (t_pending t) = (b, c, p)" by (metis prod_cases3)
  have f: "tcp_ok tok (t\<lparr>t_conn := c2, t_pending := p2\<rparr>)" for c2 p2
    using "5.prems" by (rule tcp_ok_frame) simp_all
  show ?case using "5.IH"[OF r[symmetric] refl] f
    by (auto simp: r split: option.splits)
qed (auto intro: tcp_ok_frame)

lemma reads_ok: "tcp_ok tok t \<Longrightarrow> tcp_ok tok (snd (read_hunts tok hs t))"
proof (induction hs arbitrary: t)
  case Nil
  obtain e u where r: "read_turns (cn_selects (t_conn t)) t = (e, u)" by force
  have u: "tcp_ok tok u" using turns_ok[OF Nil.prems, of "cn_selects (t_conn t)"] r by simp
  have "tcp_ok tok (u\<lparr>t_stops := []\<rparr>)" using u by (rule tcp_ok_frame) simp_all
  then show ?case using u failure_ok by (subst read_hunts.simps) (auto simp: r split: read_end.splits)
next
  case (Cons h hs)
  obtain e u where r: "read_turns (cn_selects (t_conn t)) t = (e, u)" by force
  have u: "tcp_ok tok u" using turns_ok[OF Cons.prems, of "cn_selects (t_conn t)"] r by simp
  note v = failure_ok[OF u, of h]
  show ?case using u v Cons.IH[OF v]
    by (subst read_hunts.simps) (auto simp: r Let_def split_beta split: read_end.splits)
qed

lemma ping_ok: "tcp_ok tok t \<Longrightarrow> t_connected t \<Longrightarrow> tcp_ok tok (snd (performPing n ms es t))"
proof -
  assume a: "tcp_ok tok t" "t_connected t"
  have loop: "tcp_ok tok u \<Longrightarrow> tcp_ok tok (snd (ping_loop w m es u))" for w m u es
  proof (induction es arbitrary: u)
    case (Cons e es)
    have s: "tcp_ok tok (snd (tcp_select u))"
      using Cons.prems by (rule tcp_ok_frame) (simp_all add: tcp_select_def split_beta)
    have f: "tcp_ok tok ((snd (tcp_select u))\<lparr>t_conn := c, t_pending := p\<rparr>)" for c p
      using s by (rule tcp_ok_frame) simp_all
    show ?case using Cons.prems s f Cons.IH
      by (cases "fst (tcp_select u)") (auto simp: Let_def split_beta split: list.splits)
  qed simp
  have "live tok (snd (tcp_sendAll d t)) \<and> good_id (t_deviceIdHex (snd (tcp_sendAll d t)))" for d
    using a by (auto simp: tcp_ok_def down_def intro: send_live) (auto simp: tcp_sendAll_def split_beta)
  then show ?thesis using a loop by (auto simp: performPing_def Let_def split_beta tcp_ok_def)
qed

lemma until_up_ok: "tcp_ok tok t \<Longrightarrow> tcp_ok tok (snd (connectUntilUp tok es n b t))"
proof (induction es arbitrary: n b t)
  case Nil
  then show ?case by (subst connectUntilUp.simps) (auto simp: Let_def split_beta intro!: ok_intros)
next
  case (Cons e es)
  have c: "tcp_ok tok (snd (connectAndAuth tok (snd (stop_requested t))))"
    using Cons.prems by (intro ok_intros)
  show ?case
    by (subst connectUntilUp.simps)
      (use c Cons.prems in \<open>auto simp: Let_def split_beta intro!: Cons.IH ok_intros\<close>)
qed

lemma open_ok: "tcp_ok tok t \<Longrightarrow> tcp_ok tok (snd (tcp_open tok es t))"
proof -
  assume "tcp_ok tok t"
  then have "tcp_ok tok (t\<lparr>t_opened := True, t_retryCount := 0\<rparr>)" by (rule tcp_ok_frame) simp_all
  then have "tcp_ok tok (snd (connectUntilUp tok es 0 CONNECT_FIRST_RETRY_MS (t\<lparr>t_opened := True, t_retryCount := 0\<rparr>)))"
    by (rule until_up_ok)
  then show ?thesis using \<open>tcp_ok tok t\<close> by (auto simp: tcp_open_def Let_def split_beta intro: ok_intros)
qed

datatype tcp_op = OpOpen "nat list" | OpNext "hunt_env list" | OpPing int nat "nat list" | OpHelo

fun tcp_step :: "string \<Rightarrow> tcp \<Rightarrow> tcp_op \<Rightarrow> tcp" where
  "tcp_step tok t (OpOpen es) = snd (tcp_open tok es t)"
| "tcp_step tok t (OpNext hs) = snd (tcp_nextLine tok hs t)"
| "tcp_step tok t (OpPing n ms es) = snd (performPing n ms es t)"
| "tcp_step tok t OpHelo = snd (sendHeloAndParseAck tok t)"

lemma helo_op_ok:
  assumes "tcp_ok tok t"
  shows "tcp_ok tok (snd (sendHeloAndParseAck tok t))"
proof -
  let ?r = "if t_connected t then (True, t) else connectAndAuth tok t"
  have r: "tcp_ok tok (snd ?r)" using assms connect_tcp_ok by auto
  have l: "live tok (snd ?r) \<and> good_id (t_deviceIdHex (snd ?r))" if "fst ?r"
    using that r connect_ok[OF ok_scan[OF assms]] by (auto simp: tcp_ok_def down_def split: if_splits)
  have h: "tcp_ok tok (snd (helo_exchange (snd ?r)))" if "fst ?r"
  proof -
    obtain d u where e: "helo_exchange (snd ?r) = (d, u)" by force
    have "t_deviceIdHex u = t_deviceIdHex (snd ?r)" using arg_cong[OF e, of "\<lambda>x. t_deviceIdHex (snd x)"]
      helo_keeps_id[of "snd ?r"] by simp
    then show ?thesis using helo_live[OF conjunct1[OF l[OF that]] e] l[OF that] e
      by (cases d) (auto simp: tcp_ok_def)
  qed
  show ?thesis using r h by (auto simp: sendHeloAndParseAck_def Let_def split_beta tcp_ok_logged)
qed

lemma next_ok: "tcp_ok tok t \<Longrightarrow> tcp_ok tok (snd (tcp_nextLine tok hs t))"
proof -
  assume a: "tcp_ok tok t"
  then have "tcp_ok tok (t\<lparr>t_pending := p\<rparr>)" for p by (rule tcp_ok_frame) simp_all
  then show ?thesis using a reads_ok[OF a] by (auto simp: tcp_nextLine_def split: option.splits)
qed

lemma tcp_step_ok: "tcp_ok tok t \<Longrightarrow> tcp_ok tok (tcp_step tok t e)"
proof (cases e)
  case (OpPing n ms es)
  assume "tcp_ok tok t"
  then show ?thesis using ping_ok OpPing by (cases "t_connected t") (auto simp: performPing_def)
qed (simp_all add: open_ok next_ok helo_op_ok)

interpretation link: step_invariant "tcp_step tok" "tcp_ok tok" for tok
  by unfold_locales (rule tcp_step_ok)

text \<open>
  C8. Whatever the network does and in whatever order the transport
  is opened, read and pinged, the first that is sent on a connection is the authentication token,
  nothing more is sent before the peer has answered it with \<open>OK\<close>, nor on a connection whose peer
  answered otherwise or not at all, nor on none; and an open transport always knows its device: 32
  hexadecimal digits.
\<close>

theorem nothing_is_sent_before_the_token:
  fixes tok host protocol :: string and ops :: "tcp_op list" and port delay :: int
    and future :: "connection list" and stops :: "bool list"
  defines "t \<equiv> foldl (tcp_step tok) (tcp_new host port protocol delay future stops) ops"
  shows "scan_log tok t \<noteq> None \<and> \<not> (tcp_isOpen t \<and> \<not> good_id (t_deviceIdHex t))"
proof -
  have "tcp_ok tok (tcp_new host port protocol delay future stops)"
    by (simp add: tcp_ok_def down_def tcp_new_def scan_log_def)
  then have "tcp_ok tok t" unfolding t_def by (rule link.run_inv)
  then show ?thesis using ok_scan by (auto simp: tcp_ok_def down_def tcp_isOpen_def)
qed

section \<open>How long a hunt lasts\<close>

definition connects :: "tcp \<Rightarrow> nat" where
  "connects t = length (filter (\<lambda>e. \<exists>h p. e = Connect h p) (t_log t))"

definition slept :: "tcp \<Rightarrow> nat" where
  "slept t = sum_list (map (\<lambda>e. case e of Slept n \<Rightarrow> n | _ \<Rightarrow> 0) (t_log t))"

lemma history_logged [simp]:
  "connects (logged (Complain m) t) = connects t" "slept (logged (Complain m) t) = slept t"
  "connects (logged (Slept n) t) = connects t" "slept (logged (Slept n) t) = slept t + n"
  by (simp_all add: connects_def slept_def)

lemma history_frame [simp]:
  "connects (t\<lparr>t_retryCount := n\<rparr>) = connects t" "slept (t\<lparr>t_retryCount := n\<rparr>) = slept t"
  "connects (t\<lparr>t_stops := bs\<rparr>) = connects t" "slept (t\<lparr>t_stops := bs\<rparr>) = slept t"
  by (simp_all add: connects_def slept_def)

text \<open>No connection will be made, nothing was found, and the flag is not set the next \<open>n\<close> times.\<close>

definition idle :: "nat \<Rightarrow> tcp \<Rightarrow> bool" where
  "idle n t \<longleftrightarrow> t_future t = [] \<and> t_seen t = [] \<and> t_stops t = replicate n False"

lemma idle_frame [simp]:
  "idle n (logged e t) \<longleftrightarrow> idle n t" "idle n (t\<lparr>t_retryCount := k\<rparr>) \<longleftrightarrow> idle n t"
  by (simp_all add: idle_def)

lemma idle_flag: "idle n t \<Longrightarrow> flag_seen None t = (False, t)"
  by (simp add: flag_seen_def idle_def)

lemma idle_check: "idle (Suc n) t \<Longrightarrow> found_or_stop None t = (False, t\<lparr>t_stops := replicate n False\<rparr>)"
  by (simp add: found_or_stop_def idle_flag stop_requested_def) (simp add: idle_def)

lemma idle_next: "idle (Suc n) t \<Longrightarrow> idle n (t\<lparr>t_stops := replicate n False\<rparr>)"
  by (simp add: idle_def)

lemma idle_connect:
  assumes "idle n t"
  shows "fst (connectAndAuth tok t) = False" "idle n (snd (connectAndAuth tok t))"
    "connects (snd (connectAndAuth tok t)) = connects t + 1" "slept (snd (connectAndAuth tok t)) = slept t"
    "t_retryCount (snd (connectAndAuth tok t)) = t_retryCount t"
  using assms by (simp_all add: connectAndAuth_def Let_def idle_def take_connection_def closeConnection_def
      dead_conn_def connects_def slept_def logged_def)

lemma idle_pause:
  "idle (n + (left + 99) div 100) t \<Longrightarrow>
     fst (backoff_pause None left t) = False \<and> idle n (snd (backoff_pause None left t))
     \<and> connects (snd (backoff_pause None left t)) = connects t
     \<and> slept (snd (backoff_pause None left t)) = slept t + left"
proof (induction left arbitrary: t rule: less_induct)
  case (less left)
  show ?case
  proof (cases "left = 0")
    case True
    then show ?thesis using less.prems by (subst (1 2 3 4) backoff_pause.simps) simp
  next
    case False
    then have k: "(left + 99) div 100 = Suc ((left - 100 + 99) div 100)" by (cases "left \<le> 100") auto
    let ?u = "t\<lparr>t_stops := replicate (n + (left - 100 + 99) div 100) False\<rparr>"
    have i: "idle (Suc (n + (left - 100 + 99) div 100)) t" using less.prems k by simp
    have st: "backoff_pause None left t = backoff_pause None (left - 100) (logged (Slept (min 100 left)) ?u)"
      using False idle_check[OF i] by (subst backoff_pause.simps) simp
    have "idle (n + (left - 100 + 99) div 100) (logged (Slept (min 100 left)) ?u)"
      using idle_next[OF i] by simp
    from less.IH[OF _ this] False show ?thesis unfolding st by (auto simp: min_def)
  qed
qed

lemma idle_rapid:
  "0 < a \<Longrightarrow> idle (n + 2 * k) t \<Longrightarrow>
     fst (rapid_attempts tok None a k t) = False \<and> idle n (snd (rapid_attempts tok None a k t))
     \<and> connects (snd (rapid_attempts tok None a k t)) = connects t + k
     \<and> slept (snd (rapid_attempts tok None a k t)) = slept t + 50 * k
     \<and> t_retryCount (snd (rapid_attempts tok None a k t)) = t_retryCount t"
proof (induction k arbitrary: a t)
  case (Suc k)
  let ?u = "t\<lparr>t_stops := replicate (Suc (n + 2 * k)) False\<rparr>"
  let ?v = "(logged (Slept RAPID_RETRY_DELAY_MS) ?u)\<lparr>t_stops := replicate (n + 2 * k) False\<rparr>"
  have i: "idle (Suc (Suc (n + 2 * k))) t" using Suc.prems by simp
  note i2 = idle_next[OF i]
  have i3: "idle (Suc (n + 2 * k)) (logged (Slept RAPID_RETRY_DELAY_MS) ?u)" using i2 by simp
  define w where "w = logged (Complain (''[tcp] reconnecting: rapid retry '' @ dec_str (a + 1) @ ''/''
      @ dec_str RAPID_RETRIES @ '' to last-known '' @ place ?v @ kClientTag @ ''...'')) ?v"
  have w: "idle (n + 2 * k) w" "connects w = connects t" "slept w = slept t + 50" "t_retryCount w = t_retryCount t"
    using idle_next[OF i3] by (simp_all add: w_def RAPID_RETRY_DELAY_MS_def)
  have "rapid_attempts tok None a (Suc k) t = rapid_attempts tok None (a + 1) k (snd (connectAndAuth tok w))"
    by (simp only: rapid_attempts.simps Let_def split_beta idle_check[OF i] idle_check[OF i3] fst_conv snd_conv
        if_P[OF Suc.prems(1)] w_def[symmetric] if_False idle_connect(1)[OF w(1), of tok])
  then show ?case
    using Suc.IH[of "a + 1" "snd (connectAndAuth tok w)"] idle_connect[OF w(1), of tok] w by simp
qed simp

fun loop_checks :: "nat \<Rightarrow> nat" where
  "loop_checks 0 = 0"
| "loop_checks (Suc k) = 1 + (calculateRetryDelayMs (60 - 2 * Suc k) + 99) div 100 + loop_checks k"

fun loop_wait :: "nat \<Rightarrow> nat" where
  "loop_wait 0 = 0"
| "loop_wait (Suc k) = calculateRetryDelayMs (60 - 2 * Suc k) + loop_wait k"

lemma attempt_idle:
  assumes "idle (n + (calculateRetryDelayMs m + 99) div 100) (announce m u)"
  shows "attempt_at tok None m u =
    (False, False, snd (connectAndAuth tok (snd (backoff_pause None (calculateRetryDelayMs m) (announce m u)))))"
proof -
  note p = idle_pause[OF assms]
  then have i: "idle n (snd (backoff_pause None (calculateRetryDelayMs m) (announce m u)))" by blast
  show ?thesis using p idle_connect(1)[OF i, of tok] idle_flag[OF i]
    by (simp add: attempt_at_def backoffThenAttemptReconnect_def split_beta Let_def)
qed

lemma idle_turn:
  assumes "m < 60" "idle (Suc (n + (calculateRetryDelayMs m + 99) div 100)) t"
  shows "\<exists>u. hunt_loop tok None m t = hunt_loop tok None (m + 2) u \<and> idle n u \<and> connects u = connects t + 1
    \<and> slept u = slept t + calculateRetryDelayMs m"
proof -
  let ?u = "t\<lparr>t_stops := replicate (n + (calculateRetryDelayMs m + 99) div 100) False\<rparr>"
  have w: "idle (n + (calculateRetryDelayMs m + 99) div 100) (announce m ?u)"
    "connects (announce m ?u) = connects t" "slept (announce m ?u) = slept t"
    using idle_next[OF assms(2)] by (simp_all add: announce_def)
  note p = idle_pause[OF w(1)]
  let ?p = "snd (backoff_pause None (calculateRetryDelayMs m) (announce m ?u))"
  note c = idle_connect[OF conjunct1[OF conjunct2[OF p]], of tok]
  have "hunt_loop tok None m t = hunt_loop tok None (m + 2) (snd (connectAndAuth tok ?p))"
    using assms(1) idle_check[OF assms(2)] attempt_idle[OF w(1), of tok] by (subst hunt_loop_step) simp
  then show ?thesis using c p w by auto
qed

lemma idle_loop:
  "k \<le> 30 \<Longrightarrow> idle (n + loop_checks k) t \<Longrightarrow>
     fst (hunt_loop tok None (60 - 2 * k) t) = False
     \<and> connects (snd (hunt_loop tok None (60 - 2 * k) t)) = connects t + k
     \<and> slept (snd (hunt_loop tok None (60 - 2 * k) t)) = slept t + loop_wait k"
proof (induction k arbitrary: t)
  case 0
  then show ?case by (subst (1 2 3) hunt_loop_step) simp
next
  case (Suc k)
  define m where "m = 60 - 2 * Suc k"
  have m: "m < 60" "m + 2 = 60 - 2 * k" using Suc.prems(1) by (simp_all add: m_def)
  have "idle (Suc (n + loop_checks k + (calculateRetryDelayMs m + 99) div 100)) t"
    using Suc.prems(2) by (simp add: m_def add_ac)
  then obtain u where u: "hunt_loop tok None m t = hunt_loop tok None (60 - 2 * k) u" "idle (n + loop_checks k) u"
      "connects u = connects t + 1" "slept u = slept t + calculateRetryDelayMs m"
    using idle_turn[OF m(1), of "n + loop_checks k" t tok] unfolding m(2) by blast
  show ?case
    using Suc.IH[OF _ u(2)] Suc.prems(1) u(3,4) unfolding m_def[symmetric] u(1) by (simp add: m_def)
qed

lemma idle_first:
  assumes "idle (n + 9) t"
  shows "fst (rapidReconnect tok None t) = False \<and> idle n (snd (rapidReconnect tok None t))
     \<and> connects (snd (rapidReconnect tok None t)) = connects t + 5
     \<and> slept (snd (rapidReconnect tok None t)) = slept t + 200
     \<and> t_retryCount (snd (rapidReconnect tok None t)) = t_retryCount t"
proof -
  let ?u = "t\<lparr>t_stops := replicate (n + 2 * 4) False\<rparr>"
  have "n + 9 = Suc (n + 2 * 4)" by simp
  then have i: "idle (Suc (n + 2 * 4)) t" using assms by (simp only:)
  define w where "w = logged (Complain (''[tcp] reconnecting: rapid retry '' @ dec_str (0 + 1) @ ''/''
      @ dec_str RAPID_RETRIES @ '' to last-known '' @ place ?u @ kClientTag @ ''...'')) ?u"
  have w: "idle (n + 2 * 4) w" "connects w = connects t" "slept w = slept t" "t_retryCount w = t_retryCount t"
    using idle_next[OF i] by (simp_all add: w_def)
  have five: "RAPID_RETRIES = Suc 4" by (simp add: RAPID_RETRIES_def)
  have "rapidReconnect tok None t = rapid_attempts tok None (0 + 1) 4 (snd (connectAndAuth tok w))"
    unfolding rapidReconnect_def five
    by (simp only: rapid_attempts.simps Let_def split_beta idle_check[OF i] fst_conv snd_conv less_irrefl
        if_False w_def[symmetric] idle_connect(1)[OF w(1), of tok])
  then show ?thesis
    using idle_rapid[of "0 + 1" n 4 "snd (connectAndAuth tok w)" tok] idle_connect[OF w(1), of tok] w by simp
qed

lemma late_delay: "4 \<le> m \<Longrightarrow> calculateRetryDelayMs m = 10000"
proof -
  assume "4 \<le> m"
  then have "(2 :: nat) ^ 4 \<le> 2 ^ min m 12" by (intro power_increasing) auto
  then show ?thesis by (simp add: calculateRetryDelayMs_def BASE_RETRY_DELAY_MS_def MAX_RETRY_DELAY_MS_def)
qed

lemma late_totals: "k \<le> 28 \<Longrightarrow> loop_checks k = 101 * k \<and> loop_wait k = 10000 * k"
proof (induction k)
  case (Suc k)
  have "calculateRetryDelayMs (60 - 2 * Suc k) = 10000" by (rule late_delay) (use Suc.prems in simp)
  then show ?case using Suc by simp
qed simp

lemma loop_totals: "loop_checks 30 = 2880" "loop_wait 30 = 285000"
proof -
  have "(30 :: nat) = Suc (Suc 28)" by simp
  then show "loop_checks 30 = 2880" "loop_wait 30 = 285000" using late_totals[of 28]
    by (simp_all only: loop_checks.simps loop_wait.simps)
      (simp_all add: calculateRetryDelayMs_def BASE_RETRY_DELAY_MS_def MAX_RETRY_DELAY_MS_def)
qed

text \<open>
  C32. A hunt in which no connection comes up, nothing is discovered and
  nobody asks to stop ends: after exactly 5 rapid and 30 further attempts and 285.2 seconds of
  waiting it reports failure. The count goes up twice per attempt, so half of the 60 retries the
  messages announce are made, and the pauses are 1, 4, 10, 10 ... seconds.
\<close>

theorem a_fruitless_hunt_is_bounded:
  assumes "t_future t = []" "runDiscovery (t_host t) (t_deviceIdHex t) h = None" "he_seen h = []"
    and "t_stops t = replicate 2889 False"
  shows "fst (enterHuntingState tok h t) = False
    \<and> connects (snd (enterHuntingState tok h t)) = connects t + 35
    \<and> slept (snd (enterHuntingState tok h t)) = slept t + 285200
    \<and> map calculateRetryDelayMs [0, 2, 4, 6] = [1000, 4000, 10000, 10000]"
proof -
  let ?t1 = "t\<lparr>t_seen := [], t_retryCount := 0\<rparr>"
  have i: "idle ((0 + loop_checks 30) + 9) ?t1"
    using assms by (simp add: idle_def loop_totals)
  have h1: "connects ?t1 = connects t" "slept ?t1 = slept t" by (simp_all add: connects_def slept_def)
  note r = idle_first[OF i, of tok]
  let ?r = "snd (rapidReconnect tok None ?t1)"
  have l: "fst (hunt_loop tok None 0 ?r) = False \<and> connects (snd (hunt_loop tok None 0 ?r)) = connects ?r + 30
      \<and> slept (snd (hunt_loop tok None 0 ?r)) = slept ?r + 285000"
    using idle_loop[of 30 0 ?r tok] r loop_totals by simp
  have e: "enterHuntingState tok h t = finalizeHunt tok None False (snd (hunt_loop tok None 0 ?r))"
    using r l assms(2,3) by (simp add: enterHuntingState_def Let_def split_beta)
  show ?thesis using l r h1 unfolding e
    by (simp add: finalizeHunt_def calculateRetryDelayMs_def BASE_RETRY_DELAY_MS_def MAX_RETRY_DELAY_MS_def)
qed

theorem a_fruitless_hunt_is_bounded_witness:
  "connects (snd (enterHuntingState ''x'' no_hunt (tcp_new ''h'' 1 ''raw'' 0 [] (replicate 2889 False)))) = 35"
  using a_fruitless_hunt_is_bounded[of "tcp_new ''h'' 1 ''raw'' 0 [] (replicate 2889 False)" no_hunt "''x''"]
  by (simp add: tcp_new_def no_hunt_def runDiscovery_def connects_def)

section \<open>Reopening and the keepalive\<close>

definition mode_of :: "tcp \<Rightarrow> bool \<times> bool" where
  "mode_of t = (t_opened t, t_exhausted t)"

lemma mode_simps [simp]:
  "mode_of (logged e t) = mode_of t" "mode_of (t\<lparr>t_conn := c\<rparr>) = mode_of t"
  "mode_of (t\<lparr>t_pending := p\<rparr>) = mode_of t" "mode_of (t\<lparr>t_connected := b\<rparr>) = mode_of t"
  "mode_of (t\<lparr>t_deviceIdHex := i\<rparr>) = mode_of t" "mode_of (closeConnection t) = mode_of t"
  "mode_of (snd (give_up m t)) = mode_of t" "mode_of (snd (tcp_sendAll d t)) = mode_of t"
  "mode_of (snd (tcp_recv k t)) = mode_of t" "mode_of (snd (tcp_select t)) = mode_of t"
  "mode_of (snd (tcp_readLine t)) = mode_of t" "mode_of (snd (tcp_findAck t)) = mode_of t"
  "mode_of (take_connection t) = mode_of t" "mode_of (snd (stop_requested t)) = mode_of t"
  by (simp_all add: mode_of_def closeConnection_def give_up_def tcp_sendAll_def tcp_recv_def tcp_select_def
      tcp_readLine_def tcp_findAck_def take_connection_def stop_requested_def split_beta split: list.splits)

lemma init_mode [simp]: "mode_of (snd (init_commands cs t)) = mode_of t"
proof (induction cs arbitrary: t)
  case (Cons x cs)
  then show ?case by (cases x) (simp add: Let_def split_beta)
qed simp

lemma helo_mode [simp]: "mode_of (snd (helo_exchange t)) = mode_of t"
proof -
  obtain l u where e: "tcp_findAck (snd (tcp_sendAll (''ATHELO'' @ [CR])
      (logged (Slept 50) (snd (tcp_readLine (snd (tcp_sendAll (''ATI'' @ [CR]) t))))))) = (l, u)" by force
  have "mode_of u = mode_of t" using arg_cong[OF e, of "\<lambda>x. mode_of (snd x)"] by simp
  then show ?thesis
    by (simp add: helo_exchange_def Let_def split_beta e[simplified] split: option.split)
qed

lemma connect_mode [simp]: "mode_of (snd (connectAndAuth tok t)) = mode_of t"
proof -
  have h: "mode_of (snd (performHeloHandshake u)) = mode_of u" for u
  proof -
    obtain d v where e: "helo_exchange u = (d, v)" by force
    have "mode_of v = mode_of u" using helo_mode[of u] by (simp add: e)
    then show ?thesis by (simp add: performHeloHandshake_def e split: option.split)
  qed
  have a: "mode_of (snd (authenticate tok u)) = mode_of u" for u
    by (simp add: authenticate_def Let_def split_beta)
  show ?thesis by (simp add: connectAndAuth_def Let_def split_beta h a sendElm327Init_def)
qed

lemma until_up_mode: "mode_of (snd (connectUntilUp tok es n b t)) = mode_of t"
proof (induction es arbitrary: n b t)
  case Nil
  show ?case by (subst connectUntilUp.simps) (simp add: Let_def split_beta)
next
  case (Cons e es)
  show ?case by (subst connectUntilUp.simps) (simp add: Let_def split_beta Cons.IH)
qed

lemma until_up_keeps: "t_opened (snd (connectUntilUp tok es n b t)) = t_opened t \<and>
    t_exhausted (snd (connectUntilUp tok es n b t)) = t_exhausted t"
  using until_up_mode[of tok es n b t] by (simp add: mode_of_def)

lemma closed_after_failure:
  assumes "tcp_ok tok t" "fst (connectUntilUp tok es n b t) = False" "\<not> t_connected t"
  shows "\<not> t_connected (snd (connectUntilUp tok es n b t))"
  using assms
proof (induction es arbitrary: n b t)
  case Nil
  have s: "t_connected (snd (stop_requested t)) = t_connected t"
    by (simp add: stop_requested_def split: list.splits)
  note c = connect_ok[OF ok_scan[OF stop_ok[OF Nil.prems(1)]]]
  show ?case using Nil.prems(2,3) c s
    by (subst connectUntilUp.simps, subst (asm) connectUntilUp.simps)
      (auto simp: Let_def split_beta down_def split: if_splits)
next
  case (Cons e es)
  have s: "t_connected (snd (stop_requested t)) = t_connected t"
    by (simp add: stop_requested_def split: list.splits)
  note c = connect_ok[OF ok_scan[OF stop_ok[OF Cons.prems(1)]]]
  have ok: "tcp_ok tok (logged (Slept m) (logged (Complain w) (snd (connectAndAuth tok (snd (stop_requested t))))))" for m w
    using Cons.prems(1) by (intro tcp_ok_logged connect_tcp_ok stop_ok)
  show ?case using Cons.prems(2,3) c s Cons.IH[OF ok]
    by (subst connectUntilUp.simps, subst (asm) connectUntilUp.simps)
      (auto simp: Let_def split_beta down_def split: if_splits)
qed

text \<open>
  When opening a new transport fails, opening it once more
  reports success without trying anything: nothing is connected, the transport is not open, and
  reading gives no line.
\<close>

theorem a_failed_open_succeeds_when_repeated:
  fixes host protocol tok :: string and port delay :: int and future :: "connection list" and stops :: "bool list"
    and es :: "nat list"
  defines "t \<equiv> snd (tcp_open tok es (tcp_new host port protocol delay future stops))"
  assumes "fst (tcp_open tok es (tcp_new host port protocol delay future stops)) = False"
  shows "tcp_open tok es2 t = (True, t) \<and> \<not> tcp_isOpen t \<and> tcp_nextLine tok hs t = (None, t)"
proof -
  let ?n = "tcp_new host port protocol delay future stops"
  let ?o = "?n\<lparr>t_opened := True, t_retryCount := 0\<rparr>"
  let ?u = "connectUntilUp tok es 0 CONNECT_FIRST_RETRY_MS ?o"
  have ok: "tcp_ok tok ?o" by (simp add: tcp_ok_def down_def tcp_new_def scan_log_def)
  have f: "fst ?u = False" using assms(2) by (simp add: tcp_open_def Let_def split_beta tcp_new_def split: if_splits)
  have c: "\<not> t_connected (snd ?u)" by (rule closed_after_failure[OF ok f]) (simp add: tcp_new_def)
  have keep: "t_opened (snd (connectUntilUp tok es n b u)) = t_opened u \<and>
      t_exhausted (snd (connectUntilUp tok es n b u)) = t_exhausted u" for n b u
    by (rule until_up_keeps)
  have t: "t_opened t" "\<not> t_exhausted t" "\<not> t_connected t"
    using f c keep[of 0 CONNECT_FIRST_RETRY_MS ?o]
    by (simp_all add: t_def tcp_open_def Let_def split_beta) (simp_all add: tcp_new_def)
  show ?thesis using t by (simp add: tcp_open_def tcp_isOpen_def tcp_nextLine_def)
qed

theorem a_failed_open_succeeds_when_repeated_witness:
  "tcp_open ''x'' [7] (snd (tcp_open ''x'' [] (tcp_new ''h'' 1 ''raw'' 0 [] [False])))
     = (True, snd (tcp_open ''x'' [] (tcp_new ''h'' 1 ''raw'' 0 [] [False])))"
proof -
  have "fst (tcp_open ''x'' [] (tcp_new ''h'' 1 ''raw'' 0 [] [False])) = False"
    by (subst tcp_open_def, subst connectUntilUp.simps)
      (simp add: tcp_new_def stop_requested_def connectAndAuth_def take_connection_def closeConnection_def
        dead_conn_def Let_def split_beta)
  from a_failed_open_succeeds_when_repeated[OF this, of "[7]" "[]"] show ?thesis by simp
qed

text \<open>
  A ping accepts the answer to any ping whose number merely begins
  with its own digits, and every line that came before the answer, frames included, is dropped.
\<close>

theorem a_ping_takes_another_answer:
  assumes t: "t_connected t" "cn_sends (t_conn t) = True # bs" "cn_selects (t_conn t) = SelReady # ss"
    and r: "cn_recvs (t_conn t) = (frame @ [CR] @ ''PONG '' @ int_str n @ more_digits @ [CR]) # rs"
    and p: "t_pending t = []" "length (frame @ [CR] @ ''PONG '' @ int_str n @ more_digits @ [CR]) \<le> 256"
    and f: "\<forall>c \<in> set (frame @ int_str n @ more_digits). \<not> is_eol c" "\<not> starts_with (''PONG '' @ int_str n) frame"
    and e: "e < ms"
  shows "fst (performPing n ms (e # e2 # es) t) = int e2 \<and> t_pending (snd (performPing n ms (e # e2 # es) t)) = []"
proof -
  let ?w = "''PONG '' @ int_str n"
  let ?d = "frame @ [CR] @ ?w @ more_digits @ [CR]"
  have l1: "takeBufferedLine ?d = Some (frame, ?w @ more_digits @ [CR])"
    unfolding takeBufferedLine_Some using f(1) by (auto simp: is_eol_def)
  have l2: "takeBufferedLine (?w @ more_digits @ [CR]) = Some (?w @ more_digits, [])"
    unfolding takeBufferedLine_Some using f(1) by (auto simp: is_eol_def CR_def LF_def)
  have "pong_rest ?w (?w @ more_digits @ [CR]) = (True, [])"
    by (subst pong_rest.simps) (simp only: l2 option.case prod.case, simp)
  then have pr: "pong_rest ?w ?d = (True, [])"
    using f(2) by (subst pong_rest.simps) (simp only: l1 option.case prod.case starts_with_def if_False)
  have rd: "readSocketIntoPending (c\<lparr>cn_recvs := ?d # rs\<rparr>) [] = (True, c\<lparr>cn_recvs := rs\<rparr>, ?d)" for c
    using p(2) by (simp add: readSocketIntoPending_def recv_bytes_def MAX_PENDING_LEN_def del: append.simps append_assoc)
  define u where "u = (snd (tcp_select (snd (tcp_sendAll (''PING '' @ int_str n @ [CR]) t))))"
  have u: "t_pending u = []" "t_conn u = (t_conn t)\<lparr>cn_sends := bs, cn_selects := ss\<rparr>"
    using t p(1) by (simp_all add: u_def tcp_sendAll_def tcp_select_def next_send_def next_select_def)
  have "(t_conn u)\<lparr>cn_recvs := ?d # rs\<rparr> = t_conn u" using u(2) r by simp
  then have rd2: "readSocketIntoPending (t_conn u) [] = (True, (t_conn u)\<lparr>cn_recvs := rs\<rparr>, ?d)"
    using rd[of "t_conn u"] by simp
  have st: "tcp_sendAll (''PING '' @ int_str n @ [CR]) t = (True, snd (tcp_sendAll (''PING '' @ int_str n @ [CR]) t))"
    "tcp_select (snd (tcp_sendAll (''PING '' @ int_str n @ [CR]) t)) = (SelReady, u)"
    using t by (simp_all add: u_def tcp_sendAll_def tcp_select_def next_send_def next_select_def)
  have "performPing n ms (e # e2 # es) t = ping_loop ?w ms (e # e2 # es) (snd (tcp_sendAll (''PING '' @ int_str n @ [CR]) t))"
    unfolding performPing_def Let_def using t(1) by (subst st(1)) simp
  also have "\<dots> = (int e2, u\<lparr>t_conn := (t_conn u)\<lparr>cn_recvs := rs\<rparr>, t_pending := []\<rparr>)"
    using e by (simp add: st(2) rd2 u(1) pr del: append.simps append_assoc)
  finally show ?thesis by simp
qed

theorem a_ping_takes_another_answer_witness:
  "fst (performPing 1 1000 [0, 5] ((tcp_new ''h'' 1 ''raw'' 0 [] [])\<lparr>t_connected := True,
     t_conn := dead_conn\<lparr>cn_sends := [True], cn_selects := [SelReady],
       cn_recvs := [''118 01'' @ [CR] @ ''PONG '' @ int_str 1 @ ''2'' @ [CR]]\<rparr>\<rparr>)) = 5"
proof -
  have d: "int_str 1 = ''1''" by (simp add: int_str_def dec_str_def digits_in_small) (simp add: digit_char_def)
  show ?thesis
    using a_ping_takes_another_answer[of "(tcp_new ''h'' 1 ''raw'' 0 [] [])\<lparr>t_connected := True,
     t_conn := dead_conn\<lparr>cn_sends := [True], cn_selects := [SelReady],
       cn_recvs := [''118 01'' @ [CR] @ ''PONG '' @ int_str 1 @ ''2'' @ [CR]]\<rparr>\<rparr>" "[]" "[]" "''118 01''" 1 "''2''"
       "[]" 0 1000 5 "[]"]
    by (simp add: d tcp_new_def starts_with_def is_eol_def CR_def LF_def)
qed

end
