(* ===== verification/Host_Secure.thy ===== *)
theory Host_Secure
  imports Host_Sockets Host_Tcp
begin

text \<open>
  The encrypted connection to the device: \<open>src/src/pipeline/SecureTcpTransport.cpp\<close>.

  The cryptographic library is a record of functions, an argument of the operations that call it;
  a call that fails answers \<open>None\<close>. The socket is the one of \<open>Host_Tcp\<close>: the answers of its calls
  in order.
\<close>

section \<open>The library\<close>

record sodium =
  kx_keypair :: "(string \<times> string) option"
  kx_client_session_keys :: "string \<Rightarrow> string \<Rightarrow> string \<Rightarrow> (string \<times> string) option"
  sign_verify_detached :: "string \<Rightarrow> string \<Rightarrow> string \<Rightarrow> bool"
  secretbox_open :: "string \<Rightarrow> string \<Rightarrow> string \<Rightarrow> string option"

section \<open>Connecting\<close>

datatype dial_outcome = DialUp | DialRefused | DialFailed

text \<open>The addresses of the name, with the descriptor each attempt got.\<close>

fun sec_try_addresses :: "(int \<times> dial_outcome) list \<Rightarrow> bool \<Rightarrow> bool \<times> int \<times> fd_call list" where
  "sec_try_addresses [] refused = (refused, - 1, [])"
| "sec_try_addresses ((fd, d) # as) refused =
     (if fd < 0 then sec_try_addresses as refused
      else if d = DialUp then (refused, fd, [OpenFd fd])
      else
        (let (r, res, cs) = sec_try_addresses as (refused \<or> d = DialRefused)
         in (r, res, OpenFd fd # CloseFd fd # cs)))"

definition sec_connectToHost :: "(int \<times> dial_outcome) list option \<Rightarrow> int \<times> fd_call list" where
  "sec_connectToHost addrs =
     (case addrs of
        None \<Rightarrow> (- 1, [])
      | Some as \<Rightarrow>
          (let (refused, fd, cs) = sec_try_addresses as False in (if refused then - 2 else fd, cs)))"

definition BASE_RECONNECT_DELAY_MS :: nat where "BASE_RECONNECT_DELAY_MS = 1000"
definition MAX_RECONNECT_DELAY_MS :: nat where "MAX_RECONNECT_DELAY_MS = 10000"
definition MAX_RECONNECT_ATTEMPTS :: nat where "MAX_RECONNECT_ATTEMPTS = 10"

definition calculateReconnectDelayMs :: "nat \<Rightarrow> nat" where
  "calculateReconnectDelayMs n = min (BASE_RECONNECT_DELAY_MS * 2 ^ min n 12) MAX_RECONNECT_DELAY_MS"

section \<open>Receiving exactly\<close>

lemma next_select_shrinks:
  "cn_selects c \<noteq> [] \<Longrightarrow> length (cn_selects (snd (next_select c))) < length (cn_selects c)"
  by (auto simp: next_select_def split: list.splits)

lemma recv_bytes_selects [simp]: "cn_selects (snd (recv_bytes k c)) = cn_selects c"
  by (auto simp: recv_bytes_def split: list.splits)

lemma next_select_alive: "fst (next_select c) \<noteq> SelError \<Longrightarrow> cn_selects c \<noteq> []"
  by (auto simp: next_select_def)

text \<open>
  \<open>SelQuiet\<close>: the deadline passed, before or during the wait. An interrupted wait is repeated.
\<close>

function doRecvExact :: "nat \<Rightarrow> string \<Rightarrow> connection \<Rightarrow> string option \<times> connection" where
  "doRecvExact len got c =
     (if len \<le> length got then (Some got, c)
      else
        (let (a, c1) = next_select c
         in case a of
              SelReady \<Rightarrow>
                (let (d, c2) = recv_bytes (len - length got) c1
                 in if d = [] then (None, c2) else doRecvExact len (got @ d) c2)
            | SelInterrupted \<Rightarrow> doRecvExact len got c1
            | SelError \<Rightarrow> (None, c1)
            | SelQuiet \<Rightarrow> (None, c1)))"
  by pat_completeness auto
termination
proof (relation "measure (\<lambda>(len, got, c). length (cn_selects c))", goal_cases)
  case 1
  show ?case by simp
next
  case (2 len got c x a c1 y d c2)
  then show ?case
    using next_select_shrinks[OF next_select_alive, of c] recv_bytes_selects[of "len - length got" c1]
    by (metis (no_types, lifting) case_prod_conv fst_conv in_measure sel_answer.distinct(5) snd_conv)
next
  case (3 len got c x a c1)
  then show ?case using next_select_shrinks[OF next_select_alive, of c]
    by (metis (no_types, lifting) case_prod_conv fst_conv in_measure sel_answer.distinct(11) snd_conv)
qed

declare doRecvExact.simps [simp del]

section \<open>The transport\<close>

definition X25519_KEY_LEN :: nat where "X25519_KEY_LEN = 32"
definition SIGN_BYTES :: nat where "SIGN_BYTES = 64"
definition SECRETBOX_NONCEBYTES :: nat where "SECRETBOX_NONCEBYTES = 24"
definition SECRETBOX_MACBYTES :: nat where "SECRETBOX_MACBYTES = 16"
definition MAX_LINE_LEN :: nat where "MAX_LINE_LEN = 4096"

record secure =
  sec_host :: string
  sec_port :: int
  sec_publicKey :: string
  sec_fd :: int
  sec_conn :: connection
  sec_opened :: bool
  sec_exhausted :: bool
  sec_reconnectCount :: nat
  sec_rxKey :: string
  sec_txKey :: string
  sec_rawBuffer :: string
  sec_plaintextBuf :: string
  sec_stops :: "bool list"
  sec_log :: "tcp_event list"

definition secure_new :: "string \<Rightarrow> int \<Rightarrow> string \<Rightarrow> bool list \<Rightarrow> secure" where
  "secure_new host port key stops =
     \<lparr>sec_host = host, sec_port = port, sec_publicKey = key, sec_fd = - 1, sec_conn = dead_conn,
      sec_opened = False, sec_exhausted = False, sec_reconnectCount = 0,
      sec_rxKey = replicate 32 (CHR 0x00), sec_txKey = replicate 32 (CHR 0x00), sec_rawBuffer = [],
      sec_plaintextBuf = [], sec_stops = stops, sec_log = []\<rparr>"

definition sec_say :: "tcp_event \<Rightarrow> secure \<Rightarrow> secure" where
  "sec_say e s = s\<lparr>sec_log := sec_log s @ [e]\<rparr>"

definition sec_stop :: "secure \<Rightarrow> bool \<times> secure" where
  "sec_stop s = (case sec_stops s of [] \<Rightarrow> (True, s) | b # bs \<Rightarrow> (b, s\<lparr>sec_stops := bs\<rparr>))"

definition sec_recvExact :: "nat \<Rightarrow> secure \<Rightarrow> string option \<times> secure" where
  "sec_recvExact len s = (let (r, c) = doRecvExact len [] (sec_conn s) in (r, s\<lparr>sec_conn := c\<rparr>))"

definition sec_sendAll :: "string \<Rightarrow> secure \<Rightarrow> bool \<times> secure" where
  "sec_sendAll d s =
     (let (ok, c) = next_send (sec_conn s) in (ok, sec_say (Sent d) (s\<lparr>sec_conn := c\<rparr>)))"

definition performHandshake :: "sodium \<Rightarrow> secure \<Rightarrow> bool \<times> secure" where
  "performHandshake lib s =
     (case kx_keypair lib of
        None \<Rightarrow> (False, sec_say (Complain ''[secure-tcp] crypto_kx_keypair failed'') s)
      | Some (clientPk, clientSk) \<Rightarrow>
          let (sent, s1) = sec_sendAll clientPk s
          in if \<not> sent then
               (False, sec_say (Complain ''[secure-tcp] Failed to send client public key'') s1)
             else
               (case sec_recvExact X25519_KEY_LEN s1 of
                  (None, s2) \<Rightarrow>
                    (False, sec_say (Complain ''[secure-tcp] Failed to receive server public key'') s2)
                | (Some serverPk, s2) \<Rightarrow>
                    (case kx_client_session_keys lib clientPk clientSk serverPk of
                       None \<Rightarrow>
                         (False, sec_say (Complain ''[secure-tcp] crypto_kx_client_session_keys failed'') s2)
                     | Some (rx, tx) \<Rightarrow>
                         (case sec_recvExact SIGN_BYTES (s2\<lparr>sec_rxKey := rx, sec_txKey := tx\<rparr>) of
                            (None, s3) \<Rightarrow>
                              (False, sec_say (Complain
                                 ''[secure-tcp] Failed to receive server signature'') s3)
                          | (Some serverSig, s3) \<Rightarrow>
                              if \<not> sign_verify_detached lib serverSig (clientPk @ serverPk) (sec_publicKey s3)
                              then (False, sec_say (Complain
                                 ''[secure-tcp] Handshake signature verification FAILED - peer is untrusted'') s3)
                              else (True, sec_say (Say
                                 ''[secure-tcp] Handshake complete - peer authenticated'') s3)))))"

text \<open>One attempt: what the name resolved to, and the connection if one came up.\<close>

type_synonym sec_dial = "(int \<times> dial_outcome) list option \<times> connection"

function sec_open_loop :: "sodium \<Rightarrow> sec_dial list \<Rightarrow> secure \<Rightarrow> bool \<times> secure" where
  "sec_open_loop lib ds s =
     (if \<not> sec_reconnectCount s < MAX_RECONNECT_ATTEMPTS then
        (False, sec_say (Complain (''[secure-tcp] failed to establish TCP connection after ''
           @ dec_str MAX_RECONNECT_ATTEMPTS @ '' attempts'')) s)
      else
        (let (stop, s1) = sec_stop s
         in if stop then
              (False, sec_say (Complain ''[secure-tcp] connection cancelled (stop requested)'') s1)
            else
              let (addrs, conn) = (case ds of [] \<Rightarrow> (None, dead_conn) | d # _ \<Rightarrow> d);
                  r = fst (sec_connectToHost addrs)
              in if r = - 2 then
                   (False, sec_say (Complain (''[secure-tcp] connection refused to '' @ sec_host s1 @ '':''
                      @ int_str (sec_port s1))) s1)
                 else if r < 0 then
                   let delayMs = calculateReconnectDelayMs (sec_reconnectCount s);
                       s2 = s1\<lparr>sec_reconnectCount := sec_reconnectCount s + 1\<rparr>
                   in sec_open_loop lib (tl ds)
                        (sec_say (Slept delayMs)
                          (sec_say (Complain (''[secure-tcp] connection attempt ''
                             @ dec_str (sec_reconnectCount s2) @ ''/'' @ dec_str MAX_RECONNECT_ATTEMPTS
                             @ '' failed, retrying in '' @ dec_str delayMs @ ''ms...'')) s2))
                 else
                   let (ok, s2) = performHandshake lib (s1\<lparr>sec_fd := r, sec_conn := conn\<rparr>)
                   in if \<not> ok then (False, sec_say Closed (s2\<lparr>sec_fd := - 1\<rparr>))
                      else (True, s2\<lparr>sec_reconnectCount := 0\<rparr>)))"
  by pat_completeness auto
termination
  by (relation "measure (\<lambda>(lib, ds, s). MAX_RECONNECT_ATTEMPTS - sec_reconnectCount s)")
    (auto simp: sec_say_def)

declare sec_open_loop.simps [simp del]

definition secure_isOpen :: "secure \<Rightarrow> bool" where
  "secure_isOpen s \<longleftrightarrow> sec_opened s \<and> 0 \<le> sec_fd s \<and> \<not> sec_exhausted s"

definition secure_open :: "sodium \<Rightarrow> sec_dial list \<Rightarrow> secure \<Rightarrow> bool \<times> secure" where
  "secure_open lib ds s =
     (if sec_opened s then (0 \<le> sec_fd s \<and> \<not> sec_exhausted s, s)
      else sec_open_loop lib ds (s\<lparr>sec_opened := True, sec_reconnectCount := 0\<rparr>))"

section \<open>Reading\<close>

text \<open>
  A frame is a nonce, two bytes of length and the sealed text. \<open>LengthError\<close>: the length of the
  text is the length of the frame less 16, an unsigned subtraction, and the string cannot be made.
\<close>

datatype frame_result = NoFrame | Frame string | LengthError

definition tryDecryptBufferedFrame :: "sodium \<Rightarrow> secure \<Rightarrow> frame_result \<times> secure" where
  "tryDecryptBufferedFrame lib s =
     (let raw = sec_rawBuffer s
      in if length raw < SECRETBOX_NONCEBYTES + 2 then (NoFrame, s)
         else
           let frameLen = (of_char (raw ! SECRETBOX_NONCEBYTES) :: nat) * 256
                            + of_char (raw ! (SECRETBOX_NONCEBYTES + 1));
               totalFrame = SECRETBOX_NONCEBYTES + 2 + frameLen
           in if length raw < totalFrame then (NoFrame, s)
              else
                (case secretbox_open lib (take frameLen (drop (SECRETBOX_NONCEBYTES + 2) raw))
                        (take SECRETBOX_NONCEBYTES raw) (sec_rxKey s) of
                   None \<Rightarrow>
                     (NoFrame, (sec_say (Complain ''[secure-tcp] Frame decryption failed (tampered?)'')
                        s)\<lparr>sec_exhausted := True\<rparr>)
                 | Some plain \<Rightarrow>
                     (if frameLen < SECRETBOX_MACBYTES then LengthError
                      else Frame (take (frameLen - SECRETBOX_MACBYTES)
                                    (plain @ replicate frameLen (CHR 0x00))),
                      s\<lparr>sec_rawBuffer := drop totalFrame raw\<rparr>)))"

definition pollRecvOrExhaust :: "secure \<Rightarrow> bool \<times> secure" where
  "pollRecvOrExhaust s =
     (let (a, c1) = next_select (sec_conn s); s1 = s\<lparr>sec_conn := c1\<rparr>
      in case a of
           SelInterrupted \<Rightarrow> (True, s1)
         | SelError \<Rightarrow> (False, s1\<lparr>sec_exhausted := True\<rparr>)
         | SelQuiet \<Rightarrow>
             (let (stop, s2) = sec_stop s1
              in if stop then (False, s2\<lparr>sec_exhausted := True\<rparr>) else (True, s2))
         | SelReady \<Rightarrow>
             (let (d, c2) = recv_bytes 1024 (sec_conn s1); s2 = s1\<lparr>sec_conn := c2\<rparr>
              in if d = [] then (False, s2\<lparr>sec_exhausted := True\<rparr>)
                 else
                   let s3 = s2\<lparr>sec_rawBuffer := sec_rawBuffer s2 @ d\<rparr>
                   in if MAX_LINE_LEN + SECRETBOX_NONCEBYTES + 2 + SECRETBOX_MACBYTES
                           < length (sec_rawBuffer s3)
                      then (False, (sec_say (Complain ''[secure-tcp] Raw buffer overflow - disconnecting'')
                              s3)\<lparr>sec_exhausted := True\<rparr>)
                      else (True, s3)))"

lemma poll_shrinks:
  assumes "fst (pollRecvOrExhaust s)"
  shows "length (cn_selects (sec_conn (snd (pollRecvOrExhaust s)))) < length (cn_selects (sec_conn s))"
proof -
  have "fst (next_select (sec_conn s)) \<noteq> SelError"
    using assms by (auto simp: pollRecvOrExhaust_def split_beta Let_def)
  from next_select_shrinks[OF next_select_alive[OF this]] show ?thesis
    using assms
    by (auto simp: pollRecvOrExhaust_def sec_stop_def sec_say_def split_beta Let_def
        split: sel_answer.splits list.splits if_splits)
qed

lemma decrypt_conn [simp]: "sec_conn (snd (tryDecryptBufferedFrame lib s)) = sec_conn s"
  by (auto simp: tryDecryptBufferedFrame_def sec_say_def Let_def split: option.splits)

function readEncryptedLine :: "sodium \<Rightarrow> secure \<Rightarrow> frame_result \<times> secure" where
  "readEncryptedLine lib s =
     (let (f, s1) = tryDecryptBufferedFrame lib s
      in if f \<noteq> NoFrame then (f, s1)
         else if sec_exhausted s1 then (NoFrame, s1)
         else
           let (again, s2) = pollRecvOrExhaust s1
           in if \<not> again then (NoFrame, s2) else readEncryptedLine lib s2)"
  by pat_completeness auto
termination
proof (relation "measure (\<lambda>(lib, s). length (cn_selects (sec_conn s)))", goal_cases)
  case (2 lib s x f s1 y again s2)
  then show ?case using poll_shrinks[of s1] decrypt_conn[of lib s]
    by (metis (no_types, lifting) case_prod_conv fst_conv in_measure snd_conv)
qed simp

declare readEncryptedLine.simps [simp del]

text \<open>\<open>Thrown\<close>: the exception of \<open>LengthError\<close> leaves \<open>nextLine\<close>.\<close>

datatype secure_line = SecLine string | SecEnd | Thrown

function sec_lines :: "sodium \<Rightarrow> secure \<Rightarrow> secure_line \<times> secure" where
  "sec_lines lib s =
     (if LF \<in> set (sec_plaintextBuf s) then
        (SecLine (takeWhile (\<lambda>c. c \<noteq> LF) (sec_plaintextBuf s)),
         s\<lparr>sec_plaintextBuf := tl (dropWhile (\<lambda>c. c \<noteq> LF) (sec_plaintextBuf s))\<rparr>)
      else
        (case readEncryptedLine lib s of
           (Frame f, s1) \<Rightarrow>
             sec_lines lib (s1\<lparr>sec_plaintextBuf := sec_plaintextBuf s1 @ f @ [LF]\<rparr>)
         | (NoFrame, s1) \<Rightarrow>
             (if sec_plaintextBuf s1 \<noteq> [] then
                (SecLine (sec_plaintextBuf s1), s1\<lparr>sec_plaintextBuf := []\<rparr>)
              else (SecEnd, s1))
         | (LengthError, s1) \<Rightarrow> (Thrown, s1)))"
  by pat_completeness auto
termination
  by (relation "measure (\<lambda>(lib, s). if LF \<in> set (sec_plaintextBuf s) then 0 else 1)") auto

declare sec_lines.simps [simp del]

definition secure_nextLine :: "sodium \<Rightarrow> secure \<Rightarrow> secure_line \<times> secure" where
  "secure_nextLine lib s =
     (if \<not> sec_opened s \<or> sec_fd s < 0 \<or> sec_exhausted s then (SecEnd, s) else sec_lines lib s)"

end
