(* ===== verification/Secure_Proofs.thy ===== *)
theory Secure_Proofs
  imports Host_Secure
begin

text \<open>
  What the encrypted connection guarantees: only a peer that signed this handshake is let in,
  its lines arrive whole however the bytes are cut, and two ways in which a sound connection is
  given up.
\<close>

section \<open>The handshake\<close>

lemma recv_bytes_split:
  "concat (cn_recvs c) = fst (recv_bytes k c) @ concat (cn_recvs (snd (recv_bytes k c)))"
  by (auto simp: recv_bytes_def append_take_drop_id split: list.splits)

lemma recv_bytes_le: "length (fst (recv_bytes k c)) \<le> k"
  by (auto simp: recv_bytes_def split: list.splits)

lemma recv_exact:
  "doRecvExact len got c = (Some r, c1) \<Longrightarrow> length got \<le> len \<Longrightarrow>
     length r = len \<and> got @ concat (cn_recvs c) = r @ concat (cn_recvs c1)"
proof (induction len got c rule: doRecvExact.induct)
  case (1 len got c)
  note step = doRecvExact.simps[of len got c]
  show ?case
  proof (cases "len \<le> length got")
    case True
    then show ?thesis using "1.prems" step by simp
  next
    case False
    obtain a c2 where a: "next_select c = (a, c2)" by force
    have same: "cn_recvs c2 = cn_recvs c"
      using a by (auto simp: next_select_def split: list.splits)
    show ?thesis
    proof (cases a)
      case SelReady
      obtain d c3 where d: "recv_bytes (len - length got) c2 = (d, c3)" by force
      have ne: "d \<noteq> []" and e: "doRecvExact len (got @ d) c3 = (Some r, c1)"
        using "1.prems"(1) False a d SelReady by (auto simp: step split: if_splits)
      have "length (got @ d) \<le> len" using recv_bytes_le[of "len - length got" c2] d False by simp
      from "1.IH"(1)[OF False a[symmetric] refl SelReady d[symmetric] refl ne e this]
      show ?thesis using recv_bytes_split[of c2 "len - length got"] d same by simp
    next
      case SelInterrupted
      have e: "doRecvExact len got c2 = (Some r, c1)"
        using "1.prems"(1) False a SelInterrupted by (simp add: step)
      show ?thesis using "1.IH"(2)[OF False a[symmetric] refl SelInterrupted e "1.prems"(2)] same by simp
    qed (use "1.prems"(1) False a in \<open>simp_all add: step\<close>)
  qed
qed

lemma sec_recv:
  "sec_recvExact len s = (Some r, s1) \<Longrightarrow>
     length r = len \<and> concat (cn_recvs (sec_conn s)) = r @ concat (cn_recvs (sec_conn s1)) \<and>
     sec_publicKey s1 = sec_publicKey s \<and> sec_rxKey s1 = sec_rxKey s \<and> sec_txKey s1 = sec_txKey s"
proof -
  assume a: "sec_recvExact len s = (Some r, s1)"
  obtain x c where c: "doRecvExact len [] (sec_conn s) = (x, c)" by force
  from a c have "x = Some r" and s1: "s1 = s\<lparr>sec_conn := c\<rparr>" by (simp_all add: sec_recvExact_def)
  with recv_exact[of len "[]" "sec_conn s" r c] c show ?thesis by simp
qed

text \<open>The peer proved itself: what it sent first is its key and a good signature over both keys.\<close>

definition proved :: "sodium \<Rightarrow> string \<Rightarrow> string \<Rightarrow> secure \<Rightarrow> bool" where
  "proved lib key received s \<longleftrightarrow>
     (\<exists>clientPk clientSk serverPk serverSig rest.
        kx_keypair lib = Some (clientPk, clientSk) \<and>
        received = serverPk @ serverSig @ rest \<and> length serverPk = 32 \<and> length serverSig = 64 \<and>
        sign_verify_detached lib serverSig (clientPk @ serverPk) key \<and>
        kx_client_session_keys lib clientPk clientSk serverPk = Some (sec_rxKey s, sec_txKey s))"

lemma handshake_proves:
  assumes "performHandshake lib s = (True, s1)"
  shows "proved lib (sec_publicKey s) (concat (cn_recvs (sec_conn s))) s1 \<and>
    sec_publicKey s1 = sec_publicKey s"
proof -
  obtain pk sk where kp: "kx_keypair lib = Some (pk, sk)"
    using assms by (auto simp: performHandshake_def split: option.splits)
  obtain sent t1 where t1: "sec_sendAll pk s = (sent, t1)" by force
  have same: "cn_recvs (sec_conn t1) = cn_recvs (sec_conn s)" "sec_publicKey t1 = sec_publicKey s"
    using t1 by (auto simp: sec_sendAll_def sec_say_def next_send_def split: list.splits)
  obtain spk t2 where spk: "sec_recvExact X25519_KEY_LEN t1 = (Some spk, t2)"
    using assms kp t1 by (auto simp: performHandshake_def split: if_splits option.splits prod.splits)
  obtain rx tx where keys: "kx_client_session_keys lib pk sk spk = Some (rx, tx)"
    using assms kp t1 spk by (auto simp: performHandshake_def split: if_splits option.splits)
  obtain sg t3 where sg: "sec_recvExact SIGN_BYTES (t2\<lparr>sec_rxKey := rx, sec_txKey := tx\<rparr>) = (Some sg, t3)"
    using assms kp t1 spk keys by (auto simp: performHandshake_def split: if_splits option.splits prod.splits)
  have ok: "sign_verify_detached lib sg (pk @ spk) (sec_publicKey t3)" and s1:
      "s1 = sec_say (Say ''[secure-tcp] Handshake complete - peer authenticated'') t3"
    using assms kp t1 spk keys sg by (auto simp: performHandshake_def split: if_splits)
  show ?thesis
    unfolding proved_def s1
    by (rule conjI, intro exI[of _ pk] exI[of _ sk] exI[of _ spk] exI[of _ sg]
        exI[of _ "concat (cn_recvs (sec_conn t3))"])
      (use kp keys ok sec_recv[OF spk] sec_recv[OF sg] same in
        \<open>simp_all add: sec_say_def X25519_KEY_LEN_def SIGN_BYTES_def\<close>)
qed

lemma sec_open_loop_proves:
  "sec_open_loop lib ds s = (True, s1) \<Longrightarrow>
     \<exists>d\<in>set ds. proved lib (sec_publicKey s) (concat (cn_recvs (snd d))) s1"
proof (induction lib ds s rule: sec_open_loop.induct)
  case (1 lib ds s)
  note step = sec_open_loop.simps[of lib ds s]
  have room: "\<not> \<not> sec_reconnectCount s < MAX_RECONNECT_ATTEMPTS" using "1.prems" by (auto simp: step split: if_splits)
  obtain stop t1 where t1: "sec_stop s = (stop, t1)" by force
  have key: "sec_publicKey t1 = sec_publicKey s"
    using t1 by (auto simp: sec_stop_def split: list.splits)
  have go: "\<not> stop" using "1.prems" room t1 by (auto simp: step)
  obtain addrs conn where d: "(case ds of [] \<Rightarrow> (None, dead_conn) | d # _ \<Rightarrow> d) = (addrs, conn)" by force
  let ?r = "fst (sec_connectToHost addrs)"
  have r2: "?r \<noteq> - 2" using "1.prems" room t1 go d by (auto simp: step)
  show ?case
  proof (cases "?r < 0")
    case True
    have "\<exists>d\<in>set (tl ds). proved lib (sec_publicKey s) (concat (cn_recvs (snd d))) s1"
      using "1.IH"[OF room t1[symmetric] refl go d[symmetric] refl refl r2 True refl refl]
        "1.prems" room t1 go d r2 True key
      by (simp add: step Let_def sec_say_def)
    then show ?thesis by (cases ds) auto
  next
    case False
    have ne: "ds \<noteq> []" using d False by (auto simp: sec_connectToHost_def)
    obtain ok t2 where t2: "performHandshake lib (t1\<lparr>sec_fd := ?r, sec_conn := conn\<rparr>) = (ok, t2)" by force
    have ok: "ok" and s1: "s1 = t2\<lparr>sec_reconnectCount := 0\<rparr>"
      using "1.prems" room t1 go d r2 False t2 by (auto simp: step Let_def split: if_splits)
    have "proved lib (sec_publicKey s) (concat (cn_recvs conn)) s1"
      using handshake_proves[OF t2[unfolded eqTrueI[OF ok]]] key by (simp add: s1 proved_def)
    moreover have "conn = snd (hd ds)" using d ne by (cases ds) auto
    ultimately show ?thesis using ne by (intro bexI[of _ "hd ds"]) auto
  qed
qed

text \<open>
  C9. When the encrypted transport opens, some connection it made delivered
  a 32-byte key and a 64-byte signature that is good, under the configured public key, for the
  client's fresh key followed by that key, and the session keys are the ones derived from them.
\<close>

theorem only_the_trusted_peer_opens:
  assumes "secure_open lib ds (secure_new host port key stops) = (True, s)"
  shows "\<exists>d\<in>set ds. proved lib key (concat (cn_recvs (snd d))) s"
  using sec_open_loop_proves[of lib ds "(secure_new host port key stops)\<lparr>sec_opened := True,
      sec_reconnectCount := 0\<rparr>" s] assms
  by (simp add: secure_open_def secure_new_def)

definition demo_sodium :: sodium where
  "demo_sodium = \<lparr>kx_keypair = Some (''c'', ''k''),
     kx_client_session_keys = (\<lambda>pk sk spk. Some (''r'' @ spk, ''t'' @ spk)),
     sign_verify_detached = (\<lambda>sg m key. sg = replicate 64 (CHR ''g'')),
     secretbox_open = (\<lambda>ct n k. if length ct < 16 then None else Some (drop 16 ct))\<rparr>"

definition demo_peer :: connection where
  "demo_peer = \<lparr>cn_up = True, cn_timeoutOk = True, cn_noDelayOk = True, cn_sends = [True],
     cn_selects = [SelReady, SelInterrupted, SelReady],
     cn_recvs = [replicate 32 (CHR ''s''), replicate 64 (CHR ''g'')]\<rparr>"

lemma demo_opens:
  "fst (secure_open demo_sodium [(Some [(5, DialUp)], demo_peer)] (secure_new ''h'' 1 ''key'' [False]))"
  by (simp add: secure_open_def sec_open_loop.simps secure_new_def MAX_RECONNECT_ATTEMPTS_def sec_stop_def
      sec_connectToHost_def performHandshake_def demo_sodium_def demo_peer_def sec_sendAll_def next_send_def
      sec_say_def sec_recvExact_def doRecvExact.simps next_select_def recv_bytes_def X25519_KEY_LEN_def
      SIGN_BYTES_def)

theorem only_the_trusted_peer_opens_witness:
  "\<exists>s. secure_open demo_sodium [(Some [(5, DialUp)], demo_peer)] (secure_new ''h'' 1 ''key'' [False])
       = (True, s) \<and> proved demo_sodium ''key'' (concat (cn_recvs demo_peer)) s"
proof -
  obtain b s where b: "secure_open demo_sodium [(Some [(5, DialUp)], demo_peer)]
      (secure_new ''h'' 1 ''key'' [False]) = (b, s)" by force
  have s: "secure_open demo_sodium [(Some [(5, DialUp)], demo_peer)]
      (secure_new ''h'' 1 ''key'' [False]) = (True, s)"
    using demo_opens unfolding b by simp
  from only_the_trusted_peer_opens[OF s] s show ?thesis by auto
qed

section \<open>A refused address\<close>

text \<open>
  When one address of the name refuses the connection and a later one
  accepts it, connecting reports a refusal and the accepted descriptor is opened and never closed.
\<close>

theorem a_refused_address_hides_the_next:
  assumes "0 \<le> f1" and "0 \<le> f2" and "f1 \<noteq> f2"
    and "r = sec_connectToHost (Some [(f1, DialRefused), (f2, DialUp)])"
  shows "fst r = - 2 \<and> f2 \<in> set (opened (snd r)) \<and> f2 \<notin> set (closed_fds (snd r))"
proof -
  have n: "\<not> f1 < 0" "\<not> f2 < 0" using assms by simp_all
  have "r = (- 2, [OpenFd f1, CloseFd f1, OpenFd f2])"
    unfolding assms(4) sec_connectToHost_def by (simp add: n)
  then show ?thesis using assms(3) by simp
qed

theorem a_refused_address_hides_the_next_witness:
  "fst (sec_connectToHost (Some [(3, DialRefused), (4, DialUp)])) = - 2 \<and>
   4 \<in> set (opened (snd (sec_connectToHost (Some [(3, DialRefused), (4, DialUp)]))))"
  using a_refused_address_hides_the_next[of 3 4 "sec_connectToHost (Some [(3, DialRefused), (4, DialUp)])"]
  by simp

section \<open>The lines\<close>

text \<open>What the peer sends for a line: the nonce, the length, the sealed line.\<close>

definition sealed :: "(string \<Rightarrow> string \<Rightarrow> string) \<Rightarrow> string \<times> string \<Rightarrow> string" where
  "sealed seal m =
     (case m of (nn, l) \<Rightarrow>
        nn @ [char_of (length (seal l nn) div 256), char_of (length (seal l nn) mod 256)]
        @ seal l nn)"

definition seals :: "(string \<Rightarrow> string \<Rightarrow> string) \<Rightarrow> sodium \<Rightarrow> string \<Rightarrow> bool" where
  "seals seal lib key \<longleftrightarrow>
     (\<forall>l n. length n = 24 \<longrightarrow> secretbox_open lib (seal l n) n key = Some l \<and> length (seal l n) = length l + 16)"

text \<open>
  The line lengths that always fit: a frame less one byte and one more read of 1024 bytes stay
  within the buffer.
\<close>

definition sendable :: "string \<times> string \<Rightarrow> bool" where
  "sendable m \<longleftrightarrow> length (fst m) = 24 \<and> length (snd m) \<le> 3073 \<and> LF \<notin> set (snd m)"

text \<open>The stream still to be read; the socket is ready as often as there are bytes.\<close>

definition feeding :: "secure \<Rightarrow> string \<Rightarrow> bool" where
  "feeding s w \<longleftrightarrow>
     sec_rawBuffer s @ concat (cn_recvs (sec_conn s)) = w \<and> [] \<notin> set (cn_recvs (sec_conn s)) \<and>
     set (cn_selects (sec_conn s)) \<subseteq> {SelReady, SelInterrupted} \<and>
     length (concat (cn_recvs (sec_conn s))) \<le> length (filter (\<lambda>a. a = SelReady) (cn_selects (sec_conn s))) \<and>
     sec_opened s \<and> 0 \<le> sec_fd s \<and> \<not> sec_exhausted s"

lemma sealed_length:
  "seals seal lib key \<Longrightarrow> length (fst m) = 24 \<Longrightarrow> length (sealed seal m) = length (snd m) + 42"
  by (auto simp: sealed_def seals_def split: prod.splits)

lemma code_of_length: "n < 65536 \<Longrightarrow> (of_char (char_of (n div 256) :: char) :: nat) * 256 + of_char (char_of (n mod 256) :: char) = n"
  by (simp add: mod_less)

lemma prefix_nth: "r @ x = y @ z \<Longrightarrow> i < length r \<Longrightarrow> i < length y \<Longrightarrow> r ! i = y ! i"
  by (metis nth_append)

lemma header_of_frame:
  assumes "seals seal lib key" "sendable m" "raw @ x = sealed seal m @ w" "26 \<le> length raw"
  shows "(of_char (raw ! 24) :: nat) * 256 + of_char (raw ! 25) = length (snd m) + 16"
    and "take 24 raw = fst m"
proof -
  obtain n l where m: "m = (n, l)" by force
  have len: "length n = 24" "length (seal l n) = length l + 16" "length l \<le> 3073"
    using assms(1,2) by (auto simp: seals_def sendable_def m)
  have f: "sealed seal m = n @ [char_of (length (seal l n) div 256), char_of (length (seal l n) mod 256)] @ seal l n"
    by (simp add: sealed_def m)
  have "raw ! 24 = sealed seal m ! 24" "raw ! 25 = sealed seal m ! 25"
    using prefix_nth[OF assms(3), of 24] prefix_nth[OF assms(3), of 25] assms(4) len by (simp_all add: f)
  then have "raw ! 24 = char_of (length (seal l n) div 256)" "raw ! 25 = char_of (length (seal l n) mod 256)"
    using len by (simp_all add: f nth_append)
  then show "(of_char (raw ! 24) :: nat) * 256 + of_char (raw ! 25) = length (snd m) + 16"
    using code_of_length[of "length (seal l n)"] len by (simp add: m)
  have "take 24 (raw @ x) = n" using assms(3) len by (simp add: f)
  then show "take 24 raw = fst m" using assms(4) by (simp add: m)
qed

lemma decrypt_waits:
  assumes "seals seal lib (sec_rxKey s)" "sendable m" "feeding s (sealed seal m @ w)"
    and "length (sec_rawBuffer s) < length (snd m) + 42"
  shows "tryDecryptBufferedFrame lib s = (NoFrame, s)"
proof (cases "length (sec_rawBuffer s) < 26")
  case False
  have w: "sec_rawBuffer s @ concat (cn_recvs (sec_conn s)) = sealed seal m @ w"
    using assms(3) by (simp add: feeding_def)
  from header_of_frame(1)[OF assms(1,2) w] assms(4) False show ?thesis
    by (simp add: tryDecryptBufferedFrame_def feeding_def SECRETBOX_NONCEBYTES_def Let_def)
qed (simp add: tryDecryptBufferedFrame_def SECRETBOX_NONCEBYTES_def Let_def)

lemma decrypt_yields:
  assumes "seals seal lib (sec_rxKey s)" "sendable m" "feeding s (sealed seal m @ w)"
    and "length (snd m) + 42 \<le> length (sec_rawBuffer s)"
  shows "tryDecryptBufferedFrame lib s =
    (Frame (snd m), s\<lparr>sec_rawBuffer := drop (length (snd m) + 42) (sec_rawBuffer s)\<rparr>)"
proof -
  let ?raw = "sec_rawBuffer s"
  obtain n l where m: "m = (n, l)" by force
  have len: "length n = 24" "length (seal l n) = length l + 16"
    using assms(1,2) by (auto simp: seals_def sendable_def m)
  have w: "?raw @ concat (cn_recvs (sec_conn s)) = sealed seal m @ w" using assms(3) by (simp add: feeding_def)
  have "take (length l + 42) ?raw = sealed seal m"
  proof -
    have "take (length l + 42) (?raw @ concat (cn_recvs (sec_conn s))) = sealed seal m"
      unfolding w using sealed_length[OF assms(1), of m] len by (simp add: m)
    then show ?thesis using assms(4) by (simp add: m)
  qed
  then have "take (length l + 16) (drop 26 ?raw) = drop 26 (sealed seal m)"
    using drop_take[of 26 "length l + 42" ?raw] by (simp add: add.commute)
  then have ct: "take (length l + 16) (drop 26 ?raw) = seal l n"
    using len by (simp add: sealed_def m)
  have opens: "secretbox_open lib (seal l n) n (sec_rxKey s) = Some l"
    using assms(1) len by (simp add: seals_def)
  show ?thesis
    using header_of_frame[OF assms(1,2) w] assms(4) ct opens
    by (simp add: add.commute[of 42] tryDecryptBufferedFrame_def SECRETBOX_NONCEBYTES_def SECRETBOX_MACBYTES_def Let_def m)
qed

lemma poll_feeds:
  assumes "feeding s w" "length (sec_rawBuffer s) < length w" "length (sec_rawBuffer s) \<le> 3114"
  shows "fst (pollRecvOrExhaust s)" "feeding (snd (pollRecvOrExhaust s)) w"
    "sec_rxKey (snd (pollRecvOrExhaust s)) = sec_rxKey s"
    "sec_plaintextBuf (snd (pollRecvOrExhaust s)) = sec_plaintextBuf s"
proof -
  have w: "sec_rawBuffer s @ concat (cn_recvs (sec_conn s)) = w" using assms(1) by (simp add: feeding_def)
  have ne: "concat (cn_recvs (sec_conn s)) \<noteq> []" using w assms(2) by auto
  then obtain r rs where rs: "cn_recvs (sec_conn s) = r # rs" by (cases "cn_recvs (sec_conn s)") auto
  have r: "r \<noteq> []" using assms(1) rs by (auto simp: feeding_def)
  obtain a as where as: "cn_selects (sec_conn s) = a # as"
    using assms(1) ne by (cases "cn_selects (sec_conn s)") (auto simp: feeding_def)
  have a: "a = SelReady \<or> a = SelInterrupted" using assms(1) as by (auto simp: feeding_def)
  have "fst (pollRecvOrExhaust s) \<and> feeding (snd (pollRecvOrExhaust s)) w \<and>
    sec_rxKey (snd (pollRecvOrExhaust s)) = sec_rxKey s \<and>
    sec_plaintextBuf (snd (pollRecvOrExhaust s)) = sec_plaintextBuf s"
  proof (cases "a = SelReady")
    case False
    then show ?thesis using a assms(1) as
      by (auto simp: pollRecvOrExhaust_def next_select_def feeding_def)
  next
    case True
    obtain x r' where r': "r = x # r'" using r by (cases r) auto
    have cap: "length (sec_rawBuffer s) + min (length r) 1024 \<le> 4138" using assms(3) by simp
    show ?thesis
    proof (cases "length r \<le> 1024")
      case short: True
      then show ?thesis using True assms(1) as rs r' cap
        by (auto simp: pollRecvOrExhaust_def next_select_def recv_bytes_def feeding_def Let_def
            MAX_LINE_LEN_def SECRETBOX_NONCEBYTES_def SECRETBOX_MACBYTES_def)
    next
      case long: False
      then show ?thesis using True assms(1) as rs r' cap
        by (auto simp: pollRecvOrExhaust_def next_select_def recv_bytes_def feeding_def Let_def
            MAX_LINE_LEN_def SECRETBOX_NONCEBYTES_def SECRETBOX_MACBYTES_def)
    qed
  qed
  then show "fst (pollRecvOrExhaust s)" "feeding (snd (pollRecvOrExhaust s)) w"
    "sec_rxKey (snd (pollRecvOrExhaust s)) = sec_rxKey s"
    "sec_plaintextBuf (snd (pollRecvOrExhaust s)) = sec_plaintextBuf s" by simp_all
qed

lemma reads_the_frame:
  assumes "seals seal lib (sec_rxKey s)" "sendable m" "feeding s (sealed seal m @ w)"
  shows "\<exists>s1. readEncryptedLine lib s = (Frame (snd m), s1) \<and> feeding s1 w \<and>
    sec_rxKey s1 = sec_rxKey s \<and> sec_plaintextBuf s1 = sec_plaintextBuf s"
  using assms
proof (induction lib s rule: readEncryptedLine.induct)
  case (1 lib s)
  note step = readEncryptedLine.simps[of lib s]
  have total: "length (sealed seal m) = length (snd m) + 42"
    using sealed_length[OF "1.prems"(1), of m] "1.prems"(2) by (simp add: sendable_def)
  show ?case
  proof (cases "length (sec_rawBuffer s) < length (snd m) + 42")
    case False
    have d: "drop (length (snd m) + 42) (sec_rawBuffer s) @ concat (cn_recvs (sec_conn s)) = w"
    proof -
      have "drop (length (snd m) + 42) (sec_rawBuffer s @ concat (cn_recvs (sec_conn s))) = w"
        using "1.prems"(3) total by (simp add: feeding_def)
      then show ?thesis using False by simp
    qed
    show ?thesis unfolding step
      using decrypt_yields[OF "1.prems"] False d "1.prems"(3) by (simp add: feeding_def)
  next
    case True
    note w = decrypt_waits[OF "1.prems" True]
    have short: "length (sec_rawBuffer s) \<le> 3114" using True "1.prems"(2) by (simp add: sendable_def)
    have more: "length (sec_rawBuffer s) < length (sealed seal m @ w)" using True total by simp
    note p = poll_feeds[OF "1.prems"(3) more short]
    have alive: "\<not> sec_exhausted s" using "1.prems"(3) by (simp add: feeding_def)
    have e: "readEncryptedLine lib s = readEncryptedLine lib (snd (pollRecvOrExhaust s))"
      unfolding step using w alive p(1) by (simp add: split_beta)
    have ih: "\<exists>s1. readEncryptedLine lib (snd (pollRecvOrExhaust s)) = (Frame (snd m), s1) \<and> feeding s1 w \<and>
      sec_rxKey s1 = sec_rxKey (snd (pollRecvOrExhaust s)) \<and>
      sec_plaintextBuf s1 = sec_plaintextBuf (snd (pollRecvOrExhaust s))"
      by (rule "1.IH"[OF refl w[symmetric] _ alive refl prod.collapse])
        (use p "1.prems" in simp_all)
    then show ?thesis unfolding e using p by simp
  qed
qed

fun sec_read :: "sodium \<Rightarrow> nat \<Rightarrow> secure \<Rightarrow> secure_line list \<times> secure" where
  "sec_read lib 0 s = ([], s)"
| "sec_read lib (Suc n) s =
     (let (l, s1) = secure_nextLine lib s; (ls, s2) = sec_read lib n s1 in (l # ls, s2))"

lemma split_at_mark:
  "x \<notin> set l \<Longrightarrow> takeWhile (\<lambda>c. c \<noteq> x) (l @ [x]) = l \<and> dropWhile (\<lambda>c. c \<noteq> x) (l @ [x]) = [x]"
  by (induction l) auto

lemma reads_the_line:
  assumes "seals seal lib (sec_rxKey s)" "sendable m" "feeding s (sealed seal m @ w)"
    and "sec_plaintextBuf s = []"
  shows "\<exists>s1. secure_nextLine lib s = (SecLine (snd m), s1) \<and> feeding s1 w \<and>
    sec_rxKey s1 = sec_rxKey s \<and> sec_plaintextBuf s1 = []"
proof -
  obtain s1 where s1: "readEncryptedLine lib s = (Frame (snd m), s1)" "feeding s1 w"
      "sec_rxKey s1 = sec_rxKey s" "sec_plaintextBuf s1 = []"
    using reads_the_frame[OF assms(1-3)] assms(4) by auto
  have lf: "LF \<notin> set (snd m)" using assms(2) by (simp add: sendable_def)
  let ?s2 = "s1\<lparr>sec_plaintextBuf := snd m @ [LF]\<rparr>"
  have "takeWhile (\<lambda>c. c \<noteq> LF) (snd m @ [LF]) = snd m" "dropWhile (\<lambda>c. c \<noteq> LF) (snd m @ [LF]) = [LF]"
    using split_at_mark[of LF "snd m"] lf by simp_all
  then have "sec_lines lib ?s2 = (SecLine (snd m), s1\<lparr>sec_plaintextBuf := []\<rparr>)"
    by (simp add: sec_lines.simps[of lib ?s2])
  then have "sec_lines lib s = (SecLine (snd m), s1\<lparr>sec_plaintextBuf := []\<rparr>)"
    using s1 assms(4) by (simp add: sec_lines.simps[of lib s])
  then have "secure_nextLine lib s = (SecLine (snd m), s1\<lparr>sec_plaintextBuf := []\<rparr>)"
    using assms(3) by (simp add: secure_nextLine_def feeding_def)
  then show ?thesis using s1 by (simp add: feeding_def)
qed

text \<open>
  C29. The lines the peer seals, each of at most 3073 bytes, are returned one by one
  in their order, however the network cuts the bytes and however often the wait is interrupted.
\<close>

theorem secure_lines_arrive:
  assumes "seals seal lib (sec_rxKey s)" and "\<forall>m\<in>set ms. sendable m"
    and "feeding s (concat (map (sealed seal) ms))" and "sec_plaintextBuf s = []"
  shows "fst (sec_read lib (length ms) s) = map (\<lambda>m. SecLine (snd m)) ms"
  using assms
proof (induction ms arbitrary: s)
  case (Cons m ms)
  have f: "feeding s (sealed seal m @ concat (map (sealed seal) ms))" using Cons.prems(3) by simp
  obtain s1 where s1: "secure_nextLine lib s = (SecLine (snd m), s1)"
      "feeding s1 (concat (map (sealed seal) ms))" "sec_rxKey s1 = sec_rxKey s" "sec_plaintextBuf s1 = []"
    using reads_the_line[OF Cons.prems(1) _ f Cons.prems(4)] Cons.prems(2) by auto
  have "fst (sec_read lib (length ms) s1) = map (\<lambda>m. SecLine (snd m)) ms"
    by (rule Cons.IH) (use Cons.prems s1 in simp_all)
  then show ?case using s1(1) by (simp add: split_beta)
qed simp

lemma replicate_eqs:
  "replicate 15 c @ c # xs = replicate 16 c @ xs"
  by (simp add: eval_nat_numeral)

definition demo_secure :: secure where
  "demo_secure = (secure_new ''h'' 1 ''key'' [])\<lparr>sec_fd := 5, sec_opened := True, sec_conn :=
     dead_conn\<lparr>cn_selects := replicate 100 SelReady, cn_recvs := [replicate 24 (CHR ''n''),
       [CHR 0x00, CHR 0x12] @ replicate 15 (CHR ''m''), ''mhi''
         @ replicate 24 (CHR ''p'') @ [CHR 0x00, CHR 0x10] @ replicate 16 (CHR ''m'')]\<rparr>\<rparr>"

theorem secure_lines_arrive_witness:
  "fst (sec_read demo_sodium 2 demo_secure) = [SecLine ''hi'', SecLine []]"
proof -
  let ?seal = "\<lambda>(l::string) (n::string). replicate 16 (CHR ''m'') @ l"
  let ?ms = "[(replicate 24 (CHR ''n''), ''hi''), (replicate 24 (CHR ''p''), [])]"
  have s: "seals ?seal demo_sodium (sec_rxKey demo_secure)" by (simp add: seals_def demo_sodium_def)
  have m: "\<forall>m\<in>set ?ms. sendable m" by (simp add: sendable_def LF_def)
  have w: "concat (map (sealed ?seal) ?ms) = concat (cn_recvs (sec_conn demo_secure))"
    by (simp add: sealed_def demo_secure_def replicate_eqs char_of_def bit_0)
  have f: "feeding demo_secure (concat (map (sealed ?seal) ?ms))"
    unfolding feeding_def w by (simp add: demo_secure_def secure_new_def set_replicate_conv_if)
  have p: "sec_plaintextBuf demo_secure = []" by (simp add: demo_secure_def secure_new_def)
  show ?thesis using secure_lines_arrive[OF s m f p] by (simp add: numeral_2_eq_2)
qed

text \<open>
  A line of 3074 to 4096 bytes, the length the transport allows for, ends
  the connection unread when all but the last byte of its frame are buffered and 1024 bytes follow
  at once.
\<close>

theorem a_long_line_ends_the_connection:
  assumes "seals seal lib (sec_rxKey s)" and "length (fst m) = 24" "3074 \<le> length (snd m)" "length (snd m) \<le> 4096"
    and "sec_rawBuffer s = butlast (sealed seal m)" and "sec_plaintextBuf s = []"
    and "sec_opened s" "0 \<le> sec_fd s" "\<not> sec_exhausted s"
    and "next_select (sec_conn s) = (SelReady, c)" and "recv_bytes 1024 c = (last (sealed seal m) # d, c1)"
    and "length d = 1023"
  shows "fst (secure_nextLine lib s) = SecEnd \<and> \<not> secure_isOpen (snd (secure_nextLine lib s))"
proof -
  obtain n l where m: "m = (n, l)" by force
  have len: "length n = 24" "length (seal l n) = length l + 16" "length l \<le> 4096" "3074 \<le> length l"
    using assms(1-4) by (auto simp: seals_def m)
  have f: "sealed seal m = n @ [char_of (length (seal l n) div 256), char_of (length (seal l n) mod 256)] @ seal l n"
    by (simp add: sealed_def m)
  have raw: "length (sec_rawBuffer s) = length l + 41" using assms(5) len by (simp add: f)
  have "sealed seal m \<noteq> []" by (simp add: f)
  then have "sec_rawBuffer s @ [last (sealed seal m)] = sealed seal m" using assms(5) by simp
  then have nth: "i < length l + 41 \<Longrightarrow> sec_rawBuffer s ! i = sealed seal m ! i" for i
    using raw by (metis nth_append)
  have "sec_rawBuffer s ! 24 = char_of (length (seal l n) div 256)"
      "sec_rawBuffer s ! 25 = char_of (length (seal l n) mod 256)"
    using nth[of 24] nth[of 25] len by (simp_all add: f nth_append)
  then have h: "(of_char (sec_rawBuffer s ! 24) :: nat) * 256 + of_char (sec_rawBuffer s ! 25) = length l + 16"
    using code_of_length[of "length (seal l n)"] len by simp
  have wait: "tryDecryptBufferedFrame lib s = (NoFrame, s)"
    using h raw by (simp add: tryDecryptBufferedFrame_def SECRETBOX_NONCEBYTES_def Let_def)
  obtain s2 where poll: "pollRecvOrExhaust s = (False, s2)" "sec_exhausted s2" "sec_plaintextBuf s2 = []"
    using assms(6,10,11,12) raw len
    by (simp add: pollRecvOrExhaust_def Let_def MAX_LINE_LEN_def SECRETBOX_NONCEBYTES_def
        SECRETBOX_MACBYTES_def sec_say_def)
  have "readEncryptedLine lib s = (NoFrame, s2)"
    using wait poll assms(9) by (simp add: readEncryptedLine.simps[of lib s])
  then have "secure_nextLine lib s = (SecEnd, s2)"
    using assms(6-9) poll(3) by (simp add: secure_nextLine_def sec_lines.simps[of lib s])
  then show ?thesis using poll(2) by (simp add: secure_isOpen_def)
qed

definition long_line :: "string \<times> string" where
  "long_line = (replicate 24 (CHR ''n''), replicate 3074 (CHR ''x''))"

definition flooded :: "string \<Rightarrow> secure" where
  "flooded w = (secure_new ''h'' 1 ''key'' [])\<lparr>sec_fd := 5, sec_opened := True, sec_rawBuffer := butlast w,
     sec_conn := dead_conn\<lparr>cn_selects := [SelReady], cn_recvs := [last w # replicate 1023 (CHR ''z'')]\<rparr>\<rparr>"

theorem a_long_line_ends_the_connection_witness:
  "fst (secure_nextLine demo_sodium
     (flooded (sealed (\<lambda>l n. replicate 16 (CHR ''m'') @ l) long_line))) = SecEnd"
proof -
  let ?seal = "\<lambda>(l::string) (n::string). replicate 16 (CHR ''m'') @ l"
  let ?s = "flooded (sealed ?seal long_line)"
  have a: "seals ?seal demo_sodium (sec_rxKey ?s)" by (simp add: seals_def demo_sodium_def)
  have r: "recv_bytes 1024 (dead_conn\<lparr>cn_recvs := [last w # replicate 1023 (CHR ''z'')]\<rparr>)
      = (last w # replicate 1023 (CHR ''z''), dead_conn)" for w
    by (simp add: recv_bytes_def dead_conn_def)
  have sel: "next_select (sec_conn (flooded w)) = (SelReady, dead_conn\<lparr>cn_recvs := [last w # replicate 1023 (CHR ''z'')]\<rparr>)" for w
    by (simp add: flooded_def next_select_def dead_conn_def)
  have flags: "sec_plaintextBuf (flooded w) = []" "sec_opened (flooded w)" "0 \<le> sec_fd (flooded w)"
      "\<not> sec_exhausted (flooded w)" "sec_rawBuffer (flooded w) = butlast w" for w
    by (simp_all add: flooded_def secure_new_def)
  show ?thesis
    by (rule conjunct1[OF a_long_line_ends_the_connection[OF a _ _ _ flags(5,1,2,3,4) sel r]])
      (simp_all add: long_line_def)
qed

end
