(* ===== verification/Host_Usb.thy ===== *)
theory Host_Usb
  imports Host_Tcp
begin

text \<open>
  The serial line to the device: \<open>src/src/pipeline/USBTransport.cpp\<close> (the build that is not for
  Apple systems). What the system calls answer is an argument; the text of an error comes with it.
\<close>

section \<open>Opening the port\<close>

record usb_calls =
  uc_open :: int
  uc_tcgetattr :: bool
  uc_setspeed :: bool
  uc_tcsetattr :: bool
  uc_getfl :: int
  uc_setfl :: bool
  uc_strerror :: string

datatype usb_event = UsbOpen int | UsbClose int | UsbErr string | UsbOut string

record usb =
  usb_port :: string
  usb_baud :: int
  usb_fd :: int
  usb_opened :: bool
  usb_exhausted :: bool
  usb_pending :: string
  usb_log :: "usb_event list"

definition usb_new :: "string \<Rightarrow> int \<Rightarrow> usb" where
  "usb_new port baud = \<lparr>usb_port = port, usb_baud = baud, usb_fd = - 1, usb_opened = False,
     usb_exhausted = False, usb_pending = [], usb_log = []\<rparr>"

definition usb_emit :: "usb_event \<Rightarrow> usb \<Rightarrow> usb" where
  "usb_emit e u = u\<lparr>usb_log := usb_log u @ [e]\<rparr>"

definition setNonBlocking :: "usb_calls \<Rightarrow> bool" where
  "setNonBlocking k = (if uc_getfl k < 0 then False else uc_setfl k)"

definition usb_fail :: "string \<Rightarrow> usb_calls \<Rightarrow> usb \<Rightarrow> bool \<times> usb" where
  "usb_fail what k u =
     (False,
      (usb_emit (UsbClose (usb_fd u))
        (usb_emit (UsbErr (''[usb] Failed to '' @ what @ usb_port u @ '': '' @ uc_strerror k)) u))\<lparr>usb_fd := - 1\<rparr>)"

definition usb_open :: "usb_calls \<Rightarrow> usb \<Rightarrow> bool \<times> usb" where
  "usb_open k u0 =
     (if usb_opened u0 then (0 \<le> usb_fd u0 \<and> \<not> usb_exhausted u0, u0)
      else
        let u = u0\<lparr>usb_opened := True, usb_fd := uc_open k\<rparr>
        in if usb_fd u < 0 then
             (False, usb_emit (UsbErr (''[usb] Failed to open '' @ usb_port u @ '': '' @ uc_strerror k)) u)
           else
             let u1 = usb_emit (UsbOpen (usb_fd u)) u
             in if \<not> uc_tcgetattr k then usb_fail ''read termios for '' k u1
                else if \<not> uc_setspeed k then usb_fail ''set baud rate for '' k u1
                else if \<not> uc_tcsetattr k then usb_fail ''configure '' k u1
                else if \<not> setNonBlocking k then usb_fail ''set non-blocking mode for '' k u1
                else (True, usb_emit (UsbOut (''[usb] Monitoring '' @ usb_port u1 @ '' at ''
                              @ int_str (usb_baud u1) @ '' 8N1'')) u1))"

definition usb_isOpen :: "usb \<Rightarrow> bool" where
  "usb_isOpen u \<longleftrightarrow> usb_opened u \<and> 0 \<le> usb_fd u \<and> \<not> usb_exhausted u"

section \<open>Reading\<close>

datatype usb_read = UsbData string | UsbAgain | UsbError string

text \<open>
  One turn of the reading loop: the stop flag before it, what \<open>select\<close> answers (with the text of
  its error), the stop flag after it and what \<open>read\<close> returns. An empty answer is the end.
\<close>

record usb_turn =
  ut_stop :: bool
  ut_select :: sel_answer
  ut_error :: string
  ut_stop2 :: bool
  ut_read :: usb_read

definition usb_line_end :: "usb \<Rightarrow> (string \<times> usb) option" where
  "usb_line_end u = map_option (\<lambda>(l, r). (l, u\<lparr>usb_pending := r\<rparr>)) (takeBufferedLine (usb_pending u))"

definition usb_append :: "string \<Rightarrow> usb \<Rightarrow> usb" where
  "usb_append d u =
     (let p = usb_pending u @ d
      in u\<lparr>usb_pending := (if MAX_PENDING_LEN < length p then drop (length p - MAX_PENDING_LEN) p else p)\<rparr>)"

text \<open>\<open>None\<close> while the loop has not ended within the turns.\<close>

fun usb_loop :: "usb_turn list \<Rightarrow> usb \<Rightarrow> (string option \<times> usb) option" where
  "usb_loop [] u = None"
| "usb_loop (t # ts) u =
     (if ut_stop t then Some (None, u\<lparr>usb_exhausted := True\<rparr>)
      else
        (case usb_line_end u of
           Some (l, u1) \<Rightarrow> Some (Some l, u1)
         | None \<Rightarrow>
             if ut_select t = SelInterrupted then usb_loop ts u
             else if ut_select t = SelError then
               Some (None, (usb_emit (UsbErr (''[usb] Select failed on '' @ usb_port u @ '': '' @ ut_error t))
                 u)\<lparr>usb_exhausted := True\<rparr>)
             else if ut_stop2 t then Some (None, u\<lparr>usb_exhausted := True\<rparr>)
             else if ut_select t = SelQuiet then usb_loop ts u
             else
               (case ut_read t of
                  UsbAgain \<Rightarrow> usb_loop ts u
                | UsbError e \<Rightarrow>
                    Some (None, (usb_emit (UsbErr (''[usb] Read failed on '' @ usb_port u @ '': '' @ e))
                      u)\<lparr>usb_exhausted := True\<rparr>)
                | UsbData d \<Rightarrow>
                    if d = [] then Some (None, u\<lparr>usb_exhausted := True\<rparr>)
                    else usb_loop ts (usb_append d u))))"

definition usb_nextLine :: "usb_turn list \<Rightarrow> usb \<Rightarrow> (string option \<times> usb) option" where
  "usb_nextLine ts u =
     (if \<not> usb_opened u \<or> usb_fd u < 0 \<or> usb_exhausted u then Some (None, u) else usb_loop ts u)"

section \<open>Properties\<close>

definition usb_opens :: "usb \<Rightarrow> int list" where
  "usb_opens u = List.map_filter (\<lambda>e. case e of UsbOpen f \<Rightarrow> Some f | _ \<Rightarrow> None) (usb_log u)"

definition usb_closes :: "usb \<Rightarrow> int list" where
  "usb_closes u = List.map_filter (\<lambda>e. case e of UsbClose f \<Rightarrow> Some f | _ \<Rightarrow> None) (usb_log u)"

text \<open>
  Opening a fresh port leaves no descriptor behind: what it opened it closed, or it is held and
  the call has succeeded; a second call changes nothing and tells whether the port is usable.
\<close>

lemmas usb_open_cases = usb_open_def usb_new_def usb_fail_def usb_emit_def usb_opens_def usb_closes_def
  usb_isOpen_def map_filter_def

theorem opening_the_port_leaks_nothing:
  "usb_opens (snd (usb_open k (usb_new port baud))) = usb_closes (snd (usb_open k (usb_new port baud)))
      @ (if fst (usb_open k (usb_new port baud)) then [usb_fd (snd (usb_open k (usb_new port baud)))] else [])"
  "usb_open k2 (snd (usb_open k (usb_new port baud))) = usb_open k (usb_new port baud)"
  by (cases "uc_open k < 0"; cases "uc_tcgetattr k"; cases "uc_setspeed k"; cases "uc_tcsetattr k";
      cases "setNonBlocking k"; simp add: usb_open_cases)+

end
