(* ===== verification/Host_Ota.thy ===== *)
theory Host_Ota
  imports Host_Sockets Host_Discovery
begin

text \<open>
  The update push of the host: \<open>src/src/pipeline/OTAHttpTransport.cpp\<close>. The name resolution, the
  attempts to connect and what the socket answers are arguments.
\<close>

section \<open>Base64\<close>

definition b64_table :: string where
  "b64_table = ''ABCDEFGHIJKLMNOPQRSTUVWXYZabcdefghijklmnopqrstuvwxyz0123456789+/''"

definition b64_quad :: "u8 \<Rightarrow> u8 \<Rightarrow> u8 \<Rightarrow> string" where
  "b64_quad a b c =
     map (\<lambda>i. b64_table ! unat i)
       [drop_bit 2 (a AND 0xFC),
        push_bit 4 (a AND 0x03) OR drop_bit 4 (b AND 0xF0),
        push_bit 2 (b AND 0x0F) OR drop_bit 6 (c AND 0xC0),
        c AND 0x3F]"

fun base64Encode :: "string \<Rightarrow> string" where
  "base64Encode [] = []"
| "base64Encode [a] = take 2 (b64_quad (of_char a) 0 0) @ ''==''"
| "base64Encode [a, b] = take 3 (b64_quad (of_char a) (of_char b) 0) @ ''=''"
| "base64Encode (a # b # c # s) = b64_quad (of_char a) (of_char b) (of_char c) @ base64Encode s"

section \<open>The request\<close>

definition CRLF :: string where "CRLF = [CR, LF]"

definition boundary :: string where "boundary = ''----OTABoundary7d2c4a9e1f''"

definition buildMultipartBody :: "string \<Rightarrow> string \<Rightarrow> string" where
  "buildMultipartBody sig firmware =
     ''--'' @ boundary @ CRLF
     @ ''Content-Disposition: form-data; name=\"signature\"; filename=\"signature.bin\"'' @ CRLF
     @ ''Content-Type: application/octet-stream'' @ CRLF @ CRLF
     @ sig @ CRLF
     @ ''--'' @ boundary @ CRLF
     @ ''Content-Disposition: form-data; name=\"firmware\"; filename=\"firmware.bin\"'' @ CRLF
     @ ''Content-Type: application/octet-stream'' @ CRLF @ CRLF
     @ firmware @ CRLF
     @ ''--'' @ boundary @ ''--'' @ CRLF"

record ota_push =
  op_host :: string
  op_port :: int
  op_username :: string
  op_password :: string
  op_fd :: int
  op_succeeded :: bool
  op_lastError :: string

definition ota_push_new :: "string \<Rightarrow> int \<Rightarrow> string \<Rightarrow> string \<Rightarrow> ota_push" where
  "ota_push_new host port user pass = \<lparr>op_host = host, op_port = port, op_username = user,
     op_password = pass, op_fd = - 1, op_succeeded = False, op_lastError = []\<rparr>"

definition request_head :: "ota_push \<Rightarrow> string \<Rightarrow> string list" where
  "request_head t body =
     [''POST /update HTTP/1.1'',
      ''Host: '' @ op_host t,
      ''Authorization: Basic '' @ base64Encode (op_username t @ '':'' @ op_password t),
      ''Content-Type: multipart/form-data; boundary='' @ boundary,
      ''Content-Length: '' @ dec_str (length body),
      ''Connection: close'']"

definition http_request :: "ota_push \<Rightarrow> string \<Rightarrow> string" where
  "http_request t body = concat (map (\<lambda>l. l @ CRLF) (request_head t body)) @ CRLF @ body"

section \<open>Connecting\<close>

text \<open>The attempts: the descriptor and whether the connection came up.\<close>

fun push_try :: "(int \<times> bool) list \<Rightarrow> int \<times> fd_call list" where
  "push_try [] = (- 1, [])"
| "push_try ((fd, up) # as) =
     (if fd < 0 then push_try as
      else if up then (fd, [OpenFd fd])
      else (let (r, cs) = push_try as in (r, OpenFd fd # CloseFd fd # cs)))"

definition push_open :: "(int \<times> bool) list option \<Rightarrow> ota_push \<Rightarrow> bool \<times> ota_push" where
  "push_open addrs t =
     (case addrs of
        None \<Rightarrow> (False, t\<lparr>op_lastError := ''DNS resolution failed''\<rparr>)
      | Some as \<Rightarrow>
          (let t1 = (if as = [] then t else t\<lparr>op_fd := fst (push_try as)\<rparr>)
           in if op_fd t1 < 0 then (False, t1\<lparr>op_lastError := ''Connection failed''\<rparr>) else (True, t1)))"

definition push_isOpen :: "ota_push \<Rightarrow> bool" where "push_isOpen t \<longleftrightarrow> 0 \<le> op_fd t"

section \<open>The reply\<close>

text \<open>
  One turn of the loop that reads the reply: the deadline has passed, nothing came within the
  slice (or the wait was interrupted), the socket failed or ended, or bytes came. A reply that is
  not complete at the deadline is returned as far as it came.
\<close>

datatype http_turn = TurnLate | TurnQuiet | TurnEnd | TurnData string

datatype RecvIter = KeepGoing | RecvStop | ReturnPartial

definition recvIteration :: "http_turn \<Rightarrow> string \<Rightarrow> bool \<Rightarrow> RecvIter \<times> string \<times> bool" where
  "recvIteration t out headersComplete =
     (case t of
        TurnLate \<Rightarrow> (if \<not> headersComplete then ReturnPartial else RecvStop, out, headersComplete)
      | TurnQuiet \<Rightarrow> (KeepGoing, out, headersComplete)
      | TurnEnd \<Rightarrow> (RecvStop, out, headersComplete)
      | TurnData d \<Rightarrow>
          (KeepGoing, out @ d, headersComplete \<or> contains (CRLF @ CRLF) (out @ d)))"

text \<open>After complete headers, up to 100 ms more: everything but bytes ends it.\<close>

fun drain_reply :: "http_turn list \<Rightarrow> string \<Rightarrow> string" where
  "drain_reply (TurnData d # ts) out = drain_reply ts (out @ d)"
| "drain_reply ts out = out"

fun recv_loop :: "http_turn list \<Rightarrow> http_turn list \<Rightarrow> string \<Rightarrow> bool \<Rightarrow> string" where
  "recv_loop [] drain out hc = (if hc then drain_reply drain out else out)"
| "recv_loop (t # ts) drain out hc =
     (case recvIteration t out hc of
        (ReturnPartial, out1, hc1) \<Rightarrow> out1
      | (RecvStop, out1, hc1) \<Rightarrow> (if hc1 then drain_reply drain out1 else out1)
      | (KeepGoing, out1, hc1) \<Rightarrow> recv_loop ts drain out1 hc1)"

definition recvResponse :: "http_turn list \<Rightarrow> http_turn list \<Rightarrow> string" where
  "recvResponse ts drain = recv_loop ts drain [] False"

section \<open>The push\<close>

text \<open>\<open>sends\<close>: the results of the calls of \<open>send\<close>. \<open>None\<close> while a send has not returned.\<close>

definition push ::
  "int list \<Rightarrow> http_turn list \<Rightarrow> http_turn list \<Rightarrow> string \<Rightarrow> string \<Rightarrow> ota_push \<Rightarrow> (bool \<times> ota_push) option" where
  "push sends ts drain firmware sig t =
     (if op_fd t < 0 then Some (False, t\<lparr>op_lastError := ''not connected''\<rparr>)
      else if length sig \<noteq> 64 then
        Some (False, t\<lparr>op_lastError := ''signature must be 64 bytes''\<rparr>)
      else
        map_option (\<lambda>(sent, _).
          if \<not> sent then (False, t\<lparr>op_lastError := ''Send failed''\<rparr>)
          else
            let response = recvResponse ts drain; ok = contains ''200'' response;
                t1 = t\<lparr>op_succeeded := ok\<rparr>
            in (ok, if ok then t1
                    else t1\<lparr>op_lastError := ''Server response: '' @ take 200 response\<rparr>))
          (send_loop sends (http_request t (buildMultipartBody sig firmware))))"

end
