(* ===== verification/Ota_Push_Proofs.thy ===== *)
theory Ota_Push_Proofs
  imports Host_Ota FW_Ota_Proofs DbcParser_Proofs
begin

text \<open>
  The update push and the device it is meant for: the credentials are the base 64 text of the
  user and the password, and the device refuses every push, since the signature travels where the
  device does not look.
\<close>

section \<open>Base64\<close>

lemma and_low: "(n :: nat) AND 3 = n mod 4" "n AND 15 = n mod 16" "n AND 63 = n mod 64"
  using take_bit_eq_mask[of 2 n] take_bit_eq_mask[of 4 n] take_bit_eq_mask[of 6 n]
  by (simp_all add: take_bit_eq_mod mask_eq_exp_minus_1)

lemma unat_lt: "unat (w :: u8) < 256"
  using unsigned_less[of w] by simp

lemma or_plus:
  assumes "(y :: nat) < 2 ^ k" shows "x * 2 ^ k OR y = x * 2 ^ k + y"
proof -
  have "y = take_bit k y" using assms by (simp add: take_bit_eq_mod)
  then have lt: "bit y n \<Longrightarrow> n < k" for n by (metis bit_take_bit_iff)
  then have "x * 2 ^ k + y = x * 2 ^ k OR y"
    by (intro disjunctive_add) (auto simp: bit_simps simp flip: push_bit_eq_mult dest!: lt)
  then show ?thesis by simp
qed

lemma low_parts:
  fixes w :: u8
  shows "unat (w AND 0x03) = unat w mod 4" "unat (w AND 0x0F) = unat w mod 16" "unat (w AND 0x3F) = unat w mod 64"
proof -
  have "unat (w AND 0x03) = unat w AND 3" "unat (w AND 0x0F) = unat w AND 15" "unat (w AND 0x3F) = unat w AND 63"
    by (simp_all only: unsigned_and_eq) simp_all
  then show "unat (w AND 0x03) = unat w mod 4" "unat (w AND 0x0F) = unat w mod 16"
      "unat (w AND 0x3F) = unat w mod 64"
    unfolding and_low by simp_all
qed

lemma high_parts:
  fixes w :: u8
  shows "unat (drop_bit 2 (w AND 0xFC)) = unat w div 4" "unat (drop_bit 4 (w AND 0xF0)) = unat w div 16"
    "unat (drop_bit 6 (w AND 0xC0)) = unat w div 64"
proof -
  have "drop_bit 2 (unat w AND 252) = unat w div 4" "drop_bit 4 (unat w AND 240) = unat w div 16"
      "drop_bit 6 (unat w AND 192) = unat w div 64"
    using and_low(3)[of "unat w div 4"] and_low(2)[of "unat w div 16"] and_low(1)[of "unat w div 64"]
      unat_lt[of w] drop_bit_and[of 2 "unat w" 252] drop_bit_and[of 4 "unat w" 240]
      drop_bit_and[of 6 "unat w" 192]
    by (simp_all add: drop_bit_eq_div)
  moreover have "unat (w AND 0xFC) = unat w AND 252" "unat (w AND 0xF0) = unat w AND 240"
      "unat (w AND 0xC0) = unat w AND 192"
    by (simp_all only: unsigned_and_eq) simp_all
  ultimately show "unat (drop_bit 2 (w AND 0xFC)) = unat w div 4"
      "unat (drop_bit 4 (w AND 0xF0)) = unat w div 16" "unat (drop_bit 6 (w AND 0xC0)) = unat w div 64"
    unfolding unat_drop_bit_eq by simp_all
qed

lemma shifted_parts:
  fixes w :: u8
  shows "unat (push_bit 4 (w AND 0x03)) = unat w mod 4 * 16" "unat (push_bit 2 (w AND 0x0F)) = unat w mod 16 * 4"
proof -
  have "unat w mod 4 * 16 < 256" "unat w mod 16 * 4 < 256" by simp_all
  then show "unat (push_bit 4 (w AND 0x03)) = unat w mod 4 * 16"
      "unat (push_bit 2 (w AND 0x0F)) = unat w mod 16 * 4"
    unfolding unsigned_push_bit_eq low_parts by (simp_all add: push_bit_eq_mult take_bit_eq_mod)
qed

lemma quad_indices:
  fixes a b c :: u8
  shows "unat (push_bit 4 (a AND 0x03) OR drop_bit 4 (b AND 0xF0)) = unat a mod 4 * 16 + unat b div 16"
    and "unat (push_bit 2 (b AND 0x0F) OR drop_bit 6 (c AND 0xC0)) = unat b mod 16 * 4 + unat c div 64"
  using or_plus[of "unat b div 16" 4 "unat a mod 4"] or_plus[of "unat c div 64" 2 "unat b mod 16"]
    unat_lt[of b] unat_lt[of c]
  unfolding unsigned_or_eq high_parts shifted_parts by simp_all

text \<open>The six-bit digits of three bytes, as a number in base 64.\<close>

definition quad_values :: "nat \<Rightarrow> nat \<Rightarrow> nat \<Rightarrow> nat list" where
  "quad_values a b c = [a div 4, a mod 4 * 16 + b div 16, b mod 16 * 4 + c div 64, c mod 64]"

lemma quad_chars: "b64_quad a b c = map ((!) b64_table) (quad_values (unat a) (unat b) (unat c))"
  unfolding b64_quad_def quad_values_def list.map quad_indices high_parts low_parts ..

lemma quad_values_range: "a < 256 \<Longrightarrow> b < 256 \<Longrightarrow> c < 256 \<Longrightarrow> i \<in> set (quad_values a b c) \<Longrightarrow> i < 64"
  by (auto simp: quad_values_def)

definition b64_value :: "char \<Rightarrow> nat" where
  "b64_value c = length (takeWhile (\<lambda>d. d \<noteq> c) b64_table) mod 64"

lemma b64_value_table: "i < 64 \<Longrightarrow> b64_value (b64_table ! i) = i \<and> b64_table ! i \<noteq> CHR ''=''"
proof -
  have "list_all (\<lambda>i. b64_value (b64_table ! i) = i \<and> b64_table ! i \<noteq> CHR ''='') [0..<64]" by code_simp
  then show "i < 64 \<Longrightarrow> b64_value (b64_table ! i) = i \<and> b64_table ! i \<noteq> CHR ''=''"
    by (simp add: list_all_iff)
qed

lemma b64_value_pad: "b64_value (CHR ''='') = 0" by code_simp

text \<open>
  The decoder of RFC 4648: four characters are a number below 2 to the 24th, whose three bytes
  are kept but for those the padding takes away.
\<close>

fun b64_decode :: "string \<Rightarrow> string" where
  "b64_decode (w # x # y # z # s) =
     (let n = ((b64_value w * 64 + b64_value x) * 64 + b64_value y) * 64 + b64_value z;
          three = [char_of (n div 65536), char_of (n div 256), char_of n]
      in take (if y = CHR ''='' then 1 else if z = CHR ''='' then 2 else 3) three @ b64_decode s)"
| "b64_decode s = []"

lemma quad_number:
  shows "((a div 4 * 64 + (a mod 4 * 16 + b div 16)) * 64 + (b mod 16 * 4 + c div 64)) * 64 + c mod 64
    = a * 65536 + b * 256 + (c::nat)"
proof -
  have "((p * 64 + (q * 16 + r)) * 64 + (t * 4 + u)) * 64 + v
      = (4 * p + q) * 65536 + (16 * r + t) * 256 + (64 * u + v)" for p q r t u v :: nat
    by simp
  from this[of "a div 4" "a mod 4" "b div 16" "b mod 16" "c div 64" "c mod 64"]
  show ?thesis unfolding mult_div_mod_eq .
qed

lemma number_bytes:
  assumes "a < 256" "b < 256" "c < 256"
  shows "(a * 65536 + b * 256 + c) div 65536 = a" "(a * 65536 + b * 256 + c) div 256 = a * 256 + b"
    "(a * 65536 + b * 256 + c) mod 256 = (c::nat)"
proof -
  have e: "a * 65536 + b * 256 + c = c + (a * 256 + b) * 256" "a * 65536 + b * 256 + c = (b * 256 + c) + a * 65536"
    by simp_all
  show "(a * 65536 + b * 256 + c) div 256 = a * 256 + b" "(a * 65536 + b * 256 + c) mod 256 = c"
    unfolding e(1) div_mult_self1[OF numeral_neq_zero] mod_mult_self1 using assms by simp_all
  show "(a * 65536 + b * 256 + c) div 65536 = a"
    unfolding e(2) div_mult_self1[OF numeral_neq_zero] using assms by simp
qed

lemma of_char_byte: "(of_char c :: nat) < 256" by simp

lemma byte_back: "char_of (unat (of_char c :: u8)) = c"
proof -
  have "unat (of_nat (of_char c) :: u8) = of_char c" using of_char_byte[of c] by (simp add: unat_of_nat)
  then show ?thesis by (simp only: of_nat_of_char char_of_char)
qed

lemma decode_three:
  assumes "a < 256" "b < 256" "c < 256"
  shows "take 3 [char_of ((a * 65536 + b * 256 + c) div 65536), char_of ((a * 65536 + b * 256 + c) div 256),
      char_of (a * 65536 + b * 256 + c)] = [char_of a, char_of b, char_of (c :: nat)]"
proof -
  have "(a * 256 + b) mod 256 = b" using assms by simp
  then have "(char_of (a * 256 + b) :: char) = char_of b" "(char_of (a * 65536 + b * 256 + c) :: char) = char_of c"
    using number_bytes(3)[OF assms] by (metis char_of_mod_256)+
  then show ?thesis by (simp only: number_bytes[OF assms]) simp
qed

lemma decode_block:
  assumes "a < 256" "b < 256" "c < 256"
  shows "b64_decode (map ((!) b64_table) (quad_values a b c) @ r) = [char_of a, char_of b, char_of c] @ b64_decode r"
proof -
  note v = b64_value_table[OF quad_values_range[OF assms]]
  have q: "b64_value (b64_table ! (a div 4)) = a div 4"
      "b64_value (b64_table ! (a mod 4 * 16 + b div 16)) = a mod 4 * 16 + b div 16"
      "b64_value (b64_table ! (b mod 16 * 4 + c div 64)) = b mod 16 * 4 + c div 64"
      "b64_value (b64_table ! (c mod 64)) = c mod 64"
      "b64_table ! (b mod 16 * 4 + c div 64) \<noteq> CHR ''=''" "b64_table ! (c mod 64) \<noteq> CHR ''=''"
    using v by (simp_all add: quad_values_def)
  show ?thesis
    unfolding quad_values_def list.map append.simps b64_decode.simps(1) Let_def q(1-4) quad_number
      if_not_P[OF q(5)] if_not_P[OF q(6)] decode_three[OF assms] ..
qed

lemma decode_two:
  assumes "a < 256" "b < 256"
  shows "b64_decode (take 3 (map ((!) b64_table) (quad_values a b 0)) @ ''='') = [char_of a, char_of b]"
proof -
  note v = b64_value_table[OF quad_values_range[OF assms, of 0]]
  have q: "b64_value (b64_table ! (a div 4)) = a div 4"
      "b64_value (b64_table ! (a mod 4 * 16 + b div 16)) = a mod 4 * 16 + b div 16"
      "b64_value (b64_table ! (b mod 16 * 4 + 0 div 64)) = b mod 16 * 4 + 0 div 64"
      "b64_table ! (b mod 16 * 4 + 0 div 64) \<noteq> CHR ''=''"
    using v by (simp_all add: quad_values_def)
  have n: "((a div 4 * 64 + (a mod 4 * 16 + b div 16)) * 64 + (b mod 16 * 4 + 0 div 64)) * 64 + 0
      = a * 65536 + b * 256 + (0::nat)"
    using quad_number[of a b 0] by simp
  have t: "take 3 (map ((!) b64_table) (quad_values a b 0)) @ ''='' =
      [b64_table ! (a div 4), b64_table ! (a mod 4 * 16 + b div 16),
       b64_table ! (b mod 16 * 4 + 0 div 64), CHR ''='']"
    by (simp add: quad_values_def)
  show ?thesis
    using decode_three[OF assms, of 0]
    unfolding t b64_decode.simps Let_def q(1-3) b64_value_pad n if_not_P[OF q(4)] by simp
qed

lemma decode_one:
  assumes "a < 256"
  shows "b64_decode (take 2 (map ((!) b64_table) (quad_values a 0 0)) @ ''=='') = [char_of a]"
proof -
  note v = b64_value_table[OF quad_values_range[OF assms, of 0 0]]
  have q: "b64_value (b64_table ! (a div 4)) = a div 4"
      "b64_value (b64_table ! (a mod 4 * 16 + 0 div 16)) = a mod 4 * 16 + 0 div 16"
    using v by (simp_all add: quad_values_def)
  have n: "((a div 4 * 64 + (a mod 4 * 16 + 0 div 16)) * 64 + 0) * 64 + 0 = a * 65536 + 0 * 256 + (0::nat)"
    using quad_number[of a 0 0] by simp
  have t: "take 2 (map ((!) b64_table) (quad_values a 0 0)) @ ''=='' =
      [b64_table ! (a div 4), b64_table ! (a mod 4 * 16 + 0 div 16), CHR ''='', CHR ''='']"
    by (simp add: quad_values_def)
  show ?thesis
    using decode_three[OF assms, of 0 0]
    unfolding t b64_decode.simps Let_def q b64_value_pad n by simp
qed

text \<open>
  The text the host puts into the authorization header is base 64:
  decoding it gives back the user and the password, and it is four characters for every three begun.
\<close>

theorem credentials_survive_base64:
  "b64_decode (base64Encode s) = s \<and> length (base64Encode s) = (length s + 2) div 3 * 4"
proof (induction s rule: base64Encode.induct)
  case (2 a)
  show ?case
    using decode_one[OF unat_lt, of "of_char a"] byte_back[of a]
    by (simp only: base64Encode.simps quad_chars unat_0) (simp add: quad_values_def)
next
  case (3 a b)
  show ?case
    using decode_two[OF unat_lt unat_lt, of "of_char a" "of_char b"] byte_back[of a] byte_back[of b]
    by (simp only: base64Encode.simps quad_chars unat_0) (simp add: quad_values_def)
next
  case (4 a b c s)
  have "length (b64_quad x y z) = 4" for x y z by (simp add: b64_quad_def)
  moreover have "(5 + length s) div 3 = Suc (Suc (Suc (length s)) div 3)" by presburger
  ultimately show ?case
    using 4 decode_block[OF unat_lt unat_lt unat_lt, of "of_char a" "of_char b" "of_char c" "base64Encode s"]
    by (simp only: base64Encode.simps quad_chars byte_back length_append) simp
qed simp

section \<open>The device refuses the push\<close>

text \<open>The header lines of a request: up to the first empty line.\<close>

function head_lines :: "string \<Rightarrow> string \<Rightarrow> string list" where
  "head_lines acc [] = [acc]"
| "head_lines acc (c # r) =
     (if c = CR \<and> take 1 r = [LF] then (if acc = [] then [] else acc # head_lines [] (tl r))
      else head_lines (acc @ [c]) r)"
  by pat_completeness auto
termination by (relation "measure (\<lambda>(a, r). length r)") auto

declare head_lines.simps [simp del]

definition has_header :: "string \<Rightarrow> string \<Rightarrow> bool" where
  "has_header name req \<longleftrightarrow>
     (\<exists>l\<in>set (head_lines [] req). starts_with (map to_lower name @ '':'') (map to_lower l))"

lemma head_lines_skip: "CR \<notin> set l \<Longrightarrow> head_lines acc (l @ r) = head_lines (acc @ l) r"
  by (induction l arbitrary: acc) (auto simp: head_lines.simps)

lemma head_lines_line:
  assumes "CR \<notin> set l" "l \<noteq> []"
  shows "head_lines [] (l @ CRLF @ r) = l # head_lines [] r"
  using assms by (simp add: head_lines_skip) (simp add: CRLF_def head_lines.simps)

lemma head_lines_end: "head_lines [] (CRLF @ r) = []"
  by (simp add: CRLF_def head_lines.simps)

lemma head_lines_all:
  "list_all (\<lambda>l. CR \<notin> set l \<and> l \<noteq> []) ls \<Longrightarrow>
     head_lines [] (concat (map (\<lambda>l. l @ CRLF) ls) @ CRLF @ r) = ls"
proof (induction ls)
  case (Cons l ls)
  have "head_lines [] (l @ CRLF @ (concat (map (\<lambda>l. l @ CRLF) ls) @ CRLF @ r)) = l # ls"
    using Cons by (subst head_lines_line) auto
  then show ?case by simp
qed (simp add: head_lines_end)

lemma base64_chars: "set (base64Encode s) \<subseteq> insert (CHR ''='') (set b64_table)"
proof -
  have q: "set (b64_quad a b c) \<subseteq> set b64_table" for a b c
  proof -
    have "length b64_table = 64" by code_simp
    then show ?thesis unfolding quad_chars
      using quad_values_range[OF unat_lt unat_lt unat_lt, of _ a b c] by (auto intro!: nth_mem)
  qed
  show ?thesis
  proof (induction s rule: base64Encode.induct)
    case (2 a)
    then show ?case using q set_take_subset by (fastforce dest: in_set_takeD)
  next
    case (3 a b)
    then show ?case using q by (fastforce dest: in_set_takeD)
  next
    case (4 a b c s)
    then show ?case using q[of "of_char a" "of_char b" "of_char c"] by auto
  qed simp
qed

lemma base64_no_CR: "CR \<notin> set (base64Encode s)"
proof -
  have "CR \<notin> insert (CHR ''='') (set b64_table)" by code_simp
  then show ?thesis using base64_chars by blast
qed

lemma dec_no_CR: "CR \<notin> set (dec_str n)"
  by (rule not_in_dec) code_simp

lemma push_headers:
  assumes "CR \<notin> set (op_host t)"
  shows "head_lines [] (http_request t body) = request_head t body"
  unfolding http_request_def
  by (rule head_lines_all)
    (use assms base64_no_CR dec_no_CR in \<open>auto simp: request_head_def CR_def boundary_def\<close>)

lemma push_has_no_signature_header:
  assumes "CR \<notin> set (op_host t)"
  shows "\<not> has_header ''X-Firmware-Signature'' (http_request t body)"
  unfolding has_header_def push_headers[OF assms] request_head_def
  by (simp add: starts_with_def to_lower_def)

lemma no_header_no_upload:
  assumes "o_header e = []" "up_status u = UPLOAD_FILE_START \<or> otaErr s \<noteq> []"
  shows "otaErr (fst (handleUpload e u s)) \<noteq> [] \<and> SetBootPartition p \<notin> set (snd (handleUpload e u s))"
  using assms
  by (auto simp: handleUpload_def upload_start_def parseHexSig_def Let_def split_beta)

lemma no_header_no_boot:
  assumes "\<forall>(e, u)\<in>set es. o_header e = []"
    and "es \<noteq> [] \<longrightarrow> up_status (snd (hd es)) = UPLOAD_FILE_START \<or> otaErr s \<noteq> []"
  shows "(es \<noteq> [] \<or> otaErr s \<noteq> [] \<longrightarrow> otaErr (fst (ota_run s es)) \<noteq> []) \<and>
    SetBootPartition p \<notin> set (snd (ota_run s es))"
  using assms
proof (induction es arbitrary: s)
  case (Cons x es)
  obtain e u where x: "x = (e, u)" by force
  note h = no_header_no_upload[of e u s p]
  have h1: "otaErr (fst (handleUpload e u s)) \<noteq> []" "SetBootPartition p \<notin> set (snd (handleUpload e u s))"
    using h Cons.prems by (auto simp: x)
  have "otaErr (fst (ota_run (fst (handleUpload e u s)) es)) \<noteq> [] \<and>
      SetBootPartition p \<notin> set (snd (ota_run (fst (handleUpload e u s)) es))"
    using Cons.IH[of "fst (handleUpload e u s)"] Cons.prems(1) h1 by auto
  then show ?case using h1 by (simp add: x split_beta)
qed simp

text \<open>
  C18. The host's push is refused by the device, whatever the image and however
  good the signature: the request carries the signature as a part of its body, and the device
  reads it from a header the request does not have. No partition is selected, and the reply is
  never the one of a success.
\<close>

theorem the_device_refuses_the_push:
  assumes hdr: "\<And>name req. \<not> has_header name req \<Longrightarrow> hdr req name = []"
    and host: "CR \<notin> set (op_host t)"
    and uploads: "es \<noteq> []" "up_status (snd (hd es)) = UPLOAD_FILE_START"
    and env: "\<forall>(e, u)\<in>set es. o_header e =
      hdr (http_request t (buildMultipartBody sig firmware)) ''X-Firmware-Signature''"
  shows "SetBootPartition p \<notin> set (snd (ota_run s es)) \<and>
    SuccessCallback \<notin> set (handlePost hasError (fst (ota_run s es))) \<and>
    HttpSend HTTP_OK msg \<notin> set (handlePost hasError (fst (ota_run s es)))"
proof -
  have "hdr (http_request t (buildMultipartBody sig firmware)) ''X-Firmware-Signature'' = []"
    by (rule hdr) (rule push_has_no_signature_header[OF host])
  then have e: "\<forall>(e, u)\<in>set es. o_header e = []" using env by auto
  have err: "otaErr (fst (ota_run s es)) \<noteq> []" "SetBootPartition p \<notin> set (snd (ota_run s es))"
    using no_header_no_boot[OF e, of s p] uploads by auto
  have "HTTP_OK \<noteq> httpCode (classify_error m)" for m
    by (simp add: classify_error_def Let_def HTTP_FORBIDDEN_def HTTP_OK_def HTTP_BAD_REQUEST_def)
  then show ?thesis using err by (auto simp: handlePost_def)
qed

definition seen_header :: "string \<Rightarrow> string \<Rightarrow> string" where
  "seen_header req name = (if has_header name req then ''?'' else [])"

definition ex_push :: ota_push where "ex_push = ota_push_new ''esp32.local'' 80 ''ota'' ''secret''"

theorem the_device_refuses_the_push_witness:
  "\<exists>es. es \<noteq> [] \<and> SetBootPartition 1 \<notin> set (snd (ota_run (ota_setup 0 (ota_new (replicate 64 0))) es)) \<and>
     HttpSend HTTP_OK ''Update Success! Rebooting...'' \<notin>
       set (handlePost False (fst (ota_run (ota_setup 0 (ota_new (replicate 64 0))) es)))"
proof -
  let ?e = "ex_ota_env\<lparr>o_header := seen_header
    (http_request ex_push (buildMultipartBody (replicate 64 (CHR ''s'')) ''image'')) ''X-Firmware-Signature''\<rparr>"
  let ?es = "[(?e, \<lparr>up_status = UPLOAD_FILE_START, up_buf = [], up_total = 0\<rparr>),
     (?e, \<lparr>up_status = UPLOAD_FILE_END, up_buf = [], up_total = 3\<rparr>)]"
  have host: "CR \<notin> set (op_host ex_push)" by (simp add: ex_push_def ota_push_new_def CR_def)
  have r: "SetBootPartition 1 \<notin> set (snd (ota_run (ota_setup 0 (ota_new (replicate 64 0))) ?es)) \<and>
    SuccessCallback \<notin> set (handlePost False (fst (ota_run (ota_setup 0 (ota_new (replicate 64 0))) ?es))) \<and>
    HttpSend HTTP_OK ''Update Success! Rebooting...'' \<notin>
      set (handlePost False (fst (ota_run (ota_setup 0 (ota_new (replicate 64 0))) ?es)))"
    by (rule the_device_refuses_the_push[where hdr = seen_header and sig = "replicate 64 (CHR ''s'')" and
        firmware = "''image''", OF _ host])
      (simp_all add: seen_header_def)
  then show ?thesis by (intro exI[of _ ?es]) simp
qed

text \<open>
  A reply is taken for a success when the three characters 200 occur anywhere in it, be it a
  refusal that is 200 bytes long.
\<close>

theorem a_refusal_counts_as_success:
  "push [1000] [TurnData (''HTTP/1.1 403 Forbidden'' @ CRLF @ ''Content-Length: 200'' @ CRLF @ CRLF), TurnEnd] []
     ''image'' (replicate 64 (CHR ''s'')) (ex_push\<lparr>op_fd := 5\<rparr>)
   = Some (True, ex_push\<lparr>op_fd := 5, op_succeeded := True\<rparr>)"
proof -
  let ?r = "''HTTP/1.1 403 Forbidden'' @ CRLF @ ''Content-Length: 200'' @ CRLF @ CRLF"
  have c: "contains ''200'' ?r" by code_simp
  have r: "recvResponse [TurnData ?r, TurnEnd] [] = ?r"
    by (simp add: recvResponse_def recvIteration_def del: append_Cons)
  have n: "length (http_request ex_push (buildMultipartBody (replicate 64 (CHR ''s'')) ''image'')) \<le> 1000"
    by code_simp
  have ne: "http_request ex_push (buildMultipartBody (replicate 64 (CHR ''s'')) ''image'') \<noteq> []"
    by (simp add: http_request_def CRLF_def)
  have sent: "send_loop [1000] w = Some (True, w)" if "w \<noteq> []" "length w \<le> 1000" for w
    using that by (cases w) simp_all
  have h: "http_request (ex_push\<lparr>op_fd := 5\<rparr>) b = http_request ex_push b" for b
    by (simp add: http_request_def request_head_def)
  show ?thesis
    unfolding push_def r h sent[OF ne n] using c by (simp add: Let_def)
qed

end
