(* ===== verification/FW_App.thy ===== *)
theory FW_App
  imports FW_WiFi_Proofs FW_StatusLed FW_Discovery FW_CanBridge
begin

text \<open>
  The firmware as a whole: \<open>firmware/vanilla/FirmwareApp.cpp\<close>, which drives the WiFi manager, the
  status light, the discovery beacon and the clock synchronisation in one loop and reports what
  happens, with \<open>NtpTimeSync.cpp\<close>, \<open>NtpSupervisor.h\<close>, \<open>ObservabilityHub.h\<close> and
  \<open>WifiTransitionObserver.h\<close>.

  A null result is a failed assertion. The commands of the AT dispatcher and the token store are
  modelled in their own theories; the application only hands them on.
\<close>

section \<open>The clock\<close>

definition NTP_RETRY_INTERVAL_MS :: int where "NTP_RETRY_INTERVAL_MS = 15000"
definition NTP_SYNC_RETRY_MAX :: u32 where "NTP_SYNC_RETRY_MAX = 3"
definition NTP_SERVER :: string where "NTP_SERVER = ''pool.ntp.org''"

record ntp =
  n_synced :: bool
  n_lastSyncMs :: u32
  n_syncAttempts :: u32
  n_callback :: bool

datatype ntp_out =
    SntpOperatingMode int | SntpServerName int string | SntpSyncMode int | SntpSyncInterval int
  | SntpNotification | SntpInit | SetEnv string string int | TzSet | NtpCallback bool "string option"

definition ntp_new :: ntp where
  "ntp_new = \<lparr>n_synced = False, n_lastSyncMs = 0, n_syncAttempts = 0, n_callback = False\<rparr>"

definition ntp_init :: "bool \<Rightarrow> ntp \<Rightarrow> ntp \<times> ntp_out list" where
  "ntp_init enabled n =
     (if n_synced n then (n, [])
      else if enabled then (n, [])
      else
        let n1 = n\<lparr>n_syncAttempts := n_syncAttempts n + 1\<rparr>
        in if NTP_SYNC_RETRY_MAX < n_syncAttempts n1 then
             (n1, if n_callback n1 then [NtpCallback False None] else [])
           else
             (n1, [SntpOperatingMode 1, SntpServerName 0 NTP_SERVER, SntpSyncMode 1,
                   SntpSyncInterval NTP_RETRY_INTERVAL_MS, SntpNotification, SntpInit,
                   SetEnv ''TZ'' ''UTC'' 1, TzSet]))"

text \<open>The time as the library prints it comes with the notification.\<close>

definition onSyncComplete :: "string \<Rightarrow> ntp \<Rightarrow> ntp \<times> ntp_out list" where
  "onSyncComplete timeText n =
     (let (n1, out) =
        (if \<not> n_synced n then
           (n\<lparr>n_synced := True, n_syncAttempts := 0\<rparr>,
            if n_callback n then [NtpCallback True (Some timeText)] else [])
         else (n, []))
      in (n1\<lparr>n_lastSyncMs := 0\<rparr>, out))"

definition isTimeValid :: "int \<Rightarrow> bool" where
  "isTimeValid t \<longleftrightarrow> 1000000 \<le> t"

definition getCurrentTimestamp :: "int \<Rightarrow> u64" where
  "getCurrentTimestamp now = (if \<not> isTimeValid now then 0 else of_int now)"

text \<open>The supervisor.\<close>

record ntp_supervisor =
  ns_ntp :: ntp
  ns_started :: bool

definition onNtpInitRequested :: "ntp_supervisor \<Rightarrow> ntp_supervisor" where
  "onNtpInitRequested s = s\<lparr>ns_started := True\<rparr>"

definition maybeStart :: "bool \<Rightarrow> ntp_supervisor \<Rightarrow> ntp_supervisor \<times> ntp_out list" where
  "maybeStart enabled s =
     (if ns_started s \<and> \<not> n_synced (ns_ntp s) then
        let (n, out) = ntp_init enabled (ns_ntp s) in (s\<lparr>ns_ntp := n\<rparr>, out)
      else (s, []))"

section \<open>The event log\<close>

record wifi_observer =
  ob_previousState :: WiFiState
  ob_lastDisconnectReason :: int

type_synonym log_event = "string \<times> string"

definition observe :: "WiFiState \<Rightarrow> string \<Rightarrow> int \<Rightarrow> wifi_observer \<Rightarrow> wifi_observer \<times> log_event list" where
  "observe current ip apReason ob =
     (if current = ob_previousState ob then (ob, [])
      else
        let (ob1, e1) =
          (if current = WIFI_CONNECTED then
             (ob\<lparr>ob_lastDisconnectReason := 0\<rparr>, [(''wifi_connected'', ''ip='' @ ip)])
           else if ob_previousState ob = WIFI_CONNECTED then
             (ob, [(''wifi_drop'', ''reason='' @ int_str (ob_lastDisconnectReason ob))])
           else (ob, []));
          e2 = (if isApModeState current \<and> \<not> isApModeState (ob_previousState ob)
                then [(''wifi_ap_fallback'', ''reason='' @ int_str apReason)] else [])
        in (ob1\<lparr>ob_previousState := current\<rparr>, e1 @ e2))"

definition recordDisconnectReason :: "int \<Rightarrow> wifi_observer \<Rightarrow> wifi_observer" where
  "recordDisconnectReason r ob = ob\<lparr>ob_lastDisconnectReason := r\<rparr>"

record hub =
  hub_logger :: bool
  hub_clientIp :: string
  hub_observer :: wifi_observer

definition hub_new :: hub where
  "hub_new = \<lparr>hub_logger = False, hub_clientIp = [],
     hub_observer = \<lparr>ob_previousState = WIFI_DISCONNECTED, ob_lastDisconnectReason = 0\<rparr>\<rparr>"

definition hub_emit :: "hub \<Rightarrow> log_event list \<Rightarrow> log_event list" where
  "hub_emit h es = (if hub_logger h then es else [])"

definition observeWifiState :: "wifi_ctx \<Rightarrow> string \<Rightarrow> hub \<Rightarrow> hub \<times> log_event list" where
  "observeWifiState ctx ip h =
     (let (ob, es) = observe (state ctx) ip (escalatedToApReason ctx) (hub_observer h)
      in (h\<lparr>hub_observer := ob\<rparr>, hub_emit h es))"

definition hub_clientConnected :: "string \<Rightarrow> hub \<Rightarrow> hub \<times> log_event list" where
  "hub_clientConnected ip h =
     (let h1 = h\<lparr>hub_clientIp := ip\<rparr> in (h1, hub_emit h1 [(''client_connected'', ''ip='' @ ip)]))"

definition hub_authFailed :: "string \<Rightarrow> hub \<Rightarrow> hub \<times> log_event list" where
  "hub_authFailed ip h = (h, hub_emit h [(''auth_fail'', ''ip='' @ ip @ '' reason=bad_token'')])"

definition hub_clientDisconnected :: "string \<Rightarrow> int \<Rightarrow> hub \<Rightarrow> hub \<times> log_event list" where
  "hub_clientDisconnected ip reason h =
     (let h1 = h\<lparr>hub_clientIp := []\<rparr>
      in (h1, hub_emit h1 [(''client_disconnected'', ''ip='' @ ip @ '' reason='' @ int_str reason)]))"

section \<open>The application\<close>

record fw_app =
  a_wifi :: wifi_ctx
  a_led :: status_led
  a_disc :: disc_policy
  a_can :: can_bridge
  a_ntp :: ntp_supervisor
  a_hub :: hub
  a_lastInterval :: u32
  a_initialized :: bool

datatype app_out =
    WifiCall wifi_eff | LedCall led_out | DiscCall disc_out | NtpCall ntp_out | LogEvent log_event

text \<open>What the environment answers during one turn of the loop.\<close>

record app_env =
  ev_radio :: radio
  ev_disc :: disc_env
  ev_client :: bool
  ev_sntpEnabled :: bool

text \<open>The callbacks the application gives the WiFi manager are all set.\<close>

definition app_cfg :: "'p prefs_if \<Rightarrow> string option \<Rightarrow> string option \<Rightarrow> 'p wifi_cfg" where
  "app_cfg pf ssid pass = \<lparr>w_pf = pf, bakedSsid = ssid, bakedPass = pass, ntpInitCallback = True,
     tcpServerRestartCallback = True, discoveryResetCallback = True\<rparr>"

definition app_new :: "bool \<Rightarrow> can_bridge \<Rightarrow> disc_policy \<Rightarrow> fw_app" where
  "app_new ledOutput can disc =
     \<lparr>a_wifi = ctx_init, a_led = led_new ledOutput, a_disc = disc, a_can = can,
      a_ntp = \<lparr>ns_ntp = ntp_new, ns_started = False\<rparr>, a_hub = hub_new, a_lastInterval = 0,
      a_initialized = False\<rparr>"

text \<open>What the calls of the WiFi manager change elsewhere.\<close>

fun wifi_callback :: "disc_env \<Rightarrow> wifi_eff \<Rightarrow> fw_app \<Rightarrow> fw_app" where
  "wifi_callback e DiscoveryReset s = s\<lparr>a_disc := policy_resetBackoff e (a_disc s)\<rparr>"
| "wifi_callback e NtpInit s = s\<lparr>a_ntp := onNtpInitRequested (a_ntp s)\<rparr>"
| "wifi_callback e _ s = s"

definition app_observe :: "string \<Rightarrow> fw_app \<Rightarrow> fw_app \<times> app_out list" where
  "app_observe ip s =
     (let (h, es) = observeWifiState (a_wifi s) ip (a_hub s) in (s\<lparr>a_hub := h\<rparr>, map LogEvent es))"

definition app_wifi ::
    "disc_env \<Rightarrow> string \<Rightarrow> wifi_ctx \<times> wifi_eff list \<Rightarrow> fw_app \<Rightarrow> fw_app \<times> app_out list" where
  "app_wifi e ip r s =
     (let s1 = fold (wifi_callback e) (snd r) (s\<lparr>a_wifi := fst r\<rparr>); (s2, out) = app_observe ip s1
      in (s2, map WifiCall (snd r) @ out))"

definition app_init ::
    "'p wifi_cfg \<Rightarrow> 'p \<Rightarrow> app_env \<Rightarrow> fw_app \<Rightarrow> (fw_app \<times> app_out list) option" where
  "app_init w p ev s =
     (if a_initialized s then None
      else
        let r = wifi_init w p (ev_radio ev) (a_wifi s)
        in Some (app_wifi (ev_disc ev) (localIP (ev_radio ev)) r
             (s\<lparr>a_can := can_init (a_can s), a_initialized := True\<rparr>)))"

text \<open>The event of a beacon: only when the cadence has changed since the last one.\<close>

definition broadcast_event :: "fw_app \<Rightarrow> fw_app \<times> app_out list" where
  "broadcast_event s =
     (let d = p_mgr (a_disc s);
          ageMs = (if connectTimeMs d < lastBroadcastMs d then lastBroadcastMs d - connectTimeMs d else 0);
          interval = discoveryIntervalMs ageMs
      in if interval = a_lastInterval s then (s, [])
         else
           (s\<lparr>a_lastInterval := interval\<rparr>,
            map LogEvent (hub_emit (a_hub s)
              [(''discovery_broadcast'',
                ''cadence='' @ (if 1000 \<le> interval then dec_str (unat (interval div 1000)) @ ''s''
                                else dec_str (unat interval) @ ''ms'')
                @ '' n='' @ dec_str (unat (broadcastCount d)))])))"

definition is_broadcast :: "disc_out \<Rightarrow> bool" where
  "is_broadcast c = (case c of BroadcastCallback _ \<Rightarrow> True | _ \<Rightarrow> False)"

definition app_update ::
    "'p wifi_cfg \<Rightarrow> 'p \<Rightarrow> u8 list \<Rightarrow> (u8 list \<Rightarrow> u8 list) \<Rightarrow> app_env \<Rightarrow> u32 \<Rightarrow> fw_app \<Rightarrow>
     (fw_app \<times> app_out list) option" where
  "app_update w p dev sign ev now s =
     (if \<not> a_initialized s then None
      else
        let (disc, o1) = startIfNeeded (ev_disc ev) (a_disc s);
            s1 = s\<lparr>a_disc := disc\<rparr>;
            (s2, o2) = app_wifi (ev_disc ev) (localIP (ev_radio ev))
                         (wifi_update w p (ev_radio ev) now (a_wifi s1)) s1;
            (led, o3) = led_policy_update True (a_wifi s2) (ev_client ev) now (a_led s2);
            (ntp, o4) = maybeStart (ev_sntpEnabled ev) (a_ntp s2);
            (disc2, o5) = policy_update dev sign (ev_disc ev) now (ev_client ev) (a_disc s2);
            s3 = s2\<lparr>a_led := led, a_ntp := ntp, a_disc := disc2\<rparr>;
            (s4, o6) = (if list_ex is_broadcast o5 then broadcast_event s3 else (s3, []))
        in Some (s4, map DiscCall o1 @ o2 @ map LedCall o3 @ map NtpCall o4 @ map DiscCall o5 @ o6))"

text \<open>The driver's disconnect event, with what the radio knows about the access point.\<close>

definition onWiFiDisconnected ::
    "int \<Rightarrow> string \<Rightarrow> int \<Rightarrow> fw_app \<Rightarrow> fw_app \<times> app_out list" where
  "onWiFiDisconnected reason bssid rssi s =
     (let h = (a_hub s)\<lparr>hub_observer := recordDisconnectReason reason (hub_observer (a_hub s))\<rparr>;
          (ctx, es) = onDisconnected reason (a_wifi s);
          detail = ''reason='' @ int_str reason @ '' name='' @ wifiReasonName reason
            @ '' phase='' @ wifiReasonPhase reason
            @ (if bssid \<noteq> [] then '' bssid='' @ bssid @ '' rssi='' @ int_str rssi else [])
      in (s\<lparr>a_hub := h, a_wifi := ctx\<rparr>,
          map WifiCall es @ map LogEvent (hub_emit h [(''wifi_drop'', detail)])))"

definition app_setMonitorActive :: "bool \<Rightarrow> fw_app \<Rightarrow> fw_app" where
  "app_setMonitorActive a s = s\<lparr>a_can := can_setMonitorActive a (a_can s)\<rparr>"

definition app_setDiscoveryEnabled :: "bool \<Rightarrow> fw_app \<Rightarrow> fw_app" where
  "app_setDiscoveryEnabled b s = s\<lparr>a_disc := (a_disc s)\<lparr>p_enabled := b\<rparr>\<rparr>"

definition app_resetDiscoveryBackoff :: "disc_env \<Rightarrow> fw_app \<Rightarrow> fw_app" where
  "app_resetDiscoveryBackoff e s = s\<lparr>a_disc := policy_resetBackoff e (a_disc s)\<rparr>"

definition app_setEventLogger :: "fw_app \<Rightarrow> fw_app" where
  "app_setEventLogger s = s\<lparr>a_hub := (a_hub s)\<lparr>hub_logger := True\<rparr>\<rparr>"

definition app_hub :: "(hub \<Rightarrow> hub \<times> log_event list) \<Rightarrow> fw_app \<Rightarrow> fw_app \<times> app_out list" where
  "app_hub f s = (let (h, es) = f (a_hub s) in (s\<lparr>a_hub := h\<rparr>, map LogEvent es))"

end
