(* ===== verification/FW_App_Proofs.thy ===== *)
theory FW_App_Proofs
  imports FW_App
begin

text \<open>
  What the whole firmware guarantees: a connection announces itself in the same turn of the loop,
  the event log never claims a connection that is not there (but can miss one), and the clock is
  asked for a bounded number of times.
\<close>

section \<open>The callbacks\<close>

lemma callbacks_keep [simp]:
  "a_wifi (fold (wifi_callback e) es s) = a_wifi s" "a_led (fold (wifi_callback e) es s) = a_led s"
  "a_hub (fold (wifi_callback e) es s) = a_hub s" "a_can (fold (wifi_callback e) es s) = a_can s"
  "a_lastInterval (fold (wifi_callback e) es s) = a_lastInterval s"
  "a_initialized (fold (wifi_callback e) es s) = a_initialized s"
  "ns_ntp (a_ntp (fold (wifi_callback e) es s)) = ns_ntp (a_ntp s)"
  "p_enabled (a_disc (fold (wifi_callback e) es s)) = p_enabled (a_disc s)"
proof (induction es arbitrary: s)
  case (Cons x xs)
  case 1 show ?case using Cons(1) by (cases x) auto
  case 2 show ?case using Cons(2) by (cases x) auto
  case 3 show ?case using Cons(3) by (cases x) auto
  case 4 show ?case using Cons(4) by (cases x) auto
  case 5 show ?case using Cons(5) by (cases x) auto
  case 6 show ?case using Cons(6) by (cases x) auto
  case 7 show ?case using Cons(7) by (cases x) (auto simp: onNtpInitRequested_def)
  case 8 show ?case using Cons(8) by (cases x) (auto simp: policy_resetBackoff_def)
qed auto

lemma observe_state [simp]: "ob_previousState (fst (observe cur ip r ob)) = cur"
  by (auto simp: observe_def Let_def split_beta)

section \<open>The event log\<close>

text \<open>Whether the log, read to its end, says that the device is on the network.\<close>

fun log_says :: "bool \<Rightarrow> app_out list \<Rightarrow> bool" where
  "log_says b [] = b"
| "log_says b (LogEvent e # es) =
     log_says (if fst e = ''wifi_connected'' then True else if fst e = ''wifi_drop'' then False else b) es"
| "log_says b (c # es) = log_says b es"

lemma log_says_append [simp]: "log_says b (xs @ ys) = log_says (log_says b xs) ys"
  by (induction b xs rule: log_says.induct) simp_all

lemma log_says_wifi [simp]: "log_says b (map WifiCall xs) = b" by (induction xs) auto
lemma log_says_led [simp]: "log_says b (map LedCall xs) = b" by (induction xs) auto
lemma log_says_disc [simp]: "log_says b (map DiscCall xs) = b" by (induction xs) auto
lemma log_says_ntp [simp]: "log_says b (map NtpCall xs) = b" by (induction xs) auto

datatype app_event =
    AppTick app_env u32 | AppDrop int string int | AppHub "string" int bool
  | AppDiscovery bool | AppMonitor bool | AppInit app_env | AppSync string

fun app_step ::
    "'p wifi_cfg \<Rightarrow> 'p \<Rightarrow> u8 list \<Rightarrow> (u8 list \<Rightarrow> u8 list) \<Rightarrow> fw_app \<times> app_out list \<Rightarrow> app_event \<Rightarrow>
     fw_app \<times> app_out list" where
  "app_step w p dev sign (s, log) (AppTick ev now) =
     (case app_update w p dev sign ev now s of None \<Rightarrow> (s, log) | Some (s1, out) \<Rightarrow> (s1, log @ out))"
| "app_step w p dev sign (s, log) (AppDrop reason bssid rssi) =
     (let (s1, out) = onWiFiDisconnected reason bssid rssi s in (s1, log @ out))"
| "app_step w p dev sign (s, log) (AppHub ip reason up) =
     (let (s1, out) = app_hub (if up then hub_clientConnected ip else hub_clientDisconnected ip reason) s
      in (s1, log @ out))"
| "app_step w p dev sign (s, log) (AppDiscovery b) = (app_setDiscoveryEnabled b s, log)"
| "app_step w p dev sign (s, log) (AppMonitor b) = (app_setMonitorActive b s, log)"
| "app_step w p dev sign (s, log) (AppInit ev) =
     (case app_init w p ev s of None \<Rightarrow> (s, log) | Some (s1, out) \<Rightarrow> (s1, log @ out))"
| "app_step w p dev sign (s, log) (AppSync t) =
     (let (n, out) = onSyncComplete t (ns_ntp (a_ntp s))
      in (s\<lparr>a_ntp := (a_ntp s)\<lparr>ns_ntp := n\<rparr>\<rparr>, log @ map NtpCall out))"

text \<open>The log claims a connection only if the manager has one, and so does the observer.\<close>

definition log_sound :: "bool \<Rightarrow> fw_app \<times> app_out list \<Rightarrow> bool" where
  "log_sound b x \<longleftrightarrow> hub_logger (a_hub (fst x)) \<and>
     (log_says b (snd x) \<longrightarrow>
        state (a_wifi (fst x)) = WIFI_CONNECTED \<and>
        ob_previousState (hub_observer (a_hub (fst x))) = WIFI_CONNECTED)"

lemma observing_is_sound:
  assumes "hub_logger h" "b \<longrightarrow> ob_previousState (hub_observer h) = WIFI_CONNECTED"
  shows "hub_logger (fst (observeWifiState ctx ip h))"
    and "log_says b (map LogEvent (snd (observeWifiState ctx ip h))) \<longrightarrow> state ctx = WIFI_CONNECTED"
    and "ob_previousState (hub_observer (fst (observeWifiState ctx ip h))) = state ctx"
  using assms
  by (auto simp: observeWifiState_def observe_def hub_emit_def Let_def split_beta split: if_splits)

lemma broadcast_event_keeps:
  "a_wifi (fst (broadcast_event s)) = a_wifi s" "a_hub (fst (broadcast_event s)) = a_hub s"
  "log_says b (snd (broadcast_event s)) = b"
  by (auto simp: broadcast_event_def hub_emit_def Let_def)

lemma tick_is_sound:
  assumes "app_update w p dev sign ev now s = Some (s1, out)" "log_sound b (s, log)"
  shows "log_sound b (s1, log @ out) \<and>
    ob_previousState (hub_observer (a_hub s1)) = state (a_wifi s1)"
proof -
  define disc where "disc = fst (startIfNeeded (ev_disc ev) (a_disc s))"
  define r where "r = wifi_update w p (ev_radio ev) now (a_wifi s)"
  define h where "h = observeWifiState (fst r) (localIP (ev_radio ev)) (a_hub s)"
  have s1: "a_wifi s1 = fst r" "a_hub s1 = fst h"
    and out: "log_says c out = log_says c (map LogEvent (snd h))" for c
    using assms(1) broadcast_event_keeps
    by (auto simp: app_update_def app_wifi_def app_observe_def disc_def r_def h_def Let_def split_beta
        split: if_splits)
  have "hub_logger (a_hub s)" "log_says b log \<longrightarrow> ob_previousState (hub_observer (a_hub s)) = WIFI_CONNECTED"
    using assms(2) by (auto simp: log_sound_def)
  from observing_is_sound[OF this, of "fst r" "localIP (ev_radio ev)"] show ?thesis
    by (simp add: log_sound_def s1 out h_def)
qed

lemma init_is_sound:
  assumes "app_init w p ev s = Some (s1, out)" "log_sound b (s, log)"
  shows "log_sound b (s1, log @ out)"
proof -
  define r where "r = wifi_init w p (ev_radio ev) (a_wifi s)"
  define h where "h = observeWifiState (fst r) (localIP (ev_radio ev)) (a_hub s)"
  have s1: "a_wifi s1 = fst r" "a_hub s1 = fst h"
    and out: "log_says c out = log_says c (map LogEvent (snd h))" for c
    using assms(1)
    by (auto simp: app_init_def app_wifi_def app_observe_def r_def h_def Let_def split_beta split: if_splits)
  have "hub_logger (a_hub s)" "log_says b log \<longrightarrow> ob_previousState (hub_observer (a_hub s)) = WIFI_CONNECTED"
    using assms(2) by (auto simp: log_sound_def)
  from observing_is_sound[OF this, of "fst r" "localIP (ev_radio ev)"] show ?thesis
    by (simp add: log_sound_def s1 out h_def)
qed

lemma step_is_sound:
  assumes "log_sound b x" shows "log_sound b (app_step w p dev sign x ev)"
proof -
  obtain s log where x: "x = (s, log)" by force
  show ?thesis
  proof (cases ev)
    case (AppTick e now)
    then show ?thesis using assms tick_is_sound[of w p dev sign e now s _ _ b log]
      by (cases "app_update w p dev sign e now s") (auto simp: x)
  next
    case (AppDrop reason bssid rssi)
    then show ?thesis using assms
      by (auto simp: x onWiFiDisconnected_def log_sound_def Let_def split_beta hub_emit_def)
  next
    case (AppHub ip reason up)
    then show ?thesis using assms
      by (auto simp: x app_hub_def hub_clientConnected_def hub_clientDisconnected_def log_sound_def
          Let_def split_beta hub_emit_def)
  next
    case (AppInit e)
    then show ?thesis using assms init_is_sound[of w p e s _ _ b log]
      by (cases "app_init w p e s") (auto simp: x)
  qed (use assms in \<open>auto simp: x log_sound_def app_setDiscoveryEnabled_def app_setMonitorActive_def
      Let_def split_beta\<close>)
qed

interpretation evlog: step_invariant "app_step w p dev sign" "log_sound b"
  for w :: "'p wifi_cfg" and p dev sign b
  by unfold_locales (rule step_is_sound)

text \<open>
  After any history since the start of the device, when its event log read to
  the end says it is on the network, the WiFi manager is connected.
\<close>

theorem a_logged_connection_is_live:
  assumes "log_says False (snd (foldl (app_step w p dev sign)
      (app_setEventLogger (app_new led can disc), []) es))"
  shows "state (a_wifi (fst (foldl (app_step w p dev sign)
      (app_setEventLogger (app_new led can disc), []) es))) = WIFI_CONNECTED"
proof -
  have "log_sound False (app_setEventLogger (app_new led can disc), [])"
    by (simp add: log_sound_def app_setEventLogger_def)
  from evlog.run_inv[OF this, of w p dev sign es] assms show ?thesis by (simp add: log_sound_def)
qed

text \<open>
  When the driver reports a drop and the radio is up again at the
  next turn of the loop, the manager is connected but the log has the drop and not the connection.
\<close>

theorem a_quick_reconnection_goes_unlogged:
  assumes "state (a_wifi s) = WIFI_CONNECTED" and "ob_previousState (hub_observer (a_hub s)) = WIFI_CONNECTED"
    and "hub_logger (a_hub s)" and "a_initialized s" and "status (ev_radio ev) = 3"
  shows "state (a_wifi (fst (foldl (app_step w p dev sign) (s, log)
      [AppDrop reason bssid rssi, AppTick ev now]))) = WIFI_CONNECTED \<and>
    \<not> log_says b (snd (foldl (app_step w p dev sign) (s, log) [AppDrop reason bssid rssi, AppTick ev now]))"
proof -
  define ctx where "ctx = fst (onDisconnected reason (a_wifi s))"
  have ctx: "pendingAuthFail ctx \<or> state ctx = WIFI_CONNECTING"
    using assms(1) by (auto simp: ctx_def onDisconnected_def Let_def)
  have up: "state (fst (wifi_update w p (ev_radio ev) now ctx)) = WIFI_CONNECTED"
    using assms(5) ctx
    by (auto simp: wifi_update_def campaign_tick_def checkCampaignSuccess_def handler_execute_def
        connecting_execute_def handleConnected_def applyStateTransition_def consume_rejoin_budget_def
        Let_def split_beta)
  define h where "h = (a_hub s)\<lparr>hub_observer := recordDisconnectReason reason (hub_observer (a_hub s))\<rparr>"
  have h: "ob_previousState (hub_observer h) = WIFI_CONNECTED" "hub_logger h"
    using assms(2,3) by (simp_all add: h_def recordDisconnectReason_def)
  obtain s1 out1 where d: "onWiFiDisconnected reason bssid rssi s = (s1, out1)" by force
  have s1: "a_wifi s1 = ctx" "a_hub s1 = h" "a_initialized s1" and out1: "\<not> log_says c out1" for c
    using d assms(4) h(2)
    by (auto simp: onWiFiDisconnected_def ctx_def h_def Let_def split_beta hub_emit_def)
  obtain s2 out2 where t: "app_update w p dev sign ev now s1 = Some (s2, out2)"
    using s1(3) by (auto simp: app_update_def Let_def split_beta)
  have quiet: "observeWifiState (fst (wifi_update w p (ev_radio ev) now ctx)) (localIP (ev_radio ev)) h = (h, [])"
    by (simp add: observeWifiState_def observe_def up h hub_emit_def)
  have "a_wifi s2 = fst (wifi_update w p (ev_radio ev) now ctx)" "log_says c out2 = c" for c
    using t s1 quiet broadcast_event_keeps
    by (auto simp: app_update_def app_wifi_def app_observe_def Let_def split_beta split: if_splits)
  then show ?thesis using d t up out1 by simp
qed

section \<open>Connecting\<close>

lemma coming_up:
  assumes "state ctx = WIFI_CONNECTING" "status r = 3"
  shows "state (fst (wifi_update (app_cfg pf ssid pass) p r now ctx)) = WIFI_CONNECTED"
    and "DiscoveryReset \<in> set (snd (wifi_update (app_cfg pf ssid pass) p r now ctx))"
    and "NtpInit \<in> set (snd (wifi_update (app_cfg pf ssid pass) p r now ctx))"
  using assms
  by (auto simp: wifi_update_def campaign_tick_def checkCampaignSuccess_def handler_execute_def
      connecting_execute_def handleConnected_def applyStateTransition_def consume_rejoin_budget_def
      app_cfg_def Let_def split_beta)

text \<open>A reset since the last beacon.\<close>

lemma callbacks_reset:
  "DiscoveryReset \<in> set es \<Longrightarrow>
     connectTimeMs (p_mgr (a_disc (fold (wifi_callback e) es s))) = e_millis e \<and>
     lastBroadcastMs (p_mgr (a_disc (fold (wifi_callback e) es s))) = 0"
proof (induction es rule: rev_induct)
  case (snoc x es)
  then show ?case by (cases x) (auto simp: policy_resetBackoff_def resetBackoff_def)
qed simp

lemma callbacks_start: "NtpInit \<in> set es \<Longrightarrow> ns_started (a_ntp (fold (wifi_callback e) es s))"
proof (induction es rule: rev_induct)
  case (snoc x es)
  then show ?case by (cases x) (auto simp: onNtpInitRequested_def)
qed simp

lemma fresh_beacon:
  assumes "connectTimeMs d = now" "lastBroadcastMs d = 0" "e_mode e = 1 \<or> e_mode e = 2" "500 \<le> now"
  shows "UdpBeginPacket (e_broadcastIP e) DISCOVERY_PORT \<in> set (snd (disc_update dev sign cb e now c d))"
  using assms
  by (auto simp: disc_update_def shouldBroadcast_def discoveryIntervalMs_def disc_consts disc_broadcast_def
      Let_def split_beta)

text \<open>
  C19. In the very turn of the loop in which the connection comes up the
  log says so, the beacon is sent, the clock is asked for the time if it has not been, and the
  light shows the connection.
\<close>

theorem connecting_announces_the_device:
  assumes "app_update (app_cfg pf ssid pass) p dev sign ev now s = Some (s1, out)"
    and "state (a_wifi s) = WIFI_CONNECTING" "status (ev_radio ev) = 3"
    and "hub_logger (a_hub s)" "ob_previousState (hub_observer (a_hub s)) \<noteq> WIFI_CONNECTED"
    and "p_enabled (a_disc s)" "e_mode (ev_disc ev) = 1 \<or> e_mode (ev_disc ev) = 2"
    and "e_millis (ev_disc ev) = now" "500 \<le> now"
  shows "LogEvent (''wifi_connected'', ''ip='' @ localIP (ev_radio ev)) \<in> set out \<and>
    DiscCall (UdpBeginPacket (e_broadcastIP (ev_disc ev)) DISCOVERY_PORT) \<in> set out \<and>
    (NtpCall SntpInit \<in> set out \<longleftrightarrow>
       \<not> n_synced (ns_ntp (a_ntp s)) \<and> \<not> ev_sntpEnabled ev \<and> n_syncAttempts (ns_ntp (a_ntp s)) + 1 \<le> 3) \<and>
    currentPattern (a_led s1) = pattern_ord (if ev_client ev then P_CLIENT_CONNECTED else P_WIFI_CONNECTED)"
proof -
  let ?e = "ev_disc ev" and ?r = "wifi_update (app_cfg pf ssid pass) p (ev_radio ev) now (a_wifi s)"
  let ?s1 = "s\<lparr>a_disc := fst (startIfNeeded (ev_disc ev) (a_disc s))\<rparr>"
  define s2 where "s2 = fold (wifi_callback ?e) (snd ?r) (?s1\<lparr>a_wifi := fst ?r\<rparr>)"
  define ob where "ob = observeWifiState (fst ?r) (localIP (ev_radio ev)) (a_hub s)"
  define s3 where "s3 = s2\<lparr>a_hub := fst ob\<rparr>"
  note up = coming_up[OF assms(2,3), of pf ssid pass p now]
  have started: "ns_started (a_ntp s3)" "ns_ntp (a_ntp s3) = ns_ntp (a_ntp s)"
    using callbacks_start[OF up(3), of ?e "?s1\<lparr>a_wifi := fst ?r\<rparr>"] by (simp_all add: s3_def s2_def)
  have fresh: "connectTimeMs (p_mgr (a_disc s3)) = now" "lastBroadcastMs (p_mgr (a_disc s3)) = 0"
    using callbacks_reset[OF up(2), of ?e "?s1\<lparr>a_wifi := fst ?r\<rparr>"] assms(8) by (simp_all add: s3_def s2_def)
  have on: "p_enabled (a_disc s3)"
    using assms(6) by (simp add: s3_def s2_def startIfNeeded_def Let_def split_beta)
  have wifi: "state (a_wifi s3) = WIFI_CONNECTED" "a_led s3 = a_led s"
    using up(1) by (simp_all add: s3_def s2_def)
  have told: "(''wifi_connected'', ''ip='' @ localIP (ev_radio ev)) \<in> set (snd ob)"
    using assms(4,5) up(1) by (simp add: ob_def observeWifiState_def observe_def hub_emit_def Let_def split_beta)
  have hub: "observeWifiState (a_wifi s2) (localIP (ev_radio ev)) (a_hub s2) = ob"
    by (simp add: ob_def s2_def)
  define d where "d = policy_update dev sign ?e now (ev_client ev) (a_disc s3)"
  define n where "n = maybeStart (ev_sntpEnabled ev) (a_ntp s3)"
  define l where "l = led_policy_update True (a_wifi s3) (ev_client ev) now (a_led s3)"
  have w: "app_wifi ?e (localIP (ev_radio ev)) ?r ?s1 = (s3, map WifiCall (snd ?r) @ map LogEvent (snd ob))"
    using hub by (simp add: app_wifi_def app_observe_def s2_def s3_def Let_def split_beta)
  define s4 where "s4 = s3\<lparr>a_led := fst l, a_ntp := fst n, a_disc := fst d\<rparr>"
  define e where "e = (if list_ex is_broadcast (snd d) then broadcast_event s4 else (s4, []))"
  have "app_update (app_cfg pf ssid pass) p dev sign ev now s = (if \<not> a_initialized s then None else
      Some (fst e, map DiscCall (snd (startIfNeeded ?e (a_disc s))) @
        (map WifiCall (snd ?r) @ map LogEvent (snd ob)) @ map LedCall (snd l) @ map NtpCall (snd n) @
        map DiscCall (snd d) @ snd e))"
    by (simp add: app_update_def w split_beta Let_def d_def n_def l_def e_def s4_def)
  then have out: "out = map DiscCall (snd (startIfNeeded ?e (a_disc s))) @
        (map WifiCall (snd ?r) @ map LogEvent (snd ob)) @ map LedCall (snd l) @ map NtpCall (snd n) @
        map DiscCall (snd d) @ snd e" and "s1 = fst e"
    using assms(1) by (auto split: if_splits)
  then have o6: "NtpCall c \<notin> set (snd e)" and led: "a_led s1 = fst l" for c
    by (auto simp: e_def broadcast_event_def s4_def Let_def)
  have beacon: "UdpBeginPacket (e_broadcastIP ?e) DISCOVERY_PORT \<in> set (snd d)"
    using fresh_beacon[OF fresh assms(7,9)] on by (simp add: d_def policy_update_def split_beta)
  have "NtpCall SntpInit \<in> set out \<longleftrightarrow> SntpInit \<in> set (snd n)"
    using o6 by (auto simp: out)
  moreover have "SntpInit \<in> set (snd n) \<longleftrightarrow> \<not> n_synced (ns_ntp (a_ntp s)) \<and> \<not> ev_sntpEnabled ev \<and>
      n_syncAttempts (ns_ntp (a_ntp s)) + 1 \<le> 3"
    using started by (auto simp: n_def maybeStart_def ntp_init_def NTP_SYNC_RETRY_MAX_def Let_def split_beta)
  moreover have "currentPattern (fst l) = pattern_ord (if ev_client ev then P_CLIENT_CONNECTED else P_WIFI_CONNECTED)"
    using wifi led_update_fields
    by (simp add: l_def led_policy_update_def selectLedPattern_def Let_def split_beta setPattern_def)
  ultimately show ?thesis using told beacon led by (auto simp: out)
qed

section \<open>The clock\<close>

definition sntp_inits :: "app_out list \<Rightarrow> nat" where
  "sntp_inits log = length (filter (\<lambda>c. c = NtpCall SntpInit) log)"

lemma sntp_inits_append [simp]: "sntp_inits (xs @ ys) = sntp_inits xs + sntp_inits ys"
  by (simp add: sntp_inits_def)

lemma sntp_inits_calls [simp]:
  "sntp_inits [] = 0" "sntp_inits (map WifiCall es) = 0" "sntp_inits (map LogEvent vs) = 0"
  "sntp_inits (map LedCall ls) = 0" "sntp_inits (map DiscCall ds) = 0"
  by (simp_all add: sntp_inits_def filter_empty_conv)

lemma sntp_inits_broadcast [simp]: "sntp_inits (snd (broadcast_event s)) = 0"
  by (simp add: broadcast_event_def Let_def)

lemma ntp_init_counts:
  assumes "unat (n_syncAttempts n) + 1 < 2 ^ 32"
  shows "unat (n_syncAttempts (fst (ntp_init en n))) \<le> unat (n_syncAttempts n) + 1"
    and "n_synced (fst (ntp_init en n)) = n_synced n"
    and "min 3 (unat (n_syncAttempts n)) + sntp_inits (map NtpCall (snd (ntp_init en n)))
      = min 3 (unat (n_syncAttempts (fst (ntp_init en n))))"
proof -
  have u: "unat (n_syncAttempts n + 1) = unat (n_syncAttempts n) + 1"
    using assms by (simp add: unat_word_ariths)
  have "3 < n_syncAttempts n + 1 \<longleftrightarrow> 3 \<le> unat (n_syncAttempts n)"
    by (simp only: word_less_nat_alt u) auto
  then show "unat (n_syncAttempts (fst (ntp_init en n))) \<le> unat (n_syncAttempts n) + 1"
    "n_synced (fst (ntp_init en n)) = n_synced n"
    "min 3 (unat (n_syncAttempts n)) + sntp_inits (map NtpCall (snd (ntp_init en n)))
      = min 3 (unat (n_syncAttempts (fst (ntp_init en n))))"
    using u by (auto simp: ntp_init_def NTP_SYNC_RETRY_MAX_def Let_def sntp_inits_def)
qed

text \<open>\<open>k\<close> is the number of steps taken.\<close>

definition clock_ok :: "nat \<Rightarrow> fw_app \<times> app_out list \<Rightarrow> bool" where
  "clock_ok k x \<longleftrightarrow>
     (let n = ns_ntp (a_ntp (fst x))
      in sntp_inits (snd x) \<le> 3 \<and> unat (n_syncAttempts n) \<le> k \<and>
         (n_synced n \<or> sntp_inits (snd x) = min 3 (unat (n_syncAttempts n))))"

lemma app_wifi_ntp:
  "ns_ntp (a_ntp (fst (app_wifi e ip r s))) = ns_ntp (a_ntp s)" "sntp_inits (snd (app_wifi e ip r s)) = 0"
  by (simp_all add: app_wifi_def app_observe_def Let_def split_beta)

lemma tick_clock:
  assumes "clock_ok k (s, log)" "k + 1 < 2 ^ 32" "app_update w p dev sign ev now s = Some (s1, out)"
  shows "clock_ok (Suc k) (s1, log @ out)"
proof -
  let ?s1 = "s\<lparr>a_disc := fst (startIfNeeded (ev_disc ev) (a_disc s))\<rparr>"
  define a where "a = app_wifi (ev_disc ev) (localIP (ev_radio ev))
      (wifi_update w p (ev_radio ev) now (a_wifi ?s1)) ?s1"
  define n where "n = maybeStart (ev_sntpEnabled ev) (a_ntp (fst a))"
  have a: "ns_ntp (a_ntp (fst a)) = ns_ntp (a_ntp s)" "sntp_inits (snd a) = 0"
    by (simp_all add: a_def app_wifi_ntp)
  have s1: "a_ntp s1 = fst n" and out: "sntp_inits out = sntp_inits (map NtpCall (snd n))"
    using assms(3) a(2)
    by (auto simp: app_update_def a_def n_def Let_def split_beta broadcast_event_def split: if_splits)
  have lt: "unat (n_syncAttempts (ns_ntp (a_ntp s))) + 1 < 2 ^ 32"
    using assms(1,2) by (simp add: clock_ok_def Let_def)
  note c = ntp_init_counts[OF lt, of "ev_sntpEnabled ev"]
  show ?thesis using assms(1) c out
    by (auto simp: clock_ok_def s1 n_def maybeStart_def a Let_def split_beta split: if_splits)
qed

lemma step_clock:
  assumes "clock_ok k x" "k + 1 < 2 ^ 32"
  shows "clock_ok (Suc k) (app_step w p dev sign x ev)"
proof -
  obtain s log where x: "x = (s, log)" by force
  show ?thesis
  proof (cases ev)
    case (AppTick e now)
    then show ?thesis using assms tick_clock[of k s log w p dev sign e now]
      by (cases "app_update w p dev sign e now s") (auto simp: x clock_ok_def Let_def)
  next
    case (AppInit e)
    then show ?thesis using assms
        app_wifi_ntp[of "ev_disc e" "localIP (ev_radio e)" "wifi_init w p (ev_radio e) (a_wifi s)"
          "s\<lparr>a_can := can_init (a_can s), a_initialized := True\<rparr>"]
      by (cases "app_init w p e s") (auto simp: x clock_ok_def app_init_def Let_def split: if_splits)
  next
    case (AppSync t)
    then show ?thesis using assms
      by (auto simp: x clock_ok_def onSyncComplete_def sntp_inits_def Let_def split_beta split: if_splits)
  next
    case (AppHub ip r up)
    then show ?thesis using assms
      by (auto simp: x clock_ok_def app_hub_def Let_def split_beta)
  qed (use assms in \<open>auto simp: x clock_ok_def onWiFiDisconnected_def app_setDiscoveryEnabled_def
      app_setMonitorActive_def Let_def split_beta\<close>)
qed

text \<open>
  Over any history of fewer than 2 to the 32nd steps the device starts the
  clock synchronisation at most three times.
\<close>

theorem the_clock_is_asked_three_times:
  assumes "length es < 2 ^ 32"
  shows "sntp_inits (snd (foldl (app_step w p dev sign) (app_new led can disc, []) es)) \<le> 3"
proof -
  have "clock_ok (length es) (foldl (app_step w p dev sign) (app_new led can disc, []) es)"
    using assms
  proof (induction es rule: rev_induct)
    case Nil
    then show ?case by (simp add: clock_ok_def app_new_def ntp_new_def Let_def)
  next
    case (snoc e es)
    have "clock_ok (length es) (foldl (app_step w p dev sign) (app_new led can disc, []) es)"
      "length es + 1 < 2 ^ 32" using snoc by simp_all
    from step_clock[OF this, of w p dev sign e] show ?case by simp
  qed
  then show ?thesis by (simp add: clock_ok_def Let_def)
qed

section \<open>Witnesses\<close>

definition ex_disc_env :: "u32 \<Rightarrow> disc_env" where
  "ex_disc_env t = \<lparr>e_mode = 1, e_broadcastIP = ''10.0.0.255'', e_timestamp = 0, e_millis = t,
     e_beginPacket = 1, e_write = 106, e_endPacket = 1\<rparr>"

definition ex_app_env :: "int \<Rightarrow> u32 \<Rightarrow> app_env" where
  "ex_app_env st t = \<lparr>ev_radio = \<lparr>status = st, localIP = ''10.0.0.7''\<rparr>, ev_disc = ex_disc_env t,
     ev_client = False, ev_sntpEnabled = False\<rparr>"

definition ex_app :: fw_app where
  "ex_app = app_setEventLogger (app_new True
     \<lparr>monitorActive = False, initialized = False, serialQuietUntilMs = 0\<rparr>
     \<lparr>p_mgr = \<lparr>connectTimeMs = 0, lastBroadcastMs = 0, backoffActive = False, broadcastCount = 0,
       resetCount = 0\<rparr>, p_started = False, p_enabled = True\<rparr>)"

definition ex_app_cfg :: "mock_prefs wifi_cfg" where
  "ex_app_cfg = app_cfg mock_if (Some ''home'') (Some ''pw'')"

lemma ex_app_run:
  "log_says False (snd (foldl (app_step ex_app_cfg mock_empty (replicate 16 0) id) (ex_app, [])
     [AppInit (ex_app_env 0 0), AppTick (ex_app_env 3 1000) 1000]))"
  by code_simp

definition ex_connected_app :: fw_app where
  "ex_connected_app = ex_app\<lparr>a_wifi := ctx_init\<lparr>state := WIFI_CONNECTED\<rparr>, a_initialized := True,
     a_hub := \<lparr>hub_logger = True, hub_clientIp = [],
       hub_observer = \<lparr>ob_previousState = WIFI_CONNECTED, ob_lastDisconnectReason = 0\<rparr>\<rparr>\<rparr>"

theorem a_logged_connection_is_live_witness:
  "state (a_wifi (fst (foldl (app_step ex_app_cfg mock_empty (replicate 16 0) id) (ex_app, [])
     [AppInit (ex_app_env 0 0), AppTick (ex_app_env 3 1000) 1000]))) = WIFI_CONNECTED"
  using a_logged_connection_is_live[OF ex_app_run[unfolded ex_app_def]] unfolding ex_app_def .

theorem a_quick_reconnection_goes_unlogged_witness:
  "\<not> log_says True (snd (foldl (app_step ex_app_cfg mock_empty (replicate 16 0) id) (ex_connected_app, [])
     [AppDrop 8 ''aa:bb'' (- 60), AppTick (ex_app_env 3 1000) 1000]))"
  using a_quick_reconnection_goes_unlogged[of ex_connected_app "ex_app_env 3 1000" ex_app_cfg mock_empty
      "replicate 16 0" id "[]" 8 "''aa:bb''" "- 60" 1000 True]
  by (simp add: ex_connected_app_def ex_app_env_def)

definition ex_connecting_app :: fw_app where
  "ex_connecting_app = ex_app\<lparr>a_wifi := ctx_init\<lparr>state := WIFI_CONNECTING\<rparr>, a_initialized := True\<rparr>"

theorem connecting_announces_the_device_witness:
  "\<exists>s out. app_update ex_app_cfg mock_empty (replicate 16 0) id (ex_app_env 3 1000) 1000 ex_connecting_app
       = Some (s, out) \<and>
     DiscCall (UdpBeginPacket ''10.0.0.255'' DISCOVERY_PORT) \<in> set out \<and> NtpCall SntpInit \<in> set out"
proof -
  obtain s out where r: "app_update ex_app_cfg mock_empty (replicate 16 0) id (ex_app_env 3 1000) 1000
      ex_connecting_app = Some (s, out)"
    by (simp add: app_update_def ex_connecting_app_def Let_def split_beta)
  have "DiscCall (UdpBeginPacket ''10.0.0.255'' DISCOVERY_PORT) \<in> set out \<and> NtpCall SntpInit \<in> set out"
    using connecting_announces_the_device[OF r[unfolded ex_app_cfg_def]]
    by (simp add: ex_connecting_app_def ex_app_def ex_app_env_def ex_disc_env_def app_new_def ctx_init_def
        app_setEventLogger_def hub_new_def ntp_new_def)
  then show ?thesis using r by blast
qed

theorem the_clock_is_asked_three_times_witness:
  "sntp_inits (snd (foldl (app_step ex_app_cfg mock_empty (replicate 16 0) id)
     (app_new True \<lparr>monitorActive = False, initialized = False, serialQuietUntilMs = 0\<rparr> (a_disc ex_app), [])
     [AppInit (ex_app_env 0 0), AppTick (ex_app_env 3 1000) 1000, AppTick (ex_app_env 3 2000) 2000])) \<le> 3"
  by (rule the_clock_is_asked_three_times) simp

end
