(* ===== verification/FW_LedRenderer.thy ===== *)
theory FW_LedRenderer
  imports FW_StatusLed
begin

text \<open>
  The pictures of the light's patterns for the command line,
  \<open>firmware/vanilla/StatusLEDRenderer.cpp\<close>, drawn from the tables the player plays.
\<close>

section \<open>The registry\<close>

datatype PatternCategory =
    CAT_BOOT | CAT_WIFI | CAT_CONNECTION | CAT_AP_MODE | CAT_OTA | CAT_ERROR | CAT_FATAL | CAT_OFF

definition PATTERN_REGISTRY :: "(led_pattern \<times> PatternCategory \<times> string \<times> string) list" where
  "PATTERN_REGISTRY =
     [(P_BOOT, CAT_BOOT, ''BOOT'', ''Startup sequence''),
      (P_WIFI_SEARCHING, CAT_WIFI, ''WIFI_SEARCHING'', ''Searching for WiFi network''),
      (P_WIFI_CONNECTED, CAT_WIFI, ''WIFI_CONNECTED'', ''WiFi connected, no client''),
      (P_CLIENT_CONNECTED, CAT_CONNECTION, ''CLIENT_CONNECTED'', ''Client connected via BLE''),
      (P_AP_MODE, CAT_AP_MODE, ''AP_MODE'', ''WiFi AP mode (no STA connection)''),
      (P_OTA_IN_PROGRESS, CAT_OTA, ''OTA_IN_PROGRESS'', ''Firmware update in progress''),
      (P_ERROR_AUTH_FAILURE, CAT_ERROR, ''ERROR_AUTH_FAILURE'', ''Authentication failed''),
      (P_ERROR_RECOVERABLE, CAT_ERROR, ''ERROR_RECOVERABLE'', ''Recoverable error occurred''),
      (P_ERROR_NO_NTP_SERVICE, CAT_ERROR, ''ERROR_NO_NTP_SERVICE'', ''NTP time service unavailable''),
      (P_FATAL_UNRECOVERABLE_SOS, CAT_FATAL, ''FATAL_UNRECOVERABLE_SOS'',
       ''Fatal error (system halted, SOS)''),
      (P_OFF, CAT_OFF, ''OFF'', ''LED off'')]"

fun getCategoryName :: "PatternCategory \<Rightarrow> string" where
  "getCategoryName CAT_BOOT = ''Boot & Initialization''"
| "getCategoryName CAT_WIFI = ''WiFi Connection States''"
| "getCategoryName CAT_CONNECTION = ''Client Connection''"
| "getCategoryName CAT_AP_MODE = ''Access Point Mode''"
| "getCategoryName CAT_OTA = ''Firmware Updates''"
| "getCategoryName CAT_ERROR = ''Error States (Recoverable)''"
| "getCategoryName CAT_FATAL = ''Fatal Errors (Unrecoverable)''"
| "getCategoryName CAT_OFF = ''Power Off''"

definition enumName :: "led_pattern \<Rightarrow> string" where
  "enumName p = ''StatusLED::Pattern::'' @ getPatternName p"

section \<open>Steps\<close>

text \<open>
  One decimal; the durations of all patterns are whole tenths of a second, so nothing is rounded.
\<close>

definition formatDuration :: "u32 \<Rightarrow> string" where
  "formatDuration ms =
     dec_str (unat ms div 1000) @ ''.'' @ dec_str (unat ms div 100 mod 10) @ ''s''"

definition is_separator_step :: "LEDStep \<Rightarrow> bool" where
  "is_separator_step s \<longleftrightarrow> fst s = LED_SEPARATOR \<or> (fst s = LED_OFF \<and> SEPARATOR_MS \<le> snd s)"

definition isTrailingSeparator :: "LEDStep \<Rightarrow> bool \<Rightarrow> bool" where
  "isTrailingSeparator s isLast = (if \<not> isLast then False else is_separator_step s)"

definition hasSeparatorAnywhere :: "LEDStep list \<Rightarrow> bool" where
  "hasSeparatorAnywhere steps = (if length steps \<le> 1 then False else list_ex is_separator_step steps)"

fun filterSteps :: "LEDStep list \<Rightarrow> LEDStep list" where
  "filterSteps [] = []"
| "filterSteps (s # ss) = (if isTrailingSeparator s (ss = []) then [] else [s]) @ filterSteps ss"

section \<open>The timing note\<close>

datatype led_token = TK_FLASH u32 | TK_DOT u32 | TK_DASH u32 | TK_PULSE u32 | TK_OFF u32

definition classifyOn :: "u32 \<Rightarrow> led_token" where
  "classifyOn onMs = (if onMs \<le> 100 then TK_FLASH onMs else if onMs \<le> 200 then TK_DOT onMs else TK_DASH onMs)"

function tokenize :: "LEDStep list \<Rightarrow> led_token list" where
  "tokenize [] = []"
| "tokenize ((st, onMs) # r) =
     (if st \<noteq> LED_ON then tokenize r
      else
        let hasFollowingOff = (r \<noteq> [] \<and> fst (hd r) = LED_OFF);
            offMs = (if hasFollowingOff then snd (hd r) else 0);
            pulse = (300 \<le> onMs \<and> hasFollowingOff \<and> offMs = onMs)
        in (if pulse then TK_PULSE onMs else classifyOn onMs)
           # (if hasFollowingOff \<and> 3 * onMs \<le> offMs then [TK_OFF offMs] else [])
           @ tokenize (if pulse then tl r else r))"
  by pat_completeness auto
termination by (relation "measure length") auto

fun token_text :: "led_token \<Rightarrow> string" where
  "token_text (TK_FLASH ms) = ''FLASH''"
| "token_text (TK_DOT ms) = ''DOT''"
| "token_text (TK_DASH ms) = ''DASH '' @ formatDuration ms"
| "token_text (TK_PULSE ms) = ''PULSE '' @ formatDuration ms"
| "token_text (TK_OFF ms) = ''OFF '' @ formatDuration ms"

fun comma_join :: "string list \<Rightarrow> string" where
  "comma_join [] = []"
| "comma_join [t] = t"
| "comma_join (t # ts) = t @ '', '' @ comma_join ts"

definition renderTokens :: "led_token list \<Rightarrow> string" where
  "renderTokens ts = comma_join (map token_text ts)"

definition timingNote :: "led_pattern \<Rightarrow> string" where
  "timingNote p =
     (let steps = getPatternSteps (pattern_ord p)
      in if steps = [] then []
         else if length steps = 1 then (if fst (hd steps) = LED_ON then ''Solid ON'' else ''Solid OFF'')
         else
           let kept = filterSteps steps
           in if kept = [] then [] else renderTokens (tokenize kept))"

section \<open>The picture\<close>

text \<open>The runs to draw, in tenths of a second; a pattern of one step keeps it.\<close>

definition draw_plan :: "LEDStep list \<Rightarrow> (LEDState \<times> nat) list" where
  "draw_plan steps =
     filter (\<lambda>r. snd r \<noteq> 0)
       (map (\<lambda>s. (fst s, unat (snd s div 100)))
         (if length steps = 1 then steps else filterSteps steps))"

text \<open>One character for a tenth; a bar before every whole second but the first.\<close>

function draw_runs :: "nat \<Rightarrow> (LEDState \<times> nat) list \<Rightarrow> string" where
  "draw_runs e [] = []"
| "draw_runs e ((st, n) # r) =
     (if n = 0 then draw_runs e r
      else
        (if 0 < e \<and> e mod 10 = 0 then ''|'' else [])
        @ [if st = LED_ON then CHR ''-'' else CHR '' '']
        @ draw_runs (e + 1) ((st, n - 1) # r))"
  by pat_completeness auto
termination by (relation "measure (\<lambda>(e, r). sum_list (map snd r) + length r)") auto

declare draw_runs.simps(2) [simp del]

lemma draw_runs_cons [simp]:
  "draw_runs e ((st, 0) # r) = draw_runs e r"
  "draw_runs e ((st, Suc n) # r) = (if 0 < e \<and> e mod 10 = 0 then ''|'' else [])
     @ [if st = LED_ON then CHR ''-'' else CHR '' ''] @ draw_runs (e + 1) ((st, n) # r)"
  by (simp_all add: draw_runs.simps(2))

definition renderPattern :: "led_pattern \<Rightarrow> string" where
  "renderPattern p =
     (let plan = draw_plan (getPatternSteps (pattern_ord p))
      in if plan = [] then [] else ''|'' @ draw_runs 0 plan @ ''|'')"

section \<open>The table\<close>

definition setw_left :: "nat \<Rightarrow> string \<Rightarrow> string" where
  "setw_left w s = s @ replicate (w - length s) (CHR '' '')"

definition visualBar :: "char \<Rightarrow> nat \<Rightarrow> string" where "visualBar g n = replicate n g"

definition separatorBar :: string where
  "separatorBar = replicate 10 (CHR '' '') @ ''|'' @ replicate 10 (CHR '' '')"

definition QUOTE :: string where "QUOTE = [CHR 0x27]"

definition quotedVisual :: "string \<Rightarrow> nat \<Rightarrow> string" where
  "quotedVisual bar w =
     (let q = QUOTE @ bar @ QUOTE
      in if w \<le> length q then q else q @ replicate (w - length q) (CHR '' ''))"

definition max_of :: "nat list \<Rightarrow> nat" where "max_of ns = foldl max 0 ns"

definition maxPatternVisualWidth :: nat where
  "maxPatternVisualWidth = max_of (map (\<lambda>(p, _). length (renderPattern p)) PATTERN_REGISTRY)"

definition table_row :: "nat \<Rightarrow> nat \<Rightarrow> led_pattern \<times> PatternCategory \<times> string \<times> string \<Rightarrow> string" where
  "table_row nameWidth visualWidth info =
     (case info of (p, _, name, _) \<Rightarrow>
        ''  '' @ setw_left nameWidth name @ ''  '' @ setw_left visualWidth (renderPattern p) @ ''  # ''
        @ timingNote p
        @ (if hasSeparatorAnywhere (getPatternSteps (pattern_ord p)) then '', 2s SEPARATOR'' else [])
        @ [LF])"

definition KEY_ENTRIES :: "(string \<times> string) list" where
  "KEY_ENTRIES =
     [(visualBar (CHR ''-'') 1, ''FLASH 0.1s''), (visualBar (CHR ''-'') 2, ''DOT 0.2s''),
      (visualBar (CHR ''-'') 8, ''DASH 0.8s''), (separatorBar, ''2s SEPARATOR'')]"

definition generateTable :: string where
  "generateTable =
     (let visualWidth = maxPatternVisualWidth;
          nameWidth = max_of (map (\<lambda>(_, _, name, _). length name) PATTERN_REGISTRY);
          keyVisualWidth = max_of (map (\<lambda>(bar, _). 1 + length bar + 1) KEY_ENTRIES)
      in ''Status LED patterns (1 char = 100ms, |'' @ QUOTE @ ''s mark each whole second; ''
         @ ''trailing 2s separator is omitted from each row)'' @ [LF, LF]
         @ concat (map (table_row nameWidth visualWidth) PATTERN_REGISTRY)
         @ [LF] @ ''Key;'' @ [LF]
         @ concat (map (\<lambda>(bar, comment). ''  '' @ quotedVisual bar keyVisualWidth @ ''  # '' @ comment @ [LF])
             KEY_ENTRIES))"

section \<open>The help text\<close>

definition step_text :: "LEDStep \<Rightarrow> string" where
  "step_text s =
     (case fst s of
        LED_SEPARATOR \<Rightarrow> ''separator ('' @ formatDuration (snd s) @ '')''
      | LED_ON \<Rightarrow> ''ON for '' @ formatDuration (snd s)
      | LED_OFF \<Rightarrow> ''OFF for '' @ formatDuration (snd s))"

definition help_entry :: "led_pattern \<times> PatternCategory \<times> string \<times> string \<Rightarrow> string" where
  "help_entry info =
     (case info of (p, _, name, description) \<Rightarrow>
        name @ [LF] @ ''  '' @ description @ [LF]
        @ ''  Visual: '' @ renderPattern p @ [LF]
        @ (let steps = getPatternSteps (pattern_ord p)
           in if steps \<noteq> [] then ''  Timing: '' @ comma_join (map step_text steps) @ [LF] else [])
        @ ''  Enum:   '' @ enumName p @ [LF, LF])"

definition generateHelpText :: string where
  "generateHelpText =
     ''Status LED Patterns'' @ [LF] @ ''==================='' @ [LF, LF]
     @ ''Visual key:'' @ [LF]
     @ ''  '' @ QUOTE @ ''-'' @ QUOTE @ '' = LED ON'' @ [LF]
     @ ''  '' @ QUOTE @ '' '' @ QUOTE @ '' = LED OFF'' @ [LF]
     @ ''  '' @ QUOTE @ ''|'' @ QUOTE @ '' = whole-second boundary (start, 1s, 2s, ...)'' @ [LF]
     @ ''  Trailing 2s separators are omitted from the visual.'' @ [LF, LF]
     @ ''Each character represents 100ms. Patterns repeat continuously.'' @ [LF, LF]
     @ concat (map (\<lambda>cat.
         (let infos = filter (\<lambda>(_, c, _). c = cat) PATTERN_REGISTRY
          in if infos = [] then []
             else ''## '' @ getCategoryName cat @ [LF, LF] @ concat (map help_entry infos) @ [LF]))
         [CAT_BOOT, CAT_WIFI, CAT_CONNECTION, CAT_AP_MODE, CAT_OTA, CAT_ERROR, CAT_FATAL, CAT_OFF])"

section \<open>Properties\<close>

lemma draw_runs_tenths:
  "filter (\<lambda>c. c \<noteq> CHR ''|'') (draw_runs e r) =
     concat (map (\<lambda>(st, n). replicate n (if st = LED_ON then CHR ''-'' else CHR '' '')) r)"
proof (induction e r rule: draw_runs.induct)
  case (2 e st n r)
  then show ?case by (cases n) auto
qed simp

text \<open>
  The picture without its bars has one character for every tenth of a second of the steps that
  are drawn, a stroke exactly when the light is on.
\<close>

theorem the_picture_is_the_pattern:
  "filter (\<lambda>c. c \<noteq> CHR ''|'') (renderPattern p) =
     concat (map (\<lambda>(st, n). replicate n (if st = LED_ON then CHR ''-'' else CHR '' ''))
       (draw_plan (getPatternSteps (pattern_ord p))))"
  by (simp add: renderPattern_def draw_runs_tenths Let_def)

text \<open>The player, updated every tenth of a second from its start.\<close>

fun play :: "nat \<Rightarrow> u32 \<Rightarrow> status_led \<Rightarrow> string" where
  "play 0 t l = []"
| "play (Suc n) t l =
     (let l1 = fst (led_update t l)
      in (if ledOn l1 then CHR ''-'' else CHR '' '') # play n (t + 100) l1)"

fun played :: "nat \<Rightarrow> u32 \<Rightarrow> status_led \<Rightarrow> status_led" where
  "played 0 t l = l"
| "played (Suc n) t l = played n (t + 100) (fst (led_update t l))"

lemma play_add: "play (m + n) t l = play m t l @ play n (t + 100 * of_nat m) (played m t l)"
  by (induction m arbitrary: t l) (simp_all add: Let_def algebra_simps)

definition run_char :: "LEDState \<Rightarrow> char" where
  "run_char st = (if st = LED_ON then CHR ''-'' else CHR '' '')"

text \<open>The player stands at a step since a time.\<close>

definition stands :: "status_led \<Rightarrow> int \<Rightarrow> nat \<Rightarrow> u32 \<Rightarrow> bool" where
  "stands l pat i ps \<longleftrightarrow> currentPattern l = pat \<and> lastPattern l = pat \<and> stepIndex l = i \<and>
     phaseStartTime l = ps \<and> ledOn l = (fst (getPatternSteps pat ! i) = LED_ON)"

lemma update_stands:
  assumes "stands l pat i ps"
  shows "t - ps < snd (getPatternSteps pat ! i) \<Longrightarrow> stands (fst (led_update t l)) pat i ps"
    and "snd (getPatternSteps pat ! i) \<le> t - ps \<Longrightarrow> i + 1 < length (getPatternSteps pat) \<Longrightarrow>
      stands (fst (led_update t l)) pat (i + 1) t"
  using led_update_fields[of l t] assms by (auto simp: stands_def led_from_def Let_def)

lemma first_update_stands:
  assumes "currentPattern l = pat" "lastPattern l \<noteq> pat" "0 < snd (getPatternSteps pat ! 0)"
  shows "stands (fst (led_update t l)) pat 0 t"
  using led_update_fields[of l t] assms by (auto simp: stands_def led_from_def Let_def)

definition tenths :: "u32 \<Rightarrow> nat \<Rightarrow> bool" where
  "tenths d k \<longleftrightarrow> 0 < k \<and> k < 1000 \<and> d = 100 * of_nat k"

lemma tenths_less: "tenths d k \<Longrightarrow> j < k \<Longrightarrow> (100 * of_nat j :: u32) < d"
proof -
  assume a: "tenths d k" "j < k"
  then have e: "100 * of_nat j = (of_nat (100 * j) :: u32)" "d = of_nat (100 * k)" "k < 1000"
    by (simp_all add: tenths_def)
  show ?thesis
    unfolding e(1,2) word_less_nat_alt unat_of_nat using a e(3) by simp
qed

lemma play_within:
  assumes "tenths (snd (getPatternSteps pat ! i)) k" "stands l pat i ps" "j + n < k"
  shows "play n (ps + 100 * of_nat (Suc j)) l = replicate n (run_char (fst (getPatternSteps pat ! i))) \<and>
    stands (played n (ps + 100 * of_nat (Suc j)) l) pat i ps"
  using assms
proof (induction n arbitrary: j l)
  case (Suc n)
  let ?t = "ps + 100 * of_nat (Suc j)"
  have "stands (fst (led_update ?t l)) pat i ps"
    using update_stands(1)[OF Suc.prems(2), of ?t] tenths_less[OF Suc.prems(1), of "Suc j"] Suc.prems(3)
    by simp
  note at = this
  have t: "?t + 100 = ps + 100 * of_nat (Suc (Suc j))" by (simp add: algebra_simps)
  have "(if ledOn (fst (led_update ?t l)) then CHR ''-'' else CHR '' '') = run_char (fst (getPatternSteps pat ! i))"
    using at by (simp add: stands_def run_char_def)
  then show ?case
    using Suc.IH[OF Suc.prems(1) at, of "Suc j"] Suc.prems(3)
    unfolding play.simps played.simps Let_def t by simp
qed simp

lemma play_runs:
  assumes "list_all2 (\<lambda>s r. fst r = fst s \<and> tenths (snd s) (snd r)) (take (length rs) (drop i (getPatternSteps pat))) rs"
    and "rs \<noteq> []" "stands l pat i ps" "i + length rs \<le> length (getPatternSteps pat)"
  shows "play (sum_list (map snd rs) - 1) (ps + 100) l =
    tl (concat (map (\<lambda>(st, n). replicate n (run_char st)) rs))"
  using assms
proof (induction rs arbitrary: i l ps rule: list.induct)
  case (Cons r rs)
  let ?steps = "getPatternSteps pat"
  obtain st k where r: "r = (st, k)" by force
  have i: "i < length ?steps" using Cons.prems(4) by simp
  have d: "drop i ?steps = ?steps ! i # drop (i + 1) ?steps" using Cons_nth_drop_Suc[OF i] by simp
  have k: "st = fst (?steps ! i)" "tenths (snd (?steps ! i)) k"
    and rest: "list_all2 (\<lambda>s r. fst r = fst s \<and> tenths (snd s) (snd r)) (take (length rs) (drop (i + 1) ?steps)) rs"
    using Cons.prems(1) by (simp_all add: d r)
  have pos: "0 < k" using k(2) by (simp add: tenths_def)
  note w = play_within[OF k(2) Cons.prems(3), of 0 "k - 1"]
  show ?case
  proof (cases "rs = []")
    case True
    then show ?thesis using w pos k(1) by (simp add: r)
  next
    case False
    define m where "m = sum_list (map snd rs)"
    have m: "0 < m" using rest False by (cases rs) (auto simp: m_def tenths_def list_all2_Cons2)
    let ?l = "played (k - 1) (ps + 100) l" and ?t = "ps + 100 * of_nat k"
    have at: "stands ?l pat i ps" using w pos by simp
    have t: "ps + 100 + 100 * of_nat (k - 1) = ?t"
    proof -
      have "(of_nat k :: u32) = 1 + of_nat (k - 1)" using pos by (metis Suc_pred' of_nat_Suc)
      then show ?thesis by (simp add: algebra_simps)
    qed
    have n2: "i + 1 + length rs \<le> length ?steps" using Cons.prems(4) by simp
    have moved: "stands (fst (led_update ?t ?l)) pat (i + 1) ?t"
      using update_stands(2)[OF at, of ?t] k(2) n2 False by (cases rs) (simp_all add: tenths_def)
    have ih: "play (m - 1) (?t + 100) (fst (led_update ?t ?l)) =
        tl (concat (map (\<lambda>(st, n). replicate n (run_char st)) rs))"
      unfolding m_def by (rule Cons.IH[OF rest False moved n2])
    obtain r2 rs2 where rs: "rs = r2 # rs2" using False by (cases rs) auto
    have r2: "fst r2 = fst (?steps ! (i + 1))" "0 < snd r2"
      using rest n2 by (auto simp: rs tenths_def list_all2_Cons2 Cons_nth_drop_Suc[symmetric])
    have hd2: "concat (map (\<lambda>(st, n). replicate n (run_char st)) rs) =
        run_char (fst r2) # tl (concat (map (\<lambda>(st, n). replicate n (run_char st)) rs))"
      using r2(2) by (cases r2; cases "snd r2") (simp_all add: rs)
    have len: "sum_list (map snd (r # rs)) - 1 = (k - 1) + Suc (m - 1)" using pos m by (simp add: r m_def)
    have "play (Suc (m - 1)) ?t ?l = run_char (fst r2) # play (m - 1) (?t + 100) (fst (led_update ?t ?l))"
      using moved r2(1) by (simp add: stands_def run_char_def Let_def)
    also have "\<dots> = concat (map (\<lambda>(st, n). replicate n (run_char st)) rs)" unfolding ih using hd2 by simp
    finally have tail: "play (Suc (m - 1)) ?t ?l = concat (map (\<lambda>(st, n). replicate n (run_char st)) rs)" .
    show ?thesis
      unfolding len play_add t tail using w pos k(1) by (cases k) (simp_all add: r)
  qed
qed simp

lemma patterns_in_tenths:
  "draw_plan (getPatternSteps (pattern_ord p)) \<noteq> [] \<and>
   length (draw_plan (getPatternSteps (pattern_ord p))) \<le> length (getPatternSteps (pattern_ord p)) \<and>
   list_all2 (\<lambda>s r. fst r = fst s \<and> tenths (snd s) (snd r))
     (take (length (draw_plan (getPatternSteps (pattern_ord p)))) (getPatternSteps (pattern_ord p)))
     (draw_plan (getPatternSteps (pattern_ord p)))"
  by (cases p) (simp_all add: getPatternSteps_def led_tables led_durations draw_plan_def tenths_def
      isTrailingSeparator_def is_separator_step_def)

text \<open>
  The picture of a pattern in the help is what the light does: a player
  that is given the pattern and updated every tenth of a second, from whatever time, shows a
  stroke of the picture when it is on and a blank when it is off, until the picture ends.
\<close>

theorem the_light_plays_the_picture:
  assumes "lastPattern l \<noteq> pattern_ord p" and "currentPattern l = pattern_ord p"
  shows "play (length (filter (\<lambda>c. c \<noteq> CHR ''|'') (renderPattern p))) t l =
    filter (\<lambda>c. c \<noteq> CHR ''|'') (renderPattern p)"
proof -
  let ?rs = "draw_plan (getPatternSteps (pattern_ord p))"
  let ?w = "concat (map (\<lambda>(st, n). replicate n (run_char st)) ?rs)"
  have w: "filter (\<lambda>c. c \<noteq> CHR ''|'') (renderPattern p) = ?w"
    unfolding the_picture_is_the_pattern run_char_def ..
  note pt = patterns_in_tenths[of p]
  obtain r rs where rs: "?rs = r # rs" using pt by (cases ?rs) auto
  obtain s ss where ss: "getPatternSteps (pattern_ord p) = s # ss"
    using pt rs by (cases "getPatternSteps (pattern_ord p)") auto
  have r: "fst r = fst s" "tenths (snd s) (snd r)" using pt unfolding rs unfolding ss by simp_all
  have pos: "0 < snd r" using r(2) by (simp add: tenths_def)
  have "0 < snd s" using tenths_less[OF r(2), of 0] pos by simp
  then have st: "stands (fst (led_update t l)) (pattern_ord p) 0 t"
    using first_update_stands[OF assms(2), of t] assms(1) by (simp add: ss)
  have tail: "play (sum_list (map snd ?rs) - 1) (t + 100) (fst (led_update t l)) = tl ?w"
    by (rule play_runs[OF _ _ st]) (use pt in simp_all)
  have len: "length ?w = Suc (sum_list (map snd ?rs) - 1)"
    using pos by (simp add: length_concat rs comp_def split_beta)
  have hd: "?w = run_char (fst s) # tl ?w"
    using pos r(1) by (cases r; cases "snd r") (simp_all add: rs)
  have "play (length ?w) t l = run_char (fst s) # tl ?w"
    unfolding len using tail st by (simp add: stands_def run_char_def Let_def ss)
  then show ?thesis unfolding w using hd by simp
qed

theorem the_light_plays_the_picture_witness:
  "play (length (filter (\<lambda>c. c \<noteq> CHR ''|'') (renderPattern P_AP_MODE))) 7
     (setPattern (pattern_ord P_AP_MODE) (led_new True))
   = filter (\<lambda>c. c \<noteq> CHR ''|'') (renderPattern P_AP_MODE)"
  by (rule the_light_plays_the_picture) (simp_all add: setPattern_def led_new_def)

end
