(* ===== verification/Host_Replay.thy ===== *)
theory Host_Replay
  imports Host_Frames Host_Service
begin

text \<open>
  Replay of frames through the decoder: \<open>ReplayPacing.{h,cpp}\<close>, \<open>PacedFrameScheduler.{h,cpp}\<close> and
  \<open>PipelineReplay.{h,cpp}\<close> under \<open>src/pipeline\<close>, the row pacer \<open>src/cli/CsvReplayPacer.cpp\<close>, and the two
  clocks of \<open>util/IClock.h\<close> (\<open>src/util/SystemClock.cpp\<close>).

  A clock is a state with \<open>now\<close> (nanoseconds) and \<open>sleepFor\<close> (milliseconds); the locale \<open>pacing_clock\<close>
  says what the pacing relies on, and both clocks are interpretations of it. Time that passes
  outside the pacing, in the source and in the sinks, is a third operation, \<open>pass\<close>.

  The threshold of the skip gate is \<open>startFromS * 1000\<close> cast to 64 bits, \<open>None\<close> for a negative
  \<open>startFromS\<close>; the conversion of the double belongs to the caller. Differences of timestamps are
  taken as C++ takes them after the cast to \<open>int64_t\<close>; they do not overflow for timestamps below
  \<open>2^62\<close>, which the theorems assume.
\<close>

section \<open>Clocks\<close>

record 'c clock_ops =
  ck_now :: "'c \<Rightarrow> int"
  ck_sleepFor :: "int \<Rightarrow> 'c \<Rightarrow> 'c"
  ck_pass :: "nat \<Rightarrow> 'c \<Rightarrow> 'c"

definition NS_PER_MS :: int where "NS_PER_MS = 1000000"

text \<open>The clock of the tests: \<open>advance\<close> and \<open>sleepFor\<close> move it, nothing else does.\<close>

definition fake_advance :: "int \<Rightarrow> int \<Rightarrow> int" where
  "fake_advance d t = (if d \<le> 0 then t else t + d)"

definition fake_sleepFor :: "int \<Rightarrow> int \<Rightarrow> int" where
  "fake_sleepFor d t = (if d \<le> 0 then t else t + d * NS_PER_MS)"

definition fake_clock :: "int clock_ops" where
  "fake_clock = \<lparr>ck_now = (\<lambda>n. n), ck_sleepFor = fake_sleepFor, ck_pass = (\<lambda>d. fake_advance (int d))\<rparr>"

text \<open>
  The system clock: \<open>std::this_thread::sleep_for\<close> waits at least as long as asked; by how much it
  overshoots is the environment's, a list with one entry per sleep.
\<close>

record os_clock =
  os_time :: int
  os_overshoot :: "nat list"

definition os_sleepFor :: "int \<Rightarrow> os_clock \<Rightarrow> os_clock" where
  "os_sleepFor d c =
     (case os_overshoot c of
        [] \<Rightarrow> c\<lparr>os_time := os_time c + max 0 d * NS_PER_MS\<rparr>
      | x # xs \<Rightarrow> c\<lparr>os_time := os_time c + max 0 d * NS_PER_MS + int x, os_overshoot := xs\<rparr>)"

definition os_clock_ops :: "os_clock clock_ops" where
  "os_clock_ops = \<lparr>ck_now = os_time, ck_sleepFor = os_sleepFor,
     ck_pass = (\<lambda>d c. c\<lparr>os_time := os_time c + int d\<rparr>)\<rparr>"

section \<open>The pacing policy\<close>

definition isFrameBlank :: "TwaiFrame \<Rightarrow> bool" where
  "isFrameBlank f \<longleftrightarrow> timestampMs f = 0 \<and> list_all (\<lambda>b. b = 0) (drop 2 (bytes f))"

definition classifyFrame :: "u64 option \<Rightarrow> TwaiFrame \<Rightarrow> u64 \<Rightarrow> u64 \<Rightarrow> nat \<Rightarrow> int" where
  "classifyFrame threshold f recordingBaseline pacingBaseline elapsed =
     (if (case threshold of Some t \<Rightarrow> timestampMs f - recordingBaseline < t | None \<Rightarrow> False) then -1
      else
        let scheduled = sint (timestampMs f) - sint pacingBaseline;
            behind = scheduled - int elapsed
        in if behind \<le> 0 then 0 else behind)"

section \<open>The scheduler of one run\<close>

datatype PacedAction = Emit | SkipFrame

record scheduler =
  ps_threshold :: "u64 option"
  ps_replayStart :: int
  ps_baselineSet :: bool
  ps_emittedAny :: bool
  ps_recordingBaseline :: u64
  ps_pacingBaseline :: u64

definition scheduler_new :: "'c clock_ops \<Rightarrow> u64 option \<Rightarrow> 'c \<Rightarrow> scheduler" where
  "scheduler_new k threshold c =
     \<lparr>ps_threshold = threshold, ps_replayStart = ck_now k c, ps_baselineSet = False,
      ps_emittedAny = False, ps_recordingBaseline = 0, ps_pacingBaseline = 0\<rparr>"

text \<open>
  The elapsed milliseconds, not negative. The count of a 64-bit clock in nanoseconds, divided by a
  million, fits the \<open>uint64_t\<close> it is returned in and the \<open>int64_t\<close> it is cast to.
\<close>

definition elapsed_ms :: "int \<Rightarrow> int \<Rightarrow> nat" where
  "elapsed_ms start t = nat ((t - start) div NS_PER_MS)"

definition consider_frame ::
    "'c clock_ops \<Rightarrow> TwaiFrame \<Rightarrow> scheduler \<times> 'c \<Rightarrow> PacedAction \<times> scheduler \<times> 'c" where
  "consider_frame k f sc =
     (let (s, c) = sc
      in if isFrameBlank f then (SkipFrame, s, c)
         else
           let s1 = (if ps_baselineSet s then s
                     else s\<lparr>ps_recordingBaseline := timestampMs f, ps_pacingBaseline := timestampMs f,
                            ps_baselineSet := True\<rparr>);
               waitMs = classifyFrame (ps_threshold s1) f (ps_recordingBaseline s1) (ps_pacingBaseline s1)
                          (elapsed_ms (ps_replayStart s1) (ck_now k c))
           in if waitMs < 0 then (SkipFrame, s1, c)
              else if \<not> ps_emittedAny s1 then
                (Emit, s1\<lparr>ps_pacingBaseline := timestampMs f, ps_replayStart := ck_now k c,
                          ps_emittedAny := True\<rparr>, c)
              else (Emit, s1, if 0 < waitMs then ck_sleepFor k waitMs c else c))"

section \<open>The replay loops\<close>

record ReplayStats =
  linesRead :: nat
  framesDecoded :: nat
  malformedLines :: nat
  skippedLines :: nat

definition stats_new :: ReplayStats where
  "stats_new = \<lparr>linesRead = 0, framesDecoded = 0, malformedLines = 0, skippedLines = 0\<rparr>"

record ReplayOutputs =
  ro_decoded :: bool
  ro_raw :: bool
  ro_progress :: bool

text \<open>What a run does to its sinks, and the line on the error stream for a frame without signal.\<close>

datatype 'd replay_out =
    RawLine string
  | Decoded "'d VehicleSignal"
  | OnFrame "'d VehicleSignal" nat
  | NoMatch string
  | OnComplete ReplayStats
  | DanglingRead

definition recordRawLine :: "ReplayOutputs \<Rightarrow> TwaiFrame \<Rightarrow> 'd replay_out list" where
  "recordRawLine ou f = (if ro_raw ou \<and> rawLine f \<noteq> [] then [RawLine (rawLine f)] else [])"

definition dispatch_id :: "TwaiFrame \<Rightarrow> u16" where
  "dispatch_id f = ucast (bytes f ! 0) OR push_bit 8 (ucast (bytes f ! 1))"

definition hex_lower :: "nat \<Rightarrow> nat \<Rightarrow> string" where
  "hex_lower w n =
     map (\<lambda>c. let u = (of_char c :: nat) in if 65 \<le> u \<and> u \<le> 70 then char_of (u + 32) else c) (hex_pad w n)"

definition EM_DASH :: string where "EM_DASH = [CHR 0xE2, CHR 0x80, CHR 0x94]"

definition no_match_line :: "TwaiFrame \<Rightarrow> string" where
  "no_match_line f = ''[decode] CAN 0x'' @ hex_lower 3 (unat (dispatch_id f)) @ '' '' @ EM_DASH
     @ '' no DBC signal matched'' @ [LF]"

text \<open>
  \<open>clk\<close> is the wall clock \<open>processFrame\<close> would stamp a frame without timestamp with. A read through
  the dangling pointers of a failed reload ends the run as \<open>DanglingRead\<close>.
\<close>

definition dispatchFrame ::
    "'d host_env \<Rightarrow> u64 \<Rightarrow> ReplayOutputs \<Rightarrow> TwaiFrame \<Rightarrow> 'd service \<times> ReplayStats \<Rightarrow>
     bool \<times> ('d service \<times> ReplayStats) \<times> 'd replay_out list" where
  "dispatchFrame h clk ou f s =
     (let (r, sv) = processFrame h clk (bytes f) (Some (timestampMs f)) (fst s)
      in case r of
           None \<Rightarrow> (False, (sv, snd s), [DanglingRead])
         | Some None \<Rightarrow> (True, (sv, snd s), [NoMatch (no_match_line f)])
         | Some (Some sig) \<Rightarrow>
             let st = (snd s)\<lparr>framesDecoded := framesDecoded (snd s) + 1\<rparr>
             in (True, (sv, st), (if ro_decoded ou then [Decoded sig] else [])
                  @ (if ro_progress ou then [OnFrame sig (framesDecoded st - 1)] else [])))"

definition read_line :: "'d service \<times> ReplayStats \<Rightarrow> 'd service \<times> ReplayStats" where
  "read_line s = (fst s, (snd s)\<lparr>linesRead := linesRead (snd s) + 1\<rparr>)"

definition finish_run :: "ReplayOutputs \<Rightarrow> ReplayStats \<Rightarrow> 'd replay_out list" where
  "finish_run ou st = (if ro_progress ou then [OnComplete st] else [])"

fun runReplayUnpaced ::
    "'d host_env \<Rightarrow> u64 \<Rightarrow> ReplayOutputs \<Rightarrow> TwaiFrame list \<Rightarrow> 'd service \<times> ReplayStats \<Rightarrow>
     ('d service \<times> ReplayStats) \<times> 'd replay_out list" where
  "runReplayUnpaced h clk ou [] s = (s, finish_run ou (snd s))"
| "runReplayUnpaced h clk ou (f # fs) s =
     (let (ok, s1, out) = dispatchFrame h clk ou f (read_line s)
      in if \<not> ok then (s1, recordRawLine ou f @ out)
         else let (s2, rest) = runReplayUnpaced h clk ou fs s1 in (s2, recordRawLine ou f @ out @ rest))"

text \<open>
  The paced loop, over what the source does: the time until it has a frame, and the frame. Each
  output carries the time of the clock when it was made.
\<close>

fun runReplayPaced ::
    "'c clock_ops \<Rightarrow> 'd host_env \<Rightarrow> u64 \<Rightarrow> ReplayOutputs \<Rightarrow> (nat \<times> TwaiFrame) list \<Rightarrow>
     scheduler \<times> 'c \<Rightarrow> 'd service \<times> ReplayStats \<Rightarrow>
     ('d service \<times> ReplayStats) \<times> (int \<times> 'd replay_out) list" where
  "runReplayPaced k h clk ou [] sc s = (s, map (Pair (ck_now k (snd sc))) (finish_run ou (snd s)))"
| "runReplayPaced k h clk ou ((d, f) # fs) sc s =
     (let c0 = ck_pass k d (snd sc);
          raw = map (Pair (ck_now k c0)) (recordRawLine ou f);
          (act, sc1) = consider_frame k f (fst sc, c0);
          s1 = read_line s
      in if act = SkipFrame then
           let (s2, rest) = runReplayPaced k h clk ou fs sc1
                 (fst s1, (snd s1)\<lparr>skippedLines := skippedLines (snd s1) + 1\<rparr>)
           in (s2, raw @ rest)
         else
           let (ok, s2, out) = dispatchFrame h clk ou f s1;
               out1 = map (Pair (ck_now k (snd sc1))) out
           in if \<not> ok then (s2, raw @ out1)
              else let (s3, rest) = runReplayPaced k h clk ou fs sc1 s2 in (s3, raw @ out1 @ rest))"

datatype ReplayMode = Unpaced | Paced

text \<open>Only the paced loop looks at the clock, so only its outputs have a time.\<close>

definition runReplay ::
    "'c clock_ops \<Rightarrow> 'd host_env \<Rightarrow> u64 \<Rightarrow> ReplayOutputs \<Rightarrow> ReplayMode \<Rightarrow> u64 option \<Rightarrow>
     (nat \<times> TwaiFrame) list \<Rightarrow> 'c \<Rightarrow> 'd service \<Rightarrow>
     ('d service \<times> ReplayStats) \<times> (int option \<times> 'd replay_out) list" where
  "runReplay k h clk ou mode threshold fs c sv =
     (if mode = Paced then
        let (s, out) = runReplayPaced k h clk ou fs (scheduler_new k threshold c, c) (sv, stats_new)
        in (s, map (apfst Some) out)
      else let (s, out) = runReplayUnpaced h clk ou (map snd fs) (sv, stats_new)
           in (s, map (Pair None) out))"

section \<open>The pacer of decoded rows\<close>

record csv_pacer =
  cp_intervalMs :: int
  cp_replayStart :: int
  cp_baseline :: u64
  cp_rowsPaced :: u64
  cp_anchored :: bool

definition csv_pacer_new :: "int \<Rightarrow> csv_pacer" where
  "csv_pacer_new intervalMs =
     \<lparr>cp_intervalMs = intervalMs, cp_replayStart = 0, cp_baseline = 0, cp_rowsPaced = 0,
      cp_anchored = False\<rparr>"

definition scheduledOffsetMs :: "csv_pacer \<Rightarrow> u64 \<Rightarrow> int" where
  "scheduledOffsetMs p rowTs =
     (if 0 < cp_intervalMs p then sint (cp_rowsPaced p) * cp_intervalMs p
      else sint rowTs - sint (cp_baseline p))"

definition paceRow :: "'c clock_ops \<Rightarrow> u64 \<Rightarrow> csv_pacer \<times> 'c \<Rightarrow> csv_pacer \<times> 'c" where
  "paceRow k rowTs pc =
     (let (p, c) = pc
      in if \<not> cp_anchored p then
           (p\<lparr>cp_baseline := rowTs, cp_replayStart := ck_now k c, cp_anchored := True,
              cp_rowsPaced := 1\<rparr>, c)
         else
           let waitMs = scheduledOffsetMs p rowTs - int (elapsed_ms (cp_replayStart p) (ck_now k c))
           in (p\<lparr>cp_rowsPaced := cp_rowsPaced p + 1\<rparr>,
               if 0 < waitMs then ck_sleepFor k waitMs c else c))"

end
