(* ===== verification/Host_Csv.thy ===== *)
theory Host_Csv
  imports Host_Cli Host_Replay
begin

text \<open>
  Logs of decoded and raw data, all under \<open>src/src\<close> and \<open>src/include/vehicle-sim\<close>: the row of decoded
  telemetry (\<open>telemetry/CsvRowFormatter.{h,cpp}\<close>, \<open>CsvCell.h\<close>, \<open>VehicleId.h\<close>, \<open>GearSelector.h\<close>), the sinks that
  write it (\<open>telemetry/TraceLogger.cpp\<close>, \<open>CsvStdoutSink.cpp\<close>, \<open>pipeline/DecodedCsvSink.cpp\<close>), the logs of raw
  lines and bytes (\<open>pipeline/RawLogSink.cpp\<close>, \<open>telemetry/RawTraceLogger.cpp\<close>), and the reader and the
  loop that replay decoded rows (\<open>io/FileCsvTelemetrySource.cpp\<close>, \<open>cli/CsvReplayRunContext.cpp\<close>).

  A sink is the text it has written. Of the double arithmetic the code uses \<open>std::stod\<close>, the value in
  hundredths (\<open>llround(value * 100)\<close>), zero, and the cast to \<open>uint64_t\<close>: the record \<open>csv_numbers\<close>.
\<close>

section \<open>Cells\<close>

record 'd csv_numbers =
  cn_stod :: "string \<Rightarrow> 'd option"
  cn_hundredths :: "'d \<Rightarrow> int"
  cn_zero :: 'd
  cn_u64 :: "'d \<Rightarrow> u64"

definition csvNumericCell :: "string \<Rightarrow> string" where
  "csvNumericCell formatted =
     filter (\<lambda>c. is_digit c \<or> c \<in> {CHR ''-'', CHR ''+'', CHR ''.'', CHR ''e'', CHR ''E''}) formatted"

text \<open>Division and remainder of C++ truncate towards zero.\<close>

definition cents_whole :: "int \<Rightarrow> int" where
  "cents_whole scaled = (if scaled < 0 then - ((- scaled) div 100) else scaled div 100)"

definition cents_frac :: "int \<Rightarrow> nat" where
  "cents_frac scaled = nat (\<bar>scaled\<bar> mod 100)"

definition format_cents :: "int \<Rightarrow> string" where
  "format_cents scaled =
     csvNumericCell (int_str (cents_whole scaled)) @ ''.'' @ csvNumericCell (pad_left 2 (dec_str (cents_frac scaled)))"

definition formatOptional :: "'d csv_numbers \<Rightarrow> 'd option \<Rightarrow> string" where
  "formatOptional n v = (case v of None \<Rightarrow> [] | Some x \<Rightarrow> format_cents (cn_hundredths n x))"

definition formatBrakeLight :: "int option \<Rightarrow> string" where
  "formatBrakeLight v = (case v of None \<Rightarrow> [] | Some b \<Rightarrow> if b \<noteq> 0 then ''1'' else ''0'')"

section \<open>Rows\<close>

text \<open>\<open>VehicleId\<close> and \<open>GearSelector\<close> are strings that went through \<open>forLog\<close>.\<close>

definition fromUserInput :: "string \<Rightarrow> string" where "fromUserInput raw = forLog raw"
definition fromRegistry :: "string \<Rightarrow> string" where "fromRegistry raw = forLog raw"

record 'd CsvRowParams =
  cr_timestampMs :: u64
  cr_vehicleId :: string
  cr_speedKmh :: "'d option"
  cr_throttlePercent :: "'d option"
  cr_brakeLight :: "int option"
  cr_accelerationG :: "'d option"
  cr_steeringAngleDeg :: "'d option"
  cr_motorRpm :: "'d option"
  cr_motorHvVoltage :: "'d option"
  cr_motorHvCurrent :: "'d option"
  cr_motorTorqueNm :: "'d option"
  cr_gearSelector :: string
  cr_dbcSignalCount :: int

definition csv_columns :: "string list" where
  "csv_columns = [''timestamp_ms'', ''vehicle_id'', ''speed_kmh'', ''throttle_percent'', ''brake_light'',
     ''acceleration_g'', ''steering_angle_deg'', ''motor_rpm'', ''motor_hv_voltage'',
     ''motor_hv_current'', ''motor_torque_nm'', ''gear_selector'', ''dbc_signal_count'']"

fun join_cells :: "string list \<Rightarrow> string" where
  "join_cells [] = []"
| "join_cells [c] = c"
| "join_cells (c # cs) = c @ CHR '','' # join_cells cs"

definition csvHeaderLine :: string where
  "csvHeaderLine = join_cells csv_columns"

definition csv_cells :: "'d csv_numbers \<Rightarrow> 'd CsvRowParams \<Rightarrow> string list" where
  "csv_cells n r =
     [csvNumericCell (dec_str (unat (cr_timestampMs r))),
      forLog (cr_vehicleId r),
      formatOptional n (cr_speedKmh r),
      formatOptional n (cr_throttlePercent r),
      formatBrakeLight (cr_brakeLight r),
      formatOptional n (cr_accelerationG r),
      formatOptional n (cr_steeringAngleDeg r),
      formatOptional n (cr_motorRpm r),
      formatOptional n (cr_motorHvVoltage r),
      formatOptional n (cr_motorHvCurrent r),
      formatOptional n (cr_motorTorqueNm r),
      forLog (cr_gearSelector r),
      csvNumericCell (int_str (cr_dbcSignalCount r))]"

definition csvRowLine :: "'d csv_numbers \<Rightarrow> 'd CsvRowParams \<Rightarrow> string" where
  "csvRowLine n r = join_cells (csv_cells n r)"

definition present :: "'a option \<Rightarrow> int" where
  "present v = (if v = None then 0 else 1)"

definition countPopulated :: "'d VehicleSignal \<Rightarrow> int" where
  "countPopulated s =
     present (throttlePercent s) + present (speedKmh s) + present (accelerationG s)
     + present (brakeLight s) + present (steeringAngleDeg s) + present (motorRpm s)
     + present (motorHvVoltage s) + present (motorHvCurrent s) + present (motorTorqueNm s)
     + present (gearSelector s)"

section \<open>The sinks of decoded rows\<close>

text \<open>The row both sinks build from a signal; the label of the vehicle is theirs.\<close>

definition signal_row :: "string \<Rightarrow> 'd VehicleSignal \<Rightarrow> 'd CsvRowParams" where
  "signal_row vehicleId s =
     \<lparr>cr_timestampMs = timestampUtcMs s, cr_vehicleId = vehicleId,
      cr_speedKmh = speedKmh s, cr_throttlePercent = throttlePercent s,
      cr_brakeLight = (case brakeLight s of None \<Rightarrow> None | Some b \<Rightarrow> Some (if b then 1 else 0)),
      cr_accelerationG = accelerationG s, cr_steeringAngleDeg = steeringAngleDeg s,
      cr_motorRpm = motorRpm s, cr_motorHvVoltage = motorHvVoltage s,
      cr_motorHvCurrent = motorHvCurrent s, cr_motorTorqueNm = motorTorqueNm s,
      cr_gearSelector = (case gearSelector s of None \<Rightarrow> []
                         | Some g \<Rightarrow> fromRegistry (labelOr g (int_str g))),
      cr_dbcSignalCount = countPopulated s\<rparr>"

record text_sink =
  ts_open :: bool
  ts_vehicleId :: string
  ts_text :: string

text \<open>\<open>None\<close>: the constructor throws because the file cannot be opened.\<close>

definition TraceLogger_new :: "bool \<Rightarrow> string \<Rightarrow> text_sink option" where
  "TraceLogger_new opens vehicleId =
     (if \<not> opens then None
      else Some \<lparr>ts_open = True, ts_vehicleId = fromUserInput vehicleId, ts_text = csvHeaderLine @ [LF]\<rparr>)"

definition TraceLogger_call :: "'d csv_numbers \<Rightarrow> 'd VehicleSignal \<Rightarrow> text_sink \<Rightarrow> text_sink" where
  "TraceLogger_call n s t =
     (if \<not> ts_open t then t
      else t\<lparr>ts_text := ts_text t @ csvRowLine n (signal_row (ts_vehicleId t) s) @ [LF]\<rparr>)"

text \<open>The sink of standard output: nothing at all when it is disabled.\<close>

definition createStdoutSink :: "bool \<Rightarrow> string \<Rightarrow> text_sink" where
  "createStdoutSink enabled vehicleId =
     \<lparr>ts_open = enabled, ts_vehicleId = fromUserInput vehicleId,
      ts_text = (if enabled then csvHeaderLine @ [LF] else [])\<rparr>"

definition CsvStdoutSink_call :: "'d csv_numbers \<Rightarrow> 'd VehicleSignal \<Rightarrow> text_sink \<Rightarrow> text_sink" where
  "CsvStdoutSink_call n s t =
     (if ts_open t then t\<lparr>ts_text := ts_text t @ csvRowLine n (signal_row (ts_vehicleId t) s) @ [LF]\<rparr> else t)"

definition DecodedCsvSink_write :: "'d csv_numbers \<Rightarrow> 'd VehicleSignal \<Rightarrow> text_sink \<Rightarrow> text_sink" where
  "DecodedCsvSink_write n s t = TraceLogger_call n s t"

section \<open>The logs of raw data\<close>

text \<open>One line of a transport, after the wall clock in milliseconds.\<close>

definition RawLogSink_writeLine :: "u64 \<Rightarrow> string \<Rightarrow> text_sink \<Rightarrow> text_sink" where
  "RawLogSink_writeLine t line sink =
     (if \<not> ts_open sink then sink
      else sink\<lparr>ts_text := ts_text sink @ dec_str (unat t) @ CHR '','' # line @ [LF]\<rparr>)"

definition RawTraceLogger_new :: "bool \<Rightarrow> string \<Rightarrow> text_sink option" where
  "RawTraceLogger_new opens before =
     (if \<not> opens then None
      else Some \<lparr>ts_open = True, ts_vehicleId = [],
        ts_text = before @ ''# vehicle-sim raw CAN capture'' @ [LF]
          @ ''# format: timestamp_utc_ms,data_hex'' @ [LF]\<rparr>)"

definition RawTraceLogger_write :: "u64 \<Rightarrow> u8 list \<Rightarrow> text_sink \<Rightarrow> text_sink" where
  "RawTraceLogger_write t data sink =
     (if \<not> ts_open sink then sink
      else sink\<lparr>ts_text := ts_text sink @ dec_str (unat t) @ CHR '','' # concat (map (\<lambda>b. hex_lower 2 (unat b)) data)
             @ [LF]\<rparr>)"

section \<open>Reading decoded rows\<close>

definition csv_trim :: "string \<Rightarrow> string" where "csv_trim s = trim_by ws4 s"

text \<open>\<open>std::getline\<close> with a delimiter over a whole text: no field after a delimiter at the end.\<close>

fun split_fields :: "char \<Rightarrow> string \<Rightarrow> string list" where
  "split_fields d [] = []"
| "split_fields d (c # cs) =
     (if c = d then [] # split_fields d cs
      else case split_fields d cs of
             [] \<Rightarrow> [[c]]
           | f # fs \<Rightarrow> (c # f) # fs)"

definition splitCsv :: "string \<Rightarrow> string list" where
  "splitCsv line = map csv_trim (split_fields (CHR '','') line)"

definition findColumn :: "string list \<Rightarrow> string \<Rightarrow> nat option" where
  "findColumn headers name =
     (let i = length (takeWhile (\<lambda>h. h \<noteq> name) headers) in if i < length headers then Some i else None)"

definition toDouble :: "'d csv_numbers \<Rightarrow> string \<Rightarrow> 'd \<Rightarrow> 'd" where
  "toDouble n s fallback = (case cn_stod n s of Some v \<Rightarrow> v | None \<Rightarrow> fallback)"

definition csv_space :: "char \<Rightarrow> bool" where
  "csv_space c \<longleftrightarrow> c = CHR '' '' \<or> (9 \<le> (of_char c :: nat) \<and> (of_char c :: nat) \<le> 13)"

text \<open>\<open>std::stoi\<close>: white space, a sign, digits; \<open>None\<close> when there are none or the value does not fit.\<close>

definition csv_stoi :: "string \<Rightarrow> int option" where
  "csv_stoi s =
     (let t = dropWhile csv_space s;
          neg = (t \<noteq> [] \<and> hd t = CHR ''-'');
          u = (if t \<noteq> [] \<and> hd t \<in> {CHR ''-'', CHR ''+''} then tl t else t);
          d = takeWhile is_digit u;
          v = foldl (\<lambda>a c. a * 10 + int (digit_val c)) 0 d;
          w = (if neg then - v else v)
      in if d = [] \<or> w < - (2 ^ 31) \<or> 2 ^ 31 \<le> w then None else Some w)"

definition toInt :: "string \<Rightarrow> int \<Rightarrow> int" where
  "toInt s fallback = (case csv_stoi s of Some v \<Rightarrow> v | None \<Rightarrow> fallback)"

definition toOptionalInt :: "string \<Rightarrow> int option" where
  "toOptionalInt s = csv_stoi s"

record 'd CsvTelemetryRow =
  tr_timestamp_ms :: u64
  tr_vehicle_id :: string
  tr_speed_kmh :: 'd
  tr_throttle_percent :: 'd
  tr_brake_light :: "int option"
  tr_acceleration_g :: 'd
  tr_steering_angle_deg :: 'd
  tr_motor_rpm :: 'd
  tr_motor_hv_voltage :: 'd
  tr_motor_hv_current :: 'd
  tr_motor_torque_nm :: 'd
  tr_gear_selector :: string
  tr_dbc_signal_count :: int

definition row_default :: "'d csv_numbers \<Rightarrow> 'd CsvTelemetryRow" where
  "row_default n =
     \<lparr>tr_timestamp_ms = 0, tr_vehicle_id = [], tr_speed_kmh = cn_zero n,
      tr_throttle_percent = cn_zero n, tr_brake_light = None, tr_acceleration_g = cn_zero n,
      tr_steering_angle_deg = cn_zero n, tr_motor_rpm = cn_zero n, tr_motor_hv_voltage = cn_zero n,
      tr_motor_hv_current = cn_zero n, tr_motor_torque_nm = cn_zero n, tr_gear_selector = [],
      tr_dbc_signal_count = 0\<rparr>"

text \<open>The cell of a named column: the column the header gives it, if the row has it.\<close>

definition csv_cell :: "string list \<Rightarrow> string list \<Rightarrow> string \<Rightarrow> string option" where
  "csv_cell headers cells name =
     (case findColumn headers name of
        None \<Rightarrow> None
      | Some i \<Rightarrow> if i < length cells then Some (cells ! i) else None)"

definition cell_double :: "'d csv_numbers \<Rightarrow> string option \<Rightarrow> 'd" where
  "cell_double n c = (case c of None \<Rightarrow> cn_zero n | Some s \<Rightarrow> toDouble n s (cn_zero n))"

definition cell_string :: "string option \<Rightarrow> string" where
  "cell_string c = (case c of None \<Rightarrow> [] | Some s \<Rightarrow> s)"

definition parseRow :: "'d csv_numbers \<Rightarrow> string list \<Rightarrow> string \<Rightarrow> 'd CsvTelemetryRow \<Rightarrow> bool \<times> 'd CsvTelemetryRow" where
  "parseRow n headers line out =
     (let cells0 = splitCsv line
      in if cells0 = [] then (False, out)
         else
           let cells = cells0 @ replicate (length headers - length cells0) [];
               cell = csv_cell headers cells;
               num = (\<lambda>name. cell_double n (cell name))
           in (True,
             \<lparr>tr_timestamp_ms = cn_u64 n (num ''timestamp_ms''),
              tr_vehicle_id = fromUserInput (cell_string (cell ''vehicle_id'')),
              tr_speed_kmh = num ''speed_kmh'',
              tr_throttle_percent = num ''throttle_percent'',
              tr_brake_light = (case cell ''brake_light'' of None \<Rightarrow> None | Some s \<Rightarrow> toOptionalInt s),
              tr_acceleration_g = num ''acceleration_g'',
              tr_steering_angle_deg = num ''steering_angle_deg'',
              tr_motor_rpm = num ''motor_rpm'',
              tr_motor_hv_voltage = num ''motor_hv_voltage'',
              tr_motor_hv_current = num ''motor_hv_current'',
              tr_motor_torque_nm = num ''motor_torque_nm'',
              tr_gear_selector = fromUserInput (cell_string (cell ''gear_selector'')),
              tr_dbc_signal_count =
                (case cell ''dbc_signal_count'' of None \<Rightarrow> 0 | Some s \<Rightarrow> toInt s 0)\<rparr>))"

record csv_source =
  cs_lines :: "string list"
  cs_eof :: bool
  cs_pending :: "string option"
  cs_headers :: "string list"

text \<open>The constructor; \<open>None\<close> for the exception it throws on a missing or empty file.\<close>

definition csv_source_new :: "string option \<Rightarrow> csv_source option" where
  "csv_source_new file =
     (case map_option getlines file of
        None \<Rightarrow> None
      | Some [] \<Rightarrow> None
      | Some (header # ls) \<Rightarrow>
          Some \<lparr>cs_lines = ls, cs_eof = False, cs_pending = None, cs_headers = splitCsv header\<rparr>)"

definition csv_hasNext :: "csv_source \<Rightarrow> bool \<times> csv_source" where
  "csv_hasNext s =
     (if cs_eof s then (False, s)
      else if cs_pending s \<noteq> None then (True, s)
      else
        (case dropWhile (\<lambda>l. l = []) (cs_lines s) of
           [] \<Rightarrow> (False, s\<lparr>cs_lines := [], cs_eof := True\<rparr>)
         | l # ls \<Rightarrow> (True, s\<lparr>cs_lines := ls, cs_pending := Some l\<rparr>)))"

definition csv_next :: "'d csv_numbers \<Rightarrow> csv_source \<Rightarrow> 'd CsvTelemetryRow \<times> csv_source" where
  "csv_next n s =
     (let s1 = (if cs_pending s = None then snd (csv_hasNext s) else s)
      in case cs_pending s1 of
           None \<Rightarrow> (row_default n, s1)
         | Some l \<Rightarrow> (snd (parseRow n (cs_headers s1) l (row_default n)), s1\<lparr>cs_pending := None\<rparr>))"

section \<open>The replay loop of decoded rows\<close>

definition row_params :: "'d CsvTelemetryRow \<Rightarrow> 'd CsvRowParams" where
  "row_params r =
     \<lparr>cr_timestampMs = tr_timestamp_ms r, cr_vehicleId = tr_vehicle_id r,
      cr_speedKmh = Some (tr_speed_kmh r), cr_throttlePercent = Some (tr_throttle_percent r),
      cr_brakeLight = tr_brake_light r, cr_accelerationG = Some (tr_acceleration_g r),
      cr_steeringAngleDeg = Some (tr_steering_angle_deg r), cr_motorRpm = Some (tr_motor_rpm r),
      cr_motorHvVoltage = Some (tr_motor_hv_voltage r), cr_motorHvCurrent = Some (tr_motor_hv_current r),
      cr_motorTorqueNm = Some (tr_motor_torque_nm r), cr_gearSelector = tr_gear_selector r,
      cr_dbcSignalCount = tr_dbc_signal_count r\<rparr>"

definition label_row :: "string \<Rightarrow> 'd CsvTelemetryRow \<Rightarrow> 'd CsvTelemetryRow" where
  "label_row vehicleId r =
     (if vehicleId \<noteq> [] \<and> tr_vehicle_id r = [] then r\<lparr>tr_vehicle_id := fromUserInput vehicleId\<rparr> else r)"

definition source_size :: "csv_source \<Rightarrow> nat" where
  "source_size s = length (cs_lines s) + (if cs_pending s = None then 0 else 1)"

lemma hasNext_shrinks:
  "fst (csv_hasNext s) \<Longrightarrow> source_size (snd (csv_next n (snd (csv_hasNext s)))) < source_size s"
  using length_dropWhile_le[of "\<lambda>l. l = []" "cs_lines s"]
  by (auto simp: csv_hasNext_def csv_next_def source_size_def split: if_splits list.splits)

text \<open>
  The loop; \<open>first\<close> says whether a row has been written. The result is what is written to
  standard output, each piece with the time of the clock, and the number of rows.
\<close>

function csv_replay_loop ::
    "'c clock_ops \<Rightarrow> 'd csv_numbers \<Rightarrow> string \<Rightarrow> bool \<Rightarrow> csv_pacer \<times> 'c \<Rightarrow> csv_source \<Rightarrow> (int \<times> string) list \<times> nat" where
  "csv_replay_loop k n vehicleId isFirst pc s =
     (let (has, s1) = csv_hasNext s
      in if \<not> has then ([], 0)
         else
           let (row, s2) = csv_next n s1;
               pc1 = paceRow k (tr_timestamp_ms row) pc;
               line = csvRowLine n (row_params (label_row vehicleId row));
               (rest, emittedRows) = csv_replay_loop k n vehicleId False pc1 s2
           in ((ck_now k (snd pc1), (if isFirst then [] else [LF]) @ line) # rest, emittedRows + 1))"
  by pat_completeness auto
termination
  by (relation "measure (\<lambda>(k, n, v, b, pc, s). source_size s)") (auto simp: prod_eq_iff hasNext_shrinks)

declare csv_replay_loop.simps [simp del]

record csv_run =
  cv_rc :: int
  cv_out :: "(int \<times> string) list"
  cv_err :: string

definition csv_replay_run ::
    "'c clock_ops \<Rightarrow> 'd csv_numbers \<Rightarrow> string \<Rightarrow> int \<Rightarrow> bool \<Rightarrow> string \<Rightarrow> 'c \<Rightarrow> csv_source option \<Rightarrow> csv_run" where
  "csv_replay_run k n vehicleId interval stdoutCsv name c source =
     (case source of
        None \<Rightarrow> \<lparr>cv_rc = 1, cv_out = [], cv_err = []\<rparr>
      | Some s \<Rightarrow>
          let (has, s1) = csv_hasNext s
          in if \<not> has then \<lparr>cv_rc = 1, cv_out = [], cv_err = []\<rparr>
             else
               let (out, rows) = csv_replay_loop k n vehicleId True (csv_pacer_new interval, c) s1
               in \<lparr>cv_rc = 0,
                   cv_out = (if stdoutCsv then [(ck_now k c, csvHeaderLine @ [LF])] else []) @ out,
                   cv_err = (if stdoutCsv then []
                     else ''Replaying '' @ name @ [LF] @ ''Replayed '' @ dec_str rows @ '' rows'' @ [LF])\<rparr>)"

end
