(* ===== verification/Replay_Proofs.thy ===== *)
theory Replay_Proofs
  imports Host_Replay Frames_Proofs Dbc_Proofs
begin

text \<open>
  Pacing under any clock: when frames and rows are emitted (never early, never drifting), which
  frames come through the gate, and that pacing changes nothing of what is decoded.
\<close>

section \<open>What pacing relies on\<close>

locale pacing_clock =
  fixes k :: "'c clock_ops"
  assumes sleeps: "0 < d \<Longrightarrow> ck_now k c + d * NS_PER_MS \<le> ck_now k (ck_sleepFor k d c)"
    and passes: "ck_now k (ck_pass k n c) = ck_now k c + int n"

text \<open>A clock whose sleeps overshoot by at most \<open>late\<close> nanoseconds while it is \<open>good\<close>.\<close>

locale punctual_clock = pacing_clock k for k :: "'c clock_ops" +
  fixes late :: int and good :: "'c \<Rightarrow> bool"
  assumes late: "0 \<le> late"
    and good_sleep: "good c \<Longrightarrow> good (ck_sleepFor k d c)"
    and good_pass: "good c \<Longrightarrow> good (ck_pass k n c)"
    and on_time: "0 < d \<Longrightarrow> good c \<Longrightarrow> ck_now k (ck_sleepFor k d c) \<le> ck_now k c + d * NS_PER_MS + late"

interpretation fk: pacing_clock fake_clock
  by unfold_locales (auto simp: fake_clock_def fake_sleepFor_def fake_advance_def)

interpretation fk: punctual_clock fake_clock 0 "\<lambda>_. True"
  by unfold_locales (auto simp: fake_clock_def fake_sleepFor_def)

interpretation os: pacing_clock os_clock_ops
  by unfold_locales (auto simp: os_clock_ops_def os_sleepFor_def split: list.splits)

interpretation os: punctual_clock os_clock_ops "int n" "\<lambda>c. \<forall>x \<in> set (os_overshoot c). x \<le> n" for n
  by unfold_locales (auto simp: os_clock_ops_def os_sleepFor_def split: list.splits)

section \<open>The arithmetic of one wait\<close>

text \<open>
  A caller that arrives at \<open>a\<close>, finds \<open>w\<close> milliseconds left of an appointment \<open>s\<close> milliseconds after
  \<open>t0\<close> by a clock it reads in whole milliseconds, and sleeps them.
\<close>

lemma wait_bounds:
  fixes a t0 s :: int
  assumes "t0 \<le> a" "w = s - int (elapsed_ms t0 a)"
  shows "w \<le> 0 \<Longrightarrow> t0 + s * NS_PER_MS \<le> a"
    and "t0 + s * NS_PER_MS \<le> a + w * NS_PER_MS"
    and "a + w * NS_PER_MS < t0 + s * NS_PER_MS + NS_PER_MS"
proof -
  let ?q = "(a - t0) div NS_PER_MS"
  have "int (elapsed_ms t0 a) = ?q" using assms(1) by (simp add: elapsed_ms_def NS_PER_MS_def)
  then have w: "w = s - ?q" using assms(2) by simp
  have l: "?q * NS_PER_MS \<le> a - t0" and u: "a - t0 < ?q * NS_PER_MS + NS_PER_MS"
    by (simp_all add: NS_PER_MS_def)
  have d: "w * NS_PER_MS = s * NS_PER_MS - ?q * NS_PER_MS" by (simp add: w algebra_simps)
  show "t0 + s * NS_PER_MS \<le> a + w * NS_PER_MS" using l d by linarith
  show "a + w * NS_PER_MS < t0 + s * NS_PER_MS + NS_PER_MS" using u d by linarith
  assume "w \<le> 0"
  then have "w * NS_PER_MS \<le> 0" by (simp add: NS_PER_MS_def)
  then show "t0 + s * NS_PER_MS \<le> a" using l d by linarith
qed

text \<open>When something due \<open>s\<close> milliseconds after \<open>t0\<close> that is ready at \<open>a\<close> may happen.\<close>

definition on_schedule :: "int \<Rightarrow> int \<Rightarrow> int \<Rightarrow> int \<Rightarrow> int \<Rightarrow> bool" where
  "on_schedule late t0 s a t \<longleftrightarrow> max a (t0 + s * NS_PER_MS) \<le> t
     \<and> t < max (a + 1) (t0 + (s + 1) * NS_PER_MS + late)"

definition sleep_off :: "'c clock_ops \<Rightarrow> int \<Rightarrow> 'c \<Rightarrow> 'c" where
  "sleep_off k w c = (if 0 < w then ck_sleepFor k w c else c)"

context punctual_clock
begin

lemma sleep_off_good: "good c \<Longrightarrow> good (sleep_off k w c)"
  by (simp add: sleep_off_def good_sleep)

lemma sleep_off_forward: "ck_now k c \<le> ck_now k (sleep_off k w c)"
proof (cases "0 < w")
  case True
  then have "0 < w * NS_PER_MS" by (simp add: NS_PER_MS_def)
  then show ?thesis using sleeps[OF True, of c] True by (simp add: sleep_off_def)
qed (simp add: sleep_off_def)

lemma sleep_off_on_schedule:
  assumes "good c" "t0 \<le> ck_now k c" "w = s - int (elapsed_ms t0 (ck_now k c))"
  shows "on_schedule late t0 s (ck_now k c) (ck_now k (sleep_off k w c))"
proof (cases "0 < w")
  case True
  have "(s + 1) * NS_PER_MS = s * NS_PER_MS + NS_PER_MS" by (simp add: algebra_simps)
  then show ?thesis
    using sleeps[OF True, of c] on_time[OF True assms(1)] wait_bounds(2,3)[OF assms(2,3)]
      sleep_off_forward[of c w] True
    unfolding on_schedule_def sleep_off_def by (simp only: if_True) linarith
next
  case False
  then show ?thesis using wait_bounds(1)[OF assms(2,3)] by (simp add: on_schedule_def sleep_off_def)
qed

end

section \<open>The scheduler\<close>

text \<open>The frames a paced run emits, each with the time it arrives and the time it is emitted.\<close>

fun schedule ::
    "'c clock_ops \<Rightarrow> (nat \<times> TwaiFrame) list \<Rightarrow> scheduler \<times> 'c \<Rightarrow> (TwaiFrame \<times> int \<times> int) list" where
  "schedule k [] sc = []"
| "schedule k ((d, f) # fs) sc =
     (let c0 = ck_pass k d (snd sc); (act, sc1) = consider_frame k f (fst sc, c0)
      in (if act = Emit then [(f, ck_now k c0, ck_now k (snd sc1))] else []) @ schedule k fs sc1)"

text \<open>What comes through: not blank, and not before the threshold.\<close>

definition gate :: "u64 option \<Rightarrow> u64 \<Rightarrow> TwaiFrame \<Rightarrow> bool" where
  "gate threshold base f \<longleftrightarrow> \<not> isFrameBlank f
     \<and> (case threshold of Some t \<Rightarrow> t \<le> timestampMs f - base | None \<Rightarrow> True)"

lemma classify_skips:
  "classifyFrame threshold f r p e < 0 \<longleftrightarrow> (case threshold of Some t \<Rightarrow> timestampMs f - r < t | None \<Rightarrow> False)"
  by (auto simp: classifyFrame_def Let_def split: option.splits)

lemma classify_waits:
  "\<not> classifyFrame threshold f r p e < 0 \<Longrightarrow>
     classifyFrame threshold f r p e = max 0 (sint (timestampMs f) - sint p - int e)"
  by (auto simp: classifyFrame_def Let_def split: option.splits if_splits)

lemma sleep_off_max: "sleep_off k (max 0 w) c = sleep_off k w c"
  by (simp add: sleep_off_def)

text \<open>The first frame that is not blank is the baseline; every other frame leaves it alone.\<close>

definition anchor :: "TwaiFrame \<Rightarrow> scheduler \<Rightarrow> scheduler" where
  "anchor f s =
     (if ps_baselineSet s \<or> isFrameBlank f then s
      else s\<lparr>ps_recordingBaseline := timestampMs f, ps_pacingBaseline := timestampMs f,
             ps_baselineSet := True\<rparr>)"

lemma anchor_simps [simp]:
  "ps_threshold (anchor f s) = ps_threshold s"
  "ps_emittedAny (anchor f s) = ps_emittedAny s"
  "ps_baselineSet s \<Longrightarrow> anchor f s = s"
  "\<not> isFrameBlank f \<Longrightarrow> ps_baselineSet (anchor f s)"
  by (simp_all add: anchor_def)

lemma consider_eq:
  "consider_frame k f (s, c) =
    (if \<not> gate (ps_threshold s) (ps_recordingBaseline (anchor f s)) f then (SkipFrame, anchor f s, c)
     else if \<not> ps_emittedAny s then
       (Emit, (anchor f s)\<lparr>ps_pacingBaseline := timestampMs f, ps_replayStart := ck_now k c,
          ps_emittedAny := True\<rparr>, c)
     else (Emit, anchor f s, sleep_off k (sint (timestampMs f) - sint (ps_pacingBaseline (anchor f s))
             - int (elapsed_ms (ps_replayStart (anchor f s)) (ck_now k c))) c))"
proof (cases "isFrameBlank f")
  case True
  then show ?thesis by (simp add: consider_frame_def gate_def anchor_def)
next
  case False
  define s1 where "s1 = anchor f s"
  have s1: "(if ps_baselineSet s then s
       else s\<lparr>ps_recordingBaseline := timestampMs f, ps_pacingBaseline := timestampMs f,
              ps_baselineSet := True\<rparr>) = s1"
    using False by (simp add: s1_def anchor_def)
  have e: "ps_emittedAny s = ps_emittedAny s1" "ps_threshold s = ps_threshold s1"
    by (simp_all add: s1_def)
  have g: "gate (ps_threshold s1) (ps_recordingBaseline s1) f \<longleftrightarrow>
      \<not> classifyFrame (ps_threshold s1) f (ps_recordingBaseline s1) (ps_pacingBaseline s1)
          (elapsed_ms (ps_replayStart s1) (ck_now k c)) < 0"
    using False by (auto simp: gate_def classify_skips not_less split: option.splits)
  show ?thesis
    unfolding consider_frame_def prod.case Let_def s1 s1_def[symmetric] e g
    using False by (auto simp: classify_waits sleep_off_def simp del: not_less)
qed

definition kept :: "int \<Rightarrow> int \<Rightarrow> u64 \<Rightarrow> TwaiFrame \<times> int \<times> int \<Rightarrow> bool" where
  "kept late t0 base e \<longleftrightarrow> on_schedule late t0 (sint (timestampMs (fst e)) - sint base) (fst (snd e)) (snd (snd e))"

lemma kept_pair [simp]:
  "kept late t0 base (f, a, t) \<longleftrightarrow> on_schedule late t0 (sint (timestampMs f) - sint base) a t"
  by (simp add: kept_def)

lemma scheduled_frames:
  "e \<in> set (schedule k fs sc) \<Longrightarrow> fst e \<in> snd ` set fs"
proof (induction fs arbitrary: sc)
  case (Cons x fs)
  then show ?case
    by (cases x) (fastforce simp: split_beta Let_def split: if_splits)
qed simp

context punctual_clock
begin

lemma schedule_running:
  assumes "ps_baselineSet s" "ps_emittedAny s" "ps_replayStart s \<le> ck_now k c" "good c"
  shows "list_all (kept late (ps_replayStart s) (ps_pacingBaseline s)) (schedule k fs (s, c))"
  using assms(3,4)
proof (induction fs arbitrary: c)
  case (Cons x fs)
  obtain d f where x: "x = (d, f)" by (cases x)
  let ?c = "ck_pass k d c"
  let ?w = "sint (timestampMs f) - sint (ps_pacingBaseline s) - int (elapsed_ms (ps_replayStart s) (ck_now k ?c))"
  have a: "ps_replayStart s \<le> ck_now k ?c" using Cons.prems by (simp add: passes)
  have g: "good ?c" by (rule good_pass[OF Cons.prems(2)])
  note IH = Cons.IH[OF a g]
    Cons.IH[OF order_trans[OF a sleep_off_forward[of ?c ?w]] sleep_off_good[OF g, of ?w]]
  show ?case
    using IH sleep_off_on_schedule[OF g a refl, of "sint (timestampMs f) - sint (ps_pacingBaseline s)"]
    by (simp add: x consider_eq assms(1,2) Let_def)
qed simp

lemma schedule_first:
  assumes "\<not> ps_emittedAny s" "good c" "schedule k fs (s, c) = e0 # es"
  shows "snd (snd e0) = fst (snd e0) \<and> list_all (kept late (snd (snd e0)) (timestampMs (fst e0))) es"
  using assms
proof (induction fs arbitrary: s c)
  case (Cons x fs)
  obtain d f where x: "x = (d, f)" by (cases x)
  let ?c = "ck_pass k d c" and ?s = "anchor f s"
  let ?s1 = "?s\<lparr>ps_pacingBaseline := timestampMs f, ps_replayStart := ck_now k ?c, ps_emittedAny := True\<rparr>"
  have g: "good ?c" by (rule good_pass[OF Cons.prems(2)])
  show ?case
  proof (cases "gate (ps_threshold s) (ps_recordingBaseline ?s) f")
    case True
    then have "e0 = (f, ck_now k ?c, ck_now k ?c)" "es = schedule k fs (?s1, ?c)"
      using Cons.prems(1,3) by (simp_all add: x consider_eq Let_def)
    moreover have "ps_baselineSet ?s1" using True by (simp add: gate_def)
    ultimately show ?thesis using schedule_running[of ?s1 ?c fs] g by simp
  next
    case False
    then show ?thesis using Cons.IH[of ?s ?c] Cons.prems g by (auto simp: x consider_eq Let_def)
  qed
qed simp

end

text \<open>
  C39. On a system clock whose sleeps overshoot by at most \<open>n\<close> nanoseconds, and
  however long the source and the sinks take, the first frame that comes through is emitted as
  it arrives, and every later one no earlier than it arrives and than it is due (its distance
  from the first one in the recording after it), and no later than a millisecond and \<open>n\<close> after
  that: lateness never adds up.
\<close>

theorem paced_frames_keep_the_schedule:
  assumes "\<forall>x \<in> set (os_overshoot c). x \<le> n"
    and "\<forall>e \<in> set fs. timestampMs (snd e) < 2 ^ 62"
    and "schedule os_clock_ops fs (scheduler_new os_clock_ops threshold c, c) = (f0, a0, t0) # es"
  shows "t0 = a0 \<and> (\<forall>(f, a, t) \<in> set es.
    on_schedule (int n) t0 (int (unat (timestampMs f)) - int (unat (timestampMs f0))) a t)"
proof -
  have r: "t0 = a0 \<and> list_all (kept (int n) t0 (timestampMs f0)) es"
    using os.schedule_first[OF _ assms(1,3)] by (auto simp: scheduler_new_def)
  have "fst e \<in> snd ` set fs" if "e = (f0, a0, t0) \<or> e \<in> set es" for e
    using that scheduled_frames[of e os_clock_ops fs "(scheduler_new os_clock_ops threshold c, c)"] assms(3)
    by auto
  then have sg: "sint (timestampMs (fst e)) = int (unat (timestampMs (fst e)))"
    if "e = (f0, a0, t0) \<or> e \<in> set es" for e
    using that assms(2) by (intro sint_small64) (fastforce simp: word_less_nat_alt)
  show ?thesis
    using r sg[of "(f0, a0, t0)"] sg by (fastforce simp: list_all_iff)
qed

section \<open>What is decoded\<close>

definition emitted :: "u64 option \<Rightarrow> TwaiFrame list \<Rightarrow> TwaiFrame list" where
  "emitted threshold fs =
     (case dropWhile isFrameBlank fs of [] \<Rightarrow> [] | f0 # _ \<Rightarrow> filter (gate threshold (timestampMs f0)) fs)"

fun passed :: "u64 option \<Rightarrow> u64 option \<Rightarrow> TwaiFrame list \<Rightarrow> TwaiFrame list" where
  "passed threshold b [] = []"
| "passed threshold b (f # fs) =
     (if isFrameBlank f then passed threshold b fs
      else
        let b1 = (case b of None \<Rightarrow> timestampMs f | Some x \<Rightarrow> x)
        in (if gate threshold b1 f then [f] else []) @ passed threshold (Some b1) fs)"

lemma passed_Some: "passed threshold (Some b) fs = filter (gate threshold b) fs"
  by (induction fs) (auto simp: gate_def)

lemma passed_None: "passed threshold None fs = emitted threshold fs"
  by (induction fs) (auto simp: emitted_def passed_Some gate_def split: list.splits)

text \<open>What the outputs say of the frames that reached the decoder.\<close>

fun of_decoder :: "'d replay_out \<Rightarrow> bool" where
  "of_decoder (RawLine l) = False"
| "of_decoder (OnComplete st) = False"
| "of_decoder out = True"

fun of_raw :: "'d replay_out \<Rightarrow> bool" where
  "of_raw (RawLine l) = True"
| "of_raw out = False"

lemma filter_raw [simp]:
  "filter of_decoder (recordRawLine ou f) = []" "filter of_raw (recordRawLine ou f) = recordRawLine ou f"
  "filter of_decoder (finish_run ou st) = []" "filter of_raw (finish_run ou st) = []"
  "DanglingRead \<notin> set (recordRawLine ou f)" "DanglingRead \<notin> set (finish_run ou st)"
  by (simp_all add: recordRawLine_def finish_run_def)

lemma dispatch_out:
  "dispatchFrame h clk ou f s = (ok, s1, out) \<Longrightarrow>
     filter of_decoder out = out \<and> filter of_raw out = [] \<and> (ok \<longleftrightarrow> DanglingRead \<notin> set out)
     \<and> linesRead (snd s1) = linesRead (snd s) \<and> skippedLines (snd s1) = skippedLines (snd s)"
  by (auto simp: dispatchFrame_def Let_def split: prod.splits option.splits if_splits)

definition same_decoding :: "'d service \<times> ReplayStats \<Rightarrow> 'd service \<times> ReplayStats \<Rightarrow> bool" where
  "same_decoding s t \<longleftrightarrow> fst s = fst t \<and> framesDecoded (snd s) = framesDecoded (snd t)"

lemma dispatch_same:
  "same_decoding s t \<Longrightarrow> dispatchFrame h clk ou f s = (ok, s1, out) \<Longrightarrow>
     \<exists>t1. dispatchFrame h clk ou f t = (ok, t1, out) \<and> same_decoding s1 t1"
  by (auto simp: dispatchFrame_def Let_def same_decoding_def split: prod.splits option.splits)

definition base_of :: "scheduler \<Rightarrow> u64 option" where
  "base_of s = (if ps_baselineSet s then Some (ps_recordingBaseline s) else None)"

lemma consider_passes:
  assumes "consider_frame k f (s, c) = (act, s1, c1)"
  shows "ps_threshold s1 = ps_threshold s"
    and "passed (ps_threshold s) (base_of s) (f # fs) =
      (if act = Emit then [f] else []) @ passed (ps_threshold s) (base_of s1) fs"
  using assms by (auto simp: consider_eq anchor_def base_of_def gate_def Let_def split: if_splits option.splits)

lemma paced_decoding:
  assumes "same_decoding s t"
  shows "let (s1, out) = runReplayPaced k h clk ou fs sc s;
           (t1, out1) = runReplayUnpaced h clk ou (passed (ps_threshold (fst sc)) (base_of (fst sc)) (map snd fs)) t
         in filter of_decoder (map snd out) = filter of_decoder out1 \<and> same_decoding s1 t1"
  using assms
proof (induction fs arbitrary: sc s t)
  case (Cons x fs)
  obtain d f where x: "x = (d, f)" by (cases x)
  let ?c = "ck_pass k d (snd sc)"
  obtain act s1 c1 where a: "consider_frame k f (fst sc, ?c) = (act, s1, c1)" by (metis prod_cases3)
  have rl: "same_decoding (read_line s) (read_line t)"
    using Cons.prems by (simp add: same_decoding_def read_line_def)
  note pass = consider_passes[OF a]
  show ?case
  proof (cases act)
    case SkipFrame
    let ?s = "(fst (read_line s), (snd (read_line s))\<lparr>skippedLines := skippedLines (snd (read_line s)) + 1\<rparr>)"
    have "same_decoding ?s t" using Cons.prems by (simp add: same_decoding_def read_line_def)
    from Cons.IH[OF this, of "(s1, c1)"] show ?thesis
      using pass(2)[of "map snd fs"] SkipFrame by (simp add: x a split_beta Let_def pass(1) comp_def)
  next
    case Emit
    obtain ok s2 out where ds: "dispatchFrame h clk ou f (read_line s) = (ok, s2, out)" by (metis prod_cases3)
    obtain t2 where dt: "dispatchFrame h clk ou f (read_line t) = (ok, t2, out)" and st: "same_decoding s2 t2"
      using dispatch_same[OF rl ds] by auto
    from Cons.IH[OF st, of "(s1, c1)"] show ?thesis
      using pass(2)[of "map snd fs"] Emit dispatch_out[OF ds]
      by (simp add: x a ds dt st split_beta Let_def pass(1) comp_def)
  qed
qed (simp add: same_decoding_def comp_def)

lemma read_line_simps [simp]:
  "linesRead (snd (read_line s)) = linesRead (snd s) + 1"
  "skippedLines (snd (read_line s)) = skippedLines (snd s)"
  by (simp_all add: read_line_def)

lemma paced_record:
  assumes "DanglingRead \<notin> snd ` set (snd (runReplayPaced k h clk ou fs sc s))"
  shows "filter of_raw (map snd (snd (runReplayPaced k h clk ou fs sc s)))
           = concat (map (recordRawLine ou \<circ> snd) fs)
     \<and> linesRead (snd (fst (runReplayPaced k h clk ou fs sc s))) = linesRead (snd s) + length fs
     \<and> skippedLines (snd (fst (runReplayPaced k h clk ou fs sc s)))
         + length (passed (ps_threshold (fst sc)) (base_of (fst sc)) (map snd fs))
       = skippedLines (snd s) + length fs"
  using assms
proof (induction fs arbitrary: sc s)
  case (Cons x fs)
  obtain d f where x: "x = (d, f)" by (cases x)
  let ?c = "ck_pass k d (snd sc)"
  obtain act s1 c1 where a: "consider_frame k f (fst sc, ?c) = (act, s1, c1)" by (metis prod_cases3)
  note pass = consider_passes(1)[OF a] consider_passes(2)[OF a, of "map snd fs"]
  show ?case
  proof (cases act)
    case SkipFrame
    let ?s = "(fst (read_line s), (snd (read_line s))\<lparr>skippedLines := skippedLines (snd (read_line s)) + 1\<rparr>)"
    from Cons.prems have "DanglingRead \<notin> snd ` set (snd (runReplayPaced k h clk ou fs (s1, c1) ?s))"
      by (simp add: x a SkipFrame split_beta Let_def image_Un)
    from Cons.IH[OF this] show ?thesis
      using pass SkipFrame by (simp add: x a split_beta Let_def comp_def)
  next
    case Emit
    obtain ok s2 out where ds: "dispatchFrame h clk ou f (read_line s) = (ok, s2, out)" by (metis prod_cases3)
    note d = dispatch_out[OF ds]
    from Cons.prems d have ok: "ok" and
      "DanglingRead \<notin> snd ` set (snd (runReplayPaced k h clk ou fs (s1, c1) s2))"
      by (auto simp: x a ds Emit split_beta Let_def image_Un image_image split: if_splits)
    from Cons.IH[OF this(2)] show ?thesis
      using pass Emit d ok by (simp add: x a ds split_beta Let_def comp_def)
  qed
qed (simp add: comp_def)

text \<open>
  C40. Under any clock whatever, a paced replay gives the decoder exactly the frames
  that are not blank and not before the threshold, counted from the first frame that is not
  blank: its signals, messages and final state are those of an unpaced replay of these frames.
\<close>

theorem pacing_only_moves_the_time:
  "let (r, out) = runReplayPaced k h clk ou fs (scheduler_new k threshold c, c) (sv, stats_new);
       (r1, out1) = runReplayUnpaced h clk ou (emitted threshold (map snd fs)) (sv, stats_new)
   in filter of_decoder (map snd out) = filter of_decoder out1 \<and> fst r = fst r1
      \<and> framesDecoded (snd r) = framesDecoded (snd r1)"
  using paced_decoding[of "(sv, stats_new)" "(sv, stats_new)" k h clk ou fs "(scheduler_new k threshold c, c)"]
  by (simp add: same_decoding_def scheduler_new_def base_of_def passed_None split_beta Let_def)

text \<open>
  A run that reads no freed definitions writes the line of every frame it read
  to the raw log, in order, also of those the gate drops or no signal matches, and its counts of
  lines and skipped lines are right.
\<close>

theorem the_raw_log_is_complete:
  assumes "runReplayPaced k h clk ou fs (scheduler_new k threshold c, c) (sv, stats_new) = (r, out)"
    and "DanglingRead \<notin> snd ` set out" and "ro_raw ou"
  shows "filter of_raw (map snd out) = map RawLine (filter (\<lambda>l. l \<noteq> []) (map (rawLine \<circ> snd) fs))
     \<and> linesRead (snd r) = length fs
     \<and> skippedLines (snd r) = length fs - length (emitted threshold (map snd fs))"
proof -
  have raw: "concat (map (recordRawLine ou \<circ> snd) fs)
      = map RawLine (filter (\<lambda>l. l \<noteq> []) (map (rawLine \<circ> snd) fs))"
    using assms(3) by (induction fs) (simp_all add: recordRawLine_def)
  show ?thesis
    using paced_record[of k h clk ou fs "(scheduler_new k threshold c, c)" "(sv, stats_new)"] assms(1,2)
    by (auto simp: raw scheduler_new_def base_of_def passed_None stats_new_def)
qed

section \<open>The gate and rows out of order\<close>

text \<open>
  A row from before the recording's first one comes through the gate, because the
  difference wraps, becomes the origin of the schedule, and makes the next row in the window
  wait for all the time between them: the time that skipping was meant to save.
\<close>

lemma fake_simps [simp]:
  "ck_now fake_clock t = t" "ck_pass fake_clock 0 t = t"
  by (simp_all add: fake_clock_def fake_advance_def)

lemma fake_sleep_off: "sleep_off fake_clock w t = t + max 0 w * NS_PER_MS"
  by (simp add: sleep_off_def fake_clock_def fake_sleepFor_def)

lemma wrapped_difference:
  fixes a b t :: u64
  assumes "a < b" "t < 2 ^ 62" "b < 2 ^ 62"
  shows "t \<le> a - b"
proof -
  have "unat a < unat b" "unat t < 2 ^ 62" "unat b < 2 ^ 62"
    using assms by (simp_all add: word_less_nat_alt)
  moreover have "unat (a - b) = 2 ^ 64 + unat a - unat b"
    using assms(1) by (simp add: unat_sub_if' word_le_nat_alt word_less_nat_alt)
  ultimately show ?thesis by (simp add: word_le_nat_alt)
qed

theorem a_late_row_brings_the_wait_back:
  assumes "0 < thr" "0 < timestampMs f1" "timestampMs f1 < timestampMs f0"
    and "timestampMs f0 + thr \<le> timestampMs f2"
    and "timestampMs f2 < 2 ^ 62" "thr < 2 ^ 61" "timestampMs f0 < 2 ^ 61"
  shows "schedule fake_clock [(0, f0), (0, f1), (0, f2)] (scheduler_new fake_clock (Some thr) t, t) =
    [(f1, t, t), (f2, t, t + (int (unat (timestampMs f2)) - int (unat (timestampMs f1))) * NS_PER_MS)]"
proof -
  let ?x = "timestampMs f0" and ?y = "timestampMs f1" and ?z = "timestampMs f2"
  have n: "unat ?y < unat ?x" "unat thr < 2 ^ 61" "unat ?x < 2 ^ 61" "unat ?z < 2 ^ 62"
    using assms by (simp_all add: word_less_nat_alt)
  then have p: "unat (?x + thr) = unat ?x + unat thr" by (intro unat_add_lem[THEN iffD1]) simp
  then have q: "unat ?x + unat thr \<le> unat ?z" using assms(4) by (simp add: word_le_nat_alt)
  then have le: "?x \<le> ?z" by (simp add: word_le_nat_alt)
  have late: "thr \<le> ?y - ?x" using assms(3) n by (intro wrapped_difference) (simp_all add: word_less_nat_alt)
  have inside: "thr \<le> ?z - ?x" using q by (simp add: word_le_nat_alt unat_sub[OF le])
  have nb: "\<not> isFrameBlank f0" "\<not> isFrameBlank f1" "\<not> isFrameBlank f2"
    using assms(2,3) q n by (auto simp: isFrameBlank_def)
  have sg: "sint ?y = int (unat ?y)" "sint ?z = int (unat ?z)"
    using n by (simp_all add: sint_small64)
  have "0 \<le> int (unat ?z) - int (unat ?y)"
    by (simp only: diff_ge_0_iff_ge of_nat_le_iff) (use q n in linarith)
  then show ?thesis
    using nb late inside assms(1)
    by (simp add: consider_eq gate_def anchor_def scheduler_new_def Let_def fake_sleep_off sg
        elapsed_ms_def not_le[symmetric])
qed

text \<open>An instance: a row one second before the first of a recording, a window of one minute.\<close>

definition plain_frame :: "u64 \<Rightarrow> TwaiFrame" where
  "plain_frame ts = \<lparr>timestampMs = ts, bytes = [0x18, 1, 1, 0, 0, 0, 0, 0, 0, 0], rawLine = []\<rparr>"

theorem a_late_row_brings_the_wait_back_witness:
  "schedule fake_clock [(0, plain_frame 1000000), (0, plain_frame 999000), (0, plain_frame 1060000)]
     (scheduler_new fake_clock (Some 60000) 0, 0) =
   [(plain_frame 999000, 0, 0), (plain_frame 1060000, 0, 61000 * NS_PER_MS)]"
  using a_late_row_brings_the_wait_back[of 60000 "plain_frame 999000" "plain_frame 1000000" "plain_frame 1060000" 0]
  by (simp add: plain_frame_def)

section \<open>The pacer of rows\<close>

text \<open>The rows a paced replay of decoded rows emits, each with its arrival and its emission.\<close>

fun row_times :: "'c clock_ops \<Rightarrow> (nat \<times> u64) list \<Rightarrow> csv_pacer \<times> 'c \<Rightarrow> (int \<times> int) list" where
  "row_times k [] pc = []"
| "row_times k ((d, ts) # rows) pc =
     (let c0 = ck_pass k d (snd pc); pc1 = paceRow k ts (fst pc, c0)
      in (ck_now k c0, ck_now k (snd pc1)) # row_times k rows pc1)"

lemma paceRow_anchored:
  "cp_anchored p \<Longrightarrow> paceRow k ts (p, c) =
     (p\<lparr>cp_rowsPaced := cp_rowsPaced p + 1\<rparr>,
      sleep_off k (scheduledOffsetMs p ts - int (elapsed_ms (cp_replayStart p) (ck_now k c))) c)"
  by (simp add: paceRow_def sleep_off_def Let_def)

text \<open>When row number \<open>i\<close> after the first one is due, in milliseconds after it.\<close>

definition row_due :: "int \<Rightarrow> u64 \<Rightarrow> nat \<Rightarrow> u64 \<Rightarrow> int" where
  "row_due iv ts0 i ts =
     (if 0 < iv then int i * iv else sint ts - sint ts0)"

context punctual_clock
begin

lemma rows_running:
  assumes "cp_anchored p" "cp_replayStart p \<le> ck_now k c" "good c"
    "cp_rowsPaced p = of_nat m" "m + length rows < 2 ^ 62" "j < length rows"
  shows "on_schedule late (cp_replayStart p) (row_due (cp_intervalMs p) (cp_baseline p) (m + j) (snd (rows ! j)))
    (fst (row_times k rows (p, c) ! j)) (snd (row_times k rows (p, c) ! j))"
  using assms
proof (induction rows arbitrary: p c m j)
  case (Cons x rows)
  obtain d ts where x: "x = (d, ts)" by (cases x)
  let ?c = "ck_pass k d c"
  let ?w = "scheduledOffsetMs p ts - int (elapsed_ms (cp_replayStart p) (ck_now k ?c))"
  let ?p = "p\<lparr>cp_rowsPaced := cp_rowsPaced p + 1\<rparr>"
  have a: "cp_replayStart p \<le> ck_now k ?c" using Cons.prems(2) by (simp add: passes)
  have g: "good ?c" by (rule good_pass[OF Cons.prems(3)])
  have m: "unat (of_nat m :: u64) = m"
    using Cons.prems(5) by (simp add: unat_of_nat take_bit_nat_eq_self)
  have due: "scheduledOffsetMs p ts = row_due (cp_intervalMs p) (cp_baseline p) m ts"
    using Cons.prems(4,5) m by (simp add: scheduledOffsetMs_def row_due_def sint_small64)
  show ?case
  proof (cases j)
    case 0
    then show ?thesis using sleep_off_on_schedule[OF g a refl, of "scheduledOffsetMs p ts"] Cons.prems(1)
      by (simp add: x paceRow_anchored Let_def due)
  next
    case (Suc i)
    have "cp_replayStart ?p \<le> ck_now k (sleep_off k ?w ?c)"
      using a sleep_off_forward[of ?c ?w] by simp
    moreover have "cp_rowsPaced ?p = of_nat (Suc m)" using Cons.prems(4) by simp
    ultimately show ?thesis
      using Cons.IH[of ?p "sleep_off k ?w ?c" "Suc m" i] Cons.prems sleep_off_good[OF g] Suc
      by (simp add: x paceRow_anchored Let_def)
  qed
qed simp

end

text \<open>
  Replaying decoded rows on a system clock whose sleeps overshoot by at most \<open>n\<close>
  nanoseconds, the first row is emitted as it arrives, and every other one when it has arrived
  and is due, at most a millisecond and \<open>n\<close> late: due by its timestamp, or with an explicit
  interval by its number.
\<close>

theorem rows_keep_the_schedule:
  assumes "\<forall>x \<in> set (os_overshoot c). x \<le> n" "length rows < 2 ^ 61" "\<forall>r \<in> set rows. snd r < 2 ^ 62"
    and "ts0 < 2 ^ 62" "j < length rows"
    and "row_times os_clock_ops ((d, ts0) # rows) (csv_pacer_new iv, c) = (a0, t0) # ets"
  shows "t0 = a0 \<and> on_schedule (int n) t0
    (if 0 < iv then int (j + 1) * iv else int (unat (snd (rows ! j))) - int (unat ts0))
    (fst (ets ! j)) (snd (ets ! j))"
proof -
  let ?c = "ck_pass os_clock_ops d c"
  let ?p = "\<lparr>cp_intervalMs = iv, cp_replayStart = ck_now os_clock_ops ?c, cp_baseline = ts0,
     cp_rowsPaced = 1, cp_anchored = True\<rparr>"
  have p: "paceRow os_clock_ops ts0 (csv_pacer_new iv, ?c) = (?p, ?c)"
    by (simp add: paceRow_def csv_pacer_new_def)
  have t: "t0 = a0" "a0 = ck_now os_clock_ops ?c" "ets = row_times os_clock_ops rows (?p, ?c)"
    using assms(6) by (auto simp: Let_def p)
  have "snd (rows ! j) < 2 ^ 62" using assms(3,5) by simp
  then have "sint (snd (rows ! j)) = int (unat (snd (rows ! j)))" "sint ts0 = int (unat ts0)"
    using assms(4) by (simp_all add: sint_small64 word_less_nat_alt)
  then have due: "row_due iv ts0 (1 + j) (snd (rows ! j))
      = (if 0 < iv then int (j + 1) * iv else int (unat (snd (rows ! j))) - int (unat ts0))"
    by (simp add: row_due_def)
  have "on_schedule (int n) (cp_replayStart ?p) (row_due (cp_intervalMs ?p) (cp_baseline ?p) (1 + j) (snd (rows ! j)))
      (fst (row_times os_clock_ops rows (?p, ?c) ! j)) (snd (row_times os_clock_ops rows (?p, ?c) ! j))"
    by (rule os.rows_running[OF _ _ os.good_pass[OF assms(1)]]) (use assms(2,5) in simp_all)
  then show ?thesis unfolding due[symmetric] t by simp
qed

section \<open>Instances\<close>

definition ex_clock :: os_clock where
  "ex_clock = \<lparr>os_time = 0, os_overshoot = [300, 500]\<rparr>"

lemma ex_schedule:
  "schedule os_clock_ops [(7, plain_frame 1000), (0, plain_frame 1010)]
     (scheduler_new os_clock_ops None ex_clock, ex_clock)
   = [(plain_frame 1000, 7, 7), (plain_frame 1010, 7, 10000307)]"
  by (simp add: consider_eq gate_def anchor_def scheduler_new_def Let_def sleep_off_def plain_frame_def
      isFrameBlank_def ex_clock_def os_clock_ops_def os_sleepFor_def elapsed_ms_def NS_PER_MS_def)

theorem paced_frames_keep_the_schedule_witness:
  "on_schedule 500 7 10 7 10000307"
proof -
  have "\<forall>x \<in> set (os_overshoot ex_clock). x \<le> 500" by (simp add: ex_clock_def)
  moreover have "\<forall>e \<in> set [(7, plain_frame 1000), (0 :: nat, plain_frame 1010)]. timestampMs (snd e) < 2 ^ 62"
    by (simp add: plain_frame_def)
  ultimately show ?thesis
    using paced_frames_keep_the_schedule[OF _ _ ex_schedule, of 500] by (simp add: plain_frame_def)
qed

theorem rows_keep_the_schedule_witness:
  "on_schedule 500 7 10 7 10000307"
proof -
  have "row_times os_clock_ops [(7, 1000), (0, 1010)] (csv_pacer_new 0, ex_clock) = [(7, 7), (7, 10000307)]"
    by (simp add: paceRow_def csv_pacer_new_def scheduledOffsetMs_def Let_def ex_clock_def os_clock_ops_def
        os_sleepFor_def elapsed_ms_def NS_PER_MS_def)
  moreover have "\<forall>x \<in> set (os_overshoot ex_clock). x \<le> 500" by (simp add: ex_clock_def)
  ultimately show ?thesis
    using rows_keep_the_schedule[of ex_clock 500 "[(0, 1010)]" 1000 0 7 0 7 7 "[(7, 10000307)]"] by simp
qed

definition ex_lines :: "(nat \<times> TwaiFrame) list" where
  "ex_lines = [(0, \<lparr>timestampMs = 0, bytes = replicate 10 0, rawLine = ''000''\<rparr>),
     (0, (plain_frame 5)\<lparr>rawLine := ''118 01''\<rparr>)]"

definition ex_host :: "int host_env" where
  "ex_host = \<lparr>he_fp = undefined, he_stod = (\<lambda>_. None), he_files = (\<lambda>_. None), he_resolve = (\<lambda>p. p),
     he_candidates = (\<lambda>_. [])\<rparr>"

lemma unloaded_never_dangles:
  "\<not> sv_loaded (fst s) \<Longrightarrow> DanglingRead \<notin> snd ` set (snd (runReplayPaced k h clk ou fs sc s))"
proof (induction fs arbitrary: sc s)
  case (Cons x fs)
  obtain d f where x: "x = (d, f)" by (cases x)
  have "dispatchFrame h clk ou f (read_line s) = (True, read_line s, [NoMatch (no_match_line f)])"
    using Cons.prems by (simp add: dispatchFrame_def processFrame_def read_line_def)
  then show ?case using Cons by (auto simp: x split_beta Let_def image_Un read_line_def)
qed (auto simp: finish_run_def)

theorem the_raw_log_is_complete_witness:
  "filter of_raw (map snd (snd (runReplayPaced fake_clock ex_host 0
       \<lparr>ro_decoded = False, ro_raw = True, ro_progress = False\<rparr> ex_lines
       (scheduler_new fake_clock None 0, 0) (service_new (\<lambda>_. None), stats_new))))
   = [RawLine ''000'', RawLine ''118 01'']"
proof -
  let ?run = "runReplayPaced fake_clock ex_host 0 \<lparr>ro_decoded = False, ro_raw = True, ro_progress = False\<rparr> ex_lines
       (scheduler_new fake_clock None 0, 0) (service_new (\<lambda>_. None), stats_new)"
  have "DanglingRead \<notin> snd ` set (snd ?run)"
    by (rule unloaded_never_dangles) (simp add: service_new_def)
  then show ?thesis
    using the_raw_log_is_complete[of fake_clock ex_host 0 "\<lparr>ro_decoded = False, ro_raw = True, ro_progress = False\<rparr>"
        ex_lines None 0 "service_new (\<lambda>_. None)" "fst ?run" "snd ?run"]
    by (simp add: ex_lines_def plain_frame_def)
qed

end
