(* ===== verification/Csv_Proofs.thy ===== *)
theory Csv_Proofs
  imports Host_Csv Replay_Proofs DbcParser_Proofs Tcp_Proofs
begin

text \<open>
  The log of decoded rows and its replay: the text is cut back into its cells, and replaying a log
  prints it again. The log of raw lines and its replay: the frames of a session come back from
  its capture.
\<close>

section \<open>Cells in a line\<close>

lemma split_fields_cell:
  "d \<notin> set c \<Longrightarrow> split_fields d (c @ d # s) = c # split_fields d s"
  by (induction c) auto

lemma split_fields_last: "d \<notin> set c \<Longrightarrow> c \<noteq> [] \<Longrightarrow> split_fields d c = [c]"
proof (induction c)
  case (Cons x c)
  then show ?case by (cases "c = []") auto
qed simp

lemma split_join:
  "cs \<noteq> [] \<Longrightarrow> list_all (\<lambda>c. CHR '','' \<notin> set c) cs \<Longrightarrow> last cs \<noteq> [] \<Longrightarrow> split_fields (CHR '','') (join_cells cs) = cs"
  by (induction cs rule: join_cells.induct) (simp_all add: split_fields_last split_fields_cell)

lemma join_chars: "c \<in> set (join_cells cs) \<Longrightarrow> c = CHR '','' \<or> (\<exists>x \<in> set cs. c \<in> set x)"
  by (induction cs rule: join_cells.induct) auto

definition cell_text :: "string \<Rightarrow> bool" where
  "cell_text c \<longleftrightarrow> CHR '','' \<notin> set c \<and> LF \<notin> set c \<and> csv_trim c = c"

text \<open>A line of good cells is cut back into them.\<close>

lemma splitCsv_cells:
  assumes "cs \<noteq> []" "list_all cell_text cs" "last cs \<noteq> []"
  shows "splitCsv (join_cells cs) = cs" "LF \<notin> set (join_cells cs)"
proof -
  have "split_fields (CHR '','') (join_cells cs) = cs"
    using assms by (intro split_join) (auto simp: cell_text_def list_all_iff)
  moreover have "map csv_trim cs = cs"
    using assms(2) by (intro map_idI) (auto simp: cell_text_def list_all_iff)
  ultimately show "splitCsv (join_cells cs) = cs" by (simp add: splitCsv_def)
  have "LF \<noteq> CHR '',''" by (simp add: LF_def)
  then show "LF \<notin> set (join_cells cs)"
    using assms(2) by (auto dest!: join_chars simp: cell_text_def list_all_iff)
qed

lemma plain_cell:
  assumes "list_all (\<lambda>c. c \<noteq> CHR '','' \<and> \<not> ws4 c) s"
  shows "cell_text s"
proof -
  have p: "c \<noteq> CHR '','' \<and> \<not> ws4 c" if "c \<in> set s" for c
    using assms that by (simp add: list_all_iff)
  have "s = [] \<or> \<not> ws4 (hd s) \<and> \<not> ws4 (last s)"
    using p[of "hd s"] p[of "last s"] by (cases "s = []") simp_all
  then have "csv_trim s = s" unfolding csv_trim_def by (rule trim_by_id)
  moreover have "ws4 LF" by (simp add: ws4_def)
  ultimately show ?thesis using p by (auto simp: cell_text_def)
qed

definition number_char :: "char \<Rightarrow> bool" where
  "number_char c \<longleftrightarrow> is_digit c \<or> c \<in> {CHR ''-'', CHR ''+'', CHR ''.'', CHR ''e'', CHR ''E''}"

lemma number_char_plain: "number_char c \<Longrightarrow> c \<noteq> CHR '','' \<and> \<not> ws4 c"
  by (auto simp: number_char_def is_digit_def ws4_def CR_def LF_def TAB_def)

lemma numeric_cell: "csvNumericCell s = filter number_char s"
  unfolding csvNumericCell_def by (rule filter_cong) (simp_all add: number_char_def)

lemma numeric_cell_id: "list_all number_char s \<Longrightarrow> csvNumericCell s = s"
  unfolding numeric_cell by (simp add: list_all_iff filter_id_conv)

lemma number_cell_text: "list_all number_char s \<Longrightarrow> cell_text s"
  by (rule plain_cell) (auto simp: list_all_iff number_char_plain)

lemma digits_number: "list_all number_char (dec_str n)" "list_all number_char (int_str i)"
  using dec_str_read[of n] int_str_chars(1)[of i] by (auto simp: number_char_def list_all_iff)

lemma format_cents_text: "list_all number_char (format_cents k)" "format_cents k \<noteq> []"
  by (auto simp: format_cents_def numeric_cell list_all_iff number_char_def)

lemma optional_cell: "cell_text (formatOptional n v)"
  by (cases v) (simp_all add: formatOptional_def number_cell_text format_cents_text plain_cell)

lemma brake_cell: "cell_text (formatBrakeLight v)"
  by (rule plain_cell) (auto simp: formatBrakeLight_def ws4_def CR_def LF_def TAB_def split: option.split)

lemma forLog_idem [simp]: "forLog (forLog s) = forLog s"
proof -
  have "\<not> is_control (CHR ''?'')" by (simp add: is_control_def)
  then show ?thesis by (simp add: forLog_def)
qed

lemma int_str_cell: "cell_text (int_str i)" "cell_text (dec_str m)"
  by (rule number_cell_text, rule digits_number)+

lemma gear_label_cell: "gear_label g = Some l \<Longrightarrow> l \<in> set (map (\<lambda>c. [c]) ''PRN123456D'' @ map (\<lambda>c. [CHR ''D'', c]) ''23456'')"
  by (auto simp: gear_label_def split: if_splits)

lemma gear_cell: "cell_text (forLog (labelOr g (int_str g)))" "forLog (labelOr g (int_str g)) = labelOr g (int_str g)"
proof -
  let ?l = "labelOr g (int_str g)"
  have "list_all (\<lambda>c. c \<noteq> CHR '','' \<and> \<not> ws4 c \<and> \<not> is_control c) ?l"
  proof (cases "gear_label g")
    case None
    have "number_char c \<Longrightarrow> \<not> is_control c" for c
      by (auto simp: number_char_def is_digit_def is_control_def)
    then show ?thesis using None digits_number(2)[of g] number_char_plain
      by (auto simp: labelOr_def list_all_iff)
  next
    case (Some l)
    then show ?thesis using gear_label_cell[OF Some]
      by (auto simp: labelOr_def ws4_def is_control_def CR_def LF_def TAB_def)
  qed
  then have a: "list_all (\<lambda>c. c \<noteq> CHR '','' \<and> \<not> ws4 c) ?l" and b: "list_all (\<lambda>c. \<not> is_control c) ?l"
    by (simp_all add: list_all_iff)
  show f: "forLog ?l = ?l" using b by (simp add: forLog_def list_all_iff map_idI)
  show "cell_text (forLog ?l)" unfolding f by (rule plain_cell[OF a])
qed

section \<open>Numbers read back\<close>

text \<open>
  What the library does with the numbers the rows contain: a literal with two decimals, within 50
  bits of hundredths, is read as a value that is written the same, a natural number within 53
  bits exactly, and nothing is read from nothing.
\<close>

definition plain_cents :: "int \<Rightarrow> bool" where
  "plain_cents k \<longleftrightarrow> \<bar>k\<bar> < 2 ^ 50 \<and> (0 \<le> k \<or> k \<le> -100)"

definition csv_law :: "'d csv_numbers \<Rightarrow> bool" where
  "csv_law n \<longleftrightarrow>
     (\<forall>k. plain_cents k \<longrightarrow> (\<exists>x. cn_stod n (format_cents k) = Some x \<and> cn_hundredths n x = k))
     \<and> (\<forall>m < 2 ^ 53. \<exists>x. cn_stod n (dec_str m) = Some x \<and> cn_u64 n x = of_nat m)
     \<and> cn_stod n [] = None \<and> cn_hundredths n (cn_zero n) = 0"

definition plain_value :: "'d csv_numbers \<Rightarrow> 'd option \<Rightarrow> bool" where
  "plain_value n v \<longleftrightarrow> (case v of None \<Rightarrow> True | Some x \<Rightarrow> plain_cents (cn_hundredths n x))"

definition fill :: "'d csv_numbers \<Rightarrow> 'd option \<Rightarrow> 'd option" where
  "fill n v = (case v of None \<Rightarrow> Some (cn_zero n) | Some x \<Rightarrow> Some x)"

lemma optional_read_back:
  assumes "csv_law n" "plain_value n v"
  shows "formatOptional n (Some (cell_double n (Some (formatOptional n v)))) = formatOptional n (fill n v)"
proof (cases v)
  case None
  then show ?thesis using assms(1)
    by (simp add: csv_law_def cell_double_def toDouble_def formatOptional_def fill_def)
next
  case (Some x)
  then obtain y where "cn_stod n (format_cents (cn_hundredths n x)) = Some y" "cn_hundredths n y = cn_hundredths n x"
    using assms by (auto simp: csv_law_def plain_value_def)
  then show ?thesis using Some by (simp add: cell_double_def toDouble_def formatOptional_def fill_def)
qed

lemma int_dec_num: "foldl (\<lambda>a c. a * 10 + int (digit_val c)) (int m) s = int (foldl (\<lambda>a c. a * 10 + digit_val c) m s)"
proof (induction s arbitrary: m)
  case (Cons c s)
  show ?case using Cons[of "m * 10 + digit_val c"] by simp
qed simp

lemma stoi_dec_str:
  assumes "m < 2 ^ 31"
  shows "csv_stoi (dec_str m) = Some (int m)"
proof -
  have d: "is_digit c" if "c \<in> set (dec_str m)" for c
    using dec_str_read[of m] that by (simp add: list_all_iff)
  have h: "is_digit (hd (dec_str m))" by (rule d) simp
  then have "\<not> csv_space (hd (dec_str m))" "hd (dec_str m) \<notin> {CHR ''-'', CHR ''+''}"
    by (auto simp: is_digit_def csv_space_def)
  moreover from this have "dropWhile csv_space (dec_str m) = dec_str m" by (intro dropWhile_id) simp
  moreover have "foldl (\<lambda>a c. a * 10 + int (digit_val c)) 0 (dec_str m) = int m"
    using int_dec_num[of 0 "dec_str m"] dec_str_read[of m] by (simp add: dec_num_def)
  ultimately show ?thesis using assms
    by (simp add: csv_stoi_def dec_str_take Let_def)
qed

lemma stoi_brake: "csv_stoi (formatBrakeLight (case b of None \<Rightarrow> None | Some x \<Rightarrow> Some (if x then 1 else 0)))
    = (case b of None \<Rightarrow> None | Some x \<Rightarrow> Some (if x then 1 else 0))"
proof -
  have "dec_str 1 = ''1''" "dec_str 0 = ''0''" by (simp_all add: dec_str_def digits_in_small digit_char_def)
  then have "csv_stoi ''1'' = Some 1" "csv_stoi ''0'' = Some 0"
    using stoi_dec_str[of 1] stoi_dec_str[of 0] by simp_all
  moreover have "csv_stoi [] = None" by (simp add: csv_stoi_def Let_def)
  ultimately show ?thesis by (simp add: formatBrakeLight_def split: option.split)
qed

lemma count_range: "0 \<le> countPopulated s \<and> countPopulated s \<le> 10"
proof -
  have "0 \<le> present v \<and> present v \<le> 1" for v :: "'b option" by (simp add: present_def)
  note p = this
  show ?thesis unfolding countPopulated_def
    using p[of "throttlePercent s"] p[of "speedKmh s"] p[of "accelerationG s"] p[of "steeringAngleDeg s"]
      p[of "motorRpm s"] p[of "motorHvVoltage s"] p[of "motorHvCurrent s"] p[of "motorTorqueNm s"]
    by (simp add: present_def)
qed

section \<open>Rows read back\<close>

lemma columns_found:
  assumes "length cs = 13"
  shows "csv_cell csv_columns cs ''timestamp_ms'' = Some (cs ! 0)"
    "csv_cell csv_columns cs ''vehicle_id'' = Some (cs ! 1)"
    "csv_cell csv_columns cs ''speed_kmh'' = Some (cs ! 2)"
    "csv_cell csv_columns cs ''throttle_percent'' = Some (cs ! 3)"
    "csv_cell csv_columns cs ''brake_light'' = Some (cs ! 4)"
    "csv_cell csv_columns cs ''acceleration_g'' = Some (cs ! 5)"
    "csv_cell csv_columns cs ''steering_angle_deg'' = Some (cs ! 6)"
    "csv_cell csv_columns cs ''motor_rpm'' = Some (cs ! 7)"
    "csv_cell csv_columns cs ''motor_hv_voltage'' = Some (cs ! 8)"
    "csv_cell csv_columns cs ''motor_hv_current'' = Some (cs ! 9)"
    "csv_cell csv_columns cs ''motor_torque_nm'' = Some (cs ! 10)"
    "csv_cell csv_columns cs ''gear_selector'' = Some (cs ! 11)"
    "csv_cell csv_columns cs ''dbc_signal_count'' = Some (cs ! 12)"
  using assms by (simp_all add: csv_cell_def findColumn_def csv_columns_def Let_def eval_nat_numeral)

lemma header_columns: "splitCsv csvHeaderLine = csv_columns" "LF \<notin> set csvHeaderLine"
proof -
  have "list_all cell_text csv_columns"
    by (simp add: csv_columns_def plain_cell ws4_def CR_def LF_def TAB_def)
  then show "splitCsv csvHeaderLine = csv_columns" "LF \<notin> set csvHeaderLine"
    unfolding csvHeaderLine_def
    by (intro splitCsv_cells; simp add: csv_columns_def)+
qed

definition label_text :: "string \<Rightarrow> bool" where
  "label_text v \<longleftrightarrow> cell_text (forLog v)"

definition plain_signal :: "'d csv_numbers \<Rightarrow> 'd VehicleSignal \<Rightarrow> bool" where
  "plain_signal n s \<longleftrightarrow> unat (timestampUtcMs s) < 2 ^ 53
     \<and> plain_value n (speedKmh s) \<and> plain_value n (throttlePercent s) \<and> plain_value n (accelerationG s)
     \<and> plain_value n (steeringAngleDeg s) \<and> plain_value n (motorRpm s) \<and> plain_value n (motorHvVoltage s)
     \<and> plain_value n (motorHvCurrent s) \<and> plain_value n (motorTorqueNm s)"

text \<open>The row with 0 for every number that is not reported.\<close>

definition filled :: "'d csv_numbers \<Rightarrow> 'd CsvRowParams \<Rightarrow> 'd CsvRowParams" where
  "filled n r = r\<lparr>cr_speedKmh := fill n (cr_speedKmh r), cr_throttlePercent := fill n (cr_throttlePercent r),
     cr_accelerationG := fill n (cr_accelerationG r), cr_steeringAngleDeg := fill n (cr_steeringAngleDeg r),
     cr_motorRpm := fill n (cr_motorRpm r), cr_motorHvVoltage := fill n (cr_motorHvVoltage r),
     cr_motorHvCurrent := fill n (cr_motorHvCurrent r), cr_motorTorqueNm := fill n (cr_motorTorqueNm r)\<rparr>"

lemma gear_text: "cell_text (forLog (cr_gearSelector (signal_row v s)))"
proof (cases "gearSelector s")
  case None
  then show ?thesis by (simp add: signal_row_def forLog_def plain_cell)
next
  case (Some g)
  then show ?thesis using gear_cell[of g] by (simp add: signal_row_def fromRegistry_def)
qed

lemma count_text: "csvNumericCell (int_str (countPopulated s)) = dec_str (nat (countPopulated s))"
  using count_range[of s] by (simp add: int_str_def numeric_cell_id digits_number)

lemma row_cells:
  assumes "label_text v"
  shows "splitCsv (csvRowLine n (signal_row (forLog v) s)) = csv_cells n (signal_row (forLog v) s)"
    "LF \<notin> set (csvRowLine n (signal_row (forLog v) s))" "csvRowLine n (signal_row (forLog v) s) \<noteq> []"
proof -
  let ?r = "signal_row (forLog v) s"
  have c: "list_all cell_text (csv_cells n ?r)"
    using assms gear_text[of "forLog v" s]
    by (simp add: csv_cells_def optional_cell brake_cell numeric_cell_id digits_number int_str_cell label_text_def
        signal_row_def)
  have l: "last (csv_cells n ?r) \<noteq> []"
    by (simp add: csv_cells_def signal_row_def count_text)
  have ne: "csv_cells n ?r \<noteq> []" by (simp add: csv_cells_def)
  note s = splitCsv_cells[OF ne c l]
  show "splitCsv (csvRowLine n ?r) = csv_cells n ?r" "LF \<notin> set (csvRowLine n ?r)"
    using s by (simp_all add: csvRowLine_def)
  show "csvRowLine n ?r \<noteq> []"
    using s(1) ne by (auto simp: csvRowLine_def splitCsv_def)
qed

text \<open>What a row of the log becomes when it is replayed.\<close>

definition replayed :: "'d csv_numbers \<Rightarrow> string \<Rightarrow> string list \<Rightarrow> string \<Rightarrow> string" where
  "replayed n vehicleId headers l =
     csvRowLine n (row_params (label_row vehicleId (snd (parseRow n headers l (row_default n)))))"

lemma row_replayed:
  assumes "csv_law n" "plain_signal n s" "label_text v" "v \<noteq> [] \<or> vehicleId = []"
  shows "replayed n vehicleId csv_columns (csvRowLine n (signal_row (forLog v) s))
    = csvRowLine n (filled n (signal_row (forLog v) s))"
proof -
  let ?r = "signal_row (forLog v) s"
  have len: "length (csv_cells n ?r) = 13" by (simp add: csv_cells_def)
  have ts: "cn_u64 n (cell_double n (Some (dec_str (unat (timestampUtcMs s))))) = timestampUtcMs s"
  proof -
    obtain x where "cn_stod n (dec_str (unat (timestampUtcMs s))) = Some x" "cn_u64 n x = timestampUtcMs s"
      using assms(1,2) by (auto simp: csv_law_def plain_signal_def)
    then show ?thesis by (simp add: cell_double_def toDouble_def)
  qed
  have cnt: "toInt (dec_str (nat (countPopulated s))) 0 = countPopulated s"
  proof -
    have "nat (countPopulated s) \<le> 10" using count_range[of s] by linarith
    then have "csv_stoi (dec_str (nat (countPopulated s))) = Some (int (nat (countPopulated s)))"
      by (intro stoi_dec_str) (rule le_less_trans, assumption, simp)
    then show ?thesis using count_range[of s] by (simp add: toInt_def)
  qed
  have vne: "forLog v = [] \<Longrightarrow> vehicleId = []" using assms(4) by (auto simp: forLog_def)
  have pad: "csv_cells n ?r @ replicate (length csv_columns - 13) [] = csv_cells n ?r"
    by (simp add: csv_columns_def)
  let ?d = "\<lambda>v. cell_double n (Some (formatOptional n v))"
  define row where "row = \<lparr>tr_timestamp_ms = timestampUtcMs s, tr_vehicle_id = forLog v,
      tr_speed_kmh = ?d (speedKmh s), tr_throttle_percent = ?d (throttlePercent s),
      tr_brake_light = cr_brakeLight ?r, tr_acceleration_g = ?d (accelerationG s),
      tr_steering_angle_deg = ?d (steeringAngleDeg s), tr_motor_rpm = ?d (motorRpm s),
      tr_motor_hv_voltage = ?d (motorHvVoltage s), tr_motor_hv_current = ?d (motorHvCurrent s),
      tr_motor_torque_nm = ?d (motorTorqueNm s), tr_gear_selector = forLog (cr_gearSelector ?r),
      tr_dbc_signal_count = countPopulated s\<rparr>"
  have parsed: "snd (parseRow n csv_columns (csvRowLine n ?r) (row_default n)) = row"
    unfolding parseRow_def Let_def row_cells(1)[OF assms(3)] len pad columns_found[OF len]
    by (simp add: csv_cells_def signal_row_def count_text numeric_cell_id digits_number ts cnt
        fromUserInput_def cell_string_def toOptionalInt_def stoi_brake row_def)
  have "csv_cells n (row_params (label_row vehicleId row)) = csv_cells n (filled n ?r)"
    using assms(2) vne optional_read_back[OF assms(1)]
    by (auto simp: row_def csv_cells_def filled_def label_row_def row_params_def plain_signal_def signal_row_def)
  then show ?thesis unfolding replayed_def parsed by (simp add: csvRowLine_def)
qed

text \<open>The loop over the lines that are left.\<close>

definition remaining :: "csv_source \<Rightarrow> string list" where
  "remaining s = (case cs_pending s of None \<Rightarrow> cs_lines s | Some l \<Rightarrow> l # cs_lines s)"

lemma replay_loop_lines:
  assumes "\<not> cs_eof s" "[] \<notin> set (remaining s)"
  shows "map snd (fst (csv_replay_loop k n v isFirst pc s)) =
    (case map (replayed n v (cs_headers s)) (remaining s) of
       [] \<Rightarrow> [] | l # ls \<Rightarrow> ((if isFirst then [] else [LF]) @ l) # map ((#) LF) ls)"
  using assms
proof (induction "remaining s" arbitrary: isFirst pc s)
  case Nil
  then have "cs_pending s = None" "cs_lines s = []"
    by (auto simp: remaining_def split: option.splits)
  then show ?case using Nil.prems
    by (subst csv_replay_loop.simps) (simp add: csv_hasNext_def remaining_def)
next
  case (Cons l ls)
  have l: "l \<noteq> []" using Cons.hyps(2) Cons.prems(2) by (metis list.set_intros(1))
  have h: "csv_hasNext s = (True, s\<lparr>cs_lines := ls, cs_pending := Some l\<rparr>)"
    using Cons.hyps(2) Cons.prems(1) l
    by (cases s) (auto simp: csv_hasNext_def remaining_def split: option.splits list.splits)
  let ?s = "s\<lparr>cs_lines := ls, cs_pending := None\<rparr>"
  let ?row = "snd (parseRow n (cs_headers s) l (row_default n))"
  have nx: "csv_next n (s\<lparr>cs_lines := ls, cs_pending := Some l\<rparr>) = (?row, ?s)"
    by (simp add: csv_next_def)
  have r: "remaining ?s = ls" by (simp add: remaining_def)
  have IH: "map snd (fst (csv_replay_loop k n v False pc1 ?s)) = map ((#) LF) (map (replayed n v (cs_headers s)) ls)" for pc1
    using Cons.hyps(1)[of ?s False pc1] r Cons.prems Cons.hyps(2)[symmetric] by (cases ls) auto
  show ?case
    unfolding Cons.hyps(2)[symmetric]
    by (subst csv_replay_loop.simps) (simp add: h nx IH split_beta Let_def replayed_def)
qed

section \<open>A log and its replay\<close>

definition logged_rows :: "'d csv_numbers \<Rightarrow> string \<Rightarrow> 'd VehicleSignal list \<Rightarrow> string" where
  "logged_rows n v sigs =
     ts_text (foldl (\<lambda>t s. TraceLogger_call n s t) (the (TraceLogger_new True v)) sigs)"

lemma logged_rows_text:
  "logged_rows n v sigs = text_of (csvHeaderLine # map (\<lambda>s. csvRowLine n (signal_row (forLog v) s)) sigs)"
proof -
  have "ts_open t \<Longrightarrow> ts_text (foldl (\<lambda>t s. TraceLogger_call n s t) t sigs)
      = ts_text t @ text_of (map (\<lambda>s. csvRowLine n (signal_row (ts_vehicleId t) s)) sigs)" for t
    by (induction sigs arbitrary: t) (simp_all add: TraceLogger_call_def text_of_def)
  then show ?thesis
    by (simp add: logged_rows_def TraceLogger_new_def text_of_def fromUserInput_def)
qed

lemma joined_lines: "concat (map ((#) LF) ls) @ [LF] = LF # text_of ls"
  by (induction ls) (simp_all add: text_of_def)

text \<open>
  C38. Replaying the log that the decoder wrote, at whatever pace, prints that log again,
  byte for byte up to the line feed at its end, except that a number that was not reported is
  printed as 0.00: also the vehicle, the gear, the brake light and the count come back.
\<close>

theorem a_replayed_log_prints_itself:
  assumes "csv_law n" "label_text v" "v \<noteq> [] \<or> vehicleId = []" "sigs \<noteq> []"
    and "\<forall>s \<in> set sigs. plain_signal n s"
  shows "cv_rc (csv_replay_run k n vehicleId iv True name c (csv_source_new (Some (logged_rows n v sigs)))) = 0 \<and>
    concat (map snd (cv_out (csv_replay_run k n vehicleId iv True name c
      (csv_source_new (Some (logged_rows n v sigs)))))) @ [LF] =
    text_of (csvHeaderLine # map (\<lambda>s. csvRowLine n (filled n (signal_row (forLog v) s))) sigs)"
proof -
  let ?l = "\<lambda>s. csvRowLine n (signal_row (forLog v) s)"
  let ?src = "\<lparr>cs_lines = map ?l sigs, cs_eof = False, cs_pending = None, cs_headers = csv_columns\<rparr>"
  let ?s = "\<lparr>cs_lines = map ?l (tl sigs), cs_eof = False, cs_pending = Some (?l (hd sigs)), cs_headers = csv_columns\<rparr>"
  have sg: "map ?l sigs = ?l (hd sigs) # map ?l (tl sigs)" using assms(4) by (cases sigs) simp_all
  have "getlines (logged_rows n v sigs) = csvHeaderLine # map ?l sigs"
    unfolding logged_rows_text
    by (rule getlines_text) (simp add: header_columns row_cells[OF assms(2)] list_all_iff)
  then have src: "csv_source_new (Some (logged_rows n v sigs)) = Some ?src"
    by (simp add: csv_source_new_def header_columns)
  have nx: "csv_hasNext ?src = (True, ?s)"
    by (simp add: csv_hasNext_def sg row_cells[OF assms(2)])
  have rem: "remaining ?s = map ?l sigs" by (simp add: remaining_def sg)
  have "?l s \<noteq> []" for s by (rule row_cells(3)[OF assms(2)])
  then have "[] \<notin> ?l ` set sigs" by (metis (no_types, lifting) imageE)
  then have ne: "[] \<notin> set (remaining ?s)" unfolding rem by simp
  have rep: "map (replayed n vehicleId csv_columns) (map ?l sigs)
      = map (\<lambda>s. csvRowLine n (filled n (signal_row (forLog v) s))) sigs"
    using assms(5) row_replayed[OF assms(1) _ assms(2,3)] by simp
  obtain l ls where "map (\<lambda>s. csvRowLine n (filled n (signal_row (forLog v) s))) sigs = l # ls"
    using assms(4) by (cases sigs) simp_all
  then have out: "map snd (fst (csv_replay_loop k n vehicleId True pc ?s)) = l # map ((#) LF) ls"
    and t: "text_of (map (\<lambda>s. csvRowLine n (filled n (signal_row (forLog v) s))) sigs) = l @ LF # text_of ls" for pc
    using replay_loop_lines[of ?s k n vehicleId True pc] ne rem rep by (simp_all add: text_of_def)
  show ?thesis
    using out[of "(csv_pacer_new iv, c)"] t joined_lines[of ls]
    by (simp add: csv_replay_run_def src nx split_beta text_of_def)
qed

text \<open>Numbers in hundredths, as an instance: the text of a number and its reading.\<close>

definition ex_stod :: "string \<Rightarrow> int option" where
  "ex_stod s =
     (if s = [] then None
      else
        let neg = (hd s = CHR ''-''); u = (if neg then tl s else s);
            w = takeWhile (\<lambda>c. c \<noteq> CHR ''.'') u; f = drop (length w + 1) u;
            v = int (dec_num w) * 100 + int (dec_num f)
        in Some (if neg then - v else v))"

definition ex_numbers :: "int csv_numbers" where
  "ex_numbers = \<lparr>cn_stod = ex_stod, cn_hundredths = (\<lambda>x. x), cn_zero = 0, cn_u64 = (\<lambda>x. of_int (x div 100))\<rparr>"

lemma dec_num_pad: "dec_num (pad_left 2 (dec_str m)) = m"
proof -
  have "dec_num (replicate k (CHR ''0'') @ s) = dec_num s" for k s
    by (induction k) (simp_all add: dec_num_def digit_val_def)
  then show ?thesis using dec_str_read[of m] by (simp add: pad_left_def)
qed

lemma takeWhile_point: "takeWhile (\<lambda>c. c \<noteq> CHR ''.'') (dec_str m @ CHR ''.'' # r) = dec_str m"
proof -
  have "CHR ''.'' \<notin> set (dec_str m)" by (rule not_in_dec) (simp add: is_digit_def)
  then show ?thesis by (induction "dec_str m" rule: rev_induct) (auto simp: takeWhile_append)
qed

lemma hd_dec_str: "hd (dec_str m) \<noteq> CHR ''-''"
proof
  assume "hd (dec_str m) = CHR ''-''"
  then have "CHR ''-'' \<in> set (dec_str m)" by (metis dec_str_ne hd_in_set)
  moreover have "CHR ''-'' \<notin> set (dec_str m)" by (rule not_in_dec) (simp add: is_digit_def)
  ultimately show False by simp
qed

lemma pad_number: "list_all number_char (pad_left 2 (dec_str m))"
  using digits_number(1)[of m] by (auto simp: pad_left_def list_all_iff number_char_def is_digit_def)

lemma ex_reads_cents:
  assumes "plain_cents k"
  shows "ex_stod (format_cents k) = Some k"
proof (cases "0 \<le> k")
  case True
  then have "format_cents k = dec_str (nat (k div 100)) @ CHR ''.'' # pad_left 2 (dec_str (nat (k mod 100)))"
    by (simp add: format_cents_def cents_whole_def cents_frac_def int_str_def numeric_cell_id digits_number pad_number)
  moreover have "0 \<le> k div 100" using True by simp
  ultimately show ?thesis using True hd_dec_str[of "nat (k div 100)"]
    by (simp add: ex_stod_def Let_def takeWhile_point dec_num_pad dec_str_read hd_append)
next
  case False
  then have k: "k \<le> -100" using assms by (simp add: plain_cents_def)
  then have d: "1 \<le> (- k) div 100" by simp
  then have "format_cents k = CHR ''-'' # dec_str (nat ((- k) div 100)) @ CHR ''.'' # pad_left 2 (dec_str (nat ((- k) mod 100)))"
    using False digits_number(2)[of "- ((- k) div 100)"]
    by (simp add: format_cents_def cents_whole_def cents_frac_def numeric_cell_id pad_number) (simp add: int_str_def)
  then show ?thesis using False d
    by (simp add: ex_stod_def Let_def takeWhile_point dec_num_pad dec_str_read)
qed

lemma ex_csv_law: "csv_law ex_numbers"
proof -
  have "takeWhile (\<lambda>c. c \<noteq> CHR ''.'') (dec_str m) = dec_str m" for m
  proof -
    have "CHR ''.'' \<notin> set (dec_str m)" by (rule not_in_dec) (simp add: is_digit_def)
    then show ?thesis by (auto simp: takeWhile_eq_all_conv)
  qed
  note t = this
  have "ex_stod (dec_str m) = Some (int m * 100)" for m
    using hd_dec_str[of m] by (simp add: ex_stod_def Let_def dec_str_read t) (simp add: dec_num_def)
  then show ?thesis by (simp add: csv_law_def ex_numbers_def ex_reads_cents) (simp add: ex_stod_def)
qed

definition ex_signal :: "int VehicleSignal" where
  "ex_signal = \<lparr>timestampUtcMs = 1700, throttlePercent = Some 1250, speedKmh = Some 8000, accelerationG = None,
     brakePercent = None, brakeLight = Some False, steeringAngleDeg = Some (-4500), motorRpm = None,
     motorHvVoltage = None, motorHvCurrent = None, motorTorqueNm = None, gearSelector = Some PARK\<rparr>"

theorem a_replayed_log_prints_itself_witness:
  "concat (map snd (cv_out (csv_replay_run fake_clock ex_numbers [] 0 True [] 5
      (csv_source_new (Some (logged_rows ex_numbers ''tesla'' [ex_signal])))))) @ [LF] =
    text_of [csvHeaderLine, csvRowLine ex_numbers (filled ex_numbers (signal_row (forLog ''tesla'') ex_signal))]"
proof -
  have "label_text ''tesla''"
    unfolding label_text_def
    by (rule plain_cell) (simp add: forLog_def is_control_def ws4_def CR_def LF_def TAB_def)
  moreover have "plain_signal ex_numbers ex_signal"
    by (simp add: plain_signal_def ex_signal_def ex_numbers_def plain_value_def plain_cents_def)
  ultimately show ?thesis
    using a_replayed_log_prints_itself[OF ex_csv_law, of "''tesla''" "[]" "[ex_signal]" fake_clock 0 "[]" 5]
    by simp
qed

section \<open>What rows cannot say\<close>

text \<open>
  A value between -1 and 0 is written without its sign: two rows that differ
  only in the sign of an acceleration of less than 1 g have the same text.
\<close>

theorem small_negative_values_lose_their_sign:
  assumes "-100 < cn_hundredths n x" "cn_hundredths n x < 0" "cn_hundredths n y = - cn_hundredths n x"
  shows "csvRowLine n (r\<lparr>cr_accelerationG := Some x\<rparr>) = csvRowLine n (r\<lparr>cr_accelerationG := Some y\<rparr>)"
proof -
  have "(- cn_hundredths n x) div 100 = 0" using assms(1,2) by (intro div_pos_pos_trivial) simp_all
  then have "format_cents (cn_hundredths n x) = format_cents (cn_hundredths n y)"
    using assms(2,3) by (simp add: format_cents_def cents_whole_def cents_frac_def)
  then show ?thesis by (simp add: csvRowLine_def csv_cells_def formatOptional_def)
qed

text \<open>Braking with 0.3 g and accelerating with 0.3 g.\<close>

theorem small_negative_values_lose_their_sign_witness:
  "csvRowLine ex_numbers (signal_row [] (ex_signal\<lparr>accelerationG := Some (-30)\<rparr>))
   = csvRowLine ex_numbers (signal_row [] (ex_signal\<lparr>accelerationG := Some 30\<rparr>))"
  using small_negative_values_lose_their_sign[of ex_numbers "-30" 30
      "signal_row [] (ex_signal\<lparr>accelerationG := Some 30\<rparr>)"]
  by (simp add: ex_numbers_def signal_row_def countPopulated_def present_def)

text \<open>
  The sanitiser of text cells keeps commas, so a label with a comma makes
  the row one column too long: the reader finds a part of the label where the speed belongs.
\<close>

theorem a_comma_in_the_label_shifts_the_columns:
  assumes "cell_text (forLog a)" "cell_text (forLog b)"
  shows "splitCsv (csvRowLine n (signal_row (a @ CHR '','' # b) s))
    = hd (csv_cells n (signal_row a s)) # forLog a # forLog b # drop 2 (csv_cells n (signal_row a s))"
proof -
  let ?r = "signal_row (a @ CHR '','' # b) s"
  let ?cs = "hd (csv_cells n (signal_row a s)) # forLog a # forLog b # drop 2 (csv_cells n (signal_row a s))"
  have l: "forLog (a @ CHR '','' # b) = forLog a @ CHR '','' # forLog b"
    by (simp add: forLog_def is_control_def)
  have "csvRowLine n ?r = join_cells ?cs"
    by (simp add: csvRowLine_def csv_cells_def signal_row_def l)
  moreover have "list_all cell_text ?cs"
    using assms gear_text[of a s]
    by (simp add: csv_cells_def optional_cell brake_cell numeric_cell_id digits_number int_str_cell signal_row_def)
  moreover have "last ?cs \<noteq> []" by (simp add: csv_cells_def signal_row_def count_text)
  ultimately show ?thesis using splitCsv_cells(1)[of ?cs] by simp
qed

theorem a_comma_in_the_label_shifts_the_columns_witness:
  "length (splitCsv (csvRowLine ex_numbers (signal_row ''my,car'' ex_signal))) = 14"
proof -
  have "cell_text (forLog ''my'')" "cell_text (forLog ''car'')"
    by (rule plain_cell, simp add: forLog_def is_control_def ws4_def CR_def LF_def TAB_def)+
  then show ?thesis
    using a_comma_in_the_label_shifts_the_columns[of "''my''" "''car''" ex_numbers ex_signal]
    by (simp add: csv_cells_def)
qed

section \<open>A session and its capture\<close>

text \<open>The line the transport delivers for the text the device prints.\<close>

definition delivered :: "CanFrame \<Rightarrow> string" where
  "delivered msg = fst (the (takeBufferedLine (frame_text msg)))"

lemma delivered_body:
  assumes "can_id msg \<le> 0x7FF"
  shows "delivered msg = frame_body (can_id msg) (sent_data msg)"
proof -
  let ?b = "frame_body (can_id msg) (sent_data msg)"
  have line: "frame_text msg = ?b @ [CR]"
    by (simp add: frame_text_standard[OF assms] frame_line_def frame_body_def)
  have e: "\<not> is_eol c" if "c \<in> set ?b" for c
    using body_chars[OF that] by (auto simp: is_eol_def ws4_def CR_def LF_def)
  have "is_eol CR" by (simp add: is_eol_def)
  then have "takeBufferedLine (frame_text msg) = Some (?b, [])"
    using e by (simp add: takeBufferedLine_def line Let_def dropWhile_append takeWhile_append)
  then show ?thesis by (simp add: delivered_def)
qed

lemma stamped_row:
  assumes "can_id msg \<le> 0x7FF"
  shows "capture_frame (dec_str (unat (t :: u64)) @ CHR '','' # delivered msg) =
    Some \<lparr>timestampMs = t, bytes = twai_bytes (can_id msg) (sent_data msg), rawLine = []\<rparr>"
proof -
  let ?b = "frame_body (can_id msg) (sent_data msg)" and ?t = "dec_str (unat t)"
  have d: "from_chars_dec64 ?t = Some (unat t)"
    using dec_str_read[of "unat t"] u64_lt[of t]
    by (simp add: from_chars_dec64_def dec_str_take dec_num_def[symmetric] Let_def)
  have n: "CHR '','' \<notin> set ?t" by (rule not_in_dec) (simp add: is_digit_def)
  have "find_from (CHR '','') (?t @ CHR '','' # ?b) 0 = Some (length ?t)"
    using find_from_append[of "CHR '',''" ?t 0 "[]" ?b] n by simp
  moreover have "last ?b \<noteq> CR" using body_ends(3)[of "can_id msg" "sent_data msg"] by (auto simp: ws4_def)
  ultimately have "capture_row (?t @ CHR '','' # ?b) = Some (?t, ?b)"
    using d body_ends(1)[of "can_id msg" "sent_data msg"] by (simp add: capture_row_def Let_def)
  then show ?thesis using d ascii_reads_body[OF assms sent_data_le[of msg]]
    by (simp add: delivered_body[OF assms] capture_frame_def)
qed

text \<open>
  C37. Every line of a live session of standard frames, on either live path, gives its
  frame, and the raw log of the session read as a capture gives the same frames again, each at
  the time the log stamped it with.
\<close>

theorem a_logged_session_replays:
  assumes "\<forall>e \<in> set es. can_id (snd (snd e)) \<le> 0x7FF"
  shows "\<exists>frames. map (\<lambda>(t, clk, msg). live_line elm clk (delivered msg)) es = map Some frames \<and>
    capture_frames (ts_text (foldl (\<lambda>s (t, f). RawLogSink_writeLine t (rawLine f) s)
        \<lparr>ts_open = True, ts_vehicleId = v, ts_text = []\<rparr> (zip (map fst es) frames)))
    = map (\<lambda>(t, f). f\<lparr>timestampMs := t, rawLine := []\<rparr>) (zip (map fst es) frames)"
proof -
  let ?f = "\<lambda>(t, clk, msg). \<lparr>timestampMs = clk, bytes = twai_bytes (can_id msg) (sent_data msg), rawLine = delivered msg\<rparr>"
  let ?row = "\<lambda>e. dec_str (unat (fst e)) @ CHR '','' # delivered (snd (snd e))"
  have live: "live_line elm clk (delivered msg) =
      Some \<lparr>timestampMs = clk, bytes = twai_bytes (can_id msg) (sent_data msg), rawLine = delivered msg\<rparr>"
    if "can_id msg \<le> 0x7FF" for clk msg
    using body_ends(1)[of "can_id msg" "sent_data msg"] raw_reads_body[OF that sent_data_le[of msg]]
      elm_reads_body[OF that sent_data_le, of "[]"] rtrim_body[of "[]" "can_id msg" "sent_data msg"]
    by (simp add: live_line_def delivered_body[OF that] Let_def)
  have log: "ts_open s \<Longrightarrow> ts_text (foldl (\<lambda>s (t, f). RawLogSink_writeLine t (rawLine f) s) s
      (zip (map fst es) (map ?f es))) = ts_text s @ text_of (map ?row es)" for s
    by (induction es arbitrary: s) (simp_all add: RawLogSink_writeLine_def text_of_def split_beta)
  have "LF \<notin> set (?row e)" if "e \<in> set es" for e
  proof -
    have "LF \<notin> set (dec_str (unat (fst e)))" by (rule not_in_dec) (simp add: is_digit_def LF_def)
    moreover have "LF \<notin> set (delivered (snd (snd e)))"
      using assms that delivered_body[of "snd (snd e)"] body_chars[of LF]
      by (auto simp: ws4_def LF_def)
    ultimately show ?thesis by (simp add: LF_def)
  qed
  then have lines: "getlines (text_of (map ?row es)) = map ?row es"
    by (intro getlines_text) (auto simp: list_all_iff)
  have cap: "List.map_filter capture_frame (map ?row es)
      = map (\<lambda>(t, f). f\<lparr>timestampMs := t, rawLine := []\<rparr>) (zip (map fst es) (map ?f es))"
    using assms by (induction es) (auto simp: stamped_row split_beta)
  have "map (\<lambda>(t, clk, msg). live_line elm clk (delivered msg)) es = map Some (map ?f es)"
    using assms live by auto
  then show ?thesis using log lines cap by (intro exI[of _ "map ?f es"]) (simp add: capture_frames_def)
qed

theorem a_logged_session_replays_witness:
  "\<exists>frames. map (\<lambda>(t, clk, msg). live_line True clk (delivered msg)) [(1700, 1699, ex_frame)] = map Some frames \<and>
    capture_frames (ts_text (foldl (\<lambda>s (t, f). RawLogSink_writeLine t (rawLine f) s)
        \<lparr>ts_open = True, ts_vehicleId = [], ts_text = []\<rparr> (zip [1700] frames)))
    = map (\<lambda>(t, f). f\<lparr>timestampMs := t, rawLine := []\<rparr>) (zip [1700] frames)"
  using a_logged_session_replays[of "[(1700, 1699, ex_frame)]" True "[]"] by (simp add: ex_frame_def)

end
