(* ===== verification/FW_Sketch.thy ===== *)
theory FW_Sketch
  imports FW_App FW_Tcp FW_Ota
begin

text \<open>
  The device as it runs: \<open>setup\<close> and \<open>loop\<close> of \<open>firmware/can-bridge/can-bridge.ino\<close> with the wiring of
  \<open>can-bridge.ino\<close>, \<open>ota_update.ino\<close> and the adapters beside them, which put the application, the
  serial console, the TCP server and the update server together; and what only \<open>setup\<close> uses,
  \<open>vanilla/FactoryReset.cpp\<close>, \<open>FactoryResetCheck.cpp\<close>, \<open>CanDriver.cpp\<close> and
  \<open>TcpServerRestartPolicy.cpp\<close>.

  One turn of \<open>loop\<close> takes what the hardware answers during it. A restart of the processor ends the
  run: nothing of the turn is executed after it.
\<close>

section \<open>Constants\<close>

definition SERIAL_QUIET_DURATION_MS :: u32 where "SERIAL_QUIET_DURATION_MS = 250"
definition HEARTBEAT_INTERVAL_MS :: u32 where "HEARTBEAT_INTERVAL_MS = 5000"
definition MAX_SERIAL_CMD_LENGTH :: nat where "MAX_SERIAL_CMD_LENGTH = 64"
definition FACTORY_RESET_HOLD_MS :: u32 where "FACTORY_RESET_HOLD_MS = 3000"
definition FACTORY_RESET_POLL_MS :: u32 where "FACTORY_RESET_POLL_MS = 100"
definition TCP_AUTH_TOKEN :: string where "TCP_AUTH_TOKEN = ''vehicle-sim-2026''"

section \<open>The factory reset\<close>

datatype reset_state = RS_IDLE | RS_HOLDING | RS_CONFIRMED | RS_CANCELLED
datatype FactoryResetResult = RESET_WAITING | RESET_CONFIRMED | RESET_CANCELLED

record reset_debouncer =
  fd_holdMs :: u32
  fd_pollMs :: u32
  fd_heldMs :: u32
  fd_state :: reset_state

definition debouncer_new :: "u32 \<Rightarrow> u32 \<Rightarrow> reset_debouncer" where
  "debouncer_new holdMs pollMs =
     \<lparr>fd_holdMs = holdMs, fd_pollMs = pollMs, fd_heldMs = 0, fd_state = RS_IDLE\<rparr>"

fun reset_result :: "reset_state \<Rightarrow> FactoryResetResult" where
  "reset_result RS_CONFIRMED = RESET_CONFIRMED"
| "reset_result RS_CANCELLED = RESET_CANCELLED"
| "reset_result _ = RESET_WAITING"

definition debouncer_feed :: "bool \<Rightarrow> reset_debouncer \<Rightarrow> FactoryResetResult \<times> reset_debouncer" where
  "debouncer_feed isPressed d =
     (let d1 =
        (case fd_state d of
           RS_IDLE \<Rightarrow>
             if isPressed then
               d\<lparr>fd_state := (if fd_holdMs d \<le> fd_pollMs d then RS_CONFIRMED else RS_HOLDING),
                 fd_heldMs := fd_pollMs d\<rparr>
             else d
         | RS_HOLDING \<Rightarrow>
             if \<not> isPressed then d\<lparr>fd_state := RS_CANCELLED\<rparr>
             else
               let held = fd_heldMs d + fd_pollMs d
               in d\<lparr>fd_heldMs := held,
                    fd_state := (if fd_holdMs d \<le> held then RS_CONFIRMED else RS_HOLDING)\<rparr>
         | _ \<Rightarrow> d)
      in (reset_result (fd_state d1), d1))"

datatype reset_out = ResetLog string bool | ResetDelay u32 | ResetClear

text \<open>
  The readings of the pin are a list; \<open>None\<close> when the loop has read all of them and still waits.
\<close>

fun reset_loop :: "bool list \<Rightarrow> reset_debouncer \<Rightarrow> (bool \<times> reset_out list) option" where
  "reset_loop [] d = None"
| "reset_loop (b # bs) d =
     (let (r, d1) = debouncer_feed b d
      in if r = RESET_WAITING then
           map_option (apsnd ((#) (ResetDelay (fd_pollMs d)))) (reset_loop bs d1)
         else Some (r = RESET_CONFIRMED, []))"

definition reset_check_run :: "u32 \<Rightarrow> u32 \<Rightarrow> bool list \<Rightarrow> (bool \<times> reset_out list) option" where
  "reset_check_run holdMs pollMs pin =
     (case pin of
        [] \<Rightarrow> None
      | b # bs \<Rightarrow>
          if \<not> b then Some (False, [])
          else
            (case reset_loop bs (debouncer_new holdMs pollMs) of
               None \<Rightarrow> None
             | Some (confirmed, out) \<Rightarrow>
                 Some (confirmed,
                   ResetLog (''Factory reset: GPIO0 held at boot, waiting '' @ dec_str (unat holdMs)
                     @ ''ms to confirm...'') False # out @
                   (if confirmed then
                      [ResetLog ''Factory reset: clearing WiFi credentials and booting to AP mode'' True,
                       ResetClear]
                    else [ResetLog ''Factory reset: released early, cancelling'' False]))))"

section \<open>The CAN driver\<close>

definition canDriver_initialize :: "bool \<Rightarrow> int \<Rightarrow> int \<Rightarrow> bool \<times> (string \<times> bool) list" where
  "canDriver_initialize enabled install start =
     (if \<not> enabled then (True, [(''TWAI disabled via VEHICLE_SIM_ENABLE_TWAI=0'', False)])
      else if install \<noteq> 0 then (False, [(''FAIL: twai_driver_install'', True)])
      else if start \<noteq> 0 then (False, [(''FAIL: twai_start'', True)])
      else (True, [(''TWAI started @ 500kbps (listen-only)'', False)]))"

section \<open>The device\<close>

text \<open>
  The parts of the application behind its owning pointers are tracked by \<open>sk_parts\<close>: a part is in the set
  once its pointer has been set. The preferences are those of the token store, \<open>prefsStore (sk_tokens s)\<close>.
  The manager of the TCP server and the sketch hold the accepted connection in two objects, so that what
  one of them does to its object is not visible in the other: whether the sketch's object still answers
  as connected is an argument of every turn (\<open>te_canLive\<close>, \<open>te_clientLive\<close>), like all else the hardware says.
\<close>

datatype owned_part =
  WifiManagerPart | CanBridgePart | AtDispatcherPart | LedPolicyPart | DiscoveryPolicyPart | RestartPolicyPart

record 'p sketch =
  sk_framer :: framer
  sk_heartbeat :: heartbeat
  sk_tcp :: tcp_mgr
  sk_app :: fw_app
  sk_ledPattern :: int
  sk_ota :: ota_server
  sk_tokens :: "'p token_store"
  sk_authToken :: string
  sk_deviceId :: "u8 list"
  sk_parts :: "owned_part set"
  sk_restarted :: bool

datatype sk_out =
    SerialText string
  | AtCall at_out
  | TcpCall tcp_out
  | AppCall app_out
  | CanCall can_out
  | OtaCall ota_out
  | ResetCall reset_out
  | TwaiLog string bool
  | LedInitCall led_out
  | WifiSleepOff
  | TcpServerBegin
  | TcpServerEnd
  | GlobalClientStop
  | MarkAppValid
  | SdkRestart

text \<open>What the firmware was built with, and the signing function of the beacon.\<close>

record 'p build =
  b_pf :: "'p prefs_if"
  b_version :: string
  b_sign :: "u8 list \<Rightarrow> u8 list"

definition sk_cfg :: "'p build \<Rightarrow> 'p wifi_cfg" where
  "sk_cfg b = app_cfg (b_pf b) None None"

abbreviation sk_prefs :: "'p sketch \<Rightarrow> 'p" where
  "sk_prefs s \<equiv> prefsStore (sk_tokens s)"

definition and_then ::
    "('p sketch \<Rightarrow> 'p sketch \<times> sk_out list) \<Rightarrow> 'p sketch \<times> sk_out list \<Rightarrow> 'p sketch \<times> sk_out list" where
  "and_then f r =
     (if sk_restarted (fst r) then r
      else let (s1, o1) = f (fst r) in (s1, snd r @ o1))"

section \<open>Commands\<close>

text \<open>The dispatcher works on the stores and the monitor flag of the application.\<close>

definition sketch_device :: "'p sketch \<Rightarrow> 'p device" where
  "sketch_device s =
     \<lparr>d_prefs = sk_prefs s, d_tokens = sk_tokens s, d_monitor = monitorActive (a_can (sk_app s))\<rparr>"

definition with_device :: "'p device \<Rightarrow> 'p sketch \<Rightarrow> 'p sketch" where
  "with_device d s =
     s\<lparr>sk_tokens := (d_tokens d)\<lparr>prefsStore := d_prefs d\<rparr>,
       sk_app := app_setMonitorActive (d_monitor d) (sk_app s)\<rparr>"

definition sketch_command ::
    "('p device at_host \<Rightarrow> u8 list \<Rightarrow> string \<Rightarrow> string \<Rightarrow> 'p device \<Rightarrow> at_out list \<times> 'p device) \<Rightarrow>
     'p build \<Rightarrow> string \<Rightarrow> 'p sketch \<Rightarrow> 'p sketch \<times> sk_out list" where
  "sketch_command handle b cmd s =
     (let (out, d) = handle (device_host (sk_cfg b)) (sk_deviceId s) (b_version b) cmd (sketch_device s)
      in ((with_device d s)\<lparr>sk_restarted := EspRestart \<in> set out\<rparr>, map AtCall out))"

text \<open>\<open>drainSerialATCommands\<close>; \<open>ms i\<close> is the clock after the \<open>i\<close>-th line.\<close>

definition serial_line :: "'p build \<Rightarrow> u32 \<Rightarrow> string \<Rightarrow> 'p sketch \<Rightarrow> 'p sketch \<times> sk_out list" where
  "serial_line b ms line s =
     and_then (\<lambda>s1. (s1\<lparr>sk_app := (sk_app s1)\<lparr>a_can :=
           setSerialQuietUntilMs (ms + SERIAL_QUIET_DURATION_MS) (a_can (sk_app s1))\<rparr>\<rparr>, []))
       (sketch_command handleSerialCommand b (c_str line) s)"

fun serial_lines ::
    "'p build \<Rightarrow> (nat \<Rightarrow> u32) \<Rightarrow> nat \<Rightarrow> string list \<Rightarrow> 'p sketch \<times> sk_out list \<Rightarrow> 'p sketch \<times> sk_out list" where
  "serial_lines b ms i [] r = r"
| "serial_lines b ms i (l # ls) r =
     serial_lines b ms (i + 1) ls (and_then (serial_line b (ms i) l) r)"

definition drainSerialATCommands ::
    "'p build \<Rightarrow> (nat \<Rightarrow> u32) \<Rightarrow> string \<Rightarrow> 'p sketch \<Rightarrow> 'p sketch \<times> sk_out list" where
  "drainSerialATCommands b ms input s =
     (let (f, ls) = drain (sk_framer s) input in serial_lines b ms 0 ls (s\<lparr>sk_framer := f\<rparr>, []))"

section \<open>One turn of the loop\<close>

datatype ota_request = OtaUpload ota_env http_upload | OtaPost bool

record turn_env =
  te_serial :: string
  te_lineMs :: "nat \<Rightarrow> u32"
  te_heartbeatMs :: u32
  te_cadenceMs :: u32
  te_ownIp :: string
  te_connected :: bool
  te_accept :: "(string \<times> string) option"
  te_incoming :: string
  te_app :: app_env
  te_updateMs :: u32
  te_clientLive :: bool
  te_ota :: "ota_request list"
  te_canMs :: u32
  te_canLive :: bool
  te_frames :: "CanFrame list"

definition sketch_heartbeat :: "'p build \<Rightarrow> turn_env \<Rightarrow> 'p sketch \<Rightarrow> 'p sketch \<times> sk_out list" where
  "sketch_heartbeat b e s =
     (let app = sk_app s;
          (due, h) = heartbeat_tick (b_version b) (te_heartbeatMs e) (state (a_wifi app))
            (monitorActive (a_can app)) (hub_clientIp (a_hub app))
            (cadenceString (te_cadenceMs e) (a_disc app)) (sk_ledPattern s)
            (resolveTargetSsid (sk_cfg b) (sk_prefs s)) (te_ownIp e) (getAuthCampaignDetail (a_wifi app))
            (sk_heartbeat s)
      in (s\<lparr>sk_heartbeat := h\<rparr>,
          if due then SerialText (snapshot h)
            # map TcpCall (writeLineToClient (sk_tcp s) (te_connected e) (snapshot h))
          else []))"

text \<open>The application is the host of the TCP server.\<close>

definition sketch_hub :: "(hub \<Rightarrow> hub \<times> log_event list) \<Rightarrow> 'p sketch \<Rightarrow> 'p sketch \<times> sk_out list" where
  "sketch_hub f s = (let (a, out) = app_hub f (sk_app s) in (s\<lparr>sk_app := a\<rparr>, map AppCall out))"

fun host_callback ::
    "'p build \<Rightarrow> disc_env \<Rightarrow> tcp_out \<Rightarrow> 'p sketch \<Rightarrow> 'p sketch \<times> sk_out list" where
  "host_callback b de (MonitorActive a) s = (s\<lparr>sk_app := app_setMonitorActive a (sk_app s)\<rparr>, [])"
| "host_callback b de (OnClientConnected ip) s = sketch_hub (hub_clientConnected ip) s"
| "host_callback b de (OnAuthFailed ip) s = sketch_hub (hub_authFailed ip) s"
| "host_callback b de (OnClientDisconnected ip r) s = sketch_hub (hub_clientDisconnected ip r) s"
| "host_callback b de ResetDiscoveryBackoff s =
     (s\<lparr>sk_app := app_resetDiscoveryBackoff de (sk_app s)\<rparr>, [])"
| "host_callback b de (HandleTcpAtCommand cmd) s = sketch_command handleTcpCommand b cmd s"
| "host_callback b de _ s = (s, [])"

fun host_callbacks ::
    "'p build \<Rightarrow> disc_env \<Rightarrow> tcp_out list \<Rightarrow> 'p sketch \<times> sk_out list \<Rightarrow> 'p sketch \<times> sk_out list" where
  "host_callbacks b de [] r = r"
| "host_callbacks b de (x # xs) r =
     host_callbacks b de xs
       (and_then (\<lambda>s. let (s1, o1) = host_callback b de x s in (s1, TcpCall x # o1)) r)"

definition sketch_tick :: "string \<Rightarrow> turn_env \<Rightarrow> tcp_tick" where
  "sketch_tick tok e =
     \<lparr>tk_accept = te_accept e, tk_token = tok, tk_connected = te_connected e,
      tk_incoming = te_incoming e\<rparr>"

definition sketch_cycle :: "'p build \<Rightarrow> turn_env \<Rightarrow> 'p sketch \<Rightarrow> 'p sketch \<times> sk_out list" where
  "sketch_cycle b e s =
     (let (t, out) = cycle (sk_tcp s) (sketch_tick (sk_authToken s) e)
      in host_callbacks b (ev_disc (te_app e)) out
           (s\<lparr>sk_tcp := t\<rparr>, []))"

definition sketch_update :: "'p build \<Rightarrow> turn_env \<Rightarrow> 'p sketch \<Rightarrow> ('p sketch \<times> sk_out list) option" where
  "sketch_update b e s =
     (case app_update (sk_cfg b) (sk_prefs s) (sk_deviceId s) (b_sign b)
             ((te_app e)\<lparr>ev_client := hasClient (sk_tcp s)\<rparr>) (te_updateMs e) (sk_app s) of
        None \<Rightarrow> None
      | Some (a, out) \<Rightarrow>
          Some (s\<lparr>sk_app := a,
                  sk_ledPattern := pattern_ord (selectLedPattern (state_ordinal (state (a_wifi a)))
                    (hasClient (sk_tcp s)))\<rparr>, map AppCall out))"

text \<open>\<open>TcpServerRestartPolicy\<close> hands the question and the answer on to the WiFi manager.\<close>

definition shouldRestart :: "fw_app \<Rightarrow> bool" where
  "shouldRestart a \<longleftrightarrow> tcpServerNeedsRestart (a_wifi a)"

definition clear_restart :: "fw_app \<Rightarrow> fw_app" where
  "clear_restart a = a\<lparr>a_wifi := (a_wifi a)\<lparr>tcpServerNeedsRestart := False\<rparr>\<rparr>"

definition restartTcpServerIfNeeded :: "turn_env \<Rightarrow> 'p sketch \<Rightarrow> 'p sketch \<times> sk_out list" where
  "restartTcpServerIfNeeded e s =
     (if shouldRestart (sk_app s) then
        let s1 = s\<lparr>sk_app := clear_restart (sk_app s)\<rparr>
        in if hasClient (sk_tcp s) \<and> te_clientLive e
           then (s1, [TcpServerEnd, TcpServerBegin, GlobalClientStop])
           else (s1, [TcpServerEnd, TcpServerBegin])
      else (s, []))"

text \<open>\<open>otaLoop\<close>: the web server hands over upload events and posts; success restarts the device.\<close>

fun ota_request_step :: "ota_request \<Rightarrow> 'p sketch \<Rightarrow> 'p sketch \<times> sk_out list" where
  "ota_request_step (OtaUpload oe u) s =
     (let (v, out) = handleUpload oe u (sk_ota s) in (s\<lparr>sk_ota := v\<rparr>, map OtaCall out))"
| "ota_request_step (OtaPost err) s =
     (let out = handlePost err (sk_ota s)
      in if SuccessCallback \<in> set out
         then (s\<lparr>sk_restarted := True\<rparr>, map OtaCall out @ [SdkRestart])
         else (s, map OtaCall out))"

fun otaLoop :: "ota_request list \<Rightarrow> 'p sketch \<times> sk_out list \<Rightarrow> 'p sketch \<times> sk_out list" where
  "otaLoop [] r = r"
| "otaLoop (x # xs) r = otaLoop xs (and_then (ota_request_step x) r)"

definition sketch_frames :: "turn_env \<Rightarrow> 'p sketch \<Rightarrow> 'p sketch \<times> sk_out list" where
  "sketch_frames e s =
     (let can = a_can (sk_app s);
          (c, out) = processFrames can (monitorActive can) (te_canMs e) (te_canLive e) (te_frames e)
      in (s\<lparr>sk_app := (sk_app s)\<lparr>a_can := c\<rparr>\<rparr>, map CanCall out))"

text \<open>\<open>loop\<close>; \<open>None\<close> is a failed assertion.\<close>

definition sketch_loop :: "'p build \<Rightarrow> turn_env \<Rightarrow> 'p sketch \<Rightarrow> ('p sketch \<times> sk_out list) option" where
  "sketch_loop b e s =
     (let r = and_then (sketch_cycle b e) (and_then (sketch_heartbeat b e)
                (drainSerialATCommands b (te_lineMs e) (te_serial e) s))
      in if sk_restarted (fst r) then Some r
         else
           (case sketch_update b e (fst r) of
              None \<Rightarrow> None
            | Some (s1, o1) \<Rightarrow>
                Some (and_then (sketch_frames e)
                  (otaLoop (te_ota e)
                    (and_then (restartTcpServerIfNeeded e) (s1, snd r @ o1))))))"

section \<open>The start of the device\<close>

record boot_env =
  bt_pin :: "bool list"
  bt_app :: app_env
  bt_disc :: disc_env
  bt_twaiInstall :: int
  bt_twaiStart :: int
  bt_mac :: "u8 list"
  bt_running :: "nat option"
  bt_otaState :: "int \<times> int"
  bt_sodium :: int
  bt_otaSig :: "u8 list"

definition sketch_new :: "boot_env \<Rightarrow> 'p \<Rightarrow> 'p sketch" where
  "sketch_new e p =
     \<lparr>sk_framer = \<lparr>maxLen = MAX_SERIAL_CMD_LENGTH, buffer = []\<rparr>,
      sk_heartbeat = \<lparr>intervalMs = HEARTBEAT_INTERVAL_MS, lastTickMs = 0, snapshot = []\<rparr>,
      sk_tcp = tcp_init,
      sk_app = app_new True \<lparr>monitorActive = False, initialized = False, serialQuietUntilMs = 0\<rparr>
        \<lparr>p_mgr = \<lparr>connectTimeMs = 0, lastBroadcastMs = 0, backoffActive = False, broadcastCount = 0,
                  resetCount = 0\<rparr>, p_started = False, p_enabled = True\<rparr>,
      sk_ledPattern = 0,
      sk_ota = ota_new (bt_otaSig e),
      sk_tokens = token_store_new p TCP_AUTH_TOKEN,
      sk_authToken = [],
      sk_deviceId = replicate 16 0,
      sk_parts = {WifiManagerPart, CanBridgePart, LedPolicyPart, DiscoveryPolicyPart, RestartPolicyPart},
      sk_restarted = False\<rparr>"

definition GREEN :: string where "GREEN = CHR 0x1B # ''[0;32m''"
definition NC :: string where "NC = CHR 0x1B # ''[0m''"

definition printTagged :: "u8 list \<Rightarrow> string \<Rightarrow> string \<Rightarrow> string" where
  "printTagged dev color message =
     color @ formatDeviceTag dev @ message @ '': '' @ NC @ color @ [CR, LF]"

text \<open>The state before the application starts: the light, the factory reset and the token.\<close>

definition setup_reset :: "'p build \<Rightarrow> boot_env \<Rightarrow> 'p sketch \<Rightarrow> ('p sketch \<times> sk_out list) option" where
  "setup_reset b e s =
     (let (l, o1) = led_init (a_led (sk_app s));
          s1 = s\<lparr>sk_app := (sk_app s)\<lparr>a_led := l\<rparr>\<rparr>
      in case reset_check_run FACTORY_RESET_HOLD_MS FACTORY_RESET_POLL_MS (bt_pin e) of
           None \<Rightarrow> None
         | Some (confirmed, o2) \<Rightarrow>
             Some (if confirmed
                   then s1\<lparr>sk_tokens := (sk_tokens s1)\<lparr>prefsStore := snd (clearCredentials (b_pf b) (sk_prefs s1))\<rparr>\<rparr>
                   else s1, map LedInitCall o1 @ map ResetCall o2))"

definition setup_token :: "'p build \<Rightarrow> 'p sketch \<Rightarrow> 'p sketch" where
  "setup_token b s =
     (let (t, ts) = token_loadOrDefault (b_pf b) (sk_tokens s)
      in s\<lparr>sk_tokens := ts, sk_authToken := (if t = [] then TCP_AUTH_TOKEN else t)\<rparr>)"

text \<open>\<open>setAtCommandAdapters\<close> makes the dispatcher.\<close>

definition setAtCommandAdapters :: "'p sketch \<Rightarrow> 'p sketch" where
  "setAtCommandAdapters s = s\<lparr>sk_parts := insert AtDispatcherPart (sk_parts s)\<rparr>"

text \<open>From the event logger on, when the CAN driver runs.\<close>

definition setup_services :: "boot_env \<Rightarrow> 'p sketch \<Rightarrow> 'p sketch \<times> sk_out list" where
  "setup_services e s =
     (let dev = bt_mac e @ replicate (16 - length (bt_mac e)) 0
      in (setAtCommandAdapters
            (s\<lparr>sk_app := app_resetDiscoveryBackoff (bt_disc e) (app_setDiscoveryEnabled True (sk_app s)),
               sk_deviceId := dev, sk_ota := ota_setup (bt_sodium e) (sk_ota s)\<rparr>),
          [SerialText (''[CAN] receive adapter: REAL twai_receive (VEHICLE_SIM_ENABLE_TWAI=1)'' @ [CR, LF]),
           TcpServerBegin, SerialText (''TCP listening on port 3333'' @ [CR, LF]),
           SerialText (printTagged dev GREEN ''CAN bridge ready'')]
          @ (if markValidOnBoot (bt_running e) (bt_otaState e) then [MarkAppValid] else [])
          @ [SerialText (''OTA HTTP server on port 80'' @ [CR, LF])]))"

text \<open>
  \<open>setup\<close> on the preferences \<open>p\<close>. \<open>None\<close>: the button is still held and not decided when the readings
  end. The device that hangs because the CAN driver failed is \<open>Inl\<close>.
\<close>

definition sketch_setup ::
    "'p build \<Rightarrow> boot_env \<Rightarrow> 'p \<Rightarrow> (sk_out list + 'p sketch \<times> sk_out list) option" where
  "sketch_setup b e p =
     (case setup_reset b e (sketch_new e p) of
        None \<Rightarrow> None
      | Some (s1, o1) \<Rightarrow>
          let s2 = setup_token b s1
          in (case app_init (sk_cfg b) (sk_prefs s2) (bt_app e) (sk_app s2) of
                None \<Rightarrow> None
              | Some (a, o2) \<Rightarrow>
                  let s3 = s2\<lparr>sk_app := app_setEventLogger a\<rparr>;
                      (ok, o3) = canDriver_initialize True (bt_twaiInstall e) (bt_twaiStart e);
                      out = o1 @ map AppCall o2 @ [WifiSleepOff] @ map (\<lambda>(m, err). TwaiLog m err) o3
                  in if \<not> ok then Some (Inl out)
                     else let (s4, o4) = setup_services e s3 in Some (Inr (s4, out @ o4))))"

section \<open>Runs\<close>

text \<open>A turn of the loop, or the driver's disconnect event between two turns.\<close>

datatype sketch_event = Turn turn_env | WifiLost int string int

definition sketch_step ::
    "'p build \<Rightarrow> sketch_event \<Rightarrow> 'p sketch \<Rightarrow> ('p sketch \<times> sk_out list) option" where
  "sketch_step b ev s =
     (if sk_restarted s then Some (s, [])
      else case ev of
             Turn e \<Rightarrow> sketch_loop b e s
           | WifiLost reason bssid rssi \<Rightarrow>
               let (a, out) = onWiFiDisconnected reason bssid rssi (sk_app s)
               in Some (s\<lparr>sk_app := a\<rparr>, map AppCall out))"

fun sketch_run :: "'p build \<Rightarrow> sketch_event list \<Rightarrow> 'p sketch \<Rightarrow> ('p sketch \<times> sk_out list) option" where
  "sketch_run b [] s = Some (s, [])"
| "sketch_run b (ev # evs) s =
     (case sketch_step b ev s of
        None \<Rightarrow> None
      | Some (s1, o1) \<Rightarrow> map_option (apsnd (\<lambda>o2. o1 @ o2)) (sketch_run b evs s1))"

section \<open>The parts a run asks for\<close>

text \<open>
  \<open>FirmwareApp\<close> hands every call on to one of its parts and asserts that the part has been made. Which
  parts the calls of a turn reach, call by call and up to a restart: the commands that switch the
  monitor go back to the application and its bridge, the one that forgets the credentials to
  its WiFi manager.
\<close>

definition command_uses :: "string \<Rightarrow> owned_part set" where
  "command_uses cmd =
     insert AtDispatcherPart
       (case find_handler (normalizeAtCommand cmd) of
          Some AtzCommandHandler \<Rightarrow> {CanBridgePart}
        | Some AtmaCommandHandler \<Rightarrow> {CanBridgePart}
        | Some AtpcCommandHandler \<Rightarrow> {CanBridgePart}
        | Some AtclearwifiCommandHandler \<Rightarrow> {WifiManagerPart}
        | _ \<Rightarrow> {})"

fun lines_use ::
    "'p build \<Rightarrow> (nat \<Rightarrow> u32) \<Rightarrow> nat \<Rightarrow> string list \<Rightarrow> 'p sketch \<times> sk_out list \<Rightarrow> owned_part set" where
  "lines_use b ms i [] r = {}"
| "lines_use b ms i (l # ls) r =
     (if sk_restarted (fst r) then {}
      else let r1 = and_then (serial_line b (ms i) l) r
           in command_uses (c_str l) \<union> (if sk_restarted (fst r1) then {} else {CanBridgePart}) \<union>
              lines_use b ms (i + 1) ls r1)"

fun callback_uses :: "tcp_out \<Rightarrow> owned_part set" where
  "callback_uses (MonitorActive a) = {CanBridgePart}"
| "callback_uses (HandleTcpAtCommand cmd) = command_uses cmd"
| "callback_uses _ = {}"

fun callbacks_use ::
    "'p build \<Rightarrow> disc_env \<Rightarrow> tcp_out list \<Rightarrow> 'p sketch \<times> sk_out list \<Rightarrow> owned_part set" where
  "callbacks_use b de [] r = {}"
| "callbacks_use b de (x # xs) r =
     (if sk_restarted (fst r) then {}
      else callback_uses x \<union> callbacks_use b de xs (host_callbacks b de [x] r))"

definition heartbeat_uses :: "owned_part set" where
  "heartbeat_uses = {WifiManagerPart, CanBridgePart, DiscoveryPolicyPart, LedPolicyPart}"

definition turn_uses :: "'p build \<Rightarrow> turn_env \<Rightarrow> 'p sketch \<Rightarrow> owned_part set" where
  "turn_uses b e s =
     (let (f, ls) = drain (sk_framer s) (te_serial e);
          r0 = drainSerialATCommands b (te_lineMs e) (te_serial e) s;
          r1 = and_then (sketch_heartbeat b e) r0;
          (t, out) = cycle (sk_tcp (fst r1)) (sketch_tick (sk_authToken (fst r1)) e);
          r2 = and_then (sketch_cycle b e) r1
      in lines_use b (te_lineMs e) 0 ls (s\<lparr>sk_framer := f\<rparr>, []) \<union>
         (if sk_restarted (fst r0) then {} else heartbeat_uses) \<union>
         (if sk_restarted (fst r1) then {}
          else callbacks_use b (ev_disc (te_app e)) out ((fst r1)\<lparr>sk_tcp := t\<rparr>, [])) \<union>
         (if sk_restarted (fst r2) then {}
          else {RestartPolicyPart} \<union>
            (case sketch_update b e (fst r2) of
               None \<Rightarrow> {}
             | Some (s1, o1) \<Rightarrow>
                 if sk_restarted (fst (otaLoop (te_ota e) (and_then (restartTcpServerIfNeeded e) (s1, []))))
                 then {} else {CanBridgePart})))"

definition event_uses :: "'p build \<Rightarrow> sketch_event \<Rightarrow> 'p sketch \<Rightarrow> owned_part set" where
  "event_uses b ev s = (case ev of Turn e \<Rightarrow> turn_uses b e s | WifiLost _ _ _ \<Rightarrow> {WifiManagerPart})"

text \<open>\<open>setup\<close> forgets the credentials when the button was held.\<close>

definition setup_uses :: "boot_env \<Rightarrow> owned_part set" where
  "setup_uses e =
     (case reset_check_run FACTORY_RESET_HOLD_MS FACTORY_RESET_POLL_MS (bt_pin e) of
        Some (True, _) \<Rightarrow> {WifiManagerPart}
      | _ \<Rightarrow> {})"

text \<open>The start, an event and a run with all of these assertions in place: \<open>None\<close> is a failed one.\<close>

definition checked_setup ::
    "'p build \<Rightarrow> boot_env \<Rightarrow> 'p \<Rightarrow> (sk_out list + 'p sketch \<times> sk_out list) option" where
  "checked_setup b e p = (if setup_uses e \<subseteq> sk_parts (sketch_new e p) then sketch_setup b e p else None)"

definition checked_step ::
    "'p build \<Rightarrow> sketch_event \<Rightarrow> 'p sketch \<Rightarrow> ('p sketch \<times> sk_out list) option" where
  "checked_step b ev s =
     (if sk_restarted s \<or> event_uses b ev s \<subseteq> sk_parts s then sketch_step b ev s else None)"

fun checked_run :: "'p build \<Rightarrow> sketch_event list \<Rightarrow> 'p sketch \<Rightarrow> ('p sketch \<times> sk_out list) option" where
  "checked_run b [] s = Some (s, [])"
| "checked_run b (ev # evs) s =
     (case checked_step b ev s of
        None \<Rightarrow> None
      | Some (s1, o1) \<Rightarrow> map_option (apsnd (\<lambda>o2. o1 @ o2)) (checked_run b evs s1))"

end
