(* ===== verification/FW_Sketch_Proofs.thy ===== *)
theory FW_Sketch_Proofs
  imports FW_Sketch FW_App_Proofs FW_AtCommands_Proofs
begin

text \<open>
  The whole device. What the components guarantee over their own histories is carried over to the
  histories of \<open>loop\<close>: the TCP server is driven as \<open>tcp_run\<close> drives it, and every invariant of the
  application (locale \<open>app_invariant\<close>) is one of the device. On top of that: who gets the frames of
  the bus, where a new token takes effect, and what the button at start does.
\<close>

section \<open>Stages\<close>

lemma and_then_restarted [simp]: "sk_restarted (fst r) \<Longrightarrow> and_then f r = r"
  by (simp add: and_then_def)

lemma and_then_running: "\<not> sk_restarted (fst r) \<Longrightarrow>
    and_then f r = (fst (f (fst r)), snd r @ snd (f (fst r)))"
  by (simp add: and_then_def split_beta)

text \<open>The part of the state that decides who may listen, and what never changes in a run.\<close>

definition net :: "'p sketch \<Rightarrow> tcp_mgr \<times> string \<times> framer \<times> owned_part set" where
  "net s = (sk_tcp s, sk_authToken s, sk_framer s, sk_parts s)"

lemma net_and_then: "(\<And>s. net (fst (f s)) = net s) \<Longrightarrow> net (fst (and_then f r)) = net (fst r)"
  by (simp add: and_then_def split_beta)

lemma net_command: "net (fst (sketch_command h b cmd s)) = net s"
  by (simp add: sketch_command_def with_device_def net_def split_beta)

lemma net_serial: "net (fst (serial_line b ms l s)) = net s"
  unfolding serial_line_def by (subst net_and_then, simp add: net_def, rule net_command)

lemma net_serial_lines: "net (fst (serial_lines b ms i ls r)) = net (fst r)"
  by (induction ls arbitrary: i r) (simp_all add: net_and_then[OF net_serial])

lemma net_drain: "net (fst (drainSerialATCommands b ms input s)) = net (s\<lparr>sk_framer := fst (drain (sk_framer s) input)\<rparr>)"
  by (simp add: drainSerialATCommands_def split_beta net_serial_lines)

lemma net_heartbeat: "net (fst (sketch_heartbeat b e s)) = net s"
  by (simp add: sketch_heartbeat_def net_def split_beta Let_def)

lemma net_callback: "net (fst (host_callback b de x s)) = net s"
  by (cases x) (simp_all add: net_command, simp_all add: net_def sketch_hub_def split_beta)

lemma net_callbacks: "net (fst (host_callbacks b de xs r)) = net (fst r)"
  by (induction xs arbitrary: r) (simp_all add: net_and_then net_callback split_beta)

lemma net_update: "sketch_update b e s = Some r \<Longrightarrow> net (fst r) = net s"
  by (auto simp: sketch_update_def net_def split: option.splits)

lemma net_ota: "net (fst (otaLoop xs r)) = net (fst r)"
proof (induction xs arbitrary: r)
  case (Cons x xs)
  have "net (fst (ota_request_step x s)) = net s" for s :: "'a sketch"
    by (cases x) (simp_all add: net_def split_beta Let_def)
  then show ?case by (simp add: Cons.IH net_and_then)
qed simp

lemma net_frames: "net (fst (sketch_frames e s)) = net s"
  by (simp add: sketch_frames_def net_def split_beta Let_def)

lemma net_restart: "net (fst (restartTcpServerIfNeeded e s)) = net s"
  by (simp add: restartTcpServerIfNeeded_def net_def Let_def)

section \<open>The TCP server of the device\<close>

lemma sketch_cycle_net:
  "net (fst (sketch_cycle b e s)) = net (s\<lparr>sk_tcp := fst (cycle (sk_tcp s) (sketch_tick (sk_authToken s) e))\<rparr>)"
  by (simp add: sketch_cycle_def split_beta net_callbacks)

text \<open>The state in which the turn calls \<open>cycle\<close>.\<close>

definition before_cycle :: "'p build \<Rightarrow> turn_env \<Rightarrow> 'p sketch \<Rightarrow> 'p sketch \<times> sk_out list" where
  "before_cycle b e s =
     and_then (sketch_heartbeat b e) (drainSerialATCommands b (te_lineMs e) (te_serial e) s)"

lemma before_cycle_net: "net (fst (before_cycle b e s)) = net (s\<lparr>sk_framer := fst (drain (sk_framer s) (te_serial e))\<rparr>)"
  by (simp add: before_cycle_def net_and_then net_heartbeat net_drain)

text \<open>A turn that runs to its end, stage by stage.\<close>

lemma loop_stages:
  assumes "sketch_loop b e s = Some (s1, out)" "\<not> sk_restarted s1"
  obtains s2 o2 s3 o3 s4 o4 s5 o5 where
    "before_cycle b e s = (s2, o2)" "\<not> sk_restarted s2"
    "sketch_cycle b e s2 = (s3, o3)" "\<not> sk_restarted s3"
    "sketch_update b e s3 = Some (s4, o4)" "\<not> sk_restarted s4"
    "otaLoop (te_ota e) (fst (restartTcpServerIfNeeded e s4),
        o2 @ o3 @ o4 @ snd (restartTcpServerIfNeeded e s4)) = (s5, o5)"
    "\<not> sk_restarted s5" "sketch_frames e s5 = (s1, drop (length o5) out)"
    "out = o5 @ drop (length o5) out"
proof -
  define r0 where "r0 = before_cycle b e s"
  define r where "r = and_then (sketch_cycle b e) r0"
  have nr: "\<not> sk_restarted (fst r)"
    using assms by (auto simp: sketch_loop_def before_cycle_def r_def r0_def Let_def)
  then have n0: "\<not> sk_restarted (fst r0)" by (auto simp: r_def and_then_def)
  obtain s4 o4 where u: "sketch_update b e (fst r) = Some (s4, o4)"
    using assms(1) nr by (auto simp: sketch_loop_def before_cycle_def r_def r0_def Let_def split: option.splits)
  have same: "sk_restarted s4 = sk_restarted (fst r)"
    using u by (auto simp: sketch_update_def split: option.splits)
  have r: "r = (fst (sketch_cycle b e (fst r0)), snd r0 @ snd (sketch_cycle b e (fst r0)))"
    using n0 by (simp add: r_def and_then_running)
  define q where "q = otaLoop (te_ota e) (fst (restartTcpServerIfNeeded e s4),
    snd r @ o4 @ snd (restartTcpServerIfNeeded e s4))"
  have fin: "(s1, out) = and_then (sketch_frames e) q"
    using assms(1) nr u same
    by (simp add: sketch_loop_def before_cycle_def r_def r0_def Let_def q_def and_then_running)
  have nq: "\<not> sk_restarted (fst q)" using fin assms(2) by (auto simp: and_then_def split: if_splits)
  show ?thesis
  proof (rule that)
    show "before_cycle b e s = (fst r0, snd r0)" by (simp add: r0_def)
    show "sketch_cycle b e (fst r0) = (fst r, snd (sketch_cycle b e (fst r0)))" by (subst r) simp
    show "otaLoop (te_ota e) (fst (restartTcpServerIfNeeded e s4),
        snd r0 @ snd (sketch_cycle b e (fst r0)) @ o4 @ snd (restartTcpServerIfNeeded e s4)) = (fst q, snd q)"
      unfolding q_def by (simp add: r)
  qed (use n0 nr u same nq fin in \<open>auto simp: and_then_running\<close>)
qed


lemma loop_net:
  assumes "sketch_loop b e s = Some (s1, out)" "\<not> sk_restarted s1"
  shows "sk_tcp s1 = fst (cycle (sk_tcp s) (sketch_tick (sk_authToken s) e))"
    and "sk_authToken s1 = sk_authToken s"
    and "sk_framer s1 = fst (drain (sk_framer s) (te_serial e))"
proof -
  from assms obtain s2 o2 s3 o3 s4 o4 s5 o5 where st:
    "before_cycle b e s = (s2, o2)" "sketch_cycle b e s2 = (s3, o3)"
    "sketch_update b e s3 = Some (s4, o4)"
    "otaLoop (te_ota e) (fst (restartTcpServerIfNeeded e s4),
        o2 @ o3 @ o4 @ snd (restartTcpServerIfNeeded e s4)) = (s5, o5)"
    "sketch_frames e s5 = (s1, drop (length o5) out)"
    by (rule loop_stages)
  have "net s1 = net s5" using net_frames[of e s5] st(5) by simp
  also have "\<dots> = net s3"
    using net_ota[of "te_ota e" "(fst (restartTcpServerIfNeeded e s4),
        o2 @ o3 @ o4 @ snd (restartTcpServerIfNeeded e s4))"] st(4) net_update[OF st(3)]
    by (simp add: net_restart)
  also have "\<dots> = net (s2\<lparr>sk_tcp := fst (cycle (sk_tcp s2) (sketch_tick (sk_authToken s2) e))\<rparr>)"
    using sketch_cycle_net[of b e s2] st(2) by simp
  finally show "sk_tcp s1 = fst (cycle (sk_tcp s) (sketch_tick (sk_authToken s) e))"
    "sk_authToken s1 = sk_authToken s" "sk_framer s1 = fst (drain (sk_framer s) (te_serial e))"
    using before_cycle_net[of b e s] st(1) by (simp_all add: net_def)
qed

fun ticks :: "string \<Rightarrow> sketch_event list \<Rightarrow> tcp_tick list" where
  "ticks tok [] = []"
| "ticks tok (Turn e # evs) = sketch_tick tok e # ticks tok evs"
| "ticks tok (WifiLost r bssid rssi # evs) = ticks tok evs"

section \<open>The monitor\<close>

text \<open>
  Frames go to the network while the monitor is on. It is switched by the server, when it lets a client
  in or loses one, and by commands; the console's commands are not authenticated.
\<close>

abbreviation mon :: "'p sketch \<Rightarrow> bool" where
  "mon s \<equiv> monitorActive (a_can (sk_app s))"

definition asks_monitor :: "string \<Rightarrow> bool" where
  "asks_monitor cmd \<longleftrightarrow> find_handler (normalizeAtCommand cmd) = Some AtmaCommandHandler"

definition types_monitor :: "framer \<Rightarrow> string \<Rightarrow> bool" where
  "types_monitor fr input \<longleftrightarrow> list_ex (\<lambda>l. asks_monitor (c_str l)) (snd (drain fr input))"

lemmas can_ops = can_setMonitorActive_def setSerialQuietUntilMs_def processFrames_def

lemma app_update_keeps:
  "app_update w p dev sign ev now a = Some (a', out) \<Longrightarrow>
   a_initialized a' = a_initialized a \<and> a_can a' = a_can a"
  by (auto simp: app_update_def app_wifi_def app_observe_def broadcast_event_def Let_def split_beta
      split: if_splits)

lemma sketch_update_can: "sketch_update b e s = Some (s1, out) \<Longrightarrow> a_can (sk_app s1) = a_can (sk_app s)"
  by (auto simp: sketch_update_def dest: app_update_keeps split: option.splits)

lemma ota_app:
  "sk_app (fst (otaLoop xs r)) = sk_app (fst r) \<and> sk_ledPattern (fst (otaLoop xs r)) = sk_ledPattern (fst r)"
proof (induction xs arbitrary: r)
  case (Cons x xs)
  have "sk_app (fst (ota_request_step x s)) = sk_app s \<and>
    sk_ledPattern (fst (ota_request_step x s)) = sk_ledPattern s" for s :: "'a sketch"
    by (cases x) (simp_all add: split_beta Let_def)
  then show ?case using Cons.IH by (simp add: and_then_def split_beta)
qed simp

text \<open>Whether the command was typed on the console since the last connection was accepted.\<close>

fun typed_since :: "framer \<Rightarrow> bool \<Rightarrow> sketch_event list \<Rightarrow> bool" where
  "typed_since fr ty [] = ty"
| "typed_since fr ty (Turn e # evs) =
     typed_since (fst (drain fr (te_serial e)))
       (te_accept e = None \<and> (ty \<or> types_monitor fr (te_serial e))) evs"
| "typed_since fr ty (WifiLost r bssid rssi # evs) = typed_since fr ty evs"

lemma command_monitor:
  "d_monitor (snd (handleSerialCommand (device_host w) dev ver cmd d)) \<Longrightarrow> d_monitor d \<or> asks_monitor cmd"
proof -
  have "d_monitor (snd (at_execute (device_host w) dev ver k cmd d)) \<Longrightarrow> d_monitor d" if "k \<noteq> AtmaCommandHandler" for k
    using that by (cases k) (auto simp: device_host_def setwifi_execute_def settoken_execute_def Let_def split_beta
      split: if_splits option.splits)
  then show "d_monitor (snd (handleSerialCommand (device_host w) dev ver cmd d)) \<Longrightarrow> d_monitor d \<or> asks_monitor cmd"
    unfolding handleSerialCommand_def handleCommand_def asks_monitor_def
    by (cases "find_handler (normalizeAtCommand cmd)") (auto simp: Let_def split_beta)
qed

lemma mon_then:
  "(\<And>s. mon (fst (f s)) \<Longrightarrow> mon s \<or> P) \<Longrightarrow> mon (fst (and_then f r)) \<Longrightarrow> mon (fst r) \<or> P"
  by (auto simp: and_then_def split_beta split: if_splits)

lemma mon_serial: "mon (fst (serial_line b ms l s)) \<Longrightarrow> mon s \<or> asks_monitor (c_str l)"
proof -
  have "mon (fst (sketch_command handleSerialCommand b (c_str l) s)) \<Longrightarrow> mon s \<or> asks_monitor (c_str l)"
    using command_monitor[of "sk_cfg b" "sk_deviceId s" "b_version b" "c_str l" "sketch_device s"]
    by (auto simp: sketch_command_def with_device_def split_beta sketch_device_def app_setMonitorActive_def
        can_setMonitorActive_def)
  then show "mon (fst (serial_line b ms l s)) \<Longrightarrow> mon s \<or> asks_monitor (c_str l)"
    by (auto simp: serial_line_def and_then_def split_beta can_ops split: if_splits)
qed

lemma mon_lines:
  "mon (fst (serial_lines b ms i ls r)) \<Longrightarrow> mon (fst r) \<or> list_ex (\<lambda>l. asks_monitor (c_str l)) ls"
proof (induction ls arbitrary: i r)
  case (Cons l ls)
  then have "mon (fst (and_then (serial_line b (ms i) l) r)) \<or> list_ex (\<lambda>l. asks_monitor (c_str l)) ls" by simp
  then show ?case using mon_then[where f = "serial_line b (ms i) l", OF mon_serial, where r = r] by auto
qed simp

lemma mon_before: "mon (fst (before_cycle b e s)) \<Longrightarrow> mon s \<or> types_monitor (sk_framer s) (te_serial e)"
proof -
  assume "mon (fst (before_cycle b e s))"
  then have "mon (fst (drainSerialATCommands b (te_lineMs e) (te_serial e) s))"
    by (auto simp: before_cycle_def and_then_def sketch_heartbeat_def split_beta Let_def split: if_splits)
  then show ?thesis
    using mon_lines by (fastforce simp: drainSerialATCommands_def types_monitor_def split_beta)
qed

text \<open>Calls of the server that can switch the monitor on.\<close>

fun loud :: "tcp_out \<Rightarrow> bool" where
  "loud (MonitorActive a) = a"
| "loud (HandleTcpAtCommand cmd) = True"
| "loud _ = False"

lemma mon_quiet: "\<not> list_ex loud xs \<Longrightarrow> mon (fst (host_callbacks b de xs r)) \<Longrightarrow> mon (fst r)"
proof (induction xs arbitrary: r)
  case (Cons x xs)
  let ?r = "and_then (\<lambda>s. let (s1, o1) = host_callback b de x s in (s1, TcpCall x # o1)) r"
  have x: "mon (fst (host_callback b de x s)) \<Longrightarrow> mon s" for s
    using Cons.prems(1) by (cases x) (auto simp: app_setMonitorActive_def can_setMonitorActive_def
      sketch_hub_def app_hub_def app_resetDiscoveryBackoff_def split_beta)
  have "mon (fst ?r)" by (rule Cons.IH) (use Cons.prems in simp_all)
  then show ?case using x[of "fst r"] by (cases "sk_restarted (fst r)") (simp_all add: and_then_running split_beta)
qed simp

lemma mon_off:
  "\<not> list_ex loud xs \<Longrightarrow> MonitorActive False \<in> set xs \<Longrightarrow> \<not> sk_restarted (fst (host_callbacks b de xs r)) \<Longrightarrow>
   \<not> mon (fst (host_callbacks b de xs r))"
proof (induction xs arbitrary: r)
  case (Cons x xs)
  let ?r = "and_then (\<lambda>s. let (s1, o1) = host_callback b de x s in (s1, TcpCall x # o1)) r"
  show ?case
  proof (cases "x = MonitorActive False")
    case True
    have "\<not> sk_restarted (fst r)"
    proof
      assume R: "sk_restarted (fst r)"
      have "host_callbacks b de ys r = r" for ys using R by (induction ys) simp_all
      then show False using Cons.prems(3) R by metis
    qed
    then have "\<not> mon (fst ?r)"
      by (simp add: and_then_running True app_setMonitorActive_def can_setMonitorActive_def)
    then show ?thesis using mon_quiet[of xs b de ?r] Cons.prems(1) by auto
  next
    case False
    then show ?thesis using Cons.IH[of ?r] Cons.prems by auto
  qed
qed simp

text \<open>
  What the server and the monitor owe to whom: a client that is held presented the token, and while the monitor
  is on there is such a client, or the console asked for it.
\<close>

definition heard :: "bool \<Rightarrow> bool \<Rightarrow> 'p sketch \<Rightarrow> bool" where
  "heard v ty s \<longleftrightarrow> (hasClient (sk_tcp s) \<longrightarrow> v) \<and> (mon s \<longrightarrow> hasClient (sk_tcp s) \<or> ty)"

lemma cycle_monitor:
  assumes "sketch_cycle b e s = (s1, out)" "\<not> sk_restarted s1" "mon s \<longrightarrow> hasClient (sk_tcp s) \<or> ty"
  shows "mon s1 \<longrightarrow> hasClient (sk_tcp s1) \<or> (te_accept e = None \<and> ty)"
proof (cases "hasClient (sk_tcp s1)")
  case False
  let ?c = "cycle (sk_tcp s) (sketch_tick (sk_authToken s) e)"
  have h: "\<not> hasClient (fst ?c)" using False assms(1) sketch_cycle_net[of b e s] by (simp add: net_def)
  have s1: "s1 = fst (host_callbacks b (ev_disc (te_app e)) (snd ?c) (s\<lparr>sk_tcp := fst ?c\<rparr>, []))"
    using assms(1) by (simp add: sketch_cycle_def split_beta)
  show ?thesis
  proof (cases "te_accept e = None \<and> \<not> hasClient (sk_tcp s)")
    case True
    then have "snd ?c = []" by (simp add: cycle_def sketch_tick_def tcp_cleanup_def)
    then show ?thesis using s1 True assms(3) by simp
  next
    case False
    then have "\<not> list_ex loud (snd ?c)" "MonitorActive False \<in> set (snd ?c)"
      using h by (auto simp: cycle_def sketch_tick_def tcp_accept_def tcp_cleanup_def tcp_read_def Let_def split_beta
          split: option.splits if_splits)
    then show ?thesis using mon_off s1 assms(2) by metis
  qed
qed simp

lemma loop_heard:
  assumes "heard v ty s" and run: "sketch_loop b e s = Some (s1, out)" "\<not> sk_restarted s1"
  shows "heard (last_accept_valid [sketch_tick (sk_authToken s) e] v)
    (te_accept e = None \<and> (ty \<or> types_monitor (sk_framer s) (te_serial e))) s1"
proof -
  from run obtain s2 o2 s3 o3 s4 o4 s5 o5 where st:
    "before_cycle b e s = (s2, o2)" "sketch_cycle b e s2 = (s3, o3)" "\<not> sk_restarted s3"
    "sketch_update b e s3 = Some (s4, o4)"
    "otaLoop (te_ota e) (fst (restartTcpServerIfNeeded e s4),
        o2 @ o3 @ o4 @ snd (restartTcpServerIfNeeded e s4)) = (s5, o5)"
    "sketch_frames e s5 = (s1, drop (length o5) out)"
    by (rule loop_stages)
  have t2: "sk_tcp s2 = sk_tcp s" using before_cycle_net[of b e s] st(1) by (simp add: net_def)
  have "mon s2 \<longrightarrow> hasClient (sk_tcp s2) \<or> (ty \<or> types_monitor (sk_framer s) (te_serial e))"
    using mon_before[of b e s] st(1) assms(1) t2 by (auto simp: heard_def)
  note c = cycle_monitor[OF st(2,3) this]
  have "mon s1 = mon s3"
    using sketch_update_can[OF st(4)] ota_app[of "te_ota e" "(fst (restartTcpServerIfNeeded e s4),
        o2 @ o3 @ o4 @ snd (restartTcpServerIfNeeded e s4))"] st(5,6)
    by (auto simp: restartTcpServerIfNeeded_def clear_restart_def sketch_frames_def processFrames_def Let_def
        split: if_splits)
  moreover have "sk_tcp s1 = sk_tcp s3"
    using loop_net(1)[OF run] t2 sketch_cycle_net[of b e s2] st(1,2) before_cycle_net[of b e s]
    by (simp add: net_def)
  moreover have "hasClient (sk_tcp s1) \<longrightarrow> last_accept_valid [sketch_tick (sk_authToken s) e] v"
    using cycle_auth[of "sk_tcp s" v "sketch_tick (sk_authToken s) e"] assms(1) loop_net(1)[OF run]
    by (simp add: heard_def split: option.splits prod.splits)
  ultimately show ?thesis using c by (simp add: heard_def)
qed

lemma step_running: "sketch_step b ev s = Some (s1, out) \<Longrightarrow> \<not> sk_restarted s1 \<Longrightarrow> \<not> sk_restarted s"
  by (auto simp: sketch_step_def)

lemma run_running: "sketch_run b evs s = Some (s1, out) \<Longrightarrow> \<not> sk_restarted s1 \<Longrightarrow> \<not> sk_restarted s"
  by (induction evs arbitrary: s out) (auto split: option.splits dest: step_running)

lemma run_snoc:
  "sketch_run b evs s = Some (s1, o1) \<Longrightarrow> sketch_step b ev s1 = Some (s2, o2) \<Longrightarrow>
   sketch_run b (evs @ [ev]) s = Some (s2, o1 @ o2)"
  by (induction evs arbitrary: s o1) (auto split: option.splits)

lemma run_heard:
  assumes "sketch_run b evs s = Some (s1, out)" "\<not> sk_restarted s1" "heard v ty s"
  shows "heard (last_accept_valid (ticks (sk_authToken s) evs) v) (typed_since (sk_framer s) ty evs) s1"
  using assms
proof (induction evs arbitrary: s v ty out)
  case (Cons ev evs)
  from Cons.prems(1) obtain s2 o2 o3 where
    st: "sketch_step b ev s = Some (s2, o2)" "sketch_run b evs s2 = Some (s1, o3)"
    by (auto split: option.splits)
  have run: "\<not> sk_restarted s2" "\<not> sk_restarted s"
    using run_running[OF st(2) Cons.prems(2)] step_running[OF st(1)] by simp_all
  show ?case
  proof (cases ev)
    case (Turn e)
    then have l: "sketch_loop b e s = Some (s2, o2)" using st(1) run by (simp add: sketch_step_def)
    from Cons.IH[OF st(2) Cons.prems(2) loop_heard[OF Cons.prems(3) l run(1)]] loop_net(2,3)[OF l run(1)]
    show ?thesis by (simp add: Turn split_beta split: option.splits)
  next
    case (WifiLost r bssid rssi)
    have q: "sk_tcp s2 = sk_tcp s" "sk_authToken s2 = sk_authToken s" "sk_framer s2 = sk_framer s" "mon s2 = mon s"
      using st(1) run(2) by (auto simp: WifiLost sketch_step_def onWiFiDisconnected_def Let_def split_beta)
    then have "heard v ty s2" using Cons.prems(3) by (simp add: heard_def)
    from Cons.IH[OF st(2) Cons.prems(2) this] q show ?thesis by (simp add: WifiLost)
  qed
qed simp

lemma all_parts:
  "{WifiManagerPart, CanBridgePart, LedPolicyPart, DiscoveryPolicyPart, RestartPolicyPart} = UNIV - {AtDispatcherPart}"
proof -
  have "x \<in> {WifiManagerPart, CanBridgePart, LedPolicyPart, DiscoveryPolicyPart, RestartPolicyPart, AtDispatcherPart}" for x
    by (cases x) simp_all
  then show ?thesis by blast
qed

lemma setup_state:
  assumes "sketch_setup b be p = Some (Inr (s, out))"
  shows "sk_tcp s = tcp_init" "sk_framer s = \<lparr>maxLen = MAX_SERIAL_CMD_LENGTH, buffer = []\<rparr>" "\<not> sk_restarted s"
    "sk_parts s = UNIV"
proof -
  have r: "setup_reset b be s1 = Some (s2, o2) \<Longrightarrow> sk_tcp s2 = sk_tcp s1 \<and> sk_framer s2 = sk_framer s1 \<and>
      sk_restarted s2 = sk_restarted s1 \<and> sk_parts s2 = sk_parts s1" for s1 s2 :: "'a sketch" and o2
    by (auto simp: setup_reset_def Let_def split_beta split: option.splits if_splits)
  obtain s2 o2 where s2: "setup_reset b be (sketch_new be p) = Some (s2, o2)"
    using assms by (auto simp: sketch_setup_def split: option.splits)
  have v: "sk_tcp (fst (setup_services be x)) = sk_tcp x" "sk_framer (fst (setup_services be x)) = sk_framer x"
    "sk_restarted (fst (setup_services be x)) = sk_restarted x"
    "sk_parts (fst (setup_services be x)) = insert AtDispatcherPart (sk_parts x)" for x :: "'a sketch"
    by (simp_all add: setup_services_def setAtCommandAdapters_def Let_def)
  have t: "sk_tcp (setup_token b x) = sk_tcp x" "sk_framer (setup_token b x) = sk_framer x"
    "sk_restarted (setup_token b x) = sk_restarted x" "sk_parts (setup_token b x) = sk_parts x" for x
    by (simp_all add: setup_token_def split_beta)
  have n: "sk_tcp (sketch_new be p) = tcp_init" "\<not> sk_restarted (sketch_new be p)"
    "sk_framer (sketch_new be p) = \<lparr>maxLen = MAX_SERIAL_CMD_LENGTH, buffer = []\<rparr>"
    "sk_parts (sketch_new be p) = UNIV - {AtDispatcherPart}"
    using all_parts by (simp_all add: sketch_new_def)
  have "\<exists>a. s = fst (setup_services be ((setup_token b s2)\<lparr>sk_app := a\<rparr>))"
    using assms s2 by (auto simp: sketch_setup_def Let_def split_beta split: option.splits if_splits)
  then show "sk_tcp s = tcp_init" "sk_framer s = \<lparr>maxLen = MAX_SERIAL_CMD_LENGTH, buffer = []\<rparr>" "\<not> sk_restarted s"
    "sk_parts s = UNIV"
    using r[OF s2] v t n all_parts by auto
qed

section \<open>Who gets the frames\<close>

definition can_calls :: "sk_out list \<Rightarrow> can_out list" where
  "can_calls out = List.map_filter (\<lambda>x. case x of CanCall c \<Rightarrow> Some c | _ \<Rightarrow> None) out"

lemma can_calls_simps [simp]:
  "can_calls [] = []" "can_calls (xs @ ys) = can_calls xs @ can_calls ys"
  "can_calls (CanCall c # xs) = c # can_calls xs"
  "can_calls (map AtCall as) = []" "can_calls (map TcpCall ts) = []" "can_calls (map AppCall aps) = []"
  "can_calls (map OtaCall os) = []" "can_calls (map CanCall cs) = cs"
  by (simp_all add: can_calls_def List.map_filter_def comp_def)

lemma can_calls_other [simp]:
  "can_calls (TcpCall t # xs) = can_calls xs" "can_calls (SerialText l # xs) = can_calls xs"
  "can_calls (SdkRestart # xs) = can_calls xs" "can_calls (TcpServerBegin # xs) = can_calls xs"
  "can_calls (TcpServerEnd # xs) = can_calls xs" "can_calls (GlobalClientStop # xs) = can_calls xs"
  by (simp_all add: can_calls_def List.map_filter_def)

lemma no_can_then: "(\<And>s. can_calls (snd (f s)) = []) \<Longrightarrow> can_calls (snd (and_then f r)) = can_calls (snd r)"
  by (simp add: and_then_def split_beta)

lemma no_can_command: "can_calls (snd (sketch_command h b cmd s)) = []"
  by (simp add: sketch_command_def split_beta)

lemma no_can_lines: "can_calls (snd (serial_lines b ms i ls r)) = can_calls (snd r)"
proof (induction ls arbitrary: i r)
  case (Cons l ls)
  have "can_calls (snd (serial_line b ms l s)) = []" for ms s
    unfolding serial_line_def by (simp add: no_can_then no_can_command)
  then show ?case by (simp add: Cons.IH no_can_then)
qed simp

lemma no_can_callbacks: "can_calls (snd (host_callbacks b de xs r)) = can_calls (snd r)"
proof (induction xs arbitrary: r)
  case (Cons x xs)
  have "can_calls (snd (host_callback b de x s)) = []" for s
    by (cases x) (simp_all add: no_can_command sketch_hub_def split_beta)
  then show ?case by (simp add: Cons.IH no_can_then split_beta)
qed simp

lemma no_can_ota: "can_calls (snd (otaLoop xs r)) = can_calls (snd r)"
proof (induction xs arbitrary: r)
  case (Cons x xs)
  have "can_calls (snd (ota_request_step x s)) = []" for s :: "'a sketch"
    by (cases x) (simp_all add: split_beta Let_def)
  then show ?case by (simp add: Cons.IH no_can_then)
qed simp

lemma no_can_before: "can_calls (snd (before_cycle b e s)) = []"
  by (simp add: before_cycle_def no_can_then sketch_heartbeat_def drainSerialATCommands_def no_can_lines
      split_beta Let_def)

lemma no_can_stage:
  "can_calls (snd (sketch_cycle b e s)) = []"
  "can_calls (snd (restartTcpServerIfNeeded e s)) = []"
  "sketch_update b e s = Some r \<Longrightarrow> can_calls (snd r) = []"
  by (auto simp: sketch_cycle_def split_beta no_can_callbacks restartTcpServerIfNeeded_def sketch_update_def
      Let_def split: option.splits)

lemma frames_only_last:
  assumes "sketch_loop b e s = Some (s1, out)" "CanTcpPrint t \<in> set (can_calls out)"
  shows "\<not> sk_restarted s1 \<and> te_canLive e \<and> mon s1"
proof -
  have f: "te_canLive e \<and> mon (fst (sketch_frames e s'))" if "CanTcpPrint t \<in> set (can_calls (snd (sketch_frames e s')))" for s' :: "'a sketch"
    using that by (auto simp: sketch_frames_def processFrames_def frame_outputs_def Let_def split: if_splits)
  have flag: "sk_restarted (fst (sketch_frames e s')) = sk_restarted s'" for s' :: "'a sketch"
    by (simp add: sketch_frames_def split_beta Let_def)
  let ?r = "and_then (sketch_cycle b e) (before_cycle b e s)"
  have z: "can_calls (snd ?r) = []" by (simp add: no_can_then no_can_stage no_can_before)
  have nr: "\<not> sk_restarted (fst ?r)"
  proof
    assume "sk_restarted (fst ?r)"
    then have "?r = (s1, out)" using assms(1) by (simp add: sketch_loop_def before_cycle_def[symmetric] Let_def)
    then show False using z assms(2) by simp
  qed
  then obtain s4 o4 where u4: "sketch_update b e (fst ?r) = Some (s4, o4)"
    using assms(1) by (auto simp: sketch_loop_def before_cycle_def[symmetric] Let_def split: option.splits)
  let ?q = "otaLoop (te_ota e) (and_then (restartTcpServerIfNeeded e) (s4, snd ?r @ o4))"
  have q: "can_calls (snd ?q) = []"
    using no_can_stage(3)[OF u4] by (simp add: no_can_ota no_can_then no_can_stage z)
  obtain s5 o5 where s5: "?q = (s5, o5)" by force
  then have z5: "can_calls o5 = []" using q by simp
  have fin: "and_then (sketch_frames e) (s5, o5) = (s1, out)"
    using assms(1) nr u4 by (simp add: sketch_loop_def before_cycle_def[symmetric] Let_def s5)
  have n5: "\<not> sk_restarted s5"
    using fin assms(2) z5 by (auto simp: and_then_def)
  then have "s1 = fst (sketch_frames e s5)" "out = o5 @ snd (sketch_frames e s5)"
    using fin by (simp_all add: and_then_running)
  then show ?thesis using assms(2) z5 f[of s5] flag[of s5] n5 by simp
qed

section \<open>Invariants of the application\<close>

definition app_calls :: "sk_out list \<Rightarrow> app_out list" where
  "app_calls out = List.map_filter (\<lambda>x. case x of AppCall c \<Rightarrow> Some c | _ \<Rightarrow> None) out"

lemma app_calls_simps [simp]:
  "app_calls [] = []" "app_calls (xs @ ys) = app_calls xs @ app_calls ys"
  "app_calls (AppCall c # xs) = c # app_calls xs"
  "app_calls (map AtCall as) = []" "app_calls (map TcpCall ts) = []" "app_calls (map AppCall aps) = aps"
  "app_calls (map OtaCall os) = []" "app_calls (map CanCall cs) = []"
  "app_calls (map LedInitCall ls) = []" "app_calls (map ResetCall rs) = []"
  "app_calls (map (\<lambda>(m, err). TwaiLog m err) ms) = []"
  by (simp_all add: app_calls_def List.map_filter_def comp_def split_beta)

lemma app_calls_other [simp]:
  "app_calls (TcpCall t # xs) = app_calls xs" "app_calls (SerialText l # xs) = app_calls xs"
  "app_calls (SdkRestart # xs) = app_calls xs" "app_calls (TcpServerBegin # xs) = app_calls xs"
  "app_calls (TcpServerEnd # xs) = app_calls xs" "app_calls (GlobalClientStop # xs) = app_calls xs"
  "app_calls (WifiSleepOff # xs) = app_calls xs" "app_calls (MarkAppValid # xs) = app_calls xs"
  by (simp_all add: app_calls_def List.map_filter_def)

text \<open>
  What the rest of the device does to the application outside \<open>update\<close>: a predicate on the application
  and the calls it has made so far that these operations keep.
\<close>

locale app_part =
  fixes J :: "fw_app \<times> app_out list \<Rightarrow> bool"
  assumes part_can: "J (a, log) \<Longrightarrow> initialized c = initialized (a_can a) \<Longrightarrow> J (a\<lparr>a_can := c\<rparr>, log)"
    and part_connected: "J (a, log) \<Longrightarrow>
      J (fst (app_hub (hub_clientConnected ip) a), log @ snd (app_hub (hub_clientConnected ip) a))"
    and part_refused: "J (a, log) \<Longrightarrow>
      J (fst (app_hub (hub_authFailed ip) a), log @ snd (app_hub (hub_authFailed ip) a))"
    and part_disconnected: "J (a, log) \<Longrightarrow>
      J (fst (app_hub (hub_clientDisconnected ip r) a), log @ snd (app_hub (hub_clientDisconnected ip r) a))"
    and part_backoff: "J (a, log) \<Longrightarrow> J (app_resetDiscoveryBackoff de a, log)"
begin

definition holds :: "app_out list \<Rightarrow> 'p sketch \<times> sk_out list \<Rightarrow> bool" where
  "holds log r \<longleftrightarrow> J (sk_app (fst r), log @ app_calls (snd r))"

lemma holds_then:
  assumes "\<And>s log. holds log (s, []) \<Longrightarrow> holds log (f s)" "holds log r"
  shows "holds log (and_then f r)"
  using assms(1)[of "log @ app_calls (snd r)" "fst r"] assms(2)
  by (simp add: and_then_def holds_def split_beta)

lemma holds_command: "holds log (s, []) \<Longrightarrow> holds log (sketch_command h b cmd s)"
  by (simp add: sketch_command_def with_device_def holds_def split_beta app_setMonitorActive_def part_can can_ops)

lemma holds_serial: "holds log (s, []) \<Longrightarrow> holds log (serial_line b ms l s)"
  unfolding serial_line_def
  by (rule holds_then) (simp add: holds_def part_can can_ops, rule holds_command)

lemma holds_lines: "holds log r \<Longrightarrow> holds log (serial_lines b ms i ls r)"
proof (induction ls arbitrary: i r)
  case (Cons l ls)
  have "holds log (and_then (serial_line b (ms i) l) r)" by (rule holds_then[OF holds_serial Cons.prems])
  then show ?case by (simp add: Cons.IH)
qed simp

lemma holds_drain: "holds log (s, []) \<Longrightarrow> holds log (drainSerialATCommands b ms input s)"
  by (simp add: drainSerialATCommands_def split_beta) (rule holds_lines, simp add: holds_def)

lemma holds_heartbeat: "holds log (s, []) \<Longrightarrow> holds log (sketch_heartbeat b e s)"
  by (simp add: sketch_heartbeat_def holds_def split_beta Let_def)

lemma holds_before: "holds log (s, []) \<Longrightarrow> holds log (before_cycle b e s)"
  unfolding before_cycle_def by (rule holds_then[OF holds_heartbeat holds_drain])

lemma holds_callback: "holds log (s, []) \<Longrightarrow> holds log (host_callback b de x s)"
  using part_connected part_refused part_disconnected part_backoff part_can
  by (cases x) (simp_all add: holds_command, simp_all add: holds_def sketch_hub_def split_beta
      app_setMonitorActive_def can_ops)

lemma holds_callbacks: "holds log r \<Longrightarrow> holds log (host_callbacks b de xs r)"
proof (induction xs arbitrary: r)
  case (Cons x xs)
  have "holds log (let (s1, o1) = host_callback b de x s in (s1, TcpCall x # o1))"
    if "holds log (s, [])" for log s
    using holds_callback[OF that, of b de x] by (simp add: holds_def split_beta)
  then have "holds log (and_then (\<lambda>s. let (s1, o1) = host_callback b de x s in (s1, TcpCall x # o1)) r)"
    by (rule holds_then[OF _ Cons.prems])
  then show ?case by (simp add: Cons.IH)
qed simp

lemma holds_cycle: "holds log (s, []) \<Longrightarrow> holds log (sketch_cycle b e s)"
  unfolding sketch_cycle_def Let_def split_beta by (rule holds_callbacks) (simp add: holds_def)

lemma holds_until_update:
  "holds log (s, []) \<Longrightarrow> holds log (and_then (sketch_cycle b e) (before_cycle b e s))"
  by (rule holds_then[OF holds_cycle holds_before])

lemma holds_ota: "holds log r \<Longrightarrow> holds log (otaLoop xs r)"
proof (induction xs arbitrary: r)
  case (Cons x xs)
  have "holds log (ota_request_step x s)" if "holds log (s, [])" for log s
    using that by (cases x) (simp_all add: holds_def split_beta Let_def)
  then have "holds log (and_then (ota_request_step x) r)" by (rule holds_then[OF _ Cons.prems])
  then show ?case by (simp add: Cons.IH)
qed simp

lemma holds_frames: "holds log (s, []) \<Longrightarrow> holds log (sketch_frames e s)"
  by (simp add: sketch_frames_def holds_def split_beta Let_def part_can can_ops)

end

text \<open>One that \<open>update\<close>, the drop of the link and the cleared flag keep as well is kept for ever.\<close>

locale app_invariant = app_part +
  fixes b :: "'p build"
  assumes inv_update: "J (a, log) \<Longrightarrow> app_update (sk_cfg b) p dev (b_sign b) ev now a = Some (a', out) \<Longrightarrow>
      J (a', log @ out)"
    and inv_drop: "J (a, log) \<Longrightarrow>
      J (fst (onWiFiDisconnected reason bssid rssi a), log @ snd (onWiFiDisconnected reason bssid rssi a))"
    and inv_clear: "J (a, log) \<Longrightarrow> J (clear_restart a, log)"
begin

lemma holds_update: "sketch_update b e s = Some r \<Longrightarrow> holds log (s, []) \<Longrightarrow> holds log r"
  by (auto simp: sketch_update_def holds_def intro: inv_update split: option.splits prod.splits)

lemma holds_restart: "holds log (s, []) \<Longrightarrow> holds log (restartTcpServerIfNeeded e s)"
  by (simp add: restartTcpServerIfNeeded_def holds_def Let_def inv_clear)

lemma holds_loop:
  assumes "sketch_loop b e s = Some r" "holds log (s, [])"
  shows "holds log r"
proof -
  have c: "holds log (and_then (sketch_cycle b e) (before_cycle b e s))" (is "holds log ?r")
    by (rule holds_until_update[OF assms(2)])
  show ?thesis
  proof (cases "sk_restarted (fst ?r)")
    case True
    then show ?thesis using assms(1) c by (simp add: sketch_loop_def before_cycle_def[symmetric] Let_def)
  next
    case False
    then obtain s1 o1 where u: "sketch_update b e (fst ?r) = Some (s1, o1)"
      using assms(1) by (auto simp: sketch_loop_def before_cycle_def[symmetric] Let_def split: option.splits)
    have "holds (log @ app_calls (snd ?r)) (s1, o1)"
      using holds_update[OF u, of "log @ app_calls (snd ?r)"] c by (simp add: holds_def)
    then have "holds log (s1, snd ?r @ o1)" by (simp add: holds_def)
    then have "holds log (and_then (restartTcpServerIfNeeded e) (s1, snd ?r @ o1))"
      by (intro holds_then[OF holds_restart])
    then have "holds log (and_then (sketch_frames e)
        (otaLoop (te_ota e) (and_then (restartTcpServerIfNeeded e) (s1, snd ?r @ o1))))"
      by (intro holds_then[OF holds_frames] holds_ota)
    then show ?thesis using assms(1) False u
      by (simp add: sketch_loop_def before_cycle_def[symmetric] Let_def)
  qed
qed

lemma holds_run:
  "sketch_run b evs s = Some (s1, out) \<Longrightarrow> J (sk_app s, log) \<Longrightarrow> J (sk_app s1, log @ app_calls out)"
proof (induction evs arbitrary: s log out)
  case (Cons ev evs)
  then obtain s2 o2 o3 where
    st: "sketch_step b ev s = Some (s2, o2)" "sketch_run b evs s2 = Some (s1, o3)" "out = o2 @ o3"
    by (auto split: option.splits)
  have "J (sk_app s2, log @ app_calls o2)"
  proof (cases "sk_restarted s")
    case True
    then show ?thesis using st(1) Cons.prems(2) by (auto simp: sketch_step_def)
  next
    case False
    show ?thesis
    proof (cases ev)
      case (Turn e)
      then have "sketch_loop b e s = Some (s2, o2)" using st(1) False by (simp add: sketch_step_def)
      from holds_loop[OF this, of log] Cons.prems(2) show ?thesis by (simp add: holds_def)
    next
      case (WifiLost r bssid rssi)
      then show ?thesis using st(1) False inv_drop[OF Cons.prems(2), of r bssid rssi]
        by (auto simp: sketch_step_def split: prod.splits)
    qed
  qed
  from Cons.IH[OF st(2) this] show ?case by (simp add: st(3))
qed simp

end


definition wifi_kept :: "fw_app \<times> app_out list \<Rightarrow> bool" where
  "wifi_kept x \<longleftrightarrow> wifi_inv (a_wifi (fst x))"

lemma app_update_wifi:
  "app_update w p dev sign ev now a = Some (a', out) \<Longrightarrow>
   a_wifi a' = fst (wifi_update w p (ev_radio ev) now (a_wifi a))"
  using broadcast_event_keeps(1)
  by (auto simp: app_update_def app_wifi_def app_observe_def Let_def split_beta split: if_splits)

interpretation wifi_dev: app_invariant wifi_kept b for b :: "'p build"
proof unfold_locales
  fix a log p dev ev now a' out reason bssid rssi
  assume a: "wifi_kept (a, log)"
  show "app_update (sk_cfg b) p dev (b_sign b) ev now a = Some (a', out) \<Longrightarrow> wifi_kept (a', log @ out)"
    using a by (simp add: wifi_kept_def app_update_wifi wifi_inv_update)
  show "wifi_kept (fst (onWiFiDisconnected reason bssid rssi a), log @ snd (onWiFiDisconnected reason bssid rssi a))"
    using a wifi_inv_dropped by (simp add: wifi_kept_def onWiFiDisconnected_def split_beta Let_def)
qed (simp_all add: wifi_kept_def app_hub_def app_resetDiscoveryBackoff_def clear_restart_def
    wifi_inv_def split_beta)

text \<open>The log of events stays sound, whatever the rest of the device does.\<close>

interpretation log_dev: app_invariant "log_sound False" b for b :: "'p build"
proof unfold_locales
  fix a log p dev ev now a' out reason bssid rssi ip r
  assume a: "log_sound False (a, log)"
  show "app_update (sk_cfg b) p dev (b_sign b) ev now a = Some (a', out) \<Longrightarrow> log_sound False (a', log @ out)"
    by (drule tick_is_sound[OF _ a]) simp
  show "log_sound False (fst (onWiFiDisconnected reason bssid rssi a),
      log @ snd (onWiFiDisconnected reason bssid rssi a))"
    using step_is_sound[OF a, of "sk_cfg b" p dev "b_sign b" "AppDrop reason bssid rssi"]
    by (simp add: split_beta)
  show "log_sound False (fst (app_hub (hub_clientConnected ip) a), log @ snd (app_hub (hub_clientConnected ip) a))"
    "log_sound False (fst (app_hub (hub_authFailed ip) a), log @ snd (app_hub (hub_authFailed ip) a))"
    "log_sound False (fst (app_hub (hub_clientDisconnected ip r) a),
      log @ snd (app_hub (hub_clientDisconnected ip r) a))"
    using a by (simp_all add: log_sound_def app_hub_def hub_clientConnected_def hub_authFailed_def
        hub_clientDisconnected_def hub_emit_def Let_def)
qed (simp_all add: log_sound_def app_resetDiscoveryBackoff_def clear_restart_def)

lemma setup_app:
  assumes "sketch_setup b be p = Some (Inr (s, out))"
  obtains q l a o1 where
    "app_init (sk_cfg b) q (bt_app be) ((sk_app (sketch_new be p))\<lparr>a_led := l\<rparr>) = Some (a, o1)"
    "sk_app s = app_resetDiscoveryBackoff (bt_disc be) (app_setDiscoveryEnabled True (app_setEventLogger a))"
    "app_calls out = o1" "sk_prefs s = q"
proof -
  obtain s1 o1 where r: "setup_reset b be (sketch_new be p) = Some (s1, o1)"
    using assms by (auto simp: sketch_setup_def split: option.splits)
  then have s1: "sk_app s1 = (sk_app (sketch_new be p))\<lparr>a_led := fst (led_init (a_led (sk_app (sketch_new be p))))\<rparr>"
    "app_calls o1 = []"
    by (auto simp: setup_reset_def Let_def split_beta split: option.splits)
  have s2: "sk_app (setup_token b s1) = sk_app s1" by (simp add: setup_token_def split_beta)
  obtain a o2 where i: "app_init (sk_cfg b) (sk_prefs (setup_token b s1)) (bt_app be) (sk_app s1) = Some (a, o2)"
    using assms by (auto simp: sketch_setup_def r Let_def s2 split: option.splits)
  have s: "sk_app s = app_resetDiscoveryBackoff (bt_disc be) (app_setDiscoveryEnabled True (app_setEventLogger a))"
    "app_calls out = o2" "sk_prefs s = sk_prefs (setup_token b s1)"
    using assms s1(2)
    by (auto simp: sketch_setup_def r Let_def s2 i setup_services_def setAtCommandAdapters_def split_beta split: if_splits)
  from that[OF i[unfolded s1(1)] s] show ?thesis .
qed

lemma init_wifi:
  "app_init w p ev a = Some (a', out) \<Longrightarrow> a_wifi a' = fst (wifi_init w p (ev_radio ev) (a_wifi a))"
  by (auto simp: app_init_def app_wifi_def app_observe_def Let_def split_beta split: if_splits)

lemma init_observed:
  assumes "app_init w p ev a = Some (a', out)" "\<not> hub_logger (a_hub a)"
  shows "log_says False out = False"
  using assms
  by (auto simp: app_init_def app_wifi_def app_observe_def observeWifiState_def hub_emit_def Let_def
      split_beta split: if_splits)

lemma setup_holds:
  assumes "sketch_setup b be p = Some (Inr (s, out))"
  shows "wifi_kept (sk_app s, app_calls out)" "log_sound False (sk_app s, app_calls out)"
proof -
  from assms obtain q l a o1 where st:
    "app_init (sk_cfg b) q (bt_app be) ((sk_app (sketch_new be p))\<lparr>a_led := l\<rparr>) = Some (a, o1)"
    "sk_app s = app_resetDiscoveryBackoff (bt_disc be) (app_setDiscoveryEnabled True (app_setEventLogger a))"
    "app_calls out = o1" by (rule setup_app)
  have w: "wifi_inv (a_wifi (sk_app (sketch_new be p)))"
    by (simp add: sketch_new_def app_new_def wifi_inv_def ctx_init_def)
  then have "wifi_inv ((a_wifi (sk_app (sketch_new be p)))\<lparr>state := WIFI_DISCONNECTED\<rparr>)"
    by (simp add: wifi_inv_def)
  then show "wifi_kept (sk_app s, app_calls out)"
    using st by (simp add: wifi_kept_def app_resetDiscoveryBackoff_def app_setDiscoveryEnabled_def
        app_setEventLogger_def init_wifi[OF st(1)] wifi_init_def wifi_inv_update)
  have "\<not> log_says False o1" using init_observed[OF st(1)] by (simp add: sketch_new_def app_new_def hub_new_def)
  then show "log_sound False (sk_app s, app_calls out)"
    by (simp add: log_sound_def st(2,3) app_resetDiscoveryBackoff_def app_setDiscoveryEnabled_def
        app_setEventLogger_def)
qed

text \<open>
  C5. Whatever the whole device has been through since its start, when its event log
  read to the end says it is on the network, its WiFi manager is connected; and the manager's
  campaign counters are in range.
\<close>

theorem the_device_log_is_sound:
  assumes "sketch_setup b be p = Some (Inr (s0, out0))" and "sketch_run b evs s0 = Some (s, out)"
  shows "wifi_inv (a_wifi (sk_app s)) \<and>
    (log_says False (app_calls (out0 @ out)) \<longrightarrow> state (a_wifi (sk_app s)) = WIFI_CONNECTED)"
  using wifi_dev.holds_run[OF assms(2) setup_holds(1)[OF assms(1)]]
    log_dev.holds_run[OF assms(2) setup_holds(2)[OF assms(1)]]
  by (simp add: wifi_kept_def log_sound_def)


section \<open>No assertion fails\<close>

definition ready :: "fw_app \<times> app_out list \<Rightarrow> bool" where
  "ready x \<longleftrightarrow> a_initialized (fst x) \<and> initialized (a_can (fst x))"

interpretation ready_dev: app_invariant ready b for b :: "'p build"
  by unfold_locales (auto simp: ready_def app_hub_def app_resetDiscoveryBackoff_def clear_restart_def
      onWiFiDisconnected_def split_beta Let_def dest: app_update_keeps)

lemma setup_ready:
  assumes "sketch_setup b be p = Some (Inr (s, out))" shows "ready (sk_app s, log)"
  using assms
  by (rule setup_app)
    (auto simp: ready_def app_init_def app_wifi_def app_observe_def can_init_def Let_def split_beta
      app_resetDiscoveryBackoff_def app_setDiscoveryEnabled_def app_setEventLogger_def split: if_splits)

lemma app_update_total: "a_initialized a \<Longrightarrow> \<exists>r. app_update w p dev sign ev now a = Some r"
  by (simp add: app_update_def Let_def split_beta)

lemma sketch_update_total:
  assumes "a_initialized (sk_app s)" shows "\<exists>r. sketch_update b e s = Some r"
proof -
  obtain r where "app_update (sk_cfg b) (sk_prefs s) (sk_deviceId s) (b_sign b)
      ((te_app e)\<lparr>ev_client := hasClient (sk_tcp s)\<rparr>) (te_updateMs e) (sk_app s) = Some r"
    by (rule exE[OF app_update_total[OF assms]])
  then show ?thesis by (cases r) (simp add: sketch_update_def)
qed

lemma loop_total:
  assumes "ready (sk_app s, log)" shows "\<exists>r. sketch_loop b e s = Some r"
proof (cases "sk_restarted (fst (and_then (sketch_cycle b e) (before_cycle b e s)))")
  case False
  let ?s = "fst (and_then (sketch_cycle b e) (before_cycle b e s))"
  have "ready_dev.holds log (and_then (sketch_cycle b e) (before_cycle b e s))"
    using assms by (intro ready_dev.holds_until_update) (simp add: ready_dev.holds_def)
  then have "a_initialized (sk_app ?s)" by (simp add: ready_dev.holds_def ready_def)
  from sketch_update_total[OF this] obtain r where "sketch_update b e ?s = Some r" by blast
  then show ?thesis using False
    by (cases r) (simp add: sketch_loop_def before_cycle_def[symmetric] Let_def)
qed (simp add: sketch_loop_def before_cycle_def[symmetric] Let_def)





section \<open>Who hears the bus\<close>

lemma setup_monitor: "sketch_setup b be p = Some (Inr (s, out)) \<Longrightarrow> \<not> mon s"
  by (erule setup_app)
    (auto simp: app_init_def app_wifi_def app_observe_def can_init_def Let_def split_beta sketch_new_def app_new_def
      app_resetDiscoveryBackoff_def app_setDiscoveryEnabled_def app_setEventLogger_def split: if_splits)

lemma setup_heard:
  assumes "sketch_setup b be p = Some (Inr (s, out))" shows "heard False False s"
  using setup_state(1)[OF assms] setup_monitor[OF assms] by (simp add: heard_def tcp_init_def)

text \<open>
  C3. The whole device, whatever commands, connections, drops and updates it has
  seen since it started: in a turn of the loop that sends a frame of the bus over the network,
  either the server holds a client and the connection accepted last presented exactly the token
  the device started with, or the command \<open>ATMA\<close> was typed on the serial console since that
  connection was accepted: the console needs no token, and it switches the same monitor
  (\<open>a_refused_client_hears_the_bus\<close>). Nothing is assumed of the connections.
\<close>

theorem frames_need_the_token:
  assumes "sketch_setup b be p = Some (Inr (s0, out0))" and "sketch_run b evs s0 = Some (s, out)"
    and "\<not> sk_restarted s" and "sketch_loop b e s = Some (s1, out1)"
    and "CanTcpPrint t \<in> set (can_calls out1)"
  shows "hasClient (sk_tcp s1) \<and> last_accept_valid (ticks (sk_authToken s0) (evs @ [Turn e])) False \<or>
    typed_since \<lparr>maxLen = MAX_SERIAL_CMD_LENGTH, buffer = []\<rparr> False (evs @ [Turn e])"
proof -
  note f = frames_only_last[OF assms(4,5)]
  have "sketch_step b (Turn e) s = Some (s1, out1)" using assms(3,4) by (simp add: sketch_step_def)
  from run_heard[OF run_snoc[OF assms(2) this] conjunct1[OF f] setup_heard[OF assms(1)]]
  show ?thesis using f setup_state(2)[OF assms(1)] by (auto simp: heard_def)
qed

section \<open>A lost link and the client\<close>

interpretation same_wifi: app_part "\<lambda>x. a_wifi (fst x) = c" for c
  by unfold_locales (simp_all add: app_hub_def app_resetDiscoveryBackoff_def split_beta)

lemma wifi_until_update:
  assumes "before_cycle b e s = (s2, o2)" "sketch_cycle b e s2 = (s3, o3)"
  shows "a_wifi (sk_app s3) = a_wifi (sk_app s)"
  using same_wifi.holds_before[of "a_wifi (sk_app s)" "[]" s b e]
    same_wifi.holds_cycle[of "a_wifi (sk_app s)" "[]" s2 b e] assms
  by (simp add: same_wifi.holds_def)

lemma handler_keeps_flag:
  "tcpServerNeedsRestart (fst (snd (handler_execute w p r now c))) = tcpServerNeedsRestart c"
  unfolding handler_execute_def
  by (cases "state c") (auto simp: handler_defs Let_def split: option.splits CredentialSource.splits)

lemma campaign_keeps_flag:
  "tcpServerNeedsRestart (fst (snd (campaign_tick w p r now c))) = tcpServerNeedsRestart c"
  by (auto simp: campaign_defs Let_def split: option.splits)

lemma update_keeps_flag:
  "tcpServerNeedsRestart c \<Longrightarrow> tcpServerNeedsRestart (fst (wifi_update w p r now c))"
  using handler_keeps_flag[of w p r now c] campaign_keeps_flag[of w p r now c]
  by (simp add: wifi_update_def applyStateTransition_def Let_def split_beta)

lemma ota_output: "set (snd r) \<subseteq> set (snd (otaLoop xs r))"
proof (induction xs arbitrary: r)
  case (Cons x xs)
  have "set (snd r) \<subseteq> set (snd (and_then (ota_request_step x) r))"
    by (auto simp: and_then_def split_beta)
  then show ?case using Cons.IH by fastforce
qed simp

text \<open>
  After the station lost its network for a reason other than a failed
  authentication, the next turn of the loop stops the client the server holds, although its
  connection is alive: the guard of the restart asks for exactly that.
\<close>

theorem a_lost_link_costs_the_client:
  assumes "state (a_wifi (sk_app s)) = WIFI_CONNECTED" and "\<not> isAuthMechanismFailure reason"
    and "sketch_run b [WifiLost reason bssid rssi, Turn e] s = Some (s1, out)" and "\<not> sk_restarted s1"
    and "hasClient (sk_tcp s1)" and "te_clientLive e"
  shows "GlobalClientStop \<in> set out"
proof -
  note run = run_running[OF assms(3,4)]
  obtain a o0 where d: "onWiFiDisconnected reason bssid rssi (sk_app s) = (a, o0)" by force
  have flag: "tcpServerNeedsRestart (a_wifi a)"
    using d assms(1,2) by (auto simp: onWiFiDisconnected_def onDisconnected_def Let_def)
  obtain o1 where l: "sketch_loop b e (s\<lparr>sk_app := a\<rparr>) = Some (s1, o1)" and out: "out = map AppCall o0 @ o1"
    using assms(3) run by (auto simp: sketch_step_def d split: option.splits)
  from l assms(4) obtain s2 o2 s3 o3 s4 o4 s5 o5 where st:
    "before_cycle b e (s\<lparr>sk_app := a\<rparr>) = (s2, o2)" "sketch_cycle b e s2 = (s3, o3)"
    "sketch_update b e s3 = Some (s4, o4)"
    "otaLoop (te_ota e) (fst (restartTcpServerIfNeeded e s4),
        o2 @ o3 @ o4 @ snd (restartTcpServerIfNeeded e s4)) = (s5, o5)"
    "sketch_frames e s5 = (s1, drop (length o5) o1)" "o1 = o5 @ drop (length o5) o1"
    by (rule loop_stages)
  have "tcpServerNeedsRestart (a_wifi (sk_app s3))"
    using flag wifi_until_update[OF st(1,2)] by simp
  then have "tcpServerNeedsRestart (a_wifi (sk_app s4))"
    using st(3) by (auto simp: sketch_update_def app_update_wifi update_keeps_flag split: option.splits)
  then have due: "shouldRestart (sk_app s4)" by (simp add: shouldRestart_def)
  have n: "net s1 = net (fst (restartTcpServerIfNeeded e s4))"
    using net_frames[of e s5] net_ota[of "te_ota e" "(fst (restartTcpServerIfNeeded e s4),
        o2 @ o3 @ o4 @ snd (restartTcpServerIfNeeded e s4))"] st(4,5) by simp
  then have has: "hasClient (sk_tcp s4)" using assms(5) net_restart[of e s4] by (simp add: net_def)
  have "GlobalClientStop \<in> set o5"
    using ota_output[of "(fst (restartTcpServerIfNeeded e s4),
        o2 @ o3 @ o4 @ snd (restartTcpServerIfNeeded e s4))" "te_ota e"] st(4) due has assms(6)
    by (auto simp: restartTcpServerIfNeeded_def Let_def)
  moreover have "set o5 \<subseteq> set o1" by (metis st(6) set_append Un_upper1)
  ultimately show ?thesis using out by auto
qed


section \<open>A new client\<close>

lemma accept_callbacks:
  assumes "tcp_isValidAuthToken (tcp_trim raw) (sk_authToken s)" "te_accept e = Some (ip, raw)" "\<not> sk_restarted s"
    "sketch_cycle b e s = (s1, out)"
  shows "hasClient (sk_tcp s1) \<and> monitorActive (a_can (sk_app s1)) \<and>
    initialized (a_can (sk_app s1)) = initialized (a_can (sk_app s)) \<and> a_initialized (sk_app s1) = a_initialized (sk_app s)"
  using assms
  by (auto simp: sketch_cycle_def cycle_def tcp_accept_def sketch_tick_def and_then_def sketch_hub_def
      app_hub_def hub_clientConnected_def app_setMonitorActive_def can_setMonitorActive_def Let_def
      split: if_splits)

lemma sketch_update_shows:
  assumes "sketch_update b e s = Some (s1, out)"
  shows "currentPattern (a_led (sk_app s1)) = sk_ledPattern s1"
    and "hasClient (sk_tcp s) \<Longrightarrow> sk_ledPattern s1 = pattern_ord P_CLIENT_CONNECTED"
    and "a_can (sk_app s1) = a_can (sk_app s)"
proof -
  have k: "a_led (fst (broadcast_event x)) = a_led x" "a_can (fst (broadcast_event x)) = a_can x" for x
    by (simp_all add: broadcast_event_def Let_def)
  have l: "currentPattern (fst (led_update t l)) = currentPattern l" for t l
    by (simp add: led_update_def resetPattern_def Let_def split_beta)
  show "currentPattern (a_led (sk_app s1)) = sk_ledPattern s1"
    using assms
    by (auto simp: sketch_update_def app_update_def led_policy_update_def k l setPattern_def
        broadcast_event_keeps(1) Let_def split_beta split: option.splits if_splits)
  show "hasClient (sk_tcp s) \<Longrightarrow> sk_ledPattern s1 = pattern_ord P_CLIENT_CONNECTED"
    using assms by (auto simp: sketch_update_def selectLedPattern_def split: option.splits)
  show "a_can (sk_app s1) = a_can (sk_app s)" by (rule sketch_update_can[OF assms])
qed

text \<open>What goes to the network at the end of a turn, once the monitor is on.\<close>

lemma turn_frames:
  assumes "sketch_loop b e s = Some (s1, out1)" and "\<not> sk_restarted s1" and "te_canLive e"
    and on: "\<And>s2 o2 s3 o3. before_cycle b e s = (s2, o2) \<Longrightarrow> \<not> sk_restarted s2 \<Longrightarrow> sketch_cycle b e s2 = (s3, o3) \<Longrightarrow>
      mon s3 \<and> initialized (a_can (sk_app s3))"
  shows "filter (\<lambda>c. case c of CanSerialPrint t \<Rightarrow> False | _ \<Rightarrow> True) (can_calls out1) =
    concat (map (\<lambda>m. [CanTcpPrint (frame_text m), CanTcpFlush]) (te_frames e))"
proof -
  from assms(1,2) obtain s2 o2 s3 o3 s4 o4 s5 o5 where st:
    "before_cycle b e s = (s2, o2)" "\<not> sk_restarted s2" "sketch_cycle b e s2 = (s3, o3)"
    "sketch_update b e s3 = Some (s4, o4)"
    "otaLoop (te_ota e) (fst (restartTcpServerIfNeeded e s4),
        o2 @ o3 @ o4 @ snd (restartTcpServerIfNeeded e s4)) = (s5, o5)"
    "sketch_frames e s5 = (s1, drop (length o5) out1)" "out1 = o5 @ drop (length o5) out1"
    by (rule loop_stages)
  note c = on[OF st(1,2,3)] and u = sketch_update_can[OF st(4)]
  have a5: "a_can (sk_app s5) = a_can (sk_app s4)"
    using ota_app[of "te_ota e" "(fst (restartTcpServerIfNeeded e s4),
        o2 @ o3 @ o4 @ snd (restartTcpServerIfNeeded e s4))"] st(5)
    by (simp add: restartTcpServerIfNeeded_def clear_restart_def Let_def)
  have "can_calls o5 = []"
    using no_can_ota[of "te_ota e" "(fst (restartTcpServerIfNeeded e s4),
        o2 @ o3 @ o4 @ snd (restartTcpServerIfNeeded e s4))"] no_can_before[of b e s] st
      no_can_stage(1)[of b e s2] no_can_stage(2)[of e s4] no_can_stage(3)[OF st(4)]
    by simp
  moreover obtain q where "a_can (sk_app s3) = \<lparr>monitorActive = True, initialized = True, serialQuietUntilMs = q\<rparr>"
    using c by (cases "a_can (sk_app s3)") simp
  then have "can_calls (snd (sketch_frames e s5)) =
      concat (map (frame_outputs (a_can (sk_app s4)) True (te_canMs e)) (te_frames e))"
    using u assms(3) by (simp add: sketch_frames_def processFrames_def a5 Let_def)
  then have "can_calls (drop (length o5) out1) =
      concat (map (frame_outputs (a_can (sk_app s4)) True (te_canMs e)) (te_frames e))"
    using st(6) by simp
  moreover have "mon s4" using c u by simp
  then have "filter (\<lambda>c. case c of CanSerialPrint t \<Rightarrow> False | _ \<Rightarrow> True)
      (concat (map (frame_outputs (a_can (sk_app s4)) True (te_canMs e)) ms)) =
      concat (map (\<lambda>m. [CanTcpPrint (frame_text m), CanTcpFlush]) ms)" for ms
    by (induction ms) (simp_all add: frame_outputs_def)
  moreover have "can_calls out1 = can_calls o5 @ can_calls (drop (length o5) out1)"
    by (metis st(7) can_calls_simps(2))
  ultimately show ?thesis by simp
qed

lemma served_at_once:
  assumes "sketch_setup b be p = Some (Inr (s0, out0))" and "sketch_run b evs s0 = Some (s, out)"
    and "te_accept e = Some (ip, ''AUTH '' @ sk_authToken s)"
    and "sketch_loop b e s = Some (s1, out1)" and "\<not> sk_restarted s1"
    and "tcp_trim (''AUTH '' @ sk_authToken s) = ''AUTH '' @ sk_authToken s" and "te_canLive e"
  shows "hasClient (sk_tcp s1) \<and> currentPattern (a_led (sk_app s1)) = pattern_ord P_CLIENT_CONNECTED \<and>
    filter (\<lambda>c. case c of CanSerialPrint t \<Rightarrow> False | _ \<Rightarrow> True) (can_calls out1) =
    concat (map (\<lambda>m. [CanTcpPrint (frame_text m), CanTcpFlush]) (te_frames e))"
proof -
  have ready: "ready (sk_app s, [])"
    using ready_dev.holds_run[OF assms(2) setup_ready[OF assms(1)]] by (simp add: ready_def)
  from assms(4,5) obtain s2 o2 s3 o3 s4 o4 s5 o5 where st:
    "before_cycle b e s = (s2, o2)" "\<not> sk_restarted s2" "sketch_cycle b e s2 = (s3, o3)"
    "sketch_update b e s3 = Some (s4, o4)"
    "otaLoop (te_ota e) (fst (restartTcpServerIfNeeded e s4),
        o2 @ o3 @ o4 @ snd (restartTcpServerIfNeeded e s4)) = (s5, o5)"
    "sketch_frames e s5 = (s1, drop (length o5) out1)" "out1 = o5 @ drop (length o5) out1"
    by (rule loop_stages)
  have n2: "sk_tcp s2 = sk_tcp s" "sk_authToken s2 = sk_authToken s"
    using before_cycle_net[of b e s] st(1) by (simp_all add: net_def)
  have "ready (sk_app s2, [])"
    using ready_dev.holds_before[of "[]" s b e] ready st(1) by (simp add: ready_dev.holds_def ready_def)
  then have c: "hasClient (sk_tcp s3)" "monitorActive (a_can (sk_app s3))" "initialized (a_can (sk_app s3))"
    using accept_callbacks[OF _ _ st(2,3), of "''AUTH '' @ sk_authToken s" ip] n2 assms(3,6)
    by (auto simp: net_def tcp_isValidAuthToken_def ready_def)
  note u = sketch_update_shows[OF st(4)]
  have a5: "a_led (sk_app s5) = a_led (sk_app s4)"
    using ota_app[of "te_ota e" "(fst (restartTcpServerIfNeeded e s4),
        o2 @ o3 @ o4 @ snd (restartTcpServerIfNeeded e s4))"] st(5)
    by (simp add: restartTcpServerIfNeeded_def clear_restart_def Let_def)
  have "hasClient (sk_tcp s1)"
    using c(1) loop_net(1)[OF assms(4,5)] n2 st(3) sketch_cycle_net[of b e s2] by (simp add: net_def)
  moreover have "currentPattern (a_led (sk_app s1)) = pattern_ord P_CLIENT_CONNECTED"
    using u(1) u(2)[OF c(1)] st(6) a5 by (auto simp: sketch_frames_def split_beta Let_def)
  moreover have "filter (\<lambda>c. case c of CanSerialPrint t \<Rightarrow> False | _ \<Rightarrow> True) (can_calls out1) =
      concat (map (\<lambda>m. [CanTcpPrint (frame_text m), CanTcpFlush]) (te_frames e))"
    by (rule turn_frames[OF assms(4,5,7)]) (use st(1,3) c(2,3) in simp)
  ultimately show ?thesis by simp
qed

text \<open>
  C14. In the very turn in which a client presents the token it is held, the
  light shows it, and when its connection is alive at the end of the turn every frame that waits
  in the queue is already sent to it and flushed.
\<close>

theorem a_new_client_is_served_at_once:
  assumes "sketch_setup b be p = Some (Inr (s0, out0))" and "sketch_run b evs s0 = Some (s, out)"
    and "te_accept e = Some (ip, ''AUTH '' @ sk_authToken s)"
    and "sketch_loop b e s = Some (s1, out1)" and "\<not> sk_restarted s1"
    and "tcp_trim (''AUTH '' @ sk_authToken s) = ''AUTH '' @ sk_authToken s" and "te_canLive e"
  shows "hasClient (sk_tcp s1) \<and> currentPattern (a_led (sk_app s1)) = pattern_ord P_CLIENT_CONNECTED \<and>
    filter (\<lambda>c. case c of CanSerialPrint t \<Rightarrow> False | _ \<Rightarrow> True) (can_calls out1) =
    concat (map (\<lambda>m. [CanTcpPrint (frame_text m), CanTcpFlush]) (te_frames e))"
  using assms by (rule served_at_once)

section \<open>A post without an upload\<close>

text \<open>
  The update server asks for no password and no file: a single post to
  it, as long as no upload has failed before, is answered with success and restarts the device.
\<close>

theorem an_empty_post_restarts_the_device:
  assumes "ready (sk_app s, [])" and "\<not> sk_restarted s" and "otaErr (sk_ota s) = []"
    and "te_serial e = []" and "te_accept e = None" and "te_incoming e = []" and "te_ota e = [OtaPost False]"
  shows "\<exists>s1 out. sketch_loop b e s = Some (s1, out) \<and> sk_restarted s1 \<and> SdkRestart \<in> set out \<and>
    OtaCall (HttpSend HTTP_OK ''Update Success! Rebooting...'') \<in> set out"
proof -
  let ?r = "and_then (sketch_cycle b e) (before_cycle b e s)"
  have d: "drainSerialATCommands b (te_lineMs e) [] s = (s, [])"
    by (simp add: drainSerialATCommands_def)
  have quiet: "\<not> sk_restarted (fst ?r) \<and> otaErr (sk_ota (fst ?r)) = []"
    using assms(2,3,5,6)
    by (auto simp: before_cycle_def assms(4) d and_then_def sketch_heartbeat_def sketch_cycle_def cycle_def
        sketch_tick_def tcp_read_def tcp_cleanup_def sketch_hub_def split_beta Let_def)
  have "ready_dev.holds [] ?r"
    using assms(1) by (intro ready_dev.holds_until_update) (simp add: ready_dev.holds_def)
  then have "a_initialized (sk_app (fst ?r))" by (simp add: ready_dev.holds_def ready_def)
  from sketch_update_total[OF this] obtain s1 o1 where u: "sketch_update b e (fst ?r) = Some (s1, o1)"
    by fastforce
  then have s1: "\<not> sk_restarted s1" "otaErr (sk_ota s1) = []"
    using quiet by (auto simp: sketch_update_def split: option.splits)
  have s2: "\<not> sk_restarted (fst (restartTcpServerIfNeeded e s1))"
    "otaErr (sk_ota (fst (restartTcpServerIfNeeded e s1))) = []"
    using s1 by (simp_all add: restartTcpServerIfNeeded_def Let_def)
  show ?thesis
    using quiet u s1 s2
    by (simp add: sketch_loop_def before_cycle_def[symmetric] assms(7) Let_def and_then_running handlePost_def)
qed


section \<open>The serial console\<close>

lemma serial_command_turn:
  assumes "drain (sk_framer s) (te_serial e) = (f, [l])" and "\<not> sk_restarted s" and "c_str l = l"
  shows "drainSerialATCommands b ms (te_serial e) s =
    and_then (\<lambda>s1. (s1\<lparr>sk_app := (sk_app s1)\<lparr>a_can :=
        setSerialQuietUntilMs (ms 0 + SERIAL_QUIET_DURATION_MS) (a_can (sk_app s1))\<rparr>\<rparr>, []))
      (sketch_command handleSerialCommand b l (s\<lparr>sk_framer := f\<rparr>))"
  using assms by (simp add: drainSerialATCommands_def serial_line_def and_then_running)

text \<open>
  The exception of \<open>frames_need_the_token\<close> is real. The server holds no client,
  because it refused the last connection or has lost it; \<open>ATMA\<close> is typed on the console; and the sketch's own
  object of that connection, which the server's \<open>stop\<close> does not touch, still answers as connected: every
  frame of the bus goes to it.
\<close>

theorem a_refused_client_hears_the_bus:
  assumes "ready (sk_app s, [])" and "sk_framer s = \<lparr>maxLen = MAX_SERIAL_CMD_LENGTH, buffer = []\<rparr>"
    and "\<not> hasClient (sk_tcp s)" and "te_accept e = None" and "te_serial e = ''ATMA'' @ [CR]" and "te_canLive e"
    and "sketch_loop b e s = Some (s1, out1)" and "\<not> sk_restarted s1" and "\<not> sk_restarted s"
  shows "\<not> hasClient (sk_tcp s1) \<and> filter (\<lambda>c. case c of CanSerialPrint t \<Rightarrow> False | _ \<Rightarrow> True) (can_calls out1) =
    concat (map (\<lambda>m. [CanTcpPrint (frame_text m), CanTcpFlush]) (te_frames e))"
proof -
  have dr: "drain (sk_framer s) (te_serial e) = (sk_framer s, [''ATMA''])"
    using drain_line[of "''ATMA''" "sk_framer s" CR]
    by (simp add: assms(2,5) CR_def LF_def MAX_SERIAL_CMD_LENGTH_def)
  have "find_handler (normalizeAtCommand ''ATMA'') = Some AtmaCommandHandler"
    by (simp add: find_handler_def firmware_handlers_def normalizeAtCommand_def trim_by_def ws4_def TAB_def CR_def
        LF_def to_upper_def starts_with_def)
  then have h: "handleSerialCommand (device_host w) dev ver ''ATMA'' d = ([SerialPrintln ''OK''], d\<lparr>d_monitor := True\<rparr>)"
    for w :: "'a wifi_cfg" and dev ver d
    by (simp add: handleSerialCommand_def handleCommand_def at_result_def device_host_def sendSerialPrompt_def c_str_id)
  have d: "mon (fst (drainSerialATCommands b ms (te_serial e) s)) \<and>
      initialized (a_can (sk_app (fst (drainSerialATCommands b ms (te_serial e) s))))" for ms
    using serial_command_turn[OF dr assms(9), of b ms] assms(1,9)
    by (simp add: c_str_id sketch_command_def h with_device_def and_then_running app_setMonitorActive_def ready_def can_ops)
  have on: "mon s3 \<and> initialized (a_can (sk_app s3))"
    if "before_cycle b e s = (s2, o2)" "sketch_cycle b e s2 = (s3, o3)" for s2 o2 s3 o3
  proof -
    have t2: "sk_tcp s2 = sk_tcp s" using before_cycle_net[of b e s] that(1) by (simp add: net_def)
    have hb: "sk_app (fst (sketch_heartbeat b e x)) = sk_app x" for x
      by (simp add: sketch_heartbeat_def split_beta Let_def)
    have "sk_app (fst (before_cycle b e s)) = sk_app (fst (drainSerialATCommands b (te_lineMs e) (te_serial e) s))"
      by (simp add: before_cycle_def and_then_def split_beta hb)
    then have "a_can (sk_app s2) = a_can (sk_app (fst (drainSerialATCommands b (te_lineMs e) (te_serial e) s)))"
      using that(1) by simp
    moreover have "sk_app s3 = sk_app s2"
      using that(2) assms(3,4) t2 by (auto simp: sketch_cycle_def cycle_def sketch_tick_def tcp_cleanup_def)
    ultimately show ?thesis using d by simp
  qed
  have "\<not> hasClient (sk_tcp s1)"
    using loop_net(1)[OF assms(7,8)] assms(3,4) by (simp add: cycle_def sketch_tick_def tcp_cleanup_def)
  then show ?thesis using turn_frames[OF assms(7,8,6) on] by simp
qed

text \<open>A token the console can carry.\<close>

definition token_text :: "string \<Rightarrow> bool" where
  "token_text t \<longleftrightarrow> t \<noteq> [] \<and> length t \<le> 54 \<and> \<not> ws4 (hd t) \<and> \<not> ws4 (last t) \<and>
     CR \<notin> set t \<and> LF \<notin> set t \<and> CHR 0x00 \<notin> set t"

lemma settoken_run:
  assumes "token_text t"
    and "token_storeToken (w_pf w) ((d_tokens d)\<lparr>prefsStore := d_prefs d\<rparr>) t = (True, ts)"
  shows "\<exists>out. handleSerialCommand (device_host w) dev ver (''ATSETTOKEN'' @ t) d =
    (out, d\<lparr>d_tokens := ts, d_prefs := prefsStore ts\<rparr>) \<and> EspRestart \<in> set out"
proof -
  note a = assms(1)[unfolded token_text_def]
  have "normalizeAtCommand (''ATSETTOKEN'' @ t) = ''ATSETTOKEN'' @ map to_upper t"
    using normal_prefix[of "''ATSETTOKEN''" "CHR ''A''" "''TSETTOKEN''" t] a
    by (simp add: to_upper_def ws4_def TAB_def CR_def LF_def)
  then have k: "find_handler (normalizeAtCommand (''ATSETTOKEN'' @ t)) = Some AtsettokenCommandHandler"
    by (metis find_settoken starts_with_append)
  have "\<not> list_all ws4 t" using a by (cases t) auto
  moreover have "trim_by ws4 t = t" using a by (intro trim_by_id) simp
  ultimately have "settoken_execute (device_host w) (''ATSETTOKEN'' @ t) d =
      (at_result ''OK Token stored. Rebooting...'' True True, d\<lparr>d_tokens := ts, d_prefs := prefsStore ts\<rparr>)"
    using a assms(2) by (simp add: settoken_execute_def device_host_def)
  then show ?thesis
    using k by (simp add: handleSerialCommand_def handleCommand_def at_result_def)
qed

lemma stored_token_view:
  assumes "prefs_laws pf view ns_of writable" and "token_storeToken pf ts t = (True, ts1)"
    and "nul_free t"
  shows "view (prefsStore ts1) (NVS_TOKEN_NAMESPACE, NVS_TOKEN_KEY) = t"
proof -
  obtain m q where q: "pf_put pf (pf_begin pf (prefsStore ts) NVS_TOKEN_NAMESPACE False) NVS_TOKEN_KEY t = (m, q)"
    by fastforce
  then have "0 < m" "prefsStore ts1 = pf_end pf q"
    using assms(2) by (auto simp: token_storeToken_def Let_def split: if_splits)
  then show ?thesis using prefs_laws.put_session[OF assms(1) q _ assms(3)] by simp
qed

lemma setup_reset_token:
  assumes "prefs_laws (b_pf b) view ns_of writable" "setup_reset b e s = Some (s1, out)"
  shows "view (sk_prefs s1) (NVS_TOKEN_NAMESPACE, k) = view (sk_prefs s) (NVS_TOKEN_NAMESPACE, k)"
  using assms(2) prefs_laws.clear_session[OF assms(1), of NVS_WIFI_NAMESPACE "sk_prefs s"]
  by (auto simp: setup_reset_def clearCredentials_def NVS_WIFI_NAMESPACE_def
      NVS_TOKEN_NAMESPACE_def Let_def split_beta split: option.splits)

lemma setup_token_reads:
  assumes "prefs_laws (b_pf b) view ns_of writable" "view (sk_prefs s) (NVS_TOKEN_NAMESPACE, NVS_TOKEN_KEY) = t" "t \<noteq> []"
  shows "sk_authToken (setup_token b s) = t"
proof -
  have "pf_get (b_pf b) (pf_begin (b_pf b) (sk_prefs s) NVS_TOKEN_NAMESPACE True) NVS_TOKEN_KEY [] = t"
    using prefs_laws.read_session(2)[OF assms(1), of NVS_TOKEN_NAMESPACE] assms(2)
    by (simp add: NVS_TOKEN_NAMESPACE_def)
  then show ?thesis
    using assms(3) by (simp add: setup_token_def token_loadOrDefault_def token_load_def Let_def split_beta)
qed

lemma setup_auth_token:
  assumes "sketch_setup b be p = Some (Inr (s, out))"
  obtains s1 o1 where "setup_reset b be (sketch_new be p) = Some (s1, o1)"
    "sk_authToken s = sk_authToken (setup_token b s1)" "sk_prefs s = sk_prefs (setup_token b s1)"
proof -
  obtain s1 o1 where r: "setup_reset b be (sketch_new be p) = Some (s1, o1)"
    using assms by (auto simp: sketch_setup_def split: option.splits)
  show ?thesis
    by (rule that[OF r])
      (use assms in \<open>auto simp: sketch_setup_def r setup_services_def setAtCommandAdapters_def Let_def split_beta
        split: option.splits if_splits\<close>)
qed

text \<open>
  C13. The command that sets the token, typed on the console of a running
  device, restarts it, and whatever happens to the button while it starts again, from then on
  the server lets in exactly the clients that present the new token.
\<close>

theorem a_new_token_opens_the_next_start:
  assumes "reliable_prefs (b_pf b) view ns_of writable" and "token_text t"
    and "sk_framer s = \<lparr>maxLen = MAX_SERIAL_CMD_LENGTH, buffer = []\<rparr>" and "\<not> sk_restarted s"
    and "te_serial e = ''ATSETTOKEN'' @ t @ [CR]"
  shows "\<exists>s1 out. sketch_loop b e s = Some (s1, out) \<and> sk_restarted s1 \<and>
    (\<forall>be s2 out2 e2 ip raw. sketch_setup b be (sk_prefs s1) = Some (Inr (s2, out2)) \<and>
        te_accept e2 = Some (ip, raw) \<longrightarrow>
      (hasClient (fst (cycle (sk_tcp s2) (sketch_tick (sk_authToken s2) e2)))
        \<longleftrightarrow> tcp_trim raw = ''AUTH '' @ t))"
proof -
  note laws = reliable_prefs.axioms(1)[OF assms(1)]
  let ?l = "''ATSETTOKEN'' @ t"
  have chars: "CR \<notin> set ?l" "LF \<notin> set ?l" "CHR 0x00 \<notin> set ?l" "length ?l \<le> MAX_SERIAL_CMD_LENGTH"
    using assms(2) by (simp_all add: token_text_def CR_def LF_def MAX_SERIAL_CMD_LENGTH_def)
  have dr: "drain (sk_framer s) (te_serial e) = (sk_framer s, [?l])"
    using drain_line[of ?l "sk_framer s" CR] chars by (simp add: assms(3,5))
  let ?d = "sketch_device (s\<lparr>sk_framer := sk_framer s\<rparr>)"
  let ?ts0 = "(d_tokens ?d)\<lparr>prefsStore := d_prefs ?d\<rparr>"
  have ok: "fst (token_storeToken (b_pf b) ?ts0 t)"
    using reliable_prefs.token_store_succeeds[OF assms(1), of t] assms(2)
    by (simp add: token_text_def nul_free_def)
  then obtain ts where ts: "token_storeToken (w_pf (sk_cfg b)) ?ts0 t = (True, ts)"
    by (cases "token_storeToken (b_pf b) ?ts0 t") (auto simp: sk_cfg_def app_cfg_def)
  obtain out where run: "handleSerialCommand (device_host (sk_cfg b)) (sk_deviceId s) (b_version b) ?l ?d =
      (out, ?d\<lparr>d_tokens := ts, d_prefs := prefsStore ts\<rparr>)" "EspRestart \<in> set out"
    using settoken_run[OF assms(2) ts, of "sk_deviceId s" "b_version b"] by blast
  let ?r = "sketch_command handleSerialCommand b ?l (s\<lparr>sk_framer := sk_framer s\<rparr>)"
  have r: "sk_restarted (fst ?r)" "sk_prefs (fst ?r) = prefsStore ts"
    using run by (simp_all add: sketch_command_def with_device_def)
  have "drainSerialATCommands b (te_lineMs e) (te_serial e) s = ?r"
    using serial_command_turn[OF dr assms(4) c_str_id[OF chars(3)]] r(1) by simp
  then have loop: "sketch_loop b e s = Some ?r" using r(1) by (simp add: sketch_loop_def)
  have v: "view (sk_prefs (fst ?r)) (NVS_TOKEN_NAMESPACE, NVS_TOKEN_KEY) = t"
    using stored_token_view[OF laws ts[unfolded sk_cfg_def app_cfg_def, simplified]] r(2) chars(3)
    by (simp add: sk_cfg_def app_cfg_def nul_free_def)
  have "sk_authToken s2 = t \<and> sk_tcp s2 = tcp_init"
    if st: "sketch_setup b be (sk_prefs (fst ?r)) = Some (Inr (s2, out2))" for be s2 out2
  proof -
    from st obtain q1 o1 where q: "setup_reset b be (sketch_new be (sk_prefs (fst ?r))) = Some (q1, o1)"
      "sk_authToken s2 = sk_authToken (setup_token b q1)" by (rule setup_auth_token)
    have "view (sk_prefs q1) (NVS_TOKEN_NAMESPACE, NVS_TOKEN_KEY) = t"
      using setup_reset_token[OF laws q(1)] v by (simp add: sketch_new_def token_store_new_def)
    from setup_token_reads[OF laws this] show ?thesis
      using assms(2) q(2) setup_state(1)[OF st] by (simp add: token_text_def)
  qed
  then have start: "\<forall>be s2 out2 e2 ip raw. sketch_setup b be (sk_prefs (fst ?r)) = Some (Inr (s2, out2)) \<and>
        te_accept e2 = Some (ip, raw) \<longrightarrow>
      (hasClient (fst (cycle (sk_tcp s2) (sketch_tick (sk_authToken s2) e2))) \<longleftrightarrow> tcp_trim raw = ''AUTH '' @ t)"
    by (auto simp: cycle_def sketch_tick_def tcp_accept_def tcp_isValidAuthToken_def Let_def)
  have "sketch_loop b e s = Some (fst ?r, snd ?r)" using loop by simp
  then show ?thesis using r(1) start by (intro exI conjI)
qed

text \<open>
  The console's line buffer is shorter than the credentials the
  command may carry: a provisioning line of 66 to 129 characters stores nothing, and its tail is
  taken for a command of its own.
\<close>

theorem long_credentials_are_lost_on_the_console:
  assumes "sk_framer s = \<lparr>maxLen = MAX_SERIAL_CMD_LENGTH, buffer = []\<rparr>" and "\<not> sk_restarted s"
    and "line = ''ATSETWIFI'' @ ssid @ CHR '','' # pass" and "65 < length line" "length line \<le> 129"
    and "CR \<notin> set line" "LF \<notin> set line" "CHR 0x00 \<notin> set line"
    and "find_handler (normalizeAtCommand (drop 65 line)) = None"
  shows "\<exists>s1. drainSerialATCommands b ms (line @ [CR]) s = (s1, [AtCall (SerialPrintln ''?'')]) \<and>
    sk_tokens s1 = sk_tokens s \<and> \<not> sk_restarted s1"
proof -
  have split: "line = take 65 line @ drop 65 line" by simp
  have "CR \<notin> set (take 65 line @ drop 65 line)" "LF \<notin> set (take 65 line @ drop 65 line)"
    using assms(6,7) by simp_all
  then have "snd (drain \<lparr>maxLen = 64, buffer = []\<rparr> (take 65 line @ drop 65 line @ [CR])) = [drop 65 line]"
    using assms(4,5) by (intro overlong_line_tail_is_dispatched) simp_all
  then have "snd (drain (sk_framer s) (line @ [CR])) = [drop 65 line]"
    by (metis append_assoc assms(1) MAX_SERIAL_CMD_LENGTH_def split)
  then obtain f where dr: "drain (sk_framer s) (line @ [CR]) = (f, [drop 65 line])"
    by (cases "drain (sk_framer s) (line @ [CR])") simp
  have "CHR 0x00 \<notin> set (drop 65 line)" using assms(8) by (meson in_set_dropD)
  then have c: "c_str (drop 65 line) = drop 65 line" by (rule c_str_id)
  have "drainSerialATCommands b ms (line @ [CR]) s =
    and_then (\<lambda>s1. (s1\<lparr>sk_app := (sk_app s1)\<lparr>a_can :=
        setSerialQuietUntilMs (ms 0 + SERIAL_QUIET_DURATION_MS) (a_can (sk_app s1))\<rparr>\<rparr>, []))
      (sketch_command handleSerialCommand b (drop 65 line) (s\<lparr>sk_framer := f\<rparr>))"
    using serial_command_turn[of s "te\<lparr>te_serial := line @ [CR]\<rparr>" f "drop 65 line" b ms for te] dr assms(2) c
    by simp
  moreover have "sketch_command handleSerialCommand b (drop 65 line) (s\<lparr>sk_framer := f\<rparr>) =
      (with_device (sketch_device (s\<lparr>sk_framer := f\<rparr>)) (s\<lparr>sk_framer := f\<rparr>), [AtCall (SerialPrintln ''?'')])"
    using assms(2,9)
    by (simp add: sketch_command_def handleSerialCommand_def handleCommand_def sendSerialPrompt_def
        with_device_def sketch_device_def)
  ultimately show ?thesis
    using assms(2) by (simp add: and_then_running with_device_def sketch_device_def)
qed


section \<open>The button at start\<close>

lemma held_step:
  fixes h :: u32
  assumes "unat h = 100 * k" "k < 30"
  shows "unat (h + 100) = 100 * Suc k" "3000 \<le> h + 100 \<longleftrightarrow> k = 29"
proof -
  show u: "unat (h + 100) = 100 * Suc k" using assms by (subst unat_add_lem[THEN iffD1]) simp_all
  show "3000 \<le> h + 100 \<longleftrightarrow> k = 29" unfolding word_le_nat_alt u using assms(2) by auto
qed

lemma reset_feed:
  "reset_loop (x # bs) d =
    (let (r, d1) = debouncer_feed x d
     in if r = RESET_WAITING then
          map_option (apsnd ((#) (ResetDelay (fd_pollMs d)))) (reset_loop bs d1)
        else Some (r = RESET_CONFIRMED, []))"
  by simp

lemma feed_holding:
  assumes "unat h = 100 * k" "k < 30"
  shows "debouncer_feed x \<lparr>fd_holdMs = 3000, fd_pollMs = 100, fd_heldMs = h, fd_state = RS_HOLDING\<rparr> =
    (if \<not> x then (RESET_CANCELLED, \<lparr>fd_holdMs = 3000, fd_pollMs = 100, fd_heldMs = h, fd_state = RS_CANCELLED\<rparr>)
     else if k = 29 then (RESET_CONFIRMED, \<lparr>fd_holdMs = 3000, fd_pollMs = 100, fd_heldMs = h + 100, fd_state = RS_CONFIRMED\<rparr>)
     else (RESET_WAITING, \<lparr>fd_holdMs = 3000, fd_pollMs = 100, fd_heldMs = h + 100, fd_state = RS_HOLDING\<rparr>))"
  using held_step(2)[OF assms] by (simp add: debouncer_feed_def Let_def)

lemma map_option_apsnd: "map_option fst (map_option (apsnd f) x) = map_option fst x"
  by (cases x) simp_all

lemma reset_holding:
  assumes "unat h = 100 * k" "k < 30"
  shows "map_option fst (reset_loop bs \<lparr>fd_holdMs = 3000, fd_pollMs = 100, fd_heldMs = h, fd_state = RS_HOLDING\<rparr>) =
    (if 30 - k \<le> length (takeWhile (\<lambda>b. b) bs) then Some True
     else if takeWhile (\<lambda>b. b) bs = bs then None else Some False)"
  using assms
proof (induction bs arbitrary: k h)
  case (Cons x bs)
  show ?case
  proof (cases "x \<and> k \<noteq> 29")
    case True
    then have k: "Suc k < 30" "30 - k = Suc (30 - Suc k)" using Cons.prems(2) by simp_all
    have "map_option fst (reset_loop (x # bs) \<lparr>fd_holdMs = 3000, fd_pollMs = 100, fd_heldMs = h, fd_state = RS_HOLDING\<rparr>)
      = map_option fst (reset_loop bs \<lparr>fd_holdMs = 3000, fd_pollMs = 100, fd_heldMs = h + 100, fd_state = RS_HOLDING\<rparr>)"
      unfolding reset_feed feed_holding[OF Cons.prems] using True by (simp add: map_option_apsnd del: reset_loop.simps)
    then show ?thesis
      using True k Cons.IH[OF held_step(1)[OF Cons.prems] k(1)] by (simp del: reset_loop.simps)
  next
    case False
    then show ?thesis
      unfolding reset_feed feed_holding[OF Cons.prems] using Cons.prems(2) by (auto simp del: reset_loop.simps)
  qed
qed simp

lemma reset_idle:
  "map_option fst (reset_loop bs (debouncer_new 3000 100)) =
    (let ps = dropWhile Not bs
     in if 30 \<le> length (takeWhile (\<lambda>b. b) ps) then Some True else if takeWhile (\<lambda>b. b) ps = ps then None else Some False)"
proof (induction bs)
  case (Cons x bs)
  show ?case
  proof (cases x)
    case True
    have "debouncer_feed True (debouncer_new 3000 100) =
        (RESET_WAITING, \<lparr>fd_holdMs = 3000, fd_pollMs = 100, fd_heldMs = 100, fd_state = RS_HOLDING\<rparr>)"
      by (simp add: debouncer_new_def debouncer_feed_def)
    then have "map_option fst (reset_loop (x # bs) (debouncer_new 3000 100)) =
        map_option fst (reset_loop bs \<lparr>fd_holdMs = 3000, fd_pollMs = 100, fd_heldMs = 100, fd_state = RS_HOLDING\<rparr>)"
      unfolding reset_feed using True by (simp add: map_option_apsnd del: reset_loop.simps)
    then show ?thesis
      using True reset_holding[of 100 1 bs] by (simp add: Let_def del: reset_loop.simps)
  next
    case False
    have "debouncer_feed False (debouncer_new 3000 100) = (RESET_WAITING, debouncer_new 3000 100)"
      by (simp add: debouncer_new_def debouncer_feed_def)
    then have "map_option fst (reset_loop (x # bs) (debouncer_new 3000 100)) =
        map_option fst (reset_loop bs (debouncer_new 3000 100))"
      unfolding reset_feed using False by (simp add: map_option_apsnd del: reset_loop.simps)
    then show ?thesis using Cons.IH False by (simp del: reset_loop.simps)
  qed
qed simp

lemma reset_counts:
  "map_option fst (reset_check_run FACTORY_RESET_HOLD_MS FACTORY_RESET_POLL_MS (True # bs)) =
    (let ps = dropWhile Not bs
     in if 30 \<le> length (takeWhile (\<lambda>b. b) ps) then Some True else if takeWhile (\<lambda>b. b) ps = ps then None else Some False)"
proof -
  have "map_option fst (reset_check_run FACTORY_RESET_HOLD_MS FACTORY_RESET_POLL_MS (True # bs)) =
    map_option fst (reset_loop bs (debouncer_new 3000 100))"
    by (simp add: reset_check_run_def FACTORY_RESET_HOLD_MS_def FACTORY_RESET_POLL_MS_def Let_def
        split: option.split)
  then show ?thesis by (simp only: reset_idle)
qed


lemma setup_prefs:
  assumes "prefs_laws (b_pf b) view ns_of writable" and "sketch_setup b be p = Some (Inr (s, out))"
    and "reset_check_run FACTORY_RESET_HOLD_MS FACTORY_RESET_POLL_MS (bt_pin be) = Some (confirmed, o1)"
  shows "view (sk_prefs s) = (if confirmed then view (snd (clearCredentials (b_pf b) p)) else view p)"
proof -
  from assms(2) obtain s1 o2 where r: "setup_reset b be (sketch_new be p) = Some (s1, o2)"
    "sk_prefs s = sk_prefs (setup_token b s1)" by (rule setup_auth_token)
  have "view (sk_prefs (setup_token b s1)) = view (sk_prefs s1)"
    by (simp add: setup_token_def token_loadOrDefault_def token_load_def Let_def split_beta
        prefs_laws.view_end[OF assms(1)] prefs_laws.view_begin[OF assms(1)])
  then show ?thesis
    using r assms(3)
    by (auto simp: setup_reset_def sketch_new_def token_store_new_def Let_def split_beta)
qed

lemma fresh_start_is_ap:
  assumes "prefs_laws (b_pf b) view ns_of writable" "view q (NVS_WIFI_NAMESPACE, NVS_WIFI_CRED_COUNT) = []"
    and "app_init (sk_cfg b) q ev ((sk_app (sketch_new be p))\<lparr>a_led := l\<rparr>) = Some (a, o1)"
  shows "state (a_wifi a) = WIFI_AP_MODE_DEFAULT"
proof -
  have "determineCredentialSource (sk_cfg b) q = NONE"
    using prefs_laws.source_view[OF assms(1), of "sk_cfg b" q] assms(2)
    by (simp add: sk_cfg_def app_cfg_def nonempty_cstr_def)
  then show ?thesis
    by (simp add: init_wifi[OF assms(3)] sketch_new_def app_new_def wifi_init_def wifi_update_def ctx_init_def
        handler_execute_def disconnected_execute_def stay_def apply_state split_beta Let_def)
qed

text \<open>
  C34. Thirty readings of the held button in a row, 2.9 seconds after the
  first of them, erase the stored network, and the device starts as an access point; a button
  released before leaves the preferences as they were.
\<close>

theorem a_held_button_boots_the_access_point:
  assumes "prefs_laws (b_pf b) view ns_of writable" and "bt_pin be = True # bs"
    and "sketch_setup b be p = Some (Inr (s, out))"
  shows "if 30 \<le> length (takeWhile (\<lambda>b. b) (dropWhile Not bs))
    then state (a_wifi (sk_app s)) = WIFI_AP_MODE_DEFAULT \<and> (\<forall>k. view (sk_prefs s) (NVS_WIFI_NAMESPACE, k) = [])
    else view (sk_prefs s) = view p"
proof -
  let ?held = "30 \<le> length (takeWhile (\<lambda>b. b) (dropWhile Not bs))"
  obtain confirmed o1 where r:
    "reset_check_run FACTORY_RESET_HOLD_MS FACTORY_RESET_POLL_MS (bt_pin be) = Some (confirmed, o1)"
    using assms(3) by (auto simp: sketch_setup_def setup_reset_def Let_def split_beta split: option.splits)
  then have c: "confirmed = ?held"
    using reset_counts[of bs] by (auto simp: assms(2) Let_def split: if_splits)
  note v = setup_prefs[OF assms(1,3) r]
  show ?thesis
  proof (cases ?held)
    case True
    then have k: "view (sk_prefs s) (NVS_WIFI_NAMESPACE, k) = []" for k
      using v c prefs_laws.clear_source[OF assms(1)] by simp
    from assms(3) obtain q l a o2 where st:
      "app_init (sk_cfg b) q (bt_app be) ((sk_app (sketch_new be p))\<lparr>a_led := l\<rparr>) = Some (a, o2)"
      "sk_app s = app_resetDiscoveryBackoff (bt_disc be) (app_setDiscoveryEnabled True (app_setEventLogger a))"
      "app_calls out = o2" "sk_prefs s = q" by (rule setup_app)
    have "state (a_wifi a) = WIFI_AP_MODE_DEFAULT"
      using fresh_start_is_ap[OF assms(1) _ st(1)] k st(4) by simp
    then show ?thesis
      using True k by (simp add: st(2) app_resetDiscoveryBackoff_def app_setDiscoveryEnabled_def
          app_setEventLogger_def)
  next
    case False
    then show ?thesis using v c by simp
  qed
qed

text \<open>
  If the button reads as pressed once and is not pressed any more when the
  check looks again, the device does not start: the check waits for the next press, however long.
\<close>

theorem a_bounce_blocks_the_start:
  assumes "bt_pin be = True # replicate n False" shows "sketch_setup b be p = None"
proof -
  have "dropWhile Not (replicate n False) = []" by (induction n) simp_all
  then have "reset_check_run FACTORY_RESET_HOLD_MS FACTORY_RESET_POLL_MS (bt_pin be) = None"
    using reset_counts[of "replicate n False"] by (simp add: assms)
  then show ?thesis by (simp add: sketch_setup_def setup_reset_def Let_def split_beta)
qed


section \<open>Instances\<close>

lemma setup_total:
  assumes "reset_check_run FACTORY_RESET_HOLD_MS FACTORY_RESET_POLL_MS (bt_pin be) = Some (confirmed, o1)"
    and "bt_twaiInstall be = 0" "bt_twaiStart be = 0"
  obtains s out where "sketch_setup b be p = Some (Inr (s, out))"
    "sk_framer s = \<lparr>maxLen = MAX_SERIAL_CMD_LENGTH, buffer = []\<rparr>" "otaErr (sk_ota s) = []"
    "\<not> confirmed \<Longrightarrow> sk_authToken s = sk_authToken (setup_token b (sketch_new be p))"
proof -
  obtain s1 o2 where r: "setup_reset b be (sketch_new be p) = Some (s1, o2)"
    by (simp add: setup_reset_def assms(1) Let_def split_beta)
  then have "sk_framer s1 = sk_framer (sketch_new be p) \<and> sk_ota s1 = sk_ota (sketch_new be p) \<and>
    a_initialized (sk_app s1) = a_initialized (sk_app (sketch_new be p)) \<and>
    (\<not> confirmed \<longrightarrow> sk_tokens s1 = sk_tokens (sketch_new be p))"
    by (cases confirmed) (auto simp: setup_reset_def assms(1) Let_def split_beta)
  moreover have "\<not> a_initialized (sk_app (sketch_new be p))" by (simp add: sketch_new_def app_new_def)
  ultimately have s1: "sk_framer s1 = sk_framer (sketch_new be p)" "sk_ota s1 = sk_ota (sketch_new be p)"
    "\<not> a_initialized (sk_app s1)" "\<not> confirmed \<Longrightarrow> sk_tokens s1 = sk_tokens (sketch_new be p)" by auto
  let ?s2 = "setup_token b s1"
  have "\<not> a_initialized (sk_app ?s2)" using s1(3) by (simp add: setup_token_def split_beta)
  then obtain a o3 where ai: "app_init (sk_cfg b) (sk_prefs ?s2) (bt_app be) (sk_app ?s2) = Some (a, o3)"
    by (cases "app_wifi (ev_disc (bt_app be)) (localIP (ev_radio (bt_app be)))
      (wifi_init (sk_cfg b) (sk_prefs ?s2) (ev_radio (bt_app be)) (a_wifi (sk_app ?s2)))
      ((sk_app ?s2)\<lparr>a_can := can_init (a_can (sk_app ?s2)), a_initialized := True\<rparr>)")
      (simp add: app_init_def)
  obtain s4 o4 where s4: "setup_services be (?s2\<lparr>sk_app := app_setEventLogger a\<rparr>) = (s4, o4)" by force
  have f: "sk_framer s4 = \<lparr>maxLen = MAX_SERIAL_CMD_LENGTH, buffer = []\<rparr>" "otaErr (sk_ota s4) = []"
    "sk_authToken s4 = sk_authToken ?s2"
    using s4 s1 by (auto simp: setup_services_def setAtCommandAdapters_def setup_token_def sketch_new_def ota_setup_def ota_new_def
        Let_def split_beta)
  have conf: "\<not> confirmed \<Longrightarrow> sk_authToken s4 = sk_authToken (setup_token b (sketch_new be p))"
    using s1(4) f(3) by (simp add: setup_token_def split_beta)
  obtain out where st: "sketch_setup b be p = Some (Inr (s4, out))"
    by (simp add: sketch_setup_def r ai s4 canDriver_initialize_def assms(2,3) Let_def)
  show ?thesis by (rule that[OF st f(1,2) conf])
qed

definition ex_turn :: turn_env where
  "ex_turn =
     \<lparr>te_serial = [], te_lineMs = (\<lambda>i. 0), te_heartbeatMs = 0, te_cadenceMs = 0, te_ownIp = [],
      te_connected = True, te_accept = None, te_incoming = [],
      te_app = \<lparr>ev_radio = \<lparr>status = 6, localIP = []\<rparr>,
        ev_disc = \<lparr>e_mode = 2, e_broadcastIP = ''192.168.4.255'', e_timestamp = 0, e_millis = 0,
          e_beginPacket = 1, e_write = 106, e_endPacket = 1\<rparr>, ev_client = False, ev_sntpEnabled = False\<rparr>,
      te_updateMs = 0, te_clientLive = False, te_ota = [], te_canMs = 0, te_canLive = False, te_frames = []\<rparr>"

definition ex_boot :: boot_env where
  "ex_boot =
     \<lparr>bt_pin = [False], bt_app = te_app ex_turn, bt_disc = ev_disc (te_app ex_turn), bt_twaiInstall = 0,
      bt_twaiStart = 0, bt_mac = [1, 2, 3, 4, 5, 6], bt_running = None, bt_otaState = (0, 0), bt_sodium = 0,
      bt_otaSig = replicate 64 0\<rparr>"

definition ex_build :: "mock_prefs build" where
  "ex_build = \<lparr>b_pf = mock_if, b_version = ''1.0'', b_sign = id\<rparr>"

lemma ex_start:
  obtains s out where "sketch_setup ex_build ex_boot mock_empty = Some (Inr (s, out))"
    "sk_framer s = \<lparr>maxLen = MAX_SERIAL_CMD_LENGTH, buffer = []\<rparr>" "otaErr (sk_ota s) = []"
    "sk_authToken s = TCP_AUTH_TOKEN" "\<not> sk_restarted s" "ready (sk_app s, [])"
proof -
  obtain s out where s: "sketch_setup ex_build ex_boot mock_empty = Some (Inr (s, out))"
    "sk_framer s = \<lparr>maxLen = MAX_SERIAL_CMD_LENGTH, buffer = []\<rparr>" "otaErr (sk_ota s) = []"
    "sk_authToken s = sk_authToken (setup_token ex_build (sketch_new ex_boot mock_empty))"
    by (rule setup_total[of ex_boot False "[]" ex_build mock_empty]) (simp_all add: ex_boot_def reset_check_run_def)
  moreover have "sk_authToken (setup_token ex_build (sketch_new ex_boot mock_empty)) = TCP_AUTH_TOKEN"
    by (simp add: setup_token_def token_loadOrDefault_def token_load_def ex_build_def sketch_new_def
        token_store_new_def mock_ops mock_empty_def NVS_TOKEN_NAMESPACE_def)
  ultimately show ?thesis using that setup_state(3)[OF s(1)] setup_ready[OF s(1)] by metis
qed

text \<open>A turn without commands keeps the device running.\<close>

lemma callbacks_running:
  "\<forall>cmd. HandleTcpAtCommand cmd \<notin> set xs \<Longrightarrow>
   sk_restarted (fst (host_callbacks b de xs r)) = sk_restarted (fst r)"
proof (induction xs arbitrary: r)
  case (Cons x xs)
  have "sk_restarted (fst (host_callback b de x s)) = sk_restarted s" for s
    using Cons.prems by (cases x) (auto simp: sketch_hub_def split_beta)
  then show ?case using Cons by (simp add: and_then_def split_beta)
qed simp

lemma no_command:
  "te_accept e \<noteq> None \<or> te_incoming e = [] \<Longrightarrow> HandleTcpAtCommand cmd \<notin> set (snd (cycle t (sketch_tick tok e)))"
  by (cases "te_accept e")
    (auto simp: cycle_def sketch_tick_def tcp_accept_def tcp_read_def tcp_cleanup_def Let_def split: if_splits)

lemma quiet_turn_runs:
  assumes "sketch_loop b e s = Some (s1, out)" "\<not> sk_restarted s" "te_serial e = []" "te_ota e = []"
    and "te_accept e \<noteq> None \<or> te_incoming e = []"
  shows "\<not> sk_restarted s1"
proof -
  have b: "before_cycle b e s = sketch_heartbeat b e s"
    using assms(2,3) by (simp add: before_cycle_def drainSerialATCommands_def and_then_running)
  have h: "\<not> sk_restarted (fst (sketch_heartbeat b e s))" "sk_tcp (fst (sketch_heartbeat b e s)) = sk_tcp s"
    using assms(2) by (simp_all add: sketch_heartbeat_def split_beta Let_def)
  have c: "\<not> sk_restarted (fst (sketch_cycle b e x))" if "\<not> sk_restarted x" for x
    using that no_command[OF assms(5)] by (simp add: sketch_cycle_def split_beta callbacks_running)
  have u: "\<not> sk_restarted x1" if "sketch_update b e x = Some (x1, ou)" "\<not> sk_restarted x" for x x1 ou
    using that by (auto simp: sketch_update_def split: option.splits)
  have r: "\<not> sk_restarted (fst (restartTcpServerIfNeeded e x))" if "\<not> sk_restarted x" for x :: "'a sketch"
    using that by (simp add: restartTcpServerIfNeeded_def Let_def)
  have f: "\<not> sk_restarted (fst (sketch_frames e x))" if "\<not> sk_restarted x" for x :: "'a sketch"
    using that by (simp add: sketch_frames_def split_beta Let_def)
  have t: "\<not> sk_restarted (fst (and_then g q))"
    if "\<And>x. \<not> sk_restarted x \<Longrightarrow> \<not> sk_restarted (fst (g x))" "\<not> sk_restarted (fst q)"
    for g :: "'a sketch \<Rightarrow> 'a sketch \<times> sk_out list" and q
    using that by (simp add: and_then_running)
  let ?r = "and_then (sketch_cycle b e) (before_cycle b e s)"
  have nr: "\<not> sk_restarted (fst ?r)" using t[OF c] h(1) b by simp
  then obtain s4 o4 where s4: "sketch_update b e (fst ?r) = Some (s4, o4)"
    using assms(1) by (auto simp: sketch_loop_def before_cycle_def[symmetric] Let_def split: option.splits)
  have fin: "and_then (sketch_frames e) (and_then (restartTcpServerIfNeeded e) (s4, snd ?r @ o4)) = (s1, out)"
    using assms(1) nr s4 by (simp add: sketch_loop_def before_cycle_def[symmetric] assms(4) Let_def)
  have "\<not> sk_restarted (fst (and_then (sketch_frames e) (and_then (restartTcpServerIfNeeded e) (s4, snd ?r @ o4))))"
    by (intro t[OF f] t[OF r]) (use u[OF s4 nr] in simp_all)
  then show ?thesis by (simp add: fin)
qed


text \<open>The first turn admits a client that presents the token the device was built with.\<close>

definition ex_join :: turn_env where
  "ex_join = ex_turn\<lparr>te_accept := Some (''10.0.0.5'', ''AUTH vehicle-sim-2026''), te_canLive := True,
     te_frames := [\<lparr>can_id = 0x118, data_length_code = 1, can_data = [7, 0, 0, 0, 0, 0, 0, 0]\<rparr>]\<rparr>"

lemma ex_auth: "tcp_trim (''AUTH '' @ TCP_AUTH_TOKEN) = ''AUTH '' @ TCP_AUTH_TOKEN"
  by (simp add: tcp_trim_def TCP_AUTH_TOKEN_def trim_by_def ws6_def ws4_def TAB_def CR_def LF_def)

lemma ex_joined:
  obtains s0 out0 s1 out1 where
    "sketch_setup ex_build ex_boot mock_empty = Some (Inr (s0, out0))" "\<not> sk_restarted s0"
    "sk_authToken s0 = TCP_AUTH_TOKEN" "sketch_loop ex_build ex_join s0 = Some (s1, out1)" "\<not> sk_restarted s1"
proof -
  obtain s0 out0 where s: "sketch_setup ex_build ex_boot mock_empty = Some (Inr (s0, out0))"
    "sk_authToken s0 = TCP_AUTH_TOKEN" "\<not> sk_restarted s0" "ready (sk_app s0, [])"
    by (rule ex_start)
  obtain s1 out1 where l: "sketch_loop ex_build ex_join s0 = Some (s1, out1)"
    using loop_total[OF s(4), of ex_build ex_join] by auto
  have "\<not> sk_restarted s1"
    using quiet_turn_runs[OF l s(3)] by (simp add: ex_join_def ex_turn_def)
  then show ?thesis using that[OF s(1,3,2) l] by simp
qed

lemma ex_join_facts:
  assumes "sk_authToken s0 = TCP_AUTH_TOKEN"
  shows "te_accept ex_join = Some (''10.0.0.5'', ''AUTH '' @ sk_authToken s0)"
    and "tcp_trim (''AUTH '' @ sk_authToken s0) = ''AUTH '' @ sk_authToken s0"
    and "te_canLive ex_join" and "\<not> te_clientLive ex_join"
  using ex_auth by (simp_all add: ex_join_def ex_turn_def assms TCP_AUTH_TOKEN_def)

theorem a_new_client_is_served_at_once_witness:
  "\<exists>(s1 :: mock_prefs sketch) out1. hasClient (sk_tcp s1) \<and>
    currentPattern (a_led (sk_app s1)) = pattern_ord P_CLIENT_CONNECTED \<and>
    filter (\<lambda>c. case c of CanSerialPrint t \<Rightarrow> False | _ \<Rightarrow> True) (can_calls out1) =
    concat (map (\<lambda>m. [CanTcpPrint (frame_text m), CanTcpFlush]) (te_frames ex_join))"
proof -
  obtain s0 out0 s1 out1 where s:
    "sketch_setup ex_build ex_boot mock_empty = Some (Inr (s0, out0))" "\<not> sk_restarted s0"
    "sk_authToken s0 = TCP_AUTH_TOKEN" "sketch_loop ex_build ex_join s0 = Some (s1, out1)" "\<not> sk_restarted s1"
    by (rule ex_joined)
  have r: "sketch_run ex_build [] s0 = Some (s0, [])" by simp
  note j = ex_join_facts[OF s(3)]
  show ?thesis
    by (intro exI[of _ s1] exI[of _ out1]) (rule a_new_client_is_served_at_once[OF s(1) r j(1) s(4,5) j(2,3)])
qed

theorem frames_need_the_token_witness:
  "\<exists>s1 :: mock_prefs sketch. hasClient (sk_tcp s1) \<and> last_accept_valid (ticks TCP_AUTH_TOKEN ([] @ [Turn ex_join])) False \<or>
     typed_since \<lparr>maxLen = MAX_SERIAL_CMD_LENGTH, buffer = []\<rparr> False ([] @ [Turn ex_join])"
proof -
  obtain s0 out0 s1 out1 where s:
    "sketch_setup ex_build ex_boot mock_empty = Some (Inr (s0, out0))" "\<not> sk_restarted s0"
    "sk_authToken s0 = TCP_AUTH_TOKEN" "sketch_loop ex_build ex_join s0 = Some (s1, out1)" "\<not> sk_restarted s1"
    by (rule ex_joined)
  have r: "sketch_run ex_build [] s0 = Some (s0, [])" by simp
  note j = ex_join_facts[OF s(3)]
  let ?t = "frame_text \<lparr>can_id = 0x118, data_length_code = 1, can_data = [7, 0, 0, 0, 0, 0, 0, 0]\<rparr>"
  have "CanTcpPrint ?t \<in> set (concat (map (\<lambda>m. [CanTcpPrint (frame_text m), CanTcpFlush]) (te_frames ex_join)))"
    by (simp add: ex_join_def)
  then have "CanTcpPrint ?t \<in> set (filter (\<lambda>c. case c of CanSerialPrint t \<Rightarrow> False | _ \<Rightarrow> True) (can_calls out1))"
    using served_at_once[OF s(1) r j(1) s(4,5) j(2,3)] by argo
  then have p: "CanTcpPrint ?t \<in> set (can_calls out1)" by simp
  show ?thesis
    using frames_need_the_token[OF s(1) r s(2) s(4) p] by (auto simp: s(3))
qed


theorem the_device_log_is_sound_witness:
  "\<exists>s0 out0 s out. sketch_setup ex_build ex_boot mock_empty = Some (Inr (s0, out0)) \<and>
    sketch_run ex_build [Turn ex_join] s0 = Some (s, out) \<and> wifi_inv (a_wifi (sk_app s)) \<and>
    (log_says False (app_calls (out0 @ out)) \<longrightarrow> state (a_wifi (sk_app s)) = WIFI_CONNECTED)"
proof -
  obtain s0 out0 s1 out1 where s:
    "sketch_setup ex_build ex_boot mock_empty = Some (Inr (s0, out0))" "\<not> sk_restarted s0"
    "sk_authToken s0 = TCP_AUTH_TOKEN" "sketch_loop ex_build ex_join s0 = Some (s1, out1)" "\<not> sk_restarted s1"
    by (rule ex_joined)
  then have r: "sketch_run ex_build [Turn ex_join] s0 = Some (s1, out1)" by (simp add: sketch_step_def)
  show ?thesis using the_device_log_is_sound[OF s(1) r] s(1) r by blast
qed


text \<open>A device on the network with a client, as the drop finds it.\<close>

theorem a_lost_link_costs_the_client_witness:
  "\<exists>out. GlobalClientStop \<in> set out"
proof -
  obtain s0 out0 where s0: "sketch_setup ex_build ex_boot mock_empty = Some (Inr (s0, out0))"
    "\<not> sk_restarted s0" "ready (sk_app s0, [])" by (rule ex_start)
  let ?s = "s0\<lparr>sk_tcp := \<lparr>hasClient = True, clientIp = ''10.0.0.5'', partialLine = []\<rparr>,
    sk_app := (sk_app s0)\<lparr>a_wifi := (a_wifi (sk_app s0))\<lparr>state := WIFI_CONNECTED\<rparr>\<rparr>\<rparr>"
  let ?e = "ex_turn\<lparr>te_clientLive := True\<rparr>"
  obtain a o1 where d: "onWiFiDisconnected 8 [] 0 (sk_app ?s) = (a, o1)" by force
  then have "a_initialized a" "initialized (a_can a)"
    using s0(3) by (auto simp: onWiFiDisconnected_def ready_def Let_def split_beta)
  then have "ready (sk_app (?s\<lparr>sk_app := a\<rparr>), [])" by (simp add: ready_def)
  from loop_total[OF this, of ex_build ?e] obtain s1 o2 where
    l: "sketch_loop ex_build ?e (?s\<lparr>sk_app := a\<rparr>) = Some (s1, o2)" by auto
  have run: "sketch_run ex_build [WifiLost 8 [] 0, Turn ?e] ?s = Some (s1, map AppCall o1 @ o2)"
    using s0(2) l d by (simp add: sketch_step_def)
  have nr: "\<not> sk_restarted s1"
    using quiet_turn_runs[OF l] s0(2) by (simp add: ex_turn_def)
  have "hasClient (sk_tcp s1)"
    using loop_net(1)[OF l nr] by (simp add: sketch_tick_def cycle_def tcp_read_def ex_turn_def)
  from a_lost_link_costs_the_client[OF _ _ run nr this] show ?thesis
    by (auto simp: isAuthMechanismFailure_def wifi_reasons)
qed

theorem an_empty_post_restarts_the_device_witness:
  "\<exists>(s1 :: mock_prefs sketch) out. sk_restarted s1 \<and> SdkRestart \<in> set out \<and>
    OtaCall (HttpSend HTTP_OK ''Update Success! Rebooting...'') \<in> set out"
proof -
  obtain s0 out0 where s0: "sketch_setup ex_build ex_boot mock_empty = Some (Inr (s0, out0))"
    "otaErr (sk_ota s0) = []" "\<not> sk_restarted s0" "ready (sk_app s0, [])" by (rule ex_start)
  have "te_serial (ex_turn\<lparr>te_ota := [OtaPost False]\<rparr>) = []" "te_accept (ex_turn\<lparr>te_ota := [OtaPost False]\<rparr>) = None"
    "te_incoming (ex_turn\<lparr>te_ota := [OtaPost False]\<rparr>) = []"
    "te_ota (ex_turn\<lparr>te_ota := [OtaPost False]\<rparr>) = [OtaPost False]" by (simp_all add: ex_turn_def)
  from an_empty_post_restarts_the_device[OF s0(4,3,2) this, of ex_build] show ?thesis by blast
qed

theorem a_new_token_opens_the_next_start_witness:
  "\<exists>s1 :: mock_prefs sketch. sk_restarted s1 \<and>
    (\<forall>be s2 out2 e2 ip raw. sketch_setup ex_build be (sk_prefs s1) = Some (Inr (s2, out2)) \<and>
        te_accept e2 = Some (ip, raw) \<longrightarrow>
      (hasClient (fst (cycle (sk_tcp s2) (sketch_tick (sk_authToken s2) e2)))
        \<longleftrightarrow> tcp_trim raw = ''AUTH '' @ ''s3cret''))"
proof -
  obtain s0 out0 where s0: "sketch_setup ex_build ex_boot mock_empty = Some (Inr (s0, out0))"
    "sk_framer s0 = \<lparr>maxLen = MAX_SERIAL_CMD_LENGTH, buffer = []\<rparr>" "\<not> sk_restarted s0" by (rule ex_start)
  have "reliable_prefs (b_pf ex_build) mock_view currentNamespace mock_writable"
    using mock.reliable_prefs_axioms by (simp add: ex_build_def)
  moreover have "token_text ''s3cret''" by (simp add: token_text_def ws4_def TAB_def CR_def LF_def)
  moreover have "te_serial (ex_turn\<lparr>te_serial := ''ATSETTOKEN'' @ ''s3cret'' @ [CR]\<rparr>) = ''ATSETTOKEN'' @ ''s3cret'' @ [CR]"
    by simp
  ultimately show ?thesis
    using a_new_token_opens_the_next_start[OF _ _ s0(2,3),
        of ex_build mock_view currentNamespace mock_writable "''s3cret''"
          "ex_turn\<lparr>te_serial := ''ATSETTOKEN'' @ ''s3cret'' @ [CR]\<rparr>"] by blast
qed

text \<open>A name of twenty characters and a password of fifty.\<close>

definition ex_long_line :: string where
  "ex_long_line = ''ATSETWIFI'' @ replicate 20 CHR ''n'' @ CHR '','' # replicate 50 CHR ''p''"

theorem long_credentials_are_lost_on_the_console_witness:
  "\<exists>s0 s1 :: mock_prefs sketch. drainSerialATCommands ex_build (\<lambda>i. 0) (ex_long_line @ [CR]) s0 =
      (s1, [AtCall (SerialPrintln ''?'')]) \<and> sk_tokens s1 = sk_tokens s0 \<and> \<not> sk_restarted s1"
proof -
  obtain s0 out0 where s0: "sketch_setup ex_build ex_boot mock_empty = Some (Inr (s0, out0))"
    "sk_framer s0 = \<lparr>maxLen = MAX_SERIAL_CMD_LENGTH, buffer = []\<rparr>" "\<not> sk_restarted s0" by (rule ex_start)
  have "drop 65 ex_long_line = replicate 15 CHR ''p''" by (simp add: ex_long_line_def numeral_eq_Suc)
  moreover have "find_handler (normalizeAtCommand (replicate 15 CHR ''p'')) = None"
    by (simp add: find_handler_def firmware_handlers_def normalizeAtCommand_def trim_by_def ws4_def
        TAB_def CR_def LF_def to_upper_def starts_with_def numeral_eq_Suc)
  ultimately have "find_handler (normalizeAtCommand (drop 65 ex_long_line)) = None" by simp
  moreover have "65 < length ex_long_line" "length ex_long_line \<le> 129" "CR \<notin> set ex_long_line"
    "LF \<notin> set ex_long_line" "CHR 0x00 \<notin> set ex_long_line"
    by (simp_all add: ex_long_line_def CR_def LF_def)
  ultimately show ?thesis
    using long_credentials_are_lost_on_the_console[OF s0(2,3) ex_long_line_def] by blast
qed

text \<open>The button held for more than three seconds, and one that bounces.\<close>

definition ex_held :: boot_env where "ex_held = ex_boot\<lparr>bt_pin := True # replicate 31 True\<rparr>"

theorem a_held_button_boots_the_access_point_witness:
  "\<exists>s :: mock_prefs sketch. state (a_wifi (sk_app s)) = WIFI_AP_MODE_DEFAULT \<and>
     (\<forall>k. mock_view (sk_prefs s) (NVS_WIFI_NAMESPACE, k) = [])"
proof -
  have d: "dropWhile Not (replicate 31 True) = replicate 31 True"
    "takeWhile (\<lambda>b. b) (replicate 31 True) = replicate 31 True" by (simp_all add: numeral_eq_Suc)
  then have "map_option fst (reset_check_run FACTORY_RESET_HOLD_MS FACTORY_RESET_POLL_MS (bt_pin ex_held)) = Some True"
    using reset_counts[of "replicate 31 True"] by (simp add: ex_held_def Let_def)
  then obtain o1 where "reset_check_run FACTORY_RESET_HOLD_MS FACTORY_RESET_POLL_MS (bt_pin ex_held) = Some (True, o1)"
    by auto
  then obtain s out where s: "sketch_setup ex_build ex_held mock_empty = Some (Inr (s, out))"
    by (rule setup_total[of _ _ _ ex_build mock_empty]) (simp_all add: ex_held_def ex_boot_def)
  have "prefs_laws (b_pf ex_build) mock_view currentNamespace mock_writable"
    using mock.prefs_laws_axioms by (simp add: ex_build_def)
  from a_held_button_boots_the_access_point[OF this _ s, of "replicate 31 True"] show ?thesis
    by (auto simp: ex_held_def d)
qed

theorem a_bounce_blocks_the_start_witness:
  "sketch_setup ex_build (ex_boot\<lparr>bt_pin := True # replicate 1000 False\<rparr>) mock_empty = None"
  by (rule a_bounce_blocks_the_start) simp

end
