(* ===== verification/Host_Ble.thy ===== *)
theory Host_Ble
  imports Host_Elm327 Host_Main
begin

text \<open>
  Bluetooth on the host: \<open>src/src/ble/TeslaBLETransport.cpp\<close>, \<open>DeviceRegistry.cpp\<close>, \<open>BLEManager.cpp\<close>,
  the collaborators \<open>ConnectionState.h\<close>, \<open>RawActivity.h\<close>, \<open>CallbackHub.h\<close>, \<open>SignalQuality.h\<close>, and
  \<open>src/src/cli/BLEConnectionManager.cpp\<close> and \<open>BLERunContext.cpp\<close>, on top of the session of
  \<open>Host_Elm327\<close>.

  The platform's Bluetooth stack is not part of the model: what it answers to \<open>connect\<close> and
  \<open>waitForCharacteristics\<close>, and the notifications it delivers, are arguments. Its notifications come
  on a thread of their own; between two checks of the run they are handled in order. The progress
  messages of the session itself are left out.
\<close>

section \<open>Packets with a checksum\<close>

definition HEADER_BYTE_1 :: u8 where "HEADER_BYTE_1 = 0xAA"
definition HEADER_BYTE_2 :: u8 where "HEADER_BYTE_2 = 0x55"

text \<open>Called on packets of at least four bytes; the sum has 32 bits.\<close>

definition calculateChecksum :: "u8 list \<Rightarrow> u8" where
  "calculateChecksum data = ucast (sum_list (map ucast (butlast data)) AND (0xFF :: u32))"

definition validatePacket :: "u8 list \<Rightarrow> bool" where
  "validatePacket packet \<longleftrightarrow>
     4 \<le> length packet \<and> packet ! 0 = HEADER_BYTE_1 \<and> packet ! 1 = HEADER_BYTE_2
     \<and> length packet = unat (packet ! 2) + 4 \<and> calculateChecksum packet = last packet"

fun header_pos :: "u8 list \<Rightarrow> nat option" where
  "header_pos (a # b # r) =
     (if a = HEADER_BYTE_1 \<and> b = HEADER_BYTE_2 then Some 0 else map_option Suc (header_pos (b # r)))"
| "header_pos _ = None"

text \<open>The loop of \<open>extractCompletePackets\<close>: the packets it forwards, and the buffer it leaves.\<close>

function tesla_scan :: "u8 list \<Rightarrow> u8 list list \<times> u8 list" where
  "tesla_scan buf =
     (if length buf < 4 then ([], buf)
      else
        (case header_pos buf of
           None \<Rightarrow> ([], [])
         | Some i \<Rightarrow>
             let b = drop i buf
             in if length b < 3 then ([], b)
                else
                  let n = unat (b ! 2) + 4
                  in if length b < n then ([], b)
                     else
                       let (ps, rest) = tesla_scan (drop n b)
                       in (if validatePacket (take n b) then take n b # ps else ps, rest)))"
  by pat_completeness auto
termination
  by (relation "measure length") auto

declare tesla_scan.simps [simp del]

text \<open>
  As in \<open>obd2_link\<close>, taking the mutex of the buffer while holding it never returns: \<open>None\<close>.
\<close>

record tesla_link =
  tl_connected :: bool
  tl_buffer :: "u8 list"
  tl_subscribed :: bool

definition tesla_new :: tesla_link where
  "tesla_new = \<lparr>tl_connected = False, tl_buffer = [], tl_subscribed = False\<rparr>"

definition tesla_connect :: "bool \<Rightarrow> tesla_link \<Rightarrow> bool \<times> tesla_link" where
  "tesla_connect accepted l =
     (if tl_connected l then (True, l) else (accepted, l\<lparr>tl_connected := accepted\<rparr>))"

definition tesla_disconnect :: "tesla_link \<Rightarrow> tesla_link" where
  "tesla_disconnect l =
     (if \<not> tl_connected l then l
      else l\<lparr>tl_connected := False, tl_buffer := [], tl_subscribed := False\<rparr>)"

definition tesla_isConnected :: "bool \<Rightarrow> tesla_link \<Rightarrow> bool" where
  "tesla_isConnected platformUp l \<longleftrightarrow> tl_connected l \<and> platformUp"

definition tesla_send :: "u8 list \<Rightarrow> tesla_link \<Rightarrow> u8 list list" where
  "tesla_send data l = (if tl_connected l then [data] else [])"

definition subscribeToNotifications :: "bool \<Rightarrow> tesla_link \<Rightarrow> tesla_link" where
  "subscribeToNotifications callbackSet l = l\<lparr>tl_subscribed := callbackSet\<rparr>"

definition tesla_unsubscribe :: "tesla_link \<Rightarrow> tesla_link" where
  "tesla_unsubscribe l = l\<lparr>tl_subscribed := False\<rparr>"

definition forwardPackets :: "tesla_link \<Rightarrow> u8 list list \<Rightarrow> u8 list list" where
  "forwardPackets l ps = (if tl_subscribed l then ps else [])"

definition extractCompletePackets :: "bool \<Rightarrow> tesla_link \<Rightarrow> (tesla_link \<times> u8 list list) option" where
  "extractCompletePackets bufferLocked l =
     (if bufferLocked then None
      else
        let (ps, rest) = tesla_scan (tl_buffer l)
        in Some (l\<lparr>tl_buffer := rest\<rparr>, forwardPackets l ps))"

definition tesla_processIncomingData :: "u8 list \<Rightarrow> tesla_link \<Rightarrow> (tesla_link \<times> u8 list list) option" where
  "tesla_processIncomingData data l =
     extractCompletePackets False (l\<lparr>tl_buffer := tl_buffer l @ data\<rparr>)"

definition tesla_readData :: "tesla_link \<Rightarrow> (u8 list option \<times> tesla_link) option" where
  "tesla_readData l =
     (if tl_buffer l = [] then Some (None, l)
      else
        (case extractCompletePackets True l of
           None \<Rightarrow> None
         | Some (l1, ps) \<Rightarrow>
             if tl_buffer l1 = [] then Some (None, l1)
             else Some (Some (tl_buffer l1), l1\<lparr>tl_buffer := []\<rparr>)))"

section \<open>Devices that were found\<close>

record BLEDeviceInfo =
  bd_address :: string
  bd_name :: string
  bd_isConnected :: bool
  bd_rssi :: int

definition is_continuation :: "char \<Rightarrow> bool" where
  "is_continuation c \<longleftrightarrow> (of_char c :: u8) AND 0xC0 = 0x80"

definition padToWidth :: "string \<Rightarrow> nat \<Rightarrow> string" where
  "padToWidth s width =
     (let displayWidth = length (filter (\<lambda>c. \<not> is_continuation c) s)
      in s @ replicate (width - displayWidth) CHR '' '')"

text \<open>\<open>std::setw\<close> on a right-aligned field.\<close>

definition setw_right :: "nat \<Rightarrow> string \<Rightarrow> string" where
  "setw_right w s = replicate (w - length s) CHR '' '' @ s"

definition device_line :: "nat \<Rightarrow> BLEDeviceInfo \<Rightarrow> string" where
  "device_line n d =
     ''  ['' @ setw_right 2 (dec_str n) @ ''] '' @ padToWidth (bd_name d) 36 @ padToWidth (bd_address d) 40
     @ ''RSSI:'' @ setw_right 4 (int_str (bd_rssi d)) @ ''  ''
     @ (if bd_isConnected d then ''[Connected]'' else ''[Available]'') @ [LF]"

datatype hub_call =
    DeviceFound BLEDeviceInfo
  | ConnectionChanged bool string

record callback_hub =
  ch_device :: bool
  ch_connection :: bool

definition findDeviceByAddress :: "string \<Rightarrow> BLEDeviceInfo list \<Rightarrow> BLEDeviceInfo option" where
  "findDeviceByAddress address ds = find (\<lambda>d. bd_address d = address) ds"

text \<open>The registry, the line printed and the call of the hub.\<close>

definition addDiscoveredDevice ::
    "callback_hub \<Rightarrow> BLEDeviceInfo \<Rightarrow> BLEDeviceInfo list \<Rightarrow> BLEDeviceInfo list \<times> string \<times> hub_call list" where
  "addDiscoveredDevice h d ds =
     (if \<exists>e \<in> set ds. bd_address e = bd_address d then (ds, [], [])
      else (ds @ [d], device_line (length ds + 1) d, if ch_device h then [DeviceFound d] else []))"

fun discover_all ::
    "callback_hub \<Rightarrow> BLEDeviceInfo list \<Rightarrow> BLEDeviceInfo list \<Rightarrow> BLEDeviceInfo list \<times> string \<times> hub_call list" where
  "discover_all h [] ds = (ds, [], [])"
| "discover_all h (d # r) ds =
     (let (ds1, t1, c1) = addDiscoveredDevice h d ds; (ds2, t2, c2) = discover_all h r ds1
      in (ds2, t1 @ t2, c1 @ c2))"

record ble_state =
  bs_connected :: bool
  bs_deviceId :: string

definition setConnectionState ::
    "callback_hub \<Rightarrow> bool \<Rightarrow> string \<Rightarrow> ble_state \<times> hub_call list" where
  "setConnectionState h up device =
     (\<lparr>bs_connected = up, bs_deviceId = device\<rparr>,
      if ch_connection h then [ConnectionChanged up device] else [])"

definition signalQuality :: "int \<Rightarrow> string" where
  "signalQuality rssi =
     (if -50 \<le> rssi then ''Excellent'' else if -65 \<le> rssi then ''Good''
      else if -75 \<le> rssi then ''Fair'' else ''Poor'')"

text \<open>\<open>--scan\<close>: the answer of the scan, the text and the exit code.\<close>

definition BLE_SCAN_TIMEOUT_S :: nat where "BLE_SCAN_TIMEOUT_S = 10"

definition runScan :: "BLEDeviceInfo list \<Rightarrow> nat \<times> string" where
  "runScan devices =
     (let intro = [LF] @ ''Scanning for BLE devices ('' @ dec_str BLE_SCAN_TIMEOUT_S @ '' seconds)...'' @ [LF]
            @ ''Note: Make sure your vehicle is ON and OBD2 adapter is connected.'' @ [LF, LF]
      in if devices = [] then
           (1, intro @ [LF] @ ''No BLE devices found.'' @ [LF, LF] @ ''Troubleshooting:'' @ [LF]
              @ ''  1. Ensure your vehicle is powered ON (accessory mode or drive mode)'' @ [LF]
              @ ''  2. Verify OBD2 adapter is connected to vehicle'' @ [CHR 0x27] @ ''s OBD-II port'' @ [LF]
              @ ''  3. Check adapter has power (some require external power)'' @ [LF]
              @ ''  4. On macOS, grant Bluetooth permissions if prompted'' @ [LF]
              @ ''  5. Try moving closer to vehicle (BLE range ~10m)'' @ [LF])
         else
           (0, intro @ [LF] @ ''Found '' @ dec_str (length devices) @ '' BLE device(s).'' @ [LF]
              @ ''To connect: vehicle-sim --connect <address> --vehicle <type>'' @ [LF, LF]))"

section \<open>The connection manager\<close>

datatype ble_call =
    PlatformConnect string
  | PlatformDisconnect
  | PlatformRelease
  | WaitForCharacteristics int
  | SendAscii string
  | SetDataCallback
  | StartPollingThread int
  | StopPollingThread

datatype ble_out = BleCall ble_call | BleText string | BleError string

record ble_answers =
  an_connects :: bool
  an_ready :: bool
  an_prompts :: "bool list"

text \<open>
  \<open>bm_linked\<close>: the platform holds a peripheral, which it does from an accepted connection until it is
  asked to drop it.
\<close>

record ble_conn =
  bm_linked :: bool
  bm_isConnected :: bool
  bm_polling :: bool
  bm_protocol :: VehicleProtocol
  bm_session :: elm_session

definition ble_new :: ble_conn where
  "ble_new = \<lparr>bm_linked = False, bm_isConnected = False, bm_polling = False, bm_protocol = OBD2,
     bm_session = session_new\<rparr>"

definition CHARACTERISTICS_WAIT_MS :: int where "CHARACTERISTICS_WAIT_MS = 10000"

definition manager_connect :: "ble_answers \<Rightarrow> string \<Rightarrow> ble_conn \<Rightarrow> bool \<times> ble_conn \<times> ble_out list" where
  "manager_connect a address c =
     (an_connects a, c\<lparr>bm_linked := an_connects a\<rparr>,
      [BleCall (PlatformConnect address),
       BleText ((if an_connects a then ''[BLEManager] Connected to device: '' @ forLog address
                 else ''[BLEManager] Connection failed'') @ [LF])])"

definition manager_disconnect :: "ble_conn \<Rightarrow> ble_conn \<times> ble_out list" where
  "manager_disconnect c =
     (c\<lparr>bm_linked := False\<rparr>, [BleCall PlatformDisconnect, BleText (''[BLEManager] Disconnected'' @ [LF])])"

definition conn_disconnect :: "ble_conn \<Rightarrow> ble_conn \<times> ble_out list" where
  "conn_disconnect c =
     (if \<not> bm_isConnected c then (c, [])
      else
        let (c1, out) = manager_disconnect c
        in (c1\<lparr>bm_isConnected := False\<rparr>, BleText (''Disconnecting...'' @ [LF]) # out))"

definition protocol_init ::
    "ble_answers \<Rightarrow> VehicleProtocol \<Rightarrow> elm_session \<Rightarrow> bool \<times> elm_session \<times> string list" where
  "protocol_init a protocol s =
     (if protocol = CAN then initializeCANMonitor s else initializeELM327 (an_prompts a) s)"

definition connect_failed :: "string \<Rightarrow> string" where
  "connect_failed address =
     [LF] @ ''Failed to connect to BLE device: '' @ forLog address @ [LF, LF]
     @ ''Possible reasons:'' @ [LF] @ ''  - Device address is incorrect'' @ [LF]
     @ ''  - Device is out of range'' @ [LF]
     @ ''  - Device is already connected to another application'' @ [LF]
     @ ''  - OBD2 adapter lost power'' @ [LF, LF]
     @ ''Try running --scan to verify device is available.'' @ [LF]"

definition protocol_label :: "VehicleProtocol \<Rightarrow> string" where
  "protocol_label protocol = (if protocol = CAN then ''CAN'' else ''OBD2'')"

definition conn_connect ::
    "ble_answers \<Rightarrow> string \<Rightarrow> VehicleProtocol \<Rightarrow> ble_conn \<Rightarrow> bool \<times> ble_conn \<times> ble_out list" where
  "conn_connect a address protocol c0 =
     (let c = c0\<lparr>bm_protocol := protocol\<rparr>;
          o1 = [BleText (''Attempting to connect to: '' @ forLog address @ [LF])];
          (linked, c1, o2) = manager_connect a address c
      in if \<not> linked then (False, c1, o1 @ o2 @ [BleError (connect_failed address)])
         else
           let o3 = o1 @ o2 @ [BleText (''Connected! Waiting for service/characteristic discovery...'' @ [LF]),
                               BleCall (WaitForCharacteristics CHARACTERISTICS_WAIT_MS)]
           in if \<not> an_ready a then
                (let (c2, o4) = conn_disconnect c1
                 in (False, c2, o3 @ [BleError ([LF] @ ''Failed to discover required BLE characteristics.'' @ [LF]
                      @ ''Check that the OBD2 adapter is powered and in range.'' @ [LF])] @ o4))
              else
                let (ok, s, sent) = protocol_init a protocol (bm_session c1);
                    c2 = c1\<lparr>bm_session := s\<rparr>;
                    o4 = o3 @ [BleText (''Characteristics ready.'' @ [LF]),
                        BleText ((if protocol = CAN then ''Initializing CAN monitor mode...''
                                  else ''Initializing OBD2 adapter...'') @ [LF])]
                      @ map (BleCall \<circ> SendAscii) sent
                in if \<not> ok then
                     (let (c3, o5) = conn_disconnect c2
                      in (False, c3, o4 @ [BleError ((if protocol = CAN
                            then ''Failed to initialize ELM327 for CAN monitoring''
                            else ''Failed to initialize ELM327 adapter'') @ [LF])] @ o5))
                   else
                     (True, c2\<lparr>bm_isConnected := True\<rparr>,
                      o4 @ [BleText (''Starting '' @ protocol_label protocol @ '' data polling...'' @ [LF]),
                            BleText (''Press Ctrl+C to stop'' @ [LF]), BleCall SetDataCallback]))"

definition startPolling :: "int \<Rightarrow> ble_conn \<Rightarrow> ble_conn \<times> ble_out list" where
  "startPolling interval c =
     (if \<not> bm_isConnected c then (c, [])
      else if bm_protocol c = CAN then
        (c\<lparr>bm_session := startCANMonitor (bm_session c), bm_polling := True\<rparr>, [])
      else
        (c\<lparr>bm_session := (bm_session c)\<lparr>es_polling := True\<rparr>, bm_polling := True\<rparr>,
         if es_polling (bm_session c) then [] else [BleCall (StartPollingThread interval)]))"

definition stopPolling :: "ble_conn \<Rightarrow> ble_conn \<times> ble_out list" where
  "stopPolling c =
     (if \<not> bm_polling c then (c, [])
      else if bm_protocol c = CAN then
        (let (s, sent) = stopCANMonitor (bm_session c)
         in (c\<lparr>bm_session := s, bm_polling := False\<rparr>, map (BleCall \<circ> SendAscii) sent))
      else
        (c\<lparr>bm_session := (bm_session c)\<lparr>es_polling := False, es_promptReady := True\<rparr>, bm_polling := False\<rparr>,
         if es_polling (bm_session c) then [BleCall StopPollingThread] else []))"

text \<open>
  The end of the manager's life: the body of its destructor and then that of its members, which ends
  with the platform's own, where a peripheral still held is released and its connection cancelled.
\<close>

definition platform_destroy :: "ble_conn \<Rightarrow> ble_conn \<times> ble_out list" where
  "platform_destroy c = (c\<lparr>bm_linked := False\<rparr>, if bm_linked c then [BleCall PlatformRelease] else [])"

definition conn_destroy :: "ble_conn \<Rightarrow> ble_conn \<times> ble_out list" where
  "conn_destroy c =
     (let (c1, o1) = stopPolling c; (c2, o2) = conn_disconnect c1; (c3, o3) = platform_destroy c2
      in (c3, o1 @ o2 @ o3))"

definition connectionLost :: "bool \<Rightarrow> ble_conn \<Rightarrow> bool" where
  "connectionLost platformUp c \<longleftrightarrow> bm_isConnected c \<and> \<not> platformUp"

section \<open>The Bluetooth run\<close>

definition BLE_HEALTH_CHECK_MS :: int where "BLE_HEALTH_CHECK_MS = 500"
definition NO_DATA_WARNING_S :: nat where "NO_DATA_WARNING_S = 5"
definition DRIVE_MODE_HINT_COUNT :: nat where "DRIVE_MODE_HINT_COUNT = 3"
definition MIN_RAW_DATA_LOG_LENGTH :: nat where "MIN_RAW_DATA_LOG_LENGTH = 3"

record 'd ble_monitor =
  mo_session :: elm_session
  mo_service :: "'d service"
  mo_notifications :: nat
  mo_lastHex :: string
  mo_signalCount :: nat
  mo_dataReceived :: bool
  mo_noDataCount :: nat
  mo_detectionShown :: bool
  mo_lastActivity :: nat

text \<open>What the consumer does with a delivered packet; \<open>None\<close> is undefined behaviour of the translator.\<close>

definition raw_response :: "string \<Rightarrow> u8 list \<Rightarrow> string" where
  "raw_response label data =
     (if MIN_RAW_DATA_LOG_LENGTH \<le> length data then
        CHR ''['' # label @ ''] Raw response: ''
        @ concat (map (\<lambda>b. lower_hex (unat b div 16) @ lower_hex (unat b mod 16) @ '' '') data) @ [LF]
      else [])"

definition ble_data ::
    "'d host_env \<Rightarrow> string \<Rightarrow> u64 \<Rightarrow> u8 list \<Rightarrow> 'd ble_monitor \<Rightarrow> ('d ble_monitor \<times> string) option" where
  "ble_data h label clock data m =
     (case processFrame h clock data None (mo_service m) of
        (None, sv) \<Rightarrow> None
      | (Some r, sv) \<Rightarrow>
          Some (m\<lparr>mo_service := sv, mo_dataReceived := True,
                  mo_signalCount := mo_signalCount m + (if r = None then 0 else 1)\<rparr>,
                raw_response label data))"

fun ble_deliver ::
    "'d host_env \<Rightarrow> string \<Rightarrow> u64 \<Rightarrow> u8 list list \<Rightarrow> 'd ble_monitor \<Rightarrow> ('d ble_monitor \<times> string) option" where
  "ble_deliver h label clock [] m = Some (m, [])"
| "ble_deliver h label clock (d # ds) m =
     (case ble_data h label clock d m of
        None \<Rightarrow> None
      | Some (m1, t1) \<Rightarrow> map_option (apsnd ((@) t1)) (ble_deliver h label clock ds m1))"

text \<open>\<open>RawActivity::notify\<close>, then the session, then the consumer.\<close>

definition notify ::
    "'d host_env \<Rightarrow> (string \<Rightarrow> nat) \<Rightarrow> string \<Rightarrow> nat \<Rightarrow> u64 \<Rightarrow> u8 list \<Rightarrow> 'd ble_monitor \<Rightarrow>
     ('d ble_monitor \<times> string) option" where
  "notify h big label now clock data m =
     (let (s, packets) = handleIncomingData big now data (mo_session m)
      in ble_deliver h label clock packets
           (m\<lparr>mo_notifications := mo_notifications m + 1, mo_lastHex := lastRawHex data, mo_session := s\<rparr>))"

fun notify_all ::
    "'d host_env \<Rightarrow> (string \<Rightarrow> nat) \<Rightarrow> string \<Rightarrow> nat \<Rightarrow> u64 \<Rightarrow> u8 list list \<Rightarrow> 'd ble_monitor \<Rightarrow>
     ('d ble_monitor \<times> string) option" where
  "notify_all h big label now clock [] m = Some (m, [])"
| "notify_all h big label now clock (d # ds) m =
     (case notify h big label now clock d m of
        None \<Rightarrow> None
      | Some (m1, t1) \<Rightarrow> map_option (apsnd ((@) t1)) (notify_all h big label now clock ds m1))"

text \<open>
  One health check: whether the platform is connected and a stop was asked for before it, the
  notifications that come while it sleeps, and the clocks after the sleep (in nanoseconds of the
  steady clock, and milliseconds of the system's).
\<close>

record health_check =
  hk_connected :: bool
  hk_stop :: bool
  hk_notes :: "u8 list list"
  hk_now :: nat
  hk_clock :: u64

definition confidence_ord :: "DetectionConfidence \<Rightarrow> nat" where
  "confidence_ord c =
     (case c of NoConfidence \<Rightarrow> 0 | LowConfidence \<Rightarrow> 1 | MediumConfidence \<Rightarrow> 2 | HighConfidence \<Rightarrow> 3)"

definition setw_left_blank :: "nat \<Rightarrow> string \<Rightarrow> string" where
  "setw_left_blank w s = s @ replicate (w - length s) CHR '' ''"

definition show_detection :: "'d ble_monitor \<Rightarrow> 'd ble_monitor \<times> string" where
  "show_detection m =
     (let r = getResult (es_detector (mo_session m))
      in if mo_detectionShown m \<or> dr_frameCount r = 0 then (m, [])
         else (m\<lparr>mo_detectionShown := True\<rparr>,
               [LF] @ ''[VehicleDetector] '' @ dr_evidenceSummary r @ [LF]
               @ (if dr_suggestedVehicleId r = [] then []
                  else ''[VehicleDetector] Suggesting: '' @ dr_suggestedVehicleId r
                    @ '' (confidence: '' @ dec_str (confidence_ord (dr_confidence r)) @ '')'' @ [LF])))"

definition check_activity :: "nat \<Rightarrow> 'd ble_monitor \<Rightarrow> 'd ble_monitor \<times> string" where
  "check_activity now m =
     (let elapsed = (now - mo_lastActivity m) div 1000000000
      in if mo_dataReceived m then
           (m\<lparr>mo_lastActivity := now, mo_dataReceived := False, mo_noDataCount := 0\<rparr>, [])
         else if NO_DATA_WARNING_S < elapsed then
           (m\<lparr>mo_noDataCount := mo_noDataCount m + 1\<rparr>,
            if mo_noDataCount m + 1 = 1 then
              [LF] @ ''[!] No data received for '' @ dec_str elapsed @ '' seconds.'' @ [LF]
              @ ''[!] Ensure vehicle is ON and OBD2 adapter has power.'' @ [LF]
            else if mo_noDataCount m + 1 = DRIVE_MODE_HINT_COUNT then
              ''[!] Still waiting. Some adapters need '' @ [CHR 0x27] @ ''Drive'' @ [CHR 0x27] @ '' mode.'' @ [LF]
            else [])
         else (m, []))"

definition activity_line :: "'d ble_monitor \<Rightarrow> string" where
  "activity_line m =
     CR # ''[BLE] notifications: '' @ dec_str (mo_notifications m) @ ''  last: ''
     @ setw_left_blank 52 (mo_lastHex m)"

definition health_step ::
    "'d host_env \<Rightarrow> (string \<Rightarrow> nat) \<Rightarrow> string \<Rightarrow> health_check \<Rightarrow> 'd ble_monitor \<Rightarrow>
     ('d ble_monitor \<times> string) option" where
  "health_step h big label k m =
     (case notify_all h big label (hk_now k div 1000000) (hk_clock k) (hk_notes k) m of
        None \<Rightarrow> None
      | Some (m1, t1) \<Rightarrow>
          let (m2, t2) = show_detection m1; (m3, t3) = check_activity (hk_now k) m2
          in Some (m3, t1 @ activity_line m1 @ t2 @ t3))"

text \<open>The loop; with the last check it is taken to stop.\<close>

fun health_loop ::
    "'d host_env \<Rightarrow> (string \<Rightarrow> nat) \<Rightarrow> string \<Rightarrow> health_check list \<Rightarrow> 'd ble_monitor \<Rightarrow>
     ('d ble_monitor \<times> string) option" where
  "health_loop h big label [] m = Some (m, [])"
| "health_loop h big label (k # ks) m =
     (if \<not> hk_connected k \<or> hk_stop k then Some (m, [])
      else
        (case health_step h big label k m of
           None \<Rightarrow> None
         | Some (m1, t1) \<Rightarrow> map_option (apsnd ((@) t1)) (health_loop h big label ks m1)))"

record ble_script =
  sc_answers :: ble_answers
  sc_start :: nat
  sc_checks :: "health_check list"

definition runWithProtocol ::
    "'d host_env \<Rightarrow> (string \<Rightarrow> nat) \<Rightarrow> ble_script \<Rightarrow> string \<Rightarrow> VehicleProtocol \<Rightarrow> 'd service \<Rightarrow>
     (nat \<times> ble_conn \<times> ble_out list) option" where
  "runWithProtocol h big sc address protocol sv =
     (let (ok, c, o1) = conn_connect (sc_answers sc) address protocol ble_new
      in if \<not> ok then (let (c1, o2) = conn_destroy c in Some (1, c1, o1 @ o2))
         else
           let (c1, o2) = startPolling 500 c
           in (case health_loop h big (protocol_label protocol) (sc_checks sc)
                  \<lparr>mo_session = bm_session c1, mo_service = sv, mo_notifications = 0, mo_lastHex = [],
                   mo_signalCount = 0, mo_dataReceived = False, mo_noDataCount = 0,
                   mo_detectionShown = False, mo_lastActivity = sc_start sc\<rparr> of
                None \<Rightarrow> None
              | Some (m, t) \<Rightarrow>
                  let (c2, o3) = stopPolling (c1\<lparr>bm_session := mo_session m\<rparr>);
                      (c3, o4) = conn_disconnect c2; (c4, o5) = conn_destroy c3
                  in Some (0, c4, o1 @ o2 @ [BleText t] @ o3 @ o4
                       @ [BleText (''Total signals received: '' @ dec_str (mo_signalCount m) @ [LF]
                            @ ''Goodbye!'' @ [LF])] @ o5)))"

text \<open>
  \<open>runWithAutoDetection\<close>: the notifications that arrive while the number is asked for, and
  \<open>reg\<close>, the registered names in the order the registry lists them. An unknown vehicle throws
  (\<open>Inl\<close>, the message).
\<close>

definition make_ord :: "VehicleMake \<Rightarrow> nat" where
  "make_ord mk =
     (case mk of UnknownMake \<Rightarrow> 0 | Tesla \<Rightarrow> 1 | Audi \<Rightarrow> 2 | Volkswagen \<Rightarrow> 3 | BMW \<Rightarrow> 4
      | MercedesBenz \<Rightarrow> 5 | GenericMake \<Rightarrow> 6)"

definition available_list :: "registry \<Rightarrow> string list \<Rightarrow> string" where
  "available_list r ids =
     concat (map (\<lambda>i. case r i of None \<Rightarrow> []
        | Some c \<Rightarrow> ''  '' @ i @ ''  ('' @ vehicleName c @ '')'' @ [LF]) ids)"

definition ARROW :: string where "ARROW = [CHR 0xE2, CHR 0x86, CHR 0x92]"

definition detect_vehicle_id ::
    "(string \<Rightarrow> nat) \<Rightarrow> nat \<Rightarrow> u8 list list \<Rightarrow> ble_answers \<Rightarrow> string \<Rightarrow> registry \<Rightarrow> string list \<Rightarrow>
     (string option) \<times> ble_conn \<times> ble_out list" where
  "detect_vehicle_id big now ds a address r ids =
     (let o0 = [BleText (''[Auto-detect] Connecting to BLE adapter for VIN detection...'' @ [LF])];
          (linked, c, o1) = manager_connect a address ble_new
      in if \<not> linked then
           (None, c, o0 @ o1 @ [BleError ([LF] @ ''Failed to connect to BLE device: '' @ forLog address @ [LF]
              @ ''Try running --scan to verify device is available.'' @ [LF])])
         else
           let o2 = o0 @ o1 @ [BleCall (WaitForCharacteristics CHARACTERISTICS_WAIT_MS)]
           in if \<not> an_ready a then
                (let (c1, o3) = manager_disconnect c
                 in (None, c1, o2 @ [BleError ([LF] @ ''Failed to discover BLE characteristics.'' @ [LF])] @ o3))
              else
                let (ok, s, sent) = initializeForVINQuery (an_prompts a) (bm_session c);
                    o3 = o2 @ map (BleCall \<circ> SendAscii) sent
                in if \<not> ok then
                     (let (c1, o4) = manager_disconnect (c\<lparr>bm_session := s\<rparr>)
                      in (None, c1, o3 @ [BleError (''[Auto-detect] ELM327 initialization failed.'' @ [LF])] @ o4))
                   else
                     let (answer, s1, sent1) = queryVIN big now ds s;
                         (c1, o4) = manager_disconnect (c\<lparr>bm_session := s1\<rparr>);
                         o5 = o3 @ map (BleCall \<circ> SendAscii) sent1 @ o4
                     in (case answer of
                           None \<Rightarrow> (None, c1, o5 @ [BleError ([LF]
                             @ ''Could not auto-detect vehicle. No VIN response received.'' @ [LF]
                             @ ''Use --vehicle <type> to specify manually.'' @ [LF, LF] @ ''Available vehicles:'' @ [LF]
                             @ available_list r ids @ [LF])])
                         | Some v \<Rightarrow>
                             let wmi = take 3 v; mk = decodeWMI wmi; configId = makeToConfigId mk False;
                                 o6 = o5 @ [BleText (''[Auto-detect] VIN: '' @ v @ [LF] @ ''[Auto-detect] WMI: ''
                                   @ wmi @ '' '' @ ARROW @ '' '' @ dec_str (make_ord mk) @ '' '' @ ARROW
                                   @ '' config: '' @ configId @ [LF])]
                             in if configId = [] \<or> r configId = None then
                                  (None, c1, o6 @ [BleError ([LF] @ ''Could not auto-detect vehicle. WMI ''
                                    @ [CHR 0x27] @ wmi @ [CHR 0x27] @ '' not mapped to a supported vehicle.'' @ [LF]
                                    @ ''Use --vehicle <type> to specify manually.'' @ [LF, LF]
                                    @ ''Available vehicles:'' @ [LF] @ available_list r ids @ [LF])])
                                else (Some configId, c1,
                                  o6 @ [BleText (''[Auto-detect] Detected: '' @ configId @ [LF])])))"

definition runWithAutoDetection ::
    "'d host_env \<Rightarrow> (string \<Rightarrow> nat) \<Rightarrow> nat \<Rightarrow> u8 list list \<Rightarrow> ble_answers \<Rightarrow> ble_script \<Rightarrow> string \<Rightarrow>
     string list \<Rightarrow> 'd service \<Rightarrow> (string + nat \<times> ble_out list) option" where
  "runWithAutoDetection h big now ds a sc address ids sv =
     (let (found, c, o1) = detect_vehicle_id big now ds a address (sv_registry sv) ids
      in case found of
           None \<Rightarrow> Some (Inr (1, o1))
         | Some configId \<Rightarrow>
             (case resolveVehicle h ids configId sv of
                (Inl e, sv1) \<Rightarrow> Some (Inl e)
              | (Inr (cfg, protocol), sv1) \<Rightarrow>
                  map_option (\<lambda>(rc, c1, o2). Inr (rc, o1 @ o2)) (runWithProtocol h big sc address protocol sv1)))"

definition ble_run ::
    "'d host_env \<Rightarrow> (string \<Rightarrow> nat) \<Rightarrow> nat \<Rightarrow> u8 list list \<Rightarrow> ble_answers \<Rightarrow> ble_script \<Rightarrow> string \<Rightarrow> string \<Rightarrow>
     string list \<Rightarrow> 'd service \<Rightarrow> (string + nat \<times> ble_out list) option" where
  "ble_run h big now ds a sc address vehicleType ids sv =
     (if vehicleType = ''auto'' then runWithAutoDetection h big now ds a sc address ids sv
      else
        (case resolveVehicle h ids vehicleType sv of
           (Inl e, sv1) \<Rightarrow> Some (Inl e)
         | (Inr (cfg, protocol), sv1) \<Rightarrow>
             map_option (\<lambda>(rc, c1, o2). Inr (rc, o2)) (runWithProtocol h big sc address protocol sv1)))"

end
