(* ===== verification/Ble_Proofs.thy ===== *)
theory Ble_Proofs
  imports Host_Ble Elm327_Proofs
begin

text \<open>
  Framed streams over notifications of any size (locale \<open>framed_stream\<close>, interpreted on the checksum
  packets of \<open>TeslaBLETransport\<close> and on the responses of \<open>OBD2Transport\<close>), the noise that breaks them,
  the registry of devices, and how a Bluetooth run ends.
\<close>

section \<open>Streams of frames\<close>

text \<open>A scanner that is given its input in pieces and keeps what it could not use.\<close>

fun feed :: "('a list \<Rightarrow> 'b list \<times> 'a list) \<Rightarrow> 'a list list \<Rightarrow> 'a list \<Rightarrow> 'b list \<times> 'a list" where
  "feed scan [] b = ([], b)"
| "feed scan (c # cs) b =
     (let (o1, r) = scan (b @ c); (o2, r2) = feed scan cs r in (o1 @ o2, r2))"

locale framed_stream =
  fixes scan :: "'a list \<Rightarrow> 'b list \<times> 'a list"
    and enc :: "'p \<Rightarrow> 'a list"
    and emit :: "'p \<Rightarrow> 'b list"
    and ok :: "'p \<Rightarrow> bool"
  assumes scan_Nil: "scan [] = ([], [])"
    and scan_frame: "ok p \<Longrightarrow> scan (enc p @ xs) = (emit p @ fst (scan xs), snd (scan xs))"
    and scan_partial: "ok p \<Longrightarrow> k < length (enc p) \<Longrightarrow> scan (take k (enc p)) = ([], take k (enc p))"
begin

lemma split_stream:
  assumes "ys @ zs = concat (map enc ps)"
  shows "\<exists>ps1 ps2 r. ps = ps1 @ ps2 \<and> ys = concat (map enc ps1) @ r \<and> r @ zs = concat (map enc ps2)
    \<and> (ps2 \<noteq> [] \<longrightarrow> length r < length (enc (hd ps2)))"
  using assms
proof (induction ps arbitrary: ys)
  case (Cons p ps)
  show ?case
  proof (cases "length ys < length (enc p)")
    case True
    then show ?thesis using Cons.prems by (intro exI[of _ "[]"] exI[of _ "p # ps"] exI[of _ ys]) simp
  next
    case False
    define ys' where "ys' = drop (length (enc p)) ys"
    have "take (length (enc p)) (ys @ zs) = enc p" using Cons.prems by simp
    then have "take (length (enc p)) ys = enc p" using False by simp
    then have ys: "ys = enc p @ ys'" unfolding ys'_def by (metis append_take_drop_id)
    with Cons.prems have ys2: "ys' @ zs = concat (map enc ps)" by simp
    from Cons.IH[OF ys2] obtain ps1 ps2 r where "ps = ps1 @ ps2" "ys' = concat (map enc ps1) @ r"
      "r @ zs = concat (map enc ps2)" "ps2 \<noteq> [] \<longrightarrow> length r < length (enc (hd ps2))" by blast
    then show ?thesis using ys by (intro exI[of _ "p # ps1"] exI[of _ ps2] exI[of _ r]) simp
  qed
qed simp

lemma scan_stream:
  assumes "\<forall>p \<in> set (ps1 @ ps2). ok p" and "r @ zs = concat (map enc ps2)"
    and "ps2 \<noteq> [] \<longrightarrow> length r < length (enc (hd ps2))"
  shows "scan (concat (map enc ps1) @ r) = (concat (map emit ps1), r)"
  using assms(1)
proof (induction ps1)
  case Nil
  show ?case
  proof (cases ps2)
    case (Cons p ps)
    have "take (length r) (r @ zs) = take (length r) (enc p)" using Cons assms(2,3) by simp
    then have "r = take (length r) (enc p)" by simp
    then show ?thesis using scan_partial[of p "length r"] Nil Cons assms(3) by simp
  qed (use assms(2) in \<open>simp add: scan_Nil\<close>)
qed (simp add: scan_frame)

lemma feed_stream:
  assumes "\<forall>p \<in> set ps. ok p" and "b @ concat cs = concat (map enc ps)"
    and "ps \<noteq> [] \<longrightarrow> length b < length (enc (hd ps))"
  shows "feed scan cs b = (concat (map emit ps), [])"
  using assms
proof (induction cs arbitrary: b ps)
  case Nil
  then show ?case by (cases ps) auto
next
  case (Cons c cs)
  obtain ps1 ps2 r where s: "ps = ps1 @ ps2" "b @ c = concat (map enc ps1) @ r"
    "r @ concat cs = concat (map enc ps2)" "ps2 \<noteq> [] \<longrightarrow> length r < length (enc (hd ps2))"
    using split_stream[of "b @ c" "concat cs" ps] Cons.prems(2) by auto
  have "scan (b @ c) = (concat (map emit ps1), r)"
    unfolding s(2) using Cons.prems(1) s by (intro scan_stream) auto
  moreover have "feed scan cs r = (concat (map emit ps2), [])"
    using Cons.IH[OF _ s(3,4)] Cons.prems(1) s(1) by simp
  ultimately show ?case by (simp add: s(1))
qed

lemma chunks_are_irrelevant:
  assumes "\<forall>p \<in> set ps. ok p \<and> enc p \<noteq> []" and "concat cs = concat (map enc ps)"
  shows "feed scan cs [] = (concat (map emit ps), [])"
  using assms by (intro feed_stream) (auto simp: hd_in_set)

end

section \<open>Packets with a checksum\<close>

definition tesla_head :: "u8 list \<Rightarrow> u8 list" where
  "tesla_head p = [HEADER_BYTE_1, HEADER_BYTE_2, of_nat (length p)] @ p"

text \<open>The packet that carries a payload.\<close>

definition tesla_packet :: "u8 list \<Rightarrow> u8 list" where
  "tesla_packet p = tesla_head p @ [calculateChecksum (tesla_head p @ [0])]"

lemma length_packet: "length (tesla_packet p) = length p + 4"
  by (simp add: tesla_packet_def tesla_head_def)

lemma packet_nth:
  "tesla_packet p ! 0 = HEADER_BYTE_1" "tesla_packet p ! Suc 0 = HEADER_BYTE_2"
  "tesla_packet p ! 2 = of_nat (length p)"
  by (simp_all add: tesla_packet_def tesla_head_def)

lemma unat_length: "length p \<le> 255 \<Longrightarrow> unat (of_nat (length p) :: u8) = length p"
  by (simp add: unat_of_nat)

lemma packet_valid: "length p \<le> 255 \<Longrightarrow> validatePacket (tesla_packet p)"
  by (simp add: validatePacket_def length_packet packet_nth unat_length)
    (simp add: tesla_packet_def calculateChecksum_def)

lemma header_at_front: "2 \<le> length b \<Longrightarrow> b ! 0 = HEADER_BYTE_1 \<Longrightarrow> b ! Suc 0 = HEADER_BYTE_2 \<Longrightarrow>
    header_pos b = Some 0"
  by (cases b rule: header_pos.cases) auto

lemma tesla_scan_packet:
  assumes "length p \<le> 255"
  shows "tesla_scan (tesla_packet p @ xs) = (tesla_packet p # fst (tesla_scan xs), snd (tesla_scan xs))"
proof -
  let ?b = "tesla_packet p @ xs"
  have "header_pos ?b = Some 0"
    using length_packet[of p] packet_nth[of p] by (intro header_at_front) (auto simp: nth_append)
  moreover have "?b ! 2 = of_nat (length p)" using length_packet[of p] packet_nth(3)[of p]
    by (simp add: nth_append)
  ultimately show ?thesis
    using assms length_packet[of p]
    by (subst tesla_scan.simps) (simp add: unat_length packet_valid split_beta)
qed

lemma tesla_scan_partial:
  assumes "length p \<le> 255" "k < length (tesla_packet p)"
  shows "tesla_scan (take k (tesla_packet p)) = ([], take k (tesla_packet p))"
proof (cases "k < 4")
  case False
  let ?b = "take k (tesla_packet p)"
  have k: "length ?b = k" using assms(2) by simp
  have "header_pos ?b = Some 0"
    using False assms(2) packet_nth[of p] by (intro header_at_front) (auto simp: k)
  moreover have "?b ! 2 = of_nat (length p)" using False packet_nth(3)[of p] by simp
  ultimately show ?thesis
    using assms False by (subst tesla_scan.simps) (simp add: unat_length length_packet)
next
  case True
  then have "length (take k (tesla_packet p)) < 4" by simp
  then show ?thesis by (subst tesla_scan.simps) (simp only: if_True)
qed

lemma tesla_scan_Nil: "tesla_scan [] = ([], [])"
  by (subst tesla_scan.simps) simp

interpretation tesla: framed_stream tesla_scan tesla_packet "\<lambda>p. [tesla_packet p]" "\<lambda>p. length p \<le> 255"
  by unfold_locales (simp_all add: tesla_scan_Nil tesla_scan_packet tesla_scan_partial)

text \<open>The responses of \<open>OBD2Transport\<close>, ended by a prompt.\<close>

definition obd_frame :: "u8 list \<Rightarrow> u8 list" where
  "obd_frame p = p @ [0x3E]"

definition obd_response :: "u8 list \<Rightarrow> u8 list list" where
  "obd_response p =
     (let r = rev (dropWhile (\<lambda>b. b = 0x0D) (rev p)) in if r = [] then [] else [r])"

interpretation obd: framed_stream split_prompts obd_frame obd_response "\<lambda>p. 0x3E \<notin> set p"
proof
  fix p xs :: "u8 list"
  assume p: "0x3E \<notin> set p"
  have "takeWhile (\<lambda>b. b \<noteq> 0x3E) (obd_frame p @ xs) = p" "tl (dropWhile (\<lambda>b. b \<noteq> 0x3E) (obd_frame p @ xs)) = xs"
    using p by (induction p) (auto simp: obd_frame_def)
  then show "split_prompts (obd_frame p @ xs) =
      (obd_response p @ fst (split_prompts xs), snd (split_prompts xs))"
    by (subst split_prompts.simps) (simp add: obd_frame_def obd_response_def Let_def split_beta)
next
  fix p :: "u8 list" and k
  assume "0x3E \<notin> set p" "k < length (obd_frame p)"
  then have "0x3E \<notin> set (take k (obd_frame p))" by (auto simp: obd_frame_def dest: in_set_takeD)
  then show "split_prompts (take k (obd_frame p)) = ([], take k (obd_frame p))"
    by (subst split_prompts.simps) simp
qed (subst split_prompts.simps, simp)

section \<open>The transport over several notifications\<close>

fun tesla_run :: "u8 list list \<Rightarrow> tesla_link \<Rightarrow> (tesla_link \<times> u8 list list) option" where
  "tesla_run [] l = Some (l, [])"
| "tesla_run (c # cs) l =
     (case tesla_processIncomingData c l of
        None \<Rightarrow> None
      | Some (l1, ps) \<Rightarrow> map_option (\<lambda>(l2, qs). (l2, ps @ qs)) (tesla_run cs l1))"

lemma tesla_one:
  "tesla_processIncomingData c l =
     Some (l\<lparr>tl_buffer := snd (tesla_scan (tl_buffer l @ c))\<rparr>,
           forwardPackets l (fst (tesla_scan (tl_buffer l @ c))))"
  by (simp add: tesla_processIncomingData_def extractCompletePackets_def forwardPackets_def split_beta)

lemma tesla_run_feed:
  "tl_subscribed l \<Longrightarrow> tesla_run cs l =
     Some (l\<lparr>tl_buffer := snd (feed tesla_scan cs (tl_buffer l))\<rparr>, fst (feed tesla_scan cs (tl_buffer l)))"
  by (induction cs arbitrary: l) (simp_all add: tesla_one forwardPackets_def split_beta)

text \<open>
  C21. However a stream of packets is cut into notifications, the
  transport forwards exactly these packets, whole and in order, and keeps nothing.
\<close>

theorem packets_survive_fragmentation:
  assumes "tl_subscribed l" "tl_buffer l = []" and "\<forall>p \<in> set ps. length p \<le> 255"
    and "concat cs = concat (map tesla_packet ps)"
  shows "tesla_run cs l = Some (l, map tesla_packet ps)"
proof -
  have "\<forall>p \<in> set ps. length p \<le> 255 \<and> tesla_packet p \<noteq> []" using assms(3) by (simp add: tesla_packet_def)
  from tesla.chunks_are_irrelevant[OF this assms(4)] show ?thesis
    using assms(2) by (simp add: tesla_run_feed[OF assms(1)])
qed

text \<open>
  Three or more bytes of noise before a packet do no harm when
  they come in one notification with it; but when the notification ends after the first byte of
  the packet, that byte is thrown away with the noise and the packet is lost.
\<close>

lemma header_pos_None: "HEADER_BYTE_1 \<notin> set (butlast b) \<Longrightarrow> header_pos b = None"
  by (induction b rule: header_pos.induct) auto

lemma header_pos_skip:
  "HEADER_BYTE_1 \<notin> set j \<Longrightarrow> b \<noteq> [] \<Longrightarrow> header_pos (j @ b) = map_option ((+) (length j)) (header_pos b)"
proof (induction j)
  case (Cons a j)
  then obtain c r where "j @ b = c # r" by (cases "j @ b") auto
  then show ?case using Cons by (auto simp: option.map_comp comp_def)
qed (cases "header_pos b", simp_all)

theorem noise_across_a_boundary_costs_a_packet:
  assumes "tl_subscribed l" "tl_buffer l = []" and "length p \<le> 255" "p \<noteq> []"
    and "3 \<le> length j" "HEADER_BYTE_1 \<notin> set j" "HEADER_BYTE_1 \<notin> set (tl (tesla_packet p))"
  shows "tesla_run [j @ tesla_packet p] l = Some (l, [tesla_packet p])
    \<and> tesla_run [j @ [HEADER_BYTE_1], tl (tesla_packet p)] l = Some (l, [])"
proof -
  have "header_pos (tesla_packet p) = Some 0"
    using length_packet[of p] packet_nth[of p] by (intro header_at_front) auto
  then have "header_pos (j @ tesla_packet p) = Some (length j)"
    using assms(6) length_packet[of p] by (subst header_pos_skip) auto
  then have one: "tesla_scan (j @ tesla_packet p) = tesla_scan (tesla_packet p)"
    using length_packet[of p] \<open>header_pos (tesla_packet p) = Some 0\<close>
    by (subst tesla_scan.simps, subst (2) tesla_scan.simps) simp
  have "tesla_scan (tesla_packet p) = ([tesla_packet p], [])"
    using tesla_scan_packet[OF assms(3), of "[]"] by (simp add: tesla_scan_Nil)
  moreover have "tesla_scan (j @ [HEADER_BYTE_1]) = ([], [])"
    using assms(5,6) by (subst tesla_scan.simps) (simp add: header_pos_None)
  moreover have "tesla_scan (tl (tesla_packet p)) = ([], [])"
  proof -
    have "HEADER_BYTE_1 \<notin> set (butlast (tl (tesla_packet p)))" using assms(7) by (meson in_set_butlastD)
    moreover have "4 \<le> length (tl (tesla_packet p))"
      using assms(4) length_packet[of p] by (cases p) auto
    ultimately show ?thesis by (subst tesla_scan.simps) (simp add: header_pos_None)
  qed
  ultimately show ?thesis using assms(2) by (simp add: tesla_run_feed[OF assms(1)] one)
qed

lemma reading_filled_packets_never_returns: "tesla_readData l = None \<longleftrightarrow> tl_buffer l \<noteq> []"
  by (simp add: tesla_readData_def extractCompletePackets_def)

section \<open>The registry\<close>

lemma discover_keeps:
  assumes "distinct (map bd_address ds)"
  shows "distinct (map bd_address (fst (discover_all h r ds)))
    \<and> findDeviceByAddress a (fst (discover_all h r ds)) = findDeviceByAddress a (ds @ r)"
  using assms
proof (induction r arbitrary: ds)
  case (Cons d r)
  show ?case
  proof (cases "\<exists>e \<in> set ds. bd_address e = bd_address d")
    case True
    have "findDeviceByAddress a (ds @ d # r) = findDeviceByAddress a (ds @ r)"
    proof (cases "bd_address d = a")
      case False
      then show ?thesis by (induction ds) (simp_all add: findDeviceByAddress_def)
    next
      case addr: True
      from True show ?thesis unfolding findDeviceByAddress_def addr by (induction ds) auto
    qed
    then show ?thesis using True Cons.IH[OF Cons.prems] by (simp add: addDiscoveredDevice_def split_beta)
  next
    case False
    then have "distinct (map bd_address (ds @ [d]))" using Cons.prems by force
    from Cons.IH[OF this] show ?thesis using False by (simp add: addDiscoveredDevice_def split_beta)
  qed
qed (simp add: findDeviceByAddress_def)

text \<open>
  Every address is listed once, under the first advertisement that
  carried it: its later names and signal strengths are not taken over.
\<close>

theorem the_first_advertisement_counts:
  "distinct (map bd_address (fst (discover_all h r []))) \<and>
   findDeviceByAddress a (fst (discover_all h r [])) = findDeviceByAddress a r"
  using discover_keeps[of "[]" h r a] by simp

section \<open>How a run ends\<close>

lemma stopPolling_keeps:
  "bm_linked (fst (stopPolling c)) = bm_linked c" "bm_isConnected (fst (stopPolling c)) = bm_isConnected c"
  "\<not> bm_polling (fst (stopPolling c))"
  by (simp_all add: stopPolling_def stopCANMonitor_def)

lemma startPolling_keeps:
  "bm_linked (fst (startPolling i c)) = bm_linked c" "bm_isConnected (fst (startPolling i c)) = bm_isConnected c"
  by (simp_all add: startPolling_def)

lemma disconnect_link:
  "bm_linked (fst (conn_disconnect c)) \<longleftrightarrow> bm_linked c \<and> \<not> bm_isConnected c"
  "\<not> bm_isConnected (fst (conn_disconnect c))"
  "bm_polling (fst (conn_disconnect c)) = bm_polling c"
  by (simp_all add: conn_disconnect_def manager_disconnect_def)

fun gives_up :: "ble_out \<Rightarrow> bool" where
  "gives_up (BleCall PlatformDisconnect) \<longleftrightarrow> True"
| "gives_up (BleCall PlatformRelease) \<longleftrightarrow> True"
| "gives_up _ \<longleftrightarrow> False"

lemma gives_up_sends [simp]: "filter gives_up (map (BleCall \<circ> SendAscii) sent) = []"
  by (induction sent) simp_all

lemma given_up_by:
  "filter gives_up (snd (stopPolling c)) = []"
  "filter gives_up (snd (startPolling i c)) = []"
  "filter gives_up (snd (conn_disconnect c)) = (if bm_isConnected c then [BleCall PlatformDisconnect] else [])"
  "filter gives_up (snd (conn_destroy c)) =
     (if bm_isConnected c then [BleCall PlatformDisconnect]
      else if bm_linked c then [BleCall PlatformRelease] else [])"
  by (simp_all add: stopPolling_def stopCANMonitor_def startPolling_def conn_disconnect_def
      manager_disconnect_def conn_destroy_def platform_destroy_def split_beta Let_def)

lemma destroy_link: "\<not> bm_linked (fst (conn_destroy c))"
  by (simp add: conn_destroy_def platform_destroy_def split_beta)

lemma connect_result:
  "fst (conn_connect a address protocol ble_new) \<longleftrightarrow> an_connects a \<and> an_ready a"
  "bm_isConnected (fst (snd (conn_connect a address protocol ble_new))) \<longleftrightarrow> an_connects a \<and> an_ready a"
  "bm_linked (fst (snd (conn_connect a address protocol ble_new))) \<longleftrightarrow> an_connects a"
  by (auto simp: conn_connect_def manager_connect_def ble_new_def conn_disconnect_def protocol_init_def
      initializeCANMonitor_def initializeELM327_def Let_def split_beta)

lemma connect_gives_up:
  "filter gives_up (snd (snd (conn_connect a address protocol ble_new))) = []"
  by (simp add: conn_connect_def manager_connect_def ble_new_def conn_disconnect_def protocol_init_def
      initializeCANMonitor_def initializeELM327_def Let_def split_beta)

text \<open>
  Every Bluetooth run gives up the connection it made, once. Where the characteristics were found the
  code disconnects. Where they were not, \<open>connect\<close> asks to disconnect as well, but its own flag is not
  set yet and nothing happens: the connection is still up when \<open>connect\<close> reports the failure, and goes
  only with the platform's object, at the end of the run.
\<close>

theorem a_run_gives_its_connection_up:
  assumes "runWithProtocol h big sc address protocol sv = Some (rc, c, out)"
  shows "\<not> bm_linked c \<and>
    filter gives_up out =
      (if \<not> an_connects (sc_answers sc) then []
       else if an_ready (sc_answers sc) then [BleCall PlatformDisconnect] else [BleCall PlatformRelease]) \<and>
    bm_linked (fst (snd (conn_connect (sc_answers sc) address protocol ble_new))) = an_connects (sc_answers sc) \<and>
    rc = (if an_connects (sc_answers sc) \<and> an_ready (sc_answers sc) then 0 else 1)"
proof -
  let ?k = "conn_connect (sc_answers sc) address protocol ble_new"
  have "\<not> bm_linked c \<and> filter gives_up out =
      (if fst ?k then [BleCall PlatformDisconnect]
       else if bm_linked (fst (snd ?k)) then [BleCall PlatformRelease] else []) \<and> rc = (if fst ?k then 0 else 1)"
    using assms connect_result(2)[of "sc_answers sc" address protocol] connect_result(1)[of "sc_answers sc" address protocol]
    by (auto simp: runWithProtocol_def Let_def split_beta destroy_link disconnect_link stopPolling_keeps
        startPolling_keeps given_up_by connect_gives_up split: if_splits option.splits)
  then show ?thesis by (auto simp: connect_result)
qed

section \<open>Automatic detection\<close>

text \<open>
  With an adapter that connects, shows its characteristics and
  answers the query of the identification number in the standard way, automatic detection of the
  vehicle ends with exit code 1 and the message that no answer was received.
\<close>

lemma detect_outcome:
  assumes "an_connects a" "an_ready a"
    and "initializeForVINQuery (an_prompts a) session_new = (ok, s, sent)"
  shows "fst (detect_vehicle_id big now ds a address r ids) =
    (case fst (queryVIN big now ds s) of None \<Rightarrow> None
     | Some v \<Rightarrow> let i = makeToConfigId (decodeWMI (take 3 v)) False
                in if i = [] \<or> r i = None then None else Some i)"
proof -
  have "ok" using assms(3) by (auto simp: initializeForVINQuery_def Let_def split_beta)
  then show ?thesis using assms
    by (simp add: detect_vehicle_id_def manager_connect_def manager_disconnect_def ble_new_def Let_def
        split_beta split: option.split)
qed

theorem the_standard_answer_defeats_autodetection:
  assumes "an_connects a" "an_ready a" and "length v = 17"
  shows "\<exists>out. ble_run h big now [text_bytes (vin_answer v)] a sc address ''auto'' ids sv = Some (Inr (1, out))"
proof -
  obtain ok s sent where i: "initializeForVINQuery (an_prompts a) session_new = (ok, s, sent)"
    by (cases "initializeForVINQuery (an_prompts a) session_new") auto
  have "fst (queryVIN big now [text_bytes (vin_answer v)] s) = None"
    using the_standard_vin_answer_is_lost[OF assms(3), of big now "an_prompts a" session_new] i by simp
  then have "fst (detect_vehicle_id big now [text_bytes (vin_answer v)] a address (sv_registry sv) ids) = None"
    by (simp add: detect_outcome[OF assms(1,2) i])
  then show ?thesis by (simp add: ble_run_def runWithAutoDetection_def split_beta)
qed

text \<open>
  When the number comes in short responses and starts with the
  maker's code of Tesla, automatic detection goes on with the Tesla configuration.
\<close>

theorem a_short_answer_selects_the_vehicle:
  assumes "an_connects a" "an_ready a" and "\<forall>p \<in> set ps. 5 \<le> length p \<and> length p \<le> 6 \<and> 0 \<notin> set p" and "ps \<noteq> []"
    and "take 3 (data_string (concat ps)) = ''5YJ''" and "r ''tesla'' \<noteq> None"
  shows "fst (detect_vehicle_id big now (map short_response ps) a address r ids) = Some ''tesla''"
proof -
  obtain ok s sent where i: "initializeForVINQuery (an_prompts a) session_new = (ok, s, sent)"
    by (cases "initializeForVINQuery (an_prompts a) session_new") auto
  have "fst (queryVIN big now (map short_response ps) s) = Some (take 17 (data_string (concat ps)))"
    using short_responses_give_the_vin[OF assms(3,4), of big now "an_prompts a" session_new] i by simp
  moreover have "decodeWMI ''5YJ'' = Tesla" by code_simp
  ultimately show ?thesis using assms(5,6)
    by (simp add: detect_outcome[OF assms(1,2) i] Let_def min_def makeToConfigId_def)
qed

section \<open>Instances\<close>

theorem packets_survive_fragmentation_witness:
  "tesla_run [[0xAA], [0x55, 1, 7], [7, 0xAA, 0x55, 0], [0xFF]] \<lparr>tl_connected = True, tl_buffer = [], tl_subscribed = True\<rparr>
     = Some (\<lparr>tl_connected = True, tl_buffer = [], tl_subscribed = True\<rparr>, map tesla_packet [[7], []])"
  by (rule packets_survive_fragmentation) (simp_all add: tesla_packet_def tesla_head_def calculateChecksum_def
      HEADER_BYTE_1_def HEADER_BYTE_2_def)

definition ex_link :: tesla_link where
  "ex_link = \<lparr>tl_connected = True, tl_buffer = [], tl_subscribed = True\<rparr>"

theorem noise_across_a_boundary_costs_a_packet_witness:
  "tesla_run [[1, 2, 3] @ tesla_packet [7]] ex_link = Some (ex_link, [tesla_packet [7]])
    \<and> tesla_run [[1, 2, 3] @ [HEADER_BYTE_1], tl (tesla_packet [7])] ex_link = Some (ex_link, [])"
  by (rule noise_across_a_boundary_costs_a_packet) (simp_all add: ex_link_def tesla_packet_def tesla_head_def
      calculateChecksum_def HEADER_BYTE_1_def HEADER_BYTE_2_def)

definition ex_script :: "bool \<Rightarrow> ble_script" where
  "ex_script found = \<lparr>sc_answers = \<lparr>an_connects = True, an_ready = found, an_prompts = []\<rparr>, sc_start = 0,
     sc_checks = []\<rparr>"

definition ex_ble_host :: "int host_env" where
  "ex_ble_host = \<lparr>he_fp = \<lparr>fp_of_int = id, fp_mul = (*), fp_add = (+), fp_sub = (-), fp_div = (div),
       fp_less = (<), fp_eq = (=)\<rparr>, he_stod = (\<lambda>_. None), he_files = (\<lambda>_. None), he_resolve = (\<lambda>p. p),
     he_candidates = (\<lambda>_. [])\<rparr>"

theorem a_run_gives_its_connection_up_witness:
  "\<exists>c out. runWithProtocol ex_ble_host (\<lambda>t. 0) (ex_script False) ''AA'' CAN (service_new (\<lambda>_. None))
     = Some (1, c, out) \<and> filter gives_up out = [BleCall PlatformRelease]"
proof -
  obtain c out where r: "runWithProtocol ex_ble_host (\<lambda>t. 0) (ex_script False) ''AA'' CAN
      (service_new (\<lambda>_. None)) = Some (1, c, out)"
    by (auto simp: runWithProtocol_def ex_script_def conn_connect_def manager_connect_def Let_def split_beta)
  from a_run_gives_its_connection_up[OF r] r show ?thesis by (auto simp: ex_script_def)
qed

theorem the_standard_answer_defeats_autodetection_witness:
  "\<exists>out. ble_run ex_ble_host (\<lambda>t. 0) 0 [text_bytes (vin_answer (replicate 17 0x31))] (sc_answers (ex_script True))
     (ex_script True) ''AA'' ''auto'' [] (service_new (registerAll (\<lambda>_. None))) = Some (Inr (1, out))"
  by (rule the_standard_answer_defeats_autodetection) (simp_all add: ex_script_def)

theorem a_short_answer_selects_the_vehicle_witness:
  "fst (detect_vehicle_id (\<lambda>t. 0) 0 (map short_response [[0x35, 0x59, 0x4A, 0x33, 0x45]])
     (sc_answers (ex_script True)) ''AA'' (registerAll (\<lambda>_. None)) [''tesla'']) = Some ''tesla''"
  by (rule a_short_answer_selects_the_vehicle)
    (simp_all add: ex_script_def data_string_def registerAll_def registerVehicle_def char_of_def bit_iff_odd)

end
