(* ===== verification/Host_Demo.thy ===== *)
theory Host_Demo
  imports Host_Translation Host_Detector Host_Frames
begin

text \<open>
  Sources that need no vehicle, under \<open>src/src\<close>: the demo transport (\<open>pipeline/DemoTransport.cpp\<close>), the
  demo sources (\<open>domain/DemoSignalProvider.cpp\<close>, \<open>domain/DemoSignalSource.cpp\<close>), the simulator
  (\<open>VehicleSim.cpp\<close>), the source around it (\<open>domain/SimulationSignalSource.cpp\<close>) and the factory
  (\<open>domain/SignalSourceFactory.cpp\<close>).

  Floating point is a parameter, \<open>demo_math\<close>: the operations of \<open>fp_ops\<close>, decimal literals
  (\<open>dm_lit m e\<close> is \<open>m * 10^-e\<close>), the functions of the C library and the casts the code uses.
  A worker thread is the list of what it finds: one entry per pass of its loop.
\<close>

record 'd demo_math =
  dm_fp :: "'d fp_ops"
  dm_lit :: "int \<Rightarrow> nat \<Rightarrow> 'd"
  dm_sin :: "'d \<Rightarrow> 'd"
  dm_fmod :: "'d \<Rightarrow> 'd \<Rightarrow> 'd"
  dm_abs :: "'d \<Rightarrow> 'd"
  dm_pi :: 'd
  dm_round :: "'d \<Rightarrow> 'd"
  dm_lround :: "'d \<Rightarrow> int"
  dm_u64 :: "'d \<Rightarrow> u64"
  dm_int :: "'d \<Rightarrow> int"
  dm_text :: "'d \<Rightarrow> string"

definition AUTO_2 :: int where "AUTO_2 = AUTO_BIT OR 2"

section \<open>The demo transport\<close>

definition CAN_ID_DI_TORQUE :: u32 where "CAN_ID_DI_TORQUE = 0x108"
definition CAN_ID_DI_SYSTEM_STATUS :: u32 where "CAN_ID_DI_SYSTEM_STATUS = 0x118"
definition CAN_ID_DI_SPEED :: u32 where "CAN_ID_DI_SPEED = 0x257"
definition GEAR_DRIVE :: u32 where "GEAR_DRIVE = 4"

text \<open>\<open>None\<close> is a write outside the array, which comes before the check for it.\<close>

fun pack_from :: "nat \<Rightarrow> nat \<Rightarrow> nat \<Rightarrow> u64 \<Rightarrow> u8 list \<Rightarrow> u8 list option" where
  "pack_from start i 0 v data = Some data"
| "pack_from start i (Suc n) v data =
     (let bitIndex = start + i; byteIdx = bitIndex div 8; mask = push_bit (bitIndex mod 8) (1 :: u8)
      in if length data \<le> byteIdx then None
         else pack_from start (i + 1) n v
                (data[byteIdx := (if bit v i then data ! byteIdx OR mask else data ! byteIdx AND NOT mask)]))"

definition packBits :: "u8 list \<Rightarrow> nat \<Rightarrow> nat \<Rightarrow> u64 \<Rightarrow> u8 list option" where
  "packBits data startBit n v = pack_from startBit 0 n v data"

definition fp_min :: "'d demo_math \<Rightarrow> 'd \<Rightarrow> 'd \<Rightarrow> 'd" where
  "fp_min m a b = (if fp_less (dm_fp m) b a then b else a)"

definition fp_max :: "'d demo_math \<Rightarrow> 'd \<Rightarrow> 'd \<Rightarrow> 'd" where
  "fp_max m a b = (if fp_less (dm_fp m) a b then b else a)"

definition raw_pedal :: "'d demo_math \<Rightarrow> 'd \<Rightarrow> u64" where
  "raw_pedal m throttlePct =
     dm_u64 m (fp_max m (dm_lit m 0 0) (fp_min m (dm_lit m 255 0)
       (dm_round m (fp_div (dm_fp m) throttlePct (dm_lit m 4 1)))))"

definition encodeSystemStatus :: "'d demo_math \<Rightarrow> 'd \<Rightarrow> u32 \<Rightarrow> u8 list option" where
  "encodeSystemStatus m throttlePct gear =
     (case packBits (replicate 8 0) 32 8 (raw_pedal m throttlePct) of
        None \<Rightarrow> None
      | Some data \<Rightarrow> packBits data 21 3 (ucast (gear AND 7)))"

definition raw_torque :: "'d demo_math \<Rightarrow> 'd \<Rightarrow> u64" where
  "raw_torque m torqueNm =
     (let raw = dm_lround m (fp_div (dm_fp m) torqueNm (dm_lit m 2 0));
          r1 = (if 4095 < raw then 4095 else raw); r2 = (if r1 < -4096 then -4096 else r1)
      in of_int r2 AND 0x1FFF)"

definition encodeTorque :: "'d demo_math \<Rightarrow> 'd \<Rightarrow> u8 list option" where
  "encodeTorque m torqueNm = packBits (replicate 8 0) 27 13 (raw_torque m torqueNm)"

definition raw_speed :: "'d demo_math \<Rightarrow> 'd \<Rightarrow> u64" where
  "raw_speed m kmh =
     dm_u64 m (fp_max m (dm_lit m 0 0) (fp_min m (dm_lit m 4095 0)
       (dm_round m (fp_div (dm_fp m) (fp_add (dm_fp m) kmh (dm_lit m 40 0)) (dm_lit m 8 2)))))"

definition encodeSpeed :: "'d demo_math \<Rightarrow> 'd \<Rightarrow> u8 list option" where
  "encodeSpeed m kmh = packBits (replicate 8 0) 12 12 (raw_speed m kmh)"

definition formatFrame :: "u32 \<Rightarrow> u8 list \<Rightarrow> string" where
  "formatFrame canId data =
     lower_hex (unat canId) @ concat (map (\<lambda>b. CHR '' '' # hex_pad 2 (unat b)) data)"

definition drive_cycle :: "'d demo_math \<Rightarrow> 'd \<Rightarrow> 'd" where
  "drive_cycle m phase =
     fp_div (dm_fp m) (fp_add (dm_fp m) (dm_sin m phase) (dm_lit m 1 0)) (dm_lit m 2 0)"

definition drive_torque :: "'d demo_math \<Rightarrow> 'd \<Rightarrow> 'd" where
  "drive_torque m cyc =
     (let d = dm_fp m
      in if fp_less d cyc (dm_lit m 6 1) then fp_add d (dm_lit m 100 0) (fp_mul d cyc (dm_lit m 300 0))
         else fp_sub d (dm_lit m (-50) 0) (fp_mul d (fp_sub d cyc (dm_lit m 6 1)) (dm_lit m 200 0)))"

definition buildFrameLine :: "'d demo_math \<Rightarrow> nat \<Rightarrow> string option" where
  "buildFrameLine m i =
     (let d = dm_fp m; cyc = drive_cycle m (fp_mul d (fp_of_int d (int i)) (dm_lit m 5 2));
          kmh = fp_mul d cyc (dm_lit m 120 0); throttlePct = fp_mul d cyc (dm_lit m 80 0)
      in if i mod 3 = 0 then
           map_option (formatFrame CAN_ID_DI_SYSTEM_STATUS) (encodeSystemStatus m throttlePct GEAR_DRIVE)
         else if i mod 3 = 1 then
           map_option (formatFrame CAN_ID_DI_TORQUE) (encodeTorque m (drive_torque m cyc))
         else map_option (formatFrame CAN_ID_DI_SPEED) (encodeSpeed m kmh))"

definition kDefaultFrameCount :: nat where "kDefaultFrameCount = 600"

record demo_transport =
  dt_total :: nat
  dt_emitted :: nat
  dt_opened :: bool

definition demo_transport_new :: "nat \<Rightarrow> demo_transport" where
  "demo_transport_new frameCount = \<lparr>dt_total = frameCount, dt_emitted = 0, dt_opened = False\<rparr>"

definition demo_open :: "demo_transport \<Rightarrow> bool \<times> demo_transport" where
  "demo_open t = (True, t\<lparr>dt_opened := True\<rparr>)"

definition demo_isOpen :: "demo_transport \<Rightarrow> bool" where
  "demo_isOpen t \<longleftrightarrow> dt_opened t \<and> dt_emitted t < dt_total t"

text \<open>The outer \<open>None\<close> is undefined behaviour, the inner one the end of the lines.\<close>

definition demo_nextLine :: "'d demo_math \<Rightarrow> demo_transport \<Rightarrow> string option option \<times> demo_transport" where
  "demo_nextLine m t =
     (if \<not> dt_opened t \<or> dt_total t \<le> dt_emitted t then (Some None, t)
      else (map_option Some (buildFrameLine m (dt_emitted t)), t\<lparr>dt_emitted := dt_emitted t + 1\<rparr>))"

text \<open>All lines until the end, as a reader of the transport takes them.\<close>

function demo_lines :: "'d demo_math \<Rightarrow> demo_transport \<Rightarrow> string list option" where
  "demo_lines m t =
     (case demo_nextLine m t of
        (None, _) \<Rightarrow> None
      | (Some None, _) \<Rightarrow> Some []
      | (Some (Some l), t1) \<Rightarrow> map_option ((#) l) (demo_lines m t1))"
  by pat_completeness auto
termination
  by (relation "measure (\<lambda>(m, t). dt_total t - dt_emitted t)") (auto simp: demo_nextLine_def split: if_splits)

declare demo_lines.simps [simp del]

section \<open>The demo sources\<close>

definition GEARS :: "int list" where
  "GEARS = [PARK, REVERSE, NEUTRAL, AUTO_1, AUTO_2]"

definition advance_phase :: "'d demo_math \<Rightarrow> 'd \<Rightarrow> 'd" where
  "advance_phase m phase =
     (let d = dm_fp m; p = fp_add d phase (dm_lit m 5 2); full = fp_mul d (dm_lit m 2 0) (dm_pi m)
      in if fp_less d full p then fp_sub d p full else p)"

definition drive_brake :: "'d demo_math \<Rightarrow> 'd \<Rightarrow> 'd" where
  "drive_brake m cyc =
     (let d = dm_fp m;
          b = (if fp_less d (dm_lit m 7 1) cyc then fp_mul d (fp_sub d cyc (dm_lit m 7 1)) (dm_lit m 333 0)
               else dm_lit m 0 0)
      in if fp_less d (dm_lit m 100 0) b then dm_lit m 100 0 else b)"

definition drive_signal :: "'d demo_math \<Rightarrow> 'd \<Rightarrow> 'd \<Rightarrow> int \<Rightarrow> u64 \<Rightarrow> 'd VehicleSignal" where
  "drive_signal m phase cyc gear ts =
     (let d = dm_fp m
      in \<lparr>timestampUtcMs = ts,
          throttlePercent = Some (fp_mul d cyc (dm_lit m 80 0)),
          speedKmh = Some (fp_mul d cyc (dm_lit m 100 0)),
          accelerationG = Some (if fp_less d cyc (dm_lit m 7 1) then dm_lit m 3 1 else dm_lit m (-5) 1),
          brakePercent = Some (drive_brake m cyc), brakeLight = None,
          steeringAngleDeg = Some (fp_mul d (dm_sin m (fp_mul d phase (dm_lit m 2 0))) (dm_lit m 30 0)),
          motorRpm = Some (fp_add d (dm_lit m 1000 0) (fp_mul d cyc (dm_lit m 6000 0))),
          motorHvVoltage = Some (fp_add d (dm_lit m 350 0) (fp_mul d cyc (dm_lit m 50 0))),
          motorHvCurrent = Some (fp_div d (dm_abs m (drive_torque m cyc)) (dm_lit m 10 0)),
          motorTorqueNm = Some (drive_torque m cyc), gearSelector = Some gear\<rparr>)"

definition gear_index :: "'d demo_math \<Rightarrow> 'd \<Rightarrow> int" where
  "gear_index m cyc =
     (let n = dm_int m (fp_mul (dm_fp m) cyc (dm_lit m 5 0)) in if 4 < n then 4 else n)"

text \<open>\<open>None\<close>: an index outside the array of gears.\<close>

definition gear_at :: "int \<Rightarrow> int option" where
  "gear_at i = (if 0 \<le> i \<and> i < 5 then Some (GEARS ! nat i) else None)"

record 'd demo_provider =
  dp_phase :: 'd
  dp_gearIndex :: int

definition demo_provider_new :: "'d demo_math \<Rightarrow> 'd demo_provider" where
  "demo_provider_new m = \<lparr>dp_phase = dm_lit m 0 0, dp_gearIndex = 0\<rparr>"

definition provider_signal ::
    "'d demo_math \<Rightarrow> u64 \<Rightarrow> 'd demo_provider \<Rightarrow> 'd VehicleSignal option \<times> 'd demo_provider" where
  "provider_signal m ts p =
     (let phase = advance_phase m (dp_phase p); cyc = drive_cycle m phase; i = gear_index m cyc;
          index = (if i \<noteq> dp_gearIndex p then i else dp_gearIndex p)
      in (map_option (\<lambda>g. drive_signal m phase cyc g ts) (gear_at index), \<lparr>dp_phase = phase, dp_gearIndex = index\<rparr>))"

text \<open>The passes of the worker until \<open>stop\<close>: the time stamps of the passes in which it still runs.\<close>

fun provider_run :: "'d demo_math \<Rightarrow> u64 list \<Rightarrow> 'd demo_provider \<Rightarrow> 'd VehicleSignal list option" where
  "provider_run m [] p = Some []"
| "provider_run m (ts # tss) p =
     (case provider_signal m ts p of
        (None, _) \<Rightarrow> None
      | (Some s, p1) \<Rightarrow> map_option ((#) s) (provider_run m tss p1))"

definition computeNextSignal :: "'d demo_math \<Rightarrow> 'd \<Rightarrow> u64 \<Rightarrow> 'd VehicleSignal option" where
  "computeNextSignal m phase ts =
     (let cyc = drive_cycle m phase
      in map_option (\<lambda>g. drive_signal m phase cyc g ts) (gear_at (gear_index m cyc)))"

text \<open>The values \<open>latestSignal\<close> takes.\<close>

fun source_run :: "'d demo_math \<Rightarrow> u64 list \<Rightarrow> 'd \<Rightarrow> 'd VehicleSignal list option" where
  "source_run m [] phase = Some []"
| "source_run m (ts # tss) phase =
     (let p = advance_phase m phase
      in case computeNextSignal m p ts of
           None \<Rightarrow> None
         | Some s \<Rightarrow> map_option ((#) s) (source_run m tss p))"

section \<open>The simulator\<close>

definition no_signal :: "u64 \<Rightarrow> 'd VehicleSignal" where
  "no_signal ts =
     \<lparr>timestampUtcMs = ts, throttlePercent = None, speedKmh = None, accelerationG = None, brakePercent = None,
      brakeLight = None, steeringAngleDeg = None, motorRpm = None, motorHvVoltage = None,
      motorHvCurrent = None, motorTorqueNm = None, gearSelector = None\<rparr>"

record 'd simulator =
  vm_running :: bool
  vm_tick :: "32 word"
  vm_speed :: 'd
  vm_lastSpeed :: 'd
  vm_latest :: "'d VehicleSignal"
  vm_callback :: bool

definition simulator_new :: "'d demo_math \<Rightarrow> 'd simulator" where
  "simulator_new m = \<lparr>vm_running = False, vm_tick = 0, vm_speed = dm_lit m 0 0, vm_lastSpeed = dm_lit m 0 0,
     vm_latest = no_signal 0, vm_callback = False\<rparr>"

definition getTelemetry :: "'d demo_math \<Rightarrow> 'd simulator \<Rightarrow> string" where
  "getTelemetry m s =
     (let val = (\<lambda>v. dm_text m (case v of None \<Rightarrow> dm_lit m 0 0 | Some x \<Rightarrow> x)); q = [CHR 0x22]; l = vm_latest s
      in ''{'' @ q @ ''throttle'' @ q @ '':'' @ val (throttlePercent l) @ '',''
         @ q @ ''speed'' @ q @ '':'' @ val (speedKmh l) @ '',''
         @ q @ ''acceleration'' @ q @ '':'' @ val (accelerationG l) @ '',''
         @ q @ ''brake'' @ q @ '':'' @ val (brakePercent l) @ ''}'')"

text \<open>
  \<open>update\<close> at wall clock \<open>now\<close>, and what the callback gets. The counter is a 32-bit \<open>int\<close>; the
  increment past its largest value is undefined in C++ and wraps here.
\<close>

definition simulator_update :: "'d demo_math \<Rightarrow> u64 \<Rightarrow> 'd simulator \<Rightarrow> 'd simulator \<times> string list" where
  "simulator_update m now s =
     (if \<not> vm_running s then (s, [])
      else
        let d = dm_fp m; tick = vm_tick s + 1;
            t = fp_mul d (fp_of_int d (sint tick)) (dm_lit m 1 1);
            throttle = fp_add d (fp_add d (dm_lit m 30 0)
                (fp_mul d (dm_lit m 25 0) (dm_sin m (fp_mul d t (dm_lit m 3 1)))))
              (fp_mul d (dm_lit m 5 0) (dm_sin m (fp_mul d t (dm_lit m 17 1))));
            target = fp_mul d throttle (dm_lit m 18 1);
            speed = fp_add d (vm_speed s) (fp_mul d (fp_sub d target (vm_speed s)) (dm_lit m 5 2));
            accel = fp_mul d (fp_sub d speed (vm_lastSpeed s)) (dm_lit m 2 0);
            brake = (if fp_less d (dm_lit m 7 0) (dm_fmod m t (dm_lit m 8 0))
                     then fp_add d (dm_lit m 20 0) (fp_mul d (dm_lit m 10 0) (dm_sin m (fp_mul d t (dm_lit m 5 0))))
                     else dm_lit m 0 0);
            s1 = s\<lparr>vm_tick := tick, vm_speed := speed, vm_lastSpeed := speed,
                   vm_latest := (no_signal now)\<lparr>throttlePercent := Some throttle, speedKmh := Some speed,
                     accelerationG := Some accel, brakePercent := Some brake\<rparr>\<rparr>
        in (s1, if vm_callback s1 then [getTelemetry m s1] else []))"

text \<open>The source around it: the calls it makes to the simulator, and its worker thread.\<close>

datatype sim_call = SimInitialize | SimStart | SimStop | SpawnWorker | JoinWorker

record 'd sim_source =
  ss_running :: bool
  ss_worker :: bool
  ss_sim :: "'d simulator"
  ss_latest :: "'d VehicleSignal"

definition sim_source_new :: "'d demo_math \<Rightarrow> 'd sim_source" where
  "sim_source_new m = \<lparr>ss_running = False, ss_worker = False, ss_sim = simulator_new m, ss_latest = no_signal 0\<rparr>"

definition sim_start :: "'d sim_source \<Rightarrow> 'd sim_source \<times> sim_call list" where
  "sim_start s =
     (if ss_running s then (s, [])
      else (s\<lparr>ss_running := True, ss_worker := True, ss_sim := (ss_sim s)\<lparr>vm_running := True\<rparr>\<rparr>,
            [SimInitialize, SimStart, SpawnWorker]))"

definition sim_stop :: "'d sim_source \<Rightarrow> 'd sim_source \<times> sim_call list" where
  "sim_stop s =
     (if \<not> ss_running s then (s, [])
      else (s\<lparr>ss_running := False, ss_worker := False, ss_sim := (ss_sim s)\<lparr>vm_running := False\<rparr>\<rparr>,
            (if ss_worker s then [JoinWorker] else []) @ [SimStop]))"

text \<open>One pass of the worker.\<close>

definition sim_poll :: "'d demo_math \<Rightarrow> u64 \<Rightarrow> 'd sim_source \<Rightarrow> 'd sim_source" where
  "sim_poll m now s =
     (if ss_running s \<and> ss_worker s
      then let sim = fst (simulator_update m now (ss_sim s)) in s\<lparr>ss_sim := sim, ss_latest := vm_latest sim\<rparr>
      else s)"

datatype source_type = DemoSignals int | SimulationSignals int

text \<open>\<open>Inl\<close>: the exception.\<close>

definition create_source :: "string \<Rightarrow> int \<Rightarrow> string + source_type" where
  "create_source sourceType updateIntervalMs =
     (if sourceType = ''demo'' then Inr (DemoSignals updateIntervalMs)
      else if sourceType = ''simulation'' then Inr (SimulationSignals updateIntervalMs)
      else Inl (''Unknown source type: '' @ sourceType))"

end
