(* ===== verification/Host_Keyboard.thy ===== *)
theory Host_Keyboard
  imports Host_Demo Host_Csv
begin

text \<open>
  The interactive bench mode, all under \<open>src/src\<close>: the target of the key actions
  (\<open>interactive/CsvKeyActionTarget.cpp\<close>), the filter that takes the arrow keys out of the key stream
  (\<open>interactive/SteeringFilterKeyboard.cpp\<close>), the terminal (\<open>interactive/KeyboardInput.cpp\<close>), the
  telemetry source on top of them (\<open>io/InteractiveCsvTelemetrySource.cpp\<close>) and the loop that prints
  its rows (\<open>cli/InteractiveRunContext.cpp\<close>).

  The mapping of keys to actions belongs to a submodule, the bridge. It is an argument: a machine
  that in every frame reads keys, calls actions and ends the frame, in any order it likes.
  Its reading may take for ever, so a frame is a partial function.
\<close>

section \<open>The target of the key actions\<close>

definition STEER_STEP_DEG :: "'d demo_math \<Rightarrow> 'd" where "STEER_STEP_DEG m = dm_lit m 5 0"
definition STEER_LIMIT_DEG :: "'d demo_math \<Rightarrow> 'd" where "STEER_LIMIT_DEG m = dm_lit m 90 0"
definition GEAR_MIN :: int where "GEAR_MIN = 1"
definition GEAR_MAX :: int where "GEAR_MAX = 9"
definition PERCENT :: "'d demo_math \<Rightarrow> 'd" where "PERCENT m = dm_lit m 100 0"
definition KEY_ESCAPE :: int where "KEY_ESCAPE = 27"
definition KEY_BRACKET :: int where "KEY_BRACKET = 91"

datatype EscapeStage = NoEscape | SeenEscape | SeenBracket

record 'd key_target =
  kt_throttle :: 'd
  kt_gear :: int
  kt_brake :: 'd
  kt_steering :: 'd
  kt_quit :: bool
  kt_stage :: EscapeStage
  kt_replayKey :: int

definition key_target_new :: "'d demo_math \<Rightarrow> 'd key_target" where
  "key_target_new m =
     \<lparr>kt_throttle = dm_lit m 0 0, kt_gear = 1, kt_brake = dm_lit m 0 0, kt_steering = dm_lit m 0 0,
      kt_quit = False, kt_stage = NoEscape, kt_replayKey = -1\<rparr>"

definition percent_of :: "'d demo_math \<Rightarrow> 'd \<Rightarrow> 'd" where
  "percent_of m fraction = fp_mul (dm_fp m) (clamp (dm_fp m) fraction (dm_lit m 0 0) (dm_lit m 1 0)) (PERCENT m)"

definition setThrottleMomentary :: "'d demo_math \<Rightarrow> 'd \<Rightarrow> 'd key_target \<Rightarrow> 'd key_target" where
  "setThrottleMomentary m fraction t = t\<lparr>kt_throttle := percent_of m fraction\<rparr>"

definition setThrottle :: "'d demo_math \<Rightarrow> 'd \<Rightarrow> 'd key_target \<Rightarrow> 'd key_target" where
  "setThrottle m fraction t = t\<lparr>kt_throttle := percent_of m fraction\<rparr>"

definition adjustThrottle :: "'d demo_math \<Rightarrow> 'd \<Rightarrow> 'd key_target \<Rightarrow> 'd key_target" where
  "adjustThrottle m delta t =
     t\<lparr>kt_throttle := clamp (dm_fp m) (fp_add (dm_fp m) (kt_throttle t) (fp_mul (dm_fp m) delta (PERCENT m)))
         (dm_lit m 0 0) (PERCENT m)\<rparr>"

definition shiftUp :: "'d key_target \<Rightarrow> 'd key_target" where
  "shiftUp t = t\<lparr>kt_gear := min (kt_gear t + 1) GEAR_MAX\<rparr>"

definition shiftDown :: "'d key_target \<Rightarrow> 'd key_target" where
  "shiftDown t = t\<lparr>kt_gear := max (kt_gear t - 1) GEAR_MIN\<rparr>"

definition setBrake :: "'d demo_math \<Rightarrow> 'd \<Rightarrow> 'd key_target \<Rightarrow> 'd key_target" where
  "setBrake m fraction t =
     (let t1 = t\<lparr>kt_brake := percent_of m fraction\<rparr>
      in if fp_less (dm_fp m) (dm_lit m 0 0) (kt_brake t1) then t1\<lparr>kt_throttle := dm_lit m 0 0\<rparr> else t1)"

definition key_quit :: "'d key_target \<Rightarrow> 'd key_target" where
  "key_quit t = t\<lparr>kt_quit := True\<rparr>"

definition applyArrow :: "'d demo_math \<Rightarrow> int \<Rightarrow> 'd key_target \<Rightarrow> 'd key_target" where
  "applyArrow m letter t =
     (let d = dm_fp m
      in if letter = 65 then shiftUp t
         else if letter = 66 then shiftDown t
         else if letter = 67 then
           t\<lparr>kt_steering := fp_min m (fp_add d (kt_steering t) (STEER_STEP_DEG m)) (STEER_LIMIT_DEG m)\<rparr>
         else if letter = 68 then
           t\<lparr>kt_steering := fp_max m (fp_sub d (kt_steering t) (STEER_STEP_DEG m)) (dm_lit m (-90) 0)\<rparr>
         else t)"

definition consumeEscapeSequence :: "'d demo_math \<Rightarrow> int \<Rightarrow> 'd key_target \<Rightarrow> bool \<times> 'd key_target" where
  "consumeEscapeSequence m key t =
     (case kt_stage t of
        NoEscape \<Rightarrow> if key = KEY_ESCAPE then (True, t\<lparr>kt_stage := SeenEscape\<rparr>) else (False, t)
      | SeenEscape \<Rightarrow>
          if key = KEY_BRACKET then (True, t\<lparr>kt_stage := SeenBracket\<rparr>)
          else (False, t\<lparr>kt_stage := NoEscape, kt_replayKey := KEY_ESCAPE\<rparr>)
      | SeenBracket \<Rightarrow> (True, (applyArrow m key t)\<lparr>kt_stage := NoEscape\<rparr>))"

definition takeReplayKey :: "'d key_target \<Rightarrow> int \<times> 'd key_target" where
  "takeReplayKey t = (kt_replayKey t, t\<lparr>kt_replayKey := -1\<rparr>)"

section \<open>The filter\<close>

text \<open>
  The filter around the keyboard: the byte a replay displaced, what can be read from the keyboard
  without waiting, and the target. The keyboard answers -1 when there is nothing.
\<close>

record 'd key_filter =
  kf_pendingKey :: int
  kf_keys :: "int list"
  kf_target :: "'d key_target"

fun search_key :: "'d demo_math \<Rightarrow> int list \<Rightarrow> 'd key_target \<Rightarrow> int \<times> 'd key_filter" where
  "search_key m [] t = (-1, \<lparr>kf_pendingKey = -1, kf_keys = [], kf_target = t\<rparr>)"
| "search_key m (key # keys) t =
     (if key < 0 then (key, \<lparr>kf_pendingKey = -1, kf_keys = keys, kf_target = t\<rparr>)
      else
        let (consumed, t1) = consumeEscapeSequence m key t
        in if consumed then search_key m keys t1
           else
             let (replay, t2) = takeReplayKey t1
             in if 0 \<le> replay then (replay, \<lparr>kf_pendingKey = key, kf_keys = keys, kf_target = t2\<rparr>)
                else (key, \<lparr>kf_pendingKey = -1, kf_keys = keys, kf_target = t2\<rparr>))"

definition getKey :: "'d demo_math \<Rightarrow> 'd key_filter \<Rightarrow> int \<times> 'd key_filter" where
  "getKey m f =
     (if 0 \<le> kf_pendingKey f then (kf_pendingKey f, f\<lparr>kf_pendingKey := -1\<rparr>)
      else search_key m (kf_keys f) (kf_target f))"

section \<open>The terminal\<close>

text \<open>
  What the process changes of its terminal: the flags of \<open>termios\<close> and the flags of the descriptor.
  The results of the four system calls, in the order of the code, are the input.
\<close>

record tty =
  tty_canonical :: bool
  tty_echo :: bool
  tty_min :: nat
  tty_time :: nat
  tty_nonblock :: bool

record tty_calls =
  tc_getattr :: bool
  tc_setattr :: bool
  tc_getfl :: bool
  tc_setfl :: bool

text \<open>The terminal afterwards, the saved settings, and whether the keyboard is initialised.\<close>

definition setupTerminal :: "tty_calls \<Rightarrow> tty \<Rightarrow> tty \<times> tty \<times> bool" where
  "setupTerminal c t =
     (if \<not> tc_getattr c then (t, t, False)
      else if \<not> tc_setattr c then (t, t, False)
      else
        let t1 = t\<lparr>tty_canonical := False, tty_echo := False, tty_min := 0, tty_time := 0\<rparr>
        in if \<not> tc_getfl c then (t1, t, False)
           else if \<not> tc_setfl c then (t1, t, False)
           else (t1\<lparr>tty_nonblock := True\<rparr>, t, True))"

text \<open>The destructor: the saved \<open>termios\<close> settings, if the keyboard was initialised.\<close>

definition restoreTerminal :: "bool \<Rightarrow> tty \<Rightarrow> tty \<Rightarrow> tty" where
  "restoreTerminal initialized saved t =
     (if initialized
      then t\<lparr>tty_canonical := tty_canonical saved, tty_echo := tty_echo saved,
             tty_min := tty_min saved, tty_time := tty_time saved\<rparr>
      else t)"

definition keyboard_getKey :: "bool \<Rightarrow> u8 list \<Rightarrow> int \<times> u8 list" where
  "keyboard_getKey initialized avail =
     (if initialized then (case avail of [] \<Rightarrow> (-1, []) | b # bs \<Rightarrow> (uint b, bs)) else (-1, avail))"

section \<open>The bridge\<close>

datatype 'd key_action =
    ThrottleMomentary 'd
  | Throttle 'd
  | AdjustThrottle 'd
  | ShiftUp
  | ShiftDown
  | Brake 'd
  | QuitAction
  | IgnoredAction

definition key_act :: "'d demo_math \<Rightarrow> 'd key_action \<Rightarrow> 'd key_target \<Rightarrow> 'd key_target" where
  "key_act m a t =
     (case a of
        ThrottleMomentary x \<Rightarrow> setThrottleMomentary m x t
      | Throttle x \<Rightarrow> setThrottle m x t
      | AdjustThrottle x \<Rightarrow> adjustThrottle m x t
      | ShiftUp \<Rightarrow> shiftUp t
      | ShiftDown \<Rightarrow> shiftDown t
      | Brake x \<Rightarrow> setBrake m x t
      | QuitAction \<Rightarrow> key_quit t
      | IgnoredAction \<Rightarrow> t)"

text \<open>What the bridge does next: read a key, call an action, or end the frame.\<close>

datatype ('b, 'd) bridge_move = ReadKey "int \<Rightarrow> 'b" | Act "'d key_action" 'b | EndFrame 'b

record ('b, 'd) key_bridge =
  kb_begin :: "'d \<Rightarrow> 'b \<Rightarrow> 'b"
  kb_move :: "'b \<Rightarrow> ('b, 'd) bridge_move"

partial_function (option) bridge_frame ::
    "'d demo_math \<Rightarrow> ('b, 'd) key_bridge \<Rightarrow> 'b \<Rightarrow> 'd key_filter \<Rightarrow> ('b \<times> 'd key_filter) option" where
  "bridge_frame m p b f =
     (case kb_move p b of
        ReadKey k \<Rightarrow> bridge_frame m p (k (fst (getKey m f))) (snd (getKey m f))
      | Act a b1 \<Rightarrow> bridge_frame m p b1 (f\<lparr>kf_target := key_act m a (kf_target f)\<rparr>)
      | EndFrame b1 \<Rightarrow> Some (b1, f))"

section \<open>The telemetry source\<close>

record ('b, 'd) interactive_source =
  is_bridge :: 'b
  is_filter :: "'d key_filter"
  is_vehicleId :: string
  is_intervalMs :: int
  is_timestampMs :: u64
  is_quit :: bool
  is_started :: bool

definition interactive_new :: "'d demo_math \<Rightarrow> 'b \<Rightarrow> string \<Rightarrow> int \<Rightarrow> ('b, 'd) interactive_source" where
  "interactive_new m b vehicleId intervalMs =
     \<lparr>is_bridge = b,
      is_filter = \<lparr>kf_pendingKey = -1, kf_keys = [], kf_target = key_target_new m\<rparr>,
      is_vehicleId = vehicleId, is_intervalMs = (if 0 < intervalMs then intervalMs else 20),
      is_timestampMs = 0, is_quit = False, is_started = False\<rparr>"

definition interactive_hasNext :: "('b, 'd) interactive_source \<Rightarrow> bool" where
  "interactive_hasNext s \<longleftrightarrow> \<not> is_quit s"

text \<open>The row of a state of the controls.\<close>

definition bench_row :: "'d demo_math \<Rightarrow> string \<Rightarrow> u64 \<Rightarrow> 'd key_target \<Rightarrow> 'd CsvTelemetryRow" where
  "bench_row m vehicleId ts t =
     (let d = dm_fp m; braking = fp_less d (dm_lit m 0 0) (kt_brake t);
          speed0 = fp_mul d (kt_throttle t) (dm_lit m 4 0);
          speed = (if braking then fp_max m (dm_lit m 0 0) (fp_sub d speed0 (fp_mul d (kt_brake t) (dm_lit m 2 0)))
                   else speed0);
          accel0 = fp_mul d (fp_div d (kt_throttle t) (dm_lit m 100 0)) (dm_lit m 5 1);
          accel = (if braking then fp_sub d accel0 (dm_lit m 3 1) else accel0);
          ratio = (if 0 < kt_gear t then fp_of_int d (kt_gear t) else dm_lit m 1 0);
          rpm0 = fp_mul d (fp_div d speed ratio) (dm_lit m 100 0)
      in \<lparr>tr_timestamp_ms = ts, tr_vehicle_id = fromUserInput vehicleId, tr_speed_kmh = speed,
          tr_throttle_percent = kt_throttle t, tr_brake_light = Some (if braking then 1 else 0),
          tr_acceleration_g = accel, tr_steering_angle_deg = kt_steering t,
          tr_motor_rpm = (if fp_less d rpm0 (dm_lit m 800 0) then dm_lit m 800 0 else rpm0),
          tr_motor_hv_voltage = dm_lit m 400 0,
          tr_motor_hv_current = fp_mul d (kt_throttle t) (dm_lit m 2 0),
          tr_motor_torque_nm = fp_mul d (kt_throttle t) (dm_lit m 15 0),
          tr_gear_selector = fromRegistry (int_str (kt_gear t)), tr_dbc_signal_count = 42\<rparr>)"

text \<open>
  One row, after \<open>keys\<close> have come in: the row, the sleep before it in milliseconds (none before the
  first), and the source. \<open>None\<close>: the bridge never ends its frame.
\<close>

definition interactive_next ::
    "'d demo_math \<Rightarrow> ('b, 'd) key_bridge \<Rightarrow> int list \<Rightarrow> ('b, 'd) interactive_source \<Rightarrow>
     ('d CsvTelemetryRow \<times> int list \<times> ('b, 'd) interactive_source) option" where
  "interactive_next m p keys s =
     (let sleeps = (if is_started s then [is_intervalMs s] else []);
          f = (is_filter s)\<lparr>kf_keys := kf_keys (is_filter s) @ keys\<rparr>;
          dt = fp_div (dm_fp m) (fp_of_int (dm_fp m) (is_intervalMs s)) (dm_lit m 1000 0)
      in case bridge_frame m p (kb_begin p dt (is_bridge s)) f of
           None \<Rightarrow> None
         | Some (b1, f1) \<Rightarrow>
             let ts = is_timestampMs s + of_int (is_intervalMs s)
             in Some (bench_row m (is_vehicleId s) ts (kf_target f1), sleeps,
                  s\<lparr>is_bridge := b1, is_filter := f1, is_timestampMs := ts,
                    is_quit := kt_quit (kf_target f1), is_started := True\<rparr>))"

section \<open>The loop\<close>

text \<open>
  What the loop prints while the given keys come in, one list per row, and whether it has ended; a
  loop that has not ended waits for more.
\<close>

fun interactive_loop ::
    "'d demo_math \<Rightarrow> ('b, 'd) key_bridge \<Rightarrow> 'd csv_numbers \<Rightarrow> int list list \<Rightarrow> ('b, 'd) interactive_source \<Rightarrow>
     (string \<times> int list \<times> bool) option" where
  "interactive_loop m p n [] s = Some ([], [], \<not> interactive_hasNext s)"
| "interactive_loop m p n (keys # rest) s =
     (if \<not> interactive_hasNext s then Some ([], [], True)
      else
        (case interactive_next m p keys s of
           None \<Rightarrow> None
         | Some (row, sleeps, s1) \<Rightarrow>
             (case interactive_loop m p n rest s1 of
                None \<Rightarrow> None
              | Some (out, sls, ended) \<Rightarrow>
                  Some (csvRowLine n (row_params row) @ [LF] @ out, sleeps @ sls, ended))))"

text \<open>The exit code counts once the loop has ended. \<open>haveKeyboard\<close>: the factory's answer.\<close>

definition interactive_run ::
    "'d demo_math \<Rightarrow> ('b, 'd) key_bridge \<Rightarrow> 'd csv_numbers \<Rightarrow> 'b \<Rightarrow> string \<Rightarrow> int \<Rightarrow> bool \<Rightarrow> int list list \<Rightarrow>
     (int \<times> string \<times> int list \<times> bool) option" where
  "interactive_run m p n b vehicleId intervalMs haveKeyboard frames =
     (if \<not> haveKeyboard then Some (1, [], [], True)
      else map_option (\<lambda>(out, sleeps, ended). (0, csvHeaderLine @ [LF] @ out, sleeps, ended))
             (interactive_loop m p n frames (interactive_new m b vehicleId intervalMs)))"

end
