(* ===== verification/Keyboard_Proofs.thy ===== *)
theory Keyboard_Proofs
  imports Host_Keyboard
begin

text \<open>
  The interactive mode: which keys reach the bridge, whatever the frames they come in; what the
  controls can be, whatever the bridge does; when rows are printed; and what is left of the terminal.
\<close>

section \<open>The keys the bridge sees\<close>

text \<open>
  What was pressed, read off the bytes: an escape with a bracket and any third byte is a sequence, an escape
  with any other byte is an escape and that key, whatever the key is, and everything else is a key.
  A sequence or an escape that is not finished is left out.
\<close>

datatype press = Key int | Sequence int | EscapeAnd int

fun presses :: "int list \<Rightarrow> press list" where
  "presses [] = []"
| "presses [k] = (if k = 27 then [] else [Key k])"
| "presses [k, k2] = (if k \<noteq> 27 then Key k # presses [k2] else if k2 = 91 then [] else [EscapeAnd k2])"
| "presses (k # k2 # k3 # ks) =
     (if k \<noteq> 27 then Key k # presses (k2 # k3 # ks)
      else if k2 = 91 then Sequence k3 # presses ks else EscapeAnd k2 # presses (k3 # ks))"

lemma presses_key: "k \<noteq> 27 \<Longrightarrow> presses (k # ks) = Key k # presses ks"
  by (cases ks rule: presses.cases) auto

lemma presses_escape: "k \<noteq> 91 \<Longrightarrow> presses (27 # k # ks) = EscapeAnd k # presses ks"
  by (cases ks) auto

lemma presses_sequence: "presses (27 # 91 # l # ks) = Sequence l # presses ks"
  by simp

text \<open>What of it the bridge is handed, and what the controls are told.\<close>

fun handed :: "press \<Rightarrow> int list" where
  "handed (Key k) = [k]"
| "handed (EscapeAnd k) = [27, k]"
| "handed (Sequence l) = []"

fun told :: "press \<Rightarrow> int list" where
  "told (Sequence l) = [l]"
| "told _ = []"

abbreviation visible :: "int list \<Rightarrow> int list" where
  "visible ks \<equiv> concat (map handed (presses ks))"

abbreviation letters :: "int list \<Rightarrow> int list" where
  "letters ks \<equiv> concat (map told (presses ks))"

definition controls :: "'d key_target \<Rightarrow> int \<times> 'd" where
  "controls t = (kt_gear t, kt_steering t)"

text \<open>An arrow on the gear and the wheel: up and down shift, right and left turn by one step, within the limits.\<close>

definition arrow :: "'d demo_math \<Rightarrow> int \<Rightarrow> int \<times> 'd \<Rightarrow> int \<times> 'd" where
  "arrow m l c = (let (g, w) = c; d = dm_fp m
     in if l = 65 then (min (g + 1) GEAR_MAX, w) else if l = 66 then (max (g - 1) GEAR_MIN, w)
        else if l = 67 then (g, fp_min m (fp_add d w (STEER_STEP_DEG m)) (STEER_LIMIT_DEG m))
        else if l = 68 then (g, fp_max m (fp_sub d w (STEER_STEP_DEG m)) (dm_lit m (-90) 0))
        else c)"

lemma arrow_controls: "controls (applyArrow m l t) = arrow m l (controls t)"
  by (simp add: controls_def arrow_def applyArrow_def shiftUp_def shiftDown_def Let_def)

definition held :: "'d key_target \<Rightarrow> int list" where
  "held t = (case kt_stage t of NoEscape \<Rightarrow> [] | SeenEscape \<Rightarrow> [27] | SeenBracket \<Rightarrow> [27, 91])"

definition displaced :: "int \<Rightarrow> int list" where
  "displaced k = (if 0 \<le> k then [k] else [])"

definition steered :: "'d demo_math \<Rightarrow> 'd key_target \<Rightarrow> int list \<Rightarrow> int \<times> 'd" where
  "steered m t ks = fold (arrow m) (letters (held t @ ks)) (controls t)"

lemma controls_other [simp]:
  "controls (t\<lparr>kt_stage := s\<rparr>) = controls t" "controls (t\<lparr>kt_replayKey := k\<rparr>) = controls t"
  by (simp_all add: controls_def)

lemma search_visible:
  assumes "search_key m ks t = (k, f)" "kt_replayKey t = -1" "\<forall>x\<in>set ks. 0 \<le> x"
  shows "visible (held t @ ks @ later) =
      displaced k @ displaced (kf_pendingKey f) @ visible (held (kf_target f) @ kf_keys f @ later)"
    and "kt_replayKey (kf_target f) = -1" and "\<forall>x\<in>set (kf_keys f). 0 \<le> x"
    and "k < 0 \<Longrightarrow> kf_pendingKey f < 0 \<and> kf_keys f = []"
    and "0 \<le> k \<Longrightarrow> length (kf_keys f) < length ks"
    and "steered m t (ks @ later) = steered m (kf_target f) (kf_keys f @ later)"
proof -
  have "visible (held t @ ks @ later) =
      displaced k @ displaced (kf_pendingKey f) @ visible (held (kf_target f) @ kf_keys f @ later) \<and>
    kt_replayKey (kf_target f) = -1 \<and> (\<forall>x\<in>set (kf_keys f). 0 \<le> x) \<and>
    (k < 0 \<longrightarrow> kf_pendingKey f < 0 \<and> kf_keys f = []) \<and> (0 \<le> k \<longrightarrow> length (kf_keys f) < length ks) \<and>
    steered m t (ks @ later) = steered m (kf_target f) (kf_keys f @ later)"
    using assms
  proof (induction ks arbitrary: t)
    case (Cons key keys)
    have replay: "kt_replayKey (applyArrow m key t) = kt_replayKey t"
      by (simp add: applyArrow_def shiftUp_def shiftDown_def Let_def)
    show ?case
    proof (cases "kt_stage t")
      case NoEscape
      with Cons.prems Cons.IH[of "t\<lparr>kt_stage := SeenEscape\<rparr>"] show ?thesis
        by (auto simp: consumeEscapeSequence_def KEY_ESCAPE_def held_def takeReplayKey_def displaced_def steered_def
            presses_key split: if_splits)
    next
      case SeenEscape
      with Cons.prems Cons.IH[of "t\<lparr>kt_stage := SeenBracket\<rparr>"] show ?thesis
        by (auto simp: consumeEscapeSequence_def KEY_ESCAPE_def KEY_BRACKET_def held_def takeReplayKey_def steered_def
            displaced_def presses_escape split: if_splits)
    next
      case SeenBracket
      with Cons.prems Cons.IH[of "(applyArrow m key t)\<lparr>kt_stage := NoEscape\<rparr>"] replay show ?thesis
        by (auto simp: consumeEscapeSequence_def held_def presses_sequence steered_def arrow_controls split: if_splits)
    qed
  qed (auto simp: displaced_def)
  then show "visible (held t @ ks @ later) =
      displaced k @ displaced (kf_pendingKey f) @ visible (held (kf_target f) @ kf_keys f @ later)"
    "kt_replayKey (kf_target f) = -1" "\<forall>x\<in>set (kf_keys f). 0 \<le> x"
    "k < 0 \<Longrightarrow> kf_pendingKey f < 0 \<and> kf_keys f = []" "0 \<le> k \<Longrightarrow> length (kf_keys f) < length ks"
    "steered m t (ks @ later) = steered m (kf_target f) (kf_keys f @ later)"
    by auto
qed

text \<open>Reading until nothing is left, as the bridge does in every frame.\<close>

definition filter_size :: "'d key_filter \<Rightarrow> nat" where
  "filter_size f = 2 * length (kf_keys f) + length (displaced (kf_pendingKey f))"

lemma search_size: "0 \<le> fst (search_key m ks t) \<Longrightarrow> filter_size (snd (search_key m ks t)) < 2 * length ks"
proof (induction ks arbitrary: t)
  case (Cons key keys)
  from Cons.IH[of "snd (consumeEscapeSequence m key t)"] Cons.prems show ?case
    by (auto simp: filter_size_def displaced_def split: if_splits prod.splits)
qed simp

lemma getKey_size: "0 \<le> fst (getKey m f) \<Longrightarrow> filter_size (snd (getKey m f)) < filter_size f"
  using search_size[of m "kf_keys f" "kf_target f"]
  by (auto simp: getKey_def filter_size_def displaced_def)

function drain :: "'d demo_math \<Rightarrow> 'd key_filter \<Rightarrow> int list \<times> 'd key_filter" where
  "drain m f =
     (let (k, f1) = getKey m f
      in if k < 0 then ([], f1) else let (ks, f2) = drain m f1 in (k # ks, f2))"
  by pat_completeness auto
termination
proof (relation "measure (\<lambda>(m, f). filter_size f)")
  fix m :: "'d demo_math" and f x k f1
  assume x: "x = getKey m f" "(k, f1) = x" "\<not> k < 0"
  then have "0 \<le> fst (getKey m f)" "f1 = snd (getKey m f)" by (metis fst_conv not_le, metis snd_conv)
  with getKey_size show "((m, f1), m, f) \<in> measure (\<lambda>(m, f). filter_size f)" by simp
qed simp

declare drain.simps [simp del]

fun drain_frames :: "'d demo_math \<Rightarrow> int list list \<Rightarrow> 'd key_filter \<Rightarrow> int list \<times> 'd key_filter" where
  "drain_frames m [] f = ([], f)"
| "drain_frames m (keys # frames) f =
     (let (ks, f1) = drain m (f\<lparr>kf_keys := kf_keys f @ keys\<rparr>); (ks2, f2) = drain_frames m frames f1
      in (ks @ ks2, f2))"

definition filter_ok :: "'d key_filter \<Rightarrow> bool" where
  "filter_ok f \<longleftrightarrow> kt_replayKey (kf_target f) = -1 \<and> (\<forall>x\<in>set (kf_keys f). 0 \<le> x)"

definition to_come :: "'d key_filter \<Rightarrow> int list \<Rightarrow> int list" where
  "to_come f later = displaced (kf_pendingKey f) @ visible (held (kf_target f) @ kf_keys f @ later)"

definition to_steer :: "'d demo_math \<Rightarrow> 'd key_filter \<Rightarrow> int list \<Rightarrow> int \<times> 'd" where
  "to_steer m f later = steered m (kf_target f) (kf_keys f @ later)"

lemma getKey_visible:
  assumes "getKey m f = (k, f1)" "filter_ok f"
  shows "to_come f later = displaced k @ to_come f1 later" "filter_ok f1"
    "k < 0 \<Longrightarrow> kf_pendingKey f1 < 0 \<and> kf_keys f1 = []" "to_steer m f later = to_steer m f1 later"
proof -
  note s = search_visible[of m "kf_keys f" "kf_target f" k f1]
  show "to_come f later = displaced k @ to_come f1 later" "filter_ok f1"
    "k < 0 \<Longrightarrow> kf_pendingKey f1 < 0 \<and> kf_keys f1 = []" "to_steer m f later = to_steer m f1 later"
    using assms s
    by (auto simp: getKey_def filter_ok_def to_come_def to_steer_def displaced_def split: if_splits)
qed

lemma drain_visible:
  assumes "drain m f = (ks, f1)" "filter_ok f"
  shows "to_come f later = ks @ to_come f1 later" "filter_ok f1"
    "kf_pendingKey f1 < 0" "kf_keys f1 = []" "to_steer m f later = to_steer m f1 later"
proof -
  have "to_come f later = ks @ to_come f1 later \<and> filter_ok f1 \<and>
    kf_pendingKey f1 < 0 \<and> kf_keys f1 = [] \<and> to_steer m f later = to_steer m f1 later"
    using assms
  proof (induction m f arbitrary: ks rule: drain.induct)
    case (1 m f)
    obtain k g where g: "getKey m f = (k, g)" by fastforce
    note v = getKey_visible[OF g 1(3)]
    show ?case
    proof (cases "k < 0")
      case True
      with 1(2) g v show ?thesis by (auto simp: drain.simps[of m f] displaced_def)
    next
      case False
      then obtain ks2 where ks2: "drain m g = (ks2, f1)" "ks = k # ks2"
        using 1(2) g by (auto simp: drain.simps[of m f] split: prod.splits)
      from 1(1)[OF g[symmetric] refl False ks2(1) v(2)] ks2 v(1) v(4)[of later] False show ?thesis
        by (simp add: displaced_def)
    qed
  qed
  then show "to_come f later = ks @ to_come f1 later" "filter_ok f1"
    "kf_pendingKey f1 < 0" "kf_keys f1 = []" "to_steer m f later = to_steer m f1 later" by auto
qed

lemma frames_visible:
  assumes "filter_ok f" "kf_pendingKey f < 0" "kf_keys f = []" "\<forall>ks\<in>set frames. \<forall>x\<in>set ks. 0 \<le> x"
    and "drain_frames m frames f = (ks, f1)"
  shows "ks = visible (held (kf_target f) @ concat frames) \<and>
    controls (kf_target f1) = steered m (kf_target f) (concat frames)"
  using assms
proof (induction frames arbitrary: f ks)
  case Nil
  then show ?case by (auto simp: held_def steered_def split: EscapeStage.split)
next
  case (Cons keys frames)
  obtain k1 g where d: "drain m (f\<lparr>kf_keys := keys\<rparr>) = (k1, g)" by fastforce
  obtain k2 where r: "drain_frames m frames g = (k2, f1)" "ks = k1 @ k2"
    using Cons.prems(3,5) d by (auto split: prod.splits)
  have ok: "filter_ok (f\<lparr>kf_keys := keys\<rparr>)" using Cons.prems by (auto simp: filter_ok_def)
  note v = drain_visible[OF d ok]
  from Cons.IH[of g k2] v(2-4) Cons.prems(4) r(1)
  have "k2 = visible (held (kf_target g) @ concat frames) \<and>
    controls (kf_target f1) = steered m (kf_target g) (concat frames)" by simp
  with d r(2) v(1)[of "concat frames"] v(3,4) v(5)[of "concat frames"] Cons.prems show ?case
    by (simp add: to_come_def to_steer_def displaced_def)
qed

definition int_math :: "int demo_math" where
  "int_math = \<lparr>dm_fp = \<lparr>fp_of_int = id, fp_mul = (*), fp_add = (+), fp_sub = (-), fp_div = (div),
     fp_less = (<), fp_eq = (=)\<rparr>, dm_lit = (\<lambda>k e. k div 10 ^ e), dm_sin = id, dm_fmod = (mod), dm_abs = abs,
     dm_pi = 3, dm_round = id, dm_lround = id, dm_u64 = of_int, dm_int = id, dm_text = int_str\<rparr>"

text \<open>
  C24. However the keys are spread over frames: the bridge is handed, in order, every
  key that is not part of an escape sequence, and each sequence goes to the controls, once and in order, where
  the four arrows shift and turn within the limits. A sequence is an escape, a bracket and any third byte, so
  a sequence that is no arrow is lost to both. An escape that no bracket follows is handed over together
  with the key behind it, and that key starts no sequence: of an arrow behind a lone escape, the
  bridge gets all three bytes. What is unfinished at the end waits.
\<close>

theorem sequences_steer_and_keys_pass:
  assumes "\<forall>ks\<in>set frames. \<forall>x\<in>set ks. 0 \<le> x"
  shows "\<exists>f. drain_frames m frames (is_filter (interactive_new m b v i)) =
      (concat (map handed (presses (concat frames))), f) \<and>
    controls (kf_target f) = fold (arrow m) (concat (map told (presses (concat frames)))) (1, dm_lit m 0 0)"
proof -
  obtain ks f where d: "drain_frames m frames (is_filter (interactive_new m b v i)) = (ks, f)" by fastforce
  with frames_visible[of "is_filter (interactive_new m b v i)" frames m ks f] assms show ?thesis
    by (intro exI[of _ f])
      (simp add: interactive_new_def filter_ok_def key_target_new_def held_def steered_def controls_def)
qed

text \<open>A key, an arrow up cut in two frames, a lone escape before an arrow right, and a sequence that is no arrow.\<close>

theorem sequences_steer_and_keys_pass_witness:
  "\<exists>f. drain_frames int_math [[49, 27, 91], [65, 27], [27, 91, 67, 27, 91, 72]]
     (is_filter (interactive_new int_math () ''tesla'' 20)) = ([49, 27, 27, 91, 67], f) \<and> controls (kf_target f) = (2, 0)"
  using sequences_steer_and_keys_pass[of "[[49, 27, 91], [65, 27], [27, 91, 67, 27, 91, 72]]" int_math "()" "''tesla''" 20]
  by (simp add: arrow_def GEAR_MAX_def int_math_def)

section \<open>What the bridge cannot break\<close>

lemma bridge_frame_induct [consumes 1, case_names Read Act End]:
  assumes "bridge_frame m p b f = Some (b1, f1)"
    and read: "\<And>b f k. kb_move p b = ReadKey k \<Longrightarrow>
      bridge_frame m p (k (fst (getKey m f))) (snd (getKey m f)) = Some (b1, f1) \<Longrightarrow>
      Q (k (fst (getKey m f))) (snd (getKey m f)) \<Longrightarrow> Q b f"
    and act: "\<And>b f a b'. kb_move p b = Act a b' \<Longrightarrow> Q b' (f\<lparr>kf_target := key_act m a (kf_target f)\<rparr>) \<Longrightarrow> Q b f"
    and fin: "\<And>b. kb_move p b = EndFrame b1 \<Longrightarrow> Q b f1"
  shows "Q b f"
proof -
  define R where "R m' p' b f r \<longleftrightarrow> m' = m \<and> p' = p \<and> r = (b1, f1) \<longrightarrow> Q b f \<and> bridge_frame m p b f = Some (b1, f1)"
    for m' p' b f r
  have "R m p b f (b1, f1)"
    using assms(1)
  proof (rule bridge_frame.raw_induct[rotated])
    fix frame m' p' b f r
    assume ih: "\<And>m p b f r. frame m p b f = Some r \<Longrightarrow> R m p b f r"
      and run: "(case kb_move p' b of
        ReadKey k \<Rightarrow> frame m' p' (k (fst (getKey m' f))) (snd (getKey m' f))
      | Act a b1 \<Rightarrow> frame m' p' b1 (f\<lparr>kf_target := key_act m' a (kf_target f)\<rparr>)
      | EndFrame b1 \<Rightarrow> Some (b1, f)) = Some r"
    show "R m' p' b f r"
      unfolding R_def
    proof (intro impI, elim conjE)
      assume eq: "m' = m" "p' = p" "r = (b1, f1)"
      show "Q b f \<and> bridge_frame m p b f = Some (b1, f1)"
      proof (cases "kb_move p b")
        case (ReadKey k)
        with run eq ih have "R m p (k (fst (getKey m f))) (snd (getKey m f)) (b1, f1)" by simp
        with ReadKey read show ?thesis by (simp add: R_def bridge_frame.simps[of m p b f])
      next
        case (Act a b')
        with run eq ih have "R m p b' (f\<lparr>kf_target := key_act m a (kf_target f)\<rparr>) (b1, f1)" by simp
        with Act act show ?thesis by (simp add: R_def bridge_frame.simps[of m p b f])
      next
        case (EndFrame b')
        with run eq fin bridge_frame.simps[of m p b f] show ?thesis by simp
      qed
    qed
  qed
  then show ?thesis by (simp add: R_def)
qed

lemma getKey_inv:
  assumes "P (kf_target g)"
    and arrow: "\<And>k t. P t \<Longrightarrow> P (applyArrow m k t)"
    and stage: "\<And>t s k. P t \<Longrightarrow> P (t\<lparr>kt_stage := s\<rparr>) \<and> P (t\<lparr>kt_replayKey := k\<rparr>)"
  shows "P (kf_target (snd (getKey m g)))"
proof -
  have consume: "P (snd (consumeEscapeSequence m k t))" if "P t" for k t
    using that arrow[of t k] stage[of t] stage[of "t\<lparr>kt_stage := NoEscape\<rparr>"] stage[of "applyArrow m k t"]
    by (auto simp: consumeEscapeSequence_def split: EscapeStage.split)
  have search: "P (kf_target (snd (search_key m ks t)))" if "P t" for ks t
    using that
  proof (induction ks arbitrary: t)
    case (Cons k ks)
    from Cons.IH[OF consume[OF Cons.prems, of k]] stage[OF consume[OF Cons.prems, of k]] Cons.prems
    show ?case by (auto simp: takeReplayKey_def split: prod.split)
  qed simp
  then show ?thesis using assms(1) by (auto simp: getKey_def)
qed

lemma bridge_frame_inv:
  assumes "bridge_frame m p b f = Some (b1, f1)" and "P (kf_target f)"
    and act: "\<And>a t. P t \<Longrightarrow> P (key_act m a t)"
    and arrow: "\<And>k t. P t \<Longrightarrow> P (applyArrow m k t)"
    and stage: "\<And>t s k. P t \<Longrightarrow> P (t\<lparr>kt_stage := s\<rparr>) \<and> P (t\<lparr>kt_replayKey := k\<rparr>)"
  shows "P (kf_target f1)"
  using assms(1,2)
proof (induction rule: bridge_frame_induct)
  case (Read b f k)
  then show ?case using getKey_inv[of P f m, OF _ arrow stage] by blast
qed (auto intro: act)

text \<open>
  What the arithmetic has to satisfy, as IEEE arithmetic does, also for values that are not numbers:
  no limit is below itself or outside the other, and scaling and stepping keep a value on its side.
\<close>

definition bench_math :: "'d demo_math \<Rightarrow> bool" where
  "bench_math m \<longleftrightarrow>
     (let d = dm_fp m; zero = dm_lit m 0 0; one = dm_lit m 1 0; full = dm_lit m 100 0;
          lo = dm_lit m (-90) 0; hi = dm_lit m 90 0; step = dm_lit m 5 0
      in \<not> fp_less d zero zero \<and> \<not> fp_less d one one \<and> \<not> fp_less d one zero \<and> \<not> fp_less d full full \<and>
         \<not> fp_less d full zero \<and> \<not> fp_less d lo lo \<and> \<not> fp_less d hi hi \<and> \<not> fp_less d hi lo \<and>
         \<not> fp_less d zero lo \<and> \<not> fp_less d hi zero \<and>
         (\<forall>x. \<not> fp_less d x zero \<and> \<not> fp_less d one x \<longrightarrow>
            \<not> fp_less d (fp_mul d x full) zero \<and> \<not> fp_less d full (fp_mul d x full)) \<and>
         (\<forall>x. \<not> fp_less d x lo \<longrightarrow> \<not> fp_less d (fp_add d x step) lo) \<and>
         (\<forall>x. \<not> fp_less d hi x \<longrightarrow> \<not> fp_less d hi (fp_sub d x step)))"

definition controls_ok :: "'d demo_math \<Rightarrow> 'd key_target \<Rightarrow> bool" where
  "controls_ok m t \<longleftrightarrow> 1 \<le> kt_gear t \<and> kt_gear t \<le> 9 \<and>
     \<not> fp_less (dm_fp m) (kt_throttle t) (dm_lit m 0 0) \<and> \<not> fp_less (dm_fp m) (dm_lit m 100 0) (kt_throttle t) \<and>
     \<not> fp_less (dm_fp m) (kt_brake t) (dm_lit m 0 0) \<and> \<not> fp_less (dm_fp m) (dm_lit m 100 0) (kt_brake t) \<and>
     \<not> fp_less (dm_fp m) (kt_steering t) (dm_lit m (-90) 0) \<and>
     \<not> fp_less (dm_fp m) (dm_lit m 90 0) (kt_steering t)"

lemma percent_range:
  assumes "bench_math m"
  shows "\<not> fp_less (dm_fp m) (percent_of m x) (dm_lit m 0 0)" "\<not> fp_less (dm_fp m) (dm_lit m 100 0) (percent_of m x)"
  using assms by (auto simp: percent_of_def clamp_def PERCENT_def bench_math_def Let_def)

lemma act_keeps_controls: "bench_math m \<Longrightarrow> controls_ok m t \<Longrightarrow> controls_ok m (key_act m a t)"
  using percent_range[of m]
  by (cases a) (auto simp: key_act_def controls_ok_def setThrottleMomentary_def setThrottle_def adjustThrottle_def
      shiftUp_def shiftDown_def setBrake_def key_quit_def clamp_def PERCENT_def GEAR_MAX_def GEAR_MIN_def Let_def
      bench_math_def)

lemma arrow_keeps_controls: "bench_math m \<Longrightarrow> controls_ok m t \<Longrightarrow> controls_ok m (applyArrow m k t)"
  by (auto simp: applyArrow_def controls_ok_def shiftUp_def shiftDown_def GEAR_MAX_def GEAR_MIN_def Let_def
      STEER_STEP_DEG_def STEER_LIMIT_DEG_def fp_min_def fp_max_def bench_math_def)

text \<open>The sources a session can be in.\<close>

inductive bench_reaches ::
    "'d demo_math \<Rightarrow> ('b, 'd) key_bridge \<Rightarrow> ('b, 'd) interactive_source \<Rightarrow> ('b, 'd) interactive_source \<Rightarrow> bool"
  for m p s0 where
  Begin: "bench_reaches m p s0 s0"
| Row: "\<lbrakk>bench_reaches m p s0 s; interactive_hasNext s; interactive_next m p keys s = Some (row, sleeps, s1)\<rbrakk>
    \<Longrightarrow> bench_reaches m p s0 s1"

lemma reaches_controls:
  assumes "bench_math m" "bench_reaches m p (interactive_new m b v i) s"
  shows "controls_ok m (kf_target (is_filter s))"
  using assms(2)
proof induction
  case Begin
  show ?case using assms(1) 
    by (auto simp: controls_ok_def interactive_new_def key_target_new_def bench_math_def Let_def)
next
  case (Row s keys row sleeps s1)
  from Row.hyps(3) obtain b0 f1 b1 where "bridge_frame m p b0 (is_filter s\<lparr>kf_keys := kf_keys (is_filter s) @ keys\<rparr>)
      = Some (b1, f1)" "is_filter s1 = f1"
    by (auto simp: interactive_next_def Let_def split: option.splits)
  from bridge_frame_inv[OF this(1), of "controls_ok m"] this(2) Row.IH
  show ?case using act_keeps_controls[OF assms(1)] arrow_keeps_controls[OF assms(1)]
    by (simp add: controls_ok_def)
qed

text \<open>
  C25. Whatever the bridge does and whatever keys come, every row shows a gear from
  1 to 9 in one digit, and no throttle or steering angle outside its limits.
\<close>

theorem the_controls_stay_in_range:
  assumes "bench_math m" and "bench_reaches m p (interactive_new m b v i) s"
    and "interactive_next m p keys s = Some (row, sleeps, s1)" and "interactive_hasNext s"
  shows "tr_gear_selector row \<in> {''1'', ''2'', ''3'', ''4'', ''5'', ''6'', ''7'', ''8'', ''9''} \<and>
    \<not> fp_less (dm_fp m) (tr_throttle_percent row) (dm_lit m 0 0) \<and>
    \<not> fp_less (dm_fp m) (dm_lit m 100 0) (tr_throttle_percent row) \<and>
    \<not> fp_less (dm_fp m) (tr_steering_angle_deg row) (dm_lit m (-90) 0) \<and>
    \<not> fp_less (dm_fp m) (dm_lit m 90 0) (tr_steering_angle_deg row)"
proof -
  have ok: "controls_ok m (kf_target (is_filter s1))"
    by (rule reaches_controls[OF assms(1) bench_reaches.Row[OF assms(2,4,3)]])
  from assms(3) obtain ts where row: "row = bench_row m (is_vehicleId s) ts (kf_target (is_filter s1))"
    by (auto simp: interactive_next_def Let_def split: option.splits)
  have "fromRegistry (int_str g) \<in> {''1'', ''2'', ''3'', ''4'', ''5'', ''6'', ''7'', ''8'', ''9''}"
    if "g \<in> {1..9}" for g
  proof -
    have "g \<in> {1, 2, 3, 4, 5, 6, 7, 8, 9}" using that by auto
    then show ?thesis
      by (auto simp: fromRegistry_def int_str_def dec_str_def forLog_def digits_in.simps[of 10] digit_char_def is_control_def)
  qed
  then show ?thesis using ok by (simp add: row bench_row_def Let_def controls_ok_def)
qed

text \<open>The bridge as its callers describe it: escape quits, a digit sets the throttle, the rest is ignored.\<close>

definition ex_bridge :: "(int list, int) key_bridge" where
  "ex_bridge =
     \<lparr>kb_begin = (\<lambda>_ _. [0]),
      kb_move = (\<lambda>b. if b = [0] then ReadKey (\<lambda>k. if k < 0 then [2] else [1, k])
        else if length b = 2
        then Act (if b ! 1 = 27 then QuitAction else if b ! 1 = 49 then Throttle 1 else IgnoredAction) [0]
        else EndFrame [])\<rparr>"

lemma ex_frame:
  "interactive_next int_math ex_bridge [49, 27, 91, 67] (interactive_new int_math [] ''tesla'' 20) =
     Some (bench_row int_math ''tesla'' 20 ((key_target_new int_math)\<lparr>kt_throttle := 100, kt_steering := 5\<rparr>), [],
       (interactive_new int_math [] ''tesla'' 20)\<lparr>is_bridge := [],
         is_filter := \<lparr>kf_pendingKey = -1, kf_keys = [],
            kf_target = (key_target_new int_math)\<lparr>kt_throttle := 100, kt_steering := 5\<rparr>\<rparr>,
         is_timestampMs := 20, is_started := True\<rparr>)"
  by (simp add: interactive_next_def interactive_new_def bridge_frame.simps ex_bridge_def getKey_def
      consumeEscapeSequence_def takeReplayKey_def key_target_new_def key_act_def setThrottle_def percent_of_def
      clamp_def PERCENT_def KEY_ESCAPE_def KEY_BRACKET_def applyArrow_def fp_min_def STEER_STEP_DEG_def
      STEER_LIMIT_DEG_def int_math_def Let_def)

lemma bench_int_math: "bench_math int_math"
  by (auto simp: bench_math_def int_math_def Let_def)

theorem the_controls_stay_in_range_witness:
  "\<exists>row sleeps s1. interactive_next int_math ex_bridge [49, 27, 91, 67] (interactive_new int_math [] ''tesla'' 20)
      = Some (row, sleeps, s1) \<and> tr_throttle_percent row = 100 \<and> \<not> 100 < tr_throttle_percent row
      \<and> tr_steering_angle_deg row = 5"
proof -
  have "interactive_hasNext (interactive_new int_math ([] :: int list) ''tesla'' 20)"
    by (simp add: interactive_hasNext_def interactive_new_def)
  from the_controls_stay_in_range[OF bench_int_math bench_reaches.Begin ex_frame this] show ?thesis
    unfolding ex_frame by (simp add: bench_row_def Let_def int_math_def)
qed

section \<open>A lone escape\<close>

text \<open>Nothing to read now but perhaps the escape.\<close>

definition quiet :: "'d key_filter \<Rightarrow> bool" where
  "quiet f \<longleftrightarrow> kf_pendingKey f = -1 \<and>
     (kt_stage (kf_target f) = NoEscape \<and> kf_keys f \<in> {[], [27]} \<or>
      kt_stage (kf_target f) = SeenEscape \<and> kf_keys f = [])"

definition same_controls :: "'d key_filter \<Rightarrow> 'd key_filter \<Rightarrow> bool" where
  "same_controls f g \<longleftrightarrow> quiet f \<and> quiet g \<and>
     (kf_target f)\<lparr>kt_stage := NoEscape\<rparr> = (kf_target g)\<lparr>kt_stage := NoEscape\<rparr>"

lemma quiet_getKey:
  assumes "quiet f"
  shows "fst (getKey m f) = -1" "quiet (snd (getKey m f))"
    "(kf_target (snd (getKey m f)))\<lparr>kt_stage := NoEscape\<rparr> = (kf_target f)\<lparr>kt_stage := NoEscape\<rparr>"
  using assms by (auto simp: quiet_def getKey_def consumeEscapeSequence_def KEY_ESCAPE_def)

lemma act_stage:
  "(key_act m a t)\<lparr>kt_stage := s\<rparr> = key_act m a (t\<lparr>kt_stage := s\<rparr>)" "kt_stage (key_act m a t) = kt_stage t"
  by (cases a; simp add: key_act_def setThrottleMomentary_def setThrottle_def adjustThrottle_def shiftUp_def
      shiftDown_def setBrake_def key_quit_def Let_def)+

lemma quiet_frame:
  assumes "bridge_frame m p b f = Some (b1, f1)" "same_controls f g"
  shows "\<exists>g1. bridge_frame m p b g = Some (b1, g1) \<and> same_controls f1 g1"
  using assms
proof (induction arbitrary: g rule: bridge_frame_induct)
  case (Read b f k)
  have "same_controls (snd (getKey m f)) (snd (getKey m g))"
    using Read.prems quiet_getKey[of f m] quiet_getKey[of g m] by (simp add: same_controls_def)
  from Read.IH[OF this] Read.hyps(1) Read.prems show ?case
    using quiet_getKey(1)[of f m] quiet_getKey(1)[of g m]
    by (simp add: bridge_frame.simps[of m p b g] same_controls_def)
next
  case (Act b f a b')
  have "same_controls (f\<lparr>kf_target := key_act m a (kf_target f)\<rparr>) (g\<lparr>kf_target := key_act m a (kf_target g)\<rparr>)"
    using Act.prems by (simp add: same_controls_def quiet_def act_stage)
  from Act.IH[OF this] Act.hyps(1) show ?case by (simp add: bridge_frame.simps[of m p b g])
next
  case (End b)
  then show ?case by (simp add: bridge_frame.simps[of m p b g])
qed

definition same_source :: "('b, 'd) interactive_source \<Rightarrow> ('b, 'd) interactive_source \<Rightarrow> bool" where
  "same_source s s' \<longleftrightarrow> same_controls (is_filter s) (is_filter s') \<and> s'\<lparr>is_filter := is_filter s\<rparr> = s"

lemma row_ignores_stage: "bench_row m v ts (t\<lparr>kt_stage := s\<rparr>) = bench_row m v ts t"
  by (simp add: bench_row_def Let_def)

lemma same_controls_fields:
  assumes "same_controls f g"
  shows "bench_row m v ts (kf_target f) = bench_row m v ts (kf_target g)"
    "kt_quit (kf_target f) = kt_quit (kf_target g)"
proof -
  from assms have e: "(kf_target f)\<lparr>kt_stage := NoEscape\<rparr> = (kf_target g)\<lparr>kt_stage := NoEscape\<rparr>"
    by (simp add: same_controls_def)
  show "bench_row m v ts (kf_target f) = bench_row m v ts (kf_target g)"
    using arg_cong[OF e, of "bench_row m v ts"] by (simp add: row_ignores_stage)
  show "kt_quit (kf_target f) = kt_quit (kf_target g)"
    using arg_cong[OF e, of kt_quit] by simp
qed

lemma quiet_next:
  assumes "same_controls ((is_filter s)\<lparr>kf_keys := kf_keys (is_filter s) @ ks\<rparr>)
      ((is_filter s')\<lparr>kf_keys := kf_keys (is_filter s') @ ks'\<rparr>)"
    and "s'\<lparr>is_filter := is_filter s\<rparr> = s" and "interactive_next m p ks s = Some (row, sleeps, s1)"
  shows "\<exists>s1'. interactive_next m p ks' s' = Some (row, sleeps, s1') \<and> same_source s1 s1'"
proof -
  obtain v i b f0 ts q st f0' where s: "s = \<lparr>is_bridge = b, is_filter = f0, is_vehicleId = v, is_intervalMs = i,
      is_timestampMs = ts, is_quit = q, is_started = st\<rparr>" "s' = \<lparr>is_bridge = b, is_filter = f0', is_vehicleId = v,
      is_intervalMs = i, is_timestampMs = ts, is_quit = q, is_started = st\<rparr>"
    using assms(2) by (cases s; cases s') auto
  from assms(3) obtain b1 f1 where f1: "bridge_frame m p (kb_begin p (fp_div (dm_fp m) (fp_of_int (dm_fp m) i)
      (dm_lit m 1000 0)) b) (f0\<lparr>kf_keys := kf_keys f0 @ ks\<rparr>) = Some (b1, f1)"
    "row = bench_row m v (ts + of_int i) (kf_target f1)" "sleeps = (if st then [i] else [])"
    "s1 = \<lparr>is_bridge = b1, is_filter = f1, is_vehicleId = v, is_intervalMs = i,
      is_timestampMs = ts + of_int i, is_quit = kt_quit (kf_target f1), is_started = True\<rparr>"
    by (auto simp: interactive_next_def s Let_def split: option.splits)
  from quiet_frame[OF f1(1)] assms(1) obtain g1 where
    "bridge_frame m p (kb_begin p (fp_div (dm_fp m) (fp_of_int (dm_fp m) i) (dm_lit m 1000 0)) b)
      (f0'\<lparr>kf_keys := kf_keys f0' @ ks'\<rparr>) = Some (b1, g1)" "same_controls f1 g1"
    by (auto simp: s)
  then show ?thesis using f1(2-4) same_controls_fields[of f1 g1]
    by (simp add: interactive_next_def s Let_def same_source_def)
qed

lemma same_results: "(\<And>r. a = Some r \<longleftrightarrow> b = Some r) \<Longrightarrow> a = b"
  by (cases a; cases b) auto

lemma same_loop:
  assumes "same_source s s'"
  shows "interactive_loop m p n (replicate k []) s = Some r \<Longrightarrow> interactive_loop m p n (replicate k []) s' = Some r"
  using assms
proof (induction k arbitrary: s s' r)
  case 0
  then have "is_quit s = is_quit s'" by (cases s; cases s') (simp add: same_source_def)
  with 0 show ?case by (simp add: interactive_hasNext_def)
next
  case (Suc k)
  have q: "is_quit s = is_quit s'" using Suc.prems by (cases s; cases s') (simp add: same_source_def)
  show ?case
  proof (cases "is_quit s")
    case True
    with Suc.prems q show ?thesis by (simp add: interactive_hasNext_def)
  next
    case False
    then obtain row sleeps s1 out sls ended where r: "interactive_next m p [] s = Some (row, sleeps, s1)"
      "interactive_loop m p n (replicate k []) s1 = Some (out, sls, ended)"
      "r = (csvRowLine n (row_params row) @ [LF] @ out, sleeps @ sls, ended)"
      using Suc.prems(1) by (auto simp: interactive_hasNext_def split: option.splits)
    have "same_controls ((is_filter s)\<lparr>kf_keys := kf_keys (is_filter s) @ []\<rparr>)
        ((is_filter s')\<lparr>kf_keys := kf_keys (is_filter s') @ []\<rparr>)" "s'\<lparr>is_filter := is_filter s\<rparr> = s"
      using Suc.prems(2) by (simp_all add: same_source_def)
    from quiet_next[OF this r(1)] obtain s1' where
      "interactive_next m p [] s' = Some (row, sleeps, s1')" "same_source s1 s1'" by blast
    with Suc.IH[OF r(2)] r(3) False q show ?thesis by (simp add: interactive_hasNext_def)
  qed
qed

lemma same_source_sym: "same_source s s' \<Longrightarrow> same_source s' s"
  by (cases s; cases s') (auto simp: same_source_def same_controls_def)

lemma escape_loop:
  assumes "quiet (is_filter s)" "kf_keys (is_filter s) = []" "kt_stage (kf_target (is_filter s)) = NoEscape"
    and "{ks, ks'} \<subseteq> {[], [27]}"
    and "interactive_loop m p n (ks # replicate k []) s = Some r"
  shows "interactive_loop m p n (ks' # replicate k []) s = Some r"
proof (cases "is_quit s")
  case True
  with assms(5) show ?thesis by (simp add: interactive_hasNext_def)
next
  case False
  then obtain row sleeps s1 out sls ended where r: "interactive_next m p ks s = Some (row, sleeps, s1)"
    "interactive_loop m p n (replicate k []) s1 = Some (out, sls, ended)"
    "r = (csvRowLine n (row_params row) @ [LF] @ out, sleeps @ sls, ended)"
    using assms(5) by (auto simp: interactive_hasNext_def split: option.splits)
  have "same_controls ((is_filter s)\<lparr>kf_keys := kf_keys (is_filter s) @ ks\<rparr>)
      ((is_filter s)\<lparr>kf_keys := kf_keys (is_filter s) @ ks'\<rparr>)"
    using assms(1-4) by (auto simp: same_controls_def quiet_def)
  from quiet_next[OF this _ r(1)] obtain s1' where
    "interactive_next m p ks' s = Some (row, sleeps, s1')" "same_source s1 s1'" by auto
  with same_loop[OF _ r(2)] r(3) False show ?thesis by (simp add: interactive_hasNext_def)
qed

text \<open>
  C36. Pressed alone, the escape key, which is the key to quit, does nothing: with
  any bridge the session prints what it prints without the key and goes on as long, until another
  key comes.
\<close>

theorem a_lone_escape_goes_unnoticed:
  "interactive_run m p n b v i kb ([27] # replicate k []) = interactive_run m p n b v i kb ([] # replicate k [])"
proof -
  let ?s = "interactive_new m b v i" and ?l = "\<lambda>ks. interactive_loop m p n (ks # replicate k []) (interactive_new m b v i)"
  have s: "quiet (is_filter ?s)" "kf_keys (is_filter ?s) = []" "kt_stage (kf_target (is_filter ?s)) = NoEscape"
    by (simp_all add: interactive_new_def quiet_def key_target_new_def)
  have "?l ks' = Some r" if "{ks, ks'} \<subseteq> {[], [27]}" "?l ks = Some r" for ks ks' r
    using escape_loop[OF s that] .
  then have "?l [27] = Some r \<longleftrightarrow> ?l [] = Some r" for r by (intro iffI) blast+
  then have "?l [27] = ?l []" by (rule same_results)
  then show ?thesis unfolding interactive_run_def by simp
qed

section \<open>When rows are printed\<close>

text \<open>
  The rows of a session are printed one per frame under the header; the
  n-th carries n times the interval and every row but the first waits one interval.
\<close>

lemma next_row:
  assumes "interactive_next m p keys s = Some (row, sleeps, s1)"
  shows "tr_timestamp_ms row = is_timestampMs s + of_int (is_intervalMs s)"
    "sleeps = (if is_started s then [is_intervalMs s] else [])" "is_started s1" "is_intervalMs s1 = is_intervalMs s"
    "is_timestampMs s1 = is_timestampMs s + of_int (is_intervalMs s)"
  using assms by (auto simp: interactive_next_def Let_def bench_row_def split: option.splits)

lemma loop_rows:
  assumes "interactive_loop m p n frames s = Some (out, sls, ended)"
  shows "\<exists>rows. out = concat (map (\<lambda>r. csvRowLine n (row_params r) @ [LF]) rows) \<and> length rows \<le> length frames \<and>
     (\<not> ended \<longrightarrow> length rows = length frames) \<and>
     map tr_timestamp_ms rows = map (\<lambda>k. is_timestampMs s + of_nat (Suc k) * of_int (is_intervalMs s)) [0 ..< length rows] \<and>
     sls = replicate (if is_started s then length rows else length rows - 1) (is_intervalMs s)"
  using assms
proof (induction frames arbitrary: s out sls)
  case (Cons keys frames)
  show ?case
  proof (cases "interactive_hasNext s")
    case True
    with Cons.prems obtain row sleeps s1 out1 sls1 where r: "interactive_next m p keys s = Some (row, sleeps, s1)"
      "interactive_loop m p n frames s1 = Some (out1, sls1, ended)"
      "out = csvRowLine n (row_params row) @ [LF] @ out1" "sls = sleeps @ sls1"
      by (auto split: option.splits)
    note x = next_row[OF r(1)]
    from Cons.IH[OF r(2)] obtain rows where rows: "out1 = concat (map (\<lambda>r. csvRowLine n (row_params r) @ [LF]) rows)"
      "length rows \<le> length frames" "\<not> ended \<longrightarrow> length rows = length frames"
      "map tr_timestamp_ms rows = map (\<lambda>k. is_timestampMs s1 + of_nat (Suc k) * of_int (is_intervalMs s1)) [0 ..< length rows]"
      "sls1 = replicate (length rows) (is_intervalMs s)"
      using x(3,4) by auto
    have "map tr_timestamp_ms (row # rows) =
        map (\<lambda>k. is_timestampMs s + of_nat (Suc k) * of_int (is_intervalMs s)) [0 ..< length (row # rows)]"
    proof -
      have "is_timestampMs s1 + of_nat (Suc k) * of_int (is_intervalMs s1) =
          is_timestampMs s + of_nat (Suc (Suc k)) * of_int (is_intervalMs s)" for k
        unfolding x(4,5) by (simp add: algebra_simps)
      then show ?thesis using rows(4) x(1) by (simp add: map_upt_Suc del: upt_Suc)
    qed
    with rows r(3,4) x(2) show ?thesis by (intro exI[of _ "row # rows"]) auto
  next
    case False
    with Cons.prems show ?thesis by auto
  qed
qed auto

theorem rows_come_at_the_interval:
  assumes "interactive_run m p n b v i True frames = Some (rc, out, sls, ended)" and "0 < i"
  shows "rc = 0 \<and> (\<exists>rows. out = csvHeaderLine @ [LF] @ concat (map (\<lambda>r. csvRowLine n (row_params r) @ [LF]) rows) \<and>
     (\<not> ended \<longrightarrow> length rows = length frames) \<and>
     map tr_timestamp_ms rows = map (\<lambda>k. of_nat (Suc k) * of_int i) [0 ..< length rows] \<and>
     sls = replicate (length rows - 1) i)"
proof -
  from assms(1) obtain out1 where l: "interactive_loop m p n frames (interactive_new m b v i) = Some (out1, sls, ended)"
    "rc = 0" "out = csvHeaderLine @ [LF] @ out1" by (auto simp: interactive_run_def)
  from loop_rows[OF l(1)] assms(2) l(2,3) show ?thesis by (auto simp: interactive_new_def)
qed

definition ex_cents :: "int csv_numbers" where
  "ex_cents = \<lparr>cn_stod = (\<lambda>_. None), cn_hundredths = (\<lambda>x. x * 100), cn_zero = 0, cn_u64 = of_int\<rparr>"

theorem rows_come_at_the_interval_witness:
  "\<exists>out rows. interactive_run int_math ex_bridge ex_cents [] ''tesla'' 20 True [[49, 27, 91, 67]] = Some (0, out, [], False) \<and>
     out = csvHeaderLine @ [LF] @ concat (map (\<lambda>r. csvRowLine ex_cents (row_params r) @ [LF]) rows) \<and>
     map tr_timestamp_ms rows = [20]"
proof -
  have "interactive_hasNext (interactive_new int_math ([] :: int list) ''tesla'' 20)"
    by (simp add: interactive_hasNext_def interactive_new_def)
  then obtain out where run: "interactive_run int_math ex_bridge ex_cents [] ''tesla'' 20 True [[49, 27, 91, 67]]
      = Some (0, out, [], False)"
    by (simp add: interactive_run_def ex_frame interactive_hasNext_def) (auto simp: interactive_new_def)
  have "\<exists>rows. out = csvHeaderLine @ [LF] @ concat (map (\<lambda>r. csvRowLine ex_cents (row_params r) @ [LF]) rows) \<and>
     length rows = length [[49, 27, 91, 67 :: int]] \<and>
     map tr_timestamp_ms rows = map (\<lambda>k. of_nat (Suc k) * of_int 20) [0 ..< length rows] \<and>
     ([] :: int list) = replicate (length rows - 1) 20"
    using rows_come_at_the_interval[OF run] by (simp only: zero_less_numeral simp_thms not_False_eq_True)
  then obtain rows where rows:
    "out = csvHeaderLine @ [LF] @ concat (map (\<lambda>r. csvRowLine ex_cents (row_params r) @ [LF]) rows)"
    "length rows = length [[49, 27, 91, 67 :: int]]"
    "map tr_timestamp_ms rows = map (\<lambda>k. of_nat (Suc k) * of_int 20) [0 ..< length rows]"
    by (elim exE conjE) (rule that)
  have "map tr_timestamp_ms rows = [20]" unfolding rows(3) rows(2) by simp
  with run rows(1) show ?thesis by (intro exI[of _ out] exI[of _ rows] conjI)
qed

section \<open>The terminal\<close>

text \<open>
  The terminal is afterwards what it was only if its descriptor did not block
  before, or the settings could not be changed at all, or they were already those of the keyboard.
\<close>

theorem the_terminal_is_not_restored:
  "(let (t1, saved, ok) = setupTerminal c t in restoreTerminal ok saved t1) = t \<longleftrightarrow>
     \<not> tc_getattr c \<or> \<not> tc_setattr c \<or>
     (tc_getfl c \<and> tc_setfl c \<and> tty_nonblock t) \<or>
     (\<not> (tc_getfl c \<and> tc_setfl c) \<and> \<not> tty_canonical t \<and> \<not> tty_echo t \<and> tty_min t = 0 \<and> tty_time t = 0)"
  by (cases t) (auto simp: setupTerminal_def restoreTerminal_def Let_def)

end
