(* ===== verification/Host_Plumbing.thy ===== *)
theory Host_Plumbing
  imports Host_Service Host_Frames
begin

text \<open>
  Parts that hold the host together, under \<open>src/src\<close>: where resources are looked for
  (\<open>util/ExecutablePath.cpp\<close>), the event dispatcher (\<open>domain/EventDispatcher.cpp\<close>), the stop token
  and its broker (\<open>pipeline/StopToken.h\<close>, \<open>pipeline/SignalStopBroker.cpp\<close>), tagged console output
  (\<open>pipeline/ITransportOutput.cpp\<close>), the signal sources over a transport and over Bluetooth
  (\<open>pipeline/TcpSignalSource.cpp\<close>, \<open>domain/BLESignalSource.cpp\<close>) and the clamped signal of the
  dashboard (\<open>domain/TelemetrySignal.cpp\<close>).

  The file system is a predicate; the directory of the program and the working directory are
  arguments. Callbacks are values: dispatching returns the ones that are called.
\<close>

section \<open>Paths of resources\<close>

definition is_sep :: "char \<Rightarrow> bool" where
  "is_sep c \<longleftrightarrow> c = CHR ''/'' \<or> c = CHR 0x5C"

definition isAbsolutePath :: "string \<Rightarrow> bool" where
  "isAbsolutePath path \<longleftrightarrow> path \<noteq> [] \<and>
     (is_sep (hd path) \<or> (2 < length path \<and> path ! 1 = CHR '':'' \<and> is_sep (path ! 2)))"

text \<open>The position of the last separator, if any.\<close>

fun last_sep :: "string \<Rightarrow> nat option" where
  "last_sep [] = None"
| "last_sep (c # cs) =
     (case last_sep cs of
        Some p \<Rightarrow> Some (Suc p)
      | None \<Rightarrow> if is_sep c then Some 0 else None)"

definition parentDir :: "string \<Rightarrow> string" where
  "parentDir path =
     (case last_sep path of
        None \<Rightarrow> []
      | Some p \<Rightarrow> if p = 0 then [path ! 0] else take p path)"

definition joinPath :: "string \<Rightarrow> string \<Rightarrow> string" where
  "joinPath dir rel =
     (if dir = [] then rel
      else if \<not> is_sep (last dir) then dir @ CHR ''/'' # rel
      else dir @ rel)"

definition pushUnique :: "string \<Rightarrow> string list \<Rightarrow> string list" where
  "pushUnique c cs = (if c \<in> set cs then cs else cs @ [c])"

lemma last_sep_less: "last_sep path = Some p \<Longrightarrow> p < length path"
  by (induction path arbitrary: p) (auto split: option.splits if_splits)

lemma parent_shorter: "path \<noteq> [] \<Longrightarrow> parentDir path \<noteq> path \<Longrightarrow> length (parentDir path) < length path"
  by (cases path) (auto simp: parentDir_def dest: last_sep_less split: option.splits if_splits)

text \<open>The walk from a directory to the root.\<close>

function walk_up :: "string \<Rightarrow> string \<Rightarrow> string list \<Rightarrow> string list" where
  "walk_up rel dir cs =
     (if dir = [] then cs
      else
        let cs1 = pushUnique (joinPath dir rel) cs; parent = parentDir dir
        in if parent = dir then cs1 else walk_up rel parent cs1)"
  by pat_completeness auto
termination
  by (relation "measure (\<lambda>(rel, dir, cs). length dir)") (auto simp: parent_shorter)

declare walk_up.simps [simp del]

text \<open>\<open>cwd\<close>: \<open>None\<close> when it cannot be determined.\<close>

definition resourceCandidates :: "string \<Rightarrow> string option \<Rightarrow> string \<Rightarrow> string list" where
  "resourceCandidates exeDir cwd rel =
     (if isAbsolutePath rel then [rel]
      else
        let cs = (if exeDir \<noteq> [] then walk_up rel exeDir [] else [])
        in case cwd of None \<Rightarrow> cs | Some w \<Rightarrow> pushUnique (joinPath w rel) cs)"

definition resolveResource :: "string \<Rightarrow> string option \<Rightarrow> (string \<Rightarrow> bool) \<Rightarrow> string \<Rightarrow> string" where
  "resolveResource exeDir cwd ex rel =
     (let cs = resourceCandidates exeDir cwd rel
      in case filter ex cs of
           c # _ \<Rightarrow> c
         | [] \<Rightarrow> (if cs = [] then rel else hd cs))"

text \<open>The directory of the program on Linux: the target of \<open>/proc/self/exe\<close>, if it can be read.\<close>

definition exe_directory :: "string option \<Rightarrow> string" where
  "exe_directory link = (case link of None \<Rightarrow> [] | Some l \<Rightarrow> if l = [] then [] else parentDir (takeWhile (\<lambda>c. c \<noteq> CHR 0x00) l))"

section \<open>The event dispatcher\<close>

record 'c consumer =
  co_callback :: "'c option"
  co_token :: u32
  co_active :: bool

record 'c dispatcher =
  ed_consumers :: "'c consumer list"
  ed_nextToken :: u32

definition dispatcher_new :: "'c dispatcher" where
  "dispatcher_new = \<lparr>ed_consumers = [], ed_nextToken = 1\<rparr>"

definition registerConsumer :: "'c option \<Rightarrow> 'c dispatcher \<Rightarrow> u32 \<times> 'c dispatcher" where
  "registerConsumer callback e =
     (ed_nextToken e,
      e\<lparr>ed_nextToken := ed_nextToken e + 1,
        ed_consumers := ed_consumers e @ [\<lparr>co_callback = callback, co_token = ed_nextToken e, co_active = True\<rparr>]\<rparr>)"

fun deactivate :: "u32 \<Rightarrow> 'c consumer list \<Rightarrow> 'c consumer list" where
  "deactivate tok [] = []"
| "deactivate tok (c # cs) =
     (if co_token c = tok \<and> co_active c then c\<lparr>co_active := False\<rparr> # cs else c # deactivate tok cs)"

definition unregisterConsumer :: "u32 \<Rightarrow> 'c dispatcher \<Rightarrow> 'c dispatcher" where
  "unregisterConsumer tok e = e\<lparr>ed_consumers := deactivate tok (ed_consumers e)\<rparr>"

text \<open>The callbacks that are called, in order; an empty one is skipped.\<close>

definition dispatch :: "'c dispatcher \<Rightarrow> 'c list" where
  "dispatch e = List.map_filter co_callback (filter co_active (ed_consumers e))"

definition dispatcher_clear :: "'c dispatcher \<Rightarrow> 'c dispatcher" where
  "dispatcher_clear e = e\<lparr>ed_consumers := []\<rparr>"

section \<open>Stopping\<close>

text \<open>The flags of all tokens, and the one the broker has published.\<close>

record stop_world =
  sw_flags :: "nat \<Rightarrow> bool"
  sw_active :: "nat option"

definition requestStop :: "nat \<Rightarrow> stop_world \<Rightarrow> stop_world" where
  "requestStop t w = w\<lparr>sw_flags := (sw_flags w)(t := True)\<rparr>"

definition stop_reset :: "nat \<Rightarrow> stop_world \<Rightarrow> stop_world" where
  "stop_reset t w = w\<lparr>sw_flags := (sw_flags w)(t := False)\<rparr>"

definition brokerSet :: "nat \<Rightarrow> stop_world \<Rightarrow> stop_world" where
  "brokerSet t w = w\<lparr>sw_active := Some t\<rparr>"

definition brokerClear :: "stop_world \<Rightarrow> stop_world" where
  "brokerClear w = w\<lparr>sw_active := None\<rparr>"

definition onStopSignal :: "stop_world \<Rightarrow> stop_world" where
  "onStopSignal w = (case sw_active w of None \<Rightarrow> w | Some t \<Rightarrow> requestStop t w)"

text \<open>\<open>LiveStopScope\<close>: its constructor and its destructor.\<close>

definition stop_scope_enter :: "nat \<Rightarrow> stop_world \<Rightarrow> stop_world" where
  "stop_scope_enter t w = brokerSet t (stop_reset t w)"

definition stop_scope_exit :: "stop_world \<Rightarrow> stop_world" where
  "stop_scope_exit w = brokerClear w"

section \<open>Tagged output\<close>

definition ARROW :: string where "ARROW = [CHR 0xE2, CHR 0x86, CHR 0x92]"
definition ESC_BLUE :: string where "ESC_BLUE = CHR 0x1B # ''[0;34m''"
definition ESC_RESET :: string where "ESC_RESET = CHR 0x1B # ''[0m''"

text \<open>The line the wrapped output gets, with the identifier of the device.\<close>

definition tagged_out :: "string \<Rightarrow> string \<Rightarrow> string" where
  "tagged_out deviceId msg = msg"

definition outClient :: "string \<Rightarrow> string \<Rightarrow> string" where
  "outClient deviceId msg =
     (if deviceId \<noteq> [] then ''[CLIENT '' @ ARROW @ '' '' @ take 8 deviceId @ ''] '' @ msg else msg)"

definition outDevice :: "string \<Rightarrow> string \<Rightarrow> string" where
  "outDevice deviceId msg =
     (if deviceId \<noteq> [] then ESC_BLUE @ ''[ESP32 '' @ take 8 deviceId @ ''] '' @ ESC_RESET @ msg else msg)"

definition tagged_err :: "string \<Rightarrow> string \<Rightarrow> string" where
  "tagged_err deviceId msg = msg"

section \<open>A signal source over a transport\<close>

text \<open>A thread object: none, one that runs, or one that has ended and is not joined.\<close>

datatype thread_state = NoThread | ThreadRuns | ThreadEnded

record 'd tcp_source =
  tc_running :: bool
  tc_stop :: bool
  tc_worker :: thread_state
  tc_latest :: "'d VehicleSignal option"
  tc_service :: "'d service"

definition tcp_source_new :: "'d service \<Rightarrow> 'd tcp_source" where
  "tcp_source_new sv = \<lparr>tc_running = False, tc_stop = False, tc_worker = NoThread, tc_latest = None, tc_service = sv\<rparr>"

text \<open>\<open>None\<close>: the program is terminated, for a thread is assigned over one that is not joined.\<close>

definition tcp_source_start :: "bool \<Rightarrow> 'd tcp_source \<Rightarrow> 'd tcp_source option" where
  "tcp_source_start opens s =
     (if tc_running s then Some s
      else
        let s1 = s\<lparr>tc_running := True, tc_stop := False\<rparr>
        in if \<not> opens then Some (s1\<lparr>tc_running := False\<rparr>)
           else if tc_worker s1 \<noteq> NoThread then None
           else Some (s1\<lparr>tc_worker := ThreadRuns\<rparr>))"

definition tcp_source_stop :: "'d tcp_source \<Rightarrow> 'd tcp_source" where
  "tcp_source_stop s = s\<lparr>tc_running := False, tc_stop := True, tc_worker := NoThread\<rparr>"

text \<open>
  One turn of the worker: what the frame source gives it, if the source is still open. A read through
  dangling pointers is the inner \<open>None\<close> of \<open>processFrame\<close> and ends the program as well.
\<close>

definition tcp_worker_turn ::
    "'d host_env \<Rightarrow> u64 \<Rightarrow> TwaiFrame option \<Rightarrow> 'd tcp_source \<Rightarrow> 'd tcp_source option" where
  "tcp_worker_turn h clk frame s =
     (if tc_worker s \<noteq> ThreadRuns then Some s
      else
        case (if tc_running s then frame else None) of
          None \<Rightarrow> Some (s\<lparr>tc_running := False, tc_worker := ThreadEnded\<rparr>)
        | Some f \<Rightarrow>
            let (r, sv) = processFrame h clk (bytes f) (Some (timestampMs f)) (tc_service s)
            in case r of
                 None \<Rightarrow> None
               | Some sig \<Rightarrow> Some (s\<lparr>tc_service := sv,
                     tc_latest := (case sig of None \<Rightarrow> tc_latest s | Some x \<Rightarrow> Some x)\<rparr>))"

section \<open>The Bluetooth signal source\<close>

record 'd ble_source =
  bs_connected :: bool
  bs_latest :: "'d VehicleSignal"
  bs_frames :: "u16 \<Rightarrow> u8 list option"

definition ble_source_start :: "'d ble_source \<Rightarrow> 'd ble_source" where
  "ble_source_start s = s\<lparr>bs_connected := True\<rparr>"

definition ble_source_stop :: "'d ble_source \<Rightarrow> 'd ble_source" where
  "ble_source_stop s = (if \<not> bs_connected s then s else s\<lparr>bs_connected := False, bs_frames := (\<lambda>_. None)\<rparr>)"

text \<open>A notification reaches the source while its handler is set.\<close>

definition ble_source_data :: "u8 list \<Rightarrow> 'd ble_source \<Rightarrow> 'd ble_source" where
  "ble_source_data data s =
     (if \<not> bs_connected s \<or> length data < 2 then s
      else s\<lparr>bs_frames := (bs_frames s)(ucast (data ! 0) OR push_bit 8 (ucast (data ! 1)) \<mapsto> drop 2 data)\<rparr>)"

section \<open>The clamped signal\<close>

record 'd TelemetrySignal =
  ts_rpm :: 'd
  ts_gear :: int
  ts_torqueNm :: 'd
  ts_speedKmh :: 'd
  ts_throttlePercent :: 'd
  ts_timestampUtcMs :: u64

definition GEAR_6 :: int where "GEAR_6 = 6"

definition int_clamp :: "int \<Rightarrow> int \<Rightarrow> int \<Rightarrow> int" where
  "int_clamp v lo hi = (if v < lo then lo else if hi < v then hi else v)"

definition TelemetrySignal_new ::
    "'d fp_ops \<Rightarrow> 'd \<Rightarrow> int \<Rightarrow> 'd \<Rightarrow> 'd \<Rightarrow> 'd \<Rightarrow> u64 \<Rightarrow> 'd TelemetrySignal" where
  "TelemetrySignal_new d rpm gear torqueNm kmh throttle ts =
     \<lparr>ts_rpm = clamp d rpm (fp_of_int d 0) (fp_of_int d 12000),
      ts_gear = int_clamp gear REVERSE GEAR_6,
      ts_torqueNm = clamp d torqueNm (fp_of_int d 0) (fp_of_int d 1500),
      ts_speedKmh = clamp d kmh (fp_of_int d 0) (fp_of_int d 400),
      ts_throttlePercent = clamp d throttle (fp_of_int d 0) (fp_of_int d 100),
      ts_timestampUtcMs = ts\<rparr>"

end
