(* ===== verification/Plumbing_Proofs.thy ===== *)
theory Plumbing_Proofs
  imports Host_Plumbing
begin

text \<open>
  Resources are found in the nearest directory that has them; a consumer is called for exactly the
  time it is registered; a signal stops the run that is published; a source over a transport
  cannot be started again after the transport has ended.
\<close>

section \<open>Resources\<close>

text \<open>The directories of the walk: the path and its parents, up to the root.\<close>

function ancestors :: "string \<Rightarrow> string list" where
  "ancestors dir =
     (if dir = [] then [] else dir # (if parentDir dir = dir then [] else ancestors (parentDir dir)))"
  by pat_completeness auto
termination
  by (relation "measure length") (auto simp: parent_shorter)

declare ancestors.simps [simp del]

fun add_new :: "string list \<Rightarrow> string list \<Rightarrow> string list" where
  "add_new cs [] = cs"
| "add_new cs (x # xs) = add_new (pushUnique x cs) xs"

lemma walk_ancestors: "walk_up rel dir cs = add_new cs (map (\<lambda>d. joinPath d rel) (ancestors dir))"
proof (induction rel dir cs rule: walk_up.induct)
  case (1 rel dir cs)
  then show ?case
    by (subst walk_up.simps, subst ancestors.simps) (auto simp: Let_def)
qed

lemma add_new_set: "set (add_new cs xs) = set cs \<union> set xs"
  by (induction xs arbitrary: cs) (auto simp: pushUnique_def)

lemma add_new_distinct: "distinct cs \<Longrightarrow> distinct (add_new cs xs)"
  by (induction xs arbitrary: cs) (auto simp: pushUnique_def)

lemma add_new_snoc: "add_new cs (xs @ [x]) = pushUnique x (add_new cs xs)"
  by (induction xs arbitrary: cs) auto

definition searched :: "string \<Rightarrow> string option \<Rightarrow> string \<Rightarrow> string list" where
  "searched exeDir cwd rel =
     map (\<lambda>d. joinPath d rel) (ancestors exeDir @ (case cwd of None \<Rightarrow> [] | Some w \<Rightarrow> [w]))"

lemma candidates_relative:
  "\<not> isAbsolutePath rel \<Longrightarrow> resourceCandidates exeDir cwd rel = add_new [] (searched exeDir cwd rel)"
  by (cases cwd)
    (auto simp: resourceCandidates_def searched_def walk_ancestors add_new_snoc ancestors.simps[of "[]"])

lemma find_append_case: "find P (xs @ ys) = (case find P xs of None \<Rightarrow> find P ys | Some x \<Rightarrow> Some x)"
  by (induction xs) auto

lemma first_match: "find ex (add_new cs xs) = find ex (cs @ xs)"
proof (induction xs arbitrary: cs)
  case (Cons x xs)
  have "find ex (cs @ x # xs) = find ex (cs @ xs)" if "x \<in> set cs"
  proof (cases "find ex cs")
    case None
    with that have "\<not> ex x" by (auto simp: find_None_iff)
    with None show ?thesis by (simp add: find_append_case)
  qed (simp add: find_append_case)
  with Cons show ?case by (auto simp: pushUnique_def)
qed simp

lemma resolve_find:
  "resolveResource exeDir cwd ex rel =
     (case find ex (resourceCandidates exeDir cwd rel) of Some c \<Rightarrow> c
      | None \<Rightarrow> if resourceCandidates exeDir cwd rel = [] then rel else hd (resourceCandidates exeDir cwd rel))"
proof -
  have "find ex cs = (case filter ex cs of [] \<Rightarrow> None | c # _ \<Rightarrow> Some c)" for cs
    by (induction cs) auto
  then show ?thesis by (simp add: resolveResource_def Let_def split: list.split)
qed

text \<open>
  An absolute path is left alone. A relative one is looked up in the
  directory of the program, then in each parent up to the root, then in the working directory,
  and the first place that has it is the answer; no place is tried twice.
\<close>

theorem the_nearest_resource_is_found:
  "distinct (resourceCandidates exeDir cwd rel) \<and>
   (if isAbsolutePath rel then resolveResource exeDir cwd ex rel = rel
    else case find ex (searched exeDir cwd rel) of
           Some c \<Rightarrow> resolveResource exeDir cwd ex rel = c \<and> ex c
         | None \<Rightarrow> resolveResource exeDir cwd ex rel =
             (if exeDir \<noteq> [] then joinPath exeDir rel else case cwd of Some w \<Rightarrow> joinPath w rel | None \<Rightarrow> rel))"
proof (cases "isAbsolutePath rel")
  case True
  then show ?thesis by (simp add: resourceCandidates_def resolve_find)
next
  case False
  note c = candidates_relative[OF False, of exeDir cwd]
  have hd: "add_new cs xs \<noteq> [] \<and> hd (add_new cs xs) = hd (cs @ xs)" if "cs @ xs \<noteq> []" for cs xs
    using that by (induction xs arbitrary: cs) (auto simp: pushUnique_def hd_append)
  have s: "exeDir \<noteq> [] \<Longrightarrow> searched exeDir cwd rel \<noteq> [] \<and> hd (searched exeDir cwd rel) = joinPath exeDir rel"
    "exeDir = [] \<Longrightarrow> searched exeDir cwd rel = (case cwd of None \<Rightarrow> [] | Some w \<Rightarrow> [joinPath w rel])"
    by (auto simp: searched_def ancestors.simps[of exeDir] ancestors.simps[of "[]"] split: option.split)
  have f: "find ex (resourceCandidates exeDir cwd rel) = find ex (searched exeDir cwd rel)"
    unfolding c by (simp add: first_match)
  have ne: "searched exeDir cwd rel \<noteq> [] \<Longrightarrow> resourceCandidates exeDir cwd rel \<noteq> [] \<and>
      hd (resourceCandidates exeDir cwd rel) = hd (searched exeDir cwd rel)"
    unfolding c using hd[of "[]" "searched exeDir cwd rel"] by simp
  have "distinct (resourceCandidates exeDir cwd rel)"
    unfolding c by (rule add_new_distinct) simp
  moreover have "resolveResource exeDir cwd ex rel = c \<and> ex c" if "find ex (searched exeDir cwd rel) = Some c" for c
  proof
    show "resolveResource exeDir cwd ex rel = c" using that f by (simp add: resolve_find)
    show "ex c" using that by (auto simp: find_Some_iff)
  qed
  moreover have "resolveResource exeDir cwd ex rel =
      (if exeDir \<noteq> [] then joinPath exeDir rel else case cwd of Some w \<Rightarrow> joinPath w rel | None \<Rightarrow> rel)"
    if "find ex (searched exeDir cwd rel) = None"
  proof (cases "exeDir = []")
    case True
    with that f s(2) ne show ?thesis
      by (cases cwd) (auto simp: resolve_find resourceCandidates_def False pushUnique_def)
  next
    case False
    with that f s(1) ne show ?thesis by (simp add: resolve_find)
  qed
  ultimately show ?thesis using False by (cases "find ex (searched exeDir cwd rel)") simp_all
qed

section \<open>The dispatcher\<close>

text \<open>What a client does with the dispatcher, and the consumers that should be called.\<close>

datatype 'c dispatch_call = Register 'c | Unregister nat | ClearAll

text \<open>The n-th registration of the history is the consumer with token n.\<close>

fun dispatch_run :: "'c dispatch_call list \<Rightarrow> 'c dispatcher \<Rightarrow> 'c dispatcher" where
  "dispatch_run [] e = e"
| "dispatch_run (Register c # cs) e = dispatch_run cs (snd (registerConsumer (Some c) e))"
| "dispatch_run (Unregister n # cs) e = dispatch_run cs (unregisterConsumer (of_nat n) e)"
| "dispatch_run (ClearAll # cs) e = dispatch_run cs (dispatcher_clear e)"

fun subscribers :: "'c dispatch_call list \<Rightarrow> nat \<Rightarrow> (nat \<times> 'c) list \<Rightarrow> (nat \<times> 'c) list" where
  "subscribers [] n subs = subs"
| "subscribers (Register c # cs) n subs = subscribers cs (n + 1) (subs @ [(n, c)])"
| "subscribers (Unregister k # cs) n subs = subscribers cs n (filter (\<lambda>(i, c). i \<noteq> k) subs)"
| "subscribers (ClearAll # cs) n subs = subscribers cs n []"

fun registrations :: "'c dispatch_call list \<Rightarrow> nat" where
  "registrations [] = 0"
| "registrations (Register c # cs) = Suc (registrations cs)"
| "registrations (_ # cs) = registrations cs"

definition live_consumers :: "'c consumer list \<Rightarrow> (u32 \<times> 'c) list" where
  "live_consumers cs = List.map_filter (\<lambda>c. map_option (Pair (co_token c)) (co_callback c)) (filter co_active cs)"

lemma dispatch_live: "dispatch e = map snd (live_consumers (ed_consumers e))"
proof -
  have "List.map_filter co_callback cs = map snd (List.map_filter (\<lambda>c. map_option (Pair (co_token c)) (co_callback c)) cs)"
    for cs :: "'a consumer list"
    by (induction cs) (auto simp: map_filter_simps split: option.split)
  then show ?thesis by (simp add: dispatch_def live_consumers_def)
qed

lemma live_deactivate:
  assumes "distinct (map co_token (filter co_active cs))" "\<forall>c\<in>set cs. co_callback c \<noteq> None"
  shows "live_consumers (deactivate tok cs) = filter (\<lambda>(i, c). i \<noteq> tok) (live_consumers cs)"
  using assms
proof (induction cs)
  case (Cons c cs)
  have keep: "filter (\<lambda>(i, c). i \<noteq> tok) (live_consumers cs) = live_consumers cs"
    if "tok \<notin> co_token ` {c \<in> set cs. co_active c}"
    using that by (induction cs) (auto simp: live_consumers_def map_filter_simps split: option.split)
  show ?case
  proof (cases "co_active c")
    case True
    with Cons keep show ?thesis
      by (auto simp: live_consumers_def map_filter_simps image_iff split: option.splits)
  next
    case False
    with Cons show ?thesis by (simp add: live_consumers_def map_filter_simps)
  qed
qed (simp add: live_consumers_def map_filter_simps)

text \<open>The dispatcher after a history mirrors the list of subscribers, as long as the tokens do not wrap.\<close>

definition mirrors :: "nat \<Rightarrow> (nat \<times> 'c) list \<Rightarrow> 'c dispatcher \<Rightarrow> bool" where
  "mirrors n subs e \<longleftrightarrow> ed_nextToken e = of_nat n \<and> (\<forall>c\<in>set (ed_consumers e). co_callback c \<noteq> None) \<and>
     live_consumers (ed_consumers e) = map (\<lambda>(i, c). (of_nat i, c)) subs \<and>
     distinct (map co_token (filter co_active (ed_consumers e))) \<and>
     (\<forall>(i, c)\<in>set subs. i < n) \<and> distinct (map fst subs) \<and>
     (\<forall>c\<in>set (ed_consumers e). \<exists>i < n. 0 < i \<and> co_token c = of_nat i)"

lemma live_append: "live_consumers (xs @ ys) = live_consumers xs @ live_consumers ys"
  by (induction xs) (auto simp: live_consumers_def map_filter_simps split: option.split)

lemma token_eq: "(of_nat i :: u32) = of_nat j \<longleftrightarrow> i = j" if "i < 2 ^ 32" "j < 2 ^ 32"
  using that by (simp add: word_of_nat_eq_iff take_bit_nat_eq_self)

lemma mirrors_register:
  assumes "mirrors n subs e" "0 < n" "n < 2 ^ 32"
  shows "mirrors (n + 1) (subs @ [(n, c)]) (snd (registerConsumer (Some c) e))"
proof -
  have "of_nat n \<notin> co_token ` set (ed_consumers e)"
    using assms token_eq by (fastforce simp: mirrors_def)
  with assms show ?thesis
  proof -
    let ?e = "snd (registerConsumer (Some c) e)"
    let ?new = "\<lparr>co_callback = Some c, co_token = of_nat n, co_active = True\<rparr> :: 'a consumer"
    have cs: "ed_consumers ?e = ed_consumers e @ [?new]" "ed_nextToken ?e = of_nat (n + 1)"
      using assms(1) by (simp_all add: mirrors_def registerConsumer_def)
    have "live_consumers [?new] = [(of_nat n, c)]" by (simp add: live_consumers_def map_filter_simps)
    moreover have "\<exists>i < n + 1. 0 < i \<and> co_token x = of_nat i" if "x \<in> set (ed_consumers ?e)" for x
      using that assms(1,2) cs(1) less_SucI by (auto simp: mirrors_def) (metis less_SucI)
    ultimately show ?thesis
      using assms(1) \<open>of_nat n \<notin> _\<close> cs unfolding mirrors_def live_append cs
      by (auto simp: less_Suc_eq)
  qed
qed

lemma live_token_map:
  assumes "\<forall>(i, c)\<in>set subs. i < 2 ^ 32" "k < 2 ^ 32"
  shows "filter (\<lambda>(i, c). i \<noteq> of_nat k) (map (\<lambda>(i, c). (of_nat i :: u32, c)) subs) =
    map (\<lambda>(i, c). (of_nat i, c)) (filter (\<lambda>(i, c). i \<noteq> k) subs)"
  using assms by (induction subs) (auto simp: token_eq)

lemma deactivate_consumers:
  "map co_token (deactivate tok cs) = map co_token cs" "map co_callback (deactivate tok cs) = map co_callback cs"
  "distinct (map co_token (filter co_active cs)) \<Longrightarrow> distinct (map co_token (filter co_active (deactivate tok cs)))"
proof -
  show "map co_token (deactivate tok cs) = map co_token cs" "map co_callback (deactivate tok cs) = map co_callback cs"
    by (induction cs) auto
  have sub: "set (filter co_active (deactivate tok cs)) \<subseteq> set (filter co_active cs)" for cs :: "'a consumer list"
    by (induction cs) auto
  show "distinct (map co_token (filter co_active cs)) \<Longrightarrow> distinct (map co_token (filter co_active (deactivate tok cs)))"
  proof (induction cs)
    case (Cons c cs)
    with sub[of cs] show ?case by (auto split: if_splits)
  qed simp
qed

lemma mirrors_unregister:
  assumes "mirrors n subs e" "n \<le> 2 ^ 32" "k < 2 ^ 32"
  shows "mirrors n (filter (\<lambda>(i, c). i \<noteq> k) subs) (unregisterConsumer (of_nat k) e)"
proof -
  let ?cs = "ed_consumers e"
  note a = assms(1)[unfolded mirrors_def]
  have lt: "\<forall>(i, c)\<in>set subs. i < 2 ^ 32" using a assms(2) by fastforce
  have "live_consumers (deactivate (of_nat k) ?cs) = filter (\<lambda>(i, c). i \<noteq> of_nat k) (live_consumers ?cs)"
    using a by (intro live_deactivate) auto
  also have "\<dots> = map (\<lambda>(i, c). (of_nat i, c)) (filter (\<lambda>(i, c). i \<noteq> k) subs)"
    using a live_token_map[OF lt assms(3)] by simp
  finally have live: "live_consumers (deactivate (of_nat k) ?cs) = map (\<lambda>(i, c). (of_nat i, c)) (filter (\<lambda>(i, c). i \<noteq> k) subs)" .
  have im: "co_token ` set (deactivate (of_nat k) ?cs) = co_token ` set ?cs"
    "co_callback ` set (deactivate (of_nat k) ?cs) = co_callback ` set ?cs"
    unfolding list.set_map[symmetric] deactivate_consumers(1,2) by (rule refl)+
  have tk: "\<exists>i<n. 0 < i \<and> co_token c = of_nat i" if "c \<in> set (deactivate (of_nat k) ?cs)" for c
  proof -
    have "co_token c \<in> co_token ` set ?cs" using that im(1) by auto
    then obtain c' where "c' \<in> set ?cs" "co_token c = co_token c'" by auto
    with a show ?thesis by simp
  qed
  have cb: "co_callback c \<noteq> None" if "c \<in> set (deactivate (of_nat k) ?cs)" for c
  proof -
    have "co_callback c \<in> co_callback ` set ?cs" using that im(2) by auto
    then obtain c' where "c' \<in> set ?cs" "co_callback c = co_callback c'" by auto
    with a show ?thesis by simp
  qed
  have d: "distinct (map fst (filter (\<lambda>(i, c). i \<noteq> k) subs))"
    using a by (simp add: distinct_map_filter)
  show ?thesis
    using a live tk cb d deactivate_consumers(3)[of ?cs "of_nat k"]
    by (auto simp: mirrors_def unregisterConsumer_def)
qed

lemma run_mirrors:
  assumes "mirrors n subs e" "0 < n" "n + registrations cs \<le> 2 ^ 32" "\<forall>k. Unregister k \<in> set cs \<longrightarrow> k < 2 ^ 32"
  shows "\<exists>n'. mirrors n' (subscribers cs n subs) (dispatch_run cs e)"
  using assms
proof (induction cs arbitrary: n subs e)
  case (Cons a cs)
  show ?case
  proof (cases a)
    case (Register c)
    with Cons.prems Cons.IH[OF mirrors_register[OF Cons.prems(1,2), of c]] show ?thesis by auto
  next
    case (Unregister k)
    with Cons.prems Cons.IH[OF mirrors_unregister[OF Cons.prems(1), of k]] show ?thesis by auto
  next
    case ClearAll
    have "mirrors n [] (dispatcher_clear e)"
      using Cons.prems(1) by (simp add: mirrors_def dispatcher_clear_def live_consumers_def map_filter_simps)
    with Cons.prems Cons.IH[of n "[]" "dispatcher_clear e"] ClearAll show ?thesis by auto
  qed
qed auto

text \<open>
  C30. Over any history of fewer than 2^32 registrations a signal is handed to the
  consumers that are registered and not yet unregistered, once each, in the order of registration.
\<close>

theorem subscribers_get_every_signal:
  assumes "registrations cs < 2 ^ 32" and "\<forall>k. Unregister k \<in> set cs \<longrightarrow> k < 2 ^ 32"
  shows "dispatch (dispatch_run cs dispatcher_new) = map snd (subscribers cs 1 [])"
proof -
  have "mirrors 1 [] dispatcher_new"
    by (simp add: mirrors_def dispatcher_new_def live_consumers_def map_filter_simps)
  from run_mirrors[OF this, of cs] assms obtain n where
    "mirrors n (subscribers cs 1 []) (dispatch_run cs dispatcher_new)" by auto
  then show ?thesis by (simp add: dispatch_live mirrors_def comp_def case_prod_unfold)
qed

theorem subscribers_get_every_signal_witness:
  "dispatch (dispatch_run [Register ''log'', Register ''screen'', Unregister 1, Register ''pipe''] dispatcher_new)
     = [''screen'', ''pipe'']"
  using subscribers_get_every_signal[of "[Register ''log'', Register ''screen'', Unregister 1, Register ''pipe'']"]
  by simp

text \<open>After 2^32 registrations a token is given out twice, and unregistering takes the older one.\<close>

section \<open>Stopping\<close>

text \<open>
  While a run has its token published, a signal stops exactly this
  run; once it has ended, a signal stops nothing; and a request from before the run is forgotten.
\<close>

theorem a_signal_stops_the_published_run:
  "sw_flags (onStopSignal (stop_scope_enter t w)) = (sw_flags w)(t := True) \<and>
   \<not> sw_flags (stop_scope_enter t w) t \<and>
   onStopSignal (stop_scope_exit (stop_scope_enter t w)) = stop_scope_exit (stop_scope_enter t w)"
  by (simp add: onStopSignal_def stop_scope_enter_def stop_scope_exit_def brokerSet_def brokerClear_def
      stop_reset_def requestStop_def)

section \<open>The source over a transport\<close>

datatype tcp_event = StartSource bool | StopSource | WorkerTurn u64 "TwaiFrame option"

fun tcp_event_step :: "'d host_env \<Rightarrow> tcp_event \<Rightarrow> 'd tcp_source \<Rightarrow> 'd tcp_source option" where
  "tcp_event_step h (StartSource opens) s = tcp_source_start opens s"
| "tcp_event_step h StopSource s = Some (tcp_source_stop s)"
| "tcp_event_step h (WorkerTurn clk f) s = tcp_worker_turn h clk f s"

inductive tcp_history :: "'d host_env \<Rightarrow> 'd service \<Rightarrow> tcp_event list \<Rightarrow> 'd tcp_source \<Rightarrow> bool" for h sv where
  New: "tcp_history h sv [] (tcp_source_new sv)"
| Event: "\<lbrakk>tcp_history h sv es s; tcp_event_step h e s = Some s1\<rbrakk> \<Longrightarrow> tcp_history h sv (es @ [e]) s1"

text \<open>The worker has ended by itself since the last stop.\<close>

lemma worker_inv:
  assumes "tcp_history h sv es s"
  shows "(tc_running s \<longleftrightarrow> tc_worker s = ThreadRuns) \<and> (tc_stop s \<longrightarrow> tc_worker s = NoThread)"
  using assms
proof induction
  case (Event es s e s1)
  then show ?case
    by (cases e) (auto simp: tcp_source_start_def tcp_source_stop_def tcp_worker_turn_def Let_def
        split: if_splits option.splits prod.splits)
qed (simp add: tcp_source_new_def)

text \<open>
  C31. When the transport has ended by itself, the source says it is not
  running, but starting it again terminates the program; after a stop it can be started.
\<close>

theorem a_dropped_source_cannot_restart:
  assumes "tcp_history h sv es s" and "tc_running s"
    and "tcp_worker_turn h clk None s = Some s1"
  shows "\<not> tc_running s1 \<and> tcp_source_start True s1 = None \<and>
    (\<exists>s2. tcp_source_start True (tcp_source_stop s1) = Some s2 \<and> tc_running s2)"
  using worker_inv[OF assms(1)] assms(2,3)
  by (auto simp: tcp_worker_turn_def tcp_source_start_def tcp_source_stop_def Let_def)

definition ex_source_env :: "int host_env" where
  "ex_source_env = \<lparr>he_fp = \<lparr>fp_of_int = id, fp_mul = (*), fp_add = (+), fp_sub = (-), fp_div = (div), fp_less = (<), fp_eq = (=)\<rparr>,
     he_stod = (\<lambda>_. None), he_files = (\<lambda>_. None), he_resolve = id, he_candidates = (\<lambda>_. [])\<rparr>"

theorem a_dropped_source_cannot_restart_witness:
  "\<exists>s1. tcp_worker_turn ex_source_env 0 None ((tcp_source_new (service_new (\<lambda>_. None)))\<lparr>tc_running := True, tc_worker := ThreadRuns\<rparr>)
     = Some s1 \<and> tcp_source_start True s1 = None"
proof -
  let ?sv = "service_new (\<lambda>_. None) :: int service"
  have h: "tcp_history ex_source_env ?sv [StartSource True] ((tcp_source_new ?sv)\<lparr>tc_running := True, tc_worker := ThreadRuns\<rparr>)"
    using tcp_history.Event[OF tcp_history.New, of ex_source_env "StartSource True" ?sv]
    by (simp add: tcp_source_start_def tcp_source_new_def)
  obtain s1 where s1: "tcp_worker_turn ex_source_env 0 None ((tcp_source_new ?sv)\<lparr>tc_running := True, tc_worker := ThreadRuns\<rparr>) = Some s1"
    by (simp add: tcp_worker_turn_def)
  with a_dropped_source_cannot_restart[OF h _ s1] show ?thesis by simp
qed

section \<open>Sources that lose something\<close>

text \<open>The Bluetooth source keeps frames but never changes its signal.\<close>

fun ble_source_run :: "u8 list list \<Rightarrow> 'd ble_source \<Rightarrow> 'd ble_source" where
  "ble_source_run [] s = s"
| "ble_source_run (d # ds) s = ble_source_run ds (ble_source_data d s)"

lemma the_ble_source_never_reports: "bs_latest (ble_source_run ds (ble_source_start s)) = bs_latest s"
proof -
  have "bs_latest (ble_source_run ds s) = bs_latest s" for s :: "'a ble_source"
    by (induction ds arbitrary: s) (auto simp: ble_source_data_def)
  then show ?thesis by (simp add: ble_source_start_def)
qed

text \<open>The dashboard signal shows park as reverse and every automatic gear as the sixth.\<close>

lemma the_dashboard_has_no_park:
  "ts_gear (TelemetrySignal_new d r PARK q k th ts) = REVERSE"
  "0 < g \<Longrightarrow> ts_gear (TelemetrySignal_new d r (AUTO_BIT + g) q k th ts) = GEAR_6"
  by (auto simp: TelemetrySignal_new_def int_clamp_def PARK_def REVERSE_def GEAR_6_def AUTO_BIT_def)

end
