(* ===== verification/Host_Screen.thy ===== *)
theory Host_Screen
  imports Host_Plumbing Host_Csv Host_Ble
begin

text \<open>
  What is shown of signals, under \<open>src/src\<close>: the table row and header of the terminal and the summary of
  a detection (\<open>presentation/VehicleSignalFormatter.cpp\<close>), the reporters of the replay loop
  (\<open>pipeline/ConsoleProgressReporter.cpp\<close>, \<open>CompositeProgressReporter.cpp\<close>, \<open>CsvStdoutReporter.cpp\<close>).

  A number with p digits after the point, \<open>std::fixed << std::setprecision(p)\<close>, is an argument.
  A reporter answers with the text it writes on the stream it was given.
\<close>

record 'd screen =
  sc_fixed :: "nat \<Rightarrow> 'd \<Rightarrow> string"
  sc_fp :: "'d fp_ops"

section \<open>The terminal\<close>

definition TERMINAL_SEPARATOR_WIDTH :: nat where "TERMINAL_SEPARATOR_WIDTH = 70"

definition DEGREE :: string where "DEGREE = [CHR 0xC2, CHR 0xB0]"

text \<open>A value or zero, right-aligned in a field.\<close>

definition cell :: "'d screen \<Rightarrow> nat \<Rightarrow> nat \<Rightarrow> 'd option \<Rightarrow> string" where
  "cell c w p v = setw_right w (sc_fixed c p (case v of None \<Rightarrow> fp_of_int (sc_fp c) 0 | Some x \<Rightarrow> x))"

definition printTelemetryRow :: "'d screen \<Rightarrow> 'd VehicleSignal \<Rightarrow> int \<Rightarrow> string" where
  "printTelemetryRow c s count =
     ''['' @ int_str count @ ''] ''
     @ ''Throttle: '' @ cell c 5 1 (throttlePercent s) @ ''%  ''
     @ ''Speed: '' @ cell c 5 1 (speedKmh s) @ '' km/h  ''
     @ ''Brake: '' @ cell c 5 1 (brakePercent s) @ ''%  ''
     @ ''Accel: '' @ cell c 5 2 (accelerationG s) @ '' G  ''
     @ ''Gear: '' @ setw_right 1 (case gearSelector s of Some g \<Rightarrow> labelOr g ''?'' | None \<Rightarrow> ''-'') @ ''  ''
     @ ''Steer: '' @ cell c 6 1 (steeringAngleDeg s) @ DEGREE @ ''  ''
     @ ''Motor: '' @ cell c 5 0 (motorRpm s) @ '' rpm  ''
     @ ''HV: '' @ cell c 5 1 (motorHvVoltage s) @ ''V  ''
     @ ''Curr: '' @ cell c 5 1 (motorHvCurrent s) @ ''A  ''
     @ ''Trq: '' @ cell c 6 1 (motorTorqueNm s) @ '' Nm'' @ [LF]"

definition printTelemetryHeader :: "VehicleConfig \<Rightarrow> string" where
  "printTelemetryHeader config =
     LF # replicate TERMINAL_SEPARATOR_WIDTH (CHR ''='') @ [LF]
     @ vehicleName config @ '' Real-Time Telemetry'' @ [LF]
     @ replicate TERMINAL_SEPARATOR_WIDTH (CHR ''='') @ [LF, LF]"

definition confidenceLabel :: "DetectionConfidence \<Rightarrow> string" where
  "confidenceLabel c =
     (case c of HighConfidence \<Rightarrow> ''high'' | MediumConfidence \<Rightarrow> ''medium'' | LowConfidence \<Rightarrow> ''low''
      | NoConfidence \<Rightarrow> ''none'')"

definition hasSuggestion :: "VehicleDetectionResult \<Rightarrow> bool" where
  "hasSuggestion r \<longleftrightarrow> dr_suggestedVehicleId r \<noteq> []"

definition formatDetectionSummary :: "VehicleDetectionResult \<Rightarrow> string" where
  "formatDetectionSummary r =
     (if dr_frameCount r = 0 then []
      else ''Frames: '' @ dec_str (dr_frameCount r)
        @ (if dr_observedCanIds r \<noteq> [] then
             '' | CAN IDs:'' @ concat (map (\<lambda>i. '' 0x'' @ hex_pad 4 i) (sort (map unat (dr_observedCanIds r))))
           else [])
        @ (if hasSuggestion r then
             '' | '' @ dr_suggestedVehicleId r @ '' ('' @ confidenceLabel (dr_confidence r) @ '')''
           else []))"

section \<open>Reporters\<close>

definition console_optional :: "'d screen \<Rightarrow> 'd option \<Rightarrow> string" where
  "console_optional c v = (case v of None \<Rightarrow> [] | Some x \<Rightarrow> sc_fixed c 2 x)"

definition console_brakeLight :: "bool option \<Rightarrow> string" where
  "console_brakeLight v = (case v of None \<Rightarrow> [] | Some b \<Rightarrow> if b then ''1'' else ''0'')"

definition gearLabel :: "int option \<Rightarrow> string" where
  "gearLabel g = (case g of None \<Rightarrow> [] | Some v \<Rightarrow> labelOr v (int_str v))"

definition console_emit :: "'d screen \<Rightarrow> string \<Rightarrow> 'd VehicleSignal \<Rightarrow> nat \<Rightarrow> nat \<Rightarrow> string" where
  "console_emit c vehicleId s frameIndex totalHints =
     ''frame '' @ dec_str (frameIndex + 1)
     @ (if 0 < totalHints then
          let d = sc_fp c
          in '' ('' @ sc_fixed c 1 (fp_div d (fp_mul d (fp_of_int d 100) (fp_of_int d (int (frameIndex + 1))))
               (fp_of_int d (int totalHints))) @ ''%)''
        else [])
     @ ''  timestamp_ms='' @ dec_str (unat (timestampUtcMs s))
     @ ''  vehicle_id='' @ vehicleId
     @ ''  speed_kmh='' @ console_optional c (speedKmh s)
     @ ''  throttle_percent='' @ console_optional c (throttlePercent s)
     @ ''  brake_percent='' @ console_optional c (brakePercent s)
     @ ''  brake_light='' @ console_brakeLight (brakeLight s)
     @ ''  acceleration_g='' @ console_optional c (accelerationG s)
     @ ''  steering_angle_deg='' @ console_optional c (steeringAngleDeg s)
     @ ''  motor_rpm='' @ console_optional c (motorRpm s)
     @ ''  motor_hv_voltage='' @ console_optional c (motorHvVoltage s)
     @ ''  motor_hv_current='' @ console_optional c (motorHvCurrent s)
     @ ''  motor_torque_nm='' @ console_optional c (motorTorqueNm s)
     @ ''  gear_selector='' @ gearLabel (gearSelector s) @ [LF]"

text \<open>The streams of the process, and what is written to them in order.\<close>

datatype stream = StdoutStream | StderrStream | GivenStream

type_synonym console = "(stream \<times> string) list"

definition stream_text :: "stream \<Rightarrow> console \<Rightarrow> string" where
  "stream_text st c = concat (map snd (filter (\<lambda>(s, t). s = st) c))"

text \<open>The two reporters of a run.\<close>

datatype 'd reporter = ConsoleReporter stream string | CsvReporter "'d csv_numbers" text_sink

definition reporter_onFrame ::
    "'d screen \<Rightarrow> 'd VehicleSignal \<Rightarrow> nat \<Rightarrow> nat \<Rightarrow> 'd reporter \<Rightarrow> console \<times> 'd reporter" where
  "reporter_onFrame c s i hints r =
     (case r of
        ConsoleReporter st vid \<Rightarrow> ([(st, console_emit c vid s i hints)], r)
      | CsvReporter n sink \<Rightarrow>
          let sink1 = CsvStdoutSink_call n s sink
          in ([(StdoutStream, drop (length (ts_text sink)) (ts_text sink1))], CsvReporter n sink1))"

definition reporter_onComplete :: "ReplayStats \<Rightarrow> 'd reporter \<Rightarrow> console" where
  "reporter_onComplete stats r = []"

text \<open>The composite: its children in the order they were added; an absent child is not added.\<close>

definition composite_add :: "'d reporter option \<Rightarrow> 'd reporter list \<Rightarrow> 'd reporter list" where
  "composite_add r rs = (case r of None \<Rightarrow> rs | Some x \<Rightarrow> rs @ [x])"

fun composite_onFrame ::
    "'d screen \<Rightarrow> 'd VehicleSignal \<Rightarrow> nat \<Rightarrow> nat \<Rightarrow> 'd reporter list \<Rightarrow> console \<times> 'd reporter list" where
  "composite_onFrame c s i hints [] = ([], [])"
| "composite_onFrame c s i hints (r # rs) =
     (let (out, r1) = reporter_onFrame c s i hints r; (out2, rs1) = composite_onFrame c s i hints rs
      in (out @ out2, r1 # rs1))"

definition composite_onComplete :: "ReplayStats \<Rightarrow> 'd reporter list \<Rightarrow> console" where
  "composite_onComplete stats rs = concat (map (reporter_onComplete stats) rs)"

end
