(* ===== verification/Host_Run.thy ===== *)
theory Host_Run
  imports Host_Screen Host_Demo
begin

text \<open>
  The runs of the host over decoded frames, under \<open>src/src\<close>: live (\<open>cli/LiveRunContext.cpp\<close>), replay of
  a capture (\<open>cli/ReplayRunContext.cpp\<close>), polling of a signal source (\<open>cli/TelemetryRunner.cpp\<close>), and
  the discovery list of \<open>main.cpp\<close>. Their console is the text on the two streams of the process in
  order; the files are text sinks, and whether a file can be opened is an argument.

  A transport is what it does: what it says when it is opened, its lines with the time they are read
  at and what it says before each, and what it says at the end. An exception nobody catches, and a
  read through dangling pointers, end the program.
\<close>

section \<open>Output of transports\<close>

datatype transport_message = Says string | Complains string

text \<open>\<open>StdOut\<close>, the output every transport of a run is given.\<close>

definition std_out :: "transport_message \<Rightarrow> stream \<times> string" where
  "std_out msg = (case msg of Says t \<Rightarrow> (StdoutStream, t @ [LF]) | Complains t \<Rightarrow> (StderrStream, t @ [LF]))"

record transport_script =
  tp_opening :: "transport_message list"
  tp_opens :: bool
  tp_lines :: "(transport_message list \<times> u64 \<times> string) list"
  tp_ending :: "transport_message list"

text \<open>The demo transport says nothing.\<close>

definition demo_script :: "'d demo_math \<Rightarrow> (nat \<Rightarrow> u64) \<Rightarrow> nat \<Rightarrow> transport_script option" where
  "demo_script m clk n =
     map_option (\<lambda>ls. \<lparr>tp_opening = [], tp_opens = fst (demo_open (demo_transport_new n)),
         tp_lines = map (\<lambda>(i, l). ([], clk i, l)) (zip [0 ..< length ls] ls), tp_ending = []\<rparr>)
       (demo_lines m (snd (demo_open (demo_transport_new n))))"

section \<open>Sinks of a run\<close>

record 'd run_env =
  rn_host :: "'d host_env"
  rn_screen :: "'d screen"
  rn_numbers :: "'d csv_numbers"
  rn_ids :: "string list"

datatype run_end = ExitCode int | Uncaught string | Crashed

record 'd run_sinks =
  rs_console :: console
  rs_csv :: text_sink
  rs_raw :: text_sink
  rs_reporters :: "'d reporter list"

definition closed_sink :: text_sink where
  "closed_sink = \<lparr>ts_open = False, ts_vehicleId = [], ts_text = []\<rparr>"

definition sinks_new :: "'d run_sinks" where
  "sinks_new = \<lparr>rs_console = [], rs_csv = closed_sink, rs_raw = closed_sink, rs_reporters = []\<rparr>"

definition say :: "console \<Rightarrow> 'd run_sinks \<Rightarrow> 'd run_sinks" where
  "say c k = k\<lparr>rs_console := rs_console k @ c\<rparr>"

text \<open>What an output of the replay loop does, at wall clock \<open>t\<close>.\<close>

definition play :: "'d run_env \<Rightarrow> u64 \<Rightarrow> 'd replay_out \<Rightarrow> 'd run_sinks \<Rightarrow> 'd run_sinks" where
  "play e t out k =
     (case out of
        RawLine l \<Rightarrow> k\<lparr>rs_raw := RawLogSink_writeLine t l (rs_raw k)\<rparr>
      | Decoded s \<Rightarrow> k\<lparr>rs_csv := DecodedCsvSink_write (rn_numbers e) s (rs_csv k)\<rparr>
      | OnFrame s i \<Rightarrow>
          let (c, rs) = composite_onFrame (rn_screen e) s i 0 (rs_reporters k)
          in say c (k\<lparr>rs_reporters := rs\<rparr>)
      | NoMatch l \<Rightarrow> say [(StderrStream, l)] k
      | OnComplete st \<Rightarrow> say (composite_onComplete st (rs_reporters k)) k
      | DanglingRead \<Rightarrow> k)"

definition stats_text :: "ReplayStats \<Rightarrow> string" where
  "stats_text st = ''  lines='' @ dec_str (linesRead st) @ '' frames decoded='' @ dec_str (framesDecoded st)
     @ '' skipped='' @ dec_str (skippedLines st) @ '' malformed='' @ dec_str (malformedLines st) @ [LF]"

definition narrative_stream :: "bool \<Rightarrow> stream" where
  "narrative_stream stdoutCsv = (if stdoutCsv then StderrStream else StdoutStream)"

text \<open>
  The reporters: the console, then the rows of standard output, whose sink writes its header when it
  is made.
\<close>

definition add_reporters :: "'d run_env \<Rightarrow> bool \<Rightarrow> string \<Rightarrow> string \<Rightarrow> 'd run_sinks \<Rightarrow> 'd run_sinks" where
  "add_reporters e stdoutCsv consoleId csvId k =
     (let sink = createStdoutSink stdoutCsv csvId
      in say (if stdoutCsv then [(StdoutStream, ts_text sink)] else [])
           (k\<lparr>rs_reporters := composite_add (if stdoutCsv then Some (CsvReporter (rn_numbers e) sink) else None)
                (composite_add (Some (ConsoleReporter (narrative_stream stdoutCsv) consoleId)) [])\<rparr>))"

text \<open>The decoded log: \<open>None\<close>, and a complaint, when it cannot be opened.\<close>

definition open_csv :: "string \<Rightarrow> bool \<Rightarrow> string \<Rightarrow> 'd run_sinks \<Rightarrow> bool \<times> 'd run_sinks" where
  "open_csv logBase opens vehicleId k =
     (case TraceLogger_new opens vehicleId of
        None \<Rightarrow> (False, say [(StderrStream, ''Failed to open CSV log file: '' @ forLog logBase @ ''.csv'' @ [LF])] k)
      | Some sink \<Rightarrow> (True, k\<lparr>rs_csv := sink\<rparr>))"

section \<open>The live run\<close>

fun live_loop ::
    "'d run_env \<Rightarrow> bool \<Rightarrow> ReplayOutputs \<Rightarrow> (transport_message list \<times> u64 \<times> string) list \<Rightarrow>
     'd service \<times> ReplayStats \<Rightarrow> 'd run_sinks \<Rightarrow> bool \<times> ('d service \<times> ReplayStats) \<times> 'd run_sinks" where
  "live_loop e elm ou [] s k = (True, s, k)"
| "live_loop e elm ou ((msgs, t, l) # ls) s k =
     (let k1 = say (map std_out msgs) k
      in case live_line elm t l of
           None \<Rightarrow> live_loop e elm ou ls s k1
         | Some f \<Rightarrow>
             let (ok, s1, out) = dispatchFrame (rn_host e) t ou f (read_line s);
                 k2 = fold (play e t) (recordRawLine ou f @ out) k1
             in if ok then live_loop e elm ou ls s1 k2 else (False, s1, k2))"

definition live_run ::
    "'d run_env \<Rightarrow> (source_kind \<Rightarrow> transport_script option) \<Rightarrow> string \<Rightarrow> string \<Rightarrow> string \<Rightarrow> string \<Rightarrow> bool \<Rightarrow> bool \<Rightarrow>
     bool \<Rightarrow> 'd service \<Rightarrow> run_end \<times> 'd run_sinks \<times> 'd service" where
  "live_run e transports connectTarget vehicleType adapterProtocol logBase rawOpens csvOpens stdoutCsv sv0 =
     (case transports (buildPipelineSource connectTarget adapterProtocol) of
        None \<Rightarrow> (ExitCode 1, say [(StderrStream, ''Unsupported live connect target: '' @ forLog connectTarget @ [LF])]
            sinks_new, sv0)
      | Some tp \<Rightarrow>
          let (r, sv) = resolveVehicle (rn_host e) (rn_ids e) vehicleType sv0; narrative = narrative_stream stdoutCsv
          in case r of
               Inl msg \<Rightarrow> (Uncaught msg, sinks_new, sv)
             | Inr _ \<Rightarrow>
                 let k1 = say (map std_out (tp_opening tp)) sinks_new
                 in if \<not> tp_opens tp then
                      (ExitCode 1, say [(StderrStream, ''Failed to open live transport: '' @ forLog connectTarget
                          @ [LF])] k1, sv)
                    else if logBase \<noteq> [] \<and> \<not> rawOpens then
                      (ExitCode 1, say [(StderrStream, ''Failed to open raw log file: '' @ forLog logBase @ ''.raw.txt''
                          @ [LF])] k1, sv)
                    else
                      let (ok, k2) = (if logBase = [] then (True, k1)
                            else open_csv logBase csvOpens (sv_vehicleId sv)
                              (k1\<lparr>rs_raw := \<lparr>ts_open = True, ts_vehicleId = [], ts_text = []\<rparr>\<rparr>))
                      in if \<not> ok then (ExitCode 1, k2, sv)
                         else
                           let k3 = say [(narrative, ''Streaming '' @ forLog connectTarget @ '' ('' @ forLog vehicleType
                                 @ '')'' @ [LF]), (narrative, ''Press Ctrl+C to stop'' @ [LF, LF])] k2;
                               k4 = add_reporters e stdoutCsv (sv_vehicleId sv) (sv_vehicleId sv) k3;
                               ou = \<lparr>ro_decoded = (logBase \<noteq> []), ro_raw = (logBase \<noteq> []), ro_progress = True\<rparr>;
                               (done, s, k5) = live_loop e (adapterProtocol = ''elm327'') ou (tp_lines tp) (sv, stats_new) k4
                           in if \<not> done then (Crashed, k5, fst s)
                              else
                                (ExitCode 0,
                                 say [(narrative, LF # stats_text (snd s)), (narrative, ''Goodbye!'' @ [LF])]
                                   (say (composite_onComplete (snd s) (rs_reporters k5))
                                     (say (map std_out (tp_ending tp)) k5)), fst s))"

section \<open>The replay of a capture\<close>

text \<open>
  \<open>startFrom\<close>: the seconds to skip as text with three digits, and in milliseconds; \<open>None\<close> when the
  option was not given. \<open>delays\<close>: how long the source takes for each frame.
\<close>

definition replay_run ::
    "'c clock_ops \<Rightarrow> 'd run_env \<Rightarrow> u64 \<Rightarrow> string option \<Rightarrow> nat list \<Rightarrow> string \<Rightarrow> string \<Rightarrow> string \<Rightarrow> bool \<Rightarrow> bool \<Rightarrow>
     (string \<times> u64) option \<Rightarrow> 'c \<Rightarrow> 'd service \<Rightarrow> run_end \<times> 'd run_sinks \<times> 'd service" where
  "replay_run ck e t file delays filePath vehicleType logBase csvOpens stdoutCsv startFrom c sv0 =
     (let (r, sv) = resolveVehicle (rn_host e) (rn_ids e) vehicleType sv0; narrative = narrative_stream stdoutCsv
      in case r of
           Inl msg \<Rightarrow> (Uncaught msg, sinks_new, sv)
         | Inr _ \<Rightarrow>
             (case file of
                None \<Rightarrow> (ExitCode 1, say [(StderrStream, ''Failed to open capture file: '' @ forLog filePath @ [LF])]
                    sinks_new, sv)
              | Some content \<Rightarrow>
                  let (ok, k1) = (if logBase = [] then (True, sinks_new)
                        else open_csv logBase csvOpens (sv_vehicleId sv) sinks_new)
                  in if \<not> ok then (ExitCode 1, k1, sv)
                     else
                       let k2 = say [(narrative, ''Replaying '' @ forLog filePath @ [LF])] k1;
                           k3 = say (case startFrom of
                                 Some (txt, _) \<Rightarrow> if stdoutCsv then [(StdoutStream, ''#vs-start-from '' @ txt @ [LF])] else []
                               | None \<Rightarrow> []) k2;
                           k4 = add_reporters e stdoutCsv [] (sv_vehicleId sv) k3;
                           ou = \<lparr>ro_decoded = (logBase \<noteq> []), ro_raw = False, ro_progress = True\<rparr>;
                           (s, outs) = runReplay ck (rn_host e) t ou Paced (map_option snd startFrom)
                             (zip delays (capture_frames content)) c sv;
                           k5 = fold (play e t) (map snd outs) k4
                       in if DanglingRead \<in> set (map snd outs) then (Crashed, k5, fst s)
                          else
                            (ExitCode 0,
                             say [(narrative, stats_text (snd s)),
                                  (narrative, ''Decoded '' @ dec_str (framesDecoded (snd s)) @ '' frames'' @ [LF])] k5,
                             fst s)))"

section \<open>Polling a signal source\<close>

definition SPIN_SLEEP_MS :: nat where "SPIN_SLEEP_MS = 10"

record telemetry_options =
  to_logCsvPath :: string
  to_logRawPath :: string
  to_pollIntervalMs :: int
  to_stdoutCsv :: bool
  to_ownStream :: bool

datatype telemetry_consumer = LogConsumer | DisplayConsumer | PipeConsumer

record 'd telemetry_pipeline =
  tl_dispatcher :: "telemetry_consumer dispatcher"
  tl_csv :: text_sink
  tl_raw :: text_sink
  tl_pipe :: text_sink
  tl_count :: int
  tl_console :: console

definition pipe_stream :: "telemetry_options \<Rightarrow> stream" where
  "pipe_stream op = (if to_ownStream op then GivenStream else StdoutStream)"

text \<open>\<open>setup\<close>; \<open>Inl\<close> is the exception of a log that cannot be opened, which leaves no failure to report.\<close>

definition file_message :: "string \<Rightarrow> string" where
  "file_message path = ''Failed to open telemetry file: '' @ path"

definition telemetry_setup ::
    "telemetry_options \<Rightarrow> bool \<Rightarrow> bool \<Rightarrow> string \<Rightarrow> 'd telemetry_pipeline \<Rightarrow> string + 'd telemetry_pipeline" where
  "telemetry_setup op csvOpens rawOpens rawBefore p =
     (case (if to_logCsvPath op = [] then Some p
            else map_option (\<lambda>sink. p\<lparr>tl_csv := sink,
                   tl_dispatcher := snd (registerConsumer (Some LogConsumer) (tl_dispatcher p))\<rparr>)
                 (TraceLogger_new csvOpens [])) of
        None \<Rightarrow> Inl (file_message (to_logCsvPath op))
      | Some p1 \<Rightarrow>
          (case (if to_logRawPath op = [] then Some p1
                 else map_option (\<lambda>sink. p1\<lparr>tl_raw := sink\<rparr>) (RawTraceLogger_new rawOpens rawBefore)) of
             None \<Rightarrow> Inl (file_message (to_logRawPath op))
           | Some p2 \<Rightarrow>
               let p3 = p2\<lparr>tl_dispatcher := snd (registerConsumer (Some DisplayConsumer) (tl_dispatcher p2))\<rparr>;
                   sink = createStdoutSink (to_stdoutCsv op) [];
                   p4 = p3\<lparr>tl_pipe := sink,
                     tl_console := tl_console p3 @ (if to_stdoutCsv op then [(pipe_stream op, ts_text sink)] else [])\<rparr>
               in Inr (if to_stdoutCsv op
                  then p4\<lparr>tl_dispatcher := snd (registerConsumer (Some PipeConsumer) (tl_dispatcher p4))\<rparr> else p4)))"

definition telemetry_consume ::
    "'d run_env \<Rightarrow> telemetry_options \<Rightarrow> 'd VehicleSignal \<Rightarrow> telemetry_consumer \<Rightarrow> 'd telemetry_pipeline \<Rightarrow>
     'd telemetry_pipeline" where
  "telemetry_consume e op s q p =
     (case q of
        LogConsumer \<Rightarrow> p\<lparr>tl_csv := TraceLogger_call (rn_numbers e) s (tl_csv p)\<rparr>
      | DisplayConsumer \<Rightarrow>
          let n = tl_count p + 1
          in p\<lparr>tl_count := n, tl_console := tl_console p @
               [(narrative_stream (to_stdoutCsv op), printTelemetryRow (rn_screen e) s n)]\<rparr>
      | PipeConsumer \<Rightarrow>
          let sink = CsvStdoutSink_call (rn_numbers e) s (tl_pipe p)
          in p\<lparr>tl_pipe := sink, tl_console := tl_console p @
               [(pipe_stream op, drop (length (ts_text (tl_pipe p))) (ts_text sink))]\<rparr>)"

text \<open>
  The loop over its passes, until the stop is requested: the clock in milliseconds and the latest
  signal of the source.
\<close>

fun telemetry_loop ::
    "'d run_env \<Rightarrow> telemetry_options \<Rightarrow> int \<Rightarrow> (int \<times> 'd VehicleSignal) list \<Rightarrow> nat \<Rightarrow> 'd telemetry_pipeline \<Rightarrow>
     nat \<times> 'd telemetry_pipeline" where
  "telemetry_loop e op lastTime [] signalCount p = (signalCount, p)"
| "telemetry_loop e op lastTime ((now, s) # passes) signalCount p =
     (if to_pollIntervalMs op \<le> now - lastTime then
        let p1 = p\<lparr>tl_raw := RawTraceLogger_write (of_int now) [0] (tl_raw p)\<rparr>;
            p2 = fold (telemetry_consume e op s) (dispatch (tl_dispatcher p1)) p1
        in telemetry_loop e op now passes (signalCount + 1) p2
      else telemetry_loop e op lastTime passes signalCount p)"

definition telemetry_run ::
    "'d run_env \<Rightarrow> VehicleConfig option \<Rightarrow> telemetry_options \<Rightarrow> bool \<Rightarrow> bool \<Rightarrow> string \<Rightarrow> int \<Rightarrow>
     (int \<times> 'd VehicleSignal) list \<Rightarrow> run_end \<times> 'd telemetry_pipeline" where
  "telemetry_run e config op csvOpens rawOpens rawBefore start passes =
     (let p0 = \<lparr>tl_dispatcher = dispatcher_new, tl_csv = closed_sink, tl_raw = closed_sink, tl_pipe = closed_sink,
            tl_count = 0, tl_console = []\<rparr>; banner = narrative_stream (to_stdoutCsv op)
      in case config of
           None \<Rightarrow> (ExitCode 1, p0\<lparr>tl_console := [(StderrStream, ''Vehicle config is null'' @ [LF])]\<rparr>)
         | Some c \<Rightarrow>
             let p1 = p0\<lparr>tl_console := [(banner, LF # ''Starting '' @ vehicleName c @ '' telemetry'' @ [LF]),
                   (banner, ''Press Ctrl+C to stop'' @ [LF, LF]), (banner, printTelemetryHeader c)]\<rparr>
             in case telemetry_setup op csvOpens rawOpens rawBefore p1 of
                  Inl msg \<Rightarrow> (Uncaught msg, p1)
                | Inr p2 \<Rightarrow>
                    let (n, p3) = telemetry_loop e op start passes 0 p2
                    in (ExitCode 0, p3\<lparr>tl_console := tl_console p3 @
                         [(banner, [LF, LF] @ ''Telemetry ended. Total signals processed: '' @ dec_str n @ [LF]),
                          (banner, ''Goodbye!'' @ [LF])]\<rparr>))"

section \<open>Listing devices\<close>

definition main_runDiscovery :: "discovery_world \<Rightarrow> int \<times> console" where
  "main_runDiscovery net =
     (let hello = [(StdoutStream, ''Listening for ESP32 discovery broadcasts on UDP port '' @ dec_str (unat DISCOVERY_PORT)
            @ ''...'' @ [LF]), (StdoutStream, ''Press Ctrl-C to stop.'' @ [LF, LF]),
            (StdoutStream, ''Discovery mode: UNSIGNED (accepting all broadcasts)'' @ [LF, LF])];
          ds = dw_devices net
      in if \<not> dw_starts net then
           (1, hello @ [(StderrStream, ''Failed to start UDP discovery listener on port '' @ dec_str (unat DISCOVERY_PORT)
              @ [LF])])
         else if ds = [] then
           (1, hello @ [(StdoutStream, ''No ESP32 devices discovered.'' @ [LF, LF] @ ''Troubleshooting:'' @ [LF]
              @ ''  1. Ensure the ESP32 is powered on and connected to WiFi'' @ [LF]
              @ ''  2. Check that the ESP32 firmware includes UDP discovery'' @ [LF]
              @ ''  3. Verify both devices are on the same subnet'' @ [LF]
              @ ''  4. Check firewall rules for UDP port '' @ dec_str (unat DISCOVERY_PORT) @ [LF])])
         else
           (0, hello @ [(StdoutStream, ''Discovered '' @ dec_str (length ds) @ '' ESP32 device(s):'' @ [LF, LF])]
              @ map (\<lambda>(i, v). (StdoutStream, ''  ['' @ dec_str (i + 1) @ ''] '' @ dd_address v @ [LF]
                  @ ''      CAN:  '' @ tcpConnectionString v @ [LF]
                  @ ''      OTA:  tcp:'' @ dd_address v @ '':'' @ dec_str (unat (dd_otaPort v)) @ [LF]))
                (zip [0 ..< length ds] ds)
              @ [(StdoutStream, LF # ''Connect with: vehicle-sim --connect tcp:<ip>:<port> --vehicle <type>'' @ [LF]
                  @ ''   or:        vehicle-sim --connect auto --vehicle <type>'' @ [LF])]))"

end
