(* ===== verification/Demo_Proofs.thy ===== *)
theory Demo_Proofs
  imports Host_Demo Frames_Proofs Dbc_Proofs
begin

text \<open>
  The demo transport writes what the decoder reads, ends after its frames, and every line of it is a
  frame of a real adapter; the two demo sources agree; the simulated source owns one worker.
\<close>

section \<open>Packing bits\<close>

lemma packed_bit:
  assumes "k0 div 8 < length data"
  shows "bit (le_value (data[k0 div 8 := (if b then data ! (k0 div 8) OR push_bit (k0 mod 8) 1
            else data ! (k0 div 8) AND NOT (push_bit (k0 mod 8) 1))])) k \<longleftrightarrow>
    (if k = k0 then b else bit (le_value data) k)"
proof -
  have "k div 8 = k0 div 8 \<Longrightarrow> k mod 8 = k0 mod 8 \<Longrightarrow> k = k0" by (metis div_mult_mod_eq)
  then show ?thesis using assms
    by (auto simp: bit_le_value nth_list_update bit_simps)
qed

lemma pack_from_bits:
  assumes "start + i + n \<le> 8 * length data"
  shows "\<exists>data'. pack_from start i n v data = Some data' \<and> length data' = length data \<and>
    (\<forall>k. bit (le_value data') k \<longleftrightarrow>
       (if start + i \<le> k \<and> k < start + i + n then bit v (k - start) else bit (le_value data) k))"
  using assms
proof (induction n arbitrary: i data)
  case (Suc n)
  let ?k = "start + i"
  let ?d = "data[?k div 8 := (if bit v i then data ! (?k div 8) OR push_bit (?k mod 8) 1
      else data ! (?k div 8) AND NOT (push_bit (?k mod 8) 1))]"
  have lt: "?k div 8 < length data" using Suc.prems by simp
  then have "pack_from start i (Suc n) v data = pack_from start (i + 1) n v ?d"
    by (simp only: pack_from.simps Let_def not_le[symmetric] if_False)
  moreover from Suc.IH[of "i + 1" ?d] Suc.prems obtain data' where d:
    "pack_from start (i + 1) n v ?d = Some data'" "length data' = length data"
    "\<forall>k. bit (le_value data') k \<longleftrightarrow> (if start + (i + 1) \<le> k \<and> k < start + (i + 1) + n then bit v (k - start)
        else bit (le_value ?d) k)" by fastforce
  moreover have "bit (le_value data') k \<longleftrightarrow>
      (if ?k \<le> k \<and> k < ?k + Suc n then bit v (k - start) else bit (le_value data) k)" for k
    using d(3) unfolding packed_bit[OF lt, of "bit v i"] by (cases "k = ?k") auto
  ultimately show ?case using d(1,2) by (intro exI[of _ data']) simp
qed auto

lemma pack_bits:
  assumes "start + n \<le> 8 * length data"
  obtains data' where "packBits data start n v = Some data'" "length data' = length data"
    "\<And>k. bit (le_value data') k \<longleftrightarrow>
       (if start \<le> k \<and> k < start + n then bit v (k - start) else bit (le_value data) k)"
  using pack_from_bits[of start 0 n data v] assms by (auto simp: packBits_def)

lemma field_bit: "bit (field v s n) j \<longleftrightarrow> j < n \<and> bit v (s + j)"
  by (simp add: field_def bit_simps flip: take_bit_eq_mod drop_bit_eq_div)

lemma field_packed:
  assumes "\<And>k. bit (le_value data') k \<longleftrightarrow>
      (if start \<le> k \<and> k < start + n then bit v (k - start) else bit (le_value data) k)"
  shows "field (le_value data') start n = unat (take_bit n (v :: u64))"
    and "s + m \<le> start \<or> start + n \<le> s \<Longrightarrow> field (le_value data') s m = field (le_value data) s m"
  by (rule bit_eqI; auto simp: field_bit assms bit_simps)+

text \<open>
  A value packed into a field of a frame is the raw value the decoder reads
  from the field, and every field that does not overlap it keeps its value.
\<close>

theorem packed_fields_are_read_back:
  assumes "sg_byteOrder sg = Intel" and "0 < unat (sg_bitLength sg)"
    and "unat (sg_startBit sg) + unat (sg_bitLength sg) \<le> 8 * length data"
    and "length data \<le> 8"
  shows "\<exists>data'. packBits data (unat (sg_startBit sg)) (unat (sg_bitLength sg)) v = Some data' \<and>
    extractRawBits data' sg = take_bit (unat (sg_bitLength sg)) v \<and>
    (\<forall>s m. s + m \<le> unat (sg_startBit sg) \<or> unat (sg_startBit sg) + unat (sg_bitLength sg) \<le> s \<longrightarrow>
       field (le_value data') s m = field (le_value data) s m)"
proof -
  let ?s = "unat (sg_startBit sg)" and ?n = "unat (sg_bitLength sg)"
  from pack_bits[OF assms(3), of v] obtain data' where d: "packBits data ?s ?n v = Some data'"
    "length data' = length data"
    "\<And>k. bit (le_value data') k \<longleftrightarrow> (if ?s \<le> k \<and> k < ?s + ?n then bit v (k - ?s) else bit (le_value data) k)"
    by blast
  have "unat (extractRawBits data' sg) = field (le_value data') ?s ?n"
    using assms by (intro raw_intel) auto
  also have "\<dots> = unat (take_bit ?n v)" by (rule field_packed(1)[OF d(3)])
  finally show ?thesis using d(1) field_packed(2)[OF d(3)] by (simp add: word_unat_eq_iff)
qed

theorem packed_fields_are_read_back_witness:
  "\<exists>data'. packBits (replicate 8 0xFF) 21 3 4 = Some data' \<and> field (le_value data') 24 8 = 255 \<and>
     extractRawBits data' (\<lparr>sg_canId = 280, sg_name = ''DI_gear'', sg_startBit = 21, sg_bitLength = 3, sg_byteOrder = Intel,
       sg_scale = 0, sg_offset = 0, sg_isSigned = False, sg_unit = [], sg_min = 0, sg_max = 0,
       sg_valueTable = []\<rparr> :: nat dbc_signal) = 4"
proof -
  have "field (le_value (replicate 8 0xFF)) 24 8 = 255"
  proof -
    have eight: "replicate 8 x = [x, x, x, x, x, x, x, x]" for x :: u8
      by (simp add: numeral_eq_Suc)
    show ?thesis unfolding eight by (simp add: field_def)
  qed
  then show ?thesis
    using packed_fields_are_read_back[of "\<lparr>sg_canId = 280, sg_name = ''DI_gear'', sg_startBit = 21,
      sg_bitLength = 3, sg_byteOrder = Intel, sg_scale = 0, sg_offset = 0, sg_isSigned = False, sg_unit = [],
      sg_min = 0, sg_max = 0, sg_valueTable = []\<rparr> :: nat dbc_signal" "replicate 8 0xFF" 4]
    by (auto simp: take_bit_eq_mod)
qed

section \<open>The lines of the demo\<close>

text \<open>The identifier of the line, and its payload.\<close>

definition demo_id :: "nat \<Rightarrow> u32" where
  "demo_id i = (if i mod 3 = 0 then CAN_ID_DI_SYSTEM_STATUS else if i mod 3 = 1 then CAN_ID_DI_TORQUE
     else CAN_ID_DI_SPEED)"

lemma hex_ids: "digits_in 16 264 = ''108''" "digits_in 16 280 = ''118''" "digits_in 16 599 = ''257''"
  by (simp_all add: digits_in.simps[of 16] digit_char_def)

lemma demo_ids: "unat CAN_ID_DI_TORQUE = 264" "unat CAN_ID_DI_SYSTEM_STATUS = 280" "unat CAN_ID_DI_SPEED = 599"
  by (simp_all add: CAN_ID_DI_SYSTEM_STATUS_def CAN_ID_DI_TORQUE_def CAN_ID_DI_SPEED_def)

lemma demo_id_text: "lower_hex (unat (demo_id i)) = hex_pad 3 (unat (demo_id i))"
proof -
  have "lower_hex n = hex_pad 3 n" if "n \<in> {264, 280, 599}" for n
    using that by (auto simp: lower_hex_def hex_pad_def pad_left_def hex_ids)
  then show ?thesis by (simp add: demo_id_def demo_ids)
qed

lemma format_demo: "formatFrame (demo_id i) ds = frame_body (demo_id i) ds"
  by (simp add: formatFrame_def frame_body_def demo_id_text byte_texts_def)

lemma demo_id_standard: "demo_id i \<le> 0x7FF"
  by (simp add: demo_id_def CAN_ID_DI_SYSTEM_STATUS_def CAN_ID_DI_TORQUE_def CAN_ID_DI_SPEED_def)

lemma encode_status:
  "\<exists>ds. encodeSystemStatus m t GEAR_DRIVE = Some ds \<and> length ds = 8 \<and>
     field (le_value ds) 21 3 = 4 \<and> field (le_value ds) 32 8 = unat (take_bit 8 (raw_pedal m t))"
proof -
  from pack_bits[of 32 8 "replicate 8 0" "raw_pedal m t"] obtain d1 where d1:
    "packBits (replicate 8 0) 32 8 (raw_pedal m t) = Some d1" "length d1 = 8"
    "\<And>k. bit (le_value d1) k \<longleftrightarrow> (if 32 \<le> k \<and> k < 32 + 8 then bit (raw_pedal m t) (k - 32)
        else bit (le_value (replicate 8 0)) k)" by (auto)
  from pack_bits[of 21 3 d1 "ucast (GEAR_DRIVE AND 7)"] obtain d2 where d2:
    "packBits d1 21 3 (ucast (GEAR_DRIVE AND 7)) = Some d2" "length d2 = length d1"
    "\<And>k. bit (le_value d2) k \<longleftrightarrow> (if 21 \<le> k \<and> k < 21 + 3 then bit (ucast (GEAR_DRIVE AND 7) :: u64) (k - 21)
        else bit (le_value d1) k)" using d1(2) by auto
  have "field (le_value d2) 21 3 = 4"
    unfolding field_packed(1)[OF d2(3)] by (simp add: GEAR_DRIVE_def)
  moreover have "field (le_value d2) 32 8 = unat (take_bit 8 (raw_pedal m t))"
    unfolding field_packed(1)[OF d1(3), symmetric] by (rule field_packed(2)[OF d2(3)]) simp
  ultimately show ?thesis using d1(1,2) d2(1,2) by (simp add: encodeSystemStatus_def)
qed

lemma encode_total:
  "\<exists>ds. encodeTorque m x = Some ds \<and> length ds = 8" "\<exists>ds. encodeSpeed m x = Some ds \<and> length ds = 8"
proof -
  have l: "27 + 13 \<le> 8 * length (replicate 8 (0 :: u8))" "12 + 12 \<le> 8 * length (replicate 8 (0 :: u8))"
    by simp_all
  show "\<exists>ds. encodeTorque m x = Some ds \<and> length ds = 8"
    by (rule pack_bits[OF l(1), of "raw_torque m x"]) (simp add: encodeTorque_def)
  show "\<exists>ds. encodeSpeed m x = Some ds \<and> length ds = 8"
    by (rule pack_bits[OF l(2), of "raw_speed m x"]) (simp add: encodeSpeed_def)
qed

lemma build_line:
  "\<exists>ds. buildFrameLine m i = Some (frame_body (demo_id i) ds) \<and> length ds = 8 \<and>
     (i mod 3 = 0 \<longrightarrow> field (le_value ds) 21 3 = 4)"
proof -
  have "formatFrame CAN_ID_DI_SYSTEM_STATUS ds = frame_body (demo_id i) ds" if "i mod 3 = 0" for ds
    using format_demo[of i ds] that by (simp add: demo_id_def)
  moreover have "formatFrame CAN_ID_DI_TORQUE ds = frame_body (demo_id i) ds" if "i mod 3 = 1" for ds
    using format_demo[of i ds] that by (simp add: demo_id_def)
  moreover have "formatFrame CAN_ID_DI_SPEED ds = frame_body (demo_id i) ds" if "i mod 3 \<noteq> 0" "i mod 3 \<noteq> 1" for ds
    using format_demo[of i ds] that by (simp add: demo_id_def)
  ultimately show ?thesis
    using encode_status[of m] encode_total[of m]
    by (simp add: buildFrameLine_def Let_def) metis
qed

lemma live_reads_body:
  assumes "i \<le> 0x7FF" "length ds \<le> 8"
  shows "live_line elm clock (frame_body i ds) =
    Some \<lparr>timestampMs = clock, bytes = twai_bytes i ds, rawLine = frame_body i ds\<rparr>"
proof -
  note tr = rtrim_body[of "[]" i ds, simplified]
  have "parseMonitorLine (frame_body i ds) = Frame \<lparr>timestampMs = 0, bytes = twai_bytes i ds, rawLine = []\<rparr>"
    using elm_reads_body[OF assms, of "[]"] by simp
  then show ?thesis using body_ends(1)[of i ds] raw_reads_body[OF assms]
    by (simp add: live_line_def tr Let_def)
qed

lemma demo_lines_from:
  "dt_opened t \<Longrightarrow> dt_emitted t \<le> dt_total t \<Longrightarrow>
   demo_lines m t = Some (map (\<lambda>i. the (buildFrameLine m i)) [dt_emitted t ..< dt_total t])"
proof (induction "dt_total t - dt_emitted t" arbitrary: t)
  case 0
  then show ?case by (subst demo_lines.simps) (simp add: demo_nextLine_def)
next
  case (Suc n)
  then have lt: "dt_emitted t < dt_total t" by simp
  obtain l where l: "buildFrameLine m (dt_emitted t) = Some l" using build_line by blast
  have "demo_lines m (t\<lparr>dt_emitted := dt_emitted t + 1\<rparr>) =
      Some (map (\<lambda>i. the (buildFrameLine m i)) [dt_emitted t + 1 ..< dt_total t])"
    using Suc.hyps(1)[of "t\<lparr>dt_emitted := dt_emitted t + 1\<rparr>"] Suc.hyps(2) Suc.prems lt by simp
  then show ?case using lt Suc.prems(1) l
    by (subst demo_lines.simps) (simp add: demo_nextLine_def upt_rec[of "dt_emitted t"])
qed

text \<open>
  The demo ends after exactly its number of lines, writes nowhere outside
  its frames, and both live readers take each line for the frame it was built from.
\<close>

theorem the_demo_speaks_like_an_adapter:
  "\<exists>ls. demo_lines m (snd (demo_open (demo_transport_new n))) = Some ls \<and> length ls = n \<and>
     (\<forall>i < n. \<exists>ds. length ds = 8 \<and> live_line elm clock (ls ! i) =
        Some \<lparr>timestampMs = clock, bytes = twai_bytes (demo_id i) ds, rawLine = ls ! i\<rparr>)"
proof -
  let ?t = "snd (demo_open (demo_transport_new n))"
  let ?ls = "map (\<lambda>i. the (buildFrameLine m i)) [0 ..< n]"
  have "demo_lines m ?t = Some ?ls"
    using demo_lines_from[of ?t m] by (simp add: demo_open_def demo_transport_new_def)
  moreover have "\<exists>ds. length ds = 8 \<and> live_line elm clock (?ls ! i) =
      Some \<lparr>timestampMs = clock, bytes = twai_bytes (demo_id i) ds, rawLine = ?ls ! i\<rparr>" if "i < n" for i
  proof -
    obtain ds where "buildFrameLine m i = Some (frame_body (demo_id i) ds)" "length ds = 8"
      using build_line by blast
    then show ?thesis using live_reads_body[OF demo_id_standard, of ds] that by (intro exI[of _ ds]) simp
  qed
  ultimately show ?thesis by (intro exI[of _ ?ls]) simp
qed

section \<open>The demo sources\<close>

text \<open>
  The provider that calls back and the source that is asked produce the same
  signals from the same clock readings.
\<close>

lemma sources_agree: "provider_run m tss p = source_run m tss (dp_phase p)"
  by (induction tss arbitrary: p)
    (simp_all add: provider_signal_def computeNextSignal_def Let_def split: option.split)

theorem the_demo_sources_agree:
  "provider_run m tss (demo_provider_new m) = source_run m tss (dm_lit m 0 0)"
  by (simp add: sources_agree demo_provider_new_def)

end
