(* ===== verification/Run_Proofs.thy ===== *)
theory Run_Proofs
  imports Host_Run Csv_Proofs Demo_Proofs
begin

text \<open>
  What a run with \<open>--stdout-csv\<close> writes to standard output: the log of decoded rows and nothing else,
  as long as the transport is silent.
\<close>

lemma stream_text_append [simp]: "stream_text st (a @ b) = stream_text st a @ stream_text st b"
  by (simp add: stream_text_def)

lemma stream_text_Nil [simp]: "stream_text st [] = []"
  by (simp add: stream_text_def)

lemma stream_text_Cons [simp]: "stream_text st ((s, t) # c) = (if s = st then t else []) @ stream_text st c"
  by (simp add: stream_text_def)

section \<open>The pipe and the log\<close>

text \<open>
  What a run keeps: the pipe has got the rows of the log, and what the transport said. Both sinks
  carry the same vehicle.
\<close>

definition said :: "transport_message list \<Rightarrow> string" where
  "said msgs = stream_text StdoutStream (map std_out msgs)"

lemma said_append: "said (a @ b) = said a @ said b"
  by (simp add: said_def)

lemma call_row: "ts_open t \<Longrightarrow> CsvStdoutSink_call n s t = t\<lparr>ts_text := ts_text t @ csvRowLine n (signal_row (ts_vehicleId t) s) @ [LF]\<rparr>"
  "ts_open t \<Longrightarrow> TraceLogger_call n s t = t\<lparr>ts_text := ts_text t @ csvRowLine n (signal_row (ts_vehicleId t) s) @ [LF]\<rparr>"
  by (simp_all add: CsvStdoutSink_call_def TraceLogger_call_def)

text \<open>The reporters of a run whose rows go to standard output.\<close>

definition piped :: "'d csv_numbers \<Rightarrow> string \<Rightarrow> 'd run_sinks \<Rightarrow> bool" where
  "piped n v k \<longleftrightarrow> (\<exists>c sink. rs_reporters k = [ConsoleReporter StderrStream c, CsvReporter n sink] \<and>
     ts_open sink \<and> ts_vehicleId sink = v)"

lemma play_piped:
  assumes "piped (rn_numbers e) v k" "out \<noteq> DanglingRead"
  shows "piped (rn_numbers e) v (play e t out k)"
    and "stream_text StdoutStream (rs_console (play e t out k)) = stream_text StdoutStream (rs_console k) @
      (case out of OnFrame s i \<Rightarrow> csvRowLine (rn_numbers e) (signal_row v s) @ [LF] | _ \<Rightarrow> [])"
    and "ts_open (rs_csv k) \<Longrightarrow> ts_vehicleId (rs_csv k) = v \<Longrightarrow> rs_csv (play e t out k) = (rs_csv k)\<lparr>ts_text := ts_text (rs_csv k) @
      (case out of Decoded s \<Rightarrow> csvRowLine (rn_numbers e) (signal_row v s) @ [LF] | _ \<Rightarrow> [])\<rparr>"
  using assms
  by (auto simp: piped_def play_def say_def reporter_onFrame_def call_row Let_def composite_onComplete_def
      reporter_onComplete_def DecodedCsvSink_write_def split: replay_out.split)

lemma complete_silent [simp]: "composite_onComplete stats rs = []"
  by (simp add: composite_onComplete_def reporter_onComplete_def)

text \<open>The rows of the pipe and of the log an output makes.\<close>

definition frame_row :: "'d csv_numbers \<Rightarrow> string \<Rightarrow> 'd replay_out \<Rightarrow> string" where
  "frame_row n v out = (case out of OnFrame s i \<Rightarrow> csvRowLine n (signal_row v s) @ [LF] | _ \<Rightarrow> [])"

definition log_row :: "'d csv_numbers \<Rightarrow> string \<Rightarrow> 'd replay_out \<Rightarrow> string" where
  "log_row n v out = (case out of Decoded s \<Rightarrow> csvRowLine n (signal_row v s) @ [LF] | _ \<Rightarrow> [])"

definition csv_ok :: "string \<Rightarrow> text_sink \<Rightarrow> bool" where
  "csv_ok v t \<longleftrightarrow> ts_open t \<and> ts_vehicleId t = v"

lemma fold_play:
  assumes "piped (rn_numbers e) v k" "csv_ok v (rs_csv k)" "DanglingRead \<notin> set outs"
  shows "piped (rn_numbers e) v (fold (play e t) outs k) \<and> csv_ok v (rs_csv (fold (play e t) outs k)) \<and>
    stream_text StdoutStream (rs_console (fold (play e t) outs k)) =
      stream_text StdoutStream (rs_console k) @ concat (map (frame_row (rn_numbers e) v) outs) \<and>
    ts_text (rs_csv (fold (play e t) outs k)) = ts_text (rs_csv k) @ concat (map (log_row (rn_numbers e) v) outs)"
  using assms
proof (induction outs arbitrary: k)
  case (Cons a outs)
  from Cons.prems(3) have a: "a \<noteq> DanglingRead" by auto
  note p = play_piped[OF Cons.prems(1) a, of t]
  have "csv_ok v (rs_csv (play e t a k))" using p(3) Cons.prems(2) by (simp add: csv_ok_def)
  from Cons.IH[OF p(1) this] Cons.prems p(2,3) show ?case
    by (simp add: frame_row_def log_row_def csv_ok_def)
qed simp

text \<open>A dispatched frame is logged and shown, or neither.\<close>

lemma dispatch_rows:
  assumes "dispatchFrame h t ou f s = (ok, s1, out)" "ro_decoded ou" "ro_progress ou"
  shows "concat (map (frame_row n v) (recordRawLine ou f @ out)) = concat (map (log_row n v) (recordRawLine ou f @ out))"
    "ok \<longleftrightarrow> DanglingRead \<notin> set (recordRawLine ou f @ out)"
  using assms
  by (auto simp: dispatchFrame_def recordRawLine_def frame_row_def log_row_def Let_def
      split: prod.splits option.splits)

lemma say_fields [simp]: "rs_console (say c k) = rs_console k @ c" "rs_csv (say c k) = rs_csv k"
  "rs_raw (say c k) = rs_raw k" "rs_reporters (say c k) = rs_reporters k"
  by (simp_all add: say_def)

lemma say_Nil [simp]: "say [] k = k"
  by (simp add: say_def)

lemma piped_say [simp]: "piped n v (say c k) = piped n v k"
  by (simp add: piped_def)

lemma live_loop_rows:
  assumes "live_loop e elm ou ls s k = (True, s1, k1)" "ro_decoded ou" "ro_progress ou"
    and "piped (rn_numbers e) v k" "csv_ok v (rs_csv k)"
  shows "piped (rn_numbers e) v k1 \<and> csv_ok v (rs_csv k1) \<and>
    (\<exists>x y. ts_text (rs_csv k1) = ts_text (rs_csv k) @ x \<and>
       stream_text StdoutStream (rs_console k1) = stream_text StdoutStream (rs_console k) @ y \<and>
       length y = length x + length (said (concat (map fst ls))) \<and>
       (said (concat (map fst ls)) = [] \<longrightarrow> y = x))"
  using assms(1,4,5)
proof (induction ls arbitrary: s k)
  case Nil
  then show ?case by (auto simp: said_def)
next
  case (Cons a ls)
  obtain msgs t l where a: "a = (msgs, t, l)" by (metis prod.exhaust)
  let ?k1 = "say (map std_out msgs) k"
  show ?case
  proof (cases "live_line elm t l")
    case None
    then have "live_loop e elm ou ls s ?k1 = (True, s1, k1)" using Cons.prems(1) by (simp add: a)
    from Cons.IH[OF this] Cons.prems(2,3) obtain x y where
      "piped (rn_numbers e) v k1" "csv_ok v (rs_csv k1)" "ts_text (rs_csv k1) = ts_text (rs_csv k) @ x"
      "stream_text StdoutStream (rs_console k1) = stream_text StdoutStream (rs_console k) @ said msgs @ y"
      "length y = length x + length (said (concat (map fst ls)))" "said (concat (map fst ls)) = [] \<longrightarrow> y = x"
      by (auto simp: said_def)
    then show ?thesis by (auto simp: a said_append intro!: exI[of _ x] exI[of _ "said msgs @ y"])
  next
    case (Some f)
    obtain ok s2 out where d: "dispatchFrame (rn_host e) t ou f (read_line s) = (ok, s2, out)"
      by (metis prod.exhaust)
    let ?o = "recordRawLine ou f @ out"
    let ?k2 = "fold (play e t) ?o ?k1"
    note r = dispatch_rows(1)[OF d assms(2,3), of "rn_numbers e" v] dispatch_rows(2)[OF d assms(2,3)]
    have ok: "ok" using Cons.prems(1) Some d by (auto simp: a Let_def split: if_splits)
    then have "live_loop e elm ou ls s2 ?k2 = (True, s1, k1)" using Cons.prems(1) Some d by (simp add: a Let_def)
    moreover have "DanglingRead \<notin> set ?o" using r(2) ok by simp
    ultimately have l: "live_loop e elm ou ls s2 ?k2 = (True, s1, k1)"
      and f: "piped (rn_numbers e) v ?k2 \<and> csv_ok v (rs_csv ?k2) \<and>
        stream_text StdoutStream (rs_console ?k2) = stream_text StdoutStream (rs_console ?k1) @ concat (map (frame_row (rn_numbers e) v) ?o) \<and>
        ts_text (rs_csv ?k2) = ts_text (rs_csv ?k1) @ concat (map (log_row (rn_numbers e) v) ?o)"
      using fold_play[of e v ?k1 ?o t] Cons.prems(2,3) by (simp_all del: fold_append)
    let ?row = "concat (map (log_row (rn_numbers e) v) ?o)"
    from Cons.IH[OF l] f obtain x y where xy:
      "piped (rn_numbers e) v k1" "csv_ok v (rs_csv k1)" "ts_text (rs_csv k1) = ts_text (rs_csv ?k2) @ x"
      "stream_text StdoutStream (rs_console k1) = stream_text StdoutStream (rs_console ?k2) @ y"
      "length y = length x + length (said (concat (map fst ls)))" "said (concat (map fst ls)) = [] \<longrightarrow> y = x"
      by blast
    have "ts_text (rs_csv k1) = ts_text (rs_csv k) @ (?row @ x)" using xy(3) f by simp
    moreover have "stream_text StdoutStream (rs_console k1) = stream_text StdoutStream (rs_console k) @ (said msgs @ ?row @ y)"
      using xy(4) f r(1) by (simp add: said_def)
    moreover have "length (said msgs @ ?row @ y) = length (?row @ x) + length (said (concat (map fst (a # ls))))"
      using xy(5) by (simp add: a said_append)
    moreover have "said (concat (map fst (a # ls))) = [] \<longrightarrow> said msgs @ ?row @ y = ?row @ x"
      using xy(6) by (simp add: a said_append)
    ultimately show ?thesis using xy(1,2) by blast
  qed
qed

definition messages_of :: "transport_script \<Rightarrow> transport_message list" where
  "messages_of tp = tp_opening tp @ concat (map fst (tp_lines tp)) @ tp_ending tp"

lemma said_nothing: "said msgs = [] \<longleftrightarrow> (\<forall>m\<in>set msgs. \<forall>t. m \<noteq> Says t)"
  by (induction msgs) (auto simp: said_def std_out_def split: transport_message.splits)

text \<open>
  C11. A live run with \<open>--stdout-csv\<close> and a log that ends properly has written to
  standard output exactly what is in the decoded log if, and only if, its transport said nothing:
  every message of a transport goes to standard output, between the rows.
\<close>

theorem the_pipe_carries_the_log:
  assumes "live_run e transports target vehicle proto logBase rawOpens csvOpens True sv0 = (ExitCode 0, k, sv)"
    and "logBase \<noteq> []" and "transports (buildPipelineSource target proto) = Some tp"
  shows "stream_text StdoutStream (rs_console k) = ts_text (rs_csv k) \<longleftrightarrow> (\<forall>m\<in>set (messages_of tp). \<forall>t. m \<noteq> Says t)"
proof -
  obtain r sv1 where r: "resolveVehicle (rn_host e) (rn_ids e) vehicle sv0 = (r, sv1)" by fastforce
  let ?v = "fromUserInput (sv_vehicleId sv1)"
  let ?ou = "\<lparr>ro_decoded = True, ro_raw = True, ro_progress = True\<rparr>"
  let ?k1 = "say (map std_out (tp_opening tp)) sinks_new"
  let ?csv = "\<lparr>ts_open = True, ts_vehicleId = ?v, ts_text = csvHeaderLine @ [LF]\<rparr>"
  let ?k2 = "?k1\<lparr>rs_raw := \<lparr>ts_open = True, ts_vehicleId = [], ts_text = []\<rparr>, rs_csv := ?csv\<rparr>"
  let ?k3 = "say [(StderrStream, ''Streaming '' @ forLog target @ '' ('' @ forLog vehicle @ '')'' @ [LF]),
      (StderrStream, ''Press Ctrl+C to stop'' @ [LF, LF])] ?k2"
  let ?k4 = "add_reporters e True (sv_vehicleId sv1) (sv_vehicleId sv1) ?k3"
  from assms r obtain x where "r = Inr x" and io: "tp_opens tp" "rawOpens" "csvOpens"
    by (auto simp: live_run_def narrative_stream_def open_csv_def TraceLogger_new_def Let_def
        split: sum.splits if_splits prod.splits)
  obtain fin s k5 where l: "live_loop e (proto = ''elm327'') ?ou (tp_lines tp) (sv1, stats_new) ?k4 = (fin, s, k5)"
    by (metis prod.exhaust)
  have run: "fin" "k = say [(StderrStream, LF # stats_text (snd s)), (StderrStream, ''Goodbye!'' @ [LF])]
      (say (composite_onComplete (snd s) (rs_reporters k5)) (say (map std_out (tp_ending tp)) k5))"
    using assms r \<open>r = Inr x\<close> io l
    by (auto simp: live_run_def narrative_stream_def open_csv_def TraceLogger_new_def Let_def split: if_splits)
  have p: "piped (rn_numbers e) ?v ?k4" "csv_ok ?v (rs_csv ?k4)"
    by (simp_all add: piped_def add_reporters_def Let_def composite_add_def createStdoutSink_def narrative_stream_def
        csv_ok_def)
  from live_loop_rows[OF l[unfolded run(1)[THEN eqTrueI]] _ _ p] obtain y z where yz:
    "ts_text (rs_csv k5) = ts_text (rs_csv ?k4) @ y"
    "stream_text StdoutStream (rs_console k5) = stream_text StdoutStream (rs_console ?k4) @ z"
    "length z = length y + length (said (concat (map fst (tp_lines tp))))"
    "said (concat (map fst (tp_lines tp))) = [] \<longrightarrow> z = y"
    by auto
  have "stream_text StdoutStream (rs_console ?k4) = said (tp_opening tp) @ csvHeaderLine @ [LF]"
    by (simp add: add_reporters_def Let_def createStdoutSink_def said_def sinks_new_def)
  moreover have "ts_text (rs_csv ?k4) = csvHeaderLine @ [LF]" by (simp add: add_reporters_def Let_def)
  ultimately have
    "stream_text StdoutStream (rs_console k) = said (tp_opening tp) @ csvHeaderLine @ [LF] @ z @ said (tp_ending tp)"
    "ts_text (rs_csv k) = csvHeaderLine @ [LF] @ y"
    using yz(1,2) run(2) by (simp_all add: said_def)
  note k = this
  have "stream_text StdoutStream (rs_console k) = ts_text (rs_csv k) \<longleftrightarrow> said (messages_of tp) = []"
  proof
    assume "stream_text StdoutStream (rs_console k) = ts_text (rs_csv k)"
    from arg_cong[OF this, of length] show "said (messages_of tp) = []"
      unfolding k by (simp add: yz(3) messages_of_def said_append)
  next
    assume "said (messages_of tp) = []"
    then show "stream_text StdoutStream (rs_console k) = ts_text (rs_csv k)"
      unfolding k using yz(4) by (simp add: messages_of_def said_append)
  qed
  then show ?thesis by (simp add: said_nothing)
qed

definition ex_script :: transport_script where
  "ex_script = \<lparr>tp_opening = [Says ''[CLIENT] connected''], tp_opens = True, tp_lines = [], tp_ending = []\<rparr>"

definition ex_run :: "int run_env" where
  "ex_run = \<lparr>rn_host = \<lparr>he_fp = \<lparr>fp_of_int = id, fp_mul = (*), fp_add = (+), fp_sub = (-), fp_div = (div), fp_less = (<),
       fp_eq = (=)\<rparr>, he_stod = (\<lambda>_. None), he_files = (\<lambda>_. None), he_resolve = id, he_candidates = (\<lambda>_. [])\<rparr>,
     rn_screen = \<lparr>sc_fixed = (\<lambda>_. int_str), sc_fp = \<lparr>fp_of_int = id, fp_mul = (*), fp_add = (+), fp_sub = (-),
       fp_div = (div), fp_less = (<), fp_eq = (=)\<rparr>\<rparr>,
     rn_numbers = \<lparr>cn_stod = (\<lambda>_. None), cn_hundredths = (\<lambda>x. x * 100), cn_zero = 0, cn_u64 = of_int\<rparr>, rn_ids = [''generic'']\<rparr>"

definition ex_service :: "int service" where
  "ex_service = service_new (\<lambda>v. if v = ''generic'' then Some generic else None)"

lemma ex_resolves:
  "resolveVehicle (rn_host ex_run) ids ''generic'' ex_service = (Inr (generic, OBD2),
     ex_service\<lparr>sv_failure := no_failure\<lparr>lf_vehicleId := ''generic''\<rparr>,
       sv_translator := Obd2Translator (obd2_new (he_fp (rn_host ex_run))), sv_protocol := OBD2, sv_loaded := True,
       sv_vehicleId := ''generic''\<rparr>)"
  by (simp add: resolveVehicle_def ex_service_def service_new_def loadVehicle_def load_core_def useCAN_def
      resetFailure_def generic_def Let_def)

theorem the_pipe_carries_the_log_witness:
  "\<exists>k sv. live_run ex_run (\<lambda>_. Some ex_script) ''usb:/dev/ttyUSB0'' ''generic'' ''raw'' ''drive'' True True True ex_service
      = (ExitCode 0, k, sv) \<and> stream_text StdoutStream (rs_console k) \<noteq> ts_text (rs_csv k)"
proof -
  obtain k sv where run: "live_run ex_run (\<lambda>_. Some ex_script) ''usb:/dev/ttyUSB0'' ''generic'' ''raw'' ''drive'' True True True
      ex_service = (ExitCode 0, k, sv)"
    by (simp add: live_run_def ex_resolves ex_script_def open_csv_def TraceLogger_new_def Let_def)
  from the_pipe_carries_the_log[OF run, of ex_script] show ?thesis
    using run by (simp add: messages_of_def ex_script_def)
qed

section \<open>Replays\<close>

lemma paced_rows:
  assumes "runReplayPaced ck h t ou fs sc s = (s1, outs)" "ro_decoded ou" "ro_progress ou"
  shows "concat (map (frame_row n v) (map snd outs)) = concat (map (log_row n v) (map snd outs))"
  using assms(1)
proof (induction fs arbitrary: sc s outs)
  case Nil
  then show ?case by (auto simp: finish_run_def frame_row_def log_row_def split: if_splits)
next
  case (Cons a fs)
  obtain d f where a: "a = (d, f)" by fastforce
  obtain act sc1 where c: "consider_frame ck f (fst sc, ck_pass ck d (snd sc)) = (act, sc1)" by (metis prod.exhaust)
  have raw: "concat (map (frame_row n v) (recordRawLine ou f)) = []" "concat (map (log_row n v) (recordRawLine ou f)) = []"
    by (simp_all add: recordRawLine_def frame_row_def log_row_def)
  show ?case
  proof (cases "act = SkipFrame")
    case True
    obtain s2 rest where r: "runReplayPaced ck h t ou fs sc1
        (fst (read_line s), (snd (read_line s))\<lparr>skippedLines := skippedLines (snd (read_line s)) + 1\<rparr>) = (s2, rest)" by fastforce
    from Cons.prems True c r have o1: "outs = map (Pair (ck_now ck (ck_pass ck d (snd sc)))) (recordRawLine ou f) @ rest"
      "s2 = s1" by (simp_all add: a Let_def)
    from o1(1) have "map snd outs = recordRawLine ou f @ map snd rest" by (simp add: comp_def)
    with Cons.IH[OF r[unfolded o1(2)]] raw show ?thesis by (simp only: map_append concat_append)
  next
    case False
    obtain ok s2 out where o1: "dispatchFrame h t ou f (read_line s) = (ok, s2, out)" by (metis prod.exhaust)
    obtain s3 rest where r: "runReplayPaced ck h t ou fs sc1 s2 = (s3, rest)" by fastforce
    from Cons.prems False c r o1 have "map snd outs = recordRawLine ou f @ out @ (if ok then map snd rest else [])"
      by (auto simp: a Let_def comp_def split: if_splits)
    moreover have "concat (map (frame_row n v) (map snd rest)) = concat (map (log_row n v) (map snd rest))" if ok
      using Cons.IH r Cons.prems False c o1 that by (auto simp: a Let_def)
    ultimately show ?thesis using dispatch_rows(1)[OF o1 assms(2,3), of n v] raw
      by (cases ok) (simp_all del: map_map concat_eq_Nil_conv add: map_map[symmetric])
  qed
qed

text \<open>
  A replay with \<open>--stdout-csv\<close> and a log that ends properly has written to
  standard output what is in the log, after one comment line with the start when a prefix is skipped.
\<close>

theorem a_piped_replay_prints_the_log:
  assumes "replay_run ck e t file delays path vehicle logBase csvOpens True startFrom c sv0 = (ExitCode 0, k, sv)"
    and "logBase \<noteq> []"
  shows "stream_text StdoutStream (rs_console k) =
    (case startFrom of None \<Rightarrow> [] | Some (txt, _) \<Rightarrow> ''#vs-start-from '' @ txt @ [LF]) @ ts_text (rs_csv k)"
proof -
  obtain r sv1 where r: "resolveVehicle (rn_host e) (rn_ids e) vehicle sv0 = (r, sv1)" by fastforce
  let ?v = "fromUserInput (sv_vehicleId sv1)"
  let ?ou = "\<lparr>ro_decoded = True, ro_raw = False, ro_progress = True\<rparr>"
  let ?csv = "\<lparr>ts_open = True, ts_vehicleId = ?v, ts_text = csvHeaderLine @ [LF]\<rparr>"
  let ?hint = "case startFrom of Some (txt, _) \<Rightarrow> [(StdoutStream, ''#vs-start-from '' @ txt @ [LF])] | None \<Rightarrow> []"
  let ?k4 = "add_reporters e True [] (sv_vehicleId sv1) (say ?hint (say [(StderrStream, ''Replaying '' @ forLog path @ [LF])]
      (sinks_new\<lparr>rs_csv := ?csv\<rparr>)))"
  from assms r obtain x content where "r = Inr x" and io: "file = Some content" "csvOpens"
    by (auto simp: replay_run_def open_csv_def TraceLogger_new_def Let_def split: sum.splits option.splits if_splits prod.splits)
  obtain s outs where l: "runReplay ck (rn_host e) t ?ou Paced (map_option snd startFrom)
      (zip delays (capture_frames content)) c sv1 = (s, outs)" by (metis prod.exhaust)
  then obtain outs' where l': "runReplayPaced ck (rn_host e) t ?ou (zip delays (capture_frames content))
      (scheduler_new ck (map_option snd startFrom) c, c) (sv1, stats_new) = (s, outs')" "outs = map (apfst Some) outs'"
    by (auto simp: runReplay_def split: prod.splits)
  have run: "DanglingRead \<notin> set (map snd outs)" "k = say [(StderrStream, stats_text (snd s)),
      (StderrStream, ''Decoded '' @ dec_str (framesDecoded (snd s)) @ '' frames'' @ [LF])] (fold (play e t) (map snd outs) ?k4)"
    using assms r \<open>r = Inr x\<close> io l
    by (auto simp: replay_run_def open_csv_def TraceLogger_new_def narrative_stream_def Let_def
        split: if_splits option.splits)
  have p: "piped (rn_numbers e) ?v ?k4" "csv_ok ?v (rs_csv ?k4)"
    by (simp_all add: piped_def add_reporters_def Let_def composite_add_def createStdoutSink_def narrative_stream_def
        csv_ok_def)
  have "map snd outs = map snd outs'" by (simp add: l'(2))
  then have "concat (map (frame_row (rn_numbers e) ?v) (map snd outs)) = concat (map (log_row (rn_numbers e) ?v) (map snd outs))"
    using paced_rows[OF l'(1)] by simp
  with fold_play[OF p run(1), of t] show ?thesis
    unfolding run(2)
    by (simp add: add_reporters_def Let_def createStdoutSink_def sinks_new_def split: option.split)
qed

theorem a_piped_replay_prints_the_log_witness:
  "\<exists>k sv. replay_run fake_clock ex_run 0 (Some []) [] ''drive.txt'' ''generic'' ''out'' True True
      (Some (''1.500'', 1500)) 0 ex_service = (ExitCode 0, k, sv) \<and>
     stream_text StdoutStream (rs_console k) = ''#vs-start-from '' @ ''1.500'' @ [LF] @ ts_text (rs_csv k)"
proof -
  obtain k sv where run: "replay_run fake_clock ex_run 0 (Some []) [] ''drive.txt'' ''generic'' ''out'' True True
      (Some (''1.500'', 1500)) 0 ex_service = (ExitCode 0, k, sv)"
    by (simp add: replay_run_def ex_resolves open_csv_def TraceLogger_new_def runReplay_def finish_run_def Let_def)
  from a_piped_replay_prints_the_log[OF run] show ?thesis using run by simp
qed

section \<open>Polling\<close>

definition setup_pipeline :: "telemetry_options \<Rightarrow> text_sink \<Rightarrow> 'd telemetry_pipeline \<Rightarrow> 'd telemetry_pipeline" where
  "setup_pipeline op raw p =
     p\<lparr>tl_csv := \<lparr>ts_open = True, ts_vehicleId = fromUserInput [], ts_text = csvHeaderLine @ [LF]\<rparr>, tl_raw := raw,
       tl_pipe := createStdoutSink True [], tl_console := tl_console p @ [(pipe_stream op, csvHeaderLine @ [LF])],
       tl_dispatcher := snd (registerConsumer (Some PipeConsumer) (snd (registerConsumer (Some DisplayConsumer)
         (snd (registerConsumer (Some LogConsumer) dispatcher_new)))))\<rparr>"

lemma setup_dispatch: "dispatch (tl_dispatcher (setup_pipeline op raw p)) = [LogConsumer, DisplayConsumer, PipeConsumer]"
  by (simp add: setup_pipeline_def registerConsumer_def dispatcher_new_def dispatch_def map_filter_simps)

definition polled :: "telemetry_options \<Rightarrow> 'd telemetry_pipeline \<Rightarrow> bool" where
  "polled op p \<longleftrightarrow> dispatch (tl_dispatcher p) = [LogConsumer, DisplayConsumer, PipeConsumer] \<and>
     ts_open (tl_csv p) \<and> ts_open (tl_pipe p) \<and> ts_vehicleId (tl_csv p) = ts_vehicleId (tl_pipe p) \<and>
     stream_text (pipe_stream op) (tl_console p) = ts_text (tl_csv p)"

lemma telemetry_loop_rows:
  assumes "telemetry_loop e op lt passes n p = (n1, p1)" "polled op p" "to_stdoutCsv op"
  shows "polled op p1"
  using assms(1,2)
proof (induction passes arbitrary: lt n p)
  case (Cons a passes)
  obtain now s where a: "a = (now, s)" by fastforce
  let ?p = "p\<lparr>tl_raw := RawTraceLogger_write (of_int now) [0] (tl_raw p)\<rparr>"
  have "polled op (fold (telemetry_consume e op s) [LogConsumer, DisplayConsumer, PipeConsumer] ?p)"
    using Cons.prems(2) assms(3)
    by (simp add: polled_def telemetry_consume_def call_row narrative_stream_def Let_def pipe_stream_def)
  with Cons show ?case by (auto simp: a polled_def Let_def split: if_splits)
qed simp

text \<open>
  A polled run with \<open>--stdout-csv\<close> and a decoded log that ends properly has
  written its log, and nothing else, to the stream of the pipe.
\<close>

theorem a_polled_run_pipes_its_log:
  assumes "telemetry_run e config op csvOpens rawOpens before start passes = (ExitCode 0, p)"
    and "to_stdoutCsv op" and "to_logCsvPath op \<noteq> []"
  shows "stream_text (pipe_stream op) (tl_console p) = ts_text (tl_csv p)"
proof -
  from assms obtain c where c: "config = Some c" by (cases config) (auto simp: telemetry_run_def Let_def)
  let ?p1 = "\<lparr>tl_dispatcher = dispatcher_new, tl_csv = closed_sink, tl_raw = closed_sink, tl_pipe = closed_sink, tl_count = 0,
      tl_console = [(StderrStream, LF # ''Starting '' @ vehicleName c @ '' telemetry'' @ [LF]),
        (StderrStream, ''Press Ctrl+C to stop'' @ [LF, LF]), (StderrStream, printTelemetryHeader c)]\<rparr> :: 'a telemetry_pipeline"
  from assms c obtain p2 where s: "telemetry_setup op csvOpens rawOpens before ?p1 = Inr p2"
    by (auto simp: telemetry_run_def narrative_stream_def Let_def split: sum.splits)
  then obtain raw where "p2 = setup_pipeline op raw ?p1"
    using assms(2,3)
    by (auto simp: telemetry_setup_def setup_pipeline_def TraceLogger_new_def createStdoutSink_def Let_def
        split: option.splits if_splits)
  then have "polled op p2"
    by (simp add: polled_def setup_dispatch) (simp add: setup_pipeline_def createStdoutSink_def pipe_stream_def)
  moreover obtain n p3 where l: "telemetry_loop e op start passes 0 p2 = (n, p3)" by fastforce
  ultimately have "polled op p3" using telemetry_loop_rows assms(2) by blast
  with assms c s l show ?thesis
    by (auto simp: telemetry_run_def narrative_stream_def polled_def pipe_stream_def Let_def split: if_splits)
qed

theorem a_polled_run_pipes_its_log_witness:
  "\<exists>p. telemetry_run ex_run (Some generic) \<lparr>to_logCsvPath = ''a.csv'', to_logRawPath = [], to_pollIntervalMs = 50,
      to_stdoutCsv = True, to_ownStream = False\<rparr> True True [] 0 [(20, no_signal 20), (60, no_signal 60)] = (ExitCode 0, p) \<and>
    stream_text StdoutStream (tl_console p) = ts_text (tl_csv p)"
proof -
  let ?op = "\<lparr>to_logCsvPath = ''a.csv'', to_logRawPath = [], to_pollIntervalMs = 50, to_stdoutCsv = True, to_ownStream = False\<rparr>"
  obtain p where run: "telemetry_run ex_run (Some generic) ?op True True [] 0 [(20, no_signal 20), (60, no_signal 60)]
      = (ExitCode 0, p)"
    by (simp add: telemetry_run_def telemetry_setup_def TraceLogger_new_def Let_def split: prod.split)
  from a_polled_run_pipes_its_log[OF run] show ?thesis using run by (simp add: pipe_stream_def)
qed

end
