(* ===== verification/Spec2Isabelle.thy ===== *)
theory Spec2Isabelle
  imports FW_AtCommands_Proofs FW_Tcp FW_StatusLed FW_Discovery_Proofs Frames_Proofs FW_Ota_Proofs
    Translation_Proofs Cli_Proofs Provision_Proofs Host_Sockets Tcp_Hunt_Proofs Secure_Proofs
    Host_Usb Ota_Push_Proofs FW_App_Proofs FW_LedRenderer Csv_Proofs FW_Sketch_Proofs Ble_Proofs
    Keyboard_Proofs Plumbing_Proofs Run_Proofs
begin

text \<open>
  A model of vehicle-spy: an ESP32 that bridges a vehicle's CAN bus to WiFi and a serial console
  (the firmware, \<open>firmware/vanilla\<close>), and a host program that finds the device, reads its frames
  and decodes them into vehicle signals (the host, \<open>src\<close> and \<open>include/vehicle-sim\<close>).

  \<comment>\<open>How the parts meet.\<close> The firmware joins a network with stored or baked-in credentials
  (WiFiManager), which arrive as AT commands over the serial console or TCP
  (SerialCommandFramer, AtCommandDispatcher, TcpServerManager) and are kept in preferences
  (Prefs, TokenStore). Once connected it announces itself by UDP (DiscoveryManager), admits one
  authenticated TCP client (TcpServerManager) and prints every CAN frame as a text line
  (CanBridge); an LED shows the state (StatusLED), and new firmware is accepted over HTTP
  (OtaUpdateServer); FirmwareApp runs all of them in one loop. The host reads its command line
  (CliOptions, main), provisions a device over the console or the network (ProvisioningRunner),
  finds it by its beacon (UDPDiscovery, DiscoveryPacket), connects to it with the handshake and
  reconnects when the link is lost (TCPTransport, SecureTcpTransport, UsbSerialTransport), or talks
  to an ELM327 adapter (Elm327Session, ELM327Transport) and recognises the vehicle
  (VehicleDetector). It reads the lines or a capture file (LiveTwaiSource, Elm327Normaliser,
  BinaryFileSource), parses a signal database (DBCFileParser) and decodes the frames with it
  (DBCSignalMapper, VehicleSignalFactory, DBCSignalTranslator, DBCTranslationService).

  \<comment>\<open>Theories and sources.\<close>

  \<^item> \<open>VS_Prelude\<close>: machine types, \<open>std::string\<close> operations, number formatting, and the two
    contracts every component instantiates: \<open>step_invariant\<close> (an invariant kept by a step is kept
    by every run) and \<open>codec\<close> (a decoder inverts an encoder).
  \<^item> \<open>FW_Prefs\<close>: the preferences interface as locale \<open>prefs_laws\<close>, extended by \<open>reliable_prefs\<close>,
    with the host mock \<open>MockPreferences\<close> as their interpretation; TokenStore.cpp. The device's own provider
    (ArduinoPreferences.h) is modelled over the library it calls, whose documented behaviour is the locale
    \<open>nvs_laws\<close>, and keeps the same laws (\<open>the_device_store_keeps_the_laws\<close>).
  \<^item> \<open>FW_WiFi\<close>: WiFiManager.cpp, one definition per handler and per static decision. \<open>FW_WiFi_Proofs\<close>:
    the invariant of every reachable context (rule \<open>wifi\<close>, an interpretation of
    \<open>step_invariant\<close>) and the course of an authentication campaign. \<open>FW_WiFi_Recovery\<close>: rejoin
    budget, access-point recovery, credential storage, and how a campaign can be starved.
  \<^item> \<open>FW_AtCommands\<close>: SerialCommandFramer.cpp and AtCommandDispatcher.cpp with the device's own
    callbacks (\<open>device_host\<close>). \<open>FW_AtCommands_Proofs\<close>: framing, replies, restarts, provisioning, and
    \<open>provisioned_device_boots_into_station\<close>, which runs a command through the dispatcher, the
    preferences and the next boot of the WiFi manager.
  \<^item> \<open>FW_Tcp\<close>: TcpServerManager.cpp over ticks (\<open>cycle\<close>), with its authentication and chunking
    theorems. \<open>FW_StatusLed\<close>: StatusLED.cpp, LedPatternPolicy.cpp. \<open>FW_CanBridge\<close>: CanBridge.cpp,
    DeviceTag.cpp, LoopHeartbeat.cpp, with the 32-byte frame buffer of \<open>snprintf\<close>.
  \<^item> \<open>FW_Discovery\<close>, \<open>FW_Discovery_Proofs\<close>: DiscoveryManager.cpp, DiscoveryPolicy.cpp and the host's
    DiscoveryPacket.cpp; the two ends are composed (\<open>discovery_beacon_is_understood\<close>).
  \<^item> \<open>FW_Ota\<close>, \<open>FW_Ota_Proofs\<close>: OtaUpdateServer.cpp as a step per upload event.
  \<^item> \<open>Host_Frames\<close>, \<open>Frames_Proofs\<close>: the three frame readers, composed with the text of \<open>FW_CanBridge\<close>.
  \<^item> \<open>Host_Dbc\<close>, \<open>Dbc_Proofs\<close>: DBCSignalMapper.cpp, CANDecoder.cpp, Gear.h against frames as numbers.
  \<^item> \<open>Host_DbcParser\<close>, \<open>DbcParser_Proofs\<close>: DBCFileParser.cpp against a printer of databases.
  \<^item> \<open>Model3_Database\<close>: the whole file resources/dbc/Model3CAN.dbc, line by line, and what the parser makes of
    it (\<open>model3_parse\<close>), for every \<open>std::stod\<close> that reads decimal numerals (\<open>reads_decimals\<close>).
  \<^item> \<open>Host_Translation\<close>, \<open>Host_Service\<close>, \<open>Translation_Proofs\<close>: configurations, signal factory,
    translators and the translation service; \<open>ISignalTranslator\<close> is the locale
    \<open>signal_translator\<close>, interpreted on both of its implementations.
  \<^item> \<open>Host_Cli\<close>, \<open>Host_Main\<close>, \<open>Cli_Proofs\<close>: CliOptions.cpp (validation, the examples document, help),
    LogSanitizer.cpp, TimeParser.h, CsvReplayPath.cpp, PipelineFactory.cpp; main.cpp as the order of
    its exits and actions.
  \<^item> \<open>Host_Provision\<close>, \<open>Provision_Proofs\<close>: ProvisioningRunner.cpp as a dialogue with a port; the port is
    also played by the firmware of \<open>FW_AtCommands\<close> and \<open>FW_Tcp\<close>.
  \<^item> \<open>Host_Sockets\<close>, \<open>Host_Discovery\<close>: the connect and send loops of PosixSocket.cpp over the answers of
    the system calls; UDPDiscovery.cpp, DiscoveryVerifier.cpp and DiscoveredDevice.h.
  \<^item> \<open>Host_Detector\<close>, \<open>Detector_Proofs\<close>: VehicleDetector.cpp over every history of what it is fed.
  \<^item> \<open>Host_Elm327\<close>, \<open>Elm327_Proofs\<close>: ELM327Transport.cpp, OBD2Protocol.cpp, Elm327Session.cpp and the
    response assembly of OBD2Transport.cpp; the notifications of a wait are its argument.
  \<^item> \<open>Host_Tcp\<close>: TcpReader.cpp and TCPTransport.cpp over a script of what the socket answers.
    \<open>Tcp_Proofs\<close>: lines, handshake, authentication. \<open>Tcp_Hunt_Proofs\<close>: the hunt after a lost link.
  \<^item> \<open>Host_Secure\<close>, \<open>Secure_Proofs\<close>: SecureTcpTransport.cpp; the cryptography is a parameter (\<open>crypto\<close>).
    \<open>Host_Usb\<close>: opening and reading a serial port. \<open>Host_Ota\<close>, \<open>Ota_Push_Proofs\<close>:
    OTAHttpTransport.cpp, composed with the update server of \<open>FW_Ota\<close>.
  \<^item> \<open>FW_App\<close>, \<open>FW_App_Proofs\<close>: FirmwareApp.cpp, WifiTransitionObserver.h, NtpTimeSync.cpp, which put
    the managers together. \<open>FW_LedRenderer\<close>: StatusLEDRenderer.cpp, the picture of a pattern.
  \<^item> \<open>FW_Sketch\<close>, \<open>FW_Sketch_Proofs\<close>: the whole device, can-bridge.ino with ota_update.ino,
    FactoryReset.cpp, FactoryResetCheck.cpp, CanDriver.cpp and TcpServerRestartPolicy.cpp: its start
    (\<open>sketch_setup\<close>), a turn of its loop (\<open>sketch_loop\<close>) and its runs. What a part of the
    application keeps through a turn is the locale \<open>app_part\<close>, an invariant with its log
    \<open>app_invariant\<close>; both are interpreted on the parts the theorems speak of. \<open>checked_setup\<close>, \<open>checked_step\<close> and
    \<open>checked_run\<close> are the same start and runs with the assertions of FirmwareApp on its parts.
  \<^item> \<open>Host_Replay\<close>, \<open>Replay_Proofs\<close>: clocks, PacedFrameScheduler.cpp, ReplayPacing.cpp,
    CsvReplayPacer.cpp and the loops of PipelineReplay.cpp; what the pacing needs of a clock is the locale
    \<open>pacing_clock\<close> (extended by \<open>punctual_clock\<close>), interpreted on the clock of the tests and the system's.
    \<open>Host_Csv\<close>, \<open>Csv_Proofs\<close>: the decoded and raw logs, their reader and their replay.
  \<^item> \<open>Host_Ble\<close>, \<open>Ble_Proofs\<close>: TeslaBLETransport.cpp, DeviceRegistry.cpp, BLEConnectionManager.cpp and
    BLERunContext.cpp over what the platform answers. Scanners that are fed in pieces share the
    locale \<open>framed_stream\<close>, interpreted on the packets of this transport and on the responses of
    OBD2Transport.cpp.
  \<^item> \<open>Host_Demo\<close>, \<open>Demo_Proofs\<close>: DemoTransport.cpp, DemoSignalProvider.cpp, DemoSignalSource.cpp, VehicleSim.cpp
    and SimulationSignalSource.cpp, with the arithmetic they use as the record \<open>demo_math\<close>.
  \<^item> \<open>Host_Keyboard\<close>, \<open>Keyboard_Proofs\<close>: the interactive mode (CsvKeyActionTarget.cpp, SteeringFilterKeyboard.cpp,
    KeyboardInput.cpp, InteractiveCsvTelemetrySource.cpp, InteractiveRunContext.cpp); the bridge that maps
    keys to actions, a submodule, is a parameter: any machine that reads keys and calls actions.
  \<^item> \<open>Host_Plumbing\<close>, \<open>Plumbing_Proofs\<close>: ExecutablePath.cpp, EventDispatcher.cpp, StopToken.h and
    SignalStopBroker.cpp, ITransportOutput.cpp, TcpSignalSource.cpp, BLESignalSource.cpp, TelemetrySignal.cpp.
  \<^item> \<open>Host_Screen\<close>, \<open>Host_Run\<close>, \<open>Run_Proofs\<close>: what is shown of signals (VehicleSignalFormatter.cpp and the
    reporters), and the runs over decoded frames (LiveRunContext.cpp, ReplayRunContext.cpp,
    TelemetryRunner.cpp) with everything they write to the two streams of the process. This theory
    composes the live run with the demo, the readers and the decoder
    (\<open>a_demo_run_prints_a_drive_in_d\<close>).

  \<comment>\<open>Conventions.\<close> Operations are functions from a state (a record with the members of the class)
  to the new state and the calls they make, in order; \<open>uint32_t\<close> times are 32-bit words, so
  differences wrap as in C. What a library answers during one call is an argument; what it must
  satisfy, where a theorem needs anything of it, is a hypothesis (\<open>prefs_laws\<close>, \<open>number_text\<close>,
  \<open>reads_decimals\<close>, the reading of an image in \<open>reads_image\<close>). A text kept in the preferences is a C string, so
  their laws speak of texts without a NUL. Errors and undefined behaviour are values: \<open>None\<close> for a
  write or read outside a buffer, an undefined shift or a dangling pointer.

  \<comment>\<open>Termination.\<close> Most loops run over the bytes, lines, frames or fields they are given; the chunk loop
  of the update server, the line loops of the TCP server and of the capture reader, the
  tokenisers and the value-table loop recurse on what is left and are proved to terminate. The
  loops of the host that wait for a socket consume the script of its answers, which is finite, so
  that a loop that would wait for ever ends with its script; where a theorem says that such a
  loop ends by itself (\<open>a_fruitless_hunt_is_bounded\<close>) it counts the answers that are enough.

  \<comment>\<open>What the theorems show.\<close> Per component: the invariant of its state over every history; what each
  operation does on every branch; and, for each pair of ends, that what one writes the other
  reads. Some theorems state behaviour that the comments of the sources do not intend: a campaign
  that never ends, a half-written credential store, a lost carriage return, a stale translator,
  signals entered into the wrong message. They are named after what happens.

  \<comment>\<open>Not modelled.\<close> The Arduino adapters other than the preferences, the system calls and threads themselves (a call answers what its
  argument says; concurrent parts take turns), the platform Bluetooth stacks, the key bridge (a
  submodule), the iOS application, and floating-point arithmetic and its printing (parameters,
  \<open>fp_ops\<close>, \<open>demo_math\<close>, \<open>screen\<close>, \<open>csv_numbers\<close>). A frame of the interactive mode and the loops that
  read a transport may go on for ever: the first is a partial function, the others run over what
  they are given.
\<close>

section \<open>From the bus to the gear\<close>

lemma le_value_zeros: "le_value (ds @ replicate k 0) = le_value ds"
  by (induction ds) (induction k, simp_all)

lemma device_id: "extractCANId (twai_bytes i ds) = ucast i"
proof -
  have "extractCANId (twai_bytes i ds) = ucast (ucast i :: u8) OR push_bit 8 (ucast (ucast (drop_bit 8 i) :: u8))"
    by (simp add: extractCANId_def twai_bytes_def)
  also have "\<dots> = (ucast i :: u16)"
    by (rule bit_eqI) (auto simp: bit_simps)
  finally show ?thesis .
qed

lemma device_payload:
  "length ds \<le> 8 \<Longrightarrow> payload (twai_bytes i ds) = ds @ replicate (8 - length ds) 0"
  by (simp add: payload_def twai_bytes_def)

lemma device_valid: "length ds \<le> 8 \<Longrightarrow> isValidPacket (twai_bytes i ds)"
  by (simp add: isValidPacket_def twai_bytes_def CAN_FRAME_SIZE_def)

text \<open>The shipped database as the host has it in memory.\<close>

abbreviation shipped_db :: "(string \<Rightarrow> 'd option) \<Rightarrow> 'd \<Rightarrow> 'd dbc_db" where
  "shipped_db stod z \<equiv> parseString stod z (text_of model3_dbc)"

lemma shipped_build:
  assumes "reads_decimals stod" and "\<forall>i fr. frames i = Some fr \<longrightarrow> length fr = 8"
  shows "build d True (shipped_db stod z) (resolveMappings teslaModel3 (shipped_db stod z)) frames ts =
    Some (model3_signal d (the \<circ> stod) frames ts)"
  unfolding model3_parse[OF assms(1)] by (rule model3_builds[OF assms(2)])

lemma model3_signal_gear:
  "frames 280 = Some fr \<Longrightarrow> gearSelector (model3_signal d num frames ts) = gear_of_code (field (le_value fr) 21 3)"
  "timestampUtcMs (model3_signal d num frames ts) = ts"
  by (simp_all add: model3_signal_def Let_def)

lemma shipped_frames:
  "tr = translate_run d db es (dbc_translator_new c db) \<Longrightarrow> accumulatedFrames tr i = Some fr \<Longrightarrow> length fr = 8"
  by (auto simp: run_latest dbc_translator_new_def dest: latest_length)

text \<open>
  C1. End to end: the device prints a frame of the gear message, the host reads
  the line on either live path, and the translator of the shipped configuration and of the whole
  shipped database file, whatever frames it was given before, reports the gear that bits 21 to 23
  of the bytes on the bus encode, at the time the line was read. Of \<open>std::stod\<close> it is asked only
  that it reads decimal numerals.
\<close>

theorem gear_from_bus_to_signal:
  assumes "reads_decimals stod" and "can_id msg = 0x118"
  shows "\<exists>f sig. live_line elm clock (frame_text msg) = Some f \<and>
    fst (dbc_translate d True (shipped_db stod z) now (bytes f) (Some (timestampMs f))
      (translate_run d (shipped_db stod z) es (dbc_translator_new teslaModel3 (shipped_db stod z)))) = Some (Some sig) \<and>
    timestampUtcMs sig = clock \<and>
    gearSelector sig = gear_of_code (field (le_value (sent_data msg)) 21 3)"
proof -
  let ?f = "\<lparr>timestampMs = clock, bytes = twai_bytes (can_id msg) (sent_data msg), rawLine = frame_text msg\<rparr>"
  let ?db = "shipped_db stod z"
  let ?tr = "translate_run d ?db es (dbc_translator_new teslaModel3 ?db)"
  let ?pl = "sent_data msg @ replicate (8 - length (sent_data msg)) 0"
  have live: "live_line elm clock (frame_text msg) = Some ?f"
    by (rule live_reads_device_line) (simp add: assms)
  have id: "extractCANId (bytes ?f) = 280" by (simp add: device_id assms)
  have res: "tr_resolved ?tr = resolveMappings teslaModel3 ?db"
    by (simp add: run_resolved dbc_translator_new_def)
  let ?frames = "(accumulatedFrames ?tr)(280 \<mapsto> ?pl)"
  have b: "build d True ?db (resolveMappings teslaModel3 ?db) ?frames clock = Some (model3_signal d (the \<circ> stod) ?frames clock)"
    by (rule shipped_build[OF assms(1)]) (use shipped_frames[OF refl] sent_data_le[of msg] in auto)
  have "fst (dbc_translate d True ?db now (bytes ?f) (Some (timestampMs ?f)) ?tr) =
      Some (Some (model3_signal d (the \<circ> stod) ?frames clock))"
    using device_payload[OF sent_data_le, of "can_id msg"] device_valid[OF sent_data_le, of "can_id msg" msg] id b res
    by (simp add: dbc_translate_def payload_def Let_def CAN_FRAME_SIZE_def CAN_DATA_OFFSET_def)
  then show ?thesis using live by (auto simp: le_value_zeros model3_signal_gear)
qed

theorem gear_from_bus_to_signal_witness:
  "\<exists>f sig. live_line True 99 (frame_text \<lparr>can_id = 0x118, data_length_code = 8, can_data = [0,0,0x20,0,0,0,0,0]\<rparr>) = Some f \<and>
    fst (dbc_translate ex_strfp True (shipped_db Some []) 0 (bytes f) (Some (timestampMs f))
      (translate_run ex_strfp (shipped_db Some []) [] (dbc_translator_new teslaModel3 (shipped_db Some [])))) = Some (Some sig) \<and>
    timestampUtcMs sig = 99 \<and>
    gearSelector sig = gear_of_code (field (le_value (sent_data
      \<lparr>can_id = 0x118, data_length_code = 8, can_data = [0,0,0x20,0,0,0,0,0]\<rparr>)) 21 3)"
  by (rule gear_from_bus_to_signal) (simp_all add: reads_decimals_def)

section \<open>The demo drive\<close>

definition frames_in_drive :: "frame_map \<Rightarrow> bool" where
  "frames_in_drive frames \<longleftrightarrow> (\<exists>fr. frames 280 = Some fr \<and> field (le_value fr) 21 3 = 4)"

text \<open>The translator's input for the lines of the demo, read at the times \<open>clk\<close>.\<close>

definition demo_input :: "bool \<Rightarrow> (nat \<Rightarrow> u64) \<Rightarrow> string list \<Rightarrow> nat \<Rightarrow> u64 \<times> u8 list \<times> u64 option" where
  "demo_input elm clk ls j = (0, bytes (the (live_line elm (clk j) (ls ! j))), Some (clk j))"

lemma demo_frame:
  assumes "demo_lines m (snd (demo_open (demo_transport_new n))) = Some ls" "j < n"
  shows "\<exists>ds. length ds = 8 \<and> (j mod 3 = 0 \<longrightarrow> field (le_value ds) 21 3 = 4) \<and> (\<forall>elm c. live_line elm c (ls ! j) =
      Some \<lparr>timestampMs = c, bytes = twai_bytes (demo_id j) ds, rawLine = ls ! j\<rparr>)"
proof -
  have "ls = map (\<lambda>i. the (buildFrameLine m i)) [0 ..< n]"
    using assms(1) demo_lines_from[of "snd (demo_open (demo_transport_new n))" m]
    by (simp add: demo_open_def demo_transport_new_def)
  moreover obtain ds where ds: "buildFrameLine m j = Some (frame_body (demo_id j) ds)" "length ds = 8"
    "j mod 3 = 0 \<longrightarrow> field (le_value ds) 21 3 = 4"
    using build_line[of m j] by (elim exE conjE) (rule that)
  ultimately have l: "ls ! j = frame_body (demo_id j) ds" using assms(2) by simp
  have "length ds \<le> 8" using ds(2) by simp
  from live_reads_body[OF demo_id_standard this] have
    "live_line elm c (ls ! j) = Some \<lparr>timestampMs = c, bytes = twai_bytes (demo_id j) ds, rawLine = ls ! j\<rparr>" for elm c
    unfolding l by blast
  with ds(2,3) show ?thesis by (intro exI[of _ ds] conjI allI)
qed

lemma demo_can_id: "extractCANId (twai_bytes (demo_id j) ds) = 280 \<longleftrightarrow> j mod 3 = 0"
  by (simp add: device_id demo_id_def CAN_ID_DI_SYSTEM_STATUS_def CAN_ID_DI_TORQUE_def CAN_ID_DI_SPEED_def)

lemma demo_step:
  assumes "demo_lines m (snd (demo_open (demo_transport_new n))) = Some ls" "i < n"
    and "i = 0 \<or> frames_in_drive (accumulatedFrames tr)"
  shows "frames_in_drive (accumulatedFrames (snd (dbc_translate d flag db ch
      (bytes (the (live_line elm c (ls ! i)))) t tr)))"
proof -
  from demo_frame[OF assms(1,2)] obtain ds where ds: "length ds = 8"
    "i mod 3 = 0 \<longrightarrow> field (le_value ds) 21 3 = 4"
    "live_line elm c (ls ! i) = Some \<lparr>timestampMs = c, bytes = twai_bytes (demo_id i) ds, rawLine = ls ! i\<rparr>"
    by (elim exE conjE) (rule that, auto)
  have p: "payload (twai_bytes (demo_id i) ds) = ds" using device_payload[of ds "demo_id i"] ds(1) by simp
  have v: "isValidPacket (twai_bytes (demo_id i) ds)" using ds(1) by (intro device_valid) simp
  have "accumulatedFrames (snd (dbc_translate d flag db ch (twai_bytes (demo_id i) ds) t tr)) =
      (accumulatedFrames tr)(extractCANId (twai_bytes (demo_id i) ds) \<mapsto> ds)"
    using v p by (simp add: translate_fields)
  then show ?thesis
    using ds(2,3) demo_can_id[of i ds] assms(3) by (cases "i mod 3 = 0") (auto simp: frames_in_drive_def)
qed

lemma demo_accumulates:
  assumes "demo_lines m (snd (demo_open (demo_transport_new n))) = Some ls" "i \<le> n" "i \<noteq> 0"
  shows "frames_in_drive (accumulatedFrames (translate_run d db (map (demo_input elm clk ls) [0 ..< i]) tr))"
  using assms(2,3)
proof (induction i)
  case (Suc i)
  then have "i = 0 \<or> frames_in_drive (accumulatedFrames (translate_run d db (map (demo_input elm clk ls) [0 ..< i]) tr))"
    by (cases "i = 0") simp_all
  from demo_step[OF assms(1) _ this] Suc.prems(1) show ?case
    by (simp add: run_append demo_input_def[abs_def])
qed simp

text \<open>Every line of the demo decodes to a signal in gear D at the time it was read.\<close>

lemma the_demo_drives_in_gear_d:
  assumes "reads_decimals stod" and "demo_lines m (snd (demo_open (demo_transport_new n))) = Some ls" and "i < n"
  shows "\<exists>sig. fst (dbc_translate d True (shipped_db stod z) 0 (bytes (the (live_line elm (clk i) (ls ! i)))) (Some (clk i))
        (translate_run d (shipped_db stod z) (map (demo_input elm clk ls) [0 ..< i])
          (dbc_translator_new teslaModel3 (shipped_db stod z))))
      = Some (Some sig) \<and> gearSelector sig = Some AUTO_1 \<and> timestampUtcMs sig = clk i"
proof -
  let ?db = "shipped_db stod z"
  let ?tr = "translate_run d ?db (map (demo_input elm clk ls) [0 ..< i]) (dbc_translator_new teslaModel3 ?db)"
  from demo_frame[OF assms(2,3)] obtain ds where ds: "length ds = 8"
    "live_line elm (clk i) (ls ! i) = Some \<lparr>timestampMs = clk i, bytes = twai_bytes (demo_id i) ds, rawLine = ls ! i\<rparr>"
    by (elim exE conjE) (rule that, auto)
  let ?raw = "twai_bytes (demo_id i) ds"
  let ?frames = "(accumulatedFrames ?tr)(extractCANId ?raw \<mapsto> payload ?raw)"
  have v: "isValidPacket ?raw" using ds(1) by (intro device_valid) simp
  have p: "payload ?raw = ds" using device_payload[of ds "demo_id i"] ds(1) by simp
  have "i = 0 \<or> frames_in_drive (accumulatedFrames ?tr)"
    using demo_accumulates[OF assms(2) less_imp_le[OF assms(3)]] by blast
  from demo_step[OF assms(2,3) this, of d True ?db 0 elm "clk i" "Some (clk i)"]
  obtain fr where fr: "?frames 280 = Some fr" "field (le_value fr) 21 3 = 4"
    using v ds(2) by (auto simp: frames_in_drive_def translate_fields)
  have res: "tr_resolved ?tr = resolveMappings teslaModel3 ?db"
    by (simp add: run_resolved dbc_translator_new_def)
  have b: "build d True ?db (resolveMappings teslaModel3 ?db) ?frames (clk i) = Some (model3_signal d (the \<circ> stod) ?frames (clk i))"
    by (rule shipped_build[OF assms(1)]) (use shipped_frames[OF refl] p ds(1) in auto)
  have "gearSelector (model3_signal d (the \<circ> stod) ?frames (clk i)) = Some AUTO_1"
    using model3_signal_gear(1)[of ?frames, OF fr(1)] fr(2) by (simp add: gear_of_code_def)
  then show ?thesis
    using v res ds(2) b by (auto simp: dbc_translate_def payload_def Let_def CAN_FRAME_SIZE_def
        CAN_DATA_OFFSET_def model3_signal_gear(2))
qed

definition ex_math :: "string demo_math" where
  "ex_math = \<lparr>dm_fp = ex_strfp, dm_lit = (\<lambda>_ _. []), dm_sin = id, dm_fmod = (\<lambda>a b. a), dm_abs = id, dm_pi = [],
     dm_round = id, dm_lround = (\<lambda>_. 0), dm_u64 = (\<lambda>_. 0), dm_int = (\<lambda>_. 0), dm_text = id\<rparr>"

section \<open>The demo run\<close>

lemma translate_clock: "dbc_translate d alive db c1 raw (Some t) tr = dbc_translate d alive db c2 raw (Some t) tr"
  by (simp add: dbc_translate_def)

text \<open>The service in the middle of a demo: its translator has seen the first lines.\<close>

abbreviation host_db :: "'d host_env \<Rightarrow> 'd dbc_db" where
  "host_db h \<equiv> shipped_db (he_stod h) (fp_of_int (he_fp h) 0)"

definition demo_tr :: "'d host_env \<Rightarrow> (nat \<Rightarrow> u64) \<Rightarrow> string list \<Rightarrow> nat \<Rightarrow> 'd dbc_translator" where
  "demo_tr h clk ls i = translate_run (he_fp h) (host_db h) (map (demo_input False clk ls) [0 ..< i])
     (dbc_translator_new teslaModel3 (host_db h))"

definition demo_sig :: "'d host_env \<Rightarrow> (nat \<Rightarrow> u64) \<Rightarrow> string list \<Rightarrow> nat \<Rightarrow> 'd VehicleSignal" where
  "demo_sig h clk ls i = the (the (fst (dbc_translate (he_fp h) True (host_db h) 0
     (bytes (the (live_line False (clk i) (ls ! i)))) (Some (clk i)) (demo_tr h clk ls i))))"

lemma demo_tr_Suc: "demo_tr h clk ls (Suc i) = snd (dbc_translate (he_fp h) True (host_db h) 0
    (bytes (the (live_line False (clk i) (ls ! i)))) (Some (clk i)) (demo_tr h clk ls i))"
  by (simp add: demo_tr_def run_append demo_input_def)

lemma demo_sig_gear:
  assumes "reads_decimals (he_stod h)" and "demo_lines m (snd (demo_open (demo_transport_new n))) = Some ls" and "i < n"
  shows "gearSelector (demo_sig h clk ls i) = Some AUTO_1" "timestampUtcMs (demo_sig h clk ls i) = clk i"
    "fst (dbc_translate (he_fp h) True (host_db h) 0 (bytes (the (live_line False (clk i) (ls ! i)))) (Some (clk i))
        (demo_tr h clk ls i)) = Some (Some (demo_sig h clk ls i))"
  using the_demo_drives_in_gear_d[OF assms, of "he_fp h" "fp_of_int (he_fp h) 0" False clk]
  by (auto simp: demo_sig_def demo_tr_def)

definition demo_service :: "'d service \<Rightarrow> 'd host_env \<Rightarrow> (nat \<Rightarrow> u64) \<Rightarrow> string list \<Rightarrow> nat \<Rightarrow> 'd service" where
  "demo_service sv h clk ls i = sv\<lparr>sv_translator := DbcTranslator (sv_gen sv) (demo_tr h clk ls i)\<rparr>"

lemma demo_dispatch:
  assumes "reads_decimals (he_stod h)" "demo_lines m (snd (demo_open (demo_transport_new n))) = Some ls" "i < n" "sv_db sv = host_db h" "sv_loaded sv"
    and "live_line False (clk i) (ls ! i) = Some f"
  shows "dispatchFrame h (clk i) \<lparr>ro_decoded = False, ro_raw = False, ro_progress = True\<rparr> f
      (read_line (demo_service sv h clk ls i, st)) =
    (True, (demo_service sv h clk ls (Suc i), st\<lparr>linesRead := linesRead st + 1, framesDecoded := framesDecoded st + 1\<rparr>),
      [OnFrame (demo_sig h clk ls i) (framesDecoded st)])"
proof -
  from demo_frame[OF assms(2,3)] assms(6) have ts: "timestampMs f = clk i" by auto
  note d = translate_clock[of "he_fp h" True "host_db h" "clk i" "bytes f" "clk i" "demo_tr h clk ls i" 0]
  have p: "processFrame h (clk i) (bytes f) (Some (timestampMs f)) (demo_service sv h clk ls i) =
      (Some (Some (demo_sig h clk ls i)), demo_service sv h clk ls (Suc i))"
    using demo_sig_gear(3)[OF assms(1-3), of clk] assms(4-6)
    by (cases "dbc_translate (he_fp h) True (host_db h) 0 (bytes f) (Some (clk i)) (demo_tr h clk ls i)")
      (simp add: processFrame_def demo_service_def ts d demo_tr_Suc)
  show ?thesis by (simp add: dispatchFrame_def read_line_def p)
qed

lemma demo_loop:
  assumes "reads_decimals (he_stod (rn_host e))" "demo_lines m (snd (demo_open (demo_transport_new n))) = Some ls" "length ls = n" "i \<le> n"
    and "sv_db sv = host_db (rn_host e)" "sv_loaded sv" "piped (rn_numbers e) v k"
  shows "\<exists>st1 k1. live_loop e False \<lparr>ro_decoded = False, ro_raw = False, ro_progress = True\<rparr>
      (map (\<lambda>(i, l). ([], clk i, l)) (zip [i ..< n] (drop i ls))) (demo_service sv (rn_host e) clk ls i, st) k
      = (True, (demo_service sv (rn_host e) clk ls n, st1), k1) \<and>
    stream_text StdoutStream (rs_console k1) = stream_text StdoutStream (rs_console k) @
      concat (map (\<lambda>j. csvRowLine (rn_numbers e) (signal_row v (demo_sig (rn_host e) clk ls j)) @ [LF]) [i ..< n])"
  using assms(4,7)
proof (induction "n - i" arbitrary: i st k)
  case 0
  then show ?case using assms(3) by simp
next
  case (Suc x)
  then have lt: "i < n" by simp
  from demo_frame[OF assms(2) lt] obtain f where f: "live_line False (clk i) (ls ! i) = Some f" by blast
  note d = demo_dispatch[of "rn_host e" m n ls i sv clk f, OF assms(1,2) lt assms(5,6) f, of st]
  let ?out = "OnFrame (demo_sig (rn_host e) clk ls i) (framesDecoded st) "
  note pl = play_piped[OF Suc.prems(2), of ?out "clk i", simplified]
  let ?st = "st\<lparr>linesRead := linesRead st + 1, framesDecoded := framesDecoded st + 1\<rparr>"
  have "x = n - Suc i" "Suc i \<le> n" using Suc.hyps(2) lt by simp_all
  from Suc.hyps(1)[OF this pl(1), of ?st] obtain st1 k1 where
    r: "live_loop e False \<lparr>ro_decoded = False, ro_raw = False, ro_progress = True\<rparr>
      (map (\<lambda>(i, l). ([], clk i, l)) (zip [Suc i ..< n] (drop (Suc i) ls)))
      (demo_service sv (rn_host e) clk ls (Suc i), ?st)
      (play e (clk i) ?out k) = (True, (demo_service sv (rn_host e) clk ls n, st1), k1)"
    "stream_text StdoutStream (rs_console k1) = stream_text StdoutStream (rs_console (play e (clk i) ?out k)) @
      concat (map (\<lambda>j. csvRowLine (rn_numbers e) (signal_row v (demo_sig (rn_host e) clk ls j)) @ [LF]) [Suc i ..< n])"
    by (elim exE conjE) (rule that)
  have "drop i ls = ls ! i # drop (Suc i) ls" "[i ..< n] = i # [Suc i ..< n]"
    using lt assms(3) by (simp_all add: Cons_nth_drop_Suc upt_conv_Cons)
  then show ?case
    using r d f pl by (intro exI[of _ st1] exI[of _ k1]) (simp add: recordRawLine_def Let_def)
qed

lemma demo_resolves:
  assumes "sv_registry sv0 vehicle = Some teslaModel3" "reads_decimals (he_stod h)"
    and "he_files h (he_resolve h (he_resolve h (dbcFilePath teslaModel3))) = Some (text_of model3_dbc)"
  shows "\<exists>sv. resolveVehicle h ids vehicle sv0 = (Inr (teslaModel3, CAN), demo_service sv h clk ls 0) \<and>
    sv_db sv = host_db h \<and> sv_loaded sv \<and> sv_vehicleId sv = vehicle"
proof -
  have can: "isCANProtocol teslaModel3" by (simp add: teslaModel3_def)
  have db: "parseFile (he_stod h) (fp_of_int (he_fp h) 0) (he_files h) (he_resolve h)
      (he_resolve h (dbcFilePath teslaModel3)) = host_db h"
    unfolding parseFile_def assms(3) by simp
  have ne: "host_db h \<noteq> []" unfolding model3_parse[OF assms(2)] by (rule model3_nonempty)
  let ?s = "(resetFailure vehicle sv0)\<lparr>sv_db := host_db h, sv_gen := sv_gen sv0 + 1\<rparr>"
  let ?sv = "?s\<lparr>sv_translator := DbcTranslator (sv_gen ?s) (dbc_translator_new teslaModel3 (host_db h)), sv_protocol := CAN,
      sv_loaded := True, sv_vehicleId := vehicle\<rparr>"
  have "resolveVehicle h ids vehicle sv0 = (Inr (teslaModel3, CAN), ?sv)"
    using assms(1) can ne
    by (simp add: resolveVehicle_def loadVehicle_def load_core_def db useCAN_def Let_def resetFailure_def)
  moreover have "demo_service ?sv h clk ls 0 = ?sv"
    by (simp add: demo_service_def demo_tr_def)
  ultimately show ?thesis by (intro exI[of _ ?sv]) (simp add: resetFailure_def)
qed

text \<open>
  C4. The whole program on the demo: with the shipped configuration and
  the shipped database file, all of it, \<open>--connect demo --stdout-csv\<close> ends properly and prints the
  header and one row for each frame, every row in gear D with the time its line was read, whatever
  the floating-point arithmetic computes and whatever numbers \<open>std::stod\<close> reads the decimal
  numerals of the file as.
\<close>

theorem a_demo_run_prints_a_drive_in_d:
  assumes "sv_registry sv0 vehicle = Some teslaModel3" and "reads_decimals (he_stod (rn_host e))"
    and "he_files (rn_host e) (he_resolve (rn_host e) (he_resolve (rn_host e) (dbcFilePath teslaModel3)))
      = Some (text_of model3_dbc)"
    and "transports DemoSource = demo_script m clk n"
  shows "\<exists>k sv sigs. live_run e transports ''demo'' vehicle ''raw'' [] rawOpens csvOpens True sv0 = (ExitCode 0, k, sv) \<and>
    stream_text StdoutStream (rs_console k) = csvHeaderLine @ [LF] @
      concat (map (\<lambda>s. csvRowLine (rn_numbers e) (signal_row (fromUserInput vehicle) s) @ [LF]) sigs) \<and>
    length sigs = n \<and> (\<forall>i<n. gearSelector (sigs ! i) = Some AUTO_1 \<and> timestampUtcMs (sigs ! i) = clk i)"
proof -
  obtain ls where ls: "demo_lines m (snd (demo_open (demo_transport_new n))) = Some ls" "length ls = n"
    using demo_lines_from[of "snd (demo_open (demo_transport_new n))" m]
    by (simp add: demo_open_def demo_transport_new_def)
  let ?d = "rn_host e" and ?v = "fromUserInput vehicle"
  let ?lines = "map (\<lambda>(i, l). ([], clk i, l)) (zip [0 ..< n] ls) :: (transport_message list \<times> u64 \<times> string) list"
  from demo_resolves[OF assms(1-3), of "rn_ids e" clk ls] obtain sv where sv:
    "resolveVehicle (rn_host e) (rn_ids e) vehicle sv0 = (Inr (teslaModel3, CAN), demo_service sv ?d clk ls 0)"
    "sv_db sv = host_db (rn_host e)" "sv_loaded sv" "sv_vehicleId sv = vehicle" by blast
  have vid: "sv_vehicleId (demo_service sv ?d clk ls i) = vehicle" for i using sv(4) by (simp add: demo_service_def)
  let ?k4 = "add_reporters e True vehicle vehicle (say [(StderrStream, ''Streaming '' @ forLog ''demo'' @ '' ('' @ forLog vehicle
      @ '')'' @ [LF]), (StderrStream, ''Press Ctrl+C to stop'' @ [LF, LF])] (say [] sinks_new))"
  have p: "piped (rn_numbers e) ?v ?k4"
    by (simp add: piped_def add_reporters_def Let_def composite_add_def createStdoutSink_def narrative_stream_def)
  from demo_loop[of e m n ls 0 sv ?v ?k4 clk stats_new, OF assms(2) ls _ sv(2,3) p] obtain st1 k1 where l:
    "live_loop e False \<lparr>ro_decoded = False, ro_raw = False, ro_progress = True\<rparr> ?lines (demo_service sv ?d clk ls 0, stats_new) ?k4
      = (True, (demo_service sv ?d clk ls n, st1), k1)"
    "stream_text StdoutStream (rs_console k1) = stream_text StdoutStream (rs_console ?k4) @
      concat (map (\<lambda>j. csvRowLine (rn_numbers e) (signal_row ?v (demo_sig ?d clk ls j)) @ [LF]) [0 ..< n])"
    by auto
  let ?k = "say [(StderrStream, LF # stats_text st1), (StderrStream, ''Goodbye!'' @ [LF])] (say [] (say [] k1))"
  have tp: "transports (buildPipelineSource ''demo'' ''raw'') =
      Some \<lparr>tp_opening = [], tp_opens = True, tp_lines = ?lines, tp_ending = []\<rparr>"
    using assms(4) ls by (simp add: buildPipelineSource_def demo_script_def demo_open_def)
  have "live_run e transports ''demo'' vehicle ''raw'' [] rawOpens csvOpens True sv0
      = (ExitCode 0, ?k, demo_service sv ?d clk ls n)"
    using sv(1) l(1) by (simp add: live_run_def tp vid narrative_stream_def Let_def)
  moreover have "stream_text StdoutStream (rs_console ?k) = csvHeaderLine @ [LF] @
      concat (map (\<lambda>s. csvRowLine (rn_numbers e) (signal_row ?v s) @ [LF]) (map (demo_sig ?d clk ls) [0 ..< n]))"
    using l(2) by (simp add: add_reporters_def Let_def createStdoutSink_def sinks_new_def comp_def)
  ultimately show ?thesis
    using demo_sig_gear(1,2)[OF assms(2) ls(1), of _ clk]
    by (intro exI[of _ ?k] exI[of _ "demo_service sv ?d clk ls n"] exI[of _ "map (demo_sig ?d clk ls) [0 ..< n]"])
      (simp del: say_fields)
qed

definition ex_demo_env :: "string run_env" where
  "ex_demo_env = \<lparr>rn_host = \<lparr>he_fp = ex_strfp, he_stod = Some, he_files = (\<lambda>_. Some (text_of model3_dbc)),
       he_resolve = id, he_candidates = (\<lambda>_. [])\<rparr>,
     rn_screen = \<lparr>sc_fixed = (\<lambda>_. id), sc_fp = ex_strfp\<rparr>,
     rn_numbers = \<lparr>cn_stod = (\<lambda>_. None), cn_hundredths = (\<lambda>_. 0), cn_zero = [], cn_u64 = (\<lambda>_. 0)\<rparr>, rn_ids = [''tesla'']\<rparr>"

theorem a_demo_run_prints_a_drive_in_d_witness:
  "\<exists>k sv sigs. live_run ex_demo_env (\<lambda>_. demo_script ex_math (\<lambda>_. 7) 2) ''demo'' ''tesla'' ''raw'' [] False False True
      (service_new (\<lambda>_. Some teslaModel3)) = (ExitCode 0, k, sv) \<and>
    stream_text StdoutStream (rs_console k) = csvHeaderLine @ [LF] @
      concat (map (\<lambda>s. csvRowLine (rn_numbers ex_demo_env) (signal_row (fromUserInput ''tesla'') s) @ [LF]) sigs) \<and>
    length sigs = 2 \<and> gearSelector (sigs ! 1) = Some AUTO_1"
proof -
  have "\<exists>k sv sigs. live_run ex_demo_env (\<lambda>_. demo_script ex_math (\<lambda>_. 7) 2) ''demo'' ''tesla'' ''raw'' [] False False True
      (service_new (\<lambda>_. Some teslaModel3)) = (ExitCode 0, k, sv) \<and>
    stream_text StdoutStream (rs_console k) = csvHeaderLine @ [LF] @
      concat (map (\<lambda>s. csvRowLine (rn_numbers ex_demo_env) (signal_row (fromUserInput ''tesla'') s) @ [LF]) sigs) \<and>
    length sigs = 2 \<and> (\<forall>i<2. gearSelector (sigs ! i) = Some AUTO_1 \<and> timestampUtcMs (sigs ! i) = 7)"
    by (rule a_demo_run_prints_a_drive_in_d)
      (simp_all add: service_new_def ex_demo_env_def reads_decimals_def)
  then obtain k sv sigs where w: "live_run ex_demo_env (\<lambda>_. demo_script ex_math (\<lambda>_. 7) 2) ''demo'' ''tesla'' ''raw'' [] False False True
      (service_new (\<lambda>_. Some teslaModel3)) = (ExitCode 0, k, sv)"
    "stream_text StdoutStream (rs_console k) = csvHeaderLine @ [LF] @
      concat (map (\<lambda>s. csvRowLine (rn_numbers ex_demo_env) (signal_row (fromUserInput ''tesla'') s) @ [LF]) sigs)"
    "length sigs = 2" "\<forall>i<2. gearSelector (sigs ! i) = Some AUTO_1 \<and> timestampUtcMs (sigs ! i) = 7"
    by (elim exE conjE) (rule that)
  have "gearSelector (sigs ! 1) = Some AUTO_1" using w(4) by simp
  with w(1-3) show ?thesis by (intro exI[of _ k] exI[of _ sv] exI[of _ sigs] conjI)
qed

end
